(* ===== verification/Go_Prelude.thy ===== *)
theory Go_Prelude
  imports Complex_Main "HOL-Library.AList" "HOL-Library.Char_ord" "HOL-Library.List_Lexorder"
    "HOL-Library.Sublist" "HOL-Library.Multiset"
begin

text \<open>
  The vocabulary every component of the development shares: Go errors with their wrapping
  chain, dynamically typed values (\<open>interface{}\<close>), Go maps, decimal formatting, the functions
  of package \<open>strings\<close> that the sources call, and the lemmas about them.

  A Go map is an association list with distinct keys. The order of the list stands for the
  order in which a \<open>range\<close> loop happens to visit the entries, so a theorem about every list is a
  theorem about every iteration order. Reading a missing key gives the zero value in Go; the
  model reads with \<open>map_of\<close> and writes the zero value out.
\<close>

section \<open>Values, maps and errors\<close>

type_synonym 'v smap = "(string \<times> 'v) list"

datatype any =
    ANil
  | ABool bool
  | AInt int
  | AFloat rat
  | AStr string
  | AList "any list"
  | AMap "(string \<times> any) list"

text \<open>
  \<open>Errorf\<close> is \<open>fmt.Errorf\<close> or \<open>errors.New\<close> without a wrapped error, \<open>Wrap\<close> is
  \<open>fmt.Errorf("prefix: %w", err)\<close>; the two sentinel errors of package \<open>context\<close> are
  constructors of their own because the sources test for them with \<open>errors.Is\<close>.
\<close>

datatype gerror =
    Errorf string
  | Wrap string gerror
  | Canceled
  | DeadlineExceeded

fun error_string :: "gerror \<Rightarrow> string" where
  "error_string (Errorf s) = s"
| "error_string (Wrap s e) = s @ error_string e"
| "error_string Canceled = ''context canceled''"
| "error_string DeadlineExceeded = ''context deadline exceeded''"

fun errors_is :: "gerror \<Rightarrow> gerror \<Rightarrow> bool" where
  "errors_is (Wrap s e) target = (Wrap s e = target \<or> errors_is e target)"
| "errors_is e target = (e = target)"

named_theorems go_defs \<open>definitions of straight-line Go code\<close>
named_theorems go_map \<open>rules about Go maps as association lists\<close>

abbreviation keys :: "('k \<times> 'v) list \<Rightarrow> 'k list" where
  "keys m \<equiv> map fst m"

abbreviation wf_map :: "('k \<times> 'v) list \<Rightarrow> bool" where
  "wf_map m \<equiv> distinct (keys m)"

definition has_key :: "('k \<times> 'v) list \<Rightarrow> 'k \<Rightarrow> bool" where
  "has_key m k = (case map_of m k of None \<Rightarrow> False | Some _ \<Rightarrow> True)"

definition get_int :: "('k \<times> int) list \<Rightarrow> 'k \<Rightarrow> int" where
  "get_int m k = (case map_of m k of None \<Rightarrow> 0 | Some v \<Rightarrow> v)"

definition get_list :: "('k \<times> 'v list) list \<Rightarrow> 'k \<Rightarrow> 'v list" where
  "get_list m k = (case map_of m k of None \<Rightarrow> [] | Some v \<Rightarrow> v)"

text \<open>\<open>m[k] += x\<close> on a map of integers, with the zero value for a missing key.\<close>

definition add_int :: "'k \<Rightarrow> int \<Rightarrow> ('k \<times> int) list \<Rightarrow> ('k \<times> int) list" where
  "add_int k x m = AList.update k (get_int m k + x) m"

lemma has_key_iff [go_map]: "has_key m k \<longleftrightarrow> k \<in> set (keys m)"
proof (cases "map_of m k")
  case None
  moreover from None have "k \<notin> fst ` set m" by (simp only: map_of_eq_None_iff not_False_eq_True)
  ultimately show ?thesis by (simp add: has_key_def)
next
  case (Some v)
  then have "k \<in> fst ` set m" by (auto dest: map_of_SomeD intro: rev_image_eqI)
  with Some show ?thesis by (simp add: has_key_def)
qed

lemma keys_update_old [go_map]: "k \<in> set (keys m) \<Longrightarrow> keys (AList.update k v m) = keys m"
  by (simp add: AList.update_keys)

lemma keys_update_new [go_map]: "k \<notin> set (keys m) \<Longrightarrow> keys (AList.update k v m) = keys m @ [k]"
  by (simp add: AList.update_keys)

lemma set_keys_update [go_map, simp]: "fst ` set (AList.update k v m) = insert k (fst ` set m)"
  by (simp add: AList.dom_update)

lemma set_update_subset [go_map]: "set (AList.update k v m) \<subseteq> insert (k, v) (set m)"
  by (induction m) auto

lemma wf_map_update [go_map]: "wf_map m \<Longrightarrow> wf_map (AList.update k v m)"
  by (simp add: AList.update_keys)

lemma wf_map_delete [go_map]: "wf_map m \<Longrightarrow> wf_map (AList.delete k m)"
  by (simp add: AList.delete_keys distinct_removeAll)

lemma map_of_update [go_map, simp]: "map_of (AList.update k v m) = (map_of m)(k \<mapsto> v)"
  by (rule AList.update_conv')

lemma map_of_snoc [go_map]: "k \<notin> set (keys m) \<Longrightarrow> map_of (m @ [(k, v)]) = (map_of m)(k \<mapsto> v)"
  by (induction m) auto

lemma get_int_add_int [simp]: "get_int (add_int k x m) j = get_int m j + (if j = k then x else 0)"
  by (auto simp: add_int_def get_int_def)

lemma keys_add_int [go_map]: "k \<in> set (keys m) \<Longrightarrow> keys (add_int k x m) = keys m"
  by (simp add: add_int_def AList.update_keys)

lemma set_keys_add_int [go_map, simp]: "fst ` set (add_int k x m) = insert k (fst ` set m)"
  by (simp add: add_int_def)

lemma wf_map_add_int [go_map]: "wf_map m \<Longrightarrow> wf_map (add_int k x m)"
  by (simp add: add_int_def AList.update_keys)

section \<open>Decimal formatting: the verb \<open>%d\<close>\<close>

fun nat_digits :: "nat \<Rightarrow> string" where
  "nat_digits n = (if n < 10 then [char_of (48 + n)]
                   else nat_digits (n div 10) @ [char_of (48 + n mod 10)])"

declare nat_digits.simps [simp del]

definition itoa :: "int \<Rightarrow> string" where
  "itoa i = (if i < 0 then CHR ''-'' # nat_digits (nat (- i)) else nat_digits (nat i))"

lemma nat_digits_nonempty [simp]: "nat_digits n \<noteq> []"
  by (subst nat_digits.simps) simp

section \<open>Package strings\<close>

definition HasPrefix :: "string \<Rightarrow> string \<Rightarrow> bool" where
  "HasPrefix s p = (take (length p) s = p)"

definition TrimPrefix :: "string \<Rightarrow> string \<Rightarrow> string" where
  "TrimPrefix s p = (if HasPrefix s p then drop (length p) s else s)"

fun Contains :: "string \<Rightarrow> string \<Rightarrow> bool" where
  "Contains [] p = (p = [])"
| "Contains (c # s) p = (HasPrefix (c # s) p \<or> Contains s p)"

definition to_lower_char :: "char \<Rightarrow> char" where
  "to_lower_char c = (let n = (of_char c :: nat) in if 65 \<le> n \<and> n \<le> 90 then char_of (n + 32) else c)"

text \<open>\<open>strings.ToLower\<close> on the ASCII range, the only one the sources compare against.\<close>

definition ToLower :: "string \<Rightarrow> string" where
  "ToLower s = map to_lower_char s"

fun Join :: "string list \<Rightarrow> string \<Rightarrow> string" where
  "Join [] sep = []"
| "Join [x] sep = x"
| "Join (x # y # xs) sep = x @ sep @ Join (y # xs) sep"

lemma HasPrefix_append [simp]: "HasPrefix (p @ s) p"
  by (simp add: HasPrefix_def)

lemma HasPrefixE:
  assumes "HasPrefix s p"
  obtains r where "s = p @ r"
proof
  show "s = p @ drop (length p) s"
    using assms unfolding HasPrefix_def by (metis append_take_drop_id)
qed

lemma TrimPrefix_append [simp]: "TrimPrefix (p @ s) p = s"
  by (simp add: TrimPrefix_def)

lemma Contains_prefix: "HasPrefix s p \<Longrightarrow> Contains s p"
  by (cases s) (auto simp: HasPrefix_def)

lemma Contains_append: "Contains (xs @ p @ ys) p"
  by (induction xs) (simp_all add: Contains_prefix)

section \<open>Arithmetic\<close>

text \<open>Division of Go integers truncates towards zero.\<close>

definition go_div :: "int \<Rightarrow> int \<Rightarrow> int" where
  "go_div a b = (if (a < 0) = (b < 0) then \<bar>a\<bar> div \<bar>b\<bar> else - (\<bar>a\<bar> div \<bar>b\<bar>))"

lemma go_div_pos: "0 < b \<Longrightarrow> 0 \<le> a \<Longrightarrow> go_div a b = a div b"
  by (simp add: go_div_def)

lemma go_div_neg: "0 < b \<Longrightarrow> a < 0 \<Longrightarrow> go_div a b \<le> 0"
  by (simp add: go_div_def pos_imp_zdiv_nonneg_iff)

text \<open>
  A \<open>float64\<close> where the sources can divide by zero: rationals in place of the finite values, the two
  infinities and NaN, without rounding and without a negative zero.
\<close>

datatype gofloat = Fin rat | PInf | MInf | NaN

fun fl_add :: "gofloat \<Rightarrow> gofloat \<Rightarrow> gofloat" where
  "fl_add (Fin x) (Fin y) = Fin (x + y)"
| "fl_add NaN y = NaN"
| "fl_add x NaN = NaN"
| "fl_add PInf MInf = NaN"
| "fl_add MInf PInf = NaN"
| "fl_add PInf y = PInf"
| "fl_add MInf y = MInf"
| "fl_add x PInf = PInf"
| "fl_add x MInf = MInf"

fun fl_sign :: "gofloat \<Rightarrow> rat" where
  "fl_sign (Fin x) = x"
| "fl_sign PInf = 1"
| "fl_sign MInf = - 1"
| "fl_sign NaN = 0"

definition fl_inf :: "rat \<Rightarrow> gofloat" where
  "fl_inf sg = (if sg > 0 then PInf else if sg < 0 then MInf else NaN)"

fun fl_mul :: "gofloat \<Rightarrow> gofloat \<Rightarrow> gofloat" where
  "fl_mul (Fin x) (Fin y) = Fin (x * y)"
| "fl_mul NaN y = NaN"
| "fl_mul x NaN = NaN"
| "fl_mul x y = fl_inf (fl_sign x * fl_sign y)"

fun fl_div :: "gofloat \<Rightarrow> gofloat \<Rightarrow> gofloat" where
  "fl_div (Fin x) (Fin y) = (if y \<noteq> 0 then Fin (x / y) else fl_inf x)"
| "fl_div NaN y = NaN"
| "fl_div x NaN = NaN"
| "fl_div (Fin x) y = Fin 0"
| "fl_div x (Fin y) = fl_inf (fl_sign x * (if y < 0 then - 1 else 1))"
| "fl_div x y = NaN"

fun fl_less :: "gofloat \<Rightarrow> gofloat \<Rightarrow> bool" where
  "fl_less (Fin x) (Fin y) = (x < y)"
| "fl_less NaN y = False"
| "fl_less x NaN = False"
| "fl_less MInf y = (y \<noteq> MInf)"
| "fl_less PInf y = False"
| "fl_less x y = (y = PInf)"

section \<open>Integers of 64 bits\<close>

text \<open>The value a signed integer of 64 bits has after an operation whose exact result is \<open>x\<close>.\<close>

definition wrap64 :: "int \<Rightarrow> int" where
  "wrap64 x = (x + 2 ^ 63) mod 2 ^ 64 - 2 ^ 63"

lemma wrap64_mod: "wrap64 x mod 2 ^ 64 = x mod 2 ^ 64"
proof -
  have "((x + 2 ^ 63) mod 2 ^ 64 - 2 ^ 63) mod 2 ^ 64 = (x + 2 ^ 63 - 2 ^ 63) mod (2 ^ 64 :: int)" by (rule mod_diff_left_eq)
  then show ?thesis by (simp add: wrap64_def)
qed

lemma wrap64_fits: "- (2 ^ 63) \<le> x \<Longrightarrow> x < 2 ^ 63 \<Longrightarrow> wrap64 x = x"
  by (simp add: wrap64_def mod_pos_pos_trivial)

section \<open>Lists\<close>

lemma count_list_0_iff_notin: "count_list xs x = 0 \<longleftrightarrow> x \<notin> set xs"
  by (simp add: count_list_0_iff)

lemma remove1_snoc_notin: "x \<notin> set xs \<Longrightarrow> remove1 x (xs @ [x]) = xs"
  by (simp add: remove1_append)

lemma fold_keeps:
  assumes "\<And>x s. x \<in> set xs \<Longrightarrow> P s \<Longrightarrow> P (f x s)" and "P s"
  shows "P (fold f xs s)"
  using assms by (induction xs arbitrary: s) auto

text \<open>A map that keeps the sort key commutes with sorting.\<close>

lemma insort_key_map: "insort_key f (h x) (map h xs) = map h (insort_key (\<lambda>y. f (h y)) x xs)"
  by (induction xs) auto

lemma sort_key_map: "sort_key f (map h xs) = map h (sort_key (\<lambda>y. f (h y)) xs)"
  by (induction xs) (simp_all add: sort_key_def insort_key_map)

lemma insort_key_cong: "f x = g x \<Longrightarrow> (\<And>y. y \<in> set ys \<Longrightarrow> f y = g y) \<Longrightarrow> insort_key f x ys = insort_key g x ys"
  by (induction ys) auto

lemma sort_key_cong: "(\<And>x. x \<in> set xs \<Longrightarrow> f x = g x) \<Longrightarrow> sort_key f xs = sort_key g xs"
proof (induction xs)
  case (Cons x xs)
  have "insort_key f x (sort_key g xs) = insort_key g x (sort_key g xs)" by (rule insort_key_cong) (use Cons.prems in auto)
  moreover have "sort_key f xs = sort_key g xs" by (rule Cons.IH) (use Cons.prems in auto)
  ultimately show ?case by simp
qed simp

text \<open>Two sorted lists without duplicates and with the same elements are equal.\<close>

lemma sorted_distinct_unique:
  fixes xs ys :: "string list"
  shows "sorted xs \<Longrightarrow> sorted ys \<Longrightarrow> distinct xs \<Longrightarrow> distinct ys \<Longrightarrow> set xs = set ys \<Longrightarrow> xs = ys"
  by (rule sorted_distinct_set_unique)

end
