(* ===== verification/Workflow_Dag.thy ===== *)
theory Workflow_Dag
  imports Go_Prelude
begin

text \<open>
  The workflow graph, \<open>pkg/workflow/dag.go\<close>: nodes, edges, cycle detection by depth-first
  search, construction and validation. Scheduling is in \<open>Workflow_Levels\<close>.

  An operation that changes the receiver returns the new graph beside the error. An edge
  \<open>u \<rightarrow> v\<close> is an entry \<open>v\<close> of \<open>Edges[u]\<close>.
\<close>

section \<open>Data\<close>

definition NodeTypeAgent :: string where
  "NodeTypeAgent = ''agent''"

definition NodeTypeApproval :: string where
  "NodeTypeApproval = ''approval''"

record Node =
  node_ID :: string
  node_Name :: string
  node_Type :: string
  node_Agent :: string
  node_Goal :: string
  node_Condition :: string
  node_OutputKey :: string
  node_Timeout :: string
  node_Retry :: int
  node_Dependencies :: "string list"
  node_Metadata :: "any smap"
  node_Approvers :: "string list"
  node_ApprovalMessage :: string

record DAG =
  dag_Nodes :: "Node smap"
  dag_Edges :: "string list smap"

definition NewDAG :: DAG where
  "NewDAG = \<lparr>dag_Nodes = [], dag_Edges = []\<rparr>"

abbreviation edges_of :: "DAG \<Rightarrow> string \<Rightarrow> string list" where
  "edges_of d \<equiv> get_list (dag_Edges d)"

abbreviation node_ids :: "DAG \<Rightarrow> string list" where
  "node_ids d \<equiv> keys (dag_Nodes d)"

section \<open>Cycle detection\<close>

text \<open>
  \<open>hasCycleDFS\<close> and its loop over the neighbours. The two maps \<open>visited\<close> and \<open>recStack\<close> are the
  state; the first argument is fuel, spent once per recursive call, and \<open>None\<close> means it ran out.
  Every call marks a node that was not visited, so the number of vertices is always enough.
\<close>

type_synonym dfs_state = "(string \<Rightarrow> bool) \<times> (string \<Rightarrow> bool)"

function (sequential) hasCycleDFS ::
    "nat \<Rightarrow> (string \<Rightarrow> string list) \<Rightarrow> string \<Rightarrow> dfs_state \<Rightarrow> (bool \<times> dfs_state) option"
  and hasCycleScan ::
    "nat \<Rightarrow> (string \<Rightarrow> string list) \<Rightarrow> string list \<Rightarrow> dfs_state \<Rightarrow> (bool \<times> dfs_state) option" where
  "hasCycleDFS 0 E n st = None"
| "hasCycleDFS (Suc f) E n (visited, recStack) =
     (case hasCycleScan f E (E n) (visited(n := True), recStack(n := True)) of
        None \<Rightarrow> None
      | Some (True, st) \<Rightarrow> Some (True, st)
      | Some (False, (visited', recStack')) \<Rightarrow> Some (False, (visited', recStack'(n := False))))"
| "hasCycleScan f E [] st = Some (False, st)"
| "hasCycleScan f E (m # ms) (visited, recStack) =
     (if \<not> visited m then
        (case hasCycleDFS f E m (visited, recStack) of
           None \<Rightarrow> None
         | Some (True, st) \<Rightarrow> Some (True, st)
         | Some (False, st) \<Rightarrow> hasCycleScan f E ms st)
      else if recStack m then Some (True, (visited, recStack))
      else hasCycleScan f E ms (visited, recStack))"
  by pat_completeness auto
termination
  by (relation "measures [\<lambda>x. case x of Inl (f, _) \<Rightarrow> f | Inr (f, _) \<Rightarrow> f,
                          \<lambda>x. case x of Inl _ \<Rightarrow> 0 | Inr (_, _, ms, _) \<Rightarrow> Suc (length ms)]") auto

fun hasCycleRange ::
    "nat \<Rightarrow> (string \<Rightarrow> string list) \<Rightarrow> string list \<Rightarrow> dfs_state \<Rightarrow> bool option" where
  "hasCycleRange f E [] st = Some False"
| "hasCycleRange f E (n # ns) (visited, recStack) =
     (if \<not> visited n then
        (case hasCycleDFS f E n (visited, recStack) of
           None \<Rightarrow> None
         | Some (True, st) \<Rightarrow> Some True
         | Some (False, st) \<Rightarrow> hasCycleRange f E ns st)
      else hasCycleRange f E ns (visited, recStack))"

definition vertices :: "DAG \<Rightarrow> string list" where
  "vertices d = node_ids d @ concat (map snd (dag_Edges d))"

definition hasCycle :: "DAG \<Rightarrow> bool" where
  "hasCycle d = (hasCycleRange (length (vertices d)) (edges_of d) (node_ids d)
                   ((\<lambda>_. False), (\<lambda>_. False)) = Some True)"

section \<open>Building a graph\<close>

definition AddNode :: "Node \<Rightarrow> DAG \<Rightarrow> DAG \<times> gerror option" where
  "AddNode node d =
     (if node_ID node = [] then (d, Some (Errorf ''node ID is required''))
      else if has_key (dag_Nodes d) (node_ID node)
      then (d, Some (Errorf (''node '' @ node_ID node @ '' already exists'')))
      else (d\<lparr>dag_Nodes := AList.update (node_ID node) node (dag_Nodes d),
              dag_Edges := AList.update (node_ID node) [] (dag_Edges d)\<rparr>, None))"

text \<open>\<open>AddEdge\<close> appends first and takes the first occurrence of \<open>to\<close> out again on a cycle.\<close>

definition AddEdge :: "string \<Rightarrow> string \<Rightarrow> DAG \<Rightarrow> DAG \<times> gerror option" where
  "AddEdge from to d =
     (if \<not> has_key (dag_Nodes d) from
      then (d, Some (Errorf (''node '' @ from @ '' does not exist'')))
      else if \<not> has_key (dag_Nodes d) to
      then (d, Some (Errorf (''node '' @ to @ '' does not exist'')))
      else let d1 = d\<lparr>dag_Edges := AList.update from (edges_of d from @ [to]) (dag_Edges d)\<rparr>
           in if hasCycle d1
              then (d1\<lparr>dag_Edges := AList.update from (remove1 to (edges_of d1 from)) (dag_Edges d1)\<rparr>,
                    Some (Errorf (''adding edge '' @ from @ '' -> '' @ to @ '' would create a cycle'')))
              else (d1, None))"

section \<open>Validation\<close>

text \<open>The inner loop of the check that every edge references existing nodes.\<close>

fun checkDeps :: "Node smap \<Rightarrow> string \<Rightarrow> string list \<Rightarrow> gerror option" where
  "checkDeps ns n [] = None"
| "checkDeps ns n (dep # deps) =
     (if \<not> has_key ns dep
      then Some (Errorf (''edge from '' @ n @ '' references non-existent node: '' @ dep))
      else checkDeps ns n deps)"

fun checkEdges :: "Node smap \<Rightarrow> string list smap \<Rightarrow> gerror option" where
  "checkEdges ns [] = None"
| "checkEdges ns ((n, deps) # es) =
     (if \<not> has_key ns n
      then Some (Errorf (''edge references non-existent node: '' @ n))
      else case checkDeps ns n deps of
             Some e \<Rightarrow> Some e
           | None \<Rightarrow> checkEdges ns es)"

definition Validate :: "DAG \<Rightarrow> gerror option" where
  "Validate d =
     (if length (dag_Nodes d) = 0 then Some (Errorf ''DAG has no nodes'')
      else if hasCycle d then Some (Errorf ''DAG contains a cycle'')
      else checkEdges (dag_Nodes d) (dag_Edges d))"

section \<open>Depth-first search is exact\<close>

text \<open>The successor relation of an adjacency function.\<close>

definition succ_rel :: "(string \<Rightarrow> string list) \<Rightarrow> (string \<times> string) set" where
  "succ_rel E = {(u, v). v \<in> set (E u)}"

lemma succ_relI [intro]: "v \<in> set (E u) \<Longrightarrow> (u, v) \<in> succ_rel E"
  by (simp add: succ_rel_def)

lemma succ_relD [dest]: "(u, v) \<in> succ_rel E \<Longrightarrow> v \<in> set (E u)"
  by (simp add: succ_rel_def)

text \<open>
  A finished node is visited and no longer on the stack. \<open>dfs_inv\<close> says that the finished
  nodes are closed under successors and lie on no cycle.
\<close>

definition finished :: "dfs_state \<Rightarrow> string set" where
  "finished st = {x. fst st x \<and> \<not> snd st x}"

definition dfs_inv :: "(string \<Rightarrow> string list) \<Rightarrow> dfs_state \<Rightarrow> bool" where
  "dfs_inv E st \<longleftrightarrow>
     (\<forall>x \<in> finished st. set (E x) \<subseteq> finished st) \<and> (\<forall>x \<in> finished st. (x, x) \<notin> (succ_rel E)\<^sup>+)"

lemma closed_trancl:
  assumes "(x, y) \<in> (succ_rel E)\<^sup>+" and "\<forall>z \<in> B. set (E z) \<subseteq> B" and "set (E x) \<subseteq> B"
  shows "y \<in> B"
  using assms(1) by (induction rule: trancl_induct) (use assms(2,3) in blast)+

text \<open>Marking never forgets a visited node.\<close>

lemma dfs_visited_mono:
  "hasCycleDFS f E n st = Some (b, st') \<Longrightarrow> (\<forall>x. fst st x \<longrightarrow> fst st' x)"
  "hasCycleScan f E ms st = Some (b, st') \<Longrightarrow> (\<forall>x. fst st x \<longrightarrow> fst st' x)"
proof (induction f E n st and f E ms st arbitrary: b st' and b st'
    rule: hasCycleDFS_hasCycleScan.induct)
  case (2 f E n visited recStack)
  from "2.prems" obtain b1 st1 where
    scan: "hasCycleScan f E (E n) (visited(n := True), recStack(n := True)) = Some (b1, st1)"
    and st': "fst st' = fst st1"
    by (auto split: option.splits prod.splits bool.splits)
  from "2.IH"[OF scan] st' show ?case by auto
next
  case (4 f E m ms visited recStack)
  show ?case
  proof (cases "visited m")
    case True
    with 4 show ?thesis by (auto split: if_splits)
  next
    case False
    with "4.prems" obtain b1 st1 where
      dfs: "hasCycleDFS f E m (visited, recStack) = Some (b1, st1)"
      and rest: "(b1 \<and> st' = st1) \<or> hasCycleScan f E ms st1 = Some (b, st')"
      by (auto split: option.splits prod.splits bool.splits)
    from "4.IH"(1)[OF False dfs] have "\<forall>x. visited x \<longrightarrow> fst st1 x" by simp
    with rest dfs "4.IH"(2)[OF False dfs] False "4.prems" show ?thesis
      by (cases b1) auto
  qed
qed auto

text \<open>A search that finds no cycle leaves the recursion stack as it was.\<close>

abbreviation stack_visited :: "dfs_state \<Rightarrow> bool" where
  "stack_visited st \<equiv> \<forall>x. snd st x \<longrightarrow> fst st x"

lemma dfs_restores:
  "stack_visited st \<Longrightarrow> \<not> fst st n \<Longrightarrow> hasCycleDFS f E n st = Some (False, st') \<Longrightarrow>
     snd st' = snd st \<and> fst st' n"
  "stack_visited st \<Longrightarrow> hasCycleScan f E ms st = Some (False, st') \<Longrightarrow> snd st' = snd st"
proof (induction f E n st and f E ms st arbitrary: st' and st'
    rule: hasCycleDFS_hasCycleScan.induct)
  case (2 f E n visited recStack)
  from "2.prems" obtain st1 where
    scan: "hasCycleScan f E (E n) (visited(n := True), recStack(n := True)) = Some (False, st1)"
    and st': "st' = (fst st1, (snd st1)(n := False))"
    by (auto split: option.splits prod.splits bool.splits)
  from "2.prems"(1) have sv: "stack_visited (visited(n := True), recStack(n := True))" by auto
  from "2.IH"[OF sv scan] have "snd st1 = recStack(n := True)" by (simp only: snd_conv)
  moreover have "fst st1 n" using dfs_visited_mono(2)[OF scan] by simp
  ultimately show ?case using st' "2.prems"(1,2) by (auto simp: fun_upd_idem)
next
  case (4 f E m ms visited recStack)
  show ?case
  proof (cases "visited m")
    case True
    with 4 show ?thesis by (auto split: if_splits)
  next
    case False
    with "4.prems" obtain st1 where
      dfs: "hasCycleDFS f E m (visited, recStack) = Some (False, st1)"
      and rest: "hasCycleScan f E ms st1 = Some (False, st')"
      by (auto split: option.splits prod.splits bool.splits)
    from "4.IH"(1)[OF False _ _ dfs] "4.prems"(1) False have same: "snd st1 = recStack" by simp
    with dfs_visited_mono(1)[OF dfs] "4.prems"(1) have "stack_visited st1" by simp
    from "4.IH"(2)[OF False dfs refl refl this rest] same show ?thesis by simp
  qed
qed auto

text \<open>A reported cycle is one: every node on the stack reaches the node being searched.\<close>

lemma dfs_sound:
  "stack_visited st \<Longrightarrow> \<not> fst st n \<Longrightarrow> \<forall>g. snd st g \<longrightarrow> (g, n) \<in> (succ_rel E)\<^sup>* \<Longrightarrow>
     hasCycleDFS f E n st = Some (True, st') \<Longrightarrow> \<exists>x. (x, x) \<in> (succ_rel E)\<^sup>+"
  "stack_visited st \<Longrightarrow> set ms \<subseteq> set (E p) \<Longrightarrow> \<forall>g. snd st g \<longrightarrow> (g, p) \<in> (succ_rel E)\<^sup>* \<Longrightarrow>
     hasCycleScan f E ms st = Some (True, st') \<Longrightarrow> \<exists>x. (x, x) \<in> (succ_rel E)\<^sup>+"
proof (induction f E n st and f E ms st arbitrary: st' and st' p
    rule: hasCycleDFS_hasCycleScan.induct)
  case (2 f E n visited recStack)
  from "2.prems" obtain st1 where
    scan: "hasCycleScan f E (E n) (visited(n := True), recStack(n := True)) = Some (True, st1)"
    by (auto split: option.splits prod.splits bool.splits)
  show ?case by (rule "2.IH"[OF _ _ _ scan, where p = n]) (use "2.prems" in auto)
next
  case (4 f E m ms visited recStack)
  have edge: "(p, m) \<in> succ_rel E" using "4.prems"(2) by auto
  show ?case
  proof (cases "visited m")
    case True
    show ?thesis
    proof (cases "recStack m")
      case True
      with "4.prems"(3) have "(m, p) \<in> (succ_rel E)\<^sup>*" by simp
      from this edge have "(m, m) \<in> (succ_rel E)\<^sup>+" by (rule rtrancl_into_trancl1)
      then show ?thesis by blast
    next
      case False
      with \<open>visited m\<close> "4.prems"(4)
      have rest: "hasCycleScan f E ms (visited, recStack) = Some (True, st')" by simp
      have "set ms \<subseteq> set (E p)" using "4.prems"(2) by simp
      with False \<open>visited m\<close> show ?thesis
        using "4.IH"(3)[OF _ False "4.prems"(1) _ "4.prems"(3) rest] by blast
    qed
  next
    case False
    with "4.prems" obtain b1 st1 where
      dfs: "hasCycleDFS f E m (visited, recStack) = Some (b1, st1)"
      and rest: "\<not> b1 \<Longrightarrow> hasCycleScan f E ms st1 = Some (True, st')"
      by (auto split: option.splits prod.splits bool.splits)
    show ?thesis
    proof (cases b1)
      case True
      have "\<forall>g. snd (visited, recStack) g \<longrightarrow> (g, m) \<in> (succ_rel E)\<^sup>*"
        using "4.prems"(3) edge by (auto intro: rtrancl_into_rtrancl)
      with "4.IH"(1)[OF False "4.prems"(1)] False dfs True show ?thesis by auto
    next
      case b1: False
      then have dfs': "hasCycleDFS f E m (visited, recStack) = Some (False, st1)" using dfs by simp
      have nv: "\<not> fst (visited, recStack) m" using False by simp
      from dfs_restores(1)[OF "4.prems"(1) nv dfs'] have same: "snd st1 = recStack" by simp
      with dfs_visited_mono(1)[OF dfs] "4.prems"(1) have sv1: "stack_visited st1" by simp
      have "set ms \<subseteq> set (E p)" using "4.prems"(2) by simp
      from "4.IH"(2)[OF False dfs' refl refl sv1 this _ rest[OF b1]] same "4.prems"(3)
      show ?thesis by simp
    qed
  qed
qed auto

text \<open>A search that reports no cycle has finished everything it started.\<close>

lemma dfs_complete:
  "stack_visited st \<Longrightarrow> \<not> fst st n \<Longrightarrow> dfs_inv E st \<Longrightarrow> hasCycleDFS f E n st = Some (False, st') \<Longrightarrow>
     dfs_inv E st' \<and> n \<in> finished st' \<and> finished st \<subseteq> finished st'"
  "stack_visited st \<Longrightarrow> dfs_inv E st \<Longrightarrow> hasCycleScan f E ms st = Some (False, st') \<Longrightarrow>
     dfs_inv E st' \<and> set ms \<subseteq> finished st' \<and> finished st \<subseteq> finished st'"
proof (induction f E n st and f E ms st arbitrary: st' and st'
    rule: hasCycleDFS_hasCycleScan.induct)
  case (2 f E n visited recStack)
  let ?st = "(visited(n := True), recStack(n := True))"
  from "2.prems" obtain st1 where
    scan: "hasCycleScan f E (E n) ?st = Some (False, st1)"
    and st': "st' = (fst st1, (snd st1)(n := False))"
    by (auto split: option.splits prod.splits bool.splits)
  from "2.prems"(1) have sv: "stack_visited ?st" by auto
  have same: "finished ?st = finished (visited, recStack)"
    using "2.prems"(2) by (auto simp: finished_def)
  with "2.prems"(3) have "dfs_inv E ?st" by (simp only: dfs_inv_def)
  from "2.IH"[OF sv this scan] same
  have inv: "dfs_inv E st1" and sub: "set (E n) \<subseteq> finished st1"
    and mono: "finished (visited, recStack) \<subseteq> finished st1" by simp_all
  from dfs_restores(2)[OF sv scan] have stk: "snd st1 = recStack(n := True)" by (simp only: snd_conv)
  from dfs_visited_mono(2)[OF scan] have "fst st1 n" by simp
  with st' stk have fin: "finished st' = insert n (finished st1)" by (auto simp: finished_def)
  have "n \<notin> finished st1" using stk by (simp add: finished_def)
  with closed_trancl[of n n E "finished st1"] inv sub have "(n, n) \<notin> (succ_rel E)\<^sup>+"
    by (auto simp: dfs_inv_def)
  with inv sub fin mono show ?case by (auto simp: dfs_inv_def)
next
  case (4 f E m ms visited recStack)
  show ?case
  proof (cases "visited m")
    case True
    with 4 show ?thesis by (auto simp: finished_def split: if_splits)
  next
    case False
    with "4.prems" obtain st1 where
      dfs: "hasCycleDFS f E m (visited, recStack) = Some (False, st1)"
      and rest: "hasCycleScan f E ms st1 = Some (False, st')"
      by (auto split: option.splits prod.splits bool.splits)
    have nv: "\<not> fst (visited, recStack) m" using False by simp
    from "4.IH"(1)[OF False "4.prems"(1) nv "4.prems"(2) dfs]
    have inv1: "dfs_inv E st1" and m1: "m \<in> finished st1"
      and mono1: "finished (visited, recStack) \<subseteq> finished st1" by simp_all
    from dfs_restores(1)[OF "4.prems"(1) nv dfs] dfs_visited_mono(1)[OF dfs] "4.prems"(1)
    have sv1: "stack_visited st1" by auto
    from "4.IH"(2)[OF False dfs refl _ sv1 inv1 rest] m1 mono1
    show ?thesis by auto
  qed
qed auto

text \<open>Enough fuel: one unit per vertex that is not yet visited.\<close>

abbreviation unvisited :: "string set \<Rightarrow> dfs_state \<Rightarrow> string set" where
  "unvisited U st \<equiv> {x \<in> U. \<not> fst st x}"

lemma dfs_total:
  assumes "finite U" and closed: "\<forall>x \<in> U. set (E x) \<subseteq> U"
  shows "n \<in> U \<Longrightarrow> \<not> fst st n \<Longrightarrow> card (unvisited U st) \<le> f \<Longrightarrow> hasCycleDFS f E n st \<noteq> None"
    "set ms \<subseteq> U \<Longrightarrow> card (unvisited U st) \<le> f \<Longrightarrow> hasCycleScan f E ms st \<noteq> None"
  using closed
proof (induction f E n st and f E ms st rule: hasCycleDFS_hasCycleScan.induct)
  case (1 E n st)
  then have "unvisited U st = {}" using \<open>finite U\<close> by simp
  with 1 show ?case by blast
next
  case (2 f E n visited recStack)
  let ?st = "(visited(n := True), recStack(n := True))"
  have "unvisited U ?st = unvisited U (visited, recStack) - {n}" by auto
  moreover have "n \<in> unvisited U (visited, recStack)" using "2.prems" by simp
  ultimately have "card (unvisited U ?st) \<le> f"
    using "2.prems"(3) \<open>finite U\<close> by (simp add: card_Diff_singleton_if)
  with "2.IH" "2.prems" have "hasCycleScan f E (E n) ?st \<noteq> None" by blast
  then show ?case by (auto split: prod.splits bool.splits)
next
  case (4 f E m ms visited recStack)
  show ?case
  proof (cases "visited m")
    case True
    with "4.IH"(3) "4.prems" show ?thesis by (cases "recStack m") simp_all
  next
    case False
    with "4.IH"(1) "4.prems" have "hasCycleDFS f E m (visited, recStack) \<noteq> None" by simp
    then obtain b1 st1 where dfs: "hasCycleDFS f E m (visited, recStack) = Some (b1, st1)" by auto
    from dfs_visited_mono(1)[OF dfs] have "unvisited U st1 \<subseteq> unvisited U (visited, recStack)" by auto
    then have "card (unvisited U st1) \<le> card (unvisited U (visited, recStack))"
      using \<open>finite U\<close> by (intro card_mono) simp_all
    with "4.prems"(2) have "card (unvisited U st1) \<le> f" by simp
    moreover have "set ms \<subseteq> U" using "4.prems"(1) by simp
    ultimately have "\<not> b1 \<Longrightarrow> hasCycleScan f E ms st1 \<noteq> None"
      using "4.IH"(2)[OF False dfs refl _ _ _ "4.prems"(3)] by blast
    with False dfs show ?thesis by (cases b1) simp_all
  qed
qed simp_all

section \<open>hasCycle decides acyclicity\<close>

abbreviation dag_rel :: "DAG \<Rightarrow> (string \<times> string) set" where
  "dag_rel d \<equiv> succ_rel (edges_of d)"

lemma hasCycleRange_Cons_unvisited:
  assumes "\<not> fst st n" and "hasCycleRange f E (n # ns) st = Some b"
  obtains (found) st' where "b" and "hasCycleDFS f E n st = Some (True, st')"
  | (later) st' where "hasCycleDFS f E n st = Some (False, st')" and "hasCycleRange f E ns st' = Some b"
  using assms by (cases st) (auto split: option.splits bool.splits)

lemma hasCycleRange_Cons_visited:
  "fst st n \<Longrightarrow> hasCycleRange f E (n # ns) st = hasCycleRange f E ns st"
  by (cases st) simp

abbreviation stack_empty :: "dfs_state \<Rightarrow> bool" where
  "stack_empty st \<equiv> snd st = (\<lambda>_. False)"

lemma range_sound:
  "stack_empty st \<Longrightarrow> hasCycleRange f E ns st = Some True \<Longrightarrow> \<exists>x. (x, x) \<in> (succ_rel E)\<^sup>+"
proof (induction ns arbitrary: st)
  case (Cons n ns)
  show ?case
  proof (cases "fst st n")
    case True
    with Cons show ?thesis by (simp add: hasCycleRange_Cons_visited)
  next
    case False
    from False Cons.prems(2) show ?thesis
    proof (cases rule: hasCycleRange_Cons_unvisited)
      case (found st')
      with dfs_sound(1)[of st n E f st'] False Cons.prems(1) show ?thesis by simp
    next
      case (later st')
      with dfs_restores(1)[of st n f E st'] False Cons.prems(1) have "stack_empty st'" by simp
      with Cons.IH later(2) show ?thesis by blast
    qed
  qed
qed simp

lemma range_complete:
  "stack_empty st \<Longrightarrow> dfs_inv E st \<Longrightarrow> hasCycleRange f E ns st = Some False \<Longrightarrow>
     \<exists>st'. dfs_inv E st' \<and> set ns \<subseteq> finished st' \<and> finished st \<subseteq> finished st'"
proof (induction ns arbitrary: st)
  case (Cons n ns)
  show ?case
  proof (cases "fst st n")
    case True
    with Cons.prems(1) have "n \<in> finished st" by (simp add: finished_def)
    moreover obtain st' where "dfs_inv E st'" "set ns \<subseteq> finished st'" "finished st \<subseteq> finished st'"
      using True Cons by (metis hasCycleRange_Cons_visited)
    ultimately show ?thesis by (intro exI[of _ st']) auto
  next
    case False
    from False Cons.prems(3) show ?thesis
    proof (cases rule: hasCycleRange_Cons_unvisited)
      case (later st1)
      with dfs_restores(1)[of st n f E st1] False Cons.prems(1) have e1: "stack_empty st1" by simp
      from dfs_complete(1)[of st n E f st1] later False Cons.prems(1,2)
      have c1: "dfs_inv E st1" "n \<in> finished st1" "finished st \<subseteq> finished st1" by simp_all
      from Cons.IH[OF e1 c1(1) later(2)] obtain st' where
        "dfs_inv E st'" "set ns \<subseteq> finished st'" "finished st1 \<subseteq> finished st'" by blast
      with c1 show ?thesis by (intro exI[of _ st']) auto
    qed simp
  qed
qed auto

lemma range_total:
  assumes "finite U" and closed: "\<forall>x \<in> U. set (E x) \<subseteq> U"
  shows "set ns \<subseteq> U \<Longrightarrow> card (unvisited U st) \<le> f \<Longrightarrow> hasCycleRange f E ns st \<noteq> None"
proof (induction ns arbitrary: st)
  case (Cons n ns)
  show ?case
  proof (cases "fst st n")
    case True
    with Cons show ?thesis by (simp add: hasCycleRange_Cons_visited)
  next
    case False
    with dfs_total(1)[OF assms, of n st f] Cons.prems obtain b st1 where
      dfs: "hasCycleDFS f E n st = Some (b, st1)" by auto
    from dfs_visited_mono(1)[OF dfs] have "card (unvisited U st1) \<le> card (unvisited U st)"
      using \<open>finite U\<close> by (intro card_mono) auto
    with Cons have "hasCycleRange f E ns st1 \<noteq> None" by simp
    with dfs False show ?thesis by (cases st; cases b) simp_all
  qed
qed simp

lemma edges_of_in_Edges: "v \<in> set (edges_of d u) \<Longrightarrow> \<exists>deps. (u, deps) \<in> set (dag_Edges d) \<and> v \<in> set deps"
  by (cases "map_of (dag_Edges d) u") (auto simp: get_list_def dest: map_of_SomeD)

lemma edges_of_vertices: "set (edges_of d x) \<subseteq> set (vertices d)"
  using edges_of_in_Edges by (fastforce simp: vertices_def)

lemma hasCycle_terminates:
  "hasCycleRange (length (vertices d)) (edges_of d) (node_ids d) ((\<lambda>_. False), (\<lambda>_. False)) \<noteq> None"
proof (rule range_total)
  show "finite (set (vertices d))" by simp
  show "\<forall>x \<in> set (vertices d). set (edges_of d x) \<subseteq> set (vertices d)"
    using edges_of_vertices by blast
  show "set (node_ids d) \<subseteq> set (vertices d)" by (simp add: vertices_def)
  show "card (unvisited (set (vertices d)) ((\<lambda>_. False), (\<lambda>_. False))) \<le> length (vertices d)"
    by (simp add: card_length)
qed

lemma hasCycle_sound: "hasCycle d \<Longrightarrow> \<not> acyclic (dag_rel d)"
  unfolding hasCycle_def acyclic_def by (rule notI, drule range_sound[rotated]) auto

lemma no_cycle_reachable:
  assumes "\<not> hasCycle d" and "n \<in> set (node_ids d)"
  shows "(n, n) \<notin> (dag_rel d)\<^sup>+"
proof -
  let ?st = "((\<lambda>_. False), (\<lambda>_. False)) :: dfs_state"
  have "hasCycleRange (length (vertices d)) (edges_of d) (node_ids d) ?st = Some False"
    using assms(1) hasCycle_terminates[of d] by (auto simp: hasCycle_def)
  moreover have "dfs_inv (edges_of d) ?st" by (simp add: dfs_inv_def finished_def)
  ultimately obtain st' where "dfs_inv (edges_of d) st'" "set (node_ids d) \<subseteq> finished st'"
    using range_complete[of ?st "edges_of d" "length (vertices d)" "node_ids d"] by (metis snd_conv)
  with assms(2) show ?thesis by (auto simp: dfs_inv_def)
qed

lemma trancl_source_key:
  assumes "(x, y) \<in> (dag_rel d)\<^sup>+"
  shows "x \<in> set (keys (dag_Edges d))"
proof -
  from assms obtain z where "(x, z) \<in> dag_rel d" by (auto dest: tranclD)
  then show ?thesis by (force dest: edges_of_in_Edges)
qed

lemma hasCycle_iff:
  assumes "set (keys (dag_Edges d)) \<subseteq> set (node_ids d)"
  shows "hasCycle d \<longleftrightarrow> \<not> acyclic (dag_rel d)"
proof
  assume "\<not> acyclic (dag_rel d)"
  then obtain x where x: "(x, x) \<in> (dag_rel d)\<^sup>+" by (auto simp: acyclic_def)
  then have "x \<in> set (node_ids d)" using trancl_source_key assms by blast
  with x show "hasCycle d" using no_cycle_reachable by blast
qed (rule hasCycle_sound)

section \<open>Well-formed graphs, validation, construction\<close>

text \<open>\<open>maps_ok\<close> is what the Go type guarantees: a map has each key once.\<close>

definition maps_ok :: "DAG \<Rightarrow> bool" where
  "maps_ok d \<longleftrightarrow> wf_map (dag_Nodes d) \<and> wf_map (dag_Edges d)"

definition targets_in :: "string list smap \<Rightarrow> string set \<Rightarrow> bool" where
  "targets_in es N \<longleftrightarrow> (\<forall>(n, deps) \<in> set es. set deps \<subseteq> N)"

definition edges_closed :: "DAG \<Rightarrow> bool" where
  "edges_closed d \<longleftrightarrow> set (keys (dag_Edges d)) \<subseteq> set (node_ids d) \<and>
     targets_in (dag_Edges d) (set (node_ids d))"

lemma targets_in_Cons [simp]: "targets_in ((n, deps) # es) N \<longleftrightarrow> set deps \<subseteq> N \<and> targets_in es N"
  by (simp add: targets_in_def)

lemma targets_in_Nil [simp]: "targets_in [] N"
  by (simp add: targets_in_def)

lemma targets_in_update: "targets_in es N \<Longrightarrow> set v \<subseteq> N \<Longrightarrow> targets_in (AList.update k v es) N"
  by (induction es) (auto simp: targets_in_def)

lemma targets_in_mono: "targets_in es N \<Longrightarrow> N \<subseteq> M \<Longrightarrow> targets_in es M"
  by (fastforce simp: targets_in_def)

lemma targets_inD: "targets_in (dag_Edges d) N \<Longrightarrow> v \<in> set (edges_of d u) \<Longrightarrow> v \<in> N"
  by (auto simp: targets_in_def dest!: edges_of_in_Edges)

lemma checkDeps_None: "checkDeps ns n deps = None \<longleftrightarrow> set deps \<subseteq> set (keys ns)"
  by (induction deps) (auto simp: has_key_iff)

lemma checkEdges_None:
  "checkEdges ns es = None \<longleftrightarrow>
     set (keys es) \<subseteq> set (keys ns) \<and> targets_in es (set (keys ns))"
proof (induction es)
  case (Cons e es)
  obtain n deps where "e = (n, deps)" by (cases e)
  with Cons checkDeps_None[of ns n deps] show ?case
    by (cases "checkDeps ns n deps") (auto simp: has_key_iff)
qed simp

lemma Validate_None:
  "Validate d = None \<longleftrightarrow> dag_Nodes d \<noteq> [] \<and> edges_closed d \<and> acyclic (dag_rel d)"
  using hasCycle_iff[of d]
  by (auto simp: Validate_def checkEdges_None edges_closed_def)

lemma edges_closed_rel:
  assumes "edges_closed d"
  shows "dag_rel d \<subseteq> set (node_ids d) \<times> set (node_ids d)"
proof (rule subrelI)
  fix u v assume e: "(u, v) \<in> dag_rel d"
  from trancl_source_key[OF r_into_trancl[OF e]] targets_inD[of d _ v u] e assms
  show "(u, v) \<in> set (node_ids d) \<times> set (node_ids d)"
    by (auto simp: edges_closed_def simp del: set_map)
qed

lemma get_list_update [simp]:
  "get_list (AList.update k v m) = (get_list m)(k := v)"
  by (auto simp: get_list_def)

definition dag_wf :: "DAG \<Rightarrow> bool" where
  "dag_wf d \<longleftrightarrow> maps_ok d \<and> set (keys (dag_Edges d)) = set (node_ids d) \<and>
     targets_in (dag_Edges d) (set (node_ids d)) \<and> acyclic (dag_rel d)"

lemma dag_wf_NewDAG: "dag_wf NewDAG"
  by (simp add: dag_wf_def NewDAG_def maps_ok_def succ_rel_def get_list_def acyclic_def)

lemma succ_rel_upd_Nil: "succ_rel (E(n := [])) \<subseteq> succ_rel E"
  by (auto simp: succ_rel_def split: if_splits)

lemma dag_wf_AddNode:
  assumes "dag_wf d"
  shows "dag_wf (fst (AddNode node d))"
proof -
  have "succ_rel ((edges_of d)(node_ID node := [])) \<subseteq> dag_rel d" by (rule succ_rel_upd_Nil)
  then have "acyclic (succ_rel ((edges_of d)(node_ID node := [])))"
    using assms by (auto simp: dag_wf_def intro: acyclic_subset)
  moreover have "targets_in (AList.update (node_ID node) [] (dag_Edges d)) (insert (node_ID node) (set (node_ids d)))"
    using assms by (auto simp: dag_wf_def intro!: targets_in_update elim: targets_in_mono)
  ultimately show ?thesis
    using assms by (simp add: AddNode_def dag_wf_def maps_ok_def AList.update_keys)
qed

text \<open>An edge that was already there cannot be the one that closes a cycle.\<close>

lemma AddEdge_rollback:
  assumes "dag_wf d" and "from \<in> set (node_ids d)"
    and "\<not> acyclic (succ_rel ((edges_of d)(from := edges_of d from @ [to])))"
  shows "to \<notin> set (edges_of d from)"
proof
  assume "to \<in> set (edges_of d from)"
  then have "succ_rel ((edges_of d)(from := edges_of d from @ [to])) = dag_rel d"
    by (auto simp: succ_rel_def split: if_splits)
  with assms(1,3) show False by (simp add: dag_wf_def)
qed

lemma AddEdge_cases:
  assumes "dag_wf d"
  shows "(snd (AddEdge from to d) \<noteq> None \<and> fst (AddEdge from to d) = d) \<or>
    (snd (AddEdge from to d) = None \<and> from \<in> set (node_ids d) \<and> to \<in> set (node_ids d) \<and>
     acyclic (succ_rel ((edges_of d)(from := edges_of d from @ [to]))) \<and>
     fst (AddEdge from to d) = d\<lparr>dag_Edges := AList.update from (edges_of d from @ [to]) (dag_Edges d)\<rparr>)"
proof (cases "from \<in> set (node_ids d) \<and> to \<in> set (node_ids d)")
  case False
  then show ?thesis by (auto simp: AddEdge_def has_key_iff)
next
  case True
  let ?es = "edges_of d from @ [to]"
  let ?d1 = "d\<lparr>dag_Edges := AList.update from ?es (dag_Edges d)\<rparr>"
  have "set (keys (dag_Edges ?d1)) \<subseteq> set (node_ids ?d1)"
    using assms True by (auto simp: dag_wf_def)
  then have cyc: "hasCycle ?d1 \<longleftrightarrow> \<not> acyclic (succ_rel ((edges_of d)(from := ?es)))"
    using hasCycle_iff[of ?d1] by simp
  obtain old where old: "map_of (dag_Edges d) from = Some old"
    using assms True map_of_eq_None_iff[of "dag_Edges d" "from"] by (auto simp: dag_wf_def)
  show ?thesis
  proof (cases "hasCycle ?d1")
    case False
    with True cyc show ?thesis by (simp add: AddEdge_def has_key_iff)
  next
    case cy: True
    with cyc True AddEdge_rollback[OF assms, of "from" to] have "to \<notin> set (edges_of d from)" by simp
    then have "remove1 to ?es = old" using old by (simp add: remove1_snoc_notin get_list_def)
    with cy True old show ?thesis by (simp add: AddEdge_def has_key_iff AList.update_triv Let_def)
  qed
qed

lemma AddEdge_refused:
  assumes "dag_wf d" "from \<in> set (node_ids d)" "to \<in> set (node_ids d)"
    and "acyclic (succ_rel ((edges_of d)(from := edges_of d from @ [to])))"
  shows "snd (AddEdge from to d) = None"
proof -
  let ?d1 = "d\<lparr>dag_Edges := AList.update from (edges_of d from @ [to]) (dag_Edges d)\<rparr>"
  have "set (keys (dag_Edges ?d1)) \<subseteq> set (node_ids ?d1)"
    using assms(1,2) by (auto simp: dag_wf_def)
  with hasCycle_iff[of ?d1] assms show ?thesis by (simp add: AddEdge_def has_key_iff)
qed

lemma dag_wf_AddEdge:
  assumes "dag_wf d"
  shows "dag_wf (fst (AddEdge from to d))"
  using AddEdge_cases[OF assms, of "from" to]
proof
  assume ok: "snd (AddEdge from to d) = None \<and> from \<in> set (node_ids d) \<and> to \<in> set (node_ids d) \<and>
     acyclic (succ_rel ((edges_of d)(from := edges_of d from @ [to]))) \<and>
     fst (AddEdge from to d) = d\<lparr>dag_Edges := AList.update from (edges_of d from @ [to]) (dag_Edges d)\<rparr>"
  have "targets_in (AList.update from (edges_of d from @ [to]) (dag_Edges d)) (set (node_ids d))"
  proof (rule targets_in_update)
    show "targets_in (dag_Edges d) (set (node_ids d))" using assms by (simp add: dag_wf_def)
    then show "set (edges_of d from @ [to]) \<subseteq> set (node_ids d)"
      using ok targets_inD[of d "set (node_ids d)"] by (simp add: subset_iff)
  qed
  with ok assms show ?thesis
    by (auto simp: dag_wf_def maps_ok_def AList.update_keys)
qed (use assms in simp)

text \<open>Every graph the two operations can build, rejected calls included.\<close>

inductive built :: "DAG \<Rightarrow> bool" where
  built_new: "built NewDAG"
| built_node: "built d \<Longrightarrow> built (fst (AddNode node d))"
| built_edge: "built d \<Longrightarrow> built (fst (AddEdge from to d))"

lemma built_dag_wf: "built d \<Longrightarrow> dag_wf d"
  by (induction rule: built.induct) (auto intro: dag_wf_NewDAG dag_wf_AddNode dag_wf_AddEdge)

lemma dag_wf_closed: "dag_wf d \<Longrightarrow> edges_closed d"
  by (auto simp: dag_wf_def edges_closed_def)

section \<open>Properties\<close>

text \<open>A three-node example graph: \<open>a \<rightarrow> b \<rightarrow> c\<close> and \<open>a \<rightarrow> c\<close>.\<close>

definition example_node :: "string \<Rightarrow> Node" where
  "example_node i = \<lparr>node_ID = i, node_Name = i, node_Type = NodeTypeAgent, node_Agent = [], node_Goal = [],
     node_Condition = [], node_OutputKey = i, node_Timeout = [], node_Retry = 0, node_Dependencies = [],
     node_Metadata = [], node_Approvers = [], node_ApprovalMessage = []\<rparr>"

definition example_dag :: DAG where
  "example_dag = \<lparr>dag_Nodes = map (\<lambda>i. (i, example_node i)) [''c'', ''a'', ''b''],
     dag_Edges = [(''c'', []), (''a'', [''b'', ''c'']), (''b'', [''c''])]\<rparr>"

text \<open>
  C1. \<open>hasCycle\<close> decides acyclicity: on a graph whose adjacency lists belong to nodes of the
  graph, the depth-first search reports a cycle exactly when the edge relation has one, whatever
  order the node map is visited in.
\<close>

theorem hasCycle_decides_acyclicity:
  assumes "set (keys (dag_Edges d)) \<subseteq> set (keys (dag_Nodes d))"
  shows "hasCycle d \<longleftrightarrow> (\<exists>x. (x, x) \<in> (succ_rel (get_list (dag_Edges d)))\<^sup>+)"
  using hasCycle_iff[OF assms] by (simp add: acyclic_def)

theorem hasCycle_decides_acyclicity_witness:
  "\<not> (\<exists>x. (x, x) \<in> (succ_rel (get_list (dag_Edges example_dag)))\<^sup>+)"
proof -
  have "set (keys (dag_Edges example_dag)) \<subseteq> set (keys (dag_Nodes example_dag))" by (simp add: example_dag_def)
  moreover have "\<not> hasCycle example_dag" by code_simp
  ultimately show ?thesis using hasCycle_decides_acyclicity by blast
qed

text \<open>
  \<open>Validate\<close> accepts a graph exactly when it has a node, every edge starts and ends at a node
  of the graph, and the edges form no cycle.
\<close>

theorem Validate_exact:
  "Validate d = None \<longleftrightarrow>
     dag_Nodes d \<noteq> [] \<and> set (keys (dag_Edges d)) \<subseteq> set (keys (dag_Nodes d)) \<and>
     (\<forall>(n, deps) \<in> set (dag_Edges d). set deps \<subseteq> set (keys (dag_Nodes d))) \<and>
     acyclic (succ_rel (get_list (dag_Edges d)))"
  by (simp add: Validate_None edges_closed_def targets_in_def)

theorem Validate_exact_witness:
  "acyclic (succ_rel (get_list (dag_Edges example_dag)))"
proof -
  have "Validate example_dag = None" by code_simp
  with Validate_exact[of example_dag] show ?thesis by simp
qed

text \<open>
  C2. Every non-empty graph built by any sequence of \<open>AddNode\<close> and \<open>AddEdge\<close> calls, rejected
  calls included, passes \<open>Validate\<close>.
\<close>

theorem built_graph_valid:
  assumes "built d" and "dag_Nodes d \<noteq> []"
  shows "Validate d = None"
  using built_dag_wf[OF assms(1)] assms(2) by (simp add: Validate_None dag_wf_closed) (simp add: dag_wf_def)

theorem built_graph_valid_witness:
  "Validate (fst (AddEdge ''a'' ''a'' (fst (AddNode (example_node ''a'') NewDAG)))) = None"
proof (rule built_graph_valid)
  show "built (fst (AddEdge ''a'' ''a'' (fst (AddNode (example_node ''a'') NewDAG))))"
    by (intro built.intros)
  show "dag_Nodes (fst (AddEdge ''a'' ''a'' (fst (AddNode (example_node ''a'') NewDAG)))) \<noteq> []"
    by code_simp
qed

text \<open>
  \<open>AddEdge\<close> on a built graph: a call that reports an error leaves the graph as it was (the
  tentative edge is taken out again), and an edge between two nodes is refused exactly when its
  target already reaches its source.
\<close>

theorem AddEdge_transactional:
  assumes "built d"
  shows "(snd (AddEdge from to d) \<noteq> None \<longrightarrow> fst (AddEdge from to d) = d) \<and>
    (from \<in> set (keys (dag_Nodes d)) \<and> to \<in> set (keys (dag_Nodes d)) \<longrightarrow>
      (snd (AddEdge from to d) \<noteq> None \<longleftrightarrow> (to, from) \<in> (succ_rel (get_list (dag_Edges d)))\<^sup>*))"
proof -
  note wf = built_dag_wf[OF assms]
  have "succ_rel ((edges_of d)(from := edges_of d from @ [to])) = insert (from, to) (dag_rel d)"
    by (auto simp: succ_rel_def split: if_splits)
  then have "acyclic (succ_rel ((edges_of d)(from := edges_of d from @ [to]))) \<longleftrightarrow> (to, from) \<notin> (dag_rel d)\<^sup>*"
    using wf by (simp add: dag_wf_def)
  with AddEdge_cases[OF wf, of "from" to] AddEdge_refused[OF wf, of "from" to] show ?thesis
    by (cases "snd (AddEdge from to d) = None") (simp_all, blast)
qed

theorem AddEdge_transactional_witness:
  "fst (AddEdge ''a'' ''a'' (fst (AddNode (example_node ''a'') NewDAG))) = fst (AddNode (example_node ''a'') NewDAG)"
proof -
  have "built (fst (AddNode (example_node ''a'') NewDAG))" by (intro built.intros)
  moreover have "snd (AddEdge ''a'' ''a'' (fst (AddNode (example_node ''a'') NewDAG))) \<noteq> None" by code_simp
  ultimately show ?thesis using AddEdge_transactional by blast
qed

end
