(* ===== verification/Workflow_Levels.thy ===== *)
theory Workflow_Levels
  imports Workflow_Dag
begin

text \<open>
  The scheduling half of \<open>pkg/workflow/dag.go\<close>: in-degrees, execution levels, Kahn's topological
  sort and the queries on the graph. The lemmas relate both loops to one specification, the
  layering of the edge relation, and show that the levels are correct, earliest and independent of
  the order in which Go visits a map.
\<close>

section \<open>In-degrees, execution levels and topological order\<close>

definition inDegrees :: "DAG \<Rightarrow> int smap" where
  "inDegrees d = fold (\<lambda>(n, deps). fold (\<lambda>dep. add_int dep 1) deps) (dag_Edges d)
                   (map (\<lambda>n. (n, 0)) (node_ids d))"

text \<open>One round: the unprocessed nodes of in-degree 0, then their edges taken away.\<close>

definition currentLevel :: "int smap \<Rightarrow> string list \<Rightarrow> string list" where
  "currentLevel deg processed =
     sort (map fst (filter (\<lambda>(n, g). n \<notin> set processed \<and> g = 0) deg))"

definition releaseLevel :: "DAG \<Rightarrow> string list \<Rightarrow> int smap \<Rightarrow> int smap" where
  "releaseLevel d lvl deg = fold (\<lambda>n. fold (\<lambda>m. add_int m (- 1)) (edges_of d n)) lvl deg"

function levelsLoop ::
    "DAG \<Rightarrow> int smap \<Rightarrow> string list \<Rightarrow> string list list \<Rightarrow> gerror + string list list" where
  "levelsLoop d deg processed levels =
     (if length processed < length (dag_Nodes d) then
        let lvl = currentLevel deg processed
        in if length lvl = 0 then Inl (Errorf ''DAG contains a cycle or orphaned nodes'')
           else levelsLoop d (releaseLevel d lvl deg) (processed @ lvl) (levels @ [lvl])
      else Inr levels)"
  by pat_completeness auto
termination
  by (relation "measure (\<lambda>(d, deg, processed, levels). length (dag_Nodes d) - length processed)")
    (auto simp flip: length_greater_0_conv intro!: diff_less_mono2)

declare levelsLoop.simps [simp del]

definition GetExecutionLevels :: "DAG \<Rightarrow> gerror + string list list" where
  "GetExecutionLevels d = levelsLoop d (inDegrees d) [] []"

text \<open>
  Kahn's algorithm. \<open>sort.Strings(neighbors)\<close> sorts the slice held by \<open>Edges[current]\<close> in place,
  so the graph itself is part of the loop state. The loop spends one unit of fuel per dequeued
  node; \<open>None\<close> means it ran out.
\<close>

fun relaxNeighbors :: "string list \<Rightarrow> int smap \<Rightarrow> string list \<Rightarrow> int smap \<times> string list" where
  "relaxNeighbors [] deg queue = (deg, queue)"
| "relaxNeighbors (m # ms) deg queue =
     (let deg' = add_int m (- 1) deg
      in relaxNeighbors ms deg' (if get_int deg' m = 0 then sort (queue @ [m]) else queue))"

definition sortEdges :: "string \<Rightarrow> DAG \<Rightarrow> DAG" where
  "sortEdges n d = d\<lparr>dag_Edges := map (\<lambda>(k, es). if k = n then (k, sort es) else (k, es)) (dag_Edges d)\<rparr>"

fun topoLoop ::
    "nat \<Rightarrow> DAG \<Rightarrow> int smap \<Rightarrow> string list \<Rightarrow> string list \<Rightarrow> (string list \<times> DAG) option" where
  "topoLoop f d deg [] result = Some (result, d)"
| "topoLoop 0 d deg (current # queue) result = None"
| "topoLoop (Suc f) d deg (current # queue) result =
     (let d' = sortEdges current d;
          (deg', queue') = relaxNeighbors (edges_of d' current) deg queue
      in topoLoop f d' deg' queue' (result @ [current]))"

definition TopologicalSort :: "DAG \<Rightarrow> ((gerror + string list) \<times> DAG) option" where
  "TopologicalSort d =
     (let deg = inDegrees d;
          queue = sort (map fst (filter (\<lambda>(n, g). g = 0) deg))
      in case topoLoop (length deg) d deg queue [] of
           None \<Rightarrow> None
         | Some (result, d') \<Rightarrow>
             Some (if length result \<noteq> length (dag_Nodes d)
                   then Inl (Errorf ''DAG contains a cycle'') else Inr result, d'))"

section \<open>Queries\<close>

definition GetRoots :: "DAG \<Rightarrow> string list" where
  "GetRoots d = sort (filter (\<lambda>n. \<not> (\<exists>(k, deps) \<in> set (dag_Edges d). n \<in> set deps)) (node_ids d))"

definition GetLeaves :: "DAG \<Rightarrow> string list" where
  "GetLeaves d = sort (filter (\<lambda>n. length (edges_of d n) = 0) (node_ids d))"

definition GetNodeDependencies :: "DAG \<Rightarrow> string \<Rightarrow> string list" where
  "GetNodeDependencies d n = edges_of d n"

definition GetNodeDependents :: "DAG \<Rightarrow> string \<Rightarrow> string list" where
  "GetNodeDependents d n = sort (map fst (filter (\<lambda>(k, deps). n \<in> set deps) (dag_Edges d)))"

definition Clone :: "DAG \<Rightarrow> DAG" where
  "Clone d = \<lparr>dag_Nodes = fold (\<lambda>(k, n). AList.update k n) (dag_Nodes d) (dag_Nodes NewDAG),
             dag_Edges = fold (\<lambda>(k, deps). AList.update k deps) (dag_Edges d) (dag_Edges NewDAG)\<rparr>"


text \<open>\<open>ToDOT\<close>, with the line feed and the double quote as characters.\<close>

definition quoted :: "string \<Rightarrow> string" where
  "quoted s = CHR 0x22 # s @ [CHR 0x22]"

definition dotNode :: "string \<times> Node \<Rightarrow> string" where
  "dotNode p = (case p of (i, node) \<Rightarrow>
     (let label = (if node_Name node = [] then i else node_Name node)
      in ''  '' @ quoted i @ '' [label='' @ quoted label @ ''];'' @ [CHR 0x0A]))"

definition dotEdges :: "string \<times> string list \<Rightarrow> string" where
  "dotEdges p = (case p of (from, deps) \<Rightarrow>
     concat (map (\<lambda>to. ''  '' @ quoted from @ '' -> '' @ quoted to @ '';'' @ [CHR 0x0A]) deps))"

definition ToDOT :: "DAG \<Rightarrow> string" where
  "ToDOT d =
     ''digraph workflow {'' @ [CHR 0x0A] @ ''  rankdir=TB;'' @ [CHR 0x0A] @
     ''  node [shape=box, style=rounded];'' @ [CHR 0x0A, CHR 0x0A] @
     concat (map dotNode (dag_Nodes d)) @ [CHR 0x0A] @
     concat (map dotEdges (dag_Edges d)) @ ''}'' @ [CHR 0x0A]"

section \<open>Execution levels\<close>

text \<open>
  The specification: from a set \<open>P\<close> of nodes already done, the next level is the sorted list of
  all remaining nodes whose predecessors are all in \<open>P\<close>.
\<close>

definition ready :: "(string \<times> string) set \<Rightarrow> string set \<Rightarrow> string set \<Rightarrow> string set" where
  "ready R N P = {v \<in> N - P. \<forall>u. (u, v) \<in> R \<longrightarrow> u \<in> P}"

fun layering :: "(string \<times> string) set \<Rightarrow> string set \<Rightarrow> string set \<Rightarrow> string list list \<Rightarrow> bool" where
  "layering R N P [] = (N \<subseteq> P)"
| "layering R N P (L # Ls) =
     (L \<noteq> [] \<and> sorted L \<and> distinct L \<and> set L = ready R N P \<and> layering R N (P \<union> set L) Ls)"

lemma ready_sub: "ready R N P \<subseteq> N - P"
  by (auto simp: ready_def)

lemma ready_none: "N \<subseteq> P \<Longrightarrow> ready R N P = {}"
  by (auto simp: ready_def)

text \<open>The layering of a relation is unique.\<close>

lemma layering_unique: "layering R N P Ls \<Longrightarrow> layering R N P Ms \<Longrightarrow> Ls = Ms"
proof (induction R N P Ls arbitrary: Ms rule: layering.induct)
  case (1 R N P)
  then show ?case by (cases Ms) (simp_all add: ready_none)
next
  case (2 R N P L Ls)
  then have "\<not> N \<subseteq> P" using ready_none[of N P R] by auto
  with "2.prems" obtain M Ms' where Ms: "Ms = M # Ms'" by (cases Ms) auto
  with "2.prems" have "L = M" by (auto intro: sorted_distinct_unique)
  with "2.IH" "2.prems" Ms show ?case by auto
qed

lemma layering_set: "layering R N P Ls \<Longrightarrow> P \<union> set (concat Ls) = P \<union> N"
proof (induction R N P Ls rule: layering.induct)
  case (2 R N P L Ls)
  from "2.prems" have "layering R N (P \<union> set L) Ls" by auto
  from "2.IH"[OF this] have "(P \<union> set L) \<union> set (concat Ls) = (P \<union> set L) \<union> N" .
  moreover have "set L \<subseteq> N" using 2 ready_sub[of R N P] by auto
  ultimately show ?case by (simp add: Un_assoc sup.absorb2)
qed auto

lemma layering_disjoint: "layering R N P Ls \<Longrightarrow> set (concat Ls) \<inter> P = {} \<and> distinct (concat Ls)"
proof (induction R N P Ls rule: layering.induct)
  case (2 R N P L Ls)
  from "2.prems" have "layering R N (P \<union> set L) Ls" by auto
  from "2.IH"[OF this] have "set (concat Ls) \<inter> (P \<union> set L) = {} \<and> distinct (concat Ls)" .
  moreover have "set L \<inter> P = {}" "distinct L" using 2 ready_sub[of R N P] by auto
  ultimately show ?case by auto
qed auto

lemma layering_preds:
  "layering R N P Ls \<Longrightarrow> i < length Ls \<Longrightarrow> v \<in> set (Ls ! i) \<Longrightarrow> (u, v) \<in> R \<Longrightarrow>
     u \<in> P \<or> (\<exists>j < i. u \<in> set (Ls ! j))"
proof (induction R N P Ls arbitrary: i rule: layering.induct)
  case (2 R N P L Ls)
  show ?case
  proof (cases i)
    case 0
    with "2.prems" show ?thesis by (auto simp: ready_def)
  next
    case (Suc k)
    with "2.IH"[of k] "2.prems" have "u \<in> P \<or> u \<in> set L \<or> (\<exists>j < k. u \<in> set (Ls ! j))" by auto
    then show ?thesis
    proof (elim disjE exE conjE)
      fix j assume "j < k" "u \<in> set (Ls ! j)"
      then show ?thesis using Suc by (intro disjI2 exI[of _ "Suc j"]) simp
    next
      assume "u \<in> set L"
      then show ?thesis using Suc by (intro disjI2 exI[of _ 0]) simp
    qed simp
  qed
qed simp

lemma layering_level:
  "layering R N P Ls \<Longrightarrow> i < length Ls \<Longrightarrow>
     sorted (Ls ! i) \<and> set (Ls ! i) = ready R N (P \<union> set (concat (take i Ls)))"
proof (induction R N P Ls arbitrary: i rule: layering.induct)
  case (2 R N P L Ls)
  from "2.prems" have "layering R N (P \<union> set L) Ls" by auto
  with "2.IH"[OF this] "2.prems" show ?case by (cases i) (auto simp: Un_assoc)
qed simp

text \<open>A relation that has a layering from scratch is acyclic.\<close>

lemma layering_acyclic:
  assumes "layering R N {} Ls" and "R \<subseteq> N \<times> N"
  shows "acyclic R"
proof (rule acyclicI_order)
  define lev where "lev v = (LEAST i. v \<in> set (Ls ! i) \<and> i < length Ls)" for v
  fix u v assume e: "(u, v) \<in> R"
  have mem: "\<exists>i. w \<in> set (Ls ! i) \<and> i < length Ls" if "w \<in> N" for w
    using layering_set[OF assms(1)] that by (auto simp: in_set_conv_nth[where xs = Ls])
  from e assms(2) have "u \<in> N" "v \<in> N" by auto
  from LeastI_ex[OF mem[OF \<open>v \<in> N\<close>]] have v: "v \<in> set (Ls ! lev v)" "lev v < length Ls"
    by (auto simp: lev_def)
  from layering_preds[OF assms(1) v(2) v(1) e] obtain j where j: "j < lev v" "u \<in> set (Ls ! j)" by auto
  then have "j < length Ls" using v(2) by simp
  with j have "lev u \<le> j" unfolding lev_def by (intro Least_le) simp
  with j(1) show "- int (lev v) < - int (lev u)" by simp
qed

lemma ready_nonempty:
  assumes "acyclic R" "R \<subseteq> N \<times> N" "finite N" "\<not> N \<subseteq> P"
  shows "ready R N P \<noteq> {}"
proof -
  have "finite R" using assms(2,3) by (meson finite_SigmaI finite_subset)
  with assms(1) have "wf R" by (simp add: finite_acyclic_wf)
  moreover from assms(4) obtain x where "x \<in> N - P" by auto
  ultimately obtain z where "z \<in> N - P" "\<And>y. (y, z) \<in> R \<Longrightarrow> y \<notin> N - P" by (metis wfE_min)
  with assms(2) have "z \<in> ready R N P" by (auto simp: ready_def)
  then show ?thesis by blast
qed

text \<open>What the in-degree map holds: the edges, with multiplicity, from the nodes not yet done.\<close>

definition pending :: "DAG \<Rightarrow> string set \<Rightarrow> string \<Rightarrow> nat" where
  "pending d S k = (\<Sum>n \<in> S. count_list (edges_of d n) k)"

definition degrees_ok :: "DAG \<Rightarrow> int smap \<Rightarrow> string set \<Rightarrow> bool" where
  "degrees_ok d deg P \<longleftrightarrow> keys deg = node_ids d \<and>
     (\<forall>k. get_int deg k = int (pending d (set (node_ids d) - P) k))"

lemma pending_0: "finite S \<Longrightarrow> pending d S k = 0 \<longleftrightarrow> (\<forall>u \<in> S. (u, k) \<notin> dag_rel d)"
  by (auto simp: pending_def count_list_0_iff succ_rel_def)

lemma get_int_fold_add:
  "get_int (fold (\<lambda>m. add_int m x) ms deg) k = get_int deg k + x * int (count_list ms k)"
  by (induction ms arbitrary: deg) (auto simp: algebra_simps)

lemma keys_fold_add: "set ms \<subseteq> set (keys deg) \<Longrightarrow> keys (fold (\<lambda>m. add_int m x) ms deg) = keys deg"
proof (induction ms arbitrary: deg)
  case (Cons m ms)
  then have k: "keys (add_int m x deg) = keys deg" by (simp add: keys_add_int)
  with Cons.prems have "set ms \<subseteq> set (keys (add_int m x deg))" by (simp only:) simp
  from Cons.IH[OF this] k show ?case by simp
qed simp

lemma inDegrees_fold:
  "get_int (fold (\<lambda>(n, deps). fold (\<lambda>dep. add_int dep 1) deps) es deg) k =
     get_int deg k + (\<Sum>(n, deps) \<leftarrow> es. int (count_list deps k))"
  by (induction es arbitrary: deg) (auto simp: get_int_fold_add)

lemma get_int_zero: "get_int (map (\<lambda>n. (n, 0)) ns) k = 0"
  by (induction ns) (auto simp: get_int_def)

lemma keys_inDegrees_fold:
  "targets_in es (set (keys deg)) \<Longrightarrow>
     keys (fold (\<lambda>(n, deps). fold (\<lambda>dep. add_int dep 1) deps) es deg) = keys deg"
  by (induction es arbitrary: deg) (auto simp: keys_fold_add simp del: set_map)

lemma sum_edges:
  "wf_map es \<Longrightarrow> (\<Sum>(n, deps) \<leftarrow> es. int (count_list deps k)) =
     int (\<Sum>n \<in> set (keys es). count_list (get_list es n) k)"
proof (induction es)
  case (Cons e es)
  obtain n deps where e: "e = (n, deps)" by (cases e)
  with Cons.prems have n: "n \<notin> set (keys es)" by simp
  then have "(\<Sum>m \<in> set (keys es). count_list (get_list (e # es) m) k) =
      (\<Sum>m \<in> set (keys es). count_list (get_list es m) k)"
    by (intro sum.cong refl) (auto simp: get_list_def e)
  with Cons n e show ?case by (simp add: get_list_def)
qed simp

lemma degrees_ok_init:
  assumes "maps_ok d" "edges_closed d"
  shows "degrees_ok d (inDegrees d) {}"
proof -
  let ?z = "map (\<lambda>n. (n, 0::int)) (node_ids d)"
  have kz: "keys ?z = node_ids d" by simp
  have "keys (inDegrees d) = node_ids d"
    using keys_inDegrees_fold[of "dag_Edges d" ?z] assms(2) kz
    by (simp add: inDegrees_def edges_closed_def image_comp o_def)
  moreover have "get_int (inDegrees d) k = int (pending d (set (node_ids d)) k)" for k
  proof -
    have "get_int ?z k = 0" by (rule get_int_zero)
    then have "get_int (inDegrees d) k = int (\<Sum>n \<in> set (keys (dag_Edges d)). count_list (edges_of d n) k)"
      using assms(1) by (simp add: inDegrees_def inDegrees_fold sum_edges maps_ok_def)
    also have "(\<Sum>n \<in> set (keys (dag_Edges d)). count_list (edges_of d n) k) = pending d (set (node_ids d)) k"
      unfolding pending_def
    proof (rule sum.mono_neutral_left)
      show "set (keys (dag_Edges d)) \<subseteq> set (node_ids d)" using assms(2) by (simp add: edges_closed_def)
      show "\<forall>n \<in> set (node_ids d) - set (keys (dag_Edges d)). count_list (edges_of d n) k = 0"
        using edges_of_in_Edges by (force simp: count_list_0_iff)
    qed simp
    finally show ?thesis .
  qed
  ultimately show ?thesis by (simp add: degrees_ok_def)
qed

lemma releaseLevel_get_int:
  "get_int (releaseLevel d lvl deg) k = get_int deg k - int (\<Sum>n \<leftarrow> lvl. count_list (edges_of d n) k)"
  unfolding releaseLevel_def
  by (induction lvl arbitrary: deg) (auto simp: get_int_fold_add)

lemma keys_releaseLevel:
  "\<forall>n. set (edges_of d n) \<subseteq> set (keys deg) \<Longrightarrow> keys (releaseLevel d lvl deg) = keys deg"
  unfolding releaseLevel_def
proof (induction lvl arbitrary: deg)
  case (Cons n lvl)
  then have "keys (fold (\<lambda>m. add_int m (- 1)) (edges_of d n) deg) = keys deg" by (simp add: keys_fold_add)
  with Cons show ?case by (metis fold_simps(2))
qed simp

lemma degrees_ok_release:
  assumes ok: "degrees_ok d deg P" and closed: "edges_closed d"
    and lvl: "distinct lvl" "set lvl \<subseteq> set (node_ids d) - P"
  shows "degrees_ok d (releaseLevel d lvl deg) (P \<union> set lvl)"
proof -
  let ?S = "set (node_ids d) - P"
  have keys: "keys deg = node_ids d" using ok by (simp add: degrees_ok_def)
  have "\<forall>n. set (edges_of d n) \<subseteq> set (keys deg)"
    using edges_closed_rel[OF closed] by (auto simp: keys simp del: set_map)
  then have "keys (releaseLevel d lvl deg) = node_ids d" using keys by (simp add: keys_releaseLevel)
  moreover have "get_int (releaseLevel d lvl deg) k =
      int (pending d (set (node_ids d) - (P \<union> set lvl)) k)" for k
  proof -
    have "pending d ?S k = pending d (?S - set lvl) k + (\<Sum>n \<in> set lvl. count_list (edges_of d n) k)"
      unfolding pending_def using lvl(2) by (simp add: sum.subset_diff)
    moreover have "(\<Sum>n \<in> set lvl. count_list (edges_of d n) k) = (\<Sum>n \<leftarrow> lvl. count_list (edges_of d n) k)"
      using lvl(1) by (simp add: sum_list_distinct_conv_sum_set)
    moreover have "?S - set lvl = set (node_ids d) - (P \<union> set lvl)" by auto
    ultimately show ?thesis using ok by (simp add: degrees_ok_def releaseLevel_get_int)
  qed
  ultimately show ?thesis by (simp add: degrees_ok_def)
qed

lemma in_set_get_int: "wf_map deg \<Longrightarrow> (k, g) \<in> set deg \<longleftrightarrow> k \<in> set (keys deg) \<and> get_int deg k = g"
  by (auto simp: get_int_def intro: rev_image_eqI)

lemma filter_degrees:
  assumes "wf_map deg"
  shows "set (map fst (filter (\<lambda>(n, g). Q n g) deg)) = {k \<in> set (keys deg). Q k (get_int deg k)}"
proof (rule set_eqI)
  fix x
  have "x \<in> set (map fst (filter (\<lambda>(n, g). Q n g) deg)) \<longleftrightarrow> (\<exists>g. (x, g) \<in> set deg \<and> Q x g)" by force
  also have "\<dots> \<longleftrightarrow> x \<in> {k \<in> set (keys deg). Q k (get_int deg k)}"
    unfolding in_set_get_int[OF assms] by blast
  finally show "x \<in> set (map fst (filter (\<lambda>(n, g). Q n g) deg)) \<longleftrightarrow>
      x \<in> {k \<in> set (keys deg). Q k (get_int deg k)}" .
qed

text \<open>A node of in-degree 0 is one whose predecessors are all done.\<close>

lemma degree_0_ready:
  assumes "degrees_ok d deg P" "edges_closed d"
  shows "{k \<in> set (node_ids d) - P. get_int deg k = 0} = ready (dag_rel d) (set (node_ids d)) P"
  using assms edges_closed_rel[OF assms(2)]
  by (auto simp: degrees_ok_def pending_0 ready_def simp del: set_map)

lemma currentLevel_props:
  assumes ok: "degrees_ok d deg (set processed)" and "maps_ok d" "edges_closed d"
  shows "set (currentLevel deg processed) = ready (dag_rel d) (set (node_ids d)) (set processed)"
    and "distinct (currentLevel deg processed)" and "sorted (currentLevel deg processed)"
proof -
  have keys: "keys deg = node_ids d" using ok by (simp add: degrees_ok_def)
  have wf: "wf_map deg" using assms by (simp add: degrees_ok_def maps_ok_def)
  have "set (currentLevel deg processed) = {k \<in> set (keys deg) - set processed. get_int deg k = 0}"
    unfolding currentLevel_def set_sort filter_degrees[OF wf] by blast
  then show "set (currentLevel deg processed) = ready (dag_rel d) (set (node_ids d)) (set processed)"
    using degree_0_ready[OF ok assms(3)] keys by (simp only:)
  show "distinct (currentLevel deg processed)"
    using wf by (simp add: currentLevel_def distinct_map_filter)
qed (simp add: currentLevel_def)

lemma maps_ok_card: "maps_ok d \<Longrightarrow> length (dag_Nodes d) = card (set (node_ids d))"
  unfolding maps_ok_def by (metis distinct_card length_map)

lemma levelsLoop_layering:
  assumes "maps_ok d" "edges_closed d"
  shows "degrees_ok d deg (set processed) \<Longrightarrow> distinct processed \<Longrightarrow> set processed \<subseteq> set (node_ids d) \<Longrightarrow>
    levelsLoop d deg processed levels = Inr ls \<Longrightarrow>
    \<exists>Ls. ls = levels @ Ls \<and> layering (dag_rel d) (set (node_ids d)) (set processed) Ls"
  using assms
proof (induction d deg processed levels rule: levelsLoop.induct)
  case (1 d deg processed levels)
  let ?lvl = "currentLevel deg processed"
  note cl = currentLevel_props[OF "1.prems"(1,5,6)]
  have len: "length (dag_Nodes d) = card (set (node_ids d))" "length processed = card (set processed)"
    using maps_ok_card[OF "1.prems"(5)] "1.prems"(2) by (simp_all add: distinct_card)
  show ?case
  proof (cases "length processed < length (dag_Nodes d)")
    case False
    then have "set (node_ids d) \<subseteq> set processed"
      using len "1.prems"(3) by (metis List.finite_set card_seteq not_less)
    with False "1.prems"(4) show ?thesis by (simp add: levelsLoop.simps[of d deg processed])
  next
    case True
    with "1.prems"(4) have ne: "length ?lvl \<noteq> 0" and
      rec: "levelsLoop d (releaseLevel d ?lvl deg) (processed @ ?lvl) (levels @ [?lvl]) = Inr ls"
      by (auto simp: levelsLoop.simps[of d deg processed] Let_def split: if_splits)
    have sub: "set ?lvl \<subseteq> set (node_ids d) - set processed" using cl(1) ready_sub by metis
    have "degrees_ok d (releaseLevel d ?lvl deg) (set (processed @ ?lvl))"
      using degrees_ok_release[OF "1.prems"(1,6) cl(2) sub] by simp
    moreover have "distinct (processed @ ?lvl)" "set (processed @ ?lvl) \<subseteq> set (node_ids d)"
      using cl(2) sub "1.prems"(2,3) by auto
    ultimately obtain Ls where "ls = (levels @ [?lvl]) @ Ls"
      "layering (dag_rel d) (set (node_ids d)) (set (processed @ ?lvl)) Ls"
      using "1.IH"[OF True refl ne _ _ _ rec "1.prems"(5,6)] by blast
    with ne cl show ?thesis by (intro exI[of _ "?lvl # Ls"]) simp
  qed
qed

lemma levelsLoop_succeeds:
  assumes "maps_ok d" "edges_closed d" "acyclic (dag_rel d)"
  shows "degrees_ok d deg (set processed) \<Longrightarrow> distinct processed \<Longrightarrow> set processed \<subseteq> set (node_ids d) \<Longrightarrow>
    \<exists>ls. levelsLoop d deg processed levels = Inr ls"
  using assms
proof (induction d deg processed levels rule: levelsLoop.induct)
  case (1 d deg processed levels)
  let ?lvl = "currentLevel deg processed"
  note cl = currentLevel_props[OF "1.prems"(1,4,5)]
  show ?case
  proof (cases "length processed < length (dag_Nodes d)")
    case False
    then show ?thesis by (simp add: levelsLoop.simps[of d deg processed])
  next
    case True
    then have "card (set processed) < card (set (node_ids d))"
      using maps_ok_card[OF "1.prems"(4)] "1.prems"(2) by (simp add: distinct_card)
    then have "\<not> set (node_ids d) \<subseteq> set processed" by (meson List.finite_set card_mono not_less)
    then have "ready (dag_rel d) (set (node_ids d)) (set processed) \<noteq> {}"
      using ready_nonempty[OF "1.prems"(6) edges_closed_rel[OF "1.prems"(5)] List.finite_set] by blast
    then have ne: "length ?lvl \<noteq> 0" unfolding cl(1)[symmetric] by simp
    have sub: "set ?lvl \<subseteq> set (node_ids d) - set processed" using cl(1) ready_sub by metis
    have "degrees_ok d (releaseLevel d ?lvl deg) (set (processed @ ?lvl))"
      using degrees_ok_release[OF "1.prems"(1,5) cl(2) sub] by simp
    moreover have "distinct (processed @ ?lvl)" "set (processed @ ?lvl) \<subseteq> set (node_ids d)"
      using cl(2) sub "1.prems"(2,3) by auto
    ultimately have "\<exists>ls. levelsLoop d (releaseLevel d ?lvl deg) (processed @ ?lvl) (levels @ [?lvl]) = Inr ls"
      using "1.IH"[OF True refl ne _ _ _ "1.prems"(4-6)] by blast
    with True ne show ?thesis by (simp add: levelsLoop.simps[of d deg processed] Let_def)
  qed
qed

lemma GetExecutionLevels_layering:
  assumes "maps_ok d" "edges_closed d" "GetExecutionLevels d = Inr Ls"
  shows "layering (dag_rel d) (set (node_ids d)) {} Ls"
  using levelsLoop_layering[OF assms(1,2), of "inDegrees d" "[]" "[]" Ls] assms degrees_ok_init[OF assms(1,2)]
  by (auto simp: GetExecutionLevels_def)

lemma GetExecutionLevels_iff:
  assumes "maps_ok d" "edges_closed d"
  shows "(\<exists>Ls. GetExecutionLevels d = Inr Ls) \<longleftrightarrow> acyclic (dag_rel d)"
proof
  assume "\<exists>Ls. GetExecutionLevels d = Inr Ls"
  then show "acyclic (dag_rel d)"
    using GetExecutionLevels_layering[OF assms] layering_acyclic edges_closed_rel[OF assms(2)] by blast
next
  assume "acyclic (dag_rel d)"
  then show "\<exists>Ls. GetExecutionLevels d = Inr Ls"
    using levelsLoop_succeeds[OF assms _, of "inDegrees d" "[]" "[]"] degrees_ok_init[OF assms]
    by (simp add: GetExecutionLevels_def)
qed

section \<open>Topological order\<close>

lemma relaxNeighbors_deg:
  "relaxNeighbors ms deg q = (deg', q') \<Longrightarrow>
     deg' = fold (\<lambda>m. add_int m (- 1)) ms deg"
  by (induction ms arbitrary: deg q) (auto simp: Let_def)

text \<open>A neighbour joins the queue exactly once, when its last edge goes.\<close>

lemma relaxNeighbors_queue:
  assumes "relaxNeighbors ms deg q = (deg', q')"
    and "\<And>m. m \<in> set ms \<Longrightarrow> int (count_list ms m) \<le> get_int deg m"
  shows "mset q' = mset q + mset_set {m \<in> set ms. get_int deg m = int (count_list ms m)}"
  using assms
proof (induction ms arbitrary: deg q)
  case (Cons m ms)
  let ?deg = "add_int m (- 1) deg"
  let ?q = "if get_int ?deg m = 0 then sort (q @ [m]) else q"
  let ?A = "{k \<in> set ms. get_int ?deg k = int (count_list ms k)}"
  let ?B = "{k \<in> set (m # ms). get_int deg k = int (count_list (m # ms) k)}"
  have rest: "relaxNeighbors ms ?deg ?q = (deg', q')" using Cons.prems(1) by (simp add: Let_def)
  have le: "int (count_list ms k) \<le> get_int ?deg k" if "k \<in> set ms" for k
    using Cons.prems(2)[of k] that by auto
  have IH: "mset q' = mset ?q + mset_set ?A" by (rule Cons.IH[OF rest le])
  show ?case
  proof (cases "get_int ?deg m = 0")
    case True
    have "m \<notin> set ms"
      using le[of m] True count_list_0_iff[of ms m] by auto
    moreover from this have "?B = insert m ?A" using True by auto
    ultimately show ?thesis using IH True by simp
  next
    case False
    have "?B = ?A"
      using False count_list_0_iff[of ms m] by (auto simp: count_notin)
    then show ?thesis using IH False by simp
  qed
qed simp

text \<open>Sorting adjacency lists in place keeps the graph.\<close>

definition same_graph :: "DAG \<Rightarrow> DAG \<Rightarrow> bool" where
  "same_graph d e \<longleftrightarrow> dag_Nodes e = dag_Nodes d \<and> keys (dag_Edges e) = keys (dag_Edges d) \<and>
     (\<forall>n. mset (edges_of e n) = mset (edges_of d n))"

lemma get_list_sorted:
  "get_list (map (\<lambda>(k, es). if k = n then (k, sort es) else (k, es)) m) j =
     (if j = n then sort (get_list m j) else get_list m j)"
  by (induction m) (auto simp: get_list_def)

lemma same_graph_sortEdges: "same_graph d (sortEdges n d)"
proof -
  have "keys (map (\<lambda>(k, es). if k = n then (k, sort es) else (k, es)) m) = keys m" for m :: "string list smap"
    by (induction m) auto
  then show ?thesis by (simp add: same_graph_def sortEdges_def get_list_sorted)
qed

lemma same_graph_refl: "same_graph d d"
  by (simp add: same_graph_def)

lemma same_graph_trans: "same_graph a b \<Longrightarrow> same_graph b c \<Longrightarrow> same_graph a c"
  by (simp add: same_graph_def)

lemma same_graph_rel: "same_graph d e \<Longrightarrow> dag_rel e = dag_rel d"
  unfolding same_graph_def succ_rel_def by (metis set_mset_mset)

lemma same_graph_ok:
  assumes "same_graph d e" "maps_ok d" "edges_closed d"
  shows "maps_ok e" "edges_closed e"
proof -
  show "maps_ok e" using assms by (auto simp: same_graph_def maps_ok_def)
  from this have wf: "wf_map (dag_Edges e)" by (simp add: maps_ok_def)
  have "set deps \<subseteq> set (node_ids d)" if "(n, deps) \<in> set (dag_Edges e)" for n deps
  proof -
    from that wf have "edges_of e n = deps" by (simp add: get_list_def)
    then have "set deps = set (edges_of d n)" using assms(1) by (metis same_graph_def set_mset_mset)
    then show ?thesis using edges_closed_rel[OF assms(3)] by (auto simp del: set_map)
  qed
  then show "edges_closed e" using assms(1,3) by (auto simp: edges_closed_def same_graph_def targets_in_def)
qed

lemma same_graph_degrees: "same_graph d e \<Longrightarrow> degrees_ok d deg P \<Longrightarrow> degrees_ok e deg P"
  by (simp add: same_graph_def degrees_ok_def pending_def count_mset[symmetric])

text \<open>Every node of the list comes after all its predecessors.\<close>

definition topo_ok :: "(string \<times> string) set \<Rightarrow> string list \<Rightarrow> bool" where
  "topo_ok R xs \<longleftrightarrow> (\<forall>i < length xs. \<forall>u. (u, xs ! i) \<in> R \<longrightarrow> u \<in> set (take i xs))"

lemma topo_ok_snoc: "topo_ok R (xs @ [v]) \<longleftrightarrow> topo_ok R xs \<and> (\<forall>u. (u, v) \<in> R \<longrightarrow> u \<in> set xs)"
  by (auto simp: topo_ok_def nth_append less_Suc_eq)

lemma topo_ok_closed: "topo_ok R xs \<Longrightarrow> v \<in> set xs \<Longrightarrow> (u, v) \<in> R \<Longrightarrow> u \<in> set xs"
  by (metis in_set_conv_nth in_set_takeD topo_ok_def)

lemma topo_ok_acyclic:
  assumes "topo_ok R xs" "R \<subseteq> set xs \<times> set xs"
  shows "acyclic R"
proof (rule acyclicI_order)
  define pos where "pos v = (LEAST i. i < length xs \<and> xs ! i = v)" for v
  fix u v assume e: "(u, v) \<in> R"
  with assms(2) have "\<exists>i. i < length xs \<and> xs ! i = v" by (auto simp: in_set_conv_nth)
  from LeastI_ex[OF this] have v: "pos v < length xs" "xs ! pos v = v" by (simp_all add: pos_def)
  with assms(1) e have "u \<in> set (take (pos v) xs)" unfolding topo_ok_def by metis
  then obtain j where j: "j < pos v" "j < length xs" "xs ! j = u" by (auto simp: in_set_conv_nth)
  then have "pos u \<le> j" unfolding pos_def[of u] by (intro Least_le) simp
  with j(1) show "- int (pos v) < - int (pos u)" by simp
qed

definition topo_inv :: "DAG \<Rightarrow> int smap \<Rightarrow> string list \<Rightarrow> string list \<Rightarrow> bool" where
  "topo_inv d deg queue result \<longleftrightarrow>
     maps_ok d \<and> edges_closed d \<and> degrees_ok d deg (set result) \<and>
     distinct result \<and> distinct queue \<and> set result \<subseteq> set (node_ids d) \<and> topo_ok (dag_rel d) result \<and>
     set queue = ready (dag_rel d) (set (node_ids d)) (set result)"

lemma topo_inv_same: "same_graph d e \<Longrightarrow> topo_inv d deg q res \<Longrightarrow> topo_inv e deg q res"
  by (simp add: topo_inv_def same_graph_ok same_graph_degrees same_graph_rel) (simp add: same_graph_def)

lemma distinct_mset_union:
  assumes "mset q' = mset q + mset_set A" "distinct q" "finite A" "A \<inter> set q = {}"
  shows "distinct q' \<and> set q' = set q \<union> A"
proof -
  have "mset q = mset_set (set q)" using assms(2) by (simp add: mset_set_set)
  with assms have m: "mset q' = mset_set (set q \<union> A)" by (simp add: mset_set_Union Int_commute)
  with assms(3) have "set q' = set q \<union> A" by (metis finite_UnI finite_set_mset_mset_set List.finite_set set_mset_mset)
  moreover from m have "size (mset q') = card (set q \<union> A)" by simp
  ultimately show ?thesis by (simp add: card_distinct)
qed

text \<open>One round of Kahn's loop.\<close>

lemma topo_inv_step:
  assumes inv: "topo_inv d deg (c # q) res" and relax: "relaxNeighbors (edges_of d c) deg q = (deg', q')"
  shows "topo_inv d deg' q' (res @ [c])"
proof -
  let ?N = "set (node_ids d)" and ?R = "dag_rel d" and ?P = "set res" and ?ms = "edges_of d c"
  let ?A = "{m \<in> set ?ms. get_int deg m = int (count_list ?ms m)}"
  from inv have ok: "maps_ok d" "edges_closed d" "degrees_ok d deg ?P" "topo_ok ?R res"
    and dq: "distinct res" "distinct (c # q)" "?P \<subseteq> ?N"
    and cq: "set (c # q) = ready ?R ?N ?P" by (simp_all add: topo_inv_def)
  from cq have c: "c \<in> ?N - ?P" and cpred: "\<And>u. (u, c) \<in> ?R \<Longrightarrow> u \<in> ?P" by (auto simp: ready_def)
  have deg': "deg' = releaseLevel d [c] deg"
    using relaxNeighbors_deg[OF relax] by (simp add: releaseLevel_def)
  then have ok': "degrees_ok d deg' (set (res @ [c]))"
    using degrees_ok_release[OF ok(3,2), of "[c]"] c by simp
  have get': "get_int deg' k = get_int deg k - int (count_list ?ms k)" for k
    by (simp add: deg' releaseLevel_get_int)
  have le: "int (count_list ?ms k) \<le> get_int deg k" for k
  proof -
    have "count_list ?ms k \<le> pending d (?N - ?P) k"
      unfolding pending_def by (rule member_le_sum[OF c]) simp_all
    then show ?thesis using ok(3) by (simp add: degrees_ok_def)
  qed
  have zero: "set (c # q) = {k \<in> ?N - ?P. get_int deg k = 0}" using degree_0_ready[OF ok(3,2)] cq by simp
  have "mset q' = mset q + mset_set ?A" by (rule relaxNeighbors_queue[OF relax]) (rule le)
  moreover have "?A \<inter> set q = {}"
  proof (intro equals0I, elim IntE)
    fix k assume "k \<in> ?A" and "k \<in> set q"
    moreover from \<open>k \<in> set q\<close> zero have "k \<in> {k \<in> ?N - ?P. get_int deg k = 0}"
      by (metis list.set_intros(2))
    ultimately have "count_list ?ms k = 0" "k \<in> set ?ms" by simp_all
    then show False by (simp add: count_list_0_iff)
  qed
  ultimately have q': "distinct q'" "set q' = set q \<union> ?A"
    using distinct_mset_union[of q' q ?A] dq(2) by auto
  have fresh: "k \<notin> set (res @ [c])" "k \<in> ?N" if "k \<in> set ?ms" for k
    using that topo_ok_closed[OF ok(4), of k c] cpred c edges_closed_rel[OF ok(2)] by auto
  have "set q' = {k \<in> ?N - set (res @ [c]). get_int deg' k = 0}"
  proof (intro set_eqI iffI)
    fix k assume "k \<in> set q'"
    then consider "k \<in> set q" | "k \<in> ?A" using q'(2) by blast
    then show "k \<in> {k \<in> ?N - set (res @ [c]). get_int deg' k = 0}"
    proof cases
      case 1
      then have "k \<in> {k \<in> ?N - ?P. get_int deg k = 0}" "k \<noteq> c"
        using zero dq(2) by (metis list.set_intros(2), auto)
      with le[of k] get'[of k] show ?thesis by auto
    next
      case 2
      with fresh[of k] get'[of k] show ?thesis by auto
    qed
  next
    fix k assume "k \<in> {k \<in> ?N - set (res @ [c]). get_int deg' k = 0}"
    with get'[of k] have k: "k \<in> ?N - ?P" "k \<noteq> c" "get_int deg k = int (count_list ?ms k)" by auto
    show "k \<in> set q'"
    proof (cases "k \<in> set ?ms")
      case False
      with k zero show ?thesis using q'(2) by (auto simp: count_notin simp del: set_map)
    qed (use k q'(2) in blast)
  qed
  then have "set q' = ready ?R ?N (set (res @ [c]))" using degree_0_ready[OF ok' ok(2)] by simp
  then show ?thesis
    using ok ok' dq q' c cpred by (simp add: topo_inv_def topo_ok_snoc)
qed

lemma topoLoop_correct:
  assumes "topo_inv d deg q res" "card (set (node_ids d) - set res) \<le> f"
  shows "\<exists>res' e. topoLoop f d deg q res = Some (res', e) \<and> same_graph d e \<and> distinct res' \<and>
    set res' \<subseteq> set (node_ids d) \<and> topo_ok (dag_rel d) res' \<and>
    ready (dag_rel d) (set (node_ids d)) (set res') = {}"
  using assms
proof (induction f arbitrary: d deg q res)
  case 0
  then have "set (node_ids d) \<subseteq> set res" by (simp del: set_map)
  with "0.prems"(1) have "q = []" by (auto simp: topo_inv_def ready_none simp del: set_map)
  with "0.prems"(1) show ?case by (auto simp: topo_inv_def same_graph_refl simp del: set_map)
next
  case (Suc f)
  show ?case
  proof (cases q)
    case Nil
    with Suc.prems(1) show ?thesis by (auto simp: topo_inv_def same_graph_refl simp del: set_map)
  next
    case (Cons c q1)
    let ?e = "sortEdges c d"
    obtain deg' q' where relax: "relaxNeighbors (edges_of ?e c) deg q1 = (deg', q')"
      by (cases "relaxNeighbors (edges_of ?e c) deg q1")
    have inv: "topo_inv ?e deg (c # q1) res"
      using topo_inv_same[OF same_graph_sortEdges Suc.prems(1)] Cons by simp
    have nodes: "node_ids ?e = node_ids d" and rel: "dag_rel ?e = dag_rel d"
      using same_graph_sortEdges[of d c] same_graph_rel[of d ?e] by (simp_all add: same_graph_def)
    have "c \<in> set (node_ids d) - set res" using Suc.prems(1) Cons by (auto simp: topo_inv_def ready_def)
    moreover have "set (node_ids d) - set (res @ [c]) = set (node_ids d) - set res - {c}" by auto
    ultimately have "card (set (node_ids ?e) - set (res @ [c])) \<le> f"
      using Suc.prems(2) nodes by (simp add: card_Diff_singleton_if del: set_map)
    from Suc.IH[OF topo_inv_step[OF inv relax] this] nodes rel obtain res' e where
      "topoLoop f ?e deg' q' (res @ [c]) = Some (res', e)" "same_graph ?e e" "distinct res'"
      "set res' \<subseteq> set (node_ids d)" "topo_ok (dag_rel d) res'"
      "ready (dag_rel d) (set (node_ids d)) (set res') = {}" by auto
    then show ?thesis
      using Cons relax same_graph_trans[OF same_graph_sortEdges] by (auto simp: Let_def)
  qed
qed

lemma topo_inv_init:
  assumes "maps_ok d" "edges_closed d"
  shows "topo_inv d (inDegrees d) (sort (map fst (filter (\<lambda>(n, g). g = 0) (inDegrees d)))) []"
proof -
  note ok = degrees_ok_init[OF assms]
  have keys: "keys (inDegrees d) = node_ids d" using ok by (simp add: degrees_ok_def)
  have wf: "wf_map (inDegrees d)" using keys assms(1) by (simp add: maps_ok_def)
  have "set (map fst (filter (\<lambda>(n, g). g = 0) (inDegrees d))) = ready (dag_rel d) (set (node_ids d)) {}"
    using filter_degrees[OF wf, of "\<lambda>_ g. g = 0"] degree_0_ready[OF ok assms(2)] keys
    by (simp only: Diff_empty)
  then show ?thesis
    using ok assms wf by (simp add: topo_inv_def topo_ok_def distinct_map_filter)
qed

lemma TopologicalSort_correct:
  assumes "maps_ok d" "edges_closed d"
  shows "\<exists>r e. TopologicalSort d = Some (r, e) \<and> same_graph d e \<and>
    (if acyclic (dag_rel d)
     then \<exists>xs. r = Inr xs \<and> mset xs = mset (node_ids d) \<and> topo_ok (dag_rel d) xs
     else r = Inl (Errorf ''DAG contains a cycle''))"
proof -
  let ?N = "set (node_ids d)" and ?R = "dag_rel d"
  have "keys (inDegrees d) = node_ids d"
    using degrees_ok_init[OF assms] by (simp add: degrees_ok_def)
  then have "length (inDegrees d) = length (dag_Nodes d)" by (metis length_map)
  then have fuel: "card (?N - set []) \<le> length (inDegrees d)" using maps_ok_card[OF assms(1)] by simp
  obtain xs e where run: "topoLoop (length (inDegrees d)) d (inDegrees d)
        (sort (map fst (filter (\<lambda>(n, g). g = 0) (inDegrees d)))) [] = Some (xs, e)"
    and post: "same_graph d e" "distinct xs" "set xs \<subseteq> ?N" "topo_ok ?R xs" "ready ?R ?N (set xs) = {}"
    using topoLoop_correct[OF topo_inv_init[OF assms] fuel] by blast
  have len: "length xs = length (dag_Nodes d) \<longleftrightarrow> set xs = ?N"
    using maps_ok_card[OF assms(1)] post(2,3) distinct_card[of xs] card_subset_eq[of ?N "set xs"] by auto
  have "acyclic ?R \<longleftrightarrow> set xs = ?N"
  proof
    assume "acyclic ?R"
    then show "set xs = ?N"
      using ready_nonempty[OF _ edges_closed_rel[OF assms(2)], of "set xs"] post(3,5) by auto
  next
    assume "set xs = ?N"
    then show "acyclic ?R" using topo_ok_acyclic[OF post(4)] edges_closed_rel[OF assms(2)] by simp
  qed
  moreover have "mset xs = mset (node_ids d)" if "set xs = ?N"
    using that post(2) assms(1) by (simp add: set_eq_iff_mset_eq_distinct maps_ok_def del: set_map)
  ultimately show ?thesis
    using run post(1,4) len by (auto simp: TopologicalSort_def Let_def)
qed

section \<open>Roots and copies\<close>

lemma GetRoots_ready:
  assumes "maps_ok d" "edges_closed d"
  shows "set (GetRoots d) = ready (dag_rel d) (set (node_ids d)) {}"
    and "sorted (GetRoots d)" and "distinct (GetRoots d)"
proof -
  have "(\<exists>(k, deps) \<in> set (dag_Edges d). n \<in> set deps) \<longleftrightarrow> (\<exists>u. (u, n) \<in> dag_rel d)" for n
    using edges_of_in_Edges[of n d] assms(1) by (force simp: succ_rel_def get_list_def maps_ok_def)
  then show "set (GetRoots d) = ready (dag_rel d) (set (node_ids d)) {}"
    by (auto simp: GetRoots_def ready_def)
qed (use assms(1) in \<open>simp_all add: GetRoots_def maps_ok_def\<close>)

lemma fold_update_append:
  "wf_map (m @ es) \<Longrightarrow> fold (\<lambda>(k, v). AList.update k v) es m = m @ es"
proof (induction es arbitrary: m)
  case (Cons e es)
  obtain k v where e: "e = (k, v)" by (cases e)
  with Cons.prems have "AList.update k v m = m @ [e]"
    by (induction m) (auto simp: e)
  with Cons e show ?case by simp
qed simp

lemma Clone_equal: "maps_ok d \<Longrightarrow> Clone d = d"
  by (simp add: Clone_def NewDAG_def maps_ok_def fold_update_append)

section \<open>Properties\<close>

text \<open>
  On a graph that passes \<open>Validate\<close>, \<open>GetExecutionLevels\<close> returns, its levels hold every
  node exactly once, and a node stands in a level only when each of its predecessors (the nodes
  with an edge to it) stands in an earlier level, so an edge from \<open>u\<close> to \<open>v\<close> makes \<open>u\<close> run first.
\<close>

theorem GetExecutionLevels_respects_edges:
  assumes "maps_ok d" and "Validate d = None"
  shows "\<exists>Ls. GetExecutionLevels d = Inr Ls \<and> distinct (concat Ls) \<and>
    set (concat Ls) = set (keys (dag_Nodes d)) \<and>
    (\<forall>i < length Ls. \<forall>v \<in> set (Ls ! i). \<forall>u. v \<in> set (get_list (dag_Edges d) u) \<longrightarrow> (\<exists>j < i. u \<in> set (Ls ! j)))"
proof -
  from assms(2) have c: "edges_closed d" "acyclic (dag_rel d)" by (simp_all add: Validate_None)
  then obtain Ls where Ls: "GetExecutionLevels d = Inr Ls" using GetExecutionLevels_iff[OF assms(1)] by blast
  note lay = GetExecutionLevels_layering[OF assms(1) c(1) Ls]
  from layering_set[OF lay] layering_disjoint[OF lay] layering_preds[OF lay] Ls
  show ?thesis by (intro exI[of _ Ls]) (auto simp: succ_rel_def)
qed

theorem GetExecutionLevels_respects_edges_witness:
  "maps_ok example_dag \<and> Validate example_dag = None \<and>
   GetExecutionLevels example_dag = Inr [[''a''], [''b''], [''c'']] \<and>
   (\<exists>Ls. GetExecutionLevels example_dag = Inr Ls \<and> set (concat Ls) = set (keys (dag_Nodes example_dag)))"
proof -
  have h: "maps_ok example_dag" "Validate example_dag = None" by code_simp+
  moreover have "GetExecutionLevels example_dag = Inr [[''a''], [''b''], [''c'']]" by code_simp
  ultimately show ?thesis using GetExecutionLevels_respects_edges[OF h] by blast
qed

text \<open>
  C3. The levels do not depend on the order in which the Go maps are visited, and no node could
  run earlier: two graphs with the same nodes and edges get the same list of levels, each level is
  sorted and holds every node whose predecessors are all in earlier levels, and the first one is
  \<open>GetRoots\<close>.
\<close>

theorem GetExecutionLevels_canonical:
  assumes "maps_ok d" "maps_ok e" "Validate d = None" "Validate e = None"
    and "set (keys (dag_Nodes e)) = set (keys (dag_Nodes d))"
    and "get_list (dag_Edges e) = get_list (dag_Edges d)"
  shows "GetExecutionLevels e = GetExecutionLevels d \<and>
    (\<exists>Ls. GetExecutionLevels d = Inr (GetRoots d # Ls) \<and>
      (\<forall>i < length (GetRoots d # Ls). sorted ((GetRoots d # Ls) ! i) \<and>
         set ((GetRoots d # Ls) ! i) =
           {v \<in> set (keys (dag_Nodes d)). v \<notin> set (concat (take i (GetRoots d # Ls))) \<and>
              (\<forall>u. v \<in> set (get_list (dag_Edges d) u) \<longrightarrow> u \<in> set (concat (take i (GetRoots d # Ls))))}))"
proof -
  let ?R = "dag_rel d" and ?N = "set (node_ids d)"
  from assms(3,4) have c: "edges_closed d" "acyclic ?R" "edges_closed e" "acyclic (dag_rel e)" "dag_Nodes d \<noteq> []"
    by (simp_all add: Validate_None)
  then obtain Ms Ms' where Ms: "GetExecutionLevels d = Inr Ms" "GetExecutionLevels e = Inr Ms'"
    using GetExecutionLevels_iff assms(1,2) by blast
  note lay = GetExecutionLevels_layering[OF assms(1) c(1) Ms(1)]
    and lay' = GetExecutionLevels_layering[OF assms(2) c(3) Ms(2)]
  have same: "Ms' = Ms" using layering_unique[OF lay'] lay assms(5,6) by simp
  obtain L Ls where M: "Ms = L # Ls" using lay c(5) by (cases Ms) auto
  then have L: "L = GetRoots d"
    using lay GetRoots_ready[OF assms(1) c(1)] by (auto intro: sorted_distinct_unique)
  have "sorted (Ms ! i) \<and> set (Ms ! i) = ready ?R ?N (set (concat (take i Ms)))" if "i < length Ms" for i
    using layering_level[OF lay that] by simp
  then show ?thesis using Ms same M L by (auto simp: ready_def succ_rel_def)
qed

theorem GetExecutionLevels_canonical_witness:
  "GetExecutionLevels (example_dag\<lparr>dag_Nodes := rev (dag_Nodes example_dag)\<rparr>) = GetExecutionLevels example_dag"
proof -
  have "maps_ok example_dag" "maps_ok (example_dag\<lparr>dag_Nodes := rev (dag_Nodes example_dag)\<rparr>)"
    "Validate example_dag = None" "Validate (example_dag\<lparr>dag_Nodes := rev (dag_Nodes example_dag)\<rparr>) = None"
    by code_simp+
  from GetExecutionLevels_canonical[OF this] show ?thesis by simp
qed

text \<open>
  C4. \<open>TopologicalSort\<close> always returns. On a closed graph it gives the cycle error exactly when the
  edges have a cycle, and otherwise a list of all nodes in which every node comes after its
  predecessors. Sorting the adjacency lists in place, which it does on the way, keeps the nodes
  and, up to order, the edges.
\<close>

theorem TopologicalSort_sorts:
  assumes "maps_ok d" and "edges_closed d"
  shows "\<exists>r e. TopologicalSort d = Some (r, e) \<and>
    dag_Nodes e = dag_Nodes d \<and> (\<forall>n. mset (get_list (dag_Edges e) n) = mset (get_list (dag_Edges d) n)) \<and>
    (if hasCycle d then r = Inl (Errorf ''DAG contains a cycle'')
     else \<exists>xs. r = Inr xs \<and> mset xs = mset (keys (dag_Nodes d)) \<and>
       (\<forall>i < length xs. \<forall>u. xs ! i \<in> set (get_list (dag_Edges d) u) \<longrightarrow> u \<in> set (take i xs)))"
proof -
  have cyc: "hasCycle d \<longleftrightarrow> \<not> acyclic (dag_rel d)" using hasCycle_iff assms(2) by (simp add: edges_closed_def)
  obtain r e where "TopologicalSort d = Some (r, e)" "same_graph d e"
    "if acyclic (dag_rel d)
     then \<exists>xs. r = Inr xs \<and> mset xs = mset (node_ids d) \<and> topo_ok (dag_rel d) xs
     else r = Inl (Errorf ''DAG contains a cycle'')"
    using TopologicalSort_correct[OF assms] by blast
  then show ?thesis unfolding cyc
    by (intro exI[of _ r] exI[of _ e]) (auto simp: same_graph_def topo_ok_def succ_rel_def)
qed

theorem TopologicalSort_sorts_witness:
  "maps_ok example_dag \<and> edges_closed example_dag \<and> (\<exists>r e. TopologicalSort example_dag = Some (r, e) \<and>
     dag_Nodes e = dag_Nodes example_dag)"
proof -
  have h: "maps_ok example_dag" "edges_closed example_dag"
    by (code_simp, simp add: edges_closed_def example_dag_def targets_in_def)
  then show ?thesis using TopologicalSort_sorts[OF h] by blast
qed

end
