(* ===== verification/Workflow_State.thy ===== *)
theory Workflow_State
  imports Go_Prelude
begin

text \<open>
  Persistent workflow state, \<open>pkg/workflow/state.go\<close>. The two tables are association lists from
  primary key to row. A JSON column is represented by the value its text decodes to: \<open>json_norm\<close>
  is \<open>json.Unmarshal\<close> after \<open>json.Marshal\<close>, under which every number comes back as a float. Every
  operation takes the answer of the database driver (\<open>None\<close>, or the error it reports).
\<close>

section \<open>Data\<close>

record WorkflowState =
  ws_WorkflowID :: string
  ws_WorkflowName :: string
  ws_Status :: string
  ws_CurrentStep :: string
  ws_Outputs :: "any smap"
  ws_StartedAt :: int
  ws_UpdatedAt :: int

record NodeState =
  ns_NodeID :: string
  ns_WorkflowID :: string
  ns_StepName :: string
  ns_Status :: string
  ns_Output :: any
  ns_StartedAt :: int
  ns_CompletedAt :: int

record workflow_row =
  wr_workflow_name :: string
  wr_status :: string
  wr_current_step :: string
  wr_outputs :: "any smap"
  wr_started_at :: int
  wr_updated_at :: int

record step_row =
  sr_workflow_id :: string
  sr_step_name :: string
  sr_status :: string
  sr_output :: any
  sr_started_at :: int
  sr_completed_at :: int

record StateStore =
  workflow_states :: "workflow_row smap"
  workflow_step_states :: "step_row smap"

definition NewStateStore :: StateStore where
  "NewStateStore = \<lparr>workflow_states = [], workflow_step_states = []\<rparr>"

fun json_norm :: "any \<Rightarrow> any" where
  "json_norm ANil = ANil"
| "json_norm (ABool b) = ABool b"
| "json_norm (AInt i) = AFloat (of_int i)"
| "json_norm (AFloat r) = AFloat r"
| "json_norm (AStr s) = AStr s"
| "json_norm (AList xs) = AList (map json_norm xs)"
| "json_norm (AMap m) = AMap (map (\<lambda>(k, v). (k, json_norm v)) m)"

abbreviation json_norm_map :: "any smap \<Rightarrow> any smap" where
  "json_norm_map m \<equiv> map (\<lambda>(k, v). (k, json_norm v)) m"

section \<open>Operations\<close>

definition SaveCheckpoint :: "StateStore \<Rightarrow> gerror option \<Rightarrow> WorkflowState \<Rightarrow> StateStore \<times> gerror option" where
  "SaveCheckpoint s db state =
     (case db of
        Some e \<Rightarrow> (s, Some e)
      | None \<Rightarrow>
          (let new = \<lparr>wr_workflow_name = ws_WorkflowName state, wr_status = ws_Status state,
                      wr_current_step = ws_CurrentStep state, wr_outputs = json_norm_map (ws_Outputs state),
                      wr_started_at = ws_StartedAt state, wr_updated_at = ws_UpdatedAt state\<rparr>;
               row = (case map_of (workflow_states s) (ws_WorkflowID state) of
                        None \<Rightarrow> new
                      | Some old \<Rightarrow> old\<lparr>wr_status := wr_status new, wr_current_step := wr_current_step new,
                                       wr_outputs := wr_outputs new, wr_updated_at := wr_updated_at new\<rparr>)
           in (s\<lparr>workflow_states := AList.update (ws_WorkflowID state) row (workflow_states s)\<rparr>, None)))"

definition LoadCheckpoint :: "StateStore \<Rightarrow> gerror option \<Rightarrow> string \<Rightarrow> gerror + WorkflowState" where
  "LoadCheckpoint s db workflowID =
     (case db of
        Some e \<Rightarrow> Inl e
      | None \<Rightarrow>
          (case map_of (workflow_states s) workflowID of
             None \<Rightarrow> Inl (Errorf ''sql: no rows in result set'')
           | Some r \<Rightarrow> Inr \<lparr>ws_WorkflowID = workflowID, ws_WorkflowName = wr_workflow_name r,
                            ws_Status = wr_status r, ws_CurrentStep = wr_current_step r,
                            ws_Outputs = wr_outputs r, ws_StartedAt = wr_started_at r,
                            ws_UpdatedAt = wr_updated_at r\<rparr>))"

definition nodeStateRowID :: "string \<Rightarrow> string \<Rightarrow> string" where
  "nodeStateRowID workflowID nodeID = (if workflowID = [] then nodeID else workflowID @ '':'' @ nodeID)"

definition nodeIDFromRowID :: "string \<Rightarrow> string \<Rightarrow> string" where
  "nodeIDFromRowID workflowID rowID =
     (let prefix = workflowID @ '':''
      in if HasPrefix rowID prefix then TrimPrefix rowID prefix else rowID)"

definition SaveNodeState :: "StateStore \<Rightarrow> gerror option \<Rightarrow> NodeState \<Rightarrow> StateStore \<times> gerror option" where
  "SaveNodeState s db ns =
     (case db of
        Some e \<Rightarrow> (s, Some e)
      | None \<Rightarrow>
          (let rowID = nodeStateRowID (ns_WorkflowID ns) (ns_NodeID ns);
               new = \<lparr>sr_workflow_id = ns_WorkflowID ns, sr_step_name = ns_StepName ns,
                      sr_status = ns_Status ns, sr_output = json_norm (ns_Output ns),
                      sr_started_at = ns_StartedAt ns, sr_completed_at = ns_CompletedAt ns\<rparr>;
               row = (case map_of (workflow_step_states s) rowID of
                        None \<Rightarrow> new
                      | Some old \<Rightarrow> old\<lparr>sr_status := sr_status new, sr_output := sr_output new,
                                       sr_completed_at := sr_completed_at new\<rparr>)
           in (s\<lparr>workflow_step_states := AList.update rowID row (workflow_step_states s)\<rparr>, None)))"

definition rowToNodeState :: "string \<Rightarrow> string \<times> step_row \<Rightarrow> NodeState" where
  "rowToNodeState workflowID p = (case p of (rowID, r) \<Rightarrow>
     \<lparr>ns_NodeID = nodeIDFromRowID workflowID rowID, ns_WorkflowID = workflowID,
      ns_StepName = sr_step_name r, ns_Status = sr_status r, ns_Output = sr_output r,
      ns_StartedAt = sr_started_at r, ns_CompletedAt = sr_completed_at r\<rparr>)"

definition LoadNodeStates :: "StateStore \<Rightarrow> gerror option \<Rightarrow> string \<Rightarrow> gerror + NodeState list" where
  "LoadNodeStates s db workflowID =
     (case db of
        Some e \<Rightarrow> Inl e
      | None \<Rightarrow> Inr (map (rowToNodeState workflowID)
                  (sort_key (\<lambda>p. sr_started_at (snd p))
                    (filter (\<lambda>p. sr_workflow_id (snd p) = workflowID) (workflow_step_states s)))))"

text \<open>\<open>make([]WorkflowState, 0, limit)\<close> panics on a negative capacity.\<close>

definition ListWorkflows :: "StateStore \<Rightarrow> gerror option \<Rightarrow> string \<Rightarrow> int \<Rightarrow> gerror + WorkflowState list" where
  "ListWorkflows s db status limit =
     (case db of
        Some e \<Rightarrow> Inl e
      | None \<Rightarrow>
          if limit < 0 then Inl (Errorf ''panic: makeslice: cap out of range'')
          else Inr (map (\<lambda>(i, r). \<lparr>ws_WorkflowID = i, ws_WorkflowName = wr_workflow_name r,
                              ws_Status = wr_status r, ws_CurrentStep = wr_current_step r,
                              ws_Outputs = [], ws_StartedAt = wr_started_at r,
                              ws_UpdatedAt = wr_updated_at r\<rparr>)
                 (take (nat limit)
                   (sort_key (\<lambda>p. - wr_updated_at (snd p))
                     (filter (\<lambda>p. status = [] \<or> wr_status (snd p) = status) (workflow_states s))))))"

definition DeleteWorkflowState ::
    "StateStore \<Rightarrow> gerror option \<Rightarrow> gerror option \<Rightarrow> string \<Rightarrow> StateStore \<times> gerror option" where
  "DeleteWorkflowState s db1 db2 workflowID =
     (case db1 of
        Some e \<Rightarrow> (s, Some e)
      | None \<Rightarrow>
          (let s1 = s\<lparr>workflow_step_states :=
                        filter (\<lambda>p. sr_workflow_id (snd p) \<noteq> workflowID) (workflow_step_states s)\<rparr>
           in case db2 of
                Some e \<Rightarrow> (s1, Some e)
              | None \<Rightarrow> (s1\<lparr>workflow_states := AList.delete workflowID (workflow_states s1)\<rparr>, None)))"

section \<open>Lemmas\<close>

lemma json_norm_idem [simp]: "json_norm (json_norm v) = json_norm v"
  by (induction v rule: json_norm.induct) (auto simp: comp_def)

text \<open>The row key of a node is recovered from it.\<close>

lemma nodeID_roundtrip:
  assumes "w \<noteq> [] \<or> \<not> HasPrefix n '':''"
  shows "nodeIDFromRowID w (nodeStateRowID w n) = n"
proof (cases "w = []")
  case True
  with assms show ?thesis by (simp add: nodeIDFromRowID_def nodeStateRowID_def)
next
  case False
  have "HasPrefix (w @ CHR '':'' # n) (w @ '':'')" "TrimPrefix (w @ CHR '':'' # n) (w @ '':'') = n"
    using HasPrefix_append[of "w @ '':''" n] TrimPrefix_append[of "w @ '':''" n] by simp_all
  with False show ?thesis by (simp add: nodeIDFromRowID_def nodeStateRowID_def)
qed

lemma append_sep_inject:
  "c \<notin> set xs \<Longrightarrow> c \<notin> set ys \<Longrightarrow> xs @ c # us = ys @ c # vs \<longleftrightarrow> xs = ys \<and> us = vs"
proof (induction xs arbitrary: ys)
  case (Cons x xs)
  then show ?case by (cases ys) auto
qed (auto simp: Cons_eq_append_conv)

lemma rowID_inject:
  assumes "w \<noteq> []" "w' \<noteq> []" "CHR '':'' \<notin> set w" "CHR '':'' \<notin> set w'"
  shows "nodeStateRowID w n = nodeStateRowID w' n' \<longleftrightarrow> w = w' \<and> n = n'"
  using assms append_sep_inject[of "CHR '':''" w w' n n'] by (simp add: nodeStateRowID_def)

lemma saved_outputs:
  "\<exists>ws. LoadCheckpoint (fst (SaveCheckpoint s None state)) None (ws_WorkflowID state) = Inr ws \<and>
        ws_Outputs ws = json_norm_map (ws_Outputs state)"
  by (simp add: LoadCheckpoint_def SaveCheckpoint_def Let_def split: option.split)

definition store_ok :: "StateStore \<Rightarrow> bool" where
  "store_ok s \<longleftrightarrow> wf_map (workflow_states s) \<and> wf_map (workflow_step_states s)"

lemma store_ok_ops:
  "store_ok s \<Longrightarrow> store_ok (fst (SaveCheckpoint s db st))"
  "store_ok s \<Longrightarrow> store_ok (fst (SaveNodeState s db ns))"
  "store_ok s \<Longrightarrow> store_ok (fst (DeleteWorkflowState s db1 db2 w))"
  by (auto simp: store_ok_def SaveCheckpoint_def SaveNodeState_def DeleteWorkflowState_def Let_def
      AList.update_keys AList.delete_keys distinct_removeAll distinct_map_filter split: option.splits)

text \<open>A stored row belongs to the workflow named in its key.\<close>

definition plain_id :: "string \<Rightarrow> bool" where
  "plain_id w \<longleftrightarrow> w \<noteq> [] \<and> CHR '':'' \<notin> set w"

definition rows_owned :: "StateStore \<Rightarrow> bool" where
  "rows_owned s \<longleftrightarrow> (\<forall>(k, r) \<in> set (workflow_step_states s).
     plain_id (sr_workflow_id r) \<and> HasPrefix k (sr_workflow_id r @ '':''))"

lemma rowID_owner:
  assumes "plain_id w" "plain_id w'" "HasPrefix (nodeStateRowID w n) (w' @ '':'')"
  shows "w' = w"
proof -
  obtain r where "w @ CHR '':'' # n = w' @ CHR '':'' # r"
    using assms(1,3) by (auto simp: plain_id_def nodeStateRowID_def elim: HasPrefixE)
  then show ?thesis using assms append_sep_inject[of "CHR '':''" w w'] by (simp add: plain_id_def)
qed

lemma filter_update_irrelevant:
  assumes "\<not> P (k, v)" and "\<And>old. map_of m k = Some old \<Longrightarrow> \<not> P (k, old)"
  shows "filter P (AList.update k v m) = filter P m"
  using assms by (induction m) auto

lemma SaveNodeState_other:
  assumes "rows_owned s" "plain_id (ns_WorkflowID ns)" "ns_WorkflowID ns \<noteq> w"
  shows "LoadNodeStates (fst (SaveNodeState s None ns)) None w = LoadNodeStates s None w"
proof -
  let ?k = "nodeStateRowID (ns_WorkflowID ns) (ns_NodeID ns)"
  let ?P = "\<lambda>p. sr_workflow_id (snd p) = w"
  have old: "sr_workflow_id r = ns_WorkflowID ns" if "map_of (workflow_step_states s) ?k = Some r" for r
    using map_of_SomeD[OF that] assms(1,2) rowID_owner[of "ns_WorkflowID ns" "sr_workflow_id r"]
    by (auto simp: rows_owned_def)
  have "filter ?P (AList.update ?k v (workflow_step_states s)) = filter ?P (workflow_step_states s)"
    if "sr_workflow_id v = ns_WorkflowID ns" for v
    using that old assms(3) by (intro filter_update_irrelevant) auto
  then show ?thesis
    using old by (auto simp: LoadNodeStates_def SaveNodeState_def Let_def split: option.splits)
qed

lemma rows_owned_SaveNodeState:
  assumes "rows_owned s" "plain_id (ns_WorkflowID ns)"
  shows "rows_owned (fst (SaveNodeState s db ns))"
proof -
  let ?k = "nodeStateRowID (ns_WorkflowID ns) (ns_NodeID ns)"
  have k: "HasPrefix ?k (ns_WorkflowID ns @ '':'')"
    using assms(2) HasPrefix_append[of "ns_WorkflowID ns @ '':''" "ns_NodeID ns"]
    by (simp add: nodeStateRowID_def plain_id_def)
  have upd: "rows_owned (s\<lparr>workflow_step_states := AList.update ?k v (workflow_step_states s)\<rparr>)"
    if "plain_id (sr_workflow_id v)" "HasPrefix ?k (sr_workflow_id v @ '':'')" for v
    using that assms(1) set_update_subset[of ?k v "workflow_step_states s"] by (simp add: rows_owned_def) blast
  show ?thesis
  proof (cases "map_of (workflow_step_states s) ?k")
    case None
    have "rows_owned (fst (SaveNodeState s None ns))"
      unfolding SaveNodeState_def by (simp add: Let_def None) (rule upd; simp add: assms(2) k)
    with assms(1) show ?thesis by (cases db) (simp_all add: SaveNodeState_def)
  next
    case (Some r)
    with assms(1) have r: "plain_id (sr_workflow_id r)" "HasPrefix ?k (sr_workflow_id r @ '':'')"
      by (auto simp: rows_owned_def dest!: map_of_SomeD)
    have "rows_owned (fst (SaveNodeState s None ns))"
      unfolding SaveNodeState_def by (simp add: Let_def Some) (rule upd; simp add: r)
    with assms(1) show ?thesis by (cases db) (simp_all add: SaveNodeState_def)
  qed
qed

section \<open>Properties\<close>

definition example_state :: "string \<Rightarrow> string \<Rightarrow> NodeState" where
  "example_state w n = \<lparr>ns_NodeID = n, ns_WorkflowID = w, ns_StepName = n, ns_Status = ''completed'',
     ns_Output = AInt 1, ns_StartedAt = 0, ns_CompletedAt = 1\<rparr>"

text \<open>
  Loading a checkpoint after saving one gives back what was saved, with the outputs as JSON
  returns them; a checkpoint saved over an older one of the same workflow keeps the name and the
  start time of the older one, and no other workflow's checkpoint changes.
\<close>

theorem checkpoint_roundtrip:
  "LoadCheckpoint (fst (SaveCheckpoint s None state)) None w =
     (if w \<noteq> ws_WorkflowID state then LoadCheckpoint s None w
      else Inr (case map_of (workflow_states s) w of
                  None \<Rightarrow> state\<lparr>ws_Outputs := json_norm_map (ws_Outputs state)\<rparr>
                | Some old \<Rightarrow> state\<lparr>ws_Outputs := json_norm_map (ws_Outputs state),
                                   ws_WorkflowName := wr_workflow_name old,
                                   ws_StartedAt := wr_started_at old\<rparr>))"
  by (cases "map_of (workflow_states s) (ws_WorkflowID state)")
    (auto simp: LoadCheckpoint_def SaveCheckpoint_def)

text \<open>
  Node states of different workflows do not interfere as long as workflow identifiers are
  non-empty and free of colons: saving a node state of one workflow leaves what \<open>LoadNodeStates\<close>
  returns for another one unchanged, and the saved rows stay attributed to their workflow.
\<close>

theorem SaveNodeState_isolation:
  assumes "rows_owned s" and "plain_id (ns_WorkflowID ns)" and "ns_WorkflowID ns \<noteq> w"
  shows "LoadNodeStates (fst (SaveNodeState s db ns)) None w = LoadNodeStates s None w \<and>
    rows_owned (fst (SaveNodeState s db ns))"
proof -
  have "fst (SaveNodeState s (Some e) ns) = s" for e by (simp add: SaveNodeState_def)
  with SaveNodeState_other[OF assms] rows_owned_SaveNodeState[OF assms(1,2), of db] show ?thesis
    by (cases db) simp_all
qed

theorem SaveNodeState_isolation_witness:
  "LoadNodeStates (fst (SaveNodeState (fst (SaveNodeState NewStateStore None (example_state ''w'' ''a''))) None
     (example_state ''v'' ''a''))) None ''w'' =
   LoadNodeStates (fst (SaveNodeState NewStateStore None (example_state ''w'' ''a''))) None ''w''"
proof -
  have "rows_owned (fst (SaveNodeState NewStateStore None (example_state ''w'' ''a'')))"
    "plain_id (ns_WorkflowID (example_state ''v'' ''a''))" "ns_WorkflowID (example_state ''v'' ''a'') \<noteq> ''w''"
    by code_simp+
  from SaveNodeState_isolation[OF this] show ?thesis by blast
qed

text \<open>
  The row key is ambiguous when a workflow identifier contains a colon: node \<open>b:c\<close> of
  workflow \<open>a\<close> and node \<open>c\<close> of workflow \<open>a:b\<close> share one row, the later save overwrites the status
  of the earlier one, and the later workflow finds no node state of its own.
\<close>

theorem row_key_collision:
  "nodeStateRowID ''a'' ''b:c'' = nodeStateRowID ''a:b'' ''c'' \<and>
   (let s1 = fst (SaveNodeState NewStateStore None (example_state ''a'' ''b:c''));
        s2 = fst (SaveNodeState s1 None ((example_state ''a:b'' ''c'')\<lparr>ns_Status := ''failed''\<rparr>))
    in LoadNodeStates s2 None ''a:b'' = Inr [] \<and>
       LoadNodeStates s2 None ''a'' =
         Inr [(example_state ''a'' ''b:c'')\<lparr>ns_Status := ''failed'', ns_Output := AFloat 1\<rparr>])"
  by code_simp

text \<open>
  A node identifier is recovered from its row key, except for one that starts with a colon in a
  workflow with an empty identifier.
\<close>

theorem node_id_roundtrip:
  "nodeIDFromRowID w (nodeStateRowID w n) = n \<longleftrightarrow> w \<noteq> [] \<or> \<not> HasPrefix n '':''"
proof (cases "w \<noteq> [] \<or> \<not> HasPrefix n '':''")
  case False
  then obtain r where "w = []" "n = '':'' @ r" by (auto elim: HasPrefixE)
  then show ?thesis using TrimPrefix_append[of "'':''" r] HasPrefix_append[of "'':''" r]
    by (simp add: nodeIDFromRowID_def nodeStateRowID_def)
qed (simp add: nodeID_roundtrip)

end
