(* ===== verification/Approval_Queue.thy ===== *)
theory Approval_Queue
  imports Workflow_State
begin

text \<open>
  The approval queues of \<open>pkg/policy\<close>: the interface \<open>ApprovalQueue\<close> as the locale
  \<open>approval_queue\<close>, and its three implementations, in memory, auto-approving and SQLite, each an
  interpretation of it. Identifiers come from \<open>uuid.New\<close> and times from \<open>time.Now\<close>; both are
  arguments. The client lemmas, proved once in the locale, say that a queue refines the table of
  statuses \<open>spec_step\<close> and that the first decision on a request is final.
\<close>

section \<open>Data\<close>

record ApprovalRequest =
  ar_ID :: string
  ar_Tool :: string
  ar_Input :: "any smap"
  ar_Approvers :: "string list"
  ar_RunID :: string
  ar_StepID :: string
  ar_CreatedAt :: int
  ar_Status :: string

type_synonym reqs = "ApprovalRequest smap"

section \<open>MemoryApprovalQueue\<close>

definition NewMemoryApprovalQueue :: reqs where
  "NewMemoryApprovalQueue = []"

definition mem_Enqueue ::
    "reqs \<Rightarrow> string \<Rightarrow> int \<Rightarrow> string \<Rightarrow> any smap \<Rightarrow> string list \<Rightarrow> string \<Rightarrow> string \<Rightarrow> reqs" where
  "mem_Enqueue q rid now tool input approvers runID stepID =
     AList.update rid \<lparr>ar_ID = rid, ar_Tool = tool, ar_Input = input, ar_Approvers = approvers,
       ar_RunID = runID, ar_StepID = stepID, ar_CreatedAt = now, ar_Status = ''pending''\<rparr> q"

definition mem_ListPending :: "reqs \<Rightarrow> ApprovalRequest list" where
  "mem_ListPending q = filter (\<lambda>r. ar_Status r = ''pending'') (map snd q)"

definition mem_Get :: "reqs \<Rightarrow> string \<Rightarrow> ApprovalRequest option" where
  "mem_Get q rid = map_of q rid"

definition mem_decide :: "string \<Rightarrow> reqs \<Rightarrow> string \<Rightarrow> reqs" where
  "mem_decide verdict q rid =
     (case map_of q rid of
        None \<Rightarrow> q
      | Some r \<Rightarrow> if ar_Status r = ''pending'' then AList.update rid (r\<lparr>ar_Status := verdict\<rparr>) q else q)"

definition mem_Approve :: "reqs \<Rightarrow> string \<Rightarrow> reqs" where
  "mem_Approve = mem_decide ''approved''"

definition mem_Deny :: "reqs \<Rightarrow> string \<Rightarrow> reqs" where
  "mem_Deny = mem_decide ''denied''"

section \<open>AutoApprovalQueue\<close>

definition NewAutoApprovalQueue :: reqs where
  "NewAutoApprovalQueue = []"

definition auto_Enqueue ::
    "reqs \<Rightarrow> string \<Rightarrow> int \<Rightarrow> string \<Rightarrow> any smap \<Rightarrow> string list \<Rightarrow> string \<Rightarrow> string \<Rightarrow> reqs" where
  "auto_Enqueue q rid now tool input approvers runID stepID =
     AList.update rid \<lparr>ar_ID = rid, ar_Tool = tool, ar_Input = input, ar_Approvers = approvers,
       ar_RunID = runID, ar_StepID = stepID, ar_CreatedAt = now, ar_Status = ''approved''\<rparr> q"

definition auto_ListPending :: "reqs \<Rightarrow> ApprovalRequest list" where
  "auto_ListPending q = []"

definition auto_Get :: "reqs \<Rightarrow> string \<Rightarrow> ApprovalRequest option" where
  "auto_Get q rid = map_of q rid"

definition auto_Approve :: "reqs \<Rightarrow> string \<Rightarrow> reqs" where
  "auto_Approve q rid = q"

definition auto_Deny :: "reqs \<Rightarrow> string \<Rightarrow> reqs" where
  "auto_Deny q rid = q"

section \<open>SQLiteApprovalQueue\<close>

text \<open>
  The table \<open>approval_requests\<close>. The input column holds JSON, the creation time has the resolution
  of RFC 3339 (seconds; times are in nanoseconds), and the primary key refuses a second row.
\<close>

record approval_row =
  aq_tool :: string
  aq_input :: "any smap"
  aq_approvers :: "string list"
  aq_run_id :: string
  aq_step_id :: string
  aq_status :: string
  aq_created_at :: int

type_synonym approval_table = "approval_row smap"

definition sql_Enqueue :: "approval_table \<Rightarrow> gerror option \<Rightarrow> string \<Rightarrow> int \<Rightarrow> string \<Rightarrow> any smap \<Rightarrow>
    string list \<Rightarrow> string \<Rightarrow> string \<Rightarrow> approval_table \<times> (gerror + string)" where
  "sql_Enqueue t db rid now tool input approvers runID stepID =
     (case db of
        Some e \<Rightarrow> (t, Inl (Wrap ''enqueue: '' e))
      | None \<Rightarrow>
          if has_key t rid then (t, Inl (Wrap ''enqueue: '' (Errorf ''UNIQUE constraint failed'')))
          else (AList.update rid \<lparr>aq_tool = tool, aq_input = json_norm_map input, aq_approvers = approvers,
                  aq_run_id = runID, aq_step_id = stepID, aq_status = ''pending'',
                  aq_created_at = now div 1000000000 * 1000000000\<rparr> t, Inr rid))"

definition row_request :: "string \<Rightarrow> approval_row \<Rightarrow> ApprovalRequest" where
  "row_request rid r =
     \<lparr>ar_ID = rid, ar_Tool = aq_tool r, ar_Input = aq_input r, ar_Approvers = aq_approvers r,
      ar_RunID = aq_run_id r, ar_StepID = aq_step_id r, ar_CreatedAt = aq_created_at r,
      ar_Status = aq_status r\<rparr>"

definition sql_ListPending :: "approval_table \<Rightarrow> gerror option \<Rightarrow> gerror + ApprovalRequest list" where
  "sql_ListPending t db =
     (case db of
        Some e \<Rightarrow> Inl (Wrap ''list: '' e)
      | None \<Rightarrow> Inr (map (\<lambda>(i, r). row_request i r)
                  (sort_key (\<lambda>p. aq_created_at (snd p)) (filter (\<lambda>p. aq_status (snd p) = ''pending'') t))))"

definition sql_Get :: "approval_table \<Rightarrow> gerror option \<Rightarrow> string \<Rightarrow> gerror + ApprovalRequest option" where
  "sql_Get t db rid =
     (case db of
        Some e \<Rightarrow> Inl (Wrap ''get: '' e)
      | None \<Rightarrow> Inr (map_option (row_request rid) (map_of t rid)))"

text \<open>\<open>UPDATE approval_requests SET status = v WHERE id = ? AND status = 'pending'\<close>.\<close>

definition sql_update_status :: "string \<Rightarrow> approval_table \<Rightarrow> string \<Rightarrow> approval_table" where
  "sql_update_status v t rid =
     map (\<lambda>(i, r). if i = rid \<and> aq_status r = ''pending'' then (i, r\<lparr>aq_status := v\<rparr>) else (i, r)) t"

definition sql_Approve :: "approval_table \<Rightarrow> gerror option \<Rightarrow> string \<Rightarrow> approval_table \<times> gerror option" where
  "sql_Approve t db rid =
     (case db of Some e \<Rightarrow> (t, Some (Wrap ''approve: '' e)) | None \<Rightarrow> (sql_update_status ''approved'' t rid, None))"

definition sql_Deny :: "approval_table \<Rightarrow> gerror option \<Rightarrow> string \<Rightarrow> approval_table \<times> gerror option" where
  "sql_Deny t db rid =
     (case db of Some e \<Rightarrow> (t, Some (Wrap ''deny: '' e)) | None \<Rightarrow> (sql_update_status ''denied'' t rid, None))"

section \<open>The interface\<close>

text \<open>What a client may do to a queue, and the table of statuses it should see.\<close>

datatype approval_op =
    OpEnqueue string int string "any smap" "string list" string string
  | OpApprove string
  | OpDeny string

type_synonym 'q enqueue_fun =
  "'q \<Rightarrow> string \<Rightarrow> int \<Rightarrow> string \<Rightarrow> any smap \<Rightarrow> string list \<Rightarrow> string \<Rightarrow> string \<Rightarrow> 'q"

fun queue_step ::
    "'q enqueue_fun \<Rightarrow> ('q \<Rightarrow> string \<Rightarrow> 'q) \<Rightarrow> ('q \<Rightarrow> string \<Rightarrow> 'q) \<Rightarrow> approval_op \<Rightarrow> 'q \<Rightarrow> 'q" where
  "queue_step enq app den (OpEnqueue i now tool input ap run stp) q = enq q i now tool input ap run stp"
| "queue_step enq app den (OpApprove i) q = app q i"
| "queue_step enq app den (OpDeny i) q = den q i"

definition decide :: "string \<Rightarrow> string \<Rightarrow> (string \<rightharpoonup> string) \<Rightarrow> (string \<rightharpoonup> string)" where
  "decide v i m = (if m i = Some ''pending'' then m(i \<mapsto> v) else m)"

fun spec_step :: "string \<Rightarrow> approval_op \<Rightarrow> (string \<rightharpoonup> string) \<Rightarrow> (string \<rightharpoonup> string)" where
  "spec_step s0 (OpEnqueue i now tool input ap run stp) m = m(i \<mapsto> s0)"
| "spec_step s0 (OpApprove i) m = decide ''approved'' i m"
| "spec_step s0 (OpDeny i) m = decide ''denied'' i m"

text \<open>Identifiers are fresh: no request is enqueued under an identifier that is taken.\<close>

fun fresh_ops :: "(string \<rightharpoonup> string) \<Rightarrow> approval_op list \<Rightarrow> bool" where
  "fresh_ops m [] = True"
| "fresh_ops m (OpEnqueue i now tool input ap run stp # ops) = (m i = None \<and> fresh_ops (m(i \<mapsto> [])) ops)"
| "fresh_ops m (op # ops) = fresh_ops m ops"

locale approval_queue =
  fixes initial :: string
    and enqueue :: "'q enqueue_fun"
    and get :: "'q \<Rightarrow> string \<Rightarrow> ApprovalRequest option"
    and approve :: "'q \<Rightarrow> string \<Rightarrow> 'q"
    and deny :: "'q \<Rightarrow> string \<Rightarrow> 'q"
    and list_pending :: "'q \<Rightarrow> ApprovalRequest list"
    and invar :: "'q \<Rightarrow> bool"
  assumes invar_enqueue: "invar q \<Longrightarrow> invar (enqueue q i now tool input ap run stp)"
    and invar_approve: "invar q \<Longrightarrow> invar (approve q i)"
    and invar_deny: "invar q \<Longrightarrow> invar (deny q i)"
    and get_enqueue: "invar q \<Longrightarrow> get q i = None \<Longrightarrow>
      map_option ar_Status (get (enqueue q i now tool input ap run stp) i) = Some initial"
    and get_enqueue_other: "invar q \<Longrightarrow> j \<noteq> i \<Longrightarrow> get (enqueue q i now tool input ap run stp) j = get q j"
    and get_approve: "invar q \<Longrightarrow> map_option ar_Status (get (approve q i) j) =
      decide ''approved'' i (\<lambda>k. map_option ar_Status (get q k)) j"
    and get_deny: "invar q \<Longrightarrow> map_option ar_Status (get (deny q i) j) =
      decide ''denied'' i (\<lambda>k. map_option ar_Status (get q k)) j"
    and pending_listed: "invar q \<Longrightarrow>
      set (list_pending q) = {r. \<exists>i. get q i = Some r \<and> ar_Status r = ''pending''}"
begin

definition statuses :: "'q \<Rightarrow> string \<rightharpoonup> string" where
  "statuses q = (\<lambda>i. map_option ar_Status (get q i))"

abbreviation step :: "approval_op \<Rightarrow> 'q \<Rightarrow> 'q" where
  "step \<equiv> queue_step enqueue approve deny"

lemma step_invar: "invar q \<Longrightarrow> invar (step op q)"
  by (cases op) (auto intro: invar_enqueue invar_approve invar_deny)

lemma step_refines:
  assumes "invar q" "fresh_ops (statuses q) [op]"
  shows "statuses (step op q) = spec_step initial op (statuses q)"
  using assms get_enqueue[OF assms(1)] get_enqueue_other[OF assms(1)] get_approve[OF assms(1)]
    get_deny[OF assms(1)]
  by (cases op) (auto simp: statuses_def fun_eq_iff)

lemma run_invar: "invar q \<Longrightarrow> invar (fold step ops q)"
  by (induction ops arbitrary: q) (auto intro: step_invar)

end

lemma fresh_ops_dom: "dom m = dom m' \<Longrightarrow> fresh_ops m ops = fresh_ops m' ops"
proof (induction m ops arbitrary: m' rule: fresh_ops.induct)
  case (2 m i now tool input ap run stp ops)
  then have "dom (m(i \<mapsto> [])) = dom (m'(i \<mapsto> []))" by simp
  from "2.IH"[OF this] have "fresh_ops (m(i \<mapsto> [])) ops = fresh_ops (m'(i \<mapsto> [])) ops" .
  moreover have "m i = None \<longleftrightarrow> m' i = None" using 2(2) by (metis domIff)
  ultimately show ?case by simp
qed auto

lemma dom_decide [simp]: "dom (decide v i m) = dom m"
  by (auto simp: decide_def split: if_splits)

lemma fresh_ops_Cons: "fresh_ops m (op # ops) \<Longrightarrow> fresh_ops m [op] \<and> fresh_ops (spec_step s0 op m) ops"
proof (cases op)
  case (OpEnqueue i now tool input ap run stp)
  moreover have "fresh_ops (m(i \<mapsto> [])) ops = fresh_ops (m(i \<mapsto> s0)) ops" by (rule fresh_ops_dom) simp
  ultimately show "fresh_ops m (op # ops) \<Longrightarrow> ?thesis" by simp
qed (use fresh_ops_dom[of m "decide _ _ m" ops] in auto)

text \<open>A decided request keeps its status whatever happens next.\<close>

lemma spec_step_decided:
  assumes "m i = Some v" "v \<noteq> ''pending''" "fresh_ops m [op]"
  shows "spec_step s0 op m i = Some v"
  using assms by (cases op) (auto simp: decide_def)

lemma spec_run_decided:
  "m i = Some v \<Longrightarrow> v \<noteq> ''pending'' \<Longrightarrow> fresh_ops m ops \<Longrightarrow> fold (spec_step s0) ops m i = Some v"
proof (induction ops arbitrary: m)
  case (Cons op ops)
  from fresh_ops_Cons[OF Cons.prems(3)] have "fresh_ops m [op]" "fresh_ops (spec_step s0 op m) ops" by blast+
  with Cons spec_step_decided[of m i v op s0] show ?case by simp
qed simp

context approval_queue
begin

text \<open>Any run of operations refines the run of the specification.\<close>

lemma run_refines:
  "invar q \<Longrightarrow> fresh_ops (statuses q) ops \<Longrightarrow>
     statuses (fold step ops q) = fold (spec_step initial) ops (statuses q)"
proof (induction ops arbitrary: q)
  case (Cons op ops)
  from fresh_ops_Cons[OF Cons.prems(2)] have f: "fresh_ops (statuses q) [op]"
    "fresh_ops (spec_step initial op (statuses q)) ops" by blast+
  with step_refines[OF Cons.prems(1) f(1)] Cons.IH[OF step_invar[OF Cons.prems(1)], of op]
  show ?case by simp
qed simp

lemma decision_final:
  assumes "invar q" "get q i = Some r" "ar_Status r \<noteq> ''pending''" "fresh_ops (statuses q) ops"
  shows "\<exists>r'. get (fold step ops q) i = Some r' \<and> ar_Status r' = ar_Status r"
proof -
  have "statuses (fold step ops q) i = Some (ar_Status r)"
    using run_refines[OF assms(1,4)] spec_run_decided[of "statuses q" i "ar_Status r" ops] assms
    by (simp add: statuses_def)
  then show ?thesis by (simp add: statuses_def)
qed

end

section \<open>The three implementations meet the contract\<close>

lemma map_of_pairs: "wf_map q \<Longrightarrow> set (map snd q) = {r. \<exists>i. map_of q i = Some r}"
  by (force simp: map_of_eq_Some_iff)

lemma mem_decide_status:
  "map_option ar_Status (map_of (mem_decide v q i) j) = decide v i (\<lambda>k. map_option ar_Status (map_of q k)) j"
  by (auto simp: mem_decide_def decide_def split: option.splits)

lemma wf_mem_decide: "wf_map q \<Longrightarrow> wf_map (mem_decide v q i)"
  by (simp add: mem_decide_def wf_map_update split: option.split)

interpretation mq: approval_queue "''pending''" mem_Enqueue mem_Get mem_Approve mem_Deny mem_ListPending wf_map
proof (unfold_locales, goal_cases)
  case (8 q)
  then show ?case using map_of_pairs[OF 8] by (auto simp: mem_ListPending_def mem_Get_def)
qed (simp_all add: mem_Enqueue_def mem_Get_def mem_Approve_def mem_Deny_def wf_map_update wf_mem_decide
      mem_decide_status del: distinct_map)

definition auto_ok :: "reqs \<Rightarrow> bool" where
  "auto_ok q = (wf_map q \<and> (\<forall>r \<in> set (map snd q). ar_Status r = ''approved''))"

lemma auto_ok_get: "auto_ok q \<Longrightarrow> map_of q i = Some r \<Longrightarrow> ar_Status r = ''approved''"
  by (auto simp: auto_ok_def dest: map_of_SomeD)

lemma auto_ok_Enqueue: "auto_ok q \<Longrightarrow> auto_ok (auto_Enqueue q i now tool input ap run stp)"
  unfolding auto_ok_def
  by (auto simp: auto_Enqueue_def wf_map_update map_of_pairs simp del: set_map)

lemma auto_decide: "auto_ok q \<Longrightarrow> decide v i (\<lambda>k. map_option ar_Status (map_of q k)) j = map_option ar_Status (map_of q j)"
  by (auto simp: decide_def dest: auto_ok_get)

interpretation aq: approval_queue "''approved''" auto_Enqueue auto_Get auto_Approve auto_Deny auto_ListPending auto_ok
proof (unfold_locales, goal_cases)
  case (8 q)
  then show ?case by (auto simp: auto_ListPending_def auto_Get_def dest: auto_ok_get)
next
  case (1 q i now tool input ap run stp)
  then show ?case by (rule auto_ok_Enqueue)
qed (simp_all add: auto_Enqueue_def auto_Get_def auto_Approve_def auto_Deny_def auto_decide)

text \<open>The SQLite queue as its client sees it while the driver reports no error.\<close>

definition db_enqueue :: "approval_table enqueue_fun" where
  "db_enqueue t i now tool input ap run stp = fst (sql_Enqueue t None i now tool input ap run stp)"

definition db_get :: "approval_table \<Rightarrow> string \<Rightarrow> ApprovalRequest option" where
  "db_get t i = (case sql_Get t None i of Inl e \<Rightarrow> None | Inr r \<Rightarrow> r)"

definition db_approve :: "approval_table \<Rightarrow> string \<Rightarrow> approval_table" where
  "db_approve t i = fst (sql_Approve t None i)"

definition db_deny :: "approval_table \<Rightarrow> string \<Rightarrow> approval_table" where
  "db_deny t i = fst (sql_Deny t None i)"

definition db_pending :: "approval_table \<Rightarrow> ApprovalRequest list" where
  "db_pending t = (case sql_ListPending t None of Inl e \<Rightarrow> [] | Inr rs \<Rightarrow> rs)"

lemma db_get_eq [simp]: "db_get t i = map_option (row_request i) (map_of t i)"
  by (simp add: db_get_def sql_Get_def)

lemma status_row_request [simp]: "ar_Status (row_request i r) = aq_status r"
  by (simp add: row_request_def)

lemma keys_sql_update [simp]: "keys (sql_update_status v t i) = keys t"
  by (auto simp: sql_update_status_def)

lemma map_of_sql_update:
  "map_of (sql_update_status v t i) j =
     map_option (\<lambda>r. if j = i \<and> aq_status r = ''pending'' then r\<lparr>aq_status := v\<rparr> else r) (map_of t j)"
  by (induction t) (auto simp: sql_update_status_def)

lemma sql_update_status_decide:
  "map_option ar_Status (db_get (sql_update_status v t i) j) = decide v i (\<lambda>k. map_option ar_Status (db_get t k)) j"
  by (cases "map_of t j") (auto simp: map_of_sql_update decide_def)

lemma set_db_pending:
  assumes "wf_map t"
  shows "set (db_pending t) = {r. \<exists>i. db_get t i = Some r \<and> ar_Status r = ''pending''}"
proof -
  have "set (db_pending t) = {row_request i r | i r. (i, r) \<in> set t \<and> aq_status r = ''pending''}"
    by (force simp: db_pending_def sql_ListPending_def)
  also have "\<dots> = {row_request i r | i r. map_of t i = Some r \<and> aq_status r = ''pending''}"
    using map_of_eq_Some_iff[OF assms] by simp
  also have "\<dots> = {r. \<exists>i. db_get t i = Some r \<and> ar_Status r = ''pending''}"
  proof (rule set_eqI, rule iffI, goal_cases)
    case (1 x)
    then show ?case by auto
  next
    case (2 x)
    then obtain i r where "map_of t i = Some r" "x = row_request i r" "aq_status r = ''pending''" by auto
    then show ?case by blast
  qed
  finally show ?thesis .
qed

interpretation dq: approval_queue "''pending''" db_enqueue db_get db_approve db_deny db_pending wf_map
proof (unfold_locales, goal_cases)
  case (4 q i now tool input ap run stp)
  then show ?case by (simp add: db_enqueue_def sql_Enqueue_def has_key_def)
next
  case (8 q)
  then show ?case by (rule set_db_pending)
qed (simp_all add: db_enqueue_def db_approve_def db_deny_def sql_Enqueue_def sql_Approve_def sql_Deny_def
      wf_map_update sql_update_status_decide del: distinct_map db_get_eq, simp_all)

section \<open>Properties\<close>

definition approve_twice :: "approval_op list" where
  "approve_twice = [OpEnqueue ''a'' 5 ''http'' [] [''ops''] ''run'' ''0'', OpApprove ''a'', OpDeny ''a'',
     OpEnqueue ''b'' 6 ''sql'' [] [] ''run'' ''1'', OpDeny ''b'', OpApprove ''b'', OpApprove ''c'']"

text \<open>
  C5. The in-memory and the SQLite approval queue are interchangeable: starting empty, after any
  sequence of enqueues under fresh identifiers, approvals and denials, every identifier has the same
  status in both, namely the one the specification of statuses gives.
\<close>

theorem approval_queues_agree:
  assumes "fresh_ops Map.empty ops"
  shows "map_option ar_Status (mem_Get (fold (queue_step mem_Enqueue mem_Approve mem_Deny) ops NewMemoryApprovalQueue) i)
           = fold (spec_step ''pending'') ops Map.empty i
       \<and> map_option ar_Status (db_get (fold (queue_step db_enqueue db_approve db_deny) ops []) i)
           = fold (spec_step ''pending'') ops Map.empty i"
proof -
  have "mq.statuses NewMemoryApprovalQueue = Map.empty" "dq.statuses [] = Map.empty"
    by (auto simp: mq.statuses_def dq.statuses_def NewMemoryApprovalQueue_def mem_Get_def)
  with mq.run_refines[of NewMemoryApprovalQueue ops] dq.run_refines[of "[]" ops] assms show ?thesis
    by (simp add: NewMemoryApprovalQueue_def mq.statuses_def dq.statuses_def fun_eq_iff)
qed

theorem approval_queues_agree_witness:
  "map_option ar_Status (mem_Get (fold (queue_step mem_Enqueue mem_Approve mem_Deny) approve_twice NewMemoryApprovalQueue) ''b'')
     = fold (spec_step ''pending'') approve_twice Map.empty ''b''
   \<and> map_option ar_Status (db_get (fold (queue_step db_enqueue db_approve db_deny) approve_twice []) ''b'')
     = fold (spec_step ''pending'') approve_twice Map.empty ''b''
   \<and> fold (spec_step ''pending'') approve_twice Map.empty ''b'' = Some ''denied''"
  using approval_queues_agree[of approve_twice "''b''"] by (simp add: approve_twice_def decide_def)

text \<open>
  The first decision is final: once a request of the SQLite queue is approved or denied, no later
  sequence of operations changes its status.
\<close>

theorem first_decision_final:
  assumes "wf_map t" "db_get t i = Some r" "ar_Status r \<noteq> ''pending''" "fresh_ops (\<lambda>k. map_option ar_Status (db_get t k)) ops"
  shows "\<exists>r'. db_get (fold (queue_step db_enqueue db_approve db_deny) ops t) i = Some r' \<and> ar_Status r' = ar_Status r"
  using dq.decision_final[OF assms(1-3)] assms(4) by (simp add: dq.statuses_def)

definition one_denied :: approval_table where
  "one_denied = [(''a'', \<lparr>aq_tool = ''http'', aq_input = [], aq_approvers = [], aq_run_id = ''r'', aq_step_id = ''0'',
     aq_status = ''denied'', aq_created_at = 0\<rparr>)]"

theorem first_decision_final_witness:
  "\<exists>r'. db_get (fold (queue_step db_enqueue db_approve db_deny)
      [OpApprove ''a'', OpEnqueue ''b'' 6 ''sql'' [] [] ''run'' ''1''] one_denied) ''a'' = Some r' \<and> ar_Status r' = ''denied''"
  using first_decision_final[of one_denied "''a''" _ "[OpApprove ''a'', OpEnqueue ''b'' 6 ''sql'' [] [] ''run'' ''1'']"]
  by (simp add: one_denied_def row_request_def)

text \<open>
  The pending list of the SQLite queue is exactly the undecided requests, and a request leaves it
  with the first decision: after \<open>Approve\<close> or \<open>Deny\<close> no listed request has that identifier.
\<close>

theorem decided_requests_unlisted:
  assumes "wf_map t"
  shows "set (db_pending t) = {r. \<exists>i. db_get t i = Some r \<and> ar_Status r = ''pending''}
       \<and> (\<forall>r \<in> set (db_pending (db_approve t i)). ar_ID r \<noteq> i)
       \<and> (\<forall>r \<in> set (db_pending (db_deny t i)). ar_ID r \<noteq> i)"
proof -
  have *: "ar_ID r \<noteq> i" if "v \<noteq> ''pending''" "r \<in> set (db_pending (sql_update_status v t i))" for v r
  proof -
    have "wf_map (sql_update_status v t i)" using assms by (simp del: distinct_map)
    with that(2) obtain j z where z: "map_of (sql_update_status v t i) j = Some z" "r = row_request j z"
      "aq_status z = ''pending''"
      by (auto simp only: set_db_pending mem_Collect_eq db_get_eq map_option_eq_Some status_row_request)
    with that(1) have "j \<noteq> i"
      by (auto simp: map_of_sql_update split: if_splits dest: arg_cong[where f = aq_status])
    with z(2) show ?thesis by (simp add: row_request_def)
  qed
  show ?thesis using set_db_pending[OF assms] *[of "''approved''"] *[of "''denied''"]
    by (simp add: db_approve_def db_deny_def sql_Approve_def sql_Deny_def)
qed

definition one_pending :: approval_table where
  "one_pending = [(''a'', \<lparr>aq_tool = ''http'', aq_input = [], aq_approvers = [], aq_run_id = ''r'', aq_step_id = ''0'',
     aq_status = ''pending'', aq_created_at = 0\<rparr>)]"

theorem decided_requests_unlisted_witness:
  "map ar_ID (db_pending one_pending) = [''a''] \<and> ''a'' \<notin> ar_ID ` set (db_pending (db_approve one_pending ''a''))"
proof -
  have "wf_map one_pending" by (simp add: one_pending_def)
  from decided_requests_unlisted[OF this, of "''a''"]
  have "''a'' \<notin> ar_ID ` set (db_pending (db_approve one_pending ''a''))" by auto
  moreover have "map ar_ID (db_pending one_pending) = [''a'']"
    by (simp add: db_pending_def sql_ListPending_def one_pending_def row_request_def)
  ultimately show ?thesis by blast
qed

end
