(* ===== verification/Workflow_Executor.thy ===== *)
theory Workflow_Executor
  imports Workflow_Levels Workflow_State Approval_Queue
begin

text \<open>
  The workflow executor, \<open>pkg/workflow/executor.go\<close>. A level runs one goroutine per node; a
  goroutine goes through the phases below, each one atomic step (the sections under the mutex, the
  call of the agent or of the approval loop, and the write to the state store), and a schedule, the
  list of the node whose goroutine moves next, stands for an interleaving. What a theorem states for
  every schedule holds of every interleaving of these steps. The outputs are read for the checkpoint without the mutex in
  the code; the step that finishes a node reads them at once. The record \<open>environment\<close> collects the
  answers of the clock, of the context and of the database that one execution sees.
\<close>

section \<open>Data\<close>

record NodeResult =
  nr_NodeID :: string
  nr_Status :: string
  nr_Output :: any
  nr_Error :: string
  nr_StartedAt :: int
  nr_CompletedAt :: int
  nr_Duration :: int
  nr_Metadata :: "any smap"

record ExecutionResult =
  er_WorkflowID :: string
  er_Status :: string
  er_Outputs :: "any smap"
  er_NodeResults :: "NodeResult smap"
  er_StartedAt :: int
  er_CompletedAt :: int
  er_Duration :: int
  er_Error :: string

text \<open>The interface \<open>policy.ApprovalQueue\<close> as far as the executor calls it.\<close>

record 'q approval_api =
  api_Enqueue :: "'q \<Rightarrow> string \<Rightarrow> int \<Rightarrow> string \<Rightarrow> any smap \<Rightarrow> string list \<Rightarrow> string \<Rightarrow> string \<Rightarrow> 'q \<times> (gerror + string)"
  api_Get :: "'q \<Rightarrow> string \<Rightarrow> gerror + ApprovalRequest option"

text \<open>
  The fields of \<open>Executor\<close> that configure it; the state store and the contents of the approval queue
  are part of the state. A \<open>nil\<close> interface is \<open>None\<close>.
\<close>

record 'q Executor =
  condEvaluator :: "(string \<Rightarrow> any smap \<Rightarrow> gerror + bool) option"
  approvalQueue :: "'q approval_api option"
  agentNodeExec :: "(string \<Rightarrow> string \<Rightarrow> any smap \<Rightarrow> gerror + any) option"
  approvalPoll :: int
  approvalExpiry :: int

definition NewExecutor :: "(string \<Rightarrow> any smap \<Rightarrow> gerror + bool) option \<Rightarrow> 'q Executor" where
  "NewExecutor cond = \<lparr>condEvaluator = cond, approvalQueue = None, agentNodeExec = None,
     approvalPoll = 5 * 1000000000, approvalExpiry = 24 * 3600 * 1000000000\<rparr>"

definition NewExecutorWithApproval ::
    "(string \<Rightarrow> any smap \<Rightarrow> gerror + bool) option \<Rightarrow> 'q approval_api \<Rightarrow> 'q Executor" where
  "NewExecutorWithApproval cond queue = (NewExecutor cond)\<lparr>approvalQueue := Some queue\<rparr>"

definition WithAgentNodeExecutor ::
    "'q Executor \<Rightarrow> (string \<Rightarrow> string \<Rightarrow> any smap \<Rightarrow> gerror + any) \<Rightarrow> 'q Executor" where
  "WithAgentNodeExecutor e exec = e\<lparr>agentNodeExec := Some exec\<rparr>"

text \<open>What ends one wait of the approval loop: the context, or the ticker at some time.\<close>

datatype select_event = CtxDone gerror | Tick int

text \<open>A poll: what others did to the queue since the last one, and how the wait after it ended.\<close>

type_synonym 'q poll = "('q \<Rightarrow> 'q) \<times> select_event"

record 'q environment =
  env_start :: "string \<Rightarrow> int"
  env_end :: "string \<Rightarrow> int"
  env_enqueued :: "string \<Rightarrow> int"
  env_uuid :: "string \<Rightarrow> string"
  env_polls :: "string \<Rightarrow> 'q poll list"
  env_save :: "string \<Rightarrow> gerror option"
  env_ctx :: "nat \<Rightarrow> gerror option"
  env_checkpoint :: "nat \<Rightarrow> gerror option"
  env_time :: "nat \<Rightarrow> int"
  env_load :: "gerror option"
  env_loadNodes :: "gerror option"

datatype phase = Ready | Executing | Returned "gerror + any" | Unsaved | Done

record 'q xstate =
  xs_result :: ExecutionResult
  xs_store :: "StateStore option"
  xs_queue :: 'q
  xs_phase :: "phase smap"
  xs_errors :: "gerror list"

section \<open>Nodes\<close>

fun approvalLoop ::
    "'q approval_api \<Rightarrow> Node \<Rightarrow> string \<Rightarrow> int \<Rightarrow> 'q \<Rightarrow> 'q poll list \<Rightarrow> 'q \<times> (gerror + any) option" where
  "approvalLoop api node rid deadline q [] = (q, None)"
| "approvalLoop api node rid deadline q ((others, ev) # ps) =
     (let q1 = others q
      in case api_Get api q1 rid of
           Inl e \<Rightarrow> (q1, Some (Inl (Wrap ''get approval: '' e)))
         | Inr None \<Rightarrow> (q1, Some (Inl (Errorf (''approval request '' @ rid @ '' not found''))))
         | Inr (Some req) \<Rightarrow>
             if ar_Status req = ''approved''
             then (q1, Some (Inr (AMap [(''approved'', ABool True), (''approval_id'', AStr rid)])))
             else if ar_Status req = ''denied''
             then (q1, Some (Inl (Errorf (''approval denied for step '' @ node_Name node))))
             else (case ev of
                     CtxDone e \<Rightarrow> (q1, Some (Inl e))
                   | Tick now \<Rightarrow>
                       if now > deadline
                       then (q1, Some (Inl (Errorf (''approval expired for step '' @ node_Name node))))
                       else approvalLoop api node rid deadline q1 ps))"

definition executeApprovalNode ::
    "'q Executor \<Rightarrow> 'q environment \<Rightarrow> Node \<Rightarrow> string \<Rightarrow> string \<Rightarrow> any smap \<Rightarrow> 'q \<Rightarrow> 'q \<times> (gerror + any) option" where
  "executeApprovalNode e env node nodeID workflowID outputs q =
     (case approvalQueue e of
        None \<Rightarrow> (q, Some (Inl (Errorf ''approval step requires ApprovalQueue; use NewExecutorWithApproval'')))
      | Some api \<Rightarrow>
          (let approvers = (if node_Approvers node = [] then [''default''] else node_Approvers node);
               msg = (if node_ApprovalMessage node = [] then ''Approve workflow step: '' @ node_Name node
                      else node_ApprovalMessage node);
               input = [(''workflow_id'', AStr workflowID), (''step_id'', AStr nodeID),
                        (''message'', AStr msg), (''outputs'', AMap outputs)];
               now = env_enqueued env nodeID
           in case api_Enqueue api q (env_uuid env nodeID) now ''workflow-approval'' input approvers workflowID nodeID of
                (q1, Inl err) \<Rightarrow> (q1, Some (Inl (Wrap ''enqueue approval: '' err)))
              | (q1, Inr rid) \<Rightarrow> approvalLoop api node rid (now + approvalExpiry e) q1 (env_polls env nodeID)))"

definition executeNode :: "'q Executor \<Rightarrow> Node \<Rightarrow> any smap \<Rightarrow> gerror + any" where
  "executeNode e node outputs =
     (case (if node_Agent node \<noteq> [] then agentNodeExec e else None) of
        Some exec \<Rightarrow> exec (node_Agent node)
          (if node_Goal node = [] then ''Complete the assigned task'' else node_Goal node) outputs
      | None \<Rightarrow> Inr (AMap [(''node'', AStr (node_ID node)), (''agent'', AStr (node_Agent node)),
                         (''status'', AStr ''completed'')]))"

section \<open>Levels\<close>

definition setNode :: "string \<Rightarrow> NodeResult \<Rightarrow> phase \<Rightarrow> 'q xstate \<Rightarrow> 'q xstate" where
  "setNode i nr ph s = s\<lparr>xs_result := (xs_result s)\<lparr>er_NodeResults := AList.update i nr (er_NodeResults (xs_result s))\<rparr>,
                         xs_phase := AList.update i ph (xs_phase s)\<rparr>"

definition beginNode :: "'q Executor \<Rightarrow> 'q environment \<Rightarrow> string \<Rightarrow> Node \<Rightarrow> NodeResult \<Rightarrow> 'q xstate \<Rightarrow> 'q xstate" where
  "beginNode e env i node nr s =
     (let run = setNode i (nr\<lparr>nr_Status := ''running'', nr_StartedAt := env_start env i\<rparr>) Executing s
      in case (if node_Condition node \<noteq> [] then condEvaluator e else None) of
           None \<Rightarrow> run
         | Some evaluate \<Rightarrow>
             (case evaluate (node_Condition node) [(''outputs'', AMap (er_Outputs (xs_result s)))] of
                Inl err \<Rightarrow>
                  (setNode i (nr\<lparr>nr_Status := ''failed'',
                      nr_Error := ''condition evaluation failed: '' @ error_string err\<rparr>) Done s)
                    \<lparr>xs_errors := xs_errors s @ [err]\<rparr>
              | Inr False \<Rightarrow> setNode i (nr\<lparr>nr_Status := ''skipped'', nr_CompletedAt := env_end env i\<rparr>) Done s
              | Inr True \<Rightarrow> run))"

definition callNode :: "'q Executor \<Rightarrow> 'q environment \<Rightarrow> string \<Rightarrow> Node \<Rightarrow> 'q xstate \<Rightarrow> 'q xstate option" where
  "callNode e env i node s =
     (let outputs = er_Outputs (xs_result s)
      in if node_Type node = NodeTypeApproval
         then (case executeApprovalNode e env node i (er_WorkflowID (xs_result s)) outputs (xs_queue s) of
                 (q, None) \<Rightarrow> None
               | (q, Some r) \<Rightarrow> Some (s\<lparr>xs_queue := q, xs_phase := AList.update i (Returned r) (xs_phase s)\<rparr>))
         else Some (s\<lparr>xs_phase := AList.update i (Returned (executeNode e node outputs)) (xs_phase s)\<rparr>))"

definition finishNode ::
    "'q environment \<Rightarrow> string \<Rightarrow> Node \<Rightarrow> NodeResult \<Rightarrow> gerror + any \<Rightarrow> 'q xstate \<Rightarrow> 'q xstate" where
  "finishNode env i node nr r s =
     (let t = env_end env i;
          stamp = (\<lambda>x. x\<lparr>nr_CompletedAt := t, nr_Duration := t - nr_StartedAt x\<rparr>)
      in case r of
           Inl err \<Rightarrow> (setNode i (stamp (nr\<lparr>nr_Status := ''failed'', nr_Error := error_string err\<rparr>)) Unsaved s)
                        \<lparr>xs_errors := xs_errors s @ [err]\<rparr>
         | Inr out \<Rightarrow>
             (let s1 = setNode i (stamp (nr\<lparr>nr_Status := ''completed'', nr_Output := out\<rparr>)) Unsaved s
              in if node_OutputKey node \<noteq> []
                 then s1\<lparr>xs_result := (xs_result s1)\<lparr>er_Outputs :=
                             AList.update (node_OutputKey node) out (er_Outputs (xs_result s1))\<rparr>\<rparr>
                 else s1))"

definition saveNode :: "'q environment \<Rightarrow> string \<Rightarrow> Node \<Rightarrow> NodeResult \<Rightarrow> 'q xstate \<Rightarrow> 'q xstate" where
  "saveNode env i node nr s =
     s\<lparr>xs_phase := AList.update i Done (xs_phase s),
       xs_store := map_option (\<lambda>st. fst (SaveNodeState st (env_save env i)
         \<lparr>ns_NodeID = i, ns_WorkflowID = er_WorkflowID (xs_result s), ns_StepName = node_Name node,
          ns_Status = nr_Status nr, ns_Output = nr_Output nr, ns_StartedAt = nr_StartedAt nr,
          ns_CompletedAt = nr_CompletedAt nr\<rparr>)) (xs_store s)\<rparr>"

text \<open>One step of the goroutine of node \<open>i\<close>; \<open>None\<close> when it has ended or waits for an approval.\<close>

definition advance :: "'q Executor \<Rightarrow> 'q environment \<Rightarrow> DAG \<Rightarrow> string \<Rightarrow> 'q xstate \<Rightarrow> 'q xstate option" where
  "advance e env dag i s =
     (case map_of (dag_Nodes dag) i of
        None \<Rightarrow> None
      | Some node \<Rightarrow>
          (case map_of (er_NodeResults (xs_result s)) i of
             None \<Rightarrow> None
           | Some nr \<Rightarrow>
               (case map_of (xs_phase s) i of
                  None \<Rightarrow> None
                | Some Ready \<Rightarrow> Some (beginNode e env i node nr s)
                | Some Executing \<Rightarrow> callNode e env i node s
                | Some (Returned r) \<Rightarrow> Some (finishNode env i node nr r s)
                | Some Unsaved \<Rightarrow> Some (saveNode env i node nr s)
                | Some Done \<Rightarrow> None)))"

definition try_advance :: "'q Executor \<Rightarrow> 'q environment \<Rightarrow> DAG \<Rightarrow> string \<Rightarrow> 'q xstate \<Rightarrow> 'q xstate" where
  "try_advance e env dag i s = (case advance e env dag i s of None \<Rightarrow> s | Some s' \<Rightarrow> s')"

definition startLevel :: "string list \<Rightarrow> 'q xstate \<Rightarrow> 'q xstate" where
  "startLevel nodeIDs s = s\<lparr>xs_phase := map (\<lambda>i. (i, Ready)) nodeIDs, xs_errors := []\<rparr>"

text \<open>\<open>wg.Wait\<close> returns when every goroutine has ended; \<open>None\<close> when the schedule stops before.\<close>

definition executeLevel ::
    "'q Executor \<Rightarrow> 'q environment \<Rightarrow> DAG \<Rightarrow> string list \<Rightarrow> string list \<Rightarrow> 'q xstate \<Rightarrow> ('q xstate \<times> gerror option) option" where
  "executeLevel e env dag sched nodeIDs s =
     (let s1 = fold (try_advance e env dag) sched (startLevel nodeIDs s)
      in if list_all (\<lambda>p. snd p = Done) (xs_phase s1)
         then Some (s1, case xs_errors s1 of [] \<Rightarrow> None | err # _ \<Rightarrow> Some err)
         else None)"

section \<open>Execute\<close>

definition endResult :: "string \<Rightarrow> string \<Rightarrow> int \<Rightarrow> 'q xstate \<Rightarrow> 'q xstate" where
  "endResult status err t s =
     s\<lparr>xs_result := (xs_result s)\<lparr>er_Status := status, er_Error := err, er_CompletedAt := t,
         er_Duration := t - er_StartedAt (xs_result s)\<rparr>\<rparr>"

definition checkpoint :: "'q environment \<Rightarrow> nat \<Rightarrow> 'q xstate \<Rightarrow> 'q xstate \<times> gerror option" where
  "checkpoint env k s =
     (case xs_store s of
        None \<Rightarrow> (s, None)
      | Some st \<Rightarrow>
          (case SaveCheckpoint st (env_checkpoint env k)
             \<lparr>ws_WorkflowID = er_WorkflowID (xs_result s), ws_WorkflowName = er_WorkflowID (xs_result s),
              ws_Status = ''running'', ws_CurrentStep = ''level-'' @ itoa (int k),
              ws_Outputs = er_Outputs (xs_result s), ws_StartedAt = er_StartedAt (xs_result s),
              ws_UpdatedAt = env_time env k\<rparr> of
             (st', err) \<Rightarrow> (s\<lparr>xs_store := Some st'\<rparr>, map_option (Wrap ''save checkpoint: '') err)))"

fun executeLevels ::
    "'q Executor \<Rightarrow> 'q environment \<Rightarrow> DAG \<Rightarrow> (nat \<Rightarrow> string list) \<Rightarrow> nat \<Rightarrow> string list list \<Rightarrow> 'q xstate \<Rightarrow>
     ('q xstate \<times> gerror option) option" where
  "executeLevels e env dag sched k [] s = Some (endResult ''completed'' (er_Error (xs_result s)) (env_time env k) s, None)"
| "executeLevels e env dag sched k (level # levels) s =
     (case env_ctx env k of
        Some err \<Rightarrow> Some (endResult ''cancelled'' ''workflow cancelled'' (env_time env k) s, Some err)
      | None \<Rightarrow>
          (case executeLevel e env dag (sched k) level s of
             None \<Rightarrow> None
           | Some (s1, Some err) \<Rightarrow>
               Some (endResult ''failed'' (''level '' @ itoa (int k) @ '' failed: '' @ error_string err)
                       (env_time env k) s1, Some err)
           | Some (s1, None) \<Rightarrow>
               (case checkpoint env k s1 of
                  (s2, Some err) \<Rightarrow> Some (s2, Some err)
                | (s2, None) \<Rightarrow> executeLevels e env dag sched (Suc k) levels s2)))"

definition pendingResult :: "string \<Rightarrow> NodeResult" where
  "pendingResult i = \<lparr>nr_NodeID = i, nr_Status = ''pending'', nr_Output = ANil, nr_Error = [],
     nr_StartedAt = 0, nr_CompletedAt = 0, nr_Duration = 0, nr_Metadata = []\<rparr>"

definition initialState :: "DAG \<Rightarrow> string \<Rightarrow> int \<Rightarrow> StateStore option \<Rightarrow> 'q \<Rightarrow> 'q xstate" where
  "initialState dag workflowID started store q =
     \<lparr>xs_result = \<lparr>er_WorkflowID = workflowID, er_Status = ''running'', er_Outputs = [],
        er_NodeResults = map (\<lambda>p. (fst p, pendingResult (fst p))) (dag_Nodes dag),
        er_StartedAt = started, er_CompletedAt = 0, er_Duration = 0, er_Error = []\<rparr>,
      xs_store = store, xs_queue = q, xs_phase = [], xs_errors = []\<rparr>"

text \<open>
  \<open>Inl\<close>: the call returns a nil result and this error. \<open>Inr (Some (s, err))\<close>: it returns the result
  in \<open>s\<close> and \<open>err\<close>. \<open>Inr None\<close>: the schedule stops before the call returns.
\<close>

definition Execute ::
    "'q Executor \<Rightarrow> 'q environment \<Rightarrow> (nat \<Rightarrow> string list) \<Rightarrow> DAG \<Rightarrow> string \<Rightarrow> int \<Rightarrow> StateStore option \<Rightarrow> 'q \<Rightarrow>
     gerror + ('q xstate \<times> gerror option) option" where
  "Execute e env sched dag workflowID started store q =
     (case Validate dag of
        Some err \<Rightarrow> Inl (Wrap ''invalid DAG: '' err)
      | None \<Rightarrow>
          (case GetExecutionLevels dag of
             Inl err \<Rightarrow> Inl (Wrap ''get execution levels: '' err)
           | Inr levels \<Rightarrow>
               Inr (executeLevels e env dag sched 0 levels (initialState dag workflowID started store q))))"

section \<open>Resume\<close>

definition activeNodes :: "'q xstate \<Rightarrow> string list \<Rightarrow> string list option" where
  "activeNodes s level =
     (if list_all (has_key (er_NodeResults (xs_result s))) level
      then Some (filter (\<lambda>i. case map_of (er_NodeResults (xs_result s)) i of
                   None \<Rightarrow> False
                 | Some nr \<Rightarrow> nr_Status nr \<noteq> ''completed'' \<and> nr_Status nr \<noteq> ''failed'') level)
      else None)"

fun skipLevels ::
    "'q Executor \<Rightarrow> 'q environment \<Rightarrow> DAG \<Rightarrow> (nat \<Rightarrow> string list) \<Rightarrow> nat \<Rightarrow> string list list \<Rightarrow> 'q xstate \<Rightarrow>
     ('q xstate \<times> gerror option) option" where
  "skipLevels e env dag sched k [] s = Some (endResult ''completed'' (er_Error (xs_result s)) (env_time env k) s, None)"
| "skipLevels e env dag sched k (level # levels) s =
     (case activeNodes s level of
        None \<Rightarrow> None
      | Some active \<Rightarrow>
          if active \<noteq> []
          then (case executeLevel e env dag (sched k) active s of
                  None \<Rightarrow> None
                | Some (s1, Some err) \<Rightarrow> Some (endResult ''failed'' (error_string err) (env_time env k) s1, Some err)
                | Some (s1, None) \<Rightarrow> skipLevels e env dag sched (Suc k) levels s1)
          else skipLevels e env dag sched (Suc k) levels s)"

definition executeWithSkip ::
    "'q Executor \<Rightarrow> 'q environment \<Rightarrow> (nat \<Rightarrow> string list) \<Rightarrow> DAG \<Rightarrow> 'q xstate \<Rightarrow>
     gerror + ('q xstate \<times> gerror option) option" where
  "executeWithSkip e env sched dag s =
     (case GetExecutionLevels dag of
        Inl err \<Rightarrow> Inl err
      | Inr levels \<Rightarrow> Inr (skipLevels e env dag sched 0 levels s))"

definition restoredResult :: "NodeState \<Rightarrow> NodeResult" where
  "restoredResult ns = \<lparr>nr_NodeID = ns_NodeID ns, nr_Status = ns_Status ns, nr_Output = ns_Output ns, nr_Error = [],
     nr_StartedAt = ns_StartedAt ns, nr_CompletedAt = ns_CompletedAt ns, nr_Duration = 0, nr_Metadata = []\<rparr>"

definition restoreNodes :: "NodeState list \<Rightarrow> NodeResult smap" where
  "restoreNodes nss = fold (\<lambda>ns m. AList.update (ns_NodeID ns) (restoredResult ns) m) nss []"

definition addMissing :: "Node smap \<Rightarrow> NodeResult smap \<Rightarrow> NodeResult smap" where
  "addMissing nodes m =
     fold (\<lambda>p m. if has_key m (fst p) then m else AList.update (fst p) (pendingResult (fst p)) m) nodes m"

definition Resume ::
    "'q Executor \<Rightarrow> 'q environment \<Rightarrow> (nat \<Rightarrow> string list) \<Rightarrow> string \<Rightarrow> DAG \<Rightarrow> StateStore option \<Rightarrow> 'q \<Rightarrow>
     gerror + ('q xstate \<times> gerror option) option" where
  "Resume e env sched workflowID dag store q =
     (case store of
        None \<Rightarrow> Inl (Errorf ''state store not configured'')
      | Some st \<Rightarrow>
          (case LoadCheckpoint st (env_load env) workflowID of
             Inl err \<Rightarrow> Inl (Wrap ''load checkpoint: '' err)
           | Inr state \<Rightarrow>
               (case LoadNodeStates st (env_loadNodes env) workflowID of
                  Inl err \<Rightarrow> Inl (Wrap ''load node states: '' err)
                | Inr nodeStates \<Rightarrow>
                    executeWithSkip e env sched dag
                      \<lparr>xs_result = \<lparr>er_WorkflowID = workflowID, er_Status = ''running'',
                         er_Outputs = ws_Outputs state,
                         er_NodeResults = addMissing (dag_Nodes dag) (restoreNodes nodeStates),
                         er_StartedAt = ws_StartedAt state, er_CompletedAt = 0, er_Duration = 0, er_Error = []\<rparr>,
                       xs_store = store, xs_queue = q, xs_phase = [], xs_errors = []\<rparr>)))"

section \<open>The step relation of a level\<close>

text \<open>
  The goroutines of a level as a transition system. Every run of a schedule is a path of it and every
  path is the run of a schedule, so a statement about all schedules is one about all interleavings.
\<close>

inductive level_step :: "'q Executor \<Rightarrow> 'q environment \<Rightarrow> DAG \<Rightarrow> 'q xstate \<Rightarrow> 'q xstate \<Rightarrow> bool"
  for e env dag where
  "advance e env dag i s = Some s' \<Longrightarrow> level_step e env dag s s'"

inductive_cases level_stepE: "level_step e env dag s s'"

lemma schedule_path: "(level_step e env dag)\<^sup>*\<^sup>* s (fold (try_advance e env dag) sched s)"
proof (induction sched arbitrary: s)
  case (Cons i sched)
  have "(level_step e env dag)\<^sup>*\<^sup>* s (try_advance e env dag i s)"
    by (auto simp: try_advance_def split: option.split intro: level_step.intros)
  with Cons[of "try_advance e env dag i s"] show ?case by (auto intro: rtranclp_trans)
qed simp

lemma path_schedule:
  "(level_step e env dag)\<^sup>*\<^sup>* s s' \<Longrightarrow> \<exists>sched. fold (try_advance e env dag) sched s = s'"
proof (induction rule: rtranclp_induct)
  case base
  have "fold (try_advance e env dag) [] s = s" by simp
  then show ?case by blast
next
  case (step u v)
  then obtain sched where sched: "fold (try_advance e env dag) sched s = u" by blast
  from step(2) obtain i where i: "advance e env dag i u = Some v" by (rule level_stepE)
  then have "fold (try_advance e env dag) (sched @ [i]) s = v" using sched by (simp add: try_advance_def)
  then show ?case by blast
qed

section \<open>Invariant of a level\<close>

abbreviation noderes :: "'q xstate \<Rightarrow> string \<Rightarrow> NodeResult option" where
  "noderes s i \<equiv> map_of (er_NodeResults (xs_result s)) i"

abbreviation status_of :: "'q xstate \<Rightarrow> string \<Rightarrow> string option" where
  "status_of s i \<equiv> map_option nr_Status (noderes s i)"

definition succeeded :: "string option \<Rightarrow> bool" where
  "succeeded st = (st = Some ''completed'' \<or> st = Some ''skipped'')"

fun phase_ok :: "phase \<Rightarrow> string option \<Rightarrow> bool \<Rightarrow> bool" where
  "phase_ok Ready st errs = True"
| "phase_ok Executing st errs = (st = Some ''running'')"
| "phase_ok (Returned r) st errs = (st = Some ''running'')"
| "phase_ok Unsaved st errs = (succeeded st \<or> st = Some ''failed'' \<and> errs)"
| "phase_ok Done st errs = (succeeded st \<or> st = Some ''failed'' \<and> errs)"

text \<open>How one step of a goroutine changes the shared state, whatever the phase.\<close>

lemma setNode_sel [simp]:
  "noderes (setNode i nr ph s) = (noderes s)(i \<mapsto> nr)"
  "map_of (xs_phase (setNode i nr ph s)) = (map_of (xs_phase s))(i \<mapsto> ph)"
  "fst ` set (xs_phase (setNode i nr ph s)) = insert i (fst ` set (xs_phase s))"
  "xs_errors (setNode i nr ph s) = xs_errors s"
  by (simp_all add: setNode_def fun_eq_iff)

fun node_effect :: "phase \<Rightarrow> NodeResult \<Rightarrow> phase \<Rightarrow> NodeResult \<Rightarrow> gerror list \<Rightarrow> gerror list \<Rightarrow> bool" where
  "node_effect ph nr ph' nr' es es' \<longleftrightarrow>
     (es' = es \<or> es' = es @ [last es'] \<and> nr_Status nr' = ''failed'' \<and> (ph' = Unsaved \<or> ph' = Done)) \<and>
     (phase_ok ph (Some (nr_Status nr)) (es \<noteq> []) \<longrightarrow> phase_ok ph' (Some (nr_Status nr')) (es' \<noteq> [])) \<and>
     (ph = Unsaved \<longrightarrow> nr' = nr \<and> ph' = Done) \<and> ph \<noteq> Done"

definition step_effect :: "string \<Rightarrow> 'q xstate \<Rightarrow> 'q xstate \<Rightarrow> bool" where
  "step_effect i s s' \<longleftrightarrow>
     (\<forall>j. j \<noteq> i \<longrightarrow> noderes s' j = noderes s j \<and> map_of (xs_phase s') j = map_of (xs_phase s) j) \<and>
     (case (map_of (xs_phase s) i, noderes s i, map_of (xs_phase s') i, noderes s' i) of
        (Some ph, Some nr, Some ph', Some nr') \<Rightarrow> node_effect ph nr ph' nr' (xs_errors s) (xs_errors s')
      | _ \<Rightarrow> False)"

lemma beginNode_effect:
  assumes "map_of (xs_phase s) i = Some Ready" "noderes s i = Some nr"
  shows "step_effect i s (beginNode e env i node nr s)"
  using assms unfolding step_effect_def beginNode_def Let_def
  by (simp add: succeeded_def setNode_def split: option.splits sum.splits bool.splits)

lemma callNode_effect:
  assumes "map_of (xs_phase s) i = Some Executing" "noderes s i = Some nr" "callNode e env i node s = Some s'"
  shows "step_effect i s s'"
  using assms unfolding step_effect_def callNode_def Let_def
  by (auto split: if_splits prod.splits option.splits)

lemma finishNode_effect:
  assumes "map_of (xs_phase s) i = Some (Returned r)" "noderes s i = Some nr"
  shows "step_effect i s (finishNode env i node nr r s)"
  using assms unfolding step_effect_def finishNode_def Let_def
  by (simp add: succeeded_def setNode_def split: sum.splits)

lemma saveNode_effect:
  assumes "map_of (xs_phase s) i = Some Unsaved" "noderes s i = Some nr"
  shows "step_effect i s (saveNode env i node nr s)"
  using assms unfolding step_effect_def saveNode_def by simp

lemma advance_cases:
  assumes "advance e env dag i s = Some s'"
  obtains (begins) node nr where "map_of (dag_Nodes dag) i = Some node" "noderes s i = Some nr"
      "map_of (xs_phase s) i = Some Ready" "s' = beginNode e env i node nr s"
  | (calls) node nr where "map_of (dag_Nodes dag) i = Some node" "noderes s i = Some nr"
      "map_of (xs_phase s) i = Some Executing" "callNode e env i node s = Some s'"
  | (finishes) node nr r where "map_of (dag_Nodes dag) i = Some node" "noderes s i = Some nr"
      "map_of (xs_phase s) i = Some (Returned r)" "s' = finishNode env i node nr r s"
  | (saves) node nr where "map_of (dag_Nodes dag) i = Some node" "noderes s i = Some nr"
      "map_of (xs_phase s) i = Some Unsaved" "s' = saveNode env i node nr s"
  using assms unfolding advance_def by (auto split: option.splits phase.splits)

lemma advance_effect:
  assumes "advance e env dag i s = Some s'"
  shows "step_effect i s s'"
  using assms
  by (cases rule: advance_cases) (auto intro: beginNode_effect callNode_effect finishNode_effect saveNode_effect)

lemma step_effectE:
  assumes "step_effect i s s'"
  obtains ph nr ph' nr' where "map_of (xs_phase s) i = Some ph" "noderes s i = Some nr"
    "map_of (xs_phase s') i = Some ph'" "noderes s' i = Some nr'"
    "node_effect ph nr ph' nr' (xs_errors s) (xs_errors s')"
    "\<forall>j. j \<noteq> i \<longrightarrow> noderes s' j = noderes s j \<and> map_of (xs_phase s') j = map_of (xs_phase s) j"
proof (cases "map_of (xs_phase s) i"; cases "noderes s i"; cases "map_of (xs_phase s') i"; cases "noderes s' i")
  fix ph nr ph' nr'
  assume "map_of (xs_phase s) i = Some ph" "noderes s i = Some nr"
    "map_of (xs_phase s') i = Some ph'" "noderes s' i = Some nr'"
  then show thesis using that assms unfolding step_effect_def by simp
qed (use assms in \<open>simp_all add: step_effect_def\<close>)

text \<open>
  The invariant of a level that started in \<open>s0\<close>: only its own nodes change, each one has a status that
  fits its phase, and an error is recorded only together with a failed node.
\<close>

definition level_inv :: "'q xstate \<Rightarrow> 'q xstate \<Rightarrow> bool" where
  "level_inv s0 s \<longleftrightarrow>
     (\<forall>j. (map_of (xs_phase s) j = None) = (map_of (xs_phase s0) j = None)) \<and>
     (\<forall>j. map_of (xs_phase s0) j = None \<longrightarrow> noderes s j = noderes s0 j) \<and>
     (\<forall>j. (noderes s j = None) = (noderes s0 j = None)) \<and>
     (\<forall>j ph. map_of (xs_phase s) j = Some ph \<longrightarrow> phase_ok ph (status_of s j) (xs_errors s \<noteq> [])) \<and>
     (xs_errors s \<noteq> [] \<longrightarrow> (\<exists>j. status_of s j = Some ''failed'' \<and>
        (map_of (xs_phase s) j = Some Unsaved \<or> map_of (xs_phase s) j = Some Done)))"

lemma level_invD:
  assumes "level_inv s0 s"
  shows "(map_of (xs_phase s) j = None) = (map_of (xs_phase s0) j = None)"
    and "map_of (xs_phase s0) j = None \<Longrightarrow> noderes s j = noderes s0 j"
    and "(noderes s j = None) = (noderes s0 j = None)"
    and "map_of (xs_phase s) j = Some ph \<Longrightarrow> phase_ok ph (status_of s j) (xs_errors s \<noteq> [])"
    and "xs_errors s \<noteq> [] \<Longrightarrow> \<exists>j. status_of s j = Some ''failed'' \<and>
        (map_of (xs_phase s) j = Some Unsaved \<or> map_of (xs_phase s) j = Some Done)"
  using assms unfolding level_inv_def by blast+

lemma phase_ok_errs: "phase_ok ph st b \<Longrightarrow> (b \<longrightarrow> c) \<Longrightarrow> phase_ok ph st c"
  by (cases ph) auto

lemma step_effect_inv:
  assumes "step_effect i s s'" "level_inv s0 s"
  shows "level_inv s0 s'"
proof -
  from assms(1) obtain ph nr ph' nr' where h: "map_of (xs_phase s) i = Some ph" "noderes s i = Some nr"
    "map_of (xs_phase s') i = Some ph'" "noderes s' i = Some nr'"
    "node_effect ph nr ph' nr' (xs_errors s) (xs_errors s')"
    "\<forall>j. j \<noteq> i \<longrightarrow> noderes s' j = noderes s j \<and> map_of (xs_phase s') j = map_of (xs_phase s) j"
    by (rule step_effectE)
  have errs: "xs_errors s \<noteq> [] \<Longrightarrow> xs_errors s' \<noteq> []" using h(5) by auto
  note inv = level_invD[OF assms(2)] and other = h(6)[rule_format]
  have a: "(map_of (xs_phase s') j = None) = (map_of (xs_phase s0) j = None)" for j
    using inv(1)[of j] h(1,3) other[of j] by (cases "j = i") simp_all
  have b: "noderes s' j = noderes s0 j" if "map_of (xs_phase s0) j = None" for j
    using inv(1,2)[of j] h(1) other[of j] that by (cases "j = i") simp_all
  have c: "(noderes s' j = None) = (noderes s0 j = None)" for j
    using inv(3)[of j] h(2,4) other[of j] by (cases "j = i") simp_all
  have d: "phase_ok p (status_of s' j) (xs_errors s' \<noteq> [])" if "map_of (xs_phase s') j = Some p" for j p
  proof (cases "j = i")
    case True
    with inv(4)[OF h(1)] that h(1-5) show ?thesis by simp
  next
    case False
    with inv(4)[of j p] other[OF False] that have "phase_ok p (status_of s' j) (xs_errors s \<noteq> [])" by simp
    then show ?thesis using errs by (blast intro: phase_ok_errs)
  qed
  have f: "\<exists>j. status_of s' j = Some ''failed'' \<and>
        (map_of (xs_phase s') j = Some Unsaved \<or> map_of (xs_phase s') j = Some Done)" if "xs_errors s' \<noteq> []"
  proof (cases "xs_errors s' = xs_errors s")
    case False
    with h(5) have "nr_Status nr' = ''failed''" "ph' = Unsaved \<or> ph' = Done" by auto
    with h(3,4) show ?thesis by (intro exI[of _ i]) auto
  next
    case True
    with that inv(5) obtain j where j: "status_of s j = Some ''failed''"
      "map_of (xs_phase s) j = Some Unsaved \<or> map_of (xs_phase s) j = Some Done" by metis
    show ?thesis
    proof (cases "j = i")
      case True
      with j h(1,2,5) have "nr' = nr" "ph' = Done" by auto
      with j h(2,3,4) True show ?thesis by (intro exI[of _ i]) auto
    next
      case False
      with j other[OF False] show ?thesis by (intro exI[of _ j]) simp
    qed
  qed
  from a b c d f show ?thesis unfolding level_inv_def by blast
qed

lemma path_inv: "(level_step e env dag)\<^sup>*\<^sup>* s s' \<Longrightarrow> level_inv s0 s \<Longrightarrow> level_inv s0 s'"
  by (induction rule: rtranclp_induct) (auto elim!: level_stepE intro: step_effect_inv advance_effect)

lemma startLevel_inv: "level_inv (startLevel ids s) (startLevel ids s)"
proof -
  have "map_of (map (\<lambda>i. (i, Ready)) ids) j = Some ph \<Longrightarrow> ph = Ready" for j ph
    by (auto dest: map_of_SomeD)
  then have "map_of (map (\<lambda>i. (i, Ready)) ids) j = Some ph \<Longrightarrow> phase_ok ph st b" for j ph st b
    by (metis phase_ok.simps(1))
  then show ?thesis by (simp add: level_inv_def startLevel_def)
qed

lemma startLevel_phase: "map_of (xs_phase (startLevel ids s)) j = (if j \<in> set ids then Some Ready else None)"
  by (auto simp: startLevel_def map_of_map_restrict)

text \<open>The contract of \<open>executeLevel\<close>, for every interleaving.\<close>

lemma executeLevel_spec:
  assumes "executeLevel e env dag sched ids s = Some (s', err)"
  shows "\<forall>j. j \<notin> set ids \<longrightarrow> noderes s' j = noderes s j"
    and "\<forall>j \<in> set ids. succeeded (status_of s' j) \<or> status_of s' j = Some ''failed'' \<and> err \<noteq> None"
    and "err \<noteq> None \<longrightarrow> (\<exists>j \<in> set ids. status_of s' j = Some ''failed'')"
    and "\<forall>j. (noderes s' j = None) = (noderes s j = None)"
proof -
  let ?s0 = "startLevel ids s"
  have s': "s' = fold (try_advance e env dag) sched ?s0" "list_all (\<lambda>p. snd p = Done) (xs_phase s')"
    "err = (case xs_errors s' of [] \<Rightarrow> None | e # _ \<Rightarrow> Some e)"
    using assms by (auto simp: executeLevel_def Let_def split: if_splits)
  have inv: "level_inv ?s0 s'" using path_inv[OF schedule_path startLevel_inv] s'(1) by simp
  have err: "err \<noteq> None \<longleftrightarrow> xs_errors s' \<noteq> []" using s'(3) by (auto split: list.splits)
  have res: "noderes ?s0 j = noderes s j" for j by (simp add: startLevel_def)
  note invD = level_invD[OF inv]
  have dn: "map_of (xs_phase s') j = (if j \<in> set ids then Some Done else None)" for j
  proof (cases "map_of (xs_phase s') j")
    case None
    then show ?thesis using invD(1)[of j] startLevel_phase[of ids s j] by (simp split: if_splits)
  next
    case (Some ph)
    moreover from Some have "ph = Done" using s'(2) map_of_SomeD[OF Some] by (auto simp: list_all_iff)
    ultimately show ?thesis using invD(1)[of j] startLevel_phase[of ids s j] by (simp split: if_splits)
  qed
  show "\<forall>j. j \<notin> set ids \<longrightarrow> noderes s' j = noderes s j"
    using invD(2) startLevel_phase[of ids s] res by simp
  show "\<forall>j \<in> set ids. succeeded (status_of s' j) \<or> status_of s' j = Some ''failed'' \<and> err \<noteq> None"
    using invD(4)[of _ Done] dn err by simp
  show "err \<noteq> None \<longrightarrow> (\<exists>j \<in> set ids. status_of s' j = Some ''failed'')"
    using invD(5) dn err by (metis option.distinct(1))
  show "\<forall>j. (noderes s' j = None) = (noderes s j = None)"
    using invD(3) res by simp
qed

text \<open>A level leaves the identity, the status and the start of the result alone, and keeps a store.\<close>

abbreviation frame :: "'q xstate \<Rightarrow> string \<times> string \<times> int \<times> bool" where
  "frame s \<equiv> (er_WorkflowID (xs_result s), er_Status (xs_result s), er_StartedAt (xs_result s), xs_store s = None)"

lemma setNode_frame [simp]: "frame (setNode i nr ph s) = frame s"
  by (simp add: setNode_def)

lemma beginNode_frame: "frame (beginNode e env i node nr s) = frame s"
  by (simp add: beginNode_def Let_def setNode_def split: option.split sum.split bool.split)

lemma callNode_frame: "callNode e env i node s = Some s' \<Longrightarrow> frame s' = frame s"
  by (auto simp: callNode_def Let_def split: if_splits option.splits prod.splits)

lemma finishNode_frame: "frame (finishNode env i node nr r s) = frame s"
  by (simp add: finishNode_def Let_def setNode_def split: sum.split)

lemma saveNode_frame: "frame (saveNode env i node nr s) = frame s"
  by (simp add: saveNode_def)

lemma advance_frame:
  assumes "advance e env dag i s = Some s'"
  shows "frame s' = frame s"
  using assms
proof (cases rule: advance_cases)
  case (calls node nr)
  then show ?thesis by (intro callNode_frame)
qed (simp_all only: beginNode_frame finishNode_frame saveNode_frame)

lemma executeLevel_frame:
  assumes "executeLevel e env dag sched ids s = Some (s', err)"
  shows "frame s' = frame s"
proof -
  have "frame (try_advance e env dag i t) = frame t" for i and t :: "'a xstate"
    using advance_frame[of e env dag i t] by (cases "advance e env dag i t") (simp_all add: try_advance_def)
  then have "frame (fold (try_advance e env dag) sched t) = frame t" for t :: "'a xstate"
    by (intro fold_keeps[of _ "\<lambda>u. frame u = frame t"]) simp_all
  note this[of "startLevel ids s"]
  moreover have "s' = fold (try_advance e env dag) sched (startLevel ids s)"
    using assms by (simp add: executeLevel_def Let_def split: if_splits)
  moreover have "frame (startLevel ids s) = frame s" by (simp add: startLevel_def)
  ultimately show ?thesis by simp
qed

lemma endResult_sel [simp]:
  "noderes (endResult st er t s) = noderes s" "er_Status (xs_result (endResult st er t s)) = st"
  "er_WorkflowID (xs_result (endResult st er t s)) = er_WorkflowID (xs_result s)"
  "er_Outputs (xs_result (endResult st er t s)) = er_Outputs (xs_result s)"
  "er_NodeResults (xs_result (endResult st er t s)) = er_NodeResults (xs_result s)"
  "er_Error (xs_result (endResult st er t s)) = er" "xs_store (endResult st er t s) = xs_store s"
  by (simp_all add: endResult_def fun_eq_iff)

lemma checkpoint_result [simp]: "xs_result (fst (checkpoint env k s)) = xs_result s"
  by (simp add: checkpoint_def split: option.split prod.split)

section \<open>Runs over the levels\<close>

text \<open>
  How a run over the levels can end: it stops before a level with the rest untouched, it stops in a
  level that has a failed node, or a level succeeds and the run goes on.
\<close>

fun run_trace :: "'q xstate \<Rightarrow> 'q xstate \<Rightarrow> bool \<Rightarrow> string list list \<Rightarrow> bool" where
  "run_trace s s' ok [] =
     (if ok then er_Status (xs_result s') = ''completed'' else er_Status (xs_result s') \<notin> {''completed'', ''failed''})"
| "run_trace s s' ok (L # Ls) =
     ((\<not> ok \<and> er_Status (xs_result s') \<notin> {''completed'', ''failed''} \<and> (\<forall>j \<in> set (concat (L # Ls)). noderes s' j = noderes s j))
    \<or> (\<not> ok \<and> er_Status (xs_result s') = ''failed'' \<and> (\<exists>j \<in> set L. status_of s' j = Some ''failed'')
         \<and> (\<forall>j \<in> set L. succeeded (status_of s' j) \<or> status_of s' j = Some ''failed'')
         \<and> (\<forall>j \<in> set (concat Ls). noderes s' j = noderes s j))
    \<or> ((\<forall>j \<in> set L. succeeded (status_of s' j)) \<and> run_trace s s' ok Ls))"

lemma run_trace_cong:
  "run_trace s s' ok Ls \<Longrightarrow> \<forall>j \<in> set (concat Ls). noderes s j = noderes t j \<Longrightarrow> run_trace t s' ok Ls"
  by (induction Ls) auto

lemma run_trace_stopped:
  "\<not> ok \<Longrightarrow> er_Status (xs_result s') \<notin> {''completed'', ''failed''} \<Longrightarrow>
     \<forall>j \<in> set (concat Ls). noderes s' j = noderes s j \<Longrightarrow> run_trace s s' ok Ls"
  by (cases Ls) auto

lemma executeLevels_trace:
  "executeLevels e env dag sched k Ls s = Some (s', err) \<Longrightarrow> distinct (concat Ls) \<Longrightarrow>
   er_Status (xs_result s) = ''running'' \<Longrightarrow>
   run_trace s s' (err = None) Ls \<and> (\<forall>j. j \<notin> set (concat Ls) \<longrightarrow> noderes s' j = noderes s j)"
proof (induction Ls arbitrary: k s)
  case (Cons L Ls)
  show ?case
  proof (cases "env_ctx env k")
    case (Some err')
    with Cons.prems(1) have s': "s' = endResult ''cancelled'' ''workflow cancelled'' (env_time env k) s" "err = Some err'" by auto
    then have "run_trace s s' (err = None) (L # Ls)" by (intro run_trace_stopped) (simp_all del: set_concat)
    with s' show ?thesis by simp
  next
    case None
    with Cons.prems(1) obtain s1 err1 where lv: "executeLevel e env dag (sched k) L s = Some (s1, err1)"
      by (auto split: option.splits)
    note spec = executeLevel_spec[OF lv] and fr = executeLevel_frame[OF lv]
    have rest: "\<forall>j \<in> set (concat Ls). noderes s1 j = noderes s j"
      using spec(1) Cons.prems(2) by (auto simp del: set_concat)
    show ?thesis
    proof (cases err1)
      case (Some err')
      with Cons.prems(1) None lv
      have s': "s' = endResult ''failed'' (''level '' @ itoa (int k) @ '' failed: '' @ error_string err') (env_time env k) s1"
        "err = Some err'" by simp_all
      moreover from s' spec(2,3) Some rest have "run_trace s s' (err = None) (L # Ls)"
        by (simp del: set_concat)
      ultimately show ?thesis using spec(1) by (simp del: set_concat)
    next
      case none1: None
      obtain s2 err2 where cp: "checkpoint env k s1 = (s2, err2)" by force
      have s2: "xs_result s2 = xs_result s1" using checkpoint_result[of env k s1] cp by simp
      have ok: "\<forall>j \<in> set L. succeeded (status_of s1 j)" using spec(2) none1 by simp
      show ?thesis
      proof (cases err2)
        case (Some err')
        with Cons.prems None lv none1 cp s2 fr
        have "s' = s2" "err = Some err'" "er_Status (xs_result s') = ''running''" by simp_all
        moreover from this have "run_trace s s' (err = None) Ls"
          using rest s2 by (intro run_trace_stopped) (simp_all del: set_concat)
        ultimately show ?thesis using ok s2 spec(1) by (simp del: set_concat)
      next
        case none2: None
        with Cons.prems(1) None lv none1 cp have r: "executeLevels e env dag sched (Suc k) Ls s2 = Some (s', err)" by simp
        have ih: "run_trace s2 s' (err = None) Ls" "\<forall>j. j \<notin> set (concat Ls) \<longrightarrow> noderes s' j = noderes s1 j"
          using Cons.IH[OF r] Cons.prems(2,3) s2 fr by (simp_all del: set_concat)
        have "j \<notin> set (concat Ls)" if "j \<in> set L" for j using Cons.prems(2) that by auto
        with ih(2) ok have "\<forall>j \<in> set L. succeeded (status_of s' j)" by (simp del: set_concat)
        moreover have "run_trace s s' (err = None) Ls" using run_trace_cong[OF ih(1), of s] rest s2 by simp
        moreover have "noderes s' j = noderes s j" if "j \<notin> set (concat (L # Ls))" for j
          using that ih(2) spec(1) by (simp del: set_concat)
        ultimately show ?thesis by simp
      qed
    qed
  qed
qed auto

lemma run_trace_ok: "run_trace s s' ok Ls \<Longrightarrow> ok \<Longrightarrow> j \<in> set (concat Ls) \<Longrightarrow> succeeded (status_of s' j)"
  by (induction Ls) auto

lemma run_trace_status: "run_trace s s' ok Ls \<Longrightarrow> ok = (er_Status (xs_result s') = ''completed'')"
  by (induction Ls) (auto split: if_splits)

lemma run_trace_failed:
  "run_trace s s' ok Ls \<Longrightarrow> er_Status (xs_result s') = ''failed'' \<Longrightarrow>
     \<exists>j \<in> set (concat Ls). status_of s' j = Some ''failed''"
  by (induction Ls) (auto split: if_splits)

lemma run_trace_order:
  "run_trace s s' ok Ls \<Longrightarrow> i < j \<Longrightarrow> j < length Ls \<Longrightarrow> u \<in> set (Ls ! i) \<Longrightarrow> v \<in> set (Ls ! j) \<Longrightarrow>
     noderes s' v \<noteq> noderes s v \<Longrightarrow> succeeded (status_of s' u)"
proof (induction Ls arbitrary: i j)
  case (Cons L Ls)
  from Cons.prems obtain j' where j: "j = Suc j'" by (cases j) auto
  with Cons.prems have v: "v \<in> set (concat Ls)" by (auto intro!: bexI[of _ "Ls ! j'"])
  with Cons.prems have ok: "\<forall>j \<in> set L. succeeded (status_of s' j)" "run_trace s s' ok Ls" by auto
  show ?case
  proof (cases i)
    case 0
    with ok Cons.prems(4) show ?thesis by simp
  next
    case (Suc i')
    with Cons.IH[OF ok(2), of i' j'] Cons.prems j show ?thesis by simp
  qed
qed simp

section \<open>Progress\<close>

fun decisive :: "int \<Rightarrow> select_event \<Rightarrow> bool" where
  "decisive deadline (CtxDone e) = True"
| "decisive deadline (Tick now) = (now > deadline)"

lemma approvalLoop_returns:
  "list_ex (\<lambda>p. decisive deadline (snd p)) ps \<Longrightarrow> snd (approvalLoop api node rid deadline q ps) \<noteq> None"
proof (induction ps arbitrary: q)
  case (Cons p ps)
  obtain others ev where p: "p = (others, ev)" by force
  show ?case using Cons by (cases ev) (auto simp: p Let_def split: sum.split option.split)
qed simp

text \<open>
  What a level needs in order to end: each of its approvals is answered, its wait is cancelled, or
  the ticker fires after the deadline.
\<close>

definition approvals_end :: "'q Executor \<Rightarrow> 'q environment \<Rightarrow> bool" where
  "approvals_end e env \<longleftrightarrow> (\<forall>i. list_ex (\<lambda>p. decisive (env_enqueued env i + approvalExpiry e) (snd p)) (env_polls env i))"

lemma callNode_returns:
  assumes "approvals_end e env"
  shows "callNode e env i node s \<noteq> None"
proof (cases "node_Type node = NodeTypeApproval")
  case True
  have "snd (approvalLoop api node rid (env_enqueued env i + approvalExpiry e) q (env_polls env i)) \<noteq> None" for api rid q
    using assms by (intro approvalLoop_returns) (simp add: approvals_end_def)
  then have "snd (executeApprovalNode e env node i w outs q) \<noteq> None" for w outs q
    by (simp add: executeApprovalNode_def Let_def split: option.split prod.split sum.split)
  from this[of "er_WorkflowID (xs_result s)" "er_Outputs (xs_result s)" "xs_queue s"] show ?thesis
    by (auto simp: callNode_def Let_def True split: option.split prod.split)
qed (simp add: callNode_def Let_def)

fun remaining :: "phase option \<Rightarrow> nat" where
  "remaining None = 0"
| "remaining (Some Ready) = 4"
| "remaining (Some Executing) = 3"
| "remaining (Some (Returned r)) = 2"
| "remaining (Some Unsaved) = 1"
| "remaining (Some Done) = 0"

definition nodes_known :: "DAG \<Rightarrow> 'q xstate \<Rightarrow> bool" where
  "nodes_known dag s \<longleftrightarrow> (\<forall>i. map_of (xs_phase s) i \<noteq> None \<longrightarrow> map_of (dag_Nodes dag) i \<noteq> None \<and> noderes s i \<noteq> None)"

lemma advance_some:
  assumes "approvals_end e env" "nodes_known dag s" "remaining (map_of (xs_phase s) i) \<noteq> 0"
  shows "advance e env dag i s \<noteq> None"
proof -
  from assms(3) obtain ph where "map_of (xs_phase s) i = Some ph" by (cases "map_of (xs_phase s) i") auto
  with assms callNode_returns[OF assms(1)] show ?thesis
    by (cases ph) (auto simp: advance_def nodes_known_def)
qed

lemma advance_remaining:
  assumes "advance e env dag i s = Some s'"
  shows "remaining (map_of (xs_phase s') i) < remaining (map_of (xs_phase s) i)"
  using assms
proof (cases rule: advance_cases)
  case (begins node nr)
  then show ?thesis
    by (simp add: beginNode_def Let_def setNode_def split: option.split sum.split bool.split)
next
  case (calls node nr)
  then show ?thesis by (auto simp: callNode_def Let_def split: if_splits option.splits prod.splits)
next
  case (finishes node nr r)
  then show ?thesis by (simp add: finishNode_def Let_def setNode_def split: sum.split)
next
  case (saves node nr)
  then show ?thesis by (simp add: saveNode_def)
qed

lemma step_effect_known: "step_effect i s s' \<Longrightarrow> nodes_known dag s \<Longrightarrow> nodes_known dag s'"
  unfolding nodes_known_def by (erule step_effectE) (metis option.distinct(1))

lemma try_advance_progress:
  assumes "approvals_end e env" "nodes_known dag s"
  shows "nodes_known dag (try_advance e env dag i s)"
    and "remaining (map_of (xs_phase (try_advance e env dag i s)) j) \<le> remaining (map_of (xs_phase s) j) - (if i = j then 1 else 0)"
proof (cases "advance e env dag i s")
  case None
  then show "nodes_known dag (try_advance e env dag i s)" using assms(2) by (simp add: try_advance_def)
next
  case (Some s')
  then show "nodes_known dag (try_advance e env dag i s)"
    using step_effect_known[OF advance_effect[OF Some] assms(2)] by (simp add: try_advance_def)
next
  show "remaining (map_of (xs_phase (try_advance e env dag i s)) j) \<le> remaining (map_of (xs_phase s) j) - (if i = j then 1 else 0)"
  proof (cases "advance e env dag i s")
    case None
    with advance_some[OF assms, of i] have "remaining (map_of (xs_phase s) i) = 0" by blast
    with None show ?thesis by (cases "i = j") (simp_all add: try_advance_def)
  next
    case (Some s')
    show ?thesis
    proof (cases "i = j")
      case True
      with advance_remaining[OF Some] Some show ?thesis by (simp add: try_advance_def)
    next
      case False
      from advance_effect[OF Some] have "map_of (xs_phase s') j = map_of (xs_phase s) j"
        by (rule step_effectE) (use False in simp)
      with Some False show ?thesis by (simp add: try_advance_def)
    qed
  qed
qed

lemma schedule_progress:
  assumes "approvals_end e env" "nodes_known dag s"
  shows "remaining (map_of (xs_phase (fold (try_advance e env dag) sched s)) j)
           \<le> remaining (map_of (xs_phase s) j) - count_list sched j"
  using assms(2)
proof (induction sched arbitrary: s)
  case (Cons i sched)
  from Cons.IH[OF try_advance_progress(1)[OF assms(1) Cons.prems], of i] try_advance_progress(2)[OF assms(1) Cons.prems, of i j]
  show ?case by (simp split: if_splits)
qed simp

lemma phase_keys_advance:
  assumes "advance e env dag i s = Some s'" "wf_map (xs_phase s)"
  shows "wf_map (xs_phase s')"
  using assms(1)
proof (cases rule: advance_cases)
  case (calls node nr)
  then show ?thesis using assms(2)
    by (auto simp: callNode_def Let_def wf_map_update simp del: distinct_map split: if_splits option.splits prod.splits)
qed (use assms(2) in \<open>simp_all add: beginNode_def finishNode_def saveNode_def setNode_def Let_def wf_map_update
       del: distinct_map split: option.split sum.split bool.split\<close>)

lemma remaining_0: "remaining (Some ph) = 0 \<longleftrightarrow> ph = Done"
  by (cases ph) auto

text \<open>Every schedule that gives each node of the level four turns ends the level.\<close>

lemma executeLevel_returns:
  assumes "approvals_end e env" "distinct ids"
    and "\<forall>i \<in> set ids. map_of (dag_Nodes dag) i \<noteq> None \<and> noderes s i \<noteq> None \<and> count_list sched i \<ge> 4"
  shows "executeLevel e env dag sched ids s \<noteq> None"
proof -
  let ?start = "startLevel ids s" let ?s = "fold (try_advance e env dag) sched ?start"
  have known: "nodes_known dag ?start" using assms(3) startLevel_phase[of ids s]
    by (auto simp: nodes_known_def startLevel_def split: if_splits)
  have wf: "wf_map (xs_phase ?s)"
  proof (rule fold_keeps[of _ "\<lambda>u. wf_map (xs_phase u)"])
    show "wf_map (xs_phase ?start)" using assms(2) by (simp add: startLevel_def comp_def distinct_map)
    show "wf_map (xs_phase (try_advance e env dag i u))" if "wf_map (xs_phase u)" for i u
      using that phase_keys_advance[of e env dag i u] by (simp add: try_advance_def del: distinct_map split: option.split)
  qed
  have "remaining (map_of (xs_phase ?s) j) = 0" for j
    using schedule_progress[OF assms(1) known, of sched j] startLevel_phase[of ids s j] assms(3)
    by (cases "j \<in> set ids") force+
  then have "ph = Done" if "(j, ph) \<in> set (xs_phase ?s)" for j ph
    using map_of_is_SomeI[OF wf that] remaining_0 by metis
  then have "list_all (\<lambda>p. snd p = Done) (xs_phase ?s)" by (auto simp: list_all_iff)
  then show ?thesis by (simp add: executeLevel_def Let_def)
qed

lemma executeLevels_returns:
  assumes "approvals_end e env"
  shows "distinct (concat Ls) \<Longrightarrow>
    \<forall>i \<in> set (concat Ls). map_of (dag_Nodes dag) i \<noteq> None \<and> noderes s i \<noteq> None \<and> (\<forall>k. count_list (sched k) i \<ge> 4) \<Longrightarrow>
    executeLevels e env dag sched k Ls s \<noteq> None"
proof (induction Ls arbitrary: k s)
  case (Cons L Ls)
  from Cons.prems obtain s1 err where lv: "executeLevel e env dag (sched k) L s = Some (s1, err)"
    using executeLevel_returns[OF assms, of L dag s "sched k"] by fastforce
  have "noderes (fst (checkpoint env k s1)) i \<noteq> None" if "noderes s i \<noteq> None" for i
    using executeLevel_spec(4)[OF lv] that by simp
  then have "executeLevels e env dag sched (Suc k) Ls (fst (checkpoint env k s1)) \<noteq> None"
    using Cons.prems by (intro Cons.IH) (simp_all del: not_None_eq)
  then show ?case using lv by (auto split: option.split prod.split)
qed simp

section \<open>What a successful run leaves in the store\<close>

lemma checkpoint_saved:
  assumes "checkpoint env k s = (s', None)" "xs_store s \<noteq> None"
  obtains st ws where "xs_store s' = Some st" "LoadCheckpoint st None (er_WorkflowID (xs_result s)) = Inr ws"
    "ws_Outputs ws = json_norm_map (er_Outputs (xs_result s))"
proof -
  from assms obtain st where st: "xs_store s = Some st" by auto
  let ?ws = "\<lparr>ws_WorkflowID = er_WorkflowID (xs_result s), ws_WorkflowName = er_WorkflowID (xs_result s),
    ws_Status = ''running'', ws_CurrentStep = ''level-'' @ itoa (int k), ws_Outputs = er_Outputs (xs_result s),
    ws_StartedAt = er_StartedAt (xs_result s), ws_UpdatedAt = env_time env k\<rparr>"
  from st assms(1) have none: "env_checkpoint env k = None"
    by (auto simp: checkpoint_def SaveCheckpoint_def split: prod.splits option.splits)
  with st assms(1) have "xs_store s' = Some (fst (SaveCheckpoint st None ?ws))"
    by (auto simp: checkpoint_def split: prod.splits)
  with saved_outputs[of st ?ws] that show thesis by auto
qed

lemma executeLevels_checkpoint:
  "executeLevels e env dag sched k Ls s = Some (s', None) \<Longrightarrow> Ls \<noteq> [] \<Longrightarrow> xs_store s \<noteq> None \<Longrightarrow>
   \<exists>st ws. xs_store s' = Some st \<and> LoadCheckpoint st None (er_WorkflowID (xs_result s)) = Inr ws \<and>
     ws_Outputs ws = json_norm_map (er_Outputs (xs_result s'))"
proof (induction Ls arbitrary: k s)
  case (Cons L Ls)
  from Cons.prems(1) have "env_ctx env k = None" by (cases "env_ctx env k") auto
  with Cons.prems(1) obtain s1 s2 where r: "executeLevel e env dag (sched k) L s = Some (s1, None)"
    "checkpoint env k s1 = (s2, None)" "executeLevels e env dag sched (Suc k) Ls s2 = Some (s', None)"
    by (auto split: option.splits prod.splits)
  from executeLevel_frame[OF r(1)] Cons.prems(3)
  have s1: "xs_store s1 \<noteq> None" "er_WorkflowID (xs_result s1) = er_WorkflowID (xs_result s)" by auto
  have s2: "xs_result s2 = xs_result s1" using checkpoint_result[of env k s1] r(2) by simp
  from checkpoint_saved[OF r(2) s1(1)] obtain st ws where saved: "xs_store s2 = Some st"
    "LoadCheckpoint st None (er_WorkflowID (xs_result s1)) = Inr ws"
    "ws_Outputs ws = json_norm_map (er_Outputs (xs_result s1))" .
  show ?case
  proof (cases "Ls = []")
    case True
    with r(3) have "s' = endResult ''completed'' (er_Error (xs_result s2)) (env_time env (Suc k)) s2" by simp
    with saved s1(2) s2 show ?thesis by auto
  next
    case False
    from Cons.IH[OF r(3) False] saved(1) s1(2) s2 show ?thesis by simp
  qed
qed simp

section \<open>Resuming\<close>

lemma skipLevels_keeps:
  "skipLevels e env dag sched k Ls s = Some (s', err) \<Longrightarrow> status_of s i = Some st \<Longrightarrow> st = ''completed'' \<or> st = ''failed'' \<Longrightarrow>
     noderes s' i = noderes s i"
proof (induction Ls arbitrary: k s)
  case (Cons L Ls)
  from Cons.prems(1) obtain active where a: "activeNodes s L = Some active" by (auto split: option.splits)
  with Cons.prems(2,3) have i: "i \<notin> set active" by (auto simp: activeNodes_def split: if_splits)
  show ?case
  proof (cases "active = []")
    case True
    with Cons a show ?thesis by simp
  next
    case False
    with Cons.prems(1) a obtain s1 err1 where lv: "executeLevel e env dag (sched k) active s = Some (s1, err1)"
      by (auto split: option.splits list.splits)
    from executeLevel_spec(1)[OF lv] i have same: "noderes s1 i = noderes s i" by simp
    show ?thesis
    proof (cases err1)
      case None
      with Cons.prems(1) a False lv have "skipLevels e env dag sched (Suc k) Ls s1 = Some (s', err)"
        by (auto split: list.splits)
      from Cons.IH[OF this] Cons.prems(2,3) same show ?thesis by simp
    next
      case (Some er)
      with Cons.prems(1) a False lv same show ?thesis by (auto split: list.splits)
    qed
  qed
qed auto

lemma map_of_addMissing:
  "map_of (addMissing nodes m) i =
     (case map_of m i of Some nr \<Rightarrow> Some nr | None \<Rightarrow> if i \<in> set (keys nodes) then Some (pendingResult i) else None)"
proof (induction nodes arbitrary: m)
  case Nil
  then show ?case by (simp add: addMissing_def split: option.split)
next
  case (Cons p nodes)
  let ?m = "if has_key m (fst p) then m else AList.update (fst p) (pendingResult (fst p)) m"
  have "addMissing (p # nodes) m = addMissing nodes ?m" by (simp add: addMissing_def)
  with Cons[of ?m] show ?case by (auto simp: has_key_def split: option.splits)
qed

section \<open>Properties\<close>

text \<open>The chain \<open>a \<rightarrow> b \<rightarrow> c\<close> of agent nodes, run by agents of which \<open>b\<close> may fail.\<close>

definition agent_dag :: DAG where
  "agent_dag = example_dag\<lparr>dag_Nodes := map (\<lambda>i. (i, (example_node i)\<lparr>node_Agent := i, node_OutputKey := i\<rparr>)) [''c'', ''a'', ''b'']\<rparr>"

definition example_executor :: "bool \<Rightarrow> unit Executor" where
  "example_executor fails = WithAgentNodeExecutor (NewExecutor None)
     (\<lambda>agent goal outputs. if fails \<and> agent = ''b'' then Inl (Errorf ''boom'') else Inr (AStr agent))"

definition example_env :: "unit environment" where
  "example_env = \<lparr>env_start = (\<lambda>i. 1), env_end = (\<lambda>i. 2), env_enqueued = (\<lambda>i. 0), env_uuid = (\<lambda>i. i),
     env_polls = (\<lambda>i. [(\<lambda>q. q, CtxDone Canceled)]), env_save = (\<lambda>i. None), env_ctx = (\<lambda>k. None), env_checkpoint = (\<lambda>k. None),
     env_time = (\<lambda>k. 3), env_load = None, env_loadNodes = None\<rparr>"

definition round_robin :: "nat \<Rightarrow> string list" where
  "round_robin k = concat (replicate 4 [''a'', ''b'', ''c''])"

definition final_state :: "gerror + ('q xstate \<times> gerror option) option \<Rightarrow> 'q xstate option" where
  "final_state r = (case r of Inr (Some (s, err)) \<Rightarrow> Some s | _ \<Rightarrow> None)"

definition example_run :: "bool \<Rightarrow> gerror + (unit xstate \<times> gerror option) option" where
  "example_run fails = Execute (example_executor fails) example_env round_robin agent_dag ''wf'' 0 (Some NewStateStore) ()"

lemma Execute_levels:
  assumes "maps_ok dag" "Execute e env sched dag w t store q = Inr r"
  obtains Ls where "r = executeLevels e env dag sched 0 Ls (initialState dag w t store q)"
    "distinct (concat Ls)" "set (concat Ls) = set (keys (dag_Nodes dag))" "layering (dag_rel dag) (set (node_ids dag)) {} Ls"
    "Ls \<noteq> []"
proof -
  from assms(2) have v: "Validate dag = None" by (auto simp: Execute_def split: option.splits)
  with assms(2) obtain Ls where Ls: "GetExecutionLevels dag = Inr Ls"
    "r = executeLevels e env dag sched 0 Ls (initialState dag w t store q)"
    by (auto simp: Execute_def split: sum.splits)
  from v have c: "edges_closed dag" "acyclic (dag_rel dag)" by (simp_all add: Validate_None)
  note lay = GetExecutionLevels_layering[OF assms(1) c(1) Ls(1)]
  from v have "dag_Nodes dag \<noteq> []" by (auto simp: Validate_def split: if_splits)
  moreover have "set (concat Ls) = set (keys (dag_Nodes dag))" using layering_set[OF lay] by simp
  ultimately have "Ls \<noteq> []" by auto
  with that[OF Ls(2)] layering_set[OF lay] layering_disjoint[OF lay] lay show thesis by simp
qed

lemma initial_noderes:
  "noderes (initialState dag w t store q) i = (if i \<in> set (keys (dag_Nodes dag)) then Some (pendingResult i) else None)"
proof -
  have "map_of (map (\<lambda>p. (fst p, pendingResult (fst p))) ns) i = (if i \<in> fst ` set ns then Some (pendingResult i) else None)"
    for ns :: "Node smap"
    by (induction ns) auto
  then show ?thesis by (simp add: initialState_def)
qed

lemma initial_running [simp]:
  "er_Status (xs_result (initialState dag w t store q)) = ''running''"
  "er_WorkflowID (xs_result (initialState dag w t store q)) = w" "xs_store (initialState dag w t store q) = store"
  by (simp_all add: initialState_def)

text \<open>
  C6. Whatever the interleaving of the goroutines, \<open>Execute\<close> reports status \<open>completed\<close> exactly when it
  returns no error, then every node of the workflow is completed or skipped, and when it reports
  \<open>failed\<close> some node has failed.
\<close>

theorem Execute_status_sound:
  assumes "maps_ok dag" "Execute e env sched dag w t store q = Inr (Some (s, err))"
  shows "(err = None \<longleftrightarrow> er_Status (xs_result s) = ''completed'')
    \<and> (err = None \<longrightarrow> (\<forall>i \<in> set (keys (dag_Nodes dag)). status_of s i \<in> {Some ''completed'', Some ''skipped''}))
    \<and> (er_Status (xs_result s) = ''failed'' \<longrightarrow> (\<exists>i \<in> set (keys (dag_Nodes dag)). status_of s i = Some ''failed''))"
proof -
  from assms obtain Ls where Ls: "executeLevels e env dag sched 0 Ls (initialState dag w t store q) = Some (s, err)"
    "distinct (concat Ls)" "set (concat Ls) = set (keys (dag_Nodes dag))" by (metis Execute_levels)
  from executeLevels_trace[OF Ls(1,2)] have tr: "run_trace (initialState dag w t store q) s (err = None) Ls" by simp
  have "status_of s i \<in> {Some ''completed'', Some ''skipped''}" if "err = None" "i \<in> set (keys (dag_Nodes dag))" for i
    using run_trace_ok[OF tr that(1), of i] that(2) Ls(3) by (auto simp only: succeeded_def insert_iff)
  with run_trace_status[OF tr] run_trace_failed[OF tr] Ls(3) show ?thesis by (simp del: set_map set_concat)
qed

theorem Execute_status_sound_witness:
  "\<exists>s. example_run False = Inr (Some (s, None)) \<and> status_of s ''c'' \<in> {Some ''completed'', Some ''skipped''}"
proof -
  have m: "maps_ok agent_dag" by code_simp
  have "case example_run False of Inr (Some (s, None)) \<Rightarrow> True | _ \<Rightarrow> False" by code_simp
  then obtain s where s: "example_run False = Inr (Some (s, None))" by (auto split: sum.splits option.splits)
  then show ?thesis using Execute_status_sound[OF m, of "example_executor False" example_env round_robin "''wf''" 0 "Some NewStateStore" "()" s None]
    by (auto simp: example_run_def agent_dag_def)
qed

lemma Execute_order:
  assumes "maps_ok dag" "Execute e env sched dag w t store q = Inr (Some (s, err))"
    and "v \<in> set (get_list (dag_Edges dag) u)" "status_of s v \<noteq> Some ''pending''"
  shows "status_of s u \<in> {Some ''completed'', Some ''skipped''}"
proof -
  let ?start = "initialState dag w t store q"
  from assms(1,2) obtain Ls where Ls: "executeLevels e env dag sched 0 Ls ?start = Some (s, err)"
    "distinct (concat Ls)" "set (concat Ls) = set (keys (dag_Nodes dag))"
    "layering (dag_rel dag) (set (node_ids dag)) {} Ls" by (metis Execute_levels)
  from executeLevels_trace[OF Ls(1,2)] have tr: "run_trace ?start s (err = None) Ls" by simp
  from assms(2) have "Validate dag = None" by (auto simp: Execute_def split: option.splits)
  then have "dag_rel dag \<subseteq> set (node_ids dag) \<times> set (node_ids dag)" by (intro edges_closed_rel) (simp add: Validate_None)
  then have uv: "(u, v) \<in> dag_rel dag" "v \<in> set (concat Ls)" using assms(3) Ls(3) by (auto simp: succ_rel_def)
  then obtain L where "L \<in> set Ls" "v \<in> set L" by auto
  then obtain j where j: "j < length Ls" "v \<in> set (Ls ! j)" by (metis in_set_conv_nth)
  from layering_preds[OF Ls(4) j uv(1)] obtain i where i: "i < j" "u \<in> set (Ls ! i)" by blast
  have "noderes s v \<noteq> noderes ?start v"
    using assms(4) initial_noderes[of dag w t store q v] uv(2) Ls(3) by (auto simp: pendingResult_def)
  from run_trace_order[OF tr i(1) j(1) i(2) j(2) this] show ?thesis by (simp add: succeeded_def)
qed

text \<open>
  C7. Dependencies are respected under every interleaving and on every outcome: when \<open>Execute\<close> returns,
  a node that did not stay pending has all its predecessors (the nodes with an edge to it) completed or
  skipped. A failed node therefore keeps everything behind it from starting.
\<close>

theorem Execute_respects_dependencies:
  assumes "maps_ok dag" "Execute e env sched dag w t store q = Inr (Some (s, err))"
    and "v \<in> set (get_list (dag_Edges dag) u)" "status_of s v \<noteq> Some ''pending''"
  shows "status_of s u \<in> {Some ''completed'', Some ''skipped''}"
  by (rule Execute_order [OF assms])

theorem Execute_respects_dependencies_witness:
  "\<exists>s err. example_run True = Inr (Some (s, err)) \<and> status_of s ''b'' = Some ''failed'' \<and> status_of s ''c'' = Some ''pending''
     \<and> status_of s ''a'' \<in> {Some ''completed'', Some ''skipped''}"
proof -
  have m: "maps_ok agent_dag" by code_simp
  have "case example_run True of Inr (Some (s, _)) \<Rightarrow> status_of s ''b'' = Some ''failed'' \<and> status_of s ''c'' = Some ''pending'' | _ \<Rightarrow> False"
    by code_simp
  then obtain s err where s: "example_run True = Inr (Some (s, err))"
    "status_of s ''b'' = Some ''failed''" "status_of s ''c'' = Some ''pending''" by (auto split: sum.splits option.splits)
  moreover from s have "status_of s ''b'' \<noteq> Some ''pending''" by auto
  moreover have "''b'' \<in> set (get_list (dag_Edges agent_dag) ''a'')" by code_simp
  ultimately show ?thesis
    using Execute_respects_dependencies[OF m, of "example_executor True" example_env round_robin "''wf''" 0 "Some NewStateStore" "()" s err "''b''" "''a''"]
    by (auto simp: example_run_def)
qed

text \<open>
  C8. \<open>Execute\<close> returns: on a valid graph, if every approval is answered, cancelled or expires, any
  schedule that gives each node four turns per level runs to the end, whatever conditions, agents, the
  context and the database answer.
\<close>

theorem Execute_returns:
  assumes "maps_ok dag" "Validate dag = None" "approvals_end e env"
    and "\<forall>k. \<forall>i \<in> set (keys (dag_Nodes dag)). count_list (sched k) i \<ge> 4"
  shows "\<exists>s err. Execute e env sched dag w t store q = Inr (Some (s, err))"
proof -
  from assms(2) have c: "edges_closed dag" "acyclic (dag_rel dag)" by (simp_all add: Validate_None)
  from c(2) obtain Ls where Ls: "GetExecutionLevels dag = Inr Ls" using GetExecutionLevels_iff[OF assms(1) c(1)] by blast
  note lay = GetExecutionLevels_layering[OF assms(1) c(1) Ls]
  have set: "set (concat Ls) = set (keys (dag_Nodes dag))" "distinct (concat Ls)"
    using layering_set[OF lay] layering_disjoint[OF lay] by simp_all
  have "map_of (dag_Nodes dag) i \<noteq> None" if "i \<in> set (keys (dag_Nodes dag))" for i
    using that by (simp add: map_of_eq_None_iff)
  then have "executeLevels e env dag sched 0 Ls (initialState dag w t store q) \<noteq> None"
    using set assms(4) by (intro executeLevels_returns[OF assms(3)]) (simp_all add: initial_noderes del: set_map set_concat not_None_eq)
  then show ?thesis using assms(2) Ls by (auto simp: Execute_def)
qed

theorem Execute_returns_witness: "\<exists>s err. example_run True = Inr (Some (s, err))"
  unfolding example_run_def
proof (rule Execute_returns)
  show "maps_ok agent_dag" by code_simp
  show "Validate agent_dag = None" by code_simp
  show "approvals_end (example_executor True) example_env" by (simp add: approvals_end_def example_env_def)
  show "\<forall>k. \<forall>i \<in> set (keys (dag_Nodes agent_dag)). count_list (round_robin k) i \<ge> 4"
    by (simp add: agent_dag_def round_robin_def numeral_eq_Suc)
qed

text \<open>
  C9. When \<open>Execute\<close> succeeds with a state store, the checkpoint left for the workflow can be loaded
  and holds the final outputs, as JSON returns them.
\<close>

theorem Execute_persists_outputs:
  assumes "maps_ok dag" "Execute e env sched dag w t (Some st) q = Inr (Some (s, None))"
  shows "\<exists>st' ws. xs_store s = Some st' \<and> LoadCheckpoint st' None w = Inr ws \<and>
           ws_Outputs ws = json_norm_map (er_Outputs (xs_result s))"
proof -
  from assms obtain Ls where "executeLevels e env dag sched 0 Ls (initialState dag w t (Some st) q) = Some (s, None)" "Ls \<noteq> []"
    by (metis Execute_levels)
  from executeLevels_checkpoint[OF this] show ?thesis by simp
qed

theorem Execute_persists_outputs_witness:
  "\<exists>s st' ws. example_run False = Inr (Some (s, None)) \<and> xs_store s = Some st' \<and> LoadCheckpoint st' None ''wf'' = Inr ws \<and>
     ws_Outputs ws = json_norm_map (er_Outputs (xs_result s))"
proof -
  have m: "maps_ok agent_dag" by code_simp
  have "case example_run False of Inr (Some (s, None)) \<Rightarrow> True | _ \<Rightarrow> False" by code_simp
  then obtain s where s: "example_run False = Inr (Some (s, None))" by (auto split: sum.splits option.splits)
  then show ?thesis
    using Execute_persists_outputs[OF m, of "example_executor False" example_env round_robin "''wf''" 0 NewStateStore "()" s]
    by (auto simp: example_run_def)
qed

text \<open>
  C10. \<open>Resume\<close> never runs a completed node again: a node stored as completed has, when \<open>Resume\<close>
  returns, exactly the result restored from the store.
\<close>

theorem Resume_keeps_completed:
  assumes "Resume e env sched w dag (Some st) q = Inr (Some (s, err))"
    and "LoadNodeStates st (env_loadNodes env) w = Inr nss"
    and "map_of (restoreNodes nss) i = Some nr" "nr_Status nr = ''completed''"
  shows "noderes s i = Some nr"
proof -
  from assms(1,2) obtain Ls start where r: "skipLevels e env dag sched 0 Ls start = Some (s, err)"
    "er_NodeResults (xs_result start) = addMissing (dag_Nodes dag) (restoreNodes nss)"
    by (auto simp: Resume_def executeWithSkip_def split: sum.splits)
  then have "noderes start i = Some nr" using assms(3) by (simp add: map_of_addMissing)
  with skipLevels_keeps[OF r(1), of i "''completed''"] assms(4) show ?thesis by simp
qed

text \<open>The store that the run with a failing \<open>b\<close> leaves behind.\<close>

definition failed_store :: StateStore where
  "failed_store =
     \<lparr>workflow_states = [(''wf'', \<lparr>wr_workflow_name = ''wf'', wr_status = ''running'', wr_current_step = ''level-0'',
        wr_outputs = [(''a'', AStr ''a'')], wr_started_at = 0, wr_updated_at = 3\<rparr>)],
      workflow_step_states =
       [(''wf:a'', \<lparr>sr_workflow_id = ''wf'', sr_step_name = ''a'', sr_status = ''completed'', sr_output = AStr ''a'',
          sr_started_at = 1, sr_completed_at = 2\<rparr>),
        (''wf:b'', \<lparr>sr_workflow_id = ''wf'', sr_step_name = ''b'', sr_status = ''failed'', sr_output = ANil,
          sr_started_at = 1, sr_completed_at = 2\<rparr>)]\<rparr>"

definition example_resume :: "gerror + (unit xstate \<times> gerror option) option" where
  "example_resume = Resume (example_executor True) example_env round_robin ''wf'' agent_dag (Some failed_store) ()"

definition failed_nodes :: "NodeState list" where
  "failed_nodes =
     [\<lparr>ns_NodeID = ''a'', ns_WorkflowID = ''wf'', ns_StepName = ''a'', ns_Status = ''completed'', ns_Output = AStr ''a'',
       ns_StartedAt = 1, ns_CompletedAt = 2\<rparr>,
      \<lparr>ns_NodeID = ''b'', ns_WorkflowID = ''wf'', ns_StepName = ''b'', ns_Status = ''failed'', ns_Output = ANil,
       ns_StartedAt = 1, ns_CompletedAt = 2\<rparr>]"

lemma load_failed_nodes: "LoadNodeStates failed_store None ''wf'' = Inr failed_nodes"
  by (simp add: LoadNodeStates_def failed_store_def failed_nodes_def rowToNodeState_def nodeIDFromRowID_def HasPrefix_def TrimPrefix_def)

definition resumed_state :: "unit xstate" where
  "resumed_state = \<lparr>xs_result = \<lparr>er_WorkflowID = ''wf'', er_Status = ''running'', er_Outputs = [(''a'', AStr ''a'')],
     er_NodeResults = addMissing (dag_Nodes agent_dag) (restoreNodes failed_nodes),
     er_StartedAt = 0, er_CompletedAt = 0, er_Duration = 0, er_Error = []\<rparr>,
     xs_store = None, xs_queue = (), xs_phase = [], xs_errors = []\<rparr>"

lemma example_resume_eq:
  "example_resume = executeWithSkip (example_executor True) example_env round_robin agent_dag (resumed_state\<lparr>xs_store := Some failed_store\<rparr>)"
  using load_failed_nodes
  by (simp add: example_resume_def Resume_def LoadCheckpoint_def resumed_state_def example_env_def failed_store_def)

theorem Resume_keeps_completed_witness:
  "\<exists>s err nr. example_resume = Inr (Some (s, err)) \<and> noderes s ''a'' = Some nr \<and> nr_Status nr = ''completed'' \<and> nr_Output nr = AStr ''a''"
proof -
  have "case example_resume of Inr (Some (s, _)) \<Rightarrow> True | _ \<Rightarrow> False" unfolding example_resume_eq by code_simp
  then obtain s err where s: "example_resume = Inr (Some (s, err))" by (auto split: sum.splits option.splits)
  have "case map_of (restoreNodes failed_nodes) ''a'' of Some nr \<Rightarrow> nr_Status nr = ''completed'' \<and> nr_Output nr = AStr ''a'' | None \<Rightarrow> False"
    by code_simp
  then obtain nr where n: "map_of (restoreNodes failed_nodes) ''a'' = Some nr"
    "nr_Status nr = ''completed''" "nr_Output nr = AStr ''a''" by (auto split: option.splits)
  have "noderes s ''a'' = Some nr"
    using Resume_keeps_completed[of "example_executor True" example_env round_robin "''wf''" agent_dag failed_store "()" s err failed_nodes "''a''" nr]
      s n load_failed_nodes by (simp add: example_resume_def example_env_def)
  with s n show ?thesis by blast
qed

text \<open>
  \<open>Resume\<close> also skips the nodes stored as failed, goes on with the nodes behind them and reports
  success: after a run in which \<open>b\<close> fails, \<open>Resume\<close> runs \<open>c\<close>, which depends on \<open>b\<close>, returns no error and
  status \<open>completed\<close>, while \<open>b\<close> is still failed.
\<close>

theorem Resume_passes_over_failures:
  "(case example_run True of Inr (Some (s, err)) \<Rightarrow> xs_store s = Some failed_store | _ \<Rightarrow> False)
   \<and> (case example_resume of
     Inr (Some (s, err)) \<Rightarrow> err = None \<and> er_Status (xs_result s) = ''completed'' \<and>
       status_of s ''b'' = Some ''failed'' \<and> status_of s ''c'' = Some ''completed'' \<and> ''c'' \<in> set (get_list (dag_Edges agent_dag) ''b'')
   | _ \<Rightarrow> False)"
  unfolding example_resume_eq by (rule conjI; code_simp)

end
