(* ===== verification/Agent_Runtime.thy ===== *)
theory Agent_Runtime
  imports Workflow_State
begin

text \<open>
  The agent loop, \<open>pkg/runtime\<close>: states and records (\<open>state.go\<close>), one step (\<open>step.go\<close>), the engine
  (\<open>engine.go\<close>), autonomy levels (\<open>autonomy.go\<close>), replay of a recorded run (\<open>replay.go\<close>) and delegation
  to another agent (\<open>delegation.go\<close>). The planner (a language model) and the tool executor are
  parameters with a state of their own; tool input reaches the executor as the value its JSON decodes
  to. The context, the clock and the identifiers seen in an iteration are functions of its number.
\<close>

section \<open>Data\<close>

datatype State = StateInit | StatePlanning | StateToolSelect | StatePolicyCheck | StateWaitingApproval
  | StateExecuting | StateObserving | StateCompleted | StateFailed | StateDenied | StateInterrupted

fun state_string :: "State \<Rightarrow> string" where
  "state_string StateInit = ''init''"
| "state_string StatePlanning = ''planning''"
| "state_string StateToolSelect = ''tool_select''"
| "state_string StatePolicyCheck = ''policy_check''"
| "state_string StateWaitingApproval = ''waiting_approval''"
| "state_string StateExecuting = ''executing''"
| "state_string StateObserving = ''observing''"
| "state_string StateCompleted = ''completed''"
| "state_string StateFailed = ''failed''"
| "state_string StateDenied = ''denied''"
| "state_string StateInterrupted = ''interrupted''"

record ToolCall =
  tc_ID :: string
  tc_Tool :: string
  tc_Version :: string
  tc_Input :: "any smap"

record ToolResult =
  tr_ToolID :: string
  tr_Output :: "any smap"
  tr_Error :: string
  tr_Duration :: int

record StepRecord =
  sr_StepID :: string
  sr_Timestamp :: int
  sr_State :: State
  sr_Action :: "ToolCall option"
  sr_Result :: "ToolResult option"
  sr_Reasoning :: string
  sr_Metadata :: "any smap"

record AgentState =
  as_RunID :: string
  as_AgentName :: string
  as_Goal :: string
  as_Current :: State
  as_StepCount :: int
  as_MaxSteps :: int
  as_CreatedAt :: int
  as_UpdatedAt :: int
  as_History :: "StepRecord list"
  as_WorkingMem :: "any smap"
  as_LastAction :: "ToolCall option"
  as_LastResult :: "ToolResult option"
  as_LastError :: "gerror option"

record StepInput =
  si_RunID :: string
  si_AgentName :: string
  si_Goal :: string
  si_StepNum :: int
  si_History :: "StepRecord list"
  si_WorkingMem :: "any smap"

record PlannedAction =
  pa_Type :: string
  pa_Tool :: string
  pa_Version :: string
  pa_Input :: "any smap"
  pa_Reasoning :: string

text \<open>The interfaces \<open>LLMPlanner\<close> and \<open>ToolExecutor\<close>, with the state of their implementation.\<close>

type_synonym 'p planner = "'p \<Rightarrow> gerror option \<Rightarrow> StepInput \<Rightarrow> 'p \<times> (gerror + PlannedAction)"
type_synonym 'x executor =
  "'x \<Rightarrow> gerror option \<Rightarrow> string \<Rightarrow> string \<Rightarrow> any smap \<Rightarrow> 'x \<times> ToolResult option \<times> gerror option"

text \<open>
  What an iteration sees: the error of the context at the check of the loop, in the planner and in the
  executor (\<open>None\<close> while it is not done), the two identifiers and the clock.
\<close>

record run_env =
  re_ctx :: "int \<Rightarrow> gerror option"
  re_ctxPlan :: "int \<Rightarrow> gerror option"
  re_ctxExec :: "int \<Rightarrow> gerror option"
  re_stepID :: "int \<Rightarrow> string"
  re_callID :: "int \<Rightarrow> string"
  re_now :: "int \<Rightarrow> int"

section \<open>One step\<close>

definition ExecuteStep :: "'p planner \<Rightarrow> 'x executor \<Rightarrow> run_env \<Rightarrow> StepInput \<Rightarrow> 'p \<Rightarrow> 'x \<Rightarrow>
    'p \<times> 'x \<times> StepRecord \<times> gerror option" where
  "ExecuteStep plan exec env input p x =
     (let n = si_StepNum input;
          blank = \<lparr>sr_StepID = re_stepID env n, sr_Timestamp = re_now env n, sr_State = StateFailed,
                   sr_Action = None, sr_Result = None, sr_Reasoning = [], sr_Metadata = []\<rparr>
      in case plan p (re_ctxPlan env n) input of
           (p1, Inl err) \<Rightarrow> (p1, x, blank\<lparr>sr_Metadata := [(''error'', AStr (error_string err))]\<rparr>, Some err)
         | (p1, Inr planned) \<Rightarrow>
             (let result = blank\<lparr>sr_Reasoning := pa_Reasoning planned\<rparr>
              in if pa_Type planned = ''complete''
                 then (p1, x, result\<lparr>sr_State := StateCompleted, sr_Metadata := [(''goal_reached'', ABool True)]\<rparr>, None)
                 else if pa_Type planned = ''tool_call''
                 then (case exec x (re_ctxExec env n) (pa_Tool planned) (pa_Version planned) (json_norm_map (pa_Input planned)) of
                         (x1, output, execErr) \<Rightarrow>
                           (let result1 = result\<lparr>sr_Action := Some \<lparr>tc_ID = re_callID env n, tc_Tool = pa_Tool planned,
                                                     tc_Version = pa_Version planned, tc_Input = pa_Input planned\<rparr>,
                                                 sr_Result := output, sr_State := StateObserving\<rparr>
                            in case execErr of
                                 Some err \<Rightarrow> (p1, x1, result1\<lparr>sr_State := StateFailed,
                                               sr_Metadata := [(''error'', AStr (error_string err))]\<rparr>, Some err)
                               | None \<Rightarrow> (p1, x1, result1, None)))
                 else (p1, x, result\<lparr>sr_State := StateFailed,
                         sr_Metadata := [(''error'', AStr (''unknown action type: '' @ pa_Type planned))]\<rparr>, None)))"

section \<open>The engine\<close>

record EngineConfig =
  ec_AgentName :: string
  ec_Goal :: string
  ec_MaxSteps :: int
  ec_Timeout :: int
  ec_Autonomy :: int
  ec_RunID :: string

definition NewEngine :: "EngineConfig \<Rightarrow> string \<Rightarrow> int \<Rightarrow> AgentState" where
  "NewEngine config fresh now =
     \<lparr>as_RunID = (if ec_RunID config = [] then fresh else ec_RunID config), as_AgentName = ec_AgentName config,
      as_Goal = ec_Goal config, as_Current = StateInit, as_StepCount = 0, as_MaxSteps = ec_MaxSteps config,
      as_CreatedAt = now, as_UpdatedAt = now, as_History = [], as_WorkingMem = [],
      as_LastAction = None, as_LastResult = None, as_LastError = None\<rparr>"

definition stepInput :: "AgentState \<Rightarrow> StepInput" where
  "stepInput st = \<lparr>si_RunID = as_RunID st, si_AgentName = as_AgentName st, si_Goal = as_Goal st,
     si_StepNum = as_StepCount st, si_History = as_History st, si_WorkingMem = as_WorkingMem st\<rparr>"

definition recordStep :: "StepRecord \<Rightarrow> int \<Rightarrow> AgentState \<Rightarrow> AgentState" where
  "recordStep r now st = st\<lparr>as_StepCount := as_StepCount st + 1, as_UpdatedAt := now,
     as_LastAction := sr_Action r, as_LastResult := sr_Result r, as_Current := sr_State r,
     as_History := as_History st @ [r]\<rparr>"

function runLoop :: "'p planner \<Rightarrow> 'x executor \<Rightarrow> run_env \<Rightarrow> AgentState \<Rightarrow> 'p \<Rightarrow> 'x \<Rightarrow>
    AgentState \<times> 'p \<times> 'x \<times> gerror option" where
  "runLoop plan exec env st p x =
     (if as_StepCount st < as_MaxSteps st
      then (case re_ctx env (as_StepCount st) of
              Some err \<Rightarrow> (st\<lparr>as_Current := StateInterrupted\<rparr>, p, x, Some err)
            | None \<Rightarrow>
                (case ExecuteStep plan exec env (stepInput st) p x of
                   (p1, x1, r, Some err) \<Rightarrow> (st\<lparr>as_Current := StateFailed, as_LastError := Some err\<rparr>, p1, x1, Some err)
                 | (p1, x1, r, None) \<Rightarrow>
                     (let st1 = recordStep r (re_now env (as_StepCount st)) st
                      in if sr_State r = StateCompleted then (st1, p1, x1, None)
                         else if sr_State r = StateFailed then (st1, p1, x1, None)
                         else runLoop plan exec env st1 p1 x1)))
      else (st\<lparr>as_Current := StateCompleted\<rparr>, p, x, None))"
  by pat_completeness auto
termination
  by (relation "measure (\<lambda>(plan, exec, env, st, p, x). nat (as_MaxSteps st - as_StepCount st))")
     (auto simp: recordStep_def)

declare runLoop.simps [simp del]

definition Run :: "'p planner \<Rightarrow> 'x executor \<Rightarrow> run_env \<Rightarrow> AgentState \<Rightarrow> 'p \<Rightarrow> 'x \<Rightarrow>
    AgentState \<times> 'p \<times> 'x \<times> gerror option" where
  "Run plan exec env st p x = runLoop plan exec env (st\<lparr>as_Current := StatePlanning\<rparr>) p x"

section \<open>Autonomy levels\<close>

definition RequiresApproval :: "int \<Rightarrow> bool \<Rightarrow> rat \<Rightarrow> bool" where
  "RequiresApproval level policyRequiresApproval riskScore =
     (if level = 0 then True
      else if level = 1 then riskScore \<ge> 1/2 \<or> policyRequiresApproval
      else if level = 2 then policyRequiresApproval
      else if level = 3 \<or> level = 4 then False
      else True)"

definition EnforcesPolicy :: "int \<Rightarrow> bool" where
  "EnforcesPolicy level = (level \<noteq> 4)"

section \<open>Replay of a recorded run\<close>

record Replay =
  rp_history :: "StepRecord list"
  rp_index :: nat

definition NewReplay :: "StepRecord list \<Rightarrow> Replay" where
  "NewReplay history = \<lparr>rp_history = history, rp_index = 0\<rparr>"

definition ReplayPlan :: "Replay planner" where
  "ReplayPlan r ctx input =
     (case ctx of
        Some err \<Rightarrow> (r, Inl err)
      | None \<Rightarrow>
          if rp_index r \<ge> length (rp_history r)
          then (r, Inr \<lparr>pa_Type = ''complete'', pa_Tool = [], pa_Version = [], pa_Input = [], pa_Reasoning = ''replay end''\<rparr>)
          else (let step = rp_history r ! rp_index r; r1 = r\<lparr>rp_index := rp_index r + 1\<rparr>
                in case sr_Action step of
                     None \<Rightarrow> (r1, Inr \<lparr>pa_Type = ''complete'', pa_Tool = [], pa_Version = [], pa_Input = [],
                                      pa_Reasoning = sr_Reasoning step\<rparr>)
                   | Some a \<Rightarrow> (r1, Inr \<lparr>pa_Type = ''tool_call'', pa_Tool = tc_Tool a, pa_Version = tc_Version a,
                                        pa_Input = tc_Input a, pa_Reasoning = sr_Reasoning step\<rparr>)))"

text \<open>The search of \<open>Execute\<close> for the next recorded result, from index \<open>i\<close>.\<close>

fun nextResult :: "StepRecord list \<Rightarrow> nat \<Rightarrow> (nat \<times> ToolResult) option" where
  "nextResult [] i = None"
| "nextResult (step # steps) i =
     (case sr_Result step of Some res \<Rightarrow> Some (i + 1, res) | None \<Rightarrow> nextResult steps (i + 1))"

definition ReplayExec :: "Replay executor" where
  "ReplayExec r ctx tool version input =
     (case ctx of
        Some err \<Rightarrow> (r, None, Some err)
      | None \<Rightarrow>
          if rp_index r \<ge> length (rp_history r) then (r, None, None)
          else (case nextResult (drop (rp_index r) (rp_history r)) (rp_index r) of
                  Some (i, res) \<Rightarrow> (r\<lparr>rp_index := i\<rparr>, Some res, None)
                | None \<Rightarrow> (r, None, None)))"

section \<open>Delegation\<close>

record DelegationResult =
  dr_RunID :: string
  dr_AgentName :: string
  dr_Goal :: string
  dr_State :: State
  dr_Output :: "any smap"
  dr_Error :: string
  dr_Duration :: int
  dr_StartedAt :: int
  dr_CompletedAt :: int

type_synonym delegations = "DelegationResult smap"

definition call_value :: "ToolCall option \<Rightarrow> any" where
  "call_value c = (case c of None \<Rightarrow> ANil
     | Some a \<Rightarrow> AMap [(''ID'', AStr (tc_ID a)), (''Tool'', AStr (tc_Tool a)), (''Version'', AStr (tc_Version a)),
                      (''Input'', AMap (tc_Input a))])"

text \<open>\<open>unix\<close> is \<open>time.Now().Unix()\<close> and \<open>t0\<close>, \<open>t1\<close> the clock before and after the run.\<close>

definition delegatedID :: "string \<Rightarrow> int \<Rightarrow> string" where
  "delegatedID agentName unix = ''delegated-'' @ agentName @ ''-'' @ itoa unix"

definition DelegateToAgent :: "'p planner \<Rightarrow> 'x executor \<Rightarrow> run_env \<Rightarrow> int \<Rightarrow> int \<Rightarrow> int \<Rightarrow>
    string \<Rightarrow> string \<Rightarrow> any smap \<Rightarrow> delegations \<Rightarrow> 'p \<Rightarrow> 'x \<Rightarrow>
    delegations \<times> 'p \<times> 'x \<times> DelegationResult \<times> gerror option" where
  "DelegateToAgent plan exec env unix t0 t1 agentName goal contextData results p x =
     (let runID = delegatedID agentName unix;
          config = \<lparr>ec_AgentName = agentName, ec_Goal = goal, ec_MaxSteps = 50, ec_Timeout = 300 * 1000000000,
                    ec_Autonomy = 2, ec_RunID = runID\<rparr>;
          st = NewEngine config [] t0;
          st1 = st\<lparr>as_WorkingMem := fold (\<lambda>(k, v) m. AList.update k v m) contextData (as_WorkingMem st)\<rparr>
      in case Run plan exec env st1 p x of
           (state, p1, x1, err) \<Rightarrow>
             (let result = \<lparr>dr_RunID = runID, dr_AgentName = agentName, dr_Goal = goal, dr_State = as_Current state,
                            dr_Output = [], dr_Error = [], dr_Duration = t1 - t0, dr_StartedAt = t0, dr_CompletedAt = t1\<rparr>
              in case err of
                   Some e \<Rightarrow> (results, p1, x1, result\<lparr>dr_Error := error_string e\<rparr>, Some e)
                 | None \<Rightarrow>
                     (let done = result\<lparr>dr_Output := [(''agent'', AStr agentName), (''goal'', AStr goal),
                                   (''status'', AStr (state_string (as_Current state))), (''steps'', AInt (as_StepCount state)),
                                   (''final_step'', call_value (as_LastAction state))]\<rparr>
                      in (AList.update runID done results, p1, x1, done, None))))"

text \<open>
  \<open>DelegateToAgentAsync\<close> returns the identifier at once; \<open>asyncBody\<close> is what its goroutine has done to
  the results when it ends.
\<close>

definition DelegateToAgentAsync :: "string \<Rightarrow> int \<Rightarrow> string" where
  "DelegateToAgentAsync agentName unix = ''delegated-async-'' @ agentName @ ''-'' @ itoa unix"

definition asyncBody :: "'p planner \<Rightarrow> 'x executor \<Rightarrow> run_env \<Rightarrow> int \<Rightarrow> int \<Rightarrow> int \<Rightarrow> string \<Rightarrow>
    string \<Rightarrow> string \<Rightarrow> any smap \<Rightarrow> delegations \<Rightarrow> 'p \<Rightarrow> 'x \<Rightarrow> delegations \<times> 'p \<times> 'x" where
  "asyncBody plan exec env unix t0 t1 runID agentName goal contextData results p x =
     (case DelegateToAgent plan exec env unix t0 t1 agentName goal contextData results p x of
        (results1, p1, x1, result, Some err) \<Rightarrow> (AList.update runID result results1, p1, x1)
      | (results1, p1, x1, result, None) \<Rightarrow> (results1, p1, x1))"

definition GetDelegationResult :: "delegations \<Rightarrow> string \<Rightarrow> gerror + DelegationResult" where
  "GetDelegationResult results runID =
     (case map_of results runID of
        None \<Rightarrow> Inl (Errorf (''delegation result not found for run ID: '' @ runID))
      | Some r \<Rightarrow> Inr r)"

definition CancelDelegation :: "delegations \<Rightarrow> string \<Rightarrow> int \<Rightarrow> delegations \<times> gerror option" where
  "CancelDelegation results runID now =
     (case map_of results runID of
        None \<Rightarrow> (results, Some (Errorf (''delegation not found for run ID: '' @ runID)))
      | Some r \<Rightarrow>
          if dr_State r = StatePlanning \<or> dr_State r = StateExecuting
          then (AList.update runID (r\<lparr>dr_State := StateInterrupted, dr_Error := ''Delegation canceled by user'',
                  dr_CompletedAt := now, dr_Duration := now - dr_StartedAt r\<rparr>) results, None)
          else (results, None))"

section \<open>The loop\<close>

text \<open>What a step that returns no error can look like.\<close>

lemma ExecuteStep_cases:
  assumes "ExecuteStep plan exec env input p x = (p1, x1, r, None)"
  obtains (complete) "sr_State r = StateCompleted" "sr_Action r = None" "sr_Result r = None"
      "sr_Metadata r = [(''goal_reached'', ABool True)]"
  | (tool) "sr_State r = StateObserving" "sr_Action r \<noteq> None" "sr_Metadata r = []"
  | (unknown) "sr_State r = StateFailed" "sr_Action r = None"
  using assms by (auto simp: ExecuteStep_def Let_def split: prod.splits sum.splits if_splits option.splits)

lemma recordStep_sel [simp]:
  "as_StepCount (recordStep r now st) = as_StepCount st + 1" "as_MaxSteps (recordStep r now st) = as_MaxSteps st"
  "as_History (recordStep r now st) = as_History st @ [r]" "as_Current (recordStep r now st) = sr_State r"
  by (simp_all add: recordStep_def)

lemma stepInput_num [simp]: "si_StepNum (stepInput st) = as_StepCount st"
  by (simp add: stepInput_def)

text \<open>
  The shape of a run: how often it may iterate, what it appends to the history, how it ends. \<open>m\<close> is
  the number of steps left.
\<close>

fun replayable :: "nat \<Rightarrow> StepRecord list \<Rightarrow> bool" where
  "replayable m [] = (m = 0)"
| "replayable m (r # rs) =
     (0 < m \<and>
      (if sr_State r = StateCompleted
       then sr_Action r = None \<and> sr_Result r = None \<and> sr_Metadata r = [(''goal_reached'', ABool True)] \<and> rs = []
       else sr_State r = StateObserving \<and> sr_Action r \<noteq> None \<and> sr_Result r \<noteq> None \<and> sr_Metadata r = [] \<and> replayable (m - 1) rs))"

definition loop_result :: "AgentState \<Rightarrow> AgentState \<Rightarrow> gerror option \<Rightarrow> StepRecord list \<Rightarrow> bool" where
  "loop_result st st' err rs \<longleftrightarrow>
     as_History st' = as_History st @ rs \<and> as_StepCount st' = as_StepCount st + int (length rs) \<and>
     length rs \<le> nat (as_MaxSteps st - as_StepCount st) \<and>
     list_all (\<lambda>r. sr_State r = StateObserving) (butlast rs) \<and>
     as_Current st' \<in> {StateCompleted, StateFailed, StateInterrupted} \<and>
     (as_Current st' = StateInterrupted \<longrightarrow> err \<noteq> None) \<and> (err \<noteq> None \<longrightarrow> as_Current st' \<noteq> StateCompleted) \<and>
     (as_Current st' = StateCompleted \<and> (\<forall>r \<in> set rs. sr_Action r \<noteq> None \<longrightarrow> sr_Result r \<noteq> None) \<longrightarrow>
        replayable (nat (as_MaxSteps st - as_StepCount st)) rs)"

lemma loop_result_step:
  assumes "loop_result (recordStep r now st) st' err rs" "sr_State r = StateObserving" "sr_Action r \<noteq> None"
    "sr_Metadata r = []" "as_StepCount st < as_MaxSteps st"
  shows "loop_result st st' err (r # rs)"
proof -
  have m: "nat (as_MaxSteps st - (as_StepCount st + 1)) = nat (as_MaxSteps st - as_StepCount st) - 1"
    "0 < nat (as_MaxSteps st - as_StepCount st)" using assms(5) by simp_all
  have "list_all (\<lambda>r. sr_State r = StateObserving) (butlast (r # rs))"
    using assms(1,2) by (cases rs) (auto simp: loop_result_def)
  then show ?thesis using assms m unfolding loop_result_def by (auto simp del: butlast.simps)
qed

lemma runLoop_result:
  "runLoop plan exec env st p x = (st', p', x', err) \<Longrightarrow> \<exists>rs. loop_result st st' err rs"
proof (induction plan exec env st p x arbitrary: st' p' x' err rule: runLoop.induct)
  case (1 plan exec env st p x)
  show ?case
  proof (cases "as_StepCount st < as_MaxSteps st")
    case False
    with "1.prems" have "loop_result st st' err []" by (auto simp: runLoop.simps[of plan exec] loop_result_def)
    then show ?thesis by blast
  next
    case lt: True
    show ?thesis
    proof (cases "re_ctx env (as_StepCount st)")
      case (Some e)
      with "1.prems" lt have "st' = st\<lparr>as_Current := StateInterrupted\<rparr>" "err = Some e"
        by (auto simp: runLoop.simps[of plan exec])
      then have "loop_result st st' err []" by (simp add: loop_result_def)
      then show ?thesis by blast
    next
      case ctx: None
      obtain p1 x1 r e where step: "ExecuteStep plan exec env (stepInput st) p x = (p1, x1, r, e)" by (metis prod_cases4)
      show ?thesis
      proof (cases e)
        case (Some err')
        with "1.prems" lt ctx step have "loop_result st st' err []" by (auto simp: runLoop.simps[of plan exec] loop_result_def)
        then show ?thesis by blast
      next
        case none: None
        let ?now = "re_now env (as_StepCount st)"
        from step none have "ExecuteStep plan exec env (stepInput st) p x = (p1, x1, r, None)" by simp
        then show ?thesis
        proof (cases rule: ExecuteStep_cases)
          case complete
          with "1.prems" lt ctx step none have "st' = recordStep r ?now st" "err = None"
            by (auto simp: runLoop.simps[of plan exec] Let_def)
          with complete lt have "loop_result st st' err [r]" by (auto simp: loop_result_def)
          then show ?thesis by blast
        next
          case unknown
          with "1.prems" lt ctx step none have "st' = recordStep r ?now st" "err = None"
            by (auto simp: runLoop.simps[of plan exec] Let_def)
          with unknown lt have "loop_result st st' err [r]" by (auto simp: loop_result_def)
          then show ?thesis by blast
        next
          case tool
          with "1.prems" lt ctx step none have r: "runLoop plan exec env (recordStep r ?now st) p1 x1 = (st', p', x', err)"
            by (simp add: runLoop.simps[of plan exec env st] Let_def)
          from "1.IH"[OF lt ctx step[symmetric] refl refl none refl _ _ r] tool
          obtain rs where "loop_result (recordStep r ?now st) st' err rs" by auto
          from loop_result_step[OF this tool lt] show ?thesis by blast
        qed
      qed
    qed
  qed
qed

text \<open>
  A rule for properties of a run: \<open>I\<close> holds between the steps, and each of the four ways to end the loop leads from \<open>I\<close> to \<open>Q\<close>.
\<close>

lemma runLoop_rule:
  assumes "\<And>st p x p1 x1 r. I st x \<Longrightarrow> as_StepCount st < as_MaxSteps st \<Longrightarrow> ExecuteStep plan exec env (stepInput st) p x = (p1, x1, r, None) \<Longrightarrow>
        sr_State r \<noteq> StateCompleted \<Longrightarrow> sr_State r \<noteq> StateFailed \<Longrightarrow> I (recordStep r (re_now env (as_StepCount st)) st) x1"
    and "\<And>st x. I st x \<Longrightarrow> \<not> as_StepCount st < as_MaxSteps st \<Longrightarrow> Q (st\<lparr>as_Current := StateCompleted\<rparr>) x None"
    and "\<And>st x err. I st x \<Longrightarrow> as_StepCount st < as_MaxSteps st \<Longrightarrow> Q (st\<lparr>as_Current := StateInterrupted\<rparr>) x (Some err)"
    and "\<And>st p x p1 x1 r err. I st x \<Longrightarrow> as_StepCount st < as_MaxSteps st \<Longrightarrow> ExecuteStep plan exec env (stepInput st) p x = (p1, x1, r, Some err) \<Longrightarrow>
        Q (st\<lparr>as_Current := StateFailed, as_LastError := Some err\<rparr>) x1 (Some err)"
    and "\<And>st p x p1 x1 r. I st x \<Longrightarrow> as_StepCount st < as_MaxSteps st \<Longrightarrow> ExecuteStep plan exec env (stepInput st) p x = (p1, x1, r, None) \<Longrightarrow>
        sr_State r = StateCompleted \<or> sr_State r = StateFailed \<Longrightarrow> Q (recordStep r (re_now env (as_StepCount st)) st) x1 None"
    and "I st x" "runLoop plan exec env st p x = (st', p', x', err)"
  shows "Q st' x' err"
  using assms
proof (induction plan exec env st p x arbitrary: st' p' x' err rule: runLoop.induct)
  case (1 plan exec env st p x)
  show ?case
  proof (cases "as_StepCount st < as_MaxSteps st \<and> re_ctx env (as_StepCount st) = None")
    case False
    then consider "\<not> as_StepCount st < as_MaxSteps st" | e where "as_StepCount st < as_MaxSteps st" "re_ctx env (as_StepCount st) = Some e" by auto
    then show ?thesis
    proof cases
      case 1
      with "1.prems"(2,6,7) show ?thesis by (auto simp: runLoop.simps[of plan exec env st])
    next
      case 2
      with "1.prems"(7) have "st' = st\<lparr>as_Current := StateInterrupted\<rparr>" "x' = x" "err = Some e" by (simp_all add: runLoop.simps[of plan exec env st])
      with "1.prems"(3,6) 2 show ?thesis by blast
    qed
  next
    case True
    then have lt: "as_StepCount st < as_MaxSteps st" and ctx: "re_ctx env (as_StepCount st) = None" by simp_all
    obtain p1 x1 r e where step: "ExecuteStep plan exec env (stepInput st) p x = (p1, x1, r, e)" by (metis prod_cases4)
    show ?thesis
    proof (cases "e = None \<and> sr_State r \<noteq> StateCompleted \<and> sr_State r \<noteq> StateFailed")
      case False
      with "1.prems"(4,5,6,7) lt ctx step show ?thesis
        by (auto simp: runLoop.simps[of plan exec env st] Let_def split: option.splits if_splits)
    next
      case True
      then have e: "e = None" "sr_State r \<noteq> StateCompleted" "sr_State r \<noteq> StateFailed" by simp_all
      with "1.prems"(7) lt ctx step
      have r: "runLoop plan exec env (recordStep r (re_now env (as_StepCount st)) st) p1 x1 = (st', p', x', err)"
        by (simp add: runLoop.simps[of plan exec env st] Let_def)
      have "I (recordStep r (re_now env (as_StepCount st)) st) x1" using "1.prems"(1,6) lt step e by blast
      from "1.IH"[OF lt ctx step[symmetric] refl refl e(1) refl e(2,3) "1.prems"(1-5) this r] show ?thesis .
    qed
  qed
qed

section \<open>Replay reproduces the run\<close>

text \<open>A step record without the identifiers and the clock readings, which differ between two runs.\<close>

definition erase_ids :: "StepRecord \<Rightarrow> StepRecord" where
  "erase_ids r = r\<lparr>sr_StepID := [], sr_Timestamp := 0, sr_Action := map_option (\<lambda>a. a\<lparr>tc_ID := []\<rparr>) (sr_Action r)\<rparr>"

definition quiet :: "run_env \<Rightarrow> bool" where
  "quiet env \<longleftrightarrow> (\<forall>n. re_ctx env n = None \<and> re_ctxPlan env n = None \<and> re_ctxExec env n = None)"

abbreviation replay_at :: "StepRecord list \<Rightarrow> nat \<Rightarrow> Replay" where
  "replay_at H i \<equiv> \<lparr>rp_history = H, rp_index = i\<rparr>"

lemma replay_tool_step:
  assumes "quiet env" "sr_Action r = Some a" "sr_Result r = Some res" "sr_Metadata r = []" "sr_State r = StateObserving"
    "H = pre @ r # rs" "i = length pre"
  shows "\<exists>r'. ExecuteStep ReplayPlan ReplayExec env input (replay_at H i) (replay_at H i) = (replay_at H (Suc i), replay_at H (Suc i), r', None) \<and>
    erase_ids r' = erase_ids r \<and> sr_State r' = StateObserving"
  using assms by (simp add: ExecuteStep_def ReplayPlan_def ReplayExec_def quiet_def erase_ids_def Let_def nth_append)

lemma replay_complete_step:
  assumes "quiet env" "sr_Action r = None" "sr_Result r = None" "sr_State r = StateCompleted"
    "sr_Metadata r = [(''goal_reached'', ABool True)]" "H = pre @ r # rs" "i = length pre"
  shows "\<exists>r'. ExecuteStep ReplayPlan ReplayExec env input (replay_at H i) (replay_at H i) = (replay_at H (Suc i), replay_at H i, r', None) \<and>
    erase_ids r' = erase_ids r \<and> sr_State r' = StateCompleted"
  using assms by (simp add: ExecuteStep_def ReplayPlan_def quiet_def erase_ids_def Let_def nth_append)

lemma replay_loop:
  assumes "quiet env"
  shows "replayable (nat (as_MaxSteps st - as_StepCount st)) rs \<Longrightarrow> H = pre @ rs \<Longrightarrow> i = length pre \<Longrightarrow>
    \<exists>st' p' x' rs'. runLoop ReplayPlan ReplayExec env st (replay_at H i) (replay_at H i) = (st', p', x', None) \<and>
      as_History st' = as_History st @ rs' \<and> map erase_ids rs' = map erase_ids rs \<and> as_Current st' = StateCompleted"
proof (induction rs arbitrary: st pre i)
  case Nil
  then have "\<not> as_StepCount st < as_MaxSteps st" by simp
  then show ?case by (subst runLoop.simps) simp
next
  case (Cons r rs)
  from Cons.prems(1) have lt: "as_StepCount st < as_MaxSteps st" by simp
  have ctx: "re_ctx env (as_StepCount st) = None" using assms by (simp add: quiet_def)
  let ?st1 = "\<lambda>r'. recordStep r' (re_now env (as_StepCount st)) st"
  show ?case
  proof (cases "sr_State r = StateCompleted")
    case True
    with Cons.prems(1) have "sr_Action r = None" "sr_Result r = None" "sr_Metadata r = [(''goal_reached'', ABool True)]" "rs = []"
      by simp_all
    with replay_complete_step[OF assms, of r H pre rs i] True Cons.prems(2,3)
    obtain r' where r': "ExecuteStep ReplayPlan ReplayExec env (stepInput st) (replay_at H i) (replay_at H i) = (replay_at H (Suc i), replay_at H i, r', None)"
      "erase_ids r' = erase_ids r" "sr_State r' = StateCompleted" by blast
    then have "runLoop ReplayPlan ReplayExec env st (replay_at H i) (replay_at H i) = (?st1 r', replay_at H (Suc i), replay_at H i, None)"
      using lt ctx by (simp add: runLoop.simps[of _ _ _ st] Let_def)
    then show ?thesis using r' \<open>rs = []\<close> by (intro exI[of _ "?st1 r'"] exI[of _ "[r']"] exI) simp
  next
    case False
    with Cons.prems(1) obtain a res where r: "sr_State r = StateObserving" "sr_Action r = Some a" "sr_Result r = Some res" "sr_Metadata r = []"
      and rest: "replayable (nat (as_MaxSteps st - as_StepCount st) - 1) rs" by auto
    from replay_tool_step[OF assms r(2,3,4,1) Cons.prems(2,3)]
    obtain r' where r': "ExecuteStep ReplayPlan ReplayExec env (stepInput st) (replay_at H i) (replay_at H i) = (replay_at H (Suc i), replay_at H (Suc i), r', None)"
      "erase_ids r' = erase_ids r" "sr_State r' = StateObserving" by blast
    have "nat (as_MaxSteps (?st1 r') - as_StepCount (?st1 r')) = nat (as_MaxSteps st - as_StepCount st) - 1" using lt by simp
    with rest have "replayable (nat (as_MaxSteps (?st1 r') - as_StepCount (?st1 r'))) rs" by simp
    from Cons.IH[OF this, of "pre @ [r]" "Suc i"] Cons.prems(2,3)
    obtain st' p' x' rs' where ih: "runLoop ReplayPlan ReplayExec env (?st1 r') (replay_at H (Suc i)) (replay_at H (Suc i)) = (st', p', x', None)"
      "as_History st' = as_History (?st1 r') @ rs'" "map erase_ids rs' = map erase_ids rs" "as_Current st' = StateCompleted" by auto
    have "runLoop ReplayPlan ReplayExec env st (replay_at H i) (replay_at H i) = (st', p', x', None)"
      using lt ctx r' ih(1) by (simp add: runLoop.simps[of _ _ _ st] Let_def)
    then show ?thesis using ih r'(2) by (intro exI[of _ st'] exI[of _ p'] exI[of _ x'] exI[of _ "r' # rs'"]) simp
  qed
qed

section \<open>Delegation\<close>

lemma dash_notin_digits: "CHR ''-'' \<notin> set (nat_digits n)"
proof (induction n rule: nat_digits.induct)
  case (1 n)
  have d: "char_of (48 + k) \<noteq> CHR ''-''" if "k < 10" for k :: nat
  proof
    assume "char_of (48 + k) = CHR ''-''"
    then have "of_char (char_of (48 + k) :: char) = (of_char CHR ''-'' :: nat)" by simp
    with that show False by simp
  qed
  show ?case
  proof (cases "n < 10")
    case True
    with d[of n] show ?thesis by (subst nat_digits.simps) (simp del: of_nat_add)
  next
    case False
    then have "nat_digits n = nat_digits (n div 10) @ [char_of (48 + n mod 10)]" by (subst nat_digits.simps) (simp only: if_False)
    moreover have "char_of (48 + n mod 10) \<noteq> CHR ''-''" by (rule d) simp
    moreover have "CHR ''-'' \<notin> set (nat_digits (n div 10))" using 1 False by blast
    ultimately show ?thesis by (metis Un_iff empty_iff empty_set insert_iff list.simps(15) set_append)
  qed
qed

text \<open>The identifier that \<open>DelegateToAgentAsync\<close> returns is not the one its result is stored under.\<close>

lemma async_id_differs:
  assumes "0 \<le> t" "0 \<le> t'"
  shows "DelegateToAgentAsync agentName t \<noteq> delegatedID agentName t'"
proof
  assume "DelegateToAgentAsync agentName t = delegatedID agentName t'"
  then have eq: "(''async-'' @ agentName) @ CHR ''-'' # itoa t = agentName @ CHR ''-'' # itoa t'"
    by (simp add: DelegateToAgentAsync_def delegatedID_def)
  have "CHR ''-'' \<notin> set (rev (itoa t))" "CHR ''-'' \<notin> set (rev (itoa t'))"
    using assms dash_notin_digits by (simp_all add: itoa_def)
  moreover have "rev (itoa t) @ CHR ''-'' # rev (''async-'' @ agentName) = rev (itoa t') @ CHR ''-'' # rev agentName"
    using arg_cong[OF eq, of rev] by simp
  ultimately have "rev (''async-'' @ agentName) = rev agentName"
    using iffD1[OF append_sep_inject[of "CHR ''-''" "rev (itoa t)" "rev (itoa t')" "rev (''async-'' @ agentName)" "rev agentName"]] by blast
  then have "length (''async-'' @ agentName) = length agentName" by (metis length_rev)
  then show False by simp
qed

definition finished_results :: "delegations \<Rightarrow> bool" where
  "finished_results results \<longleftrightarrow>
     (\<forall>i r. map_of results i = Some r \<longrightarrow> dr_State r \<in> {StateCompleted, StateFailed, StateInterrupted})"

lemma DelegateToAgent_result:
  assumes "DelegateToAgent plan exec env unix t0 t1 agentName goal ctx results p x = (results', p', x', result, err)"
  shows "dr_State result \<in> {StateCompleted, StateFailed, StateInterrupted}"
    and "results' = (case err of None \<Rightarrow> AList.update (delegatedID agentName unix) result results | Some _ \<Rightarrow> results)"
proof -
  let ?config = "\<lparr>ec_AgentName = agentName, ec_Goal = goal, ec_MaxSteps = 50, ec_Timeout = 300 * 1000000000,
    ec_Autonomy = 2, ec_RunID = delegatedID agentName unix\<rparr>"
  let ?st = "(NewEngine ?config [] t0)\<lparr>as_WorkingMem := fold (\<lambda>(k, v) m. AList.update k v m) ctx (as_WorkingMem (NewEngine ?config [] t0))\<rparr>"
  obtain st p1 x1 e where r: "Run plan exec env ?st p x = (st, p1, x1, e)" by (metis prod_cases4)
  then have "as_Current st \<in> {StateCompleted, StateFailed, StateInterrupted}"
    using runLoop_result[of plan exec env "?st\<lparr>as_Current := StatePlanning\<rparr>" p x] by (auto simp: Run_def loop_result_def)
  moreover have "dr_State result = as_Current st"
    using assms r by (auto simp: DelegateToAgent_def Let_def split: option.splits)
  ultimately show "dr_State result \<in> {StateCompleted, StateFailed, StateInterrupted}" by simp
  show "results' = (case err of None \<Rightarrow> AList.update (delegatedID agentName unix) result results | Some _ \<Rightarrow> results)"
    using assms by (auto simp: DelegateToAgent_def Let_def split: prod.splits option.splits)
qed

text \<open>The results a delegator can hold, after any sequence of delegations and cancellations.\<close>

inductive delegated :: "'p planner \<Rightarrow> 'x executor \<Rightarrow> delegations \<Rightarrow> bool"
  for plan exec where
  start: "delegated plan exec []"
| delegate: "delegated plan exec rs \<Longrightarrow> DelegateToAgent plan exec env unix t0 t1 agentName goal ctx rs p x = (rs', p', x', result, err) \<Longrightarrow>
    delegated plan exec rs'"
| async: "delegated plan exec rs \<Longrightarrow> asyncBody plan exec env unix t0 t1 runID agentName goal ctx rs p x = (rs', p', x') \<Longrightarrow>
    delegated plan exec rs'"
| cancel: "delegated plan exec rs \<Longrightarrow> CancelDelegation rs runID now = (rs', err) \<Longrightarrow> delegated plan exec rs'"

lemma finished_update:
  "finished_results rs \<Longrightarrow> dr_State r \<in> {StateCompleted, StateFailed, StateInterrupted} \<Longrightarrow> finished_results (AList.update i r rs)"
  by (simp add: finished_results_def)

lemma finished_delegate:
  assumes "finished_results rs" "DelegateToAgent plan exec env unix t0 t1 agentName goal ctx rs p x = (rs', p', x', result, err)"
  shows "finished_results rs'"
  using DelegateToAgent_result[OF assms(2)] assms(1) by (cases err) (simp_all add: finished_update)

lemma delegated_finished: "delegated plan exec rs \<Longrightarrow> finished_results rs"
proof (induction rule: delegated.induct)
  case (async rs env unix t0 t1 runID agentName goal ctx p x rs' p' x')
  obtain rs1 p1 x1 result err where d: "DelegateToAgent plan exec env unix t0 t1 agentName goal ctx rs p x = (rs1, p1, x1, result, err)"
    by (metis prod_cases5)
  from finished_delegate[OF async(3) d] DelegateToAgent_result(1)[OF d] async(2) d show ?case
    by (cases err) (auto simp: asyncBody_def finished_update)
next
  case (cancel rs runID now rs' err)
  then show ?case by (auto simp: CancelDelegation_def finished_update split: option.splits if_splits)
qed (auto simp: finished_results_def[of "[]"] intro: finished_delegate)

section \<open>Properties\<close>

definition quiet_env :: run_env where
  "quiet_env = \<lparr>re_ctx = (\<lambda>n. None), re_ctxPlan = (\<lambda>n. None), re_ctxExec = (\<lambda>n. None),
     re_stepID = (\<lambda>n. itoa n), re_callID = (\<lambda>n. itoa n), re_now = (\<lambda>n. n)\<rparr>"

text \<open>A planner that calls the tool \<open>echo\<close> twice and then reports completion.\<close>

definition echo_planner :: "unit planner" where
  "echo_planner p ctx input =
     (p, Inr \<lparr>pa_Type = (if si_StepNum input < 2 then ''tool_call'' else ''complete''), pa_Tool = ''echo'', pa_Version = ''1'',
              pa_Input = [], pa_Reasoning = ''r''\<rparr>)"

definition echo_executor :: "nat executor" where
  "echo_executor n ctx tool version input =
     (n + 1, Some \<lparr>tr_ToolID = tool, tr_Output = [(''n'', AInt (int n))], tr_Error = [], tr_Duration = 0\<rparr>, None)"

definition echo_config :: EngineConfig where
  "echo_config = \<lparr>ec_AgentName = ''a'', ec_Goal = ''g'', ec_MaxSteps = 5, ec_Timeout = 0, ec_Autonomy = 2, ec_RunID = ''run''\<rparr>"

text \<open>
  C11. The agent loop is bounded and keeps its books: a run of a fresh engine returns in a final state,
  with at most \<open>MaxSteps\<close> steps, a history with one record per step of which all but the last are
  observations of tool calls, an error whenever it was interrupted and none when it completed.
\<close>

theorem Run_bounded:
  assumes "Run plan exec env (NewEngine config fresh now) p x = (st, p', x', err)"
  shows "as_StepCount st \<le> max 0 (ec_MaxSteps config) \<and> as_StepCount st = int (length (as_History st))
    \<and> list_all (\<lambda>r. sr_State r = StateObserving) (butlast (as_History st))
    \<and> as_Current st \<in> {StateCompleted, StateFailed, StateInterrupted}
    \<and> (as_Current st = StateInterrupted \<longrightarrow> err \<noteq> None) \<and> (as_Current st = StateCompleted \<longrightarrow> err = None)"
proof -
  from assms runLoop_result[of plan exec env "(NewEngine config fresh now)\<lparr>as_Current := StatePlanning\<rparr>" p x]
  obtain rs where "loop_result ((NewEngine config fresh now)\<lparr>as_Current := StatePlanning\<rparr>) st err rs"
    by (auto simp: Run_def)
  then show ?thesis by (auto simp: loop_result_def NewEngine_def)
qed

theorem Run_bounded_witness:
  "case Run echo_planner echo_executor quiet_env (NewEngine echo_config [] 0) () 0 of
     (st, _, _, err) \<Rightarrow> as_StepCount st \<le> 5 \<and> length (as_History st) = 3 \<and> as_StepCount st = int (length (as_History st)) \<and> err = None"
proof -
  obtain st p' x' err where r: "Run echo_planner echo_executor quiet_env (NewEngine echo_config [] 0) () 0 = (st, p', x', err)"
    by (metis prod_cases4)
  have "case Run echo_planner echo_executor quiet_env (NewEngine echo_config [] 0) () 0 of
     (st, _, _, err) \<Rightarrow> length (as_History st) = 3 \<and> err = None" by code_simp
  with r Run_bounded[OF r] show ?thesis by (simp add: echo_config_def)
qed

text \<open>
  C12. Replay is faithful: when a run of an engine ends as completed without an error and every tool
  call returned a result, running the engine again with \<open>ReplayPlanner\<close> and \<open>ReplayExecutor\<close> on the
  recorded history completes and records the same history, up to identifiers and times, without calling
  the planner or any tool.
\<close>

theorem replay_reproduces_run:
  assumes "Run plan exec env (NewEngine config fresh now) p x = (st, p', x', None)" "as_Current st = StateCompleted"
    and "\<forall>r \<in> set (as_History st). sr_Action r \<noteq> None \<longrightarrow> sr_Result r \<noteq> None" "quiet env'"
  shows "\<exists>st2 rp rx. Run ReplayPlan ReplayExec env' (NewEngine config fresh2 now2)
      (NewReplay (as_History st)) (NewReplay (as_History st)) = (st2, rp, rx, None)
    \<and> as_Current st2 = StateCompleted \<and> map erase_ids (as_History st2) = map erase_ids (as_History st)"
proof -
  let ?st = "\<lambda>f n. (NewEngine config f n)\<lparr>as_Current := StatePlanning\<rparr>"
  from assms(1) runLoop_result[of plan exec env "?st fresh now" p x] obtain rs where
    "loop_result (?st fresh now) st None rs" by (auto simp: Run_def)
  with assms(2,3) have "replayable (nat (ec_MaxSteps config)) (as_History st)"
    by (auto simp: loop_result_def NewEngine_def)
  with replay_loop[OF assms(4), of "?st fresh2 now2" "as_History st" "as_History st" "[]" 0]
  show ?thesis by (auto simp: Run_def NewReplay_def NewEngine_def)
qed

definition echo_history :: "StepRecord list" where
  "echo_history = as_History (fst (Run echo_planner echo_executor quiet_env (NewEngine echo_config [] 0) () 0))"

theorem replay_reproduces_run_witness:
  "length echo_history = 3 \<and>
   (\<exists>st2 rp rx. Run ReplayPlan ReplayExec quiet_env (NewEngine echo_config [] 9) (NewReplay echo_history) (NewReplay echo_history) = (st2, rp, rx, None)
    \<and> as_Current st2 = StateCompleted \<and> map erase_ids (as_History st2) = map erase_ids echo_history)"
proof -
  obtain st p' x' err where r: "Run echo_planner echo_executor quiet_env (NewEngine echo_config [] 0) () 0 = (st, p', x', err)"
    by (metis prod_cases4)
  have "case Run echo_planner echo_executor quiet_env (NewEngine echo_config [] 0) () 0 of
     (st, _, _, err) \<Rightarrow> err = None \<and> as_Current st = StateCompleted \<and> length (as_History st) = 3 \<and>
       list_all (\<lambda>r. sr_Action r = None \<or> sr_Result r \<noteq> None) (as_History st)" by code_simp
  with r have h: "err = None" "as_Current st = StateCompleted" "length (as_History st) = 3"
    "\<forall>r \<in> set (as_History st). sr_Action r \<noteq> None \<longrightarrow> sr_Result r \<noteq> None" by (auto simp: list_all_iff)
  have "quiet quiet_env" by (simp add: quiet_def quiet_env_def)
  from replay_reproduces_run[OF r[unfolded h(1)] h(2,4) this] h(3) r show ?thesis by (simp add: echo_history_def)
qed

text \<open>
  An asynchronous delegation that succeeds cannot be looked up: with the identifier that
  \<open>DelegateToAgentAsync\<close> returned, \<open>GetDelegationResult\<close> reports that there is no such result, because
  the result is stored under another one.
\<close>

theorem async_result_not_found:
  assumes "DelegateToAgent plan exec env unix' t0 t1 agentName goal ctx results p x = (results', p', x', result, None)"
    and "map_of results (DelegateToAgentAsync agentName unix) = None" "0 \<le> unix" "0 \<le> unix'"
  shows "asyncBody plan exec env unix' t0 t1 (DelegateToAgentAsync agentName unix) agentName goal ctx results p x = (results', p', x')
    \<and> GetDelegationResult results' (DelegateToAgentAsync agentName unix) =
        Inl (Errorf (''delegation result not found for run ID: '' @ DelegateToAgentAsync agentName unix))
    \<and> GetDelegationResult results' (delegatedID agentName unix') = Inr result"
  using DelegateToAgent_result(2)[OF assms(1)] async_id_differs[OF assms(3,4)] assms(1,2)
  by (simp add: asyncBody_def GetDelegationResult_def)

definition echo_delegation :: "delegations \<times> unit \<times> nat \<times> DelegationResult \<times> gerror option" where
  "echo_delegation = DelegateToAgent echo_planner echo_executor quiet_env 7 0 1 ''a'' ''g'' [] [] () 0"

theorem async_result_not_found_witness:
  "GetDelegationResult (fst echo_delegation) (DelegateToAgentAsync ''a'' 7) =
     Inl (Errorf (''delegation result not found for run ID: '' @ DelegateToAgentAsync ''a'' 7))"
proof -
  obtain rs p' x' result err where d: "echo_delegation = (rs, p', x', result, err)" by (metis prod_cases5)
  have "err = snd (snd (snd (snd echo_delegation)))" unfolding d by simp
  also have "\<dots> = None" by code_simp
  finally have "err = None" .
  with d async_result_not_found[of echo_planner echo_executor quiet_env 7 0 1 "''a''" "''g''" "[]" "[]" "()" 0 rs p' x' result 7]
  show ?thesis by (simp add: echo_delegation_def)
qed

text \<open>
  \<open>CancelDelegation\<close> never cancels anything: in every state of the results that delegations and
  cancellations can produce, it leaves them unchanged, because only results of finished runs are stored.
\<close>

theorem CancelDelegation_no_effect:
  assumes "delegated plan exec results"
  shows "fst (CancelDelegation results runID now) = results"
proof (cases "map_of results runID")
  case (Some r)
  with delegated_finished[OF assms] have "dr_State r \<in> {StateCompleted, StateFailed, StateInterrupted}"
    unfolding finished_results_def by blast
  with Some show ?thesis by (auto simp: CancelDelegation_def)
qed (simp add: CancelDelegation_def)

theorem CancelDelegation_no_effect_witness:
  "fst (CancelDelegation (fst echo_delegation) (delegatedID ''a'' 7) 9) = fst echo_delegation \<and>
   snd (CancelDelegation (fst echo_delegation) (delegatedID ''a'' 7) 9) = None"
proof (rule conjI)
  have "delegated echo_planner echo_executor (fst echo_delegation)"
    unfolding echo_delegation_def by (metis delegated.start delegated.delegate prod_cases5 fst_conv)
  then show "fst (CancelDelegation (fst echo_delegation) (delegatedID ''a'' 7) 9) = fst echo_delegation"
    by (rule CancelDelegation_no_effect)
qed code_simp

text \<open>
  Autonomy levels are ordered: between \<open>AutonomyManual\<close> and \<open>AutonomyUnrestricted\<close>, raising the
  level never adds an approval, a level outside the range asks for approval and keeps the policy.
\<close>

theorem RequiresApproval_antitone:
  "(0 \<le> i \<and> i \<le> j \<and> j \<le> 4 \<and> RequiresApproval j pol risk \<longrightarrow> RequiresApproval i pol risk)
   \<and> (i \<notin> {0..4} \<longrightarrow> RequiresApproval i pol risk \<and> EnforcesPolicy i)"
  by (auto simp: RequiresApproval_def EnforcesPolicy_def)

theorem RequiresApproval_antitone_witness:
  "RequiresApproval 1 False (3/5) \<and> \<not> RequiresApproval 3 False (3/5) \<and> RequiresApproval 0 False (3/5)"
  using RequiresApproval_antitone[of 0 1 False "3/5"] by (simp add: RequiresApproval_def)

end
