(* ===== verification/Policy_Engine.thy ===== *)
theory Policy_Engine
  imports Agent_Runtime
begin

text \<open>
  Policy enforcement: rules and the engine that evaluates them (\<open>pkg/policy/rules.go\<close>, \<open>engine.go\<close>,
  \<open>cel.go\<close>, \<open>risk.go\<close>, \<open>approval.go\<close>), the tool registry (\<open>pkg/tool/registry.go\<close>) and the executor that
  puts the policy in front of the tools (\<open>pkg/tool/policy_executor.go\<close>). The CEL library is a
  parameter: \<open>cel_eval\<close> compiles and evaluates an expression against the variables, \<open>cel_type\<close> names
  the type of a value.
\<close>

section \<open>Rules and the engine\<close>

record MatchSpec =
  ms_Tool :: string
  ms_Condition :: string
  ms_Environment :: string
  ms_RiskScore :: string

record Rule =
  rule_Name :: string
  rule_Match :: MatchSpec
  rule_Action :: string
  rule_Message :: string
  rule_Approvers :: "string list"

record PolicyConfig =
  pc_Version :: string
  pc_Rules :: "Rule list"

definition ActionAllow :: string where "ActionAllow = ''allow''"
definition ActionDeny :: string where "ActionDeny = ''deny''"
definition ActionRequireApproval :: string where "ActionRequireApproval = ''require_approval''"

record EvalContext =
  ctx_Tool :: string
  ctx_Input :: "any smap"
  ctx_Environment :: string
  ctx_RiskScore :: rat

record cel_lib =
  cel_eval :: "string \<Rightarrow> any smap \<Rightarrow> gerror + any"
  cel_type :: "any \<Rightarrow> string"

definition Eval :: "cel_lib \<Rightarrow> string \<Rightarrow> EvalContext \<Rightarrow> gerror + any" where
  "Eval cel expr ctx =
     (if expr = [] then Inr (ABool True)
      else (let inputTo = (case map_of (ctx_Input ctx) ''to'' of Some (AStr t) \<Rightarrow> t | _ \<Rightarrow> [])
            in cel_eval cel expr
                 [(''tool'', AStr (ctx_Tool ctx)), (''input'', AMap (ctx_Input ctx)),
                  (''environment'', AStr (ctx_Environment ctx)), (''risk_score'', AFloat (ctx_RiskScore ctx)),
                  (''input.to'', AStr inputTo)]))"

definition EvalBool :: "cel_lib \<Rightarrow> string \<Rightarrow> EvalContext \<Rightarrow> gerror + bool" where
  "EvalBool cel expr ctx =
     (case Eval cel expr ctx of
        Inl err \<Rightarrow> Inl err
      | Inr (ABool b) \<Rightarrow> Inr b
      | Inr v \<Rightarrow> Inl (Errorf (''expected bool, got '' @ cel_type cel v)))"

record CheckResult =
  cr_Allow :: bool
  cr_Deny :: bool
  cr_Message :: string
  cr_RequireApproval :: bool
  cr_Approvers :: "string list"

definition rule_matches :: "cel_lib \<Rightarrow> Rule \<Rightarrow> EvalContext \<Rightarrow> bool" where
  "rule_matches cel r ctx =
     (let m = rule_Match r
      in if ms_Tool m \<noteq> [] \<and> ms_Tool m \<noteq> ctx_Tool ctx then False
         else if ms_Environment m \<noteq> [] \<and> ms_Environment m \<noteq> ctx_Environment ctx then False
         else if ms_Condition m \<noteq> [] \<and>
           (case EvalBool cel (ms_Condition m) ctx of Inl err \<Rightarrow> True | Inr ok \<Rightarrow> \<not> ok) then False
         else if ms_RiskScore m \<noteq> [] \<and>
           (case EvalBool cel (''risk_score '' @ ms_RiskScore m) ctx of Inl err \<Rightarrow> True | Inr ok \<Rightarrow> \<not> ok) then False
         else True)"

definition rule_result :: "Rule \<Rightarrow> CheckResult" where
  "rule_result r =
     (if rule_Action r = ActionDeny
      then \<lparr>cr_Allow = False, cr_Deny = True, cr_Message = rule_Message r, cr_RequireApproval = False, cr_Approvers = []\<rparr>
      else if rule_Action r = ActionRequireApproval
      then \<lparr>cr_Allow = True, cr_Deny = False, cr_Message = [], cr_RequireApproval = True, cr_Approvers = rule_Approvers r\<rparr>
      else \<lparr>cr_Allow = True, cr_Deny = False, cr_Message = [], cr_RequireApproval = False, cr_Approvers = []\<rparr>)"

fun checkRules :: "cel_lib \<Rightarrow> Rule list \<Rightarrow> EvalContext \<Rightarrow> CheckResult" where
  "checkRules cel [] ctx =
     \<lparr>cr_Allow = True, cr_Deny = False, cr_Message = [], cr_RequireApproval = False, cr_Approvers = []\<rparr>"
| "checkRules cel (r # rs) ctx = (if \<not> rule_matches cel r ctx then checkRules cel rs ctx else rule_result r)"

definition Check :: "cel_lib \<Rightarrow> PolicyConfig \<Rightarrow> EvalContext \<Rightarrow> CheckResult" where
  "Check cel config ctx = checkRules cel (pc_Rules config) ctx"

section \<open>Risk scores and the approval gate\<close>

type_synonym risk_scores = "rat smap"

definition NewDefaultRiskScorer :: risk_scores where
  "NewDefaultRiskScorer = [(''http_request'', 2/5), (''file_write'', 7/10), (''shell_exec'', 9/10), (''db_write'', 4/5), (''send_email'', 1/2)]"

definition Score :: "risk_scores \<Rightarrow> string \<Rightarrow> any smap \<Rightarrow> rat" where
  "Score toolScores tool input = (case map_of toolScores tool of Some s \<Rightarrow> s | None \<Rightarrow> 3/10)"

text \<open>The callback that asks a human, a field of \<open>ApprovalGate\<close> that may be nil.\<close>

type_synonym approval_callback = "string \<Rightarrow> any smap \<Rightarrow> string list \<Rightarrow> bool \<times> gerror option"

definition RequestApproval :: "approval_callback option \<Rightarrow> string \<Rightarrow> any smap \<Rightarrow> string list \<Rightarrow> bool \<times> gerror option" where
  "RequestApproval gate tool input approvers =
     (case gate of None \<Rightarrow> (False, None) | Some cb \<Rightarrow> cb tool input approvers)"

section \<open>The tool registry\<close>

text \<open>The interface \<open>Tool\<close>: the schema is the JSON text, empty when \<open>InputSchema\<close> fails; permissions are read by nobody.\<close>

record Tool =
  tool_Name :: string
  tool_Version :: string
  tool_Description :: string
  tool_InputSchema :: string
  tool_Execute :: "any smap \<Rightarrow> (any smap option) \<times> gerror option"

type_synonym Registry = "Tool smap"

definition toolKey :: "string \<Rightarrow> string \<Rightarrow> string" where
  "toolKey name version = name @ ''@'' @ version"

definition NewRegistry :: Registry where "NewRegistry = []"

definition Register :: "Tool \<Rightarrow> Registry \<Rightarrow> Registry" where
  "Register t r = AList.update (toolKey (tool_Name t) (tool_Version t)) t r"

definition reg_Get :: "Registry \<Rightarrow> string \<Rightarrow> string \<Rightarrow> Tool option" where
  "reg_Get r name version = map_of r (toolKey name version)"

definition reg_List :: "Registry \<Rightarrow> string list" where
  "reg_List r = keys r"

text \<open>\<open>duration\<close> is what the clock measures around the call.\<close>

definition reg_Execute :: "Registry \<Rightarrow> int \<Rightarrow> string \<Rightarrow> string \<Rightarrow> any smap \<Rightarrow> ToolResult option \<times> gerror option" where
  "reg_Execute r duration tool version input =
     (case reg_Get r tool version of
        None \<Rightarrow> (Some \<lparr>tr_ToolID = [], tr_Output = [], tr_Error = ''tool not found: '' @ toolKey tool version, tr_Duration = 0\<rparr>, None)
      | Some t \<Rightarrow>
          (case tool_Execute t input of
             (output, Some err) \<Rightarrow>
               (Some \<lparr>tr_ToolID = toolKey tool version, tr_Output = [], tr_Error = error_string err, tr_Duration = duration\<rparr>, Some err)
           | (output, None) \<Rightarrow>
               (Some \<lparr>tr_ToolID = toolKey tool version, tr_Output = (case output of None \<Rightarrow> [] | Some out \<Rightarrow> out),
                      tr_Error = [], tr_Duration = duration\<rparr>, None)))"

section \<open>The policy executor\<close>

record PolicyExecutor =
  pe_Policy :: "PolicyConfig option"
  pe_RiskScorer :: "(string \<Rightarrow> any smap \<Rightarrow> rat) option"
  pe_Approval :: "approval_callback option option"
  pe_Environment :: string

definition policyContext :: "PolicyExecutor \<Rightarrow> string \<Rightarrow> any smap \<Rightarrow> EvalContext" where
  "policyContext e tool input =
     \<lparr>ctx_Tool = tool, ctx_Input = input, ctx_Environment = pe_Environment e,
      ctx_RiskScore = (case pe_RiskScorer e of None \<Rightarrow> 3/10 | Some score \<Rightarrow> score tool input)\<rparr>"

definition refusal :: "string \<Rightarrow> string \<Rightarrow> string \<Rightarrow> ToolResult option" where
  "refusal tool version msg = Some \<lparr>tr_ToolID = toolKey tool version, tr_Output = [], tr_Error = msg, tr_Duration = 0\<rparr>"

definition pe_Execute :: "cel_lib \<Rightarrow> PolicyExecutor \<Rightarrow> 'x executor \<Rightarrow> 'x executor" where
  "pe_Execute cel e inner x ctx tool version input =
     (case pe_Policy e of
        None \<Rightarrow> inner x ctx tool version input
      | Some policy \<Rightarrow>
          (let res = Check cel policy (policyContext e tool input)
           in if cr_Deny res
              then (x, refusal tool version (''policy denied: '' @ cr_Message res), Some (Errorf ''policy denied''))
              else if cr_RequireApproval res \<and> pe_Approval e \<noteq> None
              then (case RequestApproval (Option.bind (pe_Approval e) (\<lambda>g. g)) tool input (cr_Approvers res) of
                      (ok, Some err) \<Rightarrow> (x, refusal tool version (error_string err), Some err)
                    | (ok, None) \<Rightarrow>
                        if \<not> ok then (x, refusal tool version ''approval denied'', Some (Errorf ''approval denied''))
                        else inner x ctx tool version input)
              else inner x ctx tool version input))"

section \<open>First match\<close>

lemma checkRules_skip: "\<forall>r \<in> set rs. \<not> rule_matches cel r ctx \<Longrightarrow> checkRules cel (rs @ rs') ctx = checkRules cel rs' ctx"
  by (induction rs) auto

lemma find_first: "\<forall>q \<in> set pre. \<not> P q \<Longrightarrow> P r \<Longrightarrow> find P (pre @ r # post) = Some r"
  by (induction pre) auto

lemma checkRules_cases:
  obtains (default) "\<forall>r \<in> set rs. \<not> rule_matches cel r ctx" "checkRules cel rs ctx = checkRules cel [] ctx"
  | (first) pre r post where "rs = pre @ r # post" "\<forall>q \<in> set pre. \<not> rule_matches cel q ctx"
      "rule_matches cel r ctx" "checkRules cel rs ctx = rule_result r"
proof (cases "\<exists>r \<in> set rs. rule_matches cel r ctx")
  case True
  from split_list_first_prop[OF this] obtain pre r post where s: "rs = pre @ r # post"
    "rule_matches cel r ctx" "\<forall>q \<in> set pre. \<not> rule_matches cel q ctx" by auto
  with checkRules_skip[of pre cel ctx "r # post"] first show thesis by auto
next
  case False
  with checkRules_skip[of rs cel ctx "[]"] default show thesis by auto
qed

lemma rule_result_deny [simp]: "cr_Deny (rule_result r) \<longleftrightarrow> rule_Action r = ActionDeny"
  by (auto simp: rule_result_def ActionDeny_def ActionRequireApproval_def)

lemma pe_Execute_denied:
  assumes "pe_Policy e = Some policy" "cr_Deny (Check cel policy (policyContext e tool input))"
  shows "fst (pe_Execute cel e inner x ctx tool version input) = x"
    and "snd (snd (pe_Execute cel e inner x ctx tool version input)) \<noteq> None"
  using assms by (simp_all add: pe_Execute_def)

text \<open>The policy executor either leaves the inner executor alone or hands the call through.\<close>

lemma pe_Execute_inner: "fst (pe_Execute cel e inner x ctx tool version input) \<in> {x, fst (inner x ctx tool version input)}"
  by (auto simp: pe_Execute_def Let_def split: option.split prod.split)

section \<open>Invariants of a tool executor along a run\<close>

lemma ExecuteStep_inv:
  assumes "\<And>x c t v i. P x \<Longrightarrow> P (fst (exec x c t v i))" "P x" "ExecuteStep plan exec env input p x = (p1, x1, r, err)"
  shows "P x1"
proof (cases "plan p (re_ctxPlan env (si_StepNum input)) input")
  case (Pair p2 act)
  note a = assms(1)[OF assms(2)]
  show ?thesis
  proof (cases act)
    case (Inl e)
    with Pair assms(2,3) show ?thesis by (auto simp: ExecuteStep_def Let_def)
  next
    case (Inr planned)
    obtain x2 out ee where ex: "exec x (re_ctxExec env (si_StepNum input)) (pa_Tool planned) (pa_Version planned) (json_norm_map (pa_Input planned)) = (x2, out, ee)"
      by (metis prod_cases3)
    with a have "P x2" by (metis fst_conv)
    with Pair Inr ex assms(2,3) show ?thesis
      by (auto simp: ExecuteStep_def Let_def split: if_splits option.splits)
  qed
qed

lemma runLoop_inv:
  assumes "\<And>x c t v i. P x \<Longrightarrow> P (fst (exec x c t v i))" "P x" "runLoop plan exec env st p x = (st', p', x', err)"
  shows "P x'"
  by (rule runLoop_rule[where I = "\<lambda>st x. P x" and Q = "\<lambda>st x err. P x", OF _ _ _ _ _ assms(2,3)])
     (blast intro: ExecuteStep_inv[of P exec, OF assms(1)])+

section \<open>Scorers\<close>

text \<open>The contract of \<open>RiskScorer\<close>: a score is between 0 and 1, so the context of a check is too.\<close>

locale risk_scorer =
  fixes score :: "string \<Rightarrow> any smap \<Rightarrow> rat"
  assumes score_range: "0 \<le> score tool input \<and> score tool input \<le> 1"
begin

lemma context_range:
  "pe_RiskScorer e = Some score \<or> pe_RiskScorer e = None \<Longrightarrow>
     0 \<le> ctx_RiskScore (policyContext e tool input) \<and> ctx_RiskScore (policyContext e tool input) \<le> 1"
  using score_range by (auto simp: policyContext_def)

end

interpretation default_scorer: risk_scorer "Score NewDefaultRiskScorer"
  by unfold_locales (simp add: Score_def NewDefaultRiskScorer_def)

section \<open>The approval gate\<close>

definition gatePermits :: "cel_lib \<Rightarrow> PolicyConfig \<Rightarrow> approval_callback option \<Rightarrow> EvalContext \<Rightarrow> string \<Rightarrow> any smap \<Rightarrow> bool" where
  "gatePermits cel policy gate ctx tool input =
     (let res = Check cel policy ctx
      in \<not> cr_Deny res \<and> (cr_RequireApproval res \<longrightarrow> RequestApproval gate tool input (cr_Approvers res) = (True, None)))"

lemma pe_Execute_gated:
  assumes "pe_Policy e = Some policy" "pe_Approval e = Some gate"
  shows "(\<exists>res err. pe_Execute cel e inner x ctx tool version input = (x, res, Some err)) \<or>
    gatePermits cel policy gate (policyContext e tool input) tool input \<and>
    pe_Execute cel e inner x ctx tool version input = inner x ctx tool version input"
  using assms by (auto simp: pe_Execute_def gatePermits_def Let_def split: prod.split option.split)

section \<open>Properties\<close>

definition no_cel :: cel_lib where
  "no_cel = \<lparr>cel_eval = (\<lambda>expr vars. Inl (Errorf ''undeclared reference'')), cel_type = (\<lambda>v. ''types.Unknown'')\<rparr>"

definition deny_rule :: "string \<Rightarrow> string \<Rightarrow> Rule" where
  "deny_rule tool condition = \<lparr>rule_Name = ''no'', rule_Match = \<lparr>ms_Tool = tool, ms_Condition = condition, ms_Environment = [], ms_RiskScore = []\<rparr>,
     rule_Action = ActionDeny, rule_Message = ''forbidden'', rule_Approvers = []\<rparr>"

definition example_context :: "string \<Rightarrow> EvalContext" where
  "example_context tool = \<lparr>ctx_Tool = tool, ctx_Input = [], ctx_Environment = ''prod'', ctx_RiskScore = 9/10\<rparr>"

text \<open>
  \<open>Check\<close> is first-match with a default of allow: it denies exactly when some rule with action
  \<open>deny\<close> matches and no rule before it does, it asks for approval exactly when the first matching rule
  says so, and never both denies and allows.
\<close>

theorem Check_first_match:
  "(cr_Deny (Check cel config ctx) \<longleftrightarrow>
      (\<exists>pre r post. pc_Rules config = pre @ r # post \<and> (\<forall>q \<in> set pre. \<not> rule_matches cel q ctx) \<and>
         rule_matches cel r ctx \<and> rule_Action r = ActionDeny))
   \<and> (cr_RequireApproval (Check cel config ctx) \<longleftrightarrow>
      (\<exists>pre r post. pc_Rules config = pre @ r # post \<and> (\<forall>q \<in> set pre. \<not> rule_matches cel q ctx) \<and>
         rule_matches cel r ctx \<and> rule_Action r = ActionRequireApproval))
   \<and> cr_Allow (Check cel config ctx) = (\<not> cr_Deny (Check cel config ctx))"
proof -
  let ?rs = "pc_Rules config"
  let ?first = "\<lambda>pre r post. ?rs = pre @ r # post \<and> (\<forall>q \<in> set pre. \<not> rule_matches cel q ctx) \<and> rule_matches cel r ctx"
  show ?thesis
  proof (cases rule: checkRules_cases[of ?rs cel ctx])
    case default
    then show ?thesis by (auto simp: Check_def)
  next
    case (first pre r post)
    have uniq: "r' = r" if "?first pre' r' post'" for pre' r' post'
    proof -
      from that first(1-3) have "find (\<lambda>q. rule_matches cel q ctx) ?rs = Some r" "find (\<lambda>q. rule_matches cel q ctx) ?rs = Some r'"
        using find_first[of pre "\<lambda>q. rule_matches cel q ctx" r post] find_first[of pre' "\<lambda>q. rule_matches cel q ctx" r' post'] by simp_all
      then show ?thesis by simp
    qed
    have one: "(\<exists>pre r post. ?rs = pre @ r # post \<and> (\<forall>q \<in> set pre. \<not> rule_matches cel q ctx) \<and> rule_matches cel r ctx \<and> rule_Action r = act)
      \<longleftrightarrow> rule_Action r = act" for act
      using uniq first(1-3) by blast
    have "cr_RequireApproval (rule_result r) \<longleftrightarrow> rule_Action r = ActionRequireApproval"
      "cr_Allow (rule_result r) = (\<not> cr_Deny (rule_result r))"
      by (auto simp: rule_result_def ActionDeny_def ActionRequireApproval_def)
    then show ?thesis unfolding Check_def first(4) one by simp
  qed
qed

theorem Check_first_match_witness:
  "\<not> cr_Deny (Check no_cel \<lparr>pc_Version = ''1'', pc_Rules = [deny_rule ''a'' [], deny_rule ''b'' []]\<rparr> (example_context ''c''))
   \<and> cr_Allow (Check no_cel \<lparr>pc_Version = ''1'', pc_Rules = [deny_rule ''a'' [], deny_rule ''b'' []]\<rparr> (example_context ''c''))"
  using Check_first_match[of no_cel "\<lparr>pc_Version = ''1'', pc_Rules = [deny_rule ''a'' [], deny_rule ''b'' []]\<rparr>" "example_context ''c''"]
  by (simp add: Check_def rule_matches_def deny_rule_def example_context_def)

text \<open>
  A rule whose condition cannot be evaluated does not match, so a \<open>deny\<close> rule with a faulty CEL
  condition lets the call through: with such a rule alone, \<open>Check\<close> allows everything.
\<close>

theorem deny_rule_fails_open:
  assumes "ms_Condition (rule_Match r) \<noteq> []" "EvalBool cel (ms_Condition (rule_Match r)) ctx = Inl err"
  shows "Check cel \<lparr>pc_Version = v, pc_Rules = r # rs\<rparr> ctx = Check cel \<lparr>pc_Version = v, pc_Rules = rs\<rparr> ctx"
  using assms by (simp add: Check_def rule_matches_def Let_def)

theorem deny_rule_fails_open_witness:
  "cr_Allow (Check no_cel \<lparr>pc_Version = ''1'', pc_Rules = [deny_rule ''shell_exec'' ''inptu.x == 1'']\<rparr> (example_context ''shell_exec''))
   \<and> cr_Deny (Check no_cel \<lparr>pc_Version = ''1'', pc_Rules = [deny_rule ''shell_exec'' []]\<rparr> (example_context ''shell_exec''))"
  using deny_rule_fails_open[of "deny_rule ''shell_exec'' ''inptu.x == 1''" no_cel "example_context ''shell_exec''" _ "''1''" "[]"]
  by (simp add: deny_rule_def no_cel_def example_context_def Check_def rule_matches_def rule_result_def EvalBool_def Eval_def)

text \<open>
  C13. A denied tool never runs, whatever the planner asks for: when the policy denies every call of a
  tool, a property of the tool executor's state that all other tools preserve holds after any run of the
  agent loop under the policy executor.
\<close>

theorem denied_tool_never_runs:
  assumes "pe_Policy e = Some policy" "\<And>input. cr_Deny (Check cel policy (policyContext e tool input))"
    and "\<And>x ctx t version input. t \<noteq> tool \<Longrightarrow> P x \<Longrightarrow> P (fst (inner x ctx t version input))"
    and "P x" "Run plan (pe_Execute cel e inner) env st p x = (st', p', x', err)"
  shows "P x'"
proof (rule runLoop_inv[of P "pe_Execute cel e inner" x plan env "st\<lparr>as_Current := StatePlanning\<rparr>" p st' p' x' err])
  show "P x" by (rule assms(4))
  show "runLoop plan (pe_Execute cel e inner) env (st\<lparr>as_Current := StatePlanning\<rparr>) p x = (st', p', x', err)"
    using assms(5) by (simp add: Run_def)
  show "P (fst (pe_Execute cel e inner y c t v i))" if "P y" for y c t v i
  proof (cases "t = tool")
    case True
    have "fst (pe_Execute cel e inner y c tool v i) = y" by (rule pe_Execute_denied(1)[OF assms(1) assms(2)])
    with True that show ?thesis by simp
  next
    case False
    with that assms(3)[OF False that] pe_Execute_inner[of cel e inner y c t v i] show ?thesis by auto
  qed
qed

definition guarded :: PolicyExecutor where
  "guarded = \<lparr>pe_Policy = Some \<lparr>pc_Version = ''1'', pc_Rules = [deny_rule ''echo'' []]\<rparr>, pe_RiskScorer = None, pe_Approval = None,
     pe_Environment = ''prod''\<rparr>"

text \<open>An executor that counts the calls of \<open>echo\<close>.\<close>

definition counting_executor :: "nat executor" where
  "counting_executor n ctx tool version input = (if tool = ''echo'' then n + 1 else n, None, None)"

theorem denied_tool_never_runs_witness:
  "case Run echo_planner (pe_Execute no_cel guarded counting_executor) quiet_env (NewEngine echo_config [] 0) () 0 of
     (st, _, calls, err) \<Rightarrow> calls = 0 \<and> as_Current st = StateFailed \<and> err = Some (Errorf ''policy denied'')"
proof -
  obtain st p' x' err where r: "Run echo_planner (pe_Execute no_cel guarded counting_executor) quiet_env (NewEngine echo_config [] 0) () 0 = (st, p', x', err)"
    by (metis prod_cases4)
  have "cr_Deny (Check no_cel \<lparr>pc_Version = ''1'', pc_Rules = [deny_rule ''echo'' []]\<rparr> (policyContext guarded ''echo'' input))" for input
    by (simp add: Check_def rule_matches_def deny_rule_def policyContext_def guarded_def)
  note denied = this
  have "x' = 0"
  proof (rule denied_tool_never_runs[where P = "\<lambda>n. n = 0", OF _ denied _ _ r])
    show "pe_Policy guarded = Some \<lparr>pc_Version = ''1'', pc_Rules = [deny_rule ''echo'' []]\<rparr>" by (simp add: guarded_def)
    show "fst (counting_executor x ctx t version input) = 0" if "t \<noteq> ''echo''" "x = 0" for x ctx t version input
      using that by (simp add: counting_executor_def)
  qed simp
  moreover have "case Run echo_planner (pe_Execute no_cel guarded counting_executor) quiet_env (NewEngine echo_config [] 0) () 0 of
     (st, _, calls, err) \<Rightarrow> as_Current st = StateFailed \<and> err = Some (Errorf ''policy denied'')" by code_simp
  ultimately show ?thesis using r by simp
qed

text \<open>
  C14. Behind a policy and an approval gate only permitted calls reach the tools, whatever the planner asks for: a call is permitted when the policy does not
  deny it and, where the policy requires approval, the gate grants it without an error (a gate without a callback grants nothing). A property of the tool
  executor's state that all permitted calls preserve holds after any run of the agent loop.
\<close>

theorem only_approved_calls_run:
  assumes "pe_Policy e = Some policy" "pe_Approval e = Some gate"
    and "\<And>x ctx t version input. gatePermits cel policy gate (policyContext e t input) t input \<Longrightarrow> P x \<Longrightarrow> P (fst (inner x ctx t version input))"
    and "P x" "Run plan (pe_Execute cel e inner) env st p x = (st', p', x', err)"
  shows "P x'"
proof (rule runLoop_inv[of P "pe_Execute cel e inner" x plan env "st\<lparr>as_Current := StatePlanning\<rparr>" p st' p' x' err])
  show "P x" by (rule assms(4))
  show "runLoop plan (pe_Execute cel e inner) env (st\<lparr>as_Current := StatePlanning\<rparr>) p x = (st', p', x', err)"
    using assms(5) by (simp add: Run_def)
  show "P (fst (pe_Execute cel e inner y c t v i))" if "P y" for y c t v i
    using pe_Execute_gated [OF assms(1,2), of cel inner y c t v i] assms(3) that by (metis fst_conv)
qed

definition approval_policy :: PolicyConfig where
  "approval_policy = \<lparr>pc_Version = ''1'', pc_Rules = [(deny_rule ''echo'' [])\<lparr>rule_Action := ActionRequireApproval\<rparr>]\<rparr>"

definition gated :: "approval_callback option \<Rightarrow> PolicyExecutor" where
  "gated gate = \<lparr>pe_Policy = Some approval_policy, pe_RiskScorer = Some (Score NewDefaultRiskScorer), pe_Approval = Some gate, pe_Environment = ''prod''\<rparr>"

theorem only_approved_calls_run_witness:
  "case Run echo_planner (pe_Execute no_cel (gated (Some (\<lambda>tool input approvers. (False, None)))) counting_executor) quiet_env (NewEngine echo_config [] 0) () 0 of
     (st, _, calls, err) \<Rightarrow> calls = 0 \<and> err = Some (Errorf ''approval denied'')"
proof -
  let ?gate = "Some (\<lambda>tool input approvers. (False, None)) :: approval_callback option"
  obtain st p' x' err where r: "Run echo_planner (pe_Execute no_cel (gated ?gate) counting_executor) quiet_env (NewEngine echo_config [] 0) () 0 = (st, p', x', err)"
    by (metis prod_cases4)
  have "cr_RequireApproval (Check no_cel approval_policy (policyContext (gated ?gate) ''echo'' input))" for input
    by (simp add: Check_def approval_policy_def deny_rule_def rule_matches_def rule_result_def policyContext_def ActionRequireApproval_def ActionDeny_def)
  then have refused: "\<not> gatePermits no_cel approval_policy ?gate (policyContext (gated ?gate) ''echo'' input) ''echo'' input" for input
    by (simp add: gatePermits_def RequestApproval_def Let_def)
  have "x' = 0"
  proof (rule only_approved_calls_run[where P = "\<lambda>n. n = 0", OF _ _ _ _ r])
    show "pe_Policy (gated ?gate) = Some approval_policy" "pe_Approval (gated ?gate) = Some ?gate" by (simp_all add: gated_def)
    show "fst (counting_executor x ctx t version input) = 0"
      if "gatePermits no_cel approval_policy ?gate (policyContext (gated ?gate) t input) t input" "x = 0" for x ctx t version input
      using that refused [of input] by (cases "t = ''echo''") (auto simp: counting_executor_def)
  qed simp
  moreover have "case Run echo_planner (pe_Execute no_cel (gated ?gate) counting_executor) quiet_env (NewEngine echo_config [] 0) () 0 of
     (st, _, calls, err) \<Rightarrow> err = Some (Errorf ''approval denied'')" by code_simp
  ultimately show ?thesis using r by simp
qed

text \<open>Without a gate the requirement of an approval has no effect: the call goes straight through.\<close>

lemma approval_without_gate:
  "pe_Policy e = Some policy \<Longrightarrow> pe_Approval e = None \<Longrightarrow> \<not> cr_Deny (Check cel policy (policyContext e tool input)) \<Longrightarrow>
   pe_Execute cel e inner x ctx tool version input = inner x ctx tool version input"
  by (simp add: pe_Execute_def)

end
