(* ===== verification/Policy_Versions.thy ===== *)
theory Policy_Versions
  imports Go_Prelude
begin

text \<open>
  Versioned policies, \<open>pkg/policy/version.go\<close> and \<open>version_store.go\<close>: the table \<open>policy_versions\<close> with its
  two uniqueness constraints (primary key \<open>id\<close>, \<open>UNIQUE(policy_name, version)\<close>), and the content files
  below \<open>fileBase\<close>. The answers of the database and of the file system, identifiers and times are
  arguments; a zero time is 0; \<open>join\<close> is \<open>filepath.Join\<close>. Every operation is one step: \<open>SetActiveVersion\<close> is a transaction, whereas
  \<open>SaveVersion\<close> issues its deactivation and its insert one after the other without one, and what a second writer does between the two is not modelled.
\<close>

record PolicyVersion =
  pv_ID :: string
  pv_PolicyName :: string
  pv_Version :: string
  pv_Content :: string
  pv_Format :: string
  pv_Author :: string
  pv_Changelog :: string
  pv_EffectiveAt :: int
  pv_CreatedAt :: int
  pv_Supersedes :: string
  pv_Active :: bool
  pv_Metadata :: "string smap"

record PolicyVersionMetadata =
  pm_PolicyName :: string
  pm_Version :: string
  pm_Author :: string
  pm_Changelog :: string
  pm_EffectiveAt :: int
  pm_CreatedAt :: int
  pm_Active :: bool

record VersionStore =
  vs_rows :: "PolicyVersion list"
  vs_fileBase :: string
  vs_files :: "string smap"

definition CompareVersions :: "string \<Rightarrow> string \<Rightarrow> int" where
  "CompareVersions v1 v2 = (if v1 = v2 then 0 else if v1 < v2 then - 1 else 1)"

definition NewVersionStore :: "gerror option \<Rightarrow> string \<Rightarrow> gerror + VersionStore" where
  "NewVersionStore mkdir fileBase =
     (case (if fileBase \<noteq> [] then mkdir else None) of
        Some err \<Rightarrow> Inl (Wrap ''create policy storage dir: '' err)
      | None \<Rightarrow> Inr \<lparr>vs_rows = [], vs_fileBase = fileBase, vs_files = []\<rparr>)"

definition deactivate :: "string \<Rightarrow> PolicyVersion list \<Rightarrow> PolicyVersion list" where
  "deactivate name rows = map (\<lambda>r. if pv_PolicyName r = name then r\<lparr>pv_Active := False\<rparr> else r) rows"

definition deactivateVersions :: "gerror option \<Rightarrow> string \<Rightarrow> VersionStore \<Rightarrow> VersionStore \<times> gerror option" where
  "deactivateVersions db name s =
     (case db of Some err \<Rightarrow> (s, Some err) | None \<Rightarrow> (s\<lparr>vs_rows := deactivate name (vs_rows s)\<rparr>, None))"

text \<open>\<open>INSERT INTO policy_versions\<close>: the driver's error, or that of a violated constraint.\<close>

definition insert_error :: "gerror option \<Rightarrow> PolicyVersion \<Rightarrow> PolicyVersion list \<Rightarrow> gerror option" where
  "insert_error db v rows =
     (case db of
        Some err \<Rightarrow> Some err
      | None \<Rightarrow>
          if list_ex (\<lambda>r. pv_ID r = pv_ID v) rows then Some (Errorf ''UNIQUE constraint failed: policy_versions.id'')
          else if list_ex (\<lambda>r. pv_PolicyName r = pv_PolicyName v \<and> pv_Version r = pv_Version v) rows
          then Some (Errorf ''UNIQUE constraint failed: policy_versions.policy_name, policy_versions.version'')
          else None)"

definition contentPath :: "(string list \<Rightarrow> string) \<Rightarrow> VersionStore \<Rightarrow> string \<Rightarrow> string \<Rightarrow> string" where
  "contentPath join s name version = join [vs_fileBase s, name, version @ ''.yaml'']"

record save_answers =
  sv_uuid :: string
  sv_now :: int
  sv_deactivate :: "gerror option"
  sv_mkdir :: "gerror option"
  sv_write :: "gerror option"
  sv_insert :: "gerror option"

definition completeVersion :: "save_answers \<Rightarrow> PolicyVersion \<Rightarrow> PolicyVersion" where
  "completeVersion a v =
     (let v1 = (if pv_ID v = [] then v\<lparr>pv_ID := sv_uuid a\<rparr> else v);
          v2 = (if pv_CreatedAt v1 = 0 then v1\<lparr>pv_CreatedAt := sv_now a\<rparr> else v1)
      in if pv_EffectiveAt v2 = 0 then v2\<lparr>pv_EffectiveAt := pv_CreatedAt v2\<rparr> else v2)"

definition writeContent ::
    "(string list \<Rightarrow> string) \<Rightarrow> save_answers \<Rightarrow> PolicyVersion \<Rightarrow> VersionStore \<Rightarrow> VersionStore \<times> gerror option" where
  "writeContent join a v s =
     (if vs_fileBase s = [] then (s, None)
      else (case sv_mkdir a of
              Some err \<Rightarrow> (s, Some (Wrap ''create policy dir: '' err))
            | None \<Rightarrow>
                (case sv_write a of
                   Some err \<Rightarrow> (s, Some (Wrap ''write policy file: '' err))
                 | None \<Rightarrow> (s\<lparr>vs_files := AList.update (contentPath join s (pv_PolicyName v) (pv_Version v)) (pv_Content v) (vs_files s)\<rparr>, None))))"

definition SaveVersion ::
    "(string list \<Rightarrow> string) \<Rightarrow> save_answers \<Rightarrow> PolicyVersion \<Rightarrow> VersionStore \<Rightarrow> VersionStore \<times> gerror option" where
  "SaveVersion join a version s =
     (let v = completeVersion a version
      in case (if pv_Active v then deactivateVersions (sv_deactivate a) (pv_PolicyName v) s else (s, None)) of
           (s1, Some err) \<Rightarrow> (s1, Some (Wrap ''deactivate previous versions: '' err))
         | (s1, None) \<Rightarrow>
             (case writeContent join a v s1 of
                (s2, Some err) \<Rightarrow> (s2, Some err)
              | (s2, None) \<Rightarrow>
                  (case insert_error (sv_insert a) v (vs_rows s2) of
                     Some err \<Rightarrow> (s2, Some (Wrap ''insert policy version: '' err))
                   | None \<Rightarrow> (s2\<lparr>vs_rows := vs_rows s2 @ [v]\<rparr>, None))))"

definition GetVersion :: "gerror option \<Rightarrow> VersionStore \<Rightarrow> string \<Rightarrow> string \<Rightarrow> gerror + PolicyVersion" where
  "GetVersion db s name version =
     (case db of
        Some err \<Rightarrow> Inl (Wrap ''query policy version: '' err)
      | None \<Rightarrow>
          (case filter (\<lambda>r. pv_PolicyName r = name \<and> pv_Version r = version) (vs_rows s) of
             [] \<Rightarrow> Inl (Errorf (''policy version not found: '' @ name @ ''@'' @ version))
           | r # _ \<Rightarrow> Inr r))"

definition GetActiveVersion :: "gerror option \<Rightarrow> VersionStore \<Rightarrow> string \<Rightarrow> gerror + PolicyVersion" where
  "GetActiveVersion db s name =
     (case db of
        Some err \<Rightarrow> Inl (Wrap ''query active policy: '' err)
      | None \<Rightarrow>
          (case sort_key (\<lambda>r. - pv_CreatedAt r) (filter (\<lambda>r. pv_PolicyName r = name \<and> pv_Active r) (vs_rows s)) of
             [] \<Rightarrow> Inl (Errorf (''no active policy found: '' @ name))
           | r # _ \<Rightarrow> Inr r))"

definition ListVersions :: "gerror option \<Rightarrow> VersionStore \<Rightarrow> string \<Rightarrow> gerror + PolicyVersionMetadata list" where
  "ListVersions db s name =
     (case db of
        Some err \<Rightarrow> Inl (Wrap ''query policy versions: '' err)
      | None \<Rightarrow> Inr (map (\<lambda>r. \<lparr>pm_PolicyName = pv_PolicyName r, pm_Version = pv_Version r, pm_Author = pv_Author r,
                  pm_Changelog = pv_Changelog r, pm_EffectiveAt = pv_EffectiveAt r, pm_CreatedAt = pv_CreatedAt r,
                  pm_Active = pv_Active r\<rparr>)
                (sort_key (\<lambda>r. - pv_CreatedAt r) (filter (\<lambda>r. pv_PolicyName r = name) (vs_rows s)))))"

definition ListPolicies :: "gerror option \<Rightarrow> VersionStore \<Rightarrow> gerror + string list" where
  "ListPolicies db s =
     (case db of
        Some err \<Rightarrow> Inl (Wrap ''query policies: '' err)
      | None \<Rightarrow> Inr (sort (remdups (map pv_PolicyName (vs_rows s)))))"

text \<open>
  One transaction: every error, that of the commit included, rolls it back. The five answers are those
  of \<open>BeginTx\<close>, the two updates, \<open>RowsAffected\<close> and \<open>Commit\<close>.
\<close>

definition activate :: "string \<Rightarrow> string \<Rightarrow> PolicyVersion list \<Rightarrow> PolicyVersion list" where
  "activate name version rows =
     map (\<lambda>r. if pv_PolicyName r = name \<and> pv_Version r = version then r\<lparr>pv_Active := True\<rparr> else r) rows"

definition SetActiveVersion ::
    "gerror option \<Rightarrow> gerror option \<Rightarrow> gerror option \<Rightarrow> gerror option \<Rightarrow> gerror option \<Rightarrow>
     VersionStore \<Rightarrow> string \<Rightarrow> string \<Rightarrow> VersionStore \<times> gerror option" where
  "SetActiveVersion eb e1 e2 er ec s name version =
     (case eb of Some err \<Rightarrow> (s, Some (Wrap ''begin transaction: '' err)) | None \<Rightarrow>
     (case e1 of Some err \<Rightarrow> (s, Some (Wrap ''deactivate versions: '' err)) | None \<Rightarrow>
     (case e2 of Some err \<Rightarrow> (s, Some (Wrap ''activate version: '' err)) | None \<Rightarrow>
     (case er of Some err \<Rightarrow> (s, Some (Wrap ''check rows affected: '' err)) | None \<Rightarrow>
        if filter (\<lambda>r. pv_PolicyName r = name \<and> pv_Version r = version) (vs_rows s) = []
        then (s, Some (Errorf (''policy version not found: '' @ name @ ''@'' @ version)))
        else (case ec of
                Some err \<Rightarrow> (s, Some err)
              | None \<Rightarrow> (s\<lparr>vs_rows := activate name version (deactivate name (vs_rows s))\<rparr>, None))))))"

definition DeleteVersion ::
    "(string list \<Rightarrow> string) \<Rightarrow> gerror option \<Rightarrow> gerror option \<Rightarrow> gerror option \<Rightarrow>
     VersionStore \<Rightarrow> string \<Rightarrow> string \<Rightarrow> VersionStore \<times> gerror option" where
  "DeleteVersion join eq ed er s name version =
     (if (case GetActiveVersion eq s name of Inr active \<Rightarrow> pv_Version active = version | Inl err \<Rightarrow> False)
      then (s, Some (Errorf ''cannot delete active policy version''))
      else (case ed of Some err \<Rightarrow> (s, Some (Wrap ''delete policy version: '' err)) | None \<Rightarrow>
        (let hits = filter (\<lambda>r. pv_PolicyName r = name \<and> pv_Version r = version) (vs_rows s);
             s1 = s\<lparr>vs_rows := filter (\<lambda>r. \<not> (pv_PolicyName r = name \<and> pv_Version r = version)) (vs_rows s)\<rparr>
         in case er of
              Some err \<Rightarrow> (s1, Some (Wrap ''check rows affected: '' err))
            | None \<Rightarrow>
                if hits = [] then (s1, Some (Errorf (''policy version not found: '' @ name @ ''@'' @ version)))
                else if vs_fileBase s1 \<noteq> []
                then (s1\<lparr>vs_files := AList.delete (contentPath join s1 name version) (vs_files s1)\<rparr>, None)
                else (s1, None))))"

section \<open>At most one active version\<close>

definition active_of :: "string \<Rightarrow> PolicyVersion list \<Rightarrow> PolicyVersion list" where
  "active_of name rows = filter (\<lambda>r. pv_PolicyName r = name \<and> pv_Active r) rows"

definition vkey :: "PolicyVersion \<Rightarrow> string \<times> string" where
  "vkey r = (pv_PolicyName r, pv_Version r)"

definition versions_ok :: "VersionStore \<Rightarrow> bool" where
  "versions_ok s \<longleftrightarrow> distinct (map pv_ID (vs_rows s)) \<and> distinct (map vkey (vs_rows s)) \<and>
     (\<forall>name. length (active_of name (vs_rows s)) \<le> 1)"

lemma active_of_deactivate: "active_of n (deactivate name rows) = (if n = name then [] else active_of n rows)"
proof (cases "n = name")
  case True
  have "\<not> (pv_PolicyName x = name \<and> pv_Active x)" if "x \<in> set (deactivate name rows)" for x
  proof -
    from that obtain r where "x = (if pv_PolicyName r = name then r\<lparr>pv_Active := False\<rparr> else r)"
      unfolding deactivate_def set_map by blast
    then show ?thesis by simp
  qed
  with True show ?thesis by (simp add: active_of_def filter_empty_conv)
next
  case False
  then show ?thesis by (induction rows) (simp_all add: active_of_def deactivate_def)
qed

lemma map_deactivate [simp]: "map pv_ID (deactivate name rows) = map pv_ID rows" "map vkey (deactivate name rows) = map vkey rows"
  by (induction rows) (simp_all add: deactivate_def vkey_def)

lemma map_activate [simp]: "map pv_ID (activate n v rows) = map pv_ID rows" "map vkey (activate n v rows) = map vkey rows"
  by (induction rows) (simp_all add: activate_def vkey_def)

lemma active_of_activate_other: "m \<noteq> n \<Longrightarrow> active_of m (activate n v rows) = active_of m rows"
  by (induction rows) (auto simp: active_of_def activate_def)

lemma active_of_activate:
  assumes "distinct (map vkey rows)" "active_of n rows = []"
  shows "length (active_of n (activate n v rows)) \<le> 1"
proof -
  have "active_of n (activate n v rows) = map (\<lambda>r. r\<lparr>pv_Active := True\<rparr>) (filter (\<lambda>r. vkey r = (n, v)) rows)"
    using assms(2) by (induction rows) (auto simp: active_of_def activate_def vkey_def split: if_splits)
  moreover have "length (filter (\<lambda>r. vkey r = (n, v)) rows) \<le> 1"
    using assms(1) by (induction rows) (auto simp: filter_empty_conv image_iff vkey_def)
  ultimately show ?thesis by simp
qed

lemma deactivateVersions_ok:
  "versions_ok s \<Longrightarrow> deactivateVersions db name s = (s', err) \<Longrightarrow> versions_ok s' \<and> (err = None \<longrightarrow> active_of name (vs_rows s') = [])"
  by (auto simp: deactivateVersions_def versions_ok_def active_of_deactivate split: option.splits)

lemma writeContent_rows: "writeContent join a v s = (s', err) \<Longrightarrow> vs_rows s' = vs_rows s"
  by (auto simp: writeContent_def split: if_splits option.splits)

lemma insert_ok:
  assumes "versions_ok s" "insert_error db v (vs_rows s) = None" "pv_Active v \<Longrightarrow> active_of (pv_PolicyName v) (vs_rows s) = []"
  shows "versions_ok (s\<lparr>vs_rows := vs_rows s @ [v]\<rparr>)"
proof -
  from assms(2) have "\<forall>r \<in> set (vs_rows s). pv_ID r \<noteq> pv_ID v \<and> vkey r \<noteq> vkey v"
    by (auto simp: insert_error_def list_ex_iff vkey_def split: option.splits if_splits)
  moreover have "active_of n (vs_rows s @ [v]) = active_of n (vs_rows s) @ (if pv_PolicyName v = n \<and> pv_Active v then [v] else [])" for n
    by (simp add: active_of_def)
  ultimately show ?thesis using assms(1,3) by (auto simp: versions_ok_def)
qed

lemma SaveVersion_ok:
  assumes "versions_ok s"
  shows "versions_ok (fst (SaveVersion join a version s))"
proof -
  let ?v = "completeVersion a version"
  obtain s1 e1 where d: "(if pv_Active ?v then deactivateVersions (sv_deactivate a) (pv_PolicyName ?v) s else (s, None)) = (s1, e1)" by force
  have s1: "versions_ok s1" "e1 = None \<Longrightarrow> pv_Active ?v \<Longrightarrow> active_of (pv_PolicyName ?v) (vs_rows s1) = []"
    using d assms deactivateVersions_ok[OF assms] by (auto split: if_splits)
  obtain s2 e2 where w: "writeContent join a ?v s1 = (s2, e2)" by force
  from writeContent_rows[OF w] s1 have s2: "versions_ok s2" "vs_rows s2 = vs_rows s1" by (auto simp: versions_ok_def)
  show ?thesis
  proof (cases "e1 = None \<and> e2 = None \<and> insert_error (sv_insert a) ?v (vs_rows s2) = None")
    case True
    with d w have "SaveVersion join a version s = (s2\<lparr>vs_rows := vs_rows s2 @ [?v]\<rparr>, None)" by (simp add: SaveVersion_def Let_def)
    with True s1(2) s2 insert_ok[of s2 "sv_insert a" ?v] show ?thesis by simp
  next
    case False
    with d w s1(1) s2(1) show ?thesis by (auto simp: SaveVersion_def Let_def split: option.splits)
  qed
qed

lemma SetActiveVersion_ok:
  assumes "versions_ok s"
  shows "versions_ok (fst (SetActiveVersion eb e1 e2 er ec s name version))"
proof -
  have "versions_ok (s\<lparr>vs_rows := activate name version (deactivate name (vs_rows s))\<rparr>)"
    unfolding versions_ok_def
  proof (intro conjI allI)
    fix n
    show "length (active_of n (vs_rows (s\<lparr>vs_rows := activate name version (deactivate name (vs_rows s))\<rparr>))) \<le> 1"
      using assms active_of_activate[of "deactivate name (vs_rows s)" name version]
      by (cases "n = name") (simp_all add: versions_ok_def active_of_deactivate active_of_activate_other)
  qed (use assms in \<open>simp_all add: versions_ok_def\<close>)
  then show ?thesis using assms by (simp add: SetActiveVersion_def split: option.split)
qed

lemma DeleteVersion_ok:
  assumes "versions_ok s"
  shows "versions_ok (fst (DeleteVersion join eq ed er s name version))"
proof -
  have "length (active_of n (filter P rows)) \<le> length (active_of n rows)" for n P rows
    by (induction rows) (auto simp: active_of_def)
  then have "versions_ok (s\<lparr>vs_rows := filter P (vs_rows s)\<rparr>)" for P
    using assms unfolding versions_ok_def by (auto simp: distinct_map_filter) (metis One_nat_def order_trans)
  moreover have "versions_ok (t\<lparr>vs_files := f\<rparr>) = versions_ok t" for t f by (simp add: versions_ok_def)
  ultimately show ?thesis using assms by (simp add: DeleteVersion_def Let_def split: option.split)
qed

section \<open>Properties\<close>

text \<open>
  C15. The version store keeps its invariant: identifiers and (policy, version) pairs stay unique and
  no policy ever has two active versions, whatever operation runs and whatever the database and the
  file system answer.
\<close>

theorem version_store_invariant:
  assumes "versions_ok s"
  shows "versions_ok (fst (SaveVersion join a version s)) \<and>
    versions_ok (fst (SetActiveVersion eb e1 e2 er ec s name ver)) \<and>
    versions_ok (fst (DeleteVersion join eq ed er s name ver))"
  using SaveVersion_ok[OF assms] SetActiveVersion_ok[OF assms] DeleteVersion_ok[OF assms] by blast

definition example_version :: "string \<Rightarrow> string \<Rightarrow> PolicyVersion" where
  "example_version i v = \<lparr>pv_ID = i, pv_PolicyName = ''p'', pv_Version = v, pv_Content = ''rules'', pv_Format = ''yaml'', pv_Author = [],
     pv_Changelog = [], pv_EffectiveAt = 1, pv_CreatedAt = 1, pv_Supersedes = [], pv_Active = True, pv_Metadata = []\<rparr>"

definition example_store :: VersionStore where
  "example_store = \<lparr>vs_rows = [example_version ''i'' ''1''], vs_fileBase = [], vs_files = []\<rparr>"

definition all_fine :: save_answers where
  "all_fine = \<lparr>sv_uuid = ''u'', sv_now = 5, sv_deactivate = None, sv_mkdir = None, sv_write = None, sv_insert = None\<rparr>"

theorem version_store_invariant_witness:
  "versions_ok (fst (SaveVersion concat all_fine (example_version ''j'' ''2'') example_store)) \<and>
   map pv_Version (active_of ''p'' (vs_rows (fst (SaveVersion concat all_fine (example_version ''j'' ''2'') example_store)))) = [''2'']"
proof -
  have "versions_ok example_store"
    by (simp add: versions_ok_def example_store_def active_of_def)
  from version_store_invariant[OF this, of concat all_fine "example_version ''j'' ''2''"]
  have "versions_ok (fst (SaveVersion concat all_fine (example_version ''j'' ''2'') example_store))" by blast
  moreover have "map pv_Version (active_of ''p'' (vs_rows (fst (SaveVersion concat all_fine (example_version ''j'' ''2'') example_store)))) = [''2'']"
    by code_simp
  ultimately show ?thesis by blast
qed

text \<open>
  Saving an active version is not atomic: if the insert fails, here because the version exists
  already, the error is reported after the previously active version was deactivated, and the policy is
  left without any active version.
\<close>

theorem failed_save_deactivates:
  "GetActiveVersion None example_store ''p'' = Inr (example_version ''i'' ''1'') \<and>
   (case SaveVersion concat all_fine (example_version ''j'' ''1'') example_store of
      (s, err) \<Rightarrow> err \<noteq> None \<and> GetActiveVersion None s ''p'' = Inl (Errorf ''no active policy found: p''))"
  by (rule conjI) code_simp+

text \<open>
  C16. Activating a version is atomic and takes effect: \<open>SetActiveVersion\<close> with an error leaves the store
  as it was, and without one \<open>GetActiveVersion\<close> returns exactly the chosen version.
\<close>

theorem SetActiveVersion_atomic:
  assumes "versions_ok s" "SetActiveVersion eb e1 e2 er ec s name ver = (s', err)"
  shows "(err \<noteq> None \<longrightarrow> s' = s) \<and>
    (err = None \<longrightarrow> (\<exists>v. GetActiveVersion None s' name = Inr v \<and> pv_PolicyName v = name \<and> pv_Version v = ver))"
proof (cases err)
  case (Some e)
  with assms(2) show ?thesis by (auto simp: SetActiveVersion_def split: option.splits if_splits)
next
  case None
  with assms(2) have s': "s' = s\<lparr>vs_rows := activate name ver (deactivate name (vs_rows s))\<rparr>"
    and ex: "filter (\<lambda>r. pv_PolicyName r = name \<and> pv_Version r = ver) (vs_rows s) \<noteq> []"
    by (auto simp: SetActiveVersion_def split: option.splits if_splits)
  let ?rows = "vs_rows s'"
  from ex obtain r where "r \<in> set (vs_rows s)" "pv_PolicyName r = name" "pv_Version r = ver" by (auto simp: filter_empty_conv)
  then have "r\<lparr>pv_Active := False, pv_Active := True\<rparr> \<in> set ?rows" using s' by (force simp: activate_def deactivate_def)
  then have ne: "active_of name ?rows \<noteq> []" using \<open>pv_PolicyName r = name\<close>
    by (simp only: active_of_def filter_empty_conv) (auto intro!: bexI[of _ "r\<lparr>pv_Active := True\<rparr>"])
  have act: "pv_PolicyName v = name \<and> pv_Version v = ver" if "v \<in> set (active_of name ?rows)" for v
  proof -
    from that have v: "v \<in> set ?rows" "pv_PolicyName v = name" "pv_Active v" by (simp_all add: active_of_def)
    have "?rows = activate name ver (deactivate name (vs_rows s))" using s' by simp
    with v(1) have "v \<in> (\<lambda>r. if pv_PolicyName r = name \<and> pv_Version r = ver then r\<lparr>pv_Active := True\<rparr> else r) ` set (deactivate name (vs_rows s))"
      by (simp only: activate_def set_map)
    then obtain u where u: "v = (if pv_PolicyName u = name \<and> pv_Version u = ver then u\<lparr>pv_Active := True\<rparr> else u)"
      "u \<in> set (deactivate name (vs_rows s))" by (rule imageE)
    have "u \<notin> set (active_of name (deactivate name (vs_rows s)))" by (simp add: active_of_deactivate)
    then have "\<not> (pv_PolicyName u = name \<and> pv_Active u)" using u(2) by (simp add: active_of_def)
    with u(1) v(2,3) show ?thesis by (simp split: if_splits)
  qed
  let ?sorted = "sort_key (\<lambda>r. - pv_CreatedAt r) (active_of name ?rows)"
  have sorted: "set ?sorted = set (active_of name ?rows)" by (rule set_sort)
  obtain v vs where v: "?sorted = v # vs"
  proof (cases ?sorted)
    case Nil
    with sorted ne show ?thesis by simp
  qed
  then have "v \<in> set (active_of name ?rows)" unfolding sorted[symmetric] v by simp
  then have "pv_PolicyName v = name \<and> pv_Version v = ver" by (rule act)
  moreover have "GetActiveVersion None s' name = Inr v"
    using v by (simp only: GetActiveVersion_def active_of_def option.case list.case)
  ultimately show ?thesis using None by blast
qed

theorem SetActiveVersion_atomic_witness:
  "\<exists>v. GetActiveVersion None (fst (SetActiveVersion None None None None None (example_store\<lparr>vs_rows := [example_version ''i'' ''1'',
      (example_version ''j'' ''2'')\<lparr>pv_Active := False\<rparr>]\<rparr>) ''p'' ''2'')) ''p'' = Inr v \<and> pv_Version v = ''2''"
proof -
  let ?s = "example_store\<lparr>vs_rows := [example_version ''i'' ''1'', (example_version ''j'' ''2'')\<lparr>pv_Active := False\<rparr>]\<rparr>"
  have ok: "versions_ok ?s" by (simp add: versions_ok_def active_of_def example_version_def vkey_def)
  have "snd (SetActiveVersion None None None None None ?s ''p'' ''2'') = None" by code_simp
  with SetActiveVersion_atomic[OF ok, of None None None None None "''p''" "''2''"] show ?thesis
    by (metis prod.collapse)
qed

end
