(* ===== verification/Policy_Simulator.thy ===== *)
theory Policy_Simulator
  imports Policy_Versions
begin

text \<open>
  Dry runs of a policy version, \<open>pkg/policy/simulator.go\<close>, and the test runner built on them,
  \<open>pkg/policy/test_runner.go\<close>. \<open>parse\<close> is the JSON decoder of a policy document; \<open>fmt_v\<close> and \<open>fmt_2f\<close>
  render a map with \<open>%v\<close> and a score with \<open>%.2f\<close> in texts meant for people; \<open>dur\<close> is the measured
  duration of an action. Scores are rationals.
\<close>

section \<open>The simulator\<close>

record PolicyRule =
  pr_ID :: string
  pr_Tool :: string
  pr_Effect :: string
  pr_Condition :: string
  pr_Reason :: string
  pr_Alert :: bool
  pr_RiskScore :: rat
  pr_RequireApproval :: bool

record PolicyDocument =
  pd_APIVersion :: string
  pd_Kind :: string
  pd_DefaultEffect :: string
  pd_Mode :: string
  pd_Rules :: "PolicyRule list"

record ActionToSimulate =
  ac_Sequence :: int
  ac_Tool :: string
  ac_Input :: "any smap"
  ac_Context :: "any smap"

record SimulationRequest =
  sq_PolicyName :: string
  sq_PolicyVersion :: string
  sq_RunID :: string
  sq_Mode :: string
  sq_Actions :: "ActionToSimulate list"
  sq_Context :: "any smap"

record ActionSimulationResult =
  ar_Sequence :: int
  ar_Action :: string
  ar_ToolName :: string
  ar_ToolInput :: "any smap"
  ar_Allowed :: bool
  ar_DenyReason :: string
  ar_RiskScore :: rat
  ar_WouldAlert :: bool
  ar_Duration :: int

record SimulationSummary =
  su_AllowRate :: rat
  su_DenyRate :: rat
  su_AlertRate :: rat
  su_AvgRiskScore :: rat
  su_TopDenyReasons :: "int smap"

record SimulationResult =
  sm_ID :: string
  sm_PolicyName :: string
  sm_PolicyVersion :: string
  sm_Mode :: string
  sm_TotalActions :: int
  sm_Allowed :: int
  sm_Denied :: int
  sm_Alerts :: int
  sm_Details :: "ActionSimulationResult list"
  sm_Summary :: SimulationSummary

record PolicyEvalResult =
  ev_Allowed :: bool
  ev_DenyReason :: string
  ev_RiskScore :: rat
  ev_WouldAlert :: bool

definition matchesRule :: "PolicyRule \<Rightarrow> string \<Rightarrow> any smap \<Rightarrow> any smap \<Rightarrow> bool" where
  "matchesRule rule tool input context =
     (if pr_Tool rule \<noteq> [] \<and> pr_Tool rule \<noteq> tool \<and> pr_Tool rule \<noteq> ''*'' then False else True)"

fun evaluateRules :: "PolicyRule list \<Rightarrow> ActionToSimulate \<Rightarrow> any smap \<Rightarrow> PolicyEvalResult" where
  "evaluateRules [] action context = \<lparr>ev_Allowed = True, ev_DenyReason = [], ev_RiskScore = 0, ev_WouldAlert = False\<rparr>"
| "evaluateRules (rule # rules) action context =
     (if matchesRule rule (ac_Tool action) (ac_Input action) context
      then (if pr_Effect rule = ''deny''
            then \<lparr>ev_Allowed = False, ev_DenyReason = pr_Reason rule, ev_RiskScore = pr_RiskScore rule, ev_WouldAlert = pr_Alert rule\<rparr>
            else \<lparr>ev_Allowed = True, ev_DenyReason = [], ev_RiskScore = 0, ev_WouldAlert = pr_Alert rule\<rparr>)
      else evaluateRules rules action context)"

definition evaluateAction :: "PolicyDocument \<Rightarrow> ActionToSimulate \<Rightarrow> any smap \<Rightarrow> PolicyEvalResult" where
  "evaluateAction policy action context = evaluateRules (pd_Rules policy) action context"

definition rate :: "int \<Rightarrow> int \<Rightarrow> rat" where
  "rate n m = of_int n / of_int m"

definition calculateSummary :: "SimulationResult \<Rightarrow> int smap \<Rightarrow> SimulationSummary" where
  "calculateSummary result denyReasons =
     (let n = sm_TotalActions result; details = sm_Details result
      in \<lparr>su_AllowRate = (if n > 0 then rate (sm_Allowed result) n else 0),
          su_DenyRate = (if n > 0 then rate (sm_Denied result) n else 0),
          su_AlertRate = (if n > 0 then rate (sm_Alerts result) n else 0),
          su_AvgRiskScore = (if details \<noteq> [] then sum_list (map ar_RiskScore details) / of_nat (length details) else 0),
          su_TopDenyReasons = denyReasons\<rparr>)"

definition simulateAction :: "(any smap \<Rightarrow> string) \<Rightarrow> (int \<Rightarrow> int) \<Rightarrow> PolicyDocument \<Rightarrow> any smap \<Rightarrow> ActionToSimulate \<Rightarrow>
    SimulationResult \<times> int smap \<Rightarrow> SimulationResult \<times> int smap" where
  "simulateAction fmt_v dur policy context action acc =
     (case acc of (result, denyReasons) \<Rightarrow>
       (let ev = evaluateAction policy action context;
            detail = \<lparr>ar_Sequence = ac_Sequence action, ar_Action = ac_Tool action @ ''('' @ fmt_v (ac_Input action) @ '')'',
                      ar_ToolName = ac_Tool action, ar_ToolInput = ac_Input action, ar_Allowed = ev_Allowed ev,
                      ar_DenyReason = ev_DenyReason ev, ar_RiskScore = ev_RiskScore ev, ar_WouldAlert = ev_WouldAlert ev,
                      ar_Duration = dur (ac_Sequence action)\<rparr>;
            result1 = result\<lparr>sm_Details := sm_Details result @ [detail],
                             sm_Allowed := sm_Allowed result + (if ev_Allowed ev then 1 else 0),
                             sm_Denied := sm_Denied result + (if ev_Allowed ev then 0 else 1),
                             sm_Alerts := sm_Alerts result + (if ev_WouldAlert ev then 1 else 0)\<rparr>
        in (result1, if \<not> ev_Allowed ev \<and> ev_DenyReason ev \<noteq> [] then add_int (ev_DenyReason ev) 1 denyReasons else denyReasons)))"

definition Simulate :: "(string \<Rightarrow> gerror + PolicyDocument) \<Rightarrow> (any smap \<Rightarrow> string) \<Rightarrow> (int \<Rightarrow> int) \<Rightarrow> string \<Rightarrow> gerror option \<Rightarrow>
    VersionStore \<Rightarrow> SimulationRequest \<Rightarrow> gerror + SimulationResult" where
  "Simulate parse fmt_v dur uuid db store req =
     (case GetVersion db store (sq_PolicyName req) (sq_PolicyVersion req) of
        Inl err \<Rightarrow> Inl (Wrap ''load policy: '' err)
      | Inr policy \<Rightarrow>
          (case parse (pv_Content policy) of
             Inl err \<Rightarrow> Inl (Wrap ''parse policy: '' (Wrap ''parse policy: '' err))
           | Inr doc \<Rightarrow>
               (let start = \<lparr>sm_ID = uuid, sm_PolicyName = sq_PolicyName req, sm_PolicyVersion = sq_PolicyVersion req,
                             sm_Mode = sq_Mode req, sm_TotalActions = int (length (sq_Actions req)), sm_Allowed = 0, sm_Denied = 0,
                             sm_Alerts = 0, sm_Details = [],
                             sm_Summary = \<lparr>su_AllowRate = 0, su_DenyRate = 0, su_AlertRate = 0, su_AvgRiskScore = 0, su_TopDenyReasons = []\<rparr>\<rparr>
                in case fold (simulateAction fmt_v dur doc (sq_Context req)) (sq_Actions req) (start, []) of
                     (result, denyReasons) \<Rightarrow> Inr (result\<lparr>sm_Summary := calculateSummary result denyReasons\<rparr>))))"

section \<open>The test runner\<close>

record TestExpectation =
  te_Allowed :: "bool option"
  te_Denied :: "bool option"
  te_Reason :: string
  te_ReasonContains :: string
  te_Alert :: "bool option"
  te_MinRiskScore :: "rat option"
  te_MaxRiskScore :: "rat option"

record TestCase =
  tcase_Name :: string
  tcase_Tool :: string
  tcase_Input :: "any smap"
  tcase_Context :: "any smap"
  tcase_Expect :: TestExpectation

record PolicyTest =
  pt_Name :: string
  pt_Policy :: string
  pt_Version :: string
  pt_Tests :: "TestCase list"

record TestCaseResult =
  tres_Name :: string
  tres_Status :: string
  tres_Message :: string
  tres_Expected :: string
  tres_Actual :: string

record TestResult =
  tt_TestFile :: string
  tt_TotalTests :: int
  tt_Passed :: int
  tt_Failed :: int
  tt_Skipped :: int
  tt_TestCases :: "TestCaseResult list"

fun substringAt :: "nat \<Rightarrow> string \<Rightarrow> string \<Rightarrow> bool" where
  "substringAt 0 s substr = (take (length substr) s = substr)"
| "substringAt (Suc n) s substr = (take (length substr) s = substr \<or> substringAt n (drop 1 s) substr)"

text \<open>The loop \<open>for i := 0; i <= len(s)-len(substr); i++\<close> with \<open>s\<close> advanced instead of \<open>i\<close>.\<close>

definition findSubstring :: "string \<Rightarrow> string \<Rightarrow> bool" where
  "findSubstring s substr = (length substr \<le> length s \<and> substringAt (length s - length substr) s substr)"

definition contains :: "string \<Rightarrow> string \<Rightarrow> bool" where
  "contains s substr = (length s \<ge> length substr \<and>
     (s = substr \<or> length substr = 0 \<or> (length s > 0 \<and> length substr > 0 \<and> findSubstring s substr)))"

definition fmt_bool :: "bool \<Rightarrow> string" where
  "fmt_bool b = (if b then ''true'' else ''false'')"

definition quoted :: "string \<Rightarrow> string" where
  "quoted s = CHR 0x27 # s @ [CHR 0x27]"

definition mismatch :: "string \<Rightarrow> string \<Rightarrow> string \<Rightarrow> TestCaseResult \<Rightarrow> TestCaseResult \<times> bool" where
  "mismatch expected actual msg r = (r\<lparr>tres_Expected := expected, tres_Actual := actual, tres_Message := msg\<rparr>, False)"

text \<open>Each check sees the result record and the verdict so far, in the order of the code.\<close>

definition checkExpectations ::
    "(rat \<Rightarrow> string) \<Rightarrow> TestExpectation \<Rightarrow> ActionSimulationResult \<Rightarrow> TestCaseResult \<Rightarrow> TestCaseResult \<times> bool" where
  "checkExpectations fmt_2f expect actual result =
     (let r0 = (result, True);
          r1 = (case te_Allowed expect of None \<Rightarrow> r0 | Some b \<Rightarrow>
                  if ar_Allowed actual \<noteq> b
                  then mismatch (''allowed='' @ fmt_bool b) (''allowed='' @ fmt_bool (ar_Allowed actual)) ''allowed expectation mismatch'' (fst r0)
                  else r0);
          r2 = (case te_Denied expect of None \<Rightarrow> r1 | Some b \<Rightarrow>
                  if (\<not> ar_Allowed actual) \<noteq> b
                  then mismatch (''denied='' @ fmt_bool b) (''denied='' @ fmt_bool (\<not> ar_Allowed actual)) ''denied expectation mismatch'' (fst r1)
                  else r1);
          r3 = (if te_ReasonContains expect \<noteq> []
                then (if ar_DenyReason actual = [] \<or> \<not> contains (ar_DenyReason actual) (te_ReasonContains expect)
                      then mismatch (''reason contains '' @ quoted (te_ReasonContains expect)) (''reason='' @ quoted (ar_DenyReason actual))
                             ''deny reason expectation mismatch'' (fst r2)
                      else r2)
                else r2);
          r4 = (case te_Alert expect of None \<Rightarrow> r3 | Some b \<Rightarrow>
                  if ar_WouldAlert actual \<noteq> b
                  then mismatch (''alert='' @ fmt_bool b) (''alert='' @ fmt_bool (ar_WouldAlert actual)) ''alert expectation mismatch'' (fst r3)
                  else r3);
          r5 = (case te_MinRiskScore expect of None \<Rightarrow> r4 | Some m \<Rightarrow>
                  if ar_RiskScore actual < m
                  then mismatch (''riskScore >= '' @ fmt_2f m) (''riskScore = '' @ fmt_2f (ar_RiskScore actual)) ''risk score below minimum'' (fst r4)
                  else r4)
      in case te_MaxRiskScore expect of None \<Rightarrow> r5 | Some m \<Rightarrow>
           if ar_RiskScore actual > m
           then mismatch (''riskScore <= '' @ fmt_2f m) (''riskScore = '' @ fmt_2f (ar_RiskScore actual)) ''risk score above maximum'' (fst r5)
           else r5)"

definition runTestCase :: "(string \<Rightarrow> gerror + PolicyDocument) \<Rightarrow> (any smap \<Rightarrow> string) \<Rightarrow> (int \<Rightarrow> int) \<Rightarrow> (rat \<Rightarrow> string) \<Rightarrow>
    string \<Rightarrow> gerror option \<Rightarrow> VersionStore \<Rightarrow> PolicyVersion \<Rightarrow> TestCase \<Rightarrow> TestCaseResult" where
  "runTestCase parse fmt_v dur fmt_2f uuid db store policy testCase =
     (let result = \<lparr>tres_Name = tcase_Name testCase, tres_Status = ''passed'', tres_Message = [], tres_Expected = [], tres_Actual = []\<rparr>;
          simReq = \<lparr>sq_PolicyName = pv_PolicyName policy, sq_PolicyVersion = pv_Version policy, sq_RunID = [], sq_Mode = ''simulation'',
                    sq_Actions = [\<lparr>ac_Sequence = 1, ac_Tool = tcase_Tool testCase, ac_Input = tcase_Input testCase, ac_Context = tcase_Context testCase\<rparr>],
                    sq_Context = []\<rparr>
      in case Simulate parse fmt_v dur uuid db store simReq of
           Inl err \<Rightarrow> result\<lparr>tres_Status := ''failed'', tres_Message := ''simulation error: '' @ error_string err\<rparr>
         | Inr sim \<Rightarrow>
             (case sm_Details sim of
                [] \<Rightarrow> result\<lparr>tres_Status := ''failed'', tres_Message := ''no simulation results''\<rparr>
              | actionResult # _ \<Rightarrow>
                  (case checkExpectations fmt_2f (tcase_Expect testCase) actionResult result of
                     (r, ok) \<Rightarrow> if \<not> ok then r\<lparr>tres_Status := ''failed''\<rparr> else r)))"

definition countCase :: "TestCaseResult \<Rightarrow> TestResult \<Rightarrow> TestResult" where
  "countCase c r =
     (let r1 = r\<lparr>tt_TestCases := tt_TestCases r @ [c]\<rparr>
      in if tres_Status c = ''passed'' then r1\<lparr>tt_Passed := tt_Passed r1 + 1\<rparr>
         else if tres_Status c = ''failed'' then r1\<lparr>tt_Failed := tt_Failed r1 + 1\<rparr>
         else if tres_Status c = ''skipped'' then r1\<lparr>tt_Skipped := tt_Skipped r1 + 1\<rparr>
         else r1)"

definition RunTest :: "(string \<Rightarrow> gerror + PolicyDocument) \<Rightarrow> (any smap \<Rightarrow> string) \<Rightarrow> (int \<Rightarrow> int) \<Rightarrow> (rat \<Rightarrow> string) \<Rightarrow>
    string \<Rightarrow> gerror option \<Rightarrow> VersionStore \<Rightarrow> PolicyTest \<Rightarrow> gerror + TestResult" where
  "RunTest parse fmt_v dur fmt_2f uuid db store test =
     (case GetActiveVersion db store (pt_Policy test) of
        Inl err \<Rightarrow> Inl (Wrap ''load policy: '' err)
      | Inr policy \<Rightarrow>
          Inr (fold (\<lambda>t. countCase (runTestCase parse fmt_v dur fmt_2f uuid db store policy t)) (pt_Tests test)
                 \<lparr>tt_TestFile = pt_Name test, tt_TotalTests = int (length (pt_Tests test)), tt_Passed = 0, tt_Failed = 0, tt_Skipped = 0, tt_TestCases = []\<rparr>))"

section \<open>Counters\<close>

definition sim_counts :: "SimulationResult \<Rightarrow> bool" where
  "sim_counts r \<longleftrightarrow> sm_Allowed r = int (length (filter ar_Allowed (sm_Details r))) \<and>
     sm_Denied r = int (length (filter (\<lambda>d. \<not> ar_Allowed d) (sm_Details r))) \<and>
     sm_Alerts r = int (length (filter ar_WouldAlert (sm_Details r)))"

lemma simulateAction_counts:
  "sim_counts (fst acc) \<Longrightarrow> sim_counts (fst (simulateAction f d pol ctx act acc)) \<and>
     length (sm_Details (fst (simulateAction f d pol ctx act acc))) = Suc (length (sm_Details (fst acc))) \<and>
     sm_TotalActions (fst (simulateAction f d pol ctx act acc)) = sm_TotalActions (fst acc)"
  by (cases acc) (simp add: simulateAction_def sim_counts_def Let_def)

lemma simulate_counts:
  "sim_counts (fst acc) \<Longrightarrow> sim_counts (fst (fold (simulateAction f d pol ctx) acts acc)) \<and>
     length (sm_Details (fst (fold (simulateAction f d pol ctx) acts acc))) = length acts + length (sm_Details (fst acc)) \<and>
     sm_TotalActions (fst (fold (simulateAction f d pol ctx) acts acc)) = sm_TotalActions (fst acc)"
proof (induction acts arbitrary: acc)
  case (Cons act acts)
  from simulateAction_counts[OF Cons.prems, of f d pol ctx act] Cons.IH[of "simulateAction f d pol ctx act acc"]
  show ?case by simp
qed simp

lemma sim_counts_sum: "sim_counts r \<Longrightarrow> sm_Allowed r + sm_Denied r = int (length (sm_Details r))"
  using sum_length_filter_compl[of ar_Allowed "sm_Details r"] by (simp add: sim_counts_def)

lemma calculateSummary_idem [simp]: "calculateSummary (r\<lparr>sm_Summary := x\<rparr>) reasons = calculateSummary r reasons"
  by (simp add: calculateSummary_def Let_def)

lemma Simulate_result:
  assumes "Simulate parse f d uuid db store req = Inr r"
  shows "sim_counts r" "length (sm_Details r) = length (sq_Actions req)" "sm_TotalActions r = int (length (sq_Actions req))"
    "\<exists>reasons. sm_Summary r = calculateSummary r reasons"
proof -
  let ?start = "\<lparr>sm_ID = uuid, sm_PolicyName = sq_PolicyName req, sm_PolicyVersion = sq_PolicyVersion req,
     sm_Mode = sq_Mode req, sm_TotalActions = int (length (sq_Actions req)), sm_Allowed = 0, sm_Denied = 0,
     sm_Alerts = 0, sm_Details = [],
     sm_Summary = \<lparr>su_AllowRate = 0, su_DenyRate = 0, su_AlertRate = 0, su_AvgRiskScore = 0, su_TopDenyReasons = []\<rparr>\<rparr>"
  from assms obtain pv where pv: "GetVersion db store (sq_PolicyName req) (sq_PolicyVersion req) = Inr pv"
    by (cases "GetVersion db store (sq_PolicyName req) (sq_PolicyVersion req)") (simp_all add: Simulate_def)
  with assms obtain doc where doc: "parse (pv_Content pv) = Inr doc"
    by (cases "parse (pv_Content pv)") (simp_all add: Simulate_def)
  obtain result reasons where f: "fold (simulateAction f d doc (sq_Context req)) (sq_Actions req) (?start, []) = (result, reasons)"
    by (cases "fold (simulateAction f d doc (sq_Context req)) (sq_Actions req) (?start, [])")
  with assms pv doc have r: "r = result\<lparr>sm_Summary := calculateSummary result reasons\<rparr>" by (simp add: Simulate_def)
  have "sim_counts ?start" by (simp add: sim_counts_def)
  with simulate_counts[of "(?start, [])" f d doc "sq_Context req" "sq_Actions req"] f
  have "sim_counts result" "length (sm_Details result) = length (sq_Actions req)" "sm_TotalActions result = int (length (sq_Actions req))"
    by simp_all
  then show "sim_counts r" "length (sm_Details r) = length (sq_Actions req)" "sm_TotalActions r = int (length (sq_Actions req))"
    using r by (simp_all add: sim_counts_def)
  show "\<exists>reasons. sm_Summary r = calculateSummary r reasons"
    using r by (intro exI[of _ reasons]) simp
qed

section \<open>Substrings\<close>

lemma substringAt_iff: "substringAt n s p \<longleftrightarrow> (\<exists>i \<le> n. take (length p) (drop i s) = p)"
proof (induction n arbitrary: s)
  case (Suc n)
  have "(\<exists>i \<le> Suc n. take (length p) (drop i s) = p) \<longleftrightarrow>
      take (length p) s = p \<or> (\<exists>i \<le> n. take (length p) (drop (Suc i) s) = p)"
    by (metis Suc_le_mono drop0 le0 not0_implies_Suc)
  with Suc.IH[of "drop 1 s"] show ?case by (simp add: drop_drop add.commute)
qed simp

lemma contains_iff: "contains s p \<longleftrightarrow> (\<exists>xs ys. s = xs @ p @ ys)"
proof
  assume "contains s p"
  then consider "s = p" | "p = []" | "findSubstring s p" by (auto simp: contains_def)
  then show "\<exists>xs ys. s = xs @ p @ ys"
  proof cases
    case 3
    then obtain i where "take (length p) (drop i s) = p" by (auto simp: findSubstring_def substringAt_iff)
    then have "s = take i s @ p @ drop (length p) (drop i s)" by (metis append_take_drop_id)
    then show ?thesis by blast
  next
    case 1
    then have "s = [] @ p @ []" by simp
    then show ?thesis by blast
  qed auto
next
  assume "\<exists>xs ys. s = xs @ p @ ys"
  then obtain xs ys where s: "s = xs @ p @ ys" by blast
  then have "substringAt (length s - length p) s p"
    by (auto simp: substringAt_iff intro!: exI[of _ "length xs"])
  with s show "contains s p" by (auto simp: contains_def findSubstring_def)
qed

section \<open>Verdicts\<close>

lemma verdict_option:
  "snd (case x of None \<Rightarrow> r | Some b \<Rightarrow> if P b then mismatch (f b) (g b) m r' else r) = ((\<forall>b. x = Some b \<longrightarrow> \<not> P b) \<and> snd r)"
  by (cases x) (simp_all add: mismatch_def)

lemma verdict_if:
  "snd (if c then (if P then mismatch f g m r' else r) else r) = ((c \<longrightarrow> \<not> P) \<and> snd r)"
  by (simp add: mismatch_def)

section \<open>Properties\<close>

text \<open>
  A simulation accounts for every action: one detail per action, allowed and denied add up to the
  total, the counters agree with the details, and with at least one action the allow and deny rates
  are between 0 and 1 and add up to 1.
\<close>

theorem Simulate_accounts:
  assumes "Simulate parse f d uuid db store req = Inr r"
  shows "sm_TotalActions r = int (length (sq_Actions req)) \<and> length (sm_Details r) = length (sq_Actions req)
    \<and> sm_Allowed r + sm_Denied r = sm_TotalActions r \<and> sm_Allowed r = int (length (filter ar_Allowed (sm_Details r)))
    \<and> (sq_Actions req \<noteq> [] \<longrightarrow> su_AllowRate (sm_Summary r) + su_DenyRate (sm_Summary r) = 1 \<and>
         0 \<le> su_AllowRate (sm_Summary r) \<and> 0 \<le> su_DenyRate (sm_Summary r))"
proof -
  note res = Simulate_result[OF assms]
  from res have sums: "sm_Allowed r + sm_Denied r = sm_TotalActions r" "0 \<le> sm_Allowed r" "0 \<le> sm_Denied r"
    using sim_counts_sum[of r] by (auto simp: sim_counts_def)
  have "su_AllowRate (sm_Summary r) + su_DenyRate (sm_Summary r) = 1 \<and> 0 \<le> su_AllowRate (sm_Summary r) \<and> 0 \<le> su_DenyRate (sm_Summary r)"
    if ne: "sq_Actions req \<noteq> []"
  proof -
    from ne res(3) have pos: "sm_TotalActions r > 0" by simp
    from res(4) obtain reasons where "sm_Summary r = calculateSummary r reasons" by blast
    with pos have rates: "su_AllowRate (sm_Summary r) = rate (sm_Allowed r) (sm_TotalActions r)"
      "su_DenyRate (sm_Summary r) = rate (sm_Denied r) (sm_TotalActions r)" by (simp_all add: calculateSummary_def Let_def)
    have "rate (sm_Allowed r) (sm_TotalActions r) + rate (sm_Denied r) (sm_TotalActions r) = 1"
      using pos sums(1) by (simp add: rate_def flip: add_divide_distrib of_int_add)
    with rates pos sums show ?thesis by (simp add: rate_def)
  qed
  with res sums show ?thesis by (simp add: sim_counts_def)
qed

definition example_doc :: PolicyDocument where
  "example_doc = \<lparr>pd_APIVersion = [], pd_Kind = [], pd_DefaultEffect = ''deny'', pd_Mode = [],
     pd_Rules = [\<lparr>pr_ID = ''r'', pr_Tool = ''shell'', pr_Effect = ''deny'', pr_Condition = [], pr_Reason = ''no shell'', pr_Alert = True,
       pr_RiskScore = 9/10, pr_RequireApproval = False\<rparr>]\<rparr>"

definition example_request :: SimulationRequest where
  "example_request = \<lparr>sq_PolicyName = ''p'', sq_PolicyVersion = ''1'', sq_RunID = [], sq_Mode = ''audit'',
     sq_Actions = [\<lparr>ac_Sequence = 1, ac_Tool = ''shell'', ac_Input = [], ac_Context = []\<rparr>, \<lparr>ac_Sequence = 2, ac_Tool = ''echo'', ac_Input = [], ac_Context = []\<rparr>],
     sq_Context = []\<rparr>"

definition example_simulation :: "gerror + SimulationResult" where
  "example_simulation = Simulate (\<lambda>c. Inr example_doc) (\<lambda>m. []) (\<lambda>n. 0) ''u'' None example_store example_request"

theorem Simulate_accounts_witness:
  "\<exists>r. example_simulation = Inr r \<and> sm_Allowed r + sm_Denied r = 2 \<and> su_AllowRate (sm_Summary r) + su_DenyRate (sm_Summary r) = 1"
proof -
  have "case example_simulation of Inr r \<Rightarrow> True | _ \<Rightarrow> False" by code_simp
  then obtain r where r: "example_simulation = Inr r" by (auto split: sum.splits)
  have "length (sq_Actions example_request) = 2" "sq_Actions example_request \<noteq> []" by (simp_all add: example_request_def)
  with Simulate_accounts[OF r[unfolded example_simulation_def]]
  have "sm_Allowed r + sm_Denied r = 2 \<and> su_AllowRate (sm_Summary r) + su_DenyRate (sm_Summary r) = 1" by simp
  with r show ?thesis by blast
qed

text \<open>
  A test case passes exactly when the simulated action meets every stated expectation, where
  \<open>reasonContains\<close> is a true substring test. The expectation \<open>reason\<close> is never looked at: two test
  cases that differ in it only get the same verdict.
\<close>

theorem checkExpectations_verdict:
  "snd (checkExpectations fmt_2f expect actual result) \<longleftrightarrow>
     (\<forall>b. te_Allowed expect = Some b \<longrightarrow> ar_Allowed actual = b) \<and>
     (\<forall>b. te_Denied expect = Some b \<longrightarrow> (\<not> ar_Allowed actual) = b) \<and>
     (te_ReasonContains expect \<noteq> [] \<longrightarrow> (\<exists>xs ys. ar_DenyReason actual = xs @ te_ReasonContains expect @ ys)) \<and>
     (\<forall>b. te_Alert expect = Some b \<longrightarrow> ar_WouldAlert actual = b) \<and>
     (\<forall>m. te_MinRiskScore expect = Some m \<longrightarrow> m \<le> ar_RiskScore actual) \<and>
     (\<forall>m. te_MaxRiskScore expect = Some m \<longrightarrow> ar_RiskScore actual \<le> m)"
proof -
  have reason: "\<not> (ar_DenyReason actual = [] \<or> \<not> contains (ar_DenyReason actual) (te_ReasonContains expect)) \<longleftrightarrow>
      contains (ar_DenyReason actual) (te_ReasonContains expect)" if "te_ReasonContains expect \<noteq> []"
    using that by (auto simp: contains_def)
  show ?thesis
    unfolding checkExpectations_def Let_def contains_iff[symmetric] verdict_option verdict_if
    using reason by (simp add: not_less) blast
qed

definition lenient :: TestExpectation where
  "lenient = \<lparr>te_Allowed = Some False, te_Denied = None, te_Reason = ''some other reason'', te_ReasonContains = ''shell'', te_Alert = Some True,
     te_MinRiskScore = Some (1/2), te_MaxRiskScore = None\<rparr>"

definition denied_shell :: ActionSimulationResult where
  "denied_shell = \<lparr>ar_Sequence = 1, ar_Action = ''shell()'', ar_ToolName = ''shell'', ar_ToolInput = [], ar_Allowed = False, ar_DenyReason = ''no shell'',
     ar_RiskScore = 9/10, ar_WouldAlert = True, ar_Duration = 0\<rparr>"

theorem checkExpectations_verdict_witness:
  "snd (checkExpectations (\<lambda>x. []) lenient denied_shell \<lparr>tres_Name = ''t'', tres_Status = ''passed'', tres_Message = [], tres_Expected = [], tres_Actual = []\<rparr>)"
proof -
  have "''no shell'' = ''no '' @ ''shell'' @ []" by simp
  then have "\<exists>xs ys. ''no shell'' = xs @ ''shell'' @ ys" by blast
  then show ?thesis unfolding checkExpectations_verdict by (simp add: lenient_def denied_shell_def)
qed

end
