(* ===== verification/Rate_Limiter.thy ===== *)
theory Rate_Limiter
  imports Go_Prelude
begin

text \<open>
  Rate limiting, \<open>pkg/orchestrate/ratelimit.go\<close>: the in-memory token bucket per key and the Redis sliding
  window, whose Lua script is modelled on a sorted set with an expiry. Times and durations are integers
  (nanoseconds). An integer division by zero panics, as a value of the error type.
\<close>

section \<open>Data and operations\<close>

record tokenBucket =
  tb_tokens :: int
  tb_maxTokens :: int
  tb_refillRate :: int
  tb_lastRefill :: int

type_synonym localRateLimitStore = "tokenBucket smap"

definition divide_panic :: gerror where
  "divide_panic = Errorf ''panic: runtime error: integer divide by zero''"

text \<open>The bucket found or created under the lock of the store.\<close>

definition findBucket :: "localRateLimitStore \<Rightarrow> string \<Rightarrow> int \<Rightarrow> int \<Rightarrow> int \<Rightarrow> gerror + tokenBucket" where
  "findBucket buckets key limit window now =
     (case map_of buckets key of
        Some b \<Rightarrow> Inr b
      | None \<Rightarrow>
          if limit = 0 then Inl divide_panic
          else Inr \<lparr>tb_tokens = limit, tb_maxTokens = limit, tb_refillRate = go_div window limit, tb_lastRefill = now\<rparr>)"

definition refill :: "int \<Rightarrow> tokenBucket \<Rightarrow> gerror + tokenBucket" where
  "refill now b =
     (if tb_refillRate b = 0 then Inl divide_panic
      else (let tokensToAdd = go_div (now - tb_lastRefill b) (tb_refillRate b)
            in Inr (if tokensToAdd > 0
                    then b\<lparr>tb_tokens := min (tb_tokens b + tokensToAdd) (tb_maxTokens b), tb_lastRefill := now\<rparr>
                    else b)))"

definition takeToken :: "tokenBucket \<Rightarrow> tokenBucket \<times> bool" where
  "takeToken b = (if tb_tokens b > 0 then (b\<lparr>tb_tokens := tb_tokens b - 1\<rparr>, True) else (b, False))"

definition allowLocal :: "localRateLimitStore \<Rightarrow> int \<Rightarrow> string \<Rightarrow> int \<Rightarrow> int \<Rightarrow> localRateLimitStore \<times> (gerror + bool)" where
  "allowLocal buckets now key limit window =
     (case findBucket buckets key limit window now of
        Inl err \<Rightarrow> (buckets, Inl err)
      | Inr b \<Rightarrow>
          (let buckets1 = AList.update key b buckets
           in case refill now b of
                Inl err \<Rightarrow> (buckets1, Inl err)
              | Inr b1 \<Rightarrow> (case takeToken b1 of (b2, ok) \<Rightarrow> (AList.update key b2 buckets1, Inr ok))))"

text \<open>A sorted set of Redis, its members being their own scores, and the time it expires.\<close>

record zset =
  z_members :: "int list"
  z_expires :: int

definition zset_at :: "zset smap \<Rightarrow> string \<Rightarrow> int \<Rightarrow> int list" where
  "zset_at r key now =
     (case map_of r key of None \<Rightarrow> [] | Some z \<Rightarrow> if now < z_expires z then z_members z else [])"

definition allowRedis :: "zset smap \<Rightarrow> gerror option \<Rightarrow> int \<Rightarrow> string \<Rightarrow> int \<Rightarrow> int \<Rightarrow> zset smap \<times> (gerror + bool)" where
  "allowRedis r answer now key limit window =
     (case answer of
        Some err \<Rightarrow> (r, Inl err)
      | None \<Rightarrow>
          (let redisKey = ''ratelimit:'' @ key;
               live = filter (\<lambda>t. t > now - window) (zset_at r redisKey now);
               expires = (case map_of r redisKey of None \<Rightarrow> 0 | Some z \<Rightarrow> z_expires z)
           in if int (length live) < limit
              then (AList.update redisKey \<lparr>z_members = List.insert now live, z_expires = now + 60 * 1000000000\<rparr> r, Inr True)
              else (AList.update redisKey \<lparr>z_members = live, z_expires = expires\<rparr> r, Inr False)))"

record RateLimiter =
  rl_buckets :: localRateLimitStore
  rl_redis :: "zset smap"
  rl_useRedis :: bool

definition Allow :: "RateLimiter \<Rightarrow> gerror option \<Rightarrow> int \<Rightarrow> string \<Rightarrow> int \<Rightarrow> int \<Rightarrow> RateLimiter \<times> (gerror + bool)" where
  "Allow rl answer now key limit window =
     (if rl_useRedis rl
      then (case allowRedis (rl_redis rl) answer now key limit window of (r, res) \<Rightarrow> (rl\<lparr>rl_redis := r\<rparr>, res))
      else (case allowLocal (rl_buckets rl) now key limit window of (b, res) \<Rightarrow> (rl\<lparr>rl_buckets := b\<rparr>, res)))"

definition Reset :: "RateLimiter \<Rightarrow> gerror option \<Rightarrow> string \<Rightarrow> RateLimiter \<times> gerror option" where
  "Reset rl answer key =
     (if rl_useRedis rl
      then (case answer of
              Some err \<Rightarrow> (rl, Some err)
            | None \<Rightarrow> (rl\<lparr>rl_redis := AList.delete (''ratelimit:'' @ key) (rl_redis rl)\<rparr>, None))
      else (rl\<lparr>rl_buckets := AList.delete key (rl_buckets rl)\<rparr>, None))"

section \<open>The token bucket\<close>

text \<open>
  A sequence of requests, each with its time and key, all with the same limit and window; the result
  counts the requests for one key that were let through.
\<close>

fun countAllowed :: "string \<Rightarrow> int \<Rightarrow> int \<Rightarrow> (int \<times> string) list \<Rightarrow> localRateLimitStore \<Rightarrow> nat" where
  "countAllowed k limit window [] buckets = 0"
| "countAllowed k limit window ((now, key) # reqs) buckets =
     (case allowLocal buckets now key limit window of
        (buckets1, res) \<Rightarrow> (if key = k \<and> res = Inr True then 1 else 0) + countAllowed k limit window reqs buckets1)"

lemma allowLocal_other: "j \<noteq> key \<Longrightarrow> map_of (fst (allowLocal buckets now key limit window)) j = map_of buckets j"
  by (simp add: allowLocal_def Let_def split: sum.split prod.split)

text \<open>
  Every token a bucket has given out or still holds was there at the start or was paid for by elapsed
  time: the invariant of the bucket with \<open>n\<close> requests let through since time \<open>t0\<close>.
\<close>

definition bucket_inv :: "int \<Rightarrow> int \<Rightarrow> int \<Rightarrow> int \<Rightarrow> tokenBucket \<Rightarrow> bool" where
  "bucket_inv limit r t0 n b \<longleftrightarrow> tb_maxTokens b = limit \<and> tb_refillRate b = r \<and> 0 \<le> tb_tokens b \<and> tb_tokens b \<le> limit \<and>
     (n + tb_tokens b - limit) * r \<le> tb_lastRefill b - t0"

lemma refill_inv:
  assumes "bucket_inv limit r t0 n b" "0 < r" "refill now b = Inr b'"
  shows "bucket_inv limit r t0 n b'" "tb_lastRefill b' \<le> max (tb_lastRefill b) now"
proof -
  let ?d = "now - tb_lastRefill b" and ?add = "go_div (now - tb_lastRefill b) (tb_refillRate b)"
  have rate: "tb_refillRate b = r" using assms(1) by (simp add: bucket_inv_def)
  show "bucket_inv limit r t0 n b'"
  proof (cases "?add > 0")
    case False
    then show ?thesis using assms rate by (simp add: refill_def Let_def split: if_splits)
  next
    case True
    then have nonneg: "0 \<le> ?d" using go_div_neg[OF assms(2), of ?d] rate by fastforce
    have "?d div r * r \<le> ?d" using pos_mod_sign[OF assms(2), of ?d] div_mult_mod_eq[of ?d r] by linarith
    then have "?add * r \<le> ?d" using go_div_pos[OF assms(2) nonneg] rate by simp
    then have "(n + (tb_tokens b + ?add) - limit) * r \<le> now - t0"
      using assms(1) by (simp add: bucket_inv_def algebra_simps)
    moreover have "(n + min (tb_tokens b + ?add) limit - limit) * r \<le> (n + (tb_tokens b + ?add) - limit) * r"
      using assms(2) by (intro mult_right_mono) simp_all
    ultimately have "(n + min (tb_tokens b + ?add) limit - limit) * r \<le> now - t0" by (rule order_trans[rotated])
    moreover have "b' = b\<lparr>tb_tokens := min (tb_tokens b + ?add) limit, tb_lastRefill := now\<rparr>"
      using assms True rate by (simp add: refill_def Let_def bucket_inv_def)
    ultimately show ?thesis using assms(1) True by (simp add: bucket_inv_def)
  qed
  show "tb_lastRefill b' \<le> max (tb_lastRefill b) now"
    using assms(3) by (auto simp: refill_def Let_def split: if_splits)
qed

lemma takeToken_inv:
  assumes "bucket_inv limit r t0 n b" "takeToken b = (b', ok)"
  shows "bucket_inv limit r t0 (n + (if ok then 1 else 0)) b'" "tb_lastRefill b' = tb_lastRefill b"
  using assms by (auto simp: takeToken_def bucket_inv_def algebra_simps split: if_splits)

lemma allowLocal_inv:
  assumes "findBucket buckets key limit window now = Inr b" "bucket_inv limit r t0 n b" "0 < r"
    "allowLocal buckets now key limit window = (buckets', res)"
  shows "\<exists>b'. map_of buckets' key = Some b' \<and> bucket_inv limit r t0 (n + (if res = Inr True then 1 else 0)) b' \<and>
    tb_lastRefill b' \<le> max (tb_lastRefill b) now"
proof -
  have "tb_refillRate b \<noteq> 0" using assms(2,3) by (simp add: bucket_inv_def)
  then obtain b1 where b1: "refill now b = Inr b1" by (auto simp: refill_def Let_def)
  obtain b2 ok where b2: "takeToken b1 = (b2, ok)" by force
  have "buckets' = AList.update key b2 (AList.update key b buckets)" "res = Inr ok"
    using assms(1,4) b1 b2 by (simp_all add: allowLocal_def)
  moreover note refill_inv[OF assms(2,3) b1] takeToken_inv[OF refill_inv(1)[OF assms(2,3) b1] b2]
  ultimately show ?thesis by auto
qed

lemma countAllowed_bound:
  assumes "0 < r"
  shows "map_of buckets k = Some b \<Longrightarrow> bucket_inv limit r t0 n b \<Longrightarrow> tb_lastRefill b \<le> t1 \<Longrightarrow>
    \<forall>q \<in> set reqs. fst q \<le> t1 \<Longrightarrow> (n + int (countAllowed k limit window reqs buckets) - limit) * r \<le> t1 - t0"
proof (induction reqs arbitrary: buckets b n)
  case Nil
  then have "(n - limit) * r \<le> (n + tb_tokens b - limit) * r" using assms by (intro mult_right_mono) (simp_all add: bucket_inv_def)
  with Nil show ?case by (simp add: bucket_inv_def)
next
  case (Cons q reqs)
  obtain now key where q: "q = (now, key)" by force
  obtain buckets' res where al: "allowLocal buckets now key limit window = (buckets', res)" by force
  show ?case
  proof (cases "key = k")
    case True
    with Cons.prems(1) have "findBucket buckets key limit window now = Inr b" by (simp add: findBucket_def)
    from allowLocal_inv[OF this Cons.prems(2) assms al] obtain b' where
      b': "map_of buckets' k = Some b'" "bucket_inv limit r t0 (n + (if res = Inr True then 1 else 0)) b'"
      "tb_lastRefill b' \<le> max (tb_lastRefill b) now" using True by auto
    from b'(3) Cons.prems(3,4) q have "tb_lastRefill b' \<le> t1" by auto
    from Cons.IH[OF b'(1,2) this] Cons.prems(4) q al True show ?thesis by (auto simp: algebra_simps split: if_splits)
  next
    case False
    with Cons.prems(1) allowLocal_other[of k key buckets now limit window] al have "map_of buckets' k = Some b" by simp
    from Cons.IH[OF this Cons.prems(2,3)] Cons.prems(4) q al False show ?thesis by simp
  qed
qed

lemma countAllowed_fresh:
  assumes "0 < limit" "limit \<le> window" "\<forall>q \<in> set reqs. t0 \<le> fst q \<and> fst q \<le> t1" "t0 \<le> t1"
  shows "map_of buckets k = None \<Longrightarrow> (int (countAllowed k limit window reqs buckets) - limit) * (window div limit) \<le> t1 - t0"
  using assms(3)
proof (induction reqs arbitrary: buckets)
  case Nil
  have "- limit * (window div limit) \<le> 0" using assms by (simp add: pos_imp_zdiv_nonneg_iff mult_nonneg_nonneg)
  with assms(4) show ?case by simp
next
  case (Cons q reqs)
  let ?r = "window div limit"
  have r: "0 < ?r" using assms by (simp add: pos_imp_zdiv_pos_iff)
  obtain now key where q: "q = (now, key)" by force
  obtain buckets' res where al: "allowLocal buckets now key limit window = (buckets', res)" by force
  show ?case
  proof (cases "key = k")
    case False
    with Cons.prems(1) allowLocal_other[of k key buckets now limit window] al have "map_of buckets' k = None" by simp
    from Cons.IH[OF this] Cons.prems(2) q al False show ?thesis by simp
  next
    case True
    let ?b = "\<lparr>tb_tokens = limit, tb_maxTokens = limit, tb_refillRate = ?r, tb_lastRefill = now\<rparr>"
    have b: "bucket_inv limit ?r t0 0 ?b" using Cons.prems(2) q assms(1) by (simp add: bucket_inv_def)
    have "findBucket buckets key limit window now = Inr ?b"
      using Cons.prems(1) True assms(1,2) by (simp add: findBucket_def go_div_pos)
    from allowLocal_inv[OF this b r al] obtain b' where b': "map_of buckets' k = Some b'"
      "bucket_inv limit ?r t0 (0 + (if res = Inr True then 1 else 0)) b'" "tb_lastRefill b' \<le> max (tb_lastRefill ?b) now"
      using True by blast
    from b'(3) Cons.prems(2) q have "tb_lastRefill b' \<le> t1" by auto
    from countAllowed_bound[OF r b'(1,2) this, of reqs window] Cons.prems(2) q al True show ?thesis
      by (auto split: if_splits)
  qed
qed

lemma countAllowed_rate:
  assumes "0 < limit" "limit \<le> window" "t0 \<le> t1" "\<forall>q \<in> set reqs. t0 \<le> fst q \<and> fst q \<le> t1"
  shows "int (countAllowed k limit window reqs []) \<le> limit + (t1 - t0) div (window div limit)"
proof -
  have r: "0 < window div limit" using assms by (simp add: pos_imp_zdiv_pos_iff)
  have "(int (countAllowed k limit window reqs []) - limit) * (window div limit) \<le> t1 - t0"
    using countAllowed_fresh[OF assms(1,2,4,3), of "[]" k] by simp
  then have "int (countAllowed k limit window reqs []) - limit \<le> (t1 - t0) div (window div limit)"
    using r zdiv_mono1[of "(int (countAllowed k limit window reqs []) - limit) * (window div limit)" "t1 - t0" "window div limit"] by simp
  then show ?thesis by simp
qed

section \<open>Properties\<close>

text \<open>
  The token bucket limits the rate: for a limit of at least one request and a window of at least
  as many nanoseconds, any sequence of requests between two times, mixed with requests for other
  keys and in whatever order the clock delivers them, lets through at most the limit plus one request
  per refill interval.
\<close>

theorem token_bucket_bound:
  assumes "0 < limit" "limit \<le> window" "t0 \<le> t1" "\<forall>q \<in> set reqs. t0 \<le> fst q \<and> fst q \<le> t1"
  shows "int (countAllowed k limit window reqs []) \<le> limit + (t1 - t0) div (window div limit)"
  by (rule countAllowed_rate [OF assms])

theorem token_bucket_bound_witness:
  "int (countAllowed ''a'' 2 100 [(0, ''a''), (0, ''b''), (1, ''a''), (2, ''a''), (60, ''a''), (61, ''a'')] []) \<le> 3
   \<and> countAllowed ''a'' 2 100 [(0, ''a''), (0, ''b''), (1, ''a''), (2, ''a''), (60, ''a''), (61, ''a'')] [] = 3"
proof (rule conjI)
  show "int (countAllowed ''a'' 2 100 [(0, ''a''), (0, ''b''), (1, ''a''), (2, ''a''), (60, ''a''), (61, ''a'')] []) \<le> 3"
    using token_bucket_bound[of 2 100 0 61 "[(0, ''a''), (0, ''b''), (1, ''a''), (2, ''a''), (60, ''a''), (61, ''a'')]" "''a''"] by simp
qed code_simp

text \<open>
  A limit of zero makes the first request of a key panic with a division by zero, and a limit above
  the number of nanoseconds of the window makes it panic in the refill.
\<close>

lemma limit_panics:
  "map_of buckets key = None \<Longrightarrow> snd (allowLocal buckets now key 0 window) = Inl divide_panic"
  "map_of buckets key = None \<Longrightarrow> 0 \<le> window \<Longrightarrow> window < limit \<Longrightarrow> snd (allowLocal buckets now key limit window) = Inl divide_panic"
  by (auto simp: allowLocal_def findBucket_def refill_def go_div_def Let_def)

end
