(* ===== verification/Run_Queue.thy ===== *)
theory Run_Queue
  imports Workflow_State
begin

text \<open>
  The queue of runs, \<open>pkg/orchestrate/queue.go\<close>, with its two backends, a buffered channel
  (\<open>queue_memory.go\<close>) and a Redis list (\<open>queue_redis.go\<close>), and the worker loop of \<open>runner.go\<close> that drains
  it. The interface is the locale \<open>queue_backend\<close>; both backends interpret it.
\<close>

section \<open>Requests and what a dequeue can give\<close>

record RunRequest =
  rq_RunID :: string
  rq_AgentName :: string
  rq_Goal :: string
  rq_Source :: string
  rq_Outputs :: "any smap"
  rq_MaxRetries :: int
  rq_RetryBackoff :: int
  rq_Timeout :: int
  rq_Callback :: bool

text \<open>
  \<open>Got\<close> is a request, \<open>Failed\<close> an error, \<open>Drained\<close> the answer \<open>false\<close> without an error, and \<open>Blocked\<close>
  a call that has not returned.
\<close>

datatype dequeued = Got RunRequest | Failed gerror | Drained | Blocked

section \<open>The memory queue\<close>

record memoryQueue =
  mq_ch :: "RunRequest list"
  mq_cap :: nat
  mq_closed :: bool

definition NewMemoryQueue :: "int \<Rightarrow> memoryQueue" where
  "NewMemoryQueue sz = \<lparr>mq_ch = [], mq_cap = nat (if sz \<le> 0 then 256 else sz), mq_closed = False\<rparr>"

text \<open>
  A send on a closed channel panics. The panic is written as an error value, so that theorems about sequences of operations cover it as a refusal; the
  server closes the queue only when it stops.
\<close>

definition mq_Enqueue :: "memoryQueue \<Rightarrow> RunRequest \<Rightarrow> memoryQueue \<times> gerror option" where
  "mq_Enqueue m req =
     (if mq_closed m then (m, Some (Errorf ''panic: send on closed channel''))
      else if length (mq_ch m) < mq_cap m then (m\<lparr>mq_ch := mq_ch m @ [req]\<rparr>, None)
      else (m, Some (Errorf ''runner queue is full'')))"

text \<open>\<open>ctx\<close> is the error of the context when the \<open>select\<close> takes that branch.\<close>

definition mq_Dequeue :: "memoryQueue \<Rightarrow> gerror option \<Rightarrow> memoryQueue \<times> dequeued" where
  "mq_Dequeue m ctx =
     (case ctx of
        Some err \<Rightarrow> (m, Failed err)
      | None \<Rightarrow>
          (case mq_ch m of
             req # rest \<Rightarrow> (m\<lparr>mq_ch := rest\<rparr>, Got req)
           | [] \<Rightarrow> if mq_closed m then (m, Drained) else (m, Blocked)))"

definition mq_Len :: "memoryQueue \<Rightarrow> int" where
  "mq_Len m = int (length (mq_ch m))"

definition mq_Close :: "memoryQueue \<Rightarrow> memoryQueue" where
  "mq_Close m = m\<lparr>mq_closed := True\<rparr>"

section \<open>The Redis queue\<close>

text \<open>The list under the queue key, its head on the left. An item holds the JSON of a request without its callback.\<close>

type_synonym redisQueue = "RunRequest list"

definition redisQueueItem :: "RunRequest \<Rightarrow> RunRequest" where
  "redisQueueItem req = req\<lparr>rq_Outputs := json_norm_map (rq_Outputs req), rq_Callback := False\<rparr>"

definition rd_Enqueue :: "redisQueue \<Rightarrow> gerror option \<Rightarrow> RunRequest \<Rightarrow> redisQueue \<times> gerror option" where
  "rd_Enqueue q answer req =
     (case answer of Some err \<Rightarrow> (q, Some err) | None \<Rightarrow> (redisQueueItem req # q, None))"

text \<open>
  \<open>BRPOP\<close> takes the last item or, with nothing to take for 30 seconds, answers \<open>redis.Nil\<close>, which the
  code turns into \<open>false\<close> without an error.
\<close>

definition rd_Dequeue :: "redisQueue \<Rightarrow> gerror option \<Rightarrow> redisQueue \<times> dequeued" where
  "rd_Dequeue q answer =
     (case answer of
        Some err \<Rightarrow> (q, Failed err)
      | None \<Rightarrow> if q = [] then (q, Drained) else (butlast q, Got (last q)))"

definition rd_Len :: "redisQueue \<Rightarrow> gerror option \<Rightarrow> int" where
  "rd_Len q answer = (case answer of Some err \<Rightarrow> 0 | None \<Rightarrow> int (length q))"

section \<open>The worker\<close>

text \<open>
  One round of the loop: the requests submitted since the last one, the context's error if the check
  at the top sees it, and the error its dequeue meets. A worker that is blocked stays in its dequeue.
\<close>

type_synonym round = "RunRequest list \<times> bool \<times> gerror option"

fun submitAll :: "('q \<Rightarrow> RunRequest \<Rightarrow> 'q \<times> gerror option) \<Rightarrow> RunRequest list \<Rightarrow> 'q \<Rightarrow> 'q" where
  "submitAll enq [] q = q"
| "submitAll enq (r # rs) q = submitAll enq rs (fst (enq q r))"

fun worker :: "('q \<Rightarrow> RunRequest \<Rightarrow> 'q \<times> gerror option) \<Rightarrow> ('q \<Rightarrow> gerror option \<Rightarrow> 'q \<times> dequeued) \<Rightarrow>
    round list \<Rightarrow> 'q \<Rightarrow> RunRequest list \<times> 'q" where
  "worker enq deq [] q = ([], q)"
| "worker enq deq ((subs, done, err) # rounds) q =
     (let q1 = submitAll enq subs q
      in if done then ([], q1)
         else (case deq q1 err of
                 (q2, Got req) \<Rightarrow> (case worker enq deq rounds q2 of (reqs, q3) \<Rightarrow> (req # reqs, q3))
               | (q2, Blocked) \<Rightarrow> worker enq deq rounds q2
               | (q2, Failed e) \<Rightarrow> ([], q2)
               | (q2, Drained) \<Rightarrow> ([], q2)))"

section \<open>The interface\<close>

locale queue_backend =
  fixes enqueue :: "'q \<Rightarrow> RunRequest \<Rightarrow> 'q \<times> gerror option"
    and dequeue :: "'q \<Rightarrow> gerror option \<Rightarrow> 'q \<times> dequeued"
    and contents :: "'q \<Rightarrow> RunRequest list"
    and stored :: "RunRequest \<Rightarrow> RunRequest"
    and invar :: "'q \<Rightarrow> bool"
  assumes enqueue_invar: "invar q \<Longrightarrow> invar (fst (enqueue q r))"
    and dequeue_invar: "invar q \<Longrightarrow> invar (fst (dequeue q err))"
    and enqueue_contents: "invar q \<Longrightarrow>
      contents (fst (enqueue q r)) = (case snd (enqueue q r) of None \<Rightarrow> contents q @ [stored r] | Some _ \<Rightarrow> contents q)"
    and dequeue_next: "invar q \<Longrightarrow> contents q = r # rs \<Longrightarrow> snd (dequeue q None) = Got r \<and> contents (fst (dequeue q None)) = rs"
    and dequeue_failed: "invar q \<Longrightarrow> dequeue q (Some e) = (q, Failed e)"
begin

fun enqueueAll :: "RunRequest list \<Rightarrow> 'q \<Rightarrow> 'q option" where
  "enqueueAll [] q = Some q"
| "enqueueAll (r # rs) q = (case enqueue q r of (q', None) \<Rightarrow> enqueueAll rs q' | (q', Some e) \<Rightarrow> None)"

lemma enqueueAll_contents:
  "invar q \<Longrightarrow> enqueueAll rs q = Some q' \<Longrightarrow> invar q' \<and> contents q' = contents q @ map stored rs \<and> submitAll enqueue rs q = q'"
proof (induction rs arbitrary: q)
  case (Cons r rs)
  obtain q1 e where e: "enqueue q r = (q1, e)" by force
  with Cons.prems(2) have none: "e = None" by (cases e) simp_all
  from enqueue_invar[OF Cons.prems(1), of r] enqueue_contents[OF Cons.prems(1), of r] e none
  have "invar q1" "contents q1 = contents q @ [stored r]" by simp_all
  with Cons.IH[of q1] Cons.prems(2) e none show ?case by simp
qed simp

lemma worker_drains:
  "invar q \<Longrightarrow> contents q = rs \<Longrightarrow> fst (worker enqueue dequeue (replicate (length rs) ([], False, None)) q) = rs"
proof (induction rs arbitrary: q)
  case (Cons r rs)
  obtain q1 d where d: "dequeue q None = (q1, d)" by force
  from dequeue_next[OF Cons.prems] dequeue_invar[OF Cons.prems(1), of None] d
  have "d = Got r" "contents q1 = rs" "invar q1" by simp_all
  with Cons.IH[of q1] d show ?case by (auto split: prod.split)
qed simp

text \<open>First in, first out: what was submitted is executed in the order of submission.\<close>

lemma fifo:
  assumes "invar q" "contents q = []" "enqueueAll rs q = Some q'"
  shows "fst (worker enqueue dequeue (replicate (length rs) ([], False, None)) q') = map stored rs"
proof -
  from enqueueAll_contents[OF assms(1,3)] assms(2) have "invar q'" "contents q' = map stored rs" by simp_all
  from worker_drains[OF this] show ?thesis by simp
qed

end

text \<open>A backend whose dequeue waits on an empty queue. The requests a worker accepts in some rounds, in the order of submission.\<close>

fun acceptedSubs :: "('q \<Rightarrow> RunRequest \<Rightarrow> 'q \<times> gerror option) \<Rightarrow> RunRequest list \<Rightarrow> 'q \<Rightarrow> RunRequest list" where
  "acceptedSubs enq [] q = []"
| "acceptedSubs enq (r # rs) q = (case enq q r of (q1, None) \<Rightarrow> r # acceptedSubs enq rs q1 | (q1, Some e) \<Rightarrow> acceptedSubs enq rs q1)"

fun accepted :: "('q \<Rightarrow> RunRequest \<Rightarrow> 'q \<times> gerror option) \<Rightarrow> ('q \<Rightarrow> gerror option \<Rightarrow> 'q \<times> dequeued) \<Rightarrow> RunRequest list list \<Rightarrow> 'q \<Rightarrow> RunRequest list" where
  "accepted enq deq [] q = []"
| "accepted enq deq (subs # subss) q = acceptedSubs enq subs q @ accepted enq deq subss (fst (deq (submitAll enq subs q) None))"

definition quietRounds :: "RunRequest list list \<Rightarrow> round list" where
  "quietRounds subss = map (\<lambda>subs. (subs, False, None)) subss"

locale waiting_queue = queue_backend +
  assumes dequeue_waits: "invar q \<Longrightarrow> contents q = [] \<Longrightarrow> dequeue q None = (q, Blocked)"
begin

lemma submitAll_contents: "invar q \<Longrightarrow> invar (submitAll enqueue rs q) \<and> contents (submitAll enqueue rs q) = contents q @ map stored (acceptedSubs enqueue rs q)"
proof (induction rs arbitrary: q)
  case (Cons r rs)
  obtain q1 e where e: "enqueue q r = (q1, e)" by force
  from enqueue_invar [OF Cons.prems, of r] enqueue_contents [OF Cons.prems, of r] Cons.IH [of q1] e show ?case by (cases e) simp_all
qed simp

lemma dequeue_outcome:
  assumes "invar q" "dequeue q None = (q2, d)"
  obtains "contents q = []" "d = Blocked" "q2 = q" | r where "d = Got r" "contents q = r # contents q2"
proof (cases "contents q")
  case Nil
  with dequeue_waits [OF assms(1)] assms(2) that(1) show thesis by simp
next
  case (Cons r rs)
  with dequeue_next [OF assms(1)] assms(2) that(2) [of r] show thesis by simp
qed

text \<open>Nothing is lost, doubled or reordered: what was executed and what still waits is what was there and what was accepted.\<close>

lemma worker_accounts:
  "invar q \<Longrightarrow> case worker enqueue dequeue (quietRounds subss) q of
     (reqs, q') \<Rightarrow> invar q' \<and> reqs @ contents q' = contents q @ map stored (accepted enqueue dequeue subss q)"
proof (induction subss arbitrary: q)
  case (Cons subs subss)
  let ?q1 = "submitAll enqueue subs q"
  note sub = submitAll_contents [OF Cons.prems, of subs]
  obtain q2 d where d: "dequeue ?q1 None = (q2, d)" by force
  from dequeue_invar [OF sub [THEN conjunct1], of None] d have inv2: "invar q2" by simp
  obtain reqs q3 where w: "worker enqueue dequeue (quietRounds subss) q2 = (reqs, q3)" by force
  from sub [THEN conjunct1] d show ?case
  proof (cases rule: dequeue_outcome)
    case 1
    with Cons.IH [OF inv2] d w sub show ?thesis by (simp add: quietRounds_def)
  next
    case (2 r)
    with Cons.IH [OF inv2] d w sub show ?thesis by (simp add: quietRounds_def)
  qed
qed (simp add: quietRounds_def)

lemma worker_append:
  "invar q \<Longrightarrow> worker enqueue dequeue (quietRounds (as @ bs)) q =
     (case worker enqueue dequeue (quietRounds as) q of (r1, q1) \<Rightarrow> case worker enqueue dequeue (quietRounds bs) q1 of (r2, q2) \<Rightarrow> (r1 @ r2, q2))"
proof (induction as arbitrary: q)
  case (Cons subs as)
  let ?q1 = "submitAll enqueue subs q"
  note sub = submitAll_contents [OF Cons.prems, of subs]
  obtain q2 d where d: "dequeue ?q1 None = (q2, d)" by force
  from dequeue_invar [OF sub [THEN conjunct1], of None] d have inv2: "invar q2" by simp
  from sub [THEN conjunct1] d have "d = Blocked \<or> (\<exists>r. d = Got r)" by (cases rule: dequeue_outcome) auto
  with Cons.IH [OF inv2] d show ?case by (auto simp: quietRounds_def split: prod.split)
qed (simp add: quietRounds_def split: prod.split)

lemma worker_catches_up:
  "invar q \<Longrightarrow> length (contents q) \<le> k \<Longrightarrow> contents (snd (worker enqueue dequeue (quietRounds (replicate k [])) q)) = []"
proof (induction k arbitrary: q)
  case (Suc k)
  obtain q2 d where d: "dequeue q None = (q2, d)" by force
  have inv2: "invar q2" using dequeue_invar [OF Suc.prems(1), of None] d by simp
  from Suc.prems(1) d have "(d = Blocked \<or> (\<exists>r. d = Got r)) \<and> length (contents q2) \<le> k"
    by (cases rule: dequeue_outcome) (use Suc.prems(2) in auto)
  with Suc.IH [OF inv2] d show ?case by (auto simp: quietRounds_def split: prod.split)
qed (simp add: quietRounds_def)

lemma worker_serves_all:
  assumes "invar q" "\<And>q'. invar q' \<Longrightarrow> length (contents q') \<le> k"
  shows "fst (worker enqueue dequeue (quietRounds (subss @ replicate k [])) q) = contents q @ map stored (accepted enqueue dequeue (subss @ replicate k []) q)"
proof -
  obtain r1 q1 where w1: "worker enqueue dequeue (quietRounds subss) q = (r1, q1)" by force
  with worker_accounts [OF assms(1), of subss] have "invar q1" by simp
  from worker_catches_up [OF this assms(2) [OF this]] have "contents (snd (worker enqueue dequeue (quietRounds (subss @ replicate k [])) q)) = []"
    by (simp add: worker_append [OF assms(1)] w1 case_prod_unfold)
  with worker_accounts [OF assms(1), of "subss @ replicate k []"] show ?thesis by (auto split: prod.splits)
qed

end

interpretation mqb: queue_backend mq_Enqueue mq_Dequeue mq_ch "\<lambda>r. r" "\<lambda>m. \<not> mq_closed m \<and> length (mq_ch m) \<le> mq_cap m"
  by unfold_locales (auto simp: mq_Enqueue_def mq_Dequeue_def split: list.split option.split)

interpretation mqw: waiting_queue mq_Enqueue mq_Dequeue mq_ch "\<lambda>r. r" "\<lambda>m. \<not> mq_closed m \<and> mq_cap m = n \<and> length (mq_ch m) \<le> n" for n
  by unfold_locales (auto simp: mq_Enqueue_def mq_Dequeue_def split: list.split option.split)

interpretation rdb: queue_backend "\<lambda>q. rd_Enqueue q None" rd_Dequeue rev redisQueueItem "\<lambda>q. True"
  by unfold_locales (auto simp: rd_Enqueue_def rd_Dequeue_def rev_eq_Cons_iff split: option.split)

section \<open>Properties\<close>

definition example_run_request :: "string \<Rightarrow> RunRequest" where
  "example_run_request i = \<lparr>rq_RunID = i, rq_AgentName = ''a'', rq_Goal = ''g'', rq_Source = ''api'', rq_Outputs = [], rq_MaxRetries = 2,
     rq_RetryBackoff = 0, rq_Timeout = 0, rq_Callback = True\<rparr>"

lemma mq_fill:
  "\<not> mq_closed m \<Longrightarrow> length (mq_ch m) + length rs \<le> mq_cap m \<Longrightarrow> mqb.enqueueAll rs m = Some (m\<lparr>mq_ch := mq_ch m @ rs\<rparr>)"
  by (induction rs arbitrary: m) (simp_all add: mq_Enqueue_def)

text \<open>
  The memory queue is a bounded FIFO queue: as long as no more requests are submitted than its
  capacity, every one is accepted and a worker executes them in the order of submission; the next
  submission is refused and leaves the queue as it is.
\<close>

theorem memory_queue_fifo:
  assumes "0 < sz" "int (length rs) \<le> sz"
  shows "fst (worker mq_Enqueue mq_Dequeue ((rs, False, None) # replicate (length rs - 1) ([], False, None)) (NewMemoryQueue sz)) = rs
    \<and> (int (length rs) = sz \<longrightarrow> mq_Enqueue (submitAll mq_Enqueue rs (NewMemoryQueue sz)) r =
         (submitAll mq_Enqueue rs (NewMemoryQueue sz), Some (Errorf ''runner queue is full'')))"
proof -
  let ?q = "NewMemoryQueue sz"
  let ?f = "?q\<lparr>mq_ch := rs\<rparr>"
  have fill: "mqb.enqueueAll rs ?q = Some ?f"
    using mq_fill[of ?q rs] assms by (simp add: NewMemoryQueue_def)
  then have sub: "submitAll mq_Enqueue rs ?q = ?f"
    using mqb.enqueueAll_contents[of ?q rs ?f] by (simp add: NewMemoryQueue_def)
  have "fst (worker mq_Enqueue mq_Dequeue ((rs, False, None) # replicate (length rs - 1) ([], False, None)) ?q) = rs"
  proof (cases rs)
    case Nil
    then show ?thesis by (simp add: NewMemoryQueue_def mq_Dequeue_def)
  next
    case (Cons r' rs')
    have "fst (worker mq_Enqueue mq_Dequeue (replicate (length rs) ([], False, None)) ?f) = rs"
      using mqb.fifo[of ?q rs ?f] fill by (simp add: NewMemoryQueue_def)
    then show ?thesis using sub Cons by simp
  qed
  moreover have "int (length rs) = sz \<longrightarrow> mq_Enqueue ?f r = (?f, Some (Errorf ''runner queue is full''))"
    using assms by (auto simp: mq_Enqueue_def NewMemoryQueue_def)
  ultimately show ?thesis using sub by simp
qed

theorem memory_queue_fifo_witness:
  "map rq_RunID (fst (worker mq_Enqueue mq_Dequeue [(map example_run_request [''x'', ''y''], False, None), ([], False, None)] (NewMemoryQueue 2))) = [''x'', ''y'']"
  using memory_queue_fifo[of 2 "map example_run_request [''x'', ''y'']"] by (simp add: example_run_request_def)


text \<open>
  The Redis queue does not wait for ever: a blocking pop that meets nothing for its timeout is reported like a closed queue, and the worker returns.
\<close>

lemma redis_worker_stops_when_idle:
  "worker (\<lambda>q. rd_Enqueue q None) rd_Dequeue (([], False, None) # rounds) [] = ([], [])"
  by (simp add: rd_Dequeue_def)

text \<open>
  C17. A worker on the memory queue serves everything that is accepted, in order and once: take any number of rounds, between which any requests are submitted, some of them
  refused because the queue is full. When the submissions pause for as many rounds as the queue has places, the worker has executed
  exactly the accepted requests, in the order of their submission, and the queue is empty; and a request is refused only when the queue holds as many as it has places.
\<close>

theorem memory_worker_serves_all:
  "fst (worker mq_Enqueue mq_Dequeue (quietRounds (subss @ replicate (mq_cap (NewMemoryQueue sz)) [])) (NewMemoryQueue sz)) =
     accepted mq_Enqueue mq_Dequeue (subss @ replicate (mq_cap (NewMemoryQueue sz)) []) (NewMemoryQueue sz) \<and>
   mq_ch (snd (worker mq_Enqueue mq_Dequeue (quietRounds (subss @ replicate (mq_cap (NewMemoryQueue sz)) [])) (NewMemoryQueue sz))) = [] \<and>
   (snd (mq_Enqueue (snd (worker mq_Enqueue mq_Dequeue (quietRounds subss) (NewMemoryQueue sz))) req) \<noteq> None \<longleftrightarrow>
     length (mq_ch (snd (worker mq_Enqueue mq_Dequeue (quietRounds subss) (NewMemoryQueue sz)))) = mq_cap (NewMemoryQueue sz))"
proof -
  let ?q = "NewMemoryQueue sz" let ?n = "mq_cap ?q"
  have inv: "\<not> mq_closed ?q \<and> mq_cap ?q = ?n \<and> length (mq_ch ?q) \<le> ?n" by (simp add: NewMemoryQueue_def)
  have empty: "mq_ch ?q = []" by (simp add: NewMemoryQueue_def)
  let ?w = "worker mq_Enqueue mq_Dequeue (quietRounds (subss @ replicate ?n [])) ?q"
  have all: "fst ?w = accepted mq_Enqueue mq_Dequeue (subss @ replicate ?n []) ?q"
    using mqw.worker_serves_all [where n = ?n and q = ?q and k = ?n and subss = subss] inv empty by simp
  moreover have "fst ?w @ mq_ch (snd ?w) = accepted mq_Enqueue mq_Dequeue (subss @ replicate ?n []) ?q"
    using mqw.worker_accounts [where n = ?n and q = ?q and subss = "subss @ replicate ?n []"] inv empty by (simp add: case_prod_unfold)
  moreover have "\<not> mq_closed m \<and> mq_cap m = ?n \<and> length (mq_ch m) \<le> ?n" if "m = snd (worker mq_Enqueue mq_Dequeue (quietRounds subss) ?q)" for m
    using mqw.worker_accounts [where n = ?n and q = ?q and subss = subss] inv that by (simp add: case_prod_unfold)
  ultimately show ?thesis by (simp add: mq_Enqueue_def)
qed

end
