(* ===== verification/Runner.thy ===== *)
theory Runner
  imports Run_Queue
begin

text \<open>
  Execution of a queued run, \<open>pkg/orchestrate/runner.go\<close>: the retry loop, what it persists (run record,
  events, dead letter) and the callback. The record \<open>run_world\<close> holds what one execution sees: the
  answers of the step executor, the clock, the state of its context and the answers of the database
  driver. A database call under a context that is done fails with the context's error, as
  \<open>database/sql\<close> documents. Metrics counters are left out.
\<close>

section \<open>Data\<close>

record RunMeta =
  rm_RunID :: string
  rm_AgentName :: string
  rm_Goal :: string
  rm_State :: string
  rm_StepCount :: int
  rm_CreatedAt :: int
  rm_UpdatedAt :: int

record DeadLetter =
  dl_RunID :: string
  dl_AgentName :: string
  dl_Goal :: string
  dl_Source :: string
  dl_Error :: string
  dl_Payload :: "any smap"
  dl_Attempt :: int
  dl_MaxRetries :: int
  dl_FailedAt :: int

datatype EventType = EventInit | EventReasoning | EventCompleted | EventError | EventInterrupted

record RunEvent =
  re_Type :: EventType
  re_Agent :: string
  re_Data :: "any smap"

record run_db =
  db_runs :: "RunMeta smap"
  db_events :: "(string \<times> RunEvent) list"
  db_dead :: "DeadLetter list"

text \<open>The server as far as a run changes it: its store, which may be nil, the event hub, and the callbacks made.\<close>

record runner_state =
  rn_db :: "run_db option"
  rn_hub :: "(string \<times> RunEvent) list"
  rn_callbacks :: "(string \<times> string \<times> any \<times> gerror option) list"

record run_world =
  wd_started :: int
  wd_ctxStart :: "gerror option"
  wd_attempt :: "nat \<Rightarrow> gerror + (any \<times> int)"
  wd_abort :: "nat \<Rightarrow> gerror option"
  wd_ctxEnd :: "gerror option"
  wd_end :: int
  wd_driver :: "string \<Rightarrow> nat \<Rightarrow> gerror option"

section \<open>Persistence\<close>

definition store_busy :: "gerror \<Rightarrow> bool" where
  "store_busy err = (let msg = ToLower (error_string err) in Contains msg ''sqlite_busy'' \<or> Contains msg ''database is locked'')"

fun storeRetry :: "(nat \<Rightarrow> gerror option) \<Rightarrow> nat \<Rightarrow> nat \<Rightarrow> gerror option \<Rightarrow> gerror option" where
  "storeRetry fn 0 attempt lastErr = lastErr"
| "storeRetry fn (Suc n) attempt lastErr =
     (case fn attempt of
        None \<Rightarrow> None
      | Some err \<Rightarrow> if store_busy err then storeRetry fn n (attempt + 1) (Some err) else Some err)"

definition withStoreRetry :: "(nat \<Rightarrow> gerror option) \<Rightarrow> gerror option" where
  "withStoreRetry fn = storeRetry fn 4 1 None"

definition dbcall :: "gerror option \<Rightarrow> (nat \<Rightarrow> gerror option) \<Rightarrow> nat \<Rightarrow> gerror option" where
  "dbcall ctx driver n = (case ctx of Some err \<Rightarrow> Some err | None \<Rightarrow> driver n)"

text \<open>A write through \<open>withStoreRetry\<close>: the database changes only when the last call succeeded.\<close>

definition saveWith :: "run_world \<Rightarrow> gerror option \<Rightarrow> string \<Rightarrow> (run_db \<Rightarrow> run_db) \<Rightarrow> runner_state \<Rightarrow> runner_state" where
  "saveWith w ctx op change s =
     (case rn_db s of
        None \<Rightarrow> s
      | Some db \<Rightarrow>
          (case withStoreRetry (dbcall ctx (wd_driver w op)) of
             Some err \<Rightarrow> s
           | None \<Rightarrow> s\<lparr>rn_db := Some (change db)\<rparr>))"

definition saveRunWithRetry :: "run_world \<Rightarrow> gerror option \<Rightarrow> RunMeta \<Rightarrow> runner_state \<Rightarrow> runner_state" where
  "saveRunWithRetry w ctx meta s =
     saveWith w ctx ''run'' (\<lambda>db. db\<lparr>db_runs := AList.update (rm_RunID meta) meta (db_runs db)\<rparr>) s"

definition emitEvent :: "run_world \<Rightarrow> gerror option \<Rightarrow> RunRequest \<Rightarrow> EventType \<Rightarrow> any smap \<Rightarrow> runner_state \<Rightarrow> runner_state" where
  "emitEvent w ctx req ty data s =
     (let evt = \<lparr>re_Type = ty, re_Agent = rq_AgentName req, re_Data = data\<rparr>
      in saveWith w ctx ''event'' (\<lambda>db. db\<lparr>db_events := db_events db @ [(rq_RunID req, evt)]\<rparr>)
           (s\<lparr>rn_hub := rn_hub s @ [(rq_RunID req, evt)]\<rparr>))"

definition deadLetterFor :: "run_world \<Rightarrow> RunRequest \<Rightarrow> gerror \<Rightarrow> nat \<Rightarrow> nat \<Rightarrow> DeadLetter" where
  "deadLetterFor w req err attempt maxAttempts =
     \<lparr>dl_RunID = rq_RunID req, dl_AgentName = rq_AgentName req, dl_Goal = rq_Goal req, dl_Source = rq_Source req,
      dl_Error = error_string err, dl_Payload = json_norm_map (rq_Outputs req), dl_Attempt = int attempt,
      dl_MaxRetries = int maxAttempts - 1, dl_FailedAt = wd_end w\<rparr>"

definition persistDeadLetter :: "run_world \<Rightarrow> gerror option \<Rightarrow> RunRequest \<Rightarrow> gerror \<Rightarrow> nat \<Rightarrow> nat \<Rightarrow> runner_state \<Rightarrow> runner_state" where
  "persistDeadLetter w ctx req err attempt maxAttempts s =
     saveWith w ctx ''deadletter'' (\<lambda>db. db\<lparr>db_dead := db_dead db @ [deadLetterFor w req err attempt maxAttempts]\<rparr>) s"

section \<open>The retry loop\<close>

definition is_interrupt :: "gerror \<Rightarrow> bool" where
  "is_interrupt err = (errors_is err Canceled \<or> errors_is err DeadlineExceeded)"

text \<open>
  \<open>n\<close> is the number of attempts left after this one. The result is the attempt that succeeded with its
  output, or the last attempt with its error, and the attempts that were announced as retries.
\<close>

fun attemptLoop :: "run_world \<Rightarrow> nat \<Rightarrow> nat \<Rightarrow> ((nat \<times> gerror) + (nat \<times> any \<times> int)) \<times> (nat \<times> gerror) list" where
  "attemptLoop w n attempt =
     (case wd_attempt w attempt of
        Inr (out, ms) \<Rightarrow> (Inr (attempt, out, ms), [])
      | Inl err \<Rightarrow>
          (case n of
             0 \<Rightarrow> (Inl (attempt, err), [])
           | Suc m \<Rightarrow>
               if is_interrupt err then (Inl (attempt, err), [])
               else (case wd_abort w attempt of
                       Some e \<Rightarrow> (Inl (attempt, e), [(attempt, err)])
                     | None \<Rightarrow> (case attemptLoop w m (attempt + 1) of (r, evs) \<Rightarrow> (r, (attempt, err) # evs)))))"

declare attemptLoop.simps [simp del]

text \<open>\<open>MaxRetries + 1\<close> at 64 bits: the largest number of retries wraps round to a negative one.\<close>

definition maxAttempts :: "RunRequest \<Rightarrow> nat" where
  "maxAttempts req =
     (let n = (if rq_MaxRetries req = 2 ^ 63 - 1 then - (2 ^ 63) else rq_MaxRetries req + 1)
      in if n < 1 then 1 else nat n)"

definition classifyFailureReason :: "gerror option \<Rightarrow> string" where
  "classifyFailureReason err =
     (case err of
        None \<Rightarrow> ''unknown''
      | Some e \<Rightarrow> if errors_is e DeadlineExceeded then ''timeout''
                 else if errors_is e Canceled then ''cancelled'' else ''execution_error'')"

section \<open>execute\<close>

definition runMeta :: "run_world \<Rightarrow> RunRequest \<Rightarrow> RunMeta" where
  "runMeta w req = \<lparr>rm_RunID = rq_RunID req, rm_AgentName = rq_AgentName req, rm_Goal = rq_Goal req, rm_State = ''running'', rm_StepCount = 0,
     rm_CreatedAt = wd_started w, rm_UpdatedAt = wd_started w\<rparr>"

text \<open>\<open>persistCtx\<close> is created when the execution starts, with a timeout of two seconds.\<close>

definition persistCtx :: "run_world \<Rightarrow> gerror option" where
  "persistCtx w = (if wd_end w \<ge> wd_started w + 2 * 1000000000 then Some DeadlineExceeded else None)"

definition completedData :: "any \<Rightarrow> int \<Rightarrow> nat \<Rightarrow> nat \<Rightarrow> any smap" where
  "completedData out ms attempt m =
     [(''status'', AStr ''completed''), (''durationMs'', AInt ms), (''attempt'', AInt (int attempt)), (''maxAttempts'', AInt (int m))] @
     (case out of
        AMap o' \<Rightarrow> (case map_of o' ''last_result'' of None \<Rightarrow> [] | Some ANil \<Rightarrow> [] | Some lr \<Rightarrow> [(''last_result'', lr)])
      | _ \<Rightarrow> [])"

definition callback :: "RunRequest \<Rightarrow> string \<Rightarrow> any \<Rightarrow> gerror option \<Rightarrow> runner_state \<Rightarrow> runner_state" where
  "callback req st out err s =
     (if rq_Callback req then s\<lparr>rn_callbacks := rn_callbacks s @ [(rq_RunID req, st, out, err)]\<rparr> else s)"

definition startRun :: "run_world \<Rightarrow> RunRequest \<Rightarrow> runner_state \<Rightarrow> runner_state" where
  "startRun w req s =
     emitEvent w (wd_ctxStart w) req EventInit [(''source'', AStr (rq_Source req)), (''goal'', AStr (rq_Goal req))]
       (saveRunWithRetry w (wd_ctxStart w) (runMeta w req) s)"

definition retryEvents :: "run_world \<Rightarrow> RunRequest \<Rightarrow> nat \<Rightarrow> (nat \<times> gerror) list \<Rightarrow> runner_state \<Rightarrow> runner_state" where
  "retryEvents w req m evs s =
     fold (\<lambda>(a, err). emitEvent w None req EventReasoning
       [(''type'', AStr ''retry''), (''attempt'', AInt (int a)), (''maxAttempts'', AInt (int m)), (''error'', AStr (error_string err))]) evs s"

definition finalError :: "run_world \<Rightarrow> gerror \<Rightarrow> gerror" where
  "finalError w err = (case wd_ctxEnd w of Some e \<Rightarrow> e | None \<Rightarrow> err)"

definition execute :: "run_world \<Rightarrow> RunRequest \<Rightarrow> runner_state \<Rightarrow> runner_state" where
  "execute w req s =
     (let m = maxAttempts req; pctx = persistCtx w
      in case attemptLoop w (m - 1) 1 of
           (Inr (attempt, out, ms), evs) \<Rightarrow>
             (let meta = (runMeta w req)\<lparr>rm_State := ''completed'', rm_UpdatedAt := wd_end w\<rparr>
              in callback req ''completed'' out None
                   (emitEvent w pctx req EventCompleted (completedData out ms attempt m)
                     (saveRunWithRetry w pctx meta (retryEvents w req m evs (startRun w req s)))))
         | (Inl (attempt, err), evs) \<Rightarrow>
             (let ferr = finalError w err;
                  st = (if is_interrupt ferr then ''interrupted'' else ''failed'');
                  meta = (runMeta w req)\<lparr>rm_State := st, rm_UpdatedAt := wd_end w\<rparr>;
                  s1 = emitEvent w pctx req (if is_interrupt ferr then EventInterrupted else EventError)
                         [(''error'', AStr (error_string ferr)), (''attempt'', AInt (int attempt)), (''maxAttempts'', AInt (int m))]
                         (saveRunWithRetry w pctx meta (retryEvents w req m evs (startRun w req s)))
              in callback req st ANil (Some ferr)
                   (if st = ''failed'' then persistDeadLetter w pctx req ferr attempt m s1 else s1)))"

section \<open>Lemmas\<close>

lemma withStoreRetry_ctx: "withStoreRetry (dbcall (Some e) d) \<noteq> None"
proof -
  have "storeRetry (dbcall (Some e) d) n a (Some l) \<noteq> None" for n a l
    by (induction n arbitrary: a l) (simp_all add: dbcall_def)
  from this[of 3] show ?thesis by (simp add: withStoreRetry_def dbcall_def numeral_eq_Suc)
qed

lemma withStoreRetry_fine: "d 1 = None \<Longrightarrow> withStoreRetry (dbcall None d) = None"
  by (simp add: withStoreRetry_def dbcall_def numeral_eq_Suc)

lemma saveWith_expired [simp]: "saveWith w (Some e) op f s = s"
  using withStoreRetry_ctx[of e "wd_driver w op"] by (auto simp: saveWith_def split: option.split)

lemma saveWith_fine:
  "wd_driver w op 1 = None \<Longrightarrow> saveWith w None op f s = s\<lparr>rn_db := map_option f (rn_db s)\<rparr>"
  by (cases "rn_db s") (simp_all add: saveWith_def withStoreRetry_fine)

lemma saveWith_hub [simp]: "rn_hub (saveWith w ctx op f s) = rn_hub s" "rn_callbacks (saveWith w ctx op f s) = rn_callbacks s"
  by (simp_all add: saveWith_def split: option.split)

lemma emitEvent_callbacks [simp]: "rn_callbacks (emitEvent w ctx req ty data s) = rn_callbacks s"
  by (simp add: emitEvent_def Let_def)

text \<open>An event changes neither the run records nor the dead letters.\<close>

definition core :: "runner_state \<Rightarrow> (RunMeta smap \<times> DeadLetter list) option" where
  "core s = map_option (\<lambda>db. (db_runs db, db_dead db)) (rn_db s)"

lemma core_emitEvent [simp]: "core (emitEvent w ctx req ty data s) = core s"
  by (auto simp: emitEvent_def Let_def saveWith_def core_def split: option.split)

lemma core_retryEvents [simp]: "core (retryEvents w req m evs s) = core s"
  unfolding retryEvents_def by (induction evs arbitrary: s) (auto split: prod.split)

lemma callbacks_retryEvents [simp]: "rn_callbacks (retryEvents w req m evs s) = rn_callbacks s"
  unfolding retryEvents_def by (induction evs arbitrary: s) (auto split: prod.split)

lemma core_callback [simp]: "core (callback req st out err s) = core s"
  by (simp add: callback_def core_def)

lemma core_saveRun_fine:
  "wd_driver w ''run'' 1 = None \<Longrightarrow>
     core (saveRunWithRetry w None meta s) = map_option (\<lambda>(runs, dead). (AList.update (rm_RunID meta) meta runs, dead)) (core s)"
  by (cases "rn_db s") (simp_all add: saveRunWithRetry_def saveWith_fine core_def)

lemma core_saveRun_expired [simp]: "saveRunWithRetry w (Some e) meta s = s"
  by (simp add: saveRunWithRetry_def)

lemma core_startRun:
  "wd_driver w ''run'' 1 = None \<Longrightarrow> wd_ctxStart w = None \<Longrightarrow>
     core (startRun w req s) = map_option (\<lambda>(runs, dead). (AList.update (rq_RunID req) (runMeta w req) runs, dead)) (core s)"
  by (simp add: startRun_def core_saveRun_fine) (simp add: runMeta_def)

lemma callbacks_startRun [simp]: "rn_callbacks (startRun w req s) = rn_callbacks s"
  by (simp add: startRun_def saveRunWithRetry_def)

text \<open>Where the retry loop can stop.\<close>

lemma attemptLoop_result:
  "attemptLoop w n a = (r, evs) \<Longrightarrow>
     (case r of
        Inr (k, out, ms) \<Rightarrow> a \<le> k \<and> k \<le> a + n \<and> wd_attempt w k = Inr (out, ms)
      | Inl (k, err) \<Rightarrow> a \<le> k \<and> k \<le> a + n \<and>
          ((\<exists>e. wd_attempt w k = Inl e \<and> err = e \<and> (k = a + n \<or> is_interrupt e)) \<or> wd_abort w k = Some err)) \<and>
     length evs \<le> n"
proof (induction n arbitrary: a r evs)
  case 0
  then show ?case by (subst (asm) attemptLoop.simps) (auto split: sum.splits)
next
  case (Suc n)
  show ?case
  proof (cases "wd_attempt w a")
    case (Inr p)
    with Suc.prems show ?thesis by (subst (asm) attemptLoop.simps) (cases p; auto)
  next
    case (Inl err)
    show ?thesis
    proof (cases "is_interrupt err \<or> wd_abort w a \<noteq> None")
      case True
      with Suc.prems Inl show ?thesis by (subst (asm) attemptLoop.simps) (auto split: if_splits option.splits)
    next
      case False
      obtain r' evs' where rec: "attemptLoop w n (a + 1) = (r', evs')" by force
      with Suc.prems Inl False have "r = r'" "evs = (a, err) # evs'" by (subst (asm) attemptLoop.simps; auto)+
      with Suc.IH[OF rec] show ?thesis by (auto split: sum.splits prod.splits)
    qed
  qed
qed

lemma maxAttempts_pos: "0 < maxAttempts req"
  by (simp add: maxAttempts_def)

text \<open>What \<open>execute\<close> leaves of the run records and dead letters, by the result of the retry loop.\<close>

lemma core_SomeD: "core s = Some (runs, dead) \<Longrightarrow> \<exists>db. rn_db s = Some db \<and> db_runs db = runs \<and> db_dead db = dead"
  by (auto simp: core_def)

lemma core_persistDeadLetter:
  "wd_driver w ''deadletter'' 1 = None \<Longrightarrow> core s = Some (runs, dead) \<Longrightarrow>
     core (persistDeadLetter w None req err a m s) = Some (runs, dead @ [deadLetterFor w req err a m])"
  by (auto simp: persistDeadLetter_def saveWith_fine core_def)

lemma rm_RunID_runMeta [simp]: "rm_RunID (runMeta w req) = rq_RunID req"
  by (simp add: runMeta_def)

lemma execute_completed:
  assumes "attemptLoop w (maxAttempts req - 1) 1 = (Inr (k, out, ms), evs)" "wd_driver w ''run'' 1 = None" "persistCtx w = None"
    "core (startRun w req s) = Some (runs, dead)"
  shows "core (execute w req s) = Some (AList.update (rq_RunID req) ((runMeta w req)\<lparr>rm_State := ''completed'', rm_UpdatedAt := wd_end w\<rparr>) runs, dead)"
  using assms by (simp add: execute_def Let_def core_saveRun_fine)

lemma execute_failed:
  assumes "attemptLoop w (maxAttempts req - 1) 1 = (Inl (k, err), evs)" "wd_driver w ''run'' 1 = None" "wd_driver w ''deadletter'' 1 = None"
    "persistCtx w = None" "core (startRun w req s) = Some (runs, dead)"
  defines "st \<equiv> if is_interrupt (finalError w err) then ''interrupted'' else ''failed''"
  shows "\<exists>extra. core (execute w req s) = Some (AList.update (rq_RunID req) ((runMeta w req)\<lparr>rm_State := st, rm_UpdatedAt := wd_end w\<rparr>) runs, dead @ extra) \<and>
    extra = (if st = ''failed'' then [deadLetterFor w req (finalError w err) k (maxAttempts req)] else [])"
proof -
  let ?meta = "(runMeta w req)\<lparr>rm_State := st, rm_UpdatedAt := wd_end w\<rparr>"
  define s1 where "s1 = emitEvent w None req (if is_interrupt (finalError w err) then EventInterrupted else EventError)
    [(''error'', AStr (error_string (finalError w err))), (''attempt'', AInt (int k)), (''maxAttempts'', AInt (int (maxAttempts req)))]
    (saveRunWithRetry w None ?meta (retryEvents w req (maxAttempts req) evs (startRun w req s)))"
  have s1: "core s1 = Some (AList.update (rq_RunID req) ?meta runs, dead)"
    using assms(2,5) by (simp add: s1_def core_saveRun_fine)
  have "core (execute w req s) = core (if st = ''failed'' then persistDeadLetter w None req (finalError w err) k (maxAttempts req) s1 else s1)"
    using assms(1,4) by (simp add: execute_def Let_def s1_def st_def)
  with s1 core_persistDeadLetter[OF assms(3) s1, of req "finalError w err" k "maxAttempts req"] show ?thesis by auto
qed

lemma callbacks_execute:
  "map (\<lambda>c. fst (snd c)) (rn_callbacks (execute w req s)) = map (\<lambda>c. fst (snd c)) (rn_callbacks s) @
     (if rq_Callback req then [case fst (attemptLoop w (maxAttempts req - 1) 1) of Inr _ \<Rightarrow> ''completed''
        | Inl (k, err) \<Rightarrow> if is_interrupt (finalError w err) then ''interrupted'' else ''failed''] else [])"
  by (auto simp: execute_def Let_def callback_def persistDeadLetter_def saveRunWithRetry_def split: prod.splits sum.splits)

section \<open>Properties\<close>

text \<open>
  C18. A run that finishes within two seconds, with a database that answers, is recorded exactly as it
  ended: its state is completed, failed or interrupted, a dead letter is added exactly when it failed, by
  an attempt within \<open>MaxRetries + 1\<close>, and the callback is made once with the same state.
\<close>

theorem execute_records_outcome:
  assumes "rn_db s = Some db" "\<And>op. wd_driver w op 1 = None" "wd_ctxStart w = None" "wd_end w < wd_started w + 2 * 1000000000"
  shows "\<exists>db' st. rn_db (execute w req s) = Some db' \<and> st \<in> {''completed'', ''failed'', ''interrupted''}
    \<and> map_option rm_State (map_of (db_runs db') (rq_RunID req)) = Some st
    \<and> (st = ''completed'' \<longleftrightarrow> (\<exists>r. fst (attemptLoop w (maxAttempts req - 1) 1) = Inr r))
    \<and> (if st = ''failed''
       then \<exists>dl. db_dead db' = db_dead db @ [dl] \<and> dl_RunID dl = rq_RunID req \<and> 1 \<le> dl_Attempt dl \<and> dl_Attempt dl \<le> max 1 (rq_MaxRetries req + 1)
       else db_dead db' = db_dead db)
    \<and> map (\<lambda>c. fst (snd c)) (rn_callbacks (execute w req s)) = map (\<lambda>c. fst (snd c)) (rn_callbacks s) @ (if rq_Callback req then [st] else [])"
proof -
  let ?m = "maxAttempts req"
  have p: "persistCtx w = None" using assms(4) by (simp add: persistCtx_def)
  obtain r evs where al: "attemptLoop w (?m - 1) 1 = (r, evs)" by force
  have start: "core (startRun w req s) = Some (AList.update (rq_RunID req) (runMeta w req) (db_runs db), db_dead db)"
    using core_startRun[OF assms(2)[of "''run''"] assms(3), of req s] assms(1) by (simp add: core_def)
  show ?thesis
  proof (cases r)
    case (Inr q)
    obtain k out ms where q: "q = (k, out, ms)" by (cases q)
    with execute_completed[of w req k out ms evs s, OF _ assms(2) p start] al Inr
    obtain db' where "rn_db (execute w req s) = Some db'" "db_dead db' = db_dead db"
      "map_option rm_State (map_of (db_runs db') (rq_RunID req)) = Some ''completed''" by (auto dest!: core_SomeD)
    with al Inr q callbacks_execute[of w req s] show ?thesis by (intro exI[of _ db'] exI[of _ "''completed''"]) simp
  next
    case (Inl q)
    obtain k err where q: "q = (k, err)" by (cases q)
    let ?st = "if is_interrupt (finalError w err) then ''interrupted'' else ''failed''"
    have k: "1 \<le> k" "k \<le> ?m" using attemptLoop_result[OF al] maxAttempts_pos[of req] Inl q by auto
    then have k': "1 \<le> int k" "int k \<le> max 1 (rq_MaxRetries req + 1)" by (auto simp: maxAttempts_def Let_def split: if_splits)
    obtain extra where e: "core (execute w req s) = Some (AList.update (rq_RunID req) ((runMeta w req)\<lparr>rm_State := ?st, rm_UpdatedAt := wd_end w\<rparr>)
        (AList.update (rq_RunID req) (runMeta w req) (db_runs db)), db_dead db @ extra)"
      "extra = (if ?st = ''failed'' then [deadLetterFor w req (finalError w err) k ?m] else [])"
      using execute_failed[of w req k err evs s, OF _ assms(2) assms(2) p start] al Inl q by auto
    from core_SomeD[OF e(1)] obtain db' where db': "rn_db (execute w req s) = Some db'" "db_dead db' = db_dead db @ extra"
      "map_option rm_State (map_of (db_runs db') (rq_RunID req)) = Some ?st" by auto
    have "dl_RunID (deadLetterFor w req (finalError w err) k ?m) = rq_RunID req" "dl_Attempt (deadLetterFor w req (finalError w err) k ?m) = int k"
      by (simp_all add: deadLetterFor_def)
    with e(2) db' k' al Inl q callbacks_execute[of w req s] show ?thesis
      by (intro exI[of _ db'] exI[of _ ?st]) (auto split: if_splits)
  qed
qed

text \<open>A run whose second attempt succeeds, or that fails for good, taking \<open>t\<close> nanoseconds.\<close>

definition example_world :: "bool \<Rightarrow> int \<Rightarrow> run_world" where
  "example_world ok t = \<lparr>wd_started = 0, wd_ctxStart = None,
     wd_attempt = (\<lambda>k. if ok \<and> k = 2 then Inr (AStr ''out'', 7) else Inl (Errorf ''boom'')),
     wd_abort = (\<lambda>k. None), wd_ctxEnd = None, wd_end = t, wd_driver = (\<lambda>op n. None)\<rparr>"

definition empty_server :: runner_state where
  "empty_server = \<lparr>rn_db = Some \<lparr>db_runs = [], db_events = [], db_dead = []\<rparr>, rn_hub = [], rn_callbacks = []\<rparr>"

theorem execute_records_outcome_witness:
  "\<exists>db'. rn_db (execute (example_world False 1000) (example_run_request ''x'') empty_server) = Some db' \<and>
     map_option rm_State (map_of (db_runs db') ''x'') = Some ''failed'' \<and> length (db_dead db') = 1"
proof -
  let ?s = "execute (example_world False 1000) (example_run_request ''x'') empty_server"
  from execute_records_outcome[of empty_server _ "example_world False 1000" "example_run_request ''x''"]
  obtain db' st where db': "rn_db ?s = Some db'" "map_option rm_State (map_of (db_runs db') ''x'') = Some st"
    "if st = ''failed'' then \<exists>dl. db_dead db' = [dl] else db_dead db' = []"
    by (auto simp: empty_server_def example_world_def example_run_request_def split: if_splits)
  have "map_option (\<lambda>db. map_option rm_State (map_of (db_runs db) ''x'')) (rn_db ?s) = Some (Some ''failed'')" by code_simp
  with db' have "st = ''failed''" by auto
  with db' show ?thesis by auto
qed

text \<open>
  A run that takes two seconds or longer is never recorded as finished: the context used for the
  final writes is created when the run starts and has expired by then, so the record still says
  \<open>running\<close>, and a failed run leaves no dead letter.
\<close>

theorem long_run_stays_running:
  assumes "rn_db s = Some db" "\<And>op. wd_driver w op 1 = None" "wd_ctxStart w = None" "wd_started w + 2 * 1000000000 \<le> wd_end w"
  shows "\<exists>db'. rn_db (execute w req s) = Some db' \<and> map_option rm_State (map_of (db_runs db') (rq_RunID req)) = Some ''running''
    \<and> db_dead db' = db_dead db"
proof -
  have p: "persistCtx w = Some DeadlineExceeded" using assms(4) by (simp add: persistCtx_def)
  have start: "core (startRun w req s) = Some (AList.update (rq_RunID req) (runMeta w req) (db_runs db), db_dead db)"
    using core_startRun[OF assms(2)[of "''run''"] assms(3), of req s] assms(1) by (simp add: core_def)
  have "core (execute w req s) = core (startRun w req s)"
    by (auto simp: execute_def Let_def p persistDeadLetter_def split: prod.split sum.split)
  with start core_SomeD[of "execute w req s"] show ?thesis by (auto simp: runMeta_def)
qed

theorem long_run_stays_running_witness:
  "\<exists>db'. rn_db (execute (example_world True 2000000000) (example_run_request ''x'') empty_server) = Some db' \<and>
     map_option rm_State (map_of (db_runs db') ''x'') = Some ''running''"
  using long_run_stays_running[of empty_server _ "example_world True 2000000000" "example_run_request ''x''"]
  by (auto simp: empty_server_def example_world_def example_run_request_def)

end
