(* ===== verification/Workflow_Engine.thy ===== *)
theory Workflow_Engine
  imports Go_Prelude
begin

text \<open>
  The workflow engine of \<open>pkg/orchestrate/workflow.go\<close>, which runs a list of steps in sequence or in
  parallel, and the choice of a model for an agent, \<open>model_routing.go\<close>. The step executor, the CEL
  evaluator, the template engine, the context, the clock and the process environment are parameters.
  In a parallel workflow the outputs are written only after every goroutine has ended, so each step
  sees the outputs of the start.
\<close>

section \<open>Data\<close>

record WorkflowStep =
  ws_Name :: string
  ws_Agent :: string
  ws_Goal :: string
  ws_OutputKey :: string
  ws_Condition :: string
  ws_DependsOn :: "string list"
  ws_Timeout :: string
  ws_Retry :: int

record WorkflowConfig =
  wc_Name :: string
  wc_Description :: string
  wc_Steps :: "WorkflowStep list"
  wc_Parallel :: "WorkflowStep list"
  wc_Aggregate :: bool
  wc_Timeout :: string
  wc_OnError :: string

record StepResult =
  st_Name :: string
  st_Agent :: string
  st_Status :: string
  st_RunID :: string
  st_Output :: any
  st_Error :: string
  st_Duration :: int
  st_StartedAt :: int
  st_CompletedAt :: int

record WorkflowResult =
  wr_WorkflowName :: string
  wr_Status :: string
  wr_Steps :: "StepResult list"
  wr_Outputs :: "any smap"
  wr_StartedAt :: int
  wr_CompletedAt :: int
  wr_Duration :: int
  wr_Error :: string

text \<open>
  \<open>we_cel\<close> is \<open>None\<close> for a nil evaluator; \<open>we_exec\<close> is \<open>StepExecutor.ExecuteStep\<close>, \<open>None\<close> for a nil
  executor; \<open>we_render\<close> parses and executes a goal template. The executor, the context and the clock are
  asked at the position of the step, because their answers may change from one step to the next.
\<close>

record WorkflowEngine =
  we_cel :: "(string \<Rightarrow> any smap \<Rightarrow> gerror + bool) option"
  we_exec :: "(nat \<Rightarrow> string \<Rightarrow> string \<Rightarrow> any smap \<Rightarrow> gerror + StepResult) option"
  we_render :: "string \<Rightarrow> any smap \<Rightarrow> gerror + string"
  we_ctx :: "nat \<Rightarrow> gerror option"
  we_now :: "nat \<Rightarrow> int"

section \<open>Steps\<close>

definition SimulatedStep :: "int \<Rightarrow> string \<Rightarrow> string \<Rightarrow> any smap \<Rightarrow> gerror + StepResult" where
  "SimulatedStep now agentName goal outputs =
     Inr \<lparr>st_Name = agentName, st_Agent = agentName, st_Status = ''completed'', st_RunID = ''run-'' @ agentName @ ''-simulated'',
          st_Output = AMap [(''agent'', AStr agentName), (''goal'', AStr goal)], st_Error = [], st_Duration = 100000000,
          st_StartedAt = now - 100000000, st_CompletedAt = now\<rparr>"

definition renderGoalWithOutputs :: "WorkflowEngine \<Rightarrow> string \<Rightarrow> any smap \<Rightarrow> string" where
  "renderGoalWithOutputs w goalTemplate outputs =
     (case we_render w goalTemplate [(''Outputs'', AMap outputs), (''outputs'', AMap outputs)] of
        Inl err \<Rightarrow> goalTemplate
      | Inr s \<Rightarrow> s)"

definition evaluateCondition :: "WorkflowEngine \<Rightarrow> string \<Rightarrow> any smap \<Rightarrow> gerror + bool" where
  "evaluateCondition w condition outputs =
     (case we_cel w of None \<Rightarrow> Inr True | Some evaluate \<Rightarrow> evaluate condition [(''outputs'', AMap outputs)])"

definition executeStep :: "WorkflowEngine \<Rightarrow> nat \<Rightarrow> WorkflowStep \<Rightarrow> any smap \<Rightarrow> StepResult \<times> gerror option" where
  "executeStep w i step outputs =
     (let goal = renderGoalWithOutputs w (ws_Goal step) outputs;
          exec = (case we_exec w of None \<Rightarrow> SimulatedStep (we_now w i) | Some f \<Rightarrow> f i)
      in case exec (ws_Agent step) goal outputs of
           Inl err \<Rightarrow> (\<lparr>st_Name = ws_Name step, st_Agent = ws_Agent step, st_Status = ''failed'', st_RunID = [], st_Output = ANil,
                       st_Error = error_string err, st_Duration = 0, st_StartedAt = we_now w i, st_CompletedAt = we_now w i\<rparr>, Some err)
         | Inr r \<Rightarrow> (r\<lparr>st_Name := ws_Name step\<rparr>, None))"

definition storeOutput :: "WorkflowStep \<Rightarrow> StepResult \<Rightarrow> any smap \<Rightarrow> any smap" where
  "storeOutput step r outputs =
     (if ws_OutputKey step \<noteq> [] \<and> st_Output r \<noteq> ANil then AList.update (ws_OutputKey step) (st_Output r) outputs else outputs)"

definition skippedStep :: "WorkflowEngine \<Rightarrow> nat \<Rightarrow> WorkflowStep \<Rightarrow> StepResult" where
  "skippedStep w i step = \<lparr>st_Name = ws_Name step, st_Agent = [], st_Status = ''skipped'', st_RunID = [], st_Output = ANil, st_Error = [],
     st_Duration = 0, st_StartedAt = we_now w i, st_CompletedAt = we_now w i\<rparr>"

fun executeSequential ::
    "WorkflowEngine \<Rightarrow> string \<Rightarrow> nat \<Rightarrow> WorkflowStep list \<Rightarrow> StepResult list \<times> any smap \<Rightarrow> (StepResult list \<times> any smap) \<times> gerror option" where
  "executeSequential w onError i [] acc = (acc, None)"
| "executeSequential w onError i (step # rest) (steps, outputs) =
     (case we_ctx w i of
        Some err \<Rightarrow> ((steps, outputs), Some err)
      | None \<Rightarrow>
          (case (if ws_Condition step \<noteq> [] then evaluateCondition w (ws_Condition step) outputs else Inr True) of
             Inl err \<Rightarrow> ((steps, outputs), Some (Wrap (''evaluate condition for step '' @ ws_Name step @ '': '') err))
           | Inr False \<Rightarrow> executeSequential w onError (Suc i) rest (steps @ [skippedStep w i step], outputs)
           | Inr True \<Rightarrow>
               (case executeStep w i step outputs of
                  (r, Some err) \<Rightarrow>
                    if onError = ''continue'' then executeSequential w onError (Suc i) rest (steps @ [r], outputs)
                    else ((steps @ [r], outputs),
                          Some (Wrap (''step '' @ itoa (int i) @ '' ('' @ ws_Name step @ '') failed: '') err))
                | (r, None) \<Rightarrow> executeSequential w onError (Suc i) rest (steps @ [r], storeOutput step r outputs))))"

definition executeParallel :: "WorkflowEngine \<Rightarrow> WorkflowConfig \<Rightarrow> any smap \<Rightarrow> (StepResult list \<times> any smap) \<times> gerror option" where
  "executeParallel w config outputs =
     (let steps = wc_Parallel config;
          results = map (\<lambda>(i, step). executeStep w i step outputs) (enumerate 0 steps);
          outputs1 = fold (\<lambda>(step, r, err). storeOutput step r) (zip steps results) outputs;
          failed = (if wc_OnError config \<noteq> ''continue'' then filter (\<lambda>(step, r, err). err \<noteq> None) (zip steps results) else [])
      in ((map fst results, outputs1),
          (case failed of
             (step, r, Some err) # _ \<Rightarrow> Some (Wrap (''parallel step '' @ ws_Name step @ '' failed: '') err)
           | _ \<Rightarrow> None)))"

definition wf_Execute :: "WorkflowEngine \<Rightarrow> WorkflowConfig \<Rightarrow> int \<Rightarrow> int \<Rightarrow> WorkflowResult \<times> gerror option" where
  "wf_Execute w config started completed =
     (let run = (if wc_Steps config \<noteq> [] then executeSequential w (wc_OnError config) 0 (wc_Steps config) ([], [])
                 else if wc_Parallel config \<noteq> [] then executeParallel w config []
                 else (([], []), Some (Errorf ''workflow must have either steps or parallel configuration'')))
      in case run of
           ((steps, outputs), err) \<Rightarrow>
             (\<lparr>wr_WorkflowName = wc_Name config,
               wr_Status = (case err of
                              Some e \<Rightarrow> ''failed''
                            | None \<Rightarrow> if list_all (\<lambda>s. st_Status s = ''completed'') steps then ''completed'' else ''partial''),
               wr_Steps = steps, wr_Outputs = outputs, wr_StartedAt = started, wr_CompletedAt = completed,
               wr_Duration = completed - started, wr_Error = (case err of None \<Rightarrow> [] | Some e \<Rightarrow> error_string e)\<rparr>, err))"

fun validateSteps :: "nat \<Rightarrow> WorkflowStep list \<Rightarrow> gerror option" where
  "validateSteps i [] = None"
| "validateSteps i (step # rest) =
     (if ws_Agent step = [] then Some (Errorf (''step '' @ itoa (int i) @ '': agent is required''))
      else if ws_Goal step = [] then Some (Errorf (''step '' @ itoa (int i) @ '': goal is required''))
      else validateSteps (Suc i) rest)"

definition wc_Validate :: "WorkflowConfig \<Rightarrow> gerror option" where
  "wc_Validate wc =
     (if wc_Name wc = [] then Some (Errorf ''workflow name is required'')
      else if wc_Steps wc = [] \<and> wc_Parallel wc = [] then Some (Errorf ''workflow must have either steps or parallel configuration'')
      else if wc_Steps wc \<noteq> [] \<and> wc_Parallel wc \<noteq> [] then Some (Errorf ''workflow cannot have both steps and parallel configuration'')
      else validateSteps 0 (if wc_Parallel wc \<noteq> [] then wc_Parallel wc else wc_Steps wc))"

section \<open>Model routing\<close>

record ModelConfig =
  mc_Provider :: string
  mc_Name :: string
  mc_Temperature :: rat

record ModelRouting =
  mr_Enabled :: bool
  mr_Strategy :: string
  mr_Candidates :: "ModelConfig list"

definition noModel :: ModelConfig where
  "noModel = \<lparr>mc_Provider = [], mc_Name = [], mc_Temperature = 0\<rparr>"

definition is_space :: "char \<Rightarrow> bool" where
  "is_space c = (c \<in> {CHR '' '', CHR 0x09, CHR 0x0A, CHR 0x0B, CHR 0x0C, CHR 0x0D})"

definition TrimSpace :: "string \<Rightarrow> string" where
  "TrimSpace s = rev (dropWhile is_space (rev (dropWhile is_space s)))"

definition availableCandidates :: "(string \<Rightarrow> string) \<Rightarrow> ModelConfig list \<Rightarrow> ModelConfig list" where
  "availableCandidates getenv ms =
     filter (\<lambda>c. mc_Provider c \<noteq> [] \<and> mc_Name c \<noteq> [] \<and>
       \<not> (ToLower (mc_Provider c) = ''openai'' \<and> getenv ''OPENAI_API_KEY'' = []) \<and>
       \<not> (ToLower (mc_Provider c) = ''anthropic'' \<and> getenv ''ANTHROPIC_API_KEY'' = [])) ms"

fun bestFrom :: "(ModelConfig \<Rightarrow> int) \<Rightarrow> ModelConfig \<Rightarrow> ModelConfig list \<Rightarrow> ModelConfig" where
  "bestFrom scoreFn best [] = best"
| "bestFrom scoreFn best (c # cs) = bestFrom scoreFn (if scoreFn c > scoreFn best then c else best) cs"

definition bestByScore :: "ModelConfig list \<Rightarrow> (ModelConfig \<Rightarrow> int) \<Rightarrow> ModelConfig" where
  "bestByScore candidates scoreFn = (case candidates of [] \<Rightarrow> noModel | c # cs \<Rightarrow> bestFrom scoreFn c cs)"

definition contains_any :: "string \<Rightarrow> string list \<Rightarrow> bool" where
  "contains_any s ps = list_ex (Contains s) ps"

definition costScore :: "ModelConfig \<Rightarrow> int" where
  "costScore m = (let n = ToLower (mc_Name m)
     in if contains_any n [''mini'', ''haiku'', ''3.5''] then 100 else if contains_any n [''sonnet'', ''4o''] then 60 else 40)"

definition latencyScore :: "ModelConfig \<Rightarrow> int" where
  "latencyScore m = (let n = ToLower (mc_Name m)
     in if contains_any n [''mini'', ''haiku'', ''3.5''] then 100 else if contains_any n [''sonnet'', ''4o''] then 70 else 50)"

definition capabilityScore :: "ModelConfig \<Rightarrow> int" where
  "capabilityScore m = (let n = ToLower (mc_Name m)
     in if contains_any n [''sonnet'', ''4o'', ''opus''] then 100 else if contains_any n [''mini'', ''haiku'', ''3.5''] then 60 else 50)"

definition autoRoute :: "ModelConfig list \<Rightarrow> string \<Rightarrow> ModelConfig" where
  "autoRoute candidates goal =
     (let g = ToLower goal
      in if contains_any g [''urgent'', ''quick'', ''fast'', ''low latency''] then bestByScore candidates latencyScore
         else if contains_any g [''complex'', ''analyze'', ''reason'', ''deep''] then bestByScore candidates capabilityScore
         else bestByScore candidates costScore)"

text \<open>\<open>cfg\<close> is the agent's own model with its routing section, \<open>None\<close> for a nil configuration.\<close>

definition pickModelConfig :: "(string \<Rightarrow> string) \<Rightarrow> (ModelConfig \<times> ModelRouting) option \<Rightarrow> string \<Rightarrow> ModelConfig" where
  "pickModelConfig getenv cfg goal =
     (case cfg of
        None \<Rightarrow> noModel
      | Some (model, mr) \<Rightarrow>
          if \<not> mr_Enabled mr \<or> mr_Candidates mr = [] then model
          else (let candidates = availableCandidates getenv (mr_Candidates mr); strategy = ToLower (TrimSpace (mr_Strategy mr))
                in if candidates = [] then model
                   else if strategy = ''cost'' then bestByScore candidates costScore
                   else if strategy = ''latency'' then bestByScore candidates latencyScore
                   else if strategy = ''capability'' then bestByScore candidates capabilityScore
                   else autoRoute candidates goal))"

section \<open>Facts about a run\<close>

text \<open>What the recorded steps leave in the outputs: later steps overwrite earlier ones.\<close>

definition storeAll :: "(WorkflowStep \<times> StepResult) list \<Rightarrow> any smap \<Rightarrow> any smap" where
  "storeAll ps outputs = fold (\<lambda>(step, r). storeOutput step r) ps outputs"

definition produced :: "(WorkflowStep \<times> StepResult) list \<Rightarrow> any smap" where
  "produced ps = map (\<lambda>(step, r). (ws_OutputKey step, st_Output r))
     (filter (\<lambda>(step, r). ws_OutputKey step \<noteq> [] \<and> st_Output r \<noteq> ANil) ps)"

lemma storeAll_simps [simp]:
  "storeAll [] outputs = outputs"
  "storeAll ((step, r) # ps) outputs = storeAll ps (storeOutput step r outputs)"
  by (simp_all add: storeAll_def)

lemma produced_simps [simp]:
  "produced [] = []"
  "produced ((step, r) # ps) =
     (if ws_OutputKey step \<noteq> [] \<and> st_Output r \<noteq> ANil then [(ws_OutputKey step, st_Output r)] else []) @ produced ps"
  by (simp_all add: produced_def)

lemma map_of_storeAll: "map_of (storeAll ps outputs) = map_of outputs ++ map_of (rev (produced ps))"
proof (induction ps arbitrary: outputs)
  case (Cons p ps)
  then show ?case by (cases p) (auto simp: storeOutput_def fun_eq_iff map_add_def split: option.splits)
qed simp

lemma storeOutput_skipped [simp]: "storeOutput step (skippedStep w i step) outputs = outputs"
  by (simp add: storeOutput_def skippedStep_def)

lemma skippedStep_fields [simp]:
  "st_Name (skippedStep w i step) = ws_Name step" "st_Status (skippedStep w i step) = ''skipped''"
  by (simp_all add: skippedStep_def)

lemma executeStep_name: "st_Name (fst (executeStep w i step outputs)) = ws_Name step"
  by (simp add: executeStep_def Let_def split: sum.splits)

lemma executeStep_failed:
  "executeStep w i step outputs = (r, Some err) \<Longrightarrow> st_Status r = ''failed'' \<and> st_Output r = ANil"
  by (auto simp: executeStep_def Let_def split: sum.splits)

lemmas executeStep_facts = executeStep_name [of w i step outputs for w i step outputs] executeStep_failed

text \<open>A sequential run from any accumulated state.\<close>

definition seq_run_ok :: "WorkflowStep list \<Rightarrow> StepResult list \<times> any smap \<Rightarrow> (StepResult list \<times> any smap) \<times> gerror option \<Rightarrow> bool" where
  "seq_run_ok steps acc run = (\<exists>rs. fst (fst run) = fst acc @ rs \<and> map st_Name rs = take (length rs) (map ws_Name steps) \<and>
     snd (fst run) = storeAll (zip steps rs) (snd acc) \<and> (snd run = None \<longrightarrow> length rs = length steps))"

lemma seq_run_ok_stop: "seq_run_ok (step # rest) acc (acc, Some err)"
  by (simp add: seq_run_ok_def)

lemma seq_run_ok_fail:
  "executeStep w i step outputs = (r, Some err) \<Longrightarrow> seq_run_ok (step # rest) (steps, outputs) ((steps @ [r], outputs), Some err')"
  using executeStep_name [of w i step outputs] executeStep_failed [of w i step outputs r err]
  by (auto simp: seq_run_ok_def storeOutput_def)

lemma seq_run_ok_cons:
  assumes "seq_run_ok rest (steps @ [r], storeOutput step r outputs) run" and "st_Name r = ws_Name step"
  shows "seq_run_ok (step # rest) (steps, outputs) run"
proof -
  from assms(1) obtain rs where "fst (fst run) = (steps @ [r]) @ rs" "map st_Name rs = take (length rs) (map ws_Name rest)"
    "snd (fst run) = storeAll (zip rest rs) (storeOutput step r outputs)" "snd run = None \<longrightarrow> length rs = length rest"
    unfolding seq_run_ok_def by auto
  with assms(2) have "fst (fst run) = steps @ (r # rs) \<and> map st_Name (r # rs) = take (length (r # rs)) (map ws_Name (step # rest)) \<and>
    snd (fst run) = storeAll (zip (step # rest) (r # rs)) outputs \<and> (snd run = None \<longrightarrow> length (r # rs) = length (step # rest))"
    by simp
  then show ?thesis unfolding seq_run_ok_def by auto
qed

lemma executeSequential_run: "seq_run_ok steps acc (executeSequential w onError i steps acc)"
proof (induction steps arbitrary: i acc)
  case Nil
  then show ?case by (simp add: seq_run_ok_def)
next
  case (Cons step rest)
  obtain rs outs where acc: "acc = (rs, outs)" by (cases acc)
  obtain r e where step: "executeStep w i step outs = (r, e)" by (cases "executeStep w i step outs")
  have name: "st_Name r = ws_Name step" using executeStep_name [of w i step outs] step by simp
  have skip: "seq_run_ok (step # rest) (rs, outs) (executeSequential w onError (Suc i) rest (rs @ [skippedStep w i step], outs))"
    by (rule seq_run_ok_cons [where r = "skippedStep w i step"]) (simp_all add: Cons.IH)
  have ran: "seq_run_ok (step # rest) (rs, outs) (executeSequential w onError (Suc i) rest (rs @ [r], storeOutput step r outs))"
    by (rule seq_run_ok_cons [where r = r]) (simp_all add: Cons.IH name)
  have failed: "e = Some err \<Longrightarrow> storeOutput step r outs = outs" for err
    using executeStep_failed step by (fastforce simp: storeOutput_def)
  show ?case
    using skip ran failed seq_run_ok_fail [of w i step outs r] seq_run_ok_stop [of step rest "(rs, outs)"]
    by (cases e) (auto simp: acc step split: option.splits sum.splits bool.splits if_splits)
qed

lemma fold_storeOutput:
  "fold (\<lambda>(step, r, err). storeOutput step r) (zip steps results) outputs = storeAll (zip steps (map fst results)) outputs"
proof (induction results arbitrary: steps outputs)
  case (Cons x xs)
  then show ?case by (cases steps; cases x) simp_all
qed simp

lemma parallel_names:
  "map st_Name (map fst (map (\<lambda>(i, step). executeStep w i step outputs) (enumerate n steps))) = map ws_Name steps"
  by (induction steps arbitrary: n) (simp_all add: executeStep_name)

lemma executeParallel_run: "seq_run_ok (wc_Parallel config) ([], outputs) (executeParallel w config outputs)"
  unfolding seq_run_ok_def
  by (rule exI [of _ "fst (fst (executeParallel w config outputs))"])
     (simp add: executeParallel_def Let_def fold_storeOutput parallel_names [simplified])

section \<open>Outcome of a workflow\<close>

text \<open>
  C19. Whatever a workflow does, sequential or parallel, its result lists a prefix of the configured steps
  in their order (all of them unless an error is returned); the status is \<open>failed\<close> exactly
  when an error is returned, \<open>completed\<close> exactly when there is none and every step completed; and each
  output is the non-nil output of the last recorded step that stores under its key.
\<close>

theorem workflow_outcome:
  assumes run: "wf_Execute w config started completed = (r, err)"
    and steps: "steps = (if wc_Steps config \<noteq> [] then wc_Steps config else wc_Parallel config)"
  shows "map st_Name (wr_Steps r) = take (length (wr_Steps r)) (map ws_Name steps) \<and>
    (err = None \<longrightarrow> length (wr_Steps r) = length steps \<and> steps \<noteq> []) \<and>
    (wr_Status r = ''failed'' \<longleftrightarrow> err \<noteq> None) \<and>
    (wr_Status r = ''completed'' \<longleftrightarrow> err = None \<and> (\<forall>s \<in> set (wr_Steps r). st_Status s = ''completed'')) \<and>
    map_of (wr_Outputs r) k = map_of (rev (produced (zip steps (wr_Steps r)))) k"
proof -
  have ok: "seq_run_ok steps ([], []) ((wr_Steps r, wr_Outputs r), err) \<and> (err = None \<longrightarrow> steps \<noteq> [])"
    using run executeSequential_run [of "wc_Steps config" "([], [])" w "wc_OnError config" 0]
      executeParallel_run [of config "[]" w]
    by (auto simp: wf_Execute_def Let_def steps seq_run_ok_def split: if_splits prod.splits)
  have status: "(wr_Status r = ''failed'' \<longleftrightarrow> err \<noteq> None) \<and>
    (wr_Status r = ''completed'' \<longleftrightarrow> err = None \<and> (\<forall>s \<in> set (wr_Steps r). st_Status s = ''completed''))"
    using run by (auto simp: wf_Execute_def Let_def list_all_iff split: prod.splits option.splits if_splits)
  from ok show ?thesis
    by (intro conjI status [THEN conjunct1] status [THEN conjunct2]) (auto simp: seq_run_ok_def map_of_storeAll)
qed

text \<open>Two agents, the second behind a condition that the first one's output does not meet.\<close>

definition reviewFlow :: WorkflowConfig where
  "reviewFlow = \<lparr>wc_Name = ''review'', wc_Description = [],
     wc_Steps = [\<lparr>ws_Name = ''draft'', ws_Agent = ''writer'', ws_Goal = ''g'', ws_OutputKey = ''text'', ws_Condition = [], ws_DependsOn = [], ws_Timeout = [], ws_Retry = 0\<rparr>,
                 \<lparr>ws_Name = ''fix'', ws_Agent = ''editor'', ws_Goal = ''h'', ws_OutputKey = ''text'', ws_Condition = ''c'', ws_DependsOn = [], ws_Timeout = [], ws_Retry = 0\<rparr>],
     wc_Parallel = [], wc_Aggregate = False, wc_Timeout = [], wc_OnError = ''stop''\<rparr>"

definition reviewEngine :: WorkflowEngine where
  "reviewEngine = \<lparr>we_cel = Some (\<lambda>c outputs. Inr False), we_exec = None, we_render = \<lambda>g outputs. Inr g, we_ctx = \<lambda>i. None, we_now = \<lambda>i. int i\<rparr>"

theorem workflow_outcome_witness:
  "map st_Name (wr_Steps (fst (wf_Execute reviewEngine reviewFlow 0 9))) = [''draft'', ''fix''] \<and>
   snd (wf_Execute reviewEngine reviewFlow 0 9) = None \<and>
   wr_Status (fst (wf_Execute reviewEngine reviewFlow 0 9)) \<noteq> ''failed'' \<and>
   map_of (wr_Outputs (fst (wf_Execute reviewEngine reviewFlow 0 9))) ''text'' = Some (AMap [(''agent'', AStr ''writer''), (''goal'', AStr ''g'')])"
proof -
  let ?run = "wf_Execute reviewEngine reviewFlow 0 9"
  have err: "snd ?run = None" by code_simp
  note facts = workflow_outcome [of reviewEngine reviewFlow 0 9 "fst ?run" "snd ?run" "wc_Steps reviewFlow" "''text''"]
  have steps: "wc_Steps reviewFlow \<noteq> []" "length (wc_Steps reviewFlow) = 2" "map ws_Name (wc_Steps reviewFlow) = [''draft'', ''fix'']"
    by (simp_all add: reviewFlow_def)
  have out: "map_of (rev (produced (zip (wc_Steps reviewFlow) (wr_Steps (fst ?run))))) ''text''
     = Some (AMap [(''agent'', AStr ''writer''), (''goal'', AStr ''g'')])" by code_simp
  have run: "?run = (fst ?run, snd ?run)" by simp
  show ?thesis using facts [OF run] err steps out by simp
qed

section \<open>Choice of the model\<close>

definition routeScore :: "string \<Rightarrow> string \<Rightarrow> ModelConfig \<Rightarrow> int" where
  "routeScore strategy goal =
     (let s = ToLower (TrimSpace strategy); g = ToLower goal
      in if s = ''cost'' then costScore else if s = ''latency'' then latencyScore else if s = ''capability'' then capabilityScore
         else if contains_any g [''urgent'', ''quick'', ''fast'', ''low latency''] then latencyScore
         else if contains_any g [''complex'', ''analyze'', ''reason'', ''deep''] then capabilityScore
         else costScore)"

definition first_best :: "('a \<Rightarrow> int) \<Rightarrow> 'a \<Rightarrow> 'a list \<Rightarrow> bool" where
  "first_best score m cs = (\<exists>pre post. cs = pre @ m # post \<and> (\<forall>c \<in> set pre. score c < score m) \<and> (\<forall>c \<in> set post. score c \<le> score m))"

lemma bestFrom_first_best:
  assumes "first_best f best pre"
  shows "first_best f (bestFrom f best cs) (pre @ cs)"
  using assms
proof (induction cs arbitrary: best pre)
  case Nil
  then show ?case by simp
next
  case (Cons c cs)
  from Cons.prems obtain a b where pre: "pre = a @ best # b"
    and ab: "\<forall>x \<in> set a. f x < f best" "\<forall>x \<in> set b. f x \<le> f best"
    unfolding first_best_def by blast
  have "first_best f (if f c > f best then c else best) (pre @ [c])"
  proof (cases "f c > f best")
    case True
    with ab have "\<forall>x \<in> set pre. f x < f c" by (fastforce simp: pre)
    with True show ?thesis unfolding first_best_def by (intro exI [of _ pre] exI [of _ "[]"]) simp
  next
    case False
    with pre ab have "pre @ [c] = a @ best # (b @ [c]) \<and> (\<forall>x \<in> set a. f x < f best) \<and> (\<forall>x \<in> set (b @ [c]). f x \<le> f best)"
      by auto
    then show ?thesis unfolding first_best_def using False by (auto simp del: set_append)
  qed
  from Cons.IH [OF this] show ?case by simp
qed

lemma bestByScore_first_best:
  assumes "cs \<noteq> []"
  shows "first_best f (bestByScore cs f) cs"
proof -
  obtain c rest where cs: "cs = c # rest" using assms by (cases cs) auto
  have "first_best f c [c]" unfolding first_best_def by (intro exI [of _ "[]"]) simp
  from bestFrom_first_best [OF this, of rest] show ?thesis by (simp add: cs bestByScore_def)
qed

text \<open>
  With routing on and some candidate usable (a provider, a name and the provider's API key), the model
  chosen is the first usable candidate of the highest score under the configured
  strategy, where any strategy other than cost, latency and capability goes by the words of
  the goal; in every other case the agent's own model is used.
\<close>

theorem pickModelConfig_optimal:
  "if mr_Enabled mr \<and> availableCandidates getenv (mr_Candidates mr) \<noteq> []
   then first_best (routeScore (mr_Strategy mr) goal) (pickModelConfig getenv (Some (model, mr)) goal)
          (availableCandidates getenv (mr_Candidates mr))
   else pickModelConfig getenv (Some (model, mr)) goal = model"
proof (cases "mr_Enabled mr \<and> availableCandidates getenv (mr_Candidates mr) \<noteq> []")
  case True
  then have "mr_Candidates mr \<noteq> []" by (auto simp: availableCandidates_def)
  with True show ?thesis
    by (auto simp: pickModelConfig_def Let_def autoRoute_def routeScore_def intro: bestByScore_first_best)
next
  case False
  then show ?thesis by (auto simp: pickModelConfig_def Let_def)
qed

end
