(* ===== verification/Replay_Recorder.thy ===== *)
theory Replay_Recorder
  imports Workflow_State
begin

text \<open>
  Recording of a run, \<open>pkg/replay/snapshot.go\<close> and \<open>recorder.go\<close>, and the SQLite table of snapshots,
  \<open>store_sqlite.go\<close>. Times are nanoseconds since the zero time of package \<open>time\<close>, so 0 is the time for
  which \<open>IsZero\<close> holds. A \<open>json.RawMessage\<close> is a string. The JSON encoder of whole snapshots, the digest of
  the encoded calls and gzip are arguments, as are the identifier drawn and the clock.
\<close>

section \<open>Snapshots\<close>

record SideEffect =
  sf_Type :: string
  sf_Target :: string
  sf_Description :: string
  sf_Reversible :: bool
  sf_Replayable :: bool
  sf_RevertData :: string
  sf_Timestamp :: int

record ToolExecution =
  tx_Sequence :: int
  tx_Timestamp :: int
  tx_ToolName :: string
  tx_Input :: string
  tx_Output :: string
  tx_Error :: string
  tx_Duration :: int
  tx_RetryCount :: int
  tx_SideEffects :: "SideEffect list"
  tx_PolicyDecision :: string

record ModelCall =
  mk_Sequence :: int
  mk_Timestamp :: int
  mk_Model :: string
  mk_Provider :: string
  mk_Prompt :: string
  mk_Response :: string
  mk_TokensUsed :: int
  mk_Temperature :: rat
  mk_MaxTokens :: int
  mk_Seed :: "int option"
  mk_FinishReason :: string
  mk_Metadata :: "any smap"

record RunSnapshot =
  sn_ID :: string
  sn_RunID :: string
  sn_Version :: string
  sn_CreatedAt :: int
  sn_AgentName :: string
  sn_Goal :: string
  sn_AgentConfig :: "any smap"
  sn_ModelCalls :: "ModelCall list"
  sn_ToolCalls :: "ToolExecution list"
  sn_Environment :: "string smap"
  sn_StartTime :: int
  sn_EndTime :: int
  sn_FinalState :: string
  sn_Checksums :: "string smap"
  sn_Compressed :: bool
  sn_Encrypted :: bool
  sn_SizeBytes :: int

definition SnapshotVersion :: string where
  "SnapshotVersion = ''1.0.0''"

record RecordingConfig =
  cfg_Enabled :: bool
  cfg_CaptureModel :: bool
  cfg_CaptureTools :: bool
  cfg_CaptureSideEffects :: bool
  cfg_CaptureEnvironment :: bool
  cfg_CompressData :: bool
  cfg_EncryptPII :: bool
  cfg_MaxSnapshotSize :: int
  cfg_StoragePath :: string

record Recorder =
  rc_config :: RecordingConfig
  rc_snapshot :: "RunSnapshot option"
  rc_recording :: bool
  rc_modelSeq :: int
  rc_toolSeq :: int

text \<open>\<open>json.Marshal\<close> of a snapshot, the hexadecimal digests of the encoded calls, and gzip.\<close>

record codec =
  cd_marshal :: "RunSnapshot \<Rightarrow> gerror + string"
  cd_modelDigest :: "ModelCall list \<Rightarrow> string"
  cd_toolDigest :: "ToolExecution list \<Rightarrow> string"
  cd_gzip :: "string \<Rightarrow> gerror + string"

section \<open>The recorder\<close>

definition NewRecorder :: "RecordingConfig \<Rightarrow> Recorder" where
  "NewRecorder config = \<lparr>rc_config = config, rc_snapshot = None, rc_recording = False, rc_modelSeq = 0, rc_toolSeq = 0\<rparr>"

definition captureEnvironment :: "RunSnapshot \<Rightarrow> RunSnapshot" where
  "captureEnvironment sn = sn\<lparr>sn_Environment :=
     fold (\<lambda>k. AList.update k ''[captured]'') [''HOSTNAME'', ''USER'', ''PWD'', ''SHELL'', ''LANG'', ''TZ''] (sn_Environment sn)\<rparr>"

definition StartRecording :: "Recorder \<Rightarrow> string \<Rightarrow> int \<Rightarrow> string \<Rightarrow> string \<Rightarrow> string \<Rightarrow> any smap \<Rightarrow> Recorder" where
  "StartRecording r uuid now runID agentName goal agentConfig =
     (if \<not> cfg_Enabled (rc_config r) then r
      else (let sn = \<lparr>sn_ID = uuid, sn_RunID = runID, sn_Version = SnapshotVersion, sn_CreatedAt = now, sn_AgentName = agentName,
                     sn_Goal = goal, sn_AgentConfig = agentConfig, sn_ModelCalls = [], sn_ToolCalls = [], sn_Environment = [],
                     sn_StartTime = now, sn_EndTime = 0, sn_FinalState = [], sn_Checksums = [], sn_Compressed = False,
                     sn_Encrypted = False, sn_SizeBytes = 0\<rparr>
            in r\<lparr>rc_snapshot := Some (if cfg_CaptureEnvironment (rc_config r) then captureEnvironment sn else sn),
                 rc_recording := True, rc_modelSeq := 0, rc_toolSeq := 0\<rparr>))"

text \<open>\<open>seed\<close> is the outcome of the assertion that the metadata holds an \<open>*int64\<close> under \<open>seed\<close>.\<close>

definition modelCall :: "int \<Rightarrow> int \<Rightarrow> string \<Rightarrow> string \<Rightarrow> string \<Rightarrow> string \<Rightarrow> int \<Rightarrow> any smap \<Rightarrow> int option \<Rightarrow> ModelCall" where
  "modelCall sq now model provider prompt response tokens metadata seed =
     \<lparr>mk_Sequence = sq, mk_Timestamp = now, mk_Model = model, mk_Provider = provider, mk_Prompt = prompt, mk_Response = response,
      mk_TokensUsed = tokens,
      mk_Temperature = (case map_of metadata ''temperature'' of Some (AFloat t) \<Rightarrow> t | _ \<Rightarrow> 0),
      mk_MaxTokens = (case map_of metadata ''max_tokens'' of Some (AInt n) \<Rightarrow> n | _ \<Rightarrow> 0),
      mk_Seed = seed,
      mk_FinishReason = (case map_of metadata ''finish_reason'' of Some (AStr s) \<Rightarrow> s | _ \<Rightarrow> []),
      mk_Metadata = metadata\<rparr>"

definition RecordModelCall ::
    "Recorder \<Rightarrow> int \<Rightarrow> string \<Rightarrow> string \<Rightarrow> string \<Rightarrow> string \<Rightarrow> int \<Rightarrow> any smap \<Rightarrow> int option \<Rightarrow> Recorder" where
  "RecordModelCall r now model provider prompt response tokens metadata seed =
     (if \<not> rc_recording r \<or> \<not> cfg_CaptureModel (rc_config r) then r
      else (let sq = rc_modelSeq r + 1; call = modelCall sq now model provider prompt response tokens metadata seed
            in r\<lparr>rc_modelSeq := sq,
                 rc_snapshot := map_option (\<lambda>sn. sn\<lparr>sn_ModelCalls := sn_ModelCalls sn @ [call]\<rparr>) (rc_snapshot r)\<rparr>))"

definition toolExecution :: "int \<Rightarrow> int \<Rightarrow> string \<Rightarrow> string \<Rightarrow> string \<Rightarrow> gerror option \<Rightarrow> int \<Rightarrow> ToolExecution" where
  "toolExecution sq now toolName input output err duration =
     \<lparr>tx_Sequence = sq, tx_Timestamp = now, tx_ToolName = toolName, tx_Input = input, tx_Output = output,
      tx_Error = (case err of None \<Rightarrow> [] | Some e \<Rightarrow> error_string e), tx_Duration = duration, tx_RetryCount = 0,
      tx_SideEffects = [], tx_PolicyDecision = []\<rparr>"

definition RecordToolCall :: "Recorder \<Rightarrow> int \<Rightarrow> string \<Rightarrow> string \<Rightarrow> string \<Rightarrow> gerror option \<Rightarrow> int \<Rightarrow> Recorder" where
  "RecordToolCall r now toolName input output err duration =
     (if \<not> rc_recording r \<or> \<not> cfg_CaptureTools (rc_config r) then r
      else (let sq = rc_toolSeq r + 1; ex = toolExecution sq now toolName input output err duration
            in r\<lparr>rc_toolSeq := sq,
                 rc_snapshot := map_option (\<lambda>sn. sn\<lparr>sn_ToolCalls := sn_ToolCalls sn @ [ex]\<rparr>) (rc_snapshot r)\<rparr>))"

definition addSideEffect :: "int \<Rightarrow> SideEffect \<Rightarrow> RunSnapshot \<Rightarrow> RunSnapshot" where
  "addSideEffect toolSeq se sn =
     (if 0 < toolSeq \<and> toolSeq \<le> int (length (sn_ToolCalls sn))
      then (let i = nat (toolSeq - 1); ex = sn_ToolCalls sn ! i
            in sn\<lparr>sn_ToolCalls := (sn_ToolCalls sn)[i := ex\<lparr>tx_SideEffects := tx_SideEffects ex @ [se]\<rparr>]\<rparr>)
      else sn)"

definition RecordSideEffect :: "Recorder \<Rightarrow> int \<Rightarrow> SideEffect \<Rightarrow> Recorder" where
  "RecordSideEffect r toolSeq se =
     (if \<not> rc_recording r \<or> \<not> cfg_CaptureSideEffects (rc_config r) then r
      else r\<lparr>rc_snapshot := map_option (addSideEffect toolSeq se) (rc_snapshot r)\<rparr>)"

definition calculateChecksums :: "codec \<Rightarrow> RunSnapshot \<Rightarrow> RunSnapshot" where
  "calculateChecksums cd sn =
     (let c1 = (if sn_ModelCalls sn \<noteq> [] then AList.update ''model_calls'' (cd_modelDigest cd (sn_ModelCalls sn)) (sn_Checksums sn) else sn_Checksums sn);
          c2 = (if sn_ToolCalls sn \<noteq> [] then AList.update ''tool_calls'' (cd_toolDigest cd (sn_ToolCalls sn)) c1 else c1)
      in sn\<lparr>sn_Checksums := c2\<rparr>)"

definition compressSnapshot :: "codec \<Rightarrow> RunSnapshot \<Rightarrow> gerror + RunSnapshot" where
  "compressSnapshot cd sn =
     (case cd_marshal cd sn of
        Inl err \<Rightarrow> Inl err
      | Inr data \<Rightarrow>
          (case cd_gzip cd data of
             Inl err \<Rightarrow> Inl err
           | Inr buf \<Rightarrow> Inr (sn\<lparr>sn_SizeBytes := int (length buf), sn_Compressed := True\<rparr>)))"

definition encryptPII :: "RunSnapshot \<Rightarrow> RunSnapshot" where
  "encryptPII sn = sn\<lparr>sn_Encrypted := True\<rparr>"

text \<open>A failure after the recording has ended leaves the snapshot changed and the recorder stopped.\<close>

definition StopRecording :: "codec \<Rightarrow> Recorder \<Rightarrow> int \<Rightarrow> string \<Rightarrow> Recorder \<times> (gerror + RunSnapshot)" where
  "StopRecording cd r now finalState =
     (if \<not> rc_recording r then (r, Inl (Errorf ''not recording''))
      else (case rc_snapshot r of
        None \<Rightarrow> (r, Inl (Errorf ''panic: nil pointer dereference''))
      | Some sn0 \<Rightarrow>
          (let sn1 = calculateChecksums cd (sn0\<lparr>sn_EndTime := now, sn_FinalState := finalState\<rparr>);
               r1 = r\<lparr>rc_recording := False, rc_snapshot := Some sn1\<rparr>
           in case cd_marshal cd sn1 of
                Inl err \<Rightarrow> (r1, Inl (Wrap ''marshal snapshot: '' err))
              | Inr data \<Rightarrow>
                  (let sn2 = sn1\<lparr>sn_SizeBytes := int (length data)\<rparr>
                   in case (if cfg_CompressData (rc_config r) then compressSnapshot cd sn2 else Inr sn2) of
                        Inl err \<Rightarrow> (r1\<lparr>rc_snapshot := Some sn2\<rparr>, Inl (Wrap ''compress snapshot: '' err))
                      | Inr sn3 \<Rightarrow>
                          (let sn4 = (if cfg_EncryptPII (rc_config r) then encryptPII sn3 else sn3)
                           in (r1\<lparr>rc_snapshot := Some sn4\<rparr>, Inr sn4))))))"

definition GetSnapshot :: "Recorder \<Rightarrow> RunSnapshot option" where
  "GetSnapshot r = (if rc_recording r then rc_snapshot r else None)"

section \<open>The snapshot table\<close>

record SnapshotMetadata =
  mt_ID :: string
  mt_RunID :: string
  mt_AgentName :: string
  mt_Goal :: string
  mt_CreatedAt :: int
  mt_Duration :: int
  mt_FinalState :: string
  mt_SizeBytes :: int
  mt_Compressed :: bool

type_synonym snapshot_table = "RunSnapshot smap"

text \<open>
  \<open>sqliteTimeFormat\<close> keeps the wall clock to the millisecond and drops the zone; reading takes the text
  for UTC. \<open>zone\<close> is the offset of the process's zone at a time.
\<close>

definition storedTime :: "(int \<Rightarrow> int) \<Rightarrow> int \<Rightarrow> int" where
  "storedTime zone t = (t + zone t) div 1000000 * 1000000"

text \<open>
  The encoding of the tool calls fails as a whole when a raw message is not JSON (\<open>rawjson\<close> gives \<open>None\<close>);
  the error is dropped and so is the list. An empty \<open>RevertData\<close> is left out of the encoding.
\<close>

definition storedEffect :: "(string \<Rightarrow> string option) \<Rightarrow> SideEffect \<Rightarrow> SideEffect option" where
  "storedEffect rawjson se =
     (if sf_RevertData se = [] then Some se
      else map_option (\<lambda>d. se\<lparr>sf_RevertData := d\<rparr>) (rawjson (sf_RevertData se)))"

definition storedCall :: "(string \<Rightarrow> string option) \<Rightarrow> ToolExecution \<Rightarrow> ToolExecution option" where
  "storedCall rawjson ex =
     (case (rawjson (tx_Input ex), rawjson (tx_Output ex), those (map (storedEffect rawjson) (tx_SideEffects ex))) of
        (Some i, Some out, Some ses) \<Rightarrow> Some (ex\<lparr>tx_Input := i, tx_Output := out, tx_SideEffects := ses\<rparr>)
      | _ \<Rightarrow> None)"

definition storedCalls :: "(string \<Rightarrow> string option) \<Rightarrow> ToolExecution list \<Rightarrow> ToolExecution list" where
  "storedCalls rawjson exs = (case those (map (storedCall rawjson) exs) of None \<Rightarrow> [] | Some ys \<Rightarrow> ys)"

definition SaveSnapshot ::
    "(string \<Rightarrow> string option) \<Rightarrow> (int \<Rightarrow> int) \<Rightarrow> snapshot_table \<Rightarrow> gerror option \<Rightarrow> RunSnapshot \<Rightarrow> snapshot_table \<times> gerror option" where
  "SaveSnapshot rawjson zone t db sn =
     (case db of
        Some err \<Rightarrow> (t, Some err)
      | None \<Rightarrow>
          (AList.update (sn_ID sn)
            (sn\<lparr>sn_CreatedAt := storedTime zone (sn_CreatedAt sn), sn_StartTime := storedTime zone (sn_StartTime sn),
               sn_EndTime := storedTime zone (sn_EndTime sn),
               sn_ModelCalls := map (\<lambda>mk. mk\<lparr>mk_Metadata := json_norm_map (mk_Metadata mk)\<rparr>) (sn_ModelCalls sn),
               sn_ToolCalls := storedCalls rawjson (sn_ToolCalls sn),
               sn_AgentConfig := json_norm_map (sn_AgentConfig sn)\<rparr>) t, None))"

definition LoadSnapshot :: "snapshot_table \<Rightarrow> gerror option \<Rightarrow> string \<Rightarrow> gerror + RunSnapshot" where
  "LoadSnapshot t db snapshotID =
     (case db of
        Some err \<Rightarrow> Inl err
      | None \<Rightarrow> (case map_of t snapshotID of
                   None \<Rightarrow> Inl (Errorf (''snapshot not found: '' @ snapshotID))
                 | Some sn \<Rightarrow> Inr sn))"

definition snapshotMetadata :: "RunSnapshot \<Rightarrow> SnapshotMetadata" where
  "snapshotMetadata sn = \<lparr>mt_ID = sn_ID sn, mt_RunID = sn_RunID sn, mt_AgentName = sn_AgentName sn, mt_Goal = sn_Goal sn,
     mt_CreatedAt = sn_CreatedAt sn, mt_Duration = sn_EndTime sn - sn_StartTime sn, mt_FinalState = sn_FinalState sn,
     mt_SizeBytes = sn_SizeBytes sn, mt_Compressed = sn_Compressed sn\<rparr>"

text \<open>
  A negative \<open>LIMIT\<close> is no limit in SQLite. The duration is the exact difference of the two stored times,
  without the rounding of the floating-point days the query computes with.
\<close>

definition ListSnapshots :: "snapshot_table \<Rightarrow> gerror option \<Rightarrow> string \<Rightarrow> int \<Rightarrow> gerror + SnapshotMetadata list" where
  "ListSnapshots t db runID limit =
     (case db of
        Some err \<Rightarrow> Inl err
      | None \<Rightarrow>
          (let rows = sort_key (\<lambda>sn. - sn_CreatedAt sn) (filter (\<lambda>sn. runID = [] \<or> sn_RunID sn = runID) (map snd t))
           in Inr (map snapshotMetadata (if limit < 0 then rows else take (nat limit) rows))))"

definition DeleteSnapshot :: "snapshot_table \<Rightarrow> gerror option \<Rightarrow> string \<Rightarrow> snapshot_table \<times> gerror option" where
  "DeleteSnapshot t db snapshotID = (case db of Some err \<Rightarrow> (t, Some err) | None \<Rightarrow> (AList.delete snapshotID t, None))"

section \<open>A recording\<close>

text \<open>What a client may record between start and stop.\<close>

datatype recorderOp =
    OpModel int string string string string int "any smap" "int option"
  | OpTool int string string string "gerror option" int
  | OpEffect int SideEffect

fun applyOp :: "recorderOp \<Rightarrow> Recorder \<Rightarrow> Recorder" where
  "applyOp (OpModel now model provider prompt response tokens metadata seed) r =
     RecordModelCall r now model provider prompt response tokens metadata seed"
| "applyOp (OpTool now tool input output err dur) r = RecordToolCall r now tool input output err dur"
| "applyOp (OpEffect sq se) r = RecordSideEffect r sq se"

fun toolOp :: "recorderOp \<Rightarrow> (int \<times> string \<times> string \<times> string) list" where
  "toolOp (OpTool now tool input output err dur) = [(now, tool, input, output)]"
| "toolOp _ = []"

definition toolOps :: "recorderOp list \<Rightarrow> (int \<times> string \<times> string \<times> string) list" where
  "toolOps ops = concat (map toolOp ops)"

definition callKey :: "ToolExecution \<Rightarrow> int \<times> string \<times> string \<times> string" where
  "callKey ex = (tx_Timestamp ex, tx_ToolName ex, tx_Input ex, tx_Output ex)"

text \<open>The tool calls of a recorder are numbered from 1 and are those made so far.\<close>

definition rec_inv :: "Recorder \<Rightarrow> (int \<times> string \<times> string \<times> string) list \<Rightarrow> bool" where
  "rec_inv r ts = (rc_recording r \<and> cfg_CaptureTools (rc_config r) \<and>
     (\<exists>sn. rc_snapshot r = Some sn \<and> map callKey (sn_ToolCalls sn) = ts \<and>
        map tx_Sequence (sn_ToolCalls sn) = map int [1..<Suc (length ts)] \<and> rc_toolSeq r = int (length ts)))"

lemma addSideEffect_keeps:
  "map callKey (sn_ToolCalls (addSideEffect sq se sn)) = map callKey (sn_ToolCalls sn)"
  "map tx_Sequence (sn_ToolCalls (addSideEffect sq se sn)) = map tx_Sequence (sn_ToolCalls sn)"
  "sn_ToolCalls (addSideEffect sq se sn) = [] \<longleftrightarrow> sn_ToolCalls sn = []"
  by (auto simp: addSideEffect_def Let_def callKey_def map_update list_update_same_conv)

lemma rec_inv_start:
  "cfg_Enabled config \<Longrightarrow> cfg_CaptureTools config \<Longrightarrow> rec_inv (StartRecording (NewRecorder config) uuid now runID agent goal cfg) []"
  by (simp add: rec_inv_def StartRecording_def NewRecorder_def captureEnvironment_def Let_def)

lemma rec_inv_tool:
  assumes "rec_inv r ts"
  shows "rec_inv (RecordToolCall r now tool input output err dur) (ts @ [(now, tool, input, output)])"
proof -
  from assms obtain sn where sn: "rc_snapshot r = Some sn" "map callKey (sn_ToolCalls sn) = ts"
    "map tx_Sequence (sn_ToolCalls sn) = map int [1..<Suc (length ts)]" "rc_toolSeq r = int (length ts)"
    "rc_recording r" "cfg_CaptureTools (rc_config r)"
    unfolding rec_inv_def by auto
  then show ?thesis by (simp add: rec_inv_def RecordToolCall_def Let_def toolExecution_def callKey_def)
qed

lemma rec_inv_model: "rec_inv r ts \<Longrightarrow> rec_inv (RecordModelCall r now model provider prompt response tokens metadata seed) ts"
  by (auto simp: rec_inv_def RecordModelCall_def Let_def)

lemma rec_inv_effect: "rec_inv r ts \<Longrightarrow> rec_inv (RecordSideEffect r sq se) ts"
  by (auto simp: rec_inv_def RecordSideEffect_def addSideEffect_keeps)

lemma rec_inv_op: "rec_inv r ts \<Longrightarrow> rec_inv (applyOp op r) (ts @ toolOp op)"
  by (cases op) (simp_all add: rec_inv_tool rec_inv_model rec_inv_effect)

lemma rec_inv_ops: "rec_inv r ts \<Longrightarrow> rec_inv (fold applyOp ops r) (ts @ toolOps ops)"
proof (induction ops arbitrary: r ts)
  case (Cons op ops)
  from Cons.IH [OF rec_inv_op [OF Cons.prems, of op]] show ?case by (simp add: toolOps_def)
qed (simp add: toolOps_def)

lemma StopRecording_calls:
  assumes "StopRecording cd r now fs = (r', Inr sn)"
  obtains sn0 where "rc_snapshot r = Some sn0" "sn_ToolCalls sn = sn_ToolCalls sn0" "sn_FinalState sn = fs" "rc_recording r"
    "\<not> rc_recording r'" "sn_ToolCalls sn \<noteq> [] \<Longrightarrow> map_of (sn_Checksums sn) ''tool_calls'' = Some (cd_toolDigest cd (sn_ToolCalls sn))"
  using assms
  by (cases "rc_snapshot r")
     (auto simp: StopRecording_def Let_def compressSnapshot_def encryptPII_def calculateChecksums_def
           split: if_splits sum.splits)

text \<open>Everything a finished recording holds about the tool calls made while it ran.\<close>

lemma recording_calls:
  assumes "cfg_Enabled config" "cfg_CaptureTools config"
    and "StopRecording cd (fold applyOp ops (StartRecording (NewRecorder config) uuid now runID agent goal cfg)) t fs = (r', Inr sn)"
  shows "map callKey (sn_ToolCalls sn) = toolOps ops"
    and "map tx_Sequence (sn_ToolCalls sn) = map int [1..<Suc (length (sn_ToolCalls sn))]"
proof -
  from rec_inv_ops [OF rec_inv_start [OF assms(1,2)], of ops uuid now runID agent goal cfg]
  have inv: "rec_inv (fold applyOp ops (StartRecording (NewRecorder config) uuid now runID agent goal cfg)) (toolOps ops)" by simp
  obtain sn0 where sn0: "rc_snapshot (fold applyOp ops (StartRecording (NewRecorder config) uuid now runID agent goal cfg)) = Some sn0"
    "sn_ToolCalls sn = sn_ToolCalls sn0"
    using StopRecording_calls [OF assms(3)] by metis
  with inv show keys: "map callKey (sn_ToolCalls sn) = toolOps ops" by (simp add: rec_inv_def)
  from keys have "length (sn_ToolCalls sn) = length (toolOps ops)" by (metis length_map)
  with inv sn0 show "map tx_Sequence (sn_ToolCalls sn) = map int [1..<Suc (length (sn_ToolCalls sn))]" by (simp add: rec_inv_def)
qed

section \<open>Storing a snapshot\<close>

text \<open>What the JSON columns give back unchanged: encodable raw messages in compact form and decoded values.\<close>

definition jsonStable :: "(string \<Rightarrow> string option) \<Rightarrow> RunSnapshot \<Rightarrow> bool" where
  "jsonStable rawjson sn =
     (list_all (\<lambda>ex. rawjson (tx_Input ex) = Some (tx_Input ex) \<and> rawjson (tx_Output ex) = Some (tx_Output ex) \<and>
        list_all (\<lambda>se. sf_RevertData se = [] \<or> rawjson (sf_RevertData se) = Some (sf_RevertData se)) (tx_SideEffects ex)) (sn_ToolCalls sn) \<and>
      list_all (\<lambda>m. json_norm_map (mk_Metadata m) = mk_Metadata m) (sn_ModelCalls sn) \<and>
      json_norm_map (sn_AgentConfig sn) = sn_AgentConfig sn)"

lemma those_map_Some: "list_all (\<lambda>x. f x = Some x) xs \<Longrightarrow> those (map f xs) = Some xs"
  by (induction xs) auto

lemma storedEffect_stable: "sf_RevertData se = [] \<or> rawjson (sf_RevertData se) = Some (sf_RevertData se) \<Longrightarrow> storedEffect rawjson se = Some se"
  by (auto simp: storedEffect_def)

lemma storedCalls_stable:
  assumes "list_all (\<lambda>ex. rawjson (tx_Input ex) = Some (tx_Input ex) \<and> rawjson (tx_Output ex) = Some (tx_Output ex) \<and>
    list_all (\<lambda>se. sf_RevertData se = [] \<or> rawjson (sf_RevertData se) = Some (sf_RevertData se)) (tx_SideEffects ex)) exs"
  shows "storedCalls rawjson exs = exs"
proof -
  have "storedCall rawjson ex = Some ex" if "ex \<in> set exs" for ex
  proof -
    from that assms have ex: "rawjson (tx_Input ex) = Some (tx_Input ex)" "rawjson (tx_Output ex) = Some (tx_Output ex)"
      "list_all (\<lambda>se. sf_RevertData se = [] \<or> rawjson (sf_RevertData se) = Some (sf_RevertData se)) (tx_SideEffects ex)"
      by (auto simp: list_all_iff)
    from ex(3) have "those (map (storedEffect rawjson) (tx_SideEffects ex)) = Some (tx_SideEffects ex)"
      by (intro those_map_Some) (auto simp: list_all_iff storedEffect_stable)
    with ex(1,2) show ?thesis by (simp add: storedCall_def)
  qed
  then show ?thesis by (simp add: storedCalls_def those_map_Some list_all_iff)
qed

lemma storedTime_utc: "1000000 dvd t \<Longrightarrow> storedTime (\<lambda>t. 0) t = t"
  by (simp add: storedTime_def)

lemma those_None: "x \<in> set xs \<Longrightarrow> f x = None \<Longrightarrow> those (map f xs) = None"
  by (induction xs) (auto split: option.split)

text \<open>
  In a process that runs in UTC, a snapshot whose times are whole milliseconds and whose JSON parts are
  valid and compact comes back from the table exactly as it was saved, and the other snapshots are
  untouched.
\<close>

theorem snapshot_roundtrip:
  assumes "jsonStable rawjson sn" "1000000 dvd sn_CreatedAt sn" "1000000 dvd sn_StartTime sn" "1000000 dvd sn_EndTime sn"
  shows "LoadSnapshot (fst (SaveSnapshot rawjson (\<lambda>t. 0) tab None sn)) None (sn_ID sn) = Inr sn \<and>
    (other \<noteq> sn_ID sn \<longrightarrow> LoadSnapshot (fst (SaveSnapshot rawjson (\<lambda>t. 0) tab None sn)) None other = LoadSnapshot tab None other)"
proof -
  have calls: "storedCalls rawjson (sn_ToolCalls sn) = sn_ToolCalls sn"
    using assms(1) by (intro storedCalls_stable) (simp add: jsonStable_def)
  have models: "map (\<lambda>mk. mk\<lparr>mk_Metadata := json_norm_map (mk_Metadata mk)\<rparr>) (sn_ModelCalls sn) = sn_ModelCalls sn"
    using assms(1) by (intro map_idI) (auto simp: jsonStable_def list_all_iff)
  have cfg: "json_norm_map (sn_AgentConfig sn) = sn_AgentConfig sn" using assms(1) by (simp add: jsonStable_def)
  show ?thesis using assms(2-4) by (simp add: SaveSnapshot_def LoadSnapshot_def calls models cfg storedTime_utc)
qed

definition sampleSnapshot :: "string \<Rightarrow> RunSnapshot" where
  "sampleSnapshot out = \<lparr>sn_ID = ''s'', sn_RunID = ''r'', sn_Version = SnapshotVersion, sn_CreatedAt = 3000000, sn_AgentName = ''a'', sn_Goal = ''g'',
     sn_AgentConfig = [], sn_ModelCalls = [], sn_ToolCalls = [toolExecution 1 7 ''ls'' ''1'' out None 0], sn_Environment = [],
     sn_StartTime = 3000000, sn_EndTime = 9000000, sn_FinalState = ''completed'', sn_Checksums = [], sn_Compressed = False,
     sn_Encrypted = False, sn_SizeBytes = 0\<rparr>"

definition digitsOnly :: "string \<Rightarrow> string option" where
  "digitsOnly s = (if s \<noteq> [] \<and> list_all (\<lambda>c. c \<in> set ''0123456789'') s then Some s else None)"

theorem snapshot_roundtrip_witness:
  "LoadSnapshot (fst (SaveSnapshot digitsOnly (\<lambda>t. 0) [] None (sampleSnapshot ''2''))) None ''s'' = Inr (sampleSnapshot ''2'')"
proof -
  have "jsonStable digitsOnly (sampleSnapshot ''2'')" "1000000 dvd sn_CreatedAt (sampleSnapshot ''2'')"
    "1000000 dvd sn_StartTime (sampleSnapshot ''2'')" "1000000 dvd sn_EndTime (sampleSnapshot ''2'')"
    by (simp_all add: jsonStable_def sampleSnapshot_def toolExecution_def digitsOnly_def)
  from snapshot_roundtrip [OF this, of "[]"] show ?thesis by (simp add: sampleSnapshot_def)
qed

text \<open>
  Two ways in which the table loses data without an error. In a zone east or west of UTC every stored time of a
  snapshot comes back shifted by the offset of the zone, and one tool call whose output is not JSON makes the
  whole list of tool calls come back empty.
\<close>

theorem snapshot_store_loses:
  assumes "ex \<in> set (sn_ToolCalls sn)" "rawjson (tx_Output ex) = None"
  shows "\<exists>sn'. SaveSnapshot rawjson (\<lambda>t. off * 1000000) tab None sn = (AList.update (sn_ID sn) sn' tab, None) \<and>
    LoadSnapshot (fst (SaveSnapshot rawjson (\<lambda>t. off * 1000000) tab None sn)) None (sn_ID sn) = Inr sn' \<and>
    sn_StartTime sn' = sn_StartTime sn - sn_StartTime sn mod 1000000 + off * 1000000 \<and> sn_ToolCalls sn' = []"
proof -
  have "storedCall rawjson ex = None" using assms(2) by (simp add: storedCall_def split: option.split)
  from those_None [of ex "sn_ToolCalls sn" "storedCall rawjson", OF assms(1) this]
  have "storedCalls rawjson (sn_ToolCalls sn) = []" by (simp add: storedCalls_def)
  moreover have "storedTime (\<lambda>t. off * 1000000) t = t - t mod 1000000 + off * 1000000" for t
    by (simp add: storedTime_def algebra_simps minus_mod_eq_div_mult [symmetric])
  ultimately show ?thesis by (auto simp: SaveSnapshot_def LoadSnapshot_def)
qed

theorem snapshot_store_loses_witness:
  "\<exists>sn'. LoadSnapshot (fst (SaveSnapshot digitsOnly (\<lambda>t. 3600000 * 1000000) [] None (sampleSnapshot ''text''))) None ''s'' = Inr sn' \<and>
     sn_StartTime sn' = 3000000 + 3600000 * 1000000 \<and> sn_ToolCalls sn' = []"
  using snapshot_store_loses [of "toolExecution 1 7 ''ls'' ''1'' ''text'' None 0" "sampleSnapshot ''text''" digitsOnly 3600000 "[]"]
  by (auto simp: sampleSnapshot_def toolExecution_def digitsOnly_def)

end
