(* ===== verification/Replay_Replayer.thy ===== *)
theory Replay_Replayer
  imports Replay_Recorder
begin

text \<open>
  Replay of a recorded run, \<open>pkg/replay/replayer.go\<close>, and the time-travel cursor, \<open>cursor.go\<close>. The record
  \<open>replay_env\<close> holds what a replay sees from outside: the clock, the live tool executor (\<open>None\<close> for nil)
  and the answers to the HTTP requests of side effects. Positions in the live executor count the actions
  replayed so far. Ratios are rationals; the speed-up is \<open>None\<close> when the division gives an infinity.
\<close>

section \<open>Options and results\<close>

record ReplayOptions =
  op_Mode :: string
  op_SnapshotID :: string
  op_StartFromSequence :: int
  op_StopAtSequence :: int
  op_Breakpoints :: "int list"
  op_OverrideConfig :: "any smap"
  op_ExecuteSideEffects :: bool
  op_VerifyOutputs :: bool

record ReplayStepTrace =
  sp_Seq :: int
  sp_Tool :: string
  sp_Source :: string
  sp_InputSum :: string
  sp_OutputSum :: string
  sp_Result :: string
  sp_Duration :: string
  sp_Divergence :: string

record Divergence =
  dv_Sequence :: int
  dv_Type :: string
  dv_Component :: string
  dv_Expected :: any
  dv_Actual :: any
  dv_Impact :: string
  dv_Description :: string
  dv_Timestamp :: int

record ReplayMetrics =
  mx_TotalActions :: int
  mx_ActionsMatched :: int
  mx_ActionsDiverged :: int
  mx_Accuracy :: rat
  mx_AverageLatency :: int
  mx_OriginalDuration :: int
  mx_ReplayDuration :: int
  mx_SpeedupFactor :: "rat option"

record ReplayResult =
  rs_Success :: bool
  rs_SnapshotID :: string
  rs_Mode :: string
  rs_StartedAt :: int
  rs_CompletedAt :: int
  rs_Duration :: int
  rs_Trace :: "ReplayStepTrace list"
  rs_ActionsRerun :: int
  rs_Matches :: int
  rs_Divergences :: "Divergence list"
  rs_FinalState :: "any smap"
  rs_Output :: string
  rs_Error :: string
  rs_Metrics :: ReplayMetrics

record replay_env =
  rv_started :: int
  rv_completed :: int
  rv_now :: "nat \<Rightarrow> int"
  rv_dur :: "nat \<Rightarrow> string"
  rv_live :: "(nat \<Rightarrow> string \<Rightarrow> string \<Rightarrow> string \<Rightarrow> gerror + string) option"
  rv_http :: "string \<Rightarrow> gerror + int"

section \<open>Helpers\<close>

text \<open>\<open>s[:max-3]\<close> on a string longer than \<open>max\<close>; both callers pass at least 50.\<close>

definition truncate_str :: "string \<Rightarrow> nat \<Rightarrow> string" where
  "truncate_str s mx = (if length s \<le> mx then s else take (mx - 3) s @ ''...'')"

definition executeLive :: "replay_env \<Rightarrow> nat \<Rightarrow> ToolExecution \<Rightarrow> gerror + string" where
  "executeLive env n action =
     (case rv_live env of
        Some ex \<Rightarrow> ex n (tx_ToolName action) ''1'' (tx_Input action)
      | None \<Rightarrow> Inr (tx_Output action))"

definition compareOutputs :: "string \<Rightarrow> string \<Rightarrow> gerror option" where
  "compareOutputs expected actual = (if expected \<noteq> actual then Some (Errorf ''output mismatch'') else None)"

text \<open>The requests a side effect sends, and the error it ends with.\<close>

definition executeSideEffect :: "replay_env \<Rightarrow> SideEffect \<Rightarrow> string list \<times> gerror option" where
  "executeSideEffect env se =
     (if \<not> sf_Replayable se then ([], None)
      else if sf_Type se \<noteq> ''http_call'' then ([], None)
      else if sf_Target se = [] \<or> (\<not> HasPrefix (sf_Target se) ''http://'' \<and> \<not> HasPrefix (sf_Target se) ''https://'') then ([], None)
      else ([sf_Target se],
            (case rv_http env (sf_Target se) of
               Inl err \<Rightarrow> Some err
             | Inr code \<Rightarrow> if code \<ge> 400
                 then Some (Errorf (''side effect GET '' @ sf_Target se @ '': status '' @ itoa code)) else None)))"

text \<open>The checksums are computed again and thrown away.\<close>

definition verifyChecksums :: "codec \<Rightarrow> RunSnapshot \<Rightarrow> gerror option" where
  "verifyChecksums cd sn = (let models = cd_modelDigest cd (sn_ModelCalls sn); tools = cd_toolDigest cd (sn_ToolCalls sn) in None)"

text \<open>The actions between the two bounds of the options; a bound of 0 is none.\<close>

fun selectActions :: "ReplayOptions \<Rightarrow> ToolExecution list \<Rightarrow> ToolExecution list" where
  "selectActions opts [] = []"
| "selectActions opts (action # rest) =
     (if op_StartFromSequence opts > 0 \<and> tx_Sequence action < op_StartFromSequence opts then selectActions opts rest
      else if op_StopAtSequence opts > 0 \<and> tx_Sequence action > op_StopAtSequence opts then []
      else action # selectActions opts rest)"

section \<open>One action in each mode\<close>

definition bump :: "(int \<Rightarrow> int) \<Rightarrow> (int \<Rightarrow> int) \<Rightarrow> (int \<Rightarrow> int) \<Rightarrow> ReplayMetrics \<Rightarrow> ReplayMetrics" where
  "bump tot mat dvg m = m\<lparr>mx_TotalActions := tot (mx_TotalActions m), mx_ActionsMatched := mat (mx_ActionsMatched m),
     mx_ActionsDiverged := dvg (mx_ActionsDiverged m)\<rparr>"

definition recordedStep :: "ReplayOptions \<Rightarrow> string \<Rightarrow> ToolExecution \<Rightarrow> ReplayStepTrace" where
  "recordedStep opts src action =
     \<lparr>sp_Seq = tx_Sequence action, sp_Tool = tx_ToolName action,
      sp_Source = (if tx_Sequence action \<in> set (op_Breakpoints opts) then ''breakpoint'' else src),
      sp_InputSum = truncate_str (tx_Input action) 60, sp_OutputSum = truncate_str (tx_Output action) 60, sp_Result = ''ok'',
      sp_Duration = [], sp_Divergence = []\<rparr>"

definition exactAction :: "ReplayOptions \<Rightarrow> ToolExecution \<Rightarrow> ReplayResult \<Rightarrow> ReplayResult" where
  "exactAction opts action r =
     r\<lparr>rs_Trace := rs_Trace r @ [recordedStep opts ''recorded'' action], rs_ActionsRerun := rs_ActionsRerun r + 1,
       rs_Metrics := bump (\<lambda>n. n + 1) (\<lambda>n. n + 1) (\<lambda>n. n) (rs_Metrics r)\<rparr>"

definition debugAction :: "ReplayOptions \<Rightarrow> ToolExecution \<Rightarrow> ReplayResult \<Rightarrow> ReplayResult" where
  "debugAction opts action r =
     r\<lparr>rs_Trace := rs_Trace r @ [recordedStep opts ''step'' action], rs_ActionsRerun := rs_ActionsRerun r + 1,
       rs_Matches := rs_Matches r + 1,
       rs_Metrics := bump (\<lambda>n. n + 1) (\<lambda>n. n + 1) (\<lambda>n. n) (rs_Metrics r)\<rparr>"

definition liveTrace :: "replay_env \<Rightarrow> nat \<Rightarrow> ToolExecution \<Rightarrow> string \<Rightarrow> string \<Rightarrow> string \<Rightarrow> ReplayStepTrace" where
  "liveTrace env n action outSum verdict why =
     \<lparr>sp_Seq = tx_Sequence action, sp_Tool = tx_ToolName action, sp_Source = ''live'', sp_InputSum = truncate_str (tx_Input action) 50,
      sp_OutputSum = outSum, sp_Result = verdict, sp_Duration = rv_dur env n, sp_Divergence = why\<rparr>"

definition liveAction :: "replay_env \<Rightarrow> ReplayOptions \<Rightarrow> ToolExecution \<Rightarrow> ReplayResult \<Rightarrow> ReplayResult" where
  "liveAction env opts action r0 =
     (let n = nat (rs_ActionsRerun r0);
          r = r0\<lparr>rs_ActionsRerun := rs_ActionsRerun r0 + 1, rs_Metrics := bump (\<lambda>n. n + 1) (\<lambda>n. n) (\<lambda>n. n) (rs_Metrics r0)\<rparr>
      in case executeLive env n action of
           Inl err \<Rightarrow>
             r\<lparr>rs_Trace := rs_Trace r @ [liveTrace env n action (''error: '' @ error_string err) ''diverged'' (error_string err)],
               rs_Divergences := rs_Divergences r @
                 [\<lparr>dv_Sequence = tx_Sequence action, dv_Type = ''error'', dv_Component = tx_ToolName action, dv_Expected = ANil, dv_Actual = ANil,
                   dv_Impact = ''critical'', dv_Description = error_string err, dv_Timestamp = rv_now env n\<rparr>],
               rs_Metrics := bump (\<lambda>n. n) (\<lambda>n. n) (\<lambda>n. n + 1) (rs_Metrics r)\<rparr>
         | Inr out \<Rightarrow>
             if op_VerifyOutputs opts then
               (case compareOutputs (tx_Output action) out of
                  Some err \<Rightarrow>
                    r\<lparr>rs_Trace := rs_Trace r @ [liveTrace env n action (truncate_str out 60) ''diverged'' ''output mismatch''],
                      rs_Divergences := rs_Divergences r @
                        [\<lparr>dv_Sequence = tx_Sequence action, dv_Type = ''output'', dv_Component = tx_ToolName action,
                          dv_Expected = AStr (tx_Output action), dv_Actual = AStr out, dv_Impact = ''major'',
                          dv_Description = error_string err, dv_Timestamp = rv_now env n\<rparr>],
                      rs_Metrics := bump (\<lambda>n. n) (\<lambda>n. n) (\<lambda>n. n + 1) (rs_Metrics r)\<rparr>
                | None \<Rightarrow>
                    r\<lparr>rs_Trace := rs_Trace r @ [liveTrace env n action (truncate_str out 60) ''match'' []],
                      rs_Matches := rs_Matches r + 1,
                      rs_Metrics := bump (\<lambda>n. n) (\<lambda>n. n + 1) (\<lambda>n. n) (rs_Metrics r)\<rparr>)
             else r\<lparr>rs_Trace := rs_Trace r @ [liveTrace env n action (truncate_str out 60) ''ok'' []]\<rparr>)"

definition bareDivergence :: "ToolExecution \<Rightarrow> string \<Rightarrow> string \<Rightarrow> Divergence" where
  "bareDivergence action ty impact = \<lparr>dv_Sequence = tx_Sequence action, dv_Type = ty, dv_Component = tx_ToolName action,
     dv_Expected = ANil, dv_Actual = ANil, dv_Impact = impact, dv_Description = [], dv_Timestamp = 0\<rparr>"

definition mixedAction :: "replay_env \<Rightarrow> ReplayOptions \<Rightarrow> ToolExecution \<Rightarrow> ReplayResult \<Rightarrow> ReplayResult" where
  "mixedAction env opts action r0 =
     (let n = nat (rs_ActionsRerun r0);
          r = r0\<lparr>rs_ActionsRerun := rs_ActionsRerun r0 + 1, rs_Metrics := bump (\<lambda>n. n + 1) (\<lambda>n. n) (\<lambda>n. n) (rs_Metrics r0)\<rparr>
      in case executeLive env n action of
           Inl err \<Rightarrow>
             r\<lparr>rs_Trace := rs_Trace r @ [liveTrace env n action (''error: '' @ error_string err) ''diverged'' []],
               rs_Divergences := rs_Divergences r @ [bareDivergence action ''error'' ''critical''],
               rs_Metrics := bump (\<lambda>n. n) (\<lambda>n. n) (\<lambda>n. n + 1) (rs_Metrics r)\<rparr>
         | Inr out \<Rightarrow>
             if op_VerifyOutputs opts then
               (case compareOutputs (tx_Output action) out of
                  Some err \<Rightarrow>
                    r\<lparr>rs_Trace := rs_Trace r @ [liveTrace env n action (truncate_str out 60) ''diverged'' []],
                      rs_Divergences := rs_Divergences r @ [bareDivergence action ''output'' ''major''],
                      rs_Metrics := bump (\<lambda>n. n) (\<lambda>n. n) (\<lambda>n. n + 1) (rs_Metrics r)\<rparr>
                | None \<Rightarrow>
                    r\<lparr>rs_Trace := rs_Trace r @ [liveTrace env n action (truncate_str out 60) ''match'' []],
                      rs_Matches := rs_Matches r + 1,
                      rs_Metrics := bump (\<lambda>n. n) (\<lambda>n. n + 1) (\<lambda>n. n) (rs_Metrics r)\<rparr>)
             else r\<lparr>rs_Trace := rs_Trace r @ [liveTrace env n action (truncate_str out 60) ''ok'' []]\<rparr>)"

section \<open>The modes\<close>

definition complete :: "replay_env \<Rightarrow> bool \<Rightarrow> ReplayResult \<Rightarrow> ReplayResult" where
  "complete env success r =
     (let d = rv_completed env - rs_StartedAt r
      in r\<lparr>rs_Success := success, rs_CompletedAt := rv_completed env, rs_Duration := d,
           rs_Metrics := (rs_Metrics r)\<lparr>mx_ReplayDuration := d\<rparr>\<rparr>)"

definition speedup :: "ReplayResult \<Rightarrow> ReplayResult" where
  "speedup r = (let m = rs_Metrics r
     in if mx_OriginalDuration m > 0
        then r\<lparr>rs_Metrics := m\<lparr>mx_SpeedupFactor := (if mx_ReplayDuration m = 0 then None
                                 else Some (of_int (mx_OriginalDuration m) / of_int (mx_ReplayDuration m)))\<rparr>\<rparr>
        else r)"

definition accuracy :: "ReplayResult \<Rightarrow> ReplayResult" where
  "accuracy r = (let m = rs_Metrics r
     in if mx_TotalActions m > 0
        then r\<lparr>rs_Metrics := m\<lparr>mx_Accuracy := of_int (mx_ActionsMatched m) / of_int (mx_TotalActions m)\<rparr>\<rparr>
        else r)"

text \<open>The exact mode indexes the slice and panics below 0; it also lists the requests its side effects send.\<close>

definition exactBounds :: "ReplayOptions \<Rightarrow> RunSnapshot \<Rightarrow> int \<times> int" where
  "exactBounds opts sn =
     ((if op_StartFromSequence opts = 0 then 1 else op_StartFromSequence opts) - 1,
      min (if op_StopAtSequence opts = 0 then int (length (sn_ToolCalls sn)) else op_StopAtSequence opts) (int (length (sn_ToolCalls sn))))"

definition replayExact :: "replay_env \<Rightarrow> RunSnapshot \<Rightarrow> ReplayOptions \<Rightarrow> ReplayResult \<Rightarrow> gerror + (ReplayResult \<times> string list)" where
  "replayExact env sn opts result =
     (case exactBounds opts sn of
        (lo, hi) \<Rightarrow>
          if lo < hi \<and> lo < 0 then Inl (Errorf ''panic: index out of range'')
          else (let acts = take (nat (hi - lo)) (drop (nat lo) (sn_ToolCalls sn));
                    r = fold (exactAction opts) acts result;
                    reqs = (if op_ExecuteSideEffects opts
                            then concat (map (\<lambda>a. concat (map (\<lambda>se. fst (executeSideEffect env se)) (tx_SideEffects a))) acts) else [])
                in Inr (accuracy (speedup (complete env True (r\<lparr>rs_Matches := rs_ActionsRerun r\<rparr>))), reqs)))"

definition replayLive :: "replay_env \<Rightarrow> RunSnapshot \<Rightarrow> ReplayOptions \<Rightarrow> ReplayResult \<Rightarrow> ReplayResult" where
  "replayLive env sn opts result =
     (let r = fold (liveAction env opts) (selectActions opts (sn_ToolCalls sn)) result
      in accuracy (speedup (complete env (rs_Divergences r = []) r)))"

definition replayMixed :: "replay_env \<Rightarrow> RunSnapshot \<Rightarrow> ReplayOptions \<Rightarrow> ReplayResult \<Rightarrow> ReplayResult" where
  "replayMixed env sn opts result =
     accuracy (complete env True (fold (mixedAction env opts) (selectActions opts (sn_ToolCalls sn)) result))"

definition replayDebug :: "replay_env \<Rightarrow> RunSnapshot \<Rightarrow> ReplayOptions \<Rightarrow> ReplayResult \<Rightarrow> ReplayResult" where
  "replayDebug env sn opts result =
     accuracy (complete env True (fold (debugAction opts) (selectActions opts (sn_ToolCalls sn)) result))"

fun sequenceDivergences :: "nat \<Rightarrow> ToolExecution list \<Rightarrow> Divergence list" where
  "sequenceDivergences i [] = []"
| "sequenceDivergences i (action # rest) =
     (if tx_Sequence action \<noteq> int i + 1
      then [\<lparr>dv_Sequence = tx_Sequence action, dv_Type = ''sequence'', dv_Component = [], dv_Expected = AInt (int i + 1),
             dv_Actual = AInt (tx_Sequence action), dv_Impact = ''major'',
             dv_Description = ''sequence mismatch at index '' @ itoa (int i), dv_Timestamp = 0\<rparr>]
      else []) @ sequenceDivergences (Suc i) rest"

fun timingDivergences :: "int \<Rightarrow> ToolExecution list \<Rightarrow> Divergence list" where
  "timingDivergences lastTime [] = []"
| "timingDivergences lastTime (action # rest) =
     (if lastTime \<noteq> 0 \<and> tx_Timestamp action < lastTime
      then [\<lparr>dv_Sequence = tx_Sequence action, dv_Type = ''timing'', dv_Component = [], dv_Expected = ANil, dv_Actual = ANil,
             dv_Impact = ''minor'', dv_Description = ''non-monotonic timestamp'', dv_Timestamp = 0\<rparr>]
      else []) @ timingDivergences (tx_Timestamp action) rest"

definition replayValidation :: "codec \<Rightarrow> replay_env \<Rightarrow> RunSnapshot \<Rightarrow> ReplayResult \<Rightarrow> ReplayResult" where
  "replayValidation cd env sn result =
     (let chk = (case verifyChecksums cd sn of
                    None \<Rightarrow> []
                  | Some err \<Rightarrow> [\<lparr>dv_Sequence = 0, dv_Type = ''checksum'', dv_Component = ''snapshot'', dv_Expected = ANil, dv_Actual = ANil,
                                  dv_Impact = ''critical'', dv_Description = error_string err, dv_Timestamp = 0\<rparr>]);
          dvs = rs_Divergences result @ chk @ sequenceDivergences 0 (sn_ToolCalls sn) @ timingDivergences 0 (sn_ToolCalls sn);
          n = int (length (sn_ToolCalls sn))
      in result\<lparr>rs_Divergences := dvs, rs_Success := (dvs = []), rs_CompletedAt := rv_completed env,
           rs_Duration := rv_completed env - rs_StartedAt result,
           rs_Metrics := (rs_Metrics result)\<lparr>mx_TotalActions := n, mx_ActionsMatched := n - int (length dvs)\<rparr>\<rparr>)"

definition newResult :: "replay_env \<Rightarrow> RunSnapshot \<Rightarrow> ReplayOptions \<Rightarrow> ReplayResult" where
  "newResult env sn opts = \<lparr>rs_Success = False, rs_SnapshotID = sn_ID sn, rs_Mode = op_Mode opts, rs_StartedAt = rv_started env, rs_CompletedAt = 0,
     rs_Duration = 0, rs_Trace = [], rs_ActionsRerun = 0, rs_Matches = 0, rs_Divergences = [], rs_FinalState = [], rs_Output = [], rs_Error = [],
     rs_Metrics = \<lparr>mx_TotalActions = 0, mx_ActionsMatched = 0, mx_ActionsDiverged = 0, mx_Accuracy = 0, mx_AverageLatency = 0,
       mx_OriginalDuration = sn_EndTime sn - sn_StartTime sn, mx_ReplayDuration = 0, mx_SpeedupFactor = Some 0\<rparr>\<rparr>"

definition Replay :: "codec \<Rightarrow> replay_env \<Rightarrow> RunSnapshot \<Rightarrow> ReplayOptions \<Rightarrow> gerror + (ReplayResult \<times> string list)" where
  "Replay cd env sn opts =
     (let result = newResult env sn opts
      in if op_Mode opts = ''exact'' then replayExact env sn opts result
         else if op_Mode opts = ''live'' then Inr (replayLive env sn opts result, [])
         else if op_Mode opts = ''mixed'' then Inr (replayMixed env sn opts result, [])
         else if op_Mode opts = ''debug'' then Inr (replayDebug env sn opts result, [])
         else if op_Mode opts = ''validation'' then Inr (replayValidation cd env sn result, [])
         else Inl (Errorf (''unsupported replay mode: '' @ op_Mode opts)))"

definition ReplayRange :: "codec \<Rightarrow> replay_env \<Rightarrow> RunSnapshot \<Rightarrow> int \<Rightarrow> int \<Rightarrow> ReplayOptions \<Rightarrow> gerror + (ReplayResult \<times> string list)" where
  "ReplayRange cd env sn start stop opts = Replay cd env sn (opts\<lparr>op_StartFromSequence := start, op_StopAtSequence := stop\<rparr>)"

section \<open>The cursor\<close>

record StateAt =
  sa_Position :: int
  sa_ToolCalls :: "ToolExecution list"
  sa_ModelCalls :: "ModelCall list"
  sa_CurrentAction :: "ToolExecution option"
  sa_CanStepForward :: bool
  sa_CanStepBack :: bool

record ReplayCursor =
  cu_snapshot :: RunSnapshot
  cu_position :: int

definition NewReplayCursor :: "RunSnapshot \<Rightarrow> ReplayCursor" where
  "NewReplayCursor sn = \<lparr>cu_snapshot = sn, cu_position = 0\<rparr>"

definition CanStepForward :: "ReplayCursor \<Rightarrow> bool" where
  "CanStepForward c = (cu_position c < int (length (sn_ToolCalls (cu_snapshot c))))"

definition CanStepBack :: "ReplayCursor \<Rightarrow> bool" where
  "CanStepBack c = (cu_position c > 0)"

definition StepForward :: "ReplayCursor \<Rightarrow> ReplayCursor \<times> bool" where
  "StepForward c = (if \<not> CanStepForward c then (c, False) else (c\<lparr>cu_position := cu_position c + 1\<rparr>, True))"

definition StepBack :: "ReplayCursor \<Rightarrow> ReplayCursor \<times> bool" where
  "StepBack c = (if \<not> CanStepBack c then (c, False) else (c\<lparr>cu_position := cu_position c - 1\<rparr>, True))"

definition clampSequence :: "RunSnapshot \<Rightarrow> int \<Rightarrow> int" where
  "clampSequence sn sq = (let s = (if sq < 0 then 0 else sq)
     in if s > int (length (sn_ToolCalls sn)) then int (length (sn_ToolCalls sn)) else s)"

definition SeekToSequence :: "ReplayCursor \<Rightarrow> int \<Rightarrow> ReplayCursor" where
  "SeekToSequence c sq = c\<lparr>cu_position := clampSequence (cu_snapshot c) sq\<rparr>"

definition GetStateAt :: "ReplayCursor \<Rightarrow> int \<Rightarrow> StateAt" where
  "GetStateAt c sq0 =
     (let sn = cu_snapshot c; sq = clampSequence sn sq0; n = int (length (sn_ToolCalls sn))
      in \<lparr>sa_Position = sq, sa_ToolCalls = take (nat sq) (sn_ToolCalls sn),
          sa_ModelCalls = filter (\<lambda>m. mk_Sequence m \<le> sq) (sn_ModelCalls sn),
          sa_CurrentAction = (if 1 \<le> sq \<and> sq \<le> n then Some (sn_ToolCalls sn ! nat (sq - 1)) else None),
          sa_CanStepForward = (sq < n), sa_CanStepBack = (0 < sq)\<rparr>)"

section \<open>Facts about the modes\<close>

lemma bump_bump [simp]: "bump f g h (bump f' g' h' m) = bump (f \<circ> f') (g \<circ> g') (h \<circ> h') m"
  by (simp add: bump_def)

lemma bump_fields [simp]:
  "mx_TotalActions (bump f g h m) = f (mx_TotalActions m)"
  "mx_ActionsMatched (bump f g h m) = g (mx_ActionsMatched m)"
  "mx_ActionsDiverged (bump f g h m) = h (mx_ActionsDiverged m)"
  "mx_OriginalDuration (bump f g h m) = mx_OriginalDuration m"
  by (simp_all add: bump_def)

lemma complete_fields [simp]:
  "rs_Trace (complete env b r) = rs_Trace r" "rs_ActionsRerun (complete env b r) = rs_ActionsRerun r"
  "rs_Matches (complete env b r) = rs_Matches r" "rs_Divergences (complete env b r) = rs_Divergences r"
  "rs_Success (complete env b r) = b" "mx_TotalActions (rs_Metrics (complete env b r)) = mx_TotalActions (rs_Metrics r)"
  "mx_ActionsMatched (rs_Metrics (complete env b r)) = mx_ActionsMatched (rs_Metrics r)"
  "mx_ActionsDiverged (rs_Metrics (complete env b r)) = mx_ActionsDiverged (rs_Metrics r)"
  by (simp_all add: complete_def Let_def)

lemma speedup_fields [simp]:
  "rs_Trace (speedup r) = rs_Trace r" "rs_ActionsRerun (speedup r) = rs_ActionsRerun r"
  "rs_Matches (speedup r) = rs_Matches r" "rs_Divergences (speedup r) = rs_Divergences r" "rs_Success (speedup r) = rs_Success r"
  "mx_TotalActions (rs_Metrics (speedup r)) = mx_TotalActions (rs_Metrics r)"
  "mx_ActionsMatched (rs_Metrics (speedup r)) = mx_ActionsMatched (rs_Metrics r)"
  "mx_ActionsDiverged (rs_Metrics (speedup r)) = mx_ActionsDiverged (rs_Metrics r)"
  by (simp_all add: speedup_def Let_def)

lemma accuracy_fields [simp]:
  "rs_Trace (accuracy r) = rs_Trace r" "rs_ActionsRerun (accuracy r) = rs_ActionsRerun r"
  "rs_Matches (accuracy r) = rs_Matches r" "rs_Divergences (accuracy r) = rs_Divergences r" "rs_Success (accuracy r) = rs_Success r"
  "mx_TotalActions (rs_Metrics (accuracy r)) = mx_TotalActions (rs_Metrics r)"
  "mx_ActionsMatched (rs_Metrics (accuracy r)) = mx_ActionsMatched (rs_Metrics r)"
  "mx_ActionsDiverged (rs_Metrics (accuracy r)) = mx_ActionsDiverged (rs_Metrics r)"
  by (simp_all add: accuracy_def Let_def)

lemma mx_Accuracy_accuracy:
  "0 < mx_TotalActions (rs_Metrics r) \<Longrightarrow>
   mx_Accuracy (rs_Metrics (accuracy r)) = of_int (mx_ActionsMatched (rs_Metrics r)) / of_int (mx_TotalActions (rs_Metrics r))"
  by (simp add: accuracy_def Let_def)

lemma exact_fold:
  "fold (exactAction opts) acts r = r\<lparr>rs_Trace := rs_Trace r @ map (recordedStep opts ''recorded'') acts,
     rs_ActionsRerun := rs_ActionsRerun r + int (length acts),
     rs_Metrics := bump (\<lambda>n. n + int (length acts)) (\<lambda>n. n + int (length acts)) (\<lambda>n. n) (rs_Metrics r)\<rparr>"
proof (induction acts arbitrary: r)
  case Nil
  then show ?case by (simp add: bump_def)
next
  case (Cons a as)
  show ?case unfolding fold_simps comp_def Cons.IH by (simp add: exactAction_def comp_def algebra_simps)
qed

text \<open>The first \<open>n\<close> calls of a fresh snapshot, replayed exactly.\<close>

lemma replayExact_all:
  assumes "op_StartFromSequence opts = 0" "op_StopAtSequence opts = 0" "op_ExecuteSideEffects opts = False"
  obtains r where "replayExact env sn opts (newResult env sn opts) = Inr (r, [])"
    "rs_Trace r = map (recordedStep opts ''recorded'') (sn_ToolCalls sn)" "rs_Success r" "rs_Divergences r = []"
    "rs_Matches r = int (length (sn_ToolCalls sn))"
    "sn_ToolCalls sn \<noteq> [] \<Longrightarrow> mx_Accuracy (rs_Metrics r) = 1"
  using assms that
  by (auto simp: replayExact_def exactBounds_def newResult_def exact_fold Let_def mx_Accuracy_accuracy)

lemma sequence_ok:
  "map tx_Sequence xs = map int [Suc i..<Suc i + length xs] \<Longrightarrow> sequenceDivergences i xs = []"
proof (induction xs arbitrary: i)
  case (Cons x xs)
  from Cons.prems have hd: "tx_Sequence x = int i + 1"
    and tl: "map tx_Sequence xs = map int [Suc (Suc i)..<Suc (Suc i) + length xs]"
    by (auto simp: upt_conv_Cons simp del: upt_Suc)
  show ?case using Cons.IH [OF tl] by (simp add: hd)
qed simp

lemma timing_ok: "sorted_wrt (\<le>) (t # map tx_Timestamp xs) \<Longrightarrow> timingDivergences t xs = []"
  by (induction xs arbitrary: t) auto

lemma validation_ok:
  assumes "map tx_Sequence (sn_ToolCalls sn) = map int [1..<Suc (length (sn_ToolCalls sn))]"
    and "sorted_wrt (\<le>) (0 # map tx_Timestamp (sn_ToolCalls sn))"
  shows "rs_Success (replayValidation cd env sn (newResult env sn opts))"
  using sequence_ok [of "sn_ToolCalls sn" 0] timing_ok [OF assms(2)] assms(1)
  by (simp add: replayValidation_def Let_def verifyChecksums_def newResult_def)

section \<open>Live replay\<close>

definition agrees :: "replay_env \<Rightarrow> nat \<Rightarrow> ToolExecution \<Rightarrow> bool" where
  "agrees env n action = (executeLive env n action = Inr (tx_Output action))"

text \<open>What one verified live action does to the numbers of the result.\<close>

lemma liveAction_verified:
  assumes "op_VerifyOutputs opts"
  shows "rs_ActionsRerun (liveAction env opts a r) = rs_ActionsRerun r + 1"
    and "rs_Divergences (liveAction env opts a r) = [] \<longleftrightarrow> rs_Divergences r = [] \<and> agrees env (nat (rs_ActionsRerun r)) a"
    and "rs_Matches (liveAction env opts a r) = rs_Matches r + (if agrees env (nat (rs_ActionsRerun r)) a then 1 else 0)"
    and "mx_ActionsMatched (rs_Metrics (liveAction env opts a r)) =
      mx_ActionsMatched (rs_Metrics r) + (if agrees env (nat (rs_ActionsRerun r)) a then 1 else 0)"
    and "mx_TotalActions (rs_Metrics (liveAction env opts a r)) = mx_TotalActions (rs_Metrics r) + 1"
    and "length (rs_Divergences (liveAction env opts a r)) =
      length (rs_Divergences r) + (if agrees env (nat (rs_ActionsRerun r)) a then 0 else 1)"
  using assms by (simp_all add: liveAction_def Let_def agrees_def compareOutputs_def split: sum.split)

fun agreeing :: "replay_env \<Rightarrow> nat \<Rightarrow> ToolExecution list \<Rightarrow> nat" where
  "agreeing env n [] = 0"
| "agreeing env n (a # as) = (if agrees env n a then 1 else 0) + agreeing env (Suc n) as"

lemma agreeing_le: "agreeing env n as \<le> length as"
proof (induction as arbitrary: n)
  case (Cons a as)
  then show ?case using Cons.IH [of "Suc n"] by (simp add: le_SucI)
qed simp

lemma agreeing_full: "agreeing env n as = length as \<longleftrightarrow> (\<forall>k < length as. agrees env (n + k) (as ! k))"
proof (induction as arbitrary: n)
  case (Cons a as)
  then show ?case using agreeing_le [of env "Suc n" as] by (auto simp: All_less_Suc2)
qed simp

lemma live_fold:
  assumes "op_VerifyOutputs opts" "rs_ActionsRerun r = int n"
  shows "rs_ActionsRerun (fold (liveAction env opts) as r) = int (n + length as) \<and>
    rs_Matches (fold (liveAction env opts) as r) = rs_Matches r + int (agreeing env n as) \<and>
    mx_ActionsMatched (rs_Metrics (fold (liveAction env opts) as r)) = mx_ActionsMatched (rs_Metrics r) + int (agreeing env n as) \<and>
    mx_TotalActions (rs_Metrics (fold (liveAction env opts) as r)) = mx_TotalActions (rs_Metrics r) + int (length as) \<and>
    length (rs_Divergences (fold (liveAction env opts) as r)) + agreeing env n as = length (rs_Divergences r) + length as"
  using assms(2)
proof (induction as arbitrary: r n)
  case (Cons a as)
  note step = liveAction_verified [OF assms(1), of env a r]
  from step(1) Cons.prems have "rs_ActionsRerun (liveAction env opts a r) = int (Suc n)" by simp
  from Cons.IH [OF this] step Cons.prems show ?case by (simp add: algebra_simps split: if_splits)
qed simp

section \<open>Properties\<close>

lemma debug_fold:
  "fold (debugAction opts) acts r = r\<lparr>rs_Trace := rs_Trace r @ map (recordedStep opts ''step'') acts,
     rs_ActionsRerun := rs_ActionsRerun r + int (length acts), rs_Matches := rs_Matches r + int (length acts),
     rs_Metrics := bump (\<lambda>n. n + int (length acts)) (\<lambda>n. n + int (length acts)) (\<lambda>n. n) (rs_Metrics r)\<rparr>"
proof (induction acts arbitrary: r)
  case Nil
  then show ?case by (simp add: bump_def)
next
  case (Cons a as)
  show ?case unfolding fold_simps comp_def Cons.IH by (simp add: debugAction_def comp_def algebra_simps)
qed

lemma selectActions_all: "op_StartFromSequence opts = 0 \<Longrightarrow> op_StopAtSequence opts = 0 \<Longrightarrow> selectActions opts acts = acts"
  by (induction acts) simp_all

lemma replayDebug_all:
  assumes "op_StartFromSequence opts = 0" "op_StopAtSequence opts = 0"
  shows "rs_Trace (replayDebug env sn opts (newResult env sn opts)) = map (recordedStep opts ''step'') (sn_ToolCalls sn)"
    "rs_Success (replayDebug env sn opts (newResult env sn opts))" "rs_Divergences (replayDebug env sn opts (newResult env sn opts)) = []"
  by (simp_all add: replayDebug_def selectActions_all [OF assms] debug_fold newResult_def)

lemma live_success:
  assumes "op_VerifyOutputs opts" "op_StartFromSequence opts = 0" "op_StopAtSequence opts = 0"
  shows "rs_Success (replayLive env sn opts (newResult env sn opts)) \<longleftrightarrow>
    (\<forall>k < length (sn_ToolCalls sn). executeLive env k (sn_ToolCalls sn ! k) = Inr (tx_Output (sn_ToolCalls sn ! k)))"
proof -
  have "rs_ActionsRerun (newResult env sn opts) = int 0" "rs_Divergences (newResult env sn opts) = []" by (simp_all add: newResult_def)
  with live_fold [OF assms(1), of "newResult env sn opts" 0 env "sn_ToolCalls sn"] agreeing_full [of env 0 "sn_ToolCalls sn"] show ?thesis
    by (auto simp: replayLive_def selectActions_all [OF assms(2,3)] agrees_def Let_def)
qed

text \<open>A step of a trace: its number, its tool and the first 60 characters of input and output.\<close>

definition stepKey :: "ReplayStepTrace \<Rightarrow> int \<times> string \<times> string \<times> string" where
  "stepKey s = (sp_Seq s, sp_Tool s, sp_InputSum s, sp_OutputSum s)"

text \<open>
  C20. Recording and replaying fit together: for every interleaving of model calls, tool calls and side effects between start and stop, the snapshot holds exactly the tool calls made, in order and
  numbered from 1. The exact and the debug replay go through all of them with the recorded inputs and outputs and report no divergence; the validation mode accepts the snapshot when
  the clock did not run backwards; and a verified live replay succeeds exactly when every tool, called again with the recorded input, gives the recorded output.
\<close>

theorem recorded_run_replays:
  assumes "cfg_Enabled config" "cfg_CaptureTools config"
    and stop: "StopRecording cd (fold applyOp ops (StartRecording (NewRecorder config) uuid now runID agent goal cfg)) t fs = (r', Inr sn)"
    and opts: "op_StartFromSequence opts = 0" "op_StopAtSequence opts = 0" "op_ExecuteSideEffects opts = False"
  shows "map callKey (sn_ToolCalls sn) = toolOps ops \<and> map tx_Sequence (sn_ToolCalls sn) = map int [1..<Suc (length (toolOps ops))] \<and>
    (\<forall>mode \<in> {''exact'', ''debug''}. \<exists>r. Replay cd env sn (opts\<lparr>op_Mode := mode\<rparr>) = Inr (r, []) \<and> rs_Success r \<and> rs_Divergences r = [] \<and>
       map stepKey (rs_Trace r) =
         map (\<lambda>(i, now, tool, input, output). (int i, tool, truncate_str input 60, truncate_str output 60)) (enumerate 1 (toolOps ops))) \<and>
    (sorted_wrt (\<le>) (0 # map fst (toolOps ops)) \<longrightarrow>
       (\<exists>r. Replay cd env sn (opts\<lparr>op_Mode := ''validation''\<rparr>) = Inr (r, []) \<and> rs_Success r)) \<and>
    (\<forall>ex. rv_live env = Some ex \<and> op_VerifyOutputs opts \<longrightarrow>
       (\<exists>r. Replay cd env sn (opts\<lparr>op_Mode := ''live''\<rparr>) = Inr (r, []) \<and>
         (rs_Success r \<longleftrightarrow> (\<forall>k < length (toolOps ops). case toolOps ops ! k of (now, tool, input, output) \<Rightarrow> ex k tool ''1'' input = Inr output))))"
proof -
  note calls = recording_calls [OF assms(1,2) stop]
  let ?xs = "sn_ToolCalls sn"
  have len: "length (toolOps ops) = length ?xs" using calls(1) by (metis length_map)
  have key: "callKey (?xs ! k) = toolOps ops ! k" "tx_Sequence (?xs ! k) = int (Suc k)" if "k < length ?xs" for k
  proof -
    show "callKey (?xs ! k) = toolOps ops ! k" using calls(1) that by (metis nth_map)
    show "tx_Sequence (?xs ! k) = int (Suc k)" using arg_cong [OF calls(2), of "\<lambda>l. l ! k"] that by (simp del: upt_Suc)
  qed
  have trace: "map stepKey (map (recordedStep o1 src) ?xs) =
    map (\<lambda>(i, now, tool, input, output). (int i, tool, truncate_str input 60, truncate_str output 60)) (enumerate 1 (toolOps ops))" for o1 src
  proof (rule nth_equalityI)
    fix k assume "k < length (map stepKey (map (recordedStep o1 src) ?xs))"
    then have k: "k < length ?xs" by simp
    from key [OF k] show "map stepKey (map (recordedStep o1 src) ?xs) ! k =
      map (\<lambda>(i, now, tool, input, output). (int i, tool, truncate_str input 60, truncate_str output 60)) (enumerate 1 (toolOps ops)) ! k"
      using k len by (auto simp: stepKey_def recordedStep_def nth_enumerate_eq callKey_def split: prod.split)
  qed (simp add: len)
  let ?e = "opts\<lparr>op_Mode := ''exact''\<rparr>" and ?d = "opts\<lparr>op_Mode := ''debug''\<rparr>" and ?l = "opts\<lparr>op_Mode := ''live''\<rparr>"
  obtain r where r: "replayExact env sn ?e (newResult env sn ?e) = Inr (r, [])" "rs_Trace r = map (recordedStep ?e ''recorded'') ?xs" "rs_Success r" "rs_Divergences r = []"
    using replayExact_all [of ?e env sn] opts by auto
  have exact: "\<exists>r. Replay cd env sn ?e = Inr (r, []) \<and> rs_Success r \<and> rs_Divergences r = [] \<and> map stepKey (rs_Trace r) =
      map (\<lambda>(i, now, tool, input, output). (int i, tool, truncate_str input 60, truncate_str output 60)) (enumerate 1 (toolOps ops))"
    using r trace by (simp add: Replay_def)
  have debug: "\<exists>r. Replay cd env sn ?d = Inr (r, []) \<and> rs_Success r \<and> rs_Divergences r = [] \<and> map stepKey (rs_Trace r) =
      map (\<lambda>(i, now, tool, input, output). (int i, tool, truncate_str input 60, truncate_str output 60)) (enumerate 1 (toolOps ops))"
    using replayDebug_all [of ?d env sn] opts trace by (simp add: Replay_def)
  have valid: "\<exists>r. Replay cd env sn (opts\<lparr>op_Mode := ''validation''\<rparr>) = Inr (r, []) \<and> rs_Success r" if "sorted_wrt (\<le>) (0 # map fst (toolOps ops))"
    using validation_ok [OF calls(2)] that by (simp add: Replay_def calls(1) [symmetric] callKey_def comp_def)
  have live: "\<exists>r. Replay cd env sn ?l = Inr (r, []) \<and>
      (rs_Success r \<longleftrightarrow> (\<forall>k < length (toolOps ops). case toolOps ops ! k of (now, tool, input, output) \<Rightarrow> ex k tool ''1'' input = Inr output))"
    if ex: "rv_live env = Some ex" "op_VerifyOutputs opts" for ex
  proof -
    have "executeLive env k (?xs ! k) = Inr (tx_Output (?xs ! k)) \<longleftrightarrow> (case toolOps ops ! k of (now, tool, input, output) \<Rightarrow> ex k tool ''1'' input = Inr output)"
      if "k < length ?xs" for k
      using key(1) [OF that] ex(1) by (auto simp: executeLive_def callKey_def split: prod.split)
    with live_success [of ?l env sn] opts ex(2) len show ?thesis by (simp add: Replay_def)
  qed
  from exact debug valid live calls len show ?thesis by simp
qed

definition demoConfig :: RecordingConfig where
  "demoConfig = \<lparr>cfg_Enabled = True, cfg_CaptureModel = True, cfg_CaptureTools = True, cfg_CaptureSideEffects = True,
     cfg_CaptureEnvironment = False, cfg_CompressData = False, cfg_EncryptPII = False, cfg_MaxSnapshotSize = 0, cfg_StoragePath = []\<rparr>"

definition demoCodec :: codec where
  "demoCodec = \<lparr>cd_marshal = \<lambda>sn. Inr [], cd_modelDigest = \<lambda>ms. [], cd_toolDigest = \<lambda>ts. [], cd_gzip = \<lambda>s. Inr s\<rparr>"

definition demoEnv :: replay_env where
  "demoEnv = \<lparr>rv_started = 100, rv_completed = 103, rv_now = \<lambda>n. 101, rv_dur = \<lambda>n. ''1s'', rv_live = None, rv_http = \<lambda>u. Inr 200\<rparr>"

definition demoOptions :: ReplayOptions where
  "demoOptions = \<lparr>op_Mode = [], op_SnapshotID = [], op_StartFromSequence = 0, op_StopAtSequence = 0, op_Breakpoints = [],
     op_OverrideConfig = [], op_ExecuteSideEffects = False, op_VerifyOutputs = True\<rparr>"

definition demoOps :: "recorderOp list" where
  "demoOps = [OpTool 5 ''ls'' ''a'' ''b'' None 1, OpModel 6 ''m'' ''p'' ''q'' ''r'' 3 [] None, OpTool 7 ''cat'' ''c'' ''d'' None 1]"

definition demoSnapshot :: RunSnapshot where
  "demoSnapshot = (case StopRecording demoCodec (fold applyOp demoOps (StartRecording (NewRecorder demoConfig) ''u'' 4 ''run'' ''a'' ''g'' [])) 9 ''completed'' of
     (r, Inr sn) \<Rightarrow> sn | (r, Inl e) \<Rightarrow> the (rc_snapshot r))"

theorem recorded_run_replays_witness:
  "let env = demoEnv\<lparr>rv_live := Some (\<lambda>k tool v input. Inr ''b'')\<rparr> in
   map callKey (sn_ToolCalls demoSnapshot) = [(5, ''ls'', ''a'', ''b''), (7, ''cat'', ''c'', ''d'')] \<and>
   (\<exists>r. Replay demoCodec env demoSnapshot (demoOptions\<lparr>op_Mode := ''debug''\<rparr>) = Inr (r, []) \<and> rs_Success r \<and> rs_Divergences r = [] \<and>
     map stepKey (rs_Trace r) = [(1, ''ls'', ''a'', ''b''), (2, ''cat'', ''c'', ''d'')]) \<and>
   (\<exists>r. Replay demoCodec env demoSnapshot (demoOptions\<lparr>op_Mode := ''validation''\<rparr>) = Inr (r, []) \<and> rs_Success r) \<and>
   (\<exists>r. Replay demoCodec env demoSnapshot (demoOptions\<lparr>op_Mode := ''live''\<rparr>) = Inr (r, []) \<and> \<not> rs_Success r)"
proof -
  let ?rec = "fold applyOp demoOps (StartRecording (NewRecorder demoConfig) ''u'' 4 ''run'' ''a'' ''g'' [])"
  have "\<exists>r'. StopRecording demoCodec ?rec 9 ''completed'' = (r', Inr demoSnapshot)"
    by (simp add: demoSnapshot_def StopRecording_def demoOps_def StartRecording_def NewRecorder_def demoConfig_def
        RecordToolCall_def RecordModelCall_def Let_def demoCodec_def calculateChecksums_def)
  then obtain r' where stop: "StopRecording demoCodec ?rec 9 ''completed'' = (r', Inr demoSnapshot)" by blast
  have ops: "toolOps demoOps = [(5, ''ls'', ''a'', ''b''), (7, ''cat'', ''c'', ''d'')]" by (simp add: toolOps_def demoOps_def)
  show ?thesis
    using recorded_run_replays [OF _ _ stop, of demoOptions "demoEnv\<lparr>rv_live := Some (\<lambda>k tool v input. Inr ''b'')\<rparr>"]
    by (simp add: ops demoConfig_def demoOptions_def truncate_str_def enumerate_eq_zip Let_def All_less_Suc2)
qed

text \<open>
  C21. A verified live replay succeeds exactly when every action between the bounds gives back its recorded
  output; in every case each action is counted once, as a match or as a divergence, and the accuracy is the
  share of the matches.
\<close>

theorem live_replay_verdict:
  assumes "op_VerifyOutputs opts" "op_Mode opts = ''live''"
    and acts: "acts = selectActions opts (sn_ToolCalls sn)"
  shows "\<exists>r. Replay cd env sn opts = Inr (r, []) \<and>
    (rs_Success r \<longleftrightarrow> (\<forall>k < length acts. executeLive env k (acts ! k) = Inr (tx_Output (acts ! k)))) \<and>
    rs_ActionsRerun r = int (length acts) \<and>
    rs_Matches r + int (length (rs_Divergences r)) = int (length acts) \<and>
    (acts \<noteq> [] \<longrightarrow> mx_Accuracy (rs_Metrics r) = of_int (rs_Matches r) / of_int (int (length acts)))"
proof -
  let ?r0 = "newResult env sn opts"
  have "rs_ActionsRerun ?r0 = int 0" by (simp add: newResult_def)
  note f = live_fold [OF assms(1) this, of env acts]
  have zero: "rs_Divergences ?r0 = []" "rs_Matches ?r0 = 0" "mx_ActionsMatched (rs_Metrics ?r0) = 0" "mx_TotalActions (rs_Metrics ?r0) = 0"
    by (simp_all add: newResult_def)
  have "(rs_Divergences (fold (liveAction env opts) acts ?r0) = []) \<longleftrightarrow> agreeing env 0 acts = length acts"
    using f zero by auto
  then have ok: "(rs_Divergences (fold (liveAction env opts) acts ?r0) = []) \<longleftrightarrow>
      (\<forall>k < length acts. executeLive env k (acts ! k) = Inr (tx_Output (acts ! k)))"
    by (simp add: agreeing_full agrees_def)
  show ?thesis
    using f zero ok assms(2)
    by (auto simp: Replay_def replayLive_def Let_def acts [symmetric] mx_Accuracy_accuracy simp flip: of_nat_add)
qed

theorem live_replay_verdict_witness:
  "\<exists>r. Replay demoCodec (demoEnv\<lparr>rv_live := Some (\<lambda>n tool v input. if n = 0 then Inr ''b'' else Inr ''x'')\<rparr>) demoSnapshot
         (demoOptions\<lparr>op_Mode := ''live''\<rparr>) = Inr (r, []) \<and> \<not> rs_Success r \<and> rs_ActionsRerun r = 2"
proof -
  let ?env = "demoEnv\<lparr>rv_live := Some (\<lambda>n tool v input. if n = 0 then Inr ''b'' else Inr ''x'')\<rparr>"
  let ?opts = "demoOptions\<lparr>op_Mode := ''live''\<rparr>"
  have len: "length (selectActions ?opts (sn_ToolCalls demoSnapshot)) = 2"
    and differs: "executeLive ?env 1 (selectActions ?opts (sn_ToolCalls demoSnapshot) ! 1) \<noteq>
      Inr (tx_Output (selectActions ?opts (sn_ToolCalls demoSnapshot) ! 1))"
    by code_simp+
  have "\<not> (\<forall>k < length (selectActions ?opts (sn_ToolCalls demoSnapshot)).
      executeLive ?env k (selectActions ?opts (sn_ToolCalls demoSnapshot) ! k) = Inr (tx_Output (selectActions ?opts (sn_ToolCalls demoSnapshot) ! k)))"
  proof
    assume "\<forall>k < length (selectActions ?opts (sn_ToolCalls demoSnapshot)).
      executeLive ?env k (selectActions ?opts (sn_ToolCalls demoSnapshot) ! k) = Inr (tx_Output (selectActions ?opts (sn_ToolCalls demoSnapshot) ! k))"
    from spec [OF this, of 1] len differs show False by simp
  qed
  then show ?thesis
    using live_replay_verdict [of ?opts _ demoSnapshot demoCodec ?env, OF _ _ refl] len by (auto simp: demoOptions_def)
qed

text \<open>
  The validation mode does not look at the checksums: whatever is done to the tool calls of a snapshot that
  keeps their sequence numbers and times (outputs rewritten, tools renamed) goes unnoticed.
\<close>

theorem validation_misses_tampering:
  assumes "\<And>ex. tx_Sequence (f ex) = tx_Sequence ex" "\<And>ex. tx_Timestamp (f ex) = tx_Timestamp ex"
  shows "rs_Success (replayValidation cd env (sn\<lparr>sn_ToolCalls := map f (sn_ToolCalls sn)\<rparr>) result) =
    rs_Success (replayValidation cd env sn result)"
proof -
  have "sequenceDivergences i (map f xs) = sequenceDivergences i xs" for i xs
    by (induction xs arbitrary: i) (simp_all add: assms)
  moreover have "timingDivergences t (map f xs) = timingDivergences t xs" for t xs
    by (induction xs arbitrary: t) (simp_all add: assms)
  ultimately show ?thesis by (simp add: replayValidation_def Let_def verifyChecksums_def)
qed

theorem validation_misses_tampering_witness:
  "rs_Success (replayValidation (demoCodec\<lparr>cd_toolDigest := \<lambda>ts. concat (map tx_Output ts)\<rparr>) demoEnv
     (demoSnapshot\<lparr>sn_ToolCalls := map (\<lambda>ex. ex\<lparr>tx_Output := ''forged''\<rparr>) (sn_ToolCalls demoSnapshot)\<rparr>)
     (newResult demoEnv demoSnapshot demoOptions))"
proof -
  have "rs_Success (replayValidation (demoCodec\<lparr>cd_toolDigest := \<lambda>ts. concat (map tx_Output ts)\<rparr>) demoEnv demoSnapshot
     (newResult demoEnv demoSnapshot demoOptions))" by code_simp
  then show ?thesis by (subst validation_misses_tampering) simp_all
qed

section \<open>The cursor stays inside the run\<close>

datatype cursorOp = CForward | CBack | CSeek int

fun moveCursor :: "cursorOp \<Rightarrow> ReplayCursor \<Rightarrow> ReplayCursor" where
  "moveCursor CForward c = fst (StepForward c)"
| "moveCursor CBack c = fst (StepBack c)"
| "moveCursor (CSeek sq) c = SeekToSequence c sq"

definition cursor_ok :: "RunSnapshot \<Rightarrow> ReplayCursor \<Rightarrow> bool" where
  "cursor_ok sn c = (cu_snapshot c = sn \<and> 0 \<le> cu_position c \<and> cu_position c \<le> int (length (sn_ToolCalls sn)))"

lemma cursor_ok_move: "cursor_ok sn c \<Longrightarrow> cursor_ok sn (moveCursor mv c)"
  by (cases mv) (auto simp: cursor_ok_def StepForward_def StepBack_def SeekToSequence_def CanStepForward_def CanStepBack_def clampSequence_def Let_def)

lemma cursor_ok_moves: "cursor_ok sn c \<Longrightarrow> cursor_ok sn (fold moveCursor mvs c)"
  by (rule fold_keeps) (simp_all add: cursor_ok_move)

text \<open>
  However a cursor is moved, its position stays between 0 and the number of tool calls; a step forward that
  succeeds is undone by a step back; and the state shown there is the first part of the tool calls, the last of them being the
  current action.
\<close>

theorem cursor_navigation:
  assumes "c = fold moveCursor mvs (NewReplayCursor sn)"
  shows "0 \<le> cu_position c \<and> cu_position c \<le> int (length (sn_ToolCalls sn)) \<and>
    (snd (StepForward c) \<longrightarrow> StepBack (fst (StepForward c)) = (c, True)) \<and>
    sa_ToolCalls (GetStateAt c (cu_position c)) = take (nat (cu_position c)) (sn_ToolCalls sn) \<and>
    sa_CurrentAction (GetStateAt c (cu_position c)) =
      (if cu_position c = 0 then None else Some (last (sa_ToolCalls (GetStateAt c (cu_position c)))))"
proof -
  have ok: "cursor_ok sn c" unfolding assms by (rule cursor_ok_moves) (simp add: cursor_ok_def NewReplayCursor_def)
  have "last (take (nat p) (sn_ToolCalls sn)) = sn_ToolCalls sn ! nat (p - 1)"
    if "0 < p" "p \<le> int (length (sn_ToolCalls sn))" for p
  proof -
    from that have "take (nat p) (sn_ToolCalls sn) \<noteq> []" "length (take (nat p) (sn_ToolCalls sn)) = nat p" by auto
    with that show ?thesis by (simp add: last_conv_nth nat_diff_distrib)
  qed
  moreover have "StepBack (fst (StepForward c)) = (c, True)" if "snd (StepForward c)"
    using that ok by (cases "CanStepForward c") (auto simp: StepForward_def StepBack_def CanStepBack_def cursor_ok_def)
  ultimately show ?thesis using ok by (auto simp: cursor_ok_def GetStateAt_def clampSequence_def Let_def)
qed

theorem cursor_navigation_witness:
  "sa_ToolCalls (GetStateAt (fold moveCursor [CSeek 7, CForward, CBack] (NewReplayCursor demoSnapshot)) 1) =
     take 1 (sn_ToolCalls demoSnapshot)"
proof -
  have "cu_position (fold moveCursor [CSeek 7, CForward, CBack] (NewReplayCursor demoSnapshot)) = 1" by code_simp
  then show ?thesis
    using cursor_navigation [OF refl, of "[CSeek 7, CForward, CBack]" demoSnapshot] by simp
qed

end
