(* ===== verification/Cost_Tracker.thy ===== *)
theory Cost_Tracker
  imports Go_Prelude
begin

text \<open>
  Cost accounting, \<open>pkg/cost\<close>: the price lists (\<open>providers.go\<close>), the tracker that accumulates the cost of
  model calls and flushes it to the table \<open>cost_entries\<close> (\<open>tracker.go\<close>), and the budget guard
  (\<open>budget.go\<close>). Amounts are rationals in place of \<open>float64\<close>; token counts wrap at 64 bits. The database
  driver, the clock, the identifiers drawn from it and the calendar arithmetic of package \<open>time\<close> are
  arguments.
\<close>

section \<open>Price lists\<close>

record ModelPricing =
  mp_Provider :: string
  mp_Model :: string
  mp_InputPricePerM :: rat
  mp_OutputPricePerM :: rat
  mp_MinimumCharge :: rat
  mp_Currency :: string

type_synonym prices = "ModelPricing smap"

definition pricing :: "string \<Rightarrow> string \<Rightarrow> rat \<Rightarrow> rat \<Rightarrow> string \<times> ModelPricing" where
  "pricing provider model i out = (model, \<lparr>mp_Provider = provider, mp_Model = model, mp_InputPricePerM = i, mp_OutputPricePerM = out,
     mp_MinimumCharge = 0, mp_Currency = ''USD''\<rparr>)"

definition NewOpenAIPricing :: prices where
  "NewOpenAIPricing = [pricing ''openai'' ''gpt-4'' 30 60, pricing ''openai'' ''gpt-4-turbo'' 10 30, pricing ''openai'' ''gpt-3.5-turbo'' (1/2) (3/2)]"

definition NewAnthropicPricing :: prices where
  "NewAnthropicPricing = [pricing ''anthropic'' ''claude-3-opus'' 15 75, pricing ''anthropic'' ''claude-3-sonnet'' 3 15,
     pricing ''anthropic'' ''claude-3-haiku'' (1/4) (5/4)]"

definition GetModelPricing :: "prices \<Rightarrow> string \<Rightarrow> gerror + ModelPricing" where
  "GetModelPricing ps model =
     (case map_of ps model of None \<Rightarrow> Inl (Errorf (''pricing not found for model: '' @ model)) | Some p \<Rightarrow> Inr p)"

definition CalculateCost :: "prices \<Rightarrow> string \<Rightarrow> int \<Rightarrow> int \<Rightarrow> gerror + rat" where
  "CalculateCost ps model inputTokens outputTokens =
     (case GetModelPricing ps model of
        Inl err \<Rightarrow> Inl err
      | Inr p \<Rightarrow>
          (let inputCost = of_int inputTokens / 1000000 * mp_InputPricePerM p;
               outputCost = of_int outputTokens / 1000000 * mp_OutputPricePerM p;
               totalCost = inputCost + outputCost
           in Inr (if totalCost < mp_MinimumCharge p then mp_MinimumCharge p else totalCost)))"

section \<open>The tracker\<close>

record CostAccumulator =
  ca_AgentID :: string
  ca_TenantID :: string
  ca_UserID :: string
  ca_Provider :: string
  ca_Model :: string
  ca_WorkflowID :: string
  ca_WorkflowName :: string
  ca_InputTokens :: int
  ca_OutputTokens :: int
  ca_TotalCost :: rat
  ca_CallCount :: int
  ca_LastUpdated :: int

text \<open>A row of \<open>cost_entries\<close> is the accumulator it was written from, under its primary key.\<close>

type_synonym CostEntry = "string \<times> CostAccumulator"

record CostTracker =
  ct_db :: "CostEntry list"
  ct_providers :: "(string \<Rightarrow> int \<Rightarrow> int \<Rightarrow> gerror + rat) smap"
  ct_currentCosts :: "CostAccumulator smap"

definition NewCostTracker :: "CostEntry list \<Rightarrow> CostTracker" where
  "NewCostTracker db = \<lparr>ct_db = db, ct_providers = [], ct_currentCosts = []\<rparr>"

definition RegisterProvider :: "CostTracker \<Rightarrow> string \<Rightarrow> (string \<Rightarrow> int \<Rightarrow> int \<Rightarrow> gerror + rat) \<Rightarrow> CostTracker" where
  "RegisterProvider ct name provider = ct\<lparr>ct_providers := AList.update name provider (ct_providers ct)\<rparr>"

record llm_call =
  lc_agentID :: string
  lc_tenantID :: string
  lc_userID :: string
  lc_provider :: string
  lc_model :: string
  lc_inputTokens :: int
  lc_outputTokens :: int
  lc_workflowID :: string
  lc_workflowName :: string

definition calculateCost :: "CostTracker \<Rightarrow> string \<Rightarrow> string \<Rightarrow> int \<Rightarrow> int \<Rightarrow> gerror + rat" where
  "calculateCost ct provider model inputTokens outputTokens =
     (case map_of (ct_providers ct) provider of
        None \<Rightarrow> Inl (Errorf (''provider '' @ provider @ '' not registered''))
      | Some calc \<Rightarrow> calc model inputTokens outputTokens)"

definition accKey :: "llm_call \<Rightarrow> string" where
  "accKey c = lc_agentID c @ '':'' @ lc_tenantID c @ '':'' @ lc_userID c @ '':'' @ lc_provider c @ '':'' @ lc_model c @ '':'' @ lc_workflowID c"

definition newAccumulator :: "llm_call \<Rightarrow> int \<Rightarrow> CostAccumulator" where
  "newAccumulator c now = \<lparr>ca_AgentID = lc_agentID c, ca_TenantID = lc_tenantID c, ca_UserID = lc_userID c, ca_Provider = lc_provider c,
     ca_Model = lc_model c, ca_WorkflowID = lc_workflowID c, ca_WorkflowName = lc_workflowName c, ca_InputTokens = 0, ca_OutputTokens = 0,
     ca_TotalCost = 0, ca_CallCount = 0, ca_LastUpdated = now\<rparr>"

definition accumulate :: "llm_call \<Rightarrow> rat \<Rightarrow> int \<Rightarrow> CostAccumulator \<Rightarrow> CostAccumulator" where
  "accumulate c cost now acc = acc\<lparr>ca_InputTokens := wrap64 (ca_InputTokens acc + lc_inputTokens c),
     ca_OutputTokens := wrap64 (ca_OutputTokens acc + lc_outputTokens c), ca_TotalCost := ca_TotalCost acc + cost,
     ca_CallCount := wrap64 (ca_CallCount acc + 1), ca_LastUpdated := now\<rparr>"

definition TrackLLMCall :: "CostTracker \<Rightarrow> int \<Rightarrow> llm_call \<Rightarrow> CostTracker \<times> gerror option" where
  "TrackLLMCall ct now c =
     (case calculateCost ct (lc_provider c) (lc_model c) (lc_inputTokens c) (lc_outputTokens c) of
        Inl err \<Rightarrow> (ct, Some (Wrap ''calculate cost: '' err))
      | Inr cost \<Rightarrow>
          (let acc = (case map_of (ct_currentCosts ct) (accKey c) of None \<Rightarrow> newAccumulator c now | Some a \<Rightarrow> a)
           in (ct\<lparr>ct_currentCosts := AList.update (accKey c) (accumulate c cost now acc) (ct_currentCosts ct)\<rparr>, None)))"

text \<open>
  What a flush meets: the errors of opening the transaction, of preparing the statement and of committing, and for each
  accumulator the identifier read off the clock and the driver's error.
\<close>

record flush_env =
  fl_begin :: "gerror option"
  fl_prepare :: "gerror option"
  fl_commit :: "gerror option"
  fl_id :: "nat \<Rightarrow> string"
  fl_exec :: "nat \<Rightarrow> gerror option"

fun insertCosts :: "flush_env \<Rightarrow> nat \<Rightarrow> CostAccumulator list \<Rightarrow> CostEntry list \<Rightarrow> CostEntry list" where
  "insertCosts env i [] db = db"
| "insertCosts env i (acc # accs) db =
     insertCosts env (Suc i) accs
       (if fl_exec env i = None \<and> fl_id env i \<notin> set (keys db) then db @ [(fl_id env i, acc)] else db)"

definition flush :: "flush_env \<Rightarrow> CostTracker \<Rightarrow> CostTracker" where
  "flush env ct =
     (let costs = map snd (ct_currentCosts ct); ct1 = ct\<lparr>ct_currentCosts := []\<rparr>
      in if costs = [] then ct1
         else if fl_begin env \<noteq> None \<or> fl_prepare env \<noteq> None then ct1
         else if fl_commit env \<noteq> None then ct1
         else ct1\<lparr>ct_db := insertCosts env 0 costs (ct_db ct1)\<rparr>)"

section \<open>Queries\<close>

definition inRange :: "int \<Rightarrow> int \<Rightarrow> CostEntry \<Rightarrow> bool" where
  "inRange start stop e = (start \<le> ca_LastUpdated (snd e) \<and> ca_LastUpdated (snd e) \<le> stop)"

definition sumCost :: "CostEntry list \<Rightarrow> rat" where
  "sumCost es = sum_list (map (\<lambda>e. ca_TotalCost (snd e)) es)"

definition groupSum :: "(CostEntry \<Rightarrow> string) \<Rightarrow> CostEntry list \<Rightarrow> rat smap" where
  "groupSum key es = map (\<lambda>k. (k, sumCost (filter (\<lambda>e. key e = k) es))) (remdups (map key es))"

definition GetTotalCost :: "CostTracker \<Rightarrow> gerror option \<Rightarrow> string \<Rightarrow> int \<Rightarrow> int \<Rightarrow> gerror + rat" where
  "GetTotalCost ct db tenantID start stop =
     (case db of
        Some err \<Rightarrow> Inl (Wrap ''query total cost: '' err)
      | None \<Rightarrow> Inr (sumCost (filter (\<lambda>e. (tenantID = [] \<or> ca_TenantID (snd e) = tenantID) \<and> inRange start stop e) (ct_db ct))))"

definition GetCostsByAgent :: "CostTracker \<Rightarrow> gerror option \<Rightarrow> string \<Rightarrow> int \<Rightarrow> int \<Rightarrow> gerror + rat smap" where
  "GetCostsByAgent ct db tenantID start stop =
     (case db of
        Some err \<Rightarrow> Inl (Wrap ''query costs: '' err)
      | None \<Rightarrow> Inr (groupSum (\<lambda>e. ca_AgentID (snd e)) (filter (\<lambda>e. ca_TenantID (snd e) = tenantID \<and> inRange start stop e) (ct_db ct))))"

definition GetCostsByTenant :: "CostTracker \<Rightarrow> gerror option \<Rightarrow> int \<Rightarrow> int \<Rightarrow> gerror + rat smap" where
  "GetCostsByTenant ct db start stop =
     (case db of
        Some err \<Rightarrow> Inl (Wrap ''query costs: '' err)
      | None \<Rightarrow> Inr (groupSum (\<lambda>e. ca_TenantID (snd e)) (filter (inRange start stop) (ct_db ct))))"

definition GetCostsByUser :: "CostTracker \<Rightarrow> gerror option \<Rightarrow> string \<Rightarrow> int \<Rightarrow> int \<Rightarrow> gerror + rat smap" where
  "GetCostsByUser ct db tenantID start stop =
     (case db of
        Some err \<Rightarrow> Inl (Wrap ''query costs: '' err)
      | None \<Rightarrow> Inr (groupSum (\<lambda>e. ca_UserID (snd e)) (filter (\<lambda>e. ca_TenantID (snd e) = tenantID \<and> inRange start stop e) (ct_db ct))))"

definition GetCostsByWorkflow :: "CostTracker \<Rightarrow> gerror option \<Rightarrow> string \<Rightarrow> int \<Rightarrow> int \<Rightarrow> gerror + rat smap" where
  "GetCostsByWorkflow ct db tenantID start stop =
     (case db of
        Some err \<Rightarrow> Inl (Wrap ''query costs by workflow: '' err)
      | None \<Rightarrow>
          Inr (fold (\<lambda>(wfID, c). AList.update (if wfID = [] then ''(no workflow)'' else wfID) c)
            (groupSum (\<lambda>e. ca_WorkflowID (snd e)) (filter (\<lambda>e. ca_TenantID (snd e) = tenantID \<and> inRange start stop e) (ct_db ct))) []))"

text \<open>The filter is a workflow and a model, \<open>None\<close> for a nil filter; an empty part does not filter.\<close>

definition GetCostBreakdown ::
    "CostTracker \<Rightarrow> gerror option \<Rightarrow> string \<Rightarrow> int \<Rightarrow> int \<Rightarrow> (string \<times> string) option \<Rightarrow> gerror + CostEntry list" where
  "GetCostBreakdown ct db tenantID start stop flt =
     (case db of
        Some err \<Rightarrow> Inl (Wrap ''query cost breakdown: '' err)
      | None \<Rightarrow>
          Inr (sort_key (\<lambda>e. - ca_LastUpdated (snd e))
            (filter (\<lambda>e. ca_TenantID (snd e) = tenantID \<and> inRange start stop e \<and>
               (case flt of
                  None \<Rightarrow> True
                | Some (wfID, model) \<Rightarrow>
                    (wfID \<noteq> [] \<longrightarrow> ca_WorkflowID (snd e) = wfID) \<and>
                    (model \<noteq> [] \<longrightarrow> ca_Model (snd e) = model \<or> ca_Provider (snd e) @ '':'' @ ca_Model (snd e) = model))) (ct_db ct))))"

section \<open>Budgets\<close>

record BudgetConfig =
  bc_BudgetLimit :: rat
  bc_AlertThreshold :: rat
  bc_AlertWebhook :: string
  bc_Period :: string
  bc_TenantID :: string

record BudgetGuard =
  bg_config :: BudgetConfig
  bg_alerted :: bool

definition NewBudgetGuard :: "BudgetConfig \<Rightarrow> BudgetGuard" where
  "NewBudgetGuard config =
     \<lparr>bg_config = config\<lparr>bc_Period := (if bc_Period config = [] then ''daily'' else bc_Period config),
        bc_AlertThreshold := (if bc_AlertThreshold config = 0 then 4/5 else bc_AlertThreshold config)\<rparr>, bg_alerted = False\<rparr>"

text \<open>\<open>addDate\<close> is \<open>time.Time.AddDate\<close> with its months and days.\<close>

definition periodRange :: "(int \<Rightarrow> int \<Rightarrow> int \<Rightarrow> int) \<Rightarrow> BudgetGuard \<Rightarrow> int \<Rightarrow> int \<times> int" where
  "periodRange addDate g now =
     (let p = bc_Period (bg_config g)
      in (if p = ''daily'' then addDate 0 (- 1) now
          else if p = ''weekly'' then addDate 0 (- 7) now
          else if p = ''monthly'' then addDate (- 1) 0 now
          else addDate 0 (- 1) now, now))"

definition CanSpend :: "(int \<Rightarrow> int \<Rightarrow> int \<Rightarrow> int) \<Rightarrow> BudgetGuard \<Rightarrow> CostTracker \<Rightarrow> gerror option \<Rightarrow> int \<Rightarrow> rat \<Rightarrow> gerror + bool" where
  "CanSpend addDate g ct db now estimatedCost =
     (if bc_BudgetLimit (bg_config g) \<le> 0 then Inr True
      else (case periodRange addDate g now of
        (start, stop) \<Rightarrow>
          (case GetTotalCost ct db (bc_TenantID (bg_config g)) start stop of
             Inl err \<Rightarrow> Inl err
           | Inr current \<Rightarrow> Inr (current + estimatedCost \<le> bc_BudgetLimit (bg_config g)))))"

text \<open>The second component is the alert posted, with the spending it reports.\<close>

definition CheckAndAlert ::
    "(int \<Rightarrow> int \<Rightarrow> int \<Rightarrow> int) \<Rightarrow> BudgetGuard \<Rightarrow> CostTracker \<Rightarrow> gerror option \<Rightarrow> int \<Rightarrow> BudgetGuard \<times> rat list \<times> (gerror + bool)" where
  "CheckAndAlert addDate g ct db now =
     (if bc_BudgetLimit (bg_config g) \<le> 0 then (g, [], Inr False)
      else (case periodRange addDate g now of
        (start, stop) \<Rightarrow>
          (case GetTotalCost ct db (bc_TenantID (bg_config g)) start stop of
             Inl err \<Rightarrow> (g, [], Inl err)
           | Inr current \<Rightarrow>
               if current \<ge> bc_BudgetLimit (bg_config g) then (g, [], Inr True)
               else if bc_AlertWebhook (bg_config g) \<noteq> [] \<and> \<not> bg_alerted g \<and>
                       current \<ge> bc_BudgetLimit (bg_config g) * bc_AlertThreshold (bg_config g)
               then (g\<lparr>bg_alerted := True\<rparr>, [current], Inr False)
               else (g, [], Inr False))))"

record Budget =
  bu_ID :: string
  bu_TenantID :: string
  bu_AgentID :: string
  bu_UserID :: string
  bu_Limit :: rat
  bu_Period :: string
  bu_AlertAt :: rat
  bu_Enabled :: bool

definition SetBudget :: "Budget smap \<Rightarrow> Budget \<Rightarrow> Budget smap" where
  "SetBudget bm b = AList.update (bu_ID b) b bm"

definition CheckBudget :: "Budget smap \<Rightarrow> string \<Rightarrow> gerror + (bool \<times> rat)" where
  "CheckBudget bm budgetID =
     (case map_of bm budgetID of None \<Rightarrow> Inl (Errorf (''budget not found: '' @ budgetID)) | Some b \<Rightarrow> Inr (False, 0))"

section \<open>Pricing providers\<close>

text \<open>What the tracker relies on in a provider: no negative cost, and no less for more tokens.\<close>

locale pricing_provider =
  fixes calc :: "string \<Rightarrow> int \<Rightarrow> int \<Rightarrow> gerror + rat"
  assumes calc_nonneg: "0 \<le> i \<Longrightarrow> 0 \<le> out \<Longrightarrow> calc m i out = Inr c \<Longrightarrow> 0 \<le> c"
    and calc_mono: "i \<le> i' \<Longrightarrow> out \<le> out' \<Longrightarrow> calc m i out = Inr c \<Longrightarrow> \<exists>c'. calc m i' out' = Inr c' \<and> c \<le> c'"
begin

text \<open>A request that was priced can be priced with any larger token counts, and never for less than nothing.\<close>

lemma upper_estimate:
  assumes "calc m i out = Inr c" "0 \<le> i" "0 \<le> out" "i \<le> mi" "out \<le> mo"
  obtains est where "calc m mi mo = Inr est" "0 \<le> c" "c \<le> est"
  using calc_mono [OF assms(4,5,1)] calc_nonneg [OF assms(2,3,1)] that by blast

end

definition prices_ok :: "prices \<Rightarrow> bool" where
  "prices_ok ps = list_all (\<lambda>(m, p). 0 \<le> mp_InputPricePerM p \<and> 0 \<le> mp_OutputPricePerM p \<and> 0 \<le> mp_MinimumCharge p) ps"

lemma prices_ok_get:
  "prices_ok ps \<Longrightarrow> GetModelPricing ps m = Inr p \<Longrightarrow> 0 \<le> mp_InputPricePerM p \<and> 0 \<le> mp_OutputPricePerM p \<and> 0 \<le> mp_MinimumCharge p"
  by (auto simp: prices_ok_def GetModelPricing_def list_all_iff split: option.splits dest: map_of_SomeD)

lemma CalculateCost_provider: "prices_ok ps \<Longrightarrow> pricing_provider (CalculateCost ps)"
proof (unfold_locales, goal_cases)
  case (1 i out m c)
  then show ?case using prices_ok_get [of ps m] by (auto simp: CalculateCost_def Let_def split: sum.splits if_splits)
next
  case (2 i i' out out' m c)
  then obtain p where p: "GetModelPricing ps m = Inr p" by (auto simp: CalculateCost_def split: sum.splits)
  from prices_ok_get [OF 2(1) p] 2(2,3)
  have "of_int i / 1000000 * mp_InputPricePerM p + of_int out / 1000000 * mp_OutputPricePerM p \<le>
        of_int i' / 1000000 * mp_InputPricePerM p + of_int out' / 1000000 * mp_OutputPricePerM p"
    by (intro add_mono mult_right_mono divide_right_mono) simp_all
  with 2(4) p show ?case by (auto simp: CalculateCost_def Let_def split: if_splits)
qed

interpretation oai: pricing_provider "CalculateCost NewOpenAIPricing"
  by (rule CalculateCost_provider) (simp add: prices_ok_def NewOpenAIPricing_def pricing_def)

interpretation ant: pricing_provider "CalculateCost NewAnthropicPricing"
  by (rule CalculateCost_provider) (simp add: prices_ok_def NewAnthropicPricing_def pricing_def)

section \<open>Keys of accumulators\<close>

definition colon_free :: "llm_call \<Rightarrow> bool" where
  "colon_free c = list_all (\<lambda>s. CHR '':'' \<notin> set s)
     [lc_agentID c, lc_tenantID c, lc_userID c, lc_provider c, lc_model c, lc_workflowID c]"

definition ownerOf :: "llm_call \<Rightarrow> string list" where
  "ownerOf c = [lc_agentID c, lc_tenantID c, lc_userID c, lc_provider c, lc_model c, lc_workflowID c]"

lemma split_at_sep: "x @ c # r = y @ c # r' \<Longrightarrow> c \<notin> set x \<Longrightarrow> c \<notin> set y \<Longrightarrow> x = y \<and> r = r'"
proof (induction x arbitrary: y)
  case Nil
  then show ?case by (cases y) auto
next
  case (Cons a x)
  then show ?case by (cases y) auto
qed

lemma accKey_inj: "accKey c = accKey d \<Longrightarrow> colon_free c \<Longrightarrow> colon_free d \<Longrightarrow> ownerOf c = ownerOf d"
  unfolding accKey_def colon_free_def ownerOf_def
  by (auto dest!: split_at_sep)

section \<open>Conservation\<close>

definition tenantSum :: "string \<Rightarrow> CostAccumulator list \<Rightarrow> rat" where
  "tenantSum T accs = sum_list (map ca_TotalCost (filter (\<lambda>a. ca_TenantID a = T) accs))"

definition storedCost :: "string \<Rightarrow> CostTracker \<Rightarrow> rat" where
  "storedCost T ct = tenantSum T (map snd (ct_db ct))"

definition pendingCost :: "string \<Rightarrow> CostTracker \<Rightarrow> rat" where
  "pendingCost T ct = tenantSum T (map snd (ct_currentCosts ct))"

lemma tenantSum_simps [simp]:
  "tenantSum T [] = 0" "tenantSum T (a # as) = (if ca_TenantID a = T then ca_TotalCost a else 0) + tenantSum T as"
  "tenantSum T (as @ bs) = tenantSum T as + tenantSum T bs"
  by (simp_all add: tenantSum_def)

lemma tenantSum_update:
  "wf_map m \<Longrightarrow> tenantSum T (map snd (AList.update k a m)) =
     tenantSum T (map snd m) + tenantSum T [a] - (case map_of m k of None \<Rightarrow> 0 | Some b \<Rightarrow> tenantSum T [b])"
proof (induction m)
  case (Cons x m)
  obtain k' b where x: "x = (k', b)" by (cases x)
  have "k \<notin> set (keys m) \<Longrightarrow> map_of m k = None" by (simp add: map_of_eq_None_iff)
  with Cons show ?case by (auto simp: x split: option.splits)
qed simp

text \<open>The accumulators of a tracker belong to colon-free calls, each under its own key.\<close>

definition accs_ok :: "CostTracker \<Rightarrow> bool" where
  "accs_ok ct = (wf_map (ct_currentCosts ct) \<and>
     (\<forall>(k, a) \<in> set (ct_currentCosts ct). \<exists>c. colon_free c \<and> k = accKey c \<and> ca_TenantID a = lc_tenantID c))"

lemma accs_ok_tenant:
  assumes "accs_ok ct" "colon_free c" "map_of (ct_currentCosts ct) (accKey c) = Some a"
  shows "ca_TenantID a = lc_tenantID c"
proof -
  from assms(1,3) obtain d where "colon_free d" "accKey c = accKey d" "ca_TenantID a = lc_tenantID d"
    unfolding accs_ok_def using map_of_SomeD by fastforce
  with accKey_inj [of c d] assms(2) show ?thesis by (simp add: ownerOf_def)
qed

definition callCost :: "CostTracker \<Rightarrow> llm_call \<Rightarrow> gerror + rat" where
  "callCost ct c = calculateCost ct (lc_provider c) (lc_model c) (lc_inputTokens c) (lc_outputTokens c)"

lemma TrackLLMCall_db [simp]:
  "ct_db (fst (TrackLLMCall ct now c)) = ct_db ct" "ct_providers (fst (TrackLLMCall ct now c)) = ct_providers ct"
  by (simp_all add: TrackLLMCall_def Let_def split: sum.split)

lemma accs_ok_track:
  assumes "accs_ok ct" "colon_free c"
  shows "accs_ok (fst (TrackLLMCall ct now c))"
proof (cases "callCost ct c")
  case (Inl e)
  with assms(1) show ?thesis by (simp add: TrackLLMCall_def callCost_def)
next
  case (Inr cost)
  let ?acc = "case map_of (ct_currentCosts ct) (accKey c) of None \<Rightarrow> newAccumulator c now | Some a \<Rightarrow> a"
  have tenant: "ca_TenantID (accumulate c cost now ?acc) = lc_tenantID c"
    using accs_ok_tenant [OF assms] by (auto simp: accumulate_def newAccumulator_def split: option.split)
  have "set (AList.update (accKey c) (accumulate c cost now ?acc) (ct_currentCosts ct)) \<subseteq>
      insert (accKey c, accumulate c cost now ?acc) (set (ct_currentCosts ct))"
    by (rule set_update_subset)
  with Inr assms tenant show ?thesis
    unfolding accs_ok_def TrackLLMCall_def callCost_def
    by (auto simp: Let_def wf_map_update simp del: distinct_map)
qed

lemma pendingCost_track:
  assumes "accs_ok ct" "colon_free c"
  shows "pendingCost T (fst (TrackLLMCall ct now c)) =
    pendingCost T ct + (case callCost ct c of Inr cost \<Rightarrow> if lc_tenantID c = T then cost else 0 | Inl e \<Rightarrow> 0)"
proof (cases "callCost ct c")
  case (Inl e)
  then show ?thesis by (simp add: TrackLLMCall_def callCost_def)
next
  case (Inr cost)
  have wf: "wf_map (ct_currentCosts ct)" using assms(1) by (simp add: accs_ok_def)
  show ?thesis
  proof (cases "map_of (ct_currentCosts ct) (accKey c)")
    case None
    with Inr show ?thesis
      by (simp add: TrackLLMCall_def callCost_def pendingCost_def tenantSum_update [OF wf] accumulate_def newAccumulator_def)
  next
    case (Some a)
    with Inr accs_ok_tenant [OF assms Some] show ?thesis
      by (simp add: TrackLLMCall_def callCost_def pendingCost_def tenantSum_update [OF wf] accumulate_def)
  qed
qed

definition flush_ok :: "flush_env \<Rightarrow> CostEntry list \<Rightarrow> bool" where
  "flush_ok env db = (fl_begin env = None \<and> fl_prepare env = None \<and> fl_commit env = None \<and> (\<forall>i. fl_exec env i = None) \<and>
     inj (fl_id env) \<and> (\<forall>i. fl_id env i \<notin> set (keys db)))"

lemma insertCosts_all:
  assumes "\<forall>i. fl_exec env i = None" "inj (fl_id env)" "\<forall>j \<ge> i. fl_id env j \<notin> set (keys db)"
  shows "map snd (insertCosts env i accs db) = map snd db @ accs"
  using assms(3)
proof (induction accs arbitrary: i db)
  case (Cons a accs)
  have "\<forall>j \<ge> Suc i. fl_id env j \<notin> set (keys (db @ [(fl_id env i, a)]))"
    using Cons.prems assms(2) by (auto dest: injD)
  from Cons.IH [OF this] Cons.prems assms(1) show ?case by simp
qed simp

lemma flush_moves:
  assumes "flush_ok env (ct_db ct)"
  shows "map snd (ct_db (flush env ct)) = map snd (ct_db ct) @ map snd (ct_currentCosts ct)"
    and "ct_currentCosts (flush env ct) = []" and "ct_providers (flush env ct) = ct_providers ct"
  using assms insertCosts_all [of env 0 "ct_db ct" "map snd (ct_currentCosts ct)"]
  by (simp_all add: flush_def flush_ok_def Let_def)

datatype costOp = Track int llm_call | Flush flush_env

fun costStep :: "costOp \<Rightarrow> CostTracker \<Rightarrow> CostTracker" where
  "costStep (Track now c) ct = fst (TrackLLMCall ct now c)"
| "costStep (Flush env) ct = flush env ct"

text \<open>Calls without a colon in their names and flushes that meet no error, each where it happens.\<close>

fun smooth :: "costOp list \<Rightarrow> CostTracker \<Rightarrow> bool" where
  "smooth [] ct = True"
| "smooth (Track now c # ops) ct = (colon_free c \<and> smooth ops (costStep (Track now c) ct))"
| "smooth (Flush env # ops) ct = (flush_ok env (ct_db ct) \<and> smooth ops (costStep (Flush env) ct))"

fun billed :: "string \<Rightarrow> CostTracker \<Rightarrow> costOp list \<Rightarrow> rat" where
  "billed T ct [] = 0"
| "billed T ct (Track now c # ops) =
     (case callCost ct c of Inr cost \<Rightarrow> if lc_tenantID c = T then cost else 0 | Inl e \<Rightarrow> 0) + billed T ct ops"
| "billed T ct (Flush env # ops) = billed T ct ops"

lemma callCost_cong: "ct_providers ct = ct_providers ct' \<Longrightarrow> callCost ct c = callCost ct' c"
  by (simp add: callCost_def calculateCost_def)

lemma billed_cong: "ct_providers ct = ct_providers ct' \<Longrightarrow> billed T ct ops = billed T ct' ops"
proof (induction ops)
  case (Cons x ops)
  then show ?case using callCost_cong [of ct ct'] by (cases x) simp_all
qed simp

lemma conservation_step:
  assumes "accs_ok ct" "smooth ops ct"
  shows "storedCost T (fold costStep ops ct) + pendingCost T (fold costStep ops ct) = storedCost T ct + pendingCost T ct + billed T ct ops"
  using assms
proof (induction ops arbitrary: ct)
  case (Cons x ops)
  show ?case
  proof (cases x)
    case (Track now c)
    with Cons.prems have c: "colon_free c" and sm: "smooth ops (fst (TrackLLMCall ct now c))" by simp_all
    have "billed T (fst (TrackLLMCall ct now c)) ops = billed T ct ops" by (rule billed_cong) simp
    with Cons.IH [OF accs_ok_track [OF Cons.prems(1) c] sm] pendingCost_track [OF Cons.prems(1) c, of T now]
    show ?thesis by (simp add: Track storedCost_def)
  next
    case (Flush env)
    with Cons.prems have f: "flush_ok env (ct_db ct)" and sm: "smooth ops (flush env ct)" by simp_all
    note mv = flush_moves [OF f]
    have "accs_ok (flush env ct)" by (simp add: accs_ok_def mv(2))
    from Cons.IH [OF this sm] billed_cong [OF mv(3), of T ops] mv
    show ?thesis by (simp add: Flush storedCost_def pendingCost_def)
  qed
qed simp

section \<open>Usage\<close>

text \<open>
  The three counters of an accumulator are 64-bit integers, so that their conservation is exact modulo \<open>2 ^ 64\<close>: over all tenants together it needs no condition on
  the names, also where two callers share an accumulator.
\<close>

datatype counter = InputTokens | OutputTokens | Calls

fun counted :: "counter \<Rightarrow> CostAccumulator \<Rightarrow> int" where
  "counted InputTokens a = ca_InputTokens a"
| "counted OutputTokens a = ca_OutputTokens a"
| "counted Calls a = ca_CallCount a"

fun usedBy :: "counter \<Rightarrow> llm_call \<Rightarrow> int" where
  "usedBy InputTokens c = lc_inputTokens c"
| "usedBy OutputTokens c = lc_outputTokens c"
| "usedBy Calls c = 1"

definition recordedUsage :: "counter \<Rightarrow> CostTracker \<Rightarrow> int" where
  "recordedUsage k ct = sum_list (map (counted k) (map snd (ct_db ct))) + sum_list (map (counted k) (map snd (ct_currentCosts ct)))"

fun acceptedUsage :: "counter \<Rightarrow> CostTracker \<Rightarrow> costOp list \<Rightarrow> int" where
  "acceptedUsage k ct [] = 0"
| "acceptedUsage k ct (Track now c # ops) = (case callCost ct c of Inr cost \<Rightarrow> usedBy k c | Inl e \<Rightarrow> 0) + acceptedUsage k ct ops"
| "acceptedUsage k ct (Flush env # ops) = acceptedUsage k ct ops"

fun flushesWork :: "costOp list \<Rightarrow> CostTracker \<Rightarrow> bool" where
  "flushesWork [] ct = True"
| "flushesWork (Track now c # ops) ct = flushesWork ops (costStep (Track now c) ct)"
| "flushesWork (Flush env # ops) ct = (flush_ok env (ct_db ct) \<and> flushesWork ops (costStep (Flush env) ct))"

lemma counted_accumulate: "counted k (accumulate c cost now a) mod 2 ^ 64 = (counted k a + usedBy k c) mod 2 ^ 64"
  by (cases k) (simp_all add: accumulate_def wrap64_mod [simplified])

lemma counted_new: "counted k (newAccumulator c now) = 0"
  by (cases k) (simp_all add: newAccumulator_def)

lemma sum_update:
  "wf_map m \<Longrightarrow> sum_list (map f (map snd (AList.update k a m))) = sum_list (map f (map snd m)) + f a - (case map_of m k of None \<Rightarrow> (0::int) | Some b \<Rightarrow> f b)"
proof (induction m)
  case (Cons x m)
  obtain k' b where x: "x = (k', b)" by (cases x)
  have "k \<notin> set (keys m) \<Longrightarrow> map_of m k = None" by (simp add: map_of_eq_None_iff)
  with Cons show ?case by (auto simp: x split: option.splits)
qed simp

lemma track_wf: "wf_map (ct_currentCosts ct) \<Longrightarrow> wf_map (ct_currentCosts (fst (TrackLLMCall ct now c)))"
  by (simp add: TrackLLMCall_def Let_def wf_map_update del: distinct_map split: sum.split)

lemma track_usage:
  assumes "wf_map (ct_currentCosts ct)"
  shows "recordedUsage k (fst (TrackLLMCall ct now c)) mod 2 ^ 64 =
    (recordedUsage k ct + (case callCost ct c of Inr cost \<Rightarrow> usedBy k c | Inl e \<Rightarrow> 0)) mod 2 ^ 64"
proof (cases "callCost ct c")
  case (Inl e)
  then show ?thesis by (simp add: TrackLLMCall_def callCost_def)
next
  case (Inr cost)
  define old where "old = (case map_of (ct_currentCosts ct) (accKey c) of None \<Rightarrow> newAccumulator c now | Some a \<Rightarrow> a)"
  have "recordedUsage k (fst (TrackLLMCall ct now c)) = recordedUsage k ct - counted k old + counted k (accumulate c cost now old)"
    using Inr by (auto simp: TrackLLMCall_def callCost_def Let_def recordedUsage_def sum_update [OF assms, unfolded map_map] old_def counted_new split: option.split)
  also have "\<dots> mod 2 ^ 64 = (recordedUsage k ct - counted k old + (counted k old + usedBy k c)) mod 2 ^ 64"
    by (rule mod_add_cong [OF refl counted_accumulate])
  finally show ?thesis by (simp add: Inr)
qed

lemma flush_usage:
  assumes "flush_ok env (ct_db ct)"
  shows "recordedUsage k (flush env ct) = recordedUsage k ct"
  by (simp add: recordedUsage_def flush_moves [OF assms])

lemma acceptedUsage_cong: "ct_providers ct = ct_providers ct' \<Longrightarrow> acceptedUsage k ct ops = acceptedUsage k ct' ops"
proof (induction ops)
  case (Cons x ops)
  then show ?case using callCost_cong [of ct ct'] by (cases x) simp_all
qed simp

lemma usage_step:
  "wf_map (ct_currentCosts ct) \<Longrightarrow> flushesWork ops ct \<Longrightarrow>
   recordedUsage k (fold costStep ops ct) mod 2 ^ 64 = (recordedUsage k ct + acceptedUsage k ct ops) mod 2 ^ 64"
proof (induction ops arbitrary: ct)
  case (Cons x ops)
  show ?case
  proof (cases x)
    case (Track now c)
    let ?ct = "fst (TrackLLMCall ct now c)"
    have "recordedUsage k (fold costStep ops ?ct) mod 2 ^ 64 = (recordedUsage k ?ct + acceptedUsage k ct ops) mod 2 ^ 64"
      using Cons.IH [OF track_wf [OF Cons.prems(1)]] Cons.prems(2) Track acceptedUsage_cong [of ?ct ct k ops] by simp
    also have "\<dots> = (recordedUsage k ct + (case callCost ct c of Inr cost \<Rightarrow> usedBy k c | Inl e \<Rightarrow> 0) + acceptedUsage k ct ops) mod 2 ^ 64"
      by (rule mod_add_cong [OF track_usage [OF Cons.prems(1)] refl])
    finally show ?thesis by (simp add: Track add.assoc)
  next
    case (Flush env)
    with Cons.prems have f: "flush_ok env (ct_db ct)" and fw: "flushesWork ops (flush env ct)" by simp_all
    have "wf_map (ct_currentCosts (flush env ct))" by (simp add: flush_moves(2) [OF f])
    from Cons.IH [OF this fw] acceptedUsage_cong [OF flush_moves(3) [OF f]] flush_usage [OF f] show ?thesis by (simp add: Flush)
  qed
qed simp

section \<open>Properties\<close>

text \<open>
  No money is lost or invented: along any sequence of tracked calls and flushes that meet no error, what is stored for a
  tenant together with what is still accumulated grows exactly by the cost of its calls; after a flush
  nothing is pending, so the table holds all of it. The names of agents, tenants, users and models must not contain a colon.
\<close>

theorem cost_conservation:
  assumes "accs_ok ct" "smooth ops ct"
  shows "storedCost T (fold costStep ops ct) + pendingCost T (fold costStep ops ct) = storedCost T ct + pendingCost T ct + billed T ct ops \<and>
    (flush_ok env (ct_db (fold costStep ops ct)) \<longrightarrow>
       storedCost T (flush env (fold costStep ops ct)) = storedCost T ct + pendingCost T ct + billed T ct ops)"
  using conservation_step [OF assms, of T] flush_moves(1) [of env "fold costStep ops ct"]
  by (auto simp: storedCost_def pendingCost_def)

definition demoCall :: "string \<Rightarrow> llm_call" where
  "demoCall T = \<lparr>lc_agentID = ''a'', lc_tenantID = T, lc_userID = ''u'', lc_provider = ''openai'', lc_model = ''gpt-4'',
     lc_inputTokens = 1000000, lc_outputTokens = 0, lc_workflowID = [], lc_workflowName = []\<rparr>"

definition demoTracker :: CostTracker where
  "demoTracker = RegisterProvider (NewCostTracker []) ''openai'' (CalculateCost NewOpenAIPricing)"

definition demoFlush :: flush_env where
  "demoFlush = \<lparr>fl_begin = None, fl_prepare = None, fl_commit = None, fl_id = \<lambda>i. replicate i CHR ''x'', fl_exec = \<lambda>i. None\<rparr>"

lemma demoFlush_ok: "flush_ok demoFlush []"
  by (auto simp: flush_ok_def demoFlush_def inj_def dest: arg_cong [where f = length])

lemma callCost_demo: "callCost demoTracker (demoCall T) = Inr 30"
  by (simp add: callCost_def calculateCost_def demoTracker_def RegisterProvider_def NewCostTracker_def demoCall_def
      CalculateCost_def GetModelPricing_def NewOpenAIPricing_def pricing_def)

lemma colon_free_demo: "CHR '':'' \<notin> set T \<Longrightarrow> colon_free (demoCall T)"
  by (simp add: colon_free_def demoCall_def)

theorem cost_conservation_witness:
  "storedCost ''t'' (flush demoFlush (fold costStep [Track 1 (demoCall ''t''), Track 2 (demoCall ''s''), Track 3 (demoCall ''t'')] demoTracker)) = 60"
proof -
  let ?ops = "[Track 1 (demoCall ''t''), Track 2 (demoCall ''s''), Track 3 (demoCall ''t'')]"
  have ok: "accs_ok demoTracker" by (simp add: accs_ok_def demoTracker_def RegisterProvider_def NewCostTracker_def)
  have sm: "smooth ?ops demoTracker" by (simp add: colon_free_demo)
  have db: "ct_db (fold costStep ?ops demoTracker) = []" by (simp add: demoTracker_def RegisterProvider_def NewCostTracker_def)
  have zero: "storedCost ''t'' demoTracker = 0" "pendingCost ''t'' demoTracker = 0" "billed ''t'' demoTracker ?ops = 60"
    by (simp_all add: storedCost_def pendingCost_def callCost_demo, simp_all add: demoTracker_def RegisterProvider_def NewCostTracker_def demoCall_def)
  show ?thesis using cost_conservation [OF ok sm, of "''t''" demoFlush] demoFlush_ok db zero by simp
qed

text \<open>
  C22. No usage is lost or invented: on a new tracker over a table, along any calls, whatever names they carry, and any flushes that meet no error, the input tokens, the output tokens and
  the number of calls in the table and in the accumulators together grow by exactly those of the calls that were priced, as 64-bit integers; and after a flush that meets no
  error all of it is in the table and nothing is pending.
\<close>

theorem usage_conserved:
  assumes "flushesWork ops ct" "ct_currentCosts ct = []"
  shows "recordedUsage k (fold costStep ops ct) mod 2 ^ 64 = (recordedUsage k ct + acceptedUsage k ct ops) mod 2 ^ 64 \<and>
    (flush_ok env (ct_db (fold costStep ops ct)) \<longrightarrow>
       ct_currentCosts (flush env (fold costStep ops ct)) = [] \<and>
       sum_list (map (counted k) (map snd (ct_db (flush env (fold costStep ops ct))))) mod 2 ^ 64 = (recordedUsage k ct + acceptedUsage k ct ops) mod 2 ^ 64)"
proof -
  have u: "recordedUsage k (fold costStep ops ct) mod 2 ^ 64 = (recordedUsage k ct + acceptedUsage k ct ops) mod 2 ^ 64"
    using usage_step [OF _ assms(1)] assms(2) by simp
  moreover have "sum_list (map (counted k) (map snd (ct_db (flush env (fold costStep ops ct))))) = recordedUsage k (fold costStep ops ct)"
    if "flush_ok env (ct_db (fold costStep ops ct))"
    using flush_usage [OF that, of k] flush_moves(2) [OF that] by (simp add: recordedUsage_def)
  ultimately show ?thesis using flush_moves(2) by simp
qed

theorem usage_conserved_witness:
  "sum_list (map (counted InputTokens) (map snd (ct_db (flush demoFlush (fold costStep [Track 1 (demoCall ''t:u''), Track 2 (demoCall ''s''), Track 3 (demoCall ''t:u'')] demoTracker))))) mod 2 ^ 64 = 3000000"
proof -
  let ?ops = "[Track 1 (demoCall ''t:u''), Track 2 (demoCall ''s''), Track 3 (demoCall ''t:u'')]"
  have empty: "ct_currentCosts demoTracker = []" "ct_db demoTracker = []" by (simp_all add: demoTracker_def RegisterProvider_def NewCostTracker_def)
  have db: "ct_db (fold costStep ?ops demoTracker) = []" by (simp add: empty)
  have "acceptedUsage InputTokens demoTracker ?ops = 3000000" by (simp add: callCost_demo, simp add: demoCall_def)
  then show ?thesis using usage_conserved [of ?ops demoTracker InputTokens demoFlush] demoFlush_ok db by (simp add: empty recordedUsage_def)
qed

text \<open>
  A flush that cannot open, prepare or commit its transaction drops every accumulated cost: the accumulators
  are cleared before the database is asked, the table stays as it was, and the spending of every
  tenant drops by what was pending.
\<close>

theorem failed_flush_loses_costs:
  assumes "fl_begin env \<noteq> None \<or> fl_prepare env \<noteq> None \<or> fl_commit env \<noteq> None"
  shows "ct_db (flush env ct) = ct_db ct \<and>
    storedCost T (flush env ct) + pendingCost T (flush env ct) = storedCost T ct"
  using assms by (auto simp: flush_def Let_def storedCost_def pendingCost_def)

theorem failed_flush_loses_costs_witness:
  "storedCost ''t'' (flush (demoFlush\<lparr>fl_commit := Some Canceled\<rparr>) (fold costStep [Track 1 (demoCall ''t'')] demoTracker)) +
     pendingCost ''t'' (flush (demoFlush\<lparr>fl_commit := Some Canceled\<rparr>) (fold costStep [Track 1 (demoCall ''t'')] demoTracker)) = 0 \<and>
   pendingCost ''t'' (fold costStep [Track 1 (demoCall ''t'')] demoTracker) = 30"
proof
  have "accs_ok demoTracker" by (simp add: accs_ok_def demoTracker_def RegisterProvider_def NewCostTracker_def)
  from pendingCost_track [OF this colon_free_demo, of "''t''" "''t''" 1]
  show pend: "pendingCost ''t'' (fold costStep [Track 1 (demoCall ''t'')] demoTracker) = 30"
    by (simp add: callCost_demo, simp add: pendingCost_def demoTracker_def RegisterProvider_def NewCostTracker_def demoCall_def)
  have "storedCost ''t'' (fold costStep [Track 1 (demoCall ''t'')] demoTracker) = 0"
    by (simp add: storedCost_def demoTracker_def RegisterProvider_def NewCostTracker_def)
  then show "storedCost ''t'' (flush (demoFlush\<lparr>fl_commit := Some Canceled\<rparr>) (fold costStep [Track 1 (demoCall ''t'')] demoTracker)) +
     pendingCost ''t'' (flush (demoFlush\<lparr>fl_commit := Some Canceled\<rparr>) (fold costStep [Track 1 (demoCall ''t'')] demoTracker)) = 0"
    using failed_flush_loses_costs [of "demoFlush\<lparr>fl_commit := Some Canceled\<rparr>" "fold costStep [Track 1 (demoCall ''t'')] demoTracker" "''t''"] by simp
qed

section \<open>The budget guard\<close>

lemma CanSpend_cong: "ct_db ct = ct_db ct' \<Longrightarrow> CanSpend addDate g ct db now est = CanSpend addDate g ct' db now est"
  by (cases db) (simp_all add: CanSpend_def GetTotalCost_def split: prod.split)

lemma GetTotalCost_append:
  assumes "map snd db' = map snd (ct_db ct) @ [a]" "GetTotalCost ct None T start stop = Inr x"
  shows "GetTotalCost (ct\<lparr>ct_db := db'\<rparr>) None T start stop =
    Inr (x + (if (T = [] \<or> ca_TenantID a = T) \<and> start \<le> ca_LastUpdated a \<and> ca_LastUpdated a \<le> stop then ca_TotalCost a else 0))"
proof -
  let ?P = "\<lambda>a. (T = [] \<or> ca_TenantID a = T) \<and> start \<le> ca_LastUpdated a \<and> ca_LastUpdated a \<le> stop"
  have total_as: "sumCost (filter (\<lambda>e. (T = [] \<or> ca_TenantID (snd e) = T) \<and> inRange start stop e) es) =
      sum_list (map ca_TotalCost (filter ?P (map snd es)))" for es
    by (simp add: sumCost_def filter_map comp_def inRange_def)
  from assms show ?thesis by (auto simp: GetTotalCost_def total_as)
qed

text \<open>
  The guard keeps the budget when spending is written through: if nothing is pending, a call is admitted
  and costs no more than was estimated, and the flush after it succeeds, then the spending of the period is still within the limit.
\<close>

theorem budget_guard_safe:
  assumes "CanSpend addDate g ct None now est = Inr True" and limit: "0 < bc_BudgetLimit (bg_config g)"
    and pending: "ct_currentCosts ct = []" and cost: "callCost ct c = Inr cost" "0 \<le> cost" "cost \<le> est"
    and flushed: "flush_ok env (ct_db ct)" and range: "periodRange addDate g now = (start, stop)"
  shows "\<exists>spent. GetTotalCost (flush env (fst (TrackLLMCall ct now c))) None (bc_TenantID (bg_config g)) start stop = Inr spent \<and>
    spent \<le> bc_BudgetLimit (bg_config g)"
proof -
  let ?T = "bc_TenantID (bg_config g)" and ?ct = "fst (TrackLLMCall ct now c)"
  let ?a = "accumulate c cost now (newAccumulator c now)"
  obtain x where x: "GetTotalCost ct None ?T start stop = Inr x" by (simp add: GetTotalCost_def)
  with assms(1) limit range have le: "x + est \<le> bc_BudgetLimit (bg_config g)" by (simp add: CanSpend_def)
  have cur: "map snd (ct_currentCosts ?ct) = [?a]"
    using cost(1) pending by (simp add: TrackLLMCall_def callCost_def Let_def)
  have "flush env ?ct = ct\<lparr>ct_db := ct_db (flush env ?ct)\<rparr>"
    using pending cost(1) by (simp add: flush_def Let_def TrackLLMCall_def callCost_def)
  moreover have "map snd (ct_db (flush env ?ct)) = map snd (ct_db ct) @ [?a]"
    using flush_moves(1) [of env ?ct] flushed cur by simp
  ultimately have "GetTotalCost (flush env ?ct) None ?T start stop =
      Inr (x + (if (?T = [] \<or> ca_TenantID ?a = ?T) \<and> start \<le> ca_LastUpdated ?a \<and> ca_LastUpdated ?a \<le> stop then ca_TotalCost ?a else 0))"
    using GetTotalCost_append [OF _ x, of "ct_db (flush env ?ct)" ?a] by metis
  moreover have "ca_TotalCost ?a = cost" by (simp add: accumulate_def newAccumulator_def)
  ultimately show ?thesis using le cost(2,3) by auto
qed

definition demoGuard :: BudgetGuard where
  "demoGuard = NewBudgetGuard \<lparr>bc_BudgetLimit = 40, bc_AlertThreshold = 0, bc_AlertWebhook = [], bc_Period = [], bc_TenantID = ''t''\<rparr>"

definition demoAddDate :: "int \<Rightarrow> int \<Rightarrow> int \<Rightarrow> int" where
  "demoAddDate months days now = now + (months * 30 + days) * 86400"

lemma demo_admitted: "CanSpend demoAddDate demoGuard demoTracker db now 30 = (case db of None \<Rightarrow> Inr True | Some e \<Rightarrow> Inl (Wrap ''query total cost: '' e))"
  by (simp add: CanSpend_def demoGuard_def NewBudgetGuard_def periodRange_def GetTotalCost_def demoTracker_def RegisterProvider_def
      NewCostTracker_def sumCost_def split: option.split)

theorem budget_guard_safe_witness:
  "\<exists>spent. GetTotalCost (flush demoFlush (fst (TrackLLMCall demoTracker 9 (demoCall ''t'')))) None ''t'' (9 - 86400) 9 = Inr spent \<and> spent \<le> 40"
proof -
  have "flush_ok demoFlush (ct_db demoTracker)" using demoFlush_ok by (simp add: demoTracker_def RegisterProvider_def NewCostTracker_def)
  moreover have "periodRange demoAddDate demoGuard 9 = (9 - 86400, 9)"
    by (simp add: periodRange_def demoGuard_def NewBudgetGuard_def demoAddDate_def)
  ultimately show ?thesis
    using budget_guard_safe [of demoAddDate demoGuard demoTracker 9 30 "demoCall ''t''" 30 demoFlush "9 - 86400" 9]
    by (simp add: demo_admitted callCost_demo, simp add: demoGuard_def NewBudgetGuard_def demoTracker_def RegisterProvider_def NewCostTracker_def)
qed

text \<open>
  Between two flushes the guard is blind: however many calls are tracked, it gives the same answer as before, because it
  sums the table only; so calls of the same cost are all admitted, and what they spend together
  grows without bound.
\<close>

theorem guard_blind_between_flushes:
  assumes "accs_ok ct" "colon_free c" "callCost ct c = Inr cost"
  shows "CanSpend addDate g (fold costStep (replicate n (Track t c)) ct) db now est = CanSpend addDate g ct db now est \<and>
    pendingCost (lc_tenantID c) (fold costStep (replicate n (Track t c)) ct) = pendingCost (lc_tenantID c) ct + of_nat n * cost"
proof -
  let ?f = "\<lambda>n. fold costStep (replicate n (Track t c)) ct"
  have "ct_db (?f n) = ct_db ct \<and> ct_providers (?f n) = ct_providers ct \<and> accs_ok (?f n) \<and>
    pendingCost (lc_tenantID c) (?f n) = pendingCost (lc_tenantID c) ct + of_nat n * cost"
  proof (induction n)
    case 0
    then show ?case using assms(1) by simp
  next
    case (Suc n)
    have step: "?f (Suc n) = fst (TrackLLMCall (?f n) t c)"
      by (simp only: replicate_Suc replicate_append_same [symmetric] fold_append comp_def fold_simps costStep.simps)
    from Suc assms(3) have "callCost (?f n) c = Inr cost" using callCost_cong [of "?f n" ct c] by simp
    with Suc pendingCost_track [of "?f n" c "lc_tenantID c" t] assms(2) accs_ok_track [of "?f n" c t]
    show ?case unfolding step by (simp add: algebra_simps)
  qed
  then show ?thesis using CanSpend_cong [of "?f n" ct addDate g db now est] by blast
qed

theorem guard_blind_between_flushes_witness:
  "CanSpend demoAddDate demoGuard (fold costStep (replicate 10 (Track 1 (demoCall ''t''))) demoTracker) None 9 30 = Inr True \<and>
   pendingCost ''t'' (fold costStep (replicate 10 (Track 1 (demoCall ''t''))) demoTracker) = 300 \<and> bc_BudgetLimit (bg_config demoGuard) = 40"
proof -
  have "accs_ok demoTracker" by (simp add: accs_ok_def demoTracker_def RegisterProvider_def NewCostTracker_def)
  moreover have "pendingCost ''t'' demoTracker = 0" by (simp add: pendingCost_def demoTracker_def RegisterProvider_def NewCostTracker_def)
  moreover have "lc_tenantID (demoCall ''t'') = ''t''" "bc_BudgetLimit (bg_config demoGuard) = 40"
    by (simp_all add: demoCall_def demoGuard_def NewBudgetGuard_def)
  ultimately show ?thesis
    using guard_blind_between_flushes [of demoTracker "demoCall ''t''" 30 demoAddDate demoGuard 10 1 None 9 30]
    by (simp add: colon_free_demo callCost_demo demo_admitted)
qed

section \<open>Facts that are not properties of their own\<close>

text \<open>Once an alert has been posted, no later check posts another one.\<close>

lemma alert_once:
  assumes "CheckAndAlert addDate g ct db now = (g', alerts, r)"
  shows "length alerts \<le> 1" "bg_alerted g \<Longrightarrow> alerts = [] \<and> g' = g" "alerts \<noteq> [] \<Longrightarrow> bg_alerted g'"
  using assms by (auto simp: CheckAndAlert_def split: if_splits prod.splits sum.splits)

text \<open>Spending that jumps over the limit is reported to the caller but never alerted.\<close>

lemma no_alert_over_limit:
  "CheckAndAlert addDate g ct db now = (g', alerts, Inr True) \<Longrightarrow> alerts = []"
  by (auto simp: CheckAndAlert_def split: if_splits prod.splits sum.splits)

text \<open>Names with a colon can share a key, and then the second call is booked on the tenant of the first.\<close>

lemma key_collision:
  "accKey (demoCall ''t''\<lparr>lc_agentID := ''a:b'', lc_tenantID := ''t''\<rparr>) = accKey (demoCall ''t''\<lparr>lc_agentID := ''a'', lc_tenantID := ''b:t''\<rparr>)"
  by (simp add: accKey_def demoCall_def)

end
