(* ===== verification/Risk_Engine.thy ===== *)
theory Risk_Engine
  imports Go_Prelude
begin

text \<open>
  The risk engine, \<open>pkg/risk/engine.go\<close>: category scores, their weighted mean, the level and the decision.
  Scores are rationals in place of \<open>float64\<close>; the mean is of the type \<open>gofloat\<close> of the prelude because a division by a zero
  total weight gives an infinity or NaN. The regular expressions of \<open>containsPII\<close>, applied to the formatted input,
  are an argument \<open>pii\<close>.
\<close>

section \<open>Data\<close>

record RiskFactor =
  rf_Category :: string
  rf_Description :: string
  rf_Score :: rat
  rf_Weight :: rat
  rf_Contribution :: rat

record RiskScore =
  rk_Score :: gofloat
  rk_Level :: string
  rk_Factors :: "RiskFactor list"
  rk_Breakdown :: "rat smap"
  rk_Confidence :: rat

record ActionContext =
  xc_ToolName :: string
  xc_Input :: "any smap option"
  xc_Permissions :: "string list"
  xc_AgentID :: string
  xc_Environment :: string
  xc_RecentActions :: int
  xc_PreviousDenials :: int
  xc_UserApproved :: bool

record RiskConfig =
  kc_Enabled :: bool
  kc_DefaultWeights :: "rat smap option"
  kc_ThresholdLow :: rat
  kc_ThresholdMedium :: rat
  kc_ThresholdHigh :: rat
  kc_RequireApproval :: rat
  kc_AutoDeny :: rat

record RiskAssessment =
  ra_ActionContext :: ActionContext
  ra_RiskScore :: RiskScore
  ra_Decision :: string
  ra_AssessorID :: string
  ra_Version :: string

definition defaultWeights :: "rat smap" where
  "defaultWeights = [(''security'', 3/2), (''privacy'', 6/5), (''cost'', 3/10), (''reversible'', 1), (''impact'', 13/10), (''compliance'', 11/10), (''reliability'', 2/5)]"

definition DefaultRiskConfig :: RiskConfig where
  "DefaultRiskConfig = \<lparr>kc_Enabled = True, kc_DefaultWeights = Some defaultWeights, kc_ThresholdLow = 3/10, kc_ThresholdMedium = 3/5,
     kc_ThresholdHigh = 17/20, kc_RequireApproval = 4/5, kc_AutoDeny = 19/20\<rparr>"

text \<open>A field with its zero value takes the default; the engine is its configuration.\<close>

definition NewRiskEngine :: "RiskConfig \<Rightarrow> RiskConfig" where
  "NewRiskEngine c =
     c\<lparr>kc_ThresholdLow := (if kc_ThresholdLow c = 0 then 3/10 else kc_ThresholdLow c),
       kc_ThresholdMedium := (if kc_ThresholdMedium c = 0 then 3/5 else kc_ThresholdMedium c),
       kc_ThresholdHigh := (if kc_ThresholdHigh c = 0 then 17/20 else kc_ThresholdHigh c),
       kc_RequireApproval := (if kc_RequireApproval c = 0 then 4/5 else kc_RequireApproval c),
       kc_AutoDeny := (if kc_AutoDeny c = 0 then 19/20 else kc_AutoDeny c),
       kc_DefaultWeights := Some (case kc_DefaultWeights c of None \<Rightarrow> defaultWeights | Some w \<Rightarrow> w)\<rparr>"

definition weight :: "RiskConfig \<Rightarrow> string \<Rightarrow> rat" where
  "weight c cat = (case kc_DefaultWeights c of None \<Rightarrow> 0 | Some w \<Rightarrow> (case map_of w cat of None \<Rightarrow> 0 | Some x \<Rightarrow> x))"

section \<open>Category scores\<close>

definition score_of :: "rat smap \<Rightarrow> string \<Rightarrow> rat \<Rightarrow> rat" where
  "score_of table key dflt = (case map_of table key of Some x \<Rightarrow> x | None \<Rightarrow> dflt)"

definition permBoost :: "string \<Rightarrow> rat" where
  "permBoost perm = score_of [(''exec'', 3/10), (''fs:delete'', 1/4), (''fs:write'', 3/20), (''net:external'', 1/10)] perm 0"

definition assessSecurity :: "ActionContext \<Rightarrow> rat" where
  "assessSecurity ctx =
     (let base = score_of [(''delete_file'', 4/5), (''execute_command'', 19/20), (''http_request'', 2/5), (''write_file'', 1/2), (''read_file'', 1/5)]
                   (xc_ToolName ctx) (3/10);
          s1 = fold (\<lambda>p s. s + permBoost p) (xc_Permissions ctx) base;
          s2 = (if xc_Environment ctx = ''production'' then s1 + 3/10 else if xc_Environment ctx = ''staging'' then s1 + 1/10 else s1)
      in min s2 1)"

definition assessPrivacy :: "(any smap \<Rightarrow> bool) \<Rightarrow> ActionContext \<Rightarrow> rat" where
  "assessPrivacy pii ctx =
     (let base = score_of [(''read_file'', 2/5), (''http_request'', 1/2), (''database'', 3/5)] (xc_ToolName ctx) 0
      in min (case xc_Input ctx of None \<Rightarrow> base | Some i \<Rightarrow> if pii i then base + 3/10 else base) 1)"

definition assessCost :: "ActionContext \<Rightarrow> rat" where
  "assessCost ctx =
     (let base = score_of [(''http_request'', 3/10), (''model_call'', 2/5), (''database'', 1/5)] (xc_ToolName ctx) 0;
          s1 = (if xc_RecentActions ctx > 10 then base + 1/5 else base);
          s2 = (if xc_RecentActions ctx > 50 then s1 + 3/10 else s1)
      in min s2 1)"

definition assessReversibility :: "ActionContext \<Rightarrow> rat" where
  "assessReversibility ctx =
     score_of [(''delete_file'', 1), (''execute_command'', 9/10), (''http_request'', 7/10), (''send_email'', 1)] (xc_ToolName ctx) (1/5)"

definition assessImpact :: "ActionContext \<Rightarrow> rat" where
  "assessImpact ctx =
     (let base = score_of [(''production'', 9/10), (''staging'', 1/2), (''dev'', 1/10)] (xc_Environment ctx) 0
      in min (base + score_of [(''delete_file'', 2/5), (''execute_command'', 1/2), (''database'', 2/5), (''write_file'', 3/10)] (xc_ToolName ctx) 0) 1)"

definition assessCompliance :: "ActionContext \<Rightarrow> rat" where
  "assessCompliance ctx =
     (let base = score_of [(''read_file'', 3/10), (''write_file'', 2/5), (''database'', 1/2), (''http_request'', 2/5)] (xc_ToolName ctx) 0
      in min (if xc_Environment ctx = ''production'' then base + 1/5 else base) 1)"

section \<open>Level, confidence and decision\<close>

definition scoreToLevel :: "RiskConfig \<Rightarrow> gofloat \<Rightarrow> string" where
  "scoreToLevel c s =
     (if fl_less s (Fin (kc_ThresholdLow c)) then ''low''
      else if fl_less s (Fin (kc_ThresholdMedium c)) then ''medium''
      else if fl_less s (Fin (kc_ThresholdHigh c)) then ''high''
      else ''critical'')"

definition calculateConfidence :: "ActionContext \<Rightarrow> RiskFactor list \<Rightarrow> rat" where
  "calculateConfidence ctx factors =
     (let c0 = 7/10;
          c1 = (if length factors > 5 then c0 + 1/10 else c0);
          c2 = (if xc_UserApproved ctx then c1 + 1/10 else c1);
          c3 = (if xc_Environment ctx = ''production'' then c2 + 1/10 else c2)
      in min c3 1)"

definition makeDecision :: "RiskConfig \<Rightarrow> RiskScore \<Rightarrow> string" where
  "makeDecision c score =
     (if \<not> fl_less (rk_Score score) (Fin (kc_AutoDeny c)) then ''deny''
      else if \<not> fl_less (rk_Score score) (Fin (kc_RequireApproval c)) then ''require_review''
      else if rk_Level score = ''medium'' \<or> rk_Level score = ''high'' then ''allow_with_log''
      else ''allow'')"

definition factor :: "RiskConfig \<Rightarrow> string \<Rightarrow> string \<Rightarrow> rat \<Rightarrow> RiskFactor" where
  "factor c cat desc s = \<lparr>rf_Category = cat, rf_Description = desc, rf_Score = s, rf_Weight = weight c cat, rf_Contribution = s * weight c cat\<rparr>"

definition riskFactors :: "(any smap \<Rightarrow> bool) \<Rightarrow> RiskConfig \<Rightarrow> ActionContext \<Rightarrow> RiskFactor list" where
  "riskFactors pii c ctx =
     [factor c ''security'' ''Permissions and data access risk'' (assessSecurity ctx),
      factor c ''privacy'' ''PII and sensitive data risk'' (assessPrivacy pii ctx),
      factor c ''cost'' ''Resource and API cost risk'' (assessCost ctx),
      factor c ''reversible'' ''Ability to undo action'' (assessReversibility ctx),
      factor c ''impact'' ''Blast radius and downstream effects'' (assessImpact ctx),
      factor c ''compliance'' ''Regulatory and policy compliance'' (assessCompliance ctx)]"

text \<open>\<open>totalScore / totalWeight\<close> with NaN replaced by one half.\<close>

definition finalScore :: "rat \<Rightarrow> rat \<Rightarrow> gofloat" where
  "finalScore totalScore totalWeight =
     (let s = fl_div (Fin totalScore) (Fin totalWeight) in if s = NaN then Fin (1/2) else s)"

definition Assess :: "(any smap \<Rightarrow> bool) \<Rightarrow> RiskConfig \<Rightarrow> ActionContext \<Rightarrow> RiskAssessment" where
  "Assess pii c ctx =
     (if \<not> kc_Enabled c
      then \<lparr>ra_ActionContext = ctx,
            ra_RiskScore = \<lparr>rk_Score = Fin 0, rk_Level = ''low'', rk_Factors = [], rk_Breakdown = [], rk_Confidence = 0\<rparr>,
            ra_Decision = ''allow'', ra_AssessorID = [], ra_Version = ''1.0.0''\<rparr>
      else (let factors = riskFactors pii c ctx;
                s = finalScore (sum_list (map rf_Contribution factors)) (sum_list (map rf_Weight factors));
                score = \<lparr>rk_Score = s, rk_Level = scoreToLevel c s, rk_Factors = factors,
                         rk_Breakdown = fold (\<lambda>f. AList.update (rf_Category f) (rf_Score f)) factors [],
                         rk_Confidence = calculateConfidence ctx factors\<rparr>
            in \<lparr>ra_ActionContext = ctx, ra_RiskScore = score, ra_Decision = makeDecision c score,
                ra_AssessorID = ''risk-engine-v1'', ra_Version = ''1.0.0''\<rparr>))"

section \<open>Bounds\<close>

definition unit_range :: "rat \<Rightarrow> bool" where
  "unit_range x = (0 \<le> x \<and> x \<le> 1)"

lemma score_of_bounds:
  assumes "list_all (\<lambda>(k, x). lo \<le> x \<and> x \<le> hi) table" "lo \<le> d" "d \<le> hi"
  shows "lo \<le> score_of table key d \<and> score_of table key d \<le> hi"
  using assms by (auto simp: score_of_def list_all_iff split: option.split dest: map_of_SomeD)

lemma permBoost_nonneg: "0 \<le> permBoost p"
  unfolding permBoost_def by (rule score_of_bounds [of 0 1, THEN conjunct1]) simp_all

lemma fold_permBoost: "fold (\<lambda>p s. s + permBoost p) ps s = s + sum_list (map permBoost ps)"
  by (induction ps arbitrary: s) simp_all

lemma permBoosts_nonneg: "0 \<le> sum_list (map permBoost ps)"
  by (rule sum_list_nonneg) (auto simp: permBoost_nonneg)

lemma security_bounds: "unit_range (assessSecurity ctx)"
proof -
  have "0 \<le> score_of [(''delete_file'', 4/5), (''execute_command'', 19/20), (''http_request'', 2/5), (''write_file'', 1/2), (''read_file'', 1/5)]
     (xc_ToolName ctx) (3/10 :: rat)" by (rule score_of_bounds [of 0 1, THEN conjunct1]) simp_all
  then show ?thesis using permBoosts_nonneg [of "xc_Permissions ctx"]
    by (simp add: unit_range_def assessSecurity_def Let_def fold_permBoost)
qed

lemma privacy_bounds: "unit_range (assessPrivacy pii ctx)"
  using score_of_bounds [of 0 1 "[(''read_file'', 2/5), (''http_request'', 1/2), (''database'', 3/5)]" 0 "xc_ToolName ctx"]
  by (auto simp: unit_range_def assessPrivacy_def Let_def split: option.split)

lemma cost_bounds: "unit_range (assessCost ctx)"
  using score_of_bounds [of 0 1 "[(''http_request'', 3/10), (''model_call'', 2/5), (''database'', 1/5)]" 0 "xc_ToolName ctx"]
  by (auto simp: unit_range_def assessCost_def Let_def)

lemma reversibility_bounds: "unit_range (assessReversibility ctx)"
  unfolding unit_range_def assessReversibility_def by (rule score_of_bounds) simp_all

lemma impact_bounds: "unit_range (assessImpact ctx)"
  using score_of_bounds [of 0 1 "[(''production'', 9/10), (''staging'', 1/2), (''dev'', 1/10)]" 0 "xc_Environment ctx"]
    score_of_bounds [of 0 1 "[(''delete_file'', 2/5), (''execute_command'', 1/2), (''database'', 2/5), (''write_file'', 3/10)]" 0 "xc_ToolName ctx"]
  by (auto simp: unit_range_def assessImpact_def Let_def)

lemma compliance_bounds: "unit_range (assessCompliance ctx)"
  using score_of_bounds [of 0 1 "[(''read_file'', 3/10), (''write_file'', 2/5), (''database'', 1/2), (''http_request'', 2/5)]" 0 "xc_ToolName ctx"]
  by (auto simp: unit_range_def assessCompliance_def Let_def)

lemmas category_bounds = security_bounds privacy_bounds cost_bounds reversibility_bounds impact_bounds compliance_bounds

text \<open>A weighted mean of numbers between 0 and 1 lies between 0 and 1.\<close>

lemma weighted_mean:
  assumes "list_all (\<lambda>(x, w). unit_range x \<and> 0 \<le> w) xs"
  shows "0 \<le> sum_list (map (\<lambda>(x, w). x * w) xs) \<and> sum_list (map (\<lambda>(x, w). x * w) xs) \<le> sum_list (map snd xs)"
  using assms
proof (induction xs)
  case (Cons p xs)
  obtain x w where p: "p = (x, w)" by (cases p)
  with Cons.prems have "0 \<le> x" "x \<le> 1" "0 \<le> w" by (simp_all add: unit_range_def)
  then have "0 \<le> x * w" "x * w \<le> w" by (simp_all add: mult_left_le_one_le)
  with Cons show ?case by (auto simp: p)
qed simp

definition weights_ok :: "RiskConfig \<Rightarrow> bool" where
  "weights_ok c = list_all (\<lambda>cat. 0 \<le> weight c cat) [''security'', ''privacy'', ''cost'', ''reversible'', ''impact'', ''compliance'']"

definition scoredWeights :: "(any smap \<Rightarrow> bool) \<Rightarrow> RiskConfig \<Rightarrow> ActionContext \<Rightarrow> (rat \<times> rat) list" where
  "scoredWeights pii c ctx = map (\<lambda>f. (rf_Score f, rf_Weight f)) (riskFactors pii c ctx)"

lemma riskFactors_sums:
  "map rf_Contribution (riskFactors pii c ctx) = map (\<lambda>(x, w). x * w) (scoredWeights pii c ctx)"
  "map rf_Weight (riskFactors pii c ctx) = map snd (scoredWeights pii c ctx)"
  by (simp_all add: riskFactors_def scoredWeights_def factor_def)

lemma scoredWeights_ok: "weights_ok c \<Longrightarrow> list_all (\<lambda>(x, w). unit_range x \<and> 0 \<le> w) (scoredWeights pii c ctx)"
  by (simp add: weights_ok_def scoredWeights_def riskFactors_def factor_def category_bounds)

lemma finalScore_range:
  assumes "0 \<le> t" "t \<le> w"
  shows "\<exists>s. finalScore t w = Fin s \<and> unit_range s"
proof (cases "w = 0")
  case True
  with assms have "finalScore t w = Fin (1/2)" by (simp add: finalScore_def fl_inf_def)
  then show ?thesis by (intro exI [of _ "1/2"]) (simp add: unit_range_def)
next
  case False
  with assms have "0 < w" by simp
  with assms show ?thesis by (simp add: finalScore_def unit_range_def divide_le_eq)
qed

lemma Assess_score:
  assumes "kc_Enabled c" "weights_ok c"
  obtains s where "rk_Score (ra_RiskScore (Assess pii c ctx)) = Fin s" "unit_range s"
proof -
  note m = weighted_mean [OF scoredWeights_ok [OF assms(2), of pii ctx]]
  obtain s where "finalScore (sum_list (map rf_Contribution (riskFactors pii c ctx))) (sum_list (map rf_Weight (riskFactors pii c ctx))) = Fin s" "unit_range s"
    using finalScore_range [OF m [THEN conjunct1] m [THEN conjunct2]] unfolding riskFactors_sums by blast
  with assms(1) that show thesis by (simp add: Assess_def Let_def)
qed

section \<open>Properties\<close>

text \<open>
  With non-negative weights an enabled engine always gives a finite score between 0 and 1, from six category
  scores between 0 and 1, with a confidence between 0 and 1; and the decision is exactly this function
  of the score: deny from \<open>AutoDeny\<close> on, review from \<open>RequireApproval\<close> on, and below both a log entry for the
  medium and high levels only, so that a critical score below \<open>RequireApproval\<close> is allowed without a log.
\<close>

theorem Assess_in_range:
  assumes "kc_Enabled c" "weights_ok c"
  shows "\<exists>s. rk_Score (ra_RiskScore (Assess pii c ctx)) = Fin s \<and> 0 \<le> s \<and> s \<le> 1 \<and>
    map rf_Category (rk_Factors (ra_RiskScore (Assess pii c ctx))) = [''security'', ''privacy'', ''cost'', ''reversible'', ''impact'', ''compliance''] \<and>
    (\<forall>f \<in> set (rk_Factors (ra_RiskScore (Assess pii c ctx))). 0 \<le> rf_Score f \<and> rf_Score f \<le> 1) \<and>
    0 \<le> rk_Confidence (ra_RiskScore (Assess pii c ctx)) \<and> rk_Confidence (ra_RiskScore (Assess pii c ctx)) \<le> 1 \<and>
    ra_Decision (Assess pii c ctx) =
      (if kc_AutoDeny c \<le> s then ''deny'' else if kc_RequireApproval c \<le> s then ''require_review''
       else if s < kc_ThresholdLow c then ''allow''
       else if s < kc_ThresholdMedium c \<or> s < kc_ThresholdHigh c then ''allow_with_log'' else ''allow'')"
proof -
  obtain s where s: "rk_Score (ra_RiskScore (Assess pii c ctx)) = Fin s" "unit_range s" by (rule Assess_score [OF assms])
  note cb = category_bounds [unfolded unit_range_def]
  have "rk_Factors (ra_RiskScore (Assess pii c ctx)) = riskFactors pii c ctx" using assms(1) by (simp add: Assess_def Let_def)
  moreover have "0 \<le> calculateConfidence ctx fs \<and> calculateConfidence ctx fs \<le> 1" for fs
    by (simp add: calculateConfidence_def Let_def)
  moreover have "makeDecision c (ra_RiskScore (Assess pii c ctx)) =
      (if kc_AutoDeny c \<le> s then ''deny'' else if kc_RequireApproval c \<le> s then ''require_review''
       else if s < kc_ThresholdLow c then ''allow''
       else if s < kc_ThresholdMedium c \<or> s < kc_ThresholdHigh c then ''allow_with_log'' else ''allow'')"
  proof -
    have "rk_Level (ra_RiskScore (Assess pii c ctx)) = scoreToLevel c (Fin s)"
      using s(1) assms(1) by (simp add: Assess_def Let_def)
    then show ?thesis by (auto simp: makeDecision_def s(1) scoreToLevel_def not_less)
  qed
  moreover have "ra_Decision (Assess pii c ctx) = makeDecision c (ra_RiskScore (Assess pii c ctx))"
    "rk_Confidence (ra_RiskScore (Assess pii c ctx)) = calculateConfidence ctx (riskFactors pii c ctx)"
    using assms(1) by (simp_all add: Assess_def Let_def)
  ultimately show ?thesis
    using s by (intro exI [of _ s]) (simp add: unit_range_def riskFactors_def factor_def cb)
qed

definition shellCommand :: ActionContext where
  "shellCommand = \<lparr>xc_ToolName = ''execute_command'', xc_Input = None, xc_Permissions = [''exec''], xc_AgentID = ''a'', xc_Environment = ''production'',
     xc_RecentActions = 0, xc_PreviousDenials = 9, xc_UserApproved = False\<rparr>"

lemma default_weights_ok: "kc_Enabled (NewRiskEngine DefaultRiskConfig)" "weights_ok (NewRiskEngine DefaultRiskConfig)"
  by (simp_all add: weights_ok_def weight_def NewRiskEngine_def DefaultRiskConfig_def defaultWeights_def)

theorem Assess_in_range_witness:
  "\<exists>s. rk_Score (ra_RiskScore (Assess (\<lambda>i. False) (NewRiskEngine DefaultRiskConfig) shellCommand)) = Fin s \<and> s \<le> 1"
  using Assess_in_range [OF default_weights_ok, of "\<lambda>i. False" shellCommand] by blast

text \<open>
  Under the default configuration the engine never denies: even the worst combination of tool, permissions, input,
  rate and environment stays below the \<open>AutoDeny\<close> threshold of 0.95, so the verdict \<open>deny\<close> is unreachable.
\<close>

theorem default_config_never_denies:
  "ra_Decision (Assess pii (NewRiskEngine DefaultRiskConfig) ctx) \<noteq> ''deny''"
proof -
  let ?c = "NewRiskEngine DefaultRiskConfig"
  have sec: "assessSecurity ctx \<le> 1" using security_bounds by (simp add: unit_range_def)
  have priv: "assessPrivacy pii ctx \<le> 9/10"
    using score_of_bounds [of 0 "3/5" "[(''read_file'', 2/5), (''http_request'', 1/2), (''database'', 3/5)]" 0 "xc_ToolName ctx"]
    by (auto simp: assessPrivacy_def Let_def min_le_iff_disj split: option.split)
  have cost: "assessCost ctx \<le> 9/10"
    using score_of_bounds [of 0 "2/5" "[(''http_request'', 3/10), (''model_call'', 2/5), (''database'', 1/5)]" 0 "xc_ToolName ctx"]
    by (auto simp: assessCost_def Let_def min_le_iff_disj)
  have rev: "assessReversibility ctx \<le> 1" using reversibility_bounds by (simp add: unit_range_def)
  have imp: "assessImpact ctx \<le> 1" using impact_bounds by (simp add: unit_range_def)
  have comp: "assessCompliance ctx \<le> 7/10"
    using score_of_bounds [of 0 "1/2" "[(''read_file'', 3/10), (''write_file'', 2/5), (''database'', 1/2), (''http_request'', 2/5)]" 0 "xc_ToolName ctx"]
    by (auto simp: assessCompliance_def Let_def min_le_iff_disj)
  have w: "weight ?c ''security'' = 3/2" "weight ?c ''privacy'' = 6/5" "weight ?c ''cost'' = 3/10" "weight ?c ''reversible'' = 1"
    "weight ?c ''impact'' = 13/10" "weight ?c ''compliance'' = 11/10" "kc_Enabled ?c" "kc_AutoDeny ?c = 19/20"
    by (simp_all add: weight_def NewRiskEngine_def DefaultRiskConfig_def defaultWeights_def)
  let ?t = "assessSecurity ctx * (3/2) + (assessPrivacy pii ctx * (6/5) + (assessCost ctx * (3/10) + (assessReversibility ctx + (assessImpact ctx * (13/10) + assessCompliance ctx * (11/10)))))"
  have "?t < 19/20 * (32/5)" using sec priv cost rev imp comp by linarith
  moreover have "rk_Score (ra_RiskScore (Assess pii ?c ctx)) = Fin (?t / (32/5))"
    by (simp add: Assess_def Let_def w riskFactors_def factor_def finalScore_def)
  ultimately show ?thesis using w(7,8) by (simp add: Assess_def Let_def makeDecision_def divide_less_eq)
qed

section \<open>Production is the riskiest environment\<close>

lemma production_categories:
  "assessSecurity (ctx\<lparr>xc_Environment := e\<rparr>) \<le> assessSecurity (ctx\<lparr>xc_Environment := ''production''\<rparr>)"
  "assessPrivacy pii (ctx\<lparr>xc_Environment := e\<rparr>) = assessPrivacy pii (ctx\<lparr>xc_Environment := ''production''\<rparr>)"
  "assessCost (ctx\<lparr>xc_Environment := e\<rparr>) = assessCost (ctx\<lparr>xc_Environment := ''production''\<rparr>)"
  "assessReversibility (ctx\<lparr>xc_Environment := e\<rparr>) = assessReversibility (ctx\<lparr>xc_Environment := ''production''\<rparr>)"
  "assessImpact (ctx\<lparr>xc_Environment := e\<rparr>) \<le> assessImpact (ctx\<lparr>xc_Environment := ''production''\<rparr>)"
  "assessCompliance (ctx\<lparr>xc_Environment := e\<rparr>) \<le> assessCompliance (ctx\<lparr>xc_Environment := ''production''\<rparr>)"
proof -
  have "score_of [(''production'', 9/10), (''staging'', 1/2), (''dev'', 1/10)] e 0 \<le> 9/10"
    using score_of_bounds [of 0 "9/10" "[(''production'', 9/10), (''staging'', 1/2), (''dev'', 1/10)]" 0 e] by simp
  moreover have "score_of [(''production'', 9/10), (''staging'', 1/2), (''dev'', 1/10)] ''production'' 0 = 9/10" by (simp add: score_of_def)
  ultimately show "assessImpact (ctx\<lparr>xc_Environment := e\<rparr>) \<le> assessImpact (ctx\<lparr>xc_Environment := ''production''\<rparr>)"
    by (simp add: assessImpact_def Let_def min_le_iff_disj)
qed (auto simp: assessSecurity_def assessPrivacy_def assessCost_def assessReversibility_def assessCompliance_def Let_def min_le_iff_disj)

text \<open>
  Moving an action to production never lowers its risk: with non-negative weights the score of the same action in any
  other environment is at most its score in production.
\<close>

theorem production_never_safer:
  assumes "kc_Enabled c" "weights_ok c"
  shows "\<exists>s t. rk_Score (ra_RiskScore (Assess pii c (ctx\<lparr>xc_Environment := e\<rparr>))) = Fin s \<and>
    rk_Score (ra_RiskScore (Assess pii c (ctx\<lparr>xc_Environment := ''production''\<rparr>))) = Fin t \<and> s \<le> t"
proof -
  let ?fs = "riskFactors pii c (ctx\<lparr>xc_Environment := e\<rparr>)" and ?gs = "riskFactors pii c (ctx\<lparr>xc_Environment := ''production''\<rparr>)"
  have w: "0 \<le> weight c ''security''" "0 \<le> weight c ''impact''" "0 \<le> weight c ''compliance''" using assms(2) by (simp_all add: weights_ok_def)
  have le: "sum_list (map rf_Contribution ?fs) \<le> sum_list (map rf_Contribution ?gs)"
    using production_categories(1,3,4,5,6) [where ctx = ctx and e = e] production_categories(2) [where pii = pii and ctx = ctx and e = e] w by (simp add: riskFactors_def factor_def add_mono mult_right_mono)
  have W: "sum_list (map rf_Weight ?fs) = sum_list (map rf_Weight ?gs)" by (simp add: riskFactors_def factor_def)
  have nonneg: "0 \<le> sum_list (map rf_Weight ?gs)"
    using assms(2) by (simp add: riskFactors_def factor_def weights_ok_def)
  obtain s where s: "rk_Score (ra_RiskScore (Assess pii c (ctx\<lparr>xc_Environment := e\<rparr>))) = Fin s" by (rule Assess_score [OF assms])
  obtain t where t: "rk_Score (ra_RiskScore (Assess pii c (ctx\<lparr>xc_Environment := ''production''\<rparr>))) = Fin t" by (rule Assess_score [OF assms])
  have "s \<le> t"
    using s t le nonneg assms(1) by (auto simp: Assess_def Let_def finalScore_def fl_inf_def W divide_right_mono split: if_splits)
  with s t show ?thesis by blast
qed

theorem production_never_safer_witness:
  "\<exists>s t. rk_Score (ra_RiskScore (Assess (\<lambda>i. False) (NewRiskEngine DefaultRiskConfig) (shellCommand\<lparr>xc_Environment := ''staging''\<rparr>))) = Fin s \<and>
     rk_Score (ra_RiskScore (Assess (\<lambda>i. False) (NewRiskEngine DefaultRiskConfig) (shellCommand\<lparr>xc_Environment := ''production''\<rparr>))) = Fin t \<and> s \<le> t"
  by (rule production_never_safer [OF default_weights_ok])

end
