(* ===== verification/Context_Engine.thy ===== *)
theory Context_Engine
  imports Go_Prelude
begin

text \<open>
  Assembly of the context of a model call, \<open>pkg/context/engine.go\<close>, \<open>assembler.go\<close> and \<open>types.go\<close>: fragments are
  fetched from the providers, in sequence or in parallel, sorted by priority and merged into a system and
  a user message under a token budget. A provider is a function that returns an error, no fragment or a
  fragment. \<open>sort.Slice\<close> is not stable, so its result is an argument that is only known to be a sorted
  permutation. Strings are sequences of bytes.
\<close>

section \<open>Fragments\<close>

record ContextFragment =
  cf_ProviderName :: string
  cf_Type :: string
  cf_Content :: string
  cf_Priority :: int
  cf_TokenCount :: int
  cf_Metadata :: "any smap"
  cf_Timestamp :: int

record EngineConfig =
  gc_MaxTokens :: int
  gc_EnableCache :: bool
  gc_CacheDuration :: int
  gc_Parallel :: bool

record AssemblyConfig =
  al_MaxTokens :: int
  al_TokenBudget :: "int smap option"
  al_IncludeDebug :: bool

record Message =
  ms_Role :: string
  ms_Content :: string

type_synonym 'i provider = "'i \<Rightarrow> gerror + ContextFragment option"

definition SimpleTokenCounter :: "string \<Rightarrow> int" where
  "SimpleTokenCounter text = int (length text div 4)"

section \<open>The engine\<close>

definition NewContextEngine :: "EngineConfig \<Rightarrow> EngineConfig" where
  "NewContextEngine c =
     c\<lparr>gc_MaxTokens := (if gc_MaxTokens c = 0 then 8000 else gc_MaxTokens c),
       gc_CacheDuration := (if gc_CacheDuration c = 0 then 30000000000 else gc_CacheDuration c)\<rparr>"

fun fetchSequential_loop :: "'i provider list \<Rightarrow> 'i \<Rightarrow> ContextFragment list" where
  "fetchSequential_loop [] input = []"
| "fetchSequential_loop (p # ps) input =
     (case p input of
        Inl err \<Rightarrow> fetchSequential_loop ps input
      | Inr None \<Rightarrow> fetchSequential_loop ps input
      | Inr (Some f) \<Rightarrow> f # fetchSequential_loop ps input)"

definition fetchSequential :: "(ContextFragment list \<Rightarrow> ContextFragment list) \<Rightarrow> 'i provider list \<Rightarrow> 'i \<Rightarrow> ContextFragment list" where
  "fetchSequential srt providers input = srt (fetchSequential_loop providers input)"

text \<open>The answers of the goroutines arrive on the channel in the order \<open>arrival\<close>, a permutation of the providers.\<close>

definition fetchParallel ::
    "(ContextFragment list \<Rightarrow> ContextFragment list) \<Rightarrow> nat list \<Rightarrow> 'i provider list \<Rightarrow> 'i \<Rightarrow> ContextFragment list" where
  "fetchParallel srt arrival providers input =
     srt (concat (map (\<lambda>i. case (providers ! i) input of Inr (Some f) \<Rightarrow> [f] | _ \<Rightarrow> []) arrival))"

definition FetchAll ::
    "(ContextFragment list \<Rightarrow> ContextFragment list) \<Rightarrow> nat list \<Rightarrow> EngineConfig \<Rightarrow> 'i provider list \<Rightarrow> 'i \<Rightarrow> ContextFragment list" where
  "FetchAll srt arrival config providers input =
     (if providers = [] then []
      else if gc_Parallel config then fetchParallel srt arrival providers input
      else fetchSequential srt providers input)"

section \<open>The assembler\<close>

definition mergeFragments :: "ContextFragment list \<Rightarrow> string" where
  "mergeFragments fs = Join (filter (\<lambda>s. s \<noteq> []) (map cf_Content fs)) [CHR 0x0A, CHR 0x0A]"

definition applyBudget :: "(string \<Rightarrow> int) \<Rightarrow> ContextFragment list \<Rightarrow> int \<Rightarrow> string \<times> int" where
  "applyBudget ntok fs budget =
     (if budget \<le> 0 then ([], 0)
      else (let content = mergeFragments fs; tokens = ntok content
            in if tokens \<le> budget then (content, tokens)
               else (let maxChars = budget * 4
                     in (if maxChars < int (length content) then take (nat maxChars) content @ ''... [truncated]'' else content, budget))))"

definition defaultTokenBudget :: "int smap" where
  "defaultTokenBudget = [(''system_prompt'', 500), (''policy'', 1000), (''workflow_state'', 500), (''memory'', 3000),
     (''tool_output'', 2000), (''user_goal'', 1000), (''knowledge'', 1000)]"

definition defaultPrompt :: string where
  "defaultPrompt = ''You are an autonomous agent. Given a goal and prior steps, choose the next tool to call or indicate completion.''"

record assembly =
  ab_system :: string
  ab_user :: string
  ab_tokens :: int
  ab_included :: nat

definition ofType :: "string \<Rightarrow> ContextFragment list \<Rightarrow> ContextFragment list" where
  "ofType ty fs = filter (\<lambda>f. cf_Type f = ty) fs"

definition systemPart :: "(string \<Rightarrow> int) \<Rightarrow> ContextFragment list \<Rightarrow> assembly" where
  "systemPart ntok fs =
     (let sys = ofType ''system_prompt'' fs;
          content = (if sys \<noteq> [] then mergeFragments sys else defaultPrompt)
      in \<lparr>ab_system = content, ab_user = [], ab_tokens = ntok content, ab_included = length sys\<rparr>)"

text \<open>Policy and workflow fragments go to the system message under their own budget.\<close>

definition systemBudgeted :: "(string \<Rightarrow> int) \<Rightarrow> int smap \<Rightarrow> ContextFragment list \<Rightarrow> string \<Rightarrow> assembly \<Rightarrow> assembly" where
  "systemBudgeted ntok budgets fs ty a =
     (let part = ofType ty fs
      in if part = [] then a
         else (case applyBudget ntok part (get_int budgets ty) of
                 (content, used) \<Rightarrow>
                   if content = [] then a
                   else a\<lparr>ab_system := ab_system a @ [CHR 0x0A, CHR 0x0A] @ content, ab_tokens := ab_tokens a + used,
                          ab_included := ab_included a + length part\<rparr>))"

definition goalPart :: "(string \<Rightarrow> int) \<Rightarrow> ContextFragment list \<Rightarrow> assembly \<Rightarrow> assembly" where
  "goalPart ntok fs a =
     (let goals = ofType ''user_goal'' fs
      in if goals = [] then a
         else a\<lparr>ab_user := ab_user a @ mergeFragments goals, ab_tokens := ab_tokens a + ntok (mergeFragments goals),
                ab_included := ab_included a + length goals\<rparr>)"

text \<open>Memory, tool outputs and knowledge go to the user message under the smaller of their budget and what is left.\<close>

definition userBudgeted ::
    "(string \<Rightarrow> int) \<Rightarrow> int \<Rightarrow> int smap \<Rightarrow> ContextFragment list \<Rightarrow> string \<Rightarrow> string \<Rightarrow> assembly \<Rightarrow> assembly" where
  "userBudgeted ntok maxTokens budgets fs ty label a =
     (let part = ofType ty fs
      in if part = [] then a
         else (let budget = get_int budgets ty; remaining = maxTokens - ab_tokens a
               in case applyBudget ntok part (if budget > remaining then remaining else budget) of
                    (content, used) \<Rightarrow>
                      if content = [] then a
                      else a\<lparr>ab_user := ab_user a @ (if ab_user a \<noteq> [] then [CHR 0x0A, CHR 0x0A] else []) @ label @ content,
                             ab_tokens := ab_tokens a + used, ab_included := ab_included a + length part\<rparr>))"

definition assembleParts :: "(string \<Rightarrow> int) \<Rightarrow> ContextFragment list \<Rightarrow> int \<Rightarrow> int smap \<Rightarrow> assembly" where
  "assembleParts ntok fs maxTokens budgets =
     (userBudgeted ntok maxTokens budgets fs ''knowledge'' (''Retrieved knowledge:'' @ [CHR 0x0A])
      \<circ> userBudgeted ntok maxTokens budgets fs ''tool_output'' []
      \<circ> userBudgeted ntok maxTokens budgets fs ''memory'' (''Relevant context from memory:'' @ [CHR 0x0A])
      \<circ> goalPart ntok fs
      \<circ> systemBudgeted ntok budgets fs ''workflow_state''
      \<circ> systemBudgeted ntok budgets fs ''policy'') (systemPart ntok fs)"

text \<open>\<open>elapsed\<close> is the formatted assembly time; the counter of truncations is never incremented.\<close>

definition debugInfo :: "string \<Rightarrow> assembly \<Rightarrow> string" where
  "debugInfo elapsed a = [CHR 0x0A, CHR 0x0A] @ ''[DEBUG] Total tokens: '' @ itoa (ab_tokens a) @ '', Assembly time: '' @ elapsed @
     '', Fragments included: '' @ itoa (int (ab_included a)) @ '', Truncated: '' @ itoa 0"

definition Assemble :: "(string \<Rightarrow> int) \<Rightarrow> string \<Rightarrow> ContextFragment list \<Rightarrow> AssemblyConfig \<Rightarrow> Message list" where
  "Assemble ntok elapsed fs config =
     (let maxTokens = (if al_MaxTokens config = 0 then 8000 else al_MaxTokens config);
          budgets = (case al_TokenBudget config of None \<Rightarrow> defaultTokenBudget | Some b \<Rightarrow> b);
          a = assembleParts ntok fs maxTokens budgets;
          msgs = \<lparr>ms_Role = ''system'', ms_Content = ab_system a\<rparr> #
                 (if ab_user a \<noteq> [] then [\<lparr>ms_Role = ''user'', ms_Content = ab_user a\<rparr>] else [])
      in if al_IncludeDebug config
         then butlast msgs @ [(last msgs)\<lparr>ms_Content := ms_Content (last msgs) @ debugInfo elapsed a\<rparr>]
         else msgs)"

definition ce_Assemble ::
    "(ContextFragment list \<Rightarrow> AssemblyConfig \<Rightarrow> Message list) option \<Rightarrow> EngineConfig \<Rightarrow> ContextFragment list \<Rightarrow> AssemblyConfig \<Rightarrow> gerror + Message list" where
  "ce_Assemble assembler econfig fs config =
     (case assembler of
        None \<Rightarrow> Inl (Errorf ''no assembler configured'')
      | Some asm \<Rightarrow> Inr (asm fs (if al_MaxTokens config = 0 then config\<lparr>al_MaxTokens := gc_MaxTokens econfig\<rparr> else config)))"

section \<open>Fetching\<close>

definition slice_sort :: "(ContextFragment list \<Rightarrow> ContextFragment list) \<Rightarrow> bool" where
  "slice_sort srt = (\<forall>fs. mset (srt fs) = mset fs \<and> sorted (map cf_Priority (srt fs)))"

definition answered :: "'i provider list \<Rightarrow> 'i \<Rightarrow> ContextFragment list" where
  "answered ps input = concat (map (\<lambda>p. case p input of Inr (Some f) \<Rightarrow> [f] | _ \<Rightarrow> []) ps)"

lemma fetchSequential_loop_answered: "fetchSequential_loop ps input = answered ps input"
  by (induction ps) (simp_all add: answered_def split: sum.split option.split)

lemma mset_concat_map_perm:
  assumes "mset is = mset js"
  shows "mset (concat (map f is)) = mset (concat (map f js))"
proof -
  have "mset (concat (map f ks)) = sum_mset (image_mset (mset \<circ> f) (mset ks))" for ks
    by (simp add: mset_concat flip: sum_mset_sum_list)
  then show ?thesis by (simp add: assms)
qed

lemma arrival_answered:
  assumes "mset arrival = mset [0..<length ps]"
  shows "mset (concat (map (\<lambda>i. case (ps ! i) input of Inr (Some f) \<Rightarrow> [f] | _ \<Rightarrow> []) arrival)) = mset (answered ps input)"
proof -
  have "answered ps input = concat (map (\<lambda>i. case (ps ! i) input of Inr (Some f) \<Rightarrow> [f] | _ \<Rightarrow> []) [0..<length ps])"
    unfolding answered_def by (rule arg_cong [of _ _ concat], rule nth_equalityI) simp_all
  then show ?thesis using mset_concat_map_perm [OF assms] by metis
qed

lemma FetchAll_answered:
  assumes "slice_sort srt" "mset arrival = mset [0..<length providers]"
  shows "mset (FetchAll srt arrival config providers input) = mset (answered providers input)"
  using assms arrival_answered [OF assms(2), of input]
  by (simp add: FetchAll_def fetchParallel_def fetchSequential_def fetchSequential_loop_answered slice_sort_def answered_def)

section \<open>The prompt comes first\<close>

lemma ab_system_userBudgeted [simp]: "ab_system (userBudgeted ntok maxTokens budgets fs ty label a) = ab_system a"
  by (simp add: userBudgeted_def Let_def split: prod.split)

lemma ab_system_goalPart [simp]: "ab_system (goalPart ntok fs a) = ab_system a"
  by (simp add: goalPart_def Let_def)

lemma ab_system_budgeted: "\<exists>r. ab_system (systemBudgeted ntok budgets fs ty a) = ab_system a @ r"
  by (simp add: systemBudgeted_def Let_def split: prod.split)

lemma assembleParts_prompt: "\<exists>r. ab_system (assembleParts ntok fs maxTokens budgets) = ab_system (systemPart ntok fs) @ r"
proof -
  obtain r where "ab_system (systemBudgeted ntok budgets fs ''policy'' (systemPart ntok fs)) = ab_system (systemPart ntok fs) @ r"
    using ab_system_budgeted by blast
  then show ?thesis
    using ab_system_budgeted [of ntok budgets fs "''workflow_state''" "systemBudgeted ntok budgets fs ''policy'' (systemPart ntok fs)"]
    by (auto simp: assembleParts_def)
qed

section \<open>Token counters\<close>

text \<open>What the assembler relies on in a token counter: never negative, and at most four bytes to a token but for a rest.\<close>

locale token_counter =
  fixes ntok :: "string \<Rightarrow> int"
  assumes count_nonneg: "0 \<le> ntok s"
    and count_bytes: "int (length s) \<le> 4 * ntok s + 3"
begin

lemma applyBudget_bounds:
  assumes "applyBudget ntok fs budget = (content, used)"
  shows "0 \<le> used" "used \<le> max 0 budget" "int (length content) \<le> 4 * used + 18" "content \<noteq> [] \<Longrightarrow> 0 < budget"
  using assms count_nonneg [of "mergeFragments fs"] count_bytes [of "mergeFragments fs"]
  by (auto simp: applyBudget_def Let_def min_def split: if_splits)

text \<open>The invariant of the assembly: the bytes of both messages against the tokens accounted for.\<close>

definition fits :: "int \<Rightarrow> assembly \<Rightarrow> bool" where
  "fits slack a = (0 \<le> ab_tokens a \<and> int (length (ab_system a)) + int (length (ab_user a)) \<le> 4 * ab_tokens a + slack)"

lemma fits_system: "fits 3 (systemPart ntok fs)"
  using count_nonneg count_bytes by (simp add: fits_def systemPart_def Let_def)

lemma fits_systemBudgeted: "fits k a \<Longrightarrow> fits (k + 20) (systemBudgeted ntok budgets fs ty a)"
  using applyBudget_bounds [of "ofType ty fs" "get_int budgets ty"]
  by (fastforce simp: fits_def systemBudgeted_def Let_def split: prod.split)

lemma fits_goal: "fits k a \<Longrightarrow> fits (k + 3) (goalPart ntok fs a)"
  using count_nonneg [of "mergeFragments (ofType ''user_goal'' fs)"] count_bytes [of "mergeFragments (ofType ''user_goal'' fs)"]
  by (auto simp: fits_def goalPart_def Let_def)

lemma fits_userBudgeted:
  assumes "fits k a"
  shows "fits (k + 20 + int (length label)) (userBudgeted ntok maxTokens budgets fs ty label a)"
proof -
  let ?b = "if get_int budgets ty > maxTokens - ab_tokens a then maxTokens - ab_tokens a else get_int budgets ty"
  obtain content used where ap: "applyBudget ntok (ofType ty fs) ?b = (content, used)" by fastforce
  from applyBudget_bounds [OF ap] assms show ?thesis
    by (auto simp: fits_def userBudgeted_def Let_def ap)
qed

lemma userBudgeted_tokens:
  "ab_tokens (userBudgeted ntok maxTokens budgets fs ty label a) \<le> max maxTokens (ab_tokens a)"
proof -
  let ?b = "if get_int budgets ty > maxTokens - ab_tokens a then maxTokens - ab_tokens a else get_int budgets ty"
  obtain content used where ap: "applyBudget ntok (ofType ty fs) ?b = (content, used)" by fastforce
  from applyBudget_bounds [OF ap] show ?thesis by (auto simp: userBudgeted_def Let_def ap split: if_splits)
qed

text \<open>What is accounted for before any optional part: prompt, goal and the two budgets of the system message.\<close>

definition baseTokens :: "ContextFragment list \<Rightarrow> int smap \<Rightarrow> int" where
  "baseTokens fs budgets = ntok (ab_system (systemPart ntok fs)) + ntok (mergeFragments (ofType ''user_goal'' fs)) +
     max 0 (get_int budgets ''policy'') + max 0 (get_int budgets ''workflow_state'')"

lemma systemBudgeted_tokens: "ab_tokens (systemBudgeted ntok budgets fs ty a) \<le> ab_tokens a + max 0 (get_int budgets ty)"
  using applyBudget_bounds(2) [of "ofType ty fs" "get_int budgets ty"]
  by (auto simp: systemBudgeted_def Let_def split: prod.split)

lemma goalPart_tokens: "ab_tokens (goalPart ntok fs a) \<le> ab_tokens a + ntok (mergeFragments (ofType ''user_goal'' fs))"
  using count_nonneg [of "mergeFragments (ofType ''user_goal'' fs)"] by (auto simp: goalPart_def Let_def)

lemma base_bound:
  "ab_tokens (goalPart ntok fs (systemBudgeted ntok budgets fs ''workflow_state'' (systemBudgeted ntok budgets fs ''policy'' (systemPart ntok fs))))
    \<le> baseTokens fs budgets"
proof -
  let ?a = "systemBudgeted ntok budgets fs ''policy'' (systemPart ntok fs)"
  let ?b = "systemBudgeted ntok budgets fs ''workflow_state'' ?a"
  have "ab_tokens (systemPart ntok fs) = ntok (ab_system (systemPart ntok fs))" by (simp add: systemPart_def Let_def)
  with systemBudgeted_tokens [of budgets fs "''policy''" "systemPart ntok fs"] systemBudgeted_tokens [of budgets fs "''workflow_state''" ?a]
    goalPart_tokens [of fs ?b] show ?thesis by (simp add: baseTokens_def)
qed

lemma assembleParts_bounds:
  "ab_tokens (assembleParts ntok fs maxTokens budgets) \<le> max maxTokens (baseTokens fs budgets) \<and>
   fits 157 (assembleParts ntok fs maxTokens budgets)"
proof
  let ?g = "goalPart ntok fs (systemBudgeted ntok budgets fs ''workflow_state'' (systemBudgeted ntok budgets fs ''policy'' (systemPart ntok fs)))"
  let ?m = "userBudgeted ntok maxTokens budgets fs ''memory'' (''Relevant context from memory:'' @ [CHR 0x0A]) ?g"
  let ?t = "userBudgeted ntok maxTokens budgets fs ''tool_output'' [] ?m"
  have parts: "assembleParts ntok fs maxTokens budgets = userBudgeted ntok maxTokens budgets fs ''knowledge'' (''Retrieved knowledge:'' @ [CHR 0x0A]) ?t"
    by (simp add: assembleParts_def)
  have "ab_tokens ?t \<le> max maxTokens (baseTokens fs budgets)"
    using userBudgeted_tokens [of maxTokens budgets fs "''tool_output''" "[]" ?m]
      userBudgeted_tokens [of maxTokens budgets fs "''memory''" "''Relevant context from memory:'' @ [CHR 0x0A]" ?g] base_bound [of fs budgets] by linarith
  then show "ab_tokens (assembleParts ntok fs maxTokens budgets) \<le> max maxTokens (baseTokens fs budgets)"
    unfolding parts using userBudgeted_tokens [of maxTokens budgets fs "''knowledge''" "''Retrieved knowledge:'' @ [CHR 0x0A]" ?t] by linarith
  have "fits (3 + 20 + 20 + 3) ?g"
    by (intro fits_goal fits_systemBudgeted fits_system)
  then have "fits (3 + 20 + 20 + 3 + 20 + 30) ?m"
    using fits_userBudgeted [where a = ?g and k = "3 + 20 + 20 + 3" and ty = "''memory''" and label = "''Relevant context from memory:'' @ [CHR 0x0A]"
        and maxTokens = maxTokens and budgets = budgets and fs = fs] by simp
  then have "fits (3 + 20 + 20 + 3 + 20 + 30 + 20) ?t"
    using fits_userBudgeted [where a = ?m and k = "3 + 20 + 20 + 3 + 20 + 30" and ty = "''tool_output''" and label = "[]"
        and maxTokens = maxTokens and budgets = budgets and fs = fs] by simp
  then show "fits 157 (assembleParts ntok fs maxTokens budgets)"
    unfolding parts using fits_userBudgeted [where a = ?t and k = "3 + 20 + 20 + 3 + 20 + 30 + 20" and ty = "''knowledge''"
        and label = "''Retrieved knowledge:'' @ [CHR 0x0A]" and maxTokens = maxTokens and budgets = budgets and fs = fs] by simp
qed

end

interpretation stc: token_counter SimpleTokenCounter
proof unfold_locales
  fix s :: string
  show "0 \<le> SimpleTokenCounter s" by (simp add: SimpleTokenCounter_def)
  have "int (length s) \<le> 4 * (int (length s) div 4) + 3" by presburger
  then show "int (length s) \<le> 4 * SimpleTokenCounter s + 3" by (simp add: SimpleTokenCounter_def zdiv_int)
qed

section \<open>Properties\<close>

text \<open>
  Fetching loses nothing and orders by priority: in sequence or in parallel, in whatever order the goroutines finish and
  however \<open>sort.Slice\<close> breaks ties, the result holds exactly the fragments the providers answered with, errors and empty answers
  left out, in non-decreasing priority.
\<close>

theorem FetchAll_sorted_complete:
  assumes "slice_sort srt" "mset arrival = mset [0..<length providers]"
  shows "mset (FetchAll srt arrival config providers input) = mset (answered providers input) \<and>
    sorted (map cf_Priority (FetchAll srt arrival config providers input))"
  using assms FetchAll_answered [OF assms] by (simp add: FetchAll_def fetchParallel_def fetchSequential_def slice_sort_def)

definition sampleFragment :: "string \<Rightarrow> int \<Rightarrow> string \<Rightarrow> ContextFragment" where
  "sampleFragment ty pr content = \<lparr>cf_ProviderName = ''p'', cf_Type = ty, cf_Content = content, cf_Priority = pr, cf_TokenCount = 0, cf_Metadata = [], cf_Timestamp = 0\<rparr>"

definition sampleProviders :: "unit provider list" where
  "sampleProviders = [\<lambda>_. Inr (Some (sampleFragment ''memory'' 5 ''m'')), \<lambda>_. Inl Canceled, \<lambda>_. Inr (Some (sampleFragment ''policy'' 1 ''p''))]"

theorem FetchAll_sorted_complete_witness:
  "mset (FetchAll (sort_key cf_Priority) [2, 0, 1] \<lparr>gc_MaxTokens = 0, gc_EnableCache = False, gc_CacheDuration = 0, gc_Parallel = True\<rparr> sampleProviders ()) =
     {#sampleFragment ''memory'' 5 ''m'', sampleFragment ''policy'' 1 ''p''#}"
proof -
  have "slice_sort (sort_key cf_Priority)" by (simp add: slice_sort_def)
  moreover have "mset [2, 0, 1] = mset [0..<length sampleProviders]" by (simp add: sampleProviders_def upt_rec)
  ultimately show ?thesis
    using FetchAll_sorted_complete [of "sort_key cf_Priority" "[2, 0, 1]" sampleProviders
        "\<lparr>gc_MaxTokens = 0, gc_EnableCache = False, gc_CacheDuration = 0, gc_Parallel = True\<rparr>" "()"]
    by (simp add: answered_def sampleProviders_def)
qed

text \<open>
  C23. The context stays within its budget: without debug output, the messages take at most four bytes per token of the larger of
  \<open>MaxTokens\<close> and what the parts without a limit need (the system prompt, the goal, and the budgets of policy and workflow state), plus 157
  bytes for labels, separators, truncation marks and rounding. The system message starts with the prompt.
\<close>

theorem Assemble_within_budget:
  assumes "\<not> al_IncludeDebug config" "al_MaxTokens config \<noteq> 0" "al_TokenBudget config = Some budgets"
    and prompt: "prompt = (if ofType ''system_prompt'' fs \<noteq> [] then mergeFragments (ofType ''system_prompt'' fs) else defaultPrompt)"
    and free: "free = SimpleTokenCounter prompt + SimpleTokenCounter (mergeFragments (ofType ''user_goal'' fs)) +
      max 0 (get_int budgets ''policy'') + max 0 (get_int budgets ''workflow_state'')"
  shows "sum_list (map (\<lambda>m. int (length (ms_Content m))) (Assemble SimpleTokenCounter elapsed fs config)) \<le>
      4 * max (al_MaxTokens config) free + 157 \<and>
    ms_Role (hd (Assemble SimpleTokenCounter elapsed fs config)) = ''system'' \<and>
    HasPrefix (ms_Content (hd (Assemble SimpleTokenCounter elapsed fs config))) prompt"
proof -
  let ?a = "assembleParts SimpleTokenCounter fs (al_MaxTokens config) budgets"
  have msgs: "Assemble SimpleTokenCounter elapsed fs config = \<lparr>ms_Role = ''system'', ms_Content = ab_system ?a\<rparr> #
      (if ab_user ?a \<noteq> [] then [\<lparr>ms_Role = ''user'', ms_Content = ab_user ?a\<rparr>] else [])"
    using assms(1-3) by (simp add: Assemble_def Let_def)
  have base: "stc.baseTokens fs budgets = free" by (simp add: stc.baseTokens_def free systemPart_def Let_def prompt)
  have "int (length (ab_system ?a)) + int (length (ab_user ?a)) \<le> 4 * ab_tokens ?a + 157" "ab_tokens ?a \<le> max (al_MaxTokens config) free"
    using stc.assembleParts_bounds [of fs "al_MaxTokens config" budgets] by (simp_all add: stc.fits_def base)
  then have "int (length (ab_system ?a)) + int (length (ab_user ?a)) \<le> 4 * max (al_MaxTokens config) free + 157" by linarith
  moreover obtain r where "ab_system ?a = prompt @ r"
    using assembleParts_prompt [of SimpleTokenCounter fs "al_MaxTokens config" budgets] by (auto simp: systemPart_def Let_def prompt)
  ultimately show ?thesis by (auto simp: msgs)
qed

definition tightBudgets :: "int smap" where
  "tightBudgets = [(''policy'', 0), (''workflow_state'', 0), (''memory'', 1000)]"

theorem Assemble_within_budget_witness:
  "sum_list (map (\<lambda>m. int (length (ms_Content m))) (Assemble SimpleTokenCounter [] [sampleFragment ''memory'' 5 (replicate 5000 CHR ''x'')]
     \<lparr>al_MaxTokens = 100, al_TokenBudget = Some tightBudgets, al_IncludeDebug = False\<rparr>)) \<le> 4 * 100 + 157"
proof -
  have "SimpleTokenCounter defaultPrompt = 27" by (simp add: SimpleTokenCounter_def defaultPrompt_def)
  then show ?thesis
    using Assemble_within_budget [of "\<lparr>al_MaxTokens = 100, al_TokenBudget = Some tightBudgets, al_IncludeDebug = False\<rparr>" tightBudgets
        defaultPrompt "[sampleFragment ''memory'' 5 (replicate 5000 CHR ''x'')]" 27 "[]"]
    by (simp add: ofType_def sampleFragment_def get_int_def tightBudgets_def mergeFragments_def SimpleTokenCounter_def del: replicate_Suc)
qed

end
