(* ===== verification/Auto_Scaler.thy ===== *)
theory Auto_Scaler
  imports Go_Prelude
begin

text \<open>
  The auto scaler, \<open>pkg/autoscaling/scaler.go\<close>. One evaluation of a policy sees the clock, the answers of the metrics
  provider and of the scaler backend; loads are \<open>gofloat\<close> values because a metric with threshold 0 divides by
  zero. Times and durations are integers.
\<close>

section \<open>Policies\<close>

record MetricConfig =
  mf_Name :: string
  mf_Type :: string
  mf_Threshold :: rat
  mf_Weight :: rat

record ScalingPolicy =
  sc_ID :: string
  sc_ServiceID :: string
  sc_TenantID :: string
  sc_MinReplicas :: int
  sc_MaxReplicas :: int
  sc_ScaleUpThreshold :: rat
  sc_ScaleDownThreshold :: rat
  sc_Metrics :: "MetricConfig list"
  sc_CooldownPeriod :: int
  sc_LastScaleTime :: int
  sc_Enabled :: bool

type_synonym policies = "ScalingPolicy smap"

definition AddPolicy :: "policies \<Rightarrow> ScalingPolicy \<Rightarrow> policies" where
  "AddPolicy ps p = AList.update (sc_ID p) p ps"

definition RemovePolicy :: "policies \<Rightarrow> string \<Rightarrow> policies" where
  "RemovePolicy ps policyID = AList.delete policyID ps"

definition GetPolicy :: "policies \<Rightarrow> string \<Rightarrow> gerror + ScalingPolicy" where
  "GetPolicy ps policyID = (case map_of ps policyID of None \<Rightarrow> Inl (Errorf (''policy not found: '' @ policyID)) | Some p \<Rightarrow> Inr p)"

section \<open>One evaluation\<close>

record scale_env =
  sv_now :: int
  sv_metric :: "string \<Rightarrow> string \<Rightarrow> string \<Rightarrow> gerror + rat"
  sv_current :: "string \<Rightarrow> string \<Rightarrow> gerror + int"
  sv_scale :: "string \<Rightarrow> string \<Rightarrow> int \<Rightarrow> gerror option"
  sv_done :: int

definition maxInt :: "int \<Rightarrow> int \<Rightarrow> int" where
  "maxInt a b = (if a > b then a else b)"

definition calculateScaleIncrement :: "int \<Rightarrow> gofloat \<Rightarrow> int" where
  "calculateScaleIncrement currentReplicas loadScore =
     (if fl_less (Fin 2) loadScore then maxInt 2 (go_div currentReplicas 2)
      else if fl_less (Fin (3/2)) loadScore then maxInt 1 (go_div currentReplicas 4)
      else 1)"

text \<open>The weighted sum and the total weight; a metric that cannot be read is left out.\<close>

fun metricScores :: "scale_env \<Rightarrow> ScalingPolicy \<Rightarrow> MetricConfig list \<Rightarrow> gofloat \<times> rat \<Rightarrow> gofloat \<times> rat" where
  "metricScores env p [] acc = acc"
| "metricScores env p (m # ms) (totalScore, totalWeight) =
     (case sv_metric env (sc_ServiceID p) (sc_TenantID p) (mf_Type m) of
        Inl err \<Rightarrow> metricScores env p ms (totalScore, totalWeight)
      | Inr v \<Rightarrow> metricScores env p ms
                   (fl_add totalScore (fl_mul (fl_div (Fin v) (Fin (mf_Threshold m))) (Fin (mf_Weight m))), totalWeight + mf_Weight m))"

definition desiredReplicas :: "ScalingPolicy \<Rightarrow> int \<Rightarrow> gofloat \<Rightarrow> int option" where
  "desiredReplicas p current avgScore =
     (if fl_less (Fin (sc_ScaleUpThreshold p)) avgScore
      then (let d = current + calculateScaleIncrement current avgScore in Some (if d > sc_MaxReplicas p then sc_MaxReplicas p else d))
      else if fl_less avgScore (Fin (sc_ScaleDownThreshold p))
      then (let d = current - 1 in Some (if d < sc_MinReplicas p then sc_MinReplicas p else d))
      else None)"

text \<open>The policy afterwards, the replicas the backend was told to run, and the error.\<close>

definition evaluatePolicy :: "scale_env \<Rightarrow> ScalingPolicy \<Rightarrow> ScalingPolicy \<times> int option \<times> gerror option" where
  "evaluatePolicy env p =
     (if sv_now env - sc_LastScaleTime p < sc_CooldownPeriod p then (p, None, None)
      else (case sv_current env (sc_ServiceID p) (sc_TenantID p) of
        Inl err \<Rightarrow> (p, None, Some (Wrap ''get current replicas: '' err))
      | Inr current \<Rightarrow>
          (case metricScores env p (sc_Metrics p) (Fin 0, 0) of
             (totalScore, totalWeight) \<Rightarrow>
               if totalWeight = 0 then (p, None, Some (Errorf ''no valid metrics''))
               else (case desiredReplicas p current (fl_div totalScore (Fin totalWeight)) of
                       None \<Rightarrow> (p, None, None)
                     | Some d \<Rightarrow>
                         if d = current then (p, None, None)
                         else (case sv_scale env (sc_ServiceID p) (sc_TenantID p) d of
                                 Some err \<Rightarrow> (p, None, Some (Wrap ''scale service: '' err))
                               | None \<Rightarrow> (p\<lparr>sc_LastScaleTime := sv_done env\<rparr>, Some d, None))))))"

text \<open>All enabled policies in turn; \<open>envs\<close> gives what the evaluation of each one sees. The updates go through the shared pointers.\<close>

definition checkAndScale :: "(string \<Rightarrow> scale_env) \<Rightarrow> policies \<Rightarrow> policies \<times> (string \<times> int) list" where
  "checkAndScale envs ps =
     (let res = map (\<lambda>(k, p). (k, if sc_Enabled p then evaluatePolicy (envs k) p else (p, None, None))) ps
      in (map (\<lambda>(k, p, _). (k, p)) res, concat (map (\<lambda>(k, p, d, e). case d of None \<Rightarrow> [] | Some n \<Rightarrow> [(k, n)]) res)))"

section \<open>The providers in the repository\<close>

definition k8s_GetCurrentReplicas :: "string \<Rightarrow> string \<Rightarrow> gerror + int" where
  "k8s_GetCurrentReplicas serviceID tenantID = Inr 3"

definition k8s_Scale :: "string \<Rightarrow> string \<Rightarrow> int \<Rightarrow> gerror option" where
  "k8s_Scale serviceID tenantID replicas = None"

definition prom_GetMetric :: "string \<Rightarrow> string \<Rightarrow> string \<Rightarrow> gerror + rat" where
  "prom_GetMetric serviceID tenantID ty =
     (if ty = ''cpu'' then Inr 65 else if ty = ''memory'' then Inr 70 else if ty = ''queue_depth'' then Inr 45
      else if ty = ''request_rate'' then Inr 150 else if ty = ''latency'' then Inr 250
      else Inl (Errorf (''unsupported metric type: '' @ ty)))"

section \<open>Prediction\<close>

definition RecordLoad :: "rat list smap \<Rightarrow> string \<Rightarrow> rat \<Rightarrow> rat list smap" where
  "RecordLoad history serviceID load =
     (let h = get_list history serviceID @ [load]
      in AList.update serviceID (if length h > 100 then drop (length h - 100) h else h) history)"

definition PredictLoad :: "rat list smap \<Rightarrow> string \<Rightarrow> rat" where
  "PredictLoad history serviceID =
     (let h = get_list history serviceID
      in if length h < 5 then 0 else sum_list (drop (length h - 5) h) / 5)"

section \<open>Facts about an evaluation\<close>

lemma go_div_nonneg: "0 \<le> a \<Longrightarrow> 0 < b \<Longrightarrow> 0 \<le> go_div a b"
  by (simp add: go_div_pos pos_imp_zdiv_nonneg_iff)

lemma increment_pos: "1 \<le> calculateScaleIncrement c s"
  by (simp add: calculateScaleIncrement_def maxInt_def)

lemma desired_in_range:
  assumes "sc_MinReplicas p \<le> c" "c \<le> sc_MaxReplicas p" "desiredReplicas p c s = Some d"
  shows "sc_MinReplicas p \<le> d \<and> d \<le> sc_MaxReplicas p"
  using assms increment_pos [of c s] by (auto simp: desiredReplicas_def Let_def split: if_splits)

lemma evaluatePolicy_scaled:
  assumes "evaluatePolicy env p = (p', Some d, e)"
  obtains c s where "sv_current env (sc_ServiceID p) (sc_TenantID p) = Inr c" "desiredReplicas p c s = Some d" "d \<noteq> c"
    "sc_CooldownPeriod p \<le> sv_now env - sc_LastScaleTime p" "p' = p\<lparr>sc_LastScaleTime := sv_done env\<rparr>" "e = None"
  using assms by (auto simp: evaluatePolicy_def split: if_splits sum.splits prod.splits option.splits)

lemma evaluatePolicy_idle: "evaluatePolicy env p = (p', None, e) \<Longrightarrow> p' = p"
  by (auto simp: evaluatePolicy_def split: if_splits sum.splits prod.splits option.splits)

text \<open>
  The control loop on one policy: in each round the backend reports the replicas it runs, which are those it was
  last told to run, and the round records a scaling with its time.
\<close>

fun controlLoop :: "scale_env list \<Rightarrow> ScalingPolicy \<Rightarrow> int \<Rightarrow> (int \<times> int) list" where
  "controlLoop [] p c = []"
| "controlLoop (env # envs) p c =
     (case evaluatePolicy (env\<lparr>sv_current := \<lambda>s t. Inr c\<rparr>) p of
        (p', None, e) \<Rightarrow> controlLoop envs p' c
      | (p', Some d, e) \<Rightarrow> (sv_done env, d) # controlLoop envs p' d)"

lemma controlLoop_range:
  assumes "sc_MinReplicas p \<le> c" "c \<le> sc_MaxReplicas p"
  shows "\<forall>(t, d) \<in> set (controlLoop envs p c). sc_MinReplicas p \<le> d \<and> d \<le> sc_MaxReplicas p"
  using assms
proof (induction envs arbitrary: p c)
  case (Cons env envs)
  obtain p' r e where ev: "evaluatePolicy (env\<lparr>sv_current := \<lambda>s t. Inr c\<rparr>) p = (p', r, e)" by (cases "evaluatePolicy (env\<lparr>sv_current := \<lambda>s t. Inr c\<rparr>) p")
  show ?case
  proof (cases r)
    case None
    with ev evaluatePolicy_idle [of "env\<lparr>sv_current := \<lambda>s t. Inr c\<rparr>" p p' e] Cons show ?thesis by simp
  next
    case (Some d)
    obtain s where d: "desiredReplicas p c s = Some d" "p' = p\<lparr>sc_LastScaleTime := sv_done env\<rparr>"
      using evaluatePolicy_scaled [OF ev [unfolded Some]] by auto
    from desired_in_range [OF Cons.prems d(1)] have rng: "sc_MinReplicas p \<le> d" "d \<le> sc_MaxReplicas p" by simp_all
    with Cons.IH [of p' d] d(2) ev Some show ?thesis by simp
  qed
qed simp

text \<open>Rounds start after the previous one was over.\<close>

definition clock_ok :: "scale_env list \<Rightarrow> bool" where
  "clock_ok envs = (sorted_wrt (\<lambda>a b. sv_done a \<le> sv_now b) envs \<and> list_all (\<lambda>a. sv_now a \<le> sv_done a) envs)"

lemma controlLoop_cooldown:
  assumes "clock_ok envs" "0 \<le> sc_CooldownPeriod p"
  shows "sorted_wrt (\<lambda>a b. fst a + sc_CooldownPeriod p \<le> fst b) (controlLoop envs p c) \<and>
    (\<forall>a \<in> set (controlLoop envs p c). sc_LastScaleTime p + sc_CooldownPeriod p \<le> fst a)"
  using assms
proof (induction envs arbitrary: p c)
  case (Cons env envs)
  from Cons.prems(1) have ok: "clock_ok envs" "sv_now env \<le> sv_done env" by (simp_all add: clock_ok_def)
  obtain p' r e where ev: "evaluatePolicy (env\<lparr>sv_current := \<lambda>s t. Inr c\<rparr>) p = (p', r, e)" by (cases "evaluatePolicy (env\<lparr>sv_current := \<lambda>s t. Inr c\<rparr>) p")
  show ?case
  proof (cases r)
    case None
    with ev evaluatePolicy_idle [of "env\<lparr>sv_current := \<lambda>s t. Inr c\<rparr>" p p' e] Cons.IH [OF ok(1), of p c] Cons.prems(2) show ?thesis by simp
  next
    case (Some d)
    have d: "p' = p\<lparr>sc_LastScaleTime := sv_done env\<rparr>" "sc_CooldownPeriod p \<le> sv_now env - sc_LastScaleTime p"
      using evaluatePolicy_scaled [OF ev [unfolded Some]] by auto
    have "sc_LastScaleTime p + sc_CooldownPeriod p \<le> sv_done env" using d(2) ok(2) by linarith
    moreover have "controlLoop (env # envs) p c = (sv_done env, d) # controlLoop envs p' d" using ev Some by simp
    moreover from Cons.IH [OF ok(1), of p' d] Cons.prems(2)
    have "sorted_wrt (\<lambda>a b. fst a + sc_CooldownPeriod p \<le> fst b) (controlLoop envs p' d)"
      "\<forall>a \<in> set (controlLoop envs p' d). sv_done env + sc_CooldownPeriod p \<le> fst a" using d(1) by simp_all
    ultimately show ?thesis using Cons.prems(2) by fastforce
  qed
qed simp

section \<open>Properties\<close>

text \<open>
  A service that starts between its minimal and its maximal number of replicas stays there under every
  sequence of evaluations, whatever the metrics say, including errors and division by a zero threshold; and two
  scalings are never closer to each other than the cooldown period.
\<close>

theorem replicas_stay_in_range:
  assumes "sc_MinReplicas p \<le> c" "c \<le> sc_MaxReplicas p" "clock_ok envs" "0 \<le> sc_CooldownPeriod p"
  shows "(\<forall>(t, d) \<in> set (controlLoop envs p c). sc_MinReplicas p \<le> d \<and> d \<le> sc_MaxReplicas p) \<and>
    sorted_wrt (\<lambda>a b. fst a + sc_CooldownPeriod p \<le> fst b) (controlLoop envs p c)"
  using controlLoop_range [OF assms(1,2), of envs] controlLoop_cooldown [OF assms(3,4), of c] by simp

definition webPolicy :: ScalingPolicy where
  "webPolicy = \<lparr>sc_ID = ''p'', sc_ServiceID = ''web'', sc_TenantID = ''t'', sc_MinReplicas = 1, sc_MaxReplicas = 4, sc_ScaleUpThreshold = 1,
     sc_ScaleDownThreshold = 1/2, sc_Metrics = [\<lparr>mf_Name = ''cpu'', mf_Type = ''cpu'', mf_Threshold = 20, mf_Weight = 1\<rparr>],
     sc_CooldownPeriod = 10, sc_LastScaleTime = 0, sc_Enabled = True\<rparr>"

definition tick :: "int \<Rightarrow> scale_env" where
  "tick t = \<lparr>sv_now = t, sv_metric = prom_GetMetric, sv_current = k8s_GetCurrentReplicas, sv_scale = k8s_Scale, sv_done = t + 1\<rparr>"

theorem replicas_stay_in_range_witness:
  "controlLoop [tick 10, tick 15, tick 30] webPolicy 3 = [(11, 4)] \<and>
   list_all (\<lambda>(t, d). 1 \<le> d \<and> d \<le> 4) (controlLoop [tick 10, tick 15, tick 30] webPolicy 3)"
proof
  show "controlLoop [tick 10, tick 15, tick 30] webPolicy 3 = [(11, 4)]" by code_simp
  have "clock_ok [tick 10, tick 15, tick 30]" by (simp add: clock_ok_def tick_def)
  then show "list_all (\<lambda>(t, d). 1 \<le> d \<and> d \<le> 4) (controlLoop [tick 10, tick 15, tick 30] webPolicy 3)"
    using replicas_stay_in_range [of webPolicy 3 "[tick 10, tick 15, tick 30]"] by (simp add: webPolicy_def list_all_iff)
qed

text \<open>The bounds are enforced by a scaling only: below the minimum, a load between the thresholds changes nothing.\<close>

lemma below_minimum_stays:
  "\<not> fl_less (Fin (sc_ScaleUpThreshold p)) s \<Longrightarrow> \<not> fl_less s (Fin (sc_ScaleDownThreshold p)) \<Longrightarrow> desiredReplicas p c s = None"
  by (simp add: desiredReplicas_def)

text \<open>The history of a service is the last hundred loads recorded for it.\<close>

lemma RecordLoad_history:
  "get_list (fold (\<lambda>l h. RecordLoad h sv l) loads history) sv =
     drop (length (get_list history sv @ loads) - 100) (get_list history sv @ loads)"
  if "length (get_list history sv) \<le> 100"
  using that
proof (induction loads arbitrary: history)
  case (Cons l loads)
  let ?h = "RecordLoad history sv l"
  have h: "get_list ?h sv = drop (length (get_list history sv @ [l]) - 100) (get_list history sv @ [l])"
    by (simp add: RecordLoad_def get_list_def Let_def)
  have "length (get_list ?h sv) \<le> 100" by (simp add: h)
  from Cons.IH [OF this] h Cons.prems show ?case
    by (cases "length (get_list history sv) = 100") (auto simp: min_def)
qed simp

end
