(* ===== verification/Ab_Test.thy ===== *)
theory Ab_Test
  imports Go_Prelude "HOL-Library.Word"
begin

unbundle bit_operations_syntax

text \<open>
  A/B tests between two models, \<open>pkg/abtest\<close>. The choice for a run hashes its identifier with 64-bit FNV-1a
  (\<open>hash/fnv\<close>), computed here on \<open>64 word\<close> with its wrap-around; the split is a rational. Tests in the store are shared by
  pointer, so \<open>SetActive\<close> acts on the stored one.
\<close>

section \<open>FNV-1a\<close>

definition fnv1a :: "string \<Rightarrow> 64 word" where
  "fnv1a s = fold (\<lambda>c h. (h XOR word_of_nat (of_char c)) * 1099511628211) s 14695981039346656037"

section \<open>Selector\<close>

record ABTest =
  ab_ID :: string
  ab_ModelA :: string
  ab_ModelB :: string
  ab_TrafficSplit :: rat
  ab_Active :: bool

definition runBucket :: "string \<Rightarrow> nat" where
  "runBucket runID = unat (fnv1a runID mod 10000)"

definition SelectModel :: "ABTest option \<Rightarrow> string \<Rightarrow> string" where
  "SelectModel test runID =
     (case test of
        None \<Rightarrow> []
      | Some t \<Rightarrow>
          if \<not> ab_Active t then []
          else if ab_TrafficSplit t \<le> 0 then ab_ModelB t
          else if ab_TrafficSplit t \<ge> 1 then ab_ModelA t
          else if of_nat (runBucket runID) / 10000 < ab_TrafficSplit t then ab_ModelA t
          else ab_ModelB t)"

definition ModelChosen :: "ABTest \<Rightarrow> string \<Rightarrow> string" where
  "ModelChosen test chosen = (if chosen = ab_ModelA test then ''model_a'' else ''model_b'')"

section \<open>Store\<close>

type_synonym ab_store = "ABTest smap"

definition ab_Create :: "ab_store \<Rightarrow> string \<Rightarrow> string \<Rightarrow> string \<Rightarrow> string \<Rightarrow> rat \<Rightarrow> ab_store \<times> ABTest" where
  "ab_Create s uuid name modelA modelB trafficSplit =
     (let t = \<lparr>ab_ID = uuid, ab_ModelA = modelA, ab_ModelB = modelB, ab_TrafficSplit = trafficSplit, ab_Active = True\<rparr>
      in (AList.update uuid t s, t))"

definition ab_Get :: "ab_store \<Rightarrow> string \<Rightarrow> ABTest option" where
  "ab_Get s i = map_of s i"

definition ab_List :: "ab_store \<Rightarrow> ABTest list" where
  "ab_List s = map snd s"

definition SetActive :: "ab_store \<Rightarrow> string \<Rightarrow> bool \<Rightarrow> ab_store" where
  "SetActive s i active = (case map_of s i of None \<Rightarrow> s | Some t \<Rightarrow> AList.update i (t\<lparr>ab_Active := active\<rparr>) s)"

section \<open>Facts\<close>

text \<open>The published test vectors of FNV-1a.\<close>

lemma fnv1a_vectors:
  "fnv1a [] = 0xcbf29ce484222325" "fnv1a ''a'' = 0xaf63dc4c8601ec8c" "fnv1a ''foobar'' = 0x85944171f73967e8"
  by (simp_all add: fnv1a_def of_char_def)

lemma runBucket_range: "runBucket runID < 10000"
proof -
  have "fnv1a runID mod 10000 < 10000" by (rule word_mod_less_divisor) simp
  then have "unat (fnv1a runID mod 10000) < unat (10000 :: 64 word)" by (simp add: word_less_nat_alt)
  then show ?thesis by (simp add: runBucket_def)
qed

text \<open>An integer lies below a rational exactly when it lies below its ceiling.\<close>

lemma bucket_below: "(of_nat v / 10000 < (q :: rat)) \<longleftrightarrow> int v < \<lceil>q * 10000\<rceil>"
  by (simp add: divide_less_eq less_ceiling_iff)

lemma card_below: "n \<le> 10000 \<Longrightarrow> card {b. b < 10000 \<and> int b < n} = nat n" for n :: int
proof -
  assume "n \<le> 10000"
  then have "{b. b < 10000 \<and> int b < n} = {..< nat n}" by auto
  then show ?thesis by simp
qed

section \<open>Properties\<close>

text \<open>
  The traffic split is exact and stable: an active test with a split strictly between 0 and 1 sends a run to model A exactly when
  its bucket, one of 10000, is among the first \<open>ceil(10000 * split)\<close>, the same for every call with the run; that many of the
  buckets go to A; and raising the split never moves a run from A to B.
\<close>

theorem SelectModel_split:
  assumes "ab_Active t" "0 < ab_TrafficSplit t" "ab_TrafficSplit t < 1"
  shows "SelectModel (Some t) runID = (if int (runBucket runID) < \<lceil>ab_TrafficSplit t * 10000\<rceil> then ab_ModelA t else ab_ModelB t) \<and>
    runBucket runID < 10000 \<and>
    card {b. b < 10000 \<and> int b < \<lceil>ab_TrafficSplit t * 10000\<rceil>} = nat \<lceil>ab_TrafficSplit t * 10000\<rceil> \<and>
    (ab_TrafficSplit t \<le> s \<and> int (runBucket runID) < \<lceil>ab_TrafficSplit t * 10000\<rceil> \<longrightarrow>
       SelectModel (Some (t\<lparr>ab_TrafficSplit := s\<rparr>)) runID = ab_ModelA t)"
proof -
  let ?n = "\<lceil>ab_TrafficSplit t * 10000\<rceil>"
  have "?n \<le> 10000" using assms(3) by (simp add: ceiling_le_iff)
  then have "card {b. b < 10000 \<and> int b < ?n} = nat ?n" by (rule card_below)
  moreover have "SelectModel (Some (t\<lparr>ab_TrafficSplit := s\<rparr>)) runID = ab_ModelA t"
    if "ab_TrafficSplit t \<le> s" "int (runBucket runID) < ?n"
  proof -
    have "of_nat (runBucket runID) / 10000 < ab_TrafficSplit t" using that(2) bucket_below [of "runBucket runID" "ab_TrafficSplit t"] by simp
    with that(1) assms(1,2) show ?thesis by (simp add: SelectModel_def)
  qed
  ultimately show ?thesis
    using assms runBucket_range [of runID] bucket_below [of "runBucket runID" "ab_TrafficSplit t"] by (simp add: SelectModel_def)
qed

theorem SelectModel_split_witness:
  "SelectModel (Some \<lparr>ab_ID = ''x'', ab_ModelA = ''m1'', ab_ModelB = ''m2'', ab_TrafficSplit = 1/4, ab_Active = True\<rparr>) ''a'' = ''m1'' \<and>
   card {b. b < 10000 \<and> int b < 2500} = (2500 :: nat)"
proof -
  have "fnv1a ''a'' mod 10000 = 1996"
    unfolding fnv1a_vectors(2) by simp
  then have b: "runBucket ''a'' = 1996" by (simp add: runBucket_def)
  show ?thesis
    using SelectModel_split [of "\<lparr>ab_ID = ''x'', ab_ModelA = ''m1'', ab_ModelB = ''m2'', ab_TrafficSplit = 1/4, ab_Active = True\<rparr>" "''a''" 1] b
    by simp
qed

end
