(* ===== verification/Auth_Session.thy ===== *)
theory Auth_Session
  imports Go_Prelude
begin

text \<open>
  Authentication, \<open>pkg/auth\<close>: the session table and its manager (\<open>session.go\<close>), the request middlewares
  (\<open>middleware.go\<close>, \<open>oauth2.go\<close>), the users that the identity providers give (\<open>oauth2.go\<close>, \<open>oidc.go\<close>, \<open>saml.go\<close>) and the check
  of the configuration (\<open>config.go\<close>). Times are nanoseconds, random bytes and the driver's error are arguments, and what the
  OIDC and SAML libraries parsed is a record of the fields the code reads.
\<close>

section \<open>Users and sessions\<close>

record UserInfo =
  ui_ID :: string
  ui_Email :: string
  ui_Name :: string
  ui_Picture :: string
  ui_EmailVerified :: bool
  ui_Provider :: string
  ui_CreatedAt :: int
  ui_Entitlements :: "string list"
  ui_Groups :: "string list"
  ui_RawClaims :: "any smap"

definition zeroUser :: UserInfo where
  "zeroUser = \<lparr>ui_ID = [], ui_Email = [], ui_Name = [], ui_Picture = [], ui_EmailVerified = False, ui_Provider = [], ui_CreatedAt = 0,
     ui_Entitlements = [], ui_Groups = [], ui_RawClaims = []\<rparr>"

record Session =
  se_ID :: string
  se_UserInfo :: "UserInfo option"
  se_Token :: "string option"
  se_CreatedAt :: int
  se_ExpiresAt :: int
  se_LastActivity :: int
  se_IPAddress :: string
  se_UserAgent :: string

definition Valid :: "int \<Rightarrow> Session \<Rightarrow> bool" where
  "Valid now s = (now < se_ExpiresAt s)"

text \<open>A row of the table \<open>sessions\<close> of migration 010; the last two columns may be null.\<close>

record session_row =
  sr_id :: string
  sr_user_id :: string
  sr_user_email :: string
  sr_user_name :: string
  sr_created_at :: int
  sr_expires_at :: int
  sr_last_activity :: int
  sr_ip_address :: "string option"
  sr_user_agent :: "string option"

record SessionManager =
  sm_db :: "session_row list"
  sm_sessionDuration :: int

definition hour :: int where
  "hour = 3600 * 1000000000"

definition NewSessionManager :: "session_row list \<Rightarrow> SessionManager" where
  "NewSessionManager db = \<lparr>sm_db = db, sm_sessionDuration = 24 * hour\<rparr>"

definition SetSessionDuration :: "SessionManager \<Rightarrow> int \<Rightarrow> SessionManager" where
  "SetSessionDuration sm d = sm\<lparr>sm_sessionDuration := d\<rparr>"

definition storeSession :: "SessionManager \<Rightarrow> gerror option \<Rightarrow> Session \<Rightarrow> UserInfo \<Rightarrow> SessionManager \<times> gerror option" where
  "storeSession sm db s u =
     (if db \<noteq> None then (sm, db)
      else if list_ex (\<lambda>r. sr_id r = se_ID s) (sm_db sm) then (sm, Some (Errorf ''UNIQUE constraint failed: sessions.id''))
      else (sm\<lparr>sm_db := sm_db sm @ [\<lparr>sr_id = se_ID s, sr_user_id = ui_ID u, sr_user_email = ui_Email u, sr_user_name = ui_Name u,
              sr_created_at = se_CreatedAt s, sr_expires_at = se_ExpiresAt s, sr_last_activity = se_LastActivity s,
              sr_ip_address = None, sr_user_agent = None\<rparr>]\<rparr>, None))"

text \<open>\<open>rnd\<close> is the answer of \<open>generateSessionID\<close>; the clock is read three times.\<close>

definition CreateSession ::
    "SessionManager \<Rightarrow> gerror + string \<Rightarrow> gerror option \<Rightarrow> int \<Rightarrow> int \<Rightarrow> int \<Rightarrow> UserInfo \<Rightarrow> string option \<Rightarrow> SessionManager \<times> (gerror + Session)" where
  "CreateSession sm rnd db now1 now2 now3 userInfo token =
     (case rnd of
        Inl err \<Rightarrow> (sm, Inl (Wrap ''generate session ID: '' err))
      | Inr sessionID \<Rightarrow>
          (let session = \<lparr>se_ID = sessionID, se_UserInfo = Some userInfo, se_Token = token, se_CreatedAt = now1,
                 se_ExpiresAt = now2 + sm_sessionDuration sm, se_LastActivity = now3, se_IPAddress = [], se_UserAgent = []\<rparr>
           in case storeSession sm db session userInfo of
                (sm', Some err) \<Rightarrow> (sm', Inl (Wrap ''store session: '' err))
              | (sm', None) \<Rightarrow> (sm', Inr session)))"

text \<open>The update of the last activity runs in a goroutine of its own: it is the separate step \<open>updateLastActivity\<close>.\<close>

definition storedUser :: "string \<Rightarrow> string \<Rightarrow> string \<Rightarrow> UserInfo" where
  "storedUser userID userEmail userName = zeroUser\<lparr>ui_ID := userID, ui_Email := userEmail, ui_Name := userName\<rparr>"

definition GetSession :: "SessionManager \<Rightarrow> gerror option \<Rightarrow> int \<Rightarrow> string \<Rightarrow> gerror + Session" where
  "GetSession sm db now sessionID =
     (case db of
        Some err \<Rightarrow> Inl err
      | None \<Rightarrow>
          (case find (\<lambda>r. sr_id r = sessionID \<and> now < sr_expires_at r) (sm_db sm) of
             None \<Rightarrow> Inl (Errorf ''sql: no rows in result set'')
           | Some r \<Rightarrow> Inr \<lparr>se_ID = sessionID,
               se_UserInfo = Some (storedUser (sr_user_id r) (sr_user_email r) (sr_user_name r)), se_Token = None,
               se_CreatedAt = sr_created_at r, se_ExpiresAt = sr_expires_at r, se_LastActivity = sr_last_activity r,
               se_IPAddress = [], se_UserAgent = []\<rparr>))"

definition updateLastActivity :: "SessionManager \<Rightarrow> gerror option \<Rightarrow> int \<Rightarrow> string \<Rightarrow> SessionManager" where
  "updateLastActivity sm db now sessionID =
     (if db \<noteq> None then sm
      else sm\<lparr>sm_db := map (\<lambda>r. if sr_id r = sessionID then r\<lparr>sr_last_activity := now\<rparr> else r) (sm_db sm)\<rparr>)"

definition RevokeSession :: "SessionManager \<Rightarrow> gerror option \<Rightarrow> string \<Rightarrow> SessionManager \<times> gerror option" where
  "RevokeSession sm db sessionID =
     (if db \<noteq> None then (sm, db) else (sm\<lparr>sm_db := filter (\<lambda>r. sr_id r \<noteq> sessionID) (sm_db sm)\<rparr>, None))"

definition RevokeUserSessions :: "SessionManager \<Rightarrow> gerror option \<Rightarrow> string \<Rightarrow> SessionManager \<times> gerror option" where
  "RevokeUserSessions sm db userID =
     (if db \<noteq> None then (sm, db) else (sm\<lparr>sm_db := filter (\<lambda>r. sr_user_id r \<noteq> userID) (sm_db sm)\<rparr>, None))"

text \<open>A null column does not scan into a Go string, and a row that does not scan is skipped.\<close>

definition scanSession :: "session_row \<Rightarrow> Session option" where
  "scanSession r =
     (case (sr_ip_address r, sr_user_agent r) of
        (Some ip, Some agent) \<Rightarrow> Some \<lparr>se_ID = sr_id r, se_UserInfo = None, se_Token = None, se_CreatedAt = sr_created_at r,
           se_ExpiresAt = sr_expires_at r, se_LastActivity = sr_last_activity r, se_IPAddress = ip, se_UserAgent = agent\<rparr>
      | _ \<Rightarrow> None)"

definition ListUserSessions :: "SessionManager \<Rightarrow> gerror option \<Rightarrow> int \<Rightarrow> string \<Rightarrow> gerror + Session list" where
  "ListUserSessions sm db now userID =
     (case db of
        Some err \<Rightarrow> Inl err
      | None \<Rightarrow> Inr (List.map_filter scanSession
          (sort_key (\<lambda>r. - sr_last_activity r) (filter (\<lambda>r. sr_user_id r = userID \<and> now < sr_expires_at r) (sm_db sm)))))"

definition CleanupExpired :: "SessionManager \<Rightarrow> gerror option \<Rightarrow> int \<Rightarrow> SessionManager \<times> (gerror + int)" where
  "CleanupExpired sm db now =
     (case db of
        Some err \<Rightarrow> (sm, Inl err)
      | None \<Rightarrow> (sm\<lparr>sm_db := filter (\<lambda>r. \<not> sr_expires_at r \<le> now) (sm_db sm)\<rparr>,
                 Inr (int (length (filter (\<lambda>r. sr_expires_at r \<le> now) (sm_db sm))))))"

section \<open>Requests and middlewares\<close>

text \<open>
  What the middlewares read of a request. The context value \<open>"user"\<close> is absent, a \<open>*UserInfo\<close>, or a value of some other type with
  a method \<open>GetID\<close>; \<open>UserInfo\<close> has no such method.
\<close>

datatype ctx_user = NoUser | AuthUser UserInfo | Identified string

record request =
  rq_method :: string
  rq_origin :: string
  rq_cookie :: "string option"
  rq_authorization :: string
  rq_user :: ctx_user
  rq_session :: "Session option"

datatype 'r response = HttpError int string | Passed 'r

definition bearer :: string where
  "bearer = ''Bearer ''"

definition extractSessionID :: "'a request_scheme \<Rightarrow> gerror + string" where
  "extractSessionID r =
     (case rq_cookie r of
        Some v \<Rightarrow> Inr v
      | None \<Rightarrow> (let h = rq_authorization r
                 in if h \<noteq> [] \<and> length h > 7 \<and> take 7 h = bearer then Inr (drop 7 h) else Inl (Errorf ''no session ID found'')))"

definition GetUserFromContext :: "'a request_scheme \<Rightarrow> UserInfo option" where
  "GetUserFromContext r = (case rq_user r of AuthUser u \<Rightarrow> Some u | _ \<Rightarrow> None)"

definition contextWithUser :: "'a request_scheme \<Rightarrow> UserInfo option \<Rightarrow> 'a request_scheme" where
  "contextWithUser r u = r\<lparr>rq_user := (case u of None \<Rightarrow> NoUser | Some v \<Rightarrow> AuthUser v)\<rparr>"

definition contextWithSession :: "'a request_scheme \<Rightarrow> Session \<Rightarrow> 'a request_scheme" where
  "contextWithSession r s = r\<lparr>rq_session := Some s\<rparr>"

text \<open>\<open>now1\<close> is the clock inside the query, \<open>now2\<close> the one of \<open>session.Valid\<close>. \<open>AuthMiddleware\<close> of \<open>oauth2.go\<close> has the same body.\<close>

definition RequireAuth :: "SessionManager \<Rightarrow> gerror option \<Rightarrow> int \<Rightarrow> int \<Rightarrow> 'a request_scheme \<Rightarrow> ('a request_scheme) response" where
  "RequireAuth sm db now1 now2 r =
     (case extractSessionID r of
        Inl err \<Rightarrow> HttpError 401 ''Unauthorized''
      | Inr sessionID \<Rightarrow>
          (case GetSession sm db now1 sessionID of
             Inl err \<Rightarrow> HttpError 401 ''Unauthorized''
           | Inr session \<Rightarrow>
               if \<not> Valid now2 session then HttpError 401 ''Unauthorized''
               else Passed (contextWithSession (contextWithUser r (se_UserInfo session)) session)))"

definition OptionalAuth :: "SessionManager \<Rightarrow> gerror option \<Rightarrow> int \<Rightarrow> int \<Rightarrow> 'a request_scheme \<Rightarrow> ('a request_scheme) response" where
  "OptionalAuth sm db now1 now2 r =
     Passed (case extractSessionID r of
        Inl err \<Rightarrow> r
      | Inr sessionID \<Rightarrow>
          (case GetSession sm db now1 sessionID of
             Inl err \<Rightarrow> r
           | Inr session \<Rightarrow>
               if Valid now2 session then contextWithSession (contextWithUser r (se_UserInfo session)) session else r))"

definition RequireRole :: "string \<Rightarrow> 'a request_scheme \<Rightarrow> ('a request_scheme) response" where
  "RequireRole role r = (case GetUserFromContext r of None \<Rightarrow> HttpError 401 ''Unauthorized'' | Some user \<Rightarrow> Passed r)"

text \<open>The headers written, and whether the next handler runs or the preflight is answered with 200.\<close>

definition CORS :: "string list \<Rightarrow> 'a request_scheme \<Rightarrow> string smap \<times> ('a request_scheme) option" where
  "CORS allowedOrigins r =
     ((if list_ex (\<lambda>a. a = ''*'' \<or> a = rq_origin r) allowedOrigins
       then [(''Access-Control-Allow-Origin'', rq_origin r), (''Access-Control-Allow-Methods'', ''GET, POST, PUT, DELETE, OPTIONS''),
             (''Access-Control-Allow-Headers'', ''Content-Type, Authorization''), (''Access-Control-Allow-Credentials'', ''true'')]
       else []),
      if rq_method r = ''OPTIONS'' then None else Some r)"

definition ValidateState :: "string \<Rightarrow> string \<Rightarrow> bool" where
  "ValidateState expected actual = (expected \<noteq> [] \<and> expected = actual)"

section \<open>Identity providers\<close>

record oauth_config =
  oc_ClientID :: string
  oc_ClientSecret :: string
  oc_RedirectURL :: string
  oc_Scopes :: "string list"
  oc_AuthURL :: string
  oc_TokenURL :: string

record OAuth2Config =
  oa_Provider :: string
  oa_ClientID :: string
  oa_ClientSecret :: string
  oa_RedirectURL :: string
  oa_Scopes :: "string list"
  oa_IssuerURL :: string

record OAuth2Provider =
  op_config :: oauth_config
  op_providerURL :: string
  op_name :: string

definition orScopes :: "string list \<Rightarrow> string list \<Rightarrow> string list" where
  "orScopes scopes dflt = (if scopes = [] then dflt else scopes)"

definition NewOAuth2Provider :: "OAuth2Config \<Rightarrow> gerror + OAuth2Provider" where
  "NewOAuth2Provider config =
     (let mk = (\<lambda>scopes auth token. Inr \<lparr>op_config = \<lparr>oc_ClientID = oa_ClientID config, oc_ClientSecret = oa_ClientSecret config,
                  oc_RedirectURL = oa_RedirectURL config, oc_Scopes = scopes, oc_AuthURL = auth, oc_TokenURL = token\<rparr>,
                  op_providerURL = oa_IssuerURL config, op_name = oa_Provider config\<rparr>)
      in if oa_Provider config = ''google''
         then mk (orScopes (oa_Scopes config) [''openid'', ''profile'', ''email''])
                ''https://accounts.google.com/o/oauth2/v2/auth'' ''https://oauth2.googleapis.com/token''
         else if oa_Provider config = ''github''
         then mk (orScopes (oa_Scopes config) [''read:user'', ''user:email''])
                ''https://github.com/login/oauth/authorize'' ''https://github.com/login/oauth/access_token''
         else if oa_Provider config = ''oidc''
         then (if oa_IssuerURL config = [] then Inl (Errorf ''issuer_url required for OIDC provider'')
               else mk (oa_Scopes config) (oa_IssuerURL config @ ''/authorize'') (oa_IssuerURL config @ ''/token''))
         else Inl (Errorf (''unsupported provider: '' @ oa_Provider config)))"

record ClaimsWithEntitlements =
  cl_Email :: string
  cl_EmailVerified :: bool
  cl_Name :: string
  cl_Picture :: string
  cl_Groups :: "string list"
  cl_Roles :: "string list"

definition oidc_GetUserInfo :: "string \<Rightarrow> gerror + ClaimsWithEntitlements \<Rightarrow> gerror + UserInfo" where
  "oidc_GetUserInfo subject parsed =
     (case parsed of
        Inl err \<Rightarrow> Inl (Wrap ''parse claims: '' err)
      | Inr c \<Rightarrow> Inr (zeroUser\<lparr>ui_ID := subject, ui_Email := cl_Email c, ui_EmailVerified := cl_EmailVerified c, ui_Name := cl_Name c,
          ui_Picture := cl_Picture c, ui_Provider := ''oidc'', ui_Entitlements := cl_Groups c @ cl_Roles c, ui_Groups := cl_Groups c\<rparr>))"

record saml_attribute =
  at_Name :: string
  at_FriendlyName :: string
  at_Values :: "string list"

text \<open>An assertion: the subject's name identifier and the attribute statements.\<close>

record saml_assertion =
  as_NameID :: "string option"
  as_Statements :: "saml_attribute list list"

definition named :: "string list \<Rightarrow> saml_attribute \<Rightarrow> bool" where
  "named names a = list_ex (\<lambda>n. at_Name a = n \<or> at_FriendlyName a = n) names"

fun getAttr :: "string list \<Rightarrow> saml_attribute list \<Rightarrow> string" where
  "getAttr names [] = []"
| "getAttr names (a # as) = (if named names a then (case at_Values a of v # vs \<Rightarrow> v | [] \<Rightarrow> getAttr names as) else getAttr names as)"

definition entitlementNames :: "string list" where
  "entitlementNames = [''groups'', ''roles'', ''memberOf'', ''Groups'', ''Roles'', ''http://schemas.xmlsoap.org/ws/2005/05/identity/claims/role'']"

definition entitlements :: "saml_attribute list \<Rightarrow> string list" where
  "entitlements as = concat (map (\<lambda>a. if named entitlementNames a then filter (\<lambda>v. v \<noteq> []) (at_Values a) else []) as)"

definition saml_GetUserInfo :: "int \<Rightarrow> saml_assertion option \<Rightarrow> gerror + UserInfo" where
  "saml_GetUserInfo now assertion =
     (case assertion of
        None \<Rightarrow> Inl (Errorf ''saml: assertion is nil'')
      | Some a \<Rightarrow>
          (let attrs = concat (as_Statements a)
           in Inr (zeroUser\<lparr>ui_Provider := ''saml'', ui_CreatedAt := now,
                ui_ID := (case as_NameID a of None \<Rightarrow> [] | Some v \<Rightarrow> v),
                ui_Email := getAttr [''email'', ''mail'', ''Email'', ''Mail'', ''http://schemas.xmlsoap.org/ws/2005/05/identity/claims/emailaddress''] attrs,
                ui_Name := getAttr [''name'', ''cn'', ''displayName'', ''Name'', ''CN'', ''DisplayName'',
                   ''http://schemas.xmlsoap.org/ws/2005/05/identity/claims/name''] attrs,
                ui_Picture := getAttr [''picture'', ''avatar'', ''thumbnailPhoto''] attrs,
                ui_Entitlements := entitlements attrs, ui_Groups := entitlements attrs\<rparr>)))"

section \<open>Configuration\<close>

record OAuth2ProviderConfig =
  o2_Provider :: string
  o2_ClientID :: string
  o2_ClientSecret :: string
  o2_RedirectURL :: string
  o2_Scopes :: "string list"

record OIDCProviderConfig =
  od_IssuerURL :: string
  od_ClientID :: string
  od_ClientSecret :: string
  od_RedirectURL :: string
  od_Scopes :: "string list"
  od_ClaimMappings :: "string smap"

record SAMLProviderConfig =
  sl_IdPMetadataURL :: string
  sl_IdPMetadataPath :: string
  sl_EntityID :: string
  sl_ACSURL :: string
  sl_CertificatePath :: string
  sl_KeyPath :: string
  sl_AttributeMappings :: "string smap"

record AuthProvider =
  ap_ID :: string
  ap_Type :: string
  ap_Priority :: int
  ap_OAuth2 :: "OAuth2ProviderConfig option"
  ap_OIDC :: "OIDCProviderConfig option"
  ap_SAML :: "SAMLProviderConfig option"

record AuthConfig =
  ac_Enabled :: bool
  ac_Providers :: "AuthProvider list"

definition validateProvider :: "nat \<Rightarrow> AuthProvider \<Rightarrow> gerror option" where
  "validateProvider i p =
     (let fail = (\<lambda>what. Some (Errorf (''auth: provider '' @ ap_ID p @ what)))
      in if ap_Type p = [] then Some (Errorf (''auth: provider '' @ itoa (int i) @ '': type is required''))
         else if ap_Type p = ''oauth2''
         then (case ap_OAuth2 p of
                 None \<Rightarrow> fail '': oauth2 config required''
               | Some o2 \<Rightarrow> if o2_ClientID o2 = [] \<or> o2_ClientSecret o2 = [] \<or> o2_RedirectURL o2 = []
                           then fail '': oauth2 client_id, client_secret, redirect_url required'' else None)
         else if ap_Type p = ''oidc''
         then (case ap_OIDC p of
                 None \<Rightarrow> fail '': oidc config required''
               | Some od \<Rightarrow> if od_IssuerURL od = [] \<or> od_ClientID od = [] \<or> od_ClientSecret od = [] \<or> od_RedirectURL od = []
                           then fail '': oidc issuer_url, client_id, client_secret, redirect_url required'' else None)
         else if ap_Type p = ''saml''
         then (case ap_SAML p of
                 None \<Rightarrow> fail '': saml config required''
               | Some sl \<Rightarrow> if sl_IdPMetadataURL sl = [] \<and> sl_IdPMetadataPath sl = [] \<or> sl_ACSURL sl = [] \<or> sl_CertificatePath sl = [] \<or> sl_KeyPath sl = []
                           then fail '': saml requires idp_metadata_url or idp_metadata_path, acs_url, certificate_path, key_path'' else None)
         else fail ('': unsupported type '' @ [CHR 0x22] @ ap_Type p @ [CHR 0x22]))"

fun validateProviders :: "nat \<Rightarrow> AuthProvider list \<Rightarrow> gerror option" where
  "validateProviders i [] = None"
| "validateProviders i (p # ps) = (case validateProvider i p of None \<Rightarrow> validateProviders (Suc i) ps | Some err \<Rightarrow> Some err)"

definition auth_Validate :: "AuthConfig \<Rightarrow> gerror option" where
  "auth_Validate c =
     (if \<not> ac_Enabled c then None
      else if ac_Providers c = [] then Some (Errorf ''auth: at least one provider required when enabled'')
      else validateProviders 0 (ac_Providers c))"

section \<open>The sessions as a map\<close>

text \<open>What the table promises: an identifier stands for the user it was created for, until a time.\<close>

type_synonym session_map = "string \<rightharpoonup> (string \<times> string \<times> string \<times> int)"

definition sessionEntry :: "session_row \<Rightarrow> string \<times> (string \<times> string \<times> string \<times> int)" where
  "sessionEntry r = (sr_id r, sr_user_id r, sr_user_email r, sr_user_name r, sr_expires_at r)"

definition sessionsOf :: "SessionManager \<Rightarrow> session_map" where
  "sessionsOf sm = map_of (map sessionEntry (sm_db sm))"

definition session_inv :: "SessionManager \<Rightarrow> bool" where
  "session_inv sm = distinct (map sr_id (sm_db sm))"

datatype sessionOp =
    SCreate string "gerror option" int UserInfo
  | STouch "gerror option" int string
  | SRevoke "gerror option" string
  | SRevokeUser "gerror option" string
  | SCleanup "gerror option" int

fun sessionStep :: "sessionOp \<Rightarrow> SessionManager \<Rightarrow> SessionManager" where
  "sessionStep (SCreate i db now u) sm = fst (CreateSession sm (Inr i) db now now now u None)"
| "sessionStep (STouch db now i) sm = updateLastActivity sm db now i"
| "sessionStep (SRevoke db i) sm = fst (RevokeSession sm db i)"
| "sessionStep (SRevokeUser db u) sm = fst (RevokeUserSessions sm db u)"
| "sessionStep (SCleanup db now) sm = fst (CleanupExpired sm db now)"

text \<open>The same operations on the map; a failed statement changes nothing, a taken identifier is refused.\<close>

definition restrictSessions :: "(string \<times> string \<times> string \<times> int \<Rightarrow> bool) \<Rightarrow> session_map \<Rightarrow> session_map" where
  "restrictSessions keep m = (\<lambda>i. case m i of None \<Rightarrow> None | Some v \<Rightarrow> if keep v then Some v else None)"

fun sessionSpec :: "int \<Rightarrow> sessionOp \<Rightarrow> session_map \<Rightarrow> session_map" where
  "sessionSpec d (SCreate i db now u) m =
     (if db = None \<and> m i = None then m(i \<mapsto> (ui_ID u, ui_Email u, ui_Name u, now + d)) else m)"
| "sessionSpec d (STouch db now i) m = m"
| "sessionSpec d (SRevoke db i) m = (if db = None then m(i := None) else m)"
| "sessionSpec d (SRevokeUser db u) m = (if db = None then restrictSessions (\<lambda>(v, _). v \<noteq> u) m else m)"
| "sessionSpec d (SCleanup db now) m = (if db = None then restrictSessions (\<lambda>(_, _, _, x). now < x) m else m)"

lemma sessionEntry_sel [simp]: "fst (sessionEntry r) = sr_id r"
  by (simp add: sessionEntry_def)

lemma sessionsOf_None: "sessionsOf sm i = None \<longleftrightarrow> i \<notin> sr_id ` set (sm_db sm)"
  by (simp add: sessionsOf_def map_of_eq_None_iff image_image)

lemma map_of_entries_filter:
  "distinct (map sr_id rs) \<Longrightarrow> map_of (map sessionEntry (filter (\<lambda>r. keep (snd (sessionEntry r))) rs)) = restrictSessions keep (map_of (map sessionEntry rs))"
proof (induction rs)
  case Nil
  show ?case by (simp add: restrictSessions_def)
next
  case (Cons r rs)
  from Cons.prems have "map_of (map sessionEntry rs) (sr_id r) = None" by (simp add: map_of_eq_None_iff image_image)
  moreover obtain v where "sessionEntry r = (sr_id r, v)" by (simp add: sessionEntry_def)
  ultimately show ?case using Cons by (auto simp: restrictSessions_def fun_eq_iff)
qed

lemma session_inv_step: "session_inv sm \<Longrightarrow> session_inv (sessionStep op sm)"
proof (cases op)
  case (STouch db now i)
  assume "session_inv sm"
  moreover have "map sr_id (map (\<lambda>r. if sr_id r = i then r\<lparr>sr_last_activity := now\<rparr> else r) rs) = map sr_id rs" for rs :: "session_row list"
    by (induction rs) auto
  ultimately show ?thesis by (simp add: STouch session_inv_def updateLastActivity_def del: map_map)
qed (auto simp: session_inv_def CreateSession_def storeSession_def Let_def RevokeSession_def RevokeUserSessions_def CleanupExpired_def list_ex_iff
    distinct_map_filter split: option.splits)

lemma sessionStep_duration [simp]: "sm_sessionDuration (sessionStep op sm) = sm_sessionDuration sm"
  by (cases op) (auto simp: CreateSession_def storeSession_def updateLastActivity_def Let_def RevokeSession_def RevokeUserSessions_def CleanupExpired_def
      split: option.splits)

lemma sessionStep_refines:
  assumes "session_inv sm"
  shows "sessionsOf (sessionStep op sm) = sessionSpec (sm_sessionDuration sm) op (sessionsOf sm)"
proof (cases op)
  case (SCreate i db now u)
  have "map_of (map sessionEntry rs @ [(k, v)]) = (map_of (map sessionEntry rs))(k \<mapsto> v)" if "k \<notin> sr_id ` set rs" for rs k v
    using that by (subst map_of_snoc) (simp_all add: image_image)
  then show ?thesis
    using sessionsOf_None [of sm i]
    by (auto simp: SCreate CreateSession_def storeSession_def Let_def list_ex_iff sessionsOf_def sessionEntry_def image_iff)
next
  case (STouch db now i)
  have "map sessionEntry (map (\<lambda>r. if sr_id r = i then r\<lparr>sr_last_activity := now\<rparr> else r) rs) = map sessionEntry rs" for rs :: "session_row list"
    by (induction rs) (auto simp: sessionEntry_def)
  then show ?thesis by (simp add: STouch updateLastActivity_def sessionsOf_def del: map_map)
next
  case (SRevoke db i)
  have "map_of (map sessionEntry (filter (\<lambda>r. sr_id r \<noteq> i) rs)) = (map_of (map sessionEntry rs))(i := None)" for rs
    by (induction rs) (auto simp: sessionEntry_def fun_eq_iff)
  then show ?thesis by (simp add: SRevoke RevokeSession_def sessionsOf_def)
next
  case (SRevokeUser db u)
  show ?thesis
    using map_of_entries_filter [of "sm_db sm" "\<lambda>(v, _). v \<noteq> u"] assms
    by (simp add: SRevokeUser RevokeUserSessions_def sessionsOf_def session_inv_def sessionEntry_def)
next
  case (SCleanup db now)
  show ?thesis
    using map_of_entries_filter [of "sm_db sm" "\<lambda>(_, _, _, x). now < x"] assms
    by (cases db) (simp_all add: SCleanup CleanupExpired_def sessionsOf_def session_inv_def sessionEntry_def not_le)
qed

text \<open>Reading a session by identifier and time is reading the map.\<close>

lemma find_by_id:
  assumes "distinct (map sr_id rs)"
  shows "find (\<lambda>r. sr_id r = i \<and> t < sr_expires_at r) rs = Some r \<longleftrightarrow> r \<in> set rs \<and> sr_id r = i \<and> t < sr_expires_at r"
  using assms by (induction rs) (auto simp: image_iff)

lemma sessionsOf_Some:
  assumes "session_inv sm"
  shows "sessionsOf sm i = Some v \<longleftrightarrow> (\<exists>r \<in> set (sm_db sm). sessionEntry r = (i, v))"
proof -
  have "distinct (map fst (map sessionEntry (sm_db sm)))" using assms by (simp add: session_inv_def comp_def)
  then show ?thesis unfolding sessionsOf_def by (subst map_of_eq_Some_iff) (auto simp: image_iff eq_commute)
qed

lemma storedUser_eq [simp]: "storedUser u e n = storedUser u' e' n' \<longleftrightarrow> u = u' \<and> e = e' \<and> n = n'" "ui_ID (storedUser u e n) = u"
  by (simp_all add: storedUser_def zeroUser_def)

lemma GetSession_iff:
  assumes "session_inv sm"
  shows "(\<exists>s. GetSession sm None t i = Inr s \<and> Valid t' s \<and>
             se_UserInfo s = Some (storedUser u e n)) \<longleftrightarrow>
         (\<exists>x. sessionsOf sm i = Some (u, e, n, x) \<and> t < x \<and> t' < x)"
proof (cases "find (\<lambda>r. sr_id r = i \<and> t < sr_expires_at r) (sm_db sm)")
  case None
  then have "\<forall>r \<in> set (sm_db sm). sr_id r = i \<longrightarrow> \<not> t < sr_expires_at r" by (auto simp: find_None_iff)
  with None show ?thesis by (auto simp: GetSession_def sessionsOf_Some [OF assms] sessionEntry_def)
next
  case (Some r)
  with find_by_id [of "sm_db sm" i t r] assms have r: "r \<in> set (sm_db sm)" "sr_id r = i" "t < sr_expires_at r" by (auto simp: session_inv_def)
  then have "sessionsOf sm i = Some (sr_user_id r, sr_user_email r, sr_user_name r, sr_expires_at r)"
    by (auto simp: sessionsOf_Some [OF assms] sessionEntry_def)
  with Some r show ?thesis by (auto simp: GetSession_def Valid_def)
qed

lemma GetSession_user:
  "GetSession sm None t i = Inr s \<Longrightarrow> \<exists>u e n. se_UserInfo s = Some (storedUser u e n)"
  by (auto simp: GetSession_def split: option.splits)

text \<open>The verdict of the middleware over the map: who is let through, and as whom.\<close>

lemma RequireAuth_iff:
  assumes "session_inv sm"
  shows "(\<exists>r'. RequireAuth sm None t t' r = Passed r' \<and> rq_user r' = AuthUser (storedUser u e n)) \<longleftrightarrow>
         (\<exists>i x. extractSessionID r = Inr i \<and> sessionsOf sm i = Some (u, e, n, x) \<and> t < x \<and> t' < x)"
proof (cases "extractSessionID r")
  case (Inr i)
  show ?thesis
  proof (cases "GetSession sm None t i")
    case (Inl err)
    with GetSession_iff [OF assms, of t i t' u e n] Inr show ?thesis by (auto simp: RequireAuth_def)
  next
    case (Inr s)
    with GetSession_user [OF Inr] GetSession_iff [OF assms, of t i t' u e n] \<open>extractSessionID r = Inr i\<close> show ?thesis
      by (auto simp: RequireAuth_def contextWithUser_def contextWithSession_def)
  qed
qed (simp add: RequireAuth_def)

lemma RequireAuth_Passed_user:
  assumes "RequireAuth sm None t t' r = Passed r'"
  obtains u e n where "rq_user r' = AuthUser (storedUser u e n)"
  using assms by (auto simp: RequireAuth_def contextWithUser_def contextWithSession_def split: sum.splits if_splits dest: GetSession_user)

lemma session_run:
  "session_inv sm \<Longrightarrow> session_inv (fold sessionStep ops sm) \<and>
     sessionsOf (fold sessionStep ops sm) = fold (sessionSpec (sm_sessionDuration sm)) ops (sessionsOf sm)"
  by (induction ops arbitrary: sm) (simp_all add: session_inv_step sessionStep_refines)

section \<open>Properties\<close>

text \<open>
  C24. Sessions refine a map from identifiers to a user and an expiry time: after any sequence of creations, touches, revocations and
  cleanups, failing statements included, starting from an empty table, the table stands for the map that the abstract
  operations give; the middleware lets a request through as user \<open>u\<close> exactly when the identifier it carries is mapped to \<open>u\<close> and
  both clock readings are before the expiry; after the sessions of a user are revoked no request passes as that user; and a
  cleanup at an earlier time changes no verdict.
\<close>

theorem sessions_refine_map:
  fixes r :: "'a request_scheme"
  assumes "sm = fold sessionStep ops (NewSessionManager [])" "m = fold (sessionSpec (24 * hour)) ops Map.empty"
  shows "sessionsOf sm = m \<and>
    (\<forall>u e n. (\<exists>r'. RequireAuth sm None t t' r = Passed r' \<and> rq_user r' = AuthUser (storedUser u e n)) \<longleftrightarrow>
       (\<exists>i x. extractSessionID r = Inr i \<and> m i = Some (u, e, n, x) \<and> t < x \<and> t' < x)) \<and>
    (\<forall>r' w. RequireAuth (fst (RevokeUserSessions sm None u0)) None t t' r = Passed r' \<and> GetUserFromContext r' = Some w \<longrightarrow> ui_ID w \<noteq> u0) \<and>
    (\<forall>c \<le> t. (\<exists>r'. RequireAuth (fst (CleanupExpired sm None c)) None t t' r = Passed r') \<longleftrightarrow> (\<exists>r'. RequireAuth sm None t t' r = Passed r'))"
proof -
  have inv: "session_inv sm" and m: "sessionsOf sm = m"
    using session_run [of "NewSessionManager []" ops] assms by (simp_all add: session_inv_def NewSessionManager_def sessionsOf_def)
  have pass: "(\<exists>r'. RequireAuth sm1 None t t' r = Passed r') \<longleftrightarrow>
      (\<exists>u e n i x. extractSessionID r = Inr i \<and> sessionsOf sm1 i = Some (u, e, n, x) \<and> t < x \<and> t' < x)" if "session_inv sm1" for sm1
    using RequireAuth_iff [OF that, of t t' r] by (metis RequireAuth_Passed_user)
  have "ui_ID w \<noteq> u0" if "RequireAuth (fst (RevokeUserSessions sm None u0)) None t t' r = Passed r'" "GetUserFromContext r' = Some w" for r' w
  proof -
    let ?sm1 = "sessionStep (SRevokeUser None u0) sm"
    have sm1: "session_inv ?sm1" "sessionsOf ?sm1 = restrictSessions (\<lambda>(v, _). v \<noteq> u0) m"
      using session_inv_step [OF inv, of "SRevokeUser None u0"] sessionStep_refines [OF inv, of "SRevokeUser None u0"] m by simp_all
    have p: "RequireAuth ?sm1 None t t' r = Passed r'" using that(1) by simp
    obtain u e n where u: "rq_user r' = AuthUser (storedUser u e n)" by (rule RequireAuth_Passed_user [OF p])
    with p RequireAuth_iff [OF sm1(1), of t t' r u e n] obtain i x where "sessionsOf ?sm1 i = Some (u, e, n, x)" by blast
    with sm1(2) have "u \<noteq> u0" by (auto simp: restrictSessions_def split: option.splits if_splits)
    with u that(2) show ?thesis by (auto simp: GetUserFromContext_def)
  qed
  moreover have "(\<exists>r'. RequireAuth (fst (CleanupExpired sm None c)) None t t' r = Passed r') \<longleftrightarrow> (\<exists>r'. RequireAuth sm None t t' r = Passed r')"
    if "c \<le> t" for c
    using pass [OF session_inv_step [OF inv, of "SCleanup None c"]] pass [OF inv] sessionStep_refines [OF inv, of "SCleanup None c"] that
    by (fastforce simp: restrictSessions_def split: option.splits if_splits)
  ultimately show ?thesis using m RequireAuth_iff [OF inv, of t t' r] by blast
qed

definition annRequest :: request where
  "annRequest = \<lparr>rq_method = ''GET'', rq_origin = [], rq_cookie = None, rq_authorization = ''Bearer s1'', rq_user = NoUser, rq_session = None\<rparr>"

definition annOps :: "sessionOp list" where
  "annOps = [SCreate ''s1'' None 5 (zeroUser\<lparr>ui_ID := ''ann''\<rparr>), SCreate ''s2'' None 6 (zeroUser\<lparr>ui_ID := ''bob''\<rparr>), SRevoke None ''s2'', SCleanup None 9]"

theorem sessions_refine_map_witness:
  "(\<exists>r'. RequireAuth (fold sessionStep annOps (NewSessionManager [])) None 10 11 annRequest = Passed r' \<and> rq_user r' = AuthUser (storedUser ''ann'' [] []))"
proof -
  have "extractSessionID annRequest = Inr ''s1''" by code_simp
  moreover have "fold (sessionSpec (24 * hour)) annOps Map.empty ''s1'' = Some (''ann'', [], [], 5 + 24 * hour)" by code_simp
  moreover have "10 < 5 + 24 * hour" "11 < 5 + 24 * hour" by code_simp+
  ultimately show ?thesis using sessions_refine_map [OF refl refl, where t = 10 and t' = 11 and r = annRequest and ops = annOps] by blast
qed

lemma null_address_step:
  assumes "list_all (\<lambda>r. sr_ip_address r = None) (sm_db s)"
  shows "list_all (\<lambda>r. sr_ip_address r = None) (sm_db (sessionStep op s))"
proof (cases op)
  case (STouch db now i)
  have "list_all (\<lambda>r. sr_ip_address r = None) (map (\<lambda>r. if sr_id r = i then r\<lparr>sr_last_activity := now\<rparr> else r) rs) \<longleftrightarrow>
      list_all (\<lambda>r. sr_ip_address r = None) rs" for rs :: "session_row list"
    by (induction rs) auto
  with assms show ?thesis by (simp add: STouch updateLastActivity_def del: list.pred_map)
qed (use assms in \<open>auto simp: CreateSession_def storeSession_def Let_def RevokeSession_def RevokeUserSessions_def CleanupExpired_def list_all_iff
    split: option.splits\<close>)

text \<open>
  The list of a user's sessions is always empty: no operation writes the address columns, so no row scans and every one is skipped.
\<close>

lemma ListUserSessions_empty:
  assumes "sm = fold sessionStep ops (NewSessionManager [])"
  shows "ListUserSessions sm None now u = Inr []"
proof -
  have "list_all (\<lambda>r. sr_ip_address r = None) (sm_db sm)"
    unfolding assms by (rule fold_keeps) (simp_all add: null_address_step NewSessionManager_def)
  then have "\<forall>r \<in> set (sm_db sm). scanSession r = None" by (simp add: scanSession_def list_all_iff)
  moreover have "List.map_filter scanSession rs = []" if "\<forall>r \<in> set rs. scanSession r = None" for rs
    using that by (induction rs) (simp_all add: List.map_filter_def)
  ultimately show ?thesis by (simp add: ListUserSessions_def)
qed

end
