(* ===== verification/Tenancy.thy ===== *)
theory Tenancy
  imports Auth_Session
begin

text \<open>
  Multi-tenancy, \<open>pkg/tenancy\<close>: tenants and members in the database (\<open>tenant.go\<close>), roles and permissions (\<open>rbac.go\<close>,
  \<open>advanced_rbac.go\<close>) and the isolation of requests (\<open>isolation.go\<close>). The tables carry the constraints of migration 010; the
  driver's error and whether it enforces foreign keys are arguments. A request is what the middlewares read
  of it, a response the status they write or the request they pass on.
\<close>

section \<open>Roles and permissions\<close>

type_synonym role_table = "string list smap"

definition NewRBACEngine :: role_table where
  "NewRBACEngine =
     [(''owner'', [''read'', ''write'', ''delete'', ''manage_users'', ''manage_roles'', ''manage_tenant'']),
      (''admin'', [''read'', ''write'', ''delete'', ''manage_users'']),
      (''member'', [''read'', ''write'']),
      (''viewer'', [''read''])]"

definition HasPermission :: "role_table \<Rightarrow> string \<Rightarrow> string \<Rightarrow> bool" where
  "HasPermission e role permission = (case map_of e role of None \<Rightarrow> False | Some ps \<Rightarrow> List.member ps permission)"

definition GetRolePermissions :: "role_table \<Rightarrow> string \<Rightarrow> string list" where
  "GetRolePermissions e role = get_list e role"

definition getUserRole :: "string \<Rightarrow> string \<Rightarrow> gerror + string" where
  "getUserRole userID tenantID = Inr ''member''"

definition ValidateAccess :: "role_table \<Rightarrow> string \<Rightarrow> string \<Rightarrow> string \<Rightarrow> gerror option" where
  "ValidateAccess e userID tenantID permission =
     (case getUserRole userID tenantID of
        Inl err \<Rightarrow> Some (Wrap ''get user role: '' err)
      | Inr role \<Rightarrow> if \<not> HasPermission e role permission then Some (Errorf (''permission denied: '' @ permission)) else None)"

definition IsValidRole :: "string \<Rightarrow> bool" where
  "IsValidRole role = List.member [''owner'', ''admin'', ''member'', ''viewer''] role"

record RoleTemplate =
  rt_ID :: string
  rt_Name :: string
  rt_BaseRole :: string
  rt_ExtraPerms :: "string list"
  rt_RevokedPerms :: "string list"
  rt_Description :: string

record AdvancedRBAC =
  av_engine :: role_table
  av_templates :: "RoleTemplate smap"

definition NewAdvancedRBAC :: AdvancedRBAC where
  "NewAdvancedRBAC = \<lparr>av_engine = NewRBACEngine, av_templates = []\<rparr>"

definition RegisterRoleTemplate :: "AdvancedRBAC \<Rightarrow> RoleTemplate \<Rightarrow> AdvancedRBAC" where
  "RegisterRoleTemplate a t = a\<lparr>av_templates := AList.update (rt_Name t) t (av_templates a)\<rparr>"

text \<open>The permissions as a set: base, minus the revoked ones, plus the extra ones, in the order of insertion.\<close>

definition permSet :: "string list \<Rightarrow> string list \<Rightarrow> string list \<Rightarrow> string list" where
  "permSet base revoked extra =
     (let s1 = remdups base; s2 = filter (\<lambda>p. p \<notin> set revoked) s1
      in s2 @ remdups (filter (\<lambda>p. p \<notin> set s2) extra))"

definition GetEffectiveRole :: "AdvancedRBAC \<Rightarrow> string \<Rightarrow> string \<times> string list" where
  "GetEffectiveRole a roleName =
     (case map_of (av_templates a) roleName of
        Some t \<Rightarrow> (rt_BaseRole t, permSet (get_list (av_engine a) (rt_BaseRole t)) (rt_RevokedPerms t) (rt_ExtraPerms t))
      | None \<Rightarrow> if IsValidRole roleName then (roleName, get_list (av_engine a) roleName)
                else (''member'', get_list (av_engine a) ''member''))"

definition HasPermissionWithTemplate :: "AdvancedRBAC \<Rightarrow> string \<Rightarrow> string \<Rightarrow> bool" where
  "HasPermissionWithTemplate a roleName permission = List.member (snd (GetEffectiveRole a roleName)) permission"

text \<open>\<open>store\<close> is \<open>DelegationStore.GetActiveDelegation\<close>, \<open>None\<close> for a nil store; it tells whether a delegation was found.\<close>

definition ValidateAccessWithDelegation ::
    "AdvancedRBAC \<Rightarrow> (string \<Rightarrow> string \<Rightarrow> string \<Rightarrow> gerror + bool) option \<Rightarrow> string \<Rightarrow> string \<Rightarrow> string \<Rightarrow> gerror option" where
  "ValidateAccessWithDelegation a store userID tenantID permission =
     (if ValidateAccess (av_engine a) userID tenantID permission = None then None
      else (case store of
              None \<Rightarrow> Some (Errorf ''permission denied'')
            | Some getActive \<Rightarrow> (case getActive tenantID userID permission of
                              Inr True \<Rightarrow> None
                            | _ \<Rightarrow> Some (Errorf ''permission denied''))))"

section \<open>The tenant tables\<close>

record Tenant =
  tn_ID :: string
  tn_Name :: string
  tn_DisplayName :: string
  tn_CreatedAt :: int
  tn_UpdatedAt :: int
  tn_Settings :: "any smap"
  tn_Active :: bool

record TenantMember =
  tm_TenantID :: string
  tm_UserID :: string
  tm_Role :: string
  tm_JoinedAt :: int

record TenantManager =
  td_tenants :: "Tenant list"
  td_members :: "TenantMember list"

definition generateTenantID :: "int \<Rightarrow> string" where
  "generateTenantID now = ''tenant-'' @ itoa now"

text \<open>
  A row keeps the identifier, the names and the creation time; the columns for the settings always hold an empty object, so a tenant
  read back has the zero update time, no settings, and \<open>Active\<close> only where the code sets it. Rows written by these operations always
  scan; the three clock readings of \<open>CreateTenant\<close> are arguments.
\<close>

definition scanTenant :: "Tenant \<Rightarrow> Tenant" where
  "scanTenant t = t\<lparr>tn_UpdatedAt := 0, tn_Settings := [], tn_Active := False\<rparr>"

definition constraint :: gerror where
  "constraint = Errorf ''constraint failed''"

definition CreateTenant :: "TenantManager \<Rightarrow> gerror option \<Rightarrow> int \<Rightarrow> int \<Rightarrow> int \<Rightarrow> string \<Rightarrow> string \<Rightarrow> TenantManager \<times> (gerror + Tenant)" where
  "CreateTenant s db now now1 now2 name displayName =
     (let t = \<lparr>tn_ID = generateTenantID now, tn_Name = name, tn_DisplayName = displayName, tn_CreatedAt = now1, tn_UpdatedAt = now2,
                tn_Settings = [], tn_Active = True\<rparr>
      in case (if db \<noteq> None then db else if list_ex (\<lambda>u. tn_ID u = tn_ID t \<or> tn_Name u = name) (td_tenants s) then Some constraint else None) of
           Some err \<Rightarrow> (s, Inl (Wrap ''create tenant: '' err))
         | None \<Rightarrow> (s\<lparr>td_tenants := td_tenants s @ [t]\<rparr>, Inr t))"

definition GetTenant :: "TenantManager \<Rightarrow> gerror option \<Rightarrow> string \<Rightarrow> gerror + Tenant" where
  "GetTenant s db tenantID =
     (case db of
        Some err \<Rightarrow> Inl err
      | None \<Rightarrow> (case find (\<lambda>t. tn_ID t = tenantID) (td_tenants s) of
                   None \<Rightarrow> Inl (Errorf ''sql: no rows in result set'')
                 | Some t \<Rightarrow> Inr ((scanTenant t)\<lparr>tn_Active := True\<rparr>)))"

definition GetTenantByName :: "TenantManager \<Rightarrow> gerror option \<Rightarrow> string \<Rightarrow> gerror + Tenant" where
  "GetTenantByName s db name =
     (case db of
        Some err \<Rightarrow> Inl err
      | None \<Rightarrow> (case find (\<lambda>t. tn_Name t = name) (td_tenants s) of
                   None \<Rightarrow> Inl (Errorf ''sql: no rows in result set'')
                 | Some t \<Rightarrow> Inr (scanTenant t)))"

definition ListTenants :: "TenantManager \<Rightarrow> gerror option \<Rightarrow> int \<Rightarrow> gerror + Tenant list" where
  "ListTenants s db limit =
     (case db of
        Some err \<Rightarrow> Inl err
      | None \<Rightarrow> (let rows = map scanTenant (sort_key (\<lambda>t. - tn_CreatedAt t) (td_tenants s))
                 in if limit < 0 then Inl (Errorf ''panic: makeslice: cap out of range'') else Inr (take (nat limit) rows)))"

definition UpdateTenant :: "TenantManager \<Rightarrow> gerror option \<Rightarrow> Tenant \<Rightarrow> TenantManager \<times> gerror option" where
  "UpdateTenant s db t =
     (case db of
        Some err \<Rightarrow> (s, Some err)
      | None \<Rightarrow> (s\<lparr>td_tenants := map (\<lambda>u. if tn_ID u = tn_ID t then u\<lparr>tn_DisplayName := tn_DisplayName t\<rparr> else u) (td_tenants s)\<rparr>, None))"

definition DeleteTenant :: "bool \<Rightarrow> TenantManager \<Rightarrow> gerror option \<Rightarrow> string \<Rightarrow> TenantManager \<times> gerror option" where
  "DeleteTenant fk s db tenantID =
     (case db of
        Some err \<Rightarrow> (s, Some err)
      | None \<Rightarrow> (s\<lparr>td_tenants := filter (\<lambda>t. tn_ID t \<noteq> tenantID) (td_tenants s),
                   td_members := (if fk then filter (\<lambda>m. tm_TenantID m \<noteq> tenantID) (td_members s) else td_members s)\<rparr>, None))"

definition AddMember :: "bool \<Rightarrow> TenantManager \<Rightarrow> gerror option \<Rightarrow> int \<Rightarrow> string \<Rightarrow> string \<Rightarrow> string \<Rightarrow> TenantManager \<times> gerror option" where
  "AddMember fk s db now tenantID userID role =
     (if db \<noteq> None then (s, db)
      else if \<not> IsValidRole role \<or> list_ex (\<lambda>m. tm_TenantID m = tenantID \<and> tm_UserID m = userID) (td_members s) \<or>
              (fk \<and> \<not> list_ex (\<lambda>t. tn_ID t = tenantID) (td_tenants s))
      then (s, Some constraint)
      else (s\<lparr>td_members := td_members s @ [\<lparr>tm_TenantID = tenantID, tm_UserID = userID, tm_Role = role, tm_JoinedAt = now\<rparr>]\<rparr>, None))"

definition RemoveMember :: "TenantManager \<Rightarrow> gerror option \<Rightarrow> string \<Rightarrow> string \<Rightarrow> TenantManager \<times> gerror option" where
  "RemoveMember s db tenantID userID =
     (case db of
        Some err \<Rightarrow> (s, Some err)
      | None \<Rightarrow> (s\<lparr>td_members := filter (\<lambda>m. \<not> (tm_TenantID m = tenantID \<and> tm_UserID m = userID)) (td_members s)\<rparr>, None))"

definition ListMembers :: "TenantManager \<Rightarrow> gerror option \<Rightarrow> string \<Rightarrow> gerror + TenantMember list" where
  "ListMembers s db tenantID =
     (case db of
        Some err \<Rightarrow> Inl err
      | None \<Rightarrow> Inr (sort_key tm_JoinedAt (filter (\<lambda>m. tm_TenantID m = tenantID) (td_members s))))"

definition GetUserTenants :: "TenantManager \<Rightarrow> gerror option \<Rightarrow> string \<Rightarrow> gerror + Tenant list" where
  "GetUserTenants s db userID =
     (case db of
        Some err \<Rightarrow> Inl err
      | None \<Rightarrow>
          Inr (sort_key tn_Name (map scanTenant
            (filter (\<lambda>t. list_ex (\<lambda>m. tm_TenantID m = tn_ID t \<and> tm_UserID m = userID) (td_members s)) (td_tenants s)))))"

section \<open>Isolation\<close>

text \<open>
  A request as isolation reads it: one of \<^const>\<open>rq_user\<close>'s package with the tenant header, the query parameter and the tenant of the context.
  The middlewares are written for the bare type; the identifier of the user comes from the method \<open>GetID\<close> only.
\<close>

record trequest = request +
  hq_header :: string
  hq_query :: string
  hq_tenant :: "Tenant option"

definition extractUserID :: "trequest \<Rightarrow> string" where
  "extractUserID r = (case rq_user r of Identified i \<Rightarrow> i | _ \<Rightarrow> [])"

definition extractTenantID :: "trequest \<Rightarrow> string" where
  "extractTenantID r = (if hq_header r \<noteq> [] then hq_header r else if hq_query r \<noteq> [] then hq_query r else [])"

definition hasAccess :: "TenantManager \<Rightarrow> gerror option \<Rightarrow> string \<Rightarrow> string \<Rightarrow> bool" where
  "hasAccess s db userID tenantID =
     (case ListMembers s db tenantID of Inl err \<Rightarrow> False | Inr ms \<Rightarrow> list_ex (\<lambda>m. tm_UserID m = userID) ms)"

definition Isolate :: "TenantManager \<Rightarrow> gerror option \<Rightarrow> gerror option \<Rightarrow> trequest \<Rightarrow> trequest response" where
  "Isolate s db1 db2 r =
     (let tenantID = extractTenantID r
      in if tenantID = [] then HttpError 400 ''Tenant ID required''
         else (case GetTenant s db1 tenantID of
                 Inl err \<Rightarrow> HttpError 404 ''Invalid tenant''
               | Inr tenant \<Rightarrow>
                   if extractUserID r \<noteq> [] \<and> \<not> hasAccess s db2 (extractUserID r) tenantID then HttpError 403 ''Forbidden''
                   else Passed (r\<lparr>hq_tenant := Some tenant\<rparr>)))"

definition CheckPermission :: "role_table \<Rightarrow> string \<Rightarrow> trequest \<Rightarrow> trequest response" where
  "CheckPermission e permission r =
     (case hq_tenant r of
        None \<Rightarrow> HttpError 400 ''No tenant context''
      | Some tenant \<Rightarrow>
          if extractUserID r = [] then HttpError 401 ''No user context''
          else if ValidateAccess e (extractUserID r) (tn_ID tenant) permission \<noteq> None then HttpError 403 ''Forbidden''
          else Passed r)"

definition ValidateTenantAccess :: "trequest \<Rightarrow> string \<Rightarrow> gerror option" where
  "ValidateTenantAccess r resourceTenantID =
     (case hq_tenant r of
        None \<Rightarrow> Some (Errorf ''no tenant in context'')
      | Some t \<Rightarrow> if tn_ID t \<noteq> resourceTenantID then Some (Errorf ''resource belongs to different tenant'') else None)"

definition containsWhere :: "string \<Rightarrow> bool" where
  "containsWhere query = (length query > 0)"

definition ApplyToQuery :: "string \<Rightarrow> string \<Rightarrow> any list \<Rightarrow> string \<times> any list" where
  "ApplyToQuery tenantID query args =
     (if tenantID = [] then (query, args)
      else (query @ (if containsWhere query then '' AND tenant_id = ?'' else '' WHERE tenant_id = ?''), args @ [AStr tenantID]))"

section \<open>Abstract membership\<close>

text \<open>What the tables say: the tenants that exist and who belongs to which.\<close>

definition tenantIDs :: "TenantManager \<Rightarrow> string set" where
  "tenantIDs s = set (map tn_ID (td_tenants s))"

definition memberships :: "TenantManager \<Rightarrow> (string \<times> string) set" where
  "memberships s = set (map (\<lambda>m. (tm_TenantID m, tm_UserID m)) (td_members s))"

datatype tenantOp =
    TCreate "gerror option" int int int string string
  | TUpdate "gerror option" Tenant
  | TDelete "gerror option" string
  | TAdd "gerror option" int string string string
  | TRemove "gerror option" string string

fun tenantStep :: "bool \<Rightarrow> tenantOp \<Rightarrow> TenantManager \<Rightarrow> TenantManager" where
  "tenantStep fk (TCreate db now now1 now2 name display) s = fst (CreateTenant s db now now1 now2 name display)"
| "tenantStep fk (TUpdate db t) s = fst (UpdateTenant s db t)"
| "tenantStep fk (TDelete db i) s = fst (DeleteTenant fk s db i)"
| "tenantStep fk (TAdd db now i u role) s = fst (AddMember fk s db now i u role)"
| "tenantStep fk (TRemove db i u) s = fst (RemoveMember s db i u)"

definition tenant_inv :: "bool \<Rightarrow> TenantManager \<Rightarrow> bool" where
  "tenant_inv fk s = (distinct (map tn_ID (td_tenants s)) \<and> distinct (map (\<lambda>m. (tm_TenantID m, tm_UserID m)) (td_members s)) \<and>
     (\<forall>m \<in> set (td_members s). IsValidRole (tm_Role m)) \<and> (fk \<longrightarrow> fst ` memberships s \<subseteq> tenantIDs s))"

lemma hasAccess_iff: "hasAccess s None u i \<longleftrightarrow> (i, u) \<in> memberships s"
  by (auto simp: hasAccess_def ListMembers_def memberships_def list_ex_iff)

lemma GetTenant_iff: "(\<exists>t. GetTenant s None i = Inr t) \<longleftrightarrow> i \<in> tenantIDs s"
  by (auto simp: GetTenant_def tenantIDs_def find_None_iff find_Some_iff split: option.split)

lemma GetTenant_ID: "GetTenant s None i = Inr t \<Longrightarrow> tn_ID t = i"
  by (auto simp: GetTenant_def find_Some_iff scanTenant_def split: option.splits)

lemma memberships_step:
  "memberships (tenantStep fk op s) =
     (case op of
        TAdd db now i u role \<Rightarrow> if snd (AddMember fk s db now i u role) = None then insert (i, u) (memberships s) else memberships s
      | TRemove db i u \<Rightarrow> if db = None then memberships s - {(i, u)} else memberships s
      | TDelete db i \<Rightarrow> if fk \<and> db = None then memberships s - {i} \<times> UNIV else memberships s
      | _ \<Rightarrow> memberships s)"
  by (cases op) (auto simp: memberships_def AddMember_def RemoveMember_def DeleteTenant_def CreateTenant_def UpdateTenant_def Let_def
      split: option.splits if_splits)

lemma tenant_inv_step: "tenant_inv fk s \<Longrightarrow> tenant_inv fk (tenantStep fk op s)"
proof (cases op)
  case (TCreate db now now1 now2 name display)
  assume "tenant_inv fk s"
  then show ?thesis
    by (auto simp: TCreate tenant_inv_def CreateTenant_def Let_def tenantIDs_def memberships_def list_ex_iff image_image image_subset_iff split: option.splits if_splits)
next
  case (TUpdate db t)
  assume inv: "tenant_inv fk s"
  have "map tn_ID (map (\<lambda>u. if tn_ID u = tn_ID t then u\<lparr>tn_DisplayName := tn_DisplayName t\<rparr> else u) ts) = map tn_ID ts" for ts :: "Tenant list"
    by (induction ts) auto
  with inv show ?thesis
    by (cases db) (simp_all add: TUpdate tenant_inv_def UpdateTenant_def tenantIDs_def memberships_def del: map_map set_map)
next
  case (TDelete db i)
  assume "tenant_inv fk s"
  then show ?thesis
    by (auto simp: TDelete tenant_inv_def DeleteTenant_def tenantIDs_def memberships_def distinct_map_filter image_image image_subset_iff
        split: option.splits)
next
  case (TAdd db now i u role)
  assume "tenant_inv fk s"
  then show ?thesis
    by (auto simp: TAdd tenant_inv_def AddMember_def tenantIDs_def memberships_def list_ex_iff)
next
  case (TRemove db i u)
  assume "tenant_inv fk s"
  then show ?thesis
    by (auto simp: TRemove tenant_inv_def RemoveMember_def tenantIDs_def memberships_def distinct_map_filter image_image image_subset_iff split: option.splits)
qed

section \<open>Properties\<close>

text \<open>
  Isolation refines the membership relation: with the database answering, after any sequence of tenant and member operations, failed
  ones included, the tables stay well formed (unique tenant identifiers and memberships, valid roles and, where the driver enforces foreign keys, every
  member of an existing tenant), and the middleware lets an identified user's request through exactly when the tenant it names exists and has the user as
  a member; what it passes on carries that tenant and no other. No type of the repository identifies a user to the middleware: for the users of
  \<open>RequireAuth\<close> see \<open>session_user_enters_every_tenant\<close>.
\<close>

theorem Isolate_refines_membership:
  assumes "s = fold (tenantStep fk) ops \<lparr>td_tenants = [], td_members = []\<rparr>" "extractUserID r \<noteq> []" "extractTenantID r \<noteq> []"
  shows "tenant_inv fk s \<and>
    ((\<exists>r'. Isolate s None None r = Passed r') \<longleftrightarrow> extractTenantID r \<in> tenantIDs s \<and> (extractTenantID r, extractUserID r) \<in> memberships s) \<and>
    (\<forall>r'. Isolate s None None r = Passed r' \<longrightarrow>
       (\<forall>i. ValidateTenantAccess r' i = None \<longleftrightarrow> i = extractTenantID r) \<and> extractUserID r' = extractUserID r)"
proof -
  have "tenant_inv fk (fold (tenantStep fk) ops s0)" if "tenant_inv fk s0" for s0
    using that by (induction ops arbitrary: s0) (auto intro: tenant_inv_step)
  moreover have "tenant_inv fk \<lparr>td_tenants = [], td_members = []\<rparr>" by (simp add: tenant_inv_def memberships_def tenantIDs_def)
  ultimately have inv: "tenant_inv fk s" unfolding assms(1) by blast
  show ?thesis
  proof (cases "GetTenant s None (extractTenantID r)")
    case (Inl err)
    with GetTenant_iff [of s "extractTenantID r"] have "extractTenantID r \<notin> tenantIDs s" by auto
    with Inl inv assms(2,3) show ?thesis by (simp add: Isolate_def Let_def)
  next
    case (Inr t)
    with GetTenant_iff [of s "extractTenantID r"] have "extractTenantID r \<in> tenantIDs s" by auto
    with Inr GetTenant_ID [OF Inr] inv assms(2,3) show ?thesis
      by (auto simp: Isolate_def Let_def hasAccess_iff ValidateTenantAccess_def extractUserID_def)
  qed
qed

theorem Isolate_refines_membership_witness:
  "(\<exists>r'. Isolate (fold (tenantStep True) [TCreate None 1 1 1 ''acme'' ''Acme'', TAdd None 2 ''tenant-1'' ''ann'' ''viewer'', TAdd None 2 ''tenant-9'' ''bob'' ''viewer'']
       \<lparr>td_tenants = [], td_members = []\<rparr>) None None \<lparr>rq_method = [], rq_origin = [], rq_cookie = None, rq_authorization = [], rq_user = Identified ''ann'', rq_session = None, hq_header = ''tenant-1'', hq_query = [], hq_tenant = None\<rparr> = Passed r') \<and>
   \<not> (\<exists>r'. Isolate (fold (tenantStep True) [TCreate None 1 1 1 ''acme'' ''Acme'', TAdd None 2 ''tenant-1'' ''ann'' ''viewer'', TAdd None 2 ''tenant-9'' ''bob'' ''viewer'']
       \<lparr>td_tenants = [], td_members = []\<rparr>) None None \<lparr>rq_method = [], rq_origin = [], rq_cookie = None, rq_authorization = [], rq_user = Identified ''bob'', rq_session = None, hq_header = ''tenant-1'', hq_query = [], hq_tenant = None\<rparr> = Passed r')"
proof -
  let ?s = "fold (tenantStep True) [TCreate None 1 1 1 ''acme'' ''Acme'', TAdd None 2 ''tenant-1'' ''ann'' ''viewer'', TAdd None 2 ''tenant-9'' ''bob'' ''viewer'']
       \<lparr>td_tenants = [], td_members = []\<rparr>"
  have "(''tenant-1'', ''ann'') \<in> memberships ?s" "(''tenant-1'', ''bob'') \<notin> memberships ?s" "''tenant-1'' \<in> tenantIDs ?s" by code_simp+
  then show ?thesis
    using Isolate_refines_membership [OF refl, of "\<lparr>rq_method = [], rq_origin = [], rq_cookie = None, rq_authorization = [], rq_user = Identified ''ann'', rq_session = None, hq_header = ''tenant-1'', hq_query = [], hq_tenant = None\<rparr>"]
      Isolate_refines_membership [OF refl, of "\<lparr>rq_method = [], rq_origin = [], rq_cookie = None, rq_authorization = [], rq_user = Identified ''bob'', rq_session = None, hq_header = ''tenant-1'', hq_query = [], hq_tenant = None\<rparr>"]
    by (simp add: extractTenantID_def extractUserID_def del: fold.simps)
qed

text \<open>
  The permission check does not see the roles: for a request with a tenant and a user it passes exactly the permissions of a plain member,
  read and write, whatever role the member table gives the user, so that a viewer may write and an owner may not delete.
\<close>

lemma CheckPermission_ignores_roles:
  assumes "hq_tenant r = Some t" "extractUserID r \<noteq> []"
  shows "CheckPermission NewRBACEngine permission r = Passed r \<longleftrightarrow> permission = ''read'' \<or> permission = ''write''"
  using assms by (auto simp: CheckPermission_def ValidateAccess_def getUserRole_def HasPermission_def NewRBACEngine_def)

text \<open>
  Behind the session middleware isolation does not isolate: a request authenticated by a session carries a \<open>*UserInfo\<close>, which has no
  method \<open>GetID\<close>, so isolation sees no user and passes it on to every tenant that exists, whoever its members are; and the permission
  check behind it then refuses every permission with 401.
\<close>

theorem session_user_enters_every_tenant:
  assumes "RequireAuth sm db now1 now2 r = Passed r1" "extractTenantID r \<noteq> []"
  shows "((\<exists>r2. Isolate s None db2 r1 = Passed r2) \<longleftrightarrow> extractTenantID r \<in> tenantIDs s) \<and>
    (\<forall>r2. Isolate s None db2 r1 = Passed r2 \<longrightarrow>
       ValidateTenantAccess r2 (extractTenantID r) = None \<and> CheckPermission e permission r2 = HttpError 401 ''No user context'')"
proof -
  have r1: "extractUserID r1 = []" "extractTenantID r1 = extractTenantID r"
    using assms(1)
    by (auto simp: RequireAuth_def contextWithUser_def contextWithSession_def extractUserID_def extractTenantID_def split: sum.splits if_splits option.splits)
  show ?thesis
  proof (cases "GetTenant s None (extractTenantID r)")
    case (Inl err)
    with GetTenant_iff [of s "extractTenantID r"] r1 assms(2) show ?thesis by (auto simp: Isolate_def Let_def)
  next
    case (Inr t)
    with GetTenant_iff [of s "extractTenantID r"] GetTenant_ID [OF Inr] r1 assms(2) show ?thesis
      by (auto simp: Isolate_def Let_def ValidateTenantAccess_def CheckPermission_def extractUserID_def)
  qed
qed

definition malRequest :: trequest where
  "malRequest = \<lparr>rq_method = ''GET'', rq_origin = [], rq_cookie = Some ''s1'', rq_authorization = [], rq_user = NoUser, rq_session = None,
     hq_header = ''tenant-1'', hq_query = [], hq_tenant = None\<rparr>"

theorem session_user_enters_every_tenant_witness:
  "\<exists>r1 r2. RequireAuth (sessionStep (SCreate ''s1'' None 5 (zeroUser\<lparr>ui_ID := ''mal''\<rparr>)) (NewSessionManager [])) None 10 11 malRequest = Passed r1 \<and>
     Isolate (tenantStep True (TCreate None 1 1 1 ''acme'' ''Acme'') \<lparr>td_tenants = [], td_members = []\<rparr>) None None r1 = Passed r2"
proof -
  let ?sm = "sessionStep (SCreate ''s1'' None 5 (zeroUser\<lparr>ui_ID := ''mal''\<rparr>)) (NewSessionManager [])"
  let ?s = "tenantStep True (TCreate None 1 1 1 ''acme'' ''Acme'') \<lparr>td_tenants = [], td_members = []\<rparr>"
  obtain r1 where r1: "RequireAuth ?sm None 10 11 malRequest = Passed r1"
  proof -
    have "(case RequireAuth ?sm None 10 11 malRequest of Passed r \<Rightarrow> True | _ \<Rightarrow> False)" by code_simp
    with that show thesis by (auto split: response.splits)
  qed
  have "extractTenantID malRequest \<in> tenantIDs ?s" "extractTenantID malRequest \<noteq> []" by code_simp+
  with session_user_enters_every_tenant [OF r1, of ?s None] r1 show ?thesis by blast
qed

end
