(* ===== verification/Audit_Log.thy ===== *)
theory Audit_Log
  imports Go_Prelude
begin

text \<open>
  The encrypted audit log, \<open>pkg/security/audit_encryption.go\<close>: the local key manager with its reader-writer lock, the KMS one, the
  logger, and key rotation. AES-GCM, SHA-256 and base64 are a \<open>cipher\<close> argument whose documented laws are \<open>cipher_ok\<close>; random bytes,
  the clock and the driver's error are arguments. An operation that blocks for ever is the value \<open>None\<close>.
\<close>

section \<open>Encryption\<close>

record cipher =
  gcm_seal :: "string \<Rightarrow> string \<Rightarrow> string \<Rightarrow> string"
  gcm_open :: "string \<Rightarrow> string \<Rightarrow> string \<Rightarrow> string option"
  b64_encode :: "string \<Rightarrow> string"
  b64_decode :: "string \<Rightarrow> string option"
  sha256 :: "string \<Rightarrow> string"

definition nonceSize :: nat where
  "nonceSize = 12"

definition aes_key :: "string \<Rightarrow> bool" where
  "aes_key key = (length key = 16 \<or> length key = 24 \<or> length key = 32)"

definition keySizeError :: gerror where
  "keySizeError = Wrap ''create cipher: '' (Errorf ''crypto/aes: invalid key size'')"

definition encrypt :: "cipher \<Rightarrow> gerror + string \<Rightarrow> string \<Rightarrow> string \<Rightarrow> gerror + string" where
  "encrypt c rnd plaintext key =
     (if \<not> aes_key key then Inl keySizeError
      else (case rnd of
              Inl err \<Rightarrow> Inl (Wrap ''generate nonce: '' err)
            | Inr nonce \<Rightarrow> Inr (b64_encode c (nonce @ gcm_seal c key nonce plaintext))))"

definition decrypt :: "cipher \<Rightarrow> string \<Rightarrow> string \<Rightarrow> gerror + string" where
  "decrypt c ciphertext key =
     (case b64_decode c ciphertext of
        None \<Rightarrow> Inl (Wrap ''decode base64: '' (Errorf ''illegal base64 data''))
      | Some d \<Rightarrow>
          if \<not> aes_key key then Inl keySizeError
          else if length d < nonceSize then Inl (Errorf ''ciphertext too short'')
          else (case gcm_open c key (take nonceSize d) (drop nonceSize d) of
                  None \<Rightarrow> Inl (Wrap ''decrypt: '' (Errorf ''cipher: message authentication failed''))
                | Some p \<Rightarrow> Inr p))"

text \<open>What the packages promise: decoding inverts encoding, and opening inverts sealing under the same key and nonce.\<close>

definition cipher_ok :: "cipher \<Rightarrow> bool" where
  "cipher_ok c = ((\<forall>d. b64_decode c (b64_encode c d) = Some d) \<and> (\<forall>k n p. gcm_open c k n (gcm_seal c k n p) = Some p))"

lemma decrypt_encrypt:
  assumes "cipher_ok c" "length nonce = nonceSize" "encrypt c (Inr nonce) p k = Inr e"
  shows "decrypt c e k = Inr p"
  using assms by (auto simp: encrypt_def decrypt_def cipher_ok_def split: if_splits)

section \<open>The local key manager\<close>

record EncryptionKey =
  ek_ID :: string
  ek_Version :: int
  ek_Key :: string
  ek_CreatedAt :: int
  ek_ExpiresAt :: int
  ek_Active :: bool

record key_row =
  kr_id :: string
  kr_version :: int
  kr_key_hash :: string
  kr_created_at :: int
  kr_expires_at :: int
  kr_active :: bool

record LocalKeyManager =
  km_db :: "key_row list"
  km_keys :: "(int \<times> EncryptionKey) list"
  km_currentVer :: int

definition NewLocalKeyManager :: "key_row list \<Rightarrow> LocalKeyManager" where
  "NewLocalKeyManager db = \<lparr>km_db = db, km_keys = [], km_currentVer = 0\<rparr>"

definition day :: int where
  "day = 24 * 3600 * 1000000000"

text \<open>
  What the world answers to an operation: random key bytes or the nonce, the clock (one reading stands for the two of \<open>generateKey\<close>)
  and the error of the statement.
\<close>

record audit_env =
  ae_rand :: "gerror + string"
  ae_now :: int
  ae_exec :: "gerror option"

text \<open>
  \<open>readers\<close> is the number of read locks on \<open>km.mu\<close> that the caller itself holds. \<open>sync.RWMutex.Lock\<close> waits until every read lock is
  released, so with one of its own the goroutine waits for ever.
\<close>

definition generateKey :: "cipher \<Rightarrow> nat \<Rightarrow> audit_env \<Rightarrow> LocalKeyManager \<Rightarrow> (LocalKeyManager \<times> (gerror + EncryptionKey)) option" where
  "generateKey c readers env km =
     (if readers > 0 then None
      else Some (case ae_rand env of
             Inl err \<Rightarrow> (km, Inl (Wrap ''generate key: '' err))
           | Inr keyBytes \<Rightarrow>
               (let ver = km_currentVer km + 1; km1 = km\<lparr>km_currentVer := ver\<rparr>;
                    key = \<lparr>ek_ID = ''key-'' @ itoa ver, ek_Version = ver, ek_Key = keyBytes, ek_CreatedAt = ae_now env,
                           ek_ExpiresAt = ae_now env + 365 * day, ek_Active = True\<rparr>;
                    row = \<lparr>kr_id = ek_ID key, kr_version = ver, kr_key_hash = b64_encode c (sha256 c keyBytes), kr_created_at = ek_CreatedAt key,
                           kr_expires_at = ek_ExpiresAt key, kr_active = True\<rparr>;
                    err = (if ae_exec env \<noteq> None then ae_exec env
                           else if list_ex (\<lambda>r. kr_id r = kr_id row \<or> kr_version r = ver) (km_db km)
                           then Some (Errorf ''UNIQUE constraint failed: encryption_keys'') else None)
                in case err of
                     Some e \<Rightarrow> (km1, Inl (Wrap ''store key: '' e))
                   | None \<Rightarrow> (km1\<lparr>km_db := km_db km @ [row], km_keys := AList.update ver key (km_keys km)\<rparr>, Inr key))))"

definition GetCurrentKey :: "cipher \<Rightarrow> audit_env \<Rightarrow> LocalKeyManager \<Rightarrow> (LocalKeyManager \<times> (gerror + EncryptionKey)) option" where
  "GetCurrentKey c env km =
     (if km_currentVer km = 0 then generateKey c 1 env km
      else Some (km, case map_of (km_keys km) (km_currentVer km) of None \<Rightarrow> Inl (Errorf ''current key not found'') | Some key \<Rightarrow> Inr key))"

definition loadKey :: "int \<Rightarrow> gerror + EncryptionKey" where
  "loadKey version = Inl (Errorf (''key version '' @ itoa version @ '' not in memory''))"

definition GetKey :: "LocalKeyManager \<Rightarrow> int \<Rightarrow> gerror + EncryptionKey" where
  "GetKey km version = (case map_of (km_keys km) version of Some key \<Rightarrow> Inr key | None \<Rightarrow> loadKey version)"

definition RotateKey :: "cipher \<Rightarrow> audit_env \<Rightarrow> LocalKeyManager \<Rightarrow> (LocalKeyManager \<times> (gerror + EncryptionKey)) option" where
  "RotateKey c env km = generateKey c 0 env km"

definition RevokeKey :: "LocalKeyManager \<Rightarrow> gerror option \<Rightarrow> int \<Rightarrow> LocalKeyManager \<times> gerror option" where
  "RevokeKey km db version =
     (let km1 = (case map_of (km_keys km) version of
                   None \<Rightarrow> km
                 | Some key \<Rightarrow> km\<lparr>km_keys := AList.update version (key\<lparr>ek_Active := False\<rparr>) (km_keys km)\<rparr>)
      in if db \<noteq> None then (km1, db)
         else (km1\<lparr>km_db := map (\<lambda>r. if kr_version r = version then r\<lparr>kr_active := False\<rparr> else r) (km_db km1)\<rparr>, None))"

definition kmsError :: gerror where
  "kmsError = Errorf ''KMS integration not implemented''"

definition kms_GetCurrentKey :: "gerror + EncryptionKey" where
  "kms_GetCurrentKey = Inl kmsError"

definition kms_GetKey :: "int \<Rightarrow> gerror + EncryptionKey" where
  "kms_GetKey version = Inl kmsError"

definition kms_RotateKey :: "gerror + EncryptionKey" where
  "kms_RotateKey = Inl kmsError"

definition kms_RevokeKey :: "int \<Rightarrow> gerror option" where
  "kms_RevokeKey version = Some kmsError"

section \<open>The logger\<close>

record AuditLogEntry =
  al_ID :: string
  al_TenantID :: string
  al_UserID :: string
  al_Action :: string
  al_Resource :: string
  al_ResourceID :: string
  al_Status :: string
  al_Details :: string
  al_IPAddress :: string
  al_UserAgent :: string
  al_Timestamp :: int
  al_EncryptionKey :: string

text \<open>A stored row: the entry with its details encrypted, and the version of the key.\<close>

type_synonym log_row = "AuditLogEntry \<times> int"

record AuditLogger =
  lg_db :: "log_row list"
  lg_currentKey :: "EncryptionKey option"

definition NewAuditLogger :: "log_row list \<Rightarrow> AuditLogger" where
  "NewAuditLogger db = \<lparr>lg_db = db, lg_currentKey = None\<rparr>"

definition Start :: "cipher \<Rightarrow> audit_env \<Rightarrow> AuditLogger \<Rightarrow> LocalKeyManager \<Rightarrow> (AuditLogger \<times> LocalKeyManager \<times> gerror option) option" where
  "Start c env al km =
     (case GetCurrentKey c env km of
        None \<Rightarrow> None
      | Some (km', Inl err) \<Rightarrow> Some (al, km', Some (Wrap ''get current key: '' err))
      | Some (km', Inr key) \<Rightarrow> Some (al\<lparr>lg_currentKey := Some key\<rparr>, km', None))"

definition Log :: "cipher \<Rightarrow> audit_env \<Rightarrow> AuditLogger \<Rightarrow> AuditLogEntry \<Rightarrow> AuditLogger \<times> gerror option" where
  "Log c env al entry =
     (case lg_currentKey al of
        None \<Rightarrow> (al, Some (Errorf ''no encryption key available''))
      | Some key \<Rightarrow>
          (case encrypt c (ae_rand env) (al_Details entry) (ek_Key key) of
             Inl err \<Rightarrow> (al, Some (Wrap ''encrypt details: '' err))
           | Inr encrypted \<Rightarrow>
               (case (if ae_exec env \<noteq> None then ae_exec env
                      else if list_ex (\<lambda>(e, v). al_ID e = al_ID entry) (lg_db al)
                      then Some (Errorf ''UNIQUE constraint failed: audit_logs_encrypted.id'') else None) of
                  Some err \<Rightarrow> (al, Some (Wrap ''insert audit log: '' err))
                | None \<Rightarrow> (al\<lparr>lg_db := lg_db al @ [(entry\<lparr>al_Details := encrypted, al_EncryptionKey := []\<rparr>, ek_Version key)]\<rparr>, None))))"

fun decryptRows :: "cipher \<Rightarrow> (int \<Rightarrow> gerror + EncryptionKey) \<Rightarrow> log_row list \<Rightarrow> gerror + AuditLogEntry list" where
  "decryptRows c getKey [] = Inr []"
| "decryptRows c getKey ((entry, version) # rows) =
     (case getKey version of
        Inl err \<Rightarrow> Inl (Wrap (''get key version '' @ itoa version @ '': '') err)
      | Inr key \<Rightarrow>
          (case decrypt c (al_Details entry) (ek_Key key) of
             Inl err \<Rightarrow> Inl (Wrap ''decrypt details: '' err)
           | Inr details \<Rightarrow>
               (case decryptRows c getKey rows of Inl err \<Rightarrow> Inl err | Inr entries \<Rightarrow> Inr (entry\<lparr>al_Details := details\<rparr> # entries))))"

definition strFilter :: "any smap \<Rightarrow> string \<Rightarrow> string \<Rightarrow> bool" where
  "strFilter filters name v = (case map_of filters name of Some (AStr s) \<Rightarrow> s = [] \<or> v = s | _ \<Rightarrow> True)"

text \<open>The query orders by time only; rows of equal times come in the order of insertion here, one of those the statement allows.\<close>

definition Query :: "cipher \<Rightarrow> AuditLogger \<Rightarrow> LocalKeyManager \<Rightarrow> gerror option \<Rightarrow> string \<Rightarrow> any smap \<Rightarrow> gerror + AuditLogEntry list" where
  "Query c al km db tenantID filters =
     (case db of
        Some err \<Rightarrow> Inl (Wrap ''query audit logs: '' err)
      | None \<Rightarrow> decryptRows c (GetKey km) (take 100 (sort_key (\<lambda>row. - al_Timestamp (fst row))
          (filter (\<lambda>row. al_TenantID (fst row) = tenantID \<and> strFilter filters ''action'' (al_Action (fst row)) \<and>
             strFilter filters ''resource'' (al_Resource (fst row))) (lg_db al)))))"

definition checkAndRotateKey :: "cipher \<Rightarrow> audit_env \<Rightarrow> AuditLogger \<Rightarrow> LocalKeyManager \<Rightarrow> (AuditLogger \<times> LocalKeyManager) option" where
  "checkAndRotateKey c env al km =
     (case lg_currentKey al of
        None \<Rightarrow> Some (al, km)
      | Some key \<Rightarrow>
          if ek_ExpiresAt key - ae_now env < 7 * day
          then (case RotateKey c env km of
                  None \<Rightarrow> None
                | Some (km', Inl err) \<Rightarrow> Some (al, km')
                | Some (km', Inr newKey) \<Rightarrow> Some (al\<lparr>lg_currentKey := Some newKey\<rparr>, km'))
          else Some (al, km))"

section \<open>Runs\<close>

datatype auditOp =
    ALog audit_env AuditLogEntry
  | ACheck audit_env
  | ARevoke "gerror option" int

text \<open>The state of a run: the logger, the key manager, and the entries that \<open>Log\<close> accepted, as they were given to it.\<close>

type_synonym audit_state = "AuditLogger \<times> LocalKeyManager \<times> AuditLogEntry list"

fun auditStep :: "cipher \<Rightarrow> auditOp \<Rightarrow> audit_state \<Rightarrow> audit_state" where
  "auditStep c (ALog env entry) (al, km, logged) =
     (case Log c env al entry of
        (al', None) \<Rightarrow> (al', km, logged @ [entry\<lparr>al_EncryptionKey := []\<rparr>])
      | (al', Some err) \<Rightarrow> (al', km, logged))"
| "auditStep c (ACheck env) (al, km, logged) =
     (case checkAndRotateKey c env al km of None \<Rightarrow> (al, km, logged) | Some (al', km') \<Rightarrow> (al', km', logged))"
| "auditStep c (ARevoke db v) (al, km, logged) = (al, fst (RevokeKey km db v), logged)"

text \<open>A nonce has the length that was asked for.\<close>

fun op_ok :: "auditOp \<Rightarrow> bool" where
  "op_ok (ALog env entry) = (case ae_rand env of Inr nonce \<Rightarrow> length nonce = nonceSize | Inl err \<Rightarrow> True)"
| "op_ok (ACheck env) = True"
| "op_ok (ARevoke db v) = True"

definition keyBytes :: "LocalKeyManager \<Rightarrow> int \<Rightarrow> string option" where
  "keyBytes km v = map_option ek_Key (map_of (km_keys km) v)"

text \<open>A stored row as a query shows it.\<close>

definition openRow :: "cipher \<Rightarrow> LocalKeyManager \<Rightarrow> log_row \<Rightarrow> AuditLogEntry option" where
  "openRow c km row =
     (case keyBytes km (snd row) of
        None \<Rightarrow> None
      | Some k \<Rightarrow> (case decrypt c (al_Details (fst row)) k of Inl err \<Rightarrow> None | Inr d \<Rightarrow> Some ((fst row)\<lparr>al_Details := d\<rparr>)))"

fun audit_inv :: "cipher \<Rightarrow> audit_state \<Rightarrow> bool" where
  "audit_inv c (al, km, logged) =
     (map (openRow c km) (lg_db al) = map Some logged \<and>
      (\<forall>v \<in> fst ` set (km_keys km). v \<le> km_currentVer km) \<and>
      (\<forall>key. lg_currentKey al = Some key \<longrightarrow> keyBytes km (ek_Version key) = Some (ek_Key key)))"

lemma decryptRows_openRow: "map (openRow c km) rows = map Some es \<Longrightarrow> decryptRows c (GetKey km) rows = Inr es"
proof (induction rows arbitrary: es)
  case (Cons row rows)
  obtain e v where "row = (e, v)" by (cases row)
  with Cons show ?case by (auto simp: openRow_def keyBytes_def GetKey_def split: option.splits sum.splits)
qed simp

lemma openRow_fields:
  "openRow c km row = Some e \<Longrightarrow> al_TenantID e = al_TenantID (fst row) \<and> al_Action e = al_Action (fst row) \<and>
     al_Resource e = al_Resource (fst row) \<and> al_Timestamp e = al_Timestamp (fst row)"
  by (auto simp: openRow_def split: option.splits sum.splits)

lemma openRow_extend: "(\<And>v b. keyBytes km v = Some b \<Longrightarrow> keyBytes km' v = Some b) \<Longrightarrow> openRow c km row = Some e \<Longrightarrow> openRow c km' row = Some e"
  by (auto simp: openRow_def split: option.splits)

lemma keyBytes_revoke: "keyBytes (fst (RevokeKey km db v)) w = keyBytes km w"
  by (auto simp: keyBytes_def RevokeKey_def Let_def split: option.split)

lemma keys_revoke:
  "fst ` set (km_keys (fst (RevokeKey km db v))) = fst ` set (km_keys km)" "km_currentVer (fst (RevokeKey km db v)) = km_currentVer km"
  by (auto simp: RevokeKey_def Let_def split: option.split dest: map_of_SomeD intro: rev_image_eqI)

text \<open>A rotation adds at most one key, under a version that was not used before.\<close>

lemma RotateKey_cases:
  assumes "RotateKey c env km = Some (km', res)"
  obtains (refused) err where "res = Inl err" "km_keys km' = km_keys km" "km_currentVer km \<le> km_currentVer km'"
  | (added) key where "res = Inr key" "ek_Version key = km_currentVer km + 1" "km_currentVer km' = km_currentVer km + 1"
      "km_keys km' = AList.update (km_currentVer km + 1) key (km_keys km)"
proof (cases "ae_rand env")
  case (Inl err)
  with assms show thesis by (intro refused [of "Wrap ''generate key: '' err"]) (auto simp: RotateKey_def generateKey_def)
next
  case (Inr bytes)
  show thesis
  proof (cases res)
    case (Inl err)
    with assms \<open>ae_rand env = Inr bytes\<close> show thesis by (intro refused) (auto simp: RotateKey_def generateKey_def Let_def split: option.splits)
  next
    case (Inr key)
    with assms \<open>ae_rand env = Inr bytes\<close> show thesis by (intro added) (auto simp: RotateKey_def generateKey_def Let_def split: option.splits)
  qed
qed

lemma RotateKey_bound:
  assumes "RotateKey c env km = Some (km', res)" "\<forall>v \<in> fst ` set (km_keys km). v \<le> km_currentVer km"
  shows "\<forall>v \<in> fst ` set (km_keys km'). v \<le> km_currentVer km'"
  using assms(1)
proof (cases rule: RotateKey_cases)
  case refused
  with assms(2) show ?thesis by force
next
  case (added key)
  with assms(2) show ?thesis unfolding added(4) set_keys_update by auto
qed

lemma RotateKey_keeps:
  assumes "RotateKey c env km = Some (km', res)" "\<forall>v \<in> fst ` set (km_keys km). v \<le> km_currentVer km" "keyBytes km v = Some b"
  shows "keyBytes km' v = Some b"
  using assms(1)
proof (cases rule: RotateKey_cases)
  case (added key)
  from assms(3) have "v \<in> fst ` set (km_keys km)" by (auto simp: keyBytes_def dest: map_of_SomeD intro: rev_image_eqI)
  with assms(2) have "v \<noteq> km_currentVer km + 1" by force
  with added assms(3) show ?thesis by (simp add: keyBytes_def)
qed (use assms(3) in \<open>simp add: keyBytes_def\<close>)

lemma RotateKey_new:
  assumes "RotateKey c env km = Some (km', Inr key)"
  shows "keyBytes km' (ek_Version key) = Some (ek_Key key)"
  using assms by (cases rule: RotateKey_cases) (simp_all add: keyBytes_def)

lemma map_openRow_extend:
  assumes "\<And>v b. keyBytes km v = Some b \<Longrightarrow> keyBytes km' v = Some b" "map (openRow c km) rows = map Some es"
  shows "map (openRow c km') rows = map Some es"
  using assms(2) by (induction rows arbitrary: es) (auto intro: openRow_extend [OF assms(1)])

lemma audit_inv_rotate:
  assumes "audit_inv c (al, km, logged)" "RotateKey c env km = Some (km', res)"
  shows "audit_inv c (al, km', logged)" and "res = Inr key \<Longrightarrow> audit_inv c (al\<lparr>lg_currentKey := Some key\<rparr>, km', logged)"
proof -
  note old = assms(1) [simplified audit_inv.simps]
  note keep = RotateKey_keeps [OF assms(2) conjunct1 [OF conjunct2 [OF old]]]
  show "audit_inv c (al, km', logged)"
    using old keep map_openRow_extend [of km km', OF keep] RotateKey_bound [OF assms(2)] by simp
  then show "audit_inv c (al\<lparr>lg_currentKey := Some key\<rparr>, km', logged)" if "res = Inr key"
    using RotateKey_new assms(2) that by simp
qed

lemma audit_inv_log:
  assumes "cipher_ok c" "audit_inv c (al, km, logged)" "op_ok (ALog env entry)" "Log c env al entry = (al', None)"
  shows "audit_inv c (al', km, logged @ [entry\<lparr>al_EncryptionKey := []\<rparr>])"
proof -
  from assms(4) obtain key where key: "lg_currentKey al = Some key" by (cases "lg_currentKey al") (simp_all add: Log_def)
  with assms(4) obtain e where e: "encrypt c (ae_rand env) (al_Details entry) (ek_Key key) = Inr e"
    "al' = al\<lparr>lg_db := lg_db al @ [(entry\<lparr>al_Details := e, al_EncryptionKey := []\<rparr>, ek_Version key)]\<rparr>"
    by (auto simp: Log_def split: sum.splits option.splits if_splits)
  then obtain nonce where "ae_rand env = Inr nonce" by (cases "ae_rand env") (auto simp: encrypt_def split: if_splits)
  with assms(1,3) e have "decrypt c e (ek_Key key) = Inr (al_Details entry)" by (auto intro: decrypt_encrypt)
  with assms(2) key have "openRow c km (entry\<lparr>al_Details := e, al_EncryptionKey := []\<rparr>, ek_Version key) = Some (entry\<lparr>al_EncryptionKey := []\<rparr>)"
    by (simp add: openRow_def)
  with e assms(2) show ?thesis by simp
qed

lemma audit_inv_step:
  assumes "cipher_ok c" "op_ok op" "audit_inv c s"
  shows "audit_inv c (auditStep c op s)"
proof (cases s)
  case (fields al km logged)
  show ?thesis
  proof (cases op)
    case (ALog env entry)
    obtain al' err where "Log c env al entry = (al', err)" by (cases "Log c env al entry")
    moreover have "al' = al" if "Log c env al entry = (al', Some e)" for e
      using that by (auto simp: Log_def split: option.splits sum.splits)
    ultimately show ?thesis using assms ALog fields audit_inv_log [OF assms(1), of al km logged env entry al'] by (cases err) auto
  next
    case (ACheck env)
    have inv: "audit_inv c (al, km, logged)" using assms(3) fields by simp
    show ?thesis
    proof (cases "lg_currentKey al")
      case None
      then show ?thesis using inv fields ACheck by (simp add: checkAndRotateKey_def)
    next
      case (Some key)
      then show ?thesis
        using inv fields ACheck audit_inv_rotate [OF inv, of env]
        by (auto simp: checkAndRotateKey_def simp del: audit_inv.simps split: option.split sum.split)
    qed
  next
    case (ARevoke db v)
    have "openRow c (fst (RevokeKey km db v)) = openRow c km" by (simp add: openRow_def keyBytes_revoke fun_eq_iff)
    then show ?thesis using assms fields ARevoke by (simp add: keyBytes_revoke keys_revoke)
  qed
qed

section \<open>Properties\<close>

text \<open>
  C25. What is logged can be read back: a logger started on a manager that has a key answers, after any sequence of log calls, rotation
  checks and revocations, failing ones included, every query with exactly the entries that \<open>Log\<close> accepted for that tenant and
  those filters, newest first and at most 100, with their details in clear, whatever key each was encrypted with.
\<close>

theorem audit_log_roundtrip:
  assumes "cipher_ok c" "list_all op_ok ops"
    and "RotateKey c env0 (NewLocalKeyManager []) = Some (km0, Inr key)"
    and "Start c env1 (NewAuditLogger []) km0 = Some (al1, km1, None)"
    and "fold (auditStep c) ops (al1, km1, []) = (al, km, logged)"
  shows "Query c al km None tenantID filters =
    Inr (take 100 (sort_key (\<lambda>e. - al_Timestamp e)
      (filter (\<lambda>e. al_TenantID e = tenantID \<and> strFilter filters ''action'' (al_Action e) \<and> strFilter filters ''resource'' (al_Resource e)) logged)))"
proof -
  have "audit_inv c (NewAuditLogger [], NewLocalKeyManager [], [])" by (simp add: NewAuditLogger_def NewLocalKeyManager_def)
  from audit_inv_rotate(2) [OF this assms(3) refl] have "audit_inv c ((NewAuditLogger [])\<lparr>lg_currentKey := Some key\<rparr>, km0, [])" .
  moreover from assms(3) have "km_currentVer km0 = 1" "map_of (km_keys km0) 1 = Some key"
    by (cases rule: RotateKey_cases; simp add: NewLocalKeyManager_def)+
  then have "al1 = (NewAuditLogger [])\<lparr>lg_currentKey := Some key\<rparr>" "km1 = km0" using assms(4) by (simp_all add: Start_def GetCurrentKey_def)
  ultimately have "audit_inv c (al1, km1, [])" by simp
  then have "audit_inv c (fold (auditStep c) ops (al1, km1, []))"
  proof (rule fold_keeps [where P = "audit_inv c", rotated])
    fix op s
    assume "op \<in> set ops" "audit_inv c s"
    with assms(1,2) show "audit_inv c (auditStep c op s)" by (intro audit_inv_step) (simp_all add: list_all_iff)
  qed
  then have rows: "map (openRow c km) (lg_db al) = map Some logged" unfolding assms(5) by simp
  define h where "h row = the (openRow c km row)" for row
  have h: "openRow c km row = Some (h row)" if "row \<in> set (lg_db al)" for row
  proof -
    from that have "openRow c km row \<in> set (map Some logged)" unfolding rows [symmetric] by simp
    then show ?thesis by (auto simp: h_def)
  qed
  have logged: "logged = map h (lg_db al)"
  proof -
    have "map Some logged = map Some (map h (lg_db al))" unfolding rows [symmetric] using h by simp
    then show ?thesis by (rule inj_map_eq_map [THEN iffD1, rotated]) simp
  qed
  have hf: "al_TenantID (h r) = al_TenantID (fst r) \<and> al_Action (h r) = al_Action (fst r) \<and> al_Resource (h r) = al_Resource (fst r) \<and>
      al_Timestamp (h r) = al_Timestamp (fst r)" if "r \<in> set (lg_db al)" for r
    using openRow_fields [OF h [OF that]] .
  let ?keep = "\<lambda>e. al_TenantID e = tenantID \<and> strFilter filters ''action'' (al_Action e) \<and> strFilter filters ''resource'' (al_Resource e)"
  let ?rows = "filter (\<lambda>r. ?keep (fst r)) (lg_db al)"
  have "filter ?keep logged = map h ?rows"
    unfolding logged filter_map comp_def by (rule arg_cong [where f = "map h"], rule filter_cong) (simp_all add: hf)
  moreover have "sort_key (\<lambda>y. - al_Timestamp (h y)) ?rows = sort_key (\<lambda>y. - al_Timestamp (fst y)) ?rows"
    by (rule sort_key_cong) (simp add: hf)
  ultimately have "take 100 (sort_key (\<lambda>e. - al_Timestamp e) (filter ?keep logged)) = map h (take 100 (sort_key (\<lambda>r. - al_Timestamp (fst r)) ?rows))"
    by (simp only: sort_key_map take_map)
  moreover have "map (openRow c km) (take 100 (sort_key (\<lambda>r. - al_Timestamp (fst r)) ?rows)) =
      map Some (map h (take 100 (sort_key (\<lambda>r. - al_Timestamp (fst r)) ?rows)))"
    by (auto dest!: in_set_takeD intro: h)
  ultimately show ?thesis by (simp only: Query_def option.case decryptRows_openRow)
qed

text \<open>A stand-in for the cipher: sealing prefixes key and nonce, opening checks and removes them.\<close>

definition plainCipher :: cipher where
  "plainCipher = \<lparr>gcm_seal = (\<lambda>k n p. k @ n @ p),
     gcm_open = (\<lambda>k n ct. if take (length (k @ n)) ct = k @ n then Some (drop (length (k @ n)) ct) else None),
     b64_encode = (\<lambda>d. d), b64_decode = Some, sha256 = (\<lambda>d. d)\<rparr>"

definition demoRand :: "nat \<Rightarrow> char \<Rightarrow> int \<Rightarrow> audit_env" where
  "demoRand n ch now = \<lparr>ae_rand = Inr (replicate n ch), ae_now = now, ae_exec = None\<rparr>"

definition demoEntry :: "string \<Rightarrow> string \<Rightarrow> int \<Rightarrow> AuditLogEntry" where
  "demoEntry i details t = \<lparr>al_ID = i, al_TenantID = ''t'', al_UserID = ''u'', al_Action = ''read'', al_Resource = ''doc'', al_ResourceID = ''1'',
     al_Status = ''ok'', al_Details = details, al_IPAddress = [], al_UserAgent = [], al_Timestamp = t, al_EncryptionKey = []\<rparr>"

definition demoOps :: "auditOp list" where
  "demoOps = [ALog (demoRand 12 CHR ''n'' 1) (demoEntry ''1'' ''secret'' 1), ACheck (demoRand 32 CHR ''b'' (360 * day)), ARevoke None 1,
     ALog (demoRand 12 CHR ''m'' 2) (demoEntry ''2'' ''other'' 2)]"

definition demoKey :: EncryptionKey where
  "demoKey = \<lparr>ek_ID = ''key-1'', ek_Version = 1, ek_Key = replicate 32 CHR ''a'', ek_CreatedAt = 0, ek_ExpiresAt = 365 * day, ek_Active = True\<rparr>"

definition demoManager :: LocalKeyManager where
  "demoManager = \<lparr>km_db = [\<lparr>kr_id = ''key-1'', kr_version = 1, kr_key_hash = replicate 32 CHR ''a'', kr_created_at = 0, kr_expires_at = 365 * day,
     kr_active = True\<rparr>], km_keys = [(1, demoKey)], km_currentVer = 1\<rparr>"

lemma demo_rotate: "RotateKey plainCipher (demoRand 32 CHR ''a'' 0) (NewLocalKeyManager []) = Some (demoManager, Inr demoKey)"
  by code_simp

theorem audit_log_roundtrip_witness:
  "case fold (auditStep plainCipher) demoOps (\<lparr>lg_db = [], lg_currentKey = Some demoKey\<rparr>, demoManager, []) of (al, km, logged) \<Rightarrow>
     Query plainCipher al km None ''t'' [] = Inr [demoEntry ''2'' ''other'' 2, demoEntry ''1'' ''secret'' 1]"
proof -
  obtain al km logged where f: "fold (auditStep plainCipher) demoOps (\<lparr>lg_db = [], lg_currentKey = Some demoKey\<rparr>, demoManager, []) = (al, km, logged)"
    by (rule prod_cases3)
  have "snd (snd (fold (auditStep plainCipher) demoOps (\<lparr>lg_db = [], lg_currentKey = Some demoKey\<rparr>, demoManager, []))) =
      [demoEntry ''1'' ''secret'' 1, demoEntry ''2'' ''other'' 2]" by code_simp
  with f have "logged = [demoEntry ''1'' ''secret'' 1, demoEntry ''2'' ''other'' 2]" by simp
  moreover have "cipher_ok plainCipher" by (simp add: cipher_ok_def plainCipher_def)
  moreover have "list_all op_ok demoOps" by code_simp
  moreover have "Start plainCipher (demoRand 0 CHR ''a'' 0) (NewAuditLogger []) demoManager = Some (\<lparr>lg_db = [], lg_currentKey = Some demoKey\<rparr>, demoManager, None)"
    by code_simp
  ultimately show ?thesis
    using audit_log_roundtrip [OF _ _ demo_rotate _ f, where tenantID = "''t''" and filters = "[]"] f by (simp add: demoEntry_def strFilter_def)
qed

text \<open>
  A logger never starts on a fresh manager: \<open>GetCurrentKey\<close> asks for the write lock while it holds the read lock of the same mutex
  and blocks for ever, whatever the world answers. Once a key was made by a rotation, \<open>Start\<close> returns and uses it.
\<close>

theorem fresh_manager_never_starts:
  "Start c env al (NewLocalKeyManager db) = None \<and>
   (0 \<le> km_currentVer km \<and> RotateKey c env km = Some (km', Inr key) \<longrightarrow> Start c env' al km' = Some (al\<lparr>lg_currentKey := Some key\<rparr>, km', None))"
proof -
  have "Start c env' al km' = Some (al\<lparr>lg_currentKey := Some key\<rparr>, km', None)" if "0 \<le> km_currentVer km" "RotateKey c env km = Some (km', Inr key)"
    using that(2,1) by (cases rule: RotateKey_cases) (simp_all add: Start_def GetCurrentKey_def)
  then show ?thesis by (simp add: Start_def GetCurrentKey_def generateKey_def NewLocalKeyManager_def)
qed

theorem fresh_manager_never_starts_witness:
  "Start plainCipher (demoRand 32 CHR ''a'' 0) (NewAuditLogger []) (NewLocalKeyManager []) = None \<and>
   Start plainCipher (demoRand 32 CHR ''a'' 0) (NewAuditLogger []) demoManager = Some ((NewAuditLogger [])\<lparr>lg_currentKey := Some demoKey\<rparr>, demoManager, None)"
  using fresh_manager_never_starts [of plainCipher "demoRand 32 CHR ''a'' 0" "NewAuditLogger []" "[]" "NewLocalKeyManager []" demoManager demoKey] demo_rotate
  by (simp add: NewLocalKeyManager_def)

text \<open>Keys live in memory only: after a restart a query that meets any stored row fails as a whole.\<close>

lemma restart_unreadable:
  assumes "(e, v) \<in> set (lg_db al)" "al_TenantID e = tenantID"
  shows "\<exists>err. Query c al (NewLocalKeyManager db) None tenantID [] = Inl err"
proof -
  let ?rows = "take 100 (sort_key (\<lambda>row. - al_Timestamp (fst row)) (filter (\<lambda>row. al_TenantID (fst row) = tenantID) (lg_db al)))"
  have "filter (\<lambda>row. al_TenantID (fst row) = tenantID) (lg_db al) \<noteq> []"
    using assms by (auto simp: filter_empty_conv intro!: bexI [of _ "(e, v)"])
  then have "sort_key (\<lambda>row. - al_Timestamp (fst row)) (filter (\<lambda>row. al_TenantID (fst row) = tenantID) (lg_db al)) \<noteq> []"
    by (metis set_empty set_sort)
  then have "?rows \<noteq> []" by (metis take_eq_Nil zero_neq_numeral)
  then obtain row rows where r: "?rows = row # rows" by (cases ?rows) auto
  have "\<exists>err. decryptRows c (GetKey (NewLocalKeyManager db)) (row # rows) = Inl err"
    by (cases row) (simp add: GetKey_def NewLocalKeyManager_def loadKey_def)
  with r show ?thesis by (simp add: Query_def strFilter_def)
qed

end
