(* ===== verification/Collaboration.thy ===== *)
theory Collaboration
  imports Go_Prelude
begin

text \<open>
  Collaboration between agents, \<open>pkg/collaboration\<close>: messages (\<open>protocol.go\<close>), the router with its channels and the shared workspace
  (\<open>discovery.go\<close>) and the coordinator (\<open>coordinator.go\<close>). A channel is the list of the messages in its buffer; what \<open>json.Marshal\<close> answers
  for a payload and the two clock readings of a new message are arguments. Agents are pointers in the code, and no operation changes one.
\<close>

section \<open>Messages\<close>

record AgentMessage =
  ms_ID :: string
  ms_From :: string
  ms_To :: string
  ms_Type :: string
  ms_Action :: string
  ms_Payload :: string
  ms_Timestamp :: int
  ms_ReplyTo :: string
  ms_Priority :: int

record TaskDelegation =
  td_TaskID :: string
  td_Description :: string
  td_Goal :: string
  td_Context :: "any smap"
  td_Deadline :: "int option"
  td_RequiredCapabilities :: "string list"

record DataShare =
  ds_DataID :: string
  ds_Description :: string
  ds_Data :: "any smap"
  ds_SchemaType :: string
  ds_ExpiresAt :: "int option"

record Vote =
  vt_VoteID :: string
  vt_AgentID :: string
  vt_Choice :: string
  vt_Timestamp :: int
  vt_Reason :: string

record VoteResult =
  vr_VoteID :: string
  vr_Votes :: "Vote list"
  vr_Winner :: string
  vr_Decided :: bool

record msg_env =
  me_marshal :: "gerror + string"
  me_idNow :: int
  me_now :: int

definition generateMessageID :: "int \<Rightarrow> string" where
  "generateMessageID now = ''msg-'' @ itoa now"

definition NewMessage :: "msg_env \<Rightarrow> string \<Rightarrow> string \<Rightarrow> string \<Rightarrow> string \<Rightarrow> gerror + AgentMessage" where
  "NewMessage env from to msgType action =
     (case me_marshal env of
        Inl err \<Rightarrow> Inl (Wrap ''marshal payload: '' err)
      | Inr payload \<Rightarrow> Inr \<lparr>ms_ID = generateMessageID (me_idNow env), ms_From = from, ms_To = to, ms_Type = msgType, ms_Action = action,
          ms_Payload = payload, ms_Timestamp = me_now env, ms_ReplyTo = [], ms_Priority = 1\<rparr>)"

definition Reply :: "msg_env \<Rightarrow> AgentMessage \<Rightarrow> gerror + AgentMessage" where
  "Reply env m =
     (case NewMessage env (ms_To m) (ms_From m) ''response'' (ms_Action m) of
        Inl err \<Rightarrow> Inl err
      | Inr reply \<Rightarrow> Inr (reply\<lparr>ms_ReplyTo := ms_ID m\<rparr>))"

definition IsBroadcast :: "AgentMessage \<Rightarrow> bool" where
  "IsBroadcast m = (ms_To m = [] \<or> ms_To m = ''*'')"

definition IsExpired :: "int \<Rightarrow> AgentMessage \<Rightarrow> int \<Rightarrow> bool" where
  "IsExpired now m ttl = (now - ms_Timestamp m > ttl)"

definition SetPriority :: "AgentMessage \<Rightarrow> int \<Rightarrow> AgentMessage" where
  "SetPriority m priority =
     (let p1 = (if priority < 0 then 0 else priority); p2 = (if p1 > 2 then 2 else p1) in m\<lparr>ms_Priority := p2\<rparr>)"

definition msg_Validate :: "AgentMessage \<Rightarrow> gerror option" where
  "msg_Validate m =
     (if ms_From m = [] then Some (Errorf ''from field is required'')
      else if ms_Type m = [] then Some (Errorf ''type field is required'')
      else if ms_Action m = [] then Some (Errorf ''action field is required'')
      else None)"

section \<open>Router and workspace\<close>

type_synonym chan = "AgentMessage list"
type_synonym MessageRouter = "chan list smap"

definition chanCap :: nat where
  "chanCap = 100"

definition subKey :: "string \<Rightarrow> string \<Rightarrow> string" where
  "subKey agentID pattern = agentID @ '':'' @ pattern"

text \<open>A subscription is named by its key and its position there.\<close>

definition Subscribe :: "MessageRouter \<Rightarrow> string \<Rightarrow> string \<Rightarrow> MessageRouter \<times> (string \<times> nat)" where
  "Subscribe r agentID pattern =
     (let key = subKey agentID pattern; chans = get_list r key in (AList.update key (chans @ [[]]) r, (key, length chans)))"

definition Unsubscribe :: "MessageRouter \<Rightarrow> string \<Rightarrow> MessageRouter" where
  "Unsubscribe r agentID = filter (\<lambda>(key, chans). \<not> (length key > length agentID \<and> take (length agentID) key = agentID)) r"

text \<open>A send that does not wait: a full buffer drops the message.\<close>

definition trySend :: "AgentMessage \<Rightarrow> chan \<Rightarrow> chan" where
  "trySend m ch = (if length ch < chanCap then ch @ [m] else ch)"

definition Route :: "MessageRouter \<Rightarrow> AgentMessage \<Rightarrow> MessageRouter \<times> gerror option" where
  "Route r m =
     ((if IsBroadcast m then map (\<lambda>(key, chans). (key, map (trySend m) chans)) r
       else (case map_of r (ms_To m @ '':*'') of
               None \<Rightarrow> r
             | Some chans \<Rightarrow> AList.update (ms_To m @ '':*'') (map (trySend m) chans) r)), None)"

type_synonym SharedWorkspace = "(any smap) smap"

definition ws_Put :: "SharedWorkspace \<Rightarrow> string \<Rightarrow> any smap \<Rightarrow> SharedWorkspace" where
  "ws_Put sw key v = AList.update key v sw"

definition ws_Get :: "SharedWorkspace \<Rightarrow> string \<Rightarrow> any smap option" where
  "ws_Get sw key = map_of sw key"

definition ws_Delete :: "SharedWorkspace \<Rightarrow> string \<Rightarrow> SharedWorkspace" where
  "ws_Delete sw key = AList.delete key sw"

definition ws_List :: "SharedWorkspace \<Rightarrow> string list" where
  "ws_List sw = keys sw"

definition ws_Clear :: "SharedWorkspace \<Rightarrow> SharedWorkspace" where
  "ws_Clear sw = []"

section \<open>Coordinator\<close>

record AgentInfo =
  ag_ID :: string
  ag_Name :: string
  ag_Capabilities :: "string list"
  ag_Status :: string
  ag_Metadata :: "any smap"

record Coordinator =
  co_agents :: "AgentInfo smap"
  co_workspace :: SharedWorkspace
  co_router :: MessageRouter

definition NewCoordinator :: Coordinator where
  "NewCoordinator = \<lparr>co_agents = [], co_workspace = [], co_router = []\<rparr>"

definition RegisterAgent :: "Coordinator \<Rightarrow> AgentInfo \<Rightarrow> Coordinator \<times> gerror option" where
  "RegisterAgent c agent =
     (if has_key (co_agents c) (ag_ID agent) then (c, Some (Errorf (''agent '' @ ag_ID agent @ '' already registered'')))
      else (c\<lparr>co_agents := AList.update (ag_ID agent) agent (co_agents c), co_router := fst (Subscribe (co_router c) (ag_ID agent) ''*'')\<rparr>, None))"

definition UnregisterAgent :: "Coordinator \<Rightarrow> string \<Rightarrow> Coordinator \<times> gerror option" where
  "UnregisterAgent c agentID =
     (c\<lparr>co_agents := AList.delete agentID (co_agents c), co_router := Unsubscribe (co_router c) agentID\<rparr>, None)"

definition routeOn :: "Coordinator \<Rightarrow> AgentMessage \<Rightarrow> Coordinator \<times> gerror option" where
  "routeOn c m = (c\<lparr>co_router := fst (Route (co_router c) m)\<rparr>, snd (Route (co_router c) m))"

definition SendMessage :: "Coordinator \<Rightarrow> AgentMessage \<Rightarrow> Coordinator \<times> gerror option" where
  "SendMessage c m =
     (case msg_Validate m of Some err \<Rightarrow> (c, Some (Wrap ''invalid message: '' err)) | None \<Rightarrow> routeOn c m)"

text \<open>The tail the remaining operations share: build a message, give up on an error, route it.\<close>

definition sendNew :: "Coordinator \<Rightarrow> msg_env \<Rightarrow> string \<Rightarrow> string \<Rightarrow> string \<Rightarrow> string \<Rightarrow> Coordinator \<times> gerror option" where
  "sendNew c env from to msgType action =
     (case NewMessage env from to msgType action of Inl err \<Rightarrow> (c, Some err) | Inr m \<Rightarrow> routeOn c m)"

definition BroadcastMessage :: "Coordinator \<Rightarrow> msg_env \<Rightarrow> string \<Rightarrow> string \<Rightarrow> Coordinator \<times> gerror option" where
  "BroadcastMessage c env from action = sendNew c env from ''*'' ''broadcast'' action"

definition hasCapabilities :: "string list \<Rightarrow> string list \<Rightarrow> bool" where
  "hasCapabilities agentCaps required = (required = [] \<or> list_all (\<lambda>req. List.member agentCaps req) required)"

fun findCapable :: "string list \<Rightarrow> AgentInfo smap \<Rightarrow> gerror + AgentInfo" where
  "findCapable required [] = Inl (Errorf ''no capable agent found'')"
| "findCapable required ((i, agent) # agents) =
     (if ag_Status agent = ''busy'' then findCapable required agents
      else if hasCapabilities (ag_Capabilities agent) required then Inr agent
      else findCapable required agents)"

definition findCapableAgent :: "Coordinator \<Rightarrow> string list \<Rightarrow> gerror + AgentInfo" where
  "findCapableAgent c required = findCapable required (co_agents c)"

definition DelegateTask :: "Coordinator \<Rightarrow> msg_env \<Rightarrow> string \<Rightarrow> string \<Rightarrow> TaskDelegation \<Rightarrow> Coordinator \<times> gerror option" where
  "DelegateTask c env from to task =
     (if to = []
      then (case findCapableAgent c (td_RequiredCapabilities task) of
              Inl err \<Rightarrow> (c, Some err)
            | Inr agent \<Rightarrow> sendNew c env from (ag_ID agent) ''request'' ''delegate_task'')
      else sendNew c env from to ''request'' ''delegate_task'')"

definition ShareData :: "Coordinator \<Rightarrow> msg_env \<Rightarrow> string \<Rightarrow> string \<Rightarrow> DataShare \<Rightarrow> Coordinator \<times> gerror option" where
  "ShareData c env from to d =
     (let c1 = c\<lparr>co_workspace := ws_Put (co_workspace c) (ds_DataID d) (ds_Data d)\<rparr>
      in if to = [] \<or> to = ''*'' then sendNew c1 env from ''*'' ''broadcast'' ''share_data'' else sendNew c1 env from to ''notify'' ''share_data'')"

definition RequestVote :: "Coordinator \<Rightarrow> msg_env \<Rightarrow> string \<Rightarrow> string \<Rightarrow> Coordinator \<times> (gerror + VoteResult)" where
  "RequestVote c env from voteID =
     (case sendNew c env from ''*'' ''broadcast'' ''vote'' of
        (c', Some err) \<Rightarrow> (c', Inl err)
      | (c', None) \<Rightarrow> (c', Inr \<lparr>vr_VoteID = voteID, vr_Votes = [], vr_Winner = [], vr_Decided = False\<rparr>))"

text \<open>The responses are not collected: an answered query has none.\<close>

definition QueryAgents :: "Coordinator \<Rightarrow> msg_env \<Rightarrow> string \<Rightarrow> Coordinator \<times> (gerror + string list)" where
  "QueryAgents c env from =
     (case sendNew c env from ''*'' ''broadcast'' ''query'' of (c', Some err) \<Rightarrow> (c', Inl err) | (c', None) \<Rightarrow> (c', Inr []))"

definition GetAgent :: "Coordinator \<Rightarrow> string \<Rightarrow> gerror + AgentInfo" where
  "GetAgent c agentID =
     (case map_of (co_agents c) agentID of None \<Rightarrow> Inl (Errorf (''agent not found: '' @ agentID)) | Some agent \<Rightarrow> Inr agent)"

definition ListAgents :: "Coordinator \<Rightarrow> AgentInfo list" where
  "ListAgents c = map snd (co_agents c)"

section \<open>Mailboxes\<close>

text \<open>
  What the coordinator promises: a mailbox per registered agent that gets, in order, the messages addressed to the agent and the
  broadcasts, as long as fewer than 100 are waiting.
\<close>

type_synonym mailboxes = "string \<rightharpoonup> AgentMessage list"

datatype coordOp =
    CRegister AgentInfo
  | CUnregister string
  | CSend AgentMessage
  | CBroadcast msg_env string string
  | CDelegate msg_env string string TaskDelegation
  | CShare msg_env string string DataShare
  | CVote msg_env string string
  | CQuery msg_env string

fun coordStep :: "coordOp \<Rightarrow> Coordinator \<Rightarrow> Coordinator" where
  "coordStep (CRegister a) c = fst (RegisterAgent c a)"
| "coordStep (CUnregister i) c = fst (UnregisterAgent c i)"
| "coordStep (CSend m) c = fst (SendMessage c m)"
| "coordStep (CBroadcast env from action) c = fst (BroadcastMessage c env from action)"
| "coordStep (CDelegate env from to task) c = fst (DelegateTask c env from to task)"
| "coordStep (CShare env from to d) c = fst (ShareData c env from to d)"
| "coordStep (CVote env from v) c = fst (RequestVote c env from v)"
| "coordStep (CQuery env from) c = fst (QueryAgents c env from)"

text \<open>The message an operation routes, if any.\<close>

definition fromNew :: "gerror + AgentMessage \<Rightarrow> AgentMessage option" where
  "fromNew r = (case r of Inl err \<Rightarrow> None | Inr m \<Rightarrow> Some m)"

fun routed :: "coordOp \<Rightarrow> Coordinator \<Rightarrow> AgentMessage option" where
  "routed (CSend m) c = (if msg_Validate m = None then Some m else None)"
| "routed (CBroadcast env from action) c = fromNew (NewMessage env from ''*'' ''broadcast'' action)"
| "routed (CDelegate env from to task) c =
     (if to = [] then (case findCapableAgent c (td_RequiredCapabilities task) of
         Inl err \<Rightarrow> None | Inr a \<Rightarrow> fromNew (NewMessage env from (ag_ID a) ''request'' ''delegate_task''))
      else fromNew (NewMessage env from to ''request'' ''delegate_task''))"
| "routed (CShare env from to d) c =
     (if to = [] \<or> to = ''*'' then fromNew (NewMessage env from ''*'' ''broadcast'' ''share_data'')
      else fromNew (NewMessage env from to ''notify'' ''share_data''))"
| "routed (CVote env from v) c = fromNew (NewMessage env from ''*'' ''broadcast'' ''vote'')"
| "routed (CQuery env from) c = fromNew (NewMessage env from ''*'' ''broadcast'' ''query'')"
| "routed (CRegister a) c = None"
| "routed (CUnregister i) c = None"

definition deliver :: "AgentMessage \<Rightarrow> mailboxes \<Rightarrow> mailboxes" where
  "deliver m b = (\<lambda>i. if IsBroadcast m \<or> ms_To m = i then map_option (\<lambda>q. take chanCap (q @ [m])) (b i) else b i)"

definition boxSpec :: "coordOp \<Rightarrow> AgentMessage option \<Rightarrow> mailboxes \<Rightarrow> mailboxes" where
  "boxSpec op m b =
     (case op of
        CRegister a \<Rightarrow> if b (ag_ID a) = None then b(ag_ID a \<mapsto> []) else b
      | CUnregister i \<Rightarrow> b(i := None)
      | _ \<Rightarrow> (case m of None \<Rightarrow> b | Some m \<Rightarrow> deliver m b))"

fun coordRun :: "coordOp list \<Rightarrow> Coordinator \<times> mailboxes \<Rightarrow> Coordinator \<times> mailboxes" where
  "coordRun [] s = s"
| "coordRun (op # ops) (c, b) = coordRun ops (coordStep op c, boxSpec op (routed op c) b)"

fun opIDs :: "coordOp \<Rightarrow> string set" where
  "opIDs (CRegister a) = {ag_ID a}"
| "opIDs (CUnregister i) = {i}"
| "opIDs op = {}"

text \<open>Identifiers without a colon, none of them the beginning of another.\<close>

definition ids_ok :: "string set \<Rightarrow> bool" where
  "ids_ok I = (\<forall>i \<in> I. CHR '':'' \<notin> set i \<and> (\<forall>j \<in> I. prefix i j \<longrightarrow> i = j))"

abbreviation boxKey :: "string \<Rightarrow> string" where
  "boxKey i \<equiv> i @ '':*''"

definition box_inv :: "string set \<Rightarrow> Coordinator \<Rightarrow> mailboxes \<Rightarrow> bool" where
  "box_inv I c b =
     (wf_map (co_agents c) \<and> set (keys (co_agents c)) = dom b \<and> set (keys (co_router c)) = boxKey ` dom b \<and> dom b \<subseteq> I \<and>
      (\<forall>i. map_of (co_router c) (boxKey i) = map_option (\<lambda>q. [q]) (b i)) \<and> (\<forall>i q. b i = Some q \<longrightarrow> length q \<le> chanCap))"

lemma trySend_take: "length q \<le> chanCap \<Longrightarrow> trySend m q = take chanCap (q @ [m])"
  by (auto simp: trySend_def)

lemma map_of_filter_key: "map_of (filter (\<lambda>(k, v). P k) r) k = (if P k then map_of r k else None)"
  by (induction r) auto

text \<open>With well-chosen identifiers the prefix test of \<open>Unsubscribe\<close> hits exactly the subscriptions of the agent.\<close>

lemma unsubscribe_hits:
  assumes "ids_ok I" "i \<in> I" "j \<in> I"
  shows "length (boxKey j) > length i \<and> take (length i) (boxKey j) = i \<longleftrightarrow> i = j"
proof
  assume "length (boxKey j) > length i \<and> take (length i) (boxKey j) = i"
  then have "prefix i (boxKey j)" by (metis take_is_prefix)
  then consider "prefix i j" | us where "i = j @ us" "prefix us '':*''" by (auto simp: prefix_append)
  then show "i = j"
  proof cases
    case 1
    with assms show ?thesis by (simp add: ids_ok_def)
  next
    case 2
    have "us = []"
    proof (cases us)
      case (Cons ch us')
      with 2 have "CHR '':'' \<in> set i" by simp
      with assms(1,2) show ?thesis by (simp add: ids_ok_def)
    qed
    with 2 show ?thesis by simp
  qed
qed simp

text \<open>Every other operation only routes at most one message.\<close>

lemma coordStep_routes:
  assumes "opIDs op = {}"
  shows "co_agents (coordStep op c) = co_agents c"
    and "co_router (coordStep op c) = (case routed op c of None \<Rightarrow> co_router c | Some m \<Rightarrow> fst (Route (co_router c) m))"
  using assms
  by (cases op; simp add: SendMessage_def BroadcastMessage_def DelegateTask_def ShareData_def RequestVote_def QueryAgents_def sendNew_def routeOn_def
      fromNew_def Route_def Let_def split: option.splits sum.splits)+

lemma Route_box:
  assumes "box_inv I c b"
  shows "set (keys (fst (Route (co_router c) m))) = set (keys (co_router c))"
    and "map_of (fst (Route (co_router c) m)) (boxKey i) = map_option (\<lambda>q. [q]) (deliver m b i)"
proof -
  note inv = assms [unfolded box_inv_def]
  have send: "map (trySend m) [q] = [take chanCap (q @ [m])]" if "b i = Some q" for i q
    using inv that by (simp add: trySend_take)
  have "keys (map (\<lambda>(key, chans). (key, map (trySend m) chans)) r) = keys r" for r :: MessageRouter by (induction r) auto
  moreover have "boxKey (ms_To m) \<in> set (keys (co_router c))" if "map_of (co_router c) (boxKey (ms_To m)) = Some chans" for chans
    using that by (auto dest: map_of_SomeD intro: rev_image_eqI)
  ultimately show "set (keys (fst (Route (co_router c) m))) = set (keys (co_router c))"
    by (auto simp: Route_def keys_update_old simp del: map_map set_map split: option.split)
  show "map_of (fst (Route (co_router c) m)) (boxKey i) = map_option (\<lambda>q. [q]) (deliver m b i)"
  proof (cases "b i")
    case None
    with inv show ?thesis by (auto simp: Route_def deliver_def map_of_map split: option.split)
  next
    case (Some q)
    with inv send [OF Some] show ?thesis by (auto simp: Route_def deliver_def map_of_map split: option.split)
  qed
qed

lemma deliver_dom [simp]: "dom (deliver m b) = dom b"
  by (auto simp: deliver_def split: if_splits)

lemma box_inv_route:
  assumes "box_inv I c b" "opIDs op = {}"
  shows "box_inv I (coordStep op c) (boxSpec op (routed op c) b)"
proof -
  have spec: "boxSpec op (routed op c) b = (case routed op c of None \<Rightarrow> b | Some m \<Rightarrow> deliver m b)"
    using assms(2) by (cases op) (simp_all add: boxSpec_def)
  show ?thesis
  proof (cases "routed op c")
    case None
    with assms(1) show ?thesis unfolding spec by (simp add: box_inv_def coordStep_routes [OF assms(2)])
  next
    case (Some m)
    have "length q \<le> chanCap" if "deliver m b i = Some q" for i q
      using that assms(1) by (auto simp: deliver_def box_inv_def split: if_splits)
    with Some assms(1) Route_box [OF assms(1), of m] show ?thesis
      unfolding spec by (simp add: box_inv_def coordStep_routes [OF assms(2)])
  qed
qed

lemma box_inv_register:
  assumes "box_inv I c b" "ag_ID a \<in> I"
  shows "box_inv I (coordStep (CRegister a) c) (boxSpec (CRegister a) None b)"
proof -
  note inv = assms(1) [unfolded box_inv_def]
  show ?thesis
  proof (cases "b (ag_ID a)")
    case None
    with inv have new: "\<not> has_key (co_agents c) (ag_ID a)" "map_of (co_router c) (boxKey (ag_ID a)) = None"
      by (auto simp: has_key_iff domIff)
    with None inv assms(2) show ?thesis
      by (auto simp: box_inv_def boxSpec_def RegisterAgent_def Subscribe_def subKey_def get_list_def Let_def wf_map_update)
  next
    case (Some q)
    with inv have "has_key (co_agents c) (ag_ID a)" by (auto simp: has_key_iff)
    with Some assms(1) show ?thesis by (simp add: boxSpec_def RegisterAgent_def)
  qed
qed

lemma box_inv_unregister:
  assumes "box_inv I c b" "ids_ok I" "i \<in> I"
  shows "box_inv I (coordStep (CUnregister i) c) (boxSpec (CUnregister i) None b)"
proof -
  note inv = assms(1) [unfolded box_inv_def]
  define hit where "hit key \<longleftrightarrow> length key > length i \<and> take (length i) key = i" for key :: string
  have hit: "hit (boxKey j) \<longleftrightarrow> i = j" if "j \<in> dom b" for j
    using unsubscribe_hits [OF assms(2,3)] that inv unfolding hit_def by blast
  have r: "co_router (coordStep (CUnregister i) c) = filter (\<lambda>(key, chans). \<not> hit key) (co_router c)"
    by (simp add: UnregisterAgent_def Unsubscribe_def hit_def)
  have "map_of (filter (\<lambda>(key, chans). \<not> hit key) (co_router c)) (boxKey j) = map_option (\<lambda>q. [q]) ((b(i := None)) j)" for j
  proof (cases "j \<in> dom b")
    case True
    with hit [OF True] inv show ?thesis unfolding map_of_filter_key by auto
  next
    case False
    with inv show ?thesis unfolding map_of_filter_key by (auto simp: domIff)
  qed
  moreover have "set (keys (filter (\<lambda>(key, chans). \<not> hit key) (co_router c))) = boxKey ` dom (b(i := None))"
  proof -
    have "set (keys (filter (\<lambda>(key, chans). \<not> hit key) (co_router c))) = {k \<in> set (keys (co_router c)). \<not> hit k}" by force
    also have "\<dots> = boxKey ` (dom b - {i})" using inv hit by auto
    finally show ?thesis by simp
  qed
  moreover have "set (keys (AList.delete i (co_agents c))) = dom (b(i := None))" using inv by (simp add: AList.delete_keys)
  moreover have "length q \<le> chanCap" if "(b(i := None)) j = Some q" for j q using that inv by (auto split: if_splits)
  ultimately show ?thesis
    using inv unfolding box_inv_def r by (auto simp: boxSpec_def UnregisterAgent_def wf_map_delete)
qed

lemma box_inv_run:
  "box_inv I c b \<Longrightarrow> ids_ok I \<Longrightarrow> \<Union> (opIDs ` set ops) \<subseteq> I \<Longrightarrow> coordRun ops (c, b) = (c', b') \<Longrightarrow> box_inv I c' b'"
proof (induction ops arbitrary: c b)
  case (Cons op ops)
  have "box_inv I (coordStep op c) (boxSpec op (routed op c) b)"
  proof (cases op)
    case (CRegister a)
    with Cons.prems box_inv_register [of I c b a] show ?thesis by simp
  next
    case (CUnregister i)
    with Cons.prems box_inv_unregister [of I c b i] show ?thesis by simp
  qed (use Cons.prems box_inv_route [of I c b op] in simp_all)
  with Cons show ?case by simp
qed simp

section \<open>Properties\<close>

text \<open>
  C26. The coordinator refines a set of mailboxes: when no identifier contains a colon or begins another one, any sequence of
  registrations, deregistrations and messages leaves, for every agent, exactly one channel if it is registered and none otherwise, and the
  channel holds what the specification delivers: in order, the messages to the agent and the broadcasts since its registration, none
  of them lost until 100 wait and all later ones dropped.
\<close>

theorem coordinator_refines_mailboxes:
  assumes "ids_ok (\<Union> (opIDs ` set ops))" "coordRun ops (NewCoordinator, Map.empty) = (c, b)"
  shows "set (keys (co_agents c)) = dom b \<and> (\<forall>i. map_of (co_router c) (i @ '':*'') = map_option (\<lambda>q. [q]) (b i)) \<and>
    set (keys (co_router c)) = (\<lambda>i. i @ '':*'') ` dom b \<and> (\<forall>i q. b i = Some q \<longrightarrow> length q \<le> chanCap)"
proof -
  have "box_inv (\<Union> (opIDs ` set ops)) NewCoordinator Map.empty" by (simp add: box_inv_def NewCoordinator_def)
  from box_inv_run [OF this assms(1) order_refl assms(2)] show ?thesis by (simp add: box_inv_def)
qed

definition demoAgent :: "string \<Rightarrow> AgentInfo" where
  "demoAgent i = \<lparr>ag_ID = i, ag_Name = i, ag_Capabilities = [''code''], ag_Status = ''idle'', ag_Metadata = []\<rparr>"

definition demoMsg :: "string \<Rightarrow> AgentMessage" where
  "demoMsg to = \<lparr>ms_ID = ''m'', ms_From = ''x'', ms_To = to, ms_Type = ''request'', ms_Action = ''query'', ms_Payload = ''1'', ms_Timestamp = 0,
     ms_ReplyTo = [], ms_Priority = 1\<rparr>"

theorem coordinator_refines_mailboxes_witness:
  "map_of (co_router (fst (coordRun [CRegister (demoAgent ''ann''), CRegister (demoAgent ''bob''), CSend (demoMsg ''bob''), CSend (demoMsg ''*''), CUnregister ''ann'']
     (NewCoordinator, Map.empty)))) ''bob:*'' = Some [[demoMsg ''bob'', demoMsg ''*'']]"
proof -
  let ?ops = "[CRegister (demoAgent ''ann''), CRegister (demoAgent ''bob''), CSend (demoMsg ''bob''), CSend (demoMsg ''*''), CUnregister ''ann'']"
  obtain c b where cb: "coordRun ?ops (NewCoordinator, Map.empty) = (c, b)" by fastforce
  have "b ''bob'' = Some [demoMsg ''bob'', demoMsg ''*'']"
  proof -
    have "snd (coordRun ?ops (NewCoordinator, Map.empty)) ''bob'' = Some [demoMsg ''bob'', demoMsg ''*'']" by code_simp
    with cb show ?thesis by simp
  qed
  moreover have "ids_ok (\<Union> (opIDs ` set ?ops))" by (simp add: ids_ok_def demoAgent_def)
  from coordinator_refines_mailboxes [OF this cb] have "map_of (co_router c) (''bob'' @ '':*'') = map_option (\<lambda>q. [q]) (b ''bob'')" by blast
  ultimately show ?thesis using cb by simp
qed

text \<open>
  Without that condition deregistering one agent silences others: \<open>Unsubscribe\<close> deletes every subscription whose key
  begins with the identifier, and the agent stays registered without a channel.
\<close>

lemma unregister_silences_others:
  assumes "c = coordStep (CUnregister ''a'') (coordStep (CRegister (demoAgent ''ab'')) (coordStep (CRegister (demoAgent ''a'')) NewCoordinator))"
  shows "GetAgent c ''ab'' = Inr (demoAgent ''ab'') \<and> co_router c = []"
  unfolding assms by code_simp

text \<open>A delegated task goes to an agent that is not busy and has every required capability, and is refused only if there is none.\<close>

lemma findCapable_Inr:
  "findCapable required agents = Inr a \<Longrightarrow> a \<in> snd ` set agents \<and> ag_Status a \<noteq> ''busy'' \<and> hasCapabilities (ag_Capabilities a) required"
  by (induction required agents rule: findCapable.induct) (auto split: if_splits)

lemma findCapable_Inl:
  "findCapable required agents = Inl err \<Longrightarrow> (i, a) \<in> set agents \<Longrightarrow> ag_Status a = ''busy'' \<or> \<not> hasCapabilities (ag_Capabilities a) required"
  by (induction required agents rule: findCapable.induct) (auto split: if_splits)

lemma hasCapabilities_iff: "hasCapabilities caps required \<longleftrightarrow> set required \<subseteq> set caps"
  by (auto simp: hasCapabilities_def list_all_iff)

end
