(* ===== verification/Memory.thy ===== *)
theory Memory
  imports Go_Prelude
begin

text \<open>
  The memory tiers of an agent, \<open>pkg/memory\<close>: working memory, persistent memory over the key-value stores of \<open>internal/store\<close>, the
  in-memory semantic store with its similarity search, and the manager. The interface \<open>PersistentStore\<close> is the locale
  \<open>persistent_store\<close>, interpreted by the SQLite and the PostgreSQL store. Embeddings and scores are reals; what \<open>encoding/json\<close>
  answers and the driver's error are arguments.
\<close>

section \<open>Working memory\<close>

type_synonym WorkingMemory = "any smap"

definition wm_Get :: "WorkingMemory \<Rightarrow> string \<Rightarrow> any option" where
  "wm_Get w key = map_of w key"

definition wm_Set :: "WorkingMemory \<Rightarrow> string \<Rightarrow> any \<Rightarrow> WorkingMemory" where
  "wm_Set w key v = AList.update key v w"

definition wm_Delete :: "WorkingMemory \<Rightarrow> string \<Rightarrow> WorkingMemory" where
  "wm_Delete w key = AList.delete key w"

definition wm_Clear :: "WorkingMemory \<Rightarrow> WorkingMemory" where
  "wm_Clear w = []"

definition wm_All :: "WorkingMemory \<Rightarrow> any smap" where
  "wm_All w = fold (\<lambda>(k, v) out. AList.update k v out) w []"

section \<open>Key-value stores\<close>

type_synonym kv_table = "((string \<times> string) \<times> string option) list"

definition kv_Get :: "kv_table \<Rightarrow> gerror option \<Rightarrow> string \<Rightarrow> string \<Rightarrow> gerror + string option" where
  "kv_Get t db agentID key =
     (case db of Some err \<Rightarrow> Inl err | None \<Rightarrow> Inr (case map_of t (agentID, key) of None \<Rightarrow> None | Some v \<Rightarrow> v))"

text \<open>\<open>INSERT OR REPLACE\<close> of SQLite deletes the old row and adds a new one; \<open>ON CONFLICT DO UPDATE\<close> of PostgreSQL changes it in place.\<close>

definition sqlite_Set :: "kv_table \<Rightarrow> gerror option \<Rightarrow> string \<Rightarrow> string \<Rightarrow> string \<Rightarrow> kv_table \<times> gerror option" where
  "sqlite_Set t db agentID key v =
     (if db \<noteq> None then (t, db) else (AList.delete (agentID, key) t @ [((agentID, key), Some v)], None))"

definition postgres_Set :: "kv_table \<Rightarrow> gerror option \<Rightarrow> string \<Rightarrow> string \<Rightarrow> string \<Rightarrow> kv_table \<times> gerror option" where
  "postgres_Set t db agentID key v = (if db \<noteq> None then (t, db) else (AList.update (agentID, key) (Some v) t, None))"

definition kv_Delete :: "kv_table \<Rightarrow> gerror option \<Rightarrow> string \<Rightarrow> string \<Rightarrow> kv_table \<times> gerror option" where
  "kv_Delete t db agentID key = (if db \<noteq> None then (t, db) else (AList.delete (agentID, key) t, None))"

definition kv_ListKeys :: "kv_table \<Rightarrow> gerror option \<Rightarrow> string \<Rightarrow> gerror + string list" where
  "kv_ListKeys t db agentID =
     (case db of Some err \<Rightarrow> Inl err | None \<Rightarrow> Inr (map (\<lambda>r. snd (fst r)) (filter (\<lambda>r. fst (fst r) = agentID) t)))"

definition kv_DeleteAgent :: "kv_table \<Rightarrow> gerror option \<Rightarrow> string \<Rightarrow> kv_table \<times> gerror option" where
  "kv_DeleteAgent t db agentID = (if db \<noteq> None then (t, db) else (filter (\<lambda>r. fst (fst r) \<noteq> agentID) t, None))"

section \<open>Persistent memory\<close>

text \<open>The operations of an agent over a store given by its functions; \<open>None\<close> is a destination left as it was.\<close>

definition pm_Get ::
    "('s \<Rightarrow> gerror option \<Rightarrow> string \<Rightarrow> string \<Rightarrow> gerror + string option) \<Rightarrow> (string \<Rightarrow> gerror + 'v) \<Rightarrow> 's \<Rightarrow> gerror option \<Rightarrow> string \<Rightarrow> string \<Rightarrow> gerror + 'v option" where
  "pm_Get get unmarshal s db agentID key =
     (case get s db agentID key of
        Inl err \<Rightarrow> Inl err
      | Inr None \<Rightarrow> Inr None
      | Inr (Some b) \<Rightarrow> (case unmarshal b of Inl err \<Rightarrow> Inl err | Inr v \<Rightarrow> Inr (Some v)))"

definition pm_Set ::
    "('s \<Rightarrow> gerror option \<Rightarrow> string \<Rightarrow> string \<Rightarrow> string \<Rightarrow> 's \<times> gerror option) \<Rightarrow> ('v \<Rightarrow> gerror + string) \<Rightarrow> 's \<Rightarrow> gerror option \<Rightarrow> string \<Rightarrow> string \<Rightarrow> 'v \<Rightarrow> 's \<times> gerror option" where
  "pm_Set put marshal s db agentID key v =
     (case marshal v of Inl err \<Rightarrow> (s, Some err) | Inr b \<Rightarrow> put s db agentID key b)"

definition pm_Delete ::
    "('s \<Rightarrow> gerror option \<Rightarrow> string \<Rightarrow> string \<Rightarrow> 's \<times> gerror option) \<Rightarrow> 's \<Rightarrow> gerror option \<Rightarrow> string \<Rightarrow> string \<Rightarrow> 's \<times> gerror option" where
  "pm_Delete del s db agentID key = del s db agentID key"

section \<open>Semantic memory\<close>

record vectorEntry =
  ve_ID :: string
  ve_Embedding :: "real list"
  ve_Metadata :: "any smap"

record SearchResult =
  hit_ID :: string
  hit_Score :: real
  hit_Metadata :: "any smap"

type_synonym semantic_store = "(vectorEntry smap) smap"

definition sem_Upsert :: "semantic_store \<Rightarrow> string \<Rightarrow> string \<Rightarrow> real list \<Rightarrow> any smap \<Rightarrow> semantic_store" where
  "sem_Upsert s agentID i embedding metadata =
     AList.update agentID
       (AList.update i \<lparr>ve_ID = i, ve_Embedding = embedding, ve_Metadata = metadata\<rparr> (case map_of s agentID of None \<Rightarrow> [] | Some vs \<Rightarrow> vs)) s"

definition dotProduct :: "real list \<Rightarrow> real list \<Rightarrow> real" where
  "dotProduct a b = sum_list (map2 (*) a b)"

definition cosineSimilarity :: "real list \<Rightarrow> real list \<Rightarrow> real" where
  "cosineSimilarity a b =
     (if length a \<noteq> length b then 0
      else if dotProduct a a = 0 \<or> dotProduct b b = 0 then 0
      else dotProduct a b / (sqrt (dotProduct a a) * sqrt (dotProduct b b)))"

text \<open>One comparison of the two nested loops, the inner and the outer loop.\<close>

definition exchange :: "nat \<Rightarrow> nat \<Rightarrow> ('e \<times> real) list \<Rightarrow> ('e \<times> real) list" where
  "exchange i j xs = (if snd (xs ! j) > snd (xs ! i) then xs[i := xs ! j, j := xs ! i] else xs)"

definition sortInner :: "nat \<Rightarrow> nat \<Rightarrow> ('e \<times> real) list \<Rightarrow> ('e \<times> real) list" where
  "sortInner i n xs = fold (exchange i) [Suc i..<n] xs"

definition sortByScore :: "('e \<times> real) list \<Rightarrow> ('e \<times> real) list" where
  "sortByScore xs = fold (\<lambda>i. sortInner i (length xs)) [0..<length xs] xs"

definition searchHit :: "vectorEntry \<times> real \<Rightarrow> SearchResult" where
  "searchHit p = \<lparr>hit_ID = ve_ID (fst p), hit_Score = snd p, hit_Metadata = ve_Metadata (fst p)\<rparr>"

definition sem_Search :: "semantic_store \<Rightarrow> string \<Rightarrow> real list \<Rightarrow> int \<Rightarrow> gerror + SearchResult list" where
  "sem_Search s agentID query topK =
     (let vs = (case map_of s agentID of None \<Rightarrow> [] | Some vs \<Rightarrow> vs)
      in if vs = [] then Inr []
         else (let scored = sortByScore (map (\<lambda>(i, e). (e, cosineSimilarity query (ve_Embedding e))) vs);
                   k = (if topK > int (length scored) then int (length scored) else topK)
               in if k < 0 then Inl (Errorf ''panic: makeslice: len out of range'')
                  else Inr (map searchHit (take (nat k) scored))))"

definition sem_DeleteAgent :: "semantic_store \<Rightarrow> string \<Rightarrow> semantic_store \<times> gerror option" where
  "sem_DeleteAgent s agentID = (AList.delete agentID s, None)"

definition sem_Stats :: "semantic_store \<Rightarrow> nat smap" where
  "sem_Stats s = map (\<lambda>(agentID, vs). (agentID, length vs)) s"

section \<open>Manager\<close>

record 's Manager =
  mm_working :: WorkingMemory
  mm_persistent :: "'s option"
  mm_semantic :: "semantic_store option"
  mm_agentID :: string

definition NewManager :: "string \<Rightarrow> 's option \<Rightarrow> semantic_store option \<Rightarrow> 's Manager" where
  "NewManager agentID persistent semantic = \<lparr>mm_working = [], mm_persistent = persistent, mm_semantic = semantic, mm_agentID = agentID\<rparr>"

definition ClearSession :: "'s Manager \<Rightarrow> 's Manager" where
  "ClearSession m = m\<lparr>mm_working := wm_Clear (mm_working m)\<rparr>"

definition deleteSemantic :: "'s Manager \<Rightarrow> 's Manager \<times> gerror option" where
  "deleteSemantic m =
     (case mm_semantic m of
        None \<Rightarrow> (m, None)
      | Some sem \<Rightarrow> (m\<lparr>mm_semantic := Some (fst (sem_DeleteAgent sem (mm_agentID m)))\<rparr>, snd (sem_DeleteAgent sem (mm_agentID m))))"

definition mm_DeleteAgent :: "('s \<Rightarrow> gerror option \<Rightarrow> string \<Rightarrow> 's \<times> gerror option) \<Rightarrow> gerror option \<Rightarrow> 's Manager \<Rightarrow> 's Manager \<times> gerror option" where
  "mm_DeleteAgent deleteAgent db m =
     (let m1 = m\<lparr>mm_working := wm_Clear (mm_working m)\<rparr>
      in case mm_persistent m1 of
           None \<Rightarrow> deleteSemantic m1
         | Some s \<Rightarrow>
             (case deleteAgent s db (mm_agentID m) of
                (s', Some err) \<Rightarrow> (m1\<lparr>mm_persistent := Some s'\<rparr>, Some err)
              | (s', None) \<Rightarrow> deleteSemantic (m1\<lparr>mm_persistent := Some s'\<rparr>)))"

section \<open>The interface of a persistent store\<close>

locale persistent_store =
  fixes get :: "'s \<Rightarrow> gerror option \<Rightarrow> string \<Rightarrow> string \<Rightarrow> gerror + string option"
    and put :: "'s \<Rightarrow> gerror option \<Rightarrow> string \<Rightarrow> string \<Rightarrow> string \<Rightarrow> 's \<times> gerror option"
    and del :: "'s \<Rightarrow> gerror option \<Rightarrow> string \<Rightarrow> string \<Rightarrow> 's \<times> gerror option"
    and delAgent :: "'s \<Rightarrow> gerror option \<Rightarrow> string \<Rightarrow> 's \<times> gerror option"
  assumes get_total: "\<exists>v. get s None a k = Inr v"
    and put_ok: "put s None a k v = (s', err) \<Longrightarrow> err = None \<and> get s' None a' k' = (if (a', k') = (a, k) then Inr (Some v) else get s None a' k')"
    and del_ok: "del s None a k = (s', err) \<Longrightarrow> err = None \<and> get s' None a' k' = (if (a', k') = (a, k) then Inr None else get s None a' k')"
    and delAgent_ok: "delAgent s None a = (s', err) \<Longrightarrow> err = None \<and> get s' None a' k' = (if a' = a then Inr None else get s None a' k')"
    and put_fails: "put s (Some e) a k v = (s, Some e)"
    and del_fails: "del s (Some e) a k = (s, Some e)"
    and delAgent_fails: "delAgent s (Some e) a = (s, Some e)"
begin

lemma set_get:
  assumes "marshal v = Inr b" "unmarshal b = Inr w"
  shows "pm_Get get unmarshal (fst (pm_Set put marshal s None a k v)) None a k = Inr (Some w)"
  using assms put_ok [of s a k b "fst (put s None a k b)" "snd (put s None a k b)" a k] by (simp add: pm_Get_def pm_Set_def)

lemma set_get_other:
  assumes "(a', k') \<noteq> (a, k)"
  shows "pm_Get get unmarshal (fst (pm_Set put marshal s db a k v)) None a' k' = pm_Get get unmarshal s None a' k'"
proof (cases "marshal v")
  case (Inr b)
  show ?thesis
  proof (cases db)
    case None
    with Inr assms put_ok [of s a k b "fst (put s None a k b)" "snd (put s None a k b)" a' k'] show ?thesis by (auto simp: pm_Get_def pm_Set_def)
  next
    case (Some e)
    with Inr show ?thesis by (simp add: pm_Get_def pm_Set_def put_fails)
  qed
qed (simp add: pm_Set_def)

lemma erased:
  assumes "mm_DeleteAgent delAgent db m = (m', None)"
  shows "mm_working m' = [] \<and> mm_agentID m' = mm_agentID m \<and>
    (\<forall>s. mm_persistent m' = Some s \<longrightarrow> (\<forall>k. get s None (mm_agentID m) k = Inr None) \<and>
       (\<exists>t. mm_persistent m = Some t \<and> (\<forall>a k. a \<noteq> mm_agentID m \<longrightarrow> get s None a k = get t None a k))) \<and>
    (\<forall>sem. mm_semantic m' = Some sem \<longrightarrow> map_of sem (mm_agentID m) = None \<and>
       (\<exists>t. mm_semantic m = Some t \<and> (\<forall>a. a \<noteq> mm_agentID m \<longrightarrow> map_of sem a = map_of t a)))"
proof (cases "mm_persistent m")
  case None
  with assms show ?thesis
    by (auto simp: mm_DeleteAgent_def deleteSemantic_def sem_DeleteAgent_def Let_def wm_Clear_def delete_conv split: option.splits)
next
  case (Some t)
  obtain s e where d: "delAgent t db (mm_agentID m) = (s, e)" by fastforce
  with assms Some have e: "e = None" by (auto simp: mm_DeleteAgent_def Let_def split: option.splits)
  with d have "db = None" using delAgent_fails by (cases db) auto
  with d e delAgent_ok [of t "mm_agentID m" s e] have "get s None a k = (if a = mm_agentID m then Inr None else get t None a k)" for a k by blast
  with assms Some d e show ?thesis
    by (auto simp: mm_DeleteAgent_def deleteSemantic_def sem_DeleteAgent_def Let_def wm_Clear_def delete_conv split: option.splits)
qed

end

lemma kv_Get_append: "kv_Get (AList.delete (a, k) t @ [((a, k), Some v)]) None a' k' = (if (a', k') = (a, k) then Inr (Some v) else kv_Get t None a' k')"
  by (auto simp: kv_Get_def map_add_def delete_conv' split: option.split)

lemma kv_Get_delAgent: "kv_Get (filter (\<lambda>r. fst (fst r) \<noteq> a) t) None a' k' = (if a' = a then Inr None else kv_Get t None a' k')"
  by (induction t) (auto simp: kv_Get_def)

interpretation sqlite: persistent_store kv_Get sqlite_Set kv_Delete kv_DeleteAgent
  by unfold_locales (auto simp: sqlite_Set_def kv_Delete_def kv_DeleteAgent_def kv_Get_append kv_Get_delAgent, auto simp: kv_Get_def delete_conv')

interpretation postgres: persistent_store kv_Get postgres_Set kv_Delete kv_DeleteAgent
  by unfold_locales (auto simp: postgres_Set_def kv_Delete_def kv_DeleteAgent_def kv_Get_delAgent, auto simp: kv_Get_def delete_conv')

section \<open>Similarity\<close>

lemma dotProduct_self: "0 \<le> dotProduct a a"
  by (induction a) (auto simp: dotProduct_def)

lemma cauchy_schwarz: "length a = length b \<Longrightarrow> (dotProduct a b)\<^sup>2 \<le> dotProduct a a * dotProduct b b"
proof (induction rule: list_induct2)
  case (Cons x xs y ys)
  let ?p = "dotProduct xs ys" and ?A = "dotProduct xs xs" and ?B = "dotProduct ys ys"
  have pos: "0 \<le> x\<^sup>2 * ?B + y\<^sup>2 * ?A" using dotProduct_self by simp
  have "(2 * ?p * x * y)\<^sup>2 = 4 * (x\<^sup>2 * y\<^sup>2) * ?p\<^sup>2" by (simp add: power2_eq_square algebra_simps)
  also have "\<dots> \<le> 4 * (x\<^sup>2 * y\<^sup>2) * (?A * ?B)" using Cons.IH by (intro mult_left_mono) simp_all
  also have "\<dots> = 4 * (x\<^sup>2 * ?B) * (y\<^sup>2 * ?A)" by (simp add: algebra_simps)
  also have "\<dots> \<le> (x\<^sup>2 * ?B + y\<^sup>2 * ?A)\<^sup>2"
    using zero_le_power2 [of "x\<^sup>2 * ?B - y\<^sup>2 * ?A"] by (simp add: power2_eq_square algebra_simps)
  finally have "2 * ?p * x * y \<le> x\<^sup>2 * ?B + y\<^sup>2 * ?A" using pos by (rule power2_le_imp_le)
  with Cons.IH show ?case by (simp add: dotProduct_def power2_eq_square algebra_simps)
qed (simp add: dotProduct_def)

lemma cosine_bounds: "\<bar>cosineSimilarity a b\<bar> \<le> 1"
proof -
  have "\<bar>dotProduct a b\<bar> \<le> sqrt (dotProduct a a) * sqrt (dotProduct b b)" if "length a = length b"
    using real_sqrt_le_mono [OF cauchy_schwarz [OF that]] by (simp only: real_sqrt_abs real_sqrt_mult)
  moreover have "0 < sqrt (dotProduct a a) * sqrt (dotProduct b b)" if "dotProduct a a \<noteq> 0" "dotProduct b b \<noteq> 0"
    using that dotProduct_self [of a] dotProduct_self [of b] by simp
  ultimately show ?thesis by (auto simp: cosineSimilarity_def abs_mult divide_le_eq dotProduct_self)
qed

section \<open>The exchange sort\<close>

lemma sortInner_Suc: "Suc i \<le> n \<Longrightarrow> sortInner i (Suc n) xs = exchange i n (sortInner i n xs)"
  by (simp add: sortInner_def)

lemma exchange_simps [simp]: "length (exchange i j xs) = length xs"
  by (simp add: exchange_def)

lemma mset_exchange: "i < length xs \<Longrightarrow> j < length xs \<Longrightarrow> mset (exchange i j xs) = mset xs"
  by (simp add: exchange_def mset_swap)

lemma sortInner_inv:
  assumes "i < length xs" "n \<le> length xs"
  shows "length (sortInner i n xs) = length xs \<and> mset (sortInner i n xs) = mset xs \<and> (\<forall>k < i. sortInner i n xs ! k = xs ! k) \<and>
    (\<forall>k. i < k \<and> k < n \<longrightarrow> snd (sortInner i n xs ! k) \<le> snd (sortInner i n xs ! i))"
  using assms(2)
proof (induction n)
  case (Suc n)
  show ?case
  proof (cases "Suc i \<le> n")
    case True
    let ?ys = "sortInner i n xs"
    from Suc have IH: "length ?ys = length xs" "mset ?ys = mset xs" "\<forall>k < i. ?ys ! k = xs ! k"
      "\<forall>k. i < k \<and> k < n \<longrightarrow> snd (?ys ! k) \<le> snd (?ys ! i)" by simp_all
    have "mset (exchange i n ?ys) = mset xs" using IH assms(1) Suc.prems by (simp add: mset_exchange)
    moreover have "snd (exchange i n ?ys ! k) \<le> snd (exchange i n ?ys ! i)" if "i < k" "k < Suc n" for k
      using that IH(1,4) True assms(1) Suc.prems by (auto simp: exchange_def nth_list_update less_Suc_eq)
    ultimately show ?thesis
      using IH True assms(1) Suc.prems by (auto simp: sortInner_Suc exchange_def nth_list_update)
  next
    case False
    then have "sortInner i (Suc n) xs = xs" by (simp add: sortInner_def)
    with False show ?thesis by auto
  qed
qed (simp add: sortInner_def)

lemma set_drop_eq:
  assumes "length ys = length xs" "mset ys = mset xs" "\<forall>k < i. ys ! k = xs ! k" "i \<le> length xs"
  shows "set (drop i ys) = set (drop i xs)"
proof -
  have t: "take i ys = take i xs" using assms by (intro nth_equalityI) auto
  have "mset (take i ys) + mset (drop i ys) = mset (take i xs) + mset (drop i xs)"
    using assms(2) by (metis append_take_drop_id mset_append)
  with t have "mset (drop i ys) = mset (drop i xs)" by simp
  then show ?thesis by (metis set_mset_mset)
qed

lemma sortOuter_inv:
  assumes "m \<le> length xs"
  shows "(let ys = fold (\<lambda>i. sortInner i (length xs)) [0..<m] xs in length ys = length xs \<and> mset ys = mset xs \<and>
    (\<forall>a b. a < m \<and> a < b \<and> b < length xs \<longrightarrow> snd (ys ! b) \<le> snd (ys ! a)))"
  using assms
proof (induction m)
  case (Suc m)
  define ys where "ys = fold (\<lambda>i. sortInner i (length xs)) [0..<m] xs"
  define zs where "zs = sortInner m (length xs) ys"
  from Suc have IH: "length ys = length xs" "mset ys = mset xs" "\<And>a b. a < m \<Longrightarrow> a < b \<Longrightarrow> b < length xs \<Longrightarrow> snd (ys ! b) \<le> snd (ys ! a)"
    by (simp_all add: ys_def Let_def)
  have zs: "length zs = length ys" "mset zs = mset ys" "\<forall>k < m. zs ! k = ys ! k" "\<forall>k. m < k \<and> k < length xs \<longrightarrow> snd (zs ! k) \<le> snd (zs ! m)"
    using sortInner_inv [of m ys "length xs"] IH(1) Suc.prems by (simp_all add: zs_def)
  have "snd (zs ! b) \<le> snd (zs ! a)" if "a < Suc m" "a < b" "b < length xs" for a b
  proof (cases "a = m \<or> b < m")
    case True
    with that zs IH show ?thesis by auto
  next
    case False
    with that have ab: "a < m" "m \<le> b" by auto
    have "zs ! b \<in> set (drop m zs)" using ab that zs(1) IH(1) by (auto simp: in_set_conv_nth intro!: exI [of _ "b - m"])
    also have "set (drop m zs) = set (drop m ys)" using zs(1-3) IH(1) Suc.prems by (intro set_drop_eq) simp_all
    finally obtain k where "zs ! b = drop m ys ! k" "k < length ys - m" by (metis in_set_conv_nth length_drop)
    then have "zs ! b = ys ! (m + k)" "m + k < length ys" by (simp_all add: IH(1))
    with IH(1) IH(3) [of a "m + k"] ab zs(3) show ?thesis by simp
  qed
  with zs IH show ?case by (simp add: Let_def flip: ys_def zs_def)
qed simp

text \<open>The two loops sort: a permutation in descending order of the scores.\<close>

lemma sortByScore_sorts: "mset (sortByScore xs) = mset xs \<and> sorted_wrt (\<lambda>x y. snd y \<le> snd x) (sortByScore xs)"
  using sortOuter_inv [of "length xs" xs] by (simp add: sortByScore_def Let_def sorted_wrt_iff_nth_less)

section \<open>Properties\<close>

text \<open>
  The similarity search ranks: for a non-negative \<open>topK\<close> it returns that many entries of the agent, or all if there are fewer, each
  once and with its cosine similarity, a number between -1 and 1, in descending order; an entry that is left out scores no more than
  any that is returned, and no entry of another agent is looked at.
\<close>

theorem search_ranks:
  assumes "map_of s agentID = Some vs" "0 \<le> topK"
  shows "\<exists>ranked. mset ranked = mset (map (\<lambda>(i, e). (e, cosineSimilarity query (ve_Embedding e))) vs) \<and>
    sem_Search s agentID query topK = Inr (map searchHit (take (nat topK) ranked)) \<and>
    sorted_wrt (\<lambda>x y. snd y \<le> snd x) ranked \<and>
    (\<forall>kept \<in> set (take (nat topK) ranked). \<forall>left \<in> set (drop (nat topK) ranked). snd left \<le> snd kept) \<and>
    (\<forall>p \<in> set ranked. snd p = cosineSimilarity query (ve_Embedding (fst p)) \<and> -1 \<le> snd p \<and> snd p \<le> 1)"
proof -
  let ?scored = "map (\<lambda>(i, e). (e, cosineSimilarity query (ve_Embedding e))) vs"
  let ?r = "sortByScore ?scored"
  have ms: "mset ?r = mset ?scored" and so: "sorted_wrt (\<lambda>x y. snd y \<le> snd x) ?r" using sortByScore_sorts [of ?scored] by simp_all
  have len: "length ?r = length vs" using mset_eq_length [OF ms] by simp
  have "set ?r = set ?scored" using ms by (metis set_mset_mset)
  then have sc: "\<forall>p \<in> set ?r. snd p = cosineSimilarity query (ve_Embedding (fst p)) \<and> -1 \<le> snd p \<and> snd p \<le> 1"
    using cosine_bounds [of query] by (auto simp: abs_le_iff minus_le_iff)
  have "sorted_wrt (\<lambda>x y. snd y \<le> snd x) (take (nat topK) ?r @ drop (nat topK) ?r)" using so by simp
  then have split: "\<forall>kept \<in> set (take (nat topK) ?r). \<forall>left \<in> set (drop (nat topK) ?r). snd left \<le> snd kept"
    unfolding sorted_wrt_append by blast
  have "sem_Search s agentID query topK = Inr (map searchHit (take (nat topK) ?r))"
  proof (cases "vs = []")
    case True
    with assms(1) show ?thesis by (simp add: sem_Search_def sortByScore_def)
  next
    case False
    with assms len show ?thesis by (auto simp: sem_Search_def Let_def)
  qed
  with ms so sc split show ?thesis by (intro exI [of _ ?r]) blast
qed

definition demoVectors :: "vectorEntry smap" where
  "demoVectors = [(''x'', \<lparr>ve_ID = ''x'', ve_Embedding = [1, 0], ve_Metadata = []\<rparr>), (''y'', \<lparr>ve_ID = ''y'', ve_Embedding = [0, 1], ve_Metadata = []\<rparr>)]"

lemma demoVectors_upserts: "sem_Upsert (sem_Upsert [] ''a'' ''x'' [1, 0] []) ''a'' ''y'' [0, 1] [] = [(''a'', demoVectors)]"
  by (simp add: sem_Upsert_def demoVectors_def)

theorem search_ranks_witness: "\<exists>hits. sem_Search [(''a'', demoVectors)] ''a'' [0, 1] 1 = Inr hits \<and> length hits = 1"
proof -
  have "map_of [(''a'', demoVectors)] ''a'' = Some demoVectors" "(0 :: int) \<le> 1" by simp_all
  from search_ranks [OF this, of "[0, 1]"] obtain ranked where
    r: "mset ranked = mset (map (\<lambda>(i, e). (e, cosineSimilarity [0, 1] (ve_Embedding e))) demoVectors)"
       "sem_Search [(''a'', demoVectors)] ''a'' [0, 1] 1 = Inr (map searchHit (take (nat 1) ranked))"
    by (elim exE conjE)
  from mset_eq_length [OF r(1)] have "length ranked = 2" by (simp add: demoVectors_def)
  then have "length (map searchHit (take (nat 1) ranked)) = 1" by simp
  with r(2) show ?thesis by blast
qed

definition erasedFor :: "string \<Rightarrow> 's Manager \<Rightarrow> 's Manager \<Rightarrow> ('s \<Rightarrow> string \<Rightarrow> string \<Rightarrow> gerror + string option) \<Rightarrow> bool" where
  "erasedFor agent m m' look \<longleftrightarrow> mm_working m' = [] \<and>
     rel_option (\<lambda>t t'. \<forall>x y. look t' x y = (if x = agent then Inr None else look t x y)) (mm_persistent m) (mm_persistent m') \<and>
     rel_option (\<lambda>s s'. \<forall>x query topK. sem_Search s' x query topK = (if x = agent then Inr [] else sem_Search s x query topK)) (mm_semantic m) (mm_semantic m')"

lemma search_deleted: "sem_Search (AList.delete a s) x query topK = (if x = a then Inr [] else sem_Search s x query topK)"
  by (simp add: sem_Search_def delete_conv')

lemma mm_DeleteAgent_erases:
  assumes "mm_DeleteAgent kv_DeleteAgent db m = (m', err)"
  shows "(err = None \<longleftrightarrow> mm_persistent m = None \<or> db = None) \<and> (err = None \<longrightarrow> erasedFor (mm_agentID m) m m' (\<lambda>t. kv_Get t None))"
proof (cases "mm_persistent m = None \<or> db = None")
  case True
  with assms show ?thesis
    by (auto simp: mm_DeleteAgent_def deleteSemantic_def sem_DeleteAgent_def kv_DeleteAgent_def Let_def wm_Clear_def erasedFor_def
        search_deleted kv_Get_delAgent split: option.splits)
next
  case False
  then obtain t e where "mm_persistent m = Some t" "db = Some e" by auto
  with assms show ?thesis by (auto simp: mm_DeleteAgent_def Let_def sqlite.delAgent_fails)
qed

text \<open>
  C27. Persistent memory over either key-value store is a map per agent: a value that \<open>encoding/json\<close> writes and reads back is found again
  after it was set, every other key and every other agent sees no change, whether the statement succeeds or not. Deleting an agent reports
  success exactly when the statement on the key-value store succeeds (or there is no such store), and then all three tiers are erased for that
  agent and unchanged for every other one: the session is empty, no key of the agent is found, and no similarity search of the agent finds a
  vector, while every look-up and every search of another agent answers as before.
\<close>

theorem agent_memory_isolated:
  assumes "marshal v = Inr b" "unmarshal b = Inr v" "(a', k') \<noteq> (a, k)" "put = sqlite_Set \<or> put = postgres_Set"
  shows "pm_Get kv_Get unmarshal (fst (pm_Set put marshal s None a k v)) None a k = Inr (Some v) \<and>
    pm_Get kv_Get unmarshal (fst (pm_Set put marshal s db a k v)) None a' k' = pm_Get kv_Get unmarshal s None a' k' \<and>
    (\<forall>m m' err. mm_DeleteAgent kv_DeleteAgent db m = (m', err) \<longrightarrow>
       (err = None \<longleftrightarrow> mm_persistent m = None \<or> db = None) \<and>
       (err = None \<longrightarrow> mm_working m' = [] \<and>
          rel_option (\<lambda>t t'. \<forall>x y. kv_Get t' None x y = (if x = mm_agentID m then Inr None else kv_Get t None x y)) (mm_persistent m) (mm_persistent m') \<and>
          rel_option (\<lambda>t t'. \<forall>x query topK. sem_Search t' x query topK = (if x = mm_agentID m then Inr [] else sem_Search t x query topK))
            (mm_semantic m) (mm_semantic m')))"
proof (intro conjI)
  show "pm_Get kv_Get unmarshal (fst (pm_Set put marshal s None a k v)) None a k = Inr (Some v)"
    using assms(4) sqlite.set_get [of marshal v b unmarshal v, OF assms(1,2)] postgres.set_get [of marshal v b unmarshal v, OF assms(1,2)] by auto
  show "pm_Get kv_Get unmarshal (fst (pm_Set put marshal s db a k v)) None a' k' = pm_Get kv_Get unmarshal s None a' k'"
    using assms(4) sqlite.set_get_other [OF assms(3)] postgres.set_get_other [OF assms(3)] by auto
qed (use mm_DeleteAgent_erases [unfolded erasedFor_def] in blast)

definition twoAgents :: "kv_table Manager" where
  "twoAgents = \<lparr>mm_working = [(''t'', ANil)], mm_persistent = Some (fst (postgres_Set (fst (postgres_Set [] None ''a'' ''k'' ''5'')) None ''b'' ''k'' ''6'')),
     mm_semantic = Some (sem_Upsert (sem_Upsert [] ''a'' ''x'' [1, 0] []) ''b'' ''y'' [0, 1] []), mm_agentID = ''a''\<rparr>"

theorem agent_memory_isolated_witness:
  "pm_Get kv_Get Inr (fst (pm_Set postgres_Set Inr [] None ''a'' ''k'' ''5'')) None ''a'' ''k'' = Inr (Some ''5'') \<and>
   (case mm_DeleteAgent kv_DeleteAgent None twoAgents of (m', err) \<Rightarrow> err = None \<and> mm_working m' = [] \<and>
      (\<exists>t t'. mm_persistent m' = Some t \<and> kv_Get t None ''a'' ''k'' = Inr None \<and> kv_Get t None ''b'' ''k'' = Inr (Some ''6'') \<and>
        mm_semantic m' = Some t' \<and> sem_Search t' ''a'' [1, 0] 0 = Inr []))"
proof -
  obtain m' err where d: "mm_DeleteAgent kv_DeleteAgent None twoAgents = (m', err)" by fastforce
  have "kv_Get (fst (postgres_Set (fst (postgres_Set [] None ''a'' ''k'' ''5'')) None ''b'' ''k'' ''6'')) None ''b'' ''k'' = Inr (Some ''6'')"
    by (simp add: kv_Get_def postgres_Set_def)
  with d agent_memory_isolated [where marshal = Inr and unmarshal = Inr and v = "''5''" and b = "''5''" and a' = "''b''" and k' = "''k''" and a = "''a''"
      and k = "''k''" and put = postgres_Set and s = "[]" and db = None, THEN conjunct2, THEN conjunct2, rule_format, OF _ _ _ _ d]
    agent_memory_isolated [where marshal = Inr and unmarshal = Inr and v = "''5''" and b = "''5''" and a' = "''b''" and k' = "''k''" and a = "''a''"
      and k = "''k''" and put = postgres_Set and s = "[]" and db = None, THEN conjunct1]
  show ?thesis by (auto simp: twoAgents_def option_rel_Some1)
qed

end
