(* ===== verification/Run_Store.thy ===== *)
theory Run_Store
  imports Runner Agent_Runtime
begin

text \<open>
  The run store, \<open>internal/store/sqlite.go\<close> and \<open>postgres.go\<close>: runs, events, step histories and dead letters; and the pruning of dead
  letters with its archive, \<open>pkg/orchestrate/deadletter_pruner.go\<close>. A table is a list of rows in the order of their row numbers and a JSON column
  the value its text decodes to, nothing for a text that is no JSON. SQLite keeps times as RFC 3339 text, that is in whole seconds, and compares them as
  text, which is the order of the seconds as long as the zone of the server does not change. The driver's error is an argument.
\<close>

section \<open>Runs\<close>

definition second :: int where
  "second = 1000000000"

definition rfcTime :: "int \<Rightarrow> int" where
  "rfcTime t = t - t mod second"

definition sqlite_SaveRun :: "RunMeta list \<Rightarrow> gerror option \<Rightarrow> RunMeta \<Rightarrow> RunMeta list \<times> gerror option" where
  "sqlite_SaveRun t db run =
     (if db \<noteq> None then (t, db)
      else (filter (\<lambda>r. rm_RunID r \<noteq> rm_RunID run) t @
              [run\<lparr>rm_CreatedAt := rfcTime (rm_CreatedAt run), rm_UpdatedAt := rfcTime (rm_UpdatedAt run)\<rparr>], None))"

text \<open>An upsert of PostgreSQL: an existing row keeps its place and its creation time.\<close>

definition upsertRun :: "RunMeta \<Rightarrow> RunMeta \<Rightarrow> RunMeta" where
  "upsertRun run r = r\<lparr>rm_AgentName := rm_AgentName run, rm_Goal := rm_Goal run, rm_State := rm_State run, rm_StepCount := rm_StepCount run,
     rm_UpdatedAt := rm_UpdatedAt run\<rparr>"

definition pg_SaveRun :: "RunMeta list \<Rightarrow> gerror option \<Rightarrow> RunMeta \<Rightarrow> RunMeta list \<times> gerror option" where
  "pg_SaveRun t db run =
     (if db \<noteq> None then (t, db)
      else if list_ex (\<lambda>r. rm_RunID r = rm_RunID run) t
      then (map (\<lambda>r. if rm_RunID r = rm_RunID run then upsertRun run r else r) t, None)
      else (t @ [run], None))"

definition GetRun :: "RunMeta list \<Rightarrow> gerror option \<Rightarrow> string \<Rightarrow> gerror + RunMeta option" where
  "GetRun t db runID = (case db of Some err \<Rightarrow> Inl err | None \<Rightarrow> Inr (find (\<lambda>r. rm_RunID r = runID) t))"

definition ListRuns :: "RunMeta list \<Rightarrow> gerror option \<Rightarrow> int \<Rightarrow> gerror + string list" where
  "ListRuns t db limit =
     (case db of
        Some err \<Rightarrow> Inl err
      | None \<Rightarrow> Inr (map rm_RunID (take (nat (if limit \<le> 0 then 100 else limit)) (sort_key (\<lambda>r. - rm_UpdatedAt r) t))))"

section \<open>Events\<close>

record StoredEvent =
  ev_RunID :: string
  ev_StepID :: string
  ev_Timestamp :: int
  ev_Type :: string
  ev_Agent :: string
  ev_Data :: "any smap"
  ev_Provider :: string
  ev_Name :: string
  ev_Version :: string

text \<open>\<open>stamp\<close> is what the column keeps of a time: \<^const>\<open>rfcTime\<close> for SQLite. The version of the model has no column.\<close>

definition SaveEvent :: "(int \<Rightarrow> int) \<Rightarrow> StoredEvent list \<Rightarrow> gerror option \<Rightarrow> string \<Rightarrow> StoredEvent \<Rightarrow> StoredEvent list \<times> gerror option" where
  "SaveEvent stamp t db runID evt =
     (if db \<noteq> None then (t, db)
      else (t @ [evt\<lparr>ev_RunID := runID, ev_Timestamp := stamp (ev_Timestamp evt), ev_Data := json_norm_map (ev_Data evt), ev_Version := []\<rparr>], None))"

definition GetEvents :: "StoredEvent list \<Rightarrow> gerror option \<Rightarrow> string \<Rightarrow> gerror + StoredEvent list" where
  "GetEvents t db runID = (case db of Some err \<Rightarrow> Inl err | None \<Rightarrow> Inr (filter (\<lambda>e. ev_RunID e = runID) t))"

section \<open>Step histories\<close>

record history_row =
  hr_run_id :: string
  hr_step_id :: string
  hr_timestamp :: int
  hr_state :: State
  hr_action_tool :: "string option"
  hr_action_version :: "string option"
  hr_action_input :: "any smap"
  hr_result_tool_id :: "string option"
  hr_result_output :: "any smap"
  hr_result_error :: "string option"
  hr_result_duration :: "int option"
  hr_reasoning :: string
  hr_metadata :: "any smap"

text \<open>SQLite: Go strings that stay empty are written as empty text, not as null.\<close>

definition sqliteRow :: "string \<Rightarrow> StepRecord \<Rightarrow> history_row" where
  "sqliteRow runID h = \<lparr>hr_run_id = runID, hr_step_id = sr_StepID h, hr_timestamp = rfcTime (sr_Timestamp h), hr_state = sr_State h,
     hr_action_tool = Some (case sr_Action h of None \<Rightarrow> [] | Some a \<Rightarrow> tc_Tool a),
     hr_action_version = Some (case sr_Action h of None \<Rightarrow> [] | Some a \<Rightarrow> tc_Version a),
     hr_action_input = (case sr_Action h of None \<Rightarrow> [] | Some a \<Rightarrow> json_norm_map (tc_Input a)),
     hr_result_tool_id = Some (case sr_Result h of None \<Rightarrow> [] | Some r \<Rightarrow> tr_ToolID r),
     hr_result_output = (case sr_Result h of None \<Rightarrow> [] | Some r \<Rightarrow> json_norm_map (tr_Output r)),
     hr_result_error = Some (case sr_Result h of None \<Rightarrow> [] | Some r \<Rightarrow> tr_Error r),
     hr_result_duration = Some (case sr_Result h of None \<Rightarrow> 0 | Some r \<Rightarrow> tr_Duration r),
     hr_reasoning = sr_Reasoning h, hr_metadata = json_norm_map (sr_Metadata h)\<rparr>"

definition pgRow :: "string \<Rightarrow> StepRecord \<Rightarrow> history_row" where
  "pgRow runID h = \<lparr>hr_run_id = runID, hr_step_id = sr_StepID h, hr_timestamp = sr_Timestamp h, hr_state = sr_State h,
     hr_action_tool = map_option tc_Tool (sr_Action h), hr_action_version = map_option tc_Version (sr_Action h),
     hr_action_input = (case sr_Action h of None \<Rightarrow> [] | Some a \<Rightarrow> json_norm_map (tc_Input a)),
     hr_result_tool_id = map_option tr_ToolID (sr_Result h),
     hr_result_output = (case sr_Result h of None \<Rightarrow> [] | Some r \<Rightarrow> json_norm_map (tr_Output r)),
     hr_result_error = (case sr_Result h of None \<Rightarrow> None | Some r \<Rightarrow> if tr_Error r = [] then None else Some (tr_Error r)),
     hr_result_duration = map_option tr_Duration (sr_Result h), hr_reasoning = sr_Reasoning h, hr_metadata = json_norm_map (sr_Metadata h)\<rparr>"

text \<open>The inserts run in one transaction: an error of any of them, or of begin and commit, leaves the table as it was.\<close>

definition SaveHistory :: "(string \<Rightarrow> StepRecord \<Rightarrow> history_row) \<Rightarrow> history_row list \<Rightarrow> gerror option \<Rightarrow> string \<Rightarrow> StepRecord list \<Rightarrow> history_row list \<times> gerror option" where
  "SaveHistory row t db runID history = (if db \<noteq> None then (t, db) else (t @ map (row runID) history, None))"

definition readRow :: "history_row \<Rightarrow> StepRecord" where
  "readRow r = \<lparr>sr_StepID = hr_step_id r, sr_Timestamp = hr_timestamp r, sr_State = hr_state r,
     sr_Action = (case hr_action_tool r of
        None \<Rightarrow> None
      | Some tool \<Rightarrow> Some \<lparr>tc_ID = [], tc_Tool = tool, tc_Version = (case hr_action_version r of None \<Rightarrow> [] | Some v \<Rightarrow> v), tc_Input = hr_action_input r\<rparr>),
     sr_Result = (case hr_result_tool_id r of
        None \<Rightarrow> None
      | Some i \<Rightarrow> Some \<lparr>tr_ToolID = i, tr_Output = hr_result_output r, tr_Error = (case hr_result_error r of None \<Rightarrow> [] | Some e \<Rightarrow> e),
          tr_Duration = (case hr_result_duration r of None \<Rightarrow> 0 | Some d \<Rightarrow> d)\<rparr>),
     sr_Reasoning = hr_reasoning r, sr_Metadata = hr_metadata r\<rparr>"

definition GetHistory :: "history_row list \<Rightarrow> gerror option \<Rightarrow> string \<Rightarrow> gerror + StepRecord list" where
  "GetHistory t db runID = (case db of Some err \<Rightarrow> Inl err | None \<Rightarrow> Inr (map readRow (filter (\<lambda>r. hr_run_id r = runID) t)))"

section \<open>Dead letters\<close>

definition storedLetter :: "DeadLetter \<Rightarrow> DeadLetter" where
  "storedLetter d = d\<lparr>dl_FailedAt := rfcTime (dl_FailedAt d)\<rparr>"

definition SaveDeadLetter :: "DeadLetter list \<Rightarrow> gerror option \<Rightarrow> DeadLetter \<Rightarrow> DeadLetter list \<times> gerror option" where
  "SaveDeadLetter t db d = (if db \<noteq> None then (t, db) else (t @ [storedLetter d], None))"

definition ListDeadLetters :: "DeadLetter list \<Rightarrow> gerror option \<Rightarrow> int \<Rightarrow> gerror + DeadLetter list" where
  "ListDeadLetters t db limit =
     (case db of
        Some err \<Rightarrow> Inl err
      | None \<Rightarrow> Inr (take (nat (if limit \<le> 0 then 100 else limit)) (sort_key (\<lambda>d. - dl_FailedAt d) t)))"

definition ListDeadLettersOlderThan :: "DeadLetter list \<Rightarrow> gerror option \<Rightarrow> int \<Rightarrow> int \<Rightarrow> gerror + DeadLetter list" where
  "ListDeadLettersOlderThan t db olderThan limit =
     (case db of
        Some err \<Rightarrow> Inl err
      | None \<Rightarrow> Inr (take (nat (if limit \<le> 0 then 1000 else limit)) (sort_key dl_FailedAt (filter (\<lambda>d. dl_FailedAt d < rfcTime olderThan) t))))"

definition PruneDeadLetters :: "DeadLetter list \<Rightarrow> gerror option \<Rightarrow> int \<Rightarrow> DeadLetter list \<times> (gerror + int)" where
  "PruneDeadLetters t db olderThan =
     (case db of
        Some err \<Rightarrow> (t, Inl err)
      | None \<Rightarrow> (filter (\<lambda>d. \<not> dl_FailedAt d < rfcTime olderThan) t, Inr (int (length (filter (\<lambda>d. dl_FailedAt d < rfcTime olderThan) t)))))"

definition GetLatestDeadLetterByRunID :: "DeadLetter list \<Rightarrow> gerror option \<Rightarrow> string \<Rightarrow> gerror + DeadLetter option" where
  "GetLatestDeadLetterByRunID t db runID =
     (case db of
        Some err \<Rightarrow> Inl err
      | None \<Rightarrow> (case sort_key (\<lambda>d. - dl_FailedAt d) (filter (\<lambda>d. dl_RunID d = runID) t) of [] \<Rightarrow> Inr None | d # ds \<Rightarrow> Inr (Some d)))"

section \<open>Pruning\<close>

record DeadLetterRetentionConfig =
  rc_RetentionHours :: int
  rc_ArchiveBeforePrune :: bool
  rc_ArchiveDir :: string
  rc_PruneInterval :: int

definition NewDeadLetterPruner :: "DeadLetterRetentionConfig \<Rightarrow> DeadLetterRetentionConfig" where
  "NewDeadLetterPruner cfg =
     cfg\<lparr>rc_RetentionHours := (if rc_RetentionHours cfg \<le> 0 then 168 else rc_RetentionHours cfg),
         rc_PruneInterval := (if rc_PruneInterval cfg \<le> 0 then 3600 * second else rc_PruneInterval cfg)\<rparr>"

definition safeChar :: "char \<Rightarrow> bool" where
  "safeChar ch = (let n = (of_char ch :: nat)
     in (97 \<le> n \<and> n \<le> 122) \<or> (65 \<le> n \<and> n \<le> 90) \<or> (48 \<le> n \<and> n \<le> 57) \<or> ch = CHR ''-'')"

text \<open>\<open>stamp\<close> formats a time for the name of a file.\<close>

definition archiveName :: "(int \<Rightarrow> string) \<Rightarrow> DeadLetter \<Rightarrow> string" where
  "archiveName stamp d =
     ''dead_letter_'' @ (if dl_RunID d \<noteq> [] \<and> list_all safeChar (dl_RunID d) then dl_RunID d else ''unknown'') @ ''_'' @ stamp (dl_FailedAt d) @ ''.json''"

text \<open>\<open>files\<close> is the archive directory; \<open>write\<close> tells the error of creating the directory or writing the file, by the position in the batch.\<close>

fun archiveAll :: "(int \<Rightarrow> string) \<Rightarrow> (nat \<Rightarrow> gerror option) \<Rightarrow> nat \<Rightarrow> DeadLetter list \<Rightarrow> DeadLetter smap \<Rightarrow> DeadLetter smap" where
  "archiveAll stamp write i [] files = files"
| "archiveAll stamp write i (d # ds) files =
     archiveAll stamp write (Suc i) ds (if write i = None then AList.update (archiveName stamp d) d files else files)"

record prune_env =
  pn_now :: int
  pn_stamp :: "int \<Rightarrow> string"
  pn_list :: "gerror option"
  pn_write :: "nat \<Rightarrow> gerror option"
  pn_prune :: "gerror option"

definition pruneOnce :: "DeadLetterRetentionConfig \<Rightarrow> prune_env \<Rightarrow> DeadLetter list \<times> DeadLetter smap \<Rightarrow> DeadLetter list \<times> DeadLetter smap" where
  "pruneOnce cfg env s =
     (let olderThan = pn_now env + wrap64 (wrap64 (- rc_RetentionHours cfg) * (3600 * second));
          files = (if rc_ArchiveBeforePrune cfg \<and> rc_ArchiveDir cfg \<noteq> []
                   then (case ListDeadLettersOlderThan (fst s) (pn_list env) olderThan 5000 of
                           Inl err \<Rightarrow> snd s
                         | Inr items \<Rightarrow> archiveAll (pn_stamp env) (pn_write env) 0 items (snd s))
                   else snd s)
      in (fst (PruneDeadLetters (fst s) (pn_prune env) olderThan), files))"

section \<open>Lemmas\<close>

lemma rfcTime_le: "rfcTime t \<le> t" "t < rfcTime t + second" "rfcTime (rfcTime t) = rfcTime t"
proof -
  have "0 \<le> t mod second" "t mod second < second" by (simp_all add: second_def)
  then show "rfcTime t \<le> t" "t < rfcTime t + second" by (simp_all add: rfcTime_def)
  have "(t - t mod second) mod second = 0" by (simp add: mod_diff_eq flip: minus_mod_eq_mult_div)
  then show "rfcTime (rfcTime t) = rfcTime t" by (simp add: rfcTime_def)
qed

lemma archiveAll_other: "n \<notin> archiveName stamp ` set ds \<Longrightarrow> map_of (archiveAll stamp write i ds files) n = map_of files n"
  by (induction ds arbitrary: i files) auto

lemma archiveAll_written:
  assumes "distinct (map (archiveName stamp) ds)" "j < length ds" "write (i + j) = None"
  shows "map_of (archiveAll stamp write i ds files) (archiveName stamp (ds ! j)) = Some (ds ! j)"
  using assms
proof (induction ds arbitrary: i j files)
  case (Cons d ds)
  show ?case
  proof (cases j)
    case 0
    with Cons.prems show ?thesis by (simp add: archiveAll_other)
  next
    case (Suc j')
    with Cons.prems Cons.IH [of j' "Suc i"] show ?thesis by simp
  qed
qed simp

text \<open>What a store is to give back of a step: everything but the identifier of the call, with JSON values normalised.\<close>

definition stepView :: "StepRecord \<Rightarrow> StepRecord" where
  "stepView h = h\<lparr>sr_Action := map_option (\<lambda>a. a\<lparr>tc_ID := [], tc_Input := json_norm_map (tc_Input a)\<rparr>) (sr_Action h),
     sr_Result := map_option (\<lambda>r. r\<lparr>tr_Output := json_norm_map (tr_Output r)\<rparr>) (sr_Result h), sr_Metadata := json_norm_map (sr_Metadata h)\<rparr>"

lemma readRow_pgRow: "readRow (pgRow runID h) = stepView h"
  by (cases "sr_Action h"; cases "sr_Result h") (auto simp: readRow_def pgRow_def stepView_def)

lemma readRow_sqliteRow:
  "sr_Action h = Some a \<Longrightarrow> sr_Result h = Some r \<Longrightarrow> readRow (sqliteRow runID h) = stepView (h\<lparr>sr_Timestamp := rfcTime (sr_Timestamp h)\<rparr>)"
  by (simp add: readRow_def sqliteRow_def stepView_def)

text \<open>A step of the history without an action comes back from SQLite with an empty one, and one without a result with an empty result.\<close>

lemma sqlite_invents:
  "sr_Action h = None \<Longrightarrow> sr_Action (readRow (sqliteRow runID h)) = Some \<lparr>tc_ID = [], tc_Tool = [], tc_Version = [], tc_Input = []\<rparr>"
  "sr_Result h = None \<Longrightarrow> sr_Result (readRow (sqliteRow runID h)) = Some \<lparr>tr_ToolID = [], tr_Output = [], tr_Error = [], tr_Duration = 0\<rparr>"
  by (simp_all add: readRow_def sqliteRow_def)

lemma rows_of_run: "filter (\<lambda>r. hr_run_id r = runID) (map (pgRow runID) hs) = map (pgRow runID) hs"
  "filter (\<lambda>r. hr_run_id r = runID) (map (sqliteRow runID) hs) = map (sqliteRow runID) hs"
  "runID' \<noteq> runID \<Longrightarrow> filter (\<lambda>r. hr_run_id r = runID') (map (pgRow runID) hs) = []"
  "runID' \<noteq> runID \<Longrightarrow> filter (\<lambda>r. hr_run_id r = runID') (map (sqliteRow runID) hs) = []"
  by (induction hs) (simp_all add: pgRow_def sqliteRow_def)

section \<open>Properties\<close>


definition toolStep :: StepRecord where
  "toolStep = \<lparr>sr_StepID = ''1'', sr_Timestamp = 1500000000, sr_State = StateExecuting,
     sr_Action = Some \<lparr>tc_ID = ''c'', tc_Tool = ''echo'', tc_Version = ''1'', tc_Input = [(''n'', AInt 3)]\<rparr>,
     sr_Result = Some \<lparr>tr_ToolID = ''echo'', tr_Output = [], tr_Error = [], tr_Duration = 7\<rparr>, sr_Reasoning = [], sr_Metadata = []\<rparr>"


text \<open>The time before which a letter is pruned: \<open>time.Now()\<close> less the retention, at 64 bits, in the seconds the column keeps.\<close>

definition retentionCutoff :: "DeadLetterRetentionConfig \<Rightarrow> prune_env \<Rightarrow> int" where
  "retentionCutoff cfg env = rfcTime (pn_now env + wrap64 (wrap64 (- rc_RetentionHours cfg) * (3600 * second)))"

lemma retentionCutoff_days:
  "0 \<le> rc_RetentionHours cfg \<Longrightarrow> rc_RetentionHours cfg \<le> 2562047 \<Longrightarrow>
   retentionCutoff cfg env = rfcTime (pn_now env - rc_RetentionHours cfg * (3600 * second))"
  by (simp add: retentionCutoff_def wrap64_fits second_def)

text \<open>
  C29. Pruning archives before it deletes. When the statement succeeds, it removes exactly the letters older than the retention. When archival is
  on and the listing works, the oldest 5000 of the letters removed are the batch to archive; if their file names differ, each of them whose write
  works is in the archive under its name, in the state it was deleted in, and no file with another name changed. Without archival, or when the
  listing fails, the archive is left alone. (Letters beyond the batch, and letters whose write fails, are deleted without an archived copy.)
\<close>

theorem prune_archives_first:
  assumes "pruneOnce cfg env (t, files) = (t', files')" "pn_prune env = None"
    and "old = filter (\<lambda>d. dl_FailedAt d < retentionCutoff cfg env) t" "batch = take 5000 (sort_key dl_FailedAt old)"
  shows "mset t = mset t' + mset old \<and> (\<forall>d \<in> set t'. retentionCutoff cfg env \<le> dl_FailedAt d) \<and>
    (if rc_ArchiveBeforePrune cfg \<and> rc_ArchiveDir cfg \<noteq> [] \<and> pn_list env = None
     then distinct (map (archiveName (pn_stamp env)) batch) \<longrightarrow>
       (\<forall>j < length batch. pn_write env j = None \<longrightarrow> map_of files' (archiveName (pn_stamp env) (batch ! j)) = Some (batch ! j)) \<and>
       (\<forall>n. n \<notin> archiveName (pn_stamp env) ` set batch \<longrightarrow> map_of files' n = map_of files n)
     else files' = files)"
proof -
  have t': "t' = filter (\<lambda>d. \<not> dl_FailedAt d < retentionCutoff cfg env) t"
    and f: "files' = (if rc_ArchiveBeforePrune cfg \<and> rc_ArchiveDir cfg \<noteq> [] \<and> pn_list env = None
      then archiveAll (pn_stamp env) (pn_write env) 0 batch files else files)"
    using assms by (auto simp: pruneOnce_def PruneDeadLetters_def ListDeadLettersOlderThan_def retentionCutoff_def Let_def split: option.splits)
  have "mset t = mset t' + mset old" unfolding t' assms(3) by (simp add: multiset_partition [of "mset t"] mset_filter not_less)
  then show ?thesis
    using archiveAll_written [of "pn_stamp env" batch _ "pn_write env" 0 files] archiveAll_other [of _ "pn_stamp env" batch "pn_write env" 0 files]
    by (auto simp: t' f)
qed

definition oldLetter :: "string \<Rightarrow> DeadLetter" where
  "oldLetter runID = \<lparr>dl_RunID = runID, dl_AgentName = ''a'', dl_Goal = ''g'', dl_Source = ''api'', dl_Error = ''e'', dl_Payload = [], dl_Attempt = 1,
     dl_MaxRetries = 0, dl_FailedAt = 0\<rparr>"

definition pruneConfig :: DeadLetterRetentionConfig where
  "pruneConfig = NewDeadLetterPruner \<lparr>rc_RetentionHours = 0, rc_ArchiveBeforePrune = True, rc_ArchiveDir = ''dir'', rc_PruneInterval = 0\<rparr>"

definition pruneEnv :: prune_env where
  "pruneEnv = \<lparr>pn_now = 169 * 3600 * second, pn_stamp = itoa, pn_list = None, pn_write = (\<lambda>i. None), pn_prune = None\<rparr>"

theorem prune_archives_first_witness:
  "case pruneOnce pruneConfig pruneEnv ([oldLetter ''r1'', oldLetter ''r2''], []) of (t', files') \<Rightarrow>
     map_of files' (archiveName itoa (oldLetter ''r2'')) = Some (oldLetter ''r2'') \<and> mset t' + {#oldLetter ''r1'', oldLetter ''r2''#} = {#oldLetter ''r1'', oldLetter ''r2''#}"
proof -
  let ?t = "[oldLetter ''r1'', oldLetter ''r2'']"
  obtain t' files' where p: "pruneOnce pruneConfig pruneEnv (?t, []) = (t', files')" by fastforce
  have old: "?t = filter (\<lambda>d. dl_FailedAt d < retentionCutoff pruneConfig pruneEnv) ?t" by code_simp
  have batch: "?t = take 5000 (sort_key dl_FailedAt ?t)" by (simp add: oldLetter_def)
  have "distinct (map (archiveName itoa) ?t)" "rc_ArchiveBeforePrune pruneConfig" "rc_ArchiveDir pruneConfig \<noteq> []" by code_simp+
  with prune_archives_first [OF p _ old batch] have "map_of files' (archiveName itoa (oldLetter ''r2'')) = Some (oldLetter ''r2'')" "mset ?t = mset t' + mset ?t"
    by (simp_all add: pruneEnv_def All_less_Suc2)
  with p show ?thesis by simp
qed

text \<open>The pruning does not wait for the archive: when the listing fails nothing is archived and the letters are deleted all the same.\<close>

lemma prune_without_archive:
  "pn_list env = Some err \<Longrightarrow> pn_prune env = None \<Longrightarrow>
   pruneOnce cfg env (t, files) = (filter (\<lambda>d. \<not> dl_FailedAt d < retentionCutoff cfg env) t, files)"
  by (simp add: pruneOnce_def retentionCutoff_def ListDeadLettersOlderThan_def PruneDeadLetters_def Let_def)

end
