(* ===== verification/Run_Sync.thy ===== *)
theory Run_Sync
  imports Run_Store
begin

text \<open>
  Synchronisation of runs between a local store and a server, \<open>pkg/sync\<close>, with the endpoints of \<open>pkg/api/sync.go\<close> and the commands
  \<open>sync push\<close> and \<open>sync pull\<close> of \<open>cmd/unagnt/sync_cmd.go\<close>. The interface \<open>LocalStore\<close> is a locale, interpreted by the SQLite and
  the PostgreSQL run tables of \<open>Run_Store\<close>. Drivers and the network answer through arguments; the zero time is 0. The JSON form of a
  bundle decodes to the bundle (times keep their nanoseconds in it).
\<close>

section \<open>Bundles\<close>

record RunRecord =
  ru_RunID :: string
  ru_AgentName :: string
  ru_Goal :: string
  ru_State :: string
  ru_StepCount :: int
  ru_CreatedAt :: int
  ru_UpdatedAt :: int

record DeltaBundle =
  bu_Runs :: "RunRecord list"
  bu_Timestamp :: int

record SyncStatus =
  ss_LastPush :: "int option"
  ss_LastPull :: "int option"
  ss_LocalRuns :: int
  ss_RemoteRuns :: int
  ss_PendingPush :: int

record 't LocalSyncStore =
  ls_store :: 't
  ls_lastPush :: int
  ls_lastPull :: int

definition NewLocalSyncStore :: "'t \<Rightarrow> 't LocalSyncStore" where
  "NewLocalSyncStore s = \<lparr>ls_store = s, ls_lastPush = 0, ls_lastPull = 0\<rparr>"

definition toRecord :: "RunMeta \<Rightarrow> RunRecord" where
  "toRecord r = \<lparr>ru_RunID = rm_RunID r, ru_AgentName = rm_AgentName r, ru_Goal = rm_Goal r, ru_State = rm_State r, ru_StepCount = rm_StepCount r,
     ru_CreatedAt = rm_CreatedAt r, ru_UpdatedAt = rm_UpdatedAt r\<rparr>"

definition fromRecord :: "RunRecord \<Rightarrow> RunMeta" where
  "fromRecord r = \<lparr>rm_RunID = ru_RunID r, rm_AgentName = ru_AgentName r, rm_Goal = ru_Goal r, rm_State = ru_State r, rm_StepCount = ru_StepCount r,
     rm_CreatedAt = ru_CreatedAt r, rm_UpdatedAt = ru_UpdatedAt r\<rparr>"

text \<open>One call of \<open>GetRun\<close> per identifier; \<open>getDb\<close> is the driver's answer to each. A run that cannot be read is left out.\<close>

fun bundleRecords :: "('t \<Rightarrow> gerror option \<Rightarrow> string \<Rightarrow> gerror + RunMeta option) \<Rightarrow> (nat \<Rightarrow> gerror option) \<Rightarrow> 't \<Rightarrow> int \<Rightarrow> nat \<Rightarrow> string list \<Rightarrow> RunRecord list" where
  "bundleRecords getRun getDb t sinceTime i [] = []"
| "bundleRecords getRun getDb t sinceTime i (runID # ids) =
     (case getRun t (getDb i) runID of
        Inl err \<Rightarrow> []
      | Inr None \<Rightarrow> []
      | Inr (Some r) \<Rightarrow> if sinceTime \<noteq> 0 \<and> rm_UpdatedAt r < sinceTime then [] else [toRecord r]) @ bundleRecords getRun getDb t sinceTime (Suc i) ids"

definition BuildBundle :: "('t \<Rightarrow> gerror option \<Rightarrow> int \<Rightarrow> gerror + string list) \<Rightarrow> ('t \<Rightarrow> gerror option \<Rightarrow> string \<Rightarrow> gerror + RunMeta option) \<Rightarrow>
    gerror option \<Rightarrow> (nat \<Rightarrow> gerror option) \<Rightarrow> int \<Rightarrow> 't LocalSyncStore \<Rightarrow> int \<Rightarrow> gerror + DeltaBundle" where
  "BuildBundle listRuns getRun listDb getDb now ls sinceTime =
     (case listRuns (ls_store ls) listDb 500 of
        Inl err \<Rightarrow> Inl err
      | Inr ids \<Rightarrow> Inr \<lparr>bu_Runs = bundleRecords getRun getDb (ls_store ls) sinceTime 0 ids, bu_Timestamp = now\<rparr>)"

text \<open>The loop of \<open>ApplyBundle\<close> and of the push endpoint: the first failing save ends it, the saves before it stay.\<close>

fun applyRuns :: "('t \<Rightarrow> gerror option \<Rightarrow> RunMeta \<Rightarrow> 't \<times> gerror option) \<Rightarrow> (nat \<Rightarrow> gerror option) \<Rightarrow> nat \<Rightarrow> RunRecord list \<Rightarrow> 't \<Rightarrow> 't \<times> gerror option" where
  "applyRuns save saveDb i [] t = (t, None)"
| "applyRuns save saveDb i (r # rs) t =
     (case save t (saveDb i) (fromRecord r) of
        (t', Some err) \<Rightarrow> (t', Some err)
      | (t', None) \<Rightarrow> applyRuns save saveDb (Suc i) rs t')"

definition ApplyBundle :: "('t \<Rightarrow> gerror option \<Rightarrow> RunMeta \<Rightarrow> 't \<times> gerror option) \<Rightarrow> (nat \<Rightarrow> gerror option) \<Rightarrow> 't LocalSyncStore \<Rightarrow> DeltaBundle \<Rightarrow>
    't LocalSyncStore \<times> gerror option" where
  "ApplyBundle save saveDb ls bundle =
     (case applyRuns save saveDb 0 (bu_Runs bundle) (ls_store ls) of
        (t, Some err) \<Rightarrow> (ls\<lparr>ls_store := t\<rparr>, Some err)
      | (t, None) \<Rightarrow> (ls\<lparr>ls_store := t, ls_lastPull := bu_Timestamp bundle\<rparr>, None))"

definition SetLastPush :: "'t LocalSyncStore \<Rightarrow> int \<Rightarrow> 't LocalSyncStore" where
  "SetLastPush ls t = ls\<lparr>ls_lastPush := t\<rparr>"

definition Status :: "('t \<Rightarrow> gerror option \<Rightarrow> int \<Rightarrow> gerror + string list) \<Rightarrow> gerror option \<Rightarrow> 't LocalSyncStore \<Rightarrow> gerror + SyncStatus" where
  "Status listRuns listDb ls =
     (case listRuns (ls_store ls) listDb 1000 of
        Inl err \<Rightarrow> Inl err
      | Inr ids \<Rightarrow> Inr \<lparr>ss_LastPush = (if ls_lastPush ls \<noteq> 0 then Some (ls_lastPush ls) else None),
          ss_LastPull = (if ls_lastPull ls \<noteq> 0 then Some (ls_lastPull ls) else None),
          ss_LocalRuns = int (length ids), ss_RemoteRuns = 0, ss_PendingPush = 0\<rparr>)"

section \<open>The endpoints\<close>

text \<open>A response is its status code and the body where there is one to decode; a body that does not decode is \<open>Inl\<close>.\<close>

definition api_Push :: "(nat \<Rightarrow> gerror option) \<Rightarrow> RunMeta list \<Rightarrow> gerror + DeltaBundle \<Rightarrow> RunMeta list \<times> int" where
  "api_Push saveDb t body =
     (case body of
        Inl err \<Rightarrow> (t, 400)
      | Inr bundle \<Rightarrow> (case applyRuns sqlite_SaveRun saveDb 0 (bu_Runs bundle) t of
          (t', Some err) \<Rightarrow> (t', 500)
        | (t', None) \<Rightarrow> (t', 200)))"

text \<open>\<open>parse\<close> is \<open>time.Parse(time.RFC3339, _)\<close>, whose error leaves the zero time.\<close>

definition api_Pull :: "(string \<Rightarrow> int option) \<Rightarrow> gerror option \<Rightarrow> (nat \<Rightarrow> gerror option) \<Rightarrow> int \<Rightarrow> RunMeta list \<Rightarrow> string \<Rightarrow> int \<times> DeltaBundle option" where
  "api_Pull parse listDb getDb now t sinceStr =
     (let since = (if sinceStr \<noteq> [] then (case parse sinceStr of Some s \<Rightarrow> s | None \<Rightarrow> 0) else 0)
      in case BuildBundle ListRuns GetRun listDb getDb now (NewLocalSyncStore t) since of
           Inl err \<Rightarrow> (500, None)
         | Inr bundle \<Rightarrow> (200, Some bundle))"

section \<open>The client and the commands\<close>

text \<open>\<open>send\<close> and \<open>fetch\<close> are building and sending the request: an error, or the status code with the decoded body.\<close>

definition client_Push :: "(DeltaBundle \<Rightarrow> gerror + int) \<Rightarrow> DeltaBundle \<Rightarrow> gerror option" where
  "client_Push send bundle =
     (case send bundle of
        Inl err \<Rightarrow> Some err
      | Inr code \<Rightarrow> if code \<noteq> 200 \<and> code \<noteq> 202 then Some (Errorf (''push failed: '' @ itoa code)) else None)"

definition client_Pull :: "(int \<Rightarrow> string) \<Rightarrow> (string \<Rightarrow> gerror + (int \<times> DeltaBundle option)) \<Rightarrow> string \<Rightarrow> int \<Rightarrow> gerror + DeltaBundle" where
  "client_Pull format fetch baseURL sinceTime =
     (let url = baseURL @ ''/v1/sync/pull'' @ (if sinceTime \<noteq> 0 then ''?since='' @ format sinceTime else [])
      in case fetch url of
           Inl err \<Rightarrow> Inl err
         | Inr (code, body) \<Rightarrow>
             if code \<noteq> 200 then Inl (Errorf (''pull failed: '' @ itoa code))
             else (case body of None \<Rightarrow> Inl (Errorf ''decode'') | Some bundle \<Rightarrow> Inr bundle))"

record sync_env =
  sy_listDb :: "gerror option"
  sy_getDb :: "nat \<Rightarrow> gerror option"
  sy_saveDb :: "nat \<Rightarrow> gerror option"
  sy_now :: int

text \<open>
  The commands, each on a fresh \<open>LocalSyncStore\<close> over the local database, with the server's endpoint behind the client. They return both tables and
  the error of the command.
\<close>

definition pushCmd :: "sync_env \<Rightarrow> (nat \<Rightarrow> gerror option) \<Rightarrow> RunMeta list \<Rightarrow> RunMeta list \<Rightarrow> RunMeta list \<times> gerror option" where
  "pushCmd env serverDb local server =
     (case BuildBundle ListRuns GetRun (sy_listDb env) (sy_getDb env) (sy_now env) (NewLocalSyncStore local) 0 of
        Inl err \<Rightarrow> (server, Some err)
      | Inr bundle \<Rightarrow>
          (fst (api_Push serverDb server (Inr bundle)),
           map_option (Wrap ''push: '') (client_Push (\<lambda>b. Inr (snd (api_Push serverDb server (Inr b)))) bundle)))"

text \<open>The parameter \<open>since\<close> of a URL as the server decodes it: a plus sign in a query stands for a blank.\<close>

fun querySince :: "string \<Rightarrow> string" where
  "querySince [] = []"
| "querySince (c # s) =
     (if HasPrefix (c # s) ''?since='' then map (\<lambda>x. if x = CHR ''+'' then CHR '' '' else x) (drop 7 (c # s)) else querySince s)"

definition pullCmd :: "sync_env \<Rightarrow> sync_env \<Rightarrow> (string \<Rightarrow> int option) \<Rightarrow> (int \<Rightarrow> string) \<Rightarrow> string \<Rightarrow> RunMeta list \<Rightarrow> RunMeta list \<Rightarrow>
    RunMeta list \<times> gerror option" where
  "pullCmd env serverEnv parse format baseURL local server =
     (let ls = NewLocalSyncStore local;
          fetch = (\<lambda>url. Inr (api_Pull parse (sy_listDb serverEnv) (sy_getDb serverEnv) (sy_now serverEnv) server (querySince url)))
      in case client_Pull format fetch baseURL (ls_lastPull ls) of
           Inl err \<Rightarrow> (local, Some (Wrap ''pull: '' err))
         | Inr bundle \<Rightarrow> (case ApplyBundle sqlite_SaveRun (sy_saveDb env) ls bundle of (ls', err) \<Rightarrow> (ls_store ls', err)))"

section \<open>The interface of a run store\<close>

text \<open>
  What \<open>BuildBundle\<close> and \<open>ApplyBundle\<close> rely on: a failing call changes nothing, a save shows in later reads of that run and in no other, and the
  list names every run as long as there are no more than asked for. \<open>kept old run\<close> is what a read gives after \<open>run\<close> was saved over \<open>old\<close>.
\<close>

locale local_store =
  fixes saveRun :: "'t \<Rightarrow> gerror option \<Rightarrow> RunMeta \<Rightarrow> 't \<times> gerror option"
    and getRun :: "'t \<Rightarrow> gerror option \<Rightarrow> string \<Rightarrow> gerror + RunMeta option"
    and listRuns :: "'t \<Rightarrow> gerror option \<Rightarrow> int \<Rightarrow> gerror + string list"
    and view :: "'t \<Rightarrow> string \<rightharpoonup> RunMeta"
    and inv :: "'t \<Rightarrow> bool"
    and kept :: "RunMeta option \<Rightarrow> RunMeta \<Rightarrow> RunMeta"
  assumes save_works: "inv t \<Longrightarrow> \<exists>t'. saveRun t None r = (t', None) \<and> inv t' \<and> view t' = (view t)(rm_RunID r \<mapsto> kept (view t (rm_RunID r)) r)"
    and save_fails: "saveRun t (Some err) r = (t, Some err)"
    and get_view: "inv t \<Longrightarrow> getRun t None k = Inr (view t k)"
    and view_id: "inv t \<Longrightarrow> view t k = Some r \<Longrightarrow> rm_RunID r = k"
    and list_all_runs: "inv t \<Longrightarrow> 0 < n \<Longrightarrow> finite (dom (view t)) \<Longrightarrow> card (dom (view t)) \<le> nat n \<Longrightarrow>
      \<exists>ids. listRuns t None n = Inr ids \<and> distinct ids \<and> set ids = dom (view t)"
begin

text \<open>Applying records that name each run once.\<close>

lemma apply_view:
  "inv t \<Longrightarrow> distinct (map ru_RunID rs) \<Longrightarrow>
   \<exists>t'. applyRuns saveRun (\<lambda>j. None) i rs t = (t', None) \<and> inv t' \<and>
     view t' = (\<lambda>k. case find (\<lambda>r. ru_RunID r = k) rs of Some r \<Rightarrow> Some (kept (view t k) (fromRecord r)) | None \<Rightarrow> view t k)"
proof (induction rs arbitrary: i t)
  case (Cons r rs)
  obtain t1 where t1: "saveRun t None (fromRecord r) = (t1, None)" "inv t1" "view t1 = (view t)(ru_RunID r \<mapsto> kept (view t (ru_RunID r)) (fromRecord r))"
    using save_works [OF Cons.prems(1), of "fromRecord r"] by (auto simp: fromRecord_def)
  obtain t2 where t2: "applyRuns saveRun (\<lambda>j. None) (Suc i) rs t1 = (t2, None)" "inv t2"
    "view t2 = (\<lambda>k. case find (\<lambda>r. ru_RunID r = k) rs of Some r \<Rightarrow> Some (kept (view t1 k) (fromRecord r)) | None \<Rightarrow> view t1 k)"
    using Cons.IH [OF t1(2), of "Suc i"] Cons.prems by auto
  have "find (\<lambda>x. ru_RunID x = ru_RunID r) rs = None" using Cons.prems(2) by (auto simp: find_None_iff image_iff)
  moreover have "view t2 k = (case find (\<lambda>r. ru_RunID r = k) (r # rs) of Some r \<Rightarrow> Some (kept (view t k) (fromRecord r)) | None \<Rightarrow> view t k)" for k
    using t1(3) t2(3) calculation by (auto split: option.split)
  ultimately show ?case using t1(1) t2(1,2) by (auto simp: fun_eq_iff)
qed simp

text \<open>A failing save stops the loop: the runs before it are stored, and its error is the result.\<close>

lemma apply_stops:
  "inv t \<Longrightarrow> saveDb (i + length rs) = Some err \<Longrightarrow> (\<And>j. j < length rs \<Longrightarrow> saveDb (i + j) = None) \<Longrightarrow>
   applyRuns saveRun saveDb i (rs @ r # rest) t = (fst (applyRuns saveRun (\<lambda>j. None) i rs t), Some err)"
proof (induction rs arbitrary: i t)
  case Nil
  then show ?case by (simp add: save_fails)
next
  case (Cons q rs)
  obtain t1 where t1: "saveRun t None (fromRecord q) = (t1, None)" "inv t1" using save_works [OF Cons.prems(1)] by blast
  have "saveDb i = None" using Cons.prems(3) [of 0] by simp
  moreover have "applyRuns saveRun (\<lambda>j. None) k rs t1 = applyRuns saveRun (\<lambda>j. None) (Suc i) rs t1" for k
    by (induction rs arbitrary: k i t1) (auto split: prod.split option.split)
  moreover have "applyRuns saveRun saveDb (Suc i) (rs @ r # rest) t1 = (fst (applyRuns saveRun (\<lambda>j. None) (Suc i) rs t1), Some err)"
    by (rule Cons.IH [OF t1(2)]) (use Cons.prems(2) Cons.prems(3) [of "Suc j" for j] in auto)
  ultimately show ?case using t1(1) by simp
qed

lemma records_of:
  "inv t \<Longrightarrow>
   bundleRecords getRun (\<lambda>j. None) t since i ids =
     map toRecord (filter (\<lambda>r. since = 0 \<or> since \<le> rm_UpdatedAt r) (List.map_filter (view t) ids))"
  by (induction ids arbitrary: i) (auto simp: get_view map_filter_simps split: option.split)

text \<open>The bundle of a store with at most 500 runs holds every run of it exactly once.\<close>

lemma bundle_complete:
  assumes "inv (ls_store ls)" "finite (dom (view (ls_store ls)))" "card (dom (view (ls_store ls))) \<le> 500"
  shows "\<exists>b. BuildBundle listRuns getRun None (\<lambda>j. None) now ls since = Inr b \<and> bu_Timestamp b = now \<and> distinct (map ru_RunID (bu_Runs b)) \<and>
    (\<forall>k. find (\<lambda>r. ru_RunID r = k) (bu_Runs b) =
      (case view (ls_store ls) k of Some r \<Rightarrow> if since = 0 \<or> since \<le> rm_UpdatedAt r then Some (toRecord r) else None | None \<Rightarrow> None))"
proof -
  let ?t = "ls_store ls" and ?p = "\<lambda>r. since = 0 \<or> since \<le> rm_UpdatedAt r"
  obtain ids where ids: "listRuns ?t None 500 = Inr ids" "distinct ids" "set ids = dom (view ?t)"
    using list_all_runs [OF assms(1), of 500] assms(2,3) by auto
  have key: "distinct xs \<Longrightarrow> distinct (map ru_RunID (map toRecord (filter ?p (List.map_filter (view ?t) xs)))) \<and>
     find (\<lambda>r. ru_RunID r = k) (map toRecord (filter ?p (List.map_filter (view ?t) xs))) =
       (if k \<in> set xs then (case view ?t k of Some r \<Rightarrow> if ?p r then Some (toRecord r) else None | None \<Rightarrow> None) else None) \<and>
     set (map ru_RunID (map toRecord (filter ?p (List.map_filter (view ?t) xs)))) \<subseteq> set xs" for xs k
  proof (induction xs)
    case (Cons x xs)
    show ?case using Cons view_id [OF assms(1), of x] by (cases "view ?t x") (auto simp: map_filter_simps toRecord_def split: option.split)
  qed (simp add: map_filter_simps)
  have "\<forall>k. find (\<lambda>r. ru_RunID r = k) (map toRecord (filter ?p (List.map_filter (view ?t) ids))) =
      (case view ?t k of Some r \<Rightarrow> if ?p r then Some (toRecord r) else None | None \<Rightarrow> None)"
    using key [OF ids(2)] ids(3) by (auto split: option.split)
  then show ?thesis using key [OF ids(2)] ids(1) records_of [OF assms(1)] by (simp add: BuildBundle_def)
qed

end

section \<open>The two run tables provide it\<close>

abbreviation run_view :: "RunMeta list \<Rightarrow> string \<rightharpoonup> RunMeta" where
  "run_view t k \<equiv> find (\<lambda>r. rm_RunID r = k) t"

definition wholeSeconds :: "RunMeta \<Rightarrow> RunMeta" where
  "wholeSeconds r = r\<lparr>rm_CreatedAt := rfcTime (rm_CreatedAt r), rm_UpdatedAt := rfcTime (rm_UpdatedAt r)\<rparr>"

text \<open>What every table reached by \<^const>\<open>sqlite_SaveRun\<close> from the empty one satisfies.\<close>

definition sqlite_table :: "RunMeta list \<Rightarrow> bool" where
  "sqlite_table t = (distinct (map rm_RunID t) \<and> list_all (\<lambda>r. wholeSeconds r = r) t)"

definition pgKept :: "RunMeta option \<Rightarrow> RunMeta \<Rightarrow> RunMeta" where
  "pgKept old r = (case old of None \<Rightarrow> r | Some q \<Rightarrow> r\<lparr>rm_CreatedAt := rm_CreatedAt q\<rparr>)"

lemma run_view_id: "run_view t k = Some r \<Longrightarrow> rm_RunID r = k"
  by (auto simp: find_Some_iff)

lemma run_view_mem: "run_view t k = Some r \<Longrightarrow> r \<in> set t"
  by (auto simp: find_Some_iff)

lemma dom_run_view: "dom (run_view t) = rm_RunID ` set t"
  by (force simp: dom_def find_None_iff)

lemma run_view_size: "distinct (map rm_RunID t) \<Longrightarrow> card (dom (run_view t)) = length t"
  by (simp only: dom_run_view) (metis distinct_card length_map list.set_map)

lemma list_runs_complete:
  assumes "distinct (map rm_RunID t)" "0 < n" "length t \<le> nat n"
  shows "\<exists>ids. ListRuns t None n = Inr ids \<and> distinct ids \<and> set ids = dom (run_view t)"
proof -
  let ?s = "sort_key (\<lambda>r. - rm_UpdatedAt r) t"
  have "mset (map rm_RunID ?s) = mset (map rm_RunID t)" by simp
  then have "distinct (map rm_RunID ?s)" using assms(1) mset_eq_imp_distinct_iff by blast
  then show ?thesis using assms(2,3) by (simp add: ListRuns_def dom_run_view)
qed

lemma run_view_append: "run_view (xs @ ys) k = (case run_view xs k of Some r \<Rightarrow> Some r | None \<Rightarrow> run_view ys k)"
  by (induction xs) auto

lemma run_view_filter: "run_view (filter (\<lambda>r. rm_RunID r \<noteq> i) t) k = (if k = i then None else run_view t k)"
  by (induction t) auto

lemma sqlite_save_view:
  assumes "sqlite_table t"
  shows "\<exists>t'. sqlite_SaveRun t None r = (t', None) \<and> sqlite_table t' \<and> run_view t' = (run_view t)(rm_RunID r \<mapsto> wholeSeconds r)"
proof -
  let ?t = "filter (\<lambda>q. rm_RunID q \<noteq> rm_RunID r) t @ [wholeSeconds r]"
  have "run_view ?t k = ((run_view t)(rm_RunID r \<mapsto> wholeSeconds r)) k" for k
    by (auto simp: run_view_append run_view_filter wholeSeconds_def split: option.split)
  moreover have "sqlite_table ?t"
    using assms by (auto simp: sqlite_table_def wholeSeconds_def rfcTime_le distinct_map_filter list_all_iff)
  ultimately show ?thesis by (auto simp: sqlite_SaveRun_def wholeSeconds_def fun_eq_iff)
qed

lemma upsert_id [simp]: "rm_RunID (upsertRun r q) = rm_RunID q"
  by (simp add: upsertRun_def)

lemma run_view_upsert:
  "run_view (map (\<lambda>q. if rm_RunID q = rm_RunID r then upsertRun r q else q) t) k = (if k = rm_RunID r then map_option (upsertRun r) (run_view t k) else run_view t k)"
  by (induction t) auto

lemma upsert_is_kept: "rm_RunID q = rm_RunID r \<Longrightarrow> upsertRun r q = pgKept (Some q) r"
  by (simp add: upsertRun_def pgKept_def)

lemma pg_save_view:
  assumes "distinct (map rm_RunID t)"
  shows "\<exists>t'. pg_SaveRun t None r = (t', None) \<and> distinct (map rm_RunID t') \<and>
    run_view t' = (run_view t)(rm_RunID r \<mapsto> pgKept (run_view t (rm_RunID r)) r)"
proof (cases "list_ex (\<lambda>q. rm_RunID q = rm_RunID r) t")
  case True
  let ?t = "map (\<lambda>q. if rm_RunID q = rm_RunID r then upsertRun r q else q) t"
  have "run_view t (rm_RunID r) \<noteq> None" using True by (auto simp: find_None_iff list_ex_iff)
  then obtain q where q: "run_view t (rm_RunID r) = Some q" by blast
  have "upsertRun r q = pgKept (Some q) r" using upsert_is_kept run_view_id [OF q] by blast
  then have "run_view ?t k = ((run_view t)(rm_RunID r \<mapsto> pgKept (run_view t (rm_RunID r)) r)) k" for k
    unfolding run_view_upsert using q by simp
  moreover have "map rm_RunID ?t = map rm_RunID t" by (simp add: comp_def)
  then have "distinct (map rm_RunID ?t)" using assms by (simp only:)
  moreover have "pg_SaveRun t None r = (?t, None)" using True by (simp add: pg_SaveRun_def)
  ultimately show ?thesis by (simp only: fun_eq_iff) blast
next
  case False
  then have "rm_RunID r \<notin> rm_RunID ` set t" by (auto simp: list_ex_iff)
  then have "run_view t (rm_RunID r) = None" by (auto simp: find_None_iff rev_image_eqI)
  then have "run_view (t @ [r]) = (run_view t)(rm_RunID r \<mapsto> pgKept (run_view t (rm_RunID r)) r)"
    by (auto simp: run_view_append fun_eq_iff pgKept_def split: option.split)
  then show ?thesis using False assms \<open>rm_RunID r \<notin> rm_RunID ` set t\<close> by (simp add: pg_SaveRun_def)
qed

interpretation sqlite_runs: local_store sqlite_SaveRun GetRun ListRuns run_view sqlite_table "\<lambda>old r. wholeSeconds r"
proof
  show "\<exists>t'. sqlite_SaveRun t None r = (t', None) \<and> sqlite_table t' \<and> run_view t' = (run_view t)(rm_RunID r \<mapsto> wholeSeconds r)"
    if "sqlite_table t" for t r by (rule sqlite_save_view [OF that])
  show "sqlite_SaveRun t (Some err) r = (t, Some err)" for t err r by (simp add: sqlite_SaveRun_def)
  show "GetRun t None k = Inr (run_view t k)" for t k by (simp add: GetRun_def)
  show "rm_RunID r = k" if "run_view t k = Some r" for t k r by (rule run_view_id [OF that])
  show "\<exists>ids. ListRuns t None n = Inr ids \<and> distinct ids \<and> set ids = dom (run_view t)"
    if "sqlite_table t" "0 < n" "card (dom (run_view t)) \<le> nat n" for t n
    using that list_runs_complete [of t n] run_view_size [of t] by (simp add: sqlite_table_def)
qed

interpretation postgres_runs: local_store pg_SaveRun GetRun ListRuns run_view "\<lambda>t. distinct (map rm_RunID t)" pgKept
proof
  show "\<exists>t'. pg_SaveRun t None r = (t', None) \<and> distinct (map rm_RunID t') \<and>
      run_view t' = (run_view t)(rm_RunID r \<mapsto> pgKept (run_view t (rm_RunID r)) r)"
    if "distinct (map rm_RunID t)" for t r by (rule pg_save_view [OF that])
  show "pg_SaveRun t (Some err) r = (t, Some err)" for t err r by (simp add: pg_SaveRun_def)
  show "GetRun t None k = Inr (run_view t k)" for t k by (simp add: GetRun_def)
  show "rm_RunID r = k" if "run_view t k = Some r" for t k r by (rule run_view_id [OF that])
  show "\<exists>ids. ListRuns t None n = Inr ids \<and> distinct ids \<and> set ids = dom (run_view t)"
    if "distinct (map rm_RunID t)" "0 < n" "card (dom (run_view t)) \<le> nat n" for t n
    using that list_runs_complete [of t n] run_view_size [of t] by simp
qed

section \<open>Theorems\<close>

definition working :: "int \<Rightarrow> sync_env" where
  "working now = \<lparr>sy_listDb = None, sy_getDb = (\<lambda>i. None), sy_saveDb = (\<lambda>i. None), sy_now = now\<rparr>"

lemma record_roundtrip [simp]: "fromRecord (toRecord r) = r"
  by (simp add: fromRecord_def toRecord_def)

lemma stored_whole: "sqlite_table t \<Longrightarrow> run_view t k = Some r \<Longrightarrow> wholeSeconds r = r"
  using run_view_mem by (fastforce simp: sqlite_table_def list_all_iff)

text \<open>Applying the full bundle of one SQLite table to another puts the runs of the first over those of the second.\<close>

lemma transfer:
  assumes "sqlite_table src" "sqlite_table dst" "length src \<le> 500"
  shows "\<exists>b t. BuildBundle ListRuns GetRun None (\<lambda>i. None) now (NewLocalSyncStore src) 0 = Inr b \<and>
    applyRuns sqlite_SaveRun (\<lambda>i. None) 0 (bu_Runs b) dst = (t, None) \<and> sqlite_table t \<and> run_view t = run_view dst ++ run_view src"
proof -
  let ?ls = "NewLocalSyncStore src"
  have ls: "ls_store ?ls = src" by (simp add: NewLocalSyncStore_def)
  have "card (dom (run_view src)) \<le> 500" using assms(1,3) run_view_size [of src] by (simp add: sqlite_table_def)
  then obtain b where b: "BuildBundle ListRuns GetRun None (\<lambda>i. None) now ?ls 0 = Inr b" "distinct (map ru_RunID (bu_Runs b))"
    "\<forall>k. find (\<lambda>r. ru_RunID r = k) (bu_Runs b) = (case run_view src k of Some r \<Rightarrow> Some (toRecord r) | None \<Rightarrow> None)"
    using sqlite_runs.bundle_complete [of ?ls now 0] assms(1) unfolding ls by (auto simp: dom_run_view cong: option.case_cong)
  obtain t where t: "applyRuns sqlite_SaveRun (\<lambda>i. None) 0 (bu_Runs b) dst = (t, None)" "sqlite_table t"
    "run_view t = (\<lambda>k. case find (\<lambda>r. ru_RunID r = k) (bu_Runs b) of Some r \<Rightarrow> Some (wholeSeconds (fromRecord r)) | None \<Rightarrow> run_view dst k)"
    using sqlite_runs.apply_view [OF assms(2) b(2)] by blast
  have "run_view t k = (run_view dst ++ run_view src) k" for k
    using fun_cong [OF t(3), of k] stored_whole [OF assms(1), of k] by (auto simp: b(3) map_add_def split: option.splits)
  then show ?thesis using b(1) t(1,2) by blast
qed

lemma push_view:
  assumes "sqlite_table local" "sqlite_table server" "length local \<le> 500"
  obtains server' where "pushCmd (working now) (\<lambda>i. None) local server = (server', None)" "sqlite_table server'"
    "run_view server' = run_view server ++ run_view local"
proof -
  obtain b t where "BuildBundle ListRuns GetRun None (\<lambda>i. None) now (NewLocalSyncStore local) 0 = Inr b"
    "applyRuns sqlite_SaveRun (\<lambda>i. None) 0 (bu_Runs b) server = (t, None)" "sqlite_table t" "run_view t = run_view server ++ run_view local"
    using transfer [OF assms] by blast
  then show thesis by (intro that [of t]) (simp_all add: pushCmd_def working_def api_Push_def client_Push_def)
qed

lemma no_query: "CHR ''?'' \<notin> set url \<Longrightarrow> querySince url = []"
  by (induction url) (auto simp: HasPrefix_def)

lemma pull_view:
  assumes "sqlite_table local" "sqlite_table server" "length server \<le> 500" "CHR ''?'' \<notin> set baseURL"
  obtains local' where "pullCmd (working now) (working now') parse format baseURL local server = (local', None)" "sqlite_table local'"
    "run_view local' = run_view local ++ run_view server"
proof -
  obtain b t where *: "BuildBundle ListRuns GetRun None (\<lambda>i. None) now' (NewLocalSyncStore server) 0 = Inr b"
    "applyRuns sqlite_SaveRun (\<lambda>i. None) 0 (bu_Runs b) local = (t, None)" "sqlite_table t" "run_view t = run_view local ++ run_view server"
    using transfer [OF assms(2,1,3)] by blast
  have "querySince (baseURL @ ''/v1/sync/pull'') = []" by (rule no_query) (use assms(4) in simp)
  then have "pullCmd (working now) (working now') parse format baseURL local server = (t, None)"
    using *(1,2) by (simp add: pullCmd_def client_Pull_def api_Pull_def ApplyBundle_def NewLocalSyncStore_def working_def)
  then show thesis using *(3,4) that by blast
qed

lemma merged_size:
  assumes "sqlite_table t" "sqlite_table a" "sqlite_table b" "run_view t = run_view a ++ run_view b"
  shows "length t \<le> length a + length b"
proof -
  have "length t = card (dom (run_view a) \<union> dom (run_view b))"
    using assms(1,4) run_view_size [of t] by (simp add: sqlite_table_def Un_commute)
  also have "\<dots> \<le> card (dom (run_view a)) + card (dom (run_view b))" by (rule card_Un_le)
  finally show ?thesis using assms(2,3) run_view_size [of a] run_view_size [of b] by (simp add: sqlite_table_def)
qed

text \<open>What last-write-wins asks for: of two copies of a run the one updated later, and the only one where there is just one.\<close>

fun newerRun :: "RunMeta option \<Rightarrow> RunMeta option \<Rightarrow> RunMeta option" where
  "newerRun None s = s"
| "newerRun (Some l) None = Some l"
| "newerRun (Some l) (Some s) = Some (if rm_UpdatedAt l < rm_UpdatedAt s then s else l)"

definition serverNewer :: "RunMeta option \<Rightarrow> RunMeta option \<Rightarrow> bool" where
  "serverNewer l s = (case (l, s) of (Some a, Some b) \<Rightarrow> rm_UpdatedAt a < rm_UpdatedAt b | _ \<Rightarrow> False)"

lemma newerRun_local: "\<not> serverNewer l s \<Longrightarrow> newerRun l s = (if l \<noteq> None then l else s)"
  by (cases l; cases s) (auto simp: serverNewer_def)

text \<open>
  C30. A push followed by a pull makes the local store and the server agree: between SQLite tables of together at most 500 runs and with
  databases and a network that work, both commands succeed and afterwards both stores return the same answer for every identifier. No run is lost and
  none appears: an identifier has a run exactly when one of the two had one. And for every run of which the server did not have the newer copy (those that
  only one side has included) the answer of both is the newer copy, as last-write-wins asks for.
\<close>

theorem sync_converges:
  assumes "sqlite_table local" "sqlite_table server" "length local + length server \<le> 500" "CHR ''?'' \<notin> set baseURL"
  shows "\<exists>server' local'. pushCmd (working now) (\<lambda>i. None) local server = (server', None) \<and>
    pullCmd (working now') (working now'') parse format baseURL local server' = (local', None) \<and>
    (\<forall>k. GetRun server' None k = GetRun local' None k \<and>
      (GetRun local' None k = Inr None \<longleftrightarrow> GetRun local None k = Inr None \<and> GetRun server None k = Inr None) \<and>
      (\<forall>l s. GetRun local None k = Inr l \<and> GetRun server None k = Inr s \<and> \<not> serverNewer l s \<longrightarrow> GetRun local' None k = Inr (newerRun l s)))"
proof -
  obtain server' where s: "pushCmd (working now) (\<lambda>i. None) local server = (server', None)" "sqlite_table server'"
    "run_view server' = run_view server ++ run_view local"
    using push_view [OF assms(1,2)] assms(3) by (metis add_leD1)
  have "length server' \<le> 500" using merged_size [OF s(2) assms(2,1) s(3)] assms(3) by simp
  then obtain local' where l: "pullCmd (working now') (working now'') parse format baseURL local server' = (local', None)"
    "run_view local' = run_view local ++ run_view server'"
    using pull_view [OF assms(1) s(2) _ assms(4)] by metis
  have "run_view local' k = run_view server' k" for k
    using fun_cong [OF l(2), of k] fun_cong [OF s(3), of k] by (auto simp: map_add_def split: option.splits)
  moreover have "run_view server' k = (if run_view local k \<noteq> None then run_view local k else run_view server k)" for k
    using fun_cong [OF s(3), of k] by (auto simp: map_add_def split: option.splits)
  ultimately show ?thesis using s(1) l(1) by (auto simp: GetRun_def newerRun_local)
qed

definition example_run :: "string \<Rightarrow> string \<Rightarrow> int \<Rightarrow> RunMeta" where
  "example_run i st t = \<lparr>rm_RunID = i, rm_AgentName = ''a'', rm_Goal = ''g'', rm_State = st, rm_StepCount = 1, rm_CreatedAt = 0, rm_UpdatedAt = t * second\<rparr>"

definition localRuns :: "RunMeta list" where
  "localRuns = [example_run ''x'' ''completed'' 3]"

definition serverRuns :: "RunMeta list" where
  "serverRuns = [example_run ''x'' ''running'' 1, example_run ''y'' ''completed'' 2]"

theorem sync_converges_witness:
  "\<exists>server' local'. pushCmd (working 1) (\<lambda>i. None) localRuns serverRuns = (server', None) \<and>
    pullCmd (working 2) (working 3) (\<lambda>s. None) itoa ''http://localhost:8080'' localRuns server' = (local', None) \<and>
    GetRun server' None ''x'' = Inr (Some (example_run ''x'' ''completed'' 3)) \<and> GetRun local' None ''y'' = Inr (Some (example_run ''y'' ''completed'' 2))"
proof -
  have "sqlite_table localRuns" "sqlite_table serverRuns" "length localRuns + length serverRuns \<le> 500" "CHR ''?'' \<notin> set ''http://localhost:8080''"
    by (simp_all add: sqlite_table_def wholeSeconds_def example_run_def rfcTime_def second_def localRuns_def serverRuns_def)
  from sync_converges [OF this, of 1 2 3 "\<lambda>s. None" itoa] obtain server' local' where
    p: "pushCmd (working 1) (\<lambda>i. None) localRuns serverRuns = (server', None)"
       "pullCmd (working 2) (working 3) (\<lambda>s. None) itoa ''http://localhost:8080'' localRuns server' = (local', None)"
    and all: "\<forall>k. GetRun server' None k = GetRun local' None k \<and>
      (GetRun local' None k = Inr None \<longleftrightarrow> GetRun localRuns None k = Inr None \<and> GetRun serverRuns None k = Inr None) \<and>
      (\<forall>l s. GetRun localRuns None k = Inr l \<and> GetRun serverRuns None k = Inr s \<and> \<not> serverNewer l s \<longrightarrow> GetRun local' None k = Inr (newerRun l s))"
    by (elim exE conjE)
  have newer: "GetRun local' None k = Inr (newerRun l s)" if "GetRun localRuns None k = Inr l" "GetRun serverRuns None k = Inr s" "\<not> serverNewer l s" for k l s
    using all that by blast
  have same: "GetRun server' None k = GetRun local' None k" for k using all by blast
  have "GetRun localRuns None ''x'' = Inr (Some (example_run ''x'' ''completed'' 3))" "GetRun serverRuns None ''x'' = Inr (Some (example_run ''x'' ''running'' 1))"
    "GetRun localRuns None ''y'' = Inr None" "GetRun serverRuns None ''y'' = Inr (Some (example_run ''y'' ''completed'' 2))"
    by (simp_all add: GetRun_def localRuns_def serverRuns_def example_run_def)
  then have "GetRun local' None ''x'' = Inr (Some (example_run ''x'' ''completed'' 3))" "GetRun local' None ''y'' = Inr (Some (example_run ''y'' ''completed'' 2))"
    using newer [of "''x''"] newer [of "''y''"] by (simp_all add: serverNewer_def example_run_def second_def)
  with p same [of "''x''"] show ?thesis by (intro exI [of _ server'] exI [of _ local']) simp
qed

text \<open>
  The last write does not win: a push replaces the server's run by the local one also when the server's was updated later, although the comment
  of \<open>ApplyBundle\<close> promises last-write-wins.
\<close>

theorem push_overwrites_newer:
  assumes "sqlite_table local" "sqlite_table server" "length local \<le> 500"
    and "GetRun local None k = Inr (Some old)" "GetRun server None k = Inr (Some newer)" "rm_UpdatedAt old < rm_UpdatedAt newer"
  shows "\<exists>server'. pushCmd (working now) (\<lambda>i. None) local server = (server', None) \<and> GetRun server' None k = Inr (Some old) \<and> old \<noteq> newer"
proof -
  obtain server' where s: "pushCmd (working now) (\<lambda>i. None) local server = (server', None)" "run_view server' = run_view server ++ run_view local"
    using push_view [OF assms(1-3)] by metis
  then show ?thesis using fun_cong [OF s(2), of k] assms(4,6) by (auto simp: GetRun_def)
qed

theorem push_overwrites_newer_witness:
  "\<exists>server'. pushCmd (working 9) (\<lambda>i. None) [example_run ''x'' ''running'' 1] [example_run ''x'' ''completed'' 2] = (server', None) \<and>
    GetRun server' None ''x'' = Inr (Some (example_run ''x'' ''running'' 1)) \<and> example_run ''x'' ''running'' 1 \<noteq> example_run ''x'' ''completed'' 2"
  by (rule push_overwrites_newer) (simp_all add: GetRun_def sqlite_table_def wholeSeconds_def example_run_def rfcTime_def second_def)

end
