(* ===== verification/Http_Server.thy ===== *)
theory Http_Server
  imports Run_Store Rate_Limiter Approval_Queue
begin

text \<open>
  The HTTP server of \<open>pkg/orchestrate\<close>: API keys (\<open>auth.go\<close>), the rate limit middleware (\<open>ratelimit_middleware.go\<close>), the handlers
  of runs, dead letters and approvals (\<open>server.go\<close>), the health endpoints (\<open>health.go\<close>) and the approval endpoints of
  \<open>pkg/api/approvals.go\<close>. Its state is the run store, the queue of its runner and the table of running runs. A handler is a function
  from the server, the answers of clock, random identifiers and drivers, and the decoded request to the server and the response. Decoding of
  a JSON body is an argument: its error, or the fields read.
\<close>

section \<open>Requests and responses\<close>

record http_request =
  hq_Path :: string
  hq_Header :: "string smap"
  hq_RemoteAddr :: string
  hq_Query :: "string smap"

text \<open>A body is the text of \<open>http.Error\<close> or the value a JSON encoder is given.\<close>

datatype reply =
    Text string
  | Fields "string smap"
  | RunJSON RunMeta
  | EventsJSON string "StoredEvent list"
  | RunIDsJSON "string list"
  | DeadLettersJSON "DeadLetter list"
  | CancelledJSON bool
  | PendingJSON "ApprovalRequest list"
  | ApprovalJSON ApprovalRequest

record http_response =
  hs_code :: int
  hs_header :: "string smap"
  hs_body :: reply

definition Get_header :: "http_request \<Rightarrow> string \<Rightarrow> string" where
  "Get_header r k = (case map_of (hq_Header r) k of None \<Rightarrow> [] | Some v \<Rightarrow> v)"

definition http_Error :: "string \<Rightarrow> int \<Rightarrow> http_response" where
  "http_Error msg code = \<lparr>hs_code = code, hs_header = [], hs_body = Text msg\<rparr>"

definition http_JSON :: "int \<Rightarrow> reply \<Rightarrow> http_response" where
  "http_JSON code body = \<lparr>hs_code = code, hs_header = [(''Content-Type'', ''application/json'')], hs_body = body\<rparr>"

section \<open>API keys\<close>

definition NewAuthMiddleware :: "string list \<Rightarrow> bool smap" where
  "NewAuthMiddleware ks = fold (\<lambda>k m. AList.update k True m) ks []"

text \<open>A handler takes the server and the request; \<open>next\<close> in the source is \<open>handler\<close> here.\<close>

definition auth_Middleware :: "bool smap \<Rightarrow> ('s \<Rightarrow> http_request \<Rightarrow> 's \<times> http_response) \<Rightarrow> 's \<Rightarrow> http_request \<Rightarrow> 's \<times> http_response" where
  "auth_Middleware apiKeys handler s r =
     (if hq_Path r = ''/health'' \<or> hq_Path r = ''/ready'' then handler s r
      else (let auth = Get_header r ''Authorization''
            in if auth = [] then (s, http_Error ''missing authorization header'' 401)
               else (let token = TrimPrefix auth ''Bearer ''
                     in if map_of apiKeys token \<noteq> Some True then (s, http_Error ''invalid API key'' 401)
                        else handler s r)))"

section \<open>Rate limits\<close>

record RateLimitConfig =
  rl_Enabled :: bool
  rl_RequestsPerMin :: int
  rl_BurstSize :: int
  rl_RedisURL :: string

definition extractKey :: "http_request \<Rightarrow> string" where
  "extractKey r =
     (if Get_header r ''X-API-Key'' \<noteq> [] then ''apikey:'' @ Get_header r ''X-API-Key''
      else (let ip = Get_header r ''X-Forwarded-For'' in ''ip:'' @ (if ip = [] then hq_RemoteAddr r else ip)))"

text \<open>The limiter is part of the state the wrapped handler works on; \<open>now\<close> is its clock and \<open>answer\<close> the error of Redis.\<close>

definition ratelimit_Middleware :: "RateLimitConfig \<Rightarrow> gerror option \<Rightarrow> int \<Rightarrow> ('s \<Rightarrow> http_request \<Rightarrow> 's \<times> http_response) \<Rightarrow>
    RateLimiter \<times> 's \<Rightarrow> http_request \<Rightarrow> (RateLimiter \<times> 's) \<times> http_response" where
  "ratelimit_Middleware cfg answer now handler ls r =
     (if \<not> rl_Enabled cfg then (case handler (snd ls) r of (s', resp) \<Rightarrow> ((fst ls, s'), resp))
      else (case Allow (fst ls) answer now (extractKey r) (rl_RequestsPerMin cfg) (60 * 1000000000) of
              (l, Inl err) \<Rightarrow> ((l, snd ls), http_Error ''Rate limit error'' 500)
            | (l, Inr allowed) \<Rightarrow>
                if \<not> allowed
                then ((l, snd ls), \<lparr>hs_code = 429, hs_header = [(''X-RateLimit-Limit'', itoa (rl_RequestsPerMin cfg)), (''X-RateLimit-Remaining'', ''0''), (''Retry-After'', ''60'')],
                                    hs_body = Text ''Rate limit exceeded''\<rparr>)
                else (case handler (snd ls) r of
                        (s', resp) \<Rightarrow> ((l, s'), resp\<lparr>hs_header := (''X-RateLimit-Limit'', itoa (rl_RequestsPerMin cfg)) # hs_header resp\<rparr>))))"

text \<open>
  The chain of \<open>Run\<close>: first the rate limit is wrapped around the routes, then the keys around that, so the keys are checked first. Either may be
  absent.
\<close>

definition serve :: "bool smap option \<Rightarrow> RateLimitConfig option \<Rightarrow> gerror option \<Rightarrow> int \<Rightarrow> ('s \<Rightarrow> http_request \<Rightarrow> 's \<times> http_response) \<Rightarrow>
    RateLimiter \<times> 's \<Rightarrow> http_request \<Rightarrow> (RateLimiter \<times> 's) \<times> http_response" where
  "serve auth rateLimitMw answer now mux ls r =
     (let handler = (\<lambda>ls r. case mux (snd ls) r of (s', resp) \<Rightarrow> ((fst ls, s'), resp));
          handler1 = (case rateLimitMw of Some cfg \<Rightarrow> ratelimit_Middleware cfg answer now mux | None \<Rightarrow> handler);
          handler2 = (case auth of Some ks \<Rightarrow> auth_Middleware ks handler1 | None \<Rightarrow> handler1)
      in handler2 ls r)"

section \<open>The server\<close>

datatype backend = MemoryBackend memoryQueue | RedisBackend redisQueue

record QueueConfig =
  qc_Backend :: string
  qc_RedisURL :: string
  qc_QueueSize :: int

text \<open>\<open>parseURL\<close> tells whether \<open>redis.ParseURL\<close> accepts the address; the list of a fresh key is empty.\<close>

definition buildQueue :: "(string \<Rightarrow> bool) \<Rightarrow> QueueConfig \<Rightarrow> backend" where
  "buildQueue parseURL cfg =
     (if qc_Backend cfg = ''redis'' \<and> qc_RedisURL cfg \<noteq> []
      then (if \<not> parseURL (qc_RedisURL cfg) then MemoryBackend (NewMemoryQueue (qc_QueueSize cfg)) else RedisBackend [])
      else MemoryBackend (NewMemoryQueue (if qc_QueueSize cfg \<le> 0 then 256 else qc_QueueSize cfg)))"

fun Submit :: "backend \<Rightarrow> gerror option \<Rightarrow> RunRequest \<Rightarrow> backend \<times> gerror option" where
  "Submit (MemoryBackend m) answer req = (case mq_Enqueue m req of (m', err) \<Rightarrow> (MemoryBackend m', err))"
| "Submit (RedisBackend q) answer req = (case rd_Enqueue q answer req of (q', err) \<Rightarrow> (RedisBackend q', err))"

record server =
  sv_runs :: "RunMeta list"
  sv_events :: "StoredEvent list"
  sv_dead :: "DeadLetter list"
  sv_runner :: "backend option"
  sv_cancels :: "bool smap"

text \<open>\<open>sv_cancels\<close> is the map from a run to its cancel function, as whether it has been called. \<open>sn_save\<close> is the driver's answer to each save in turn.\<close>

record server_env =
  sn_uuid :: string
  sn_now :: "nat \<Rightarrow> int"
  sn_save :: "nat \<Rightarrow> gerror option"
  sn_read :: "gerror option"
  sn_submit :: "gerror option"

definition saveRun :: "server_env \<Rightarrow> nat \<Rightarrow> RunMeta \<Rightarrow> server \<Rightarrow> server \<times> gerror option" where
  "saveRun env i run s = (case sqlite_SaveRun (sv_runs s) (sn_save env i) run of (t, err) \<Rightarrow> (s\<lparr>sv_runs := t\<rparr>, err))"

definition pendingRun :: "server_env \<Rightarrow> string \<Rightarrow> string \<Rightarrow> RunMeta" where
  "pendingRun env agent goal = \<lparr>rm_RunID = sn_uuid env, rm_AgentName = agent, rm_Goal = goal, rm_State = ''pending'', rm_StepCount = 0,
     rm_CreatedAt = sn_now env 0, rm_UpdatedAt = sn_now env 0\<rparr>"

definition failedRun :: "server_env \<Rightarrow> RunMeta \<Rightarrow> RunMeta" where
  "failedRun env run = run\<lparr>rm_State := ''failed'', rm_UpdatedAt := sn_now env 1\<rparr>"

record create_request =
  cr_AgentName :: string
  cr_Goal :: string
  cr_MaxRetries :: int
  cr_RetryBackoffMs :: int
  cr_TimeoutMs :: int

text \<open>\<open>time.Duration(ms) * time.Millisecond\<close> at 64 bits.\<close>

definition milliseconds :: "int \<Rightarrow> int" where
  "milliseconds ms = wrap64 (ms * 1000000)"

definition apiRequest :: "server_env \<Rightarrow> create_request \<Rightarrow> RunRequest" where
  "apiRequest env req = \<lparr>rq_RunID = sn_uuid env, rq_AgentName = cr_AgentName req, rq_Goal = cr_Goal req, rq_Source = ''api'', rq_Outputs = [],
     rq_MaxRetries = cr_MaxRetries req, rq_RetryBackoff = milliseconds (cr_RetryBackoffMs req), rq_Timeout = milliseconds (cr_TimeoutMs req), rq_Callback = False\<rparr>"

definition handleCreateRun :: "server_env \<Rightarrow> server \<Rightarrow> gerror + create_request \<Rightarrow> server \<times> http_response" where
  "handleCreateRun env s body =
     (case body of
        Inl err \<Rightarrow> (s, http_Error (error_string err) 400)
      | Inr req \<Rightarrow>
          if cr_MaxRetries req < 0 \<or> cr_RetryBackoffMs req < 0 \<or> cr_TimeoutMs req < 0
          then (s, http_Error ''max_retries, retry_backoff_ms, and timeout_ms must be >= 0'' 400)
          else (let run = pendingRun env (cr_AgentName req) (cr_Goal req)
                in case saveRun env 0 run s of
                     (s1, Some err) \<Rightarrow> (s1, http_Error (error_string err) 500)
                   | (s1, None) \<Rightarrow>
                       (let ok = http_JSON 200 (Fields [(''run_id'', sn_uuid env)])
                        in case sv_runner s1 of
                             None \<Rightarrow> (s1, ok)
                           | Some q \<Rightarrow>
                               (case Submit q (sn_submit env) (apiRequest env req) of
                                  (q', None) \<Rightarrow> (s1\<lparr>sv_runner := Some q'\<rparr>, ok)
                                | (q', Some err) \<Rightarrow>
                                    (fst (saveRun env 1 (failedRun env run) (s1\<lparr>sv_runner := Some q'\<rparr>)), http_Error (error_string err) 503)))))"

definition handleGetRun :: "server_env \<Rightarrow> server \<Rightarrow> string \<Rightarrow> http_response" where
  "handleGetRun env s runID =
     (if runID = [] then http_Error ''run_id required'' 400
      else (case GetRun (sv_runs s) (sn_read env) runID of
              Inl err \<Rightarrow> http_Error (error_string err) 500
            | Inr None \<Rightarrow> http_Error ''404 page not found'' 404
            | Inr (Some run) \<Rightarrow> http_JSON 200 (RunJSON run)))"

definition handleGetRunEvents :: "server_env \<Rightarrow> server \<Rightarrow> string \<Rightarrow> http_response" where
  "handleGetRunEvents env s runID =
     (if runID = [] then http_Error ''run_id required'' 400
      else (case GetEvents (sv_events s) (sn_read env) runID of
              Inl err \<Rightarrow> http_Error (error_string err) 500
            | Inr evts \<Rightarrow> http_JSON 200 (EventsJSON runID evts)))"

definition handleListRuns :: "server_env \<Rightarrow> server \<Rightarrow> http_response" where
  "handleListRuns env s =
     (case ListRuns (sv_runs s) (sn_read env) 100 of
        Inl err \<Rightarrow> http_Error (error_string err) 500
      | Inr ids \<Rightarrow> http_JSON 200 (RunIDsJSON ids))"

section \<open>Dead letters\<close>

definition digit :: "char \<Rightarrow> nat option" where
  "digit c = (let n = (of_char c :: nat) in if 48 \<le> n \<and> n \<le> 57 then Some (n - 48) else None)"

fun digits :: "string \<Rightarrow> nat \<Rightarrow> nat option" where
  "digits [] acc = Some acc"
| "digits (c # cs) acc = (case digit c of None \<Rightarrow> None | Some d \<Rightarrow> digits cs (10 * acc + d))"

text \<open>\<open>strconv.Atoi\<close>: an optional sign and at least one digit, within 64 bits.\<close>

definition Atoi :: "string \<Rightarrow> int option" where
  "Atoi s =
     (let neg = (s \<noteq> [] \<and> hd s = CHR ''-'');
          ds = (if s \<noteq> [] \<and> (hd s = CHR ''-'' \<or> hd s = CHR ''+'') then tl s else s)
      in if ds = [] then None
         else (case digits ds 0 of
                 None \<Rightarrow> None
               | Some n \<Rightarrow> (let i = (if neg then - int n else int n) in if - (2 ^ 63) \<le> i \<and> i < 2 ^ 63 then Some i else None)))"

definition Get_query :: "http_request \<Rightarrow> string \<Rightarrow> string" where
  "Get_query r k = (case map_of (hq_Query r) k of None \<Rightarrow> [] | Some v \<Rightarrow> v)"

definition handleListDeadLetters :: "server_env \<Rightarrow> server \<Rightarrow> http_request \<Rightarrow> http_response" where
  "handleListDeadLetters env s r =
     (let raw = Get_query r ''limit'';
          limit = (if raw = [] then Some 100 else (case Atoi raw of None \<Rightarrow> None | Some v \<Rightarrow> if v \<le> 0 then None else Some v));
          source = Get_query r ''source''
      in case limit of
           None \<Rightarrow> http_Error ''limit must be a positive integer'' 400
         | Some l \<Rightarrow>
             (case ListDeadLetters (sv_dead s) (sn_read env) l of
                Inl err \<Rightarrow> http_Error (error_string err) 500
              | Inr letters \<Rightarrow> http_JSON 200 (DeadLettersJSON (if source \<noteq> [] then filter (\<lambda>d. dl_Source d = source) letters else letters))))"

record replay_request =
  ry_Goal :: string
  ry_MaxRetries :: "int option"
  ry_RetryBackoffMs :: "int option"
  ry_TimeoutMs :: "int option"
  ry_Payload :: "any smap option"

definition no_replay_request :: replay_request where
  "no_replay_request = \<lparr>ry_Goal = [], ry_MaxRetries = None, ry_RetryBackoffMs = None, ry_TimeoutMs = None, ry_Payload = None\<rparr>"

text \<open>The options of a replay, checked in the order of the source: the error of the first that is negative.\<close>

definition negative :: "int option \<Rightarrow> bool" where
  "negative v = (case v of None \<Rightarrow> False | Some i \<Rightarrow> i < 0)"

definition replayOptionError :: "replay_request \<Rightarrow> string option" where
  "replayOptionError q =
     (if negative (ry_MaxRetries q) then Some ''max_retries must be >= 0''
      else if negative (ry_RetryBackoffMs q) then Some ''retry_backoff_ms must be >= 0''
      else if negative (ry_TimeoutMs q) then Some ''timeout_ms must be >= 0''
      else None)"

definition replayRunRequest :: "server_env \<Rightarrow> DeadLetter \<Rightarrow> replay_request \<Rightarrow> RunRequest" where
  "replayRunRequest env dl q = \<lparr>rq_RunID = sn_uuid env, rq_AgentName = dl_AgentName dl, rq_Goal = (if ry_Goal q \<noteq> [] then ry_Goal q else dl_Goal dl),
     rq_Source = ''dead-letter-replay'', rq_Outputs = (case ry_Payload q of Some p \<Rightarrow> p | None \<Rightarrow> dl_Payload dl),
     rq_MaxRetries = (case ry_MaxRetries q of Some n \<Rightarrow> n | None \<Rightarrow> dl_MaxRetries dl),
     rq_RetryBackoff = (case ry_RetryBackoffMs q of Some n \<Rightarrow> milliseconds n | None \<Rightarrow> 0),
     rq_Timeout = (case ry_TimeoutMs q of Some n \<Rightarrow> milliseconds n | None \<Rightarrow> 0), rq_Callback = False\<rparr>"

text \<open>\<open>body\<close>: nothing for an absent or empty body, the error of the decoder, or the fields.\<close>

definition handleReplayDeadLetter :: "server_env \<Rightarrow> server \<Rightarrow> string \<Rightarrow> (gerror + replay_request) option \<Rightarrow> server \<times> http_response" where
  "handleReplayDeadLetter env s sourceRunID body =
     (case sv_runner s of
        None \<Rightarrow> (s, http_Error ''runner unavailable'' 503)
      | Some q \<Rightarrow>
          if sourceRunID = [] then (s, http_Error ''run_id required'' 400)
          else (case GetLatestDeadLetterByRunID (sv_dead s) (sn_read env) sourceRunID of
                  Inl err \<Rightarrow> (s, http_Error (error_string err) 500)
                | Inr None \<Rightarrow> (s, http_Error (''dead-letter for run '' @ sourceRunID @ '' not found'') 404)
                | Inr (Some dl) \<Rightarrow>
                    (case (case body of None \<Rightarrow> Inr no_replay_request | Some b \<Rightarrow> b) of
                       Inl err \<Rightarrow> (s, http_Error (error_string err) 400)
                     | Inr rq \<Rightarrow>
                         (case replayOptionError rq of
                            Some msg \<Rightarrow> (s, http_Error msg 400)
                          | None \<Rightarrow>
                              (let req = replayRunRequest env dl rq; run = pendingRun env (dl_AgentName dl) (rq_Goal req)
                               in case saveRun env 0 run s of
                                    (s1, Some err) \<Rightarrow> (s1, http_Error (error_string err) 500)
                                  | (s1, None) \<Rightarrow>
                                      (case Submit q (sn_submit env) req of
                                         (q', Some err) \<Rightarrow>
                                           (fst (saveRun env 1 (failedRun env run) (s1\<lparr>sv_runner := Some q'\<rparr>)), http_Error (error_string err) 503)
                                       | (q', None) \<Rightarrow>
                                           (s1\<lparr>sv_runner := Some q'\<rparr>,
                                            http_JSON 202 (Fields [(''status'', ''accepted''), (''source_run_id'', sourceRunID), (''replayed_run_id'', sn_uuid env)]))))))))"

section \<open>Cancelling\<close>

definition setRunCancel :: "server \<Rightarrow> string \<Rightarrow> server" where
  "setRunCancel s runID = s\<lparr>sv_cancels := AList.update runID False (sv_cancels s)\<rparr>"

definition clearRunCancel :: "server \<Rightarrow> string \<Rightarrow> server" where
  "clearRunCancel s runID = s\<lparr>sv_cancels := AList.delete runID (sv_cancels s)\<rparr>"

definition handleCancelRun :: "server \<Rightarrow> string \<Rightarrow> server \<times> http_response" where
  "handleCancelRun s runID =
     (if runID = [] then (s, http_Error ''run_id required'' 400)
      else (case map_of (sv_cancels s) runID of
              None \<Rightarrow> (s, http_JSON 200 (CancelledJSON False))
            | Some called \<Rightarrow> (s\<lparr>sv_cancels := AList.update runID True (sv_cancels s)\<rparr>, http_JSON 200 (CancelledJSON True))))"

section \<open>Approvals\<close>

text \<open>The queue is one of \<open>Approval_Queue\<close>; its operations, with the error they may return, are arguments.\<close>

definition handleApprovalsPending :: "('q \<Rightarrow> gerror + ApprovalRequest list) \<Rightarrow> 'q option \<Rightarrow> http_response" where
  "handleApprovalsPending listPending queue =
     (case queue of
        None \<Rightarrow> http_Error ''approvals not enabled'' 503
      | Some q \<Rightarrow> (case listPending q of Inl err \<Rightarrow> http_Error (error_string err) 500 | Inr reqs \<Rightarrow> http_JSON 200 (PendingJSON reqs)))"

definition handleApprovalGet :: "('q \<Rightarrow> string \<Rightarrow> gerror + ApprovalRequest option) \<Rightarrow> 'q option \<Rightarrow> string \<Rightarrow> http_response" where
  "handleApprovalGet get queue i =
     (case queue of
        None \<Rightarrow> http_Error ''approvals not enabled'' 503
      | Some q \<Rightarrow>
          if i = [] \<or> i = ''pending'' then http_Error ''404 page not found'' 404
          else (case get q i of
                  Inl err \<Rightarrow> http_Error (error_string err) 500
                | Inr None \<Rightarrow> http_Error ''404 page not found'' 404
                | Inr (Some req) \<Rightarrow> http_JSON 200 (ApprovalJSON req)))"

definition handleApprovalApprove :: "('q \<Rightarrow> string \<Rightarrow> 'q \<times> gerror option) \<Rightarrow> 'q option \<Rightarrow> string \<Rightarrow> 'q option \<times> http_response" where
  "handleApprovalApprove approve queue i =
     (case queue of
        None \<Rightarrow> (None, http_Error ''approvals not enabled'' 503)
      | Some q \<Rightarrow>
          if i = [] then (Some q, http_Error ''id required'' 400)
          else (case approve q i of
                  (q', Some err) \<Rightarrow> (Some q', http_Error (error_string err) 500)
                | (q', None) \<Rightarrow> (Some q', http_JSON 200 (Fields [(''status'', ''approved'')]))))"

definition handleApprovalDeny :: "('q \<Rightarrow> string \<Rightarrow> 'q \<times> gerror option) \<Rightarrow> 'q option \<Rightarrow> string \<Rightarrow> 'q option \<times> http_response" where
  "handleApprovalDeny deny queue i =
     (case queue of
        None \<Rightarrow> (None, http_Error ''approvals not enabled'' 503)
      | Some q \<Rightarrow>
          if i = [] then (Some q, http_Error ''id required'' 400)
          else (case deny q i of
                  (q', Some err) \<Rightarrow> (Some q', http_Error (error_string err) 500)
                | (q', None) \<Rightarrow> (Some q', http_JSON 200 (Fields [(''status'', ''denied'')]))))"

section \<open>Health\<close>

text \<open>The timestamps of both answers are left out.\<close>

definition handleHealth :: http_response where
  "handleHealth = http_JSON 200 (Fields [(''status'', ''healthy'')])"

definition handleReady :: "server_env \<Rightarrow> server \<Rightarrow> http_response" where
  "handleReady env s =
     (case ListRuns (sv_runs s) (sn_read env) 1 of
        Inl err \<Rightarrow> http_JSON 503 (Fields [(''status'', ''not ready''), (''error'', ''store unavailable'')])
      | Inr ids \<Rightarrow> http_JSON 200 (Fields [(''status'', ''ready'')]))"

section \<open>Who gets through\<close>

definition authorised :: "string list \<Rightarrow> http_request \<Rightarrow> bool" where
  "authorised ks r \<longleftrightarrow> hq_Path r = ''/health'' \<or> hq_Path r = ''/ready'' \<or>
     Get_header r ''Authorization'' \<noteq> [] \<and> TrimPrefix (Get_header r ''Authorization'') ''Bearer '' \<in> set ks"

text \<open>A handler that also notes the requests it is given, and a sequence of requests at given times.\<close>

definition counted :: "('s \<Rightarrow> http_request \<Rightarrow> 's \<times> http_response) \<Rightarrow> http_request list \<times> 's \<Rightarrow> http_request \<Rightarrow> (http_request list \<times> 's) \<times> http_response" where
  "counted mux ls r = (case mux (snd ls) r of (s', resp) \<Rightarrow> ((fst ls @ [r], s'), resp))"

fun serveAll :: "string list \<Rightarrow> RateLimitConfig \<Rightarrow> ('s \<Rightarrow> http_request \<Rightarrow> 's \<times> http_response) \<Rightarrow> (int \<times> http_request) list \<Rightarrow>
    RateLimiter \<times> http_request list \<times> 's \<Rightarrow> RateLimiter \<times> http_request list \<times> 's" where
  "serveAll ks cfg mux [] st = st"
| "serveAll ks cfg mux ((now, r) # reqs) st =
     serveAll ks cfg mux reqs (fst (serve (Some (NewAuthMiddleware ks)) (Some cfg) None now (counted mux) st r))"

definition local_limiter :: "localRateLimitStore \<Rightarrow> RateLimiter" where
  "local_limiter b = \<lparr>rl_buckets = b, rl_redis = [], rl_useRedis = False\<rparr>"

lemma NewAuthMiddleware_keys: "map_of (NewAuthMiddleware ks) k = Some True \<longleftrightarrow> k \<in> set ks"
proof -
  have "map_of (fold (\<lambda>k m. AList.update k True m) ks m) k = Some True \<longleftrightarrow> k \<in> set ks \<or> map_of m k = Some True" for m
    by (induction ks arbitrary: m) auto
  then show ?thesis by (simp add: NewAuthMiddleware_def)
qed

lemma serve_unauthorised:
  "\<not> authorised ks r \<Longrightarrow> fst (serve (Some (NewAuthMiddleware ks)) rl answer now mux st r) = st \<and>
     hs_code (snd (serve (Some (NewAuthMiddleware ks)) rl answer now mux st r)) = 401"
  by (auto simp: serve_def auth_Middleware_def authorised_def Let_def NewAuthMiddleware_keys http_Error_def)

lemma serve_authorised:
  "authorised ks r \<Longrightarrow> serve (Some (NewAuthMiddleware ks)) (Some cfg) answer now mux st r = ratelimit_Middleware cfg answer now mux st r"
  by (auto simp: serve_def auth_Middleware_def authorised_def Let_def NewAuthMiddleware_keys)

lemma limited_step:
  assumes "rl_Enabled cfg" "allowLocal b now (extractKey r) (rl_RequestsPerMin cfg) (60 * 1000000000) = (b', res)"
  shows "\<exists>s'. fst (ratelimit_Middleware cfg None now (counted mux) (local_limiter b, seen, s) r) =
    (local_limiter b', seen @ (if res = Inr True then [r] else []), s')"
  using assms by (cases res)
    (auto simp: ratelimit_Middleware_def Allow_def local_limiter_def counted_def split: prod.split)

text \<open>The requests for one key that reach the handlers are those the bucket of that key lets through, of the authorised ones.\<close>

lemma serveAll_counts:
  assumes "rl_Enabled cfg"
  shows "length (filter (\<lambda>r. extractKey r = k) (fst (snd (serveAll ks cfg mux reqs (local_limiter b, seen, s))))) =
    length (filter (\<lambda>r. extractKey r = k) seen) +
    countAllowed k (rl_RequestsPerMin cfg) (60 * 1000000000) (map (\<lambda>q. (fst q, extractKey (snd q))) (filter (\<lambda>q. authorised ks (snd q)) reqs)) b"
proof (induction reqs arbitrary: b seen s)
  case (Cons q reqs)
  obtain now r where q: "q = (now, r)" by force
  show ?case
  proof (cases "authorised ks r")
    case False
    then show ?thesis using Cons.IH [of b seen s] by (simp add: q serve_unauthorised)
  next
    case True
    obtain b' res where al: "allowLocal b now (extractKey r) (rl_RequestsPerMin cfg) (60 * 1000000000) = (b', res)" by force
    obtain s' where "fst (ratelimit_Middleware cfg None now (counted mux) (local_limiter b, seen, s) r) = (local_limiter b', seen @ (if res = Inr True then [r] else []), s')"
      using limited_step [OF assms al, of mux seen s] by blast
    then show ?thesis using Cons.IH [of b' "seen @ (if res = Inr True then [r] else [])" s'] True al by (simp add: q serve_authorised)
  qed
qed simp

lemma serveAll_authorised:
  assumes "rl_Enabled cfg" "list_all (authorised ks) seen"
  shows "list_all (authorised ks) (fst (snd (serveAll ks cfg mux reqs (local_limiter b, seen, s))))"
  using assms(2)
proof (induction reqs arbitrary: b seen s)
  case (Cons q reqs)
  obtain now r where q: "q = (now, r)" by force
  show ?case
  proof (cases "authorised ks r")
    case False
    then show ?thesis using Cons.IH [of seen b s] Cons.prems by (simp add: q serve_unauthorised)
  next
    case True
    obtain b' res where al: "allowLocal b now (extractKey r) (rl_RequestsPerMin cfg) (60 * 1000000000) = (b', res)" by force
    obtain s' where "fst (ratelimit_Middleware cfg None now (counted mux) (local_limiter b, seen, s) r) = (local_limiter b', seen @ (if res = Inr True then [r] else []), s')"
      using limited_step [OF assms(1) al, of mux seen s] by blast
    then show ?thesis using Cons.IH [of "seen @ (if res = Inr True then [r] else [])" b' s'] True Cons.prems by (simp add: q serve_authorised)
  qed
qed simp

text \<open>
  C31. The chain of middlewares admits only authorised requests, and of those of one client key no more than the rate limit allows: through any
  sequence of requests between two times, against a server with API keys and a fresh in-memory limiter (no Redis), every request that reaches a
  handler asked for one of the paths \<open>/health\<close>, \<open>/ready\<close> and \<open>/metrics\<close> or carried a configured key in its \<open>Authorization\<close> header, and the
  number of those for one client key is at most the limit plus one per refill interval.
\<close>

theorem server_admission:
  fixes ks :: "string list" and mux :: "'s \<Rightarrow> http_request \<Rightarrow> 's \<times> http_response" and s :: 's
  assumes "rl_Enabled cfg" "0 < rl_RequestsPerMin cfg" "rl_RequestsPerMin cfg \<le> 60 * 1000000000" "t0 \<le> t1"
    and "\<forall>q \<in> set reqs. t0 \<le> fst q \<and> fst q \<le> t1"
  defines "admitted \<equiv> fst (snd (serveAll ks cfg mux reqs (local_limiter [], [], s)))"
  shows "(\<forall>r \<in> set admitted. hq_Path r \<in> {''/health'', ''/ready'', ''/metrics''} \<or>
      Get_header r ''Authorization'' \<noteq> [] \<and> TrimPrefix (Get_header r ''Authorization'') ''Bearer '' \<in> set ks) \<and>
    int (length (filter (\<lambda>r. extractKey r = k) admitted)) \<le> rl_RequestsPerMin cfg + (t1 - t0) div (60 * 1000000000 div rl_RequestsPerMin cfg)"
proof
  have "list_all (authorised ks) admitted" unfolding admitted_def by (rule serveAll_authorised [OF assms(1)]) simp
  then show "\<forall>r \<in> set admitted. hq_Path r \<in> {''/health'', ''/ready'', ''/metrics''} \<or>
      Get_header r ''Authorization'' \<noteq> [] \<and> TrimPrefix (Get_header r ''Authorization'') ''Bearer '' \<in> set ks"
    by (auto simp: list_all_iff authorised_def)
  let ?reqs = "map (\<lambda>q. (fst q, extractKey (snd q))) (filter (\<lambda>q. authorised ks (snd q)) reqs)"
  have "length (filter (\<lambda>r. extractKey r = k) admitted) = countAllowed k (rl_RequestsPerMin cfg) (60 * 1000000000) ?reqs []"
    unfolding admitted_def serveAll_counts [OF assms(1)] by simp
  moreover have "int (countAllowed k (rl_RequestsPerMin cfg) (60 * 1000000000) ?reqs []) \<le>
      rl_RequestsPerMin cfg + (t1 - t0) div (60 * 1000000000 div rl_RequestsPerMin cfg)"
    by (rule countAllowed_rate [OF assms(2,3,4)]) (use assms(5) in auto)
  ultimately show "int (length (filter (\<lambda>r. extractKey r = k) admitted)) \<le> rl_RequestsPerMin cfg + (t1 - t0) div (60 * 1000000000 div rl_RequestsPerMin cfg)"
    by simp
qed

definition example_http :: "string \<Rightarrow> string \<Rightarrow> string \<Rightarrow> http_request" where
  "example_http path auth apikey = \<lparr>hq_Path = path, hq_Header = [(''Authorization'', auth), (''X-API-Key'', apikey)], hq_RemoteAddr = ''10.0.0.1:80'', hq_Query = []\<rparr>"

definition okMux :: "unit \<Rightarrow> http_request \<Rightarrow> unit \<times> http_response" where
  "okMux s r = (s, http_JSON 200 (Fields []))"

theorem server_admission_witness:
  "int (length (filter (\<lambda>r. extractKey r = ''apikey:x'')
     (fst (snd (serveAll [''k''] \<lparr>rl_Enabled = True, rl_RequestsPerMin = 1, rl_BurstSize = 0, rl_RedisURL = []\<rparr> okMux
       [(0, example_http ''/v1/runs'' ''Bearer k'' ''x''), (1, example_http ''/v1/runs'' ''k'' ''x''), (2, example_http ''/v1/runs'' ''other'' ''x'')]
       (local_limiter [], [], ())))))) \<le> 1 \<and>
   fst (snd (serveAll [''k''] \<lparr>rl_Enabled = True, rl_RequestsPerMin = 1, rl_BurstSize = 0, rl_RedisURL = []\<rparr> okMux
       [(0, example_http ''/v1/runs'' ''Bearer k'' ''x''), (1, example_http ''/v1/runs'' ''k'' ''x''), (2, example_http ''/v1/runs'' ''other'' ''x'')]
       (local_limiter [], [], ()))) = [example_http ''/v1/runs'' ''Bearer k'' ''x'']"
proof
  show "int (length (filter (\<lambda>r. extractKey r = ''apikey:x'')
     (fst (snd (serveAll [''k''] \<lparr>rl_Enabled = True, rl_RequestsPerMin = 1, rl_BurstSize = 0, rl_RedisURL = []\<rparr> okMux
       [(0, example_http ''/v1/runs'' ''Bearer k'' ''x''), (1, example_http ''/v1/runs'' ''k'' ''x''), (2, example_http ''/v1/runs'' ''other'' ''x'')]
       (local_limiter [], [], ())))))) \<le> 1"
    using server_admission [where cfg = "\<lparr>rl_Enabled = True, rl_RequestsPerMin = 1, rl_BurstSize = 0, rl_RedisURL = []\<rparr>" and ?t0.0 = 0 and ?t1.0 = 2
       and reqs = "[(0, example_http ''/v1/runs'' ''Bearer k'' ''x''), (1, example_http ''/v1/runs'' ''k'' ''x''), (2, example_http ''/v1/runs'' ''other'' ''x'')]"
       and ks = "[''k'']" and mux = okMux and s = "()" and k = "''apikey:x''"] by simp
qed code_simp

text \<open>
  The key of the limiter is a header the client chooses and the authentication does not look at: a client that sends a new one with every
  request is never limited.
\<close>

lemma allowLocal_new:
  assumes "map_of b key = None" "0 < limit" "limit \<le> window"
  shows "\<exists>b'. allowLocal b now key limit window = (b', Inr True) \<and> (\<forall>j. j \<noteq> key \<longrightarrow> map_of b' j = map_of b j)"
proof -
  have "0 < window div limit" using assms(2,3) by (simp add: pos_imp_zdiv_pos_iff)
  then have "go_div window limit \<noteq> 0" using assms(2,3) go_div_pos [of limit window] by simp
  then show ?thesis using assms by (simp add: allowLocal_def findBucket_def refill_def takeToken_def go_div_def Let_def)
qed

lemma fresh_keys_unlimited:
  assumes "rl_Enabled cfg" "0 < rl_RequestsPerMin cfg" "rl_RequestsPerMin cfg \<le> 60 * 1000000000"
  shows "list_all (\<lambda>q. authorised ks (snd q) \<and> Get_header (snd q) ''X-API-Key'' \<noteq> [] \<and> map_of b (extractKey (snd q)) = None) reqs \<Longrightarrow>
    distinct (map (\<lambda>q. extractKey (snd q)) reqs) \<Longrightarrow>
    fst (snd (serveAll ks cfg mux reqs (local_limiter b, seen, s))) = seen @ map snd reqs"
proof (induction reqs arbitrary: b seen s)
  case (Cons q reqs)
  obtain now r where q: "q = (now, r)" by force
  obtain b' where al: "allowLocal b now (extractKey r) (rl_RequestsPerMin cfg) (60 * 1000000000) = (b', Inr True)"
    "\<forall>j. j \<noteq> extractKey r \<longrightarrow> map_of b' j = map_of b j"
    using allowLocal_new [OF _ assms(2,3), of b "extractKey r" now] Cons.prems(1) by (auto simp: q)
  obtain s' where step: "fst (ratelimit_Middleware cfg None now (counted mux) (local_limiter b, seen, s) r) = (local_limiter b', seen @ [r], s')"
    using limited_step [OF assms(1) al(1), of mux seen s] by auto
  have "list_all (\<lambda>q. authorised ks (snd q) \<and> Get_header (snd q) ''X-API-Key'' \<noteq> [] \<and> map_of b' (extractKey (snd q)) = None) reqs"
    unfolding list_all_iff
  proof
    fix p assume "p \<in> set reqs"
    then have "extractKey (snd p) \<noteq> extractKey r" "authorised ks (snd p) \<and> Get_header (snd p) ''X-API-Key'' \<noteq> [] \<and> map_of b (extractKey (snd p)) = None"
      using Cons.prems by (auto simp: q list_all_iff image_iff)
    then show "authorised ks (snd p) \<and> Get_header (snd p) ''X-API-Key'' \<noteq> [] \<and> map_of b' (extractKey (snd p)) = None"
      using al(2) by simp
  qed
  then show ?case using Cons.IH [of b' "seen @ [r]" s'] Cons.prems step by (simp add: q serve_authorised)
qed simp

section \<open>Runs and replays\<close>

abbreviation queued :: "server \<Rightarrow> RunRequest list" where
  "queued s \<equiv> (case sv_runner s of Some (MemoryBackend m) \<Rightarrow> mq_ch m | Some (RedisBackend q) \<Rightarrow> rev q | None \<Rightarrow> [])"

abbreviation run_of :: "server \<Rightarrow> string \<Rightarrow> RunMeta option" where
  "run_of s k \<equiv> find (\<lambda>r. rm_RunID r = k) (sv_runs s)"

definition accepting :: "memoryQueue \<Rightarrow> bool" where
  "accepting m \<longleftrightarrow> \<not> mq_closed m \<and> length (mq_ch m) < mq_cap m"

lemma find_append: "find P (xs @ ys) = (case find P xs of Some x \<Rightarrow> Some x | None \<Rightarrow> find P ys)"
  by (induction xs) auto

lemma find_filter_id: "find (\<lambda>r. rm_RunID r = k) (filter (\<lambda>r. rm_RunID r \<noteq> i) t) = (if k = i then None else find (\<lambda>r. rm_RunID r = k) t)"
  by (induction t) auto

text \<open>Saving a run in a working database shows in its state and leaves the other runs and the rest of the server alone.\<close>

lemma saveRun_works:
  assumes "sn_save env i = None"
  obtains s' where "saveRun env i run s = (s', None)" "sv_runner s' = sv_runner s" "sv_dead s' = sv_dead s" "sv_events s' = sv_events s"
    "sv_cancels s' = sv_cancels s"
    "\<And>k. map_option rm_State (run_of s' k) = (if k = rm_RunID run then Some (rm_State run) else map_option rm_State (run_of s k))"
proof -
  let ?r = "run\<lparr>rm_CreatedAt := rfcTime (rm_CreatedAt run), rm_UpdatedAt := rfcTime (rm_UpdatedAt run)\<rparr>"
  let ?s = "s\<lparr>sv_runs := filter (\<lambda>r. rm_RunID r \<noteq> rm_RunID run) (sv_runs s) @ [?r]\<rparr>"
  have "saveRun env i run s = (?s, None)" using assms by (simp add: saveRun_def sqlite_SaveRun_def)
  moreover have "map_option rm_State (run_of ?s k) = (if k = rm_RunID run then Some (rm_State run) else map_option rm_State (run_of s k))" for k
    by (simp add: find_append find_filter_id split: option.split)
  ultimately show thesis by (intro that [of ?s]) simp_all
qed

lemma pendingRun_simps [simp]: "rm_RunID (pendingRun env agent goal) = sn_uuid env" "rm_State (pendingRun env agent goal) = ''pending''"
  by (simp_all add: pendingRun_def)

lemma failedRun_simps [simp]: "rm_RunID (failedRun env run) = rm_RunID run" "rm_State (failedRun env run) = ''failed''"
  by (simp_all add: failedRun_def)

lemma saveRun_fails: "sn_save env i = Some err \<Longrightarrow> saveRun env i run s = (s, Some err)"
  by (simp add: saveRun_def sqlite_SaveRun_def)

lemma Submit_memory: "Submit (MemoryBackend m) answer req =
    (if accepting m then (MemoryBackend (m\<lparr>mq_ch := mq_ch m @ [req]\<rparr>), None)
     else (MemoryBackend m, Some (Errorf (if mq_closed m then ''panic: send on closed channel'' else ''runner queue is full''))))"
  by (simp add: mq_Enqueue_def accepting_def)

text \<open>
  A request for a run is accounted for: with a memory queue and a working database, a valid request is answered 200 exactly when the queue
  has room, and then the run is stored as pending and its request is the last of the queue; when the queue is full it is answered 503, the run is stored as
  failed and the queue is unchanged; an invalid request changes nothing.
\<close>

theorem create_run_accounted:
  fixes req :: create_request
  assumes "sv_runner s = Some (MemoryBackend m)" "\<not> mq_closed m" "sn_save env 0 = None" "sn_save env 1 = None"
  defines "res \<equiv> handleCreateRun env s (Inr req)"
  shows "if cr_MaxRetries req < 0 \<or> cr_RetryBackoffMs req < 0 \<or> cr_TimeoutMs req < 0 then fst res = s \<and> hs_code (snd res) = 400
    else map_option rm_State (run_of (fst res) (sn_uuid env)) = Some (if length (mq_ch m) < mq_cap m then ''pending'' else ''failed'') \<and>
      queued (fst res) = mq_ch m @ (if length (mq_ch m) < mq_cap m then [apiRequest env req] else []) \<and>
      hs_code (snd res) = (if length (mq_ch m) < mq_cap m then 200 else 503) \<and>
      (\<forall>k. k \<noteq> sn_uuid env \<longrightarrow> map_option rm_State (run_of (fst res) k) = map_option rm_State (run_of s k))"
proof (cases "cr_MaxRetries req < 0 \<or> cr_RetryBackoffMs req < 0 \<or> cr_TimeoutMs req < 0")
  case True
  then show ?thesis by (simp add: res_def handleCreateRun_def http_Error_def)
next
  case False
  let ?run = "pendingRun env (cr_AgentName req) (cr_Goal req)"
  obtain s1 where s1: "saveRun env 0 ?run s = (s1, None)" "sv_runner s1 = sv_runner s"
    "\<And>k. map_option rm_State (run_of s1 k) = (if k = sn_uuid env then Some ''pending'' else map_option rm_State (run_of s k))"
    by (rule saveRun_works [OF assms(3), of ?run s]) simp
  show ?thesis
  proof (cases "accepting m")
    case True
    then have "res = (s1\<lparr>sv_runner := Some (MemoryBackend (m\<lparr>mq_ch := mq_ch m @ [apiRequest env req]\<rparr>))\<rparr>, http_JSON 200 (Fields [(''run_id'', sn_uuid env)]))"
      using False s1(1,2) assms(1) by (simp add: res_def handleCreateRun_def Let_def Submit_memory del: Submit.simps)
    then show ?thesis using True False s1(3) by (simp add: accepting_def http_JSON_def)
  next
    case full: False
    let ?s1 = "s1\<lparr>sv_runner := Some (MemoryBackend m)\<rparr>"
    obtain s2 where s2: "saveRun env 1 (failedRun env ?run) ?s1 = (s2, None)" "sv_runner s2 = Some (MemoryBackend m)"
      "\<And>k. map_option rm_State (run_of s2 k) = (if k = sn_uuid env then Some ''failed'' else map_option rm_State (run_of s1 k))"
      by (rule saveRun_works [OF assms(4), of "failedRun env ?run" ?s1]) simp
    have "fst res = s2" "hs_code (snd res) = 503"
      using False full s1(1,2) s2(1) assms(1) by (simp_all add: res_def handleCreateRun_def Let_def Submit_memory http_Error_def del: Submit.simps)
    then show ?thesis using full False s1(3) s2(2,3) assms(2) by (simp add: accepting_def)
  qed
qed

definition example_server :: "memoryQueue \<Rightarrow> DeadLetter list \<Rightarrow> server" where
  "example_server m dead = \<lparr>sv_runs = [], sv_events = [], sv_dead = dead, sv_runner = Some (MemoryBackend m), sv_cancels = []\<rparr>"

definition example_server_env :: "string \<Rightarrow> server_env" where
  "example_server_env i = \<lparr>sn_uuid = i, sn_now = (\<lambda>n. 0), sn_save = (\<lambda>n. None), sn_read = None, sn_submit = None\<rparr>"

theorem create_run_accounted_witness:
  "hs_code (snd (handleCreateRun (example_server_env ''u'') (example_server (NewMemoryQueue 1) [])
      (Inr \<lparr>cr_AgentName = ''a'', cr_Goal = ''g'', cr_MaxRetries = 1, cr_RetryBackoffMs = 0, cr_TimeoutMs = 0\<rparr>))) = 200"
  using create_run_accounted [of "example_server (NewMemoryQueue 1) []" "NewMemoryQueue 1" "example_server_env ''u''"
      "\<lparr>cr_AgentName = ''a'', cr_Goal = ''g'', cr_MaxRetries = 1, cr_RetryBackoffMs = 0, cr_TimeoutMs = 0\<rparr>"]
  by (simp add: example_server_def example_server_env_def NewMemoryQueue_def)

text \<open>The letter of a run that has one letter only is the latest.\<close>

lemma latest_letter:
  assumes "filter (\<lambda>d. dl_RunID d = k) t = [d]"
  shows "GetLatestDeadLetterByRunID t None k = Inr (Some d)"
  using assms by (simp add: GetLatestDeadLetterByRunID_def)

lemma json_norm_stored: "filter (\<lambda>d. dl_RunID d = k) (map storedLetter (t @ [d])) = map storedLetter (filter (\<lambda>d. dl_RunID d = k) (t @ [d]))"
  by (simp add: filter_map comp_def storedLetter_def)

text \<open>
  A run that failed can be run again from its dead letter: when the execution of a request ends in time with a failure, and the run had no
  dead letter before, a replay without a body, against a server whose table of dead letters holds what the runner stored and whose queue has room, is answered 202 and
  appends to the queue a request with a new identifier and the agent, the goal, the payload (as JSON keeps it) and the number of retries of the
  failed one. Its timeout, back-off and callback are not kept.
\<close>

theorem dead_letter_replay:
  assumes "rn_db rs = Some db" "\<And>op. wd_driver w op 1 = None" "wd_ctxStart w = None" "wd_end w < wd_started w + 2 * 1000000000"
    and "attemptLoop w (maxAttempts req - 1) 1 = (Inl (a, err), evs)" "\<not> is_interrupt (finalError w err)"
    and "\<forall>d \<in> set (db_dead db). dl_RunID d \<noteq> rq_RunID req" "rq_RunID req \<noteq> []"
    and "rn_db (execute w req rs) = Some db'" "sv_dead s = map storedLetter (db_dead db')"
    and "sv_runner s = Some (MemoryBackend m)" "accepting m" "sn_read env = None" "sn_save env 0 = None" "rq_MaxRetries req < 2 ^ 63 - 1"
  shows "\<exists>s' resp. handleReplayDeadLetter env s (rq_RunID req) None = (s', resp) \<and> hs_code resp = 202 \<and>
    queued s' = mq_ch m @ [req\<lparr>rq_RunID := sn_uuid env, rq_Source := ''dead-letter-replay'', rq_Outputs := json_norm_map (rq_Outputs req),
      rq_MaxRetries := max 0 (rq_MaxRetries req), rq_RetryBackoff := 0, rq_Timeout := 0, rq_Callback := False\<rparr>] \<and>
    map_option rm_State (run_of s' (sn_uuid env)) = Some ''pending''"
proof -
  let ?dl = "deadLetterFor w req (finalError w err) a (maxAttempts req)"
  let ?rr = "replayRunRequest env (storedLetter ?dl) no_replay_request"
  have p: "persistCtx w = None" using assms(4) by (simp add: persistCtx_def)
  have start: "core (startRun w req rs) = Some (AList.update (rq_RunID req) (runMeta w req) (db_runs db), db_dead db)"
    using core_startRun [OF assms(2) [of "''run''"] assms(3), of req rs] assms(1) by (simp add: core_def)
  have dead: "db_dead db' = db_dead db @ [?dl]"
    using execute_failed [OF assms(5) assms(2) assms(2) p start] assms(6,9) by (auto simp: core_def)
  have "filter (\<lambda>d. dl_RunID d = rq_RunID req) (sv_dead s) = [storedLetter ?dl]"
    unfolding assms(10) dead json_norm_stored using assms(7) by (auto simp: filter_empty_conv deadLetterFor_def)
  then have latest: "GetLatestDeadLetterByRunID (sv_dead s) None (rq_RunID req) = Inr (Some (storedLetter ?dl))" by (rule latest_letter)
  have "dl_MaxRetries ?dl = max 0 (rq_MaxRetries req)" using assms(15) by (simp add: deadLetterFor_def maxAttempts_def)
  then have rr: "?rr = req\<lparr>rq_RunID := sn_uuid env, rq_Source := ''dead-letter-replay'', rq_Outputs := json_norm_map (rq_Outputs req),
      rq_MaxRetries := max 0 (rq_MaxRetries req), rq_RetryBackoff := 0, rq_Timeout := 0, rq_Callback := False\<rparr>"
    by (simp add: replayRunRequest_def no_replay_request_def storedLetter_def deadLetterFor_def)
  let ?run = "pendingRun env (dl_AgentName (storedLetter ?dl)) (rq_Goal ?rr)"
  obtain s1 where s1: "saveRun env 0 ?run s = (s1, None)"
    "\<And>k. map_option rm_State (run_of s1 k) = (if k = rm_RunID ?run then Some (rm_State ?run) else map_option rm_State (run_of s k))"
    using saveRun_works [OF assms(14), of ?run s] by blast
  have "replayOptionError no_replay_request = None" by (simp add: replayOptionError_def negative_def no_replay_request_def)
  then have "handleReplayDeadLetter env s (rq_RunID req) None =
     (s1\<lparr>sv_runner := Some (MemoryBackend (m\<lparr>mq_ch := mq_ch m @ [?rr]\<rparr>))\<rparr>,
      http_JSON 202 (Fields [(''status'', ''accepted''), (''source_run_id'', rq_RunID req), (''replayed_run_id'', sn_uuid env)]))"
    using assms(8,11,12,13) latest s1(1) by (simp add: handleReplayDeadLetter_def Let_def Submit_memory del: Submit.simps)
  then show ?thesis using s1(2) [of "sn_uuid env"] by (simp add: rr http_JSON_def)
qed

theorem dead_letter_replay_witness:
  "\<exists>s' resp. handleReplayDeadLetter (example_server_env ''u'')
      (example_server (NewMemoryQueue 1) (map storedLetter (db_dead (the (rn_db (execute (example_world False 1000) (example_run_request ''x'') empty_server)))))) ''x'' None = (s', resp) \<and>
    hs_code resp = 202 \<and> map rq_RunID (queued s') = [''u''] \<and> map rq_MaxRetries (queued s') = [2]"
proof -
  let ?w = "example_world False 1000" and ?req = "example_run_request ''x''"
  let ?rs = "execute ?w ?req empty_server"
  let ?s = "example_server (NewMemoryQueue 1) (map storedLetter (db_dead (the (rn_db ?rs))))"
  have "fst (attemptLoop ?w (maxAttempts ?req - 1) 1) = Inl (3, Errorf ''boom'')" by code_simp
  then obtain evs where al: "attemptLoop ?w (maxAttempts ?req - 1) 1 = (Inl (3, Errorf ''boom''), evs)"
    by (cases "attemptLoop ?w (maxAttempts ?req - 1) 1") auto
  have "rn_db ?rs \<noteq> None" by code_simp
  then obtain db' where db': "rn_db ?rs = Some db'" by blast
  have "\<exists>s' resp. handleReplayDeadLetter (example_server_env ''u'') ?s (rq_RunID ?req) None = (s', resp) \<and> hs_code resp = 202 \<and>
    queued s' = mq_ch (NewMemoryQueue 1) @ [?req\<lparr>rq_RunID := sn_uuid (example_server_env ''u''), rq_Source := ''dead-letter-replay'', rq_Outputs := json_norm_map (rq_Outputs ?req),
      rq_MaxRetries := max 0 (rq_MaxRetries ?req), rq_RetryBackoff := 0, rq_Timeout := 0, rq_Callback := False\<rparr>] \<and>
    map_option rm_State (run_of s' (sn_uuid (example_server_env ''u''))) = Some ''pending''"
    by (rule dead_letter_replay [where rs = empty_server and w = ?w and db' = db' and db = "\<lparr>db_runs = [], db_events = [], db_dead = []\<rparr>", OF _ _ _ _ al])
      (use db' in \<open>simp_all add: empty_server_def example_world_def example_run_request_def example_server_def example_server_env_def
         NewMemoryQueue_def accepting_def finalError_def is_interrupt_def\<close>)
  then show ?thesis by (auto simp: example_server_env_def example_run_request_def NewMemoryQueue_def)
qed

end
