(* ===== verification/Webhooks.thy ===== *)
theory Webhooks
  imports Http_Server
begin

text \<open>
  The ways into the run queue besides the API: webhooks (\<open>pkg/orchestrate/webhook.go\<close>, \<open>internal/config/webhook.go\<close>), the
  event trigger bus (\<open>triggers.go\<close>) and the scheduled jobs (\<open>scheduler.go\<close>), and the runner's side of the queue. Templates, JSON decoding,
  the digest and the environment are arguments; the step executor of the fallback path answers through one too.
\<close>

section \<open>Webhook configuration\<close>

record WebhookConfig =
  wh_Path :: string
  wh_Agent :: string
  wh_GoalTemplate :: string
  wh_AuthSecret :: string
  wh_CallbackURL :: string
  wh_Headers :: "string smap"

definition webhook_Validate :: "WebhookConfig \<Rightarrow> gerror option" where
  "webhook_Validate w =
     (if wh_Path w = [] then Some (Errorf ''webhook path is required'')
      else if hd (wh_Path w) \<noteq> CHR ''/'' then Some (Errorf ''webhook path must start with /'')
      else if wh_Agent w = [] then Some (Errorf ''webhook agent is required'')
      else if wh_GoalTemplate w = [] then Some (Errorf ''webhook goal_template is required'')
      else None)"

definition ResolveSecret :: "(string \<Rightarrow> string) \<Rightarrow> WebhookConfig \<Rightarrow> string" where
  "ResolveSecret getenv w =
     (let secret = wh_AuthSecret w
      in if secret \<noteq> [] \<and> hd secret = CHR ''$''
         then (let envVar = tl secret
               in getenv (if envVar \<noteq> [] \<and> hd envVar = CHR ''{'' \<and> last envVar = CHR ''}'' then butlast (tl envVar) else envVar))
         else secret)"

fun validateAll :: "nat \<Rightarrow> WebhookConfig list \<Rightarrow> gerror option" where
  "validateAll i [] = None"
| "validateAll i (w # ws) =
     (case webhook_Validate w of Some err \<Rightarrow> Some (Wrap (''webhook '' @ itoa (int i) @ '': '') err) | None \<Rightarrow> validateAll (Suc i) ws)"

definition LoadWebhooks :: "(string \<Rightarrow> gerror + string) \<Rightarrow> (string \<Rightarrow> gerror + WebhookConfig list) \<Rightarrow> string \<Rightarrow> gerror + WebhookConfig list" where
  "LoadWebhooks readFile unmarshal path =
     (case readFile path of
        Inl err \<Rightarrow> Inl (Wrap ''read webhooks file: '' err)
      | Inr data \<Rightarrow>
          (case unmarshal data of
             Inl err \<Rightarrow> Inl (Wrap ''parse webhooks: '' err)
           | Inr ws \<Rightarrow> (case validateAll 0 ws of Some err \<Rightarrow> Inl err | None \<Rightarrow> Inr ws)))"

section \<open>The webhook handler\<close>

record 't WebhookHandler =
  wk_webhooks :: "WebhookConfig smap"
  wk_templates :: "'t smap"

fun registerWebhooks :: "(string \<Rightarrow> gerror + 't) \<Rightarrow> WebhookConfig list \<Rightarrow> 't WebhookHandler \<Rightarrow> gerror + 't WebhookHandler" where
  "registerWebhooks parse [] h = Inr h"
| "registerWebhooks parse (w # ws) h =
     (case parse (wh_GoalTemplate w) of
        Inl err \<Rightarrow> Inl (Wrap (''parse goal template for '' @ wh_Path w @ '': '') err)
      | Inr tmpl \<Rightarrow> registerWebhooks parse ws (h\<lparr>wk_webhooks := AList.update (wh_Path w) w (wk_webhooks h), wk_templates := AList.update (wh_Path w) tmpl (wk_templates h)\<rparr>))"

definition NewWebhookHandler :: "(string \<Rightarrow> gerror + 't) \<Rightarrow> WebhookConfig list \<Rightarrow> gerror + 't WebhookHandler" where
  "NewWebhookHandler parse ws = registerWebhooks parse ws \<lparr>wk_webhooks = [], wk_templates = []\<rparr>"

text \<open>\<open>hex.EncodeToString\<close>.\<close>

definition hexDigit :: "nat \<Rightarrow> char" where
  "hexDigit n = char_of (if n < 10 then 48 + n else 87 + n)"

definition hexEncode :: "string \<Rightarrow> string" where
  "hexEncode s = concat (map (\<lambda>c. let n = (of_char c :: nat) in [hexDigit (n div 16), hexDigit (n mod 16)]) s)"

definition signatureOf :: "http_request \<Rightarrow> string option" where
  "signatureOf r =
     (let hub = Get_header r ''X-Hub-Signature-256''; sig = Get_header r ''X-Signature''; hook = Get_header r ''X-Webhook-Signature''
      in if hub \<noteq> [] then Some (if length hub > 7 \<and> take 7 hub = ''sha256='' then drop 7 hub else hub)
         else if sig \<noteq> [] then Some sig
         else if hook \<noteq> [] then Some hook
         else None)"

text \<open>\<open>hmac secret body\<close> is the HMAC-SHA256 of the body.\<close>

definition verifySignature :: "(string \<Rightarrow> string \<Rightarrow> string) \<Rightarrow> http_request \<Rightarrow> string \<Rightarrow> string \<Rightarrow> bool" where
  "verifySignature hmac r body secret =
     (case signatureOf r of None \<Rightarrow> False | Some signature \<Rightarrow> signature = hexEncode (hmac secret body))"

text \<open>A template missing from the map is a nil template, whose execution is an error.\<close>

definition renderGoal :: "('t \<Rightarrow> any smap \<Rightarrow> gerror + string) \<Rightarrow> 't WebhookHandler \<Rightarrow> string \<Rightarrow> any smap \<Rightarrow> gerror + string" where
  "renderGoal execTemplate h path payload =
     (case map_of (wk_templates h) path of None \<Rightarrow> Inl (Errorf ''template: nil data'') | Some tmpl \<Rightarrow> execTemplate tmpl payload)"

record 't webhook_env =
  we_getenv :: "string \<Rightarrow> string"
  we_hmac :: "string \<Rightarrow> string \<Rightarrow> string"
  we_unmarshal :: "string \<Rightarrow> gerror + any smap"
  we_exec :: "'t \<Rightarrow> any smap \<Rightarrow> gerror + string"

text \<open>The response, and the run the handler starts in a goroutine: its configuration, goal and payload.\<close>

definition HandleWebhook :: "'t webhook_env \<Rightarrow> 't WebhookHandler \<Rightarrow> string \<Rightarrow> http_request \<Rightarrow> gerror + string \<Rightarrow>
    http_response \<times> (WebhookConfig \<times> string \<times> any smap) option" where
  "HandleWebhook env h runID r body =
     (case map_of (wk_webhooks h) (hq_Path r) of
        None \<Rightarrow> (http_Error ''webhook not found'' 404, None)
      | Some wh \<Rightarrow>
          (case body of
             Inl err \<Rightarrow> (http_Error ''failed to read body'' 400, None)
           | Inr data \<Rightarrow>
               if wh_AuthSecret wh \<noteq> [] \<and>
                  (let secret = ResolveSecret (we_getenv env) wh in secret \<noteq> [] \<and> \<not> verifySignature (we_hmac env) r data secret)
               then (http_Error ''invalid signature'' 401, None)
               else (case we_unmarshal env data of
                       Inl err \<Rightarrow> (http_Error ''invalid JSON payload'' 400, None)
                     | Inr payload \<Rightarrow>
                         (case renderGoal (we_exec env) h (wh_Path wh) payload of
                            Inl err \<Rightarrow> (http_Error (''render goal: '' @ error_string err) 500, None)
                          | Inr goal \<Rightarrow> (http_JSON 202 (Fields [(''run_id'', runID), (''status'', ''accepted'')]), Some (wh, goal, payload))))))"

section \<open>The run of a webhook\<close>

definition webhookRequest :: "server_env \<Rightarrow> WebhookConfig \<Rightarrow> string \<Rightarrow> any smap \<Rightarrow> RunRequest" where
  "webhookRequest env wh goal payload = \<lparr>rq_RunID = sn_uuid env, rq_AgentName = wh_Agent wh, rq_Goal = goal, rq_Source = ''webhook'', rq_Outputs = payload,
     rq_MaxRetries = 0, rq_RetryBackoff = 0, rq_Timeout = 0, rq_Callback = True\<rparr>"

text \<open>
  \<open>fallback\<close> is what the step executor returns when the runner is absent or refuses: an error or the status and output of the step. The result holds
  the arguments of the callback that is sent at once, if any: state, output and error.
\<close>

definition executeWebhookRun :: "server_env \<Rightarrow> gerror + (string \<times> any) \<Rightarrow> WebhookConfig \<Rightarrow> string \<Rightarrow> any smap \<Rightarrow> server \<Rightarrow>
    server \<times> (string \<times> any \<times> gerror option) option" where
  "executeWebhookRun env fallback wh goal payload s =
     (let meta = pendingRun env (wh_Agent wh) goal
      in case saveRun env 0 meta s of
           (s1, Some err) \<Rightarrow> (s1, None)
         | (s1, None) \<Rightarrow>
             (case (case sv_runner s1 of
                      None \<Rightarrow> (s1, False)
                    | Some q \<Rightarrow> (case Submit q (sn_submit env) (webhookRequest env wh goal payload) of (q', err) \<Rightarrow> (s1\<lparr>sv_runner := Some q'\<rparr>, err = None))) of
                (s2, True) \<Rightarrow> (s2, None)
              | (s2, False) \<Rightarrow>
                  (let state = (case fallback of Inl err \<Rightarrow> ''failed'' | Inr (status, out) \<Rightarrow> status);
                       done_meta = meta\<lparr>rm_State := state, rm_UpdatedAt := sn_now env 1\<rparr>
                   in (fst (saveRun env 1 done_meta s2),
                       if wh_CallbackURL wh = [] then None
                       else Some (case fallback of Inl err \<Rightarrow> (state, ANil, Some err) | Inr (status, out) \<Rightarrow> (state, out, None))))))"

text \<open>One attempt to deliver a callback: the request cannot be built, is not answered, or is answered with a status code.\<close>

datatype attempt = NoRequest | NoAnswer | Answered int

text \<open>The requests sent, the seconds slept, and whether a request was answered with success.\<close>

fun callbackLoop :: "(nat \<Rightarrow> attempt) \<Rightarrow> nat \<Rightarrow> nat \<Rightarrow> nat \<times> nat \<times> bool" where
  "callbackLoop answer 0 attempt = (0, 0, False)"
| "callbackLoop answer (Suc n) attempt =
     (case answer attempt of
        NoRequest \<Rightarrow> callbackLoop answer n (Suc attempt)
      | NoAnswer \<Rightarrow> (case callbackLoop answer n (Suc attempt) of (sent, slept, ok) \<Rightarrow> (Suc sent, slept + Suc attempt, ok))
      | Answered code \<Rightarrow>
          if 200 \<le> code \<and> code < 300 then (1, 0, True)
          else (case callbackLoop answer n (Suc attempt) of (sent, slept, ok) \<Rightarrow> (Suc sent, slept + Suc attempt, ok)))"

record callback_body =
  cb_run_id :: string
  cb_agent :: string
  cb_state :: string
  cb_original_payload :: "any smap"
  cb_output :: any
  cb_error :: "string option"

definition sendCallback :: "(string \<Rightarrow> gerror + 't) \<Rightarrow> ('t \<Rightarrow> any smap \<Rightarrow> gerror + string) \<Rightarrow> (nat \<Rightarrow> attempt) \<Rightarrow> WebhookConfig \<Rightarrow> string \<Rightarrow> string \<Rightarrow>
    any smap \<Rightarrow> any \<Rightarrow> gerror option \<Rightarrow> string \<times> callback_body \<times> (nat \<times> nat \<times> bool)" where
  "sendCallback parse execTemplate answer wh runID state originalPayload output runErr =
     (let callbackURL = (case parse (wh_CallbackURL wh) of
              Inl err \<Rightarrow> wh_CallbackURL wh
            | Inr tmpl \<Rightarrow> (case execTemplate tmpl originalPayload of Inl err \<Rightarrow> wh_CallbackURL wh | Inr url \<Rightarrow> url))
      in (callbackURL,
          \<lparr>cb_run_id = runID, cb_agent = wh_Agent wh, cb_state = state, cb_original_payload = originalPayload, cb_output = output,
           cb_error = map_option error_string runErr\<rparr>,
          callbackLoop answer 3 0))"

section \<open>Triggers and scheduled jobs\<close>

record TriggerEvent =
  te_AgentName :: string
  te_Goal :: string
  te_Payload :: "any smap"

record EventTriggerBus =
  eb_ch :: "TriggerEvent list"
  eb_cap :: nat

definition NewEventTriggerBus :: "int \<Rightarrow> EventTriggerBus" where
  "NewEventTriggerBus buffer = \<lparr>eb_ch = [], eb_cap = nat (if buffer \<le> 0 then 128 else buffer)\<rparr>"

definition bus_Publish :: "EventTriggerBus \<Rightarrow> TriggerEvent \<Rightarrow> EventTriggerBus \<times> bool" where
  "bus_Publish b evt = (if length (eb_ch b) < eb_cap b then (b\<lparr>eb_ch := eb_ch b @ [evt]\<rparr>, True) else (b, False))"

definition handlePublishEventTrigger :: "EventTriggerBus option \<Rightarrow> gerror + TriggerEvent \<Rightarrow> EventTriggerBus option \<times> http_response" where
  "handlePublishEventTrigger bus body =
     (case bus of
        None \<Rightarrow> (None, http_Error ''trigger bus unavailable'' 503)
      | Some b \<Rightarrow>
          (case body of
             Inl err \<Rightarrow> (Some b, http_Error (error_string err) 400)
           | Inr evt \<Rightarrow>
               if te_AgentName evt = [] \<or> te_Goal evt = [] then (Some b, http_Error ''agent_name and goal are required'' 400)
               else (case bus_Publish b evt of
                       (b', ok) \<Rightarrow> (Some b', if \<not> ok then http_Error ''trigger queue is full'' 429 else http_JSON 202 (Fields [(''status'', ''accepted'')])))))"

text \<open>One round of the loop of \<open>Start\<close>: the handler of \<open>Run\<close> submits the event; its error is dropped.\<close>

definition triggerRequest :: "server_env \<Rightarrow> TriggerEvent \<Rightarrow> RunRequest" where
  "triggerRequest env evt = \<lparr>rq_RunID = sn_uuid env, rq_AgentName = te_AgentName evt, rq_Goal = te_Goal evt, rq_Source = ''event'', rq_Outputs = te_Payload evt,
     rq_MaxRetries = 0, rq_RetryBackoff = 0, rq_Timeout = 0, rq_Callback = False\<rparr>"

definition submitTo :: "server_env \<Rightarrow> RunRequest \<Rightarrow> server \<Rightarrow> server \<times> gerror option" where
  "submitTo env req s =
     (case sv_runner s of None \<Rightarrow> (s, None) | Some q \<Rightarrow> (case Submit q (sn_submit env) req of (q', err) \<Rightarrow> (s\<lparr>sv_runner := Some q'\<rparr>, err)))"

definition busRound :: "server_env \<Rightarrow> EventTriggerBus \<times> server \<Rightarrow> EventTriggerBus \<times> server" where
  "busRound env bs =
     (case eb_ch (fst bs) of
        [] \<Rightarrow> bs
      | evt # rest \<Rightarrow> ((fst bs)\<lparr>eb_ch := rest\<rparr>, fst (submitTo env (triggerRequest env evt) (snd bs))))"

text \<open>A job that fires, with the function \<open>NewServerWithConfig\<close> gives the scheduler.\<close>

record Job =
  jb_AgentName :: string
  jb_Goal :: string
  jb_CronExpr :: string

definition scheduledRequest :: "server_env \<Rightarrow> Job \<Rightarrow> RunRequest" where
  "scheduledRequest env job = \<lparr>rq_RunID = sn_uuid env, rq_AgentName = jb_AgentName job, rq_Goal = jb_Goal job, rq_Source = ''schedule'', rq_Outputs = [],
     rq_MaxRetries = 0, rq_RetryBackoff = 0, rq_Timeout = 0, rq_Callback = False\<rparr>"

definition jobExpr :: "Job \<Rightarrow> string" where
  "jobExpr job = (if jb_CronExpr job = [] then ''* * * * *'' else jb_CronExpr job)"

text \<open>The set-up of \<open>Scheduler.Run\<close>: \<open>addFunc\<close> is the error of registering an expression; the jobs registered before an error stay registered but never start.\<close>

fun registerJobs :: "(string \<Rightarrow> gerror option) \<Rightarrow> Job list \<Rightarrow> Job list \<times> gerror option" where
  "registerJobs addFunc [] = ([], None)"
| "registerJobs addFunc (job # jobs) =
     (case addFunc (jobExpr job) of
        Some err \<Rightarrow> ([], Some (Wrap (''invalid cron expr for '' @ jb_AgentName job @ '': '') err))
      | None \<Rightarrow> (case registerJobs addFunc jobs of (js, err) \<Rightarrow> (job # js, err)))"

section \<open>The runner's side\<close>

fun Dequeue :: "backend \<Rightarrow> gerror option \<Rightarrow> backend \<times> dequeued" where
  "Dequeue (MemoryBackend m) ctx = (case mq_Dequeue m ctx of (m', d) \<Rightarrow> (MemoryBackend m', d))"
| "Dequeue (RedisBackend q) answer = (case rd_Dequeue q answer of (q', d) \<Rightarrow> (RedisBackend q', d))"

definition runningRun :: "server_env \<Rightarrow> RunRequest \<Rightarrow> RunMeta" where
  "runningRun env req = \<lparr>rm_RunID = rq_RunID req, rm_AgentName = rq_AgentName req, rm_Goal = rq_Goal req, rm_State = ''running'', rm_StepCount = 0,
     rm_CreatedAt = sn_now env 0, rm_UpdatedAt = sn_now env 0\<rparr>"

text \<open>A round of the worker loop up to the start of the run: dequeue, register the cancel function, store the run as running.\<close>

definition workerTake :: "server_env \<Rightarrow> gerror option \<Rightarrow> server \<Rightarrow> server \<times> RunRequest option" where
  "workerTake env ctx s =
     (case sv_runner s of
        None \<Rightarrow> (s, None)
      | Some q \<Rightarrow>
          (case Dequeue q ctx of
             (q', Got req) \<Rightarrow> (fst (saveRun env 0 (runningRun env req) (setRunCancel (s\<lparr>sv_runner := Some q'\<rparr>) (rq_RunID req))), Some req)
           | (q', d) \<Rightarrow> (s\<lparr>sv_runner := Some q'\<rparr>, None)))"

text \<open>The end of a run: its final state is stored and the cancel function removed.\<close>

definition workerFinish :: "server_env \<Rightarrow> string \<Rightarrow> RunRequest \<Rightarrow> server \<Rightarrow> server" where
  "workerFinish env state req s =
     clearRunCancel (fst (saveRun env 1 ((runningRun env req)\<lparr>rm_State := state, rm_UpdatedAt := sn_now env 1\<rparr>) s)) (rq_RunID req)"

section \<open>Signatures\<close>

lemma hexDigit_inj: "m < 16 \<Longrightarrow> n < 16 \<Longrightarrow> hexDigit m = hexDigit n \<Longrightarrow> m = n"
proof -
  assume "m < 16" "n < 16" "hexDigit m = hexDigit n"
  then have "(if m < 10 then 48 + m else 87 + m) mod 256 = (if n < 10 then 48 + n else 87 + n) mod 256"
    unfolding hexDigit_def by (metis of_char_of)
  then show "m = n" using \<open>m < 16\<close> \<open>n < 16\<close> by (simp split: if_splits)
qed

lemma hexEncode_Cons: "hexEncode (c # s) = hexDigit ((of_char c :: nat) div 16) # hexDigit ((of_char c :: nat) mod 16) # hexEncode s"
  by (simp add: hexEncode_def Let_def)

lemma hexEncode_inj: "hexEncode s = hexEncode t \<Longrightarrow> s = t"
proof (induction s arbitrary: t)
  case Nil
  then show ?case by (cases t) (simp_all add: hexEncode_Cons, simp add: hexEncode_def)
next
  case (Cons c s)
  obtain d t' where t: "t = d # t'" using Cons.prems by (cases t) (simp_all add: hexEncode_Cons, simp add: hexEncode_def)
  let ?m = "of_char c :: nat" and ?n = "of_char d :: nat"
  have "hexDigit (?m div 16) = hexDigit (?n div 16)" "hexDigit (?m mod 16) = hexDigit (?n mod 16)" "hexEncode s = hexEncode t'"
    using Cons.prems by (simp_all add: t hexEncode_Cons)
  moreover have "?m div 16 < 16" "?n div 16 < 16" by (rule less_mult_imp_div_less, simp)+
  ultimately have "?m div 16 = ?n div 16" "?m mod 16 = ?n mod 16" "s = t'" using hexDigit_inj Cons.IH by (simp_all add: hexDigit_inj)
  then have "?m = ?n" by (metis div_mult_mod_eq)
  then have "c = d" by simp
  then show ?case using \<open>s = t'\<close> t by simp
qed

definition signed :: "'t webhook_env \<Rightarrow> WebhookConfig \<Rightarrow> http_request \<Rightarrow> string \<Rightarrow> bool" where
  "signed env wh r data \<longleftrightarrow> signatureOf r = Some (hexEncode (we_hmac env (ResolveSecret (we_getenv env) wh) data))"

lemma HandleWebhook_started:
  "snd (HandleWebhook env h runID r body) = Some (wh, goal, payload) \<longleftrightarrow>
    map_of (wk_webhooks h) (hq_Path r) = Some wh \<and>
    (\<exists>data. body = Inr data \<and> (wh_AuthSecret wh = [] \<or> ResolveSecret (we_getenv env) wh = [] \<or> signed env wh r data) \<and>
       we_unmarshal env data = Inr payload \<and> renderGoal (we_exec env) h (wh_Path wh) payload = Inr goal)"
  by (auto simp: HandleWebhook_def Let_def signed_def verifySignature_def split: option.splits sum.splits if_splits)

lemma HandleWebhook_code: "hs_code (fst (HandleWebhook env h runID r body)) = 202 \<longleftrightarrow> snd (HandleWebhook env h runID r body) \<noteq> None"
  by (auto simp: HandleWebhook_def http_Error_def http_JSON_def split: option.splits sum.splits)

lemma HandleWebhook_accepted:
  assumes "map_of (wk_webhooks h) (hq_Path r) = Some wh"
  shows "hs_code (fst (HandleWebhook env h runID r body)) = 202 \<longleftrightarrow> (\<exists>goal payload. snd (HandleWebhook env h runID r body) = Some (wh, goal, payload))"
proof -
  have "\<exists>goal payload. x = (wh, goal, payload)" if "snd (HandleWebhook env h runID r body) = Some x" for x
    using that assms HandleWebhook_started [of env h runID r body "fst x" "fst (snd x)" "snd (snd x)"] by (cases x) auto
  then show ?thesis unfolding HandleWebhook_code by auto
qed

text \<open>
  A webhook whose secret resolves to a non-empty text starts a run exactly for the requests that are signed with it: the answer is 202 and a run starts if and
  only if the body was read, the signature header holds the hexadecimal digest of exactly this body, the body is JSON and the goal can be rendered; and a
  request accepted with the signature of another body has a body of the same digest.
\<close>

theorem webhook_authentic:
  assumes "map_of (wk_webhooks h) (hq_Path r) = Some wh" "wh_AuthSecret wh \<noteq> []" "ResolveSecret (we_getenv env) wh \<noteq> []"
  shows "(hs_code (fst (HandleWebhook env h runID r (Inr data))) = 202 \<longleftrightarrow>
      signed env wh r data \<and> (\<exists>payload goal. we_unmarshal env data = Inr payload \<and> renderGoal (we_exec env) h (wh_Path wh) payload = Inr goal)) \<and>
    (hs_code (fst (HandleWebhook env h runID r (Inr data))) = 202 \<longleftrightarrow> snd (HandleWebhook env h runID r (Inr data)) \<noteq> None) \<and>
    (hs_code (fst (HandleWebhook env h runID r (Inr data))) = 202 \<and> signed env wh r data1 \<longrightarrow>
      we_hmac env (ResolveSecret (we_getenv env) wh) data1 = we_hmac env (ResolveSecret (we_getenv env) wh) data)"
proof -
  have accepted: "hs_code (fst (HandleWebhook env h runID r (Inr data))) = 202 \<longleftrightarrow>
      signed env wh r data \<and> (\<exists>payload goal. we_unmarshal env data = Inr payload \<and> renderGoal (we_exec env) h (wh_Path wh) payload = Inr goal)"
    unfolding HandleWebhook_accepted [OF assms(1)] HandleWebhook_started using assms by auto
  moreover have "we_hmac env (ResolveSecret (we_getenv env) wh) data1 = we_hmac env (ResolveSecret (we_getenv env) wh) data"
    if "signed env wh r data" "signed env wh r data1"
    using that by (simp add: signed_def hexEncode_inj)
  ultimately show ?thesis using HandleWebhook_code by blast
qed

definition example_webhook :: "string \<Rightarrow> WebhookConfig" where
  "example_webhook secret = \<lparr>wh_Path = ''/hooks/x'', wh_Agent = ''a'', wh_GoalTemplate = ''goal'', wh_AuthSecret = secret, wh_CallbackURL = [], wh_Headers = []\<rparr>"

definition example_webhook_env :: "string webhook_env" where
  "example_webhook_env = \<lparr>we_getenv = (\<lambda>v. if v = ''SECRET'' then ''s'' else []), we_hmac = (\<lambda>k b. k @ b), we_unmarshal = (\<lambda>b. Inr []), we_exec = (\<lambda>t p. Inr t)\<rparr>"

definition example_handler :: "string \<Rightarrow> string WebhookHandler" where
  "example_handler secret = \<lparr>wk_webhooks = [(''/hooks/x'', example_webhook secret)], wk_templates = [(''/hooks/x'', ''goal'')]\<rparr>"

definition example_delivery :: "string smap \<Rightarrow> http_request" where
  "example_delivery headers = \<lparr>hq_Path = ''/hooks/x'', hq_Header = headers, hq_RemoteAddr = [], hq_Query = []\<rparr>"

theorem webhook_authentic_witness:
  "hs_code (fst (HandleWebhook example_webhook_env (example_handler ''${SECRET}'') ''u'' (example_delivery [(''X-Hub-Signature-256'', ''sha256=737b7d'')]) (Inr ''{}''))) = 202 \<and>
   hs_code (fst (HandleWebhook example_webhook_env (example_handler ''${SECRET}'') ''u'' (example_delivery [(''X-Signature'', ''00'')]) (Inr ''{}''))) \<noteq> 202"
proof -
  let ?wh = "example_webhook ''${SECRET}''"
  have sec: "ResolveSecret (we_getenv example_webhook_env) ?wh = ''s''" by code_simp
  have hex: "hexEncode (''s{}'') = ''737b7d''" by code_simp
  note w = webhook_authentic [of "example_handler ''${SECRET}''" _ ?wh example_webhook_env "''u''" "''{}''"]
  have "signed example_webhook_env ?wh (example_delivery [(''X-Hub-Signature-256'', ''sha256=737b7d'')]) ''{}''"
    unfolding signed_def sec by (simp add: example_webhook_env_def hex signatureOf_def Get_header_def example_delivery_def)
  moreover have "\<not> signed example_webhook_env ?wh (example_delivery [(''X-Signature'', ''00'')]) ''{}''"
    unfolding signed_def sec by (simp add: example_webhook_env_def hex signatureOf_def Get_header_def example_delivery_def)
  ultimately show ?thesis
    using w [of "example_delivery [(''X-Hub-Signature-256'', ''sha256=737b7d'')]"] w [of "example_delivery [(''X-Signature'', ''00'')]"] sec
    by (simp add: example_handler_def example_delivery_def example_webhook_def renderGoal_def example_webhook_env_def)
qed

text \<open>
  A secret that names a variable the environment does not have resolves to the empty text, and then nothing is verified: an unsigned request starts a run.
\<close>

lemma unset_secret_accepts_all:
  assumes "map_of (wk_webhooks h) (hq_Path r) = Some wh" "wh_AuthSecret wh = CHR ''$'' # v" "hd v \<noteq> CHR ''{''" "we_getenv env v = []"
    and "we_unmarshal env data = Inr payload" "renderGoal (we_exec env) h (wh_Path wh) payload = Inr goal"
  shows "hs_code (fst (HandleWebhook env h runID r (Inr data))) = 202"
  unfolding HandleWebhook_accepted [OF assms(1)] HandleWebhook_started using assms by (auto simp: ResolveSecret_def Let_def)

text \<open>A callback is tried at most three times, stops at the first success and sleeps at most six seconds.\<close>

definition delivered :: "(nat \<Rightarrow> attempt) \<Rightarrow> nat \<Rightarrow> bool" where
  "delivered answer k = (case answer k of Answered code \<Rightarrow> 200 \<le> code \<and> code < 300 | _ \<Rightarrow> False)"

lemma callbackLoop_delivers: "snd (snd (callbackLoop answer n a)) \<longleftrightarrow> (\<exists>i < n. delivered answer (a + i))"
proof (induction n arbitrary: a)
  case (Suc n)
  have "(\<exists>i < Suc n. delivered answer (a + i)) \<longleftrightarrow> delivered answer a \<or> (\<exists>i < n. delivered answer (Suc a + i))" by (simp add: Ex_less_Suc2)
  then show ?case using Suc.IH [of "Suc a"] by (cases "answer a") (auto simp: delivered_def split: prod.split)
qed simp

lemma callbackLoop_bounds: "fst (callbackLoop answer n a) \<le> n \<and> fst (snd (callbackLoop answer n a)) \<le> n * (a + n)"
proof (induction n arbitrary: a)
  case (Suc n)
  obtain x y z where c: "callbackLoop answer n (Suc a) = (x, y, z)" by (metis prod_cases3)
  have "x \<le> n" "y \<le> n * (Suc a + n)" using Suc.IH [of "Suc a"] by (simp_all add: c)
  then show ?case by (cases "answer a") (simp_all add: c)
qed simp

section \<open>No run is lost\<close>

fun backendIDs :: "backend \<Rightarrow> string set" where
  "backendIDs (MemoryBackend m) = rq_RunID ` set (mq_ch m)"
| "backendIDs (RedisBackend q) = rq_RunID ` set q"

definition queuedIDs :: "server \<Rightarrow> string set" where
  "queuedIDs s = (case sv_runner s of None \<Rightarrow> {} | Some q \<Rightarrow> backendIDs q)"

definition pendingIDs :: "server \<Rightarrow> string set" where
  "pendingIDs s = {k. map_option rm_State (run_of s k) = Some ''pending''}"

definition accounted :: "server \<Rightarrow> bool" where
  "accounted s \<longleftrightarrow> sv_runner s \<noteq> None \<and> pendingIDs s \<subseteq> queuedIDs s"

lemma Submit_cases:
  "Submit q answer req = (q', err) \<Longrightarrow> if err = None then backendIDs q' = insert (rq_RunID req) (backendIDs q) else q' = q"
  by (cases q) (auto simp: mq_Enqueue_def rd_Enqueue_def redisQueueItem_def split: if_splits option.splits)

lemma Dequeue_cases:
  "Dequeue q ctx = (q', d) \<Longrightarrow> (case d of Got req \<Rightarrow> backendIDs q \<subseteq> insert (rq_RunID req) (backendIDs q') | _ \<Rightarrow> q' = q)"
proof (cases q)
  case (RedisBackend l)
  have "set l = insert (last l) (set (butlast l))" if "l \<noteq> []" using that append_butlast_last_id [of l] by (metis list.simps(15) rotate1.simps(2) set_rotate1)
  then show "Dequeue q ctx = (q', d) \<Longrightarrow> ?thesis" using RedisBackend by (auto simp: rd_Dequeue_def split: option.splits if_splits)
qed (auto simp: mq_Dequeue_def split: option.splits list.splits if_splits)

lemma saveRun_runner [simp]: "sv_runner (fst (saveRun env i run s)) = sv_runner s"
  by (simp add: saveRun_def split: prod.split)

lemma queuedIDs_saveRun [simp]: "queuedIDs (fst (saveRun env i run s)) = queuedIDs s"
  by (simp add: queuedIDs_def)

lemma pendingIDs_saveRun:
  "pendingIDs (fst (saveRun env i run s)) =
     (if sn_save env i \<noteq> None then pendingIDs s else if rm_State run = ''pending'' then insert (rm_RunID run) (pendingIDs s) else pendingIDs s - {rm_RunID run})"
proof (cases "sn_save env i")
  case None
  obtain s' where "saveRun env i run s = (s', None)"
    "\<And>k. map_option rm_State (run_of s' k) = (if k = rm_RunID run then Some (rm_State run) else map_option rm_State (run_of s k))"
    using saveRun_works [OF None, of run s] by blast
  then show ?thesis using None by (auto simp: pendingIDs_def)
qed (simp add: saveRun_fails)

lemma pendingIDs_runner [simp]: "pendingIDs (s\<lparr>sv_runner := q\<rparr>) = pendingIDs s" "pendingIDs (s\<lparr>sv_cancels := c\<rparr>) = pendingIDs s"
  by (simp_all add: pendingIDs_def)

lemma queuedIDs_runner [simp]: "queuedIDs (s\<lparr>sv_runner := Some q\<rparr>) = backendIDs q" "queuedIDs (s\<lparr>sv_cancels := c\<rparr>) = queuedIDs s"
  by (simp_all add: queuedIDs_def)

text \<open>
  The common tail of the handlers that start a run: the run is saved as pending and submitted; when the submission fails a run that is not pending
  replaces it.
\<close>

lemma submitted_accounted:
  assumes "accounted s" "sv_runner s = Some q" "rm_RunID run = rq_RunID req" "Submit q answer req = (q', None)"
  shows "accounted ((fst (saveRun env i run s))\<lparr>sv_runner := Some q'\<rparr>)"
  using assms Submit_cases [OF assms(4)] by (auto simp: accounted_def pendingIDs_saveRun queuedIDs_def split: if_splits)

lemma refused_accounted:
  assumes "accounted s" "sv_runner s = Some q" "Submit q answer req = (q', Some err)" "sn_save env j = None" "rm_RunID run' = rm_RunID run" "rm_State run' \<noteq> ''pending''"
  shows "accounted (fst (saveRun env j run' ((fst (saveRun env i run s))\<lparr>sv_runner := Some q'\<rparr>)))"
  using assms Submit_cases [OF assms(3)] by (auto simp: accounted_def pendingIDs_saveRun queuedIDs_def split: if_splits)

lemma unsaved_accounted: "accounted s \<Longrightarrow> saveRun env i run s = (s', Some err) \<Longrightarrow> accounted s'"
  by (cases "sn_save env i") (simp_all add: saveRun_def sqlite_SaveRun_def saveRun_fails)

text \<open>The server as its handlers, its triggers and its workers change it, over a database whose later saves work.\<close>

inductive served :: "server \<Rightarrow> bool" where
  fresh: "sv_runs s = [] \<Longrightarrow> sv_runner s \<noteq> None \<Longrightarrow> served s"
| create: "served s \<Longrightarrow> sn_save env 1 = None \<Longrightarrow> served (fst (handleCreateRun env s body))"
| replay: "served s \<Longrightarrow> sn_save env 1 = None \<Longrightarrow> served (fst (handleReplayDeadLetter env s i rbody))"
| webhook: "served s \<Longrightarrow> sn_save env 1 = None \<Longrightarrow> (\<And>st out. fallback = Inr (st, out) \<Longrightarrow> st \<noteq> ''pending'') \<Longrightarrow>
    served (fst (executeWebhookRun env fallback wh goal payload s))"
| trigger: "served s \<Longrightarrow> served (snd (busRound env (b, s)))"
| schedule: "served s \<Longrightarrow> served (fst (submitTo env (scheduledRequest env job) s))"
| cancel: "served s \<Longrightarrow> served (fst (handleCancelRun s i))"
| take: "served s \<Longrightarrow> sn_save env 0 = None \<Longrightarrow> served (fst (workerTake env ctx s))"
| finish: "served s \<Longrightarrow> state \<noteq> ''pending'' \<Longrightarrow> served (workerFinish env state req s)"

lemma start_accounted:
  assumes "accounted s" "sv_runner s = Some q" "rm_RunID run = rq_RunID req" "sn_save env 1 = None" "rm_RunID run' = rm_RunID run" "rm_State run' \<noteq> ''pending''"
    and "saveRun env 0 run s = (s1, None)" "Submit q answer req = (q', err)"
  shows "sv_runner s1 = Some q" "err = None \<Longrightarrow> accounted (s1\<lparr>sv_runner := Some q'\<rparr>)"
    "err \<noteq> None \<Longrightarrow> accounted (fst (saveRun env 1 run' (s1\<lparr>sv_runner := Some q'\<rparr>)))"
proof -
  have s1: "s1 = fst (saveRun env 0 run s)" using assms(7) by simp
  show "sv_runner s1 = Some q" using assms(2) by (simp add: s1)
  show "err = None \<Longrightarrow> accounted (s1\<lparr>sv_runner := Some q'\<rparr>)" using submitted_accounted [OF assms(1,2,3)] assms(8) by (simp add: s1)
  show "err \<noteq> None \<Longrightarrow> accounted (fst (saveRun env 1 run' (s1\<lparr>sv_runner := Some q'\<rparr>)))"
    using refused_accounted [OF assms(1,2) _ assms(4,5,6)] assms(8) by (auto simp: s1)
qed

lemma create_accounted:
  assumes "accounted s" "sn_save env 1 = None"
  shows "accounted (fst (handleCreateRun env s body))"
proof (cases body)
  case (Inr req)
  let ?run = "pendingRun env (cr_AgentName req) (cr_Goal req)"
  obtain q where q: "sv_runner s = Some q" using assms(1) by (auto simp: accounted_def)
  obtain q' err where sub: "Submit q (sn_submit env) (apiRequest env req) = (q', err)" by force
  show ?thesis
  proof (cases "sn_save env 0")
    case None
    obtain s1 where s1: "saveRun env 0 ?run s = (s1, None)" using saveRun_works [OF None, of ?run s] by blast
    have "rm_RunID ?run = rq_RunID (apiRequest env req)" by (simp add: apiRequest_def)
    note acc = start_accounted [OF assms(1) q this assms(2) _ _ s1 sub, of "failedRun env ?run", simplified]
    show ?thesis using acc assms(1) Inr s1 sub by (cases err) (simp_all add: handleCreateRun_def Let_def)
  qed (simp add: handleCreateRun_def Let_def saveRun_fails assms(1) Inr)
qed (simp add: handleCreateRun_def assms(1))

lemma replay_accounted:
  assumes "accounted s" "sn_save env 1 = None"
  shows "accounted (fst (handleReplayDeadLetter env s i body))"
proof -
  obtain q where q: "sv_runner s = Some q" using assms(1) by (auto simp: accounted_def)
  have submitted: "accounted (fst (case saveRun env 0 (pendingRun env agent goal) s of
        (s1, Some err) \<Rightarrow> (s1, e500 err)
      | (s1, None) \<Rightarrow> (case Submit q (sn_submit env) req of
            (q', Some err) \<Rightarrow> (fst (saveRun env 1 (failedRun env (pendingRun env agent goal)) (s1\<lparr>sv_runner := Some q'\<rparr>)), e503 err)
          | (q', None) \<Rightarrow> (s1\<lparr>sv_runner := Some q'\<rparr>, resp))))" if "rq_RunID req = sn_uuid env" for agent goal req resp e500 e503
  proof (cases "sn_save env 0")
    case None
    let ?run = "pendingRun env agent goal"
    obtain s1 where s1: "saveRun env 0 ?run s = (s1, None)" using saveRun_works [OF None, of ?run s] by blast
    obtain q' err where sub: "Submit q (sn_submit env) req = (q', err)" by force
    have "rm_RunID ?run = rq_RunID req" using that by simp
    note acc = start_accounted [OF assms(1) q this assms(2) _ _ s1 sub, of "failedRun env ?run", simplified]
    show ?thesis using acc s1 sub by (cases err) simp_all
  qed (simp add: saveRun_fails assms(1))
  have id: "rq_RunID (replayRunRequest env dl rq) = sn_uuid env" for dl rq by (simp add: replayRunRequest_def)
  show ?thesis
    using assms(1) by (simp add: handleReplayDeadLetter_def Let_def q submitted id del: One_nat_def split: option.split sum.split)
qed

lemma webhook_accounted:
  assumes "accounted s" "sn_save env 1 = None" "\<And>st out. fallback = Inr (st, out) \<Longrightarrow> st \<noteq> ''pending''"
  shows "accounted (fst (executeWebhookRun env fallback wh goal payload s))"
proof (cases "sn_save env 0")
  case None
  let ?run = "pendingRun env (wh_Agent wh) goal" and ?req = "webhookRequest env wh goal payload"
  let ?state = "case fallback of Inl err \<Rightarrow> ''failed'' | Inr (status, out) \<Rightarrow> status"
  let ?run' = "?run\<lparr>rm_State := ?state, rm_UpdatedAt := sn_now env 1\<rparr>"
  obtain q where q: "sv_runner s = Some q" using assms(1) by (auto simp: accounted_def)
  obtain q' err where sub: "Submit q (sn_submit env) ?req = (q', err)" by force
  obtain s1 where s1: "saveRun env 0 ?run s = (s1, None)" using saveRun_works [OF None, of ?run s] by blast
  have "rm_State ?run' \<noteq> ''pending''" using assms(3) by (auto split: sum.split prod.split)
  moreover have "rm_RunID ?run' = rm_RunID ?run" "rm_RunID ?run = rq_RunID ?req" by (simp_all add: webhookRequest_def)
  ultimately have acc: "sv_runner s1 = Some q" "err = None \<Longrightarrow> accounted (s1\<lparr>sv_runner := Some q'\<rparr>)"
    "err \<noteq> None \<Longrightarrow> accounted (fst (saveRun env 1 ?run' (s1\<lparr>sv_runner := Some q'\<rparr>)))"
    using start_accounted [OF assms(1) q _ assms(2) _ _ s1 sub, of ?run'] by blast+
  show ?thesis using acc s1 sub by (cases err) (simp_all add: executeWebhookRun_def Let_def del: One_nat_def)
qed (simp add: executeWebhookRun_def Let_def saveRun_fails assms(1))

lemma submitTo_accounted: "accounted s \<Longrightarrow> accounted (fst (submitTo env req s))"
proof -
  assume s: "accounted s"
  then obtain q where q: "sv_runner s = Some q" by (auto simp: accounted_def)
  obtain q' err where sub: "Submit q (sn_submit env) req = (q', err)" by force
  then have "backendIDs q \<subseteq> backendIDs q'" using Submit_cases [OF sub] by (auto split: if_splits)
  then show ?thesis using s q sub by (auto simp: submitTo_def accounted_def queuedIDs_def)
qed

lemma cancel_accounted: "accounted s \<Longrightarrow> accounted (fst (handleCancelRun s i))"
  by (auto simp: handleCancelRun_def accounted_def split: option.split)

lemma take_accounted:
  assumes "accounted s" "sn_save env 0 = None"
  shows "accounted (fst (workerTake env ctx s))"
proof -
  obtain q where q: "sv_runner s = Some q" using assms(1) by (auto simp: accounted_def)
  obtain q' d where deq: "Dequeue q ctx = (q', d)" by force
  show ?thesis using Dequeue_cases [OF deq] assms q deq
    by (cases d) (auto simp: workerTake_def accounted_def setRunCancel_def pendingIDs_saveRun queuedIDs_def runningRun_def)
qed

lemma finish_accounted: "accounted s \<Longrightarrow> state \<noteq> ''pending'' \<Longrightarrow> accounted (workerFinish env state req s)"
  by (auto simp: workerFinish_def clearRunCancel_def accounted_def pendingIDs_saveRun)

lemma served_accounted: "served s \<Longrightarrow> accounted s"
proof (induction rule: served.induct)
  case (fresh s)
  then show ?case by (auto simp: accounted_def pendingIDs_def)
next
  case (trigger s env b)
  then show ?case by (simp add: busRound_def submitTo_accounted split: list.split)
qed (simp_all add: create_accounted replay_accounted webhook_accounted submitTo_accounted cancel_accounted take_accounted finish_accounted del: One_nat_def)

text \<open>
  C32. No accepted run is lost: whatever sequence of API requests, dead-letter replays, webhook deliveries, trigger events, scheduled jobs, cancellations and
  worker steps the server goes through, with a queue of either kind that may refuse requests and a database in which the first save of a handler may
  fail, a run that is stored as pending has its request in the queue.
\<close>

theorem pending_run_is_queued:
  assumes "served s" "GetRun (sv_runs s) None k = Inr (Some run)" "rm_State run = ''pending''"
  shows "\<exists>req \<in> set (queued s). rq_RunID req = k"
proof -
  have "k \<in> queuedIDs s" using served_accounted [OF assms(1)] assms(2,3) by (auto simp: accounted_def pendingIDs_def GetRun_def)
  then show ?thesis by (auto simp: queuedIDs_def split: option.splits backend.splits)
qed

theorem pending_run_is_queued_witness:
  "\<exists>req. req \<in> set (queued (fst (handleCreateRun (example_server_env ''u'') (example_server (NewMemoryQueue 1) [])
      (Inr \<lparr>cr_AgentName = ''a'', cr_Goal = ''g'', cr_MaxRetries = 1, cr_RetryBackoffMs = 0, cr_TimeoutMs = 0\<rparr>)))) \<and> rq_RunID req = ''u''"
proof -
  let ?s = "fst (handleCreateRun (example_server_env ''u'') (example_server (NewMemoryQueue 1) [])
      (Inr \<lparr>cr_AgentName = ''a'', cr_Goal = ''g'', cr_MaxRetries = 1, cr_RetryBackoffMs = 0, cr_TimeoutMs = 0\<rparr>))"
  have "served (example_server (NewMemoryQueue 1) [])" by (rule served.fresh) (simp_all add: example_server_def)
  then have "served ?s" by (rule served.create) (simp add: example_server_env_def)
  moreover have "GetRun (sv_runs ?s) None ''u'' =
      Inr (Some \<lparr>rm_RunID = ''u'', rm_AgentName = ''a'', rm_Goal = ''g'', rm_State = ''pending'', rm_StepCount = 0, rm_CreatedAt = 0, rm_UpdatedAt = 0\<rparr>)"
    by code_simp
  ultimately have "\<exists>req \<in> set (queued ?s). rq_RunID req = ''u''" by (rule pending_run_is_queued) simp
  then show ?thesis by blast
qed

end
