(* ===== verification/Event_Stream.thy ===== *)
theory Event_Stream
  imports Webhooks
begin

text \<open>
  Events of a run on their way to observers: the hub of \<open>pkg/observe/eventhub.go\<close>, the event stream of \<open>pkg/orchestrate/stream.go\<close> and the
  triggers that listen to the hub (\<open>RegisterEventHubTrigger\<close> in \<open>triggers.go\<close>). A channel has a number, its buffer and whether it is closed; sending on a
  closed channel and closing one twice panic, so those operations return \<open>None\<close>. Subscribing and unsubscribing
  hold the lock of the hub and happen alone; publishing holds it for reading only, so two publications may overlap: they are modelled as happening one after
  the other, and the order of a sequence of operations is the order of the sends on each channel.
\<close>

section \<open>The hub\<close>

record chan =
  ch_buf :: "RunEvent list"
  ch_closed :: bool

record EventHub =
  eh_subscribers :: "nat list smap"
  eh_bufferSize :: nat
  eh_chans :: "(nat \<times> chan) list"

definition NewEventHub :: "int \<Rightarrow> EventHub" where
  "NewEventHub bufferSize = \<lparr>eh_subscribers = [], eh_bufferSize = nat (if bufferSize \<le> 0 then 100 else bufferSize), eh_chans = []\<rparr>"

text \<open>\<open>make(chan Event, n)\<close>: the next number.\<close>

definition Subscribe :: "EventHub \<Rightarrow> string \<Rightarrow> EventHub \<times> nat" where
  "Subscribe h runID =
     (let ch = length (eh_chans h)
      in (h\<lparr>eh_chans := eh_chans h @ [(ch, \<lparr>ch_buf = [], ch_closed = False\<rparr>)],
            eh_subscribers := AList.update runID (get_list (eh_subscribers h) runID @ [ch]) (eh_subscribers h)\<rparr>, ch))"

definition trySend :: "nat \<Rightarrow> RunEvent \<Rightarrow> chan \<Rightarrow> chan option" where
  "trySend n event c =
     (if ch_closed c then None
      else Some (if length (ch_buf c) < n then c\<lparr>ch_buf := ch_buf c @ [event]\<rparr> else c))"

definition onChan :: "(chan \<Rightarrow> chan option) \<Rightarrow> nat \<Rightarrow> EventHub \<Rightarrow> EventHub option" where
  "onChan f ch h =
     (case map_of (eh_chans h) ch of
        None \<Rightarrow> None
      | Some c \<Rightarrow> (case f c of None \<Rightarrow> None | Some c' \<Rightarrow> Some (h\<lparr>eh_chans := AList.update ch c' (eh_chans h)\<rparr>)))"

fun onChans :: "(chan \<Rightarrow> chan option) \<Rightarrow> nat list \<Rightarrow> EventHub \<Rightarrow> EventHub option" where
  "onChans f [] h = Some h"
| "onChans f (ch # chs) h = (case onChan f ch h of None \<Rightarrow> None | Some h' \<Rightarrow> onChans f chs h')"

definition hub_Publish :: "EventHub \<Rightarrow> string \<Rightarrow> RunEvent \<Rightarrow> EventHub option" where
  "hub_Publish h runID event = onChans (trySend (eh_bufferSize h) event) (get_list (eh_subscribers h) runID) h"

definition closeChan :: "chan \<Rightarrow> chan option" where
  "closeChan c = (if ch_closed c then None else Some (c\<lparr>ch_closed := True\<rparr>))"

definition Unsubscribe :: "EventHub \<Rightarrow> string \<Rightarrow> nat \<Rightarrow> EventHub option" where
  "Unsubscribe h runID ch =
     (case map_of (eh_subscribers h) runID of
        None \<Rightarrow> Some h
      | Some subs \<Rightarrow>
          (let found = ch \<in> set subs; subs' = remove1 ch subs
           in case (if found then onChan closeChan ch h else Some h) of
                None \<Rightarrow> None
              | Some h1 \<Rightarrow> Some (h1\<lparr>eh_subscribers := (if subs' = [] then AList.delete runID (eh_subscribers h)
                                                     else AList.update runID subs' (eh_subscribers h))\<rparr>)))"

definition UnsubscribeAll :: "EventHub \<Rightarrow> string \<Rightarrow> EventHub option" where
  "UnsubscribeAll h runID =
     (case map_of (eh_subscribers h) runID of
        None \<Rightarrow> Some h
      | Some subs \<Rightarrow> (case onChans closeChan subs h of
            None \<Rightarrow> None
          | Some h1 \<Rightarrow> Some (h1\<lparr>eh_subscribers := AList.delete runID (eh_subscribers h)\<rparr>)))"

definition SubscriberCount :: "EventHub \<Rightarrow> string \<Rightarrow> int" where
  "SubscriberCount h runID = int (length (get_list (eh_subscribers h) runID))"

text \<open>A receive: the oldest event, the end of a closed channel, or nothing yet.\<close>

datatype received = Received RunEvent | EndOfChan | WouldBlock

definition receive :: "EventHub \<Rightarrow> nat \<Rightarrow> EventHub \<times> received" where
  "receive h ch =
     (case map_of (eh_chans h) ch of
        None \<Rightarrow> (h, WouldBlock)
      | Some c \<Rightarrow> (case ch_buf c of
            event # rest \<Rightarrow> (h\<lparr>eh_chans := AList.update ch (c\<lparr>ch_buf := rest\<rparr>) (eh_chans h)\<rparr>, Received event)
          | [] \<Rightarrow> (h, if ch_closed c then EndOfChan else WouldBlock)))"

section \<open>The event stream of a client\<close>

text \<open>What a round of the \<open>select\<close> takes: the end of the request, an event, the end of the channel or the heartbeat.\<close>

datatype stream_case = ClientGone | Event RunEvent | ChanClosed | Heartbeat

definition terminal :: "RunEvent \<Rightarrow> bool" where
  "terminal e \<longleftrightarrow> re_Type e = EventCompleted \<or> re_Type e = EventError \<or> re_Type e = EventInterrupted"

definition newline :: string where
  "newline = [CHR 0x0A]"

text \<open>\<open>marshal\<close> is \<open>json.Marshal\<close>, nothing for its error. The result is what was written and whether the handler has returned.\<close>

fun streamLoop :: "(RunEvent \<Rightarrow> string option) \<Rightarrow> stream_case list \<Rightarrow> string list \<times> bool" where
  "streamLoop marshal [] = ([], False)"
| "streamLoop marshal (ClientGone # cs) = ([], True)"
| "streamLoop marshal (ChanClosed # cs) = ([], True)"
| "streamLoop marshal (Heartbeat # cs) = (case streamLoop marshal cs of (out, ended) \<Rightarrow> (('': heartbeat'' @ newline @ newline) # out, ended))"
| "streamLoop marshal (Event e # cs) =
     (case marshal e of
        None \<Rightarrow> streamLoop marshal cs
      | Some data \<Rightarrow>
          (let msg = ''data: '' @ data @ newline @ newline
           in if terminal e then ([msg], True)
              else (case streamLoop marshal cs of (out, ended) \<Rightarrow> (msg # out, ended))))"

section \<open>Triggers on the hub\<close>

definition anyStr :: "any smap \<Rightarrow> string \<Rightarrow> string" where
  "anyStr m k = (case map_of m k of Some (AStr s) \<Rightarrow> s | _ \<Rightarrow> [])"

text \<open>The body of the loop of \<open>RegisterEventHubTrigger\<close>: the event to publish on the trigger bus, if any.\<close>

definition forwardTrigger :: "RunEvent \<Rightarrow> TriggerEvent option" where
  "forwardTrigger evt =
     (if re_Type evt \<noteq> EventCompleted then None
      else (let agent = anyStr (re_Data evt) ''trigger_agent''; goal = anyStr (re_Data evt) ''trigger_goal''
            in if agent = [] \<or> goal = [] then None
               else Some \<lparr>te_AgentName = agent, te_Goal = goal, te_Payload = re_Data evt\<rparr>))"

definition forwardRound :: "EventHub \<times> EventTriggerBus \<Rightarrow> nat \<Rightarrow> EventHub \<times> EventTriggerBus" where
  "forwardRound hb ch =
     (case receive (fst hb) ch of
        (h, Received evt) \<Rightarrow> (h, case forwardTrigger evt of None \<Rightarrow> snd hb | Some t \<Rightarrow> fst (bus_Publish (snd hb) t))
      | (h, r) \<Rightarrow> (h, snd hb))"

section \<open>Sequences of operations\<close>

text \<open>
  An execution of the hub together with, for each channel, the events received from it and the events published for its run while it was
  subscribed.
\<close>

datatype hub_op = OpSubscribe string | OpPublish string RunEvent | OpUnsubscribe string nat | OpUnsubscribeAll string | OpReceive nat

record hub_trace =
  ht_hub :: EventHub
  ht_got :: "nat \<Rightarrow> RunEvent list"
  ht_sent :: "nat \<Rightarrow> RunEvent list"

fun hubStep :: "hub_op \<Rightarrow> hub_trace \<Rightarrow> hub_trace option" where
  "hubStep (OpSubscribe runID) t = Some (t\<lparr>ht_hub := fst (Subscribe (ht_hub t) runID)\<rparr>)"
| "hubStep (OpPublish runID e) t =
     map_option (\<lambda>h. t\<lparr>ht_hub := h, ht_sent := (\<lambda>c. if c \<in> set (get_list (eh_subscribers (ht_hub t)) runID) then ht_sent t c @ [e] else ht_sent t c)\<rparr>)
       (hub_Publish (ht_hub t) runID e)"
| "hubStep (OpUnsubscribe runID ch) t = map_option (\<lambda>h. t\<lparr>ht_hub := h\<rparr>) (Unsubscribe (ht_hub t) runID ch)"
| "hubStep (OpUnsubscribeAll runID) t = map_option (\<lambda>h. t\<lparr>ht_hub := h\<rparr>) (UnsubscribeAll (ht_hub t) runID)"
| "hubStep (OpReceive ch) t =
     (case receive (ht_hub t) ch of
        (h, Received e) \<Rightarrow> Some (t\<lparr>ht_hub := h, ht_got := (ht_got t)(ch := ht_got t ch @ [e])\<rparr>)
      | (h, r) \<Rightarrow> Some (t\<lparr>ht_hub := h\<rparr>))"

fun hubRun :: "hub_op list \<Rightarrow> hub_trace \<Rightarrow> hub_trace option" where
  "hubRun [] t = Some t"
| "hubRun (op # ops) t = (case hubStep op t of None \<Rightarrow> None | Some t' \<Rightarrow> hubRun ops t')"

definition startHub :: "int \<Rightarrow> hub_trace" where
  "startHub n = \<lparr>ht_hub = NewEventHub n, ht_got = (\<lambda>c. []), ht_sent = (\<lambda>c. [])\<rparr>"

definition hub_ok :: "EventHub \<Rightarrow> bool" where
  "hub_ok h \<longleftrightarrow> map fst (eh_chans h) = [0..<length (eh_chans h)] \<and>
     (\<forall>r. distinct (get_list (eh_subscribers h) r)) \<and>
     (\<forall>r c. c \<in> set (get_list (eh_subscribers h) r) \<longrightarrow> (\<exists>ch. map_of (eh_chans h) c = Some ch \<and> \<not> ch_closed ch)) \<and>
     (\<forall>r r' c. c \<in> set (get_list (eh_subscribers h) r) \<longrightarrow> c \<in> set (get_list (eh_subscribers h) r') \<longrightarrow> r = r')"

definition chan_ok :: "nat \<Rightarrow> chan \<Rightarrow> RunEvent list \<Rightarrow> RunEvent list \<Rightarrow> bool" where
  "chan_ok n ch got sent \<longleftrightarrow> subseq (got @ ch_buf ch) sent \<and> length (ch_buf ch) \<le> n \<and> (length sent \<le> n \<longrightarrow> got @ ch_buf ch = sent)"

fun entry_ok :: "nat \<Rightarrow> chan option \<Rightarrow> RunEvent list \<Rightarrow> RunEvent list \<Rightarrow> bool" where
  "entry_ok n None got sent \<longleftrightarrow> got = [] \<and> sent = []"
| "entry_ok n (Some ch) got sent \<longleftrightarrow> chan_ok n ch got sent"

definition trace_ok :: "hub_trace \<Rightarrow> bool" where
  "trace_ok t \<longleftrightarrow> hub_ok (ht_hub t) \<and>
     (\<forall>c. entry_ok (eh_bufferSize (ht_hub t)) (map_of (eh_chans (ht_hub t)) c) (ht_got t c) (ht_sent t c))"

lemma onChans_works:
  "distinct chs \<Longrightarrow> (\<And>ch. ch \<in> set chs \<Longrightarrow> \<exists>c c'. map_of (eh_chans h) ch = Some c \<and> f c = Some c') \<Longrightarrow>
   \<exists>cs. onChans f chs h = Some (h\<lparr>eh_chans := cs\<rparr>) \<and> map fst cs = map fst (eh_chans h) \<and>
     (\<forall>ch. map_of cs ch = (if ch \<in> set chs then f (the (map_of (eh_chans h) ch)) else map_of (eh_chans h) ch))"
proof (induction chs arbitrary: h)
  case Nil
  show ?case by (intro exI [of _ "eh_chans h"]) simp
next
  case (Cons ch chs)
  obtain c c' where c: "map_of (eh_chans h) ch = Some c" "f c = Some c'" using Cons.prems(2) [of ch] by auto
  let ?h = "h\<lparr>eh_chans := AList.update ch c' (eh_chans h)\<rparr>"
  have on: "onChan f ch h = Some ?h" using c by (simp add: onChan_def)
  have "\<exists>d d'. map_of (eh_chans ?h) k = Some d \<and> f d = Some d'" if "k \<in> set chs" for k
    using Cons.prems that by auto
  from Cons.IH [OF _ this] Cons.prems(1) obtain cs where cs: "onChans f chs ?h = Some (?h\<lparr>eh_chans := cs\<rparr>)" "map fst cs = map fst (eh_chans ?h)"
    "\<forall>k. map_of cs k = (if k \<in> set chs then f (the (map_of (eh_chans ?h) k)) else map_of (eh_chans ?h) k)" by auto
  have "ch \<in> set (map fst (eh_chans h))" using c(1) by (metis domI dom_map_of_conv_image_fst list.set_map)
  then have "map fst cs = map fst (eh_chans h)" using cs(2) keys_update_old by simp
  moreover have "map_of cs k = (if k \<in> set (ch # chs) then f (the (map_of (eh_chans h) k)) else map_of (eh_chans h) k)" for k
    using cs(3) Cons.prems(1) c by simp
  ultimately show ?case using on cs(1) by (intro exI [of _ cs]) simp
qed

lemma get_list_put: "get_list (AList.update r v m) k = (if k = r then v else get_list m k)"
  by (simp add: get_list_def)

lemma get_list_drop: "get_list (AList.delete r m) k = (if k = r then [] else get_list m k)"
  by (simp add: get_list_def AList.delete_conv')

lemma subscribed_open:
  assumes "hub_ok h" "ch \<in> set (get_list (eh_subscribers h) r)"
  obtains c where "map_of (eh_chans h) ch = Some c" "\<not> ch_closed c"
  using assms unfolding hub_ok_def by blast

lemma hub_ok_chans:
  assumes "hub_ok h" "map fst cs = map fst (eh_chans h)"
    "\<And>r c. c \<in> set (get_list (eh_subscribers h) r) \<Longrightarrow> \<exists>ch. map_of cs c = Some ch \<and> \<not> ch_closed ch"
  shows "hub_ok (h\<lparr>eh_chans := cs\<rparr>)"
proof -
  have "length cs = length (eh_chans h)" using assms(2) by (metis length_map)
  then show ?thesis using assms by (simp add: hub_ok_def)
qed

lemma hub_updates: "h\<lparr>eh_chans := cs, eh_subscribers := m\<rparr> = h\<lparr>eh_subscribers := m, eh_chans := cs\<rparr>" for h :: EventHub
  by simp

lemma subseq_imp_distinct: "subseq xs ys \<Longrightarrow> distinct ys \<Longrightarrow> distinct xs"
  by (induction rule: list_emb.induct) (auto dest: list_emb_set)

lemma hub_ok_fewer:
  assumes "hub_ok h" "\<And>r. subseq (get_list m r) (get_list (eh_subscribers h) r)"
  shows "hub_ok (h\<lparr>eh_subscribers := m\<rparr>)"
proof -
  have sub: "c \<in> set (get_list (eh_subscribers h) r)" if "c \<in> set (get_list m r)" for r c using list_emb_set [OF assms(2) that] by blast
  have "\<forall>r. distinct (get_list m r)" using assms subseq_imp_distinct unfolding hub_ok_def by blast
  moreover have "\<forall>r c. c \<in> set (get_list m r) \<longrightarrow> (\<exists>ch. map_of (eh_chans h) c = Some ch \<and> \<not> ch_closed ch)"
    using sub subscribed_open [OF assms(1)] by metis
  moreover have "\<forall>r r' c. c \<in> set (get_list m r) \<longrightarrow> c \<in> set (get_list m r') \<longrightarrow> r = r'" using sub assms(1) unfolding hub_ok_def by blast
  moreover have "map fst (eh_chans h) = [0..<length (eh_chans h)]" using assms(1) by (simp add: hub_ok_def)
  ultimately show ?thesis unfolding hub_ok_def by simp
qed

text \<open>What happens to one channel.\<close>

lemma chan_ok_send:
  assumes "chan_ok n ch got sent" "trySend n e ch = Some ch'"
  shows "chan_ok n ch' got (sent @ [e])"
proof (cases "length (ch_buf ch) < n")
  case True
  then have "ch' = ch\<lparr>ch_buf := ch_buf ch @ [e]\<rparr>" using assms(2) by (simp add: trySend_def split: if_splits)
  moreover have "subseq ((got @ ch_buf ch) @ [e]) (sent @ [e])" using assms(1) by (intro list_emb_append_mono) (simp_all add: chan_ok_def)
  ultimately show ?thesis using assms(1) True by (simp add: chan_ok_def)
next
  case False
  then have "ch' = ch" using assms(2) by (simp add: trySend_def split: if_splits)
  moreover have "length (got @ ch_buf ch) \<le> length sent" using assms(1) list_emb_length unfolding chan_ok_def by blast
  moreover have "subseq (got @ ch_buf ch) (sent @ [e])" using assms(1) list_emb_append_mono [of "(=)" "got @ ch_buf ch" sent "[]" "[e]"] by (simp add: chan_ok_def)
  ultimately show ?thesis using assms(1) False by (simp add: chan_ok_def)
qed

lemma trySend_open: "\<not> ch_closed ch \<Longrightarrow> \<exists>ch'. trySend n e ch = Some ch' \<and> \<not> ch_closed ch'"
  by (simp add: trySend_def)

lemma chan_ok_receive: "chan_ok n ch got sent \<Longrightarrow> ch_buf ch = e # rest \<Longrightarrow> chan_ok n (ch\<lparr>ch_buf := rest\<rparr>) (got @ [e]) sent"
  by (simp add: chan_ok_def)

lemma trace_okD:
  "trace_ok t \<Longrightarrow> hub_ok (ht_hub t)"
  "trace_ok t \<Longrightarrow> entry_ok (eh_bufferSize (ht_hub t)) (map_of (eh_chans (ht_hub t)) c) (ht_got t c) (ht_sent t c)"
  unfolding trace_ok_def by blast+

lemma publish_ok:
  assumes "trace_ok t"
  shows "\<exists>t'. hubStep (OpPublish r e) t = Some t' \<and> trace_ok t'"
proof -
  let ?h = "ht_hub t" and ?subs = "get_list (eh_subscribers (ht_hub t)) r"
  let ?f = "trySend (eh_bufferSize ?h) e"
  have ok: "hub_ok ?h" using trace_okD(1) [OF assms] .
  have sent: "\<exists>c c'. map_of (eh_chans ?h) ch = Some c \<and> ?f c = Some c' \<and> \<not> ch_closed c'" if "ch \<in> set ?subs" for ch
    using subscribed_open [OF ok that] trySend_open by metis
  have "distinct ?subs" using ok by (simp add: hub_ok_def)
  then obtain cs where cs: "onChans ?f ?subs ?h = Some (?h\<lparr>eh_chans := cs\<rparr>)" "map fst cs = map fst (eh_chans ?h)"
    "\<And>ch. map_of cs ch = (if ch \<in> set ?subs then ?f (the (map_of (eh_chans ?h) ch)) else map_of (eh_chans ?h) ch)"
    using onChans_works [of ?subs ?h ?f] sent by blast
  have "hub_ok (?h\<lparr>eh_chans := cs\<rparr>)"
  proof (rule hub_ok_chans [OF ok cs(2)])
    show "\<exists>ch. map_of cs c = Some ch \<and> \<not> ch_closed ch" if "c \<in> set (get_list (eh_subscribers ?h) r')" for r' c
      using sent [of c] subscribed_open [OF ok that] unfolding cs(3) by fastforce
  qed
  moreover have "entry_ok (eh_bufferSize ?h) (map_of cs c) (ht_got t c) (if c \<in> set ?subs then ht_sent t c @ [e] else ht_sent t c)" for c
  proof (cases "c \<in> set ?subs")
    case True
    with sent obtain ch ch' where ch: "map_of (eh_chans ?h) c = Some ch" "?f ch = Some ch'" by blast
    then show ?thesis using True chan_ok_send [OF _ ch(2)] trace_okD(2) [OF assms, of c] by (simp add: cs(3))
  next
    case False
    then show ?thesis using trace_okD(2) [OF assms, of c] by (simp add: cs(3))
  qed
  ultimately show ?thesis using cs(1) by (simp add: hub_Publish_def trace_ok_def)
qed

text \<open>The other operations.\<close>

lemma trace_ok_hub:
  assumes "trace_ok t" "hub_ok h" "eh_bufferSize h = eh_bufferSize (ht_hub t)"
    and "\<And>c. map_option ch_buf (map_of (eh_chans h) c) = map_option ch_buf (map_of (eh_chans (ht_hub t)) c)"
  shows "trace_ok (t\<lparr>ht_hub := h\<rparr>)"
proof -
  have same: "entry_ok n y got sent" if "entry_ok n x got sent" "map_option ch_buf y = map_option ch_buf x" for n x y got sent
    using that by (cases x; cases y) (simp_all add: chan_ok_def)
  have "entry_ok (eh_bufferSize h) (map_of (eh_chans h) c) (ht_got t c) (ht_sent t c)" for c
    using same [OF trace_okD(2) [OF assms(1), of c] assms(4) [of c]] assms(3) by simp
  then show ?thesis using assms(2) by (simp add: trace_ok_def)
qed

lemma closeChans:
  assumes "hub_ok h" "distinct chs" "\<And>ch. ch \<in> set chs \<Longrightarrow> \<exists>c. map_of (eh_chans h) ch = Some c \<and> \<not> ch_closed c"
  obtains cs where "onChans closeChan chs h = Some (h\<lparr>eh_chans := cs\<rparr>)" "map fst cs = map fst (eh_chans h)"
    "\<And>c. map_option ch_buf (map_of cs c) = map_option ch_buf (map_of (eh_chans h) c)"
    "\<And>c. c \<notin> set chs \<Longrightarrow> map_of cs c = map_of (eh_chans h) c"
proof -
  have close: "\<exists>c c'. map_of (eh_chans h) ch = Some c \<and> closeChan c = Some c'" if "ch \<in> set chs" for ch
    using assms(3) [OF that] by (auto simp: closeChan_def)
  from onChans_works [of chs h closeChan, OF assms(2) close] obtain cs where cs: "onChans closeChan chs h = Some (h\<lparr>eh_chans := cs\<rparr>)"
    "map fst cs = map fst (eh_chans h)"
    "\<And>ch. map_of cs ch = (if ch \<in> set chs then closeChan (the (map_of (eh_chans h) ch)) else map_of (eh_chans h) ch)" by blast
  have "map_option ch_buf (map_of cs c) = map_option ch_buf (map_of (eh_chans h) c)" for c
    using assms(3) [of c] by (auto simp: cs(3) closeChan_def)
  then show thesis using that cs by simp
qed

lemma unsubscribeAll_ok:
  assumes "trace_ok t"
  shows "\<exists>t'. hubStep (OpUnsubscribeAll r) t = Some t' \<and> trace_ok t'"
proof (cases "map_of (eh_subscribers (ht_hub t)) r")
  case None
  then show ?thesis using assms by (simp add: UnsubscribeAll_def)
next
  case (Some subs)
  let ?h = "ht_hub t"
  have ok: "hub_ok ?h" using trace_okD(1) [OF assms] .
  have subs: "get_list (eh_subscribers ?h) r = subs" using Some by (simp add: get_list_def)
  have "distinct subs" using ok subs unfolding hub_ok_def by blast
  then obtain cs where cs: "onChans closeChan subs ?h = Some (?h\<lparr>eh_chans := cs\<rparr>)" "map fst cs = map fst (eh_chans ?h)"
    "\<And>c. map_option ch_buf (map_of cs c) = map_option ch_buf (map_of (eh_chans ?h) c)" "\<And>c. c \<notin> set subs \<Longrightarrow> map_of cs c = map_of (eh_chans ?h) c"
    using closeChans [OF ok, of subs] subscribed_open [OF ok, of _ r] subs by metis
  let ?m = "AList.delete r (eh_subscribers ?h)" and ?h' = "?h\<lparr>eh_chans := cs, eh_subscribers := AList.delete r (eh_subscribers ?h)\<rparr>"
  have "hub_ok (?h\<lparr>eh_subscribers := ?m\<rparr>)"
    by (rule hub_ok_fewer [OF ok]) (simp add: get_list_drop)
  then have "hub_ok (?h\<lparr>eh_subscribers := ?m, eh_chans := cs\<rparr>)"
  proof (rule hub_ok_chans)
    show "\<exists>ch. map_of cs c = Some ch \<and> \<not> ch_closed ch" if "c \<in> set (get_list (eh_subscribers (?h\<lparr>eh_subscribers := ?m\<rparr>)) r')" for r' c
    proof -
      have c: "c \<in> set (get_list (eh_subscribers ?h) r')" "r' \<noteq> r" using that by (simp_all add: get_list_drop split: if_splits)
      then have "c \<notin> set subs" using ok subs unfolding hub_ok_def by blast
      then show ?thesis using cs(4) subscribed_open [OF ok c(1)] by metis
    qed
  qed (simp add: cs(2))
  then have "trace_ok (t\<lparr>ht_hub := ?h'\<rparr>)" by (intro trace_ok_hub [OF assms]) (simp_all add: cs(3) hub_updates)
  then show ?thesis using Some cs(1) by (simp add: UnsubscribeAll_def)
qed

lemma unsubscribe_ok:
  assumes "trace_ok t"
  shows "\<exists>t'. hubStep (OpUnsubscribe r ch) t = Some t' \<and> trace_ok t'"
proof (cases "map_of (eh_subscribers (ht_hub t)) r")
  case None
  then show ?thesis using assms by (simp add: Unsubscribe_def)
next
  case (Some subs)
  let ?h = "ht_hub t" and ?gone = "if ch \<in> set subs then [ch] else []"
  let ?m = "if remove1 ch subs = [] then AList.delete r (eh_subscribers ?h) else AList.update r (remove1 ch subs) (eh_subscribers ?h)"
  have ok: "hub_ok ?h" using trace_okD(1) [OF assms] .
  have subs: "get_list (eh_subscribers ?h) r = subs" using Some by (simp add: get_list_def)
  have dist: "distinct subs" using ok subs unfolding hub_ok_def by blast
  have "distinct ?gone" "\<And>c. c \<in> set ?gone \<Longrightarrow> c \<in> set subs" by (simp_all split: if_splits)
  then obtain cs where cs: "onChans closeChan ?gone ?h = Some (?h\<lparr>eh_chans := cs\<rparr>)" "map fst cs = map fst (eh_chans ?h)"
    "\<And>c. map_option ch_buf (map_of cs c) = map_option ch_buf (map_of (eh_chans ?h) c)" "\<And>c. c \<notin> set ?gone \<Longrightarrow> map_of cs c = map_of (eh_chans ?h) c"
    using closeChans [OF ok, of ?gone] subscribed_open [OF ok, of _ r] subs by metis
  have m: "get_list ?m r' = (if r' = r then remove1 ch subs else get_list (eh_subscribers ?h) r')" for r'
    by (simp add: get_list_drop get_list_put)
  have "hub_ok (?h\<lparr>eh_subscribers := ?m\<rparr>)"
  proof (rule hub_ok_fewer [OF ok])
    have "subseq (remove1 x xs) xs" for x :: nat and xs by (induction xs) auto
    then show "subseq (get_list ?m r') (get_list (eh_subscribers ?h) r')" for r' unfolding m using subs by simp
  qed
  then have "hub_ok (?h\<lparr>eh_subscribers := ?m, eh_chans := cs\<rparr>)"
  proof (rule hub_ok_chans)
    show "\<exists>ch. map_of cs c = Some ch \<and> \<not> ch_closed ch" if "c \<in> set (get_list (eh_subscribers (?h\<lparr>eh_subscribers := ?m\<rparr>)) r')" for r' c
    proof -
      have "c \<in> set (get_list ?m r')" using that by simp
      then have c: "c \<in> set (get_list (eh_subscribers ?h) r')" "r' = r \<longrightarrow> c \<noteq> ch"
        unfolding m using subs dist by (auto dest: in_set_remove1 split: if_splits)
      then have "c \<notin> set ?gone" using ok subs unfolding hub_ok_def by (metis empty_iff empty_set set_ConsD)
      then show ?thesis using cs(4) subscribed_open [OF ok c(1)] by metis
    qed
  qed (simp add: cs(2))
  then have "trace_ok (t\<lparr>ht_hub := ?h\<lparr>eh_chans := cs, eh_subscribers := ?m\<rparr>\<rparr>)" by (intro trace_ok_hub [OF assms]) (simp_all add: cs(3) hub_updates)
  moreover have "(if ch \<in> set subs then onChan closeChan ch ?h else Some ?h) = Some (?h\<lparr>eh_chans := cs\<rparr>)"
    using cs(1) by (auto split: if_splits option.splits)
  ultimately show ?thesis using Some by (simp add: Unsubscribe_def Let_def)
qed

lemma subscribe_ok:
  assumes "trace_ok t"
  shows "trace_ok (t\<lparr>ht_hub := fst (Subscribe (ht_hub t) r)\<rparr>)"
proof -
  let ?h = "ht_hub t" and ?n = "length (eh_chans (ht_hub t))"
  let ?cs = "eh_chans ?h @ [(?n, \<lparr>ch_buf = [], ch_closed = False\<rparr>)]"
  let ?m = "AList.update r (get_list (eh_subscribers ?h) r @ [?n]) (eh_subscribers ?h)"
  have ok: "hub_ok ?h" using trace_okD(1) [OF assms] .
  have keys: "map fst (eh_chans ?h) = [0..<?n]" using ok by (simp add: hub_ok_def)
  have none: "map_of (eh_chans ?h) ?n = None" unfolding map_of_eq_None_iff set_map [symmetric] keys by simp
  have of: "map_of ?cs c = (if c = ?n then Some \<lparr>ch_buf = [], ch_closed = False\<rparr> else map_of (eh_chans ?h) c)" for c
    using none by (auto simp: map_add_def split: option.split)
  have new: "?n \<notin> set (get_list (eh_subscribers ?h) r')" for r'
    using subscribed_open [OF ok] none by (metis option.distinct(1))
  have "hub_ok (?h\<lparr>eh_chans := ?cs, eh_subscribers := ?m\<rparr>)" unfolding hub_ok_def
  proof (intro conjI allI impI)
    show "map fst (eh_chans (?h\<lparr>eh_chans := ?cs, eh_subscribers := ?m\<rparr>)) = [0..<length (eh_chans (?h\<lparr>eh_chans := ?cs, eh_subscribers := ?m\<rparr>))]"
      using keys by simp
    show "distinct (get_list (eh_subscribers (?h\<lparr>eh_chans := ?cs, eh_subscribers := ?m\<rparr>)) r')" for r'
      using ok new by (simp add: get_list_put hub_ok_def)
    show "\<exists>ch. map_of (eh_chans (?h\<lparr>eh_chans := ?cs, eh_subscribers := ?m\<rparr>)) c = Some ch \<and> \<not> ch_closed ch"
      if "c \<in> set (get_list (eh_subscribers (?h\<lparr>eh_chans := ?cs, eh_subscribers := ?m\<rparr>)) r')" for r' c
    proof (cases "c = ?n")
      case False
      then have "c \<in> set (get_list (eh_subscribers ?h) r')" using that by (auto simp: get_list_put split: if_splits)
      then obtain ch where "map_of (eh_chans ?h) c = Some ch" "\<not> ch_closed ch" using subscribed_open [OF ok] by metis
      then show ?thesis using of [of c] False by (simp del: map_of_append)
    qed (use of [of c] in \<open>simp del: map_of_append\<close>)
    show "r1 = r2" if "c \<in> set (get_list (eh_subscribers (?h\<lparr>eh_chans := ?cs, eh_subscribers := ?m\<rparr>)) r1)"
      "c \<in> set (get_list (eh_subscribers (?h\<lparr>eh_chans := ?cs, eh_subscribers := ?m\<rparr>)) r2)" for r1 r2 c
      using that ok new unfolding hub_ok_def by (simp add: get_list_put split: if_splits) blast+
  qed
  moreover have "entry_ok (eh_bufferSize ?h) (map_of ?cs c) (ht_got t c) (ht_sent t c)" for c
    using trace_okD(2) [OF assms, of c] none unfolding of by (cases "c = ?n") (simp_all add: chan_ok_def)
  ultimately show ?thesis by (simp add: Subscribe_def Let_def trace_ok_def del: map_of_append)
qed

lemma receive_ok:
  assumes "trace_ok t"
  shows "\<exists>t'. hubStep (OpReceive ch) t = Some t' \<and> trace_ok t'"
proof (cases "receive (ht_hub t) ch")
  case (Pair h d)
  show ?thesis
  proof (cases d)
    case (Received e)
    then obtain c rest where c: "map_of (eh_chans (ht_hub t)) ch = Some c" "ch_buf c = e # rest"
      "h = (ht_hub t)\<lparr>eh_chans := AList.update ch (c\<lparr>ch_buf := rest\<rparr>) (eh_chans (ht_hub t))\<rparr>"
      using Pair by (auto simp: receive_def split: option.splits list.splits if_splits)
    let ?cs = "AList.update ch (c\<lparr>ch_buf := rest\<rparr>) (eh_chans (ht_hub t))"
    have ok: "hub_ok (ht_hub t)" using trace_okD(1) [OF assms] .
    have "ch \<in> set (map fst (eh_chans (ht_hub t)))" using c(1) by (metis domI dom_map_of_conv_image_fst list.set_map)
    then have "map fst ?cs = map fst (eh_chans (ht_hub t))" by (rule keys_update_old)
    then have "hub_ok h" unfolding c(3)
    proof (rule hub_ok_chans [OF ok])
      show "\<exists>x. map_of ?cs k = Some x \<and> \<not> ch_closed x" if "k \<in> set (get_list (eh_subscribers (ht_hub t)) r)" for r k
        using subscribed_open [OF ok that] c(1) by (metis chan.simps(2) chan.surjective chan.update_convs(1) fun_upd_apply map_of_update option.inject)
    qed
    moreover have "entry_ok (eh_bufferSize (ht_hub t)) (map_of ?cs k) (((ht_got t)(ch := ht_got t ch @ [e])) k) (ht_sent t k)" for k
      using trace_okD(2) [OF assms, of k] trace_okD(2) [OF assms, of ch] c(1,2) chan_ok_receive by simp
    ultimately have "trace_ok (t\<lparr>ht_hub := h, ht_got := (ht_got t)(ch := ht_got t ch @ [e])\<rparr>)" unfolding trace_ok_def by (simp add: c(3))
    then show ?thesis using Pair Received by simp
  qed (use Pair assms in \<open>auto simp: receive_def split: option.splits list.splits if_splits\<close>)
qed

lemma hubStep_ok: "trace_ok t \<Longrightarrow> \<exists>t'. hubStep op t = Some t' \<and> trace_ok t'"
  using publish_ok unsubscribe_ok unsubscribeAll_ok receive_ok subscribe_ok by (cases op) (simp, blast+)

lemma hubRun_ok: "trace_ok t \<Longrightarrow> \<exists>t'. hubRun ops t = Some t' \<and> trace_ok t'"
proof (induction ops arbitrary: t)
  case (Cons op ops)
  then show ?case using hubStep_ok [OF Cons.prems, of op] by auto
qed simp

lemma startHub_ok: "trace_ok (startHub n)"
  by (simp add: trace_ok_def startHub_def NewEventHub_def hub_ok_def get_list_def)

text \<open>The stream writes one message per event, in their order, up to and including the first terminal one, and then ends.\<close>

definition upToTerminal :: "RunEvent list \<Rightarrow> RunEvent list" where
  "upToTerminal es = takeWhile (\<lambda>e. \<not> terminal e) es @ take 1 (dropWhile (\<lambda>e. \<not> terminal e) es)"

lemma streamLoop_events:
  "streamLoop (\<lambda>e. Some (f e)) (map Event es) = (map (\<lambda>e. ''data: '' @ f e @ newline @ newline) (upToTerminal es), list_ex terminal es)"
  by (induction es) (auto simp: upToTerminal_def)

text \<open>The events the runner publishes for a completed run have no field that names a trigger, so none of them is forwarded.\<close>

lemma runner_completion_never_triggers:
  "re_Data evt = completedData out ms attempt m \<Longrightarrow> forwardTrigger evt = None"
proof -
  assume "re_Data evt = completedData out ms attempt m"
  moreover have "map_of (completedData out ms attempt m) ''trigger_agent'' = None"
    by (cases out) (simp_all add: completedData_def split: option.split any.split)
  ultimately have "anyStr (re_Data evt) ''trigger_agent'' = []" by (simp add: anyStr_def)
  then show ?thesis by (simp add: forwardTrigger_def Let_def)
qed

text \<open>
  C33. The event hub never panics and delivers in order: whatever sequence of subscriptions, publications, cancelled subscriptions and receives, no event is sent on
  a closed channel and none is closed twice; what a subscriber has received and still has in its channel is a subsequence of the events published for
  its run while it was subscribed, and all of them as long as there were no more than the buffer holds; and a stream that wrote the received events wrote one
  message for each, in this order, up to and including the first that ends the run.
\<close>

theorem hub_delivers_in_order:
  "\<exists>t. hubRun ops (startHub n) = Some t \<and>
    (\<forall>c ch. map_of (eh_chans (ht_hub t)) c = Some ch \<longrightarrow>
      subseq (ht_got t c @ ch_buf ch) (ht_sent t c) \<and>
      (length (ht_sent t c) \<le> eh_bufferSize (ht_hub t) \<longrightarrow> ht_got t c @ ch_buf ch = ht_sent t c) \<and>
      fst (streamLoop (\<lambda>e. Some (f e)) (map Event (ht_got t c))) = map (\<lambda>e. ''data: '' @ f e @ newline @ newline) (upToTerminal (ht_got t c)))"
proof -
  obtain t where t: "hubRun ops (startHub n) = Some t" "trace_ok t" using hubRun_ok [OF startHub_ok] by blast
  have "chan_ok (eh_bufferSize (ht_hub t)) ch (ht_got t c) (ht_sent t c)" if "map_of (eh_chans (ht_hub t)) c = Some ch" for c ch
    using trace_okD(2) [OF t(2), of c] that by simp
  then show ?thesis using t(1) by (simp add: chan_ok_def streamLoop_events)
qed

definition example_event :: "EventType \<Rightarrow> RunEvent" where
  "example_event ty = \<lparr>re_Type = ty, re_Agent = ''a'', re_Data = []\<rparr>"

theorem hub_delivers_in_order_witness:
  "\<exists>t. hubRun [OpSubscribe ''r'', OpPublish ''r'' (example_event EventInit), OpPublish ''r'' (example_event EventCompleted), OpReceive 0] (startHub 1) = Some t \<and>
    ht_got t 0 = [example_event EventInit] \<and> subseq (ht_got t 0) (ht_sent t 0)"
proof -
  let ?ops = "[OpSubscribe ''r'', OpPublish ''r'' (example_event EventInit), OpPublish ''r'' (example_event EventCompleted), OpReceive 0]"
  have got: "map_option (\<lambda>t. (ht_got t 0, map_of (eh_chans (ht_hub t)) 0)) (hubRun ?ops (startHub 1)) =
      Some ([example_event EventInit], Some \<lparr>ch_buf = [], ch_closed = False\<rparr>)" by code_simp
  obtain t where t: "hubRun ?ops (startHub 1) = Some t" and
    seq: "\<forall>c ch. map_of (eh_chans (ht_hub t)) c = Some ch \<longrightarrow> subseq (ht_got t c @ ch_buf ch) (ht_sent t c)"
    using hub_delivers_in_order [of ?ops 1 "\<lambda>e. []"] by blast
  have "ht_got t 0 = [example_event EventInit]" "map_of (eh_chans (ht_hub t)) 0 = Some \<lparr>ch_buf = [], ch_closed = False\<rparr>" using got t by simp_all
  then show ?thesis using t seq [rule_format, of 0] by simp
qed

end
