(* ===== verification/Knowledge.thy ===== *)
theory Knowledge
  imports Memory Context_Engine Agent_Runtime
begin

text \<open>
  The knowledge base and the providers of context, \<open>pkg/context/knowledge_store.go\<close> and \<open>*_provider.go\<close>: documents are cut into overlapping
  chunks, embedded and put into a semantic store, which is searched for the goal of a step. The semantic store is the interface
  \<open>SemanticStore\<close>, a locale interpreted by the in-memory store of \<open>Memory\<close>. Embeddings, the file system and formatting of
  numbers and values are arguments; strings are sequences of bytes and white space is that of ASCII. An index out of range is the error \<open>panic\<close>.
\<close>

section \<open>Strings\<close>

definition isSpace :: "char \<Rightarrow> bool" where
  "isSpace c \<longleftrightarrow> c \<in> {CHR 0x09, CHR 0x0A, CHR 0x0B, CHR 0x0C, CHR 0x0D, CHR '' ''}"

definition TrimSpace :: "string \<Rightarrow> string" where
  "TrimSpace s = rev (dropWhile isSpace (rev (dropWhile isSpace s)))"

definition blankLine :: string where
  "blankLine = [CHR 0x0A, CHR 0x0A]"

text \<open>\<open>strings.Split(text, "\\n\\n")\<close>.\<close>

fun splitParagraphs :: "string \<Rightarrow> string list" where
  "splitParagraphs [] = [[]]"
| "splitParagraphs [c] = [[c]]"
| "splitParagraphs (c # d # s) =
     (if c = CHR 0x0A \<and> d = CHR 0x0A then [] # splitParagraphs s
      else (case splitParagraphs (d # s) of [] \<Rightarrow> [[c]] | p # ps \<Rightarrow> (c # p) # ps))"

definition panic :: gerror where
  "panic = Errorf ''panic: runtime error: slice bounds out of range''"

section \<open>Documents and chunks\<close>

record DocumentChunk =
  dc_ID :: string
  dc_Content :: string
  dc_Embedding :: "real list"
  dc_Metadata :: "any smap"

record Document =
  dm_ID :: string
  dm_Source :: string
  dm_Content :: string
  dm_Metadata :: "any smap"
  dm_Chunks :: "DocumentChunk list"

record 's KnowledgeStore =
  ks_SemanticStore :: 's
  ks_Documents :: "Document smap"
  ks_ChunkSize :: int
  ks_ChunkOverlap :: int

definition NewKnowledgeStore :: "'s \<Rightarrow> 's KnowledgeStore" where
  "NewKnowledgeStore s = \<lparr>ks_SemanticStore = s, ks_Documents = [], ks_ChunkSize = 500, ks_ChunkOverlap = 50\<rparr>"

definition mkChunk :: "Document \<Rightarrow> string \<Rightarrow> nat \<Rightarrow> DocumentChunk" where
  "mkChunk doc content i = \<lparr>dc_ID = dm_ID doc @ ''-chunk-'' @ itoa (int i), dc_Content = content, dc_Embedding = [],
     dc_Metadata = [(''doc_id'', AStr (dm_ID doc)), (''source'', AStr (dm_Source doc)), (''chunk_idx'', AInt (int i)),
       (''file_path'', case map_of (dm_Metadata doc) ''file_path'' of None \<Rightarrow> ANil | Some v \<Rightarrow> v)]\<rparr>"

text \<open>The loop over the paragraphs: \<open>cur\<close> is the current chunk, \<open>i\<close> its number. A negative overlap slices past the end.\<close>

fun chunkLoop :: "Document \<Rightarrow> int \<Rightarrow> int \<Rightarrow> string list \<Rightarrow> string \<Rightarrow> nat \<Rightarrow> gerror + DocumentChunk list" where
  "chunkLoop doc chars overlap [] cur i = Inr (if TrimSpace cur \<noteq> [] then [mkChunk doc (TrimSpace cur) i] else [])"
| "chunkLoop doc chars overlap (p # ps) cur i =
     (let para = TrimSpace p
      in if para = [] then chunkLoop doc chars overlap ps cur i
         else if int (length cur) + int (length para) > chars \<and> cur \<noteq> []
         then (if int (length cur) > overlap \<and> overlap < 0 then Inl panic
               else (case chunkLoop doc chars overlap ps
                            ((if int (length cur) > overlap then drop (length cur - nat overlap) cur else []) @ para @ blankLine) (Suc i) of
                       Inl err \<Rightarrow> Inl err
                     | Inr cs \<Rightarrow> Inr (mkChunk doc (TrimSpace cur) i # cs)))
         else chunkLoop doc chars overlap ps (cur @ para @ blankLine) i)"

definition chunkDocument :: "'s KnowledgeStore \<Rightarrow> Document \<Rightarrow> gerror + DocumentChunk list" where
  "chunkDocument k doc =
     (let text = dm_Content doc
      in if int (length text) div 4 \<le> ks_ChunkSize k then Inr [mkChunk doc text 0]
         else chunkLoop doc (ks_ChunkSize k * 4) (ks_ChunkOverlap k * 4) (splitParagraphs text) [] 0)"

section \<open>Ingestion\<close>

text \<open>\<open>filepath.Ext\<close> and \<open>filepath.Base\<close> on a path that does not end in a separator.\<close>

definition Base :: "string \<Rightarrow> string" where
  "Base path = (if path = [] then ''.'' else rev (takeWhile (\<lambda>c. c \<noteq> CHR ''/'') (rev path)))"

definition Ext :: "string \<Rightarrow> string" where
  "Ext path =
     (let base = rev (takeWhile (\<lambda>c. c \<noteq> CHR ''/'') (rev path))
      in if CHR ''.'' \<in> set base then CHR ''.'' # rev (takeWhile (\<lambda>c. c \<noteq> CHR ''.'') (rev base)) else [])"

text \<open>What \<open>filepath.Walk\<close> passes on: a path with an error, a directory, or a file and what reading it gives.\<close>

datatype walked = WalkError gerror | Directory | File "gerror + string"

definition attach :: "real list list \<Rightarrow> DocumentChunk list \<Rightarrow> gerror + DocumentChunk list" where
  "attach embeddings chunks =
     (if length embeddings < length chunks then Inl panic else Inr (map (\<lambda>(c, e). c\<lparr>dc_Embedding := e\<rparr>) (zip chunks embeddings)))"

definition chunkMetadata :: "DocumentChunk \<Rightarrow> any smap" where
  "chunkMetadata c = AList.update ''chunk_id'' (AStr (dc_ID c)) (AList.update ''content'' (AStr (dc_Content c)) (dc_Metadata c))"

fun storeChunks :: "('s \<Rightarrow> string \<Rightarrow> string \<Rightarrow> real list \<Rightarrow> any smap \<Rightarrow> 's \<times> gerror option) \<Rightarrow> string \<Rightarrow> DocumentChunk list \<Rightarrow> 's \<Rightarrow> 's \<times> gerror option" where
  "storeChunks upsert source [] s = (s, None)"
| "storeChunks upsert source (c # cs) s =
     (case upsert s source (dc_ID c) (dc_Embedding c) (chunkMetadata c) of
        (s', Some err) \<Rightarrow> (s', Some (Wrap ''failed to store chunk in semantic store: '' err))
      | (s', None) \<Rightarrow> storeChunks upsert source cs s')"

definition ingestFile :: "('s \<Rightarrow> string \<Rightarrow> string \<Rightarrow> real list \<Rightarrow> any smap \<Rightarrow> 's \<times> gerror option) \<Rightarrow> (string list \<Rightarrow> gerror + real list list) \<Rightarrow>
    string \<Rightarrow> string \<times> walked \<Rightarrow> 's KnowledgeStore \<Rightarrow> 's KnowledgeStore \<times> gerror option" where
  "ingestFile upsert embedAll source entry k =
     (let path = fst entry
      in case snd entry of
           WalkError err \<Rightarrow> (k, Some err)
         | Directory \<Rightarrow> (k, None)
         | File content \<Rightarrow>
             if ToLower (Ext path) \<noteq> ''.md'' \<and> ToLower (Ext path) \<noteq> ''.txt'' then (k, None)
             else (case content of
                     Inl err \<Rightarrow> (k, Some (Wrap (''failed to read file '' @ path @ '': '') err))
                   | Inr text \<Rightarrow>
                       (let doc = \<lparr>dm_ID = Base path, dm_Source = source, dm_Content = text,
                              dm_Metadata = [(''file_path'', AStr path), (''file_name'', AStr (Base path))], dm_Chunks = []\<rparr>
                        in case chunkDocument k doc of
                             Inl err \<Rightarrow> (k, Some err)
                           | Inr [] \<Rightarrow> (k, None)
                           | Inr chunks \<Rightarrow>
                               (case embedAll (map dc_Content chunks) of
                                  Inl err \<Rightarrow> (k, Some (Wrap (''failed to generate embeddings for '' @ path @ '': '') err))
                                | Inr embeddings \<Rightarrow>
                                    (case attach embeddings chunks of
                                       Inl err \<Rightarrow> (k, Some err)
                                     | Inr cs \<Rightarrow>
                                         (case storeChunks upsert source cs (ks_SemanticStore k) of
                                            (s', err) \<Rightarrow> (k\<lparr>ks_Documents := AList.update (Base path) (doc\<lparr>dm_Chunks := cs\<rparr>) (ks_Documents k), ks_SemanticStore := s'\<rparr>, err)))))))"

fun ingestAll :: "('s \<Rightarrow> string \<Rightarrow> string \<Rightarrow> real list \<Rightarrow> any smap \<Rightarrow> 's \<times> gerror option) \<Rightarrow> (string list \<Rightarrow> gerror + real list list) \<Rightarrow>
    string \<Rightarrow> (string \<times> walked) list \<Rightarrow> 's KnowledgeStore \<Rightarrow> 's KnowledgeStore \<times> gerror option" where
  "ingestAll upsert embedAll source [] k = (k, None)"
| "ingestAll upsert embedAll source (e # es) k =
     (case ingestFile upsert embedAll source e k of (k', Some err) \<Rightarrow> (k', Some err) | (k', None) \<Rightarrow> ingestAll upsert embedAll source es k')"

definition IngestDirectory :: "('s \<Rightarrow> string \<Rightarrow> string \<Rightarrow> real list \<Rightarrow> any smap \<Rightarrow> 's \<times> gerror option) \<Rightarrow> (string list \<Rightarrow> gerror + real list list) \<Rightarrow>
    (string \<Rightarrow> (string \<times> walked) list) \<Rightarrow> 's KnowledgeStore \<Rightarrow> string \<Rightarrow> string \<Rightarrow> 's KnowledgeStore \<times> gerror option" where
  "IngestDirectory upsert embedAll walk k dir source = ingestAll upsert embedAll (if source = [] then dir else source) (walk dir) k"

section \<open>Search\<close>

definition metaStr :: "any smap \<Rightarrow> string \<Rightarrow> string option" where
  "metaStr m key = (case map_of m key of Some (AStr s) \<Rightarrow> Some s | _ \<Rightarrow> None)"

definition resultChunk :: "SearchResult \<Rightarrow> DocumentChunk" where
  "resultChunk r = \<lparr>dc_ID = (case metaStr (hit_Metadata r) ''chunk_id'' of Some i \<Rightarrow> i | None \<Rightarrow> []),
     dc_Content = (case metaStr (hit_Metadata r) ''content'' of Some c \<Rightarrow> c | None \<Rightarrow> []), dc_Embedding = [], dc_Metadata = hit_Metadata r\<rparr>"

definition ks_Search :: "('s \<Rightarrow> string \<Rightarrow> real list \<Rightarrow> int \<Rightarrow> gerror + SearchResult list) \<Rightarrow> (string list \<Rightarrow> gerror + real list list) \<Rightarrow>
    's KnowledgeStore \<Rightarrow> string \<Rightarrow> int \<Rightarrow> gerror + DocumentChunk list" where
  "ks_Search search embedAll k query topK =
     (case embedAll [query] of
        Inl err \<Rightarrow> Inl (Wrap ''failed to generate query embedding: '' err)
      | Inr [] \<Rightarrow> Inl (Errorf ''no embeddings generated for query'')
      | Inr (e # es) \<Rightarrow>
          (case search (ks_SemanticStore k) ''knowledge'' e topK of
             Inl err \<Rightarrow> Inl (Wrap ''failed to search semantic store: '' err)
           | Inr results \<Rightarrow> Inr (map resultChunk results)))"

definition ks_Clear :: "'s KnowledgeStore \<Rightarrow> 's KnowledgeStore" where
  "ks_Clear k = k\<lparr>ks_Documents := []\<rparr>"

definition ks_List :: "'s KnowledgeStore \<Rightarrow> string list" where
  "ks_List k = map fst (ks_Documents k)"

definition GetDocument :: "'s KnowledgeStore \<Rightarrow> string \<Rightarrow> Document option" where
  "GetDocument k i = map_of (ks_Documents k) i"

section \<open>The providers\<close>

text \<open>\<open>runtime.StepInput\<close> with the tools' names is the input of a provider; \<open>now\<close> is its clock.\<close>

record context_input =
  ci_Step :: StepInput
  ci_Tools :: "string list"

definition fragment :: "string \<Rightarrow> string \<Rightarrow> int \<Rightarrow> string \<Rightarrow> any smap \<Rightarrow> int \<Rightarrow> ContextFragment" where
  "fragment name ty priority content metadata now = \<lparr>cf_ProviderName = name, cf_Type = ty, cf_Content = content, cf_Priority = priority,
     cf_TokenCount = int (length content div 4), cf_Metadata = metadata, cf_Timestamp = now\<rparr>"

definition line :: string where
  "line = [CHR 0x0A]"

record 's KnowledgeProvider =
  kp_priority :: int
  kp_Sources :: "string list"
  kp_Enabled :: bool
  kp_KnowledgeStore :: "'s KnowledgeStore option"
  kp_TopK :: int

definition NewKnowledgeProvider :: "int \<Rightarrow> string list \<Rightarrow> 's KnowledgeProvider" where
  "NewKnowledgeProvider priority sources = \<lparr>kp_priority = priority, kp_Sources = sources, kp_Enabled = False, kp_KnowledgeStore = None, kp_TopK = 5\<rparr>"

definition orUnknown :: "string option \<Rightarrow> string" where
  "orUnknown s = (case s of None \<Rightarrow> ''unknown'' | Some v \<Rightarrow> v)"

definition formatKnowledgeChunks :: "DocumentChunk list \<Rightarrow> string" where
  "formatKnowledgeChunks chunks =
     (if chunks = [] then []
      else Join (''Relevant knowledge:'' # map (\<lambda>(i, c). line @ itoa (int i + 1) @ ''. [Source: '' @ orUnknown (metaStr (dc_Metadata c) ''source'') @ '', File: '' @
             orUnknown (metaStr (dc_Metadata c) ''file_path'') @ '']'' @ line @ dc_Content c) (zip [0..<length chunks] chunks)) line)"

definition extractSources :: "DocumentChunk list \<Rightarrow> string list" where
  "extractSources chunks = remdups (List.map_filter (\<lambda>c. metaStr (dc_Metadata c) ''source'') chunks)"

definition kp_Fetch :: "('s \<Rightarrow> string \<Rightarrow> real list \<Rightarrow> int \<Rightarrow> gerror + SearchResult list) \<Rightarrow> (string list \<Rightarrow> gerror + real list list) \<Rightarrow> int \<Rightarrow>
    's KnowledgeProvider \<Rightarrow> context_input \<Rightarrow> gerror + ContextFragment option" where
  "kp_Fetch search embedAll now p input =
     (case kp_KnowledgeStore p of
        None \<Rightarrow> Inr None
      | Some k \<Rightarrow>
          if \<not> kp_Enabled p \<or> si_Goal (ci_Step input) = [] then Inr None
          else (case ks_Search search embedAll k (si_Goal (ci_Step input)) (kp_TopK p) of
                  Inl err \<Rightarrow> Inl err
                | Inr [] \<Rightarrow> Inr None
                | Inr chunks \<Rightarrow> Inr (Some (fragment ''knowledge'' ''knowledge'' (kp_priority p) (formatKnowledgeChunks chunks)
                    [(''sources'', AList (map AStr (extractSources chunks))), (''chunks'', AInt (int (length chunks)))] now))))"

text \<open>The manager, of which the providers read the working memory and the semantic store.\<close>

record 's manager_view =
  mv_working :: WorkingMemory
  mv_semantic :: "'s option"

record 's MemoryProvider =
  mp_Manager :: "'s manager_view option"
  mp_priority :: int
  mp_TopK :: int
  mp_SimilarityThreshold :: real
  mp_IncludeWorking :: bool
  mp_IncludePersistent :: bool
  mp_embeds :: bool

definition NewMemoryProvider :: "'s manager_view option \<Rightarrow> int \<Rightarrow> 's MemoryProvider" where
  "NewMemoryProvider manager priority = \<lparr>mp_Manager = manager, mp_priority = priority, mp_TopK = 5, mp_SimilarityThreshold = 7 / 10,
     mp_IncludeWorking = True, mp_IncludePersistent = True, mp_embeds = False\<rparr>"

text \<open>\<open>fmtV\<close> formats a value with \<open>%v\<close>, \<open>fmtF\<close> a number with \<open>%.2f\<close>.\<close>

definition formatWorkingMemory :: "(any \<Rightarrow> string) \<Rightarrow> any smap \<Rightarrow> string" where
  "formatWorkingMemory fmtV data = Join (map (\<lambda>(k, v). ''  '' @ k @ '': '' @ fmtV v) data) line"

definition formatSemanticResults :: "(real \<Rightarrow> string) \<Rightarrow> SearchResult list \<Rightarrow> real \<Rightarrow> string" where
  "formatSemanticResults fmtF results threshold =
     (let filtered = filter (\<lambda>r. hit_Score r \<ge> threshold) results
      in Join (map (\<lambda>(i, r). ''  '' @ itoa (int i + 1) @ ''. [Score: '' @ fmtF (hit_Score r) @ '']'' @
             (case metaStr (hit_Metadata r) ''text'' of None \<Rightarrow> [] | Some t \<Rightarrow> '' '' @ t)) (zip [0..<length filtered] filtered)) line)"

definition semanticPart :: "('s \<Rightarrow> string \<Rightarrow> real list \<Rightarrow> int \<Rightarrow> gerror + SearchResult list) \<Rightarrow> (string list \<Rightarrow> gerror + real list list) \<Rightarrow> (real \<Rightarrow> string) \<Rightarrow>
    's MemoryProvider \<Rightarrow> 's manager_view \<Rightarrow> context_input \<Rightarrow> string list" where
  "semanticPart search embedAll fmtF p m input =
     (case mv_semantic m of
        None \<Rightarrow> []
      | Some s \<Rightarrow>
          if si_Goal (ci_Step input) = [] \<or> \<not> mp_embeds p then []
          else (case embedAll [si_Goal (ci_Step input)] of
                  Inl err \<Rightarrow> []
                | Inr [] \<Rightarrow> []
                | Inr (e # es) \<Rightarrow>
                    (case search s (si_AgentName (ci_Step input)) e (mp_TopK p) of
                       Inl err \<Rightarrow> []
                     | Inr results \<Rightarrow> (let str = formatSemanticResults fmtF results (mp_SimilarityThreshold p)
                                       in if str = [] then [] else [''Similar past interactions:'' @ line @ str]))))"

definition mp_Fetch :: "('s \<Rightarrow> string \<Rightarrow> real list \<Rightarrow> int \<Rightarrow> gerror + SearchResult list) \<Rightarrow> (string list \<Rightarrow> gerror + real list list) \<Rightarrow>
    (any \<Rightarrow> string) \<Rightarrow> (real \<Rightarrow> string) \<Rightarrow> int \<Rightarrow> 's MemoryProvider \<Rightarrow> context_input \<Rightarrow> gerror + ContextFragment option" where
  "mp_Fetch search embedAll fmtV fmtF now p input =
     (case mp_Manager p of
        None \<Rightarrow> Inr None
      | Some m \<Rightarrow>
          (let working = formatWorkingMemory fmtV (wm_All (mv_working m));
               parts = (if mp_IncludeWorking p \<and> working \<noteq> [] then [''Current session context:'' @ line @ working] else []) @
                       semanticPart search embedAll fmtF p m input
           in if parts = [] then Inr None
              else Inr (Some (fragment ''memory'' ''memory'' (mp_priority p) (Join parts blankLine) [(''source'', AStr ''memory'')] now))))"

definition formatGenericPolicies :: "string list \<Rightarrow> string" where
  "formatGenericPolicies tools =
     Join ([''- You must follow all policy rules and constraints'', ''- High-risk operations may require approval before execution'',
            ''- All actions are logged and audited for compliance''] @
           (if tools \<noteq> [] then [''- Available tools: '' @ Join tools '', ''] else [])) line"

definition policy_Fetch :: "bool \<Rightarrow> int \<Rightarrow> int \<Rightarrow> context_input \<Rightarrow> gerror + ContextFragment option" where
  "policy_Fetch hasEngine priority now input =
     Inr (Some (fragment ''policy'' ''policy'' priority (Join [''Policy constraints:'', formatGenericPolicies (ci_Tools input)] line)
       [(''source'', AStr (if hasEngine then ''policy_engine'' else ''generic''))] now))"

text \<open>Text cut to a number of bytes, with an ellipsis.\<close>

definition cut :: "nat \<Rightarrow> string \<Rightarrow> string" where
  "cut n s = (if length s > n then take n s @ ''...'' else s)"

definition formatStep :: "(any smap \<Rightarrow> string) \<Rightarrow> nat \<Rightarrow> StepRecord \<Rightarrow> string list" where
  "formatStep toJSON i r =
     (case sr_Action r of
        None \<Rightarrow> []
      | Some a \<Rightarrow>
          [''Step '' @ itoa (int i + 1) @ '': Called '' @ tc_Tool a @ ''@'' @ tc_Version a @ (if tc_Input a \<noteq> [] then '' with input: '' @ toJSON (tc_Input a) else [])] @
          (case sr_Result r of
             None \<Rightarrow> []
           | Some res \<Rightarrow> if tr_Error res \<noteq> [] then [''  Error: '' @ tr_Error res]
               else if tr_Output res \<noteq> [] then [''  Result: '' @ cut 200 (toJSON (tr_Output res))] else []) @
          (if sr_Reasoning r \<noteq> [] then [''  Reasoning: '' @ cut 150 (sr_Reasoning r)] else []))"

definition formatToolOutputs :: "(any smap \<Rightarrow> string) \<Rightarrow> StepRecord list \<Rightarrow> string" where
  "formatToolOutputs toJSON history =
     (if history = [] then []
      else Join (''Execution history:'' # concat (map (\<lambda>(i, r). formatStep toJSON i r) (zip [0..<length history] history))) line)"

definition NewToolOutputProvider :: "int \<Rightarrow> int" where
  "NewToolOutputProvider window = (if window = 0 then 10 else window)"

definition tool_Fetch :: "(any smap \<Rightarrow> string) \<Rightarrow> int \<Rightarrow> int \<Rightarrow> int \<Rightarrow> context_input \<Rightarrow> gerror + ContextFragment option" where
  "tool_Fetch toJSON window priority now input =
     (let history = si_History (ci_Step input);
          start = max 0 (int (length history) - window)
      in if history = [] then Inr None
         else if start > int (length history) then Inl panic
         else (let recent = drop (nat start) history; content = formatToolOutputs toJSON recent
               in if content = [] then Inr None
                  else Inr (Some (fragment ''tool_outputs'' ''tool_output'' priority content
                         [(''window'', AInt window), (''history_size'', AInt (int (length recent)))] now))))"

definition formatRecentSteps :: "StepRecord list \<Rightarrow> nat \<Rightarrow> string" where
  "formatRecentSteps history limit = Join (map (\<lambda>i. ''  '' @ itoa (int i + 1) @ ''. Step completed'') [length history - limit..<length history]) line"

definition workflow_Fetch :: "int \<Rightarrow> int \<Rightarrow> context_input \<Rightarrow> gerror + ContextFragment option" where
  "workflow_Fetch priority now input =
     (let si = ci_Step input; recent = formatRecentSteps (si_History si) 3;
          parts = (if si_StepNum si > 0 then [''Current execution step: '' @ itoa (si_StepNum si) @ ''/'' @ itoa (si_StepNum si + 10)] else []) @
                  (if si_History si \<noteq> [] then [''Previous steps completed: '' @ itoa (int (length (si_History si)))] @
                     (if recent \<noteq> [] then [''Recent steps:'' @ line @ recent] else []) else []) @
                  (if si_AgentName si \<noteq> [] then [''Agent: '' @ si_AgentName si] else [])
      in if parts = [] then Inr None
         else Inr (Some (fragment ''workflow_state'' ''workflow_state'' priority (''Workflow state:'' @ line @ Join parts line)
                [(''step_num'', AInt (si_StepNum si)), (''agent_name'', AStr (si_AgentName si)), (''history_size'', AInt (int (length (si_History si))))] now)))"

section \<open>The factory\<close>

record EmbeddingsConfig =
  ec_Provider :: string
  ec_Model :: string
  ec_APIKeyEnv :: string

record ContextProviderConfig =
  pc_Type :: string
  pc_Priority :: int
  pc_Enabled :: bool
  pc_Config :: "any smap"

record ContextAssemblyConfig =
  ca_Enabled :: bool
  ca_MaxContextTokens :: int
  ca_Parallel :: bool
  ca_Embeddings :: EmbeddingsConfig
  ca_Providers :: "ContextProviderConfig list"

datatype embedder = OpenAI string string | Local string

definition embeddingProvider :: "(string \<Rightarrow> string) \<Rightarrow> EmbeddingsConfig \<Rightarrow> gerror + embedder option" where
  "embeddingProvider getenv c =
     (if ec_Provider c = ''disabled'' \<or> ec_Provider c = [] then Inr None
      else if ec_Provider c = ''openai'' then
        (if getenv (ec_APIKeyEnv c) = [] then Inl (Errorf (''OpenAI API key not found in environment variable '' @ ec_APIKeyEnv c))
         else Inr (Some (OpenAI (getenv (ec_APIKeyEnv c)) (ec_Model c))))
      else if ec_Provider c = ''local'' then Inr (Some (Local (ec_Model c)))
      else Inl (Errorf (''unknown embedding provider: '' @ ec_Provider c)))"

text \<open>Type assertions on a value of a provider's configuration, with the value kept when they fail.\<close>

definition cfgInt :: "any smap \<Rightarrow> string \<Rightarrow> int \<Rightarrow> int" where
  "cfgInt m key d = (case map_of m key of Some (AInt n) \<Rightarrow> n | _ \<Rightarrow> d)"

definition cfgFloat :: "any smap \<Rightarrow> string \<Rightarrow> real \<Rightarrow> real" where
  "cfgFloat m key d = (case map_of m key of Some (AFloat q) \<Rightarrow> of_rat q | _ \<Rightarrow> d)"

definition cfgBool :: "any smap \<Rightarrow> string \<Rightarrow> bool \<Rightarrow> bool" where
  "cfgBool m key d = (case map_of m key of Some (ABool b) \<Rightarrow> b | _ \<Rightarrow> d)"

definition cfgSources :: "any smap \<Rightarrow> string list" where
  "cfgSources m =
     (case map_of m ''sources'' of Some (AList vs) \<Rightarrow> concat (map (\<lambda>v. case v of AStr s \<Rightarrow> [s] | _ \<Rightarrow> []) vs) | _ \<Rightarrow> [])"

datatype 's context_provider =
    PMemory "'s MemoryProvider"
  | PPolicy int
  | PWorkflow int
  | PToolOutput int int
  | PKnowledge "'s KnowledgeProvider"

definition memoryFromConfig :: "'s manager_view option \<Rightarrow> embedder option \<Rightarrow> ContextProviderConfig \<Rightarrow> 's MemoryProvider" where
  "memoryFromConfig mgr emb c =
     (let m = pc_Config c; p = NewMemoryProvider mgr (pc_Priority c)
      in p\<lparr>mp_TopK := cfgInt m ''top_k'' (mp_TopK p), mp_SimilarityThreshold := cfgFloat m ''similarity_threshold'' (mp_SimilarityThreshold p),
           mp_IncludeWorking := cfgBool m ''include_working'' (mp_IncludeWorking p),
           mp_IncludePersistent := cfgBool m ''include_persistent'' (mp_IncludePersistent p),
           mp_embeds := (cfgBool m ''use_embeddings'' False \<and> emb \<noteq> None)\<rparr>)"

text \<open>The sources that exist are ingested one after the other; what fails is reported and passed over, a panic apart.\<close>

fun ingestSources :: "('s \<Rightarrow> string \<Rightarrow> string \<Rightarrow> real list \<Rightarrow> any smap \<Rightarrow> 's \<times> gerror option) \<Rightarrow> (string list \<Rightarrow> gerror + real list list) \<Rightarrow>
    (string \<Rightarrow> (string \<times> walked) list) \<Rightarrow> (string \<Rightarrow> bool) \<Rightarrow> string list \<Rightarrow> 's KnowledgeStore \<Rightarrow> gerror + 's KnowledgeStore" where
  "ingestSources upsert embedAll walk stat [] k = Inr k"
| "ingestSources upsert embedAll walk stat (d # ds) k =
     (if \<not> stat d then ingestSources upsert embedAll walk stat ds k
      else (case IngestDirectory upsert embedAll walk k d d of
              (k', err) \<Rightarrow> if err = Some panic then Inl panic else ingestSources upsert embedAll walk stat ds k'))"

definition knowledgeFromConfig :: "('s \<Rightarrow> string \<Rightarrow> string \<Rightarrow> real list \<Rightarrow> any smap \<Rightarrow> 's \<times> gerror option) \<Rightarrow> (string list \<Rightarrow> gerror + real list list) \<Rightarrow>
    (string \<Rightarrow> (string \<times> walked) list) \<Rightarrow> (string \<Rightarrow> bool) \<Rightarrow> 's \<Rightarrow> ContextProviderConfig \<Rightarrow> gerror + 's KnowledgeProvider" where
  "knowledgeFromConfig upsert embedAll walk stat s c =
     (let m = pc_Config c; k = NewKnowledgeStore s;
          k1 = k\<lparr>ks_ChunkSize := cfgInt m ''chunk_size'' (ks_ChunkSize k), ks_ChunkOverlap := cfgInt m ''chunk_overlap'' (ks_ChunkOverlap k)\<rparr>;
          p = NewKnowledgeProvider (pc_Priority c) (cfgSources m)
      in case ingestSources upsert embedAll walk stat (cfgSources m) k1 of
           Inl err \<Rightarrow> Inl err
         | Inr k2 \<Rightarrow> Inr (p\<lparr>kp_KnowledgeStore := Some k2, kp_Enabled := True, kp_TopK := cfgInt m ''top_k'' (kp_TopK p)\<rparr>))"

text \<open>
  One turn of the loop over the configured providers: the provider made, if any, or an error. The knowledge branch calls a method of the
  manager without asking whether there is one.
\<close>

definition makeProvider :: "('s \<Rightarrow> string \<Rightarrow> string \<Rightarrow> real list \<Rightarrow> any smap \<Rightarrow> 's \<times> gerror option) \<Rightarrow> (string list \<Rightarrow> gerror + real list list) \<Rightarrow>
    (string \<Rightarrow> (string \<times> walked) list) \<Rightarrow> (string \<Rightarrow> bool) \<Rightarrow> bool \<Rightarrow> embedder option \<Rightarrow> 's manager_view option \<Rightarrow> ContextProviderConfig \<Rightarrow>
    gerror + 's context_provider option" where
  "makeProvider upsert embedAll walk stat hasEngine emb mgr c =
     (if \<not> pc_Enabled c then Inr None
      else if pc_Type c = ''memory'' \<or> pc_Type c = ''semantic_memory'' then
        (if mgr = None then Inr None else Inr (Some (PMemory (memoryFromConfig mgr emb c))))
      else if pc_Type c = ''policy'' then (if \<not> hasEngine then Inr None else Inr (Some (PPolicy (pc_Priority c))))
      else if pc_Type c = ''workflow'' then Inr (Some (PWorkflow (pc_Priority c)))
      else if pc_Type c = ''tool_output'' then
        Inr (Some (PToolOutput (pc_Priority c) (NewToolOutputProvider (cfgInt (pc_Config c) ''max_results'' 5))))
      else if pc_Type c = ''knowledge'' then
        (if emb = None then Inr None
         else (case mgr of
                 None \<Rightarrow> Inl (Errorf ''panic: nil pointer dereference'')
               | Some v \<Rightarrow>
                   (case mv_semantic v of
                      None \<Rightarrow> Inr None
                    | Some s \<Rightarrow> (case knowledgeFromConfig upsert embedAll walk stat s c of Inl err \<Rightarrow> Inl err | Inr kp \<Rightarrow> Inr (Some (PKnowledge kp))))))
      else Inl (Errorf (''unknown provider type: '' @ pc_Type c)))"

text \<open>Every provider refers to the one semantic store of the manager: what an ingestion puts into it all of them see.\<close>

definition storeOf :: "'s context_provider option \<Rightarrow> 's option" where
  "storeOf p = (case p of Some (PKnowledge kp) \<Rightarrow> map_option ks_SemanticStore (kp_KnowledgeStore kp) | _ \<Rightarrow> None)"

definition withStore :: "'s option \<Rightarrow> 's manager_view option \<Rightarrow> 's manager_view option" where
  "withStore s mgr = (case s of None \<Rightarrow> mgr | Some t \<Rightarrow> map_option (\<lambda>v. v\<lparr>mv_semantic := Some t\<rparr>) mgr)"

fun makeProviders :: "('s manager_view option \<Rightarrow> ContextProviderConfig \<Rightarrow> gerror + 's context_provider option) \<Rightarrow> 's manager_view option \<Rightarrow>
    ContextProviderConfig list \<Rightarrow> gerror + ('s manager_view option \<times> 's context_provider list)" where
  "makeProviders mk mgr [] = Inr (mgr, [])"
| "makeProviders mk mgr (c # cs) =
     (case mk mgr c of
        Inl err \<Rightarrow> Inl err
      | Inr p \<Rightarrow>
          (case makeProviders mk (withStore (storeOf p) mgr) cs of
             Inl err \<Rightarrow> Inl err
           | Inr (mgr', ps) \<Rightarrow> Inr (mgr', (case p of None \<Rightarrow> ps | Some q \<Rightarrow> q # ps))))"

definition share :: "'s manager_view option \<Rightarrow> 's context_provider \<Rightarrow> 's context_provider" where
  "share mgr p =
     (case p of
        PMemory mp \<Rightarrow> PMemory (mp\<lparr>mp_Manager := mgr\<rparr>)
      | PKnowledge kp \<Rightarrow>
          (case mgr of
             Some v \<Rightarrow> (case mv_semantic v of
                          Some s \<Rightarrow> PKnowledge (kp\<lparr>kp_KnowledgeStore := map_option (\<lambda>k. k\<lparr>ks_SemanticStore := s\<rparr>) (kp_KnowledgeStore kp)\<rparr>)
                        | None \<Rightarrow> p)
           | None \<Rightarrow> p)
      | _ \<Rightarrow> p)"

definition NewContextEngineFromConfig :: "('s \<Rightarrow> string \<Rightarrow> string \<Rightarrow> real list \<Rightarrow> any smap \<Rightarrow> 's \<times> gerror option) \<Rightarrow> (embedder \<Rightarrow> string list \<Rightarrow> gerror + real list list) \<Rightarrow>
    (string \<Rightarrow> (string \<times> walked) list) \<Rightarrow> (string \<Rightarrow> bool) \<Rightarrow> (string \<Rightarrow> string) \<Rightarrow> ContextAssemblyConfig \<Rightarrow> 's manager_view option \<Rightarrow> bool \<Rightarrow>
    gerror + (Context_Engine.EngineConfig \<times> 's context_provider list)" where
  "NewContextEngineFromConfig upsert embedder walk stat getenv cfg mgr hasEngine =
     (if \<not> ca_Enabled cfg then Inl (Errorf ''context assembly is disabled in configuration'')
      else (case embeddingProvider getenv (ca_Embeddings cfg) of
              Inl err \<Rightarrow> Inl err
            | Inr emb \<Rightarrow>
                (case makeProviders (makeProvider upsert (\<lambda>ts. case emb of None \<Rightarrow> Inr [] | Some e \<Rightarrow> embedder e ts) walk stat hasEngine emb) mgr (ca_Providers cfg) of
                   Inl err \<Rightarrow> Inl err
                 | Inr (mgr', ps) \<Rightarrow>
                     Inr (NewContextEngine \<lparr>gc_MaxTokens = ca_MaxContextTokens cfg, gc_EnableCache = False, gc_CacheDuration = 0, gc_Parallel = ca_Parallel cfg\<rparr>,
                          map (share mgr') ps))))"

text \<open>The call of \<open>Fetch\<close> on a provider of the engine.\<close>

definition provider_Fetch :: "('s \<Rightarrow> string \<Rightarrow> real list \<Rightarrow> int \<Rightarrow> gerror + SearchResult list) \<Rightarrow> (string list \<Rightarrow> gerror + real list list) \<Rightarrow>
    (any \<Rightarrow> string) \<Rightarrow> (real \<Rightarrow> string) \<Rightarrow> (any smap \<Rightarrow> string) \<Rightarrow> int \<Rightarrow> 's context_provider \<Rightarrow> context_input provider" where
  "provider_Fetch search embedAll fmtV fmtF toJSON now p input =
     (case p of
        PMemory mp \<Rightarrow> mp_Fetch search embedAll fmtV fmtF now mp input
      | PPolicy pr \<Rightarrow> policy_Fetch True pr now input
      | PWorkflow pr \<Rightarrow> workflow_Fetch pr now input
      | PToolOutput pr window \<Rightarrow> tool_Fetch toJSON window pr now input
      | PKnowledge kp \<Rightarrow> kp_Fetch search embedAll now kp input)"

section \<open>Chunks\<close>

lemma sublist_dropWhile:
  assumes "sublist q s" "q \<noteq> []" "\<not> P (hd q)"
  shows "sublist q (dropWhile P s)"
proof -
  obtain a b where s: "s = a @ q @ b" using assms(1) by (auto simp: sublist_def)
  show ?thesis
  proof (cases "\<forall>x \<in> set a. P x")
    case True
    with assms(2,3) have "dropWhile P s = q @ b" by (cases q) (simp_all add: s)
    then show ?thesis by (simp add: sublist_appendI)
  next
    case False
    then have "dropWhile P s = dropWhile P a @ q @ b" using dropWhile_append1 [of _ a P] by (metis s)
    then show ?thesis by (auto simp: sublist_def)
  qed
qed

lemma sublist_TrimSpace:
  assumes "sublist q s" "q \<noteq> []" "\<not> isSpace (hd q)" "\<not> isSpace (last q)"
  shows "sublist q (TrimSpace s)"
proof -
  have "sublist (rev q) (rev (dropWhile isSpace s))" using sublist_dropWhile [of q s isSpace] assms by simp
  then have "sublist (rev q) (dropWhile isSpace (rev (dropWhile isSpace s)))"
    by (rule sublist_dropWhile) (use assms in \<open>simp_all add: hd_rev\<close>)
  then show ?thesis unfolding TrimSpace_def sublist_rev_left .
qed

lemma TrimSpace_ends:
  assumes "TrimSpace s \<noteq> []"
  shows "\<not> isSpace (hd (TrimSpace s)) \<and> \<not> isSpace (last (TrimSpace s))"
proof -
  define t where "t = dropWhile isSpace s"
  have t: "TrimSpace s = rev (dropWhile isSpace (rev t))" by (simp add: TrimSpace_def t_def)
  with assms have ne: "dropWhile isSpace (rev t) \<noteq> []" by simp
  have l: "\<not> isSpace (last (TrimSpace s))" using hd_dropWhile [OF ne] by (simp add: t last_rev)
  obtain u where u: "t = TrimSpace s @ u" unfolding t by (metis rev_append rev_rev_ident takeWhile_dropWhile_id)
  have "t \<noteq> []" using u assms by simp
  then have "\<not> isSpace (hd t)" unfolding t_def by (rule hd_dropWhile)
  with u assms l show ?thesis by simp
qed

lemma length_TrimSpace: "length (TrimSpace s) \<le> length s"
  unfolding TrimSpace_def using length_dropWhile_le le_trans by (metis length_rev)

lemma mkChunk_simps [simp]: "dc_ID (mkChunk d c i) = dm_ID d @ ''-chunk-'' @ itoa (int i)" "dc_Content (mkChunk d c i) = c"
  by (simp_all add: mkChunk_def)

text \<open>A text without white space at its ends.\<close>

definition trimmed :: "string \<Rightarrow> bool" where
  "trimmed q \<longleftrightarrow> q \<noteq> [] \<and> \<not> isSpace (hd q) \<and> \<not> isSpace (last q)"

lemma trimmed_TrimSpace: "TrimSpace p \<noteq> [] \<Longrightarrow> trimmed (TrimSpace p)"
  by (simp add: trimmed_def TrimSpace_ends)

lemma sublist_trimmed: "sublist q s \<Longrightarrow> trimmed q \<Longrightarrow> sublist q (TrimSpace s)"
  by (simp add: trimmed_def sublist_TrimSpace)

text \<open>The three cases of the loop: a blank paragraph, a paragraph that closes the chunk, and one that is added to it.\<close>

definition kept :: "int \<Rightarrow> string \<Rightarrow> string" where
  "kept overlap cur = (if int (length cur) > overlap then drop (length cur - nat overlap) cur else [])"

lemma chunkLoop_blank: "TrimSpace p = [] \<Longrightarrow> chunkLoop doc chars overlap (p # ps) cur i = chunkLoop doc chars overlap ps cur i"
  by simp

lemma chunkLoop_full:
  assumes "TrimSpace p \<noteq> []" "int (length cur) + int (length (TrimSpace p)) > chars" "cur \<noteq> []" "0 \<le> overlap"
  shows "chunkLoop doc chars overlap (p # ps) cur i =
    (case chunkLoop doc chars overlap ps (kept overlap cur @ TrimSpace p @ blankLine) (Suc i) of
       Inl err \<Rightarrow> Inl err | Inr cs \<Rightarrow> Inr (mkChunk doc (TrimSpace cur) i # cs))"
  using assms by (simp add: Let_def kept_def)

lemma chunkLoop_more:
  assumes "TrimSpace p \<noteq> []" "\<not> (int (length cur) + int (length (TrimSpace p)) > chars \<and> cur \<noteq> [])"
  shows "chunkLoop doc chars overlap (p # ps) cur i = chunkLoop doc chars overlap ps (cur @ TrimSpace p @ blankLine) i"
  using assms by (auto simp: Let_def)

lemma chunkLoop_cases [case_names blank full more]:
  obtains "TrimSpace p = []"
    | "TrimSpace p \<noteq> []" "int (length cur) + int (length (TrimSpace p)) > chars" "cur \<noteq> []"
    | "TrimSpace p \<noteq> []" "\<not> (int (length cur) + int (length (TrimSpace p)) > chars \<and> cur \<noteq> [])"
  by blast

lemma chunkLoop_total:
  assumes "0 \<le> overlap"
  shows "\<exists>cs. chunkLoop doc chars overlap ps cur i = Inr cs \<and>
    map dc_ID cs = map (\<lambda>j. dm_ID doc @ ''-chunk-'' @ itoa (int j)) [i..<i + length cs]"
proof (induction ps arbitrary: cur i)
  case (Cons p ps)
  show ?case
  proof (cases rule: chunkLoop_cases [where p = p and cur = cur and chars = chars])
    case blank
    show ?thesis unfolding chunkLoop_blank [OF blank] by (rule Cons.IH)
  next
    case full
    obtain cs where cs: "chunkLoop doc chars overlap ps (kept overlap cur @ TrimSpace p @ blankLine) (Suc i) = Inr cs"
      "map dc_ID cs = map (\<lambda>j. dm_ID doc @ ''-chunk-'' @ itoa (int j)) [Suc i..<Suc i + length cs]" using Cons.IH by blast
    then show ?thesis by (simp add: chunkLoop_full [OF full assms] upt_rec [of i] del: chunkLoop.simps)
  next
    case more
    show ?thesis unfolding chunkLoop_more [OF more] by (rule Cons.IH)
  qed
qed simp

lemma chunkLoop_covers:
  assumes "chunkLoop doc chars overlap ps cur i = Inr cs" "0 \<le> overlap" "trimmed q" "sublist q cur \<or> q \<in> TrimSpace ` set ps"
  shows "\<exists>c \<in> set cs. sublist q (dc_Content c)"
  using assms
proof (induction ps arbitrary: cur i cs)
  case Nil
  then have "sublist q (TrimSpace cur)" by (simp add: sublist_trimmed)
  with Nil show ?case by (auto simp: trimmed_def)
next
  case (Cons p ps)
  have para: "sublist q (r @ TrimSpace p @ blankLine)" if "q = TrimSpace p" for r using that by (auto simp: sublist_def)
  show ?case
  proof (cases rule: chunkLoop_cases [where p = p and cur = cur and chars = chars])
    case blank
    with Cons.prems have "chunkLoop doc chars overlap ps cur i = Inr cs" "sublist q cur \<or> q \<in> TrimSpace ` set ps" by (auto simp: trimmed_def)
    with Cons.IH Cons.prems(2,3) show ?thesis by blast
  next
    case full
    obtain ds where ds: "chunkLoop doc chars overlap ps (kept overlap cur @ TrimSpace p @ blankLine) (Suc i) = Inr ds"
      "cs = mkChunk doc (TrimSpace cur) i # ds"
      using Cons.prems(1) unfolding chunkLoop_full [OF full Cons.prems(2)] by (auto split: sum.splits)
    have "sublist q cur \<Longrightarrow> ?thesis" using ds(2) sublist_trimmed [OF _ Cons.prems(3)] by simp
    moreover have "\<not> sublist q cur \<Longrightarrow> sublist q (kept overlap cur @ TrimSpace p @ blankLine) \<or> q \<in> TrimSpace ` set ps"
      using Cons.prems(4) para by auto
    ultimately show ?thesis using Cons.IH [OF ds(1) Cons.prems(2,3)] ds(2) by (meson list.set_intros(2))
  next
    case more
    have c: "chunkLoop doc chars overlap ps (cur @ TrimSpace p @ blankLine) i = Inr cs"
      using Cons.prems(1) unfolding chunkLoop_more [OF more] .
    have "sublist q cur \<Longrightarrow> sublist q (cur @ TrimSpace p @ blankLine)" using sublist_append_rightI sublist_order.order_trans by blast
    with Cons.prems(4) para [of cur] have "sublist q (cur @ TrimSpace p @ blankLine) \<or> q \<in> TrimSpace ` set ps" by auto
    with Cons.IH [OF c Cons.prems(2,3)] show ?thesis by blast
  qed
qed

lemma chunkLoop_length:
  assumes "chunkLoop doc chars overlap ps cur i = Inr cs" "0 \<le> overlap" "\<forall>p \<in> set ps. int (length (TrimSpace p)) \<le> m" "0 \<le> m"
    "int (length cur) \<le> max chars (overlap + m) + 2" "c \<in> set cs"
  shows "int (length (dc_Content c)) \<le> max chars (overlap + m) + 2"
  using assms
proof (induction ps arbitrary: cur i cs)
  case Nil
  then show ?case using length_TrimSpace [of cur] by (auto split: if_splits)
next
  case (Cons p ps)
  have m: "int (length (TrimSpace p)) \<le> m" "\<forall>p \<in> set ps. int (length (TrimSpace p)) \<le> m" using Cons.prems(3) by simp_all
  show ?case
  proof (cases rule: chunkLoop_cases [where p = p and cur = cur and chars = chars])
    case blank
    have "chunkLoop doc chars overlap ps cur i = Inr cs" using Cons.prems(1) unfolding chunkLoop_blank [OF blank] .
    then show ?thesis by (rule Cons.IH) (use Cons.prems m in simp_all)
  next
    case full
    obtain ds where ds: "chunkLoop doc chars overlap ps (kept overlap cur @ TrimSpace p @ blankLine) (Suc i) = Inr ds"
      "cs = mkChunk doc (TrimSpace cur) i # ds"
      using Cons.prems(1) unfolding chunkLoop_full [OF full Cons.prems(2)] by (auto split: sum.splits)
    have "int (length (kept overlap cur)) \<le> overlap" using Cons.prems(2) by (auto simp: kept_def)
    then have "int (length (kept overlap cur @ TrimSpace p @ blankLine)) \<le> max chars (overlap + m) + 2" using m(1) by (simp add: blankLine_def)
    then have "c \<in> set ds \<Longrightarrow> ?thesis" using Cons.IH [OF ds(1) Cons.prems(2) m(2) Cons.prems(4)] by blast
    moreover have "c = mkChunk doc (TrimSpace cur) i \<Longrightarrow> ?thesis" using length_TrimSpace [of cur] Cons.prems(5) by simp
    ultimately show ?thesis using Cons.prems(6) ds(2) by auto
  next
    case more
    have c: "chunkLoop doc chars overlap ps (cur @ TrimSpace p @ blankLine) i = Inr cs"
      using Cons.prems(1) unfolding chunkLoop_more [OF more] .
    have "int (length (cur @ TrimSpace p @ blankLine)) \<le> max chars (overlap + m) + 2" using more(2) m(1) Cons.prems(2) by (auto simp: blankLine_def)
    with Cons.IH [OF c Cons.prems(2) m(2) Cons.prems(4)] Cons.prems(6) show ?thesis by blast
  qed
qed

lemma splitParagraphs_nonempty [simp]: "splitParagraphs s \<noteq> []"
  by (induction s rule: splitParagraphs.induct) (auto split: list.split)

lemma splitParagraphs_sublist: "p \<in> set (splitParagraphs s) \<Longrightarrow> sublist p s"
proof -
  have "(\<forall>p \<in> set (splitParagraphs s). sublist p s) \<and> prefix (hd (splitParagraphs s)) s"
  proof (induction s rule: splitParagraphs.induct)
    case (3 c d s)
    show ?case
    proof (cases "c = CHR 0x0A \<and> d = CHR 0x0A")
      case True
      with 3 show ?thesis by (auto intro: sublist_order.order_trans [OF _ sublist_Cons_right [THEN iffD2]] simp: sublist_Cons_right)
    next
      case False
      obtain q qs where q: "splitParagraphs (d # s) = q # qs" by (cases "splitParagraphs (d # s)") auto
      with 3(2) [OF False] have "prefix q (d # s)" "\<forall>p \<in> set qs. sublist p (d # s)" by simp_all
      with q False show ?thesis by (auto simp: sublist_Cons_right)
    qed
  qed auto
  then show "p \<in> set (splitParagraphs s) \<Longrightarrow> sublist p s" by blast
qed

lemma TrimSpace_sublist: "sublist (TrimSpace s) s"
proof -
  have "suffix (rev (TrimSpace s)) (rev (dropWhile isSpace s))" by (simp add: TrimSpace_def suffix_dropWhile)
  then have "prefix (TrimSpace s) (dropWhile isSpace s)" by (simp add: suffix_to_prefix)
  then show ?thesis using suffix_dropWhile [of isSpace s] by (meson prefix_imp_sublist sublist_order.order_trans suffix_imp_sublist)
qed

section \<open>Ingestion into the store\<close>

lemma ingestFile_store:
  "ks_SemanticStore (fst (ingestFile upsert embedAll a en k)) = ks_SemanticStore k \<or>
   (\<exists>cs. ks_SemanticStore (fst (ingestFile upsert embedAll a en k)) = fst (storeChunks upsert a cs (ks_SemanticStore k)))"
proof (cases "snd en")
  case (File content)
  show ?thesis
  proof (cases content)
    case (Inr body)
    define doc where "doc = \<lparr>dm_ID = Base (fst en), dm_Source = a, dm_Content = body,
      dm_Metadata = [(''file_path'', AStr (fst en)), (''file_name'', AStr (Base (fst en)))], dm_Chunks = []\<rparr>"
    note eq = ingestFile_def Let_def File Inr doc_def [symmetric]
    show ?thesis
    proof (cases "chunkDocument k doc")
      case (Inr chunks)
      show ?thesis
      proof (cases chunks)
        case (Cons c cs)
        then show ?thesis using Inr
          by (cases "embedAll (map dc_Content chunks)"; cases "attach (projr (embedAll (map dc_Content chunks))) chunks")
             (auto simp: eq case_prod_beta)
      next
        case Nil
        with Inr show ?thesis by (simp add: eq)
      qed
    qed (simp add: eq)
  qed (simp add: ingestFile_def Let_def File)
qed (simp_all add: ingestFile_def Let_def)

section \<open>The observed engine\<close>

text \<open>\<open>pkg/context/observability.go\<close>. A provider comes with its name and the milliseconds its answer takes; a span is its name and its metadata.\<close>

record Metrics =
  mx_AssemblyDurationMs :: int
  mx_ProviderDurations :: "int smap"
  mx_FragmentCount :: "int smap"
  mx_TokensUsed :: "int smap"
  mx_TruncationEvents :: int
  mx_TotalTokens :: int

record ObservableEngine =
  oe_Metrics :: Metrics
  oe_spans :: "(string \<times> string smap) list"

definition NewMetricsCollector :: Metrics where
  "NewMetricsCollector = \<lparr>mx_AssemblyDurationMs = 0, mx_ProviderDurations = [], mx_FragmentCount = [], mx_TokensUsed = [],
     mx_TruncationEvents = 0, mx_TotalTokens = 0\<rparr>"

definition NewObservableEngine :: ObservableEngine where
  "NewObservableEngine = \<lparr>oe_Metrics = NewMetricsCollector, oe_spans = []\<rparr>"

definition RecordProviderDuration :: "string \<Rightarrow> int \<Rightarrow> Metrics \<Rightarrow> Metrics" where
  "RecordProviderDuration name ms m = m\<lparr>mx_ProviderDurations := AList.update name ms (mx_ProviderDurations m)\<rparr>"

definition RecordFragment :: "string \<Rightarrow> int \<Rightarrow> Metrics \<Rightarrow> Metrics" where
  "RecordFragment ty tokens m = m\<lparr>mx_FragmentCount := add_int ty 1 (mx_FragmentCount m), mx_TokensUsed := add_int ty tokens (mx_TokensUsed m),
     mx_TotalTokens := mx_TotalTokens m + tokens\<rparr>"

definition RecordTruncation :: "Metrics \<Rightarrow> Metrics" where
  "RecordTruncation m = m\<lparr>mx_TruncationEvents := mx_TruncationEvents m + 1\<rparr>"

definition RecordAssemblyDuration :: "int \<Rightarrow> Metrics \<Rightarrow> Metrics" where
  "RecordAssemblyDuration ms m = m\<lparr>mx_AssemblyDurationMs := ms\<rparr>"

definition EndSpan :: "string \<Rightarrow> string smap \<Rightarrow> ObservableEngine \<Rightarrow> ObservableEngine" where
  "EndSpan name metadata o1 = o1\<lparr>oe_spans := oe_spans o1 @ [(name, metadata)]\<rparr>"

fun obs_loop :: "(string \<times> int \<times> 'i provider) list \<Rightarrow> 'i \<Rightarrow> ObservableEngine \<Rightarrow> ObservableEngine \<times> ContextFragment list" where
  "obs_loop [] input o1 = (o1, [])"
| "obs_loop ((name, ms, fetch) # ps) input o1 =
     (let o2 = EndSpan ''context.provider.fetch'' [(''provider'', name)] (o1\<lparr>oe_Metrics := RecordProviderDuration name ms (oe_Metrics o1)\<rparr>)
      in case fetch input of
           Inr (Some f) \<Rightarrow>
             (case obs_loop ps input (o2\<lparr>oe_Metrics := RecordFragment (cf_Type f) (cf_TokenCount f) (oe_Metrics o2)\<rparr>) of (o3, fs) \<Rightarrow> (o3, f # fs))
         | _ \<Rightarrow> obs_loop ps input o2)"

definition obs_FetchAll :: "(string \<times> int \<times> 'i provider) list \<Rightarrow> int \<Rightarrow> 'i \<Rightarrow> ObservableEngine \<Rightarrow> ObservableEngine \<times> ContextFragment list" where
  "obs_FetchAll providers ms input o1 =
     (case obs_loop providers input o1 of
        (o2, fs) \<Rightarrow> (EndSpan ''context.assemble'' [] (o2\<lparr>oe_Metrics := RecordAssemblyDuration ms (oe_Metrics o2)\<rparr>), fs))"

lemma obs_loop_accounts:
  "obs_loop ps input o1 = (o2, fs) \<Longrightarrow> fs = answered (map (\<lambda>(n, ms, f). f) ps) input \<and>
     mx_TotalTokens (oe_Metrics o2) = mx_TotalTokens (oe_Metrics o1) + sum_list (map cf_TokenCount fs) \<and>
     (\<forall>ty. get_int (mx_FragmentCount (oe_Metrics o2)) ty = get_int (mx_FragmentCount (oe_Metrics o1)) ty + int (length (ofType ty fs)) \<and>
           get_int (mx_TokensUsed (oe_Metrics o2)) ty = get_int (mx_TokensUsed (oe_Metrics o1)) ty + sum_list (map cf_TokenCount (ofType ty fs))) \<and>
     length (oe_spans o2) = length (oe_spans o1) + length ps"
proof (induction ps arbitrary: o1 fs)
  case (Cons p ps)
  obtain n ms f where p: "p = (n, ms, f)" by (cases p)
  have none: ?case if "\<nexists>g. f input = Inr (Some g)"
    using Cons that by (fastforce simp: p answered_def EndSpan_def RecordProviderDuration_def Let_def split: sum.splits option.splits)
  have some: ?case if f: "f input = Inr (Some g)" for g
  proof -
    define o3 where "o3 = EndSpan ''context.provider.fetch'' [(''provider'', n)] (o1\<lparr>oe_Metrics := RecordProviderDuration n ms (oe_Metrics o1)\<rparr>)"
    define o4 where "o4 = o3\<lparr>oe_Metrics := RecordFragment (cf_Type g) (cf_TokenCount g) (oe_Metrics o3)\<rparr>"
    obtain gs where gs: "obs_loop ps input o4 = (o2, gs)" "fs = g # gs"
      using Cons.prems f by (auto simp: p o3_def [symmetric] o4_def [symmetric] Let_def split: prod.splits)
    have "mx_TotalTokens (oe_Metrics o4) = mx_TotalTokens (oe_Metrics o1) + cf_TokenCount g" "length (oe_spans o4) = Suc (length (oe_spans o1))"
      "mx_FragmentCount (oe_Metrics o4) = add_int (cf_Type g) 1 (mx_FragmentCount (oe_Metrics o1))"
      "mx_TokensUsed (oe_Metrics o4) = add_int (cf_Type g) (cf_TokenCount g) (mx_TokensUsed (oe_Metrics o1))"
      by (simp_all add: o4_def o3_def EndSpan_def RecordProviderDuration_def RecordFragment_def)
    with Cons.IH [OF gs(1)] f gs(2) show ?thesis
      by (auto simp: p answered_def ofType_def get_int_add_int)
  qed
  show ?case using none some by blast
qed (simp add: answered_def ofType_def)

text \<open>The observed engine accounts for every fragment it returns; it returns them in the order of the providers.\<close>

lemma obs_FetchAll_accounts:
  assumes "obs_FetchAll ps ms input NewObservableEngine = (o2, fs)"
  shows "fs = answered (map (\<lambda>(n, ms, f). f) ps) input \<and> mx_TotalTokens (oe_Metrics o2) = sum_list (map cf_TokenCount fs) \<and>
     (\<forall>ty. get_int (mx_FragmentCount (oe_Metrics o2)) ty = int (length (ofType ty fs)) \<and>
           get_int (mx_TokensUsed (oe_Metrics o2)) ty = sum_list (map cf_TokenCount (ofType ty fs))) \<and>
     length (oe_spans o2) = length ps + 1"
proof -
  obtain o3 where "obs_loop ps input NewObservableEngine = (o3, fs)"
    "o2 = EndSpan ''context.assemble'' [] (o3\<lparr>oe_Metrics := RecordAssemblyDuration ms (oe_Metrics o3)\<rparr>)"
    using assms by (auto simp: obs_FetchAll_def split: prod.splits)
  with obs_loop_accounts [of ps input NewObservableEngine o3 fs] show ?thesis
    by (simp add: EndSpan_def RecordAssemblyDuration_def NewObservableEngine_def NewMetricsCollector_def get_int_def)
qed

section \<open>The interface of a semantic store\<close>

text \<open>
  What the knowledge base relies on: an \<open>Upsert\<close> under one name adds at most its metadata there and touches no other name, and a search under a
  name returns metadata stored under it.
\<close>

locale vector_store =
  fixes upsert :: "'s \<Rightarrow> string \<Rightarrow> string \<Rightarrow> real list \<Rightarrow> any smap \<Rightarrow> 's \<times> gerror option"
    and search :: "'s \<Rightarrow> string \<Rightarrow> real list \<Rightarrow> int \<Rightarrow> gerror + SearchResult list"
    and stored :: "'s \<Rightarrow> string \<Rightarrow> any smap set"
  assumes upsert_own: "stored (fst (upsert s a i e m)) a \<subseteq> insert m (stored s a)"
    and upsert_other: "b \<noteq> a \<Longrightarrow> stored (fst (upsert s a i e m)) b = stored s b"
    and search_sound: "search s a q n = Inr hits \<Longrightarrow> h \<in> set hits \<Longrightarrow> hit_Metadata h \<in> stored s a"
begin

lemma storeChunks_other: "b \<noteq> a \<Longrightarrow> stored (fst (storeChunks upsert a cs s)) b = stored s b"
proof (induction cs arbitrary: s)
  case (Cons c cs)
  obtain s' err where "upsert s a (dc_ID c) (dc_Embedding c) (chunkMetadata c) = (s', err)" by fastforce
  with Cons upsert_other [of b a s "dc_ID c" "dc_Embedding c" "chunkMetadata c"] show ?case by (auto split: option.split)
qed simp

lemma ingestFile_other:
  assumes "b \<noteq> a"
  shows "stored (ks_SemanticStore (fst (ingestFile upsert embedAll a en k))) b = stored (ks_SemanticStore k) b"
  using ingestFile_store [of upsert embedAll a en k] storeChunks_other [OF assms] by fastforce

lemma ingestAll_other: "b \<noteq> a \<Longrightarrow> stored (ks_SemanticStore (fst (ingestAll upsert embedAll a es k))) b = stored (ks_SemanticStore k) b"
proof (induction es arbitrary: k)
  case (Cons en es)
  obtain k' err where "ingestFile upsert embedAll a en k = (k', err)" by fastforce
  with Cons ingestFile_other [of b a embedAll en k] show ?case by (auto split: option.split)
qed simp

lemma ingestSources_other:
  assumes "b \<notin> set ds" "ingestSources upsert embedAll walk stat ds k = Inr k'"
  shows "stored (ks_SemanticStore k') b = stored (ks_SemanticStore k) b"
  using assms
proof (induction ds arbitrary: k)
  case (Cons d ds)
  obtain k1 err where i: "IngestDirectory upsert embedAll walk k d d = (k1, err)" by fastforce
  then have "stored (ks_SemanticStore k1) b = stored (ks_SemanticStore k) b"
    using ingestAll_other [of b d embedAll "walk d" k] Cons.prems(1) by (simp add: IngestDirectory_def)
  with Cons i show ?case by (auto split: if_splits)
qed simp

lemma Search_empty:
  assumes "stored (ks_SemanticStore k) ''knowledge'' = {}" "ks_Search search embedAll k query topK = Inr cs"
  shows "cs = []"
  using assms search_sound by (auto simp: ks_Search_def split: sum.splits list.splits) (metis empty_iff list.set_intros(1) neq_Nil_conv)

definition quiet :: "'s manager_view option \<Rightarrow> bool" where
  "quiet mgr = (\<forall>v s. mgr = Some v \<longrightarrow> mv_semantic v = Some s \<longrightarrow> stored s ''knowledge'' = {})"

lemma makeProvider_quiet:
  assumes "makeProvider upsert embedAll walk stat hasEngine emb mgr c = Inr p" "quiet mgr" "''knowledge'' \<notin> set (cfgSources (pc_Config c))"
  shows "quiet (withStore (storeOf p) mgr) \<and> (\<forall>kp. p = Some (PKnowledge kp) \<longrightarrow> (\<exists>v s. mgr = Some v \<and> mv_semantic v = Some s))"
proof (cases "\<exists>kp. p = Some (PKnowledge kp)")
  case True
  then obtain kp where p: "p = Some (PKnowledge kp)" by blast
  with assms(1) obtain v s where v: "mgr = Some v" "mv_semantic v = Some s" "knowledgeFromConfig upsert embedAll walk stat s c = Inr kp"
    by (auto simp: makeProvider_def split: if_splits option.splits sum.splits)
  define k1 where "k1 = (NewKnowledgeStore s)\<lparr>ks_ChunkSize := cfgInt (pc_Config c) ''chunk_size'' (ks_ChunkSize (NewKnowledgeStore s)),
    ks_ChunkOverlap := cfgInt (pc_Config c) ''chunk_overlap'' (ks_ChunkOverlap (NewKnowledgeStore s))\<rparr>"
  obtain k2 where k: "ks_SemanticStore k1 = s" "ingestSources upsert embedAll walk stat (cfgSources (pc_Config c)) k1 = Inr k2" "kp_KnowledgeStore kp = Some k2"
    using v(3) by (cases "ingestSources upsert embedAll walk stat (cfgSources (pc_Config c)) k1")
      (auto simp: knowledgeFromConfig_def Let_def k1_def NewKnowledgeStore_def)
  have "stored s ''knowledge'' = {}" using assms(2) v by (simp add: quiet_def)
  with ingestSources_other [OF assms(3) k(2)] k(1) have "stored (ks_SemanticStore k2) ''knowledge'' = {}" by simp
  with p v k(3) show ?thesis by (simp add: quiet_def withStore_def storeOf_def)
next
  case False
  then have "storeOf p = None" by (auto simp: storeOf_def split: option.split context_provider.split)
  with False assms(2) show ?thesis by (simp add: withStore_def)
qed

lemma makeProviders_quiet:
  assumes "makeProviders (makeProvider upsert embedAll walk stat hasEngine emb) mgr cs = Inr (mgr', ps)" "quiet mgr"
    "\<forall>c \<in> set cs. ''knowledge'' \<notin> set (cfgSources (pc_Config c))"
  shows "quiet mgr' \<and> (\<forall>kp. PKnowledge kp \<in> set ps \<longrightarrow> (\<exists>v s. mgr' = Some v \<and> mv_semantic v = Some s)) \<and>
    ((\<exists>v s. mgr = Some v \<and> mv_semantic v = Some s) \<longrightarrow> (\<exists>v s. mgr' = Some v \<and> mv_semantic v = Some s))"
  using assms
proof (induction cs arbitrary: mgr ps)
  case (Cons c cs)
  obtain p where p: "makeProvider upsert embedAll walk stat hasEngine emb mgr c = Inr p" using Cons.prems(1) by (auto split: sum.splits)
  obtain qs where q: "makeProviders (makeProvider upsert embedAll walk stat hasEngine emb) (withStore (storeOf p) mgr) cs = Inr (mgr', qs)"
    "ps = (case p of None \<Rightarrow> qs | Some x \<Rightarrow> x # qs)" using Cons.prems(1) p by (auto split: sum.splits)
  note one = makeProvider_quiet [OF p Cons.prems(2)]
  have rest: "quiet mgr' \<and> (\<forall>kp. PKnowledge kp \<in> set qs \<longrightarrow> (\<exists>v s. mgr' = Some v \<and> mv_semantic v = Some s)) \<and>
    ((\<exists>v s. withStore (storeOf p) mgr = Some v \<and> mv_semantic v = Some s) \<longrightarrow> (\<exists>v s. mgr' = Some v \<and> mv_semantic v = Some s))"
    using Cons.IH [OF q(1)] one Cons.prems(3) by simp
  have keep: "\<exists>v s. mgr = Some v \<and> mv_semantic v = Some s \<Longrightarrow> \<exists>v s. withStore (storeOf p) mgr = Some v \<and> mv_semantic v = Some s"
    by (auto simp: withStore_def split: option.split)
  have "PKnowledge kp \<in> set ps \<Longrightarrow> PKnowledge kp \<in> set qs \<or> p = Some (PKnowledge kp)" for kp using q(2) by (auto split: option.splits)
  with rest keep one Cons.prems(3) show ?case by (metis list.set_intros(1))
qed simp

lemma kp_Fetch_quiet:
  assumes "kp_KnowledgeStore kp = Some k" "stored (ks_SemanticStore k) ''knowledge'' = {}"
  shows "kp_Fetch search embedAll now kp input \<noteq> Inr (Some f)"
  using assms by (auto simp: kp_Fetch_def split: sum.splits list.splits dest: Search_empty)

end

section \<open>The in-memory store\<close>

definition mem_Upsert :: "semantic_store \<Rightarrow> string \<Rightarrow> string \<Rightarrow> real list \<Rightarrow> any smap \<Rightarrow> semantic_store \<times> gerror option" where
  "mem_Upsert s agentID i embedding metadata = (sem_Upsert s agentID i embedding metadata, None)"

definition mem_stored :: "semantic_store \<Rightarrow> string \<Rightarrow> any smap set" where
  "mem_stored s a = (case map_of s a of None \<Rightarrow> {} | Some vs \<Rightarrow> (ve_Metadata \<circ> snd) ` set vs)"

lemma sem_Search_sound:
  assumes "sem_Search s a q n = Inr hits" "h \<in> set hits"
  shows "hit_Metadata h \<in> mem_stored s a"
proof -
  define vs where "vs = (case map_of s a of None \<Rightarrow> [] | Some vs \<Rightarrow> vs)"
  define scored where "scored = map (\<lambda>(i, e). (e, cosineSimilarity q (ve_Embedding e))) vs"
  have "h \<in> searchHit ` set (sortByScore scored)"
    using assms
    by (auto dest!: in_set_takeD simp: sem_Search_def Let_def vs_def [symmetric] scored_def [symmetric] split: if_splits)
  then have "h \<in> searchHit ` set scored" using sortByScore_sorts [of scored] by (metis set_mset_mset)
  then obtain i e where e: "(i, e) \<in> set vs" "hit_Metadata h = ve_Metadata e" by (auto simp: scored_def searchHit_def)
  then obtain ws where "map_of s a = Some ws" "(i, e) \<in> set ws" by (cases "map_of s a") (auto simp: vs_def)
  with e(2) show ?thesis by (force simp: mem_stored_def)
qed

interpretation mem: vector_store mem_Upsert sem_Search mem_stored
proof unfold_locales
  show "mem_stored (fst (mem_Upsert s a i e m)) a \<subseteq> insert m (mem_stored s a)" for s a i e m
    using set_update_subset [of i "\<lparr>ve_ID = i, ve_Embedding = e, ve_Metadata = m\<rparr>" "case map_of s a of None \<Rightarrow> [] | Some vs \<Rightarrow> vs"]
    by (fastforce simp: mem_stored_def mem_Upsert_def sem_Upsert_def update_conv' split: option.splits)
qed (auto simp: mem_stored_def mem_Upsert_def sem_Upsert_def update_conv' intro: sem_Search_sound [unfolded mem_stored_def])

lemma engine_quiet:
  assumes "NewContextEngineFromConfig mem_Upsert embedder walk stat getenv cfg mgr hasEngine = Inr (ec, ps)"
    "\<forall>v s. mgr = Some v \<longrightarrow> mv_semantic v = Some s \<longrightarrow> mem_stored s ''knowledge'' = {}"
    "\<forall>c \<in> set (ca_Providers cfg). ''knowledge'' \<notin> set (cfgSources (pc_Config c))" "PKnowledge kp \<in> set ps"
  shows "\<forall>k. kp_KnowledgeStore kp = Some k \<longrightarrow> mem_stored (ks_SemanticStore k) ''knowledge'' = {}"
proof -
  obtain emb mgr' qs where q: "makeProviders (makeProvider mem_Upsert (\<lambda>ts. case emb of None \<Rightarrow> Inr [] | Some e \<Rightarrow> embedder e ts) walk stat hasEngine emb) mgr (ca_Providers cfg) = Inr (mgr', qs)"
    "ps = map (share mgr') qs"
    using assms(1) by (auto simp: NewContextEngineFromConfig_def split: if_splits sum.splits)
  note quiet = mem.makeProviders_quiet [OF q(1), unfolded mem.quiet_def, OF assms(2,3)]
  obtain q0 where q0: "q0 \<in> set qs" "PKnowledge kp = share mgr' q0" using assms(4) q(2) by auto
  from q0(2) obtain kp0 where "q0 = PKnowledge kp0" by (cases q0) (simp_all add: share_def)
  with q0 quiet show ?thesis by (fastforce simp: share_def)
qed

lemma provider_Fetch_type:
  assumes "provider_Fetch search embedAll fmtV fmtF toJSON now p input = Inr (Some f)" "cf_Type f = ''knowledge''"
  shows "\<exists>kp. p = PKnowledge kp"
  using assms
  by (cases p) (auto simp: provider_Fetch_def mp_Fetch_def policy_Fetch_def workflow_Fetch_def tool_Fetch_def fragment_def Let_def split: option.splits if_splits)

section \<open>Properties\<close>

text \<open>
  The knowledge base is silent: the factory stores the chunks of a source directory under the name of that directory, and the search looks
  under the name \<open>knowledge\<close>. With an engine built from a configuration in which no source is the directory \<open>knowledge\<close>, over an in-memory
  semantic store that has nothing under that name, no context that is fetched holds a fragment of knowledge, whatever was ingested, whatever the
  goal is and in whatever order the providers answer.
\<close>

theorem knowledge_never_found:
  assumes "NewContextEngineFromConfig mem_Upsert embedder walk stat getenv cfg mgr hasEngine = Inr (ec, ps)"
    "\<forall>v s. mgr = Some v \<longrightarrow> mv_semantic v = Some s \<longrightarrow> mem_stored s ''knowledge'' = {}"
    "\<forall>c \<in> set (ca_Providers cfg). ''knowledge'' \<notin> set (cfgSources (pc_Config c))"
    "slice_sort srt" "mset arrival = mset [0..<length ps]"
  shows "ofType ''knowledge'' (FetchAll srt arrival ec (map (provider_Fetch sem_Search embedAll fmtV fmtF toJSON now) ps) input) = []"
proof (rule ccontr)
  assume "\<not> ?thesis"
  then obtain f where f: "f \<in> set (FetchAll srt arrival ec (map (provider_Fetch sem_Search embedAll fmtV fmtF toJSON now) ps) input)" "cf_Type f = ''knowledge''"
    by (auto simp: ofType_def filter_empty_conv)
  have "mset (FetchAll srt arrival ec (map (provider_Fetch sem_Search embedAll fmtV fmtF toJSON now) ps) input) =
      mset (answered (map (provider_Fetch sem_Search embedAll fmtV fmtF toJSON now) ps) input)"
    by (rule FetchAll_answered) (use assms(4,5) in simp_all)
  with f(1) have "f \<in> set (answered (map (provider_Fetch sem_Search embedAll fmtV fmtF toJSON now) ps) input)" by (metis set_mset_mset)
  then obtain p where p: "p \<in> set ps" "provider_Fetch sem_Search embedAll fmtV fmtF toJSON now p input = Inr (Some f)"
    by (auto simp: answered_def split: sum.splits option.splits)
  then obtain kp where kp: "p = PKnowledge kp" using f(2) provider_Fetch_type by blast
  then obtain k where k: "kp_KnowledgeStore kp = Some k" using p(2) by (auto simp: provider_Fetch_def kp_Fetch_def split: option.splits)
  then have "mem_stored (ks_SemanticStore k) ''knowledge'' = {}" using engine_quiet [OF assms(1-3)] p(1) kp by blast
  with mem.kp_Fetch_quiet [OF k] p(2) kp show False by (simp add: provider_Fetch_def)
qed

definition docsConfig :: ContextAssemblyConfig where
  "docsConfig = \<lparr>ca_Enabled = True, ca_MaxContextTokens = 0, ca_Parallel = False,
     ca_Embeddings = \<lparr>ec_Provider = ''local'', ec_Model = ''m'', ec_APIKeyEnv = []\<rparr>,
     ca_Providers = [\<lparr>pc_Type = ''knowledge'', pc_Priority = 3, pc_Enabled = True, pc_Config = [(''sources'', AList [AStr ''docs''])]\<rparr>,
                     \<lparr>pc_Type = ''workflow'', pc_Priority = 2, pc_Enabled = True, pc_Config = []\<rparr>]\<rparr>"

definition docsWalk :: "string \<Rightarrow> (string \<times> walked) list" where
  "docsWalk dir = [(dir, Directory), (dir @ ''/a.md'', File (Inr ''goal''))]"

definition unitEmbed :: "string list \<Rightarrow> gerror + real list list" where
  "unitEmbed ts = Inr (map (\<lambda>t. [1]) ts)"

definition docsEngine :: "gerror + (Context_Engine.EngineConfig \<times> semantic_store context_provider list)" where
  "docsEngine = NewContextEngineFromConfig mem_Upsert (\<lambda>e. unitEmbed) docsWalk (\<lambda>d. True) (\<lambda>v. []) docsConfig (Some \<lparr>mv_working = [], mv_semantic = Some []\<rparr>) True"

lemma docsEngine_value: "case docsEngine of Inr (ec, ps) \<Rightarrow> length ps = 2 | Inl err \<Rightarrow> False"
  by code_simp

definition docsInput :: context_input where
  "docsInput = \<lparr>ci_Step = \<lparr>si_RunID = ''r'', si_AgentName = ''a'', si_Goal = ''goal'', si_StepNum = 0, si_History = [], si_WorkingMem = []\<rparr>, ci_Tools = []\<rparr>"

theorem knowledge_never_found_witness:
  "\<exists>ec ps. docsEngine = Inr (ec, ps) \<and> length ps = 2 \<and>
     ofType ''knowledge'' (FetchAll (sort_key cf_Priority) [0, 1] ec
       (map (provider_Fetch sem_Search unitEmbed (\<lambda>v. []) (\<lambda>x. []) (\<lambda>m. []) 0) ps) docsInput) = []"
proof -
  obtain ec ps where e: "docsEngine = Inr (ec, ps)" and l: "length ps = 2" using docsEngine_value by (auto split: sum.splits)
  have srt: "slice_sort (sort_key cf_Priority)" by (simp add: slice_sort_def)
  have arr: "mset [0, 1] = mset [0..<length ps]" by (simp add: l upt_rec)
  have src: "\<forall>c \<in> set (ca_Providers docsConfig). ''knowledge'' \<notin> set (cfgSources (pc_Config c))"
    by (simp add: docsConfig_def cfgSources_def)
  have mgr: "\<forall>v s. Some \<lparr>mv_working = [], mv_semantic = Some []\<rparr> = Some v \<longrightarrow> mv_semantic v = Some s \<longrightarrow> mem_stored s ''knowledge'' = {}"
    by (auto simp: mem_stored_def)
  have "ofType ''knowledge'' (FetchAll (sort_key cf_Priority) [0, 1] ec
       (map (provider_Fetch sem_Search unitEmbed (\<lambda>v. []) (\<lambda>x. []) (\<lambda>m. []) 0) ps) docsInput) = []"
    by (rule knowledge_never_found [OF e [unfolded docsEngine_def] mgr src srt arr])
  with e l show ?thesis by blast
qed

text \<open>
  Chunking loses no text: with an overlap that is not negative, every document is cut into chunks numbered from 0, every paragraph that is not
  blank appears, trimmed, as a whole in one of them, and no chunk is longer than the chunk size or than the overlap and the longest
  paragraph together, up to five bytes.
\<close>

theorem chunks_cover_document:
  assumes "0 \<le> ks_ChunkOverlap k" "\<forall>p \<in> set (splitParagraphs (dm_Content doc)). int (length (TrimSpace p)) \<le> m"
  shows "\<exists>cs. chunkDocument k doc = Inr cs \<and>
    map dc_ID cs = map (\<lambda>j. dm_ID doc @ ''-chunk-'' @ itoa (int j)) [0..<length cs] \<and>
    (\<forall>p \<in> set (splitParagraphs (dm_Content doc)). TrimSpace p \<noteq> [] \<longrightarrow> (\<exists>c \<in> set cs. sublist (TrimSpace p) (dc_Content c))) \<and>
    (\<forall>c \<in> set cs. int (length (dc_Content c)) \<le> max (4 * ks_ChunkSize k) (4 * ks_ChunkOverlap k + m) + 5)"
proof (cases "int (length (dm_Content doc)) div 4 \<le> ks_ChunkSize k")
  case True
  then have "chunkDocument k doc = Inr [mkChunk doc (dm_Content doc) 0]" by (simp add: chunkDocument_def)
  moreover have "int (length (dm_Content doc)) \<le> 4 * ks_ChunkSize k + 3" using True by presburger
  ultimately show ?thesis using splitParagraphs_sublist TrimSpace_sublist by (auto intro: sublist_order.order_trans)
next
  case False
  let ?ps = "splitParagraphs (dm_Content doc)"
  have m: "0 \<le> m" using assms(2) splitParagraphs_nonempty [of "dm_Content doc"] by (metis list.set_intros(1) neq_Nil_conv of_nat_0_le_iff order_trans)
  have o: "0 \<le> ks_ChunkOverlap k * 4" using assms(1) by simp
  from False have eq: "chunkDocument k doc = chunkLoop doc (ks_ChunkSize k * 4) (ks_ChunkOverlap k * 4) ?ps [] 0" by (simp add: chunkDocument_def)
  obtain cs where cs: "chunkLoop doc (ks_ChunkSize k * 4) (ks_ChunkOverlap k * 4) ?ps [] 0 = Inr cs"
    "map dc_ID cs = map (\<lambda>j. dm_ID doc @ ''-chunk-'' @ itoa (int j)) [0..<length cs]"
    using chunkLoop_total [OF o, of doc "ks_ChunkSize k * 4" ?ps "[]" 0] by auto
  have "\<forall>c \<in> set cs. int (length (dc_Content c)) \<le> max (ks_ChunkSize k * 4) (ks_ChunkOverlap k * 4 + m) + 2"
    using chunkLoop_length [OF cs(1) o assms(2) m] m o by simp
  moreover have "\<forall>p \<in> set ?ps. TrimSpace p \<noteq> [] \<longrightarrow> (\<exists>c \<in> set cs. sublist (TrimSpace p) (dc_Content c))"
    using chunkLoop_covers [OF cs(1) o] trimmed_TrimSpace by blast
  ultimately show ?thesis using eq cs by (fastforce simp: mult.commute)
qed

definition twoParagraphs :: Document where
  "twoParagraphs = \<lparr>dm_ID = ''d.md'', dm_Source = ''docs'', dm_Content = ''first one'' @ blankLine @ ''second'', dm_Metadata = [], dm_Chunks = []\<rparr>"

theorem chunks_cover_document_witness:
  "\<exists>cs. chunkDocument \<lparr>ks_SemanticStore = (), ks_Documents = [], ks_ChunkSize = 2, ks_ChunkOverlap = 1\<rparr> twoParagraphs = Inr cs \<and>
    map dc_ID cs = [''d.md-chunk-0'', ''d.md-chunk-1''] \<and> (\<exists>c \<in> set cs. sublist ''second'' (dc_Content c))"
proof -
  have p: "splitParagraphs (dm_Content twoParagraphs) = [''first one'', ''second'']" by code_simp
  have t: "TrimSpace ''first one'' = ''first one''" "TrimSpace ''second'' = ''second''" by code_simp+
  have n: "case chunkDocument \<lparr>ks_SemanticStore = (), ks_Documents = [], ks_ChunkSize = 2, ks_ChunkOverlap = 1\<rparr> twoParagraphs of
      Inr cs \<Rightarrow> map dc_ID cs = [''d.md-chunk-0'', ''d.md-chunk-1''] | Inl err \<Rightarrow> False" by code_simp
  show ?thesis
    using chunks_cover_document [of "\<lparr>ks_SemanticStore = (), ks_Documents = [], ks_ChunkSize = 2, ks_ChunkOverlap = 1\<rparr>" twoParagraphs 9] n
    by (auto simp: p t)
qed

text \<open>Two files of the same name in different directories of one source have the same chunks: the second replaces the first.\<close>

lemma same_name_overwrites:
  "case ingestAll mem_Upsert unitEmbed ''docs'' [(''docs/a/x.md'', File (Inr ''one'')), (''docs/b/x.md'', File (Inr ''two''))] (NewKnowledgeStore []) of
     (k, err) \<Rightarrow> err = None \<and> ks_List k = [''x.md''] \<and> sem_Stats (ks_SemanticStore k) = [(''docs'', 1)]"
  by code_simp

end
