(* ===== verification/Operator.thy ===== *)
theory Operator
  imports Go_Prelude
begin

text \<open>
  The Kubernetes operator, \<open>k8s/operator/*.go\<close>: the reconcilers of agents, workflows and policies and the objects they build. The API server
  lies outside the repository: its client is an argument, a record of functions on a state of the cluster, and what the reconcilers rely
  on is the predicate \<open>api_laws\<close>: reads return the current object and failed calls change nothing, which leaves out the stale reads of a caching client. Logging is left out, the clock, cron expressions and the formatting of a temperature are arguments. A
  reconciliation returns the delay after which it is to be repeated and an error, or it panics. Fields that no reconciler reads or writes are left out.
\<close>

section \<open>Objects\<close>

record ObjectMeta =
  om_Name :: string
  om_Namespace :: string
  om_Labels :: "string smap"
  om_Owner :: "(string \<times> string) option"

record LLMSpec =
  lm_Provider :: string
  lm_Model :: string
  lm_Temperature :: rat
  lm_MaxTokens :: int

record ResourceRequirements =
  rr_Requests :: "string smap"
  rr_Limits :: "string smap"

record AgentSpec =
  as_Role :: string
  as_Goal :: string
  as_LLM :: LLMSpec
  as_Tools :: "string list"
  as_Replicas :: int
  as_Resources :: ResourceRequirements

record AgentStatus =
  at_Phase :: string
  at_Replicas :: int
  at_ReadyReplicas :: int

record AgentCR =
  ag_Meta :: ObjectMeta
  ag_Spec :: AgentSpec
  ag_Status :: AgentStatus

record StepSpec =
  sp_Name :: string
  sp_Type :: string
  sp_Agent :: string
  sp_Goal :: string
  sp_OutputKey :: string
  sp_Condition :: string
  sp_DependsOn :: "string list"
  sp_Approvers :: "string list"
  sp_ApprovalMessage :: string

record WorkflowSpec =
  ws_Name :: string
  ws_Description :: string
  ws_Steps :: "StepSpec list"
  ws_Schedule :: string

record WorkflowStatus =
  wt_Phase :: string
  wt_Message :: string
  wt_StartTime :: "int option"
  wt_CompletionTime :: "int option"
  wt_CurrentStep :: string
  wt_CompletedSteps :: "string list"
  wt_FailedSteps :: "string list"
  wt_LastScheduleTime :: "int option"
  wt_NextScheduleTime :: "int option"

record WorkflowCR =
  wo_Meta :: ObjectMeta
  wo_Spec :: WorkflowSpec
  wo_Status :: WorkflowStatus

record RuleSpec =
  ru_ID :: string
  ru_Condition :: string
  ru_Action :: string

record PolicySpec =
  ps_Rules :: "RuleSpec list"
  ps_Enabled :: bool

record PolicyStatus =
  pt_Active :: bool
  pt_LastApplied :: "int option"

record PolicyCR =
  po_Meta :: ObjectMeta
  po_Spec :: PolicySpec
  po_Status :: PolicyStatus

text \<open>The parts of the library's objects that the operator fills in or reads; a probe is a path, a port, a delay and a period.\<close>

record Container =
  cn_Name :: string
  cn_Image :: string
  cn_Args :: "string list"
  cn_Env :: "(string \<times> string) list"
  cn_Ports :: "(int \<times> string) list"
  cn_Resources :: ResourceRequirements
  cn_Liveness :: "(string \<times> int \<times> int \<times> int) option"
  cn_Readiness :: "(string \<times> int \<times> int \<times> int) option"
  cn_VolumeMounts :: "(string \<times> string \<times> bool) list"

record PodTemplateSpec =
  pd_Labels :: "string smap"
  pd_RestartPolicy :: string
  pd_Containers :: "Container list"
  pd_Volumes :: "(string \<times> string) list"

record DeploymentSpec =
  ds_Replicas :: int
  ds_Selector :: "string smap"
  ds_Template :: PodTemplateSpec

record Deployment =
  dp_Meta :: ObjectMeta
  dp_Spec :: DeploymentSpec
  dp_Replicas :: int
  dp_ReadyReplicas :: int

record KService =
  sv_Meta :: ObjectMeta
  sv_Selector :: "string smap"
  sv_Ports :: "(int \<times> int \<times> string \<times> string) list"

record ConfigMap =
  cm_Meta :: ObjectMeta
  cm_Data :: "string smap"

record Job =
  jb_Meta :: ObjectMeta
  jb_Template :: PodTemplateSpec
  jb_Active :: int
  jb_Succeeded :: int
  jb_Failed :: int

datatype kobject =
    AgentO AgentCR
  | WorkflowO WorkflowCR
  | PolicyO PolicyCR
  | DeploymentO Deployment
  | ServiceO KService
  | ConfigMapO ConfigMap
  | JobO Job

datatype kind = KAgent | KWorkflow | KPolicy | KDeployment | KService | KConfigMap | KJob

type_synonym object_key = "kind \<times> string \<times> string"

definition metaKey :: "kind \<Rightarrow> ObjectMeta \<Rightarrow> object_key" where
  "metaKey k m = (k, om_Namespace m, om_Name m)"

fun ObjectKeyFromObject :: "kobject \<Rightarrow> object_key" where
  "ObjectKeyFromObject (AgentO a) = metaKey KAgent (ag_Meta a)"
| "ObjectKeyFromObject (WorkflowO w) = metaKey KWorkflow (wo_Meta w)"
| "ObjectKeyFromObject (PolicyO p) = metaKey KPolicy (po_Meta p)"
| "ObjectKeyFromObject (DeploymentO d) = metaKey KDeployment (dp_Meta d)"
| "ObjectKeyFromObject (ServiceO s) = metaKey KService (sv_Meta s)"
| "ObjectKeyFromObject (ConfigMapO m) = metaKey KConfigMap (cm_Meta m)"
| "ObjectKeyFromObject (JobO j) = metaKey KJob (jb_Meta j)"

section \<open>The client\<close>

record 'c kclient =
  cl_Get :: "'c \<Rightarrow> object_key \<Rightarrow> gerror + kobject"
  cl_Create :: "'c \<Rightarrow> kobject \<Rightarrow> 'c \<times> gerror option"
  cl_Update :: "'c \<Rightarrow> kobject \<Rightarrow> 'c \<times> gerror option"
  cl_StatusUpdate :: "'c \<Rightarrow> kobject \<Rightarrow> 'c \<times> gerror option"
  cl_IsNotFound :: "gerror \<Rightarrow> bool"

definition IgnoreNotFound :: "'c kclient \<Rightarrow> gerror \<Rightarrow> gerror option" where
  "IgnoreNotFound cl err = (if cl_IsNotFound cl err then None else Some err)"

datatype reconciled = Returned int "gerror option" | Panicked

definition second :: int where
  "second = 1000000000"

text \<open>An object that is created when it is not found and updated otherwise; \<open>merge\<close> puts the wanted parts into what was found.\<close>

definition createOrUpdate :: "'c kclient \<Rightarrow> string \<Rightarrow> (kobject \<Rightarrow> kobject) \<Rightarrow> 'c \<Rightarrow> kobject \<Rightarrow> 'c \<times> gerror option" where
  "createOrUpdate cl what merge c wanted =
     (case cl_Get cl c (ObjectKeyFromObject wanted) of
        Inl err \<Rightarrow>
          (if IgnoreNotFound cl err = None
           then (case cl_Create cl c wanted of
                   (c', Some e) \<Rightarrow> (c', Some (Wrap (''failed to create '' @ what @ '': '') e))
                 | (c', None) \<Rightarrow> (c', None))
           else (c, Some err))
      | Inr found \<Rightarrow>
          (case cl_Update cl c (merge found) of
             (c', Some e) \<Rightarrow> (c', Some (Wrap (''failed to update '' @ what @ '': '') e))
           | (c', None) \<Rightarrow> (c', None)))"

section \<open>Agents\<close>

definition int32 :: "int \<Rightarrow> int" where
  "int32 n = (n + 2147483648) mod 4294967296 - 2147483648"

definition labelsForAgent :: "AgentCR \<Rightarrow> string smap" where
  "labelsForAgent a = [(''app'', ''agentruntime''), (''agentruntime.io/agent'', om_Name (ag_Meta a)),
     (''agentruntime.io/role'', as_Role (ag_Spec a)), (''agentruntime.io/provider'', lm_Provider (as_LLM (ag_Spec a)))]"

definition ownedMeta :: "string \<Rightarrow> ObjectMeta \<Rightarrow> string \<Rightarrow> string smap \<Rightarrow> ObjectMeta" where
  "ownedMeta kind owner name labels = \<lparr>om_Name = name, om_Namespace = om_Namespace owner, om_Labels = labels, om_Owner = Some (kind, om_Name owner)\<rparr>"

definition agentContainer :: "(rat \<Rightarrow> string) \<Rightarrow> AgentCR \<Rightarrow> Container" where
  "agentContainer fmtF a =
     (let s = ag_Spec a; llm = as_LLM s
      in \<lparr>cn_Name = ''agent'', cn_Image = ''agentruntime/agent:latest'', cn_Args = [],
           cn_Env = [(''AGENT_ROLE'', as_Role s), (''AGENT_GOAL'', as_Goal s), (''LLM_PROVIDER'', lm_Provider llm), (''LLM_MODEL'', lm_Model llm),
                     (''LLM_TEMPERATURE'', fmtF (lm_Temperature llm)), (''LLM_MAX_TOKENS'', itoa (lm_MaxTokens llm))],
           cn_Ports = [(8080, ''http'')], cn_Resources = as_Resources s,
           cn_Liveness = Some (''/health'', 8080, 15, 20), cn_Readiness = Some (''/ready'', 8080, 5, 10), cn_VolumeMounts = []\<rparr>)"

definition deploymentForAgent :: "(rat \<Rightarrow> string) \<Rightarrow> AgentCR \<Rightarrow> Deployment" where
  "deploymentForAgent fmtF a =
     (let labels = labelsForAgent a
      in \<lparr>dp_Meta = ownedMeta ''Agent'' (ag_Meta a) (om_Name (ag_Meta a)) labels,
           dp_Spec = \<lparr>ds_Replicas = int32 (as_Replicas (ag_Spec a)), ds_Selector = labels,
             ds_Template = \<lparr>pd_Labels = labels, pd_RestartPolicy = [], pd_Containers = [agentContainer fmtF a], pd_Volumes = []\<rparr>\<rparr>,
           dp_Replicas = 0, dp_ReadyReplicas = 0\<rparr>)"

definition serviceForAgent :: "AgentCR \<Rightarrow> KService" where
  "serviceForAgent a = \<lparr>sv_Meta = ownedMeta ''Agent'' (ag_Meta a) (om_Name (ag_Meta a)) (labelsForAgent a),
     sv_Selector = labelsForAgent a, sv_Ports = [(8080, 8080, ''TCP'', ''http'')]\<rparr>"

definition createOrUpdateDeployment :: "'c kclient \<Rightarrow> 'c \<Rightarrow> Deployment \<Rightarrow> 'c \<times> gerror option" where
  "createOrUpdateDeployment cl c d =
     createOrUpdate cl ''Deployment'' (\<lambda>f. case f of DeploymentO found \<Rightarrow> DeploymentO (found\<lparr>dp_Spec := dp_Spec d\<rparr>) | _ \<Rightarrow> f) c (DeploymentO d)"

definition createOrUpdateService :: "'c kclient \<Rightarrow> 'c \<Rightarrow> KService \<Rightarrow> 'c \<times> gerror option" where
  "createOrUpdateService cl c s =
     createOrUpdate cl ''Service'' (\<lambda>f. case f of ServiceO found \<Rightarrow> ServiceO (found\<lparr>sv_Ports := sv_Ports s, sv_Selector := sv_Selector s\<rparr>) | _ \<Rightarrow> f) c (ServiceO s)"

definition agentPhase :: "Deployment \<Rightarrow> string" where
  "agentPhase d =
     (if dp_ReadyReplicas d = ds_Replicas (dp_Spec d) then ''Running''
      else if dp_ReadyReplicas d > 0 then ''Pending'' else ''Failed'')"

definition wrongKind :: gerror where
  "wrongKind = Errorf ''unexpected kind''"

definition updateAgentStatus :: "'c kclient \<Rightarrow> 'c \<Rightarrow> AgentCR \<Rightarrow> 'c \<times> gerror option" where
  "updateAgentStatus cl c a =
     (case cl_Get cl c (metaKey KDeployment (ag_Meta a)) of
        Inl err \<Rightarrow> (c, Some err)
      | Inr (DeploymentO d) \<Rightarrow>
          (case cl_StatusUpdate cl c (AgentO (a\<lparr>ag_Status := \<lparr>at_Phase = agentPhase d, at_Replicas = dp_Replicas d, at_ReadyReplicas = dp_ReadyReplicas d\<rparr>\<rparr>)) of
             (c', Some e) \<Rightarrow> (c', Some (Wrap ''failed to update Agent status: '' e))
           | (c', None) \<Rightarrow> (c', None))
      | Inr _ \<Rightarrow> (c, Some wrongKind))"

definition agent_Reconcile :: "'c kclient \<Rightarrow> (rat \<Rightarrow> string) \<Rightarrow> 'c \<Rightarrow> string \<Rightarrow> string \<Rightarrow> 'c \<times> reconciled" where
  "agent_Reconcile cl fmtF c ns name =
     (case cl_Get cl c (KAgent, ns, name) of
        Inl err \<Rightarrow> (c, Returned 0 (IgnoreNotFound cl err))
      | Inr (AgentO a) \<Rightarrow>
          (case createOrUpdateDeployment cl c (deploymentForAgent fmtF a) of
             (c1, Some err) \<Rightarrow> (c1, Returned 0 (Some err))
           | (c1, None) \<Rightarrow>
               (case createOrUpdateService cl c1 (serviceForAgent a) of
                  (c2, Some err) \<Rightarrow> (c2, Returned 0 (Some err))
                | (c2, None) \<Rightarrow>
                    (case updateAgentStatus cl c2 a of
                       (c3, Some err) \<Rightarrow> (c3, Returned 0 (Some err))
                     | (c3, None) \<Rightarrow> (c3, Returned (30 * second) None))))
      | Inr _ \<Rightarrow> (c, Returned 0 (Some wrongKind)))"

section \<open>Policies\<close>

fun validateRules :: "RuleSpec list \<Rightarrow> gerror option" where
  "validateRules [] = None"
| "validateRules (r # rs) =
     (if ru_ID r = [] then Some (Errorf ''rule must have an ID'')
      else if ru_Condition r = [] then Some (Errorf (''rule '' @ ru_ID r @ '' must have a condition''))
      else if ru_Action r = [] then Some (Errorf (''rule '' @ ru_ID r @ '' must have an action''))
      else if ru_Action r \<notin> {''allow'', ''deny'', ''warn'', ''require_approval''}
      then Some (Errorf (''rule '' @ ru_ID r @ '' has invalid action: '' @ ru_Action r))
      else validateRules rs)"

definition validatePolicy :: "PolicyCR \<Rightarrow> gerror option" where
  "validatePolicy p =
     (if ps_Rules (po_Spec p) = [] then Some (Errorf ''policy must have at least one rule'') else validateRules (ps_Rules (po_Spec p)))"

definition applyPolicy :: "PolicyCR \<Rightarrow> gerror option" where
  "applyPolicy p = None"

definition updatePolicyStatus :: "'c kclient \<Rightarrow> int \<Rightarrow> 'c \<Rightarrow> PolicyCR \<Rightarrow> 'c \<times> gerror option" where
  "updatePolicyStatus cl now c p =
     (case cl_StatusUpdate cl c (PolicyO (p\<lparr>po_Status := (po_Status p)\<lparr>pt_Active := ps_Enabled (po_Spec p), pt_LastApplied := Some now\<rparr>\<rparr>)) of
        (c', Some e) \<Rightarrow> (c', Some (Wrap ''failed to update policy status: '' e))
      | (c', None) \<Rightarrow> (c', None))"

definition policy_Reconcile :: "'c kclient \<Rightarrow> int \<Rightarrow> 'c \<Rightarrow> string \<Rightarrow> string \<Rightarrow> 'c \<times> reconciled" where
  "policy_Reconcile cl now c ns name =
     (case cl_Get cl c (KPolicy, ns, name) of
        Inl err \<Rightarrow> (c, Returned 0 (IgnoreNotFound cl err))
      | Inr (PolicyO p) \<Rightarrow>
          (let inactive = p\<lparr>po_Status := (po_Status p)\<lparr>pt_Active := False\<rparr>\<rparr>
           in case validatePolicy p of
                Some err \<Rightarrow>
                  (case cl_StatusUpdate cl c (PolicyO inactive) of
                     (c', Some e) \<Rightarrow> (c', Returned 0 (Some e))
                   | (c', None) \<Rightarrow> (c', Returned 0 (Some err)))
              | None \<Rightarrow>
                  (if ps_Enabled (po_Spec p) \<and> applyPolicy p \<noteq> None then (c, Returned 0 (applyPolicy p))
                   else (case updatePolicyStatus cl now c (if ps_Enabled (po_Spec p) then p else inactive) of
                           (c', Some err) \<Rightarrow> (c', Returned 0 (Some err))
                         | (c', None) \<Rightarrow> (c', Returned (30 * second) None))))
      | Inr _ \<Rightarrow> (c, Returned 0 (Some wrongKind)))"

section \<open>Workflows\<close>

definition yamlLine :: "string \<Rightarrow> string" where
  "yamlLine s = s @ [CHR 0x0A]"

definition quoted :: "string \<Rightarrow> string" where
  "quoted s = [CHR 0x22] @ s @ [CHR 0x22]"

definition stepYaml :: "StepSpec \<Rightarrow> string" where
  "stepYaml s =
     (let ty = (if sp_Type s = [] then ''agent'' else sp_Type s);
          auto = (ty = ''approval'' \<and> sp_Agent s = []);
          ag = (if auto then ''approval'' else sp_Agent s);
          goal = (if auto then ''human sign-off'' else sp_Goal s)
      in yamlLine (''  - name: '' @ sp_Name s) @ yamlLine (''    type: '' @ ty) @ yamlLine (''    agent: '' @ ag) @ yamlLine (''    goal: '' @ quoted goal) @
         (if sp_OutputKey s \<noteq> [] then yamlLine (''    output_key: '' @ sp_OutputKey s) else []) @
         (if sp_Condition s \<noteq> [] then yamlLine (''    condition: '' @ quoted (sp_Condition s)) else []) @
         (if sp_DependsOn s \<noteq> [] then yamlLine ''    depends_on:'' @ concat (map (\<lambda>d. yamlLine (''      - '' @ d)) (sp_DependsOn s)) else []) @
         (if sp_Type s = ''approval''
          then (if sp_Approvers s \<noteq> [] then yamlLine ''    approvers:'' @ concat (map (\<lambda>d. yamlLine (''      - '' @ d)) (sp_Approvers s)) else []) @
               (if sp_ApprovalMessage s \<noteq> [] then yamlLine (''    approval_message: '' @ quoted (sp_ApprovalMessage s)) else [])
          else []))"

definition workflowYaml :: "WorkflowSpec \<Rightarrow> string" where
  "workflowYaml w = yamlLine (''name: '' @ ws_Name w) @ yamlLine (''description: '' @ ws_Description w) @ yamlLine ''steps:'' @ concat (map stepYaml (ws_Steps w))"

definition configMapForWorkflow :: "WorkflowCR \<Rightarrow> ConfigMap" where
  "configMapForWorkflow w = \<lparr>cm_Meta = ownedMeta ''Workflow'' (wo_Meta w) (om_Name (wo_Meta w) @ ''-workflow'')
       [(''app'', ''agentruntime''), (''unagnt.io/workflow'', om_Name (wo_Meta w))],
     cm_Data = [(''workflow.yaml'', workflowYaml (wo_Spec w))]\<rparr>"

definition jobForWorkflow :: "WorkflowCR \<Rightarrow> Job" where
  "jobForWorkflow w =
     (let labels = [(''app'', ''unagnt''), (''unagnt.io/workflow'', om_Name (wo_Meta w))];
          container = \<lparr>cn_Name = ''workflow-executor'', cn_Image = ''unagnt/executor:latest'', cn_Args = [''workflow'', ''run'', ''/config/workflow.yaml''],
            cn_Env = [(''WORKFLOW_NAME'', ws_Name (wo_Spec w)), (''WORKFLOW_NAMESPACE'', om_Namespace (wo_Meta w))], cn_Ports = [],
            cn_Resources = \<lparr>rr_Requests = [], rr_Limits = []\<rparr>, cn_Liveness = None, cn_Readiness = None,
            cn_VolumeMounts = [(''workflow-config'', ''/config'', True)]\<rparr>
      in \<lparr>jb_Meta = ownedMeta ''Workflow'' (wo_Meta w) (om_Name (wo_Meta w)) labels,
           jb_Template = \<lparr>pd_Labels = labels, pd_RestartPolicy = ''OnFailure'', pd_Containers = [container],
             pd_Volumes = [(''workflow-config'', om_Name (wo_Meta w) @ ''-workflow'')]\<rparr>,
           jb_Active = 0, jb_Succeeded = 0, jb_Failed = 0\<rparr>)"

definition createOrUpdateConfigMap :: "'c kclient \<Rightarrow> 'c \<Rightarrow> ConfigMap \<Rightarrow> 'c \<times> gerror option" where
  "createOrUpdateConfigMap cl c m =
     createOrUpdate cl ''ConfigMap'' (\<lambda>f. case f of ConfigMapO found \<Rightarrow> ConfigMapO (found\<lparr>cm_Data := cm_Data m\<rparr>) | _ \<Rightarrow> f) c (ConfigMapO m)"

text \<open>
  The operations on a workflow also return the workflow they have changed in memory: the status of a scheduled workflow is written once more
  after them.
\<close>

definition startWorkflowExecution :: "'c kclient \<Rightarrow> int \<Rightarrow> 'c \<Rightarrow> WorkflowCR \<Rightarrow> 'c \<times> WorkflowCR \<times> reconciled" where
  "startWorkflowExecution cl now c w =
     (case createOrUpdateConfigMap cl c (configMapForWorkflow w) of
        (c1, Some err) \<Rightarrow> (c1, w, Returned 0 (Some err))
      | (c1, None) \<Rightarrow>
          (case cl_Create cl c1 (JobO (jobForWorkflow w)) of
             (c2, Some err) \<Rightarrow> (c2, w, Returned 0 (Some err))
           | (c2, None) \<Rightarrow>
               (case ws_Steps (wo_Spec w) of
                  [] \<Rightarrow> (c2, w, Panicked)
                | s # ss \<Rightarrow>
                    (let w1 = w\<lparr>wo_Status := (wo_Status w)\<lparr>wt_Phase := ''Running'', wt_StartTime := Some now, wt_CurrentStep := sp_Name s,
                                  wt_CompletedSteps := [], wt_FailedSteps := []\<rparr>\<rparr>
                     in case cl_StatusUpdate cl c2 (WorkflowO w1) of
                          (c3, Some err) \<Rightarrow> (c3, w1, Returned 0 (Some err))
                        | (c3, None) \<Rightarrow> (c3, w1, Returned (10 * second) None)))))"

definition monitorWorkflowExecution :: "'c kclient \<Rightarrow> int \<Rightarrow> 'c \<Rightarrow> WorkflowCR \<Rightarrow> 'c \<times> WorkflowCR \<times> reconciled" where
  "monitorWorkflowExecution cl now c w =
     (case cl_Get cl c (metaKey KJob (wo_Meta w)) of
        Inl err \<Rightarrow> (c, w, Returned 0 (Some err))
      | Inr (JobO j) \<Rightarrow>
          (if jb_Succeeded j > 0 then
             (let w1 = w\<lparr>wo_Status := (wo_Status w)\<lparr>wt_Phase := ''Succeeded'', wt_CompletionTime := Some now, wt_CurrentStep := []\<rparr>\<rparr>
              in case cl_StatusUpdate cl c (WorkflowO w1) of (c', err) \<Rightarrow> (c', w1, Returned 0 err))
           else if jb_Failed j > 0 then
             (let w1 = w\<lparr>wo_Status := (wo_Status w)\<lparr>wt_Phase := ''Failed'', wt_CompletionTime := Some now\<rparr>\<rparr>
              in case cl_StatusUpdate cl c (WorkflowO w1) of (c', err) \<Rightarrow> (c', w1, Returned 0 err))
           else (c, w, Returned (10 * second) None))
      | Inr _ \<Rightarrow> (c, w, Returned 0 (Some wrongKind)))"

definition handleWorkflowExecution :: "'c kclient \<Rightarrow> int \<Rightarrow> 'c \<Rightarrow> WorkflowCR \<Rightarrow> 'c \<times> WorkflowCR \<times> reconciled" where
  "handleWorkflowExecution cl now c w =
     (if wt_Phase (wo_Status w) = ''Running'' then monitorWorkflowExecution cl now c w
      else if wt_Phase (wo_Status w) = [] \<or> wt_Phase (wo_Status w) = ''Pending'' then startWorkflowExecution cl now c w
      else (c, w, Returned 0 None))"

text \<open>\<open>clock n\<close> is the answer of the n-th reading of the clock in a reconciliation; \<open>parse\<close> gives the next time of a cron expression.\<close>

definition shouldRun :: "(int \<Rightarrow> int) \<Rightarrow> int \<Rightarrow> WorkflowCR \<Rightarrow> bool" where
  "shouldRun nxt now w = (case wt_LastScheduleTime (wo_Status w) of None \<Rightarrow> True | Some lastRun \<Rightarrow> now \<ge> nxt lastRun)"

definition requeueDelay :: "int \<Rightarrow> int" where
  "requeueDelay d = (let d1 = (if d > 60 * second then 60 * second else d) in if d1 < 0 then 10 * second else d1)"

definition handleScheduledWorkflow :: "'c kclient \<Rightarrow> (string \<Rightarrow> gerror + (int \<Rightarrow> int)) \<Rightarrow> (nat \<Rightarrow> int) \<Rightarrow> 'c \<Rightarrow> WorkflowCR \<Rightarrow> 'c \<times> reconciled" where
  "handleScheduledWorkflow cl parse clock c w =
     (if ws_Schedule (wo_Spec w) = [] then (c, Returned 0 None)
      else (case parse (ws_Schedule (wo_Spec w)) of
              Inl err \<Rightarrow>
                (case cl_StatusUpdate cl c (WorkflowO (w\<lparr>wo_Status := (wo_Status w)\<lparr>wt_Phase := ''Failed'',
                         wt_Message := ''Invalid cron schedule: '' @ error_string err\<rparr>\<rparr>)) of
                   (c', Some e) \<Rightarrow> (c', Returned 0 (Some e))
                 | (c', None) \<Rightarrow> (c', Returned 0 (Some err)))
            | Inr nxt \<Rightarrow>
                (let w1 = w\<lparr>wo_Status := (wo_Status w)\<lparr>wt_NextScheduleTime := Some (nxt (clock 0))\<rparr>\<rparr>
                 in case (if shouldRun nxt (clock 0) w1
                          then handleWorkflowExecution cl (clock 2) c (w1\<lparr>wo_Status := (wo_Status w1)\<lparr>wt_LastScheduleTime := Some (clock 1)\<rparr>\<rparr>)
                          else (c, w1, Returned 0 None)) of
                      (c1, w2, Panicked) \<Rightarrow> (c1, Panicked)
                    | (c1, w2, Returned d err) \<Rightarrow>
                        (case cl_StatusUpdate cl c1 (WorkflowO w2) of
                           (c2, Some e) \<Rightarrow> (c2, Returned 0 (Some e))
                         | (c2, None) \<Rightarrow> (c2, Returned (requeueDelay (nxt (clock 0) - clock 3)) None)))))"

definition wf_Reconcile :: "'c kclient \<Rightarrow> (string \<Rightarrow> gerror + (int \<Rightarrow> int)) \<Rightarrow> (nat \<Rightarrow> int) \<Rightarrow> 'c \<Rightarrow> string \<Rightarrow> string \<Rightarrow> 'c \<times> reconciled" where
  "wf_Reconcile cl parse clock c ns name =
     (case cl_Get cl c (KWorkflow, ns, name) of
        Inl err \<Rightarrow> (c, Returned 0 (IgnoreNotFound cl err))
      | Inr (WorkflowO w) \<Rightarrow>
          (if ws_Schedule (wo_Spec w) \<noteq> [] then handleScheduledWorkflow cl parse clock c w
           else (case handleWorkflowExecution cl (clock 0) c w of (c', w', out) \<Rightarrow> (c', out)))
      | Inr _ \<Rightarrow> (c, Returned 0 (Some wrongKind)))"

section \<open>What the API server promises\<close>

text \<open>An update of the status takes the status of the object and keeps the rest of what is stored.\<close>

fun withStatus :: "kobject \<Rightarrow> kobject \<Rightarrow> kobject" where
  "withStatus (AgentO a) (AgentO old) = AgentO (old\<lparr>ag_Status := ag_Status a\<rparr>)"
| "withStatus (WorkflowO w) (WorkflowO old) = WorkflowO (old\<lparr>wo_Status := wo_Status w\<rparr>)"
| "withStatus (PolicyO p) (PolicyO old) = PolicyO (old\<lparr>po_Status := po_Status p\<rparr>)"
| "withStatus new old = old"

text \<open>
  \<open>stored\<close> is the content of the cluster. Get returns what is stored under the key; an object is created only where there is none; updates need an object
  and change only it, and a call that fails changes nothing.
\<close>

definition api_laws :: "'c kclient \<Rightarrow> ('c \<Rightarrow> object_key \<Rightarrow> kobject option) \<Rightarrow> bool" where
  "api_laws cl stored \<longleftrightarrow>
     (\<forall>c k obj. cl_Get cl c k = Inr obj \<longrightarrow> stored c k = Some obj) \<and>
     (\<forall>c k obj. stored c k = Some obj \<longrightarrow> ObjectKeyFromObject obj = k) \<and>
     (\<forall>c k err. cl_Get cl c k = Inl err \<longrightarrow> cl_IsNotFound cl err \<longrightarrow> stored c k = None) \<and>
     (\<forall>c obj c'. cl_Create cl c obj = (c', None) \<longrightarrow> stored c (ObjectKeyFromObject obj) = None \<and> stored c' = (stored c)(ObjectKeyFromObject obj \<mapsto> obj)) \<and>
     (\<forall>c obj c' err. cl_Create cl c obj = (c', Some err) \<longrightarrow> stored c' = stored c) \<and>
     (\<forall>c obj c'. cl_Update cl c obj = (c', None) \<longrightarrow>
        (\<exists>old. stored c (ObjectKeyFromObject obj) = Some old \<and> stored c' = (stored c)(ObjectKeyFromObject obj \<mapsto> withStatus old obj))) \<and>
     (\<forall>c obj c' err. cl_Update cl c obj = (c', Some err) \<longrightarrow> stored c' = stored c) \<and>
     (\<forall>c obj c'. cl_StatusUpdate cl c obj = (c', None) \<longrightarrow>
        (\<exists>old. stored c (ObjectKeyFromObject obj) = Some old \<and> stored c' = (stored c)(ObjectKeyFromObject obj \<mapsto> withStatus obj old))) \<and>
     (\<forall>c obj c' err. cl_StatusUpdate cl c obj = (c', Some err) \<longrightarrow> stored c' = stored c)"

lemmas api_lawsD = iffD1 [OF api_laws_def]

lemmas api_get = api_lawsD [THEN conjunct1, rule_format]
lemmas api_key = api_lawsD [THEN conjunct2, THEN conjunct1, rule_format]
lemmas api_missing = api_lawsD [THEN conjunct2, THEN conjunct2, THEN conjunct1, rule_format]
lemmas api_created = api_lawsD [THEN conjunct2, THEN conjunct2, THEN conjunct2, THEN conjunct1, rule_format]
lemmas api_create_failed = api_lawsD [THEN conjunct2, THEN conjunct2, THEN conjunct2, THEN conjunct2, THEN conjunct1, rule_format]
lemmas api_updated = api_lawsD [THEN conjunct2, THEN conjunct2, THEN conjunct2, THEN conjunct2, THEN conjunct2, THEN conjunct1, rule_format]
lemmas api_update_failed = api_lawsD [THEN conjunct2, THEN conjunct2, THEN conjunct2, THEN conjunct2, THEN conjunct2, THEN conjunct2, THEN conjunct1, rule_format]
lemmas api_status = api_lawsD [THEN conjunct2, THEN conjunct2, THEN conjunct2, THEN conjunct2, THEN conjunct2, THEN conjunct2, THEN conjunct2, THEN conjunct1, rule_format]
lemmas api_status_failed = api_lawsD [THEN conjunct2, THEN conjunct2, THEN conjunct2, THEN conjunct2, THEN conjunct2, THEN conjunct2, THEN conjunct2, THEN conjunct2, rule_format]

lemma key_kind:
  "ObjectKeyFromObject obj = (KConfigMap, ns, n) \<Longrightarrow> \<exists>m. obj = ConfigMapO m"
  "ObjectKeyFromObject obj = (KDeployment, ns, n) \<Longrightarrow> \<exists>d. obj = DeploymentO d"
  "ObjectKeyFromObject obj = (KService, ns, n) \<Longrightarrow> \<exists>sv. obj = ServiceO sv"
  "ObjectKeyFromObject obj = (KJob, ns, n) \<Longrightarrow> \<exists>j. obj = JobO j"
  "ObjectKeyFromObject obj = (KWorkflow, ns, n) \<Longrightarrow> \<exists>w. obj = WorkflowO w"
  "ObjectKeyFromObject obj = (KAgent, ns, n) \<Longrightarrow> \<exists>a. obj = AgentO a"
  "ObjectKeyFromObject obj = (KPolicy, ns, n) \<Longrightarrow> \<exists>p. obj = PolicyO p"
  by (cases obj; simp add: metaKey_def)+

lemma ownedMeta_key [simp]: "metaKey k (ownedMeta ki ow n ls) = (k, om_Namespace ow, n)"
  by (simp add: metaKey_def ownedMeta_def)

text \<open>Creating or updating an object puts the wanted object, or what was found merged with it, under its key and changes nothing else.\<close>

lemma createOrUpdate_effect:
  assumes laws: "api_laws cl stored" and run: "createOrUpdate cl what merge c wanted = (c', err)"
    and merge: "\<And>found. stored c (ObjectKeyFromObject wanted) = Some found \<Longrightarrow>
      ObjectKeyFromObject (merge found) = ObjectKeyFromObject wanted \<and> (\<forall>old. withStatus old (merge found) = merge found)"
  shows "(err = None \<longrightarrow> (\<exists>obj. stored c' = (stored c)(ObjectKeyFromObject wanted \<mapsto> obj) \<and>
           (obj = wanted \<or> (\<exists>found. stored c (ObjectKeyFromObject wanted) = Some found \<and> obj = merge found)))) \<and>
         (err \<noteq> None \<longrightarrow> stored c' = stored c)"
proof (cases "cl_Get cl c (ObjectKeyFromObject wanted)")
  case (Inl e)
  obtain c1 e1 where "cl_Create cl c wanted = (c1, e1)" by fastforce
  with run Inl api_created [OF laws] api_create_failed [OF laws] show ?thesis
    by (cases e1) (auto simp: createOrUpdate_def IgnoreNotFound_def split: if_splits)
next
  case (Inr found)
  note found = api_get [OF laws Inr]
  obtain c1 e1 where u: "cl_Update cl c (merge found) = (c1, e1)" by fastforce
  show ?thesis
  proof (cases e1)
    case None
    with run Inr u have "c' = c1" "err = None" by (auto simp: createOrUpdate_def)
    with api_updated [OF laws, of c "merge found" c1] u None merge [OF found] found show ?thesis by auto
  next
    case (Some e)
    with run Inr u have "c' = c1" "err \<noteq> None" by (auto simp: createOrUpdate_def)
    with api_update_failed [OF laws, of c "merge found" c1 e] u Some show ?thesis by auto
  qed
qed

lemma createOrUpdateConfigMap_effect:
  assumes "api_laws cl stored" "createOrUpdateConfigMap cl c m = (c', err)"
  shows "(err = None \<longrightarrow> (\<exists>m'. stored c' = (stored c)(metaKey KConfigMap (cm_Meta m) \<mapsto> ConfigMapO m') \<and> cm_Data m' = cm_Data m)) \<and>
         (err \<noteq> None \<longrightarrow> stored c' = stored c)"
proof -
  let ?merge = "\<lambda>f. case f of ConfigMapO found \<Rightarrow> ConfigMapO (found\<lparr>cm_Data := cm_Data m\<rparr>) | _ \<Rightarrow> f"
  have cm: "stored c (metaKey KConfigMap (cm_Meta m)) = Some found \<Longrightarrow> \<exists>m'. found = ConfigMapO m' \<and> metaKey KConfigMap (cm_Meta m') = metaKey KConfigMap (cm_Meta m)" for found
    using api_key [OF assms(1)] key_kind(1) by (fastforce simp: metaKey_def)
  have "createOrUpdate cl ''ConfigMap'' ?merge c (ConfigMapO m) = (c', err)" using assms(2) by (simp add: createOrUpdateConfigMap_def)
  note createOrUpdate_effect [OF assms(1) this]
  moreover have "ObjectKeyFromObject (?merge found) = ObjectKeyFromObject (ConfigMapO m) \<and> (\<forall>old. withStatus old (?merge found) = ?merge found)"
    if "stored c (ObjectKeyFromObject (ConfigMapO m)) = Some found" for found using that cm [of found] by (auto simp: metaKey_def)
  ultimately show ?thesis using cm by (fastforce simp: metaKey_def)
qed

lemma status_written:
  assumes "api_laws cl stored" "cl_StatusUpdate cl c (WorkflowO w) = (c', err)" "stored c (metaKey KWorkflow (wo_Meta w)) = Some (WorkflowO w0)"
  shows "stored c' = (if err = None then (stored c)(metaKey KWorkflow (wo_Meta w) \<mapsto> WorkflowO (w0\<lparr>wo_Status := wo_Status w\<rparr>)) else stored c)"
  using api_status [OF assms(1), of c "WorkflowO w" c'] api_status_failed [OF assms(1), of c "WorkflowO w" c'] assms(2,3) by (cases err) auto

section \<open>The life of a workflow\<close>

type_synonym cluster = "object_key \<Rightarrow> kobject option"

text \<open>What a phase says of the cluster; \<open>bad\<close> tells that the schedule of the workflow is not a cron expression.\<close>

definition phase_ok :: "cluster \<Rightarrow> string \<Rightarrow> string \<Rightarrow> WorkflowSpec \<Rightarrow> bool \<Rightarrow> string \<Rightarrow> bool" where
  "phase_ok S ns name spec bad ph \<longleftrightarrow>
     ph \<in> {[], ''Pending'', ''Running'', ''Succeeded'', ''Failed''} \<and>
     (ph = ''Running'' \<longrightarrow> (\<exists>j m. S (KJob, ns, name) = Some (JobO j) \<and> S (KConfigMap, ns, name @ ''-workflow'') = Some (ConfigMapO m) \<and>
        map_of (cm_Data m) ''workflow.yaml'' = Some (workflowYaml spec))) \<and>
     (ph = ''Succeeded'' \<longrightarrow> (\<exists>j. S (KJob, ns, name) = Some (JobO j) \<and> jb_Succeeded j > 0)) \<and>
     (ph = ''Failed'' \<longrightarrow> bad \<or> (\<exists>j. S (KJob, ns, name) = Some (JobO j) \<and> jb_Failed j > 0))"

definition badSchedule :: "(string \<Rightarrow> gerror + (int \<Rightarrow> int)) \<Rightarrow> WorkflowSpec \<Rightarrow> bool" where
  "badSchedule parse spec = (case parse (ws_Schedule spec) of Inl err \<Rightarrow> True | Inr nxt \<Rightarrow> False)"

text \<open>The phases in the order in which a workflow goes through them.\<close>

definition phaseRank :: "string \<Rightarrow> nat" where
  "phaseRank ph = (if ph = [] \<or> ph = ''Pending'' then 0 else if ph = ''Running'' then 1 else 2)"

lemma phase_ok_upd [simp]: "phase_ok (S((KWorkflow, ns, name) \<mapsto> x)) ns' name' spec bad ph = phase_ok S ns' name' spec bad ph"
  by (simp add: phase_ok_def)

lemma phase_ok_idle: "phaseRank ph = 0 \<Longrightarrow> phase_ok S ns name spec bad ph"
  by (auto simp: phaseRank_def phase_ok_def split: if_splits)

text \<open>The workflow of the given name is stored with this specification and phase.\<close>

definition workflow_at :: "cluster \<Rightarrow> string \<Rightarrow> string \<Rightarrow> WorkflowSpec \<Rightarrow> string \<Rightarrow> bool" where
  "workflow_at S ns name spec ph \<longleftrightarrow> (\<exists>w. S (KWorkflow, ns, name) = Some (WorkflowO w) \<and> wo_Spec w = spec \<and> wt_Phase (wo_Status w) = ph)"

text \<open>What an operation on a workflow in memory does to the cluster, with the phases before and after it.\<close>

definition moves :: "cluster \<Rightarrow> cluster \<Rightarrow> string \<Rightarrow> string \<Rightarrow> WorkflowSpec \<Rightarrow> bool \<Rightarrow> string \<Rightarrow> string \<Rightarrow> bool" where
  "moves S S' ns name spec bad ph ph' \<longleftrightarrow>
     phaseRank ph \<le> phaseRank ph' \<and> phase_ok S' ns name spec bad ph \<and> phase_ok S' ns name spec bad ph' \<and>
     (\<exists>q \<in> {ph, ph'}. workflow_at S' ns name spec q) \<and>
     (\<forall>k. k \<notin> {(KWorkflow, ns, name), (KJob, ns, name), (KConfigMap, ns, name @ ''-workflow'')} \<longrightarrow> S' k = S k) \<and>
     (phaseRank ph = 2 \<longrightarrow> (\<forall>k. k \<noteq> (KWorkflow, ns, name) \<longrightarrow> S' k = S k) \<and> (\<not> bad \<longrightarrow> ph' = ph))"

text \<open>A workflow in memory that differs from the stored one in its status only, the phase apart.\<close>

definition in_memory :: "cluster \<Rightarrow> string \<Rightarrow> string \<Rightarrow> WorkflowSpec \<Rightarrow> WorkflowCR \<Rightarrow> bool" where
  "in_memory S ns name spec w \<longleftrightarrow> metaKey KWorkflow (wo_Meta w) = (KWorkflow, ns, name) \<and> wo_Spec w = spec \<and>
     workflow_at S ns name spec (wt_Phase (wo_Status w))"

lemma write_phase:
  assumes laws: "api_laws cl stored" and run: "cl_StatusUpdate cl c (WorkflowO w) = (c', err)"
    and key: "metaKey KWorkflow (wo_Meta w) = (KWorkflow, ns, name)" and old: "workflow_at (stored c) ns name spec ph"
  shows "(\<exists>q \<in> {ph, wt_Phase (wo_Status w)}. workflow_at (stored c') ns name spec q) \<and>
    (err = None \<longrightarrow> workflow_at (stored c') ns name spec (wt_Phase (wo_Status w))) \<and>
    (\<forall>k. k \<noteq> (KWorkflow, ns, name) \<longrightarrow> stored c' k = stored c k) \<and>
    (\<forall>ph. phase_ok (stored c') ns name spec bad ph = phase_ok (stored c) ns name spec bad ph)"
proof -
  obtain w0 where w0: "stored c (KWorkflow, ns, name) = Some (WorkflowO w0)" "wo_Spec w0 = spec" "wt_Phase (wo_Status w0) = ph"
    using old by (auto simp: workflow_at_def)
  with status_written [OF laws run, unfolded key] show ?thesis by (simp add: workflow_at_def)
qed

lemma monitor_moves:
  assumes laws: "api_laws cl stored" and mem: "in_memory (stored c) ns name spec w" and ph: "wt_Phase (wo_Status w) = ''Running''"
    and ok: "phase_ok (stored c) ns name spec bad ''Running''" and run: "monitorWorkflowExecution cl now c w = (c', w', out)"
  shows "moves (stored c) (stored c') ns name spec bad ''Running'' (wt_Phase (wo_Status w')) \<and> wo_Meta w' = wo_Meta w \<and> wo_Spec w' = wo_Spec w"
proof -
  have at: "workflow_at (stored c) ns name spec ''Running''" and key: "metaKey KWorkflow (wo_Meta w) = (KWorkflow, ns, name)"
    using mem ph by (simp_all add: in_memory_def)
  have jkey: "metaKey KJob (wo_Meta w) = (KJob, ns, name)" using key by (simp add: metaKey_def)
  have stay: "moves (stored c) (stored c) ns name spec bad ''Running'' ''Running''" using at ok by (simp add: moves_def phaseRank_def)
  have wrote: "moves (stored c) (stored c') ns name spec bad ''Running'' (wt_Phase (wo_Status w1))"
    if "cl_StatusUpdate cl c (WorkflowO w1) = (c', err)" "wo_Meta w1 = wo_Meta w" "phase_ok (stored c) ns name spec bad (wt_Phase (wo_Status w1))"
      "phaseRank (wt_Phase (wo_Status w1)) = 2" for w1 err
    using write_phase [OF laws that(1) _ at, of bad] that key ok by (simp add: moves_def phaseRank_def)
  show ?thesis
  proof (cases "cl_Get cl c (KJob, ns, name)")
    case (Inl e)
    with run stay ph show ?thesis by (simp add: monitorWorkflowExecution_def jkey)
  next
    case (Inr obj)
    then have st: "stored c (KJob, ns, name) = Some obj" using api_get [OF laws] by blast
    then obtain j where j: "obj = JobO j" using api_key [OF laws] key_kind(4) by blast
    have good: "phase_ok (stored c) ns name spec bad ''Succeeded''" if "jb_Succeeded j > 0" using that st j by (simp add: phase_ok_def)
    have fail: "phase_ok (stored c) ns name spec bad ''Failed''" if "jb_Failed j > 0" using that st j by (simp add: phase_ok_def)
    have "c' = c \<and> w' = w \<or> (\<exists>err. cl_StatusUpdate cl c (WorkflowO w') = (c', err) \<and> wo_Meta w' = wo_Meta w \<and> wo_Spec w' = wo_Spec w \<and>
        (wt_Phase (wo_Status w') = ''Succeeded'' \<and> jb_Succeeded j > 0 \<or> wt_Phase (wo_Status w') = ''Failed'' \<and> jb_Failed j > 0))"
      using run Inr j by (auto simp: monitorWorkflowExecution_def jkey Let_def split: if_splits prod.splits)
    then show ?thesis
    proof (elim disjE exE conjE)
      assume "c' = c" "w' = w"
      with stay ph show ?thesis by simp
    next
      fix err
      assume "cl_StatusUpdate cl c (WorkflowO w') = (c', err)" "wo_Meta w' = wo_Meta w" "wo_Spec w' = wo_Spec w"
        "wt_Phase (wo_Status w') = ''Succeeded''" "jb_Succeeded j > 0"
      with wrote [of w' err] good show ?thesis by (simp add: phaseRank_def)
    next
      fix err
      assume "cl_StatusUpdate cl c (WorkflowO w') = (c', err)" "wo_Meta w' = wo_Meta w" "wo_Spec w' = wo_Spec w"
        "wt_Phase (wo_Status w') = ''Failed''" "jb_Failed j > 0"
      with wrote [of w' err] fail show ?thesis by (simp add: phaseRank_def)
    qed
  qed
qed

lemma start_moves:
  assumes laws: "api_laws cl stored" and mem: "in_memory (stored c) ns name spec w" and ph: "phaseRank (wt_Phase (wo_Status w)) = 0"
    and run: "startWorkflowExecution cl now c w = (c', w', out)"
  shows "moves (stored c) (stored c') ns name spec bad (wt_Phase (wo_Status w)) (wt_Phase (wo_Status w')) \<and> wo_Meta w' = wo_Meta w \<and> wo_Spec w' = wo_Spec w"
proof -
  let ?cm = "(KConfigMap, ns, name @ ''-workflow'')" and ?jb = "(KJob, ns, name)"
  have at: "workflow_at (stored c) ns name spec (wt_Phase (wo_Status w))" and key: "om_Namespace (wo_Meta w) = ns" "om_Name (wo_Meta w) = name"
    and spec: "wo_Spec w = spec" using mem by (simp_all add: in_memory_def metaKey_def)
  have same: "moves (stored c) S ns name spec bad (wt_Phase (wo_Status w)) (wt_Phase (wo_Status w))"
    if "\<forall>k. k \<noteq> ?cm \<longrightarrow> k \<noteq> ?jb \<longrightarrow> S k = stored c k" for S
    using at that phase_ok_idle [OF ph] ph by (simp add: moves_def workflow_at_def)
  obtain c1 e1 where m: "createOrUpdateConfigMap cl c (configMapForWorkflow w) = (c1, e1)" by fastforce
  have mkey: "metaKey KConfigMap (cm_Meta (configMapForWorkflow w)) = ?cm" by (simp add: configMapForWorkflow_def key)
  note cm = createOrUpdateConfigMap_effect [OF laws m, unfolded mkey]
  show ?thesis
  proof (cases e1)
    case (Some err)
    with run m cm same [of "stored c"] show ?thesis by (simp add: startWorkflowExecution_def)
  next
    case None
    then obtain m' where m': "stored c1 = (stored c)(?cm \<mapsto> ConfigMapO m')" "cm_Data m' = cm_Data (configMapForWorkflow w)" using cm by blast
    obtain c2 e2 where j: "cl_Create cl c1 (JobO (jobForWorkflow w)) = (c2, e2)" by fastforce
    have jkey: "ObjectKeyFromObject (JobO (jobForWorkflow w)) = ?jb" by (simp add: jobForWorkflow_def Let_def key)
    show ?thesis
    proof (cases e2)
      case (Some err)
      with api_create_failed [OF laws] j have "stored c2 = stored c1" by blast
      with run m None j Some m'(1) same [of "stored c1"] show ?thesis by (simp add: startWorkflowExecution_def)
    next
      case e2: None
      then have c2: "stored c2 = (stored c1)(?jb \<mapsto> JobO (jobForWorkflow w))" using api_created [OF laws, of c1 _ c2] j jkey by simp
      show ?thesis
      proof (cases "ws_Steps spec")
        case Nil
        with run m None j e2 m'(1) c2 same [of "stored c2"] spec show ?thesis by (simp add: startWorkflowExecution_def)
      next
        case (Cons st sts)
        define w1 where "w1 = w\<lparr>wo_Status := (wo_Status w)\<lparr>wt_Phase := ''Running'', wt_StartTime := Some now, wt_CurrentStep := sp_Name st,
          wt_CompletedSteps := [], wt_FailedSteps := []\<rparr>\<rparr>"
        obtain c3 e3 where u: "cl_StatusUpdate cl c2 (WorkflowO w1) = (c3, e3)" by fastforce
        have out: "c' = c3" "w' = w1" using run m None j e2 Cons spec u by (auto simp: startWorkflowExecution_def w1_def Let_def split: option.splits)
        have at2: "workflow_at (stored c2) ns name spec (wt_Phase (wo_Status w))" using at by (simp add: workflow_at_def c2 m'(1))
        have ok: "phase_ok (stored c2) ns name spec bad ''Running''"
          using m'(2) by (simp add: phase_ok_def c2 m'(1) configMapForWorkflow_def spec)
        have fr: "\<forall>k. k \<notin> {?jb, ?cm} \<longrightarrow> stored c2 k = stored c k" by (simp add: c2 m'(1))
        have w1: "wt_Phase (wo_Status w1) = ''Running''" "wo_Meta w1 = wo_Meta w" "wo_Spec w1 = wo_Spec w" by (simp_all add: w1_def)
        have "metaKey KWorkflow (wo_Meta w1) = (KWorkflow, ns, name)" by (simp add: w1 metaKey_def key)
        note wr = write_phase [OF laws u this at2, of bad, unfolded w1]
        have "moves (stored c) (stored c3) ns name spec bad (wt_Phase (wo_Status w)) ''Running''"
          unfolding moves_def using wr ok phase_ok_idle [OF ph] ph fr by (auto simp: phaseRank_def)
        then show ?thesis by (simp add: out w1)
      qed
    qed
  qed
qed

lemma handle_moves:
  assumes "api_laws cl stored" "in_memory (stored c) ns name spec w" "phase_ok (stored c) ns name spec bad (wt_Phase (wo_Status w))"
    "handleWorkflowExecution cl now c w = (c', w', out)"
  shows "moves (stored c) (stored c') ns name spec bad (wt_Phase (wo_Status w)) (wt_Phase (wo_Status w')) \<and> wo_Meta w' = wo_Meta w \<and> wo_Spec w' = wo_Spec w"
proof (cases "phaseRank (wt_Phase (wo_Status w)) = 0")
  case True
  then have "startWorkflowExecution cl now c w = (c', w', out)" using assms(4) by (auto simp: handleWorkflowExecution_def phaseRank_def split: if_splits)
  from start_moves [OF assms(1,2) True this] show ?thesis .
next
  case False
  show ?thesis
  proof (cases "wt_Phase (wo_Status w) = ''Running''")
    case True
    with assms monitor_moves [OF assms(1,2) True, of bad now c' w' out] show ?thesis by (simp add: handleWorkflowExecution_def)
  next
    case False': False
    with False have "c' = c" "w' = w" using assms(4) by (auto simp: handleWorkflowExecution_def phaseRank_def split: if_splits)
    with assms(2,3) show ?thesis by (simp add: moves_def in_memory_def)
  qed
qed

lemma moves_written:
  assumes laws: "api_laws cl stored" and m: "moves S (stored c) ns name spec bad ph (wt_Phase (wo_Status w))"
    and key: "metaKey KWorkflow (wo_Meta w) = (KWorkflow, ns, name)" and run: "cl_StatusUpdate cl c (WorkflowO w) = (c', err)"
  shows "moves S (stored c') ns name spec bad ph (wt_Phase (wo_Status w))"
proof -
  obtain q where q: "q \<in> {ph, wt_Phase (wo_Status w)}" "workflow_at (stored c) ns name spec q" using m unfolding moves_def by blast
  note wr = write_phase [OF laws run key q(2), of bad]
  then have "\<exists>q \<in> {ph, wt_Phase (wo_Status w)}. workflow_at (stored c') ns name spec q" using q(1) by blast
  moreover have "phase_ok (stored c') ns name spec bad ph" "phase_ok (stored c') ns name spec bad (wt_Phase (wo_Status w))"
    using wr m unfolding moves_def by blast+
  moreover have "stored c' k = stored c k" if "k \<noteq> (KWorkflow, ns, name)" for k using wr that by blast
  ultimately show ?thesis using m by (simp add: moves_def)
qed

lemma scheduled_moves:
  assumes laws: "api_laws cl stored" and mem: "in_memory (stored c) ns name spec w"
    and ok: "phase_ok (stored c) ns name spec (badSchedule parse spec) (wt_Phase (wo_Status w))"
    and run: "handleScheduledWorkflow cl parse clock c w = (c', out)"
  shows "\<exists>ph'. moves (stored c) (stored c') ns name spec (badSchedule parse spec) (wt_Phase (wo_Status w)) ph'"
proof -
  let ?ph = "wt_Phase (wo_Status w)" and ?bad = "badSchedule parse spec"
  have at: "workflow_at (stored c) ns name spec ?ph" and key: "metaKey KWorkflow (wo_Meta w) = (KWorkflow, ns, name)" and spec: "wo_Spec w = spec"
    using mem by (simp_all add: in_memory_def)
  have stay: "moves (stored c) (stored c) ns name spec ?bad ?ph ?ph" using at ok by (simp add: moves_def)
  show ?thesis
  proof (cases "parse (ws_Schedule spec)")
    case (Inl e)
    define w1 where "w1 = w\<lparr>wo_Status := (wo_Status w)\<lparr>wt_Phase := ''Failed'', wt_Message := ''Invalid cron schedule: '' @ error_string e\<rparr>\<rparr>"
    have w1: "wt_Phase (wo_Status w1) = ''Failed''" "wo_Meta w1 = wo_Meta w" by (simp_all add: w1_def)
    have "phase_ok (stored c) ns name spec ?bad ''Failed''" using Inl by (simp add: phase_ok_def badSchedule_def)
    with stay Inl have m: "moves (stored c) (stored c) ns name spec ?bad ?ph (wt_Phase (wo_Status w1))"
      by (auto simp: moves_def w1 phaseRank_def badSchedule_def)
    obtain c1 e1 where u: "cl_StatusUpdate cl c (WorkflowO w1) = (c1, e1)" by fastforce
    have "c' = c \<or> c' = c1" using run Inl spec u [unfolded w1_def] by (auto simp: handleScheduledWorkflow_def split: if_splits option.splits)
    with stay moves_written [OF laws m _ u] key w1(2) show ?thesis by auto
  next
    case (Inr nxt)
    define w1 where "w1 = w\<lparr>wo_Status := (wo_Status w)\<lparr>wt_NextScheduleTime := Some (nxt (clock 0))\<rparr>\<rparr>"
    define w1' where "w1' = w1\<lparr>wo_Status := (wo_Status w1)\<lparr>wt_LastScheduleTime := Some (clock 1)\<rparr>\<rparr>"
    obtain c1 w2 o2 where e: "(if shouldRun nxt (clock 0) w1 then handleWorkflowExecution cl (clock 2) c w1' else (c, w1, Returned 0 None)) = (c1, w2, o2)"
      by (metis prod_cases3)
    have mem1: "in_memory (stored c) ns name spec w1'" "phase_ok (stored c) ns name spec ?bad (wt_Phase (wo_Status w1'))"
      using mem ok by (simp_all add: in_memory_def w1'_def w1_def)
    have m: "moves (stored c) (stored c1) ns name spec ?bad ?ph (wt_Phase (wo_Status w2)) \<and> wo_Meta w2 = wo_Meta w"
      using e handle_moves [OF laws mem1, of "clock 2" c1 w2 o2] stay by (auto simp: w1'_def w1_def split: if_splits)
    obtain c2 e2 where u: "cl_StatusUpdate cl c1 (WorkflowO w2) = (c2, e2)" by fastforce
    have "c' = c \<or> c' = c1 \<or> c' = c2"
      using run Inr spec u e
      by (auto simp: handleScheduledWorkflow_def Let_def w1_def [symmetric] w1'_def [symmetric] simp del: One_nat_def split: if_splits option.splits reconciled.splits prod.splits)
    with stay m moves_written [OF laws _ _ u, of "stored c" ns name spec ?bad ?ph] key show ?thesis by auto
  qed
qed

text \<open>One reconciliation of a stored workflow.\<close>

lemma wf_Reconcile_moves:
  assumes laws: "api_laws cl stored" and at: "workflow_at (stored c) ns name spec ph" and ok: "phase_ok (stored c) ns name spec (badSchedule parse spec) ph"
    and run: "wf_Reconcile cl parse clock c ns name = (c', out)"
  shows "\<exists>ph'. moves (stored c) (stored c') ns name spec (badSchedule parse spec) ph ph'"
proof (cases "cl_Get cl c (KWorkflow, ns, name)")
  case (Inl e)
  with run at ok show ?thesis by (auto simp: wf_Reconcile_def moves_def intro!: exI [of _ ph])
next
  case (Inr obj)
  then have st: "stored c (KWorkflow, ns, name) = Some obj" using api_get [OF laws] by blast
  then obtain w where w: "obj = WorkflowO w" "wo_Spec w = spec" "wt_Phase (wo_Status w) = ph" using at by (auto simp: workflow_at_def)
  have "metaKey KWorkflow (wo_Meta w) = (KWorkflow, ns, name)" using api_key [OF laws st] w(1) by simp
  then have mem: "in_memory (stored c) ns name spec w" using at w by (simp add: in_memory_def)
  show ?thesis
  proof (cases "ws_Schedule spec = []")
    case True
    obtain w' where "handleWorkflowExecution cl (clock 0) c w = (c', w', out)"
      using run Inr w True by (auto simp: wf_Reconcile_def split: prod.splits)
    with handle_moves [OF laws mem] ok w(3) show ?thesis by blast
  next
    case False
    then have "handleScheduledWorkflow cl parse clock c w = (c', out)" using run Inr w by (simp add: wf_Reconcile_def)
    with scheduled_moves [OF laws mem] ok w(3) show ?thesis by blast
  qed
qed

section \<open>The cluster at work\<close>

text \<open>
  What else happens in the cluster: the workflow and its definition are left alone, the counters of its job only grow. Everything else may change.
\<close>

definition cluster_moves :: "string \<Rightarrow> string \<Rightarrow> cluster \<Rightarrow> cluster \<Rightarrow> bool" where
  "cluster_moves ns name S S' \<longleftrightarrow>
     S' (KWorkflow, ns, name) = S (KWorkflow, ns, name) \<and> S' (KConfigMap, ns, name @ ''-workflow'') = S (KConfigMap, ns, name @ ''-workflow'') \<and>
     (\<forall>j. S (KJob, ns, name) = Some (JobO j) \<longrightarrow>
        (\<exists>j'. S' (KJob, ns, name) = Some (JobO j') \<and> jb_Succeeded j \<le> jb_Succeeded j' \<and> jb_Failed j \<le> jb_Failed j'))"

inductive operated :: "'c kclient \<Rightarrow> ('c \<Rightarrow> cluster) \<Rightarrow> (string \<Rightarrow> gerror + (int \<Rightarrow> int)) \<Rightarrow> string \<Rightarrow> string \<Rightarrow> 'c \<Rightarrow> 'c \<Rightarrow> bool"
  for cl stored parse ns name c0 where
  idle: "operated cl stored parse ns name c0 c0"
| reconciles: "operated cl stored parse ns name c0 c \<Longrightarrow> wf_Reconcile cl parse clock c ns name = (c', out) \<Longrightarrow> operated cl stored parse ns name c0 c'"
| elsewhere: "operated cl stored parse ns name c0 c \<Longrightarrow> cluster_moves ns name (stored c) (stored c') \<Longrightarrow> operated cl stored parse ns name c0 c'"

lemma phase_ok_cluster:
  assumes "cluster_moves ns name S S'" "phase_ok S ns name spec bad ph"
  shows "phase_ok S' ns name spec bad ph"
  using assms unfolding phase_ok_def cluster_moves_def by (smt (verit))

lemma moves_result:
  assumes "moves S S' ns name spec bad ph ph'"
  shows "\<exists>q. workflow_at S' ns name spec q \<and> phase_ok S' ns name spec bad q \<and> phaseRank ph \<le> phaseRank q \<and> (phaseRank ph = 2 \<longrightarrow> \<not> bad \<longrightarrow> q = ph)"
  using assms unfolding moves_def by auto

lemma operated_phase:
  assumes "operated cl stored parse ns name c0 c" "api_laws cl stored" "workflow_at (stored c0) ns name spec ph"
    "phase_ok (stored c0) ns name spec (badSchedule parse spec) ph"
  shows "\<exists>q. workflow_at (stored c) ns name spec q \<and> phase_ok (stored c) ns name spec (badSchedule parse spec) q \<and>
    phaseRank ph \<le> phaseRank q \<and> (phaseRank ph = 2 \<longrightarrow> \<not> badSchedule parse spec \<longrightarrow> q = ph)"
  using assms
proof (induction rule: operated.induct)
  case (reconciles c clock c' out)
  then obtain q where q: "workflow_at (stored c) ns name spec q" "phase_ok (stored c) ns name spec (badSchedule parse spec) q" "phaseRank ph \<le> phaseRank q"
    "phaseRank ph = 2 \<longrightarrow> \<not> badSchedule parse spec \<longrightarrow> q = ph" by blast
  obtain r where "moves (stored c) (stored c') ns name spec (badSchedule parse spec) q r"
    using wf_Reconcile_moves [OF reconciles.prems(1) q(1,2) reconciles.hyps(2)] by blast
  from moves_result [OF this] q(3,4) show ?case by (metis le_trans)
next
  case (elsewhere c c')
  then obtain q where q: "workflow_at (stored c) ns name spec q" "phase_ok (stored c) ns name spec (badSchedule parse spec) q" "phaseRank ph \<le> phaseRank q"
    "phaseRank ph = 2 \<longrightarrow> \<not> badSchedule parse spec \<longrightarrow> q = ph" by blast
  from elsewhere.hyps(2) q(1) have "workflow_at (stored c') ns name spec q" by (simp add: workflow_at_def cluster_moves_def)
  with phase_ok_cluster [OF elsewhere.hyps(2) q(2)] q(3,4) show ?case by blast
qed auto

text \<open>
  Without a schedule, a workflow whose job exists while its phase says that it has not started, as after a status update that was lost, never
  leaves that phase: every reconciliation tries to create the job again and fails.
\<close>

lemma lost_status_stuck:
  assumes laws: "api_laws cl stored" and at: "workflow_at (stored c) ns name spec ph" and ph: "phaseRank ph = 0" and sched: "ws_Schedule spec = []"
    and job: "stored c (KJob, ns, name) = Some obj" and run: "wf_Reconcile cl parse clock c ns name = (c', out)"
  shows "workflow_at (stored c') ns name spec ph \<and> stored c' (KJob, ns, name) = Some obj \<and> (\<exists>err. out = Returned 0 (Some err))"
proof -
  obtain w where w: "stored c (KWorkflow, ns, name) = Some (WorkflowO w)" "wo_Spec w = spec" "wt_Phase (wo_Status w) = ph" using at by (auto simp: workflow_at_def)
  have key: "om_Namespace (wo_Meta w) = ns" "om_Name (wo_Meta w) = name" using api_key [OF laws w(1)] by (simp_all add: metaKey_def)
  show ?thesis
  proof (cases "cl_Get cl c (KWorkflow, ns, name)")
    case (Inl e)
    with api_missing [OF laws Inl] w(1) have "\<not> cl_IsNotFound cl e" by auto
    with run Inl at job show ?thesis by (auto simp: wf_Reconcile_def IgnoreNotFound_def)
  next
    case (Inr found)
    with api_get [OF laws] w(1) have "found = WorkflowO w" by force
    with run Inr w sched ph obtain w' where st: "startWorkflowExecution cl (clock 0) c w = (c', w', out)"
      by (auto simp: wf_Reconcile_def handleWorkflowExecution_def phaseRank_def split: prod.splits if_splits)
    obtain c1 e1 where m: "createOrUpdateConfigMap cl c (configMapForWorkflow w) = (c1, e1)" by fastforce
    have mkey: "metaKey KConfigMap (cm_Meta (configMapForWorkflow w)) = (KConfigMap, ns, name @ ''-workflow'')" by (simp add: configMapForWorkflow_def key)
    have c1: "workflow_at (stored c1) ns name spec ph" "stored c1 (KJob, ns, name) = Some obj"
      using createOrUpdateConfigMap_effect [OF laws m] at job by (cases e1; auto simp: workflow_at_def mkey)+
    obtain c2 e2 where j: "cl_Create cl c1 (JobO (jobForWorkflow w)) = (c2, e2)" by fastforce
    have jkey: "ObjectKeyFromObject (JobO (jobForWorkflow w)) = (KJob, ns, name)" by (simp add: jobForWorkflow_def Let_def key)
    have "e2 \<noteq> None" using api_created [OF laws, of c1 "JobO (jobForWorkflow w)" c2] j jkey c1(2) by (cases e2) auto
    then obtain e where e: "e2 = Some e" by blast
    with api_create_failed [OF laws] j have "stored c2 = stored c1" by blast
    with st m j e c1 show ?thesis by (cases e1) (auto simp: startWorkflowExecution_def)
  qed
qed

section \<open>Agents and policies\<close>

lemma createOrUpdateDeployment_effect:
  assumes "api_laws cl stored" "createOrUpdateDeployment cl c d = (c', None)"
  shows "\<exists>d'. stored c' = (stored c)(metaKey KDeployment (dp_Meta d) \<mapsto> DeploymentO d') \<and> dp_Spec d' = dp_Spec d"
proof -
  let ?merge = "\<lambda>f. case f of DeploymentO found \<Rightarrow> DeploymentO (found\<lparr>dp_Spec := dp_Spec d\<rparr>) | _ \<Rightarrow> f"
  have dep: "stored c (metaKey KDeployment (dp_Meta d)) = Some found \<Longrightarrow> \<exists>d'. found = DeploymentO d' \<and> metaKey KDeployment (dp_Meta d') = metaKey KDeployment (dp_Meta d)" for found
    using api_key [OF assms(1)] key_kind(2) by (fastforce simp: metaKey_def)
  have "createOrUpdate cl ''Deployment'' ?merge c (DeploymentO d) = (c', None)" using assms(2) by (simp add: createOrUpdateDeployment_def)
  note createOrUpdate_effect [OF assms(1) this]
  moreover have "ObjectKeyFromObject (?merge found) = ObjectKeyFromObject (DeploymentO d) \<and> (\<forall>old. withStatus old (?merge found) = ?merge found)"
    if "stored c (ObjectKeyFromObject (DeploymentO d)) = Some found" for found using that dep [of found] by (auto simp: metaKey_def)
  ultimately show ?thesis using dep by (fastforce simp: metaKey_def)
qed

lemma createOrUpdateService_effect:
  assumes "api_laws cl stored" "createOrUpdateService cl c sv = (c', None)"
  shows "\<exists>s'. stored c' = (stored c)(metaKey KService (sv_Meta sv) \<mapsto> ServiceO s') \<and> sv_Ports s' = sv_Ports sv \<and> sv_Selector s' = sv_Selector sv"
proof -
  let ?merge = "\<lambda>f. case f of ServiceO found \<Rightarrow> ServiceO (found\<lparr>sv_Ports := sv_Ports sv, sv_Selector := sv_Selector sv\<rparr>) | _ \<Rightarrow> f"
  have srv: "stored c (metaKey KService (sv_Meta sv)) = Some found \<Longrightarrow> \<exists>s'. found = ServiceO s' \<and> metaKey KService (sv_Meta s') = metaKey KService (sv_Meta sv)" for found
    using api_key [OF assms(1)] key_kind(3) by (fastforce simp: metaKey_def)
  have "createOrUpdate cl ''Service'' ?merge c (ServiceO sv) = (c', None)" using assms(2) by (simp add: createOrUpdateService_def)
  note createOrUpdate_effect [OF assms(1) this]
  moreover have "ObjectKeyFromObject (?merge found) = ObjectKeyFromObject (ServiceO sv) \<and> (\<forall>old. withStatus old (?merge found) = ?merge found)"
    if "stored c (ObjectKeyFromObject (ServiceO sv)) = Some found" for found using that srv [of found] by (auto simp: metaKey_def)
  ultimately show ?thesis using srv by (fastforce simp: metaKey_def)
qed

text \<open>A reconciliation of an agent that ends without an error leaves the wanted deployment and service, and a status that is that of the deployment.\<close>

lemma agent_converges:
  assumes laws: "api_laws cl stored" and st: "stored c (KAgent, ns, name) = Some (AgentO a)"
    and run: "agent_Reconcile cl fmtF c ns name = (c', Returned d None)"
  shows "d = 30 * second \<and> (\<exists>dep sv. stored c' (KDeployment, ns, name) = Some (DeploymentO dep) \<and> dp_Spec dep = dp_Spec (deploymentForAgent fmtF a) \<and>
    stored c' (KService, ns, name) = Some (ServiceO sv) \<and> sv_Ports sv = sv_Ports (serviceForAgent a) \<and> sv_Selector sv = labelsForAgent a \<and>
    stored c' (KAgent, ns, name) = Some (AgentO (a\<lparr>ag_Status := \<lparr>at_Phase = agentPhase dep, at_Replicas = dp_Replicas dep, at_ReadyReplicas = dp_ReadyReplicas dep\<rparr>\<rparr>)))"
proof -
  have key: "om_Namespace (ag_Meta a) = ns" "om_Name (ag_Meta a) = name" using api_key [OF laws st] by (simp_all add: metaKey_def)
  have "cl_Get cl c (KAgent, ns, name) = Inr (AgentO a)"
  proof (cases "cl_Get cl c (KAgent, ns, name)")
    case (Inl e)
    with run have "cl_IsNotFound cl e" by (auto simp: agent_Reconcile_def IgnoreNotFound_def split: if_splits)
    with api_missing [OF laws Inl] st show ?thesis by simp
  qed (use api_get [OF laws] st in force)
  with run obtain c1 c2 where c1: "createOrUpdateDeployment cl c (deploymentForAgent fmtF a) = (c1, None)"
    and c2: "createOrUpdateService cl c1 (serviceForAgent a) = (c2, None)" and c3: "updateAgentStatus cl c2 a = (c', None)" and d: "d = 30 * second"
    by (auto simp: agent_Reconcile_def split: prod.splits option.splits)
  have dk: "metaKey KDeployment (dp_Meta (deploymentForAgent fmtF a)) = (KDeployment, ns, name)" by (simp add: deploymentForAgent_def Let_def key)
  have sk: "metaKey KService (sv_Meta (serviceForAgent a)) = (KService, ns, name)" by (simp add: serviceForAgent_def key)
  obtain dep where dep: "stored c1 = (stored c)((KDeployment, ns, name) \<mapsto> DeploymentO dep)" "dp_Spec dep = dp_Spec (deploymentForAgent fmtF a)"
    using createOrUpdateDeployment_effect [OF laws c1] dk by auto
  obtain sv where sv: "stored c2 = (stored c1)((KService, ns, name) \<mapsto> ServiceO sv)" "sv_Ports sv = sv_Ports (serviceForAgent a)" "sv_Selector sv = sv_Selector (serviceForAgent a)"
    using createOrUpdateService_effect [OF laws c2] sk by auto
  have gd: "cl_Get cl c2 (KDeployment, ns, name) = Inr obj \<Longrightarrow> obj = DeploymentO dep" for obj using api_get [OF laws, of c2] by (fastforce simp: sv(1) dep(1))
  have dk': "metaKey KDeployment (ag_Meta a) = (KDeployment, ns, name)" by (simp add: metaKey_def key)
  define a' where "a' = a\<lparr>ag_Status := \<lparr>at_Phase = agentPhase dep, at_Replicas = dp_Replicas dep, at_ReadyReplicas = dp_ReadyReplicas dep\<rparr>\<rparr>"
  have "cl_StatusUpdate cl c2 (AgentO a') = (c', None)"
    using c3 gd by (auto simp: updateAgentStatus_def dk' a'_def split: sum.splits kobject.splits prod.splits option.splits)
  from api_status [OF laws this] have "stored c' = (stored c2)((KAgent, ns, name) \<mapsto> AgentO a')"
    by (auto simp: a'_def metaKey_def key sv(1) dep(1) st)
  with dep sv d show ?thesis by (simp add: a'_def serviceForAgent_def)
qed

text \<open>A policy is active after a reconciliation that ends without an error exactly if it is enabled, and then its rules are valid; an invalid policy is made inactive.\<close>

lemma policy_activation:
  assumes laws: "api_laws cl stored" and st: "stored c (KPolicy, ns, name) = Some (PolicyO p)"
    and run: "policy_Reconcile cl now c ns name = (c', Returned d err)"
  shows "(err = None \<longrightarrow> validatePolicy p = None \<and>
      (\<exists>p'. stored c' (KPolicy, ns, name) = Some (PolicyO p') \<and> pt_Active (po_Status p') = ps_Enabled (po_Spec p) \<and> pt_LastApplied (po_Status p') = Some now)) \<and>
    (\<forall>e c1. validatePolicy p = Some e \<longrightarrow> cl_Get cl c (KPolicy, ns, name) = Inr (PolicyO p) \<longrightarrow>
      cl_StatusUpdate cl c (PolicyO (p\<lparr>po_Status := (po_Status p)\<lparr>pt_Active := False\<rparr>\<rparr>)) = (c1, None) \<longrightarrow>
      err = Some e \<and> (\<exists>p'. stored c' (KPolicy, ns, name) = Some (PolicyO p') \<and> \<not> pt_Active (po_Status p')))"
proof -
  have key: "metaKey KPolicy (po_Meta p) = (KPolicy, ns, name)" using api_key [OF laws st] by simp
  have wr: "stored c1 (KPolicy, ns, name) = Some (PolicyO (p\<lparr>po_Status := po_Status p1\<rparr>))"
    if "cl_StatusUpdate cl c (PolicyO p1) = (c1, None)" "po_Meta p1 = po_Meta p" for p1 c1
    using api_status [OF laws that(1)] that(2) key st by auto
  have inactive: "stored c1 (KPolicy, ns, name) = Some (PolicyO (p\<lparr>po_Status := (po_Status p)\<lparr>pt_Active := False\<rparr>\<rparr>))"
    if "cl_StatusUpdate cl c (PolicyO (p\<lparr>po_Status := (po_Status p)\<lparr>pt_Active := False\<rparr>\<rparr>)) = (c1, None)" for c1 using wr [OF that] by simp
  have get: "cl_Get cl c (KPolicy, ns, name) = Inr (PolicyO p)" if "err = None"
  proof (cases "cl_Get cl c (KPolicy, ns, name)")
    case (Inl e)
    with run that have "cl_IsNotFound cl e" by (auto simp: policy_Reconcile_def IgnoreNotFound_def split: if_splits)
    with api_missing [OF laws Inl] st show ?thesis by simp
  qed (use api_get [OF laws] st in force)
  have "validatePolicy p = None \<and> (\<exists>p'. stored c' (KPolicy, ns, name) = Some (PolicyO p') \<and> pt_Active (po_Status p') = ps_Enabled (po_Spec p) \<and> pt_LastApplied (po_Status p') = Some now)"
    if e: "err = None"
  proof -
    have "validatePolicy p = None" using run get [OF e] e by (auto simp: policy_Reconcile_def Let_def split: option.splits prod.splits)
    moreover from this obtain p1 where "updatePolicyStatus cl now c p1 = (c', None)" "po_Meta p1 = po_Meta p" "po_Spec p1 = po_Spec p"
      using run get [OF e] e
      by (auto simp: policy_Reconcile_def applyPolicy_def split: option.splits prod.splits if_splits)
    moreover from this have "cl_StatusUpdate cl c (PolicyO (p1\<lparr>po_Status := (po_Status p1)\<lparr>pt_Active := ps_Enabled (po_Spec p), pt_LastApplied := Some now\<rparr>\<rparr>)) = (c', None)"
      by (auto simp: updatePolicyStatus_def split: prod.splits option.splits)
    ultimately show ?thesis using wr by fastforce
  qed
  moreover have "err = Some e \<and> (\<exists>p'. stored c' (KPolicy, ns, name) = Some (PolicyO p') \<and> \<not> pt_Active (po_Status p'))"
    if "validatePolicy p = Some e" "cl_Get cl c (KPolicy, ns, name) = Inr (PolicyO p)"
      "cl_StatusUpdate cl c (PolicyO (p\<lparr>po_Status := (po_Status p)\<lparr>pt_Active := False\<rparr>\<rparr>)) = (c1, None)" for e c1
    using run that inactive [OF that(3)] by (auto simp: policy_Reconcile_def Let_def)
  ultimately show ?thesis by blast
qed

section \<open>Properties\<close>

text \<open>
  The phase of a workflow tells the truth and only moves forward: take a workflow that has just been created and any sequence of
  reconciliations, at any times and with any calls of the API server failing, and of changes elsewhere in the cluster. Whenever its phase is \<open>Running\<close>,
  its job and the definition it runs, the YAML text of the specification, are there; it is \<open>Succeeded\<close> only when the job has succeeded and \<open>Failed\<close> only
  when the job has failed or the schedule is not a cron expression; and it never goes back.
\<close>

theorem workflow_lifecycle:
  assumes "api_laws cl stored" "workflow_at (stored c0) ns name spec []"
    "operated cl stored parse ns name c0 c1" "operated cl stored parse ns name c1 c2"
  shows "\<exists>p q. workflow_at (stored c1) ns name spec p \<and> phase_ok (stored c1) ns name spec (badSchedule parse spec) p \<and>
    workflow_at (stored c2) ns name spec q \<and> phase_ok (stored c2) ns name spec (badSchedule parse spec) q \<and> phaseRank p \<le> phaseRank q"
proof -
  have "phase_ok (stored c0) ns name spec (badSchedule parse spec) []" by (simp add: phase_ok_def)
  with operated_phase [OF assms(3,1,2)] obtain p where p: "workflow_at (stored c1) ns name spec p" "phase_ok (stored c1) ns name spec (badSchedule parse spec) p"
    by blast
  with operated_phase [OF assms(4,1) p] show ?thesis by blast
qed

text \<open>
  A scheduled workflow runs once: from the moment its phase is \<open>Succeeded\<close> or \<open>Failed\<close>, whatever the schedule says and however much time passes, the
  phase stays as it is and no reconciliation creates or changes any object but the workflow itself.
\<close>

theorem scheduled_runs_once:
  assumes "api_laws cl stored" "workflow_at (stored c1) ns name spec ph" "phase_ok (stored c1) ns name spec False ph" "phaseRank ph = 2"
    "parse (ws_Schedule spec) = Inr nxt" "operated cl stored parse ns name c1 c2" "wf_Reconcile cl parse clock c2 ns name = (c3, out)"
  shows "workflow_at (stored c3) ns name spec ph \<and> (\<forall>k. k \<noteq> (KWorkflow, ns, name) \<longrightarrow> stored c3 k = stored c2 k)"
proof -
  have good: "badSchedule parse spec = False" using assms(5) by (simp add: badSchedule_def)
  have c2: "workflow_at (stored c2) ns name spec ph" "phase_ok (stored c2) ns name spec (badSchedule parse spec) ph"
    using operated_phase [OF assms(6,1,2)] assms(3,4) good by auto
  obtain r where "moves (stored c2) (stored c3) ns name spec False ph r" using wf_Reconcile_moves [OF assms(1) c2 assms(7)] good by metis
  with assms(4) show ?thesis unfolding moves_def by auto
qed

text \<open>A cluster that is a list of objects, the latest version of an object first, and a client for it that never fails.\<close>

definition lookupObject :: "kobject list \<Rightarrow> object_key \<Rightarrow> kobject option" where
  "lookupObject c k = find (\<lambda>obj. ObjectKeyFromObject obj = k) c"

definition listClient :: "kobject list kclient" where
  "listClient = \<lparr>
     cl_Get = (\<lambda>c k. case lookupObject c k of None \<Rightarrow> Inl (Errorf ''not found'') | Some obj \<Rightarrow> Inr obj),
     cl_Create = (\<lambda>c obj. if lookupObject c (ObjectKeyFromObject obj) = None then (obj # c, None) else (c, Some (Errorf ''already exists''))),
     cl_Update = (\<lambda>c obj. case lookupObject c (ObjectKeyFromObject obj) of None \<Rightarrow> (c, Some (Errorf ''not found'')) | Some old \<Rightarrow> (withStatus old obj # c, None)),
     cl_StatusUpdate = (\<lambda>c obj. case lookupObject c (ObjectKeyFromObject obj) of None \<Rightarrow> (c, Some (Errorf ''not found'')) | Some old \<Rightarrow> (withStatus obj old # c, None)),
     cl_IsNotFound = (\<lambda>err. err = Errorf ''not found'')\<rparr>"

lemma lookupObject_key: "lookupObject c k = Some obj \<Longrightarrow> ObjectKeyFromObject obj = k"
  by (auto simp: lookupObject_def find_Some_iff)

lemma lookupObject_Cons: "lookupObject (obj # c) = (lookupObject c)(ObjectKeyFromObject obj \<mapsto> obj)"
  by (auto simp: lookupObject_def fun_eq_iff)

lemma withStatus_key [simp]: "ObjectKeyFromObject (withStatus a b) = ObjectKeyFromObject b"
  by (cases "(a, b)" rule: withStatus.cases) simp_all

lemma listClient_laws: "api_laws listClient lookupObject"
  unfolding api_laws_def listClient_def
  by (auto simp: lookupObject_Cons lookupObject_key split: option.splits if_splits)

definition nightly :: WorkflowCR where
  "nightly = \<lparr>wo_Meta = \<lparr>om_Name = ''nightly'', om_Namespace = ''prod'', om_Labels = [], om_Owner = None\<rparr>,
     wo_Spec = \<lparr>ws_Name = ''n'', ws_Description = [], ws_Steps = [\<lparr>sp_Name = ''s'', sp_Type = [], sp_Agent = ''a'', sp_Goal = ''g'', sp_OutputKey = [],
       sp_Condition = [], sp_DependsOn = [], sp_Approvers = [], sp_ApprovalMessage = []\<rparr>], ws_Schedule = ''0 0 * * *''\<rparr>,
     wo_Status = \<lparr>wt_Phase = [], wt_Message = [], wt_StartTime = None, wt_CompletionTime = None, wt_CurrentStep = [], wt_CompletedSteps = [],
       wt_FailedSteps = [], wt_LastScheduleTime = None, wt_NextScheduleTime = None\<rparr>\<rparr>"

definition daily :: "string \<Rightarrow> gerror + (int \<Rightarrow> int)" where
  "daily e = Inr (\<lambda>t. (t div 86400 + 1) * 86400)"

definition demoRun :: "(nat \<Rightarrow> int) \<Rightarrow> kobject list \<Rightarrow> kobject list" where
  "demoRun clock c = fst (wf_Reconcile listClient daily clock c ''prod'' ''nightly'')"

definition jobDone :: "kobject list \<Rightarrow> kobject list" where
  "jobDone c = JobO ((jobForWorkflow nightly)\<lparr>jb_Succeeded := 1\<rparr>) # c"

definition demoPhase :: "kobject list \<Rightarrow> string" where
  "demoPhase c = (case lookupObject c (KWorkflow, ''prod'', ''nightly'') of Some (WorkflowO w) \<Rightarrow> wt_Phase (wo_Status w) | _ \<Rightarrow> ''none'')"

definition demo1 :: "kobject list" where "demo1 = demoRun (\<lambda>n. 10) [WorkflowO nightly]"

definition demo2 :: "kobject list" where "demo2 = demoRun (\<lambda>n. 86400) (jobDone demo1)"

lemma demo_values: "demoPhase demo1 = ''Running''" "demoPhase demo2 = ''Succeeded''"
  "lookupObject demo1 (KJob, ''prod'', ''nightly'') = Some (JobO (jobForWorkflow nightly))"
  by code_simp+

lemma demo_at: "workflow_at (lookupObject c) ''prod'' ''nightly'' spec p \<Longrightarrow> demoPhase c = p"
  by (auto simp: workflow_at_def demoPhase_def)

lemma demo_operated1: "operated listClient lookupObject daily ''prod'' ''nightly'' [WorkflowO nightly] demo1"
  unfolding demo1_def demoRun_def using operated.reconciles [OF operated.idle] by (metis prod.collapse)

lemma demo_operated2: "operated listClient lookupObject daily ''prod'' ''nightly'' demo1 demo2"
proof -
  have "cluster_moves ''prod'' ''nightly'' (lookupObject demo1) (lookupObject (jobDone demo1))"
    by (simp add: cluster_moves_def jobDone_def lookupObject_Cons demo_values(3), simp add: jobForWorkflow_def Let_def nightly_def)
  from operated.reconciles [OF operated.elsewhere [OF operated.idle this]] show ?thesis
    unfolding demo2_def demoRun_def by (metis prod.collapse)
qed

theorem workflow_lifecycle_witness:
  "\<exists>p q. demoPhase demo1 = p \<and> p = ''Running'' \<and> demoPhase demo2 = q \<and> phase_ok (lookupObject demo2) ''prod'' ''nightly'' (wo_Spec nightly) False q \<and> phaseRank p \<le> phaseRank q"
proof -
  have "workflow_at (lookupObject [WorkflowO nightly]) ''prod'' ''nightly'' (wo_Spec nightly) []"
    by (simp add: workflow_at_def lookupObject_def metaKey_def nightly_def)
  from workflow_lifecycle [OF listClient_laws this demo_operated1 demo_operated2]
  show ?thesis using demo_at demo_values(1) by (auto simp: badSchedule_def daily_def)
qed

theorem scheduled_runs_once_witness:
  "workflow_at (lookupObject (demoRun (\<lambda>n. 604800) demo2)) ''prod'' ''nightly'' (wo_Spec nightly) ''Succeeded'' \<and>
   lookupObject (demoRun (\<lambda>n. 604800) demo2) (KJob, ''prod'', ''nightly'') = lookupObject demo2 (KJob, ''prod'', ''nightly'')"
proof -
  have "case lookupObject demo2 (KWorkflow, ''prod'', ''nightly'') of Some (WorkflowO w) \<Rightarrow> wo_Spec w = wo_Spec nightly \<and> wt_Phase (wo_Status w) = ''Succeeded'' | _ \<Rightarrow> False"
    by code_simp
  then have at: "workflow_at (lookupObject demo2) ''prod'' ''nightly'' (wo_Spec nightly) ''Succeeded''"
    by (auto simp: workflow_at_def split: option.splits kobject.splits)
  have "case lookupObject demo2 (KJob, ''prod'', ''nightly'') of Some (JobO j) \<Rightarrow> jb_Succeeded j > 0 | _ \<Rightarrow> False" by code_simp
  then have ok: "phase_ok (lookupObject demo2) ''prod'' ''nightly'' (wo_Spec nightly) False ''Succeeded''"
    by (auto simp: phase_ok_def split: option.splits kobject.splits)
  have run: "wf_Reconcile listClient daily (\<lambda>n. 604800) demo2 ''prod'' ''nightly'' =
      (demoRun (\<lambda>n. 604800) demo2, snd (wf_Reconcile listClient daily (\<lambda>n. 604800) demo2 ''prod'' ''nightly''))" by (simp add: demoRun_def)
  have rank: "phaseRank ''Succeeded'' = 2" by (simp add: phaseRank_def)
  show ?thesis using scheduled_runs_once [OF listClient_laws at ok rank daily_def operated.idle run] by simp
qed

end
