(* ===== verification/Policy_Audit.thy ===== *)
theory Policy_Audit
  imports Workflow_State
begin

text \<open>
  The audit log of policy decisions, \<open>pkg/policy/audit.go\<close>: logging, queries, statistics, reviews and the exports to CSV and to the Common Event Format,
  over the table \<open>policy_audit\<close> of \<open>migrations/005_policy_versioning.sql\<close>, a list of rows in the order of insertion with its primary key and its check of the decision.
  New identifiers, the clock, the answer of the driver and the formatting of times and scores are arguments; risk scores are finite numbers and
  the zero time is 0.
\<close>

section \<open>The table\<close>

record PolicyAuditLog =
  pl_ID :: string
  pl_Timestamp :: int
  pl_RunID :: string
  pl_AgentName :: string
  pl_PolicyName :: string
  pl_PolicyVersion :: string
  pl_Action :: string
  pl_Tool :: string
  pl_Decision :: string
  pl_RiskScore :: rat
  pl_DenyReason :: string
  pl_Context :: "any smap"
  pl_ReviewedBy :: string
  pl_ReviewedAt :: "int option"

record AuditFilter =
  fl_AgentName :: string
  fl_PolicyName :: string
  fl_Decision :: string
  fl_MinRiskScore :: rat
  fl_StartTime :: int
  fl_EndTime :: int
  fl_Limit :: int

record DenyReasonCount =
  dr_Reason :: string
  dr_Count :: int

record AuditStats =
  st_Total :: int
  st_Allowed :: int
  st_Denied :: int
  st_Alerts :: int
  st_AvgRiskScore :: rat
  st_MaxRiskScore :: rat
  st_TopDenyReasons :: "DenyReasonCount list"

type_synonym audit_table = "PolicyAuditLog list"

definition decisions :: "string list" where
  "decisions = [''allow'', ''deny'', ''alert'']"

definition audit_Log :: "string \<Rightarrow> int \<Rightarrow> gerror option \<Rightarrow> audit_table \<Rightarrow> PolicyAuditLog \<Rightarrow> audit_table \<times> gerror option" where
  "audit_Log newID now db t l =
     (let l1 = l\<lparr>pl_ID := (if pl_ID l = [] then newID else pl_ID l), pl_Timestamp := (if pl_Timestamp l = 0 then now else pl_Timestamp l)\<rparr>;
          row = l1\<lparr>pl_Context := json_norm_map (pl_Context l1)\<rparr>
      in case db of
           Some err \<Rightarrow> (t, Some (Wrap ''insert audit log: '' err))
         | None \<Rightarrow>
             if pl_ID row \<in> set (map pl_ID t) then (t, Some (Wrap ''insert audit log: '' (Errorf ''UNIQUE constraint failed: policy_audit.id'')))
             else if pl_Decision row \<notin> set decisions then (t, Some (Wrap ''insert audit log: '' (Errorf ''CHECK constraint failed: policy_audit'')))
             else (t @ [row], None))"

definition auditMatches :: "AuditFilter \<Rightarrow> PolicyAuditLog \<Rightarrow> bool" where
  "auditMatches f r \<longleftrightarrow>
     (fl_AgentName f \<noteq> [] \<longrightarrow> pl_AgentName r = fl_AgentName f) \<and>
     (fl_PolicyName f \<noteq> [] \<longrightarrow> pl_PolicyName r = fl_PolicyName f) \<and>
     (fl_Decision f \<noteq> [] \<longrightarrow> pl_Decision r = fl_Decision f) \<and>
     (fl_MinRiskScore f > 0 \<longrightarrow> pl_RiskScore r \<ge> fl_MinRiskScore f) \<and>
     (fl_StartTime f \<noteq> 0 \<longrightarrow> pl_Timestamp r \<ge> fl_StartTime f) \<and>
     (fl_EndTime f \<noteq> 0 \<longrightarrow> pl_Timestamp r \<le> fl_EndTime f)"

definition audit_Query :: "gerror option \<Rightarrow> audit_table \<Rightarrow> AuditFilter \<Rightarrow> gerror + PolicyAuditLog list" where
  "audit_Query db t f =
     (case db of
        Some err \<Rightarrow> Inl (Wrap ''query audit logs: '' err)
      | None \<Rightarrow>
          (let found = sort_key (\<lambda>r. - pl_Timestamp r) (filter (auditMatches f) t)
           in Inr (if fl_Limit f > 0 then take (nat (fl_Limit f)) found else found)))"

definition MarkReviewed :: "int \<Rightarrow> gerror option \<Rightarrow> audit_table \<Rightarrow> string \<Rightarrow> string \<Rightarrow> audit_table \<times> gerror option" where
  "MarkReviewed now db t logID reviewedBy =
     (case db of
        Some err \<Rightarrow> (t, Some (Wrap ''mark reviewed: '' err))
      | None \<Rightarrow> (map (\<lambda>r. if pl_ID r = logID then r\<lparr>pl_ReviewedBy := reviewedBy, pl_ReviewedAt := Some now\<rparr> else r) t, None))"

section \<open>Statistics\<close>

text \<open>Reasons with their counts, most frequent first; reasons that are equally frequent come in the order of their first row.\<close>

definition reasonCounts :: "string list \<Rightarrow> DenyReasonCount list" where
  "reasonCounts rs = sort_key (\<lambda>d. - dr_Count d) (map (\<lambda>r. \<lparr>dr_Reason = r, dr_Count = int (count_list rs r)\<rparr>) (rev (remdups (rev rs))))"

text \<open>\<open>SUM\<close>, \<open>AVG\<close> and \<open>MAX\<close> over no rows are NULL, which cannot be scanned into a number.\<close>

definition GetStats :: "gerror option \<Rightarrow> gerror option \<Rightarrow> audit_table \<Rightarrow> int \<Rightarrow> int \<Rightarrow> gerror + AuditStats" where
  "GetStats db1 db2 t startTime endTime =
     (let rows = filter (\<lambda>r. pl_Timestamp r \<ge> startTime \<and> pl_Timestamp r \<le> endTime) t;
          n = (\<lambda>d. int (length (filter (\<lambda>r. pl_Decision r = d) rows)))
      in case db1 of
           Some err \<Rightarrow> Inl (Wrap ''query audit stats: '' err)
         | None \<Rightarrow>
             if rows = [] then Inl (Wrap ''query audit stats: '' (Errorf ''sql: Scan error: converting NULL to int is unsupported''))
             else (case db2 of
                     Some err \<Rightarrow> Inl (Wrap ''query deny reasons: '' err)
                   | None \<Rightarrow> Inr \<lparr>st_Total = int (length rows), st_Allowed = n ''allow'', st_Denied = n ''deny'', st_Alerts = n ''alert'',
                        st_AvgRiskScore = sum_list (map pl_RiskScore rows) / of_nat (length rows),
                        st_MaxRiskScore = foldr max (map pl_RiskScore (tl rows)) (pl_RiskScore (hd rows)),
                        st_TopDenyReasons = take 10 (reasonCounts (map pl_DenyReason (filter (\<lambda>r. pl_Decision r = ''deny'') rows)))\<rparr>))"

section \<open>Exports\<close>

definition newline :: char where
  "newline = CHR 0x0A"

definition escapeChar :: "char \<Rightarrow> string" where
  "escapeChar ch =
     (if ch = CHR 0x5C then [CHR 0x5C, CHR 0x5C]
      else if ch = CHR ''='' then [CHR 0x5C, CHR ''='']
      else if ch = CHR 0x0A then [CHR 0x5C, CHR ''n'']
      else if ch = CHR 0x0D then [CHR 0x5C, CHR ''r'']
      else [ch])"

definition escapeCEF :: "string \<Rightarrow> string" where
  "escapeCEF s = concat (map escapeChar s)"

definition severityOf :: "string \<Rightarrow> string" where
  "severityOf d = (if d = ''deny'' then ''7'' else if d = ''alert'' then ''6'' else ''3'')"

text \<open>\<open>millis\<close> is \<open>Timestamp.UnixMilli\<close> and \<open>fmt2\<close> the format \<open>%.2f\<close>.\<close>

definition cefExtension :: "(int \<Rightarrow> int) \<Rightarrow> (rat \<Rightarrow> string) \<Rightarrow> PolicyAuditLog \<Rightarrow> string" where
  "cefExtension millis fmt2 l =
     ''rt='' @ itoa (millis (pl_Timestamp l)) @ '' msg='' @ escapeCEF (pl_DenyReason l) @ '' agent='' @ escapeCEF (pl_AgentName l) @
     '' policy='' @ escapeCEF (pl_PolicyName l) @ '' tool='' @ escapeCEF (pl_Tool l) @ '' action='' @ escapeCEF (pl_Action l) @
     '' riskScore='' @ fmt2 (pl_RiskScore l) @ (if pl_RunID l \<noteq> [] then '' runId='' @ escapeCEF (pl_RunID l) else [])"

definition cefLine :: "(int \<Rightarrow> int) \<Rightarrow> (rat \<Rightarrow> string) \<Rightarrow> PolicyAuditLog \<Rightarrow> string" where
  "cefLine millis fmt2 l =
     ''CEF:0|AgentRuntime|PolicyEngine|1.0|'' @ ''policy-'' @ pl_Decision l @ ''|Policy '' @ pl_Decision l @ ''|'' @ severityOf (pl_Decision l) @ ''|'' @
     cefExtension millis fmt2 l @ [newline]"

definition exportCEF :: "(int \<Rightarrow> int) \<Rightarrow> (rat \<Rightarrow> string) \<Rightarrow> PolicyAuditLog list \<Rightarrow> string" where
  "exportCEF millis fmt2 logs = concat (map (cefLine millis fmt2) logs)"

definition csvRow :: "(int \<Rightarrow> string) \<Rightarrow> (rat \<Rightarrow> string) \<Rightarrow> PolicyAuditLog \<Rightarrow> string" where
  "csvRow rfc fmt2 l =
     Join [pl_ID l, rfc (pl_Timestamp l), pl_AgentName l, pl_PolicyName l, pl_PolicyVersion l, pl_Action l, pl_Tool l, pl_Decision l, fmt2 (pl_RiskScore l), pl_DenyReason l] '','' @ [newline]"

definition exportCSV :: "(int \<Rightarrow> string) \<Rightarrow> (rat \<Rightarrow> string) \<Rightarrow> PolicyAuditLog list \<Rightarrow> string" where
  "exportCSV rfc fmt2 logs = ''ID,Timestamp,Agent,Policy,Version,Action,Tool,Decision,RiskScore,DenyReason'' @ [newline] @ concat (map (csvRow rfc fmt2) logs)"

definition audit_Export :: "(int \<Rightarrow> int) \<Rightarrow> (int \<Rightarrow> string) \<Rightarrow> (rat \<Rightarrow> string) \<Rightarrow> (PolicyAuditLog list \<Rightarrow> gerror + string) \<Rightarrow>
    gerror option \<Rightarrow> audit_table \<Rightarrow> AuditFilter \<Rightarrow> string \<Rightarrow> gerror + string" where
  "audit_Export millis rfc fmt2 marshal db t f format =
     (case audit_Query db t f of
        Inl err \<Rightarrow> Inl err
      | Inr logs \<Rightarrow>
          if format = ''json'' then marshal logs
          else if format = ''csv'' then Inr (exportCSV rfc fmt2 logs)
          else if format = ''cef'' then Inr (exportCEF millis fmt2 logs)
          else Inl (Errorf (''unsupported format: '' @ format)))"

section \<open>Reading an export\<close>

text \<open>
  A reader of the Common Event Format: lines end with a newline; seven bars end the fields of the header; equals signs that no backslash
  precedes end the keys of the extension, a key is the last word before its sign, and escapes in values are undone.
\<close>

fun unescapeCEF :: "string \<Rightarrow> string" where
  "unescapeCEF [] = []"
| "unescapeCEF [ch] = [ch]"
| "unescapeCEF (ch # d # s) =
     (if ch = CHR 0x5C then (if d = CHR ''n'' then CHR 0x0A else if d = CHR ''r'' then CHR 0x0D else d) # unescapeCEF s
      else ch # unescapeCEF (d # s))"

lemma escapeCEF_simps [simp]: "escapeCEF [] = []" "escapeCEF (ch # s) = escapeChar ch @ escapeCEF s"
  by (simp_all add: escapeCEF_def)

lemma unescape_plain: "ch \<noteq> CHR 0x5C \<Longrightarrow> unescapeCEF (ch # s) = ch # unescapeCEF s"
  by (cases s) simp_all

lemma unescape_escape: "unescapeCEF (escapeCEF s) = s"
  by (induction s) (simp_all add: escapeChar_def unescape_plain)

lemma newline_escape [simp]: "count_list (escapeCEF s) newline = 0"
  by (induction s) (simp_all add: escapeChar_def newline_def)

definition plainText :: "string \<Rightarrow> bool" where
  "plainText s \<longleftrightarrow> (\<forall>ch \<in> set s. ch \<noteq> CHR 0x5C \<and> ch \<noteq> CHR ''='' \<and> ch \<noteq> newline)"

lemma newline_plain: "plainText s \<Longrightarrow> count_list s newline = 0"
  by (auto simp: plainText_def count_list_0_iff)

lemma digit_code: "ch \<in> set (nat_digits n) \<Longrightarrow> 48 \<le> (of_char ch :: nat) \<and> (of_char ch :: nat) \<le> 57"
proof (induction n rule: nat_digits.induct)
  case (1 n)
  have d: "48 \<le> (of_char (char_of (48 + k)) :: nat) \<and> (of_char (char_of (48 + k)) :: nat) \<le> 57" if "k < 10" for k :: nat using that by simp
  show ?case
  proof (cases "n < 10")
    case True
    with 1(2) d [of n] show ?thesis by (subst (asm) nat_digits.simps) (simp del: of_nat_add)
  next
    case False
    then have "nat_digits n = nat_digits (n div 10) @ [char_of (48 + n mod 10)]" by (subst nat_digits.simps) simp
    with False 1 d [of "n mod 10"] show ?thesis by auto
  qed
qed

lemma plain_itoa: "plainText (itoa i)"
proof -
  have "plainText (nat_digits n)" for n using digit_code [of _ n] by (fastforce simp: plainText_def newline_def)
  then show ?thesis by (auto simp: itoa_def plainText_def newline_def)
qed

fun splitEquals :: "string \<Rightarrow> string list" where
  "splitEquals [] = [[]]"
| "splitEquals [ch] = (if ch = CHR ''='' then [[], []] else [[ch]])"
| "splitEquals (ch # d # s) =
     (if ch = CHR 0x5C then (case splitEquals s of x # xs \<Rightarrow> (ch # d # x) # xs | [] \<Rightarrow> [[ch, d]])
      else if ch = CHR ''='' then [] # splitEquals (d # s)
      else (case splitEquals (d # s) of x # xs \<Rightarrow> (ch # x) # xs | [] \<Rightarrow> [[ch]]))"

definition lastWord :: "string \<Rightarrow> string \<times> string" where
  "lastWord s = (rev (tl (dropWhile (\<lambda>ch. ch \<noteq> CHR '' '') (rev s))), rev (takeWhile (\<lambda>ch. ch \<noteq> CHR '' '') (rev s)))"

fun readPairs :: "string \<Rightarrow> string list \<Rightarrow> (string \<times> string) list" where
  "readPairs key [] = []"
| "readPairs key [v] = [(key, unescapeCEF v)]"
| "readPairs key (v # w # vs) = (case lastWord v of (val, key') \<Rightarrow> (key, unescapeCEF val) # readPairs key' (w # vs))"

definition readExtension :: "string \<Rightarrow> (string \<times> string) list" where
  "readExtension ext = (case splitEquals ext of key # vs \<Rightarrow> readPairs key vs | [] \<Rightarrow> [])"

fun splitHeader :: "nat \<Rightarrow> string \<Rightarrow> string list \<times> string" where
  "splitHeader 0 s = ([], s)"
| "splitHeader (Suc n) s =
     (case splitHeader n (tl (dropWhile (\<lambda>ch. ch \<noteq> CHR ''|'') s)) of (hs, ext) \<Rightarrow> (takeWhile (\<lambda>ch. ch \<noteq> CHR ''|'') s # hs, ext))"

definition readLine :: "string \<Rightarrow> string list \<times> (string \<times> string) list" where
  "readLine line = (case splitHeader 7 line of (hs, ext) \<Rightarrow> (hs, readExtension ext))"

fun splitLines :: "string \<Rightarrow> string \<Rightarrow> string list" where
  "splitLines line [] = (if line = [] then [] else [line])"
| "splitLines line (ch # s) = (if ch = newline then line # splitLines [] s else splitLines (line @ [ch]) s)"

definition readCEF :: "string \<Rightarrow> (string list \<times> (string \<times> string) list) list" where
  "readCEF export = map readLine (splitLines [] export)"

text \<open>What a line has to say about an entry.\<close>

definition cefFields :: "(int \<Rightarrow> int) \<Rightarrow> (rat \<Rightarrow> string) \<Rightarrow> PolicyAuditLog \<Rightarrow> string list \<times> (string \<times> string) list" where
  "cefFields millis fmt2 l =
     ([''CEF:0'', ''AgentRuntime'', ''PolicyEngine'', ''1.0'', ''policy-'' @ pl_Decision l, ''Policy '' @ pl_Decision l, severityOf (pl_Decision l)],
      [(''rt'', itoa (millis (pl_Timestamp l))), (''msg'', pl_DenyReason l), (''agent'', pl_AgentName l), (''policy'', pl_PolicyName l), (''tool'', pl_Tool l),
       (''action'', pl_Action l), (''riskScore'', fmt2 (pl_RiskScore l))] @ (if pl_RunID l \<noteq> [] then [(''runId'', pl_RunID l)] else []))"

lemma splitEquals_nonempty [simp]: "splitEquals s \<noteq> []"
  by (induction s rule: splitEquals.induct) (auto split: list.split)

text \<open>Text without a bare equals sign, and the parts an extension is split into.\<close>

definition clean :: "string \<Rightarrow> bool" where
  "clean v \<longleftrightarrow> (\<forall>s. splitEquals (v @ s) = (v @ hd (splitEquals s)) # tl (splitEquals s))"

lemma clean_append: "clean v \<Longrightarrow> clean w \<Longrightarrow> clean (v @ w)"
  by (simp add: clean_def)

lemma clean_char:
  assumes "ch \<noteq> CHR 0x5C" "ch \<noteq> CHR ''=''"
  shows "clean [ch]"
  unfolding clean_def
proof
  show "splitEquals ([ch] @ s) = ([ch] @ hd (splitEquals s)) # tl (splitEquals s)" for s
    using assms by (cases s) (auto split: list.split)
qed

lemma clean_pair: "clean [CHR 0x5C, d]"
  by (auto simp: clean_def split: list.split)

lemma clean_Nil: "clean []"
  by (simp add: clean_def)

lemma clean_plain: "plainText v \<Longrightarrow> clean v"
proof (induction v)
  case (Cons ch v)
  then show ?case using clean_append [OF clean_char [of ch], of v] by (simp add: plainText_def)
qed (rule clean_Nil)

lemma clean_escape: "clean (escapeCEF v)"
proof (induction v)
  case (Cons ch v)
  have "clean (escapeChar ch)" by (simp add: escapeChar_def clean_pair clean_char)
  with Cons show ?case by (simp add: clean_append)
qed (simp add: clean_Nil)

lemma clean_split: "clean v \<Longrightarrow> splitEquals (v @ CHR ''='' # s) = v # splitEquals s" "clean v \<Longrightarrow> splitEquals v = [v]"
proof -
  have "splitEquals (CHR ''='' # s) = [] # splitEquals s" by (cases s) simp_all
  then show "clean v \<Longrightarrow> splitEquals (v @ CHR ''='' # s) = v # splitEquals s" by (simp add: clean_def)
  show "clean v \<Longrightarrow> splitEquals v = [v]" unfolding clean_def by (drule spec [of _ "[]"]) simp
qed

lemma unescape_plains: "plainText v \<Longrightarrow> unescapeCEF v = v"
  by (induction v) (simp_all add: plainText_def unescape_plain)

lemma lastWord_key:
  assumes "CHR '' '' \<notin> set key"
  shows "lastWord (v @ CHR '' '' # key) = (v, key)"
proof -
  have "takeWhile (\<lambda>ch. ch \<noteq> CHR '' '') (rev key @ CHR '' '' # rev v) = rev key" "dropWhile (\<lambda>ch. ch \<noteq> CHR '' '') (rev key @ CHR '' '' # rev v) = CHR '' '' # rev v"
    using assms by (subst takeWhile_append2 dropWhile_append2; auto)+
  then show ?thesis by (simp add: lastWord_def)
qed

fun pairsText :: "(string \<times> string) list \<Rightarrow> string" where
  "pairsText [] = []"
| "pairsText [(k, v)] = k @ ''='' @ v"
| "pairsText ((k, v) # kv # kvs) = k @ ''='' @ v @ '' '' @ pairsText (kv # kvs)"

fun parts :: "string \<Rightarrow> (string \<times> string) list \<Rightarrow> string list" where
  "parts v [] = [v]"
| "parts v ((k, w) # kvs) = (v @ '' '' @ k) # parts w kvs"

lemma splitEquals_pairs:
  "\<forall>(k, v) \<in> set ((k, v) # kvs). clean k \<and> clean v \<Longrightarrow> splitEquals (pairsText ((k, v) # kvs)) = k # parts v kvs"
proof (induction kvs arbitrary: k v)
  case Nil
  then show ?case by (simp add: clean_split)
next
  case (Cons kv kvs)
  obtain k' w where kv: "kv = (k', w)" by fastforce
  have "clean (v @ '' '')" using Cons.prems clean_append [OF _ clean_char [of "CHR '' ''"], of v] by simp
  then have "splitEquals (v @ '' '' @ pairsText (kv # kvs)) = parts v (kv # kvs)"
    using Cons.IH [of k' w] Cons.prems by (simp add: clean_def kv)
  with Cons.prems show ?case by (simp add: kv clean_split(1))
qed

lemma parts_nonempty [simp]: "parts v kvs \<noteq> []"
  by (cases "(v, kvs)" rule: parts.cases) simp_all

lemma readPairs_parts:
  "\<forall>(k, v) \<in> set kvs. CHR '' '' \<notin> set k \<Longrightarrow> readPairs k (parts v kvs) = (k, unescapeCEF v) # map (\<lambda>(k, v). (k, unescapeCEF v)) kvs"
proof (induction kvs arbitrary: k v)
  case (Cons kv kvs)
  obtain k' w where kv: "kv = (k', w)" by fastforce
  obtain x xs where x: "parts w kvs = x # xs" by (cases "parts w kvs") simp_all
  from Cons.IH [of k' w] Cons.prems lastWord_key [of k' v] show ?case by (simp add: kv x)
qed simp

lemma readExtension_pairs:
  assumes "\<forall>(k, v) \<in> set ((k, v) # kvs). plainText k \<and> CHR '' '' \<notin> set k \<and> clean v"
  shows "readExtension (pairsText ((k, v) # kvs)) = map (\<lambda>(k, v). (k, unescapeCEF v)) ((k, v) # kvs)"
  using splitEquals_pairs [of k v kvs] readPairs_parts [of kvs k v] assms by (auto simp: readExtension_def clean_plain case_prod_beta)

lemma readExtension_fields:
  assumes "\<And>q. plainText (fmt2 q)"
  shows "readExtension (cefExtension millis fmt2 l) = snd (cefFields millis fmt2 l)"
proof -
  let ?kvs = "[(''msg'', escapeCEF (pl_DenyReason l)), (''agent'', escapeCEF (pl_AgentName l)), (''policy'', escapeCEF (pl_PolicyName l)), (''tool'', escapeCEF (pl_Tool l)),
    (''action'', escapeCEF (pl_Action l)), (''riskScore'', fmt2 (pl_RiskScore l))] @ (if pl_RunID l \<noteq> [] then [(''runId'', escapeCEF (pl_RunID l))] else [])"
  have "cefExtension millis fmt2 l = pairsText ((''rt'', itoa (millis (pl_Timestamp l))) # ?kvs)" by (simp add: cefExtension_def)
  moreover have "\<forall>(k, v) \<in> set ((''rt'', itoa (millis (pl_Timestamp l))) # ?kvs). plainText k \<and> CHR '' '' \<notin> set k \<and> clean v"
    by (simp add: clean_escape clean_plain [OF plain_itoa] clean_plain [OF assms]) (simp add: plainText_def newline_def)
  ultimately show ?thesis
    using readExtension_pairs [of "''rt''" "itoa (millis (pl_Timestamp l))" ?kvs]
    by (simp add: cefFields_def unescape_escape unescape_plains [OF assms] unescape_plains [OF plain_itoa])
qed

lemma splitLines_line: "newline \<notin> set x \<Longrightarrow> splitLines line (x @ newline # s) = (line @ x) # splitLines [] s"
  by (induction x arbitrary: line) auto

lemma cefLine_read:
  assumes "\<And>q. plainText (fmt2 q)" "pl_Decision l \<in> set decisions"
  obtains x where "cefLine millis fmt2 l = x @ [newline]" "newline \<notin> set x" "readLine x = cefFields millis fmt2 l"
proof
  let ?x = "''CEF:0|AgentRuntime|PolicyEngine|1.0|'' @ ''policy-'' @ pl_Decision l @ ''|Policy '' @ pl_Decision l @ ''|'' @ severityOf (pl_Decision l) @ ''|'' @ cefExtension millis fmt2 l"
  show "cefLine millis fmt2 l = ?x @ [newline]" by (simp add: cefLine_def)
  have "newline \<notin> set (cefExtension millis fmt2 l)"
    using newline_escape newline_plain [OF plain_itoa] newline_plain [OF assms(1)]
    by (auto simp: cefExtension_def count_list_0_iff newline_def)
  with assms(2) show "newline \<notin> set ?x" by (auto simp: decisions_def severityOf_def newline_def)
  from assms(2) show "readLine ?x = cefFields millis fmt2 l"
    by (auto simp: readLine_def decisions_def severityOf_def readExtension_fields [OF assms(1)] eval_nat_numeral) (simp_all add: cefFields_def severityOf_def)
qed

lemma export_read:
  assumes "\<And>q. plainText (fmt2 q)"
  shows "\<forall>l \<in> set logs. pl_Decision l \<in> set decisions \<Longrightarrow> readCEF (exportCEF millis fmt2 logs) = map (cefFields millis fmt2) logs"
proof (induction logs)
  case (Cons l logs)
  from Cons.prems obtain x where x: "cefLine millis fmt2 l = x @ [newline]" "newline \<notin> set x" "readLine x = cefFields millis fmt2 l"
    using cefLine_read [of fmt2 l millis, OF assms] by auto
  from Cons show ?case by (simp add: readCEF_def exportCEF_def x splitLines_line)
qed (simp add: readCEF_def exportCEF_def)

section \<open>Audited tables\<close>

text \<open>Tables that come about by logging and by marking entries as reviewed, with any answers of the driver.\<close>

inductive audited :: "audit_table \<Rightarrow> bool" where
  empty: "audited []"
| logged: "audited t \<Longrightarrow> audit_Log newID now db t l = (t', err) \<Longrightarrow> audited t'"
| reviewed: "audited t \<Longrightarrow> MarkReviewed now db t logID reviewedBy = (t', err) \<Longrightarrow> audited t'"

lemma audited_ok: "audited t \<Longrightarrow> distinct (map pl_ID t) \<and> (\<forall>r \<in> set t. pl_Decision r \<in> set decisions)"
proof (induction rule: audited.induct)
  case (logged t newID now db l t' err)
  then show ?case by (auto simp: audit_Log_def Let_def split: option.splits if_splits)
next
  case (reviewed t now db logID reviewedBy t' err)
  have "map pl_ID t' = map pl_ID t" using reviewed.hyps(2) by (auto simp: MarkReviewed_def split: option.splits)
  moreover have "\<forall>r \<in> set t'. pl_Decision r \<in> set decisions" using reviewed by (auto simp: MarkReviewed_def split: option.splits)
  ultimately show ?case using reviewed.IH by simp
qed simp

lemma Query_rows:
  assumes "audit_Query None t f = Inr logs"
  shows "set logs \<subseteq> set t \<and> (\<forall>r \<in> set logs. auditMatches f r)"
  using assms by (auto simp: audit_Query_def Let_def dest: in_set_takeD split: if_splits)

section \<open>Properties\<close>

text \<open>
  C34. An export in the Common Event Format says exactly what was logged, whatever the entries hold: for every table that comes about by logging and reviewing, and every
  filter, a reader of the format gets back one record per selected entry, in their order, with the decision and severity in the header and, in the
  extension, the keys and the unescaped values of the entry, each under its own key and no other. The score is written by the format \<open>%.2f\<close>, which puts out neither
  backslashes nor equals signs nor newlines.
\<close>

theorem cef_unforgeable:
  assumes "audited t" "\<And>q. plainText (fmt2 q)" "audit_Query None t f = Inr logs"
  shows "\<exists>export. audit_Export millis rfc fmt2 marshal None t f ''cef'' = Inr export \<and> readCEF export = map (cefFields millis fmt2) logs"
proof -
  have "\<forall>l \<in> set logs. pl_Decision l \<in> set decisions" using audited_ok [OF assms(1)] Query_rows [OF assms(3)] by blast
  from export_read [OF assms(2) this] assms(3) show ?thesis by (simp add: audit_Export_def)
qed

definition sampleLog :: PolicyAuditLog where
  "sampleLog = \<lparr>pl_ID = ''e1'', pl_Timestamp = 5, pl_RunID = ''r'', pl_AgentName = ''a=b'', pl_PolicyName = ''p'', pl_PolicyVersion = ''1'', pl_Action = ''x'',
     pl_Tool = ''t'', pl_Decision = ''deny'', pl_RiskScore = 1, pl_DenyReason = ''no'' @ [newline] @ ''CEF:0'', pl_Context = [], pl_ReviewedBy = [], pl_ReviewedAt = None\<rparr>"

definition anyEntry :: AuditFilter where
  "anyEntry = \<lparr>fl_AgentName = [], fl_PolicyName = [], fl_Decision = [], fl_MinRiskScore = 0, fl_StartTime = 0, fl_EndTime = 0, fl_Limit = 0\<rparr>"

theorem cef_unforgeable_witness:
  "readCEF (exportCEF (\<lambda>t. t) (\<lambda>q. ''1.00'') [sampleLog]) =
     [([''CEF:0'', ''AgentRuntime'', ''PolicyEngine'', ''1.0'', ''policy-deny'', ''Policy deny'', ''7''],
       [(''rt'', ''5''), (''msg'', ''no'' @ [newline] @ ''CEF:0''), (''agent'', ''a=b''), (''policy'', ''p''), (''tool'', ''t''), (''action'', ''x''), (''riskScore'', ''1.00''), (''runId'', ''r'')])]"
proof -
  have "audit_Log [] 0 None [] sampleLog = ([sampleLog], None)" by (simp add: audit_Log_def sampleLog_def decisions_def)
  then have "audited [sampleLog]" using audited.empty audited.logged by blast
  moreover have "plainText ''1.00''" by (simp add: plainText_def newline_def)
  moreover have "audit_Query None [sampleLog] anyEntry = Inr [sampleLog]" by (simp add: audit_Query_def anyEntry_def auditMatches_def)
  moreover have "itoa 5 = ''5''" by code_simp
  ultimately show ?thesis
    using cef_unforgeable [of "[sampleLog]" "\<lambda>q. ''1.00''" anyEntry "[sampleLog]" "\<lambda>t. t" "\<lambda>t. []" "\<lambda>ls. Inr []"]
    by (simp add: audit_Export_def cefFields_def sampleLog_def severityOf_def)
qed

text \<open>
  A query returns the newest entries that match: newest first, each entry once, all of them when there is no limit, and with a limit no more than it allows
  and nothing that is older than an entry left out.
\<close>

theorem audit_query_newest:
  assumes "audited t"
  shows "\<exists>logs. audit_Query None t f = Inr logs \<and> sorted_wrt (\<lambda>x y. pl_Timestamp y \<le> pl_Timestamp x) logs \<and> distinct (map pl_ID logs) \<and>
    (\<forall>r \<in> set logs. r \<in> set t \<and> auditMatches f r) \<and>
    (fl_Limit f \<le> 0 \<longrightarrow> set logs = {r \<in> set t. auditMatches f r}) \<and>
    (fl_Limit f > 0 \<longrightarrow> int (length logs) \<le> fl_Limit f) \<and>
    (\<forall>r \<in> set t. auditMatches f r \<longrightarrow> r \<notin> set logs \<longrightarrow> int (length logs) = fl_Limit f \<and> (\<forall>l \<in> set logs. pl_Timestamp r \<le> pl_Timestamp l))"
proof -
  define found where "found = sort_key (\<lambda>r. - pl_Timestamp r) (filter (auditMatches f) t)"
  define logs where "logs = (if fl_Limit f > 0 then take (nat (fl_Limit f)) found else found)"
  have q: "audit_Query None t f = Inr logs" by (simp add: audit_Query_def logs_def found_def)
  have sorted: "sorted_wrt (\<lambda>x y. pl_Timestamp y \<le> pl_Timestamp x) found"
    using sorted_sort_key [of "\<lambda>r. - pl_Timestamp r" "filter (auditMatches f) t"] by (simp add: found_def sorted_map)
  have "distinct (map pl_ID (filter (auditMatches f) t))" using audited_ok [OF assms] distinct_map_filter by blast
  then have "distinct (map pl_ID found)" by (metis found_def distinct_map distinct_sort set_sort)
  then have dist: "distinct (map pl_ID logs)" by (simp add: logs_def distinct_take flip: take_map)
  have set: "set found = {r \<in> set t. auditMatches f r}" by (auto simp: found_def)
  have cut: "int (length logs) = fl_Limit f \<and> (\<forall>l \<in> set logs. pl_Timestamp r \<le> pl_Timestamp l)" if r: "r \<in> set found" "r \<notin> set logs" for r
  proof -
    have lim: "fl_Limit f > 0" "logs = take (nat (fl_Limit f)) found" using r by (auto simp: logs_def split: if_splits)
    define rest where "rest = drop (nat (fl_Limit f)) found"
    have app: "found = logs @ rest" by (simp add: lim(2) rest_def)
    then have mem: "r \<in> set rest" using r by auto
    then have "rest \<noteq> []" by auto
    then have "length found > nat (fl_Limit f)" by (simp add: rest_def)
    then have "int (length logs) = fl_Limit f" using lim by simp
    moreover have "\<forall>l \<in> set logs. pl_Timestamp r \<le> pl_Timestamp l" using sorted mem by (simp add: app sorted_wrt_append)
    ultimately show ?thesis by blast
  qed
  have "sorted_wrt (\<lambda>x y. pl_Timestamp y \<le> pl_Timestamp x) logs" using sorted by (simp add: logs_def sorted_wrt_take)
  moreover have "\<forall>r \<in> set logs. r \<in> set t \<and> auditMatches f r" using set by (auto simp: logs_def dest: in_set_takeD split: if_splits)
  moreover have "fl_Limit f \<le> 0 \<longrightarrow> set logs = {r \<in> set t. auditMatches f r}" "fl_Limit f > 0 \<longrightarrow> int (length logs) \<le> fl_Limit f"
    using set by (auto simp: logs_def)
  moreover have "\<forall>r \<in> set t. auditMatches f r \<longrightarrow> r \<notin> set logs \<longrightarrow> int (length logs) = fl_Limit f \<and> (\<forall>l \<in> set logs. pl_Timestamp r \<le> pl_Timestamp l)"
    using cut set by simp
  ultimately show ?thesis using q dist by (intro exI [of _ logs] conjI)
qed

theorem audit_query_newest_witness: "\<exists>logs. audit_Query None [sampleLog] anyEntry = Inr logs \<and> set logs = {r \<in> set [sampleLog]. auditMatches anyEntry r}"
proof -
  have "audit_Log [] 0 None [] sampleLog = ([sampleLog], None)" by (simp add: audit_Log_def sampleLog_def decisions_def)
  then have "audited [sampleLog]" using audited.empty audited.logged by blast
  from audit_query_newest [OF this, of anyEntry] obtain logs where q: "audit_Query None [sampleLog] anyEntry = Inr logs"
    and l: "fl_Limit anyEntry \<le> 0 \<longrightarrow> set logs = {r \<in> set [sampleLog]. auditMatches anyEntry r}" by (elim exE conjE)
  have "fl_Limit anyEntry \<le> 0" by (simp add: anyEntry_def)
  then show ?thesis by (intro exI [of _ logs] conjI q mp [OF l])
qed

text \<open>A line break in the reason of a denial makes two rows of one in the export to CSV.\<close>

lemma csv_row_forged: "count_list (exportCSV (\<lambda>t. []) (\<lambda>q. ''1.00'') [sampleLog]) newline = 3"
  by code_simp

text \<open>Statistics over a period without entries end in an error.\<close>

lemma empty_period_fails: "\<exists>err. GetStats None None [] a b = Inl err"
  by (simp add: GetStats_def)

text \<open>Denials without a reason are counted under the empty reason, as the column is never null.\<close>

lemma empty_reason_counted: "case GetStats None None [sampleLog\<lparr>pl_DenyReason := []\<rparr>] 0 10 of Inr s \<Rightarrow> st_TopDenyReasons s = [\<lparr>dr_Reason = [], dr_Count = 1\<rparr>] | Inl err \<Rightarrow> False"
  by code_simp

end
