(* ===== verification/Debugger.thy ===== *)
theory Debugger
  imports Workflow_Levels
begin

text \<open>
  The workflow debugger, \<open>pkg/workflow/debug.go\<close>: breakpoints, pausing, resuming and stepping, and an executor that walks through the levels of a graph. The
  executor and the callers of the session run concurrently: a run is a sequence of steps, each of which is atomic in the code, a section under the
  lock or one operation on a channel. One of them joins two sections of the code: the executor updates the variables and asks for the breakpoint in one
  step, so a command between the two, and the fields of a breakpoint changing while they are read, are not modelled. The channels have room for one token. Conditions of breakpoints are evaluated by an argument.
\<close>

section \<open>Sessions\<close>

record Breakpoint =
  bp_NodeID :: string
  bp_Condition :: string
  bp_Enabled :: bool

record DebugSession =
  ds_WorkflowID :: string
  ds_Breakpoints :: "Breakpoint smap"
  ds_CurrentStep :: string
  ds_Variables :: "any smap"
  ds_StepHistory :: "string list"
  ds_Paused :: bool
  ds_pauseChan :: bool
  ds_resumeChan :: bool
  ds_stepChan :: bool

definition NewDebugSession :: "string \<Rightarrow> DebugSession" where
  "NewDebugSession workflowID = \<lparr>ds_WorkflowID = workflowID, ds_Breakpoints = [], ds_CurrentStep = [], ds_Variables = [], ds_StepHistory = [],
     ds_Paused = False, ds_pauseChan = False, ds_resumeChan = False, ds_stepChan = False\<rparr>"

definition AddBreakpoint :: "string \<Rightarrow> string \<Rightarrow> DebugSession \<Rightarrow> DebugSession" where
  "AddBreakpoint nodeID condition ds =
     ds\<lparr>ds_Breakpoints := AList.update nodeID \<lparr>bp_NodeID = nodeID, bp_Condition = condition, bp_Enabled = True\<rparr> (ds_Breakpoints ds)\<rparr>"

definition RemoveBreakpoint :: "string \<Rightarrow> DebugSession \<Rightarrow> DebugSession" where
  "RemoveBreakpoint nodeID ds = ds\<lparr>ds_Breakpoints := AList.delete nodeID (ds_Breakpoints ds)\<rparr>"

definition EnableBreakpoint :: "string \<Rightarrow> bool \<Rightarrow> DebugSession \<Rightarrow> DebugSession" where
  "EnableBreakpoint nodeID enabled ds =
     (case map_of (ds_Breakpoints ds) nodeID of
        None \<Rightarrow> ds
      | Some bp \<Rightarrow> ds\<lparr>ds_Breakpoints := AList.update nodeID (bp\<lparr>bp_Enabled := enabled\<rparr>) (ds_Breakpoints ds)\<rparr>)"

definition ShouldPause :: "(string \<Rightarrow> any smap \<Rightarrow> gerror + bool) \<Rightarrow> string \<Rightarrow> any smap \<Rightarrow> DebugSession \<Rightarrow> gerror + bool" where
  "ShouldPause eval nodeID ctx ds =
     (case map_of (ds_Breakpoints ds) nodeID of
        None \<Rightarrow> Inr False
      | Some bp \<Rightarrow>
          if \<not> bp_Enabled bp then Inr False
          else if bp_Condition bp = [] then Inr True
          else (case eval (bp_Condition bp) ctx of
                  Inl err \<Rightarrow> Inl (Wrap ''evaluate breakpoint condition: '' err)
                | Inr b \<Rightarrow> Inr b))"

text \<open>\<open>Pause\<close>, \<open>Resume\<close> and \<open>StepOver\<close>: a write of the flag under the lock, then a send that is dropped when the channel is full.\<close>

definition setPaused :: "bool \<Rightarrow> DebugSession \<Rightarrow> DebugSession" where
  "setPaused b ds = ds\<lparr>ds_Paused := b\<rparr>"

definition sendPause :: "DebugSession \<Rightarrow> DebugSession" where
  "sendPause ds = ds\<lparr>ds_pauseChan := True\<rparr>"

definition sendResume :: "DebugSession \<Rightarrow> DebugSession" where
  "sendResume ds = ds\<lparr>ds_resumeChan := True\<rparr>"

definition StepOver :: "DebugSession \<Rightarrow> DebugSession" where
  "StepOver ds = ds\<lparr>ds_stepChan := True\<rparr>"

definition UpdateVariables :: "any smap \<Rightarrow> DebugSession \<Rightarrow> DebugSession" where
  "UpdateVariables vars ds = ds\<lparr>ds_Variables := fold (\<lambda>(k, v) m. AList.update k v m) vars (ds_Variables ds)\<rparr>"

definition GetState :: "DebugSession \<Rightarrow> string \<times> string \<times> bool \<times> any smap \<times> Breakpoint smap \<times> string list" where
  "GetState ds = (ds_WorkflowID ds, ds_CurrentStep ds, ds_Paused ds, ds_Variables ds, ds_Breakpoints ds, ds_StepHistory ds)"

section \<open>The executor\<close>

text \<open>What is left to do: wait at a level or a node, choose at the channels, check the breakpoint of a node, pause in two steps, run a node.\<close>

datatype task = TWait string | TSelect | TCheck string | TPauseFlag | TPauseSend | TRun string

definition levelTasks :: "nat \<Rightarrow> string list \<Rightarrow> task list" where
  "levelTasks i level = TWait (''level-'' @ itoa (int i)) # concat (map (\<lambda>n. [TCheck n, TWait n, TRun n]) level)"

definition debugProgram :: "string list list \<Rightarrow> task list" where
  "debugProgram levels = concat (map (\<lambda>(i, level). levelTasks i level) (zip [0..<length levels] levels))"

text \<open>
  A run: the session, the tasks, the outputs, the execution context and, once it has ended, the result. \<open>executed\<close>, \<open>hits\<close>, \<open>passes\<close> and \<open>commands\<close> record the
  nodes that were run, the breakpoints that fired, how often a token ended a wait and how many tokens were sent.
\<close>

record debug_run =
  dr_session :: DebugSession
  dr_tasks :: "task list"
  dr_outputs :: "any smap"
  dr_context :: "any smap"
  dr_result :: "(gerror + any smap) option"
  executed :: "string list"
  hits :: "string list"
  passes :: nat
  commands :: nat
  resumed :: bool

definition ExecuteDAGWithDebug :: "DebugSession \<Rightarrow> DAG \<Rightarrow> any smap \<Rightarrow> gerror + debug_run" where
  "ExecuteDAGWithDebug ds dag inputs =
     (case GetExecutionLevels dag of
        Inl err \<Rightarrow> Inl (Wrap ''get execution levels: '' err)
      | Inr levels \<Rightarrow> Inr \<lparr>dr_session = ds, dr_tasks = debugProgram levels, dr_outputs = [],
          dr_context = [(''inputs'', AMap inputs), (''outputs'', AMap [])], dr_result = None,
          executed = [], hits = [], passes = 0, commands = 0, resumed = False\<rparr>)"

datatype choice = OnDone gerror | OnResume | OnStep

text \<open>
  A step of the executor; \<open>pick\<close> is the case the select statement takes, which must be ready: the context is done or the channel has a token. No step is
  possible while the select waits, or when the run has ended.
\<close>

definition execStep :: "(string \<Rightarrow> any smap \<Rightarrow> gerror + bool) \<Rightarrow> int \<Rightarrow> choice \<Rightarrow> debug_run \<Rightarrow> debug_run option" where
  "execStep eval now pick r =
     (if dr_result r \<noteq> None then None
      else (case dr_tasks r of
              [] \<Rightarrow> Some (r\<lparr>dr_result := Some (Inr (dr_outputs r))\<rparr>)
            | TWait n # ts \<Rightarrow>
                (let ds = (dr_session r)\<lparr>ds_CurrentStep := n, ds_StepHistory := ds_StepHistory (dr_session r) @ [n]\<rparr>
                 in Some (r\<lparr>dr_session := ds, dr_tasks := (if ds_Paused ds then TSelect # ts else ts)\<rparr>))
            | TSelect # ts \<Rightarrow>
                (case pick of
                   OnDone err \<Rightarrow> Some (r\<lparr>dr_result := Some (Inl err)\<rparr>)
                 | OnResume \<Rightarrow> (if ds_resumeChan (dr_session r)
                     then Some (r\<lparr>dr_session := (dr_session r)\<lparr>ds_resumeChan := False\<rparr>, dr_tasks := ts, passes := Suc (passes r)\<rparr>) else None)
                 | OnStep \<Rightarrow> (if ds_stepChan (dr_session r)
                     then Some (r\<lparr>dr_session := (dr_session r)\<lparr>ds_stepChan := False\<rparr>, dr_tasks := TPauseFlag # TPauseSend # ts, passes := Suc (passes r)\<rparr>) else None))
            | TCheck n # ts \<Rightarrow>
                (let ctx = AList.update ''step'' (AMap [(''name'', AStr n), (''status'', AStr ''running'')]) (dr_context r);
                     ds = UpdateVariables ctx (dr_session r)
                 in case ShouldPause eval n ctx ds of
                      Inl err \<Rightarrow> Some (r\<lparr>dr_session := ds, dr_context := ctx, dr_result := Some (Inl (Wrap ''check breakpoint: '' err))\<rparr>)
                    | Inr b \<Rightarrow> Some (r\<lparr>dr_session := ds, dr_context := ctx, dr_tasks := (if b then TPauseFlag # TPauseSend # ts else ts),
                        hits := (if b then hits r @ [n] else hits r)\<rparr>))
            | TPauseFlag # ts \<Rightarrow> Some (r\<lparr>dr_session := setPaused True (dr_session r), dr_tasks := ts\<rparr>)
            | TPauseSend # ts \<Rightarrow> Some (r\<lparr>dr_session := sendPause (dr_session r), dr_tasks := ts\<rparr>)
            | TRun n # ts \<Rightarrow>
                (let res = AMap [(''node_id'', AStr n), (''executed'', ABool True), (''timestamp'', AInt now)];
                     outs = AList.update n res (dr_outputs r);
                     ctx = AList.update ''step'' (AMap [(''name'', AStr n), (''status'', AStr ''completed''), (''result'', res)])
                             (AList.update ''outputs'' (AMap outs) (dr_context r))
                 in Some (r\<lparr>dr_session := UpdateVariables ctx (dr_session r), dr_tasks := ts, dr_outputs := outs, dr_context := ctx, executed := executed r @ [n]\<rparr>))))"

text \<open>A step of a caller of the session.\<close>

datatype command = CAdd string string | CRemove string | CEnable string bool | CPauseFlag | CPauseSend | CResumeFlag | CResumeSend | CStepOver

fun commandStep :: "command \<Rightarrow> debug_run \<Rightarrow> debug_run" where
  "commandStep (CAdd n c) r = r\<lparr>dr_session := AddBreakpoint n c (dr_session r)\<rparr>"
| "commandStep (CRemove n) r = r\<lparr>dr_session := RemoveBreakpoint n (dr_session r)\<rparr>"
| "commandStep (CEnable n b) r = r\<lparr>dr_session := EnableBreakpoint n b (dr_session r)\<rparr>"
| "commandStep CPauseFlag r = r\<lparr>dr_session := setPaused True (dr_session r)\<rparr>"
| "commandStep CPauseSend r = r\<lparr>dr_session := sendPause (dr_session r)\<rparr>"
| "commandStep CResumeFlag r = r\<lparr>dr_session := setPaused False (dr_session r), resumed := True\<rparr>"
| "commandStep CResumeSend r = r\<lparr>dr_session := sendResume (dr_session r), commands := Suc (commands r)\<rparr>"
| "commandStep CStepOver r = r\<lparr>dr_session := StepOver (dr_session r), commands := Suc (commands r)\<rparr>"

inductive debugged :: "(string \<Rightarrow> any smap \<Rightarrow> gerror + bool) \<Rightarrow> debug_run \<Rightarrow> debug_run \<Rightarrow> bool" for eval r0 where
  start: "debugged eval r0 r0"
| exec: "debugged eval r0 r \<Longrightarrow> execStep eval now pick r = Some r' \<Longrightarrow> debugged eval r0 r'"
| call: "debugged eval r0 r \<Longrightarrow> debugged eval r0 (commandStep c r)"

section \<open>The shape of a run\<close>

definition runs :: "task list \<Rightarrow> string list" where
  "runs ts = concat (map (\<lambda>t. case t of TRun n \<Rightarrow> [n] | _ \<Rightarrow> []) ts)"

lemma runs_simps [simp]: "runs [] = []" "runs (TRun n # ts) = n # runs ts" "runs (TWait n # ts) = runs ts" "runs (TSelect # ts) = runs ts"
  "runs (TCheck n # ts) = runs ts" "runs (TPauseFlag # ts) = runs ts" "runs (TPauseSend # ts) = runs ts" "runs (ts @ us) = runs ts @ runs us"
  by (simp_all add: runs_def)

text \<open>A check is followed by the wait and the run of its node.\<close>

fun program :: "task list \<Rightarrow> bool" where
  "program [] = True"
| "program (TCheck n # ts) = (take 2 ts = [TWait n, TRun n] \<and> program ts)"
| "program (t # ts) = program ts"

lemma program_check: "program (TCheck n # ts) \<Longrightarrow> \<exists>us. ts = TWait n # TRun n # us \<and> program us"
  by (cases ts; cases "tl ts") auto

lemma program_append [simp]: "program ts \<Longrightarrow> program us \<Longrightarrow> program (ts @ us)"
proof (induction ts rule: program.induct)
  case (2 n ts)
  then obtain v where "ts = TWait n # TRun n # v" using program_check by blast
  with 2 show ?case by simp
qed simp_all

lemma levelTasks_ok: "program (levelTasks i level) \<and> runs (levelTasks i level) = level"
  by (induction level) (auto simp: levelTasks_def)

lemma debugProgram_ok: "program (debugProgram levels) \<and> runs (debugProgram levels) = concat levels"
proof -
  have "program (concat (map (\<lambda>(i, level). levelTasks i level) (zip is levels))) \<and>
      runs (concat (map (\<lambda>(i, level). levelTasks i level) (zip is levels))) = concat (take (length is) levels)" for "is" :: "nat list"
    by (induction "is" arbitrary: levels) (auto simp: levelTasks_ok zip_Cons1 split: list.split)
  from this [of "[0..<length levels]"] show ?thesis by (simp add: debugProgram_def)
qed

text \<open>The executor is stopped, or about to stop, at a breakpoint.\<close>

definition stopped :: "debug_run \<Rightarrow> string \<Rightarrow> bool" where
  "stopped r n \<longleftrightarrow> (\<exists>ts. dr_tasks r = TPauseFlag # TPauseSend # TWait n # TRun n # ts \<or>
     (ds_Paused (dr_session r) \<and> dr_tasks r \<in> {TPauseSend # TWait n # TRun n # ts, TWait n # TRun n # ts, TSelect # TRun n # ts}))"

definition tokens :: "DebugSession \<Rightarrow> nat" where
  "tokens ds = (if ds_resumeChan ds then 1 else 0) + (if ds_stepChan ds then 1 else 0)"

definition debug_inv :: "string list \<Rightarrow> debug_run \<Rightarrow> bool" where
  "debug_inv nodes r \<longleftrightarrow>
     executed r @ runs (dr_tasks r) = nodes \<and> program (dr_tasks r) \<and> keys (dr_outputs r) = executed r \<and>
     passes r + tokens (dr_session r) \<le> commands r \<and>
     (commands r = 0 \<longrightarrow> \<not> resumed r \<longrightarrow> hits r = [] \<or> (\<exists>n. hits r = [n] \<and> stopped r n)) \<and>
     (\<forall>outs. dr_result r = Some (Inr outs) \<longrightarrow> dr_tasks r = [] \<and> outs = dr_outputs r)"

lemma stopped_run: "stopped r n \<Longrightarrow> n \<in> set (runs (dr_tasks r))"
  by (auto simp: stopped_def)

lemma session_ops [simp]:
  "tokens (UpdateVariables vs ds) = tokens ds" "ds_Paused (UpdateVariables vs ds) = ds_Paused ds"
  "tokens (AddBreakpoint n c ds) = tokens ds" "ds_Paused (AddBreakpoint n c ds) = ds_Paused ds"
  "tokens (RemoveBreakpoint n ds) = tokens ds" "ds_Paused (RemoveBreakpoint n ds) = ds_Paused ds"
  "tokens (setPaused b ds) = tokens ds" "ds_Paused (setPaused b ds) = b"
  "tokens (sendPause ds) = tokens ds" "ds_Paused (sendPause ds) = ds_Paused ds"
  "ds_Paused (sendResume ds) = ds_Paused ds" "ds_Paused (StepOver ds) = ds_Paused ds"
  by (simp_all add: tokens_def UpdateVariables_def AddBreakpoint_def RemoveBreakpoint_def setPaused_def sendPause_def sendResume_def StepOver_def)

lemma enable_ops [simp]: "tokens (EnableBreakpoint n b ds) = tokens ds" "ds_Paused (EnableBreakpoint n b ds) = ds_Paused ds"
  by (simp_all add: EnableBreakpoint_def tokens_def split: option.split)

lemma stopped_cong: "stopped r n \<Longrightarrow> dr_tasks r' = dr_tasks r \<Longrightarrow> (ds_Paused (dr_session r) \<Longrightarrow> ds_Paused (dr_session r')) \<Longrightarrow> stopped r' n"
  unfolding stopped_def by metis

lemma session_inv:
  assumes "debug_inv nodes r" "tokens ds \<le> tokens (dr_session r) + k" "ds_Paused (dr_session r) \<longrightarrow> ds_Paused ds \<or> b"
  shows "debug_inv nodes (r\<lparr>dr_session := ds, commands := commands r + k, resumed := resumed r \<or> b\<rparr>)"
proof -
  let ?r = "r\<lparr>dr_session := ds, commands := commands r + k, resumed := resumed r \<or> b\<rparr>"
  have "hits ?r = [] \<or> (\<exists>n. hits ?r = [n] \<and> stopped ?r n)" if "commands ?r = 0" "\<not> resumed ?r"
  proof -
    have "hits r = [] \<or> (\<exists>n. hits r = [n] \<and> stopped r n)" using assms(1) that by (simp add: debug_inv_def)
    moreover have "stopped r n \<Longrightarrow> stopped ?r n" for n using assms(3) that(2) by (rule_tac stopped_cong) auto
    ultimately show ?thesis by auto
  qed
  with assms(1,2) show ?thesis by (simp add: debug_inv_def)
qed

lemma send_tokens: "tokens (sendResume ds) \<le> tokens ds + 1" "tokens (StepOver ds) \<le> tokens ds + 1"
  by (simp_all add: tokens_def sendResume_def StepOver_def)

lemma command_inv:
  assumes "debug_inv nodes r"
  shows "debug_inv nodes (commandStep c r)"
  using session_inv [OF assms, of _ 0 False] session_inv [OF assms, of _ 0 True] session_inv [OF assms, of _ 1 False] send_tokens
  by (cases c) simp_all

lemma exec_inv:
  assumes "debug_inv nodes r" "distinct nodes" "execStep eval now pick r = Some r'"
  shows "debug_inv nodes r'"
proof (cases "dr_tasks r")
  case Nil
  with assms show ?thesis by (auto simp: debug_inv_def execStep_def stopped_def split: if_splits)
next
  case (Cons t ts)
  have inv: "executed r @ runs (dr_tasks r) = nodes" "program (t # ts)" "keys (dr_outputs r) = executed r" "passes r + tokens (dr_session r) \<le> commands r"
    and stop: "commands r = 0 \<longrightarrow> \<not> resumed r \<longrightarrow> hits r = [] \<or> (\<exists>n. hits r = [n] \<and> stopped r n)"
    using assms(1) Cons by (simp_all add: debug_inv_def)
  have live: "dr_result r = None" using assms(3) by (auto simp: execStep_def split: if_splits)
  show ?thesis
  proof (cases t)
    case (TWait n)
    then have r': "r' = r\<lparr>dr_session := (dr_session r)\<lparr>ds_CurrentStep := n, ds_StepHistory := ds_StepHistory (dr_session r) @ [n]\<rparr>,
        dr_tasks := (if ds_Paused (dr_session r) then TSelect # ts else ts)\<rparr>" using assms(3) Cons live by (auto simp: execStep_def Let_def)
    have "stopped r m \<Longrightarrow> stopped r' m" for m using Cons TWait by (auto simp: stopped_def r')
    with inv stop live Cons TWait show ?thesis by (auto simp: debug_inv_def r' tokens_def)
  next
    case TSelect
    show ?thesis
    proof (cases pick)
      case (OnDone err)
      then have r': "r' = r\<lparr>dr_result := Some (Inl err)\<rparr>" using assms(3) Cons live TSelect by (simp add: execStep_def)
      have "stopped r m \<Longrightarrow> stopped r' m" for m by (simp add: stopped_def r')
      with inv stop Cons TSelect show ?thesis by (auto simp: debug_inv_def r')
    next
      case OnResume
      then have tok: "ds_resumeChan (dr_session r)" and r': "r' = r\<lparr>dr_session := (dr_session r)\<lparr>ds_resumeChan := False\<rparr>, dr_tasks := ts, passes := Suc (passes r)\<rparr>"
        using assms(3) Cons live TSelect by (auto simp: execStep_def split: if_splits)
      with inv live Cons TSelect show ?thesis by (auto simp: debug_inv_def r' tokens_def split: if_splits)
    next
      case OnStep
      then have tok: "ds_stepChan (dr_session r)" and r': "r' = r\<lparr>dr_session := (dr_session r)\<lparr>ds_stepChan := False\<rparr>, dr_tasks := TPauseFlag # TPauseSend # ts, passes := Suc (passes r)\<rparr>"
        using assms(3) Cons live TSelect by (auto simp: execStep_def split: if_splits)
      with inv live Cons TSelect show ?thesis by (auto simp: debug_inv_def r' tokens_def split: if_splits)
    qed
  next
    case (TCheck n)
    then obtain us where us: "ts = TWait n # TRun n # us" "program us" using inv(2) program_check by blast
    have none: "\<not> stopped r m" for m using Cons TCheck by (simp add: stopped_def)
    obtain ds ctx where upd: "tokens ds = tokens (dr_session r)" "ds_Paused ds = ds_Paused (dr_session r)" and
      cases: "(\<exists>err. r' = r\<lparr>dr_session := ds, dr_context := ctx, dr_result := Some (Inl err)\<rparr>) \<or>
        r' = r\<lparr>dr_session := ds, dr_context := ctx, dr_tasks := TPauseFlag # TPauseSend # ts, hits := hits r @ [n]\<rparr> \<or>
        r' = r\<lparr>dr_session := ds, dr_context := ctx, dr_tasks := ts, hits := hits r\<rparr>"
      using assms(3) Cons live TCheck by (auto simp: execStep_def Let_def split: sum.splits if_splits) (metis session_ops(1,2))+
    then show ?thesis
    proof (elim disjE exE)
      fix err assume r': "r' = r\<lparr>dr_session := ds, dr_context := ctx, dr_result := Some (Inl err)\<rparr>"
      with inv stop none upd Cons TCheck show ?thesis by (auto simp: debug_inv_def)
    next
      assume r': "r' = r\<lparr>dr_session := ds, dr_context := ctx, dr_tasks := TPauseFlag # TPauseSend # ts, hits := hits r @ [n]\<rparr>"
      with us(1) have "stopped r' n" by (simp add: stopped_def)
      with inv stop none upd us live Cons TCheck r' show ?thesis by (auto simp: debug_inv_def)
    next
      assume r': "r' = r\<lparr>dr_session := ds, dr_context := ctx, dr_tasks := ts, hits := hits r\<rparr>"
      with inv stop none upd us live Cons TCheck show ?thesis by (auto simp: debug_inv_def)
    qed
  next
    case TPauseFlag
    then have r': "r' = r\<lparr>dr_session := setPaused True (dr_session r), dr_tasks := ts\<rparr>" using assms(3) Cons live by (simp add: execStep_def)
    have "stopped r m \<Longrightarrow> stopped r' m" for m using Cons TPauseFlag by (auto simp: stopped_def r')
    with inv stop live Cons TPauseFlag show ?thesis by (auto simp: debug_inv_def r')
  next
    case TPauseSend
    then have r': "r' = r\<lparr>dr_session := sendPause (dr_session r), dr_tasks := ts\<rparr>" using assms(3) Cons live by (simp add: execStep_def)
    have "stopped r m \<Longrightarrow> stopped r' m" for m using Cons TPauseSend by (auto simp: stopped_def r')
    with inv stop live Cons TPauseSend show ?thesis by (auto simp: debug_inv_def r')
  next
    case (TRun n)
    have none: "\<not> stopped r m" for m using Cons TRun by (simp add: stopped_def)
    obtain ds ctx res where upd: "tokens ds = tokens (dr_session r)" and
      r': "r' = r\<lparr>dr_session := ds, dr_tasks := ts, dr_outputs := AList.update n res (dr_outputs r), dr_context := ctx, executed := executed r @ [n]\<rparr>"
      using assms(3) Cons live TRun by (auto simp: execStep_def Let_def) (metis session_ops(1))
    have "n \<notin> set (executed r)" using inv(1) assms(2) Cons TRun by auto
    then have "keys (AList.update n res (dr_outputs r)) = executed r @ [n]" using inv(3) keys_update_new [of n "dr_outputs r" res] by simp
    with inv stop none upd live Cons TRun show ?thesis by (auto simp: debug_inv_def r')
  qed
qed

lemma debugged_inv: "debugged eval r0 r \<Longrightarrow> debug_inv nodes r0 \<Longrightarrow> distinct nodes \<Longrightarrow> debug_inv nodes r"
  by (induction rule: debugged.induct) (auto intro: exec_inv command_inv)

lemma start_inv:
  assumes "maps_ok dag" "edges_closed dag" "ExecuteDAGWithDebug ds dag inputs = Inr r0" "tokens ds = 0"
  shows "\<exists>levels. GetExecutionLevels dag = Inr levels \<and> distinct (concat levels) \<and> debug_inv (concat levels) r0"
proof -
  obtain levels where l: "GetExecutionLevels dag = Inr levels" using assms(3) by (auto simp: ExecuteDAGWithDebug_def split: sum.splits)
  have "distinct (concat levels)" using layering_disjoint [OF GetExecutionLevels_layering [OF assms(1,2) l]] by simp
  moreover have "debug_inv (concat levels) r0" using assms(3,4) l debugProgram_ok [of levels] by (auto simp: ExecuteDAGWithDebug_def debug_inv_def)
  ultimately show ?thesis using l by blast
qed

section \<open>Properties\<close>

text \<open>
  C35. Breakpoints hold: take a graph whose maps are well formed, a session without pending commands, and any interleaving of the executor with calls of the
  session. The executor leaves a pause at most once for every \<open>Resume\<close> and \<open>StepOver\<close>; as long as there was none of either, no node at which a breakpoint
  fired is executed; nodes are executed in the order of the levels of the graph, each at most once, and a run that ends without an error has
  an output for exactly the nodes of the graph, in that order.
\<close>

theorem debug_breakpoints_hold:
  assumes "maps_ok dag" "edges_closed dag" "ExecuteDAGWithDebug ds dag inputs = Inr r0" "tokens ds = 0" "debugged eval r0 r"
  shows "passes r \<le> commands r \<and>
    (commands r = 0 \<longrightarrow> \<not> resumed r \<longrightarrow> set (hits r) \<inter> set (executed r) = {}) \<and>
    (\<exists>levels. GetExecutionLevels dag = Inr levels \<and> prefix (executed r) (concat levels) \<and> distinct (executed r) \<and>
       (\<forall>outs. dr_result r = Some (Inr outs) \<longrightarrow> keys outs = concat levels))"
proof -
  obtain levels where l: "GetExecutionLevels dag = Inr levels" "distinct (concat levels)" "debug_inv (concat levels) r0"
    using start_inv [OF assms(1-4)] by blast
  then have inv: "debug_inv (concat levels) r" using debugged_inv [OF assms(5)] by blast
  have "set (hits r) \<inter> set (executed r) = {}" if "commands r = 0" "\<not> resumed r"
  proof -
    have "hits r = [] \<or> (\<exists>n. hits r = [n] \<and> stopped r n)" using inv that by (simp add: debug_inv_def)
    moreover have "distinct (executed r @ runs (dr_tasks r))" using inv l(2) by (simp add: debug_inv_def)
    ultimately show ?thesis using stopped_run by fastforce
  qed
  moreover have eq: "concat levels = executed r @ runs (dr_tasks r)" and "passes r \<le> commands r" using inv by (simp_all add: debug_inv_def)
  moreover have "prefix (executed r) (concat levels)" "distinct (executed r)" using l(2) by (simp_all add: eq)
  moreover have "\<forall>outs. dr_result r = Some (Inr outs) \<longrightarrow> keys outs = concat levels" using inv by (auto simp: debug_inv_def)
  ultimately show ?thesis using l(1) by blast
qed

text \<open>The executor on its own, until it stops or has made so many steps.\<close>

fun drive :: "(string \<Rightarrow> any smap \<Rightarrow> gerror + bool) \<Rightarrow> nat \<Rightarrow> debug_run \<Rightarrow> debug_run" where
  "drive eval 0 r = r"
| "drive eval (Suc n) r = (case execStep eval 0 OnResume r of None \<Rightarrow> r | Some r' \<Rightarrow> drive eval n r')"

lemma drive_debugged: "debugged eval r0 r \<Longrightarrow> debugged eval r0 (drive eval n r)"
  by (induction n arbitrary: r) (auto intro: debugged.exec split: option.split)

definition breakAtB :: DebugSession where
  "breakAtB = AddBreakpoint ''b'' [] (NewDebugSession ''w'')"

definition startAtB :: debug_run where
  "startAtB = projr (ExecuteDAGWithDebug breakAtB example_dag [])"

lemma startAtB_eq: "ExecuteDAGWithDebug breakAtB example_dag [] = Inr startAtB"
  by code_simp

theorem debug_breakpoints_hold_witness:
  "hits (drive (\<lambda>c v. Inr False) 20 startAtB) = [''b''] \<and> executed (drive (\<lambda>c v. Inr False) 20 startAtB) = [''a''] \<and>
   passes (drive (\<lambda>c v. Inr False) 20 startAtB) \<le> commands (drive (\<lambda>c v. Inr False) 20 startAtB)"
proof -
  have "hits (drive (\<lambda>c v. Inr False) 20 startAtB) = [''b''] \<and> executed (drive (\<lambda>c v. Inr False) 20 startAtB) = [''a'']" by code_simp
  moreover have "maps_ok example_dag" "edges_closed example_dag" "tokens breakAtB = 0" by code_simp+
  ultimately show ?thesis
    using debug_breakpoints_hold [OF _ _ startAtB_eq _ drive_debugged [OF debugged.start], of "\<lambda>c v. Inr False" 20] by blast
qed

text \<open>A \<open>Resume\<close> given while nothing is paused stays in its channel: the next breakpoint fires and is passed without a stop.\<close>

lemma stale_resume_skips_breakpoint:
  "hits (drive (\<lambda>c v. Inr False) 20 (commandStep CResumeSend (commandStep CResumeFlag startAtB))) = [''b''] \<and>
   executed (drive (\<lambda>c v. Inr False) 20 (commandStep CResumeSend (commandStep CResumeFlag startAtB))) = [''a'', ''b'']"
  by code_simp

end
