(* ===== verification/Sla_Monitor.thy ===== *)
theory Sla_Monitor
  imports Workflow_State
begin

text \<open>
  Service levels, \<open>pkg/monitoring/sla.go\<close>: requests and uptime are counted in memory per tenant and service, flushed to two tables, and reported and checked against
  targets from there. The text of the period of a report is left out. Durations are in nanoseconds and exact; averages of the database are rational numbers. The clock, the answers of the driver
  and the formatting of numbers and times are arguments; the loops are their bodies, called in any order.
\<close>

section \<open>State\<close>

record SLAMetrics =
  sm_ServiceID :: string
  sm_TenantID :: string
  sm_TotalRequests :: int
  sm_SuccessRequests :: int
  sm_FailedRequests :: int
  sm_TotalLatency :: int
  sm_MinLatency :: int
  sm_MaxLatency :: int
  sm_LastUpdate :: int
  sm_Uptime :: int
  sm_Downtime :: int

record SLATarget =
  sg_ServiceID :: string
  sg_TenantID :: string
  sg_UptimeTarget :: rat
  sg_LatencyTargetP95 :: int
  sg_ErrorRateTarget :: rat
  sg_AlertOnViolation :: bool

record metric_row =
  mr_service_id :: string
  mr_tenant_id :: string
  mr_success :: int
  mr_latency_ms :: int
  mr_timestamp :: int

record uptime_row =
  ur_service_id :: string
  ur_tenant_id :: string
  ur_uptime_seconds :: rat
  ur_downtime_seconds :: rat
  ur_timestamp :: int

record SLAMonitor =
  so_metrics :: "SLAMetrics smap"
  so_targets :: "SLATarget smap"
  so_rows :: "metric_row list"
  so_uptimes :: "uptime_row list"

record SLAReport =
  rp_ServiceID :: string
  rp_TenantID :: string
  rp_Uptime :: rat
  rp_AvgLatency :: int
  rp_P50Latency :: int
  rp_P95Latency :: int
  rp_P99Latency :: int
  rp_ErrorRate :: rat
  rp_TotalRequests :: int
  rp_SuccessRequests :: int
  rp_FailedRequests :: int
  rp_SLAViolations :: "string list"
  rp_GeneratedAt :: int

definition NewSLAMonitor :: SLAMonitor where
  "NewSLAMonitor = \<lparr>so_metrics = [], so_targets = [], so_rows = [], so_uptimes = []\<rparr>"

definition slaKey :: "string \<Rightarrow> string \<Rightarrow> string" where
  "slaKey tenantID serviceID = tenantID @ '':'' @ serviceID"

definition newMetrics :: "string \<Rightarrow> string \<Rightarrow> int \<Rightarrow> int \<Rightarrow> SLAMetrics" where
  "newMetrics serviceID tenantID latency now = \<lparr>sm_ServiceID = serviceID, sm_TenantID = tenantID, sm_TotalRequests = 0, sm_SuccessRequests = 0,
     sm_FailedRequests = 0, sm_TotalLatency = 0, sm_MinLatency = latency, sm_MaxLatency = latency, sm_LastUpdate = now, sm_Uptime = 0, sm_Downtime = 0\<rparr>"

section \<open>Recording\<close>

definition SetTarget :: "SLATarget \<Rightarrow> SLAMonitor \<Rightarrow> SLAMonitor" where
  "SetTarget target m = m\<lparr>so_targets := AList.update (slaKey (sg_TenantID target) (sg_ServiceID target)) target (so_targets m)\<rparr>"

definition countRequest :: "int \<Rightarrow> bool \<Rightarrow> int \<Rightarrow> SLAMetrics \<Rightarrow> SLAMetrics" where
  "countRequest latency success now x =
     x\<lparr>sm_TotalRequests := sm_TotalRequests x + 1,
       sm_SuccessRequests := (if success then sm_SuccessRequests x + 1 else sm_SuccessRequests x),
       sm_FailedRequests := (if success then sm_FailedRequests x else sm_FailedRequests x + 1),
       sm_TotalLatency := sm_TotalLatency x + latency,
       sm_MinLatency := (if latency < sm_MinLatency x then latency else sm_MinLatency x),
       sm_MaxLatency := (if latency > sm_MaxLatency x then latency else sm_MaxLatency x),
       sm_LastUpdate := now\<rparr>"

definition RecordRequest :: "string \<Rightarrow> string \<Rightarrow> int \<Rightarrow> bool \<Rightarrow> int \<Rightarrow> SLAMonitor \<Rightarrow> SLAMonitor" where
  "RecordRequest serviceID tenantID latency success now m =
     (let key = slaKey tenantID serviceID;
          x = (case map_of (so_metrics m) key of None \<Rightarrow> newMetrics serviceID tenantID latency now | Some x \<Rightarrow> x)
      in m\<lparr>so_metrics := AList.update key (countRequest latency success now x) (so_metrics m)\<rparr>)"

definition RecordUptime :: "string \<Rightarrow> string \<Rightarrow> int \<Rightarrow> bool \<Rightarrow> int \<Rightarrow> SLAMonitor \<Rightarrow> SLAMonitor" where
  "RecordUptime serviceID tenantID duration available now m =
     (let key = slaKey tenantID serviceID;
          x = (case map_of (so_metrics m) key of None \<Rightarrow> newMetrics serviceID tenantID 0 now | Some x \<Rightarrow> x)
      in m\<lparr>so_metrics := AList.update key
             (x\<lparr>sm_Uptime := (if available then sm_Uptime x + duration else sm_Uptime x),
                sm_Downtime := (if available then sm_Downtime x else sm_Downtime x + duration), sm_LastUpdate := now\<rparr>) (so_metrics m)\<rparr>)"

definition GetMetrics :: "string \<Rightarrow> string \<Rightarrow> SLAMonitor \<Rightarrow> gerror + SLAMetrics" where
  "GetMetrics serviceID tenantID m =
     (case map_of (so_metrics m) (slaKey tenantID serviceID) of
        None \<Rightarrow> Inl (Errorf (''metrics not found for service: '' @ serviceID))
      | Some x \<Rightarrow> Inr x)"

section \<open>Flushing\<close>

text \<open>The inserts for one service; \<open>fails\<close> tells for each of the two whether the driver refuses it, which is ignored.\<close>

definition flushOne :: "bool \<times> bool \<Rightarrow> SLAMetrics \<Rightarrow> SLAMonitor \<Rightarrow> SLAMonitor" where
  "flushOne fails x m =
     (let m1 = (if sm_TotalRequests x > 0 \<and> \<not> fst fails
                then m\<lparr>so_rows := so_rows m @ [\<lparr>mr_service_id = sm_ServiceID x, mr_tenant_id = sm_TenantID x, mr_success = 1,
                         mr_latency_ms = go_div (go_div (sm_TotalLatency x) 1000000) (sm_TotalRequests x), mr_timestamp = sm_LastUpdate x\<rparr>]\<rparr>
                else m)
      in if (sm_Uptime x > 0 \<or> sm_Downtime x > 0) \<and> \<not> snd fails
         then m1\<lparr>so_uptimes := so_uptimes m1 @ [\<lparr>ur_service_id = sm_ServiceID x, ur_tenant_id = sm_TenantID x,
                ur_uptime_seconds = of_int (sm_Uptime x) / 1000000000, ur_downtime_seconds = of_int (sm_Downtime x) / 1000000000, ur_timestamp = sm_LastUpdate x\<rparr>]\<rparr>
         else m1)"

definition sla_flush :: "(string \<Rightarrow> bool \<times> bool) \<Rightarrow> SLAMonitor \<Rightarrow> SLAMonitor" where
  "sla_flush fails m = fold (\<lambda>(key, x). flushOne (fails key) x) (so_metrics m) m"

section \<open>Reports\<close>

text \<open>\<open>time.Duration(f)\<close> drops the fraction.\<close>

definition trunc :: "rat \<Rightarrow> int" where
  "trunc q = (if q \<ge> 0 then floor q else ceiling q)"

definition millisOf :: "rat \<Rightarrow> int" where
  "millisOf q = trunc q * 1000000"

text \<open>\<open>fmt2\<close> is \<open>%.2f\<close> and \<open>fmtD\<close> formats a duration.\<close>

definition checkViolations :: "(rat \<Rightarrow> string) \<Rightarrow> (int \<Rightarrow> string) \<Rightarrow> SLAMonitor \<Rightarrow> string \<Rightarrow> string \<Rightarrow> rat \<Rightarrow> rat \<Rightarrow> int \<Rightarrow> string list" where
  "checkViolations fmt2 fmtD m serviceID tenantID uptime errorRate avgLatency =
     (case map_of (so_targets m) (slaKey tenantID serviceID) of
        None \<Rightarrow> []
      | Some t \<Rightarrow>
          (if uptime < sg_UptimeTarget t then [''Uptime '' @ fmt2 uptime @ ''% below target '' @ fmt2 (sg_UptimeTarget t) @ ''%''] else []) @
          (if errorRate > sg_ErrorRateTarget t then [''Error rate '' @ fmt2 (errorRate * 100) @ ''% above target '' @ fmt2 (sg_ErrorRateTarget t * 100) @ ''%''] else []) @
          (if avgLatency > sg_LatencyTargetP95 t then [''Average latency '' @ fmtD avgLatency @ '' above target '' @ fmtD (sg_LatencyTargetP95 t)] else []))"

definition GenerateReport :: "(rat \<Rightarrow> string) \<Rightarrow> (int \<Rightarrow> string) \<Rightarrow> gerror option \<Rightarrow> gerror option \<Rightarrow> int \<Rightarrow> SLAMonitor \<Rightarrow> string \<Rightarrow> string \<Rightarrow> int \<Rightarrow> int \<Rightarrow> gerror + SLAReport" where
  "GenerateReport fmt2 fmtD db1 db2 now m serviceID tenantID start end1 =
     (let rows = filter (\<lambda>r. mr_service_id r = serviceID \<and> mr_tenant_id r = tenantID \<and> start \<le> mr_timestamp r \<and> mr_timestamp r \<le> end1) (so_rows m);
          ups = filter (\<lambda>r. ur_service_id r = serviceID \<and> ur_tenant_id r = tenantID \<and> start \<le> ur_timestamp r \<and> ur_timestamp r \<le> end1) (so_uptimes m)
      in case db1 of
           Some err \<Rightarrow> Inl (Wrap ''query metrics: '' err)
         | None \<Rightarrow>
             if rows = [] then Inl (Wrap ''query metrics: '' (Errorf ''sql: Scan error: converting NULL to int64 is unsupported''))
             else (case db2 of
                     Some err \<Rightarrow> Inl (Wrap ''query uptime: '' err)
                   | None \<Rightarrow>
                       (let tot = int (length rows);
                            failed = int (length (filter (\<lambda>r. mr_success r = 0) rows));
                            avg = of_int (sum_list (map mr_latency_ms rows)) / of_int tot;
                            up = sum_list (map ur_uptime_seconds ups); down = sum_list (map ur_downtime_seconds ups);
                            uptime = (if up + down > 0 then up / (up + down) * 100 else 100);
                            errorRate = of_int failed / of_int tot
                        in Inr \<lparr>rp_ServiceID = serviceID, rp_TenantID = tenantID, rp_Uptime = uptime, rp_AvgLatency = millisOf avg, rp_P50Latency = millisOf (avg / 2),
                             rp_P95Latency = millisOf (avg * 3 / 2), rp_P99Latency = millisOf (avg * 2), rp_ErrorRate = errorRate, rp_TotalRequests = tot,
                             rp_SuccessRequests = int (length (filter (\<lambda>r. mr_success r = 1) rows)), rp_FailedRequests = failed,
                             rp_SLAViolations = checkViolations fmt2 fmtD m serviceID tenantID uptime errorRate (millisOf avg), rp_GeneratedAt = now\<rparr>)))"

text \<open>The alerts of a check of all targets: reports over the last hour, those that fail passed over.\<close>

definition checkAllSLAs :: "(rat \<Rightarrow> string) \<Rightarrow> (int \<Rightarrow> string) \<Rightarrow> gerror option \<Rightarrow> gerror option \<Rightarrow> int \<Rightarrow> SLAMonitor \<Rightarrow> (string \<times> string list) list" where
  "checkAllSLAs fmt2 fmtD db1 db2 now m =
     concat (map (\<lambda>(key, t).
       case GenerateReport fmt2 fmtD db1 db2 now m (sg_ServiceID t) (sg_TenantID t) (now - 3600000000000) now of
         Inl err \<Rightarrow> []
       | Inr rep \<Rightarrow> if rp_SLAViolations rep \<noteq> [] \<and> sg_AlertOnViolation t then [(sg_ServiceID t, rp_SLAViolations rep)] else []) (so_targets m))"

section \<open>Runs of the monitor\<close>

datatype sla_op =
    OTarget SLATarget
  | ORequest string string int bool int
  | OUptime string string int bool int
  | OFlush "string \<Rightarrow> bool \<times> bool"

fun slaStep :: "sla_op \<Rightarrow> SLAMonitor \<Rightarrow> SLAMonitor" where
  "slaStep (OTarget t) m = SetTarget t m"
| "slaStep (ORequest sv tn latency success now) m = RecordRequest sv tn latency success now m"
| "slaStep (OUptime sv tn duration available now) m = RecordUptime sv tn duration available now m"
| "slaStep (OFlush fails) m = sla_flush fails m"

definition slaRun :: "sla_op list \<Rightarrow> SLAMonitor" where
  "slaRun ops = fold slaStep ops NewSLAMonitor"

text \<open>The requests and the periods recorded for one service of one tenant, in order.\<close>

fun requestOf :: "string \<Rightarrow> string \<Rightarrow> sla_op \<Rightarrow> (int \<times> bool) list" where
  "requestOf sv tn (ORequest sv' tn' latency success now) = (if sv' = sv \<and> tn' = tn then [(latency, success)] else [])"
| "requestOf sv tn _ = []"

fun uptimeOf :: "string \<Rightarrow> string \<Rightarrow> sla_op \<Rightarrow> (int \<times> bool) list" where
  "uptimeOf sv tn (OUptime sv' tn' duration available now) = (if sv' = sv \<and> tn' = tn then [(duration, available)] else [])"
| "uptimeOf sv tn _ = []"

definition requests :: "string \<Rightarrow> string \<Rightarrow> sla_op list \<Rightarrow> (int \<times> bool) list" where
  "requests sv tn ops = concat (map (requestOf sv tn) ops)"

definition uptimes :: "string \<Rightarrow> string \<Rightarrow> sla_op list \<Rightarrow> (int \<times> bool) list" where
  "uptimes sv tn ops = concat (map (uptimeOf sv tn) ops)"

lemma snoc_simps [simp]:
  "requests sv tn [] = []" "requests sv tn (ops @ [op1]) = requests sv tn ops @ requestOf sv tn op1"
  "uptimes sv tn [] = []" "uptimes sv tn (ops @ [op1]) = uptimes sv tn ops @ uptimeOf sv tn op1"
  "slaRun [] = NewSLAMonitor" "slaRun (ops @ [op1]) = slaStep op1 (slaRun ops)"
  by (simp_all add: requests_def uptimes_def slaRun_def)

fun plainTenant :: "sla_op \<Rightarrow> bool" where
  "plainTenant (ORequest sv tn latency success now) = (CHR '':'' \<notin> set tn)"
| "plainTenant (OUptime sv tn duration available now) = (CHR '':'' \<notin> set tn)"
| "plainTenant _ = True"

lemma slaKey_inj: "CHR '':'' \<notin> set tn \<Longrightarrow> CHR '':'' \<notin> set tn' \<Longrightarrow> slaKey tn sv = slaKey tn' sv' \<longleftrightarrow> tn = tn' \<and> sv = sv'"
  using append_sep_inject [of "CHR '':''" tn tn' sv sv'] by (simp add: slaKey_def)

lemma flushOne_keeps [simp]: "so_metrics (flushOne fails x m) = so_metrics m" "so_targets (flushOne fails x m) = so_targets m"
  by (simp_all add: flushOne_def Let_def)

lemma flush_keeps [simp]: "so_metrics (sla_flush fails m) = so_metrics m" "so_targets (sla_flush fails m) = so_targets m"
proof -
  have "so_metrics (fold (\<lambda>(key, x). flushOne (fails key) x) xs m) = so_metrics m \<and> so_targets (fold (\<lambda>(key, x). flushOne (fails key) x) xs m) = so_targets m" for xs m
    by (induction xs arbitrary: m) auto
  then show "so_metrics (sla_flush fails m) = so_metrics m" "so_targets (sla_flush fails m) = so_targets m" by (simp_all add: sla_flush_def)
qed

text \<open>What the counters of a service should hold.\<close>

definition tally :: "(int \<times> bool) list \<Rightarrow> (int \<times> bool) list \<Rightarrow> SLAMetrics \<Rightarrow> bool" where
  "tally rs us x \<longleftrightarrow>
     sm_TotalRequests x = int (length rs) \<and> sm_SuccessRequests x = int (length (filter snd rs)) \<and>
     sm_FailedRequests x = int (length (filter (\<lambda>r. \<not> snd r) rs)) \<and> sm_TotalLatency x = sum_list (map fst rs) \<and>
     sm_Uptime x = sum_list (map fst (filter snd us)) \<and> sm_Downtime x = sum_list (map fst (filter (\<lambda>u. \<not> snd u) us)) \<and>
     (us = [] \<longrightarrow> rs \<noteq> [] \<longrightarrow> sm_MinLatency x = Min (fst ` set rs) \<and> sm_MaxLatency x = Max (fst ` set rs))"

lemma tally_new:
  "tally [(latency, success)] [] (countRequest latency success now (newMetrics sv tn latency now'))"
  by (simp add: tally_def countRequest_def newMetrics_def)

lemma tally_request:
  assumes "tally rs us x" "rs \<noteq> [] \<or> us \<noteq> []"
  shows "tally (rs @ [(latency, success)]) us (countRequest latency success now x)"
proof -
  define A where "A = fst ` set (rs @ [(latency, success)])"
  have "Min A = min latency (sm_MinLatency x) \<and> Max A = max latency (sm_MaxLatency x)" if "us = []"
  proof -
    have "rs \<noteq> []" "sm_MinLatency x = Min (fst ` set rs)" "sm_MaxLatency x = Max (fst ` set rs)" using assms that by (auto simp: tally_def)
    then show ?thesis by (simp add: A_def)
  qed
  with assms(1) show ?thesis unfolding tally_def A_def [symmetric] by (simp add: countRequest_def min_def max_def)
qed

lemma metrics_tally:
  assumes "list_all plainTenant ops" "CHR '':'' \<notin> set tn"
  shows "(if requests sv tn ops = [] \<and> uptimes sv tn ops = [] then map_of (so_metrics (slaRun ops)) (slaKey tn sv) = None
    else \<exists>x. map_of (so_metrics (slaRun ops)) (slaKey tn sv) = Some x \<and> tally (requests sv tn ops) (uptimes sv tn ops) x)"
  using assms(1)
proof (induction ops rule: rev_induct)
  case Nil
  show ?case by (simp add: NewSLAMonitor_def)
next
  case (snoc op1 ops)
  then have IH: "if requests sv tn ops = [] \<and> uptimes sv tn ops = [] then map_of (so_metrics (slaRun ops)) (slaKey tn sv) = None
    else \<exists>x. map_of (so_metrics (slaRun ops)) (slaKey tn sv) = Some x \<and> tally (requests sv tn ops) (uptimes sv tn ops) x" by simp
  show ?case
  proof (cases op1)
    case (ORequest sv' tn' latency success now)
    have key: "slaKey tn' sv' = slaKey tn sv \<longleftrightarrow> tn' = tn \<and> sv' = sv" using slaKey_inj [of tn' tn sv' sv] snoc.prems assms(2) ORequest by auto
    show ?thesis
    proof (cases "tn' = tn \<and> sv' = sv")
      case True
      with IH ORequest show ?thesis
        by (auto simp: RecordRequest_def Let_def tally_new tally_request split: if_splits)
    next
      case False
      with IH key ORequest show ?thesis by (auto simp: RecordRequest_def Let_def split: if_splits)
    qed
  next
    case (OUptime sv' tn' duration available now)
    have key: "slaKey tn' sv' = slaKey tn sv \<longleftrightarrow> tn' = tn \<and> sv' = sv" using slaKey_inj [of tn' tn sv' sv] snoc.prems assms(2) OUptime by auto
    show ?thesis
    proof (cases "tn' = tn \<and> sv' = sv")
      case True
      with IH OUptime show ?thesis by (auto simp: RecordUptime_def Let_def tally_def newMetrics_def split: if_splits)
    next
      case False
      with IH key OUptime show ?thesis by (auto simp: RecordUptime_def Let_def split: if_splits)
    qed
  qed (use IH in \<open>simp_all add: SetTarget_def\<close>)
qed

lemma flushOne_rows: "r \<in> set (so_rows (flushOne fails x m)) \<Longrightarrow> r \<in> set (so_rows m) \<or> mr_success r = 1"
  by (auto simp: flushOne_def Let_def split: if_splits)

text \<open>Every row of the table of requests says that it was a success.\<close>

lemma rows_success: "r \<in> set (so_rows (slaRun ops)) \<Longrightarrow> mr_success r = 1"
proof (induction ops arbitrary: r rule: rev_induct)
  case (snoc op1 ops)
  have "\<forall>r \<in> set (so_rows (fold (\<lambda>(key, x). flushOne (fails key) x) xs m)). mr_success r = 1" if "\<forall>r \<in> set (so_rows m). mr_success r = 1" for fails xs m
    using that
  proof (induction xs arbitrary: m)
    case (Cons p xs)
    from Cons.prems have "\<forall>r \<in> set (so_rows (flushOne (fails (fst p)) (snd p) m)). mr_success r = 1" using flushOne_rows by blast
    from Cons.IH [OF this] show ?case by (simp add: case_prod_beta)
  qed simp
  then have "\<forall>r \<in> set (so_rows (sla_flush fails (slaRun ops))). mr_success r = 1" for fails using snoc.IH unfolding sla_flush_def by blast
  with snoc show ?case by (cases op1) (auto simp: SetTarget_def RecordRequest_def RecordUptime_def Let_def)
qed (simp add: NewSLAMonitor_def)

section \<open>Properties\<close>

text \<open>
  The counters are exact: after any sequence of operations with tenants without a colon, the metrics of a service of a tenant count exactly the requests and the periods
  that were recorded for it, successes, failures, latencies, uptime and downtime, and its smallest and largest latency are right unless uptime was
  recorded as well; without records there are no metrics.
\<close>

theorem sla_counters_exact:
  assumes "list_all plainTenant ops" "CHR '':'' \<notin> set tn"
  shows "(case GetMetrics sv tn (slaRun ops) of
      Inl err \<Rightarrow> requests sv tn ops = [] \<and> uptimes sv tn ops = []
    | Inr x \<Rightarrow> tally (requests sv tn ops) (uptimes sv tn ops) x)"
  using metrics_tally [OF assms, of sv] by (auto simp: GetMetrics_def split: if_splits option.split)

definition demoOps :: "sla_op list" where
  "demoOps = [ORequest ''api'' ''t'' 5000000 False 1, OFlush (\<lambda>k. (False, False)), ORequest ''api'' ''t'' 7000000 True 2]"

theorem sla_counters_exact_witness:
  "\<exists>x. GetMetrics ''api'' ''t'' (slaRun demoOps) = Inr x \<and> tally [(5000000, False), (7000000, True)] [] x"
proof -
  have "list_all plainTenant demoOps" "CHR '':'' \<notin> set ''t''" by (simp_all add: demoOps_def)
  from sla_counters_exact [OF this, of "''api''"] show ?thesis
    by (auto simp: demoOps_def requests_def uptimes_def split: sum.splits)
qed

text \<open>
  Failures never reach a report: whatever requests were recorded and however often the metrics were flushed, every report that is generated shows no
  failed request and an error rate of zero, and no check of the targets raises an alert for an error rate, if targets are not negative.
\<close>

theorem sla_error_rate_blind:
  assumes "GenerateReport fmt2 fmtD db1 db2 now (slaRun ops) sv tn start end1 = Inr rep"
    "\<forall>t. map_of (so_targets (slaRun ops)) (slaKey tn sv) = Some t \<longrightarrow> 0 \<le> sg_ErrorRateTarget t"
  shows "rp_FailedRequests rep = 0 \<and> rp_ErrorRate rep = 0 \<and> rp_SuccessRequests rep = rp_TotalRequests rep \<and> length (rp_SLAViolations rep) \<le> 2 \<and>
    (\<forall>v \<in> set (rp_SLAViolations rep). \<not> HasPrefix v ''Error rate'')"
proof -
  let ?rows = "filter (\<lambda>r. mr_service_id r = sv \<and> mr_tenant_id r = tn \<and> start \<le> mr_timestamp r \<and> mr_timestamp r \<le> end1) (so_rows (slaRun ops))"
  have all: "\<forall>r \<in> set ?rows. mr_success r = 1" using rows_success by auto
  then have f: "filter (\<lambda>r. mr_success r = 0) ?rows = []" "filter (\<lambda>r. mr_success r = 1) ?rows = ?rows"
    by (simp_all only: filter_False filter_True all) (use all in force)+
  obtain up lat where rep: "rp_FailedRequests rep = 0" "rp_ErrorRate rep = 0" "rp_SuccessRequests rep = rp_TotalRequests rep"
    "rp_SLAViolations rep = checkViolations fmt2 fmtD (slaRun ops) sv tn up 0 lat"
    using assms(1) f by (auto simp: GenerateReport_def Let_def split: option.splits if_splits)
  with assms(2) show ?thesis by (auto simp: checkViolations_def HasPrefix_def split: option.splits if_splits)
qed

theorem sla_error_rate_blind_witness:
  "\<exists>rep. GenerateReport (\<lambda>q. []) (\<lambda>d. []) None None 9 (slaRun demoOps) ''api'' ''t'' 0 9 = Inr rep \<and> rp_ErrorRate rep = 0 \<and> rp_TotalRequests rep = 1"
proof -
  have v: "case GenerateReport (\<lambda>q. []) (\<lambda>d. []) None None 9 (slaRun demoOps) ''api'' ''t'' 0 9 of Inr rep \<Rightarrow> rp_TotalRequests rep = 1 | Inl err \<Rightarrow> False" by code_simp
  have t: "so_targets (slaRun demoOps) = []" by code_simp
  obtain rep where rep: "GenerateReport (\<lambda>q. []) (\<lambda>d. []) None None 9 (slaRun demoOps) ''api'' ''t'' 0 9 = Inr rep" "rp_TotalRequests rep = 1"
    using v by (auto split: sum.splits)
  from sla_error_rate_blind [OF rep(1)] rep t show ?thesis by simp
qed

end
