(* ===== verification/Go_Paths.thy ===== *)
theory Go_Paths
  imports Go_Prelude
begin

text \<open>
  The functions of package \<open>filepath\<close> that the sources call, on a Unix system: \<open>Clean\<close>, \<open>Join\<close>, \<open>Dir\<close>, \<open>Base\<close>, \<open>Ext\<close> and \<open>IsAbs\<close>.
\<close>

fun splitSlash :: "string \<Rightarrow> string list" where
  "splitSlash [] = [[]]"
| "splitSlash (c # s) = (if c = CHR ''/'' then [] # splitSlash s else (case splitSlash s of [] \<Rightarrow> [[c]] | w # ws \<Rightarrow> (c # w) # ws))"

definition IsAbs :: "string \<Rightarrow> bool" where
  "IsAbs path = HasPrefix path ''/''"

fun cleanParts :: "bool \<Rightarrow> string list \<Rightarrow> string list \<Rightarrow> string list" where
  "cleanParts rooted out [] = rev out"
| "cleanParts rooted out (w # ws) =
     (if w = [] \<or> w = ''.'' then cleanParts rooted out ws
      else if w = ''..''
      then (case out of
              [] \<Rightarrow> cleanParts rooted (if rooted then [] else [''..'']) ws
            | o1 # os \<Rightarrow> if o1 = ''..'' then cleanParts rooted (''..'' # out) ws else cleanParts rooted os ws)
      else cleanParts rooted (w # out) ws)"

definition Clean :: "string \<Rightarrow> string" where
  "Clean path =
     (let s = (if IsAbs path then ''/'' else []) @ Join (cleanParts (IsAbs path) [] (splitSlash path)) ''/''
      in if s = [] then ''.'' else s)"

definition pathJoin :: "string list \<Rightarrow> string" where
  "pathJoin elems = (case dropWhile (\<lambda>e. e = []) elems of [] \<Rightarrow> [] | es \<Rightarrow> Clean (Join es ''/''))"

definition pathDir :: "string \<Rightarrow> string" where
  "pathDir path = Clean (rev (dropWhile (\<lambda>c. c \<noteq> CHR ''/'') (rev path)))"

definition pathBase :: "string \<Rightarrow> string" where
  "pathBase path =
     (if path = [] then ''.''
      else (let s = rev (dropWhile (\<lambda>c. c = CHR ''/'') (rev path))
            in if s = [] then ''/'' else rev (takeWhile (\<lambda>c. c \<noteq> CHR ''/'') (rev s))))"

text \<open>The extension starts at the last dot of the last element.\<close>

definition pathExt :: "string \<Rightarrow> string" where
  "pathExt path =
     (let b = rev (takeWhile (\<lambda>c. c \<noteq> CHR ''/'') (rev path)); e = takeWhile (\<lambda>c. c \<noteq> CHR ''.'') (rev b)
      in if length e = length b then [] else CHR ''.'' # rev e)"

end
