(* ===== verification/Tool_Sources.thy ===== *)
theory Tool_Sources
  imports Policy_Engine Workflow_Engine Go_Paths
begin

text \<open>
  Where the tools of an agent come from and how a language model names them: the built-in tools, \<open>pkg/tool/builtin\<close>, the tools of an MCP server,
  \<open>pkg/mcp\<close>, and the planner that offers them to a model and reads its answer, \<open>pkg/llm/planner.go\<close>.

  What lies outside is an argument: the HTTP client, the database driver, the MCP server, the model, and the conversion between values and JSON text. A
  tool gets the value its JSON input decodes to. Numbers are exact, and a nil map is the empty map.
\<close>

section \<open>Reading a request\<close>

text \<open>
  \<open>json.Unmarshal\<close> into a struct: the keys come in their sorted order, a key matches a field up to the case of its letters, null leaves the field
  as it is and another type is an error.
\<close>

fun jsonKind :: "any \<Rightarrow> string" where
  "jsonKind ANil = ''null''"
| "jsonKind (ABool b) = ''bool''"
| "jsonKind (AInt i) = ''number''"
| "jsonKind (AFloat q) = ''number''"
| "jsonKind (AStr s) = ''string''"
| "jsonKind (AList xs) = ''array''"
| "jsonKind (AMap m) = ''object''"

fun readStr :: "any \<Rightarrow> string \<Rightarrow> string option" where
  "readStr ANil old = Some old"
| "readStr (AStr s) old = Some s"
| "readStr v old = None"

fun readNum :: "any \<Rightarrow> rat \<Rightarrow> rat option" where
  "readNum ANil old = Some old"
| "readNum (AInt i) old = Some (of_int i)"
| "readNum (AFloat q) old = Some q"
| "readNum v old = None"

definition unmarshalError :: "any \<Rightarrow> string \<Rightarrow> string \<Rightarrow> gerror" where
  "unmarshalError v name type = Errorf (''json: cannot unmarshal '' @ jsonKind v @ '' into Go struct field .'' @ name @ '' of type '' @ type)"

definition readField :: "(any \<Rightarrow> 'a \<Rightarrow> 'a option) \<Rightarrow> string \<Rightarrow> string \<Rightarrow> 'a \<Rightarrow> any smap \<Rightarrow> gerror + 'a" where
  "readField rd type name zero input =
     fold (\<lambda>(k, v) acc.
       case acc of
         Inl err \<Rightarrow> Inl err
       | Inr old \<Rightarrow> if ToLower k = name then (case rd v old of None \<Rightarrow> Inl (unmarshalError v name type) | Some new \<Rightarrow> Inr new) else Inr old)
       (sort_key fst input) (Inr zero)"

definition strField :: "string \<Rightarrow> any smap \<Rightarrow> gerror + string" where
  "strField name = readField readStr ''string'' name []"

definition numField :: "string \<Rightarrow> any smap \<Rightarrow> gerror + rat" where
  "numField name = readField readNum ''float64'' name 0"

abbreviation invalidInput :: "gerror \<Rightarrow> 'a option \<times> gerror option" where
  "invalidInput err \<equiv> (None, Some (Wrap ''invalid input: '' err))"

section \<open>Built-in tools\<close>

text \<open>What the tools ask of the outside: a request and its answer, and a database file.\<close>

record sql_rows =
  sq_columns :: "string list"
  sq_rows :: "(gerror + any list) list"
  sq_err :: "gerror option"

record tool_io =
  io_request :: "string \<Rightarrow> string \<Rightarrow> string \<Rightarrow> gerror option"
  io_do :: "string \<Rightarrow> string \<Rightarrow> string \<Rightarrow> gerror + int \<times> string \<times> (gerror + string)"
  io_getwd :: string
  io_open :: "string \<Rightarrow> gerror option"
  io_query :: "string \<Rightarrow> string \<Rightarrow> gerror + sql_rows"
  io_exec :: "string \<Rightarrow> string \<Rightarrow> gerror + int"
  io_marshal :: "any \<Rightarrow> string"

definition strProp :: "string \<Rightarrow> any" where
  "strProp description = AMap [(''type'', AStr ''string''), (''description'', AStr description)]"

definition calcResult :: "string \<Rightarrow> rat \<Rightarrow> rat \<Rightarrow> gerror + rat" where
  "calcResult op1 a b =
     (if op1 = ''add'' then Inr (a + b)
      else if op1 = ''sub'' then Inr (a - b)
      else if op1 = ''mul'' then Inr (a * b)
      else if op1 = ''div'' then (if b = 0 then Inl (Errorf ''division by zero'') else Inr (a / b))
      else Inl (Errorf (''unknown op: '' @ op1)))"

definition calc_Execute :: "any smap \<Rightarrow> (any smap option) \<times> gerror option" where
  "calc_Execute input =
     (case strField ''op'' input of
        Inl err \<Rightarrow> invalidInput err
      | Inr op1 \<Rightarrow>
          (case numField ''a'' input of
             Inl err \<Rightarrow> invalidInput err
           | Inr a \<Rightarrow>
               (case numField ''b'' input of
                  Inl err \<Rightarrow> invalidInput err
                | Inr b \<Rightarrow> (case calcResult op1 a b of Inl err \<Rightarrow> (None, Some err) | Inr r \<Rightarrow> (Some [(''result'', AFloat r)], None)))))"

definition Calc :: "(any \<Rightarrow> string) \<Rightarrow> Tool" where
  "Calc marshal = \<lparr>tool_Name = ''calc'', tool_Version = ''1'', tool_Description = ''Perform simple arithmetic (add, subtract, multiply, divide)'',
     tool_InputSchema = marshal (AMap [(''type'', AStr ''object''), (''required'', AList [AStr ''op'', AStr ''a'', AStr ''b'']),
       (''properties'', AMap [
          (''op'', AMap [(''type'', AStr ''string''), (''description'', AStr ''Operation: add, sub, mul, div''), (''enum'', AList [AStr ''add'', AStr ''sub'', AStr ''mul'', AStr ''div''])]),
          (''a'', AMap [(''type'', AStr ''number''), (''description'', AStr ''First operand'')]),
          (''b'', AMap [(''type'', AStr ''number''), (''description'', AStr ''Second operand'')])])]),
     tool_Execute = calc_Execute\<rparr>"

definition Echo :: "(any \<Rightarrow> string) \<Rightarrow> Tool" where
  "Echo marshal = \<lparr>tool_Name = ''echo'', tool_Version = ''1'', tool_Description = ''Echo back a message. Use when asked to output, repeat, or display text.'',
     tool_InputSchema = marshal (AMap [(''type'', AStr ''object''), (''properties'', AMap [(''message'', strProp ''The text to echo back'')]), (''required'', AList [AStr ''message''])]),
     tool_Execute = (\<lambda>input. (Some [(''echoed'', AMap input)], None))\<rparr>"

definition http_Execute :: "tool_io \<Rightarrow> any smap \<Rightarrow> (any smap option) \<times> gerror option" where
  "http_Execute io input =
     (case strField ''url'' input of
        Inl err \<Rightarrow> invalidInput err
      | Inr url \<Rightarrow>
          (case strField ''method'' input of
             Inl err \<Rightarrow> invalidInput err
           | Inr method \<Rightarrow>
               (case strField ''body'' input of
                  Inl err \<Rightarrow> invalidInput err
                | Inr body \<Rightarrow>
                    if url = [] then (None, Some (Errorf ''url is required''))
                    else (let m = (if method = [] then ''GET'' else method)
                          in case io_request io m url body of
                               Some err \<Rightarrow> (None, Some err)
                             | None \<Rightarrow>
                                 (case io_do io m url body of
                                    Inl err \<Rightarrow> (None, Some err)
                                  | Inr (code, status, Inl err) \<Rightarrow> (None, Some err)
                                  | Inr (code, status, Inr b) \<Rightarrow>
                                      (Some [(''status_code'', AInt code), (''status'', AStr status), (''body'', AStr b)], None))))))"

definition HTTPRequest :: "tool_io \<Rightarrow> Tool" where
  "HTTPRequest io = \<lparr>tool_Name = ''http_request'', tool_Version = ''1'', tool_Description = ''Make an HTTP request to a URL'',
     tool_InputSchema = io_marshal io (AMap [(''type'', AStr ''object''), (''required'', AList [AStr ''url'', AStr ''method'']),
       (''properties'', AMap [(''url'', strProp ''URL to request''), (''method'', strProp ''HTTP method (GET, POST, etc)''), (''body'', strProp ''Request body (optional)'')])]),
     tool_Execute = http_Execute io\<rparr>"

definition to_upper_char :: "char \<Rightarrow> char" where
  "to_upper_char c = (let n = (of_char c :: nat) in if 97 \<le> n \<and> n \<le> 122 then char_of (n - 32) else c)"

definition ToUpper :: "string \<Rightarrow> string" where
  "ToUpper s = map to_upper_char s"

text \<open>The rows of a result as maps; a column that appears twice keeps its last value.\<close>

definition rowMap :: "string list \<Rightarrow> any list \<Rightarrow> any smap" where
  "rowMap cols vals = fold (\<lambda>(c, v) m. AList.update c v m) (zip cols vals) []"

fun scanRows :: "string list \<Rightarrow> (gerror + any list) list \<Rightarrow> gerror + any list" where
  "scanRows cols [] = Inr []"
| "scanRows cols (Inl err # rs) = Inl (Wrap ''scan: '' err)"
| "scanRows cols (Inr vals # rs) = (case scanRows cols rs of Inl err \<Rightarrow> Inl err | Inr ms \<Rightarrow> Inr (AMap (rowMap cols vals) # ms))"

definition sql_Execute :: "tool_io \<Rightarrow> any smap \<Rightarrow> (any smap option) \<times> gerror option" where
  "sql_Execute io input =
     (case strField ''query'' input of
        Inl err \<Rightarrow> invalidInput err
      | Inr query \<Rightarrow>
          (case strField ''database'' input of
             Inl err \<Rightarrow> invalidInput err
           | Inr database \<Rightarrow>
               if query = [] then (None, Some (Errorf ''query is required''))
               else (let db = (if database = [] then ''demo.db'' else database);
                         path = (if IsAbs db then db else pathJoin [io_getwd io, db]); q = TrimSpace query
                     in case io_open io path of
                          Some err \<Rightarrow> (None, Some (Wrap ''open db: '' err))
                        | None \<Rightarrow>
                            if HasPrefix (ToUpper q) ''SELECT''
                            then (case io_query io path q of
                                    Inl err \<Rightarrow> (None, Some (Wrap ''query: '' err))
                                  | Inr res \<Rightarrow>
                                      (case scanRows (sq_columns res) (sq_rows res) of
                                         Inl err \<Rightarrow> (None, Some err)
                                       | Inr results \<Rightarrow>
                                           if sq_err res \<noteq> None then (None, sq_err res)
                                           else (Some [(''rows'', AList results), (''row_count'', AInt (int (length results)))], None)))
                            else (case io_exec io path q of
                                    Inl err \<Rightarrow> (None, Some (Wrap ''exec: '' err))
                                  | Inr affected \<Rightarrow> (Some [(''rows_affected'', AInt affected), (''ok'', ABool True)], None)))))"

definition SQLQuery :: "tool_io \<Rightarrow> Tool" where
  "SQLQuery io = \<lparr>tool_Name = ''sql_query'', tool_Version = ''1'',
     tool_Description = ''Execute a SQL query against a SQLite database. Use for SELECT, INSERT, UPDATE, DELETE. Database path is optional (default: demo.db in current directory).'',
     tool_InputSchema = io_marshal io (AMap [(''type'', AStr ''object''), (''required'', AList [AStr ''query'']),
       (''properties'', AMap [(''query'', strProp ''SQL query to execute (SELECT, INSERT, UPDATE, DELETE)''), (''database'', strProp ''Database file path (default: demo.db)'')])]),
     tool_Execute = sql_Execute io\<rparr>"

definition builtin_All :: "tool_io \<Rightarrow> Tool list" where
  "builtin_All io = [HTTPRequest io, Echo (io_marshal io), Calc (io_marshal io), SQLQuery io]"

section \<open>Tools of an MCP server\<close>

text \<open>\<open>mt_marshalled\<close> is the JSON text of the tool's structured schema, and \<open>co_texts\<close> what \<open>GetTextFromContent\<close> gives for each part of an answer.\<close>

record mcp_tool =
  mt_Name :: string
  mt_Description :: string
  mt_RawInputSchema :: string
  mt_hasInputSchema :: bool
  mt_marshalled :: string

record mcp_result =
  co_IsError :: bool
  co_texts :: "string list"
  co_StructuredContent :: "any option"

type_synonym mcp_call = "string \<Rightarrow> any smap \<Rightarrow> gerror + mcp_result"

record mcp_server =
  ms_connect :: "gerror option"
  ms_initialize :: "gerror option"
  ms_tools :: "gerror + mcp_tool list"

record MCPSourceConfig =
  mcs_Type :: string
  mcs_Command :: string
  mcs_Args :: "string list"
  mcs_URL :: string
  mcs_ToolPrefix :: string

text \<open>A client is known by its prefix.\<close>

definition NewMCPClient :: "mcp_server \<Rightarrow> MCPSourceConfig \<Rightarrow> gerror + string" where
  "NewMCPClient srv cfg =
     (let err = (if mcs_Type cfg = ''stdio''
                 then (if mcs_Command cfg = [] then Some (Errorf ''mcp stdio: command is required'') else map_option (Wrap ''mcp stdio client: '') (ms_connect srv))
                 else if mcs_Type cfg = ''http''
                 then (if mcs_URL cfg = [] then Some (Errorf ''mcp http: url is required'') else map_option (Wrap ''mcp http client: '') (ms_connect srv))
                 else Some (Errorf (''mcp: unsupported type \"'' @ mcs_Type cfg @ ''\" (use stdio or http)'')))
      in case err of
           Some e \<Rightarrow> Inl e
         | None \<Rightarrow> (case ms_initialize srv of Some e \<Rightarrow> Inl (Wrap ''mcp initialize: '' e) | None \<Rightarrow> Inr (mcs_ToolPrefix cfg)))"

definition ListTools :: "mcp_server \<Rightarrow> gerror + mcp_tool list" where
  "ListTools srv = (case ms_tools srv of Inl err \<Rightarrow> Inl (Wrap ''list tools: '' err) | Inr ts \<Rightarrow> Inr ts)"

definition PrefixedName :: "string \<Rightarrow> string \<Rightarrow> string" where
  "PrefixedName pfx name = (if pfx = [] then name else pfx @ name)"

definition callName :: "string \<Rightarrow> string \<Rightarrow> string" where
  "callName pfx name =
     (if pfx \<noteq> [] \<and> length name > length pfx \<and> take (length pfx) name = pfx then drop (length pfx) name else name)"

definition CallTool :: "mcp_call \<Rightarrow> string \<Rightarrow> string \<Rightarrow> any smap \<Rightarrow> gerror + mcp_result" where
  "CallTool call pfx name arguments = call (callName pfx name) arguments"

definition ToolToInputSchema :: "(any \<Rightarrow> string) \<Rightarrow> mcp_tool \<Rightarrow> string" where
  "ToolToInputSchema marshal t =
     (if mt_RawInputSchema t \<noteq> [] then mt_RawInputSchema t
      else if mt_hasInputSchema t then mt_marshalled t
      else marshal (AMap [(''type'', AStr ''object''), (''properties'', AMap [])]))"

definition mcp_Name :: "mcp_tool \<Rightarrow> string \<Rightarrow> string" where
  "mcp_Name t prefixedName = (if prefixedName \<noteq> [] then prefixedName else mt_Name t)"

definition mcp_Execute :: "mcp_call \<Rightarrow> string \<Rightarrow> string \<Rightarrow> any smap \<Rightarrow> (any smap option) \<times> gerror option" where
  "mcp_Execute call pfx name args =
     (case CallTool call pfx name args of
        Inl err \<Rightarrow> (None, Some err)
      | Inr result \<Rightarrow>
          if co_IsError result
          then (Some [(''error'', AStr (case co_texts result of [] \<Rightarrow> ''MCP tool error'' | m # ms \<Rightarrow> if m = [] then ''MCP tool error'' else m))], None)
          else (let parts = filter (\<lambda>t. t \<noteq> []) (co_texts result);
                    out = (if parts = [] then [] else (''text'', AList (map AStr parts)) # (case parts of [t] \<Rightarrow> [(''output'', AStr t)] | _ \<Rightarrow> [])) @
                          (case co_StructuredContent result of None \<Rightarrow> [] | Some v \<Rightarrow> [(''structured'', v)])
                in (Some (if out = [] then [(''ok'', ABool True)] else out), None)))"

definition NewMCPToolAdapter :: "(any \<Rightarrow> string) \<Rightarrow> mcp_call \<Rightarrow> string \<Rightarrow> mcp_tool \<Rightarrow> string \<Rightarrow> Tool" where
  "NewMCPToolAdapter marshal call pfx t prefixedName =
     \<lparr>tool_Name = mcp_Name t prefixedName, tool_Version = ''1'', tool_Description = mt_Description t, tool_InputSchema = ToolToInputSchema marshal t,
      tool_Execute = mcp_Execute call pfx (mcp_Name t prefixedName)\<rparr>"

definition LoadMCPSource :: "(any \<Rightarrow> string) \<Rightarrow> mcp_server \<Rightarrow> mcp_call \<Rightarrow> Registry \<Rightarrow> MCPSourceConfig \<Rightarrow> gerror + Registry" where
  "LoadMCPSource marshal srv call reg cfg =
     (case NewMCPClient srv cfg of
        Inl err \<Rightarrow> Inl err
      | Inr pfx \<Rightarrow>
          (case ListTools srv of
             Inl err \<Rightarrow> Inl err
           | Inr tools \<Rightarrow> Inr (fold (\<lambda>t. Register (NewMCPToolAdapter marshal call pfx t (PrefixedName pfx (mt_Name t)))) tools reg)))"

section \<open>The planner\<close>

record ToolInfo =
  ti_Name :: string
  ti_Version :: string
  ti_Description :: string
  ti_InputSchema :: string

record ToolDef =
  td_Name :: string
  td_Description :: string
  td_Schema :: string

record llm_message =
  lm_Role :: string
  lm_Content :: string

record ChatRequest =
  cq_Messages :: "llm_message list"
  cq_Temperature :: rat
  cq_MaxTokens :: int
  cq_Tools :: "ToolDef list"

record ToolCallRef =
  tf_ID :: string
  tf_Name :: string
  tf_Arguments :: string

record ChatResponse =
  cp_Content :: string
  cp_ToolCalls :: "ToolCallRef list"

definition newline :: string where
  "newline = [CHR 0x0A]"

text \<open>A long dash, in UTF-8.\<close>

definition dash :: string where
  "dash = [CHR 0xE2, CHR 0x80, CHR 0x94]"

definition systemContent :: string where
  "systemContent = Join [
     ''You are an autonomous agent. Given a goal and prior steps, choose ONE action:'', [],
     ''1. Call a tool: Use the appropriate tool(s) for the goal. Provide valid JSON arguments matching each tool'' @ [CHR 0x27] @ ''s schema.'',
     ''   - For echoing/outputting text: use echo with {\"message\": \"...\"}'',
     ''   - For calculations: use calc'',
     ''   - For HTTP: use http_request'',
     ''   - Use whatever tool fits the goal.'', [],
     ''2. Complete: Respond with text only (no tool call) when the goal is achieved.'', [],
     ''RULES:'',
     ''- You MUST use tools to accomplish the goal'' @ dash @ ''do not complete without calling a tool when the goal requires tool output.'',
     ''- Complete ONLY when ALL parts of the goal are achieved. If the goal says \"fetch and echo\" or \"calculate and output\", you MUST call each required tool. Stating \"I will echo\" in reasoning is NOT enough'' @ dash @ ''you must actually call the echo tool.'',
     ''- For multi-step goals: call tools in sequence (e.g. http_request first, then echo with the result). One tool per step.'',
     ''- Once every part of the goal is satisfied (e.g. both fetch and echo have run), then complete. Do not complete if any requested action is missing from the history.'']
     newline"

text \<open>A result has an output unless it reports an error: the registry gives a nil output only then.\<close>

definition formatStep :: "(any \<Rightarrow> string) \<Rightarrow> nat \<Rightarrow> StepRecord \<Rightarrow> string" where
  "formatStep stringify i r =
     ''Step '' @ itoa (int i + 1) @ '': '' @
     (case sr_Action r of
        None \<Rightarrow> []
      | Some a \<Rightarrow>
          ''Called '' @ tc_Tool a @ '' with '' @ stringify (AMap (tc_Input a)) @
          (case sr_Result r of
             None \<Rightarrow> []
           | Some res \<Rightarrow>
               if tr_Error res \<noteq> [] then []
               else (case map_of (tr_Output res) ''echoed'' of
                       Some echoed \<Rightarrow> '' -> output: '' @ stringify echoed
                     | None \<Rightarrow> '' -> '' @ stringify (AMap (tr_Output res))))) @
     (if sr_Reasoning r \<noteq> [] then '' Reasoning: '' @ sr_Reasoning r else []) @ newline"

definition formatHistory :: "(any \<Rightarrow> string) \<Rightarrow> StepRecord list \<Rightarrow> string" where
  "formatHistory stringify h =
     (if h = [] then ''(none)'' else concat (map (\<lambda>(i, r). formatStep stringify i r) (zip [0..<length h] h)))"

definition buildMessagesSimple :: "(any \<Rightarrow> string) \<Rightarrow> StepInput \<Rightarrow> llm_message list" where
  "buildMessagesSimple stringify input =
     [\<lparr>lm_Role = ''system'', lm_Content = systemContent\<rparr>,
      \<lparr>lm_Role = ''user'', lm_Content = ''Goal: '' @ si_Goal input @ newline @ newline @ ''History:'' @ newline @ formatHistory stringify (si_History input) @
         (if si_History input = [] then []
          else newline @ newline @ ''If the goal is satisfied by the history above, respond with completion (text only, no tool call).'')\<rparr>]"

text \<open>The variant for a context engine calls the same function, and never fails.\<close>

definition buildMessagesWithContext :: "(any \<Rightarrow> string) \<Rightarrow> StepInput \<Rightarrow> gerror + llm_message list" where
  "buildMessagesWithContext stringify input = Inr (buildMessagesSimple stringify input)"

definition toolDefName :: "string \<Rightarrow> string \<Rightarrow> string" where
  "toolDefName name version = name @ ''_v'' @ version"

definition buildToolDefs :: "ToolInfo list \<Rightarrow> ToolDef list" where
  "buildToolDefs tools =
     map (\<lambda>t. \<lparr>td_Name = toolDefName (ti_Name t) (ti_Version t),
               td_Description = (if ti_Description t = [] then ''Tool: '' @ ti_Name t else ti_Description t), td_Schema = ti_InputSchema t\<rparr>) tools"

fun LastIndex :: "string \<Rightarrow> string \<Rightarrow> nat option" where
  "LastIndex [] p = (if p = [] then Some 0 else None)"
| "LastIndex (c # s) p = (case LastIndex s p of Some i \<Rightarrow> Some (i + 1) | None \<Rightarrow> if HasPrefix (c # s) p then Some 0 else None)"

definition parseToolName :: "string \<Rightarrow> string \<times> string" where
  "parseToolName name = (case LastIndex name ''_v'' of None \<Rightarrow> (name, ''1'') | Some i \<Rightarrow> (take i name, drop (i + 2) name))"

text \<open>\<open>unmarshal\<close> decodes arguments; a text that is no JSON object leaves the nil map.\<close>

definition toPlannedAction :: "(string \<Rightarrow> any smap option) \<Rightarrow> ChatResponse \<Rightarrow> PlannedAction" where
  "toPlannedAction unmarshal r =
     (case cp_ToolCalls r of
        tc # tcs \<Rightarrow>
          (case parseToolName (tf_Name tc) of
             (name, ver) \<Rightarrow> \<lparr>pa_Type = ''tool_call'', pa_Tool = name, pa_Version = ver,
                              pa_Input = (case unmarshal (tf_Arguments tc) of None \<Rightarrow> [] | Some m \<Rightarrow> m), pa_Reasoning = cp_Content r\<rparr>)
      | [] \<Rightarrow> \<lparr>pa_Type = ''complete'', pa_Tool = [], pa_Version = [], pa_Input = [], pa_Reasoning = cp_Content r\<rparr>)"

text \<open>\<open>chat\<close> is the provider, with a state of its own; \<open>engine\<close> tells whether a context engine is set.\<close>

type_synonym 'p chat = "'p \<Rightarrow> gerror option \<Rightarrow> ChatRequest \<Rightarrow> 'p \<times> (gerror + ChatResponse)"

definition pl_Plan :: "(any \<Rightarrow> string) \<Rightarrow> (string \<Rightarrow> any smap option) \<Rightarrow> 'p chat \<Rightarrow> bool \<Rightarrow> ToolInfo list \<Rightarrow> 'p planner" where
  "pl_Plan stringify unmarshal chat engine tools p ctx input =
     (let messages = (if engine
                      then (case buildMessagesWithContext stringify input of Inl err \<Rightarrow> buildMessagesSimple stringify input | Inr ms \<Rightarrow> ms)
                      else buildMessagesSimple stringify input)
      in case chat p ctx \<lparr>cq_Messages = messages, cq_Temperature = 1/5, cq_MaxTokens = 4096, cq_Tools = buildToolDefs tools\<rparr> of
           (p1, Inl err) \<Rightarrow> (p1, Inl err)
         | (p1, Inr resp) \<Rightarrow> (p1, Inr (toPlannedAction unmarshal resp)))"

section \<open>Names\<close>

lemma LastIndex_None: "p \<noteq> [] \<Longrightarrow> LastIndex s p = None \<longleftrightarrow> \<not> Contains s p"
  by (induction s) (auto split: option.split)

lemma LastIndex_append: "LastIndex s p = Some i \<Longrightarrow> LastIndex (r @ s) p = Some (length r + i)"
  by (induction r) simp_all

lemma LastIndex_sep: "LastIndex s ''_v'' = None \<Longrightarrow> LastIndex (''_v'' @ s) ''_v'' = Some 0"
  by (simp add: HasPrefix_def)

text \<open>The name and the version are read back exactly when the version does not contain the separator.\<close>

lemma parseToolName_roundtrip: "parseToolName (toolDefName name version) = (name, version) \<longleftrightarrow> \<not> Contains version ''_v''"
proof (cases "LastIndex version ''_v''")
  case None
  from LastIndex_append [OF LastIndex_sep [OF None], of name] None LastIndex_None [of "''_v''" version] show ?thesis
    by (simp add: parseToolName_def toolDefName_def)
next
  case (Some i)
  from LastIndex_append [OF this, of "name @ ''_v''"] have "LastIndex (toolDefName name version) ''_v'' = Some (length name + 2 + i)"
    by (simp add: toolDefName_def)
  moreover have "i < length version"
    using Some by (induction version arbitrary: i) (auto split: option.splits if_splits)
  ultimately have "length (snd (parseToolName (toolDefName name version))) \<noteq> length version" by (simp add: parseToolName_def toolDefName_def)
  with Some LastIndex_None [of "''_v''" version] show ?thesis by auto
qed

lemma LastIndex_at: "CHR ''@'' \<notin> set s \<Longrightarrow> LastIndex (r @ ''@'' @ s) ''@'' = Some (length r)"
proof -
  assume "CHR ''@'' \<notin> set s"
  then have "LastIndex s ''@'' = None" by (induction s) (auto simp: HasPrefix_def)
  then have "LastIndex (''@'' @ s) ''@'' = Some 0" by (simp add: HasPrefix_def)
  from LastIndex_append [OF this, of r] show ?thesis by simp
qed

text \<open>An MCP server is called with the name it gave, unless that is empty.\<close>

lemma callName_PrefixedName: "name \<noteq> [] \<Longrightarrow> callName pfx (PrefixedName pfx name) = name"
  by (simp add: callName_def PrefixedName_def)

text \<open>
  A query that reads with a common table expression does not start with SELECT: it is executed as a statement and its rows are lost.
\<close>

lemma with_query_rows_lost:
  assumes "io_open io ''/d'' = None" "io_exec io ''/d'' ''WITH t AS (SELECT 1) SELECT * FROM t'' = Inr 0"
  shows "sql_Execute io [(''database'', AStr ''/d''), (''query'', AStr ''WITH t AS (SELECT 1) SELECT * FROM t'')] =
    (Some [(''rows_affected'', AInt 0), (''ok'', ABool True)], None)"
proof -
  have "strField ''query'' [(''database'', AStr ''/d''), (''query'', AStr ''WITH t AS (SELECT 1) SELECT * FROM t'')] = Inr ''WITH t AS (SELECT 1) SELECT * FROM t''"
    "strField ''database'' [(''database'', AStr ''/d''), (''query'', AStr ''WITH t AS (SELECT 1) SELECT * FROM t'')] = Inr ''/d''"
    "TrimSpace ''WITH t AS (SELECT 1) SELECT * FROM t'' = ''WITH t AS (SELECT 1) SELECT * FROM t''" "\<not> HasPrefix (ToUpper ''WITH t AS (SELECT 1) SELECT * FROM t'') ''SELECT''"
    "IsAbs ''/d''" by code_simp+
  with assms show ?thesis by (simp add: sql_Execute_def Let_def)
qed

end
