(* ===== verification/Step_Executor.thy ===== *)
theory Step_Executor
  imports Tool_Sources Approval_Queue
begin

text \<open>
  One step of a workflow as a run of an agent: the configuration of the agent, \<open>internal/config/agent.go\<close> and \<open>loader.go\<close>, and the executor that puts
  a provider, a registry of tools, a policy, an approval channel and the agent loop together, \<open>pkg/orchestrate/runtime_executor.go\<close>.

  The state of the tool executor is the list of calls that have reached the registry. What the outside answers, that is the HTTP client, the
  databases, the MCP servers and the approvers, depends on that list, because it may change from one call to the next. Files, the environment and the
  decoding of YAML and JSON are arguments.
\<close>

section \<open>Agent configurations\<close>

record ToolRef =
  tl_Name :: string
  tl_Version :: string

text \<open>The sections that nothing here reads (memory, retries, context assembly, budget) are left out.\<close>

record AgentConfig =
  ac_Name :: string
  ac_Model :: ModelConfig
  ac_ModelRouting :: ModelRouting
  ac_Autonomy :: int
  ac_Tools :: "ToolRef list"
  ac_Policy :: string
  ac_MaxSteps :: int
  ac_Timeout :: string
  ac_MCPSources :: "MCPSourceConfig list"

definition ac_Validate :: "AgentConfig \<Rightarrow> gerror + AgentConfig" where
  "ac_Validate c =
     (if ac_Name c = [] then Inl (Errorf ''name is required'')
      else if mc_Provider (ac_Model c) = [] then Inl (Errorf ''model.provider is required'')
      else if mc_Name (ac_Model c) = [] then Inl (Errorf ''model.name is required'')
      else Inr (c\<lparr>ac_MaxSteps := (if ac_MaxSteps c \<le> 0 then 50 else ac_MaxSteps c),
                  ac_Autonomy := (if ac_Autonomy c < 0 \<or> ac_Autonomy c > 4 then 2 else ac_Autonomy c),
                  ac_Tools := map (\<lambda>t. if tl_Version t = [] then t\<lparr>tl_Version := ''1''\<rparr> else t) (ac_Tools c)\<rparr>))"

section \<open>The outside\<close>

type_synonym call = "string \<times> string \<times> any smap"
type_synonym trace = "call list"

datatype provider = OpenAI string string | Anthropic string string | Ollama string

text \<open>
  The polls of an approval are those of its ticks that come before the end of the context; the context of a run ends at its timeout at the latest, with the error
  \<open>se_ctxEnd\<close>.
\<close>

record 'p step_env =
  se_isFile :: "string \<Rightarrow> bool"
  se_readFile :: "string \<Rightarrow> gerror + string"
  se_yamlAgent :: "string \<Rightarrow> gerror + AgentConfig"
  se_yamlPolicy :: "string \<Rightarrow> gerror + PolicyConfig"
  se_getenv :: "string \<Rightarrow> string"
  se_chat :: "provider \<Rightarrow> 'p chat"
  se_marshal :: "any \<Rightarrow> string"
  se_unmarshal :: "string \<Rightarrow> any smap option"
  se_parseDuration :: "string \<Rightarrow> gerror + int"
  se_io :: "trace \<Rightarrow> tool_io"
  se_server :: "MCPSourceConfig \<Rightarrow> mcp_server"
  se_call :: "trace \<Rightarrow> MCPSourceConfig \<Rightarrow> mcp_call"
  se_duration :: "trace \<Rightarrow> int"
  se_enqueue :: "trace \<Rightarrow> string \<Rightarrow> any smap \<Rightarrow> string list \<Rightarrow> gerror + string"
  se_polls :: "trace \<Rightarrow> string \<Rightarrow> (gerror + ApprovalRequest option) list"
  se_ctxEnd :: "trace \<Rightarrow> gerror"
  se_webhook :: "trace \<Rightarrow> string \<Rightarrow> string \<Rightarrow> any smap \<Rightarrow> string list \<Rightarrow> gerror + bool"
  se_cel :: cel_lib
  se_run :: run_env
  se_runID :: string
  se_started :: int
  se_created :: int
  se_completed :: int
  se_store :: "gerror option"

definition LoadConfig :: "'p step_env \<Rightarrow> string \<Rightarrow> gerror + AgentConfig" where
  "LoadConfig env path =
     (case se_readFile env path of
        Inl err \<Rightarrow> Inl (Wrap ''read config: '' err)
      | Inr data \<Rightarrow>
          (case se_yamlAgent env data of
             Inl err \<Rightarrow> Inl (Wrap ''parse yaml: '' err)
           | Inr cfg \<Rightarrow> (case ac_Validate cfg of Inl err \<Rightarrow> Inl (Wrap ''validate: '' err) | Inr cfg' \<Rightarrow> Inr cfg')))"

definition LoadWithPolicy :: "'p step_env \<Rightarrow> string \<Rightarrow> gerror + AgentConfig \<times> string" where
  "LoadWithPolicy env agentPath =
     (case LoadConfig env agentPath of
        Inl err \<Rightarrow> Inl err
      | Inr cfg \<Rightarrow>
          Inr (cfg, if ac_Policy cfg \<noteq> [] \<and> \<not> IsAbs (ac_Policy cfg) then pathJoin [pathDir agentPath, ac_Policy cfg] else ac_Policy cfg))"

definition TimeoutDuration :: "'p step_env \<Rightarrow> AgentConfig \<Rightarrow> int" where
  "TimeoutDuration env c =
     (if ac_Timeout c = [] then 300 * 1000000000
      else (case se_parseDuration env (ac_Timeout c) of Inl err \<Rightarrow> 300 * 1000000000 | Inr d \<Rightarrow> d))"

definition LoadEngine :: "'p step_env \<Rightarrow> string \<Rightarrow> gerror + PolicyConfig" where
  "LoadEngine env path =
     (case se_readFile env path of
        Inl err \<Rightarrow> Inl (Wrap ''read policy: '' err)
      | Inr data \<Rightarrow> (case se_yamlPolicy env data of Inl err \<Rightarrow> Inl (Wrap ''parse policy: '' err) | Inr cfg \<Rightarrow> Inr cfg))"

definition resolveAgentConfigPath :: "'p step_env \<Rightarrow> string \<Rightarrow> gerror + string" where
  "resolveAgentConfigPath env agentName =
     (case find (se_isFile env) [agentName, agentName @ ''.yaml'', pathJoin [''examples'', agentName, ''agent.yaml''], pathJoin [''examples'', agentName @ ''.yaml'']] of
        None \<Rightarrow> Inl (Errorf (''agent config not found for \"'' @ agentName @ ''\"''))
      | Some c \<Rightarrow> Inr c)"

definition newLLMProvider :: "'p step_env \<Rightarrow> ModelConfig \<Rightarrow> gerror + provider" where
  "newLLMProvider env model =
     (if mc_Provider model = ''openai''
      then (let apiKey = se_getenv env ''OPENAI_API_KEY''
            in if apiKey = [] then Inl (Errorf ''OPENAI_API_KEY is required'') else Inr (OpenAI apiKey (mc_Name model)))
      else if mc_Provider model = ''anthropic''
      then (let apiKey = se_getenv env ''ANTHROPIC_API_KEY''
            in if apiKey = [] then Inl (Errorf ''ANTHROPIC_API_KEY is required'') else Inr (Anthropic apiKey (mc_Name model)))
      else if mc_Provider model = ''ollama'' then Inr (Ollama (mc_Name model))
      else Inl (Errorf (''unsupported provider: '' @ mc_Provider model)))"

section \<open>Tools\<close>

text \<open>The registry as it answers after the calls \<open>x\<close>: the same tools, whose answers depend on \<open>x\<close>.\<close>

fun loadSources :: "'p step_env \<Rightarrow> trace \<Rightarrow> MCPSourceConfig list \<Rightarrow> Registry \<Rightarrow> gerror + Registry" where
  "loadSources env x [] reg = Inr reg"
| "loadSources env x (src # srcs) reg =
     (case LoadMCPSource (se_marshal env) (se_server env src) (se_call env x src) reg src of
        Inl err \<Rightarrow> Inl (Wrap (''load MCP source '' @ mcs_Type src @ '': '') err)
      | Inr reg1 \<Rightarrow> loadSources env x srcs reg1)"

definition stepRegistry :: "'p step_env \<Rightarrow> AgentConfig \<Rightarrow> trace \<Rightarrow> gerror + Registry" where
  "stepRegistry env cfg x = loadSources env x (ac_MCPSources cfg) (fold Register (builtin_All (se_io env x)) NewRegistry)"

definition splitKey :: "string \<Rightarrow> string \<times> string" where
  "splitKey key = (case LastIndex key ''@'' of None \<Rightarrow> (key, ''1'') | Some i \<Rightarrow> (take i key, drop (i + 1) key))"

definition listToolInfos :: "AgentConfig \<Rightarrow> Registry \<Rightarrow> ToolInfo list" where
  "listToolInfos cfg reg =
     (if ac_Tools cfg = []
      then List.map_filter (\<lambda>key. case splitKey key of (name, version) \<Rightarrow>
             map_option (\<lambda>t. \<lparr>ti_Name = tool_Name t, ti_Version = tool_Version t, ti_Description = tool_Description t, ti_InputSchema = tool_InputSchema t\<rparr>)
               (reg_Get reg name version)) (reg_List reg)
      else map (\<lambda>tr. case reg_Get reg (tl_Name tr) (tl_Version tr) of
             None \<Rightarrow> \<lparr>ti_Name = tl_Name tr, ti_Version = tl_Version tr, ti_Description = [], ti_InputSchema = []\<rparr>
           | Some t \<Rightarrow> \<lparr>ti_Name = tl_Name tr, ti_Version = tl_Version tr, ti_Description = tool_Description t, ti_InputSchema = tool_InputSchema t\<rparr>) (ac_Tools cfg))"

definition baseExec :: "'p step_env \<Rightarrow> AgentConfig \<Rightarrow> trace executor" where
  "baseExec env cfg x ctx tool version input =
     (x @ [(tool, version, input)], reg_Execute (case stepRegistry env cfg x of Inl err \<Rightarrow> [] | Inr reg \<Rightarrow> reg) (se_duration env x) tool version input)"

section \<open>Approval\<close>

fun pollApproval :: "gerror \<Rightarrow> (gerror + ApprovalRequest option) list \<Rightarrow> bool \<times> gerror option" where
  "pollApproval ctxErr [] = (False, Some ctxErr)"
| "pollApproval ctxErr (Inl err # ps) = (False, Some err)"
| "pollApproval ctxErr (Inr None # ps) = (False, None)"
| "pollApproval ctxErr (Inr (Some req) # ps) =
     (if ar_Status req = ''approved'' then (True, None)
      else if ar_Status req = ''denied'' then (False, None)
      else pollApproval ctxErr ps)"

definition queueApprovalCallback :: "'p step_env \<Rightarrow> trace \<Rightarrow> approval_callback" where
  "queueApprovalCallback env x tool input approvers =
     (case se_enqueue env x tool input approvers of
        Inl err \<Rightarrow> (False, Some err)
      | Inr rid \<Rightarrow> pollApproval (se_ctxEnd env x) (se_polls env x rid))"

definition webhookApprovalCallback :: "'p step_env \<Rightarrow> trace \<Rightarrow> string \<Rightarrow> approval_callback" where
  "webhookApprovalCallback env x url tool input approvers =
     (if url = [] then (True, None)
      else (case se_webhook env x url tool input approvers of Inl err \<Rightarrow> (False, Some err) | Inr approved \<Rightarrow> (approved, None)))"

section \<open>The executor\<close>

text \<open>\<open>rx_ApprovalQueue\<close> tells whether a queue is set.\<close>

record RuntimeStepExecutor =
  rx_AllowSimulatedFallback :: bool
  rx_StorePath :: string
  rx_ApprovalWebhook :: string
  rx_ApprovalQueue :: bool

definition approvalCallback :: "RuntimeStepExecutor \<Rightarrow> 'p step_env \<Rightarrow> trace \<Rightarrow> approval_callback" where
  "approvalCallback e env x = (if rx_ApprovalQueue e then queueApprovalCallback env x else webhookApprovalCallback env x (rx_ApprovalWebhook e))"

definition stepPolicyExecutor :: "RuntimeStepExecutor \<Rightarrow> 'p step_env \<Rightarrow> PolicyConfig \<Rightarrow> trace \<Rightarrow> PolicyExecutor" where
  "stepPolicyExecutor e env pol x =
     \<lparr>pe_Policy = Some pol, pe_RiskScorer = Some (Score NewDefaultRiskScorer), pe_Approval = Some (Some (approvalCallback e env x)), pe_Environment = ''production''\<rparr>"

text \<open>Under a policy every call goes through the policy executor, whose approval channel answers as of the calls so far.\<close>

definition stepExec :: "RuntimeStepExecutor \<Rightarrow> 'p step_env \<Rightarrow> AgentConfig \<Rightarrow> PolicyConfig option \<Rightarrow> trace executor" where
  "stepExec e env cfg pol x ctx tool version input =
     (case pol of
        None \<Rightarrow> baseExec env cfg x ctx tool version input
      | Some p \<Rightarrow> pe_Execute (se_cel env) (stepPolicyExecutor e env p x) (baseExec env cfg) x ctx tool version input)"

record saved_run =
  sv_run_id :: string
  sv_agent_name :: string
  sv_goal :: string
  sv_state :: string
  sv_step_count :: int
  sv_created_at :: int
  sv_updated_at :: int

definition persistRunState :: "gerror option \<Rightarrow> AgentState \<Rightarrow> saved_run list \<Rightarrow> saved_run list \<times> gerror option" where
  "persistRunState db state runs =
     (case db of
        Some err \<Rightarrow> (runs, Some err)
      | None \<Rightarrow> (filter (\<lambda>r. sv_run_id r \<noteq> as_RunID state) runs @
          [\<lparr>sv_run_id = as_RunID state, sv_agent_name = as_AgentName state, sv_goal = as_Goal state, sv_state = state_string (as_Current state),
            sv_step_count = as_StepCount state, sv_created_at = as_CreatedAt state, sv_updated_at = as_UpdatedAt state\<rparr>], None))"

definition completedResult :: "'p step_env \<Rightarrow> string \<Rightarrow> AgentConfig \<Rightarrow> ModelConfig \<Rightarrow> AgentState \<Rightarrow> StepResult" where
  "completedResult env agentName cfg model state =
     \<lparr>st_Name = agentName, st_Agent = ac_Name cfg, st_Status = ''completed'', st_RunID = as_RunID state,
      st_Output = AMap [(''state'', AStr (state_string (as_Current state))), (''step_count'', AInt (as_StepCount state)),
        (''model'', AMap [(''provider'', AStr (mc_Provider model)), (''name'', AStr (mc_Name model))]),
        (''last_result'', AMap (case as_LastResult state of None \<Rightarrow> [] | Some r \<Rightarrow> tr_Output r))],
      st_Error = [], st_Duration = se_completed env - se_started env, st_StartedAt = se_started env, st_CompletedAt = se_completed env\<rparr>"

definition failedResult :: "'p step_env \<Rightarrow> string \<Rightarrow> AgentConfig \<Rightarrow> AgentState \<Rightarrow> gerror \<Rightarrow> StepResult" where
  "failedResult env agentName cfg state err =
     \<lparr>st_Name = agentName, st_Agent = ac_Name cfg, st_Status = ''failed'', st_RunID = as_RunID state, st_Output = ANil, st_Error = error_string err,
      st_Duration = se_completed env - se_started env, st_StartedAt = se_started env, st_CompletedAt = se_completed env\<rparr>"

text \<open>The run of the loop once everything is loaded.\<close>

definition runAgent :: "RuntimeStepExecutor \<Rightarrow> 'p step_env \<Rightarrow> AgentConfig \<Rightarrow> provider \<Rightarrow> Registry \<Rightarrow> PolicyConfig option \<Rightarrow> string \<Rightarrow> 'p \<Rightarrow>
    AgentState \<times> 'p \<times> trace \<times> gerror option" where
  "runAgent e env cfg prov reg pol goal p =
     Run (pl_Plan (se_marshal env) (se_unmarshal env) (se_chat env prov) False (listToolInfos cfg reg)) (stepExec e env cfg pol) (se_run env)
       (NewEngine \<lparr>ec_AgentName = ac_Name cfg, ec_Goal = goal, ec_MaxSteps = ac_MaxSteps cfg, ec_Timeout = TimeoutDuration env cfg,
          ec_Autonomy = ac_Autonomy cfg, ec_RunID = []\<rparr> (se_runID env) (se_created env)) p []"

text \<open>The result comes with the table of runs, the calls that reached the registry and the state of the provider.\<close>

definition rt_ExecuteStep :: "RuntimeStepExecutor \<Rightarrow> 'p step_env \<Rightarrow> string \<Rightarrow> string \<Rightarrow> any smap \<Rightarrow> saved_run list \<Rightarrow> 'p \<Rightarrow>
    saved_run list \<times> trace \<times> 'p \<times> StepResult option \<times> gerror option" where
  "rt_ExecuteStep e env agentName goal outputs runs p =
     (let simulated = (runs, [], p, (case SimulatedStep (se_completed env) agentName goal outputs of Inl err \<Rightarrow> (None, Some err) | Inr r \<Rightarrow> (Some r, None)));
          fail = (\<lambda>err. (runs, [], p, None, Some err))
      in case resolveAgentConfigPath env agentName of
           Inl err \<Rightarrow> if rx_AllowSimulatedFallback e then simulated else fail err
         | Inr agentPath \<Rightarrow>
             (case LoadWithPolicy env agentPath of
                Inl err \<Rightarrow> if rx_AllowSimulatedFallback e then simulated else fail (Wrap (''load agent config '' @ agentPath @ '': '') err)
              | Inr (cfg, policyPath) \<Rightarrow>
                  (let model = pickModelConfig (se_getenv env) (Some (ac_Model cfg, ac_ModelRouting cfg)) goal
                   in case newLLMProvider env model of
                        Inl err \<Rightarrow> fail err
                      | Inr prov \<Rightarrow>
                          (case stepRegistry env cfg [] of
                             Inl err \<Rightarrow> fail err
                           | Inr reg \<Rightarrow>
                               (case (if policyPath = [] then Inr None else (case LoadEngine env policyPath of Inl err \<Rightarrow> Inl err | Inr pol \<Rightarrow> Inr (Some pol))) of
                                  Inl err \<Rightarrow> fail (Wrap ''load policy: '' err)
                                | Inr pol \<Rightarrow>
                                    (case runAgent e env cfg prov reg pol goal p of
                                       (state, p1, x1, Some err) \<Rightarrow> (runs, x1, p1, Some (failedResult env agentName cfg state err), Some err)
                                     | (state, p1, x1, None) \<Rightarrow>
                                         (if rx_StorePath e \<noteq> [] then fst (persistRunState (se_store env) state runs) else runs,
                                          x1, p1, Some (completedResult env agentName cfg model state), None)))))))"

section \<open>Runs under a policy\<close>

text \<open>A call may be made after the calls \<open>x\<close>: the policy does not deny it, and the approval channel grants it if the policy asks for that.\<close>

definition callPermitted :: "RuntimeStepExecutor \<Rightarrow> 'p step_env \<Rightarrow> PolicyConfig \<Rightarrow> trace \<Rightarrow> call \<Rightarrow> bool" where
  "callPermitted e env pol x c =
     (case c of (tool, version, input) \<Rightarrow>
        let res = Check (se_cel env) pol \<lparr>ctx_Tool = tool, ctx_Input = input, ctx_Environment = ''production'', ctx_RiskScore = Score NewDefaultRiskScorer tool input\<rparr>
        in \<not> cr_Deny res \<and> (cr_RequireApproval res \<longrightarrow> approvalCallback e env x tool input (cr_Approvers res) = (True, None)))"

definition allPermitted :: "RuntimeStepExecutor \<Rightarrow> 'p step_env \<Rightarrow> PolicyConfig option \<Rightarrow> trace \<Rightarrow> bool" where
  "allPermitted e env pol x = (\<forall>p. pol = Some p \<longrightarrow> (\<forall>k < length x. callPermitted e env p (take k x) (x ! k)))"

text \<open>A call is refused with an error or reaches the registry, and then it was permitted.\<close>

lemma stepExec_cases:
  assumes "stepExec e env cfg pol x ctx tool version input = (x1, out, err)"
  obtains (refused) "x1 = x" "err \<noteq> None"
  | (called) "x1 = x @ [(tool, version, input)]" "\<And>p. pol = Some p \<Longrightarrow> callPermitted e env p x (tool, version, input)"
proof (cases pol)
  case None
  with assms called show thesis by (simp add: stepExec_def baseExec_def)
next
  case (Some p)
  show thesis
    using assms refused called Some
    by (auto simp: stepExec_def baseExec_def pe_Execute_def callPermitted_def stepPolicyExecutor_def policyContext_def RequestApproval_def Let_def
        split: if_splits prod.splits option.splits)
qed

lemma pl_Plan_action: "pl_Plan stringify unmarshal chat engine tools p ctx input = (p1, Inr a) \<Longrightarrow> pa_Type a = ''tool_call'' \<or> pa_Type a = ''complete''"
  by (auto simp: pl_Plan_def Let_def toPlannedAction_def split: prod.splits sum.splits list.splits)

text \<open>
  The contract of an executor under a guard: a call is refused with an error and leaves no trace, or it reaches the registry, and then it was permitted after the calls before it. Whatever the
  planner asks for, the calls of a whole run are then permitted one by one and within the limit of steps.
\<close>

locale guarded_executor =
  fixes exec :: "trace executor" and permitted :: "trace \<Rightarrow> call \<Rightarrow> bool"
  assumes exec_cases: "exec x ctx tool version input = (x1, out, err) \<Longrightarrow>
    x1 = x \<and> err \<noteq> None \<or> x1 = x @ [(tool, version, input)] \<and> permitted x (tool, version, input)"
begin

definition permittedAll :: "trace \<Rightarrow> bool" where
  "permittedAll x = (\<forall>k < length x. permitted (take k x) (x ! k))"

lemma permittedAll_snoc: "permittedAll (x @ [c]) \<longleftrightarrow> permittedAll x \<and> permitted x c"
  unfolding permittedAll_def by (auto simp: nth_append less_Suc_eq)

lemma permittedAll_Nil: "permittedAll []"
  by (simp add: permittedAll_def)

text \<open>What a step of the loop does to the calls.\<close>

lemma step_cases:
  assumes "ExecuteStep (pl_Plan stringify unmarshal chat engine tools) exec renv input p x = (p1, x1, r, err)"
  obtains (stopped) "x1 = x" "err \<noteq> None"
  | (complete) "x1 = x" "sr_State r = StateCompleted" "err = None"
  | (called) c where "x1 = x @ [c]" "permitted x c" "err = None \<Longrightarrow> sr_State r = StateObserving"
proof -
  obtain p2 act where pl: "pl_Plan stringify unmarshal chat engine tools p (re_ctxPlan renv (si_StepNum input)) input = (p2, act)" by fastforce
  show thesis
  proof (cases act)
    case (Inl er)
    with assms pl stopped show thesis by (auto simp: ExecuteStep_def Let_def)
  next
    case (Inr a)
    show thesis
    proof (cases "pa_Type a = ''complete''")
      case True
      with assms pl Inr complete show thesis by (auto simp: ExecuteStep_def Let_def)
    next
      case False
      with pl_Plan_action [OF pl [unfolded Inr]] have ty: "pa_Type a = ''tool_call''" by simp
      obtain x2 out er where ex: "exec x (re_ctxExec renv (si_StepNum input)) (pa_Tool a) (pa_Version a) (json_norm_map (pa_Input a)) = (x2, out, er)"
        by (metis prod_cases3)
      from assms pl Inr ty ex have r: "x1 = x2" "err = er" "er = None \<Longrightarrow> sr_State r = StateObserving"
        by (auto simp: ExecuteStep_def Let_def split: option.splits)
      from exec_cases [OF ex] r stopped called show thesis by blast
    qed
  qed
qed

lemma run_calls:
  assumes "Run (pl_Plan stringify unmarshal chat engine tools) exec renv st p [] = (st', p', x, err)"
    "as_StepCount st = 0" "0 \<le> as_MaxSteps st"
  shows "permittedAll x \<and> int (length x) \<le> as_MaxSteps st \<and> as_RunID st' = as_RunID st \<and>
    (err = None \<longrightarrow> as_Current st' = StateCompleted \<and> as_StepCount st' \<in> {int (length x), int (length x) + 1})"
proof -
  let ?I = "\<lambda>s x. permittedAll x \<and> as_StepCount s = int (length x) \<and> as_StepCount s \<le> as_MaxSteps s \<and> as_MaxSteps s = as_MaxSteps st \<and> as_RunID s = as_RunID st"
  let ?Q = "\<lambda>s x err. permittedAll x \<and> int (length x) \<le> as_MaxSteps st \<and> as_RunID s = as_RunID st \<and>
    (err = None \<longrightarrow> as_Current s = StateCompleted \<and> as_StepCount s \<in> {int (length x), int (length x) + 1})"
  have id [simp]: "as_RunID (recordStep r now s) = as_RunID s" for r now s by (simp add: recordStep_def)
  show ?thesis
  proof (rule runLoop_rule[where I = ?I and Q = ?Q and st = "st\<lparr>as_Current := StatePlanning\<rparr>" and x = "[]"])
    show "runLoop (pl_Plan stringify unmarshal chat engine tools) exec renv (st\<lparr>as_Current := StatePlanning\<rparr>) p [] = (st', p', x, err)"
      using assms(1) by (simp add: Run_def)
    show "?I (recordStep r (re_now renv (as_StepCount s)) s) x1"
      if "?I s x" "as_StepCount s < as_MaxSteps s" "ExecuteStep (pl_Plan stringify unmarshal chat engine tools) exec renv (stepInput s) p x = (p1, x1, r, None)"
        "sr_State r \<noteq> StateCompleted" for s p x p1 x1 r
      using that(3) by (cases rule: step_cases) (use that in \<open>auto simp: permittedAll_snoc\<close>)
    show "?Q (s\<lparr>as_Current := StateFailed, as_LastError := Some er\<rparr>) x1 (Some er)"
      if "?I s x" "as_StepCount s < as_MaxSteps s" "ExecuteStep (pl_Plan stringify unmarshal chat engine tools) exec renv (stepInput s) p x = (p1, x1, r, Some er)"
      for s p x p1 x1 r er
      using that(3) by (cases rule: step_cases) (use that in \<open>auto simp: permittedAll_snoc\<close>)
    show "?Q (recordStep r (re_now renv (as_StepCount s)) s) x1 None"
      if "?I s x" "as_StepCount s < as_MaxSteps s" "ExecuteStep (pl_Plan stringify unmarshal chat engine tools) exec renv (stepInput s) p x = (p1, x1, r, None)"
        "sr_State r = StateCompleted \<or> sr_State r = StateFailed" for s p x p1 x1 r
      using that(3) by (cases rule: step_cases) (use that in auto)
  qed (use assms permittedAll_Nil in auto)
qed

end

interpretation sx: guarded_executor "stepExec e env cfg pol" "\<lambda>x c. \<forall>p. pol = Some p \<longrightarrow> callPermitted e env p x c" for e env cfg pol
  by unfold_locales (erule stepExec_cases, auto)

lemma sx_permitted: "guarded_executor.permittedAll (\<lambda>x c. \<forall>p. pol = Some p \<longrightarrow> callPermitted e env p x c) x \<longleftrightarrow> allPermitted e env pol x"
  by (auto simp: sx.permittedAll_def allPermitted_def)

section \<open>Approval and configuration\<close>

fun undecided :: "gerror + ApprovalRequest option \<Rightarrow> bool" where
  "undecided (Inr (Some req)) = (ar_Status req \<noteq> ''approved'' \<and> ar_Status req \<noteq> ''denied'')"
| "undecided q = False"

text \<open>The queue grants a call exactly when a poll finds the request approved and every earlier one found it undecided.\<close>

lemma pollApproval_granted:
  "pollApproval ctxErr ps = (True, None) \<longleftrightarrow> (\<exists>req post. dropWhile undecided ps = Inr (Some req) # post \<and> ar_Status req = ''approved'')"
  by (induction ctxErr ps rule: pollApproval.induct) auto

text \<open>Without a queue and without a webhook every request for approval is granted.\<close>

lemma no_channel_grants_all: "\<not> rx_ApprovalQueue e \<Longrightarrow> rx_ApprovalWebhook e = [] \<Longrightarrow> approvalCallback e env x tool input approvers = (True, None)"
  by (simp add: approvalCallback_def webhookApprovalCallback_def)

lemma ac_Validate_ok:
  assumes "ac_Validate c = Inr c'"
  shows "0 < ac_MaxSteps c' \<and> 0 \<le> ac_Autonomy c' \<and> ac_Autonomy c' \<le> 4 \<and> (\<forall>t \<in> set (ac_Tools c'). tl_Version t \<noteq> []) \<and> ac_Validate c' = Inr c'"
  using assms by (auto simp: ac_Validate_def split: if_splits intro: map_idI)

lemma LoadWithPolicy_ok: "LoadWithPolicy env path = Inr (cfg, policyPath) \<Longrightarrow> 0 < ac_MaxSteps cfg"
  using ac_Validate_ok by (auto simp: LoadWithPolicy_def LoadConfig_def split: sum.splits)

text \<open>The step, once the configuration is loaded.\<close>

lemma rt_ExecuteStep_loaded:
  assumes "rt_ExecuteStep e env agentName goal outputs runs p = (runs', x, p', res, err)"
    "resolveAgentConfigPath env agentName = Inr path" "LoadWithPolicy env path = Inr (cfg, policyPath)"
  obtains (fails) er where "x = []" "res = None" "err = Some er" "runs' = runs"
  | (ran) prov reg pol state where "runAgent e env cfg prov reg pol goal p = (state, p', x, err)"
      "pol = None \<and> policyPath = [] \<or> (\<exists>q. pol = Some q \<and> policyPath \<noteq> [] \<and> LoadEngine env policyPath = Inr q)"
      "case err of Some er \<Rightarrow> runs' = runs \<and> res = Some (failedResult env agentName cfg state er)
       | None \<Rightarrow> runs' = (if rx_StorePath e \<noteq> [] then fst (persistRunState (se_store env) state runs) else runs) \<and>
           res = Some (completedResult env agentName cfg (pickModelConfig (se_getenv env) (Some (ac_Model cfg, ac_ModelRouting cfg)) goal) state)"
proof -
  define model where "model = pickModelConfig (se_getenv env) (Some (ac_Model cfg, ac_ModelRouting cfg)) goal"
  show thesis
  proof (cases "newLLMProvider env model")
    case (Inl er)
    with assms fails show thesis by (auto simp: rt_ExecuteStep_def Let_def model_def)
  next
    case prov: (Inr prov)
    show thesis
    proof (cases "stepRegistry env cfg []")
      case (Inl er)
      with assms prov fails show thesis by (auto simp: rt_ExecuteStep_def Let_def model_def)
    next
      case reg: (Inr reg)
      show thesis
      proof (cases "if policyPath = [] then Inr None else (case LoadEngine env policyPath of Inl err \<Rightarrow> Inl err | Inr pol \<Rightarrow> Inr (Some pol))")
        case (Inl er)
        with assms prov reg fails show thesis by (auto simp: rt_ExecuteStep_def Let_def model_def)
      next
        case pol: (Inr pol)
        obtain state p1 x1 er where run: "runAgent e env cfg prov reg pol goal p = (state, p1, x1, er)" by (metis prod_cases4)
        from pol have "pol = None \<and> policyPath = [] \<or> (\<exists>q. pol = Some q \<and> policyPath \<noteq> [] \<and> LoadEngine env policyPath = Inr q)"
          by (auto split: if_splits sum.splits)
        note loaded = this
        have r: "(runs', x, p', res, err) = (case er of
            Some e1 \<Rightarrow> (runs, x1, p1, Some (failedResult env agentName cfg state e1), Some e1)
          | None \<Rightarrow> (if rx_StorePath e \<noteq> [] then fst (persistRunState (se_store env) state runs) else runs, x1, p1, Some (completedResult env agentName cfg model state), None))"
          unfolding assms(1) [symmetric] by (cases er) (simp_all add: rt_ExecuteStep_def Let_def assms(2,3) prov reg pol run flip: model_def)
        then have e1: "er = err" "x1 = x" "p1 = p'" by (cases er; simp)+
        show thesis by (rule ran [OF run [unfolded e1] loaded]) (use r in \<open>auto simp: e1 model_def split: option.splits\<close>)
      qed
    qed
  qed
qed

lemma runAgent_calls:
  assumes "runAgent e env cfg prov reg pol goal p = (state, p', x, err)" "0 < ac_MaxSteps cfg"
  shows "allPermitted e env pol x \<and> int (length x) \<le> ac_MaxSteps cfg \<and> as_RunID state = se_runID env \<and>
    (err = None \<longrightarrow> as_Current state = StateCompleted \<and> as_StepCount state \<in> {int (length x), int (length x) + 1})"
  using sx.run_calls [OF assms(1) [unfolded runAgent_def]] assms(2) by (simp add: NewEngine_def sx_permitted)

section \<open>Properties\<close>

text \<open>
  C36. A step of a workflow follows the policy of its agent, whatever the model asks for and whatever tools, servers and approvers answer: once the
  configuration names a policy, either no call reaches the tools at all, or the policy was loaded, there are at most \<open>max_steps\<close> calls, and each of
  them was, at its turn, not denied by the policy and, where the policy asks for it, granted by the approval channel.
\<close>

theorem step_follows_policy:
  assumes "rt_ExecuteStep e env agentName goal outputs runs p = (runs', x, p', res, err)"
    and "resolveAgentConfigPath env agentName = Inr path" "LoadWithPolicy env path = Inr (cfg, policyPath)" "policyPath \<noteq> []"
  shows "x = [] \<or> (\<exists>pol. LoadEngine env policyPath = Inr pol \<and> int (length x) \<le> ac_MaxSteps cfg \<and> (\<forall>k < length x. callPermitted e env pol (take k x) (x ! k)))"
  using assms(1-3)
proof (cases rule: rt_ExecuteStep_loaded)
  case (ran prov reg pol state)
  with assms(4) obtain q where "pol = Some q" "LoadEngine env policyPath = Inr q" by auto
  with runAgent_calls [OF ran(1) LoadWithPolicy_ok [OF assms(3)]] show ?thesis by (auto simp: allPermitted_def)
qed simp

text \<open>An agent under a policy that denies \<open>sql_query\<close> and asks for approval of \<open>http_request\<close>; its model calls \<open>calc\<close>, then \<open>http_request\<close>, then \<open>sql_query\<close>.\<close>

definition demoConfig :: AgentConfig where
  "demoConfig = \<lparr>ac_Name = ''bot'', ac_Model = \<lparr>mc_Provider = ''ollama'', mc_Name = ''m'', mc_Temperature = 0\<rparr>,
     ac_ModelRouting = \<lparr>mr_Enabled = False, mr_Strategy = [], mr_Candidates = []\<rparr>, ac_Autonomy = 2, ac_Tools = [], ac_Policy = ''policy.yaml'', ac_MaxSteps = 0,
     ac_Timeout = [], ac_MCPSources = []\<rparr>"

definition demoPolicy :: PolicyConfig where
  "demoPolicy = \<lparr>pc_Version = ''1'', pc_Rules = [deny_rule ''sql_query'' [], (deny_rule ''http_request'' [])\<lparr>rule_Action := ActionRequireApproval\<rparr>]\<rparr>"

definition demoChat :: "nat chat" where
  "demoChat n ctx req = (n + 1, Inr \<lparr>cp_Content = [],
     cp_ToolCalls = [\<lparr>tf_ID = [], tf_Name = (if n = 0 then ''calc_v1'' else if n = 1 then ''http_request_v1'' else ''sql_query_v1''), tf_Arguments = []\<rparr>]\<rparr>)"

definition demoIO :: tool_io where
  "demoIO = \<lparr>io_request = (\<lambda>m u b. None), io_do = (\<lambda>m u b. Inr (200, ''200 OK'', Inr [])), io_getwd = ''/'', io_open = (\<lambda>p. None),
     io_query = (\<lambda>p q. Inr \<lparr>sq_columns = [], sq_rows = [], sq_err = None\<rparr>), io_exec = (\<lambda>p q. Inr 0), io_marshal = (\<lambda>v. [])\<rparr>"

definition demoEnv :: "nat step_env" where
  "demoEnv = \<lparr>se_isFile = (\<lambda>f. f = ''bots/bot.yaml''), se_readFile = (\<lambda>f. Inr f), se_yamlAgent = (\<lambda>d. Inr demoConfig),
     se_yamlPolicy = (\<lambda>d. if d = ''bots/policy.yaml'' then Inr demoPolicy else Inl (Errorf d)), se_getenv = (\<lambda>k. []), se_chat = (\<lambda>pr. demoChat), se_marshal = (\<lambda>v. []),
     se_unmarshal = (\<lambda>s. Some [(''op'', AStr ''add''), (''a'', AInt 1), (''b'', AInt 2), (''url'', AStr ''http://x'')]), se_parseDuration = (\<lambda>s. Inr 0), se_io = (\<lambda>x. demoIO),
     se_server = (\<lambda>c. \<lparr>ms_connect = None, ms_initialize = None, ms_tools = Inr []\<rparr>), se_call = (\<lambda>x c n a. Inl Canceled), se_duration = (\<lambda>x. 0),
     se_enqueue = (\<lambda>x t i a. Inr ''r''), se_polls = (\<lambda>x r. map (\<lambda>s. Inr (Some \<lparr>ar_ID = r, ar_Tool = [], ar_Input = [], ar_Approvers = [], ar_RunID = [], ar_StepID = [], ar_CreatedAt = 0, ar_Status = s\<rparr>)) [''pending'', ''approved'']),
     se_ctxEnd = (\<lambda>x. DeadlineExceeded), se_webhook = (\<lambda>x u t i a. Inr False), se_cel = no_cel, se_run = quiet_env, se_runID = ''run'', se_started = 0, se_created = 0, se_completed = 1,
     se_store = None\<rparr>"

definition demoExecutor :: RuntimeStepExecutor where
  "demoExecutor = \<lparr>rx_AllowSimulatedFallback = False, rx_StorePath = ''runs.db'', rx_ApprovalWebhook = [], rx_ApprovalQueue = True\<rparr>"

theorem step_follows_policy_witness:
  "case rt_ExecuteStep demoExecutor demoEnv ''bots/bot'' ''g'' [] [] 0 of
     (runs, x, n, res, err) \<Rightarrow> map fst x = [''calc'', ''http_request''] \<and> err = Some (Errorf ''policy denied'') \<and>
       callPermitted demoExecutor demoEnv demoPolicy [x ! 0] (x ! 1)"
proof -
  obtain runs x n res err where r: "rt_ExecuteStep demoExecutor demoEnv ''bots/bot'' ''g'' [] [] 0 = (runs, x, n, res, err)" by (metis prod_cases5)
  have c: "case rt_ExecuteStep demoExecutor demoEnv ''bots/bot'' ''g'' [] [] 0 of
     (runs, x, n, res, err) \<Rightarrow> map fst x = [''calc'', ''http_request''] \<and> err = Some (Errorf ''policy denied'')" by code_simp
  have p: "resolveAgentConfigPath demoEnv ''bots/bot'' = Inr ''bots/bot.yaml''" "LoadEngine demoEnv ''bots/policy.yaml'' = Inr demoPolicy" by code_simp+
  have "case LoadWithPolicy demoEnv ''bots/bot.yaml'' of Inr (cfg, q) \<Rightarrow> q = ''bots/policy.yaml'' | Inl err \<Rightarrow> False" by code_simp
  then obtain cfg where l: "LoadWithPolicy demoEnv ''bots/bot.yaml'' = Inr (cfg, ''bots/policy.yaml'')" by (auto split: sum.splits prod.splits)
  from c r have x: "map fst x = [''calc'', ''http_request'']" "err = Some (Errorf ''policy denied'')" by simp_all
  have "length (map fst x) = 2" unfolding x(1) by simp
  then have len: "length x = 2" by (simp only: length_map)
  with step_follows_policy [OF r p(1) l] p(2) have "callPermitted demoExecutor demoEnv demoPolicy (take 1 x) (x ! 1)" by auto
  moreover from len have "take 1 x = [x ! 0]" by (cases x) auto
  ultimately show ?thesis using r x by simp
qed

text \<open>
  C37. The outcome of a step is told truthfully. An error comes without a result when no run was started, and then no tool was called, or with a result that
  says failed and carries the error; it leaves the table of runs alone. Without an error the step says completed, and then it was simulated, which the
  executor must allow, or the run of the agent reached the state completed, its number of steps is that of the calls or one more, and the run is in the table when a store is
  configured and works.
\<close>

theorem step_outcome:
  assumes "rt_ExecuteStep e env agentName goal outputs runs p = (runs', x, p', res, err)"
  shows "case err of
      Some er \<Rightarrow> runs' = runs \<and> (case res of None \<Rightarrow> x = [] | Some r \<Rightarrow> st_Status r = ''failed'' \<and> st_Error r = error_string er)
    | None \<Rightarrow> (\<exists>r. res = Some r \<and> st_Status r = ''completed'' \<and>
        (rx_AllowSimulatedFallback e \<and> x = [] \<and> runs' = runs \<and> SimulatedStep (se_completed env) agentName goal outputs = Inr r \<or>
         (\<exists>n model last. st_RunID r = se_runID env \<and> n \<in> {int (length x), int (length x) + 1} \<and>
            st_Output r = AMap [(''state'', AStr ''completed''), (''step_count'', AInt n), (''model'', model), (''last_result'', last)] \<and>
            (if rx_StorePath e \<noteq> [] \<and> se_store env = None
             then (\<exists>row \<in> set runs'. sv_run_id row = se_runID env \<and> sv_state row = ''completed'' \<and> sv_step_count row = n) else runs' = runs))))"
proof (cases "\<exists>path cfg policyPath. resolveAgentConfigPath env agentName = Inr path \<and> LoadWithPolicy env path = Inr (cfg, policyPath)")
  case True
  then obtain path cfg policyPath where l: "resolveAgentConfigPath env agentName = Inr path" "LoadWithPolicy env path = Inr (cfg, policyPath)" by blast
  from assms l show ?thesis
  proof (cases rule: rt_ExecuteStep_loaded)
    case (ran prov reg pol state)
    from runAgent_calls [OF ran(1) LoadWithPolicy_ok [OF l(2)]] ran(3) show ?thesis
      by (auto simp: failedResult_def completedResult_def persistRunState_def split: option.splits)
  qed simp
next
  case False
  with assms show ?thesis
    by (auto simp: rt_ExecuteStep_def Let_def SimulatedStep_def split: sum.splits if_splits)
qed

theorem step_outcome_witness:
  "case rt_ExecuteStep (demoExecutor\<lparr>rx_ApprovalQueue := False\<rparr>) (demoEnv\<lparr>se_yamlAgent := \<lambda>d. Inr (demoConfig\<lparr>ac_MaxSteps := 2\<rparr>)\<rparr>) ''bots/bot'' ''g'' [] [] 0 of
     (runs, x, n, res, err) \<Rightarrow> err = None \<and> (\<exists>r. res = Some r \<and> st_Status r = ''completed'') \<and> (\<exists>row \<in> set runs. sv_run_id row = ''run'' \<and> sv_state row = ''completed'')"
proof -
  let ?e = "demoExecutor\<lparr>rx_ApprovalQueue := False\<rparr>" and ?env = "demoEnv\<lparr>se_yamlAgent := \<lambda>d. Inr (demoConfig\<lparr>ac_MaxSteps := 2\<rparr>)\<rparr>"
  obtain runs x n res err where r: "rt_ExecuteStep ?e ?env ''bots/bot'' ''g'' [] [] 0 = (runs, x, n, res, err)" by (metis prod_cases5)
  have "case rt_ExecuteStep ?e ?env ''bots/bot'' ''g'' [] [] 0 of (runs, x, n, res, err) \<Rightarrow> err = None" by code_simp
  with r have e: "err = None" by simp
  from step_outcome [OF r] have "(\<exists>r. res = Some r \<and> st_Status r = ''completed'') \<and> (\<exists>row \<in> set runs. sv_run_id row = ''run'' \<and> sv_state row = ''completed'')"
    unfolding e by (auto simp: demoExecutor_def demoEnv_def)
  with r e show ?thesis by simp
qed

section \<open>The tools on offer\<close>

definition registry_ok :: "Registry \<Rightarrow> bool" where
  "registry_ok reg \<longleftrightarrow> wf_map reg \<and> (\<forall>(k, t) \<in> set reg. k = toolKey (tool_Name t) ''1'' \<and> tool_Version t = ''1'')"

lemma registry_ok_Register: "registry_ok reg \<Longrightarrow> tool_Version t = ''1'' \<Longrightarrow> registry_ok (Register t reg)"
  using set_update_subset [of "toolKey (tool_Name t) ''1''" t reg] by (auto simp: registry_ok_def Register_def wf_map_update)

lemma registry_ok_fold: "registry_ok reg \<Longrightarrow> (\<forall>t \<in> set ts. tool_Version (f t) = ''1'') \<Longrightarrow> registry_ok (fold (\<lambda>t. Register (f t)) ts reg)"
  by (rule fold_keeps) (auto intro: registry_ok_Register)

lemma loadSources_ok: "loadSources env x srcs reg = Inr reg' \<Longrightarrow> registry_ok reg \<Longrightarrow> registry_ok reg'"
proof (induction srcs arbitrary: reg)
  case (Cons src srcs)
  then obtain reg1 where l: "LoadMCPSource (se_marshal env) (se_server env src) (se_call env x src) reg src = Inr reg1" "loadSources env x srcs reg1 = Inr reg'"
    by (auto split: sum.splits)
  then have "registry_ok reg1" using Cons.prems(2)
    by (auto simp: LoadMCPSource_def NewMCPToolAdapter_def split: sum.splits intro!: registry_ok_fold)
  with Cons.IH l(2) show ?case by blast
qed simp

lemma stepRegistry_ok: "stepRegistry env cfg x = Inr reg \<Longrightarrow> registry_ok reg"
  unfolding stepRegistry_def
  by (erule loadSources_ok, rule registry_ok_fold [where f = "\<lambda>t. t"])
     (auto simp: registry_ok_def NewRegistry_def builtin_All_def HTTPRequest_def Echo_def Calc_def SQLQuery_def)

lemma splitKey_toolKey: "CHR ''@'' \<notin> set version \<Longrightarrow> splitKey (toolKey name version) = (name, version)"
  using LastIndex_at [of version name] by (simp add: splitKey_def toolKey_def)

text \<open>The descriptions of the tools in a registry, in its order.\<close>

definition infoOf :: "Tool \<Rightarrow> ToolInfo" where
  "infoOf t = \<lparr>ti_Name = tool_Name t, ti_Version = tool_Version t, ti_Description = tool_Description t, ti_InputSchema = tool_InputSchema t\<rparr>"

lemma listToolInfos_all:
  assumes "registry_ok reg" "ac_Tools cfg = []"
  shows "listToolInfos cfg reg = map (infoOf \<circ> snd) reg"
proof -
  have "List.map_filter f (map fst ys) = map (infoOf \<circ> snd) ys"
    if "\<And>k t. (k, t) \<in> set ys \<Longrightarrow> f k = Some (infoOf t)" for f ys
    using that by (induction ys) (force simp: List.map_filter_simps)+
  note gen = this
  have "(case splitKey k of (name, version) \<Rightarrow> map_option infoOf (reg_Get reg name version)) = Some (infoOf t)" if "(k, t) \<in> set reg" for k t
  proof -
    from assms(1) that have k: "k = toolKey (tool_Name t) ''1''" and m: "map_of reg k = Some t" by (auto simp: registry_ok_def)
    then show ?thesis using splitKey_toolKey [of "''1''" "tool_Name t"] by (simp add: reg_Get_def)
  qed
  from gen [OF this] show ?thesis by (simp add: listToolInfos_def assms(2) reg_List_def infoOf_def [abs_def])
qed

text \<open>The tools the model is to be offered: those the agent lists, or all of the registry when it lists none.\<close>

definition offeredTools :: "AgentConfig \<Rightarrow> Registry \<Rightarrow> (string \<times> string) list" where
  "offeredTools cfg reg = (if ac_Tools cfg = [] then map (\<lambda>e. (tool_Name (snd e), ''1'')) reg else map (\<lambda>tr. (tl_Name tr, tl_Version tr)) (ac_Tools cfg))"

lemma listToolInfos_offered:
  assumes "registry_ok reg"
  shows "map (\<lambda>i. (ti_Name i, ti_Version i)) (listToolInfos cfg reg) = offeredTools cfg reg"
proof (cases "ac_Tools cfg = []")
  case True
  have "tool_Version (snd e) = ''1''" if "e \<in> set reg" for e using assms that by (auto simp: registry_ok_def)
  then show ?thesis by (simp add: listToolInfos_all [OF assms True] offeredTools_def True infoOf_def)
next
  case False
  then show ?thesis by (simp add: listToolInfos_def offeredTools_def split: option.split)
qed

lemma listToolInfos_schema:
  assumes "registry_ok reg" "i \<in> set (listToolInfos cfg reg)" "reg_Get reg (ti_Name i) (ti_Version i) = Some t"
  shows "ti_InputSchema i = tool_InputSchema t"
proof (cases "ac_Tools cfg = []")
  case True
  with assms(1,2) obtain k t' where kt: "(k, t') \<in> set reg" "i = infoOf t'" by (auto simp: listToolInfos_all)
  with assms(1) have "map_of reg (toolKey (tool_Name t') (tool_Version t')) = Some t'" by (auto simp: registry_ok_def)
  with assms(3) kt show ?thesis by (simp add: infoOf_def reg_Get_def)
next
  case False
  with assms(2,3) show ?thesis by (auto simp: listToolInfos_def split: option.splits)
qed

text \<open>
  C38. A call of an offered tool is planned for exactly that tool: the model is offered the tools and versions the agent lists, or all of the registry when it lists none, each under its own name.
  An answer that calls the name of an offered tool whose version does not contain \<open>_v\<close>, with any arguments, is planned as a call of that tool in that version; when the registry has it, the schema that was offered
  is its schema; and when the agent lists no tools, the versions are fine, the names are all different and the registry has every tool on offer. This holds for every set of MCP servers and whatever names their
  tools have.
\<close>

theorem offered_tools_callable:
  assumes "stepRegistry env cfg x = Inr reg" "defs = buildToolDefs (listToolInfos cfg reg)"
  shows "length defs = length (offeredTools cfg reg) \<and>
    (\<forall>j < length defs. case offeredTools cfg reg ! j of (name, version) \<Rightarrow> \<not> Contains version ''_v'' \<longrightarrow>
      (\<forall>id1 args content rest. let a = toPlannedAction unmarshal \<lparr>cp_Content = content, cp_ToolCalls = \<lparr>tf_ID = id1, tf_Name = td_Name (defs ! j), tf_Arguments = args\<rparr> # rest\<rparr>
         in pa_Type a = ''tool_call'' \<and> pa_Tool a = name \<and> pa_Version a = version) \<and>
      (\<forall>t. reg_Get reg name version = Some t \<longrightarrow> td_Schema (defs ! j) = tool_InputSchema t)) \<and>
    (ac_Tools cfg = [] \<longrightarrow> distinct (map td_Name defs) \<and>
      (\<forall>(name, version) \<in> set (offeredTools cfg reg). \<not> Contains version ''_v'' \<and> reg_Get reg name version \<noteq> None))"
proof -
  note ok = stepRegistry_ok [OF assms(1)]
  let ?infos = "listToolInfos cfg reg"
  have off: "offeredTools cfg reg = map (\<lambda>i. (ti_Name i, ti_Version i)) ?infos" by (rule listToolInfos_offered [OF ok, symmetric])
  have len: "length defs = length ?infos" by (simp add: assms(2) buildToolDefs_def)
  have nth: "td_Name (defs ! j) = toolDefName (ti_Name (?infos ! j)) (ti_Version (?infos ! j))" "td_Schema (defs ! j) = ti_InputSchema (?infos ! j)" if "j < length ?infos" for j
    using that by (simp_all add: assms(2) buildToolDefs_def)
  have held: "reg_Get reg name version \<noteq> None \<and> version = ''1''" if "ac_Tools cfg = []" "(name, version) \<in> set (offeredTools cfg reg)" for name version
    using that ok by (force simp: offeredTools_def registry_ok_def reg_Get_def map_of_eq_None_iff)
  have distinct: "distinct (map td_Name defs)" if none: "ac_Tools cfg = []"
  proof -
    have "map td_Name defs = map (\<lambda>e. toolDefName (tool_Name (snd e)) ''1'') reg"
      using ok by (auto simp: assms(2) buildToolDefs_def listToolInfos_all [OF ok none] infoOf_def registry_ok_def)
    moreover have "inj_on (\<lambda>e. toolDefName (tool_Name (snd e)) ''1'') (set reg)"
    proof (rule inj_onI)
      fix a b assume ab: "a \<in> set reg" "b \<in> set reg" "toolDefName (tool_Name (snd a)) ''1'' = toolDefName (tool_Name (snd b)) ''1''"
      with ok have "fst a = fst b" by (fastforce simp: registry_ok_def toolDefName_def case_prod_beta)
      with ab ok show "a = b" unfolding registry_ok_def by (metis eq_key_imp_eq_value prod.collapse)
    qed
    moreover have "distinct reg" using ok by (simp add: registry_ok_def distinct_map)
    ultimately show ?thesis by (simp add: distinct_map)
  qed
  have planned: "(let a = toPlannedAction unmarshal \<lparr>cp_Content = content, cp_ToolCalls = \<lparr>tf_ID = id1, tf_Name = td_Name (defs ! j), tf_Arguments = args\<rparr> # rest\<rparr>
      in pa_Type a = ''tool_call'' \<and> pa_Tool a = ti_Name (?infos ! j) \<and> pa_Version a = ti_Version (?infos ! j))"
    if "j < length ?infos" "\<not> Contains (ti_Version (?infos ! j)) ''_v''" for j id1 args content rest
    using parseToolName_roundtrip [of "ti_Name (?infos ! j)" "ti_Version (?infos ! j)"] that by (simp add: toPlannedAction_def nth(1))
  have v1: "\<not> Contains ''1'' ''_v''" by (simp add: HasPrefix_def)
  have schema: "td_Schema (defs ! j) = tool_InputSchema t" if "j < length ?infos" "reg_Get reg (ti_Name (?infos ! j)) (ti_Version (?infos ! j)) = Some t" for j t
    using listToolInfos_schema [OF ok nth_mem that(2)] that nth(2) by simp
  show ?thesis
  proof (intro conjI allI impI)
    show "length defs = length (offeredTools cfg reg)" by (simp add: len off)
  next
    fix j assume j: "j < length defs"
    then have "offeredTools cfg reg ! j = (ti_Name (?infos ! j), ti_Version (?infos ! j))" by (simp add: off len)
    with planned [of j] schema [of j] j len
    show "case offeredTools cfg reg ! j of (name, version) \<Rightarrow> \<not> Contains version ''_v'' \<longrightarrow>
      (\<forall>id1 args content rest. let a = toPlannedAction unmarshal \<lparr>cp_Content = content, cp_ToolCalls = \<lparr>tf_ID = id1, tf_Name = td_Name (defs ! j), tf_Arguments = args\<rparr> # rest\<rparr>
         in pa_Type a = ''tool_call'' \<and> pa_Tool a = name \<and> pa_Version a = version) \<and>
      (\<forall>t. reg_Get reg name version = Some t \<longrightarrow> td_Schema (defs ! j) = tool_InputSchema t)" by simp
  next
    assume none: "ac_Tools cfg = []"
    then show "distinct (map td_Name defs)" by (rule distinct)
    show "\<forall>(name, version) \<in> set (offeredTools cfg reg). \<not> Contains version ''_v'' \<and> reg_Get reg name version \<noteq> None" using held [OF none] v1 by blast
  qed
qed

definition listedConfig :: AgentConfig where
  "listedConfig = demoConfig\<lparr>ac_Tools := [\<lparr>tl_Name = ''calc'', tl_Version = ''1''\<rparr>, \<lparr>tl_Name = ''my_v_tool'', tl_Version = ''2''\<rparr>]\<rparr>"

theorem offered_tools_callable_witness:
  "\<exists>reg. stepRegistry demoEnv listedConfig [] = Inr reg \<and> length (buildToolDefs (listToolInfos listedConfig reg)) = 2 \<and>
     (let a = toPlannedAction (\<lambda>a. None) \<lparr>cp_Content = [], cp_ToolCalls = [\<lparr>tf_ID = [], tf_Name = td_Name (buildToolDefs (listToolInfos listedConfig reg) ! 1), tf_Arguments = []\<rparr>]\<rparr>
      in pa_Tool a = ''my_v_tool'' \<and> pa_Version a = ''2'')"
proof -
  have "case stepRegistry demoEnv listedConfig [] of Inr reg \<Rightarrow> True | Inl err \<Rightarrow> False" by code_simp
  then obtain reg where reg: "stepRegistry demoEnv listedConfig [] = Inr reg" by (auto split: sum.splits)
  have off: "offeredTools listedConfig reg = [(''calc'', ''1''), (''my_v_tool'', ''2'')]" by (simp add: offeredTools_def listedConfig_def)
  from offered_tools_callable [OF reg refl, of "\<lambda>a. None"] reg show ?thesis unfolding off by (auto simp: Let_def HasPrefix_def)
qed

end
