(* ===== verification/Plugin_Registry.thy ===== *)
theory Plugin_Registry
  imports Go_Paths
begin

text \<open>
  The plug-in registry, \<open>pkg/registry\<close>: metadata and its validation (\<open>plugin.go\<close>, \<open>validation.go\<close>), the store behind the marketplace
  (\<open>registry.go\<close>), its HTTP handlers (\<open>server.go\<close>), discovery (\<open>discovery.go\<close>) and the watcher of plug-in directories (\<open>watcher.go\<close>).

  A row is a map from columns to values, NULL being the nil value, so that a query can name a column that the table does not have; the columns and their defaults are those of
  \<open>migrations/009_plugin_registry.sql\<close>. The hash function, the clock, the driver and the file system are arguments. \<open>Search\<close>, whose order is SQL text of the
  request, is left out.
\<close>

section \<open>Metadata\<close>

record PluginMetadata =
  pm_ID :: string
  pm_Name :: string
  pm_Version :: string
  pm_Author :: string
  pm_Description :: string
  pm_Type :: string
  pm_Runtime :: string
  pm_License :: string
  pm_Repository :: string
  pm_Dependencies :: "(string \<times> string \<times> string) list"
  pm_Permissions :: "string list"
  pm_Checksum :: string
  pm_Signature :: string
  pm_ArtifactURL :: string
  pm_CreatedAt :: int
  pm_UpdatedAt :: int
  pm_Metadata :: "any smap"

definition pluginTypes :: "string list" where
  "pluginTypes = [''tool'', ''agent'', ''integration'', ''memory'', ''model'']"

definition runtimeTypes :: "string list" where
  "runtimeTypes = [''go'', ''wasm'', ''python'', ''node'']"

definition permissionNames :: "string list" where
  "permissionNames = [''network'', ''file:read'', ''file:write'', ''file:exec'', ''env:read'', ''env:write'', ''database'', ''api'', ''secrets'']"

definition ValidateMetadata :: "PluginMetadata \<Rightarrow> gerror option" where
  "ValidateMetadata meta =
     (if pm_ID meta = [] then Some (Errorf ''plugin ID is required'')
      else if pm_Name meta = [] then Some (Errorf ''plugin name is required'')
      else if pm_Version meta = [] then Some (Errorf ''plugin version is required'')
      else if pm_Author meta = [] then Some (Errorf ''plugin author is required'')
      else if pm_Type meta \<notin> set pluginTypes then Some (Errorf (''invalid plugin type: '' @ pm_Type meta))
      else if pm_Runtime meta \<notin> set runtimeTypes then Some (Errorf (''invalid runtime: '' @ pm_Runtime meta))
      else (case find (\<lambda>p. p \<notin> set permissionNames) (pm_Permissions meta) of
              Some p \<Rightarrow> Some (Errorf (''invalid permission: '' @ p))
            | None \<Rightarrow> None))"

section \<open>Security validation\<close>

record SecurityConfig =
  sc_AllowedPermissions :: "bool smap"
  sc_MaxPermissions :: int
  sc_RequireSignature :: bool
  sc_TrustedAuthors :: "string list"
  sc_BlockedPlugins :: "string list"

definition DefaultSecurityConfig :: SecurityConfig where
  "DefaultSecurityConfig = \<lparr>sc_AllowedPermissions = [(''network'', True), (''file:read'', True), (''file:write'', False), (''file:exec'', False), (''env:read'', True),
     (''env:write'', False), (''database'', True), (''api'', True), (''secrets'', False)],
     sc_MaxPermissions = 5, sc_RequireSignature = False, sc_TrustedAuthors = [], sc_BlockedPlugins = []\<rparr>"

text \<open>The validator keeps three of the five settings.\<close>

record SecurityValidator =
  vd_allowedPermissions :: "bool smap"
  vd_maxPermissions :: int
  vd_requireSignature :: bool

definition NewSecurityValidator :: "SecurityConfig \<Rightarrow> SecurityValidator" where
  "NewSecurityValidator config = \<lparr>vd_allowedPermissions = sc_AllowedPermissions config, vd_maxPermissions = sc_MaxPermissions config, vd_requireSignature = sc_RequireSignature config\<rparr>"

record ValidationResult =
  vr_Valid :: bool
  vr_Warnings :: "string list"
  vr_Errors :: "string list"

definition permAllowed :: "SecurityValidator \<Rightarrow> string \<Rightarrow> bool" where
  "permAllowed v perm = (case map_of (vd_allowedPermissions v) perm of Some b \<Rightarrow> b | None \<Rightarrow> False)"

definition isDangerousPermission :: "string \<Rightarrow> bool" where
  "isDangerousPermission perm = (perm \<in> set [''file:write'', ''file:exec'', ''env:write'', ''secrets''])"

definition suspiciousPatterns :: "string list" where
  "suspiciousPatterns = [''eval('', ''exec('', ''system('', ''__import__'', ''subprocess'', ''os.system'', ''shell=True'']"

definition containsSuspiciousPattern :: "string \<Rightarrow> bool" where
  "containsSuspiciousPattern s = list_ex (Contains (ToLower s)) suspiciousPatterns"

definition checkPermission :: "SecurityValidator \<Rightarrow> string \<Rightarrow> ValidationResult \<Rightarrow> ValidationResult" where
  "checkPermission v perm r =
     (let r1 = (if permAllowed v perm then r else r\<lparr>vr_Errors := vr_Errors r @ [''permission not allowed: '' @ perm], vr_Valid := False\<rparr>)
      in if isDangerousPermission perm then r1\<lparr>vr_Warnings := vr_Warnings r1 @ [''dangerous permission requested: '' @ perm]\<rparr> else r1)"

definition vd_Validate :: "SecurityValidator \<Rightarrow> PluginMetadata \<Rightarrow> ValidationResult" where
  "vd_Validate v meta =
     (let r0 = \<lparr>vr_Valid = True, vr_Warnings = [], vr_Errors = []\<rparr>;
          r1 = (if vd_requireSignature v \<and> pm_Signature meta = [] then r0\<lparr>vr_Errors := vr_Errors r0 @ [''plugin signature is required''], vr_Valid := False\<rparr> else r0);
          n = int (length (pm_Permissions meta));
          r2 = (if n > vd_maxPermissions v
                then r1\<lparr>vr_Errors := vr_Errors r1 @ [''too many permissions requested: '' @ itoa n @ '' (max: '' @ itoa (vd_maxPermissions v) @ '')''], vr_Valid := False\<rparr> else r1);
          r3 = fold (checkPermission v) (pm_Permissions meta) r2;
          r4 = (if pm_Checksum meta = [] then r3\<lparr>vr_Errors := vr_Errors r3 @ [''missing checksum''], vr_Valid := False\<rparr> else r3);
          r5 = (if containsSuspiciousPattern (pm_Description meta) then r4\<lparr>vr_Warnings := vr_Warnings r4 @ [''description contains suspicious content'']\<rparr> else r4);
          r6 = (if containsSuspiciousPattern (pm_Name meta) then r5\<lparr>vr_Warnings := vr_Warnings r5 @ [''plugin name contains suspicious content'']\<rparr> else r5);
          d = int (length (pm_Dependencies meta))
      in if d > 10 then r6\<lparr>vr_Warnings := vr_Warnings r6 @ [''high number of dependencies: '' @ itoa d]\<rparr> else r6)"

definition ValidateChecksum :: "(string \<Rightarrow> string) \<Rightarrow> string \<Rightarrow> string \<Rightarrow> bool" where
  "ValidateChecksum hash data expectedChecksum = (hash data = expectedChecksum)"

definition ValidateSignature :: "string \<Rightarrow> string \<Rightarrow> string \<Rightarrow> bool \<times> gerror option" where
  "ValidateSignature data signature publicKey = (signature \<noteq> [], None)"

definition maliciousPatterns :: "string smap" where
  "maliciousPatterns = [(''eval('', ''Dynamic code execution''), (''exec('', ''Dynamic code execution''), (''__import__'', ''Dynamic imports''),
     (''subprocess.call'', ''System command execution''), (''os.system'', ''System command execution''), (''rm -rf'', ''Destructive file operation''),
     (''dd if=/dev/zero'', ''Disk wipe operation'')]"

record ScanResult =
  sn_Clean :: bool
  sn_Threats :: "string list"
  sn_Warnings :: "string list"

text \<open>\<open>patterns\<close> is \<^const>\<open>maliciousPatterns\<close> in the order in which the loop over the map happens to visit it.\<close>

definition ScanForMalware :: "string smap \<Rightarrow> string \<Rightarrow> ScanResult" where
  "ScanForMalware patterns content =
     (let hits = filter (\<lambda>(p, d). Contains content p) patterns
      in \<lparr>sn_Clean = (hits = []), sn_Threats = map (\<lambda>(p, d). d @ '' detected: '' @ p) hits,
          sn_Warnings = (if Contains content ''base64'' \<and> Contains content ''decode'' then [''base64 encoded content detected''] else [])\<rparr>)"

section \<open>The store\<close>

type_synonym row = "any smap"

record PluginReview =
  rw_ID :: string
  rw_PluginID :: string
  rw_UserID :: string
  rw_Rating :: int
  rw_Comment :: string
  rw_Helpful :: int
  rw_CreatedAt :: int
  rw_UpdatedAt :: int

record plugin_store =
  ps_plugins :: "row list"
  ps_reviews :: "PluginReview list"
  ps_files :: "string smap"

text \<open>The columns of \<open>plugins\<close> with their defaults.\<close>

definition pluginColumns :: "any smap" where
  "pluginColumns = [(''id'', ANil), (''name'', ANil), (''version'', ANil), (''author'', ANil), (''type'', ANil), (''metadata'', ANil), (''artifact_url'', ANil),
     (''downloads'', AInt 0), (''rating'', AFloat 0), (''published_at'', ANil), (''updated_at'', AStr ''CURRENT_TIMESTAMP'')]"

definition noSuchColumn :: "string list \<Rightarrow> gerror option" where
  "noSuchColumn cols = (case find (\<lambda>c. \<not> has_key pluginColumns c) cols of None \<Rightarrow> None | Some c \<Rightarrow> Some (Errorf (''no such column: '' @ c)))"

definition setCols :: "(string \<times> any) list \<Rightarrow> row \<Rightarrow> row" where
  "setCols vs r = fold (\<lambda>(c, v). AList.update c v) vs r"

definition rowID :: "row \<Rightarrow> any option" where
  "rowID r = map_of r ''id''"

text \<open>What the operating system and the driver answer.\<close>

record store_env =
  pe_hash :: "string \<Rightarrow> string"
  pe_now :: int
  pe_mkdir :: "string \<Rightarrow> gerror option"
  pe_write :: "string \<Rightarrow> gerror option"
  pe_db :: "gerror option"
  pe_db2 :: "gerror option"

text \<open>The insert: a row with the same id is updated in three columns, another row with the same name and version is a violation.\<close>

definition upsertPlugin :: "gerror option \<Rightarrow> (string \<times> any) list \<Rightarrow> row list \<Rightarrow> row list \<times> gerror option" where
  "upsertPlugin db vs rows =
     (case db of
        Some err \<Rightarrow> (rows, Some err)
      | None \<Rightarrow>
          if list_ex (\<lambda>r. rowID r = map_of vs ''id'') rows
          then (map (\<lambda>r. if rowID r = map_of vs ''id''
                         then setCols [(''updated_at'', AStr ''CURRENT_TIMESTAMP''), (''metadata'', the (map_of vs ''metadata'')), (''artifact_url'', the (map_of vs ''artifact_url''))] r
                         else r) rows, None)
          else if list_ex (\<lambda>r. map_of r ''name'' = map_of vs ''name'' \<and> map_of r ''version'' = map_of vs ''version'') rows
          then (rows, Some (Errorf ''UNIQUE constraint failed: plugins.name, plugins.version''))
          else (rows @ [setCols vs pluginColumns], None))"

definition artifactPath :: "string \<Rightarrow> PluginMetadata \<Rightarrow> string" where
  "artifactPath localPath meta = pathJoin [pathJoin [localPath, pm_ID meta], pm_Version meta @ ''.tar.gz'']"

definition pluginValues :: "PluginMetadata \<Rightarrow> string \<Rightarrow> (string \<times> any) list" where
  "pluginValues meta url = [(''id'', AStr (pm_ID meta)), (''name'', AStr (pm_Name meta)), (''version'', AStr (pm_Version meta)), (''author'', AStr (pm_Author meta)),
     (''type'', AStr (pm_Type meta)), (''metadata'', AMap (pm_Metadata meta)), (''artifact_url'', AStr url), (''downloads'', AInt 0), (''rating'', AFloat 0),
     (''published_at'', AInt (pm_CreatedAt meta))]"

definition insertPlugin :: "store_env \<Rightarrow> PluginMetadata \<Rightarrow> string \<Rightarrow> plugin_store \<Rightarrow> plugin_store \<times> gerror option" where
  "insertPlugin env meta url s = (case upsertPlugin (pe_db env) (pluginValues meta url) (ps_plugins s) of (rows, err) \<Rightarrow> (s\<lparr>ps_plugins := rows\<rparr>, err))"

definition storePlugin :: "store_env \<Rightarrow> string \<Rightarrow> PluginMetadata \<Rightarrow> string \<Rightarrow> plugin_store \<Rightarrow> plugin_store \<times> gerror option" where
  "storePlugin env localPath meta artifactData s =
     (if artifactData \<noteq> [] \<and> localPath \<noteq> []
      then (case pe_mkdir env (pathJoin [localPath, pm_ID meta]) of
              Some err \<Rightarrow> (s, Some (Wrap ''create artifact dir: '' err))
            | None \<Rightarrow>
                (let path = artifactPath localPath meta
                 in case pe_write env path of
                      Some err \<Rightarrow> (s, Some (Wrap ''write artifact: '' err))
                    | None \<Rightarrow> insertPlugin env meta path (s\<lparr>ps_files := AList.update path artifactData (ps_files s)\<rparr>)))
      else insertPlugin env meta [] s)"

definition plug_Register :: "store_env \<Rightarrow> string \<Rightarrow> PluginMetadata \<Rightarrow> string \<Rightarrow> plugin_store \<Rightarrow> plugin_store \<times> gerror option" where
  "plug_Register env localPath meta artifactData s =
     (case ValidateMetadata meta of
        Some err \<Rightarrow> (s, Some (Wrap ''invalid metadata: '' err))
      | None \<Rightarrow> storePlugin env localPath (meta\<lparr>pm_Checksum := pe_hash env artifactData, pm_CreatedAt := pe_now env, pm_UpdatedAt := pe_now env\<rparr>) artifactData s)"

text \<open>Scanning a column into a string fails on NULL.\<close>

definition scanStr :: "row \<Rightarrow> string \<Rightarrow> gerror + string" where
  "scanStr r c = (case map_of r c of Some (AStr v) \<Rightarrow> Inr v | _ \<Rightarrow> Inl (Errorf (''sql: Scan error on column \"'' @ c @ ''\"'')))"

fun scanAll :: "row \<Rightarrow> string list \<Rightarrow> gerror + string list" where
  "scanAll r [] = Inr []"
| "scanAll r (c # cs) = (case scanStr r c of Inl err \<Rightarrow> Inl err | Inr v \<Rightarrow> (case scanAll r cs of Inl err \<Rightarrow> Inl err | Inr vs \<Rightarrow> Inr (v # vs)))"

definition getColumns :: "string list" where
  "getColumns = [''id'', ''name'', ''version'', ''author'', ''description'', ''type'', ''runtime'', ''license'', ''repository'', ''permissions'', ''checksum'', ''signature'', ''created_at'', ''updated_at'']"

text \<open>The values of the columns in their order; the caller gets them as metadata, without the URL of the artifact.\<close>

definition plug_Get :: "store_env \<Rightarrow> plugin_store \<Rightarrow> string \<Rightarrow> gerror + string list" where
  "plug_Get env s pluginID =
     (case pe_db env of
        Some err \<Rightarrow> Inl err
      | None \<Rightarrow>
          (case noSuchColumn getColumns of
             Some err \<Rightarrow> Inl err
           | None \<Rightarrow>
               (case find (\<lambda>r. rowID r = Some (AStr pluginID)) (ps_plugins s) of
                  None \<Rightarrow> Inl (Errorf ''sql: no rows in result set'')
                | Some r \<Rightarrow> scanAll r getColumns)))"

definition plug_GetStats :: "store_env \<Rightarrow> plugin_store \<Rightarrow> string \<Rightarrow> gerror + string list" where
  "plug_GetStats env s pluginID =
     (case pe_db env of
        Some err \<Rightarrow> Inl err
      | None \<Rightarrow>
          (case noSuchColumn [''plugin_id'', ''downloads'', ''rating'', ''id''] of
             Some err \<Rightarrow> Inl err
           | None \<Rightarrow>
               (case find (\<lambda>r. rowID r = Some (AStr pluginID)) (ps_plugins s) of
                  None \<Rightarrow> Inl (Errorf ''sql: no rows in result set'')
                | Some r \<Rightarrow> scanAll r [''plugin_id'', ''downloads'', ''rating''])))"

definition updateRow :: "string \<Rightarrow> (row \<Rightarrow> row) \<Rightarrow> row list \<Rightarrow> row list" where
  "updateRow pluginID f rows = map (\<lambda>r. if rowID r = Some (AStr pluginID) then f r else r) rows"

definition plug_IncrementDownloads :: "gerror option \<Rightarrow> string \<Rightarrow> plugin_store \<Rightarrow> plugin_store \<times> gerror option" where
  "plug_IncrementDownloads db pluginID s =
     (case db of
        Some err \<Rightarrow> (s, Some err)
      | None \<Rightarrow> (s\<lparr>ps_plugins := updateRow pluginID (\<lambda>r. case map_of r ''downloads'' of Some (AInt n) \<Rightarrow> AList.update ''downloads'' (AInt (n + 1)) r | _ \<Rightarrow> r) (ps_plugins s)\<rparr>, None))"

definition ratingsOf :: "string \<Rightarrow> PluginReview list \<Rightarrow> int list" where
  "ratingsOf pluginID rs = map rw_Rating (filter (\<lambda>r. rw_PluginID r = pluginID) rs)"

definition avgRating :: "int list \<Rightarrow> any" where
  "avgRating xs = (if xs = [] then ANil else AFloat (of_int (sum_list xs) / of_nat (length xs)))"

definition updatePluginRating :: "gerror option \<Rightarrow> string \<Rightarrow> plugin_store \<Rightarrow> plugin_store \<times> gerror option" where
  "updatePluginRating db pluginID s =
     (case db of
        Some err \<Rightarrow> (s, Some err)
      | None \<Rightarrow> (s\<lparr>ps_plugins := updateRow pluginID (AList.update ''rating'' (avgRating (ratingsOf pluginID (ps_reviews s)))) (ps_plugins s)\<rparr>, None))"

definition plug_AddReview :: "store_env \<Rightarrow> PluginReview \<Rightarrow> plugin_store \<Rightarrow> plugin_store \<times> gerror option" where
  "plug_AddReview env review s =
     (if rw_Rating review < 1 \<or> rw_Rating review > 5 then (s, Some (Errorf ''rating must be between 1 and 5''))
      else (let rev1 = review\<lparr>rw_ID := ''rev-'' @ itoa (pe_now env), rw_CreatedAt := pe_now env, rw_UpdatedAt := pe_now env, rw_Helpful := 0\<rparr>
            in case pe_db env of
                 Some err \<Rightarrow> (s, Some err)
               | None \<Rightarrow>
                   if list_ex (\<lambda>r. rw_ID r = rw_ID rev1) (ps_reviews s) then (s, Some (Errorf ''UNIQUE constraint failed: plugin_reviews.id''))
                   else updatePluginRating (pe_db2 env) (rw_PluginID review) (s\<lparr>ps_reviews := ps_reviews s @ [rev1]\<rparr>)))"

text \<open>A negative limit lets the allocation of the result panic, which is \<open>None\<close>.\<close>

definition plug_GetReviews :: "gerror option \<Rightarrow> string \<Rightarrow> int \<Rightarrow> plugin_store \<Rightarrow> (gerror + PluginReview list) option" where
  "plug_GetReviews db pluginID limit s =
     (case db of
        Some err \<Rightarrow> Some (Inl err)
      | None \<Rightarrow> if limit < 0 then None
                else Some (Inr (take (nat limit) (sort_key (\<lambda>r. - rw_CreatedAt r) (filter (\<lambda>r. rw_PluginID r = pluginID) (ps_reviews s))))))"

section \<open>Handlers\<close>

datatype plug_reply =
    PError int string
  | PInvalid ValidationResult
  | PPublished string ValidationResult
  | PPlugin "string list"
  | PFile string string
  | PReviews "PluginReview list"
  | PReview PluginReview
  | PPanic

text \<open>A multipart request: each file may be missing, fail to be read, or be there; the manifest is what its JSON decodes to.\<close>

record publish_request =
  pq_form :: "gerror option"
  pq_manifest :: "(gerror + string) option"
  pq_artifact :: "(gerror + string) option"

definition handlePublishPlugin :: "(string \<Rightarrow> PluginMetadata option) \<Rightarrow> SecurityValidator \<Rightarrow> store_env \<Rightarrow> string \<Rightarrow> publish_request \<Rightarrow> plugin_store \<Rightarrow> plugin_store \<times> plug_reply" where
  "handlePublishPlugin decode v env localPath req s =
     (case pq_form req of
        Some err \<Rightarrow> (s, PError 400 ''invalid form data'')
      | None \<Rightarrow>
          (case pq_manifest req of
             None \<Rightarrow> (s, PError 400 ''manifest file required'')
           | Some (Inl err) \<Rightarrow> (s, PError 400 ''failed to read manifest'')
           | Some (Inr data) \<Rightarrow>
               (case decode data of
                  None \<Rightarrow> (s, PError 400 ''invalid manifest JSON'')
                | Some meta \<Rightarrow>
                    (let result = vd_Validate v meta
                     in if \<not> vr_Valid result then (s, PInvalid result)
                        else (case pq_artifact req of
                                None \<Rightarrow> (s, PError 400 ''artifact file required'')
                              | Some (Inl err) \<Rightarrow> (s, PError 400 ''failed to read artifact'')
                              | Some (Inr artifactData) \<Rightarrow>
                                  (case plug_Register env localPath meta artifactData s of
                                     (s1, Some err) \<Rightarrow> (s1, PError 500 (error_string err))
                                   | (s1, None) \<Rightarrow> (s1, PPublished (pm_ID meta) result)))))))"

definition handleGetPlugin :: "store_env \<Rightarrow> string \<Rightarrow> plugin_store \<Rightarrow> plug_reply" where
  "handleGetPlugin env pluginID s = (case plug_Get env s pluginID of Inl err \<Rightarrow> PError 404 ''plugin not found'' | Inr p \<Rightarrow> PPlugin p)"

text \<open>
  \<open>Get\<close> leaves the URL of the artifact empty, so that the branch that streams a file is never taken.
\<close>

definition handleDownloadPlugin :: "store_env \<Rightarrow> string \<Rightarrow> plugin_store \<Rightarrow> plugin_store \<times> plug_reply" where
  "handleDownloadPlugin env pluginID s =
     (case plug_Get env s pluginID of
        Inl err \<Rightarrow> (s, PError 404 ''plugin not found'')
      | Inr p \<Rightarrow> (fst (plug_IncrementDownloads (pe_db2 env) pluginID s), PFile (p ! 1 @ ''-'' @ p ! 2 @ ''.tar.gz'') []))"

definition handleGetStats :: "store_env \<Rightarrow> string \<Rightarrow> plugin_store \<Rightarrow> plug_reply" where
  "handleGetStats env pluginID s = (case plug_GetStats env s pluginID of Inl err \<Rightarrow> PError 404 ''plugin not found'' | Inr p \<Rightarrow> PPlugin p)"

text \<open>\<open>limit\<close> is the query parameter if it is there and a number.\<close>

definition handleGetReviews :: "store_env \<Rightarrow> int option \<Rightarrow> string \<Rightarrow> plugin_store \<Rightarrow> plug_reply" where
  "handleGetReviews env limit pluginID s =
     (case plug_GetReviews (pe_db env) pluginID (case limit of None \<Rightarrow> 50 | Some l \<Rightarrow> l) s of
        None \<Rightarrow> PPanic
      | Some (Inl err) \<Rightarrow> PError 500 (error_string err)
      | Some (Inr rs) \<Rightarrow> PReviews rs)"

definition handleSubmitReview :: "store_env \<Rightarrow> string \<Rightarrow> PluginReview option \<Rightarrow> plugin_store \<Rightarrow> plugin_store \<times> plug_reply" where
  "handleSubmitReview env pluginID body s =
     (case body of
        None \<Rightarrow> (s, PError 400 ''invalid review data'')
      | Some review \<Rightarrow>
          (let review1 = review\<lparr>rw_PluginID := pluginID\<rparr>
           in case plug_AddReview env review1 s of
                (s1, Some err) \<Rightarrow> (s1, PError 500 (error_string err))
              | (s1, None) \<Rightarrow> (s1, PReview (review1\<lparr>rw_ID := ''rev-'' @ itoa (pe_now env), rw_CreatedAt := pe_now env, rw_UpdatedAt := pe_now env\<rparr>))))"

section \<open>Discovery\<close>

definition pluginKey :: "PluginMetadata \<Rightarrow> string" where
  "pluginKey p = pm_ID p @ ''@'' @ pm_Version p"

fun uniquePlugins :: "string list \<Rightarrow> PluginMetadata list \<Rightarrow> PluginMetadata list" where
  "uniquePlugins seen [] = []"
| "uniquePlugins seen (p # ps) = (if pluginKey p \<in> set seen then uniquePlugins seen ps else p # uniquePlugins (pluginKey p # seen) ps)"

definition Discover :: "(gerror + PluginMetadata list) list \<Rightarrow> PluginMetadata list" where
  "Discover sources = uniquePlugins [] (concat (map (\<lambda>l. case l of Inl err \<Rightarrow> [] | Inr ps \<Rightarrow> ps) sources))"

fun splitAt :: "string \<Rightarrow> string list" where
  "splitAt [] = [[]]"
| "splitAt (c # s) = (if c = CHR ''@'' then [] # splitAt s else (case splitAt s of [] \<Rightarrow> [[c]] | w # ws \<Rightarrow> (c # w) # ws))"

definition ParsePluginID :: "string \<Rightarrow> gerror + string \<times> string" where
  "ParsePluginID pid =
     (case splitAt pid of
        [n] \<Rightarrow> Inr (n, ''latest'')
      | [n, v] \<Rightarrow> Inr (n, v)
      | _ \<Rightarrow> Inl (Errorf (''invalid plugin ID format: '' @ pid)))"

definition FormatPluginID :: "string \<Rightarrow> string \<Rightarrow> string" where
  "FormatPluginID name version = (if version = [] \<or> version = ''latest'' then name else name @ ''@'' @ version)"

section \<open>The watcher\<close>

record PluginInfo =
  pf_ID :: string
  pf_Version :: string
  pf_LoadedAt :: int
  pf_FilePath :: string
  pf_FileModTime :: int

type_synonym loaded = "PluginInfo smap"

text \<open>The file as it is found: its time of change, or the errors of reading and of \<open>Stat\<close>.\<close>

record file_state =
  fs_read :: "gerror option"
  fs_stat :: "gerror + int"

datatype fs_op = FsWrite | FsCreate | FsRemove | FsOther

definition isYaml :: "string \<Rightarrow> bool" where
  "isYaml path = (pathExt path = ''.yaml'' \<or> pathExt path = ''.yml'')"

definition loadPlugin :: "int \<Rightarrow> file_state \<Rightarrow> string \<Rightarrow> loaded \<Rightarrow> loaded \<times> gerror option" where
  "loadPlugin now fs path m =
     (case fs_read fs of
        Some err \<Rightarrow> (m, Some (Wrap ''read plugin file: '' err))
      | None \<Rightarrow>
          (case fs_stat fs of
             Inl err \<Rightarrow> (m, Some (Wrap ''stat file: '' err))
           | Inr mtime \<Rightarrow> (AList.update path \<lparr>pf_ID = pathBase path, pf_Version = ''1.0.0'', pf_LoadedAt = now, pf_FilePath = path, pf_FileModTime = mtime\<rparr> m, None)))"

definition unloadPlugin :: "string \<Rightarrow> loaded \<Rightarrow> loaded" where
  "unloadPlugin path m = AList.delete path m"

text \<open>The file is looked at twice when it has changed: before the plug-in is unloaded, and when it is loaded.\<close>

definition reloadPlugin :: "int \<Rightarrow> file_state \<Rightarrow> file_state \<Rightarrow> string \<Rightarrow> loaded \<Rightarrow> loaded \<times> gerror option" where
  "reloadPlugin now fs fs2 path m =
     (case map_of m path of
        None \<Rightarrow> loadPlugin now fs path m
      | Some old \<Rightarrow>
          (case fs_stat fs of
             Inl err \<Rightarrow> (m, Some (Wrap ''stat file: '' err))
           | Inr mtime \<Rightarrow> if \<not> mtime > pf_FileModTime old then (m, None) else loadPlugin now fs2 path (unloadPlugin path m)))"

text \<open>One event of the watcher; errors are dropped.\<close>

definition watchEvent :: "int \<Rightarrow> file_state \<Rightarrow> file_state \<Rightarrow> fs_op \<Rightarrow> string \<Rightarrow> loaded \<Rightarrow> loaded" where
  "watchEvent now fs fs2 op1 path m =
     (if \<not> isYaml path then m
      else (case op1 of
              FsWrite \<Rightarrow> fst (reloadPlugin now fs fs2 path m)
            | FsCreate \<Rightarrow> fst (loadPlugin now fs path m)
            | FsRemove \<Rightarrow> unloadPlugin path m
            | FsOther \<Rightarrow> m))"

text \<open>The walk over one directory ends at the first error, of the walk or of a plug-in.\<close>

fun walkDir :: "int \<Rightarrow> (gerror + string \<times> bool \<times> file_state) list \<Rightarrow> loaded \<Rightarrow> loaded" where
  "walkDir now [] m = m"
| "walkDir now (Inl err # es) m = m"
| "walkDir now (Inr (path, isDir, fs) # es) m =
     (if isDir \<or> \<not> isYaml path then walkDir now es m
      else (case loadPlugin now fs path m of (m1, Some err) \<Rightarrow> m1 | (m1, None) \<Rightarrow> walkDir now es m1))"

definition loadAllPlugins :: "int \<Rightarrow> (gerror + string \<times> bool \<times> file_state) list list \<Rightarrow> loaded" where
  "loadAllPlugins now dirs = fold (walkDir now) dirs []"

section \<open>What the validator admits\<close>

definition admitted :: "SecurityValidator \<Rightarrow> PluginMetadata \<Rightarrow> bool" where
  "admitted v meta \<longleftrightarrow>
     (vd_requireSignature v \<longrightarrow> pm_Signature meta \<noteq> []) \<and> int (length (pm_Permissions meta)) \<le> vd_maxPermissions v \<and>
     list_all (permAllowed v) (pm_Permissions meta) \<and> pm_Checksum meta \<noteq> []"

text \<open>The verdict and the errors agree all along.\<close>

lemma checkPermission_fold:
  "vr_Valid (fold (checkPermission v) ps r) \<longleftrightarrow> vr_Valid r \<and> list_all (permAllowed v) ps"
  "(vr_Errors (fold (checkPermission v) ps r) = []) \<longleftrightarrow> vr_Errors r = [] \<and> list_all (permAllowed v) ps"
  by (induction ps arbitrary: r) (auto simp: checkPermission_def Let_def)

lemma vd_Validate_exact: "vr_Valid (vd_Validate v meta) \<longleftrightarrow> admitted v meta" "vr_Errors (vd_Validate v meta) = [] \<longleftrightarrow> admitted v meta"
  by (auto simp: vd_Validate_def Let_def admitted_def checkPermission_fold)

text \<open>The pattern \<open>shell=True\<close> is never found, as the text is put into lower case first.\<close>

lemma lower_no_upper: "CHR ''T'' \<notin> set (ToLower s)"
proof -
  have "to_lower_char c \<noteq> CHR ''T''" for c
  proof (cases "65 \<le> (of_char c :: nat) \<and> (of_char c :: nat) \<le> 90")
    case True
    then have "of_char (to_lower_char c) = (of_char c + 32 :: nat)" by (simp add: to_lower_char_def of_char_of)
    with True have "of_char (to_lower_char c) \<noteq> (84 :: nat)" by simp
    then show ?thesis by auto
  qed (auto simp: to_lower_char_def)
  then show ?thesis unfolding ToLower_def set_map by (metis imageE)
qed

lemma HasPrefix_set: "HasPrefix s p \<Longrightarrow> set p \<subseteq> set s"
  unfolding HasPrefix_def by (metis set_take_subset)

lemma Contains_set: "Contains s p \<Longrightarrow> set p \<subseteq> set s"
  by (induction s) (use HasPrefix_set in fastforce)+

lemma shell_true_missed: "\<not> Contains (ToLower s) ''shell=True''"
  using Contains_set [of "ToLower s" "''shell=True''"] lower_no_upper [of s] by auto

section \<open>The invariant of the store\<close>

definition store_ok :: "plugin_store \<Rightarrow> bool" where
  "store_ok s \<longleftrightarrow> distinct (map rowID (ps_plugins s)) \<and> distinct (map (\<lambda>r. (map_of r ''name'', map_of r ''version'')) (ps_plugins s)) \<and>
     list_all (\<lambda>r. 1 \<le> rw_Rating r \<and> rw_Rating r \<le> 5) (ps_reviews s) \<and> distinct (map rw_ID (ps_reviews s))"

lemma setCols_other: "c \<notin> fst ` set vs \<Longrightarrow> map_of (setCols vs r) c = map_of r c"
  unfolding setCols_def by (induction vs arbitrary: r) auto

lemma setCols_get: "has_key vs c \<Longrightarrow> wf_map vs \<Longrightarrow> map_of (setCols vs r) c = map_of vs c"
proof (induction vs arbitrary: r)
  case (Cons p vs)
  show ?case
  proof (cases "c = fst p")
    case True
    with Cons.prems setCols_other [of c vs "AList.update c (snd p) r"] show ?thesis by (simp add: setCols_def case_prod_beta)
  next
    case False
    with Cons show ?thesis by (auto simp: setCols_def case_prod_beta has_key_def)
  qed
qed (simp add: has_key_def)

lemma setCols_keeps [simp]: "c \<notin> fst ` set vs \<Longrightarrow> ''id'' \<notin> fst ` set vs \<Longrightarrow> rowID (setCols vs r) = rowID r"
  by (simp add: rowID_def setCols_other)

lemma updateRow_keeps:
  assumes "\<And>r. rowID (f r) = rowID r" "\<And>r. map_of (f r) ''name'' = map_of r ''name''" "\<And>r. map_of (f r) ''version'' = map_of r ''version''"
  shows "map rowID (updateRow pid f rows) = map rowID rows"
    "map (\<lambda>r. (map_of r ''name'', map_of r ''version'')) (updateRow pid f rows) = map (\<lambda>r. (map_of r ''name'', map_of r ''version'')) rows"
  using assms by (simp_all add: updateRow_def)

lemma update_col [simp]: "c \<noteq> ''id'' \<Longrightarrow> rowID (AList.update c v r) = rowID r"
  by (simp add: rowID_def)

lemma updatePluginRating_ok: "store_ok s \<Longrightarrow> store_ok (fst (updatePluginRating db pid s))"
  by (simp add: updatePluginRating_def store_ok_def updateRow_keeps split: option.split)

lemma plug_AddReview_ok: "store_ok s \<Longrightarrow> store_ok (fst (plug_AddReview env review s))"
proof -
  assume ok: "store_ok s"
  let ?rev = "review\<lparr>rw_ID := ''rev-'' @ itoa (pe_now env), rw_CreatedAt := pe_now env, rw_UpdatedAt := pe_now env, rw_Helpful := 0\<rparr>"
  have "store_ok (s\<lparr>ps_reviews := ps_reviews s @ [?rev]\<rparr>)"
    if "1 \<le> rw_Rating review" "rw_Rating review \<le> 5" "\<not> list_ex (\<lambda>r. rw_ID r = rw_ID ?rev) (ps_reviews s)"
    using ok that by (auto simp: store_ok_def list_ex_iff)
  with ok updatePluginRating_ok show ?thesis
    by (auto simp: plug_AddReview_def Let_def split: option.split)
qed

lemma plug_IncrementDownloads_ok: "store_ok s \<Longrightarrow> store_ok (fst (plug_IncrementDownloads db pid s))"
proof -
  assume ok: "store_ok s"
  let ?f = "\<lambda>r. case map_of r ''downloads'' of Some (AInt n) \<Rightarrow> AList.update ''downloads'' (AInt (n + 1)) r | _ \<Rightarrow> r"
  have "rowID (?f r) = rowID r" "map_of (?f r) ''name'' = map_of r ''name''" "map_of (?f r) ''version'' = map_of r ''version''" for r
    by (simp_all split: option.split any.split)
  from updateRow_keeps [of ?f, OF this] ok show ?thesis by (simp add: plug_IncrementDownloads_def store_ok_def split: option.split)
qed

text \<open>What an insert does: one row per id, with the new URL.\<close>

lemma upsertPlugin_ok:
  assumes "upsertPlugin db vs rows = (rows', err)" "map_of vs ''id'' = Some (AStr pid)" "map_of vs ''artifact_url'' = Some url"
    "wf_map vs" "distinct (map rowID rows)" "distinct (map (\<lambda>r. (map_of r ''name'', map_of r ''version'')) rows)" "has_key vs ''name'' \<and> has_key vs ''version''"
  shows "distinct (map rowID rows') \<and> distinct (map (\<lambda>r. (map_of r ''name'', map_of r ''version'')) rows') \<and>
    (if err = None then \<exists>r \<in> set rows'. rowID r = Some (AStr pid) \<and> map_of r ''artifact_url'' = Some url else rows' = rows)"
proof (cases db)
  case None
  define upd where "upd = setCols [(''updated_at'', AStr ''CURRENT_TIMESTAMP''), (''metadata'', the (map_of vs ''metadata'')), (''artifact_url'', url)]"
  have upd: "rowID (upd r) = rowID r" "map_of (upd r) ''name'' = map_of r ''name''" "map_of (upd r) ''version'' = map_of r ''version''" "map_of (upd r) ''artifact_url'' = Some url" for r
    by (simp_all add: upd_def setCols_def rowID_def)
  consider (old) "list_ex (\<lambda>r. rowID r = Some (AStr pid)) rows" | (clash) "\<not> list_ex (\<lambda>r. rowID r = Some (AStr pid)) rows" "err \<noteq> None" "rows' = rows"
    | (new) "\<not> list_ex (\<lambda>r. rowID r = Some (AStr pid)) rows" "\<not> list_ex (\<lambda>r. map_of r ''name'' = map_of vs ''name'' \<and> map_of r ''version'' = map_of vs ''version'') rows"
        "rows' = rows @ [setCols vs pluginColumns]" "err = None"
    using assms(1,2) None by (auto simp: upsertPlugin_def split: if_splits)
  then show ?thesis
  proof cases
    case old
    with assms(1-3) None have r: "rows' = map (\<lambda>r. if rowID r = Some (AStr pid) then upd r else r) rows" "err = None"
      by (auto simp: upsertPlugin_def upd_def)
    have m: "map rowID rows' = map rowID rows" "map (\<lambda>r. (map_of r ''name'', map_of r ''version'')) rows' = map (\<lambda>r. (map_of r ''name'', map_of r ''version'')) rows"
      using r(1) upd by simp_all
    from old obtain r0 where r0: "r0 \<in> set rows" "rowID r0 = Some (AStr pid)" by (auto simp: list_ex_iff)
    then have u: "upd r0 \<in> set rows'" using r(1) by force
    show ?thesis unfolding m using assms(5,6) by (simp only: r(2) simp_thms if_True) (intro bexI [OF _ u], simp add: upd r0)
  next
    case clash
    with assms(5,6) show ?thesis by auto
  next
    case new
    have k: "has_key vs ''id''" "has_key vs ''artifact_url''" using assms(2,3) by (auto simp: has_key_def)
    have v: "rowID (setCols vs pluginColumns) = Some (AStr pid)" "map_of (setCols vs pluginColumns) ''artifact_url'' = Some url"
      "map_of (setCols vs pluginColumns) ''name'' = map_of vs ''name''" "map_of (setCols vs pluginColumns) ''version'' = map_of vs ''version''"
      using setCols_get [OF k(1) assms(4)] setCols_get [OF k(2) assms(4)] setCols_get [OF conjunct1 [OF assms(7)] assms(4)] setCols_get [OF conjunct2 [OF assms(7)] assms(4)] assms(2,3) by (simp_all add: rowID_def)
    with new assms(5,6) show ?thesis by (auto simp: list_ex_iff)
  qed
qed (use assms in \<open>auto simp: upsertPlugin_def\<close>)

lemma storePlugin_ok:
  assumes "storePlugin env lp meta artifact s = (s', err)" "store_ok s"
  shows "store_ok s' \<and> ps_reviews s' = ps_reviews s \<and>
    (if err = None then \<exists>r \<in> set (ps_plugins s'). rowID r = Some (AStr (pm_ID meta)) \<and>
        (if artifact \<noteq> [] \<and> lp \<noteq> [] then map_of r ''artifact_url'' = Some (AStr (artifactPath lp meta)) \<and> map_of (ps_files s') (artifactPath lp meta) = Some artifact
         else map_of r ''artifact_url'' = Some (AStr []))
     else ps_plugins s' = ps_plugins s)"
proof -
  have up: "distinct (map rowID rows') \<and> distinct (map (\<lambda>r. (map_of r ''name'', map_of r ''version'')) rows') \<and>
    (if er = None then \<exists>r \<in> set rows'. rowID r = Some (AStr (pm_ID meta)) \<and> map_of r ''artifact_url'' = Some (AStr url) else rows' = ps_plugins s)"
    if "upsertPlugin (pe_db env) (pluginValues meta url) (ps_plugins s) = (rows', er)" for url rows' er
    by (rule upsertPlugin_ok [OF that]) (use assms(2) in \<open>simp_all add: pluginValues_def store_ok_def has_key_def\<close>)
  define keep where "keep \<longleftrightarrow> artifact \<noteq> [] \<and> lp \<noteq> []"
  define url where "url = (if keep then artifactPath lp meta else [])"
  define files where "files = (if keep then AList.update url artifact (ps_files s) else ps_files s)"
  obtain rows' er where u: "upsertPlugin (pe_db env) (pluginValues meta url) (ps_plugins s) = (rows', er)" by fastforce
  have st: "storePlugin env lp meta artifact s = (case (if keep then pe_mkdir env (pathJoin [lp, pm_ID meta]) else None) of
      Some e \<Rightarrow> (s, Some (Wrap ''create artifact dir: '' e))
    | None \<Rightarrow> (case (if keep then pe_write env url else None) of Some e \<Rightarrow> (s, Some (Wrap ''write artifact: '' e)) | None \<Rightarrow> (s\<lparr>ps_plugins := rows', ps_files := files\<rparr>, er)))"
    using u unfolding storePlugin_def keep_def [symmetric] by (cases keep) (simp_all add: insertPlugin_def url_def files_def Let_def split: option.split)
  consider (refused) "s' = s" "err \<noteq> None" | (stored) rows' where "upsertPlugin (pe_db env) (pluginValues meta url) (ps_plugins s) = (rows', err)" "s' = s\<lparr>ps_plugins := rows', ps_files := files\<rparr>"
    using assms(1) u unfolding st by (auto split: option.splits)
  then show ?thesis
  proof cases
    case stored
    with up [OF stored(1)] assms(2) have ok: "store_ok s' \<and> ps_reviews s' = ps_reviews s" by (simp add: store_ok_def)
    show ?thesis
    proof (cases err)
      case None
      with up [OF stored(1)] obtain r where r: "r \<in> set rows'" "rowID r = Some (AStr (pm_ID meta))" "map_of r ''artifact_url'' = Some (AStr url)" by auto
      have "if keep then map_of r ''artifact_url'' = Some (AStr (artifactPath lp meta)) \<and> map_of (ps_files s') (artifactPath lp meta) = Some artifact
         else map_of r ''artifact_url'' = Some (AStr [])" using r(3) stored(2) by (simp add: url_def files_def)
      with ok None r stored(2) show ?thesis unfolding keep_def by (auto intro!: bexI [of _ r])
    next
      case (Some e)
      with up [OF stored(1)] ok stored(2) show ?thesis by simp
    qed
  qed (use assms(2) in auto)
qed

section \<open>Properties\<close>

text \<open>
  C39. Nothing enters the marketplace unchecked: a request to publish is answered with success only if the manifest passes the check of its metadata and the security
  validator, that is a signature where one is required, no more permissions than allowed and each of them allowed, and a checksum; then there is a row for the plug-in,
  and its artifact lies where the row says. Every other answer leaves the table as it was, and names and versions stay unique.
\<close>

theorem publish_gate:
  assumes "handlePublishPlugin decode v env lp req s = (s', reply)" "store_ok s"
  shows "store_ok s' \<and>
    (case reply of
       PPublished pid result \<Rightarrow> (\<exists>data meta artifact. pq_manifest req = Some (Inr data) \<and> decode data = Some meta \<and> pq_artifact req = Some (Inr artifact) \<and>
         pid = pm_ID meta \<and> ValidateMetadata meta = None \<and> admitted v meta \<and> vr_Errors result = [] \<and>
         (\<exists>r \<in> set (ps_plugins s'). rowID r = Some (AStr pid) \<and>
            (if artifact \<noteq> [] \<and> lp \<noteq> [] then map_of r ''artifact_url'' = Some (AStr (artifactPath lp meta)) \<and> map_of (ps_files s') (artifactPath lp meta) = Some artifact
             else map_of r ''artifact_url'' = Some (AStr []))))
     | _ \<Rightarrow> ps_plugins s' = ps_plugins s)"
proof -
  have path: "artifactPath lp (meta\<lparr>pm_Checksum := c, pm_CreatedAt := t1, pm_UpdatedAt := t2\<rparr>) = artifactPath lp meta" for meta c t1 t2 by (simp add: artifactPath_def)
  consider (stopped) "s' = s" "\<forall>pid result. reply \<noteq> PPublished pid result"
    | (stored) data meta artifact err where "pq_manifest req = Some (Inr data)" "decode data = Some meta" "pq_artifact req = Some (Inr artifact)" "vr_Valid (vd_Validate v meta)"
        "plug_Register env lp meta artifact s = (s', err)" "reply = (case err of None \<Rightarrow> PPublished (pm_ID meta) (vd_Validate v meta) | Some e \<Rightarrow> PError 500 (error_string e))"
    using assms(1) by (auto simp: handlePublishPlugin_def Let_def split: option.splits sum.splits if_splits prod.splits)
  then show ?thesis
  proof cases
    case stopped
    with assms(2) show ?thesis by (cases reply) auto
  next
    case stored
    show ?thesis
    proof (cases "ValidateMetadata meta")
      case None
      with stored(5) have "storePlugin env lp (meta\<lparr>pm_Checksum := pe_hash env artifact, pm_CreatedAt := pe_now env, pm_UpdatedAt := pe_now env\<rparr>) artifact s = (s', err)"
        by (simp add: plug_Register_def)
      from storePlugin_ok [OF this assms(2), unfolded path] stored None vd_Validate_exact [of v meta] show ?thesis
        by (cases err) simp_all
    next
      case (Some e)
      with stored assms(2) show ?thesis by (auto simp: plug_Register_def)
    qed
  qed
qed

definition demoPlugin :: PluginMetadata where
  "demoPlugin = \<lparr>pm_ID = ''p'', pm_Name = ''n'', pm_Version = ''1'', pm_Author = ''a'', pm_Description = [], pm_Type = ''tool'', pm_Runtime = ''go'', pm_License = [],
     pm_Repository = [], pm_Dependencies = [], pm_Permissions = [''network''], pm_Checksum = ''c'', pm_Signature = [], pm_ArtifactURL = [], pm_CreatedAt = 0, pm_UpdatedAt = 0, pm_Metadata = []\<rparr>"

definition demoStoreEnv :: store_env where
  "demoStoreEnv = \<lparr>pe_hash = (\<lambda>d. d), pe_now = 7, pe_mkdir = (\<lambda>p. None), pe_write = (\<lambda>p. None), pe_db = None, pe_db2 = None\<rparr>"

definition demoPublish :: "plugin_store \<times> plug_reply" where
  "demoPublish = handlePublishPlugin (\<lambda>d. Some demoPlugin) (NewSecurityValidator DefaultSecurityConfig) demoStoreEnv ''/plugins''
     \<lparr>pq_form = None, pq_manifest = Some (Inr []), pq_artifact = Some (Inr ''tar'')\<rparr> \<lparr>ps_plugins = [], ps_reviews = [], ps_files = []\<rparr>"

theorem publish_gate_witness:
  "(case snd demoPublish of PPublished pid result \<Rightarrow> pid = ''p'' | _ \<Rightarrow> False) \<and> store_ok (fst demoPublish) \<and> map_of (ps_files (fst demoPublish)) ''/plugins/p/1.tar.gz'' = Some ''tar''"
proof -
  have ok: "store_ok \<lparr>ps_plugins = [], ps_reviews = [], ps_files = []\<rparr>" by (simp add: store_ok_def)
  have "store_ok (fst demoPublish)" using publish_gate [OF _ ok, of _ _ _ _ _ "fst demoPublish" "snd demoPublish"] unfolding demoPublish_def by (metis prod.collapse)
  moreover have "(case snd demoPublish of PPublished pid result \<Rightarrow> pid = ''p'' | _ \<Rightarrow> False)" "map_of (ps_files (fst demoPublish)) ''/plugins/p/1.tar.gz'' = Some ''tar''" by code_simp+
  ultimately show ?thesis by simp
qed

text \<open>
  The rating is exact: a review that is accepted makes the rating of the plug-in the mean of all its reviews, which lies between 1 and 5, and leaves the
  other plug-ins alone.
\<close>

theorem review_rating_exact:
  assumes "plug_AddReview env review s = (s', None)" "store_ok s" "r \<in> set (ps_plugins s')"
  shows "(rowID r = Some (AStr (rw_PluginID review)) \<longrightarrow>
      (\<exists>q. map_of r ''rating'' = Some (AFloat q) \<and> AFloat q = avgRating (ratingsOf (rw_PluginID review) (ps_reviews s')) \<and> 1 \<le> q \<and> q \<le> 5)) \<and>
    (rowID r \<noteq> Some (AStr (rw_PluginID review)) \<longrightarrow> r \<in> set (ps_plugins s))"
proof -
  let ?xs = "ratingsOf (rw_PluginID review) (ps_reviews s')"
  have ok: "store_ok s'" using plug_AddReview_ok [OF assms(2), of env review] assms(1) by simp
  have rows: "ps_plugins s' = updateRow (rw_PluginID review) (AList.update ''rating'' (avgRating ?xs)) (ps_plugins s)" and ne: "?xs \<noteq> []"
    using assms(1) by (auto simp: plug_AddReview_def updatePluginRating_def Let_def ratingsOf_def split: if_splits option.splits)
  have b: "\<forall>x \<in> set ?xs. 1 \<le> x \<and> x \<le> 5" using ok by (auto simp: ratingsOf_def store_ok_def list_all_iff)
  have sums: "int (length xs) \<le> sum_list xs \<and> sum_list xs \<le> 5 * int (length xs)" if "\<forall>x \<in> set xs. 1 \<le> x \<and> x \<le> 5" for xs :: "int list"
    using that by (induction xs) auto
  define q :: rat where "q = of_int (sum_list ?xs) / of_nat (length ?xs)"
  have len: "(0 :: rat) < of_nat (length ?xs)" using ne by simp
  have s: "(of_nat (length ?xs) :: rat) \<le> of_int (sum_list ?xs)" "(of_int (sum_list ?xs) :: rat) \<le> 5 * of_nat (length ?xs)"
    using sums [OF b] by (metis of_int_le_iff of_int_of_nat_eq, metis of_int_le_iff of_int_mult of_int_numeral of_int_of_nat_eq)
  then have "1 \<le> q" "q \<le> 5" unfolding q_def using len by (simp_all add: field_simps)
  moreover have "avgRating ?xs = AFloat q" using ne by (simp add: avgRating_def q_def)
  ultimately show ?thesis using assms(3) unfolding rows by (auto simp: updateRow_def)
qed

text \<open>Whatever is published, no plug-in is ever shown, measured or served: the queries name columns that the table does not have.\<close>

lemma published_never_found:
  "handleGetPlugin env pid s = PError 404 ''plugin not found'' \<and> handleGetStats env pid s = PError 404 ''plugin not found'' \<and>
   handleDownloadPlugin env pid s = (s, PError 404 ''plugin not found'')"
proof -
  have "case noSuchColumn getColumns of None \<Rightarrow> False | Some e \<Rightarrow> True" "case noSuchColumn [''plugin_id'', ''downloads'', ''rating'', ''id''] of None \<Rightarrow> False | Some e \<Rightarrow> True" by code_simp+
  then show ?thesis
    by (auto simp: handleGetPlugin_def handleGetStats_def handleDownloadPlugin_def plug_Get_def plug_GetStats_def split: option.splits sum.splits)
qed

text \<open>A second version of a plug-in keeps the number of the first one, while the artifact is that of the second.\<close>

lemma new_version_keeps_number:
  "(let s1 = fst demoPublish; s2 = fst (plug_Register demoStoreEnv ''/plugins'' (demoPlugin\<lparr>pm_Version := ''2''\<rparr>) ''tar2'' s1)
    in map (\<lambda>r. (map_of r ''version'', map_of r ''artifact_url'')) (ps_plugins s2) = [(Some (AStr ''1''), Some (AStr ''/plugins/p/2.tar.gz''))])"
  by code_simp

text \<open>An identifier is part of a path: an artifact can be written outside the directory of the plug-ins.\<close>

lemma artifact_escapes: "artifactPath ''/srv/plugins'' (demoPlugin\<lparr>pm_ID := ''../../etc''\<rparr>) = ''/etc/1.tar.gz''"
  by code_simp

lemma splitAt_single: "CHR ''@'' \<notin> set s \<Longrightarrow> splitAt s = [s]"
  by (induction s) auto

lemma splitAt_append: "CHR ''@'' \<notin> set s \<Longrightarrow> splitAt (s @ CHR ''@'' # r) = s # splitAt r"
  by (induction s) auto

text \<open>Identifiers read back, the empty version as the latest one.\<close>

lemma plugin_id_roundtrip:
  assumes "CHR ''@'' \<notin> set name" "CHR ''@'' \<notin> set version"
  shows "ParsePluginID (FormatPluginID name version) = Inr (name, if version = [] then ''latest'' else version)"
  using splitAt_single [OF assms(1)] splitAt_append [OF assms(1), of version] splitAt_single [OF assms(2)]
  by (auto simp: ParsePluginID_def FormatPluginID_def)

lemma uniquePlugins_keys:
  "distinct (map pluginKey (uniquePlugins seen ps)) \<and> set (map pluginKey (uniquePlugins seen ps)) = pluginKey ` set ps - set seen \<and> set (uniquePlugins seen ps) \<subseteq> set ps"
  by (induction seen ps rule: uniquePlugins.induct) auto

text \<open>Discovery lists every version of every plug-in that a source lists, once.\<close>

lemma Discover_unique:
  "distinct (map pluginKey (Discover sources)) \<and> pluginKey ` set (Discover sources) = pluginKey ` (\<Union>ps \<in> {ps. Inr ps \<in> set sources}. set ps)"
proof -
  let ?all = "concat (map (\<lambda>l. case l of Inl err \<Rightarrow> [] | Inr ps \<Rightarrow> ps) sources)"
  have "set ?all = (\<Union>ps \<in> {ps. Inr ps \<in> set sources}. set ps)" by (force split: sum.splits)
  with uniquePlugins_keys [of "[]" ?all] show ?thesis by (simp add: Discover_def)
qed

text \<open>A plug-in whose file cannot be read after a change is unloaded and stays away; one that is renamed stays loaded.\<close>

lemma failed_reload_unloads:
  assumes "isYaml path" "map_of m path = Some old" "fs_stat fs = Inr mtime" "pf_FileModTime old < mtime" "fs_read fs2 = Some err"
  shows "map_of (watchEvent now fs fs2 FsWrite path m) path = None"
  using assms by (simp add: watchEvent_def reloadPlugin_def loadPlugin_def unloadPlugin_def AList.delete_conv')

lemma loadPlugin_keys: "fst ` set (fst (loadPlugin now fs path m)) \<subseteq> insert path (fst ` set m)"
  by (simp add: loadPlugin_def subset_insertI split: option.split sum.split)

lemma unloadPlugin_keys: "fst ` set (unloadPlugin path m) \<subseteq> fst ` set m"
  by (auto simp: unloadPlugin_def AList.delete_eq)

text \<open>Only YAML files are ever loaded.\<close>

lemma watchEvent_keys: "fst ` set (watchEvent now fs fs2 op1 path m) \<subseteq> (if isYaml path then {path} else {}) \<union> fst ` set m"
proof -
  have "fst ` set (fst (reloadPlugin now fs fs2 path m)) \<subseteq> insert path (fst ` set m)"
    using loadPlugin_keys [of now fs path m] loadPlugin_keys [of now fs2 path "unloadPlugin path m"] unloadPlugin_keys [of path m]
    by (simp add: reloadPlugin_def subset_insertI split: option.split sum.split) blast
  then show ?thesis
    using loadPlugin_keys [of now fs path m] unloadPlugin_keys [of path m] by (cases op1) (simp_all add: watchEvent_def subset_insertI2)
qed

end
