(* ===== verification/Marketplace.thy ===== *)
theory Marketplace
  imports Workflow_State "HOL-Library.Product_Lexorder"
begin

text \<open>
  The marketplace of workflow templates and the versions of workflows, \<open>pkg/registry/workflow_marketplace.go\<close>. A table is a map from primary key to row in the order of
  insertion, a JSON column the value its text decodes to. Rows that compare equal in a sorted query keep that order. Ratings are exact. The clock and the driver's error
  are arguments, and text is ASCII where a pattern is matched.
\<close>

section \<open>Templates\<close>

record TemplateParameter =
  tp_Name :: string
  tp_Type :: string
  tp_Description :: string
  tp_Required :: bool
  tp_Default :: any

record WorkflowTemplate =
  wt_ID :: string
  wt_Name :: string
  wt_Author :: string
  wt_Description :: string
  wt_Category :: string
  wt_Tags :: "string list"
  wt_TemplateYAML :: string
  wt_Parameters :: "TemplateParameter list"
  wt_Downloads :: int
  wt_Rating :: rat
  wt_RatingCount :: int
  wt_Version :: string
  wt_License :: string
  wt_PublishedAt :: int
  wt_UpdatedAt :: int
  wt_Metadata :: "any smap"

type_synonym templates = "WorkflowTemplate smap"

definition wm_Publish :: "gerror option \<Rightarrow> int \<Rightarrow> WorkflowTemplate \<Rightarrow> templates \<Rightarrow> templates \<times> gerror option" where
  "wm_Publish db now t ts =
     (case db of
        Some err \<Rightarrow> (ts, Some (Wrap ''insert template: '' err))
      | None \<Rightarrow>
          if has_key ts (wt_ID t) then (ts, Some (Wrap ''insert template: '' (Errorf ''UNIQUE constraint failed: workflow_templates.id'')))
          else (ts @ [(wt_ID t, t\<lparr>wt_Parameters := map (\<lambda>p. p\<lparr>tp_Default := json_norm (tp_Default p)\<rparr>) (wt_Parameters t), wt_Downloads := 0, wt_Rating := 0,
                  wt_RatingCount := 0, wt_PublishedAt := now, wt_UpdatedAt := now, wt_Metadata := json_norm_map (wt_Metadata t)\<rparr>)], None))"

text \<open>The operator LIKE: a percent sign matches any text, an underscore one character, letters match in either case.\<close>

function like :: "string \<Rightarrow> string \<Rightarrow> bool" where
  "like [] s = (s = [])"
| "like (p # ps) [] = (p = CHR ''%'' \<and> like ps [])"
| "like (p # ps) (c # s) =
     (if p = CHR ''%'' then like ps (c # s) \<or> like (p # ps) s
      else if p = CHR ''_'' then like ps s
      else to_lower_char p = to_lower_char c \<and> like ps s)"
  by pat_completeness auto
termination
  by (relation "measure (\<lambda>(ps, s). length ps + length s)") auto

record template_filter =
  tf_category :: string
  tf_search :: string
  tf_limit :: int

definition templateMatches :: "template_filter \<Rightarrow> WorkflowTemplate \<Rightarrow> bool" where
  "templateMatches f t \<longleftrightarrow>
     (tf_category f \<noteq> [] \<longrightarrow> wt_Category t = tf_category f) \<and>
     (tf_search f \<noteq> [] \<longrightarrow> (let pat = ''%'' @ tf_search f @ ''%'' in like pat (wt_Name t) \<or> like pat (wt_Description t)))"

definition wm_Search :: "gerror option \<Rightarrow> template_filter \<Rightarrow> templates \<Rightarrow> gerror + WorkflowTemplate list" where
  "wm_Search db f ts =
     (case db of
        Some err \<Rightarrow> Inl (Wrap ''query templates: '' err)
      | None \<Rightarrow>
          (let rows = sort_key (\<lambda>t. (- wt_Downloads t, - wt_Rating t)) (filter (templateMatches f) (map snd ts))
           in Inr (if tf_limit f > 0 then take (nat (tf_limit f)) rows else rows)))"

definition wm_Get :: "gerror option \<Rightarrow> string \<Rightarrow> templates \<Rightarrow> gerror + WorkflowTemplate" where
  "wm_Get db tid ts =
     (case db of
        Some err \<Rightarrow> Inl (Wrap ''query template: '' err)
      | None \<Rightarrow> (case map_of ts tid of None \<Rightarrow> Inl (Errorf ''template not found'') | Some t \<Rightarrow> Inr t))"

definition onTemplate :: "string \<Rightarrow> (WorkflowTemplate \<Rightarrow> WorkflowTemplate) \<Rightarrow> templates \<Rightarrow> templates" where
  "onTemplate tid f ts = map (\<lambda>(k, t). (k, if k = tid then f t else t)) ts"

definition wm_IncrementDownloads :: "gerror option \<Rightarrow> string \<Rightarrow> templates \<Rightarrow> templates \<times> gerror option" where
  "wm_IncrementDownloads db tid ts =
     (case db of Some err \<Rightarrow> (ts, Some err) | None \<Rightarrow> (onTemplate tid (\<lambda>t. t\<lparr>wt_Downloads := wt_Downloads t + 1\<rparr>) ts, None))"

definition wm_Rate :: "gerror option \<Rightarrow> string \<Rightarrow> rat \<Rightarrow> templates \<Rightarrow> templates \<times> gerror option" where
  "wm_Rate db tid rating ts =
     (case db of
        Some err \<Rightarrow> (ts, Some err)
      | None \<Rightarrow> (onTemplate tid (\<lambda>t. t\<lparr>wt_Rating := (wt_Rating t * of_int (wt_RatingCount t) + rating) / of_int (wt_RatingCount t + 1),
                                        wt_RatingCount := wt_RatingCount t + 1\<rparr>) ts, None))"

definition GetPopular :: "gerror option \<Rightarrow> int \<Rightarrow> templates \<Rightarrow> gerror + WorkflowTemplate list" where
  "GetPopular db limit ts = wm_Search db \<lparr>tf_category = [], tf_search = [], tf_limit = limit\<rparr> ts"

definition GetByCategory :: "gerror option \<Rightarrow> string \<Rightarrow> int \<Rightarrow> templates \<Rightarrow> gerror + WorkflowTemplate list" where
  "GetByCategory db category limit ts = wm_Search db \<lparr>tf_category = category, tf_search = [], tf_limit = limit\<rparr> ts"

section \<open>Versions of workflows\<close>

text \<open>The zero time is \<open>None\<close>.\<close>

record WorkflowVersion =
  wv_ID :: string
  wv_WorkflowName :: string
  wv_Version :: string
  wv_TemplateYAML :: string
  wv_Parameters :: string
  wv_Author :: string
  wv_Changelog :: string
  wv_EffectiveAt :: "int option"
  wv_CreatedAt :: "int option"
  wv_Metadata :: string

definition fillVersion :: "int \<Rightarrow> WorkflowVersion \<Rightarrow> WorkflowVersion" where
  "fillVersion now v =
     (let v1 = (if wv_ID v = [] then v\<lparr>wv_ID := ''wv-'' @ itoa now\<rparr> else v);
          v2 = (if wv_CreatedAt v1 = None then v1\<lparr>wv_CreatedAt := Some now\<rparr> else v1)
      in if wv_EffectiveAt v2 = None then v2\<lparr>wv_EffectiveAt := wv_CreatedAt v2\<rparr> else v2)"

definition PublishWorkflowVersion :: "gerror option \<Rightarrow> int \<Rightarrow> WorkflowVersion \<Rightarrow> WorkflowVersion list \<Rightarrow> WorkflowVersion list \<times> gerror option" where
  "PublishWorkflowVersion db now v vs =
     (let w = fillVersion now v
      in case db of
           Some err \<Rightarrow> (vs, Some (Wrap ''insert workflow version: '' err))
         | None \<Rightarrow>
             if list_ex (\<lambda>u. wv_ID u = wv_ID w \<or> wv_WorkflowName u = wv_WorkflowName w \<and> wv_Version u = wv_Version w) vs
             then (vs, Some (Wrap ''insert workflow version: '' (Errorf ''UNIQUE constraint failed'')))
             else (vs @ [w], None))"

definition GetWorkflowVersion :: "gerror option \<Rightarrow> string \<Rightarrow> string \<Rightarrow> WorkflowVersion list \<Rightarrow> gerror + WorkflowVersion" where
  "GetWorkflowVersion db name version vs =
     (case db of
        Some err \<Rightarrow> Inl (Wrap ''query workflow version: '' err)
      | None \<Rightarrow> (case find (\<lambda>v. wv_WorkflowName v = name \<and> wv_Version v = version) vs of
                   None \<Rightarrow> Inl (Errorf (''workflow version not found: '' @ name @ ''@'' @ version))
                 | Some v \<Rightarrow> Inr v))"

definition createdAt :: "WorkflowVersion \<Rightarrow> int" where
  "createdAt v = (case wv_CreatedAt v of None \<Rightarrow> 0 | Some t \<Rightarrow> t)"

definition ListWorkflowVersions :: "gerror option \<Rightarrow> string \<Rightarrow> WorkflowVersion list \<Rightarrow> gerror + WorkflowVersion list" where
  "ListWorkflowVersions db name vs =
     (case db of
        Some err \<Rightarrow> Inl (Wrap ''query workflow versions: '' err)
      | None \<Rightarrow> Inr (sort_key (\<lambda>v. - createdAt v) (filter (\<lambda>v. wv_WorkflowName v = name) vs)))"

definition ListWorkflowNames :: "gerror option \<Rightarrow> WorkflowVersion list \<Rightarrow> gerror + string list" where
  "ListWorkflowNames db vs =
     (case db of
        Some err \<Rightarrow> Inl (Wrap ''query workflow names: '' err)
      | None \<Rightarrow> Inr (sort (remdups (map wv_WorkflowName vs))))"

section \<open>What the marketplace promises\<close>

text \<open>
  The contract of a template: the ratings it was given and the number of its downloads, from its publication on.
\<close>

datatype market_op =
    MPublish "gerror option" int WorkflowTemplate
  | MDownload "gerror option" string
  | MRate "gerror option" string rat

fun market_step :: "market_op \<Rightarrow> templates \<Rightarrow> templates" where
  "market_step (MPublish db now t) ts = fst (wm_Publish db now t ts)"
| "market_step (MDownload db tid) ts = fst (wm_IncrementDownloads db tid ts)"
| "market_step (MRate db tid q) ts = fst (wm_Rate db tid q ts)"

type_synonym ledger = "string \<Rightarrow> (rat list \<times> nat) option"

fun ledger_step :: "market_op \<Rightarrow> ledger \<Rightarrow> ledger" where
  "ledger_step (MPublish db now t) l = (if db = None \<and> l (wt_ID t) = None then l(wt_ID t \<mapsto> ([], 0)) else l)"
| "ledger_step (MDownload db tid) l = (case l tid of Some (rs, n) \<Rightarrow> if db = None then l(tid \<mapsto> (rs, n + 1)) else l | None \<Rightarrow> l)"
| "ledger_step (MRate db tid q) l = (case l tid of Some (rs, n) \<Rightarrow> if db = None then l(tid \<mapsto> (rs @ [q], n)) else l | None \<Rightarrow> l)"

definition accounts :: "WorkflowTemplate \<Rightarrow> rat list \<times> nat \<Rightarrow> bool" where
  "accounts t e = (case e of (rs, n) \<Rightarrow> wt_Downloads t = int n \<and> wt_RatingCount t = int (length rs) \<and> wt_Rating t = sum_list rs / of_nat (length rs))"

definition refines :: "templates \<Rightarrow> ledger \<Rightarrow> bool" where
  "refines ts l \<longleftrightarrow> (\<forall>tid. rel_option accounts (map_of ts tid) (l tid))"

lemma map_of_onTemplate: "map_of (onTemplate tid f ts) = (\<lambda>k. if k = tid then map_option f (map_of ts k) else map_of ts k)"
  unfolding onTemplate_def by (induction ts) auto

lemma accounts_new: "accounts (t\<lparr>wt_Downloads := 0, wt_Rating := 0, wt_RatingCount := 0\<rparr>) ([], 0)"
  by (simp add: accounts_def)

text \<open>The running mean is the mean.\<close>

lemma accounts_rate:
  assumes "accounts t (rs, n)"
  shows "accounts (t\<lparr>wt_Rating := (wt_Rating t * of_int (wt_RatingCount t) + q) / of_int (wt_RatingCount t + 1), wt_RatingCount := wt_RatingCount t + 1\<rparr>) (rs @ [q], n)"
proof (cases "rs = []")
  case False
  then have "(of_nat (length rs) :: rat) \<noteq> 0" by simp
  with assms have "wt_Rating t * of_int (wt_RatingCount t) = sum_list rs" by (simp add: accounts_def)
  with assms show ?thesis by (simp add: accounts_def add.commute)
qed (use assms in \<open>simp add: accounts_def\<close>)

lemma refines_on:
  assumes "refines ts l" "\<And>t e. accounts t e \<Longrightarrow> accounts (f t) (g e)"
  shows "refines (onTemplate tid f ts) (case l tid of None \<Rightarrow> l | Some e \<Rightarrow> l(tid \<mapsto> g e))"
proof -
  have rel: "rel_option accounts (map_of ts k) (l k)" for k using assms(1) by (simp add: refines_def)
  show ?thesis
  proof (cases "l tid")
    case None
    with rel [of tid] have "map_of ts tid = None" by simp
    with None rel show ?thesis by (simp add: refines_def map_of_onTemplate)
  next
    case (Some e)
    with rel [of tid] obtain t where "map_of ts tid = Some t" "accounts t e" by (auto simp: option_rel_Some2)
    with Some rel assms(2) show ?thesis by (simp add: refines_def map_of_onTemplate)
  qed
qed

lemma refines_publish:
  assumes "refines ts l"
  shows "refines (fst (wm_Publish db now t ts)) (ledger_step (MPublish db now t) l)"
proof -
  have rel: "rel_option accounts (map_of ts k) (l k)" for k using assms by (simp add: refines_def)
  have k: "has_key ts (wt_ID t) \<longleftrightarrow> l (wt_ID t) \<noteq> None"
    using rel [of "wt_ID t"] by (cases "map_of ts (wt_ID t)"; cases "l (wt_ID t)") (auto simp: has_key_def)
  show ?thesis
  proof (cases "db = None \<and> l (wt_ID t) = None")
    case True
    with k have "wt_ID t \<notin> set (keys ts)" by (simp add: has_key_iff)
    from map_of_snoc [OF this] obtain row where row: "map_of (fst (wm_Publish db now t ts)) = (map_of ts)(wt_ID t \<mapsto> row)" "accounts row ([], 0)"
      using True k by (simp add: wm_Publish_def accounts_def)
    with True rel show ?thesis by (simp add: refines_def)
  next
    case False
    with k have "fst (wm_Publish db now t ts) = ts" by (auto simp: wm_Publish_def split: option.splits)
    with False assms show ?thesis by auto
  qed
qed

lemma refines_step: "refines ts l \<Longrightarrow> refines (market_step op1 ts) (ledger_step op1 l)"
proof (cases op1)
  case (MDownload db tid)
  assume r: "refines ts l"
  have "refines (onTemplate tid (\<lambda>t. t\<lparr>wt_Downloads := wt_Downloads t + 1\<rparr>) ts) (case l tid of None \<Rightarrow> l | Some e \<Rightarrow> l(tid \<mapsto> (fst e, snd e + 1)))"
    by (rule refines_on [OF r]) (auto simp: accounts_def)
  with r MDownload show ?thesis by (cases db) (auto simp: wm_IncrementDownloads_def split: option.splits)
next
  case (MRate db tid q)
  assume r: "refines ts l"
  have "refines (onTemplate tid (\<lambda>t. t\<lparr>wt_Rating := (wt_Rating t * of_int (wt_RatingCount t) + q) / of_int (wt_RatingCount t + 1), wt_RatingCount := wt_RatingCount t + 1\<rparr>) ts)
      (case l tid of None \<Rightarrow> l | Some e \<Rightarrow> l(tid \<mapsto> (fst e @ [q], snd e)))"
    by (rule refines_on [OF r]) (metis accounts_rate prod.collapse)
  with r MRate show ?thesis by (cases db) (auto simp: wm_Rate_def split: option.splits)
next
  case (MPublish db now t)
  assume "refines ts l"
  from refines_publish [OF this, of db now t] MPublish show ?thesis by (simp only: market_step.simps)
qed

section \<open>Properties\<close>

text \<open>
  The marketplace keeps its books: after any sequence of publications, downloads and ratings, whichever of them the database refuses, the templates on offer are those that were
  published, the rating of each is the mean of the ratings given since its publication, its count their number, and its downloads the number of downloads.
\<close>

theorem marketplace_books: "refines (fold market_step ops []) (fold ledger_step ops (\<lambda>_. None))"
proof -
  have "refines (fold market_step ops ts) (fold ledger_step ops l)" if "refines ts l" for ts l
    using that by (induction ops arbitrary: ts l) (simp_all add: refines_step)
  then show ?thesis by (simp add: refines_def)
qed

text \<open>A version is found again as it was published, and never replaced.\<close>

lemma version_roundtrip:
  assumes "PublishWorkflowVersion None now v vs = (vs', None)"
  shows "GetWorkflowVersion None (wv_WorkflowName v) (wv_Version v) vs' = Inr (fillVersion now v) \<and>
    (\<exists>e. PublishWorkflowVersion None now2 v vs' = (vs', Some e))"
proof -
  have f [simp]: "wv_WorkflowName (fillVersion n v) = wv_WorkflowName v" "wv_Version (fillVersion n v) = wv_Version v" for n by (simp_all add: fillVersion_def Let_def)
  from assms have vs': "vs' = vs @ [fillVersion now v]" and no: "\<forall>u \<in> set vs. \<not> (wv_WorkflowName u = wv_WorkflowName v \<and> wv_Version u = wv_Version v)"
    by (auto simp: PublishWorkflowVersion_def Let_def list_ex_iff split: if_splits)
  then have "find (\<lambda>u. wv_WorkflowName u = wv_WorkflowName v \<and> wv_Version u = wv_Version v) vs = None" by (auto simp: find_None_iff)
  then have "find (\<lambda>u. wv_WorkflowName u = wv_WorkflowName v \<and> wv_Version u = wv_Version v) vs' = Some (fillVersion now v)"
    unfolding vs' by (induction vs) (auto split: if_splits)
  then show ?thesis by (auto simp: GetWorkflowVersion_def PublishWorkflowVersion_def Let_def vs')
qed

text \<open>A search returns the templates that match, the most downloaded first.\<close>

lemma search_sorted:
  assumes "wm_Search None f ts = Inr rows"
  shows "sorted (map (\<lambda>t. (- wt_Downloads t, - wt_Rating t)) rows) \<and> (\<forall>t \<in> set rows. templateMatches f t) \<and>
    (tf_limit f \<le> 0 \<longrightarrow> set rows = {t \<in> snd ` set ts. templateMatches f t})"
proof -
  define rows0 where "rows0 = sort_key (\<lambda>t. (- wt_Downloads t, - wt_Rating t)) (filter (templateMatches f) (map snd ts))"
  have s: "sorted (map (\<lambda>t. (- wt_Downloads t, - wt_Rating t)) rows0)" by (simp only: rows0_def sorted_sort_key)
  have set0: "set rows0 = {t \<in> snd ` set ts. templateMatches f t}" by (auto simp: rows0_def)
  have "rows = (if tf_limit f > 0 then take (nat (tf_limit f)) rows0 else rows0)" using assms by (auto simp: wm_Search_def rows0_def [symmetric] Let_def)
  moreover have "sorted (map (\<lambda>t. (- wt_Downloads t, - wt_Rating t)) (take n rows0))" for n using sorted_wrt_take [OF s, of n] by (simp only: take_map)
  moreover have "set (take n rows0) \<subseteq> set rows0" for n by (rule set_take_subset)
  ultimately show ?thesis using s set0 by (auto simp del: less_eq_prod_def)
qed

text \<open>A text without wildcards is searched as a part of the name, in either case.\<close>

lemma like_everything: "like ''%'' s"
  by (induction s) simp_all

lemma like_prefix: "\<forall>c \<in> set p. c \<noteq> CHR ''%'' \<and> c \<noteq> CHR ''_'' \<Longrightarrow> like (p @ ''%'') s \<longleftrightarrow> HasPrefix (ToLower s) (ToLower p)"
proof (induction p arbitrary: s)
  case Nil
  show ?case using like_everything [of s] by (simp add: ToLower_def HasPrefix_def)
next
  case (Cons c p)
  then have c: "c \<noteq> CHR ''%''" "c \<noteq> CHR ''_''" and IH: "like (p @ ''%'') r \<longleftrightarrow> HasPrefix (ToLower r) (ToLower p)" for r by simp_all
  show ?case
  proof (cases s)
    case Nil
    with c show ?thesis by (simp add: ToLower_def HasPrefix_def)
  next
    case (Cons d r)
    with c IH [of r] show ?thesis by (simp add: ToLower_def HasPrefix_def eq_commute [of "to_lower_char c"])
  qed
qed

lemma like_contains:
  assumes "\<forall>c \<in> set p. c \<noteq> CHR ''%'' \<and> c \<noteq> CHR ''_''"
  shows "like (''%'' @ p @ ''%'') s \<longleftrightarrow> Contains (ToLower s) (ToLower p)"
proof (induction s)
  case Nil
  show ?case using like_prefix [OF assms, of "[]"] by (auto simp: ToLower_def HasPrefix_def)
next
  case (Cons c s)
  then show ?case using like_prefix [OF assms, of "c # s"] by (auto simp: ToLower_def)
qed

end
