(* ===== verification/Backup.thy ===== *)
theory Backup
  imports Go_Paths
begin

text \<open>
  Backups, replicas and the routing of reads, \<open>pkg/backup/manager.go\<close> and \<open>region.go\<close>. The storage is an argument with a state of its own, and the storage the sources have
  (\<open>S3BackupStorage\<close>) is one of its values. Times are in seconds, a database handle is a name, and the dump, the file system, the pings and the clock are arguments.
\<close>

section \<open>Storage\<close>

record 's backup_storage =
  bs_Upload :: "string \<Rightarrow> string \<Rightarrow> 's \<Rightarrow> 's \<times> gerror option"
  bs_Download :: "string \<Rightarrow> 's \<Rightarrow> gerror + string"
  bs_List :: "string \<Rightarrow> 's \<Rightarrow> gerror + string list"
  bs_Delete :: "string \<Rightarrow> 's \<Rightarrow> 's \<times> gerror option"

text \<open>It prints what it should do.\<close>

definition S3BackupStorage :: "'s backup_storage" where
  "S3BackupStorage = \<lparr>bs_Upload = (\<lambda>path data s. (s, None)), bs_Download = (\<lambda>path s. Inl (Errorf ''S3 download not implemented'')),
     bs_List = (\<lambda>pfx s. Inl (Errorf ''S3 list not implemented'')), bs_Delete = (\<lambda>path s. (s, None))\<rparr>"

section \<open>Backups\<close>

record BackupMetadata =
  bm_ID :: string
  bm_Name :: string
  bm_Type :: string
  bm_Size :: int
  bm_Location :: string
  bm_CreatedAt :: int
  bm_Status :: string
  bm_Checksum :: string
  bm_Compressed :: bool
  bm_Encrypted :: bool

record BackupManager =
  bk_schedule :: string
  bk_retention :: int
  bk_compressionType :: string

definition NewBackupManager :: BackupManager where
  "NewBackupManager = \<lparr>bk_schedule = ''0 2 * * *'', bk_retention = 7, bk_compressionType = ''gzip''\<rparr>"

text \<open>What the outside answers: the formatted time, the dump or its error, the file system, and the driver.\<close>

record backup_env =
  be_stamp :: string
  be_unix :: int
  be_now :: int
  be_dump :: "gerror + string"
  be_stat :: "gerror option"
  be_open :: "gerror option"
  be_create :: "gerror option"
  be_copy :: "gerror option"
  be_db :: "gerror option"

definition storeMetadata :: "gerror option \<Rightarrow> BackupMetadata \<Rightarrow> BackupMetadata list \<Rightarrow> BackupMetadata list \<times> gerror option" where
  "storeMetadata db m ms =
     (case db of
        Some err \<Rightarrow> (ms, Some err)
      | None \<Rightarrow> if list_ex (\<lambda>r. bm_ID r = bm_ID m) ms then (ms, Some (Errorf ''UNIQUE constraint failed: backup_metadata.id'')) else (ms @ [m], None))"

definition getMetadata :: "gerror option \<Rightarrow> string \<Rightarrow> BackupMetadata list \<Rightarrow> gerror + BackupMetadata" where
  "getMetadata db bid ms =
     (case db of
        Some err \<Rightarrow> Inl err
      | None \<Rightarrow> (case find (\<lambda>r. bm_ID r = bid) ms of None \<Rightarrow> Inl (Errorf ''sql: no rows in result set'') | Some m \<Rightarrow> Inr m))"

definition backupName :: "string \<Rightarrow> string \<Rightarrow> string" where
  "backupName backupType stamp = ''agentruntime-'' @ backupType @ ''-'' @ stamp @ ''.sql''"

definition CreateBackup :: "'s backup_storage \<Rightarrow> backup_env \<Rightarrow> string \<Rightarrow> BackupMetadata list \<Rightarrow> 's \<Rightarrow> BackupMetadata list \<times> 's \<times> (gerror + BackupMetadata)" where
  "CreateBackup st env backupType ms s =
     (let name = backupName backupType (be_stamp env); storagePath = ''backups/'' @ name
      in case be_dump env of
           Inl err \<Rightarrow> (ms, s, Inl (Wrap ''dump database: '' err))
         | Inr data \<Rightarrow>
             (case be_stat env of
                Some err \<Rightarrow> (ms, s, Inl (Wrap ''stat file: '' err))
              | None \<Rightarrow>
                  (case be_open env of
                     Some err \<Rightarrow> (ms, s, Inl (Wrap ''open file: '' err))
                   | None \<Rightarrow>
                       (case bs_Upload st storagePath data s of
                          (s1, Some err) \<Rightarrow> (ms, s1, Inl (Wrap ''upload backup: '' err))
                        | (s1, None) \<Rightarrow>
                            (let m = \<lparr>bm_ID = ''backup-'' @ itoa (be_unix env), bm_Name = name, bm_Type = backupType, bm_Size = int (length data), bm_Location = storagePath,
                                      bm_CreatedAt = be_now env, bm_Status = ''completed'', bm_Checksum = [], bm_Compressed = True, bm_Encrypted = False\<rparr>
                             in case storeMetadata (be_db env) m ms of
                                  (ms1, Some err) \<Rightarrow> (ms1, s1, Inl (Wrap ''store metadata: '' err))
                                | (ms1, None) \<Rightarrow> (ms1, s1, Inr m))))))"

definition restoreDatabase :: "string \<Rightarrow> gerror option" where
  "restoreDatabase inputPath = Some (Errorf ''restore not implemented for this database type'')"

definition RestoreBackup :: "'s backup_storage \<Rightarrow> backup_env \<Rightarrow> string \<Rightarrow> BackupMetadata list \<Rightarrow> 's \<Rightarrow> gerror option" where
  "RestoreBackup st env bid ms s =
     (case getMetadata (be_db env) bid ms of
        Inl err \<Rightarrow> Some (Wrap ''get metadata: '' err)
      | Inr m \<Rightarrow>
          (case bs_Download st (bm_Location m) s of
             Inl err \<Rightarrow> Some (Wrap ''download backup: '' err)
           | Inr data \<Rightarrow>
               (case be_create env of
                  Some err \<Rightarrow> Some (Wrap ''create temp file: '' err)
                | None \<Rightarrow>
                    (case be_copy env of
                       Some err \<Rightarrow> Some (Wrap ''write temp file: '' err)
                     | None \<Rightarrow> map_option (Wrap ''restore database: '') (restoreDatabase (bm_Name m))))))"

text \<open>One old backup: first the stored file, then the row. \<open>fails\<close> tells whether the driver refuses to delete a row.\<close>

definition cleanupOne :: "'s backup_storage \<Rightarrow> (string \<Rightarrow> bool) \<Rightarrow> BackupMetadata \<Rightarrow> BackupMetadata list \<times> 's \<times> nat \<Rightarrow> BackupMetadata list \<times> 's \<times> nat" where
  "cleanupOne st fails m acc =
     (case acc of (ms, s, deleted) \<Rightarrow>
        (case bs_Delete st (bm_Location m) s of
           (s1, Some err) \<Rightarrow> (ms, s1, deleted)
         | (s1, None) \<Rightarrow> if fails (bm_ID m) then (ms, s1, deleted) else (filter (\<lambda>r. bm_ID r \<noteq> bm_ID m) ms, s1, deleted + 1)))"

definition isOld :: "int \<Rightarrow> BackupMetadata \<Rightarrow> bool" where
  "isOld cutoff m \<longleftrightarrow> bm_CreatedAt m < cutoff \<and> bm_Status m = ''completed''"

definition CleanupOldBackups :: "BackupManager \<Rightarrow> 's backup_storage \<Rightarrow> gerror option \<Rightarrow> (string \<Rightarrow> bool) \<Rightarrow> int \<Rightarrow> BackupMetadata list \<Rightarrow> 's \<Rightarrow> BackupMetadata list \<times> 's \<times> (gerror + nat)" where
  "CleanupOldBackups bm st db fails now ms s =
     (let cutoff = now - bk_retention bm * 86400
      in case db of
           Some err \<Rightarrow> (ms, s, Inl (Wrap ''query old backups: '' err))
         | None \<Rightarrow> (case fold (cleanupOne st fails) (filter (isOld cutoff) ms) (ms, s, 0) of (ms1, s1, deleted) \<Rightarrow> (ms1, s1, Inr deleted)))"

section \<open>Replicas\<close>

record ReplicaConfig =
  rc_Name :: string
  rc_Region :: string
  rc_Endpoint :: string
  rc_DB :: string
  rc_Priority :: int
  rc_Healthy :: bool

definition AddReplica :: "ReplicaConfig \<Rightarrow> ReplicaConfig list \<Rightarrow> ReplicaConfig list" where
  "AddReplica config rs = rs @ [config]"

text \<open>\<open>ping\<close> is the answer of each database.\<close>

definition CheckHealth :: "(string \<Rightarrow> gerror option) \<Rightarrow> ReplicaConfig list \<Rightarrow> ReplicaConfig list \<times> bool smap" where
  "CheckHealth ping rs =
     (let rs1 = map (\<lambda>r. r\<lparr>rc_Healthy := (ping (rc_DB r) = None)\<rparr>) rs
      in (rs1, fold (\<lambda>r h. AList.update (rc_Name r) (rc_Healthy r) h) rs1 []))"

fun bestReplica :: "ReplicaConfig option \<Rightarrow> ReplicaConfig list \<Rightarrow> ReplicaConfig option" where
  "bestReplica best [] = best"
| "bestReplica best (r # rs) =
     (if \<not> rc_Healthy r then bestReplica best rs
      else (case best of
              None \<Rightarrow> bestReplica (Some r) rs
            | Some b \<Rightarrow> if rc_Priority r > rc_Priority b then bestReplica (Some r) rs else bestReplica best rs))"

definition Failover :: "ReplicaConfig list \<Rightarrow> gerror + ReplicaConfig" where
  "Failover rs = (case bestReplica None rs of None \<Rightarrow> Inl (Errorf ''no healthy replicas available'') | Some b \<Rightarrow> Inr b)"

record RegionAwareRouter =
  rr_primary :: string
  rr_replicas :: "ReplicaConfig list"
  rr_regionHeader :: string

definition NewRegionAwareRouter :: "string \<Rightarrow> ReplicaConfig list \<Rightarrow> RegionAwareRouter" where
  "NewRegionAwareRouter primary replicas = \<lparr>rr_primary = primary, rr_replicas = replicas, rr_regionHeader = ''X-Region''\<rparr>"

definition RefreshHealth :: "(string \<Rightarrow> gerror option) \<Rightarrow> RegionAwareRouter \<Rightarrow> RegionAwareRouter" where
  "RefreshHealth ping r = r\<lparr>rr_replicas := map (\<lambda>p. p\<lparr>rc_Healthy := (ping (rc_DB p) = None)\<rparr>) (rr_replicas r)\<rparr>"

definition anyReader :: "RegionAwareRouter \<Rightarrow> string" where
  "anyReader r = (case find rc_Healthy (rr_replicas r) of Some p \<Rightarrow> rc_DB p | None \<Rightarrow> rr_primary r)"

definition ReaderForRegion :: "RegionAwareRouter \<Rightarrow> string \<Rightarrow> string" where
  "ReaderForRegion r region =
     (case find (\<lambda>p. rc_Region p = region \<and> rc_Healthy p) (rr_replicas r) of Some p \<Rightarrow> rc_DB p | None \<Rightarrow> anyReader r)"

text \<open>\<open>header\<close> reads a header of the request, which may be nil; \<open>trim\<close> is \<open>strings.TrimSpace\<close>.\<close>

definition Reader :: "(string \<Rightarrow> string) \<Rightarrow> RegionAwareRouter \<Rightarrow> (string \<Rightarrow> string) option \<Rightarrow> string" where
  "Reader trim r req =
     (let region = (case req of None \<Rightarrow> [] | Some header \<Rightarrow> if rr_regionHeader r \<noteq> [] then trim (header (rr_regionHeader r)) else [])
      in if region \<noteq> []
         then (case find (\<lambda>p. rc_Region p = region \<and> rc_Healthy p) (rr_replicas r) of Some p \<Rightarrow> rc_DB p | None \<Rightarrow> anyReader r)
         else anyReader r)"

definition ArchiveWAL :: "'s backup_storage \<Rightarrow> (string \<Rightarrow> gerror + string) \<Rightarrow> string \<Rightarrow> 's \<Rightarrow> 's \<times> gerror option" where
  "ArchiveWAL st openFile walPath s =
     (case openFile walPath of
        Inl err \<Rightarrow> (s, Some (Wrap ''open WAL: '' err))
      | Inr data \<Rightarrow> bs_Upload st (''wal-archive/'' @ pathBase walPath) data s)"

definition RecoverToPoint :: "int \<Rightarrow> gerror option" where
  "RecoverToPoint targetTime = Some (Errorf ''PITR not fully implemented'')"

section \<open>Facts\<close>

text \<open>No backup can be restored, whatever the storage.\<close>

lemma restore_always_fails: "RestoreBackup st env bid ms s \<noteq> None"
  by (auto simp: RestoreBackup_def restoreDatabase_def split: sum.splits option.splits)

text \<open>With the storage of the sources a backup is reported as completed although nothing was stored.\<close>

lemma s3_keeps_nothing: "fst (snd (CreateBackup S3BackupStorage env t ms s)) = s"
  by (simp add: CreateBackup_def S3BackupStorage_def Let_def split: sum.split option.split prod.split)

lemma bestReplica_best:
  assumes "bestReplica best rs = res"
  shows "case res of
      None \<Rightarrow> best = None \<and> (\<forall>r \<in> set rs. \<not> rc_Healthy r)
    | Some b \<Rightarrow> (best = Some b \<or> b \<in> set rs \<and> rc_Healthy b) \<and> (\<forall>r \<in> set rs. rc_Healthy r \<longrightarrow> rc_Priority r \<le> rc_Priority b) \<and>
        (\<forall>b0. best = Some b0 \<longrightarrow> rc_Priority b0 \<le> rc_Priority b)"
  using assms
proof (induction best rs arbitrary: res rule: bestReplica.induct)
  case (2 best r rs)
  consider (sick) "\<not> rc_Healthy r" | (first) "rc_Healthy r" "best = None" | (better) b0 where "rc_Healthy r" "best = Some b0" "rc_Priority r > rc_Priority b0"
    | (worse) b0 where "rc_Healthy r" "best = Some b0" "rc_Priority r \<le> rc_Priority b0" by (cases best) force+
  then show ?case
  proof cases
    case sick
    with 2 show ?thesis by (fastforce split: option.splits)
  next
    case first
    with "2.IH"(2) [of res] "2.prems" show ?thesis by (auto split: option.splits)
  next
    case better
    with "2.IH"(3) [of b0 res] "2.prems" show ?thesis by (auto split: option.splits)
  next
    case worse
    with "2.IH"(4) [of b0 res] "2.prems" show ?thesis by (auto split: option.splits)
  qed
qed (auto split: option.splits)

text \<open>The rows that a cleaning leaves.\<close>

lemma cleanup_fold:
  assumes "fold (cleanupOne st fails) old (ms, s, n) = (ms1, s1, k)"
  shows "set ms1 \<subseteq> set ms \<and> (\<forall>m \<in> set ms. m \<notin> set ms1 \<longrightarrow> (\<exists>o1 \<in> set old. bm_ID o1 = bm_ID m \<and> \<not> fails (bm_ID m))) \<and> k \<le> n + length old"
  using assms
proof (induction old arbitrary: ms s n)
  case (Cons o1 old)
  obtain ms2 s2 n2 where c: "cleanupOne st fails o1 (ms, s, n) = (ms2, s2, n2)" by (metis prod_cases3)
  then have c2: "set ms2 \<subseteq> set ms" "\<forall>m \<in> set ms. m \<notin> set ms2 \<longrightarrow> bm_ID o1 = bm_ID m \<and> \<not> fails (bm_ID m)" "n2 \<le> n + 1"
    by (auto simp: cleanupOne_def split: prod.splits option.splits if_splits)
  from Cons.IH [of ms2 s2 n2] Cons.prems c have IH: "set ms1 \<subseteq> set ms2" "\<forall>m \<in> set ms2. m \<notin> set ms1 \<longrightarrow> (\<exists>o1 \<in> set old. bm_ID o1 = bm_ID m \<and> \<not> fails (bm_ID m))"
    "k \<le> n2 + length old" by simp_all
  show ?case
  proof (intro conjI ballI impI)
    show "set ms1 \<subseteq> set ms" using c2(1) IH(1) by blast
    show "\<exists>o2 \<in> set (o1 # old). bm_ID o2 = bm_ID m \<and> \<not> fails (bm_ID m)" if "m \<in> set ms" "m \<notin> set ms1" for m
      using that c2(2) IH(2) by (cases "m \<in> set ms2") auto
    show "k \<le> n + length (o1 # old)" using c2(3) IH(3) by simp
  qed
qed simp

text \<open>Cleaning removes completed backups that are older than the retention, and nothing else; identifiers are unique.\<close>

theorem cleanup_keeps_recent:
  assumes "CleanupOldBackups bm st db fails now ms s = (ms1, s1, res)" "distinct (map bm_ID ms)" "m \<in> set ms"
  shows "set ms1 \<subseteq> set ms \<and> (now - bk_retention bm * 86400 \<le> bm_CreatedAt m \<or> bm_Status m \<noteq> ''completed'' \<or> fails (bm_ID m) \<or> db \<noteq> None \<longrightarrow> m \<in> set ms1)"
proof (cases db)
  case None
  let ?old = "filter (isOld (now - bk_retention bm * 86400)) ms"
  from assms(1) None obtain k where k: "fold (cleanupOne st fails) ?old (ms, s, 0) = (ms1, s1, k)" by (auto simp: CleanupOldBackups_def Let_def split: prod.splits)
  have "o1 = m" if "o1 \<in> set ?old" "bm_ID o1 = bm_ID m" for o1 using that assms(2,3) by (auto simp: distinct_map inj_on_def)
  with cleanup_fold [OF k] assms(3) None show ?thesis by (fastforce simp: isOld_def)
qed (use assms in \<open>auto simp: CleanupOldBackups_def Let_def\<close>)

text \<open>A failover picks a healthy replica of the highest priority, and fails only when there is none.\<close>

theorem failover_best:
  "case Failover rs of
     Inl err \<Rightarrow> (\<forall>r \<in> set rs. \<not> rc_Healthy r)
   | Inr b \<Rightarrow> b \<in> set rs \<and> rc_Healthy b \<and> (\<forall>r \<in> set rs. rc_Healthy r \<longrightarrow> rc_Priority r \<le> rc_Priority b)"
  using bestReplica_best [of None rs, OF refl] by (auto simp: Failover_def split: option.splits)

text \<open>A read goes to a healthy replica of the region, else to a healthy replica, else to the primary database.\<close>

definition preferredRegion :: "(string \<Rightarrow> string) \<Rightarrow> RegionAwareRouter \<Rightarrow> (string \<Rightarrow> string) option \<Rightarrow> string" where
  "preferredRegion trim r req = (case req of None \<Rightarrow> [] | Some header \<Rightarrow> if rr_regionHeader r \<noteq> [] then trim (header (rr_regionHeader r)) else [])"

definition healthyDBs :: "(ReplicaConfig \<Rightarrow> bool) \<Rightarrow> RegionAwareRouter \<Rightarrow> string set" where
  "healthyDBs P r = rc_DB ` {p \<in> set (rr_replicas r). rc_Healthy p \<and> P p}"

lemma find_healthy:
  "case find (\<lambda>p. P p \<and> rc_Healthy p) (rr_replicas r) of Some p \<Rightarrow> rc_DB p \<in> healthyDBs P r | None \<Rightarrow> healthyDBs P r = {}"
  by (auto simp: healthyDBs_def find_None_iff find_Some_iff split: option.split)

theorem reader_routes:
  "Reader trim r req \<in>
    (if preferredRegion trim r req \<noteq> [] \<and> healthyDBs (\<lambda>p. rc_Region p = preferredRegion trim r req) r \<noteq> {} then healthyDBs (\<lambda>p. rc_Region p = preferredRegion trim r req) r
     else if healthyDBs (\<lambda>p. True) r \<noteq> {} then healthyDBs (\<lambda>p. True) r else {rr_primary r})"
proof -
  have a: "anyReader r \<in> (if healthyDBs (\<lambda>p. True) r \<noteq> {} then healthyDBs (\<lambda>p. True) r else {rr_primary r})"
    using find_healthy [of "\<lambda>p. True" r] by (auto simp: anyReader_def split: option.splits)
  have "Reader trim r req = (if preferredRegion trim r req \<noteq> [] then ReaderForRegion r (preferredRegion trim r req) else anyReader r)"
    by (simp add: Reader_def ReaderForRegion_def preferredRegion_def Let_def)
  then show ?thesis using a find_healthy [of "\<lambda>p. rc_Region p = preferredRegion trim r req" r]
    by (cases "find (\<lambda>p. rc_Region p = preferredRegion trim r req \<and> rc_Healthy p) (rr_replicas r)") (auto simp: ReaderForRegion_def split: if_splits)
qed

end
