(* ===== verification/Model_Performance.thy ===== *)
theory Model_Performance
  imports Go_Prelude
begin

text \<open>
  Performance of models, \<open>pkg/mlops/collector.go\<close> and \<open>performance_store.go\<close>: samples of calls are buffered, grouped and written as snapshots, and snapshots are compared to
  find drift. Rates and ratios are exact; the number that the database gives a row is left out, since nothing reads it. The clock, the driver's errors and the order in which a loop visits a map are arguments; a formatted number is too.
\<close>

section \<open>Collecting\<close>

record PerformanceSample =
  sa_Provider :: string
  sa_Model :: string
  sa_LatencyMs :: int
  sa_Success :: bool
  sa_Timestamp :: int

record PerformanceSnapshot =
  sp_ModelID :: string
  sp_Version :: string
  sp_Provider :: string
  sp_LatencyP50Ms :: int
  sp_LatencyP95Ms :: int
  sp_LatencyP99Ms :: int
  sp_ErrorRate :: rat
  sp_Throughput :: rat
  sp_SampleCount :: int
  sp_Timestamp :: int

record Collector =
  cl_samples :: "PerformanceSample list"
  cl_capacity :: int
  cl_table :: "PerformanceSnapshot list"

definition NewCollector :: "int \<Rightarrow> Collector" where
  "NewCollector capacity = \<lparr>cl_samples = [], cl_capacity = (if capacity \<le> 0 then 1000 else capacity), cl_table = []\<rparr>"

definition percentile :: "int list \<Rightarrow> rat \<Rightarrow> int" where
  "percentile srt p =
     (if srt = [] then 0
      else (let idx = \<lceil>of_nat (length srt) * p / 100\<rceil> - 1 in srt ! nat (if idx < 0 then 0 else idx)))"

definition sampleKey :: "PerformanceSample \<Rightarrow> string" where
  "sampleKey s = sa_Provider s @ '':'' @ sa_Model s"

definition groupSamples :: "PerformanceSample list \<Rightarrow> PerformanceSample list smap" where
  "groupSamples ss = fold (\<lambda>s m. AList.update (sampleKey s) (get_list m (sampleKey s) @ [s]) m) ss []"

text \<open>The two parts of a key, at its first colon.\<close>

definition keyProvider :: "string \<Rightarrow> string" where
  "keyProvider key = (let p = takeWhile (\<lambda>c. c \<noteq> CHR '':'') key in if p = [] then ''unknown'' else p)"

definition keyModel :: "string \<Rightarrow> string" where
  "keyModel key = (let m = drop 1 (dropWhile (\<lambda>c. c \<noteq> CHR '':'') key) in if m = [] then ''unknown'' else m)"

definition snapshotOf :: "int \<Rightarrow> string \<Rightarrow> PerformanceSample list \<Rightarrow> PerformanceSnapshot" where
  "snapshotOf now key ss =
     (let latencies = sort (map sa_LatencyMs ss); errors = length (filter (\<lambda>s. \<not> sa_Success s) ss)
      in \<lparr>sp_ModelID = keyModel key, sp_Version = ''latest'', sp_Provider = keyProvider key, sp_LatencyP50Ms = percentile latencies 50, sp_LatencyP95Ms = percentile latencies 95,
          sp_LatencyP99Ms = percentile latencies 99, sp_ErrorRate = of_nat errors / of_nat (length ss), sp_Throughput = of_nat (length ss) / 60,
          sp_SampleCount = int (length ss), sp_Timestamp = now\<rparr>)"

text \<open>The inserts end at the first error; \<open>db\<close> gives the driver's answer for each key.\<close>

fun insertGroups :: "(string \<Rightarrow> gerror option) \<Rightarrow> int \<Rightarrow> PerformanceSample list smap \<Rightarrow> PerformanceSnapshot list \<Rightarrow> PerformanceSnapshot list \<times> gerror option" where
  "insertGroups db now [] t = (t, None)"
| "insertGroups db now ((key, ss) # gs) t =
     (case db key of Some err \<Rightarrow> (t, Some (Wrap ''insert snapshot: '' err)) | None \<Rightarrow> insertGroups db now gs (t @ [snapshotOf now key ss]))"

text \<open>\<open>order\<close> is the order in which the loop visits the groups.\<close>

definition flushLockedWithContext :: "(PerformanceSample list smap \<Rightarrow> PerformanceSample list smap) \<Rightarrow> (string \<Rightarrow> gerror option) \<Rightarrow> int \<Rightarrow> Collector \<Rightarrow> Collector \<times> gerror option" where
  "flushLockedWithContext order db now c =
     (if cl_samples c = [] then (c, None)
      else (case insertGroups db now (order (groupSamples (cl_samples c))) (cl_table c) of (t, err) \<Rightarrow> (c\<lparr>cl_samples := [], cl_table := t\<rparr>, err)))"

definition cl_Record :: "(PerformanceSample list smap \<Rightarrow> PerformanceSample list smap) \<Rightarrow> (string \<Rightarrow> gerror option) \<Rightarrow> int \<Rightarrow> string \<Rightarrow> string \<Rightarrow> int \<Rightarrow> bool \<Rightarrow> Collector \<Rightarrow> Collector" where
  "cl_Record order db now provider model latencyMs success c =
     (let c1 = c\<lparr>cl_samples := cl_samples c @ [\<lparr>sa_Provider = provider, sa_Model = model, sa_LatencyMs = latencyMs, sa_Success = success, sa_Timestamp = now\<rparr>]\<rparr>
      in if int (length (cl_samples c1)) \<ge> cl_capacity c1 then fst (flushLockedWithContext order db now c1) else c1)"

definition cl_Flush :: "(PerformanceSample list smap \<Rightarrow> PerformanceSample list smap) \<Rightarrow> (string \<Rightarrow> gerror option) \<Rightarrow> int \<Rightarrow> Collector \<Rightarrow> Collector \<times> gerror option" where
  "cl_Flush order db now c = flushLockedWithContext order db now c"

section \<open>Drift\<close>

record DriftResult =
  dt_ModelID :: string
  dt_Provider :: string
  dt_Drifted :: bool
  dt_LatencyDelta :: rat
  dt_ErrorDelta :: rat
  dt_Message :: string

definition GetRecentSnapshots :: "gerror option \<Rightarrow> PerformanceSnapshot list \<Rightarrow> string \<Rightarrow> string \<Rightarrow> int \<Rightarrow> gerror + PerformanceSnapshot list" where
  "GetRecentSnapshots db t provider modelID limit =
     (case db of
        Some err \<Rightarrow> Inl (Wrap ''query snapshots: '' err)
      | None \<Rightarrow> Inr (take (nat (if limit \<le> 0 then 10 else limit))
                  (sort_key (\<lambda>s. - sp_Timestamp s) (filter (\<lambda>s. sp_Provider s = provider \<and> sp_ModelID s = modelID) t))))"

definition GetBaselineSnapshot :: "gerror option \<Rightarrow> PerformanceSnapshot list \<Rightarrow> string \<Rightarrow> string \<Rightarrow> int \<Rightarrow> gerror + PerformanceSnapshot option" where
  "GetBaselineSnapshot db t provider modelID since =
     (case db of
        Some err \<Rightarrow> Inl (Wrap ''query baseline: '' err)
      | None \<Rightarrow> (case sort_key sp_Timestamp (filter (\<lambda>s. sp_Provider s = provider \<and> sp_ModelID s = modelID \<and> sp_Timestamp s \<ge> since) t) of
                   [] \<Rightarrow> Inr None
                 | s # ss \<Rightarrow> Inr (Some s)))"

definition driftOf :: "(rat \<Rightarrow> rat \<Rightarrow> string) \<Rightarrow> rat \<Rightarrow> rat \<Rightarrow> PerformanceSnapshot \<Rightarrow> PerformanceSnapshot \<Rightarrow> string \<Rightarrow> string \<Rightarrow> DriftResult" where
  "driftOf fmt latencyThreshold errorThreshold cur baseline provider modelID =
     (let ratio = (if sp_LatencyP99Ms baseline > 0 then of_int (sp_LatencyP99Ms cur) / of_int (sp_LatencyP99Ms baseline) else 1);
          errorDelta = sp_ErrorRate cur - sp_ErrorRate baseline;
          drifted = (ratio > (if latencyThreshold \<le> 0 then 3/2 else latencyThreshold) \<or> errorDelta > (if errorThreshold \<le> 0 then 1/20 else errorThreshold))
      in \<lparr>dt_ModelID = modelID, dt_Provider = provider, dt_Drifted = drifted, dt_LatencyDelta = ratio - 1, dt_ErrorDelta = errorDelta,
          dt_Message = (if drifted then fmt ratio errorDelta else ''ok'')\<rparr>)"

definition noDrift :: "string \<Rightarrow> string \<Rightarrow> string \<Rightarrow> DriftResult" where
  "noDrift modelID provider msg = \<lparr>dt_ModelID = modelID, dt_Provider = provider, dt_Drifted = False, dt_LatencyDelta = 0, dt_ErrorDelta = 0, dt_Message = msg\<rparr>"

text \<open>Times are in nanoseconds.\<close>

definition DetectDrift :: "(rat \<Rightarrow> rat \<Rightarrow> string) \<Rightarrow> gerror option \<Rightarrow> gerror option \<Rightarrow> int \<Rightarrow> PerformanceSnapshot list \<Rightarrow> string \<Rightarrow> string \<Rightarrow> rat \<Rightarrow> rat \<Rightarrow> gerror + DriftResult" where
  "DetectDrift fmt db1 db2 now t provider modelID latencyThreshold errorThreshold =
     (case GetRecentSnapshots db1 t provider modelID 5 of
        Inl err \<Rightarrow> Inl err
      | Inr [] \<Rightarrow> Inr (noDrift modelID provider ''no data'')
      | Inr (cur # rest) \<Rightarrow>
          (case GetBaselineSnapshot db2 t provider modelID (now - 7 * 86400000000000) of
             Inr (Some baseline) \<Rightarrow> Inr (driftOf fmt latencyThreshold errorThreshold cur baseline provider modelID)
           | _ \<Rightarrow> Inr (noDrift modelID provider ''no baseline'')))"

section \<open>Percentiles\<close>

text \<open>The index that \<open>percentile\<close> reads is in range.\<close>

lemma percentile_index:
  assumes "srt \<noteq> []" "0 < p" "p \<le> 100"
  obtains k where "percentile srt p = srt ! k" "k < length srt" "of_nat (length srt) * p / 100 \<le> of_nat (Suc k)" "of_nat k < of_nat (length srt) * p / 100"
proof -
  let ?n = "of_nat (length srt) :: rat" and ?c = "\<lceil>(of_nat (length srt) :: rat) * p / 100\<rceil>"
  have pos: "0 < ?n * p / 100" using assms by simp
  have le: "?n * p / 100 \<le> ?n" using assms by (simp add: field_simps)
  have c1: "1 \<le> ?c" using pos by linarith
  have "?c \<le> int (length srt)" using le by (simp add: ceiling_le_iff)
  then have lt: "nat (?c - 1) < length srt" using c1 by linarith
  have eq: "percentile srt p = srt ! nat (?c - 1)" using assms(1) c1 by (simp add: percentile_def Let_def)
  have "of_nat (Suc (nat (?c - 1))) = (of_int ?c :: rat)" using c1 by (metis Suc_nat_eq_nat_zadd1 diff_add_cancel diff_ge_0_iff_ge of_nat_nat order_trans zero_le_one add.commute)
  moreover have "?n * p / 100 \<le> of_int ?c" "of_int ?c - 1 < ?n * p / 100" by linarith+
  ultimately show thesis using that [OF eq lt] by simp
qed

lemma percentile_mono:
  assumes "sorted srt" "0 < p" "p \<le> q" "q \<le> 100"
  shows "percentile srt p \<le> percentile srt q"
proof (cases "srt = []")
  case False
  have m: "\<lceil>of_nat (length srt) * p / 100\<rceil> \<le> \<lceil>of_nat (length srt) * q / 100\<rceil>"
    using assms(3) by (intro ceiling_mono divide_right_mono mult_left_mono) simp_all
  obtain k where k: "percentile srt q = srt ! k" "k < length srt" "of_nat (length srt) * q / 100 \<le> of_nat (Suc k)" using percentile_index [OF False, of q] assms by auto
  obtain j where j: "percentile srt p = srt ! j" "j < length srt" "of_nat j < of_nat (length srt) * p / 100" using percentile_index [OF False, of p] assms by auto
  have "of_nat (length srt) * p / 100 \<le> of_nat (length srt) * q / 100" using assms(3) by (intro divide_right_mono mult_left_mono) simp_all
  with k(3) j(3) have "(of_nat j :: rat) < of_nat (Suc k)" by linarith
  then have "j \<le> k" by (simp only: of_nat_less_iff less_Suc_eq_le)
  with assms(1) j k show ?thesis by (simp add: sorted_nth_mono)
qed (simp add: percentile_def)

text \<open>The nearest rank: enough samples are at most the percentile, and with fewer it would not be so.\<close>

lemma percentile_rank:
  assumes "sorted srt" "srt \<noteq> []" "0 < p" "p \<le> 100"
  shows "percentile srt p \<in> set srt \<and> of_nat (length srt) * p / 100 \<le> of_nat (length (filter (\<lambda>x. x \<le> percentile srt p) srt))"
proof -
  obtain k where k: "percentile srt p = srt ! k" "k < length srt" "of_nat (length srt) * p / 100 \<le> of_nat (Suc k)" using percentile_index [OF assms(2-4)] by blast
  have "\<forall>x \<in> set (take (Suc k) srt). x \<le> srt ! k" using assms(1) k(2) by (auto simp: in_set_conv_nth sorted_nth_mono)
  then have "filter (\<lambda>x. x \<le> srt ! k) (take (Suc k) srt) = take (Suc k) srt" by simp
  moreover have "length (filter (\<lambda>x. x \<le> srt ! k) (take (Suc k) srt)) \<le> length (filter (\<lambda>x. x \<le> srt ! k) srt)"
    by (subst (2) append_take_drop_id [of "Suc k" srt, symmetric], subst filter_append) simp
  ultimately have "Suc k \<le> length (filter (\<lambda>x. x \<le> srt ! k) srt)" using k(2) by simp
  then have "(of_nat (Suc k) :: rat) \<le> of_nat (length (filter (\<lambda>x. x \<le> srt ! k) srt))" by (simp only: of_nat_le_iff)
  with k show ?thesis by auto
qed

section \<open>Samples and snapshots\<close>

definition groupedSamples :: "PerformanceSample list smap \<Rightarrow> int" where
  "groupedSamples m = (\<Sum>(k, ss) \<leftarrow> m. int (length ss))"

lemma grouped_update:
  "groupedSamples (AList.update k (get_list m k @ [s]) m) = groupedSamples m + 1"
proof (induction m)
  case (Cons p m)
  then show ?case by (cases p) (auto simp: groupedSamples_def get_list_def)
qed (simp add: groupedSamples_def get_list_def)

lemma grouped_all: "groupedSamples (groupSamples ss) = int (length ss)"
proof -
  have "groupedSamples (fold (\<lambda>s m. AList.update (sampleKey s) (get_list m (sampleKey s) @ [s]) m) ss m) = groupedSamples m + int (length ss)" for m
    by (induction ss arbitrary: m) (simp_all add: grouped_update)
  from this [of "[]"] show ?thesis by (simp add: groupSamples_def groupedSamples_def)
qed

lemma groups_nonempty: "(k, l) \<in> set (groupSamples ss) \<Longrightarrow> l \<noteq> []"
proof -
  have "\<forall>(k, l) \<in> set (fold (\<lambda>s m. AList.update (sampleKey s) (get_list m (sampleKey s) @ [s]) m) ss []). l \<noteq> []"
  proof (rule fold_keeps)
    fix s and m :: "PerformanceSample list smap"
    assume "\<forall>(k, l) \<in> set m. l \<noteq> []"
    with set_update_subset [of "sampleKey s" "get_list m (sampleKey s) @ [s]" m]
    show "\<forall>(k, l) \<in> set (AList.update (sampleKey s) (get_list m (sampleKey s) @ [s]) m). l \<noteq> []" by auto
  qed simp
  then show "(k, l) \<in> set (groupSamples ss) \<Longrightarrow> l \<noteq> []" by (auto simp: groupSamples_def)
qed

definition snapshotOk :: "PerformanceSnapshot \<Rightarrow> bool" where
  "snapshotOk s \<longleftrightarrow> 0 < sp_SampleCount s \<and> sp_LatencyP50Ms s \<le> sp_LatencyP95Ms s \<and> sp_LatencyP95Ms s \<le> sp_LatencyP99Ms s \<and> 0 \<le> sp_ErrorRate s \<and> sp_ErrorRate s \<le> 1"

lemma snapshotOf_ok:
  assumes "ss \<noteq> []"
  shows "snapshotOk (snapshotOf now key ss) \<and> sp_SampleCount (snapshotOf now key ss) = int (length ss)"
  using assms by (simp add: snapshotOf_def snapshotOk_def Let_def percentile_mono divide_le_eq)

lemma insertGroups_all:
  assumes "\<forall>k. db k = None"
  shows "insertGroups db now gs t = (t @ map (\<lambda>(k, ss). snapshotOf now k ss) gs, None)"
  using assms by (induction gs arbitrary: t) auto

text \<open>An insert that fails ends the loop, and what the groups after it held is nowhere any more.\<close>

lemma flush_stops_at_error:
  assumes "db k = Some err" "\<forall>(k1, l) \<in> set gs1. db k1 = None"
  shows "insertGroups db now (gs1 @ (k, ss) # gs2) t = (t @ map (\<lambda>(k, ss). snapshotOf now k ss) gs1, Some (Wrap ''insert snapshot: '' err))"
  using assms by (induction gs1 arbitrary: t) auto

lemma flush_failed_empties: "cl_samples (fst (flushLockedWithContext order db now c)) = []"
  by (simp add: flushLockedWithContext_def split: prod.split)

definition collectorOk :: "int \<Rightarrow> Collector \<Rightarrow> bool" where
  "collectorOk n c \<longleftrightarrow> 0 < cl_capacity c \<and> int (length (cl_samples c)) < cl_capacity c \<and> (\<forall>s \<in> set (cl_table c). snapshotOk s) \<and>
     (\<Sum>s \<leftarrow> cl_table c. sp_SampleCount s) + int (length (cl_samples c)) = n"

lemma flush_collects:
  assumes order: "\<forall>m. mset (order m) = mset m"
    and tab: "\<forall>s \<in> set (cl_table c). snapshotOk s" "(\<Sum>s \<leftarrow> cl_table c. sp_SampleCount s) + int (length (cl_samples c)) = n" "0 < cl_capacity c"
  shows "collectorOk n (fst (flushLockedWithContext order (\<lambda>k. None) now c))"
proof (cases "cl_samples c = []")
  case False
  let ?gs = "order (groupSamples (cl_samples c))"
  have eq: "mset ?gs = mset (groupSamples (cl_samples c))" using order by simp
  have ok: "snapshotOk (snapshotOf now k ss)" "sp_SampleCount (snapshotOf now k ss) = int (length ss)" if "(k, ss) \<in> set ?gs" for k ss
    using snapshotOf_ok [OF groups_nonempty] that mset_eq_setD [OF eq] by blast+
  have "(\<Sum>s \<leftarrow> map (\<lambda>(k, ss). snapshotOf now k ss) ?gs. sp_SampleCount s) = groupedSamples ?gs"
    unfolding groupedSamples_def map_map by (rule arg_cong [where f = sum_list], rule map_cong) (auto simp: ok)
  also have "\<dots> = int (length (cl_samples c))"
    by (subst grouped_all [symmetric]) (metis eq groupedSamples_def mset_map sum_mset_sum_list)
  finally show ?thesis
    using False tab ok by (auto simp: flushLockedWithContext_def insertGroups_all collectorOk_def)
qed (use tab in \<open>simp add: flushLockedWithContext_def collectorOk_def\<close>)

datatype collector_op = CRecord int string string int bool | CFlush int

fun collectorStep :: "(PerformanceSample list smap \<Rightarrow> PerformanceSample list smap) \<Rightarrow> collector_op \<Rightarrow> Collector \<Rightarrow> Collector" where
  "collectorStep order (CRecord now provider model latencyMs success) c = cl_Record order (\<lambda>k. None) now provider model latencyMs success c"
| "collectorStep order (CFlush now) c = fst (cl_Flush order (\<lambda>k. None) now c)"

fun isRecord :: "collector_op \<Rightarrow> bool" where
  "isRecord (CRecord now provider model latencyMs success) = True"
| "isRecord (CFlush now) = False"

lemma collectorStep_ok:
  assumes "\<forall>m. mset (order m) = mset m" "collectorOk n c"
  shows "collectorOk (n + (if isRecord a then 1 else 0)) (collectorStep order a c)"
proof (cases a)
  case (CRecord now provider model latencyMs success)
  let ?s = "\<lparr>sa_Provider = provider, sa_Model = model, sa_LatencyMs = latencyMs, sa_Success = success, sa_Timestamp = now\<rparr>"
  have "collectorOk (n + 1) (fst (flushLockedWithContext order (\<lambda>k. None) now (c\<lparr>cl_samples := cl_samples c @ [?s]\<rparr>)))"
    using assms by (intro flush_collects) (auto simp: collectorOk_def)
  with CRecord assms(2) show ?thesis by (auto simp: cl_Record_def Let_def collectorOk_def)
next
  case (CFlush now)
  have "collectorOk n (fst (flushLockedWithContext order (\<lambda>k. None) now c))" using assms by (intro flush_collects) (auto simp: collectorOk_def)
  with CFlush show ?thesis by (simp add: cl_Flush_def)
qed

section \<open>Properties\<close>

text \<open>
  No sample is counted twice or lost while the database accepts the snapshots: after any sequence of recorded calls and flushes, in whatever order the groups are visited, the
  buffer is below its capacity, the sample counts of all snapshots and the buffer add up to the calls recorded, and in every snapshot the percentiles rise and the error rate lies
  between 0 and 1.
\<close>

theorem samples_conserved:
  assumes "\<forall>m. mset (order m) = mset m"
  shows "collectorOk (int (length (filter isRecord ops))) (fold (collectorStep order) ops (NewCollector capacity))"
proof -
  have "collectorOk n c \<Longrightarrow> collectorOk (n + int (length (filter isRecord ops))) (fold (collectorStep order) ops c)" for n c
  proof (induction ops arbitrary: n c)
    case (Cons a ops)
    from Cons.IH [OF collectorStep_ok [OF assms Cons.prems, of a]] show ?case by (cases "isRecord a") (simp_all add: ac_simps)
  qed simp
  from this [of 0 "NewCollector capacity"] show ?thesis by (simp add: NewCollector_def collectorOk_def)
qed

theorem samples_conserved_witness:
  "collectorOk 3 (fold (collectorStep rev) [CRecord 1 ''a'' ''m'' 5 True, CRecord 2 ''b'' ''n'' 7 False, CRecord 3 ''a'' ''m'' 9 False, CFlush 4] (NewCollector 2))"
  using samples_conserved [of rev "[CRecord 1 ''a'' ''m'' 5 True, CRecord 2 ''b'' ''n'' 7 False, CRecord 3 ''a'' ''m'' 9 False, CFlush 4]" 2] by simp

end
