(* ===== verification/Workflow_Api.thy ===== *)
theory Workflow_Api
  imports Marketplace Debugger Approval_Queue
begin

text \<open>
  The HTTP handlers over the marketplace, the debugger and the approval queue: \<open>pkg/api/workflow.go\<close> and \<open>approvals.go\<close>. A body is what its JSON decodes to or the text of the
  error; the user of the context, the identifier, the clock and the driver's errors come with the request.
\<close>

section \<open>Requests and replies\<close>

datatype api_reply =
    ROk
  | RError int string
  | RTemplates "WorkflowTemplate list"
  | RTemplate WorkflowTemplate
  | RYaml string
  | RStarted string int
  | RDebugState "string \<times> string \<times> bool \<times> any smap \<times> Breakpoint smap \<times> string list"
  | RValue any

record workflow_api =
  wa_templates :: templates
  wa_sessions :: "DebugSession smap"

definition NewWorkflowAPI :: "templates \<Rightarrow> workflow_api" where
  "NewWorkflowAPI marketplace = \<lparr>wa_templates = marketplace, wa_sessions = []\<rparr>"

datatype ctx_user = NoUser | UserString string | UserNamed string | UserOther

fun getUserFromContext :: "ctx_user \<Rightarrow> string" where
  "getUserFromContext (UserString s) = s"
| "getUserFromContext (UserNamed s) = s"
| "getUserFromContext _ = ''anonymous''"

section \<open>Marketplace\<close>

definition ListTemplates :: "gerror option \<Rightarrow> string \<Rightarrow> string \<Rightarrow> workflow_api \<Rightarrow> api_reply" where
  "ListTemplates db category search st =
     (case wm_Search db \<lparr>tf_category = category, tf_search = search, tf_limit = 50\<rparr> (wa_templates st) of
        Inl err \<Rightarrow> RError 500 (error_string err)
      | Inr ts \<Rightarrow> RTemplates ts)"

record publish_body =
  pb_Name :: string
  pb_Description :: string
  pb_Category :: string
  pb_Tags :: "string list"
  pb_TemplateYAML :: string

definition newTemplate :: "string \<Rightarrow> ctx_user \<Rightarrow> publish_body \<Rightarrow> WorkflowTemplate" where
  "newTemplate uuid user req = \<lparr>wt_ID = uuid, wt_Name = pb_Name req, wt_Author = getUserFromContext user, wt_Description = pb_Description req, wt_Category = pb_Category req,
     wt_Tags = pb_Tags req, wt_TemplateYAML = pb_TemplateYAML req, wt_Parameters = [], wt_Downloads = 0, wt_Rating = 0, wt_RatingCount = 0, wt_Version = ''1.0.0'', wt_License = ''MIT'',
     wt_PublishedAt = 0, wt_UpdatedAt = 0, wt_Metadata = []\<rparr>"

definition PublishTemplate :: "gerror option \<Rightarrow> int \<Rightarrow> string \<Rightarrow> ctx_user \<Rightarrow> string + publish_body \<Rightarrow> workflow_api \<Rightarrow> workflow_api \<times> api_reply" where
  "PublishTemplate db now uuid user body st =
     (case body of
        Inl e \<Rightarrow> (st, RError 400 e)
      | Inr req \<Rightarrow>
          (case wm_Publish db now (newTemplate uuid user req) (wa_templates st) of
             (ts, Some err) \<Rightarrow> (st\<lparr>wa_templates := ts\<rparr>, RError 500 (error_string err))
           | (ts, None) \<Rightarrow> (st\<lparr>wa_templates := ts\<rparr>, RTemplate (newTemplate uuid user req))))"

definition GetTemplate :: "gerror option \<Rightarrow> string \<Rightarrow> workflow_api \<Rightarrow> api_reply" where
  "GetTemplate db tid st = (case wm_Get db tid (wa_templates st) of Inl err \<Rightarrow> RError 404 (error_string err) | Inr t \<Rightarrow> RTemplate t)"

definition InstallTemplate :: "gerror option \<Rightarrow> gerror option \<Rightarrow> string \<Rightarrow> workflow_api \<Rightarrow> workflow_api \<times> api_reply" where
  "InstallTemplate db db2 tid st =
     (case wm_Get db tid (wa_templates st) of
        Inl err \<Rightarrow> (st, RError 404 (error_string err))
      | Inr t \<Rightarrow>
          (case wm_IncrementDownloads db2 tid (wa_templates st) of
             (ts, Some err) \<Rightarrow> (st\<lparr>wa_templates := ts\<rparr>, RError 500 (error_string err))
           | (ts, None) \<Rightarrow> (st\<lparr>wa_templates := ts\<rparr>, RYaml (wt_TemplateYAML t))))"

definition RateTemplate :: "gerror option \<Rightarrow> string \<Rightarrow> string + rat \<Rightarrow> workflow_api \<Rightarrow> workflow_api \<times> api_reply" where
  "RateTemplate db tid body st =
     (case body of
        Inl e \<Rightarrow> (st, RError 400 e)
      | Inr rating \<Rightarrow>
          if rating < 1 \<or> rating > 5 then (st, RError 400 ''Rating must be between 1 and 5'')
          else (case wm_Rate db tid rating (wa_templates st) of
                  (ts, Some err) \<Rightarrow> (st\<lparr>wa_templates := ts\<rparr>, RError 500 (error_string err))
                | (ts, None) \<Rightarrow> (st\<lparr>wa_templates := ts\<rparr>, ROk)))"

section \<open>Debug sessions\<close>

definition CreateSession :: "string \<Rightarrow> DebugSession smap \<Rightarrow> DebugSession smap" where
  "CreateSession workflowID m = AList.update workflowID (NewDebugSession workflowID) m"

definition GetSession :: "string \<Rightarrow> DebugSession smap \<Rightarrow> DebugSession option" where
  "GetSession workflowID m = map_of m workflowID"

definition StartDebug :: "int \<Rightarrow> string \<Rightarrow> workflow_api \<Rightarrow> workflow_api \<times> api_reply" where
  "StartDebug now workflowID st = (st\<lparr>wa_sessions := CreateSession workflowID (wa_sessions st)\<rparr>, RStarted workflowID now)"

definition StopDebug :: "string \<Rightarrow> workflow_api \<Rightarrow> workflow_api \<times> api_reply" where
  "StopDebug workflowID st = (st\<lparr>wa_sessions := AList.delete workflowID (wa_sessions st)\<rparr>, ROk)"

text \<open>What the handlers share that act on a session.\<close>

definition withSession :: "(DebugSession \<Rightarrow> DebugSession) \<Rightarrow> string \<Rightarrow> workflow_api \<Rightarrow> workflow_api \<times> api_reply" where
  "withSession f workflowID st =
     (case GetSession workflowID (wa_sessions st) of
        None \<Rightarrow> (st, RError 404 ''Debug session not found'')
      | Some session \<Rightarrow> (st\<lparr>wa_sessions := AList.update workflowID (f session) (wa_sessions st)\<rparr>, ROk))"

definition api_AddBreakpoint :: "string \<Rightarrow> string + string \<times> string \<Rightarrow> workflow_api \<Rightarrow> workflow_api \<times> api_reply" where
  "api_AddBreakpoint workflowID body st =
     (case body of
        Inl e \<Rightarrow> (st, RError 400 e)
      | Inr (nodeID, condition) \<Rightarrow> withSession (AddBreakpoint nodeID condition) workflowID st)"

definition api_RemoveBreakpoint :: "string \<Rightarrow> string \<Rightarrow> workflow_api \<Rightarrow> workflow_api \<times> api_reply" where
  "api_RemoveBreakpoint workflowID nodeID st = withSession (RemoveBreakpoint nodeID) workflowID st"

definition PauseDebug :: "string \<Rightarrow> workflow_api \<Rightarrow> workflow_api \<times> api_reply" where
  "PauseDebug workflowID st = withSession (\<lambda>s. sendPause (setPaused True s)) workflowID st"

definition ResumeDebug :: "string \<Rightarrow> workflow_api \<Rightarrow> workflow_api \<times> api_reply" where
  "ResumeDebug workflowID st = withSession (\<lambda>s. sendResume (setPaused False s)) workflowID st"

definition api_StepOver :: "string \<Rightarrow> workflow_api \<Rightarrow> workflow_api \<times> api_reply" where
  "api_StepOver workflowID st = withSession StepOver workflowID st"

definition GetDebugState :: "string \<Rightarrow> workflow_api \<Rightarrow> api_reply" where
  "GetDebugState workflowID st =
     (case GetSession workflowID (wa_sessions st) of None \<Rightarrow> RError 404 ''Debug session not found'' | Some s \<Rightarrow> RDebugState (GetState s))"

section \<open>Validation and preview\<close>

definition ValidateWorkflow :: "string + any smap \<Rightarrow> api_reply" where
  "ValidateWorkflow body = (case body of Inl e \<Rightarrow> RError 400 e | Inr req \<Rightarrow> RValue (AMap [(''valid'', ABool True), (''errors'', AList []), (''warnings'', AList [])]))"

definition PreviewWorkflow :: "string + string \<Rightarrow> api_reply" where
  "PreviewWorkflow body =
     (case body of
        Inl e \<Rightarrow> RError 400 e
      | Inr yaml \<Rightarrow> RValue (AMap [(''estimated_duration'', AStr ''5m''), (''steps'', AInt 3), (''agents_required'', AList [AStr ''coder'', AStr ''reviewer''])]))"

section \<open>Approvals\<close>

text \<open>The queue is an argument: its operations as they answer this request.\<close>

definition ap_ListPending :: "gerror + ApprovalRequest list \<Rightarrow> int \<times> (string + ApprovalRequest list)" where
  "ap_ListPending res = (case res of Inl err \<Rightarrow> (500, Inl (error_string err)) | Inr l \<Rightarrow> (200, Inr l))"

definition ap_Get :: "gerror + ApprovalRequest option \<Rightarrow> int \<times> (string + ApprovalRequest)" where
  "ap_Get res = (case res of Inl err \<Rightarrow> (500, Inl (error_string err)) | Inr None \<Rightarrow> (404, Inl ''not found'') | Inr (Some r) \<Rightarrow> (200, Inr r))"

definition ap_Approve :: "('q \<Rightarrow> string \<Rightarrow> 'q \<times> gerror option) \<Rightarrow> 'q \<Rightarrow> string \<Rightarrow> 'q \<times> int \<times> string" where
  "ap_Approve approve q rid = (case approve q rid of (q1, Some err) \<Rightarrow> (q1, 500, error_string err) | (q1, None) \<Rightarrow> (q1, 200, ''approved''))"

definition ap_Deny :: "('q \<Rightarrow> string \<Rightarrow> 'q \<times> gerror option) \<Rightarrow> 'q \<Rightarrow> string \<Rightarrow> 'q \<times> int \<times> string" where
  "ap_Deny deny q rid = (case deny q rid of (q1, Some err) \<Rightarrow> (q1, 500, error_string err) | (q1, None) \<Rightarrow> (q1, 200, ''denied''))"

text \<open>An approval of a request that was denied, or that is not there, is answered with approved.\<close>

lemma approval_misreported:
  assumes "\<forall>r. mem_Get q rid = Some r \<longrightarrow> ar_Status r = ''denied''"
  shows "ap_Approve (\<lambda>q i. (mem_Approve q i, None)) q rid = (q, 200, ''approved'')"
  using assms by (auto simp: ap_Approve_def mem_Approve_def mem_decide_def mem_Get_def split: option.split)

section \<open>Sequences of requests\<close>

datatype api_request =
    QPublish "gerror option" int string ctx_user "string + publish_body"
  | QInstall "gerror option" "gerror option" string
  | QRate "gerror option" string "string + rat"
  | QStart int string
  | QStop string
  | QAddBreakpoint string "string + string \<times> string"
  | QRemoveBreakpoint string string
  | QPause string
  | QResume string
  | QStep string

fun apiStep :: "api_request \<Rightarrow> workflow_api \<Rightarrow> workflow_api \<times> api_reply" where
  "apiStep (QPublish db now uuid user body) st = PublishTemplate db now uuid user body st"
| "apiStep (QInstall db db2 tid) st = InstallTemplate db db2 tid st"
| "apiStep (QRate db tid body) st = RateTemplate db tid body st"
| "apiStep (QStart now w) st = StartDebug now w st"
| "apiStep (QStop w) st = StopDebug w st"
| "apiStep (QAddBreakpoint w body) st = api_AddBreakpoint w body st"
| "apiStep (QRemoveBreakpoint w n) st = api_RemoveBreakpoint w n st"
| "apiStep (QPause w) st = PauseDebug w st"
| "apiStep (QResume w) st = ResumeDebug w st"
| "apiStep (QStep w) st = api_StepOver w st"

fun workflowOf :: "api_request \<Rightarrow> string option" where
  "workflowOf (QStart now w) = Some w"
| "workflowOf (QStop w) = Some w"
| "workflowOf (QAddBreakpoint w body) = Some w"
| "workflowOf (QRemoveBreakpoint w n) = Some w"
| "workflowOf (QPause w) = Some w"
| "workflowOf (QResume w) = Some w"
| "workflowOf (QStep w) = Some w"
| "workflowOf _ = None"

text \<open>A rating is 0 before the first vote and on the scale afterwards.\<close>

definition onScale :: "WorkflowTemplate \<Rightarrow> bool" where
  "onScale t \<longleftrightarrow> wt_RatingCount t = 0 \<and> wt_Rating t = 0 \<or> 0 < wt_RatingCount t \<and> 1 \<le> wt_Rating t \<and> wt_Rating t \<le> 5"

lemma onScale_rate:
  assumes "onScale t" "1 \<le> q" "q \<le> 5"
  shows "onScale (t\<lparr>wt_Rating := (wt_Rating t * of_int (wt_RatingCount t) + q) / of_int (wt_RatingCount t + 1), wt_RatingCount := wt_RatingCount t + 1\<rparr>)"
proof -
  define n :: rat where "n = of_int (wt_RatingCount t)"
  define r where "r = wt_Rating t"
  have c: "0 \<le> wt_RatingCount t" using assms(1) by (auto simp: onScale_def)
  then have n: "0 \<le> n" by (simp add: n_def)
  have "n \<le> r * n" "r * n \<le> 5 * n"
    using assms(1) n by (auto simp: onScale_def n_def r_def mult_right_mono mult_le_cancel_right1)
  then have "n + 1 \<le> r * n + q" "r * n + q \<le> 5 * (n + 1)" using assms(2,3) by (simp_all add: algebra_simps)
  moreover have "0 < n + 1" using n by simp
  ultimately have "1 \<le> (r * n + q) / (n + 1)" "(r * n + q) / (n + 1) \<le> 5" by (simp_all add: pos_le_divide_eq pos_divide_le_eq)
  with c show ?thesis by (simp add: onScale_def n_def r_def)
qed

definition api_ok :: "workflow_api \<Rightarrow> bool" where
  "api_ok st \<longleftrightarrow> wf_map (wa_templates st) \<and> (\<forall>(k, t) \<in> set (wa_templates st). k = wt_ID t \<and> onScale t) \<and>
     wf_map (wa_sessions st) \<and> (\<forall>(k, d) \<in> set (wa_sessions st). ds_WorkflowID d = k)"

lemma onTemplate_ok:
  assumes "wf_map ts" "\<forall>(k, t) \<in> set ts. k = wt_ID t \<and> onScale t" "\<And>t. onScale t \<Longrightarrow> onScale (f t) \<and> wt_ID (f t) = wt_ID t"
  shows "wf_map (onTemplate tid f ts) \<and> (\<forall>(k, t) \<in> set (onTemplate tid f ts). k = wt_ID t \<and> onScale t)"
proof -
  have "keys (onTemplate tid f ts) = keys ts" by (simp add: onTemplate_def case_prod_beta)
  moreover have "k = wt_ID t \<and> onScale t" if "(k, t) \<in> set (onTemplate tid f ts)" for k t
  proof -
    from that obtain t0 where t0: "(k, t0) \<in> set ts" "t = (if k = tid then f t0 else t0)" by (auto simp: onTemplate_def)
    with assms(2) have "k = wt_ID t0" "onScale t0" by auto
    with assms(3) [of t0] t0(2) show ?thesis by simp
  qed
  ultimately show ?thesis using assms(1) by auto
qed

lemma publish_template_ok:
  assumes "wf_map ts" "\<forall>(k, t) \<in> set ts. k = wt_ID t \<and> onScale t"
  shows "wf_map (fst (wm_Publish db now t ts)) \<and> (\<forall>(k, t) \<in> set (fst (wm_Publish db now t ts)). k = wt_ID t \<and> onScale t)"
  using assms by (auto simp: wm_Publish_def onScale_def has_key_iff split: option.split)

lemma withSession_ok:
  assumes "api_ok st" "\<And>d. ds_WorkflowID (f d) = ds_WorkflowID d"
  shows "api_ok (fst (withSession f w st))"
proof (cases "map_of (wa_sessions st) w")
  case (Some d)
  then have "ds_WorkflowID d = w" using assms(1) by (auto simp: api_ok_def dest: map_of_SomeD)
  with Some assms set_update_subset [of w "f d" "wa_sessions st"] show ?thesis
    by (auto simp: withSession_def GetSession_def api_ok_def wf_map_update)
qed (use assms in \<open>simp add: withSession_def GetSession_def\<close>)

lemma templates_ok:
  "api_ok st \<Longrightarrow> wf_map ts \<Longrightarrow> \<forall>(k, t) \<in> set ts. k = wt_ID t \<and> onScale t \<Longrightarrow> api_ok (st\<lparr>wa_templates := ts\<rparr>)"
  by (simp add: api_ok_def)

lemma apiStep_ok:
  assumes "api_ok st"
  shows "api_ok (fst (apiStep req st))"
proof -
  have ts: "wf_map (wa_templates st)" "\<forall>(k, t) \<in> set (wa_templates st). k = wt_ID t \<and> onScale t" using assms by (simp_all add: api_ok_def)
  note keeps = templates_ok [OF assms]
  show ?thesis
  proof (cases req)
    case (QPublish db now uuid user body)
    show ?thesis
    proof (cases body)
      case (Inr b)
      obtain t1 e where p: "wm_Publish db now (newTemplate uuid user b) (wa_templates st) = (t1, e)" by fastforce
      from publish_template_ok [OF ts, of db now "newTemplate uuid user b"] p have "api_ok (st\<lparr>wa_templates := t1\<rparr>)" by (intro keeps) simp_all
      with QPublish Inr p show ?thesis by (cases e) (simp_all add: PublishTemplate_def)
    qed (use assms QPublish in \<open>simp add: PublishTemplate_def\<close>)
  next
    case (QInstall db db2 tid)
    have "wf_map (fst (wm_IncrementDownloads db2 tid (wa_templates st))) \<and> (\<forall>(k, t) \<in> set (fst (wm_IncrementDownloads db2 tid (wa_templates st))). k = wt_ID t \<and> onScale t)"
      using onTemplate_ok [OF ts, of "\<lambda>t. t\<lparr>wt_Downloads := wt_Downloads t + 1\<rparr>" tid] ts by (cases db2) (auto simp: wm_IncrementDownloads_def onScale_def)
    then have "api_ok (st\<lparr>wa_templates := fst (wm_IncrementDownloads db2 tid (wa_templates st))\<rparr>)" by (intro keeps) simp_all
    with assms QInstall show ?thesis by (auto simp: InstallTemplate_def split: sum.splits prod.splits option.splits)
  next
    case (QRate db tid body)
    have "wf_map (fst (wm_Rate db tid q (wa_templates st))) \<and> (\<forall>(k, t) \<in> set (fst (wm_Rate db tid q (wa_templates st))). k = wt_ID t \<and> onScale t)"
      if "1 \<le> q" "q \<le> 5" for q
      using onTemplate_ok [OF ts, of "\<lambda>t. t\<lparr>wt_Rating := (wt_Rating t * of_int (wt_RatingCount t) + q) / of_int (wt_RatingCount t + 1), wt_RatingCount := wt_RatingCount t + 1\<rparr>" tid] ts
        onScale_rate [OF _ that] by (cases db) (auto simp: wm_Rate_def)
    then have ok: "api_ok (st\<lparr>wa_templates := ts1\<rparr>)" if "wm_Rate db tid q (wa_templates st) = (ts1, e)" "1 \<le> q" "q \<le> 5" for q ts1 e
      using that by (intro keeps) force+
    with assms QRate show ?thesis by (auto simp: RateTemplate_def not_less split: sum.splits prod.splits option.splits)
  next
    case (QStart now w)
    with assms set_update_subset [of w "NewDebugSession w" "wa_sessions st"] show ?thesis
      by (auto simp: StartDebug_def CreateSession_def api_ok_def wf_map_update NewDebugSession_def)
  next
    case (QStop w)
    have "set (AList.delete w (wa_sessions st)) \<subseteq> set (wa_sessions st)" by (auto simp: AList.delete_eq)
    with assms QStop show ?thesis by (auto simp: StopDebug_def api_ok_def wf_map_delete)
  next
    case (QAddBreakpoint w body)
    with assms withSession_ok [OF assms] show ?thesis by (auto simp: api_AddBreakpoint_def AddBreakpoint_def split: sum.split)
  qed (use withSession_ok [OF assms] in \<open>auto simp: api_RemoveBreakpoint_def RemoveBreakpoint_def PauseDebug_def ResumeDebug_def sendPause_def sendResume_def setPaused_def api_StepOver_def StepOver_def\<close>)
qed

section \<open>Properties\<close>

text \<open>
  The API keeps the marketplace and the debugger in order: after any sequence of requests over an empty marketplace, whichever of them the database refuses, every template is stored once under its own
  identifier, its rating is zero without votes and between 1 and 5 with votes, and every debug session is that of the workflow it is kept for.
\<close>

theorem workflow_api_invariant: "api_ok (fold (\<lambda>req st. fst (apiStep req st)) reqs (NewWorkflowAPI []))"
proof (rule fold_keeps)
  show "api_ok (NewWorkflowAPI [])" by (simp add: api_ok_def NewWorkflowAPI_def)
qed (rule apiStep_ok)

text \<open>A request about one workflow leaves the debug sessions of the others alone.\<close>

lemma debug_isolated:
  assumes "workflowOf req \<noteq> Some w"
  shows "map_of (wa_sessions (fst (apiStep req st))) w = map_of (wa_sessions st) w"
  using assms
  by (cases req) (auto simp: PublishTemplate_def InstallTemplate_def RateTemplate_def StartDebug_def CreateSession_def StopDebug_def api_AddBreakpoint_def api_RemoveBreakpoint_def
      PauseDebug_def ResumeDebug_def api_StepOver_def withSession_def AList.delete_conv' split: sum.split prod.split option.split)

text \<open>Starting a session again throws the breakpoints of the running one away.\<close>

lemma restart_drops_breakpoints: "map_of (wa_sessions (fst (StartDebug now w st))) w = Some (NewDebugSession w)"
  by (simp add: StartDebug_def CreateSession_def)

end
