(* ===== verification/Risk_Reports.thy ===== *)
theory Risk_Reports
  imports Risk_Engine Workflow_State
begin

text \<open>
  Stored risk assessments, their statistics and the compliance reports, \<open>pkg/risk/analytics.go\<close> and \<open>compliance.go\<close>, over the tables of \<open>migrations/007_risk_scoring.sql\<close>.
  Times are nanoseconds since the zero time of package \<open>time\<close>. The driver's errors, the clock, which rows can be read back, the formats of numbers and dates, the calendar and the
  functions of the database on dates are arguments. Scores are exact. The metadata of a report are never set and left out.
\<close>

section \<open>Assessments\<close>

record assessment_row =
  aw_id :: string
  aw_action_context :: ActionContext
  aw_risk_score :: RiskScore
  aw_decision :: string
  aw_timestamp :: int
  aw_assessor_id :: string
  aw_version :: string

definition generateID :: "int \<Rightarrow> string" where
  "generateID nanos = ''risk-'' @ itoa nanos"

text \<open>The check of the table on its column \<open>decision\<close>.\<close>

definition riskDecisions :: "string list" where
  "riskDecisions = [''allow'', ''allow_with_log'', ''require_review'', ''deny'']"

definition assessmentRow :: "int \<Rightarrow> int \<Rightarrow> RiskAssessment \<Rightarrow> assessment_row" where
  "assessmentRow nanos stamp a =
     \<lparr>aw_id = generateID nanos, aw_action_context = (ra_ActionContext a)\<lparr>xc_Input := map_option json_norm_map (xc_Input (ra_ActionContext a))\<rparr>, aw_risk_score = ra_RiskScore a,
      aw_decision = ra_Decision a, aw_timestamp = stamp, aw_assessor_id = ra_AssessorID a, aw_version = ra_Version a\<rparr>"

text \<open>JSON has no form for infinities and NaN. \<open>stamp\<close> is the time of the assessment.\<close>

definition risk_Save :: "gerror option \<Rightarrow> int \<Rightarrow> int \<Rightarrow> RiskAssessment \<Rightarrow> assessment_row list \<Rightarrow> assessment_row list \<times> gerror option" where
  "risk_Save db nanos stamp a t =
     (case rk_Score (ra_RiskScore a) of
        Fin x \<Rightarrow>
          (case db of
             Some err \<Rightarrow> (t, Some err)
           | None \<Rightarrow>
               if generateID nanos \<in> set (map aw_id t) then (t, Some (Errorf ''UNIQUE constraint failed: risk_assessments.id''))
               else if ra_Decision a \<notin> set riskDecisions then (t, Some (Errorf ''CHECK constraint failed: risk_assessments''))
               else (t @ [assessmentRow nanos stamp a], None))
      | _ \<Rightarrow> (t, Some (Wrap ''marshal risk score: '' (Errorf ''json: unsupported value''))))"

definition assessmentOf :: "assessment_row \<Rightarrow> RiskAssessment \<times> int" where
  "assessmentOf r =
     (\<lparr>ra_ActionContext = aw_action_context r, ra_RiskScore = aw_risk_score r, ra_Decision = aw_decision r, ra_AssessorID = aw_assessor_id r, ra_Version = aw_version r\<rparr>, aw_timestamp r)"

definition risk_Get :: "gerror option \<Rightarrow> string \<Rightarrow> assessment_row list \<Rightarrow> gerror + (RiskAssessment \<times> int)" where
  "risk_Get db aid t =
     (case db of
        Some err \<Rightarrow> Inl err
      | None \<Rightarrow> (case filter (\<lambda>r. aw_id r = aid) t of [] \<Rightarrow> Inl (Errorf ''sql: no rows in result set'') | r # rs \<Rightarrow> Inr (assessmentOf r)))"

section \<open>Statistics\<close>

record TrendPoint =
  tr_Timestamp :: int
  tr_AverageScore :: rat
  tr_Count :: int

record AggregatedRiskStats =
  ag_Period :: string
  ag_TotalAssessments :: int
  ag_AverageScore :: rat
  ag_ByLevel :: "int smap"
  ag_ByCategory :: "rat smap"
  ag_ByTool :: "rat smap"
  ag_ByEnvironment :: "rat smap"
  ag_ByDecision :: "int smap"
  ag_TopRiskyActions :: "(RiskAssessment \<times> int) list"
  ag_TrendData :: "TrendPoint list"

text \<open>The stored scores are finite.\<close>

definition storedScore :: "assessment_row \<Rightarrow> rat" where
  "storedScore r = (case rk_Score (aw_risk_score r) of Fin x \<Rightarrow> x | _ \<Rightarrow> 0)"

definition get_rat :: "rat smap \<Rightarrow> string \<Rightarrow> rat" where
  "get_rat m k = (case map_of m k of None \<Rightarrow> 0 | Some v \<Rightarrow> v)"

definition add_rat :: "string \<Rightarrow> rat \<Rightarrow> rat smap \<Rightarrow> rat smap" where
  "add_rat k x m = AList.update k (get_rat m k + x) m"

definition addAssessment :: "assessment_row \<Rightarrow> AggregatedRiskStats \<Rightarrow> AggregatedRiskStats" where
  "addAssessment r st =
     (let tool = xc_ToolName (aw_action_context r); env = xc_Environment (aw_action_context r); s = storedScore r
      in st\<lparr>ag_ByLevel := add_int (rk_Level (aw_risk_score r)) 1 (ag_ByLevel st),
            ag_ByDecision := add_int (aw_decision r) 1 (ag_ByDecision st),
            ag_ByTool := (if tool \<noteq> [] then add_rat tool s (ag_ByTool st) else ag_ByTool st),
            ag_ByEnvironment := (if env \<noteq> [] then add_rat env s (ag_ByEnvironment st) else ag_ByEnvironment st),
            ag_ByCategory := fold (\<lambda>(category, score). add_rat category score) (rk_Breakdown (aw_risk_score r)) (ag_ByCategory st)\<rparr>)"

definition divideBy :: "nat \<Rightarrow> rat smap \<Rightarrow> rat smap" where
  "divideBy n m = map (\<lambda>(k, x). (k, x / of_nat n)) m"

definition inPeriod :: "int \<Rightarrow> int \<Rightarrow> assessment_row \<Rightarrow> bool" where
  "inPeriod start stop r \<longleftrightarrow> start \<le> aw_timestamp r \<and> aw_timestamp r \<le> stop"

definition emptyStats :: "string \<Rightarrow> AggregatedRiskStats" where
  "emptyStats period = \<lparr>ag_Period = period, ag_TotalAssessments = 0, ag_AverageScore = 0, ag_ByLevel = [], ag_ByCategory = [], ag_ByTool = [], ag_ByEnvironment = [], ag_ByDecision = [],
     ag_TopRiskyActions = [], ag_TrendData = []\<rparr>"

definition finishStats :: "assessment_row list \<Rightarrow> AggregatedRiskStats \<Rightarrow> AggregatedRiskStats" where
  "finishStats rows st =
     (let n = length rows
      in if n > 0
         then st\<lparr>ag_TotalAssessments := int n, ag_AverageScore := sum_list (map storedScore rows) / of_nat n, ag_ByCategory := divideBy n (ag_ByCategory st),
                 ag_ByTool := divideBy n (ag_ByTool st), ag_ByEnvironment := divideBy n (ag_ByEnvironment st)\<rparr>
         else st)"

text \<open>\<open>readable\<close> tells which rows the driver and the JSON decoder can read; the others are passed over.\<close>

definition statRows :: "(assessment_row \<Rightarrow> bool) \<Rightarrow> assessment_row list \<Rightarrow> int \<Rightarrow> int \<Rightarrow> assessment_row list" where
  "statRows readable t start stop = filter readable (sort_key (\<lambda>r. - aw_timestamp r) (filter (inPeriod start stop) t))"

definition risk_GetStats :: "(int \<Rightarrow> string) \<Rightarrow> (assessment_row \<Rightarrow> bool) \<Rightarrow> gerror option \<Rightarrow> assessment_row list \<Rightarrow> int \<Rightarrow> int \<Rightarrow> gerror + AggregatedRiskStats" where
  "risk_GetStats fmtDate readable db t start stop =
     (case db of
        Some err \<Rightarrow> Inl (Wrap ''query risk assessments: '' err)
      | None \<Rightarrow>
          (let rows = statRows readable t start stop
           in Inr (finishStats rows (fold addAssessment rows (emptyStats (fmtDate start @ '' to '' @ fmtDate stop))))))"

text \<open>A negative limit lets the allocation of the result panic, which is \<open>None\<close>.\<close>

definition GetTopRiskyActions :: "(assessment_row \<Rightarrow> bool) \<Rightarrow> gerror option \<Rightarrow> assessment_row list \<Rightarrow> int \<Rightarrow> rat \<Rightarrow> (gerror + (RiskAssessment \<times> int) list) option" where
  "GetTopRiskyActions readable db t limit minScore =
     (case db of
        Some err \<Rightarrow> Some (Inl (Wrap ''query risky actions: '' err))
      | None \<Rightarrow>
          if limit < 0 then None
          else Some (Inr (map assessmentOf (filter readable (take (nat limit) (sort_key (\<lambda>r. - storedScore r) (filter (\<lambda>r. minScore \<le> storedScore r) t)))))))"

definition trendFormat :: "string \<Rightarrow> string" where
  "trendFormat interval = (if interval = ''hour'' then ''%Y-%m-%d %H:00'' else if interval = ''week'' then ''%Y-%W'' else ''%Y-%m-%d'')"

text \<open>\<open>strftime\<close> is the database's function, \<open>parse\<close> is \<open>time.Parse\<close> with the layout of a day; where it fails the time is the zero time.\<close>

definition GetTrend :: "(string \<Rightarrow> int \<Rightarrow> string) \<Rightarrow> (string \<Rightarrow> int option) \<Rightarrow> gerror option \<Rightarrow> assessment_row list \<Rightarrow> int \<Rightarrow> int \<Rightarrow> string \<Rightarrow> gerror + TrendPoint list" where
  "GetTrend strftime parse db t start stop interval =
     (case db of
        Some err \<Rightarrow> Inl (Wrap ''query trend: '' err)
      | None \<Rightarrow>
          (let rows = filter (inPeriod start stop) t; period = (\<lambda>r. strftime (trendFormat interval) (aw_timestamp r))
           in Inr (map (\<lambda>p. let g = filter (\<lambda>r. period r = p) rows
                            in \<lparr>tr_Timestamp = (case parse p of None \<Rightarrow> 0 | Some ts \<Rightarrow> ts), tr_AverageScore = sum_list (map storedScore g) / of_nat (length g), tr_Count = int (length g)\<rparr>)
                     (sort (remdups (map period rows))))))"

section \<open>Reports\<close>

record ComplianceSummary =
  cs_ComplianceRate :: rat
  cs_AverageRiskScore :: rat
  cs_PolicyViolations :: int
  cs_CriticalIssues :: int
  cs_ByCategory :: "rat smap"
  cs_ByEnvironment :: "int smap"

record ComplianceFinding =
  cf_Severity :: string
  cf_Category :: string
  cf_Description :: string
  cf_Count :: int
  cf_Examples :: "string list"
  cf_Impact :: string
  cf_Remediation :: string

record ComplianceReport =
  cp_ID :: string
  cp_ReportType :: string
  cp_PeriodStart :: int
  cp_PeriodEnd :: int
  cp_GeneratedAt :: int
  cp_TotalActions :: int
  cp_HighRiskCount :: int
  cp_DeniedCount :: int
  cp_ApprovalCount :: int
  cp_Summary :: ComplianceSummary
  cp_Findings :: "ComplianceFinding list"
  cp_Recommendations :: "string list"

record report_db =
  rd_assessments :: "assessment_row list"
  rd_reports :: "ComplianceReport list"

text \<open>The verbs \<open>%.0f\<close>, \<open>%.1f\<close> and \<open>%.2f\<close>, dates and \<open>UnixMilli\<close>.\<close>

record report_formats =
  fm_0 :: "rat \<Rightarrow> string"
  fm_1 :: "rat \<Rightarrow> string"
  fm_2 :: "rat \<Rightarrow> string"
  fm_date :: "int \<Rightarrow> string"
  fm_millis :: "int \<Rightarrow> int"

definition generateReportID :: "int \<Rightarrow> string" where
  "generateReportID nanos = ''report-'' @ itoa nanos"

definition levelOf :: "RiskAssessment \<times> int \<Rightarrow> string" where
  "levelOf a = rk_Level (ra_RiskScore (fst a))"

definition exampleOf :: "(rat \<Rightarrow> string) \<Rightarrow> RiskAssessment \<times> int \<Rightarrow> string" where
  "exampleOf fmt2 a = xc_ToolName (ra_ActionContext (fst a)) @ '': '' @ fmt2 (case rk_Score (ra_RiskScore (fst a)) of Fin x \<Rightarrow> x | _ \<Rightarrow> 0)"

definition analyzeFindings :: "(rat \<Rightarrow> string) \<Rightarrow> (RiskAssessment \<times> int) list \<Rightarrow> ComplianceFinding list" where
  "analyzeFindings fmt2 as =
     (let critical = filter (\<lambda>a. levelOf a = ''critical'') as; n = int (length critical); h = int (length (filter (\<lambda>a. levelOf a = ''high'') as))
      in (if n > 0
          then [\<lparr>cf_Severity = ''critical'', cf_Category = ''high_risk_actions'', cf_Description = itoa n @ '' critical risk actions detected'', cf_Count = n,
                 cf_Examples = map (exampleOf fmt2) (take 3 critical), cf_Impact = ''Potential security or compliance violations'',
                 cf_Remediation = ''Review and update policies to prevent high-risk actions''\<rparr>]
          else []) @
         (if h > 0
          then [\<lparr>cf_Severity = ''high'', cf_Category = ''elevated_risk'', cf_Description = itoa h @ '' high risk actions detected'', cf_Count = h, cf_Examples = [],
                 cf_Impact = ''Increased exposure to security incidents'', cf_Remediation = ''Implement additional approval gates''\<rparr>]
          else []))"

definition generateRecommendations :: "ComplianceReport \<Rightarrow> string list" where
  "generateRecommendations rep =
     (let recs = (if cs_ComplianceRate (cp_Summary rep) < 4/5 then [''Compliance rate below 80% - review and update policies''] else []) @
                 (if cs_AverageRiskScore (cp_Summary rep) > 3/5 then [''Average risk score elevated - implement stricter controls''] else []) @
                 (if cp_DeniedCount rep > go_div (cp_TotalActions rep) 10 then [''High denial rate - policies may be too restrictive or agents need guidance''] else []) @
                 (if cs_CriticalIssues (cp_Summary rep) > 0 then [itoa (cs_CriticalIssues (cp_Summary rep)) @ '' critical issues detected - immediate review required''] else [])
      in if recs = [] then [''Compliance within acceptable ranges - continue monitoring''] else recs)"

text \<open>The report with its numbers, before the findings.\<close>

definition reportOf :: "int \<Rightarrow> int \<Rightarrow> string \<Rightarrow> int \<Rightarrow> int \<Rightarrow> AggregatedRiskStats \<Rightarrow> ComplianceReport" where
  "reportOf nanos now reportType start stop st =
     (let dec = get_int (ag_ByDecision st); lev = get_int (ag_ByLevel st); tot = ag_TotalAssessments st
      in \<lparr>cp_ID = generateReportID nanos, cp_ReportType = reportType, cp_PeriodStart = start, cp_PeriodEnd = stop, cp_GeneratedAt = now, cp_TotalActions = tot,
          cp_HighRiskCount = lev ''high'' + lev ''critical'', cp_DeniedCount = dec ''deny'', cp_ApprovalCount = dec ''require_review'',
          cp_Summary = \<lparr>cs_ComplianceRate = (if tot > 0 then of_int (dec ''allow'' + dec ''allow_with_log'') / of_int tot else 0), cs_AverageRiskScore = ag_AverageScore st,
             cs_PolicyViolations = dec ''deny'', cs_CriticalIssues = lev ''critical'', cs_ByCategory = ag_ByCategory st, cs_ByEnvironment = []\<rparr>,
          cp_Findings = [], cp_Recommendations = []\<rparr>)"

definition saveReport :: "gerror option \<Rightarrow> ComplianceReport \<Rightarrow> ComplianceReport list \<Rightarrow> ComplianceReport list \<times> gerror option" where
  "saveReport db rep t =
     (case db of
        Some err \<Rightarrow> (t, Some err)
      | None \<Rightarrow> if cp_ID rep \<in> set (map cp_ID t) then (t, Some (Errorf ''UNIQUE constraint failed: compliance_reports.id'')) else (t @ [rep], None))"

text \<open>The driver's errors of the three statements, the clock and what can be read.\<close>

record report_env =
  re_stats :: "gerror option"
  re_risky :: "gerror option"
  re_save :: "gerror option"
  re_nanos :: int
  re_now :: int
  re_readable :: "assessment_row \<Rightarrow> bool"

definition withFindings :: "(rat \<Rightarrow> string) \<Rightarrow> (gerror + (RiskAssessment \<times> int) list) option \<Rightarrow> ComplianceReport \<Rightarrow> ComplianceReport" where
  "withFindings fmt2 risky rep =
     (case risky of
        Some (Inr (a # as)) \<Rightarrow> (let rep1 = rep\<lparr>cp_Findings := analyzeFindings fmt2 (a # as)\<rparr> in rep1\<lparr>cp_Recommendations := generateRecommendations rep1\<rparr>)
      | _ \<Rightarrow> rep)"

definition generateReport :: "report_formats \<Rightarrow> report_env \<Rightarrow> string \<Rightarrow> int \<Rightarrow> int \<Rightarrow> report_db \<Rightarrow> report_db \<times> (gerror + ComplianceReport)" where
  "generateReport fm env reportType start stop d =
     (case risk_GetStats (fm_date fm) (re_readable env) (re_stats env) (rd_assessments d) start stop of
        Inl err \<Rightarrow> (d, Inl (Wrap ''get stats: '' err))
      | Inr st \<Rightarrow>
          (let rep = withFindings (fm_2 fm) (GetTopRiskyActions (re_readable env) (re_risky env) (rd_assessments d) 10 (7/10)) (reportOf (re_nanos env) (re_now env) reportType start stop st)
           in case saveReport (re_save env) rep (rd_reports d) of
                (t, Some err) \<Rightarrow> (d\<lparr>rd_reports := t\<rparr>, Inl (Wrap ''save report: '' err))
              | (t, None) \<Rightarrow> (d\<lparr>rd_reports := t\<rparr>, Inr rep)))"

definition dayNanos :: int where
  "dayNanos = 86400000000000"

definition GenerateDailyReport :: "report_formats \<Rightarrow> report_env \<Rightarrow> int \<Rightarrow> report_db \<Rightarrow> report_db \<times> (gerror + ComplianceReport)" where
  "GenerateDailyReport fm env date d = (let start = date - date mod dayNanos in generateReport fm env ''daily'' start (start + dayNanos) d)"

definition GenerateWeeklyReport :: "report_formats \<Rightarrow> report_env \<Rightarrow> int \<Rightarrow> report_db \<Rightarrow> report_db \<times> (gerror + ComplianceReport)" where
  "GenerateWeeklyReport fm env weekStart d = generateReport fm env ''weekly'' weekStart (weekStart + 7 * dayNanos) d"

text \<open>\<open>first\<close> is the first instant of a month of a year, a month after the twelfth being one of the next year.\<close>

definition GenerateMonthlyReport :: "(int \<Rightarrow> int \<Rightarrow> int) \<Rightarrow> report_formats \<Rightarrow> report_env \<Rightarrow> int \<Rightarrow> int \<Rightarrow> report_db \<Rightarrow> report_db \<times> (gerror + ComplianceReport)" where
  "GenerateMonthlyReport first fm env year month d = generateReport fm env ''monthly'' (first year month) (first year (month + 1)) d"

definition GenerateCustomReport :: "report_formats \<Rightarrow> report_env \<Rightarrow> int \<Rightarrow> int \<Rightarrow> report_db \<Rightarrow> report_db \<times> (gerror + ComplianceReport)" where
  "GenerateCustomReport fm env start stop d = generateReport fm env ''custom'' start stop d"

definition cr_GetReport :: "gerror option \<Rightarrow> string \<Rightarrow> report_db \<Rightarrow> gerror + ComplianceReport" where
  "cr_GetReport db rid d =
     (case db of
        Some err \<Rightarrow> Inl err
      | None \<Rightarrow> (case filter (\<lambda>r. cp_ID r = rid) (rd_reports d) of [] \<Rightarrow> Inl (Errorf ''sql: no rows in result set'') | r # rs \<Rightarrow> Inr r))"

definition zeroSummary :: ComplianceSummary where
  "zeroSummary = \<lparr>cs_ComplianceRate = 0, cs_AverageRiskScore = 0, cs_PolicyViolations = 0, cs_CriticalIssues = 0, cs_ByCategory = [], cs_ByEnvironment = []\<rparr>"

definition cr_ListReports :: "gerror option \<Rightarrow> string \<Rightarrow> int \<Rightarrow> report_db \<Rightarrow> (gerror + ComplianceReport list) option" where
  "cr_ListReports db reportType limit d =
     (case db of
        Some err \<Rightarrow> Some (Inl err)
      | None \<Rightarrow>
          if limit < 0 then None
          else Some (Inr (map (\<lambda>r. r\<lparr>cp_Summary := zeroSummary, cp_Findings := [], cp_Recommendations := []\<rparr>)
                 (take (nat limit) (sort_key (\<lambda>r. - cp_GeneratedAt r) (filter (\<lambda>r. reportType \<noteq> [] \<longrightarrow> cp_ReportType r = reportType) (rd_reports d)))))))"

section \<open>Exports\<close>

definition cr_exportCSV :: "report_formats \<Rightarrow> ComplianceReport \<Rightarrow> string" where
  "cr_exportCSV fm rep =
     ''Report ID,Type,Period Start,Period End,Total Actions,High Risk,Denied,Compliance Rate'' @ [CHR 0x0A] @
     Join [cp_ID rep, cp_ReportType rep, fm_date fm (cp_PeriodStart rep), fm_date fm (cp_PeriodEnd rep), itoa (cp_TotalActions rep), itoa (cp_HighRiskCount rep), itoa (cp_DeniedCount rep),
           fm_2 fm (cs_ComplianceRate (cp_Summary rep) * 100) @ ''%''] '','' @ [CHR 0x0A]"

definition cr_exportCEF :: "report_formats \<Rightarrow> ComplianceReport \<Rightarrow> string" where
  "cr_exportCEF fm rep =
     ''CEF:0|Unagnt|AgentRuntime|1.0|compliance_report|'' @ cp_ReportType rep @ ''|'' @ fm_0 fm (cs_ComplianceRate (cp_Summary rep) * 10) @ ''|'' @
     ''rt='' @ itoa (fm_millis fm (cp_GeneratedAt rep)) @ '' '' @
     ''msg='' @ ''Compliance report '' @ cp_ID rep @ '': '' @ itoa (cp_TotalActions rep) @ '' actions, '' @ fm_1 fm (cs_ComplianceRate (cp_Summary rep) * 100) @ ''% compliant''"

definition cr_ExportReport :: "report_formats \<Rightarrow> (ComplianceReport \<Rightarrow> gerror + string) \<Rightarrow> gerror option \<Rightarrow> string \<Rightarrow> string \<Rightarrow> report_db \<Rightarrow> gerror + string" where
  "cr_ExportReport fm marshal db rid format d =
     (case cr_GetReport db rid d of
        Inl err \<Rightarrow> Inl (Wrap ''get report: '' err)
      | Inr rep \<Rightarrow>
          if format = ''json'' then marshal rep
          else if format = ''csv'' then Inr (cr_exportCSV fm rep)
          else if format = ''cef'' then Inr (cr_exportCEF fm rep)
          else if format = ''pdf'' then Inl (Errorf ''PDF export not yet implemented'')
          else Inl (Errorf (''unsupported format: '' @ format)))"

section \<open>Counting\<close>

text \<open>The table admits only the four decisions and finite scores.\<close>

fun is_Fin :: "gofloat \<Rightarrow> bool" where
  "is_Fin (Fin x) = True"
| "is_Fin x = False"

definition rowsOk :: "assessment_row list \<Rightarrow> bool" where
  "rowsOk t \<longleftrightarrow> distinct (map aw_id t) \<and> (\<forall>r \<in> set t. aw_decision r \<in> set riskDecisions \<and> is_Fin (rk_Score (aw_risk_score r)))"

lemma risk_Save_ok: "rowsOk t \<Longrightarrow> rowsOk (fst (risk_Save db nanos stamp a t))"
  by (auto simp: rowsOk_def risk_Save_def assessmentRow_def split: gofloat.split option.split)

text \<open>What is saved under a fresh identifier is read back, with its input as JSON knows it.\<close>

lemma risk_roundtrip:
  assumes "risk_Save db nanos stamp a t = (t1, None)"
  shows "risk_Get None (generateID nanos) t1 =
     Inr (a\<lparr>ra_ActionContext := (ra_ActionContext a)\<lparr>xc_Input := map_option json_norm_map (xc_Input (ra_ActionContext a))\<rparr>\<rparr>, stamp)"
proof -
  from assms have "generateID nanos \<notin> set (map aw_id t)" "t1 = t @ [assessmentRow nanos stamp a]" by (auto simp: risk_Save_def split: gofloat.splits option.splits if_splits)
  moreover from this have "filter (\<lambda>r. aw_id r = generateID nanos) t = []" by (force simp: filter_empty_conv)
  ultimately show ?thesis by (simp add: risk_Get_def assessmentOf_def assessmentRow_def)
qed

lemma add_stats:
  "get_int (ag_ByDecision (fold addAssessment rows st)) d = get_int (ag_ByDecision st) d + int (length (filter (\<lambda>r. aw_decision r = d) rows))"
  "get_int (ag_ByLevel (fold addAssessment rows st)) l = get_int (ag_ByLevel st) l + int (length (filter (\<lambda>r. rk_Level (aw_risk_score r) = l) rows))"
  by (induction rows arbitrary: st) (simp_all add: addAssessment_def Let_def)

definition periodRows :: "report_env \<Rightarrow> int \<Rightarrow> int \<Rightarrow> report_db \<Rightarrow> assessment_row list" where
  "periodRows env start stop d = filter (\<lambda>r. inPeriod start stop r \<and> re_readable env r) (rd_assessments d)"

definition decided :: "string \<Rightarrow> assessment_row list \<Rightarrow> int" where
  "decided dec rows = int (length (filter (\<lambda>r. aw_decision r = dec) rows))"

definition levelled :: "string \<Rightarrow> assessment_row list \<Rightarrow> int" where
  "levelled lev rows = int (length (filter (\<lambda>r. rk_Level (aw_risk_score r) = lev) rows))"

lemma length_filter_sort_key: "length (filter P (filter Q (sort_key f xs))) = length (filter P (filter Q xs))"
  by (metis mset_filter mset_sort size_mset)

lemma sum_filter_sort_key: "sum_list (map g (filter Q (sort_key f xs))) = (sum_list (map g (filter Q xs)) :: rat)"
  by (metis mset_filter mset_map mset_sort sum_mset_sum_list)

lemma statRows_count:
  fixes env start stop d
  defines "rows \<equiv> statRows (re_readable env) (rd_assessments d) start stop" and "ps \<equiv> periodRows env start stop d"
  shows "length (filter P rows) = length (filter P ps)" "length rows = length ps" "sum_list (map storedScore rows) = sum_list (map storedScore ps)"
proof -
  have p: "ps = filter (re_readable env) (filter (inPeriod start stop) (rd_assessments d))" by (simp add: ps_def periodRows_def conj_commute)
  show n: "length (filter P rows) = length (filter P ps)" for P unfolding p rows_def statRows_def by (rule length_filter_sort_key)
  show "length rows = length ps" using n [of "\<lambda>r. True"] by simp
  show "sum_list (map storedScore rows) = sum_list (map storedScore ps)" unfolding p rows_def statRows_def by (rule sum_filter_sort_key)
qed

lemma stats_of_period:
  assumes "risk_GetStats fmtDate (re_readable env) db (rd_assessments d) start stop = Inr st"
  shows "ag_TotalAssessments st = int (length (periodRows env start stop d))"
    and "get_int (ag_ByDecision st) dec = decided dec (periodRows env start stop d)"
    and "get_int (ag_ByLevel st) lev = levelled lev (periodRows env start stop d)"
    and "ag_AverageScore st = sum_list (map storedScore (periodRows env start stop d)) / of_nat (length (periodRows env start stop d))"
proof -
  define rows where "rows = statRows (re_readable env) (rd_assessments d) start stop"
  define st0 where "st0 = emptyStats (fmtDate start @ '' to '' @ fmtDate stop)"
  from assms have st: "st = finishStats rows (fold addAssessment rows st0)"
    by (auto simp: risk_GetStats_def Let_def rows_def st0_def split: option.splits)
  have e: "get_int (ag_ByDecision st0) dec = 0" "get_int (ag_ByLevel st0) lev = 0" "ag_TotalAssessments st0 = 0" "ag_AverageScore st0 = 0"
    by (simp_all add: st0_def emptyStats_def get_int_def)
  note count = statRows_count [where env = env and start = start and stop = stop and d = d, folded rows_def]
  show "ag_TotalAssessments st = int (length (periodRows env start stop d))" using e by (cases rows) (simp_all add: st finishStats_def flip: count(2))
  show "get_int (ag_ByDecision st) dec = decided dec (periodRows env start stop d)" using e by (simp add: st finishStats_def Let_def add_stats decided_def flip: count(1))
  show "get_int (ag_ByLevel st) lev = levelled lev (periodRows env start stop d)" using e by (simp add: st finishStats_def Let_def add_stats levelled_def flip: count(1))
  show "ag_AverageScore st = sum_list (map storedScore (periodRows env start stop d)) / of_nat (length (periodRows env start stop d))"
    using e by (cases rows) (simp_all add: st finishStats_def flip: count(2,3))
qed

lemma decided_all:
  assumes "rowsOk (rd_assessments d)"
  shows "(let p = periodRows env start stop d in decided ''allow'' p + decided ''allow_with_log'' p + decided ''require_review'' p + decided ''deny'' p = int (length p))"
proof -
  have "\<forall>r \<in> set ps. aw_decision r \<in> set riskDecisions \<Longrightarrow>
      decided ''allow'' ps + decided ''allow_with_log'' ps + decided ''require_review'' ps + decided ''deny'' ps = int (length ps)" for ps
    by (induction ps) (auto simp: decided_def riskDecisions_def)
  with assms show ?thesis by (simp add: rowsOk_def periodRows_def)
qed

lemma share_bounds:
  assumes "0 \<le> c" "c \<le> n"
  shows "0 \<le> (if n > 0 then of_int c / of_int n else 0 :: rat)" "(if n > 0 then of_int c / of_int n else 0 :: rat) \<le> 1"
    "of_int n * (if n > 0 then of_int c / of_int n else 0) = (of_int c :: rat)"
  using assms by (auto simp: divide_le_eq)

lemma levelled_le: "levelled ''high'' ps + levelled ''critical'' ps \<le> int (length ps)" "0 \<le> levelled l ps"
  by (induction ps) (auto simp: levelled_def)

section \<open>Properties\<close>

definition sameNumbers :: "ComplianceReport \<Rightarrow> ComplianceReport \<Rightarrow> bool" where
  "sameNumbers a b \<longleftrightarrow> (\<exists>fs rs. a = b\<lparr>cp_Findings := fs, cp_Recommendations := rs\<rparr>)"

lemma sameNumbersI: "sameNumbers rep rep" "sameNumbers (rep\<lparr>cp_Findings := fs, cp_Recommendations := rs\<rparr>) rep"
  unfolding sameNumbers_def by (rule exI [of _ "cp_Findings rep"], rule exI [of _ "cp_Recommendations rep"], simp) blast

lemma withFindings_numbers: "sameNumbers (withFindings fmt2 risky rep) rep"
  by (simp add: withFindings_def Let_def sameNumbersI split: option.split sum.split list.split)

text \<open>
  A compliance report accounts for the assessments of its period: a report that is returned counts the readable assessments between its two times, those denied, sent to review and
  allowed add up to them, the compliance rate is the allowed share and lies between 0 and 1, critical issues are among the high-risk actions and these among all, and the report that
  is read back under its identifier is the one returned.
\<close>

theorem compliance_report_accounts:
  assumes "generateReport fm env reportType start stop d = (d1, Inr rep)" and "rowsOk (rd_assessments d)"
  shows "cp_TotalActions rep = int (length (periodRows env start stop d)) \<and>
    of_int (cp_TotalActions rep) * cs_ComplianceRate (cp_Summary rep) + of_int (cp_DeniedCount rep + cp_ApprovalCount rep) = (of_int (cp_TotalActions rep) :: rat) \<and>
    0 \<le> cs_ComplianceRate (cp_Summary rep) \<and> cs_ComplianceRate (cp_Summary rep) \<le> 1 \<and>
    cs_CriticalIssues (cp_Summary rep) \<le> cp_HighRiskCount rep \<and> cp_HighRiskCount rep \<le> cp_TotalActions rep \<and>
    cr_GetReport None (cp_ID rep) d1 = Inr rep \<and> rd_assessments d1 = rd_assessments d"
proof -
  define ps where "ps = periodRows env start stop d"
  obtain st where st: "risk_GetStats (fm_date fm) (re_readable env) (re_stats env) (rd_assessments d) start stop = Inr st"
    and num: "sameNumbers rep (reportOf (re_nanos env) (re_now env) reportType start stop st)"
    and new: "cp_ID rep \<notin> set (map cp_ID (rd_reports d))" and d1: "d1 = d\<lparr>rd_reports := rd_reports d @ [rep]\<rparr>"
    using assms(1) withFindings_numbers by (fastforce simp: generateReport_def saveReport_def Let_def split: sum.splits option.splits if_splits)
  note stats = stats_of_period [OF st, folded ps_def]
  have rep: "cp_TotalActions rep = int (length ps)" "cp_DeniedCount rep = decided ''deny'' ps" "cp_ApprovalCount rep = decided ''require_review'' ps"
    "cp_HighRiskCount rep = levelled ''high'' ps + levelled ''critical'' ps" "cs_CriticalIssues (cp_Summary rep) = levelled ''critical'' ps"
    "cs_ComplianceRate (cp_Summary rep) = (if length ps > 0 then of_int (decided ''allow'' ps + decided ''allow_with_log'' ps) / of_int (int (length ps)) else 0)"
    using num unfolding sameNumbers_def by (auto simp: reportOf_def Let_def stats)
  have total: "decided ''allow'' ps + decided ''allow_with_log'' ps + decided ''require_review'' ps + decided ''deny'' ps = int (length ps)"
    using decided_all [OF assms(2), of env start stop] by (simp add: ps_def Let_def)
  have pos: "0 \<le> decided x ps" for x by (simp add: decided_def)
  define c where "c = decided ''allow'' ps + decided ''allow_with_log'' ps"
  have c: "0 \<le> c" "c \<le> int (length ps)" "c + (decided ''deny'' ps + decided ''require_review'' ps) = int (length ps)"
    using total pos [of "''allow''"] pos [of "''allow_with_log''"] pos [of "''require_review''"] pos [of "''deny''"] by (simp_all add: c_def)
  have r: "cs_ComplianceRate (cp_Summary rep) = (if int (length ps) > 0 then of_int c / of_int (int (length ps)) else 0)"
    unfolding rep(6) c_def by (simp only: of_nat_0_less_iff)
  note rate = share_bounds [OF c(1,2), folded r]
  have "of_int (int (length ps)) * cs_ComplianceRate (cp_Summary rep) + of_int (decided ''deny'' ps + decided ''require_review'' ps) = (of_int (int (length ps)) :: rat)"
    unfolding rate(3) of_int_add [symmetric] by (simp only: c(3))
  moreover have "filter (\<lambda>r. cp_ID r = cp_ID rep) (rd_reports d) = []" using new by (simp add: filter_empty_conv image_iff) metis
  ultimately show ?thesis using rate(1,2) levelled_le(1) [of ps] levelled_le(2) [of "''high''" ps]
    unfolding ps_def [symmetric] rep(1-5) by (simp add: d1 cr_GetReport_def)
qed

definition demoRow :: "string \<Rightarrow> rat \<Rightarrow> string \<Rightarrow> string \<Rightarrow> int \<Rightarrow> assessment_row" where
  "demoRow rid x level dec ts =
     \<lparr>aw_id = rid, aw_action_context = \<lparr>xc_ToolName = ''http_request'', xc_Input = None, xc_Permissions = [], xc_AgentID = ''a'', xc_Environment = ''dev'', xc_RecentActions = 0,
        xc_PreviousDenials = 0, xc_UserApproved = False\<rparr>,
      aw_risk_score = \<lparr>rk_Score = Fin x, rk_Level = level, rk_Factors = [], rk_Breakdown = [(''security'', x)], rk_Confidence = 1\<rparr>, aw_decision = dec, aw_timestamp = ts,
      aw_assessor_id = ''e'', aw_version = ''1''\<rparr>"

definition demoReports :: report_db where
  "demoReports = \<lparr>rd_assessments = [demoRow ''1'' (1/5) ''low'' ''allow'' 5, demoRow ''2'' (9/10) ''critical'' ''deny'' 7, demoRow ''3'' (1/2) ''medium'' ''allow_with_log'' 9], rd_reports = []\<rparr>"

definition demoFormats :: report_formats where
  "demoFormats = \<lparr>fm_0 = \<lambda>x. ''0'', fm_1 = \<lambda>x. ''0.0'', fm_2 = \<lambda>x. ''0.00'', fm_date = itoa, fm_millis = \<lambda>t. t div 1000000\<rparr>"

definition demoReportEnv :: report_env where
  "demoReportEnv = \<lparr>re_stats = None, re_risky = None, re_save = None, re_nanos = 1, re_now = 20, re_readable = \<lambda>r. True\<rparr>"

theorem compliance_report_accounts_witness:
  "\<exists>d1 rep. generateReport demoFormats demoReportEnv ''custom'' 5 9 demoReports = (d1, Inr rep) \<and> cp_TotalActions rep = 3 \<and> cp_DeniedCount rep = 1 \<and>
     3 * cs_ComplianceRate (cp_Summary rep) + 1 = 3 \<and> cr_GetReport None (cp_ID rep) d1 = Inr rep"
proof -
  obtain d1 rep where g: "generateReport demoFormats demoReportEnv ''custom'' 5 9 demoReports = (d1, Inr rep)" "cp_DeniedCount rep = 1" "cp_ApprovalCount rep = 0"
    by (simp add: generateReport_def risk_GetStats_def statRows_def finishStats_def addAssessment_def emptyStats_def demoReports_def demoRow_def demoFormats_def demoReportEnv_def inPeriod_def
        reportOf_def withFindings_def GetTopRiskyActions_def analyzeFindings_def generateRecommendations_def levelOf_def assessmentOf_def storedScore_def add_rat_def get_rat_def
        add_int_def get_int_def divideBy_def saveReport_def Let_def)
  moreover have "rowsOk (rd_assessments demoReports)" by (simp add: rowsOk_def demoReports_def demoRow_def riskDecisions_def)
  moreover have "length (periodRows demoReportEnv 5 9 demoReports) = 3" by (simp add: periodRows_def demoReports_def demoRow_def demoReportEnv_def inPeriod_def)
  ultimately show ?thesis using compliance_report_accounts [of demoFormats demoReportEnv "''custom''" 5 9 demoReports d1 rep] by (intro exI [of _ d1] exI [of _ rep]) auto
qed

text \<open>The findings of a report are those of the riskiest actions of all times, not of its period.\<close>

lemma findings_ignore_period:
  assumes "generateReport fm env rt1 a1 b1 d = (d1, Inr r1)" "generateReport fm env rt2 a2 b2 d = (d2, Inr r2)"
  shows "cp_Findings r1 = cp_Findings r2"
  using assms
  by (auto simp: generateReport_def withFindings_def reportOf_def Let_def split: sum.splits option.splits prod.splits list.splits)

text \<open>An assessment at the end of a day is in the period of that day and in that of the next.\<close>

lemma midnight_counted_twice:
  assumes "dayNanos dvd aw_timestamp r"
  shows "inPeriod (aw_timestamp r - dayNanos) (aw_timestamp r - dayNanos + dayNanos) r \<and> inPeriod (aw_timestamp r) (aw_timestamp r + dayNanos) r"
  by (simp add: inPeriod_def dayNanos_def)

end
