(* ===== verification/Api_Handlers.thy ===== *)
theory Api_Handlers
  imports Risk_Reports Cost_Tracker Sla_Monitor Policy_Audit Model_Performance Replay_Replayer Policy_Engine Http_Server Ab_Test
begin

text \<open>
  The HTTP handlers over costs, service levels, audits, model performance, compliance reports, snapshots, policies and A/B tests: \<open>pkg/api/analytics.go\<close>, \<open>compliance.go\<close>,
  \<open>policy_playground.go\<close>, \<open>replay.go\<close>, \<open>replay_store.go\<close> and \<open>abtest.go\<close>. A reply is an error with its status or what is encoded; parameters of a query are strings, empty where they
  are missing. The clock, the driver's errors, decoded bodies and the parsing of times and YAML are arguments.
\<close>

section \<open>Replies and parameters\<close>

type_synonym 'a reply = "(int \<times> string) + 'a"

definition answer :: "int \<Rightarrow> gerror + 'a \<Rightarrow> 'a reply" where
  "answer status res = (case res of Inl err \<Rightarrow> Inl (status, error_string err) | Inr x \<Rightarrow> Inr x)"

text \<open>The times of a range end now; durations are in nanoseconds.\<close>

definition rangeHours :: "string \<Rightarrow> int" where
  "rangeHours timeRange = (if timeRange = ''1h'' then 1 else if timeRange = ''7d'' then 7 * 24 else if timeRange = ''30d'' then 30 * 24 else 24)"

definition parseTimeRange :: "int \<Rightarrow> string \<Rightarrow> int \<times> int" where
  "parseTimeRange now timeRange = (now - rangeHours timeRange * 3600000000000, now)"

definition queryLimit :: "int \<Rightarrow> string \<Rightarrow> int" where
  "queryLimit dflt s = (if s = [] then dflt else (case Atoi s of Some l \<Rightarrow> if l > 0 then l else dflt | None \<Rightarrow> dflt))"

section \<open>Costs\<close>

record costs_reply =
  cy_total :: rat
  cy_by_agent :: "(string \<times> rat \<times> int) list"
  cy_start :: int
  cy_end :: int

definition api_GetCosts :: "CostTracker \<Rightarrow> gerror option \<Rightarrow> gerror option \<Rightarrow> int \<Rightarrow> string \<Rightarrow> string \<Rightarrow> costs_reply reply" where
  "api_GetCosts ct db1 db2 now tenantID timeRange =
     (case parseTimeRange now timeRange of (start, stop) \<Rightarrow>
        (case GetTotalCost ct db1 tenantID start stop of
           Inl err \<Rightarrow> Inl (500, error_string err)
         | Inr tot \<Rightarrow>
             (case GetCostsByAgent ct db2 tenantID start stop of
                Inl err \<Rightarrow> Inl (500, error_string err)
              | Inr byAgent \<Rightarrow> Inr \<lparr>cy_total = tot, cy_by_agent = map (\<lambda>(a, c). (a, c, 0)) byAgent, cy_start = start, cy_end = stop\<rparr>)))"

definition api_GetCostsByAgent :: "CostTracker \<Rightarrow> gerror option \<Rightarrow> int \<Rightarrow> string \<Rightarrow> string \<Rightarrow> rat smap reply" where
  "api_GetCostsByAgent ct db now tenantID timeRange = (case parseTimeRange now timeRange of (start, stop) \<Rightarrow> answer 500 (GetCostsByAgent ct db tenantID start stop))"

definition api_GetCostsByTenant :: "CostTracker \<Rightarrow> gerror option \<Rightarrow> int \<Rightarrow> string \<Rightarrow> rat smap reply" where
  "api_GetCostsByTenant ct db now timeRange = (case parseTimeRange now timeRange of (start, stop) \<Rightarrow> answer 500 (GetCostsByTenant ct db start stop))"

definition api_GetCostBreakdown :: "CostTracker \<Rightarrow> gerror option \<Rightarrow> int \<Rightarrow> string \<Rightarrow> string \<Rightarrow> string \<Rightarrow> string \<Rightarrow> CostEntry list reply" where
  "api_GetCostBreakdown ct db now tenantID timeRange workflowID model =
     (case parseTimeRange now timeRange of (start, stop) \<Rightarrow>
        answer 500 (GetCostBreakdown ct db tenantID start stop (if workflowID \<noteq> [] \<or> model \<noteq> [] then Some (workflowID, model) else None)))"

definition api_GetCostsByWorkflow :: "CostTracker \<Rightarrow> gerror option \<Rightarrow> int \<Rightarrow> string \<Rightarrow> string \<Rightarrow> rat smap reply" where
  "api_GetCostsByWorkflow ct db now tenantID timeRange = (case parseTimeRange now timeRange of (start, stop) \<Rightarrow> answer 500 (GetCostsByWorkflow ct db tenantID start stop))"

section \<open>Models\<close>

text \<open>The store is optional; the second part of a reply is the message.\<close>

definition api_GetModelPerformance :: "PerformanceSnapshot list option \<Rightarrow> gerror option \<Rightarrow> string \<Rightarrow> string \<Rightarrow> string \<Rightarrow> (PerformanceSnapshot list \<times> string) reply" where
  "api_GetModelPerformance store db provider modelID limitStr =
     (case store of
        None \<Rightarrow> Inr ([], ''model performance store not configured'')
      | Some t \<Rightarrow>
          (case GetRecentSnapshots db t (if provider = [] then ''openai'' else provider) (if modelID = [] then ''gpt-4'' else modelID) (queryLimit 10 limitStr) of
             Inl err \<Rightarrow> Inl (500, error_string err)
           | Inr ss \<Rightarrow> Inr (ss, [])))"

definition api_GetModelDrift :: "(rat \<Rightarrow> rat \<Rightarrow> string) \<Rightarrow> PerformanceSnapshot list option \<Rightarrow> gerror option \<Rightarrow> gerror option \<Rightarrow> int \<Rightarrow> string \<Rightarrow> string \<Rightarrow> DriftResult reply" where
  "api_GetModelDrift fmt store db1 db2 now provider modelID =
     (case store of
        None \<Rightarrow> Inr (noDrift [] [] ''model performance store not configured'')
      | Some t \<Rightarrow> answer 500 (DetectDrift fmt db1 db2 now t (if provider = [] then ''openai'' else provider) (if modelID = [] then ''gpt-4'' else modelID) (3/2) (1/20)))"

section \<open>Service levels\<close>

definition api_GenerateSLAReport :: "(rat \<Rightarrow> string) \<Rightarrow> (int \<Rightarrow> string) \<Rightarrow> gerror option \<Rightarrow> gerror option \<Rightarrow> int \<Rightarrow> SLAMonitor \<Rightarrow> string \<Rightarrow> string \<Rightarrow> string \<Rightarrow> SLAReport reply" where
  "api_GenerateSLAReport fmt2 fmtD db1 db2 now m serviceID tenantID timeRange =
     (case parseTimeRange now timeRange of (start, stop) \<Rightarrow> answer 500 (GenerateReport fmt2 fmtD db1 db2 now m serviceID tenantID start stop))"

definition api_SetSLATarget :: "string + SLATarget \<Rightarrow> SLAMonitor \<Rightarrow> SLAMonitor \<times> string reply" where
  "api_SetSLATarget body m = (case body of Inl e \<Rightarrow> (m, Inl (400, e)) | Inr target \<Rightarrow> (SetTarget target m, Inr ''created''))"

section \<open>Audit\<close>

definition api_GetPolicyDenials :: "audit_table option \<Rightarrow> gerror option \<Rightarrow> int \<Rightarrow> string \<Rightarrow> string \<Rightarrow> PolicyAuditLog list reply" where
  "api_GetPolicyDenials logger db now timeRange limitStr =
     (case logger of
        None \<Rightarrow> Inr []
      | Some t \<Rightarrow>
          (case parseTimeRange now timeRange of (start, stop) \<Rightarrow>
             answer 500 (audit_Query db t \<lparr>fl_AgentName = [], fl_PolicyName = [], fl_Decision = ''deny'', fl_MinRiskScore = 0, fl_StartTime = start, fl_EndTime = stop,
               fl_Limit = queryLimit 50 limitStr\<rparr>)))"

definition noStats :: AuditStats where
  "noStats = \<lparr>st_Total = 0, st_Allowed = 0, st_Denied = 0, st_Alerts = 0, st_AvgRiskScore = 0, st_MaxRiskScore = 0, st_TopDenyReasons = []\<rparr>"

text \<open>Without a logger the reply has only the counts of denied and allowed actions, zero, and no reasons.\<close>

definition api_GetPolicyDenialsStats :: "audit_table option \<Rightarrow> gerror option \<Rightarrow> gerror option \<Rightarrow> int \<Rightarrow> string \<Rightarrow> AuditStats reply" where
  "api_GetPolicyDenialsStats logger db1 db2 now timeRange =
     (case logger of
        None \<Rightarrow> Inr noStats
      | Some t \<Rightarrow> (case parseTimeRange now timeRange of (start, stop) \<Rightarrow> answer 500 (Policy_Audit.GetStats db1 db2 t start stop)))"

text \<open>The reply is the content type and the data.\<close>

definition contentType :: "string \<Rightarrow> string" where
  "contentType format = (if format = ''cef'' then ''application/cef'' else if format = ''csv'' then ''text/csv'' else ''application/json'')"

definition api_ExportAuditLogs ::
    "(int \<Rightarrow> int) \<Rightarrow> (int \<Rightarrow> string) \<Rightarrow> (rat \<Rightarrow> string) \<Rightarrow> (PolicyAuditLog list \<Rightarrow> gerror + string) \<Rightarrow> audit_table option \<Rightarrow> gerror option \<Rightarrow> int \<Rightarrow>
     string \<Rightarrow> string \<Rightarrow> string \<Rightarrow> string \<Rightarrow> string \<Rightarrow> string \<Rightarrow> (string \<times> string) reply" where
  "api_ExportAuditLogs millis rfc fmt2 marshal logger db now format0 timeRange agentName policyName decision limitStr =
     (case logger of
        None \<Rightarrow> Inl (501, ''audit logging not enabled'')
      | Some t \<Rightarrow>
          (let format = (if format0 = [] then ''json'' else format0)
           in case parseTimeRange now timeRange of (start, stop) \<Rightarrow>
                (case audit_Export millis rfc fmt2 marshal db t
                        \<lparr>fl_AgentName = agentName, fl_PolicyName = policyName, fl_Decision = decision, fl_MinRiskScore = 0, fl_StartTime = start, fl_EndTime = stop,
                         fl_Limit = queryLimit 10000 limitStr\<rparr> format of
                   Inl err \<Rightarrow> Inl (400, error_string err)
                 | Inr data \<Rightarrow> Inr (contentType format, data))))"

section \<open>Compliance\<close>

record report_request =
  rq_Type :: string
  rq_Date :: string
  rq_Start :: string
  rq_End :: string

text \<open>
  \<open>ok\<close> tells whether the body was decoded, \<open>day\<close> and \<open>rfc\<close> are \<open>time.Parse\<close> with the two layouts, \<open>ym\<close> the year and the month of a time. A date that cannot be parsed is the zero
  time.
\<close>

definition requestDate :: "(string \<Rightarrow> int option) \<Rightarrow> int \<Rightarrow> string \<Rightarrow> int" where
  "requestDate day now date = (if date = [] then now else (case day date of None \<Rightarrow> 0 | Some ts \<Rightarrow> ts))"

definition api_GenerateReport ::
    "(string \<Rightarrow> int option) \<Rightarrow> (string \<Rightarrow> int option) \<Rightarrow> (int \<Rightarrow> int \<times> int) \<Rightarrow> (int \<Rightarrow> int \<Rightarrow> int) \<Rightarrow> report_formats \<Rightarrow> report_env \<Rightarrow> int \<Rightarrow> bool \<Rightarrow> report_request \<Rightarrow> report_db \<Rightarrow>
     report_db \<times> ComplianceReport reply" where
  "api_GenerateReport day rfc ym first fm env now ok req d =
     (let typ = (if ok then rq_Type req else ''daily''); date = requestDate day now (rq_Date req); done1 = (\<lambda>(d1, res). (d1, answer 500 res))
      in if typ = ''daily'' then done1 (GenerateDailyReport fm env date d)
         else if typ = ''weekly'' then done1 (GenerateWeeklyReport fm env date d)
         else if typ = ''monthly'' then done1 (GenerateMonthlyReport first fm env (fst (ym date)) (snd (ym date)) d)
         else if typ = ''custom''
              then (case (rfc (rq_Start req), rfc (rq_End req)) of
                      (Some start, Some stop) \<Rightarrow> done1 (GenerateCustomReport fm env start stop d)
                    | _ \<Rightarrow> (d, Inl (400, ''custom requires start and end in RFC3339'')))
         else done1 (GenerateDailyReport fm env now d))"

definition api_ListReports :: "gerror option \<Rightarrow> string \<Rightarrow> string \<Rightarrow> report_db \<Rightarrow> ComplianceReport list reply option" where
  "api_ListReports db reportType limitStr d = map_option (answer 500) (cr_ListReports db reportType (queryLimit 20 limitStr) d)"

definition api_GetReport :: "gerror option \<Rightarrow> string \<Rightarrow> report_db \<Rightarrow> ComplianceReport reply" where
  "api_GetReport db rid d = answer 500 (cr_GetReport db rid d)"

definition api_ExportReport :: "report_formats \<Rightarrow> (ComplianceReport \<Rightarrow> gerror + string) \<Rightarrow> gerror option \<Rightarrow> string \<Rightarrow> string \<Rightarrow> report_db \<Rightarrow> (string \<times> string) reply" where
  "api_ExportReport fm marshal db rid format0 d =
     (let format = (if format0 = [] then ''json'' else format0)
      in case cr_ExportReport fm marshal db rid format d of
           Inl err \<Rightarrow> Inl (400, error_string err)
         | Inr data \<Rightarrow> Inr (contentType format, data))"

section \<open>Policy playground\<close>

record CheckRequest =
  cq_PolicyYAML :: string
  cq_Tool :: string
  cq_Input :: "any smap"
  cq_Environment :: string
  cq_RiskScore :: rat

definition HandlePolicyCheck :: "cel_lib \<Rightarrow> (string \<Rightarrow> string + PolicyConfig) \<Rightarrow> string \<Rightarrow> string + CheckRequest \<Rightarrow> CheckResult reply" where
  "HandlePolicyCheck cel yaml meth body =
     (if meth \<noteq> ''POST'' then Inl (405, ''method not allowed'')
      else (case body of
              Inl e \<Rightarrow> Inl (400, ''invalid JSON: '' @ e)
            | Inr req \<Rightarrow>
                if cq_PolicyYAML req = [] then Inl (400, ''policy_yaml is required'')
                else if cq_Tool req = [] then Inl (400, ''tool is required'')
                else (case yaml (cq_PolicyYAML req) of
                        Inl e \<Rightarrow> Inl (400, ''invalid policy YAML: '' @ e)
                      | Inr cfg \<Rightarrow>
                          Inr (Check cel cfg \<lparr>ctx_Tool = cq_Tool req, ctx_Input = cq_Input req, ctx_Environment = cq_Environment req,
                                 ctx_RiskScore = (if cq_RiskScore req = 0 then 3/10 else cq_RiskScore req)\<rparr>))))"

section \<open>Snapshots\<close>

text \<open>The store in memory is a map; a loop over it stops when the limit is reached, after at least one snapshot.\<close>

type_synonym memory_snapshots = "RunSnapshot smap"

definition msn_Save :: "RunSnapshot \<Rightarrow> memory_snapshots \<Rightarrow> memory_snapshots" where
  "msn_Save sn m = AList.update (sn_ID sn) sn m"

definition msn_LoadSnapshot :: "memory_snapshots \<Rightarrow> string \<Rightarrow> gerror + RunSnapshot" where
  "msn_LoadSnapshot m sid = (case map_of m sid of None \<Rightarrow> Inl (Errorf ''snapshot not found'') | Some sn \<Rightarrow> Inr sn)"

definition shortMetadata :: "RunSnapshot \<Rightarrow> SnapshotMetadata" where
  "shortMetadata sn = \<lparr>mt_ID = sn_ID sn, mt_RunID = sn_RunID sn, mt_AgentName = sn_AgentName sn, mt_Goal = sn_Goal sn, mt_CreatedAt = sn_CreatedAt sn, mt_Duration = 0,
     mt_FinalState = sn_FinalState sn, mt_SizeBytes = 0, mt_Compressed = False\<rparr>"

definition msn_ListSnapshots :: "memory_snapshots \<Rightarrow> string \<Rightarrow> int \<Rightarrow> SnapshotMetadata list" where
  "msn_ListSnapshots m runID limit = map shortMetadata (take (nat (max 1 limit)) (filter (\<lambda>sn. runID = [] \<or> sn_RunID sn = runID) (map snd m)))"

definition api_ListSnapshots :: "(string \<Rightarrow> int \<Rightarrow> gerror + SnapshotMetadata list) \<Rightarrow> string \<Rightarrow> string \<Rightarrow> SnapshotMetadata list reply" where
  "api_ListSnapshots lst runID limitStr = answer 500 (lst runID (queryLimit 50 limitStr))"

definition api_GetSnapshot :: "(string \<Rightarrow> gerror + RunSnapshot) \<Rightarrow> string \<Rightarrow> RunSnapshot reply" where
  "api_GetSnapshot load sid = (case load sid of Inl err \<Rightarrow> Inl (404, ''snapshot not found'') | Inr sn \<Rightarrow> Inr sn)"

definition api_SeekSnapshot :: "(string \<Rightarrow> gerror + RunSnapshot) \<Rightarrow> string \<Rightarrow> int option \<Rightarrow> StateAt reply" where
  "api_SeekSnapshot load sid body =
     (case load sid of
        Inl err \<Rightarrow> Inl (404, ''snapshot not found'')
      | Inr sn \<Rightarrow> Inr (GetStateAt (NewReplayCursor sn) (case body of None \<Rightarrow> 0 | Some sq \<Rightarrow> sq)))"

section \<open>A/B tests\<close>

record ab_body =
  bd_Name :: string
  bd_ModelA :: string
  bd_ModelB :: string
  bd_TrafficSplit :: rat

definition abapi_Create :: "string \<Rightarrow> string + ab_body \<Rightarrow> ab_store \<Rightarrow> ab_store \<times> ABTest reply" where
  "abapi_Create uuid body s =
     (case body of
        Inl e \<Rightarrow> (s, Inl (400, e))
      | Inr req \<Rightarrow>
          if bd_ModelA req = [] \<or> bd_ModelB req = [] then (s, Inl (400, ''model_a and model_b required''))
          else (case ab_Create s uuid (bd_Name req) (bd_ModelA req) (bd_ModelB req) (if bd_TrafficSplit req < 0 \<or> bd_TrafficSplit req > 1 then 1/2 else bd_TrafficSplit req) of
                  (s1, t) \<Rightarrow> (s1, Inr t)))"

definition abapi_List :: "ab_store \<Rightarrow> ABTest list reply" where
  "abapi_List s = Inr (ab_List s)"

definition abapi_Patch :: "string \<Rightarrow> string + bool option \<Rightarrow> ab_store \<Rightarrow> ab_store \<times> string reply" where
  "abapi_Patch tid body s =
     (case body of
        Inl e \<Rightarrow> (s, Inl (400, e))
      | Inr active \<Rightarrow> (case active of None \<Rightarrow> s | Some a \<Rightarrow> SetActive s tid a, Inr ''updated''))"

text \<open>The numbers of both models are constant zeros; the reply is the test's models.\<close>

definition abapi_Results :: "string \<Rightarrow> ab_store \<Rightarrow> (string \<times> string \<times> string) reply" where
  "abapi_Results tid s = (case ab_Get s tid of None \<Rightarrow> Inl (404, ''not found'') | Some t \<Rightarrow> Inr (tid, ab_ModelA t, ab_ModelB t))"

section \<open>Facts\<close>

lemma sum_at_one: "distinct ks \<Longrightarrow> a \<in> set ks \<Longrightarrow> sum_list (map (\<lambda>k. (if a = k then c else 0) + f k) ks) = c + (sum_list (map f ks) :: rat)"
proof (induction ks)
  case (Cons k ks)
  have "a \<notin> set ks \<Longrightarrow> sum_list (map (\<lambda>k. (if a = k then c else 0) + f k) ks) = sum_list (map f ks)" by (intro arg_cong [where f = sum_list] map_cong) auto
  with Cons show ?case by auto
qed simp

lemma sums_of_groups:
  assumes "distinct ks" "set (map key es) \<subseteq> set ks"
  shows "sum_list (map (\<lambda>k. sumCost (filter (\<lambda>e. key e = k) es)) ks) = sumCost es"
  using assms(2)
proof (induction es)
  case (Cons e es)
  have "sumCost (filter (\<lambda>x. key x = k) (e # es)) = (if key e = k then ca_TotalCost (snd e) else 0) + sumCost (filter (\<lambda>x. key x = k) es)" for k by (simp add: sumCost_def)
  with Cons sum_at_one [OF assms(1), of "key e" "ca_TotalCost (snd e)"] show ?case by (simp add: sumCost_def)
qed (simp add: sumCost_def)

lemma groupSum_total: "sum_list (map snd (groupSum key es)) = sumCost es"
  using sums_of_groups [of "remdups (map key es)" key es] by (simp add: groupSum_def comp_def)

text \<open>Without a tenant the total is that of all tenants, but only entries without a tenant are listed by agent.\<close>

lemma costs_without_tenant:
  assumes "\<forall>e \<in> set (ct_db ct). ca_TenantID (snd e) \<noteq> []" "api_GetCosts ct db1 db2 now [] timeRange = Inr r"
  shows "cy_by_agent r = [] \<and> cy_total r = sumCost (filter (inRange (cy_start r) (cy_end r)) (ct_db ct))"
proof -
  have "filter (\<lambda>e. ca_TenantID (snd e) = [] \<and> inRange a b e) (ct_db ct) = []" for a b using assms(1) by (auto simp: filter_empty_conv)
  with assms(2) show ?thesis
    by (auto simp: api_GetCosts_def parseTimeRange_def GetTotalCost_def GetCostsByAgent_def groupSum_def split: sum.splits option.splits)
qed

text \<open>A report that is not there is answered as an error of the server, and a date that cannot be read is taken for the first day of the year one.\<close>

lemma unknown_report: "rid \<notin> set (map cp_ID (rd_reports d)) \<Longrightarrow> api_GetReport None rid d = Inl (500, ''sql: no rows in result set'')"
proof -
  assume "rid \<notin> set (map cp_ID (rd_reports d))"
  then have "filter (\<lambda>r. cp_ID r = rid) (rd_reports d) = []" by (auto simp: filter_empty_conv)
  then show ?thesis by (simp add: api_GetReport_def answer_def cr_GetReport_def)
qed

lemma unreadable_date:
  assumes "rq_Type req = ''daily''" "rq_Date req \<noteq> []" "day (rq_Date req) = None"
  shows "api_GenerateReport day rfc ym first fm env now True req d = (case generateReport fm env ''daily'' 0 dayNanos d of (d1, res) \<Rightarrow> (d1, answer 500 res))"
  using assms by (simp add: api_GenerateReport_def requestDate_def GenerateDailyReport_def)

lemma patch_unknown: "map_of s tid = None \<Longrightarrow> abapi_Patch tid (Inr active) s = (s, Inr ''updated'')"
  by (simp add: abapi_Patch_def SetActive_def split: option.split)

section \<open>Properties\<close>

text \<open>
  The costs page adds up: for a tenant, the costs listed by agent are those of different agents and their sum is the total shown above them, over exactly the stated time.
\<close>

theorem costs_page_adds_up:
  assumes "api_GetCosts ct db1 db2 now tenantID timeRange = Inr r" "tenantID \<noteq> []"
  shows "sum_list (map (\<lambda>(a, c, n). c) (cy_by_agent r)) = cy_total r \<and> distinct (map fst (cy_by_agent r)) \<and> cy_end r = now \<and> cy_end r - cy_start r = rangeHours timeRange * 3600000000000"
proof -
  define es where "es = filter (\<lambda>e. ca_TenantID (snd e) = tenantID \<and> inRange (now - rangeHours timeRange * 3600000000000) now e) (ct_db ct)"
  have r: "r = \<lparr>cy_total = sumCost es, cy_by_agent = map (\<lambda>(a, c). (a, c, 0)) (groupSum (\<lambda>e. ca_AgentID (snd e)) es), cy_start = now - rangeHours timeRange * 3600000000000, cy_end = now\<rparr>"
    using assms by (auto simp: api_GetCosts_def parseTimeRange_def GetTotalCost_def GetCostsByAgent_def es_def split: option.splits)
  have "sum_list (map (\<lambda>(a, c, n). c) (cy_by_agent r)) = sum_list (map snd (groupSum (\<lambda>e. ca_AgentID (snd e)) es))" by (simp add: r comp_def case_prod_beta')
  moreover have "map fst (cy_by_agent r) = remdups (map (\<lambda>e. ca_AgentID (snd e)) es)" by (simp add: r groupSum_def comp_def)
  ultimately show ?thesis by (simp add: groupSum_total r)
qed

datatype ab_request = ACreate string "string + ab_body" | APatch string "string + bool option"

fun abStep :: "ab_request \<Rightarrow> ab_store \<Rightarrow> ab_store" where
  "abStep (ACreate uuid body) s = fst (abapi_Create uuid body s)"
| "abStep (APatch tid body) s = fst (abapi_Patch tid body s)"

definition abOk :: "ab_store \<Rightarrow> bool" where
  "abOk s \<longleftrightarrow> wf_map s \<and> (\<forall>(k, t) \<in> set s. ab_ID t = k \<and> ab_ModelA t \<noteq> [] \<and> ab_ModelB t \<noteq> [] \<and> 0 \<le> ab_TrafficSplit t \<and> ab_TrafficSplit t \<le> 1)"

lemma abOk_update:
  assumes "abOk s" "ab_ID t = k" "ab_ModelA t \<noteq> []" "ab_ModelB t \<noteq> []" "0 \<le> ab_TrafficSplit t" "ab_TrafficSplit t \<le> 1"
  shows "abOk (AList.update k t s)"
  using assms set_update_subset [of k t s] by (auto simp: abOk_def wf_map_update)

text \<open>
  Whatever the requests, every A/B test that the API keeps is stored once under its identifier, names two models and sends a share between 0 and 1 to the second one.
\<close>

theorem ab_api_invariant: "abOk (fold abStep reqs [])"
proof (rule fold_keeps)
  fix req s
  assume ok: "abOk s"
  show "abOk (abStep req s)"
  proof (cases req)
    case (ACreate uuid body)
    with ok show ?thesis by (auto simp: abapi_Create_def ab_Create_def Let_def intro!: abOk_update split: sum.split)
  next
    case (APatch tid body)
    have "abOk (SetActive s tid a)" for a
    proof (cases "map_of s tid")
      case (Some t)
      then have "(tid, t) \<in> set s" by (rule map_of_SomeD)
      with ok Some show ?thesis by (auto simp: SetActive_def abOk_def [of s] intro!: abOk_update)
    qed (use ok in \<open>simp add: SetActive_def\<close>)
    with APatch ok show ?thesis by (auto simp: abapi_Patch_def split: sum.split option.split)
  qed
qed (simp add: abOk_def)

end
