(* ===== verification/Tool_Plugins.thy ===== *)
theory Tool_Plugins
  imports Go_Paths Tool_Sources
begin

text \<open>
  Plug-ins of tools: \<open>pkg/tool/plugin.go\<close>, \<open>wasm.go\<close>, \<open>discovery.go\<close> and \<open>schema.go\<close>. Opening a Go plug-in, the WebAssembly runtime, the schema library, YAML and the file system are
  arguments: what they answer for a path. The two loaders promise the same contract, the locale \<open>plugin_store\<close>.
\<close>

section \<open>The contract of a loader\<close>

definition pluginKey :: "string \<Rightarrow> string \<Rightarrow> string" where
  "pluginKey name version = name @ ''@'' @ version"

text \<open>\<open>put\<close> stores a loaded tool under the key made of its name and version; \<open>load\<close> either stores what it read or leaves the table alone.\<close>

locale plugin_store =
  fixes nameOf :: "'t \<Rightarrow> string" and versionOf :: "'t \<Rightarrow> string"
    and load :: "'s \<Rightarrow> 't smap \<Rightarrow> 't smap \<times> gerror option" and lookup :: "string \<Rightarrow> string \<Rightarrow> 't smap \<Rightarrow> gerror + 't" and unload :: "'u \<Rightarrow> string \<Rightarrow> string \<Rightarrow> 't smap \<Rightarrow> 't smap \<times> gerror option"
  assumes load_cases: "(\<exists>e. load src m = (m, Some e)) \<or> (\<exists>t. load src m = (AList.update (pluginKey (nameOf t) (versionOf t)) t m, None))"
    and lookup_found: "lookup n v m = Inr t \<longleftrightarrow> map_of m (pluginKey n v) = Some t"
    and unload_cases: "fst (unload u n v m) = m \<or> fst (unload u n v m) = AList.delete (pluginKey n v) m"
    and unload_done: "unload u n v m = (m1, None) \<Longrightarrow> map_of m (pluginKey n v) \<noteq> None \<and> m1 = AList.delete (pluginKey n v) m"
begin

definition keyed :: "'t smap \<Rightarrow> bool" where
  "keyed m \<longleftrightarrow> wf_map m \<and> (\<forall>(k, t) \<in> set m. k = pluginKey (nameOf t) (versionOf t))"

lemma keyed_load: "keyed m \<Longrightarrow> keyed (fst (load src m))"
proof -
  assume ok: "keyed m"
  consider e where "load src m = (m, Some e)" | t where "load src m = (AList.update (pluginKey (nameOf t) (versionOf t)) t m, None)" using load_cases by blast
  then show ?thesis
  proof cases
    case 2
    with ok set_update_subset [of "pluginKey (nameOf t) (versionOf t)" t m] show ?thesis by (auto simp: keyed_def wf_map_update)
  qed (simp add: ok)
qed

lemma keyed_delete: "keyed m \<Longrightarrow> keyed (AList.delete k m)"
proof -
  assume ok: "keyed m"
  have "set (AList.delete k m) \<subseteq> set m" by (auto simp: AList.delete_eq)
  with ok show ?thesis by (auto simp: keyed_def wf_map_delete)
qed

lemma keyed_unload: "keyed m \<Longrightarrow> keyed (fst (unload u n v m))"
  using unload_cases [of u n v m] keyed_delete [of m "pluginKey n v"] by metis

text \<open>What is looked up has the name and version asked for, up to the ambiguity of the key.\<close>

lemma lookup_key: "keyed m \<Longrightarrow> lookup n v m = Inr t \<Longrightarrow> pluginKey (nameOf t) (versionOf t) = pluginKey n v"
  unfolding lookup_found by (auto simp: keyed_def dest: map_of_SomeD)

lemma unloaded_gone: "unload u n v m = (m1, None) \<Longrightarrow> lookup n v m1 \<noteq> Inr t"
  by (drule unload_done) (simp add: lookup_found AList.delete_conv')

end

section \<open>Go plug-ins\<close>

record PluginTool =
  pt_name :: string
  pt_version :: string
  pt_pluginPath :: string

text \<open>What is found in a file: it does not open, has no symbol \<open>NewTool\<close>, has one of another type, or a constructor of a tool with a name and a version.\<close>

datatype go_plugin = NotOpened gerror | NoSymbol gerror | OtherType | Constructor string string

definition NewPluginTool :: "(string \<Rightarrow> go_plugin) \<Rightarrow> string \<Rightarrow> gerror + PluginTool" where
  "NewPluginTool files path =
     (case files path of
        NotOpened err \<Rightarrow> Inl (Wrap ''open plugin: '' err)
      | NoSymbol err \<Rightarrow> Inl (Wrap ''plugin must export NewTool function: '' err)
      | OtherType \<Rightarrow> Inl (Errorf ''NewTool must be func() Tool'')
      | Constructor n v \<Rightarrow> Inr \<lparr>pt_name = n, pt_version = v, pt_pluginPath = path\<rparr>)"

definition LoadPlugin :: "(string \<Rightarrow> go_plugin) \<times> string \<Rightarrow> PluginTool smap \<Rightarrow> PluginTool smap \<times> gerror option" where
  "LoadPlugin src m =
     (case NewPluginTool (fst src) (snd src) of
        Inl err \<Rightarrow> (m, Some err)
      | Inr t \<Rightarrow> (AList.update (pluginKey (pt_name t) (pt_version t)) t m, None))"

definition GetPlugin :: "string \<Rightarrow> string \<Rightarrow> PluginTool smap \<Rightarrow> gerror + PluginTool" where
  "GetPlugin name version m =
     (case map_of m (pluginKey name version) of None \<Rightarrow> Inl (Errorf (''plugin '' @ pluginKey name version @ '' not found'')) | Some t \<Rightarrow> Inr t)"

definition ListPlugins :: "PluginTool smap \<Rightarrow> string list" where
  "ListPlugins m = keys m"

definition UnloadPlugin :: "string \<Rightarrow> string \<Rightarrow> PluginTool smap \<Rightarrow> PluginTool smap \<times> gerror option" where
  "UnloadPlugin name version m =
     (case map_of m (pluginKey name version) of
        None \<Rightarrow> (m, Some (Errorf (''plugin '' @ pluginKey name version @ '' not found'')))
      | Some t \<Rightarrow> (AList.delete (pluginKey name version) m, None))"

definition ReloadPlugin :: "(string \<Rightarrow> go_plugin) \<times> string \<Rightarrow> string \<Rightarrow> string \<Rightarrow> PluginTool smap \<Rightarrow> PluginTool smap \<times> gerror option" where
  "ReloadPlugin src name version m = LoadPlugin src (AList.delete (pluginKey name version) m)"

interpretation gp: plugin_store pt_name pt_version LoadPlugin GetPlugin "\<lambda>u :: unit. UnloadPlugin"
  by unfold_locales (auto simp: LoadPlugin_def GetPlugin_def UnloadPlugin_def split: sum.splits option.splits)

section \<open>WebAssembly tools\<close>

record WASMToolMetadata =
  we_Name :: string
  we_Version :: string
  we_InputSchema :: "string option"
  we_Permissions :: "(string \<times> bool) list"

record WASMTool =
  wz_name :: string
  wz_version :: string
  wz_wasmPath :: string
  wz_inputSchema :: "string option"
  wz_permissions :: "(string \<times> bool) list"
  wz_exportsExecute :: bool

text \<open>The steps of the runtime: its system interface, the file, the module, which exports a function \<open>execute\<close> or not.\<close>

record wasm_env =
  wv_wasi :: "gerror option"
  wv_read :: "gerror option"
  wv_module :: "gerror + bool"

definition NewWASMTool :: "wasm_env \<Rightarrow> string \<Rightarrow> WASMToolMetadata \<Rightarrow> gerror + WASMTool" where
  "NewWASMTool env path meta =
     (case wv_wasi env of
        Some err \<Rightarrow> Inl (Wrap ''instantiate WASI: '' err)
      | None \<Rightarrow>
          (case wv_read env of
             Some err \<Rightarrow> Inl (Wrap ''read WASM file: '' err)
           | None \<Rightarrow>
               (case wv_module env of
                  Inl err \<Rightarrow> Inl (Wrap ''instantiate WASM module: '' err)
                | Inr ex \<Rightarrow> Inr \<lparr>wz_name = we_Name meta, wz_version = we_Version meta, wz_wasmPath = path, wz_inputSchema = we_InputSchema meta, wz_permissions = we_Permissions meta,
                     wz_exportsExecute = ex\<rparr>)))"

definition wasm_InputSchema :: "WASMTool \<Rightarrow> string" where
  "wasm_InputSchema w = (case wz_inputSchema w of None \<Rightarrow> ''{}'' | Some s \<Rightarrow> s)"

definition wasm_Execute :: "WASMTool \<Rightarrow> string \<Rightarrow> gerror + any smap" where
  "wasm_Execute w input =
     (if \<not> wz_exportsExecute w then Inl (Errorf ''WASM module must export execute function'')
      else Inr [(''status'', AStr ''executed''), (''tool'', AStr (wz_name w)), (''sandbox'', AStr ''wasm'')])"

text \<open>The errors of closing the module and of closing the runtime.\<close>

definition wasm_Close :: "gerror option \<times> gerror option \<Rightarrow> gerror option" where
  "wasm_Close errs =
     (case fst errs of
        Some err \<Rightarrow> Some (Wrap ''close module: '' err)
      | None \<Rightarrow> map_option (Wrap ''close runtime: '') (snd errs))"

definition LoadWASM :: "wasm_env \<times> string \<times> WASMToolMetadata \<Rightarrow> WASMTool smap \<Rightarrow> WASMTool smap \<times> gerror option" where
  "LoadWASM src m =
     (case NewWASMTool (fst src) (fst (snd src)) (snd (snd src)) of
        Inl err \<Rightarrow> (m, Some err)
      | Inr t \<Rightarrow> (AList.update (pluginKey (wz_name t) (wz_version t)) t m, None))"

definition GetWASMTool :: "string \<Rightarrow> string \<Rightarrow> WASMTool smap \<Rightarrow> gerror + WASMTool" where
  "GetWASMTool name version m =
     (case map_of m (pluginKey name version) of None \<Rightarrow> Inl (Errorf (''WASM tool '' @ pluginKey name version @ '' not found'')) | Some t \<Rightarrow> Inr t)"

definition UnloadWASM :: "gerror option \<times> gerror option \<Rightarrow> string \<Rightarrow> string \<Rightarrow> WASMTool smap \<Rightarrow> WASMTool smap \<times> gerror option" where
  "UnloadWASM errs name version m =
     (case map_of m (pluginKey name version) of
        None \<Rightarrow> (m, Some (Errorf (''WASM tool '' @ pluginKey name version @ '' not found'')))
      | Some t \<Rightarrow> (case wasm_Close errs of Some err \<Rightarrow> (m, Some err) | None \<Rightarrow> (AList.delete (pluginKey name version) m, None)))"

definition ListWASMTools :: "WASMTool smap \<Rightarrow> string list" where
  "ListWASMTools m = keys m"

interpretation wp: plugin_store wz_name wz_version LoadWASM GetWASMTool UnloadWASM
  by unfold_locales (auto simp: LoadWASM_def GetWASMTool_def UnloadWASM_def split: sum.splits option.splits)

section \<open>Schemas\<close>

text \<open>\<open>json\<close> decodes a text, \<open>compile\<close> and the compiled schema are the library.\<close>

definition NewInputSchema :: "(string \<Rightarrow> gerror + any) \<Rightarrow> (string \<Rightarrow> gerror + (any \<Rightarrow> gerror option)) \<Rightarrow> string \<Rightarrow> gerror + (any \<Rightarrow> gerror option)" where
  "NewInputSchema json compile raw = (case json raw of Inl err \<Rightarrow> Inl err | Inr v \<Rightarrow> compile raw)"

definition sc_Validate :: "(string \<Rightarrow> gerror + any) \<Rightarrow> (any \<Rightarrow> gerror option) \<Rightarrow> string \<Rightarrow> gerror option" where
  "sc_Validate json schema input = (case json input of Inl err \<Rightarrow> Some (Wrap ''invalid json: '' err) | Inr v \<Rightarrow> schema v)"

section \<open>Discovery\<close>

record PluginManifest =
  pm_Name :: string
  pm_Version :: string
  pm_Type :: string
  pm_Binary :: string
  pm_Description :: string
  pm_Author :: string
  pm_Permissions :: "string list"

record PluginDiscovery =
  pd_pluginDirs :: "string list"
  pd_goLoader :: "PluginTool smap"
  pd_wasmLoader :: "WASMTool smap"
  pd_watchers :: "string list"

definition NewPluginDiscovery :: "string list \<Rightarrow> PluginDiscovery" where
  "NewPluginDiscovery dirs = \<lparr>pd_pluginDirs = dirs, pd_goLoader = [], pd_wasmLoader = [], pd_watchers = []\<rparr>"

definition loadPluginManifest :: "(string \<Rightarrow> gerror + PluginManifest) \<Rightarrow> string \<Rightarrow> gerror + PluginManifest" where
  "loadPluginManifest readYaml path =
     (case readYaml path of
        Inl err \<Rightarrow> Inl err
      | Inr pm \<Rightarrow> Inr (if IsAbs (pm_Binary pm) then pm else pm\<lparr>pm_Binary := pathJoin [pathDir path, pm_Binary pm]\<rparr>))"

text \<open>An entry of a walk: an error, or a path with its name and whether it is a directory.\<close>

datatype walk_entry = WalkError gerror | WalkEntry string string bool

fun scanEntries :: "(string \<Rightarrow> gerror + PluginManifest) \<Rightarrow> walk_entry list \<Rightarrow> PluginManifest list \<Rightarrow> gerror + PluginManifest list" where
  "scanEntries readYaml [] ms = Inr ms"
| "scanEntries readYaml (WalkError err # es) ms = Inl err"
| "scanEntries readYaml (WalkEntry path name isDir # es) ms =
     (if isDir \<or> name \<noteq> ''plugin.yaml'' \<and> name \<noteq> ''manifest.yaml'' then scanEntries readYaml es ms
      else (case loadPluginManifest readYaml path of
              Inl err \<Rightarrow> Inl (Wrap (''load manifest '' @ path @ '': '') err)
            | Inr pm \<Rightarrow> scanEntries readYaml es (ms @ [pm])))"

text \<open>\<open>walk\<close> gives the entries under a directory, \<open>None\<close> when it does not exist.\<close>

fun scanDirs :: "(string \<Rightarrow> gerror + PluginManifest) \<Rightarrow> (string \<Rightarrow> walk_entry list option) \<Rightarrow> string list \<Rightarrow> PluginManifest list \<Rightarrow> gerror + PluginManifest list" where
  "scanDirs readYaml walk [] ms = Inr ms"
| "scanDirs readYaml walk (dir # dirs) ms =
     (case walk dir of
        None \<Rightarrow> scanDirs readYaml walk dirs ms
      | Some es \<Rightarrow>
          (case scanEntries readYaml es ms of
             Inl err \<Rightarrow> Inl (Wrap (''scan directory '' @ dir @ '': '') err)
           | Inr ms1 \<Rightarrow> scanDirs readYaml walk dirs ms1))"

definition ScanPlugins :: "(string \<Rightarrow> gerror + PluginManifest) \<Rightarrow> (string \<Rightarrow> walk_entry list option) \<Rightarrow> PluginDiscovery \<Rightarrow> gerror + PluginManifest list" where
  "ScanPlugins readYaml walk pd = scanDirs readYaml walk (pd_pluginDirs pd) []"

definition manifestMetadata :: "PluginManifest \<Rightarrow> WASMToolMetadata" where
  "manifestMetadata pm = \<lparr>we_Name = pm_Name pm, we_Version = pm_Version pm, we_InputSchema = Some ''{}'', we_Permissions = map (\<lambda>p. (p, True)) (pm_Permissions pm)\<rparr>"

definition LoadFromManifest :: "(string \<Rightarrow> go_plugin) \<Rightarrow> wasm_env \<Rightarrow> PluginManifest \<Rightarrow> PluginDiscovery \<Rightarrow> PluginDiscovery \<times> gerror option" where
  "LoadFromManifest files env pm pd =
     (let typ = ToLower (pm_Type pm)
      in if typ = ''goplugin'' then (case LoadPlugin (files, pm_Binary pm) (pd_goLoader pd) of (m, err) \<Rightarrow> (pd\<lparr>pd_goLoader := m\<rparr>, err))
         else if typ = ''wasm'' then (case LoadWASM (env, pm_Binary pm, manifestMetadata pm) (pd_wasmLoader pd) of (m, err) \<Rightarrow> (pd\<lparr>pd_wasmLoader := m\<rparr>, err))
         else (pd, Some (Errorf (''unsupported plugin type: '' @ pm_Type pm))))"

definition WatchForChanges :: "string \<Rightarrow> PluginDiscovery \<Rightarrow> PluginDiscovery \<times> gerror option" where
  "WatchForChanges dir pd =
     (if dir \<in> set (pd_watchers pd) then (pd, Some (Errorf (''already watching directory: '' @ dir))) else (pd\<lparr>pd_watchers := pd_watchers pd @ [dir]\<rparr>, None))"

definition StopWatching :: "string \<Rightarrow> PluginDiscovery \<Rightarrow> PluginDiscovery" where
  "StopWatching dir pd = pd\<lparr>pd_watchers := removeAll dir (pd_watchers pd)\<rparr>"

text \<open>One tick of a watcher: the files that a walk finds, with their times of change; the paths that are reported come second.\<close>

definition endsWith :: "string \<Rightarrow> string \<Rightarrow> bool" where
  "endsWith s suf = (drop (length s - length suf) s = suf)"

fun watchTick :: "(string \<times> int) list \<Rightarrow> int smap \<Rightarrow> int smap \<times> string list" where
  "watchTick [] modTimes = (modTimes, [])"
| "watchTick ((path, mtime) # fs) modTimes =
     (if endsWith path ''.so'' \<or> endsWith path ''.wasm''
      then (case map_of modTimes path of
              None \<Rightarrow> watchTick fs (AList.update path mtime modTimes)
            | Some lastMod \<Rightarrow>
                if mtime > lastMod then (case watchTick fs (AList.update path mtime modTimes) of (mt, ps) \<Rightarrow> (mt, path # ps))
                else watchTick fs modTimes)
      else watchTick fs modTimes)"

definition ListAllPlugins :: "PluginDiscovery \<Rightarrow> string list" where
  "ListAllPlugins pd = ListPlugins (pd_goLoader pd) @ ListWASMTools (pd_wasmLoader pd)"

section \<open>Facts\<close>

text \<open>Neither loader tells a part of the name from a part of the version when they contain the separator.\<close>

lemma pluginKey_ambiguous: "pluginKey ''a@b'' ''c'' = pluginKey ''a'' ''b@c''"
  by (simp add: pluginKey_def)

lemma pluginKey_inj:
  assumes "pluginKey n v = pluginKey n1 v1" "CHR ''@'' \<notin> set n" "CHR ''@'' \<notin> set n1"
  shows "n = n1 \<and> v = v1"
proof -
  have "takeWhile (\<lambda>c. c \<noteq> CHR ''@'') (pluginKey a b) = a" if "CHR ''@'' \<notin> set a" for a b
    using that by (induction a) (auto simp: pluginKey_def)
  with assms have "n = n1" by metis
  with assms(1) show ?thesis by (simp add: pluginKey_def)
qed

text \<open>A reload whose file cannot be loaded leaves neither the old tool nor a new one.\<close>

lemma failed_reload_drops:
  assumes "NewPluginTool (fst src) (snd src) = Inl err"
  shows "ReloadPlugin src n v m = (AList.delete (pluginKey n v) m, Some err) \<and> GetPlugin n v (fst (ReloadPlugin src n v m)) \<noteq> Inr t"
  using assms by (simp add: ReloadPlugin_def LoadPlugin_def GetPlugin_def AList.delete_conv')

text \<open>A tool whose module does not close stays registered.\<close>

lemma failed_close_stays:
  assumes "map_of m (pluginKey n v) = Some t" "wasm_Close errs = Some err"
  shows "UnloadWASM errs n v m = (m, Some err)"
  using assms by (simp add: UnloadWASM_def)

text \<open>The input of a WebAssembly tool does not matter.\<close>

lemma wasm_ignores_input: "wasm_Execute w i = wasm_Execute w j"
  by (simp add: wasm_Execute_def)

text \<open>A scan is all or nothing: it gives the manifests of all named files of the existing directories in order, or an error.\<close>

definition manifestPaths :: "walk_entry list \<Rightarrow> string list" where
  "manifestPaths es = concat (map (\<lambda>e. case e of WalkError err \<Rightarrow> [] | WalkEntry path name isDir \<Rightarrow>
     if \<not> isDir \<and> (name = ''plugin.yaml'' \<or> name = ''manifest.yaml'') then [path] else []) es)"

lemma scanEntries_complete:
  "scanEntries readYaml es ms = Inr out \<Longrightarrow> \<exists>found. out = ms @ found \<and> map (loadPluginManifest readYaml) (manifestPaths es) = map Inr found"
proof (induction readYaml es ms rule: scanEntries.induct)
  case (3 readYaml path name isDir es ms)
  show ?case
  proof (cases "isDir \<or> name \<noteq> ''plugin.yaml'' \<and> name \<noteq> ''manifest.yaml''")
    case True
    with 3(1,3) show ?thesis by (auto simp: manifestPaths_def)
  next
    case False
    with 3(3) obtain pm where pm: "loadPluginManifest readYaml path = Inr pm" "scanEntries readYaml es (ms @ [pm]) = Inr out" by (auto split: sum.splits if_splits)
    from 3(2) [OF False pm(1) pm(2)] obtain found where "out = (ms @ [pm]) @ found" "map (loadPluginManifest readYaml) (manifestPaths es) = map Inr found" by blast
    with False pm(1) show ?thesis by (intro exI [of _ "pm # found"]) (auto simp: manifestPaths_def)
  qed
qed (auto simp: manifestPaths_def)

section \<open>Properties\<close>

datatype plugin_op = PLoad "string \<Rightarrow> go_plugin" string | PUnload string string | PReload "string \<Rightarrow> go_plugin" string string string

fun pluginStep :: "plugin_op \<Rightarrow> PluginTool smap \<Rightarrow> PluginTool smap" where
  "pluginStep (PLoad files path) m = fst (LoadPlugin (files, path) m)"
| "pluginStep (PUnload n v) m = fst (UnloadPlugin n v m)"
| "pluginStep (PReload files path n v) m = fst (ReloadPlugin (files, path) n v m)"

text \<open>
  A Go plug-in is found under its own name and version: after any sequence of loads, unloads and reloads, what a lookup by a name without the separator returns for plug-ins with such
  names has that name and version, and the list of plug-ins has no repetition.
\<close>

theorem plugin_lookup_exact:
  assumes "GetPlugin n v (fold pluginStep ops []) = Inr t" "CHR ''@'' \<notin> set n" "CHR ''@'' \<notin> set (pt_name t)"
  shows "pt_name t = n \<and> pt_version t = v \<and> distinct (ListPlugins (fold pluginStep ops []))"
proof -
  have "gp.keyed (fold pluginStep ops [])"
  proof (rule fold_keeps)
    fix a m
    assume "gp.keyed m"
    then show "gp.keyed (pluginStep a m)" by (cases a) (auto simp: ReloadPlugin_def gp.keyed_load gp.keyed_delete intro: gp.keyed_unload)
  qed (simp add: gp.keyed_def)
  moreover from this have "distinct (ListPlugins (fold pluginStep ops []))" by (simp add: gp.keyed_def ListPlugins_def)
  ultimately show ?thesis using gp.lookup_key [OF _ assms(1)] pluginKey_inj [OF _ assms(3,2)] by blast
qed

theorem plugin_lookup_exact_witness:
  "pt_name \<lparr>pt_name = ''grep'', pt_version = ''2'', pt_pluginPath = ''/p/grep.so''\<rparr> = ''grep'' \<and> distinct (ListPlugins (fold pluginStep [PLoad (\<lambda>p. Constructor ''grep'' ''2'') ''/p/grep.so''] []))"
  using plugin_lookup_exact [of "''grep''" "''2''" "[PLoad (\<lambda>p. Constructor ''grep'' ''2'') ''/p/grep.so'']" "\<lparr>pt_name = ''grep'', pt_version = ''2'', pt_pluginPath = ''/p/grep.so''\<rparr>"]
  by (simp add: LoadPlugin_def NewPluginTool_def GetPlugin_def pluginKey_def)

end
