(* ===== verification/Workflow_Templates.thy ===== *)
theory Workflow_Templates
  imports Go_Paths
begin

text \<open>
  Workflow templates, \<open>pkg/workflow/templates.go\<close>, and the conditions of \<open>pkg/workflow/cel.go\<close>. YAML, package \<open>text/template\<close>, the CEL library and the file system are arguments.
\<close>

section \<open>Templates\<close>

record TemplateParam =
  tq_Name :: string
  tq_Description :: string
  tq_Type :: string
  tq_Required :: bool
  tq_Default :: any

record Template =
  te_Name :: string
  te_Description :: string
  te_Version :: string
  te_Author :: string
  te_Category :: string
  te_Parameters :: "TemplateParam list"
  te_Workflow :: "any smap option"

type_synonym template_registry = "Template smap"

definition NewTemplateRegistry :: template_registry where
  "NewTemplateRegistry = []"

definition addTemplate :: "Template \<Rightarrow> template_registry \<Rightarrow> template_registry" where
  "addTemplate t r = AList.update (te_Name t) t r"

text \<open>The directory is missing, cannot be read, or has entries: name, whether it is a directory, and what its file holds, \<open>None\<close> when it cannot be read or parsed.\<close>

datatype template_dir = NoDir | DirError gerror | Entries "(string \<times> bool \<times> Template option) list"

definition loadEntry :: "string \<times> bool \<times> Template option \<Rightarrow> template_registry \<Rightarrow> template_registry" where
  "loadEntry e r =
     (case e of (name, isDir, t) \<Rightarrow>
        if isDir \<or> drop (length name - 5) name \<noteq> ''.yaml'' then r else (case t of None \<Rightarrow> r | Some t \<Rightarrow> addTemplate t r))"

definition LoadEmbeddedTemplates :: "template_dir \<Rightarrow> template_registry \<Rightarrow> template_registry \<times> gerror option" where
  "LoadEmbeddedTemplates d r =
     (case d of
        NoDir \<Rightarrow> (r, None)
      | DirError err \<Rightarrow> (r, Some (Wrap ''read templates dir: '' err))
      | Entries es \<Rightarrow> (fold loadEntry es r, None))"

definition tr_LoadFromFile :: "gerror + string \<Rightarrow> (string \<Rightarrow> gerror + Template) \<Rightarrow> template_registry \<Rightarrow> template_registry \<times> gerror option" where
  "tr_LoadFromFile file yaml r =
     (case file of
        Inl err \<Rightarrow> (r, Some (Wrap ''read template file: '' err))
      | Inr data \<Rightarrow> (case yaml data of Inl err \<Rightarrow> (r, Some (Wrap ''parse template: '' err)) | Inr t \<Rightarrow> (addTemplate t r, None)))"

definition tr_Get :: "string \<Rightarrow> template_registry \<Rightarrow> gerror + Template" where
  "tr_Get name r = (case map_of r name of None \<Rightarrow> Inl (Errorf (''template '' @ name @ '' not found'')) | Some t \<Rightarrow> Inr t)"

definition tr_List :: "template_registry \<Rightarrow> Template list" where
  "tr_List r = map snd r"

text \<open>The defaults of required parameters are written into the map of the caller, which comes back also when a parameter is missing.\<close>

fun fillParams :: "TemplateParam list \<Rightarrow> any smap \<Rightarrow> any smap \<times> gerror option" where
  "fillParams [] params = (params, None)"
| "fillParams (p # ps) params =
     (if tq_Required p \<and> \<not> has_key params (tq_Name p)
      then (if tq_Default p \<noteq> ANil then fillParams ps (AList.update (tq_Name p) (tq_Default p) params)
            else (params, Some (Errorf (''required parameter missing: '' @ tq_Name p))))
      else fillParams ps params)"

definition Instantiate :: "(any smap option \<Rightarrow> gerror + string) \<Rightarrow> (string \<Rightarrow> gerror + (any smap \<Rightarrow> gerror + string)) \<Rightarrow> string \<Rightarrow> any smap \<Rightarrow> template_registry \<Rightarrow> any smap \<times> (gerror + string)" where
  "Instantiate marshal parse templateName params r =
     (case tr_Get templateName r of
        Inl err \<Rightarrow> (params, Inl err)
      | Inr t \<Rightarrow>
          (case fillParams (te_Parameters t) params of
             (ps, Some err) \<Rightarrow> (ps, Inl err)
           | (ps, None) \<Rightarrow>
               (ps, case marshal (te_Workflow t) of
                      Inl err \<Rightarrow> Inl (Wrap ''marshal workflow: '' err)
                    | Inr s \<Rightarrow>
                        (case parse s of
                           Inl err \<Rightarrow> Inl (Wrap ''parse template: '' err)
                         | Inr exec \<Rightarrow> (case exec ps of Inl err \<Rightarrow> Inl (Wrap ''execute template: '' err) | Inr out \<Rightarrow> Inr out)))))"

definition paramTypes :: "string list" where
  "paramTypes = [''string'', ''int'', ''bool'', ''list'', ''map'']"

fun validateParams :: "TemplateParam list \<Rightarrow> string list \<Rightarrow> gerror option" where
  "validateParams [] seen = None"
| "validateParams (p # ps) seen =
     (if tq_Name p = [] then Some (Errorf ''parameter name is required'')
      else if tq_Name p \<in> set seen then Some (Errorf (''duplicate parameter: '' @ tq_Name p))
      else if tq_Type p \<notin> set paramTypes then Some (Errorf (''invalid parameter type: '' @ tq_Type p))
      else validateParams ps (tq_Name p # seen))"

definition ValidateTemplate :: "Template \<Rightarrow> gerror option" where
  "ValidateTemplate t =
     (if te_Name t = [] then Some (Errorf ''template name is required'')
      else if te_Workflow t = None then Some (Errorf ''template workflow is required'')
      else validateParams (te_Parameters t) [])"

section \<open>Conditions\<close>

text \<open>
  The CEL library: compiling an expression in an environment with the given variables, making a program of it, evaluating it; \<open>typeName\<close> is the verb \<open>%T\<close>.
\<close>

record ('ast, 'prg) cel_library =
  cl_compile :: "string list \<Rightarrow> string \<Rightarrow> gerror + 'ast"
  cl_program :: "'ast \<Rightarrow> gerror + 'prg"
  cl_eval :: "'prg \<Rightarrow> any smap \<Rightarrow> gerror + any"
  cl_typeName :: "any \<Rightarrow> string"

definition workflowVars :: "string list" where
  "workflowVars = [''outputs'', ''step'', ''workflow'']"

definition cel_Evaluate :: "('ast, 'prg) cel_library \<Rightarrow> string \<Rightarrow> any smap \<Rightarrow> gerror + bool" where
  "cel_Evaluate lib condition ctx =
     (case cl_compile lib workflowVars condition of
        Inl err \<Rightarrow> Inl (Wrap ''compile condition: '' err)
      | Inr ast \<Rightarrow>
          (case cl_program lib ast of
             Inl err \<Rightarrow> Inl (Wrap ''create program: '' err)
           | Inr prg \<Rightarrow>
               (case cl_eval lib prg ctx of
                  Inl err \<Rightarrow> Inl (Wrap ''evaluate condition: '' err)
                | Inr v \<Rightarrow> (case v of ABool b \<Rightarrow> Inr b | _ \<Rightarrow> Inl (Errorf (''condition must evaluate to boolean, got '' @ cl_typeName lib v))))))"

definition ValidateCondition :: "('ast, 'prg) cel_library \<Rightarrow> string \<Rightarrow> gerror option" where
  "ValidateCondition lib condition = (case cl_compile lib workflowVars condition of Inl err \<Rightarrow> Some (Wrap ''invalid condition: '' err) | Inr ast \<Rightarrow> None)"

definition GetAvailableVariables :: "string list" where
  "GetAvailableVariables = [''outputs'', ''step.status'', ''step.error'', ''workflow.duration'']"

definition simple_Evaluate :: "('ast, 'prg) cel_library \<Rightarrow> string \<Rightarrow> any smap \<Rightarrow> gerror + bool" where
  "simple_Evaluate lib condition ctx =
     (case cl_compile lib [''outputs''] condition of
        Inl err \<Rightarrow> Inl err
      | Inr ast \<Rightarrow>
          (case cl_program lib ast of
             Inl err \<Rightarrow> Inl err
           | Inr prg \<Rightarrow>
               (case cl_eval lib prg ctx of
                  Inl err \<Rightarrow> Inl err
                | Inr v \<Rightarrow> (case v of ABool b \<Rightarrow> Inr b | _ \<Rightarrow> Inl (Errorf ''condition did not evaluate to boolean'')))))"

section \<open>Facts\<close>

text \<open>What a valid template is.\<close>

definition validParam :: "TemplateParam \<Rightarrow> bool" where
  "validParam p \<longleftrightarrow> tq_Name p \<noteq> [] \<and> tq_Type p \<in> set paramTypes"

lemma validateParams_iff:
  "validateParams ps seen = None \<longleftrightarrow> list_all validParam ps \<and> distinct (map tq_Name ps) \<and> set (map tq_Name ps) \<inter> set seen = {}"
  by (induction ps seen rule: validateParams.induct) (auto simp: validParam_def)

lemma fillParams_ok:
  assumes "fillParams ps params = (out, None)"
  shows "(\<forall>p \<in> set ps. tq_Required p \<longrightarrow> has_key out (tq_Name p)) \<and> (\<forall>k v. map_of params k = Some v \<longrightarrow> map_of out k = Some v)"
  using assms
proof (induction ps params arbitrary: out rule: fillParams.induct)
  case (2 p ps params)
  show ?case
  proof (cases "tq_Required p \<and> \<not> has_key params (tq_Name p)")
    case True
    with 2(3) have d: "tq_Default p \<noteq> ANil" "fillParams ps (AList.update (tq_Name p) (tq_Default p) params) = (out, None)" by (auto split: if_splits)
    note ih = 2(1) [OF True d]
    from True have "map_of params (tq_Name p) = None" by (simp add: has_key_def split: option.splits)
    with ih show ?thesis by (auto simp: has_key_def) (metis option.distinct(1))
  next
    case False
    with 2(3) have "fillParams ps params = (out, None)" by auto
    with 2(2) [OF False this] False show ?thesis by (auto simp: has_key_def split: option.splits)
  qed
qed simp

lemma fillParams_only_adds:
  "fillParams ps params = (out, e) \<Longrightarrow> map_of out k \<noteq> map_of params k \<Longrightarrow> \<exists>p \<in> set ps. tq_Name p = k \<and> tq_Required p \<and> map_of params k = None \<and> map_of out k = Some (tq_Default p)"
proof (induction ps params arbitrary: out rule: fillParams.induct)
  case (2 p ps params)
  show ?case
  proof (cases "tq_Required p \<and> \<not> has_key params (tq_Name p)")
    case True
    then have none: "map_of params (tq_Name p) = None" by (simp add: has_key_def split: option.splits)
    show ?thesis
    proof (cases "tq_Default p = ANil")
      case False
      with True 2(3) have d: "fillParams ps (AList.update (tq_Name p) (tq_Default p) params) = (out, e)" by auto
      show ?thesis
      proof (cases "map_of out k = map_of (AList.update (tq_Name p) (tq_Default p) params) k")
        case True
        with 2(4) none \<open>tq_Required p \<and> \<not> has_key params (tq_Name p)\<close> show ?thesis by (auto split: if_splits)
      next
        case diff: False
        from 2(1) [OF True False d diff] show ?thesis by (auto split: if_splits)
      qed
    qed (use True 2(3,4) in auto)
  next
    case False
    with 2(3) have "fillParams ps params = (out, e)" by auto
    from 2(2) [OF False this 2(4)] show ?thesis by auto
  qed
qed simp

text \<open>The default of an optional parameter is never used.\<close>

lemma optional_default_unused:
  assumes "\<forall>p \<in> set ps. tq_Name p = k \<longrightarrow> \<not> tq_Required p" "fillParams ps params = (out, e)"
  shows "map_of out k = map_of params k"
  using fillParams_only_adds [OF assms(2), of k] assms(1) by blast

section \<open>Properties\<close>

text \<open>
  An instantiated template got every required parameter: when a workflow is returned, every required parameter of the template has a value, what the caller passed is unchanged, and
  what was added are defaults of required parameters; validation accepts exactly the templates with a name, a workflow and distinct, named parameters of known types.
\<close>

theorem template_parameters:
  assumes "tr_Get name r = Inr t" "Instantiate marshal parse name params r = (out, Inr workflow)"
  shows "(\<forall>p \<in> set (te_Parameters t). tq_Required p \<longrightarrow> has_key out (tq_Name p)) \<and> (\<forall>k v. map_of params k = Some v \<longrightarrow> map_of out k = Some v) \<and>
    (\<forall>k. map_of out k \<noteq> map_of params k \<longrightarrow> (\<exists>p \<in> set (te_Parameters t). tq_Name p = k \<and> tq_Required p \<and> map_of out k = Some (tq_Default p))) \<and>
    (ValidateTemplate t = None \<longleftrightarrow> te_Name t \<noteq> [] \<and> te_Workflow t \<noteq> None \<and> list_all validParam (te_Parameters t) \<and> distinct (map tq_Name (te_Parameters t)))"
proof -
  have f: "fillParams (te_Parameters t) params = (out, None)" using assms by (auto simp: Instantiate_def split: prod.splits option.splits)
  have "\<forall>k. map_of out k \<noteq> map_of params k \<longrightarrow> (\<exists>p \<in> set (te_Parameters t). tq_Name p = k \<and> tq_Required p \<and> map_of out k = Some (tq_Default p))"
    using fillParams_only_adds [OF f] by blast
  with fillParams_ok [OF f] show ?thesis by (simp add: ValidateTemplate_def validateParams_iff)
qed

end
