(* ===== verification/Agent_Errors.thy ===== *)
theory Agent_Errors
  imports Go_Prelude
begin

text \<open>
  The error values of \<open>pkg/errors/errors.go\<close> and the features of \<open>pkg/license\<close>. An error of the package carries a code, a message, a cause and a context; other errors are those of the
  prelude, or wrap one of the package.
\<close>

datatype go_error =
    Plain gerror
  | Wrapped string go_error
  | Agent string string "go_error option" "any smap"

fun Error :: "go_error \<Rightarrow> string" where
  "Error (Plain e) = error_string e"
| "Error (Wrapped s e) = s @ Error e"
| "Error (Agent code msg None ctx) = ''['' @ code @ ''] '' @ msg"
| "Error (Agent code msg (Some e) ctx) = ''['' @ code @ ''] '' @ msg @ '': '' @ Error e"

fun Unwrap :: "go_error \<Rightarrow> go_error option" where
  "Unwrap (Wrapped s e) = Some e"
| "Unwrap (Agent code msg cause ctx) = cause"
| "Unwrap (Plain e) = None"

definition New :: "string \<Rightarrow> string \<Rightarrow> go_error" where
  "New code message = Agent code message None []"

definition WrapAgent :: "go_error option \<Rightarrow> string \<Rightarrow> string \<Rightarrow> go_error" where
  "WrapAgent err code message = Agent code message err []"

fun WithContext :: "string \<Rightarrow> any \<Rightarrow> go_error \<Rightarrow> go_error" where
  "WithContext key v (Agent code msg cause ctx) = Agent code msg cause (AList.update key v ctx)"
| "WithContext key v e = e"

text \<open>\<open>errors.As\<close> stops at the first error of the package in the chain.\<close>

fun errors_As :: "go_error \<Rightarrow> string option" where
  "errors_As (Agent code msg cause ctx) = Some code"
| "errors_As (Wrapped s e) = errors_As e"
| "errors_As (Plain e) = None"

definition Is :: "go_error option \<Rightarrow> string \<Rightarrow> bool" where
  "Is err code = (case err of None \<Rightarrow> False | Some e \<Rightarrow> errors_As e = Some code)"

definition ToolNotFound :: "string \<Rightarrow> go_error" where
  "ToolNotFound toolName = WithContext ''tool'' (AStr toolName) (New ''TOOL_NOT_FOUND'' (''tool not found: '' @ toolName))"

definition ToolExecutionError :: "string \<Rightarrow> go_error option \<Rightarrow> go_error" where
  "ToolExecutionError toolName err = WithContext ''tool'' (AStr toolName) (WrapAgent err ''TOOL_EXECUTION_ERROR'' (''tool execution failed: '' @ toolName))"

definition LLMError :: "string \<Rightarrow> go_error option \<Rightarrow> go_error" where
  "LLMError provider err = WithContext ''provider'' (AStr provider) (WrapAgent err ''LLM_ERROR'' (''LLM error: '' @ provider))"

definition StoreError :: "string \<Rightarrow> go_error option \<Rightarrow> go_error" where
  "StoreError operation err = WithContext ''operation'' (AStr operation) (WrapAgent err ''STORE_ERROR'' (''store error: '' @ operation))"

definition Internal :: "string \<Rightarrow> go_error option \<Rightarrow> go_error" where
  "Internal message err = WrapAgent err ''INTERNAL_ERROR'' message"

text \<open>Wrapping decides the code: the code of the cause is not seen any more, however deep the chain is.\<close>

lemma wrapping_hides_code: "Is (Some (WrapAgent err code msg)) c \<longleftrightarrow> c = code"
  by (auto simp: Is_def WrapAgent_def)

lemma code_survives_plain_wrapping: "Is (Some (Wrapped s e)) c = Is (Some e) c"
  by (simp add: Is_def)

lemma context_keeps_code: "errors_As (WithContext k v e) = errors_As e \<and> Unwrap (WithContext k v e) = Unwrap e \<and> Error (WithContext k v e) = Error e"
proof (cases e)
  case (Agent code msg cause ctx)
  then show ?thesis by (cases cause) simp_all
qed simp_all

text \<open>The text of the cause is the end of the text of an error.\<close>

lemma cause_in_text: "Unwrap e = Some c \<Longrightarrow> \<exists>p. Error e = p @ Error c"
  by (cases e rule: Error.cases) auto

section \<open>Features\<close>

definition coreFeatures :: "string list" where
  "coreFeatures = [''policy_engine'', ''audit_export'', ''workflow_marketplace'', ''cost_tracking'', ''air_gapped'']"

definition enterpriseFeatures :: "string list" where
  "enterpriseFeatures = [''sso'', ''compliance_pack'', ''hosted_tier'', ''paid_marketplace'']"

definition Enabled :: "string \<Rightarrow> bool" where
  "Enabled f = (if f \<in> set coreFeatures then True else if f \<in> set enterpriseFeatures then False else False)"

lemma enterprise_disabled: "f \<in> set enterpriseFeatures \<Longrightarrow> \<not> Enabled f"
  by (auto simp: Enabled_def coreFeatures_def enterpriseFeatures_def)

end
