(* ===== verification/Postgres_Store.thy ===== *)
theory Postgres_Store
  imports Run_Store
begin

text \<open>
  The PostgreSQL store, \<open>internal/store/postgres.go\<close>, beside the SQLite store of \<open>Run_Store\<close>: the tables as one database, with the foreign keys of events and histories, which PostgreSQL
  enforces and SQLite does not by default. \<open>stamp\<close> is what a column keeps of a time. The interface \<open>Store\<close> of \<open>internal/store/store.go\<close> is the locale \<open>event_log\<close>, which both stores implement.
\<close>

record run_db =
  db_runs :: "RunMeta list"
  db_events :: "StoredEvent list"
  db_history :: "history_row list"

definition knownRun :: "run_db \<Rightarrow> string \<Rightarrow> bool" where
  "knownRun d runID \<longleftrightarrow> list_ex (\<lambda>r. rm_RunID r = runID) (db_runs d)"

definition foreignKey :: "string \<Rightarrow> gerror" where
  "foreignKey table = Errorf (''pq: insert or update on table '' @ table @ '' violates foreign key constraint'')"

section \<open>PostgreSQL\<close>

definition pgdb_SaveRun :: "run_db \<Rightarrow> gerror option \<Rightarrow> RunMeta \<Rightarrow> run_db \<times> gerror option" where
  "pgdb_SaveRun d db run = (case pg_SaveRun (db_runs d) db run of (t, err) \<Rightarrow> (d\<lparr>db_runs := t\<rparr>, err))"

definition pg_GetRun :: "run_db \<Rightarrow> gerror option \<Rightarrow> string \<Rightarrow> gerror + RunMeta option" where
  "pg_GetRun d db runID = (case db of Some err \<Rightarrow> Inl err | None \<Rightarrow> Inr (find (\<lambda>r. rm_RunID r = runID) (db_runs d)))"

definition pg_SaveEvent :: "(int \<Rightarrow> int) \<Rightarrow> run_db \<Rightarrow> gerror option \<Rightarrow> string \<Rightarrow> StoredEvent \<Rightarrow> run_db \<times> gerror option" where
  "pg_SaveEvent stamp d db runID evt =
     (case db of
        Some err \<Rightarrow> (d, Some err)
      | None \<Rightarrow>
          if knownRun d runID
          then (d\<lparr>db_events := db_events d @ [evt\<lparr>ev_RunID := runID, ev_Timestamp := stamp (ev_Timestamp evt), ev_Data := json_norm_map (ev_Data evt), ev_Version := []\<rparr>]\<rparr>, None)
          else (d, Some (foreignKey ''events'')))"

definition pg_GetEvents :: "run_db \<Rightarrow> gerror option \<Rightarrow> string \<Rightarrow> gerror + StoredEvent list" where
  "pg_GetEvents d db runID = (case db of Some err \<Rightarrow> Inl err | None \<Rightarrow> Inr (filter (\<lambda>e. ev_RunID e = runID) (db_events d)))"

text \<open>The inserts of a history run in one transaction; the empty history of an unknown run is accepted.\<close>

definition pg_SaveHistory :: "(int \<Rightarrow> int) \<Rightarrow> run_db \<Rightarrow> gerror option \<Rightarrow> string \<Rightarrow> StepRecord list \<Rightarrow> run_db \<times> gerror option" where
  "pg_SaveHistory stamp d db runID history =
     (case db of
        Some err \<Rightarrow> (d, Some err)
      | None \<Rightarrow>
          if history \<noteq> [] \<and> \<not> knownRun d runID then (d, Some (foreignKey ''history''))
          else (d\<lparr>db_history := db_history d @ map (\<lambda>h. pgRow runID (h\<lparr>sr_Timestamp := stamp (sr_Timestamp h)\<rparr>)) history\<rparr>, None))"

definition pg_GetHistory :: "run_db \<Rightarrow> gerror option \<Rightarrow> string \<Rightarrow> gerror + StepRecord list" where
  "pg_GetHistory d db runID = (case db of Some err \<Rightarrow> Inl err | None \<Rightarrow> Inr (map readRow (filter (\<lambda>r. hr_run_id r = runID) (db_history d))))"

definition pg_ListRuns :: "run_db \<Rightarrow> gerror option \<Rightarrow> int \<Rightarrow> gerror + string list" where
  "pg_ListRuns d db limit =
     (case db of
        Some err \<Rightarrow> Inl err
      | None \<Rightarrow> Inr (map rm_RunID (take (nat (if limit \<le> 0 then 100 else limit)) (sort_key (\<lambda>r. - rm_UpdatedAt r) (db_runs d)))))"

section \<open>SQLite over the same tables\<close>

definition sqdb_SaveEvent :: "run_db \<Rightarrow> gerror option \<Rightarrow> string \<Rightarrow> StoredEvent \<Rightarrow> run_db \<times> gerror option" where
  "sqdb_SaveEvent d db runID evt = (case SaveEvent rfcTime (db_events d) db runID evt of (t, err) \<Rightarrow> (d\<lparr>db_events := t\<rparr>, err))"

definition sqdb_GetEvents :: "run_db \<Rightarrow> gerror option \<Rightarrow> string \<Rightarrow> gerror + StoredEvent list" where
  "sqdb_GetEvents d db runID = GetEvents (db_events d) db runID"

section \<open>The interface\<close>

text \<open>Both stores give back an event as it is kept: under its run, with a stamp and without the version of the model.\<close>

definition eventView :: "(int \<Rightarrow> int) \<Rightarrow> string \<Rightarrow> StoredEvent \<Rightarrow> StoredEvent" where
  "eventView stamp runID evt = evt\<lparr>ev_RunID := runID, ev_Timestamp := stamp (ev_Timestamp evt), ev_Data := json_norm_map (ev_Data evt), ev_Version := []\<rparr>"

locale event_log =
  fixes save :: "run_db \<Rightarrow> gerror option \<Rightarrow> string \<Rightarrow> StoredEvent \<Rightarrow> run_db \<times> gerror option"
    and events :: "run_db \<Rightarrow> gerror option \<Rightarrow> string \<Rightarrow> gerror + StoredEvent list"
    and view :: "string \<Rightarrow> StoredEvent \<Rightarrow> StoredEvent"
  assumes refused: "save d db r e = (d1, Some err) \<Longrightarrow> d1 = d"
    and saved: "save d db r e = (d1, None) \<Longrightarrow> events d None r1 = Inr es \<Longrightarrow> events d1 None r1 = Inr (if r1 = r then es @ [view r e] else es)"
begin

fun saveAll :: "(gerror option \<times> string \<times> StoredEvent) list \<Rightarrow> run_db \<Rightarrow> run_db \<times> bool list" where
  "saveAll [] d = (d, [])"
| "saveAll ((db, r, e) # ops) d =
     (case save d db r e of (d1, err) \<Rightarrow> (case saveAll ops d1 of (d2, oks) \<Rightarrow> (d2, (err = None) # oks)))"

text \<open>The events of a run are those whose saving succeeded, in the order in which they were saved.\<close>

lemma log_in_order:
  "saveAll ops d = (d1, oks) \<Longrightarrow> events d None r1 = Inr es \<Longrightarrow>
   events d1 None r1 = Inr (es @ map (\<lambda>((db, r, e), ok). view r e) (filter (\<lambda>((db, r, e), ok). ok \<and> r = r1) (zip ops oks)))"
proof (induction ops arbitrary: d d1 oks es)
  case (Cons a ops)
  obtain db r e where a: "a = (db, r, e)" by (cases a)
  obtain d2 err where s: "save d db r e = (d2, err)" by fastforce
  obtain d3 oks1 where rest: "saveAll ops d2 = (d3, oks1)" by fastforce
  have eq: "d1 = d3" "oks = (err = None) # oks1" using Cons.prems(1) a s rest by auto
  show ?case
  proof (cases err)
    case None
    from Cons.IH [OF rest saved [OF s [unfolded None] Cons.prems(2)]] show ?thesis by (simp add: eq a None)
  next
    case (Some x)
    with refused s have "d2 = d" by blast
    with Cons.IH [OF rest] Cons.prems(2) show ?thesis by (simp add: eq a Some)
  qed
qed simp

end

interpretation pge: event_log "pg_SaveEvent stamp" pg_GetEvents "eventView stamp" for stamp
  by unfold_locales (auto simp: pg_SaveEvent_def pg_GetEvents_def eventView_def split: option.splits if_splits)

interpretation sqe: event_log sqdb_SaveEvent sqdb_GetEvents "eventView rfcTime"
  by unfold_locales (auto simp: sqdb_SaveEvent_def sqdb_GetEvents_def SaveEvent_def GetEvents_def eventView_def split: if_splits)

section \<open>Runs and foreign keys\<close>

text \<open>An event or a step of a run that was never saved is refused by PostgreSQL and accepted by SQLite.\<close>

lemma unknown_run_refused:
  assumes "\<not> knownRun d runID"
  shows "pg_SaveEvent stamp d None runID e = (d, Some (foreignKey ''events''))"
    and "hs \<noteq> [] \<Longrightarrow> pg_SaveHistory stamp d None runID hs = (d, Some (foreignKey ''history''))"
    and "snd (sqdb_SaveEvent d None runID e) = None"
  using assms by (simp_all add: pg_SaveEvent_def pg_SaveHistory_def sqdb_SaveEvent_def SaveEvent_def)

lemma find_upsert:
  "find (\<lambda>r. rm_RunID r = i) (map (\<lambda>r. if rm_RunID r = rm_RunID run then upsertRun run r else r) t) =
   map_option (\<lambda>r. if i = rm_RunID run then upsertRun run r else r) (find (\<lambda>r. rm_RunID r = i) t)"
  by (induction t) (auto simp: upsertRun_def)

text \<open>A saved run is read back, with the creation time of its first save, and other runs are as they were.\<close>

lemma pg_run_roundtrip:
  assumes "pgdb_SaveRun d db run = (d1, None)"
  shows "pg_GetRun d1 None (rm_RunID run) =
      Inr (Some (run\<lparr>rm_CreatedAt := (case find (\<lambda>r. rm_RunID r = rm_RunID run) (db_runs d) of None \<Rightarrow> rm_CreatedAt run | Some r \<Rightarrow> rm_CreatedAt r)\<rparr>))"
    and "i \<noteq> rm_RunID run \<Longrightarrow> pg_GetRun d1 None i = pg_GetRun d None i"
proof -
  have db: "db = None" using assms by (cases db) (auto simp: pgdb_SaveRun_def pg_SaveRun_def)
  have ex: "list_ex (\<lambda>r. rm_RunID r = rm_RunID run) (db_runs d) \<longleftrightarrow> find (\<lambda>r. rm_RunID r = rm_RunID run) (db_runs d) \<noteq> None"
    by (induction "db_runs d") (auto simp: find_None_iff list_ex_iff)
  have snoc: "find P (xs @ [x]) = (case find P xs of None \<Rightarrow> if P x then Some x else None | Some y \<Rightarrow> Some y)" for P xs and x :: RunMeta
    by (induction xs) auto
  have same: "upsertRun run r = run\<lparr>rm_CreatedAt := rm_CreatedAt r\<rparr>" if "rm_RunID r = rm_RunID run" for r using that by (simp add: upsertRun_def)
  show "pg_GetRun d1 None (rm_RunID run) =
      Inr (Some (run\<lparr>rm_CreatedAt := (case find (\<lambda>r. rm_RunID r = rm_RunID run) (db_runs d) of None \<Rightarrow> rm_CreatedAt run | Some r \<Rightarrow> rm_CreatedAt r)\<rparr>))"
  proof (cases "find (\<lambda>r. rm_RunID r = rm_RunID run) (db_runs d)")
    case None
    with assms ex show ?thesis by (auto simp: pgdb_SaveRun_def pg_SaveRun_def db pg_GetRun_def snoc)
  next
    case (Some r)
    then have "rm_RunID r = rm_RunID run" by (auto simp: find_Some_iff)
    with Some assms ex show ?thesis by (auto simp: pgdb_SaveRun_def pg_SaveRun_def db pg_GetRun_def find_upsert same)
  qed
  show "pg_GetRun d1 None i = pg_GetRun d None i" if "i \<noteq> rm_RunID run"
    using that assms by (auto simp: pgdb_SaveRun_def pg_SaveRun_def db pg_GetRun_def find_upsert snoc option.map_ident split: if_splits option.split)
qed

section \<open>Properties\<close>

text \<open>
  Both stores keep the log of a run in order: whatever sequence of events is saved for whatever runs, with whatever of the saves refused, the events read for a run are those it had
  and then exactly those whose saving succeeded, in the order of the saves.
\<close>

theorem event_log_order:
  assumes "pge.saveAll stamp ops d = (d1, oks)" "sqe.saveAll ops e = (e1, oks')" "pg_GetEvents d None r = Inr es" "sqdb_GetEvents e None r = Inr es'"
  shows "pg_GetEvents d1 None r = Inr (es @ map (\<lambda>((db, i, x), ok). eventView stamp i x) (filter (\<lambda>((db, i, x), ok). ok \<and> i = r) (zip ops oks))) \<and>
    sqdb_GetEvents e1 None r = Inr (es' @ map (\<lambda>((db, i, x), ok). eventView rfcTime i x) (filter (\<lambda>((db, i, x), ok). ok \<and> i = r) (zip ops oks')))"
  using pge.log_in_order [OF assms(1,3)] sqe.log_in_order [OF assms(2,4)] by blast

end
