(* ===== verification/Run_Command.thy ===== *)
theory Run_Command
  imports Step_Executor Cost_Tracker Run_Store Replay_Recorder
begin

text \<open>
  The command \<open>run\<close>, \<open>cmd/unagnt/run.go\<close>: a configuration is loaded, a provider, the tools, the policy with its approval and the budget are set up, the agent loop runs, and the run, its history
  and a snapshot are stored. The outside is that of \<open>Step_Executor\<close>; the answers at the terminal, the cost database and the identifiers are arguments of their own. Log lines and what is
  printed are left out, except the result.
\<close>

section \<open>Setting up\<close>

definition cliProvider :: "'p step_env \<Rightarrow> ModelConfig \<Rightarrow> gerror + provider" where
  "cliProvider env model =
     (if mc_Provider model = ''openai''
      then (let apiKey = se_getenv env ''OPENAI_API_KEY'' in if apiKey = [] then Inl (Errorf ''OPENAI_API_KEY is required'') else Inr (OpenAI apiKey (mc_Name model)))
      else if mc_Provider model = ''anthropic''
      then (let apiKey = se_getenv env ''ANTHROPIC_API_KEY'' in if apiKey = [] then Inl (Errorf ''ANTHROPIC_API_KEY is required'') else Inr (Anthropic apiKey (mc_Name model)))
      else Inl (Errorf (''unsupported provider: '' @ mc_Provider model)))"

definition cliSplitKey :: "string \<Rightarrow> string \<times> string" where
  "cliSplitKey key = (case LastIndex key ''@'' of None \<Rightarrow> (key, ''1'') | Some i \<Rightarrow> if i = 0 then (key, ''1'') else (take i key, drop (i + 1) key))"

definition cliToolInfos :: "AgentConfig \<Rightarrow> Registry \<Rightarrow> ToolInfo list" where
  "cliToolInfos cfg reg =
     (if ac_Tools cfg \<noteq> []
      then map (\<lambda>tr. case reg_Get reg (tl_Name tr) (tl_Version tr) of
             None \<Rightarrow> \<lparr>ti_Name = tl_Name tr, ti_Version = tl_Version tr, ti_Description = [], ti_InputSchema = []\<rparr>
           | Some t \<Rightarrow> \<lparr>ti_Name = tl_Name tr, ti_Version = tl_Version tr, ti_Description = tool_Description t, ti_InputSchema = tool_InputSchema t\<rparr>) (ac_Tools cfg)
      else List.map_filter (\<lambda>key. case cliSplitKey key of (name, version) \<Rightarrow>
             map_option (\<lambda>t. \<lparr>ti_Name = tool_Name t, ti_Version = tool_Version t, ti_Description = tool_Description t, ti_InputSchema = tool_InputSchema t\<rparr>)
               (reg_Get reg name version)) (reg_List reg))"

text \<open>The question at the terminal; \<open>terminal\<close> gives the line that is read, depending on the calls so far.\<close>

definition promptCallback :: "(trace \<Rightarrow> gerror + string) \<Rightarrow> trace \<Rightarrow> approval_callback" where
  "promptCallback terminal x tool input approvers = (case terminal x of Inl err \<Rightarrow> (False, None) | Inr ans \<Rightarrow> (ans = ''y'' \<or> ans = ''Y'', None))"

record run_flags =
  rf_configPath :: string
  rf_goal :: string
  rf_storePath :: string
  rf_approvalWebhook :: string
  rf_costDB :: string

text \<open>The terminal, the cost database (an error of opening it or its tracker), the driver's error of the budget query, the calendar, the identifiers and the clock, the log file, the verb \<open>%.2f\<close>, and the run database.\<close>

record cli_env =
  ce_terminal :: "trace \<Rightarrow> gerror + string"
  ce_costs :: "string \<Rightarrow> gerror + CostTracker"
  ce_costQuery :: "gerror option"
  ce_addDate :: "int \<Rightarrow> int \<Rightarrow> int \<Rightarrow> int"
  ce_snapID :: string
  ce_now :: int
  ce_log :: "gerror option"
  ce_fmt2 :: "rat \<Rightarrow> string"
  ce_open :: "gerror option"
  ce_runErr :: "gerror option"
  ce_historyErr :: "gerror option"
  ce_snapErr :: "gerror option"
  ce_rawjson :: "string \<Rightarrow> string option"
  ce_zone :: "int \<Rightarrow> int"

definition cliApproval :: "run_flags \<Rightarrow> 'p step_env \<Rightarrow> cli_env \<Rightarrow> trace \<Rightarrow> approval_callback" where
  "cliApproval fl env ce x = (if rf_approvalWebhook fl \<noteq> [] then webhookApprovalCallback env x (rf_approvalWebhook fl) else promptCallback (ce_terminal ce) x)"

definition cliPolicyExecutor :: "run_flags \<Rightarrow> 'p step_env \<Rightarrow> cli_env \<Rightarrow> PolicyConfig \<Rightarrow> trace \<Rightarrow> PolicyExecutor" where
  "cliPolicyExecutor fl env ce pol x =
     \<lparr>pe_Policy = Some pol, pe_RiskScorer = Some (Score NewDefaultRiskScorer), pe_Approval = Some (Some (cliApproval fl env ce x)), pe_Environment = ''development''\<rparr>"

definition cliExec :: "run_flags \<Rightarrow> 'p step_env \<Rightarrow> cli_env \<Rightarrow> AgentConfig \<Rightarrow> PolicyConfig option \<Rightarrow> trace executor" where
  "cliExec fl env ce cfg pol x ctx tool version input =
     (case pol of
        None \<Rightarrow> baseExec env cfg x ctx tool version input
      | Some p \<Rightarrow> pe_Execute (se_cel env) (cliPolicyExecutor fl env ce p x) (baseExec env cfg) x ctx tool version input)"

section \<open>The budget\<close>

text \<open>\<open>budget\<close> is the section of the configuration. The run is blocked when the check succeeds and says so; every error lets it pass.\<close>

definition overBudget :: "run_flags \<Rightarrow> cli_env \<Rightarrow> BudgetConfig option \<Rightarrow> bool" where
  "overBudget fl ce budget =
     (case budget of
        None \<Rightarrow> False
      | Some b \<Rightarrow>
          (let dbPath = (if rf_costDB fl = [] then rf_storePath fl else rf_costDB fl)
           in bc_BudgetLimit b > 0 \<and> dbPath \<noteq> [] \<and>
              (case ce_costs ce dbPath of
                 Inl err \<Rightarrow> False
               | Inr ct \<Rightarrow> (case CheckAndAlert (ce_addDate ce) (NewBudgetGuard b) ct (ce_costQuery ce) (ce_now ce) of (g, alerts, Inr over) \<Rightarrow> over | (g, alerts, Inl err) \<Rightarrow> False))))"

section \<open>Storing\<close>

text \<open>A step with an action becomes a tool call with the next number; the texts are the JSON of input and output, empty without an output (a nil map, the output of a call that failed; the model writes it as the empty map).\<close>

definition callOf :: "(any \<Rightarrow> string) \<Rightarrow> nat \<Rightarrow> StepRecord \<Rightarrow> ToolCall \<Rightarrow> ToolExecution" where
  "callOf marshal n rec a =
     \<lparr>tx_Sequence = int n + 1, tx_Timestamp = sr_Timestamp rec, tx_ToolName = tc_Tool a, tx_Input = marshal (AMap (tc_Input a)),
      tx_Output = (case sr_Result rec of None \<Rightarrow> [] | Some r \<Rightarrow> if tr_Output r = [] then [] else marshal (AMap (tr_Output r))),
      tx_Error = (case sr_Result rec of None \<Rightarrow> [] | Some r \<Rightarrow> tr_Error r), tx_Duration = (case sr_Result rec of None \<Rightarrow> 0 | Some r \<Rightarrow> tr_Duration r),
      tx_RetryCount = 0, tx_SideEffects = [], tx_PolicyDecision = []\<rparr>"

fun snapshotCalls :: "(any \<Rightarrow> string) \<Rightarrow> StepRecord list \<Rightarrow> ToolExecution list \<Rightarrow> ToolExecution list" where
  "snapshotCalls marshal [] calls = calls"
| "snapshotCalls marshal (rec # recs) calls =
     (case sr_Action rec of
        None \<Rightarrow> snapshotCalls marshal recs calls
      | Some a \<Rightarrow> snapshotCalls marshal recs (calls @ [callOf marshal (length calls) rec a]))"

definition placeholderCall :: "nat \<Rightarrow> ModelCall" where
  "placeholderCall i = \<lparr>mk_Sequence = int i + 1, mk_Timestamp = 0, mk_Model = ''recorded'', mk_Provider = ''recorded'', mk_Prompt = [], mk_Response = [], mk_TokensUsed = 0,
     mk_Temperature = 0, mk_MaxTokens = 0, mk_Seed = None, mk_FinishReason = [], mk_Metadata = []\<rparr>"

definition buildSnapshotFromState :: "(any \<Rightarrow> string) \<Rightarrow> string \<Rightarrow> int \<Rightarrow> AgentState \<Rightarrow> RunSnapshot" where
  "buildSnapshotFromState marshal snapID now state =
     (let hist = as_History state; calls = snapshotCalls marshal hist []
      in \<lparr>sn_ID = ''snap-'' @ snapID, sn_RunID = as_RunID state, sn_Version = SnapshotVersion, sn_CreatedAt = now, sn_AgentName = as_AgentName state, sn_Goal = as_Goal state,
          sn_AgentConfig = [], sn_ModelCalls = map placeholderCall [0..<length calls + 1], sn_ToolCalls = calls, sn_Environment = [],
          sn_StartTime = (if hist = [] then now else sr_Timestamp (hd hist)), sn_EndTime = (if hist = [] then now else sr_Timestamp (last hist)),
          sn_FinalState = state_string (as_Current state), sn_Checksums = [], sn_Compressed = False, sn_Encrypted = False, sn_SizeBytes = 0\<rparr>)"

record cli_db =
  cb_runs :: "RunMeta list"
  cb_history :: "history_row list"
  cb_snapshots :: snapshot_table

definition cliRunMeta :: "AgentState \<Rightarrow> RunMeta" where
  "cliRunMeta state = \<lparr>rm_RunID = as_RunID state, rm_AgentName = as_AgentName state, rm_Goal = as_Goal state, rm_State = state_string (as_Current state), rm_StepCount = as_StepCount state,
     rm_CreatedAt = as_CreatedAt state, rm_UpdatedAt = as_UpdatedAt state\<rparr>"

definition storeRun :: "'p step_env \<Rightarrow> cli_env \<Rightarrow> AgentState \<Rightarrow> cli_db \<Rightarrow> cli_db" where
  "storeRun env ce state d =
     \<lparr>cb_runs = fst (sqlite_SaveRun (cb_runs d) (ce_runErr ce) (cliRunMeta state)),
      cb_history = fst (SaveHistory sqliteRow (cb_history d) (ce_historyErr ce) (as_RunID state) (as_History state)),
      cb_snapshots = fst (SaveSnapshot (ce_rawjson ce) (ce_zone ce) (cb_snapshots d) (ce_snapErr ce) (buildSnapshotFromState (se_marshal env) (ce_snapID ce) (ce_now ce) state))\<rparr>"

section \<open>The result\<close>

text \<open>\<open>fmtV\<close> is the verb \<open>%v\<close> of a number.\<close>

definition echoedMessage :: "any smap \<Rightarrow> string option" where
  "echoedMessage out =
     (case map_of out ''echoed'' of
        Some (AMap m) \<Rightarrow> (case map_of m ''message'' of Some (AStr msg) \<Rightarrow> if msg \<noteq> [] then Some msg else None | _ \<Rightarrow> None)
      | _ \<Rightarrow> None)"

definition numberResult :: "(rat \<Rightarrow> string) \<Rightarrow> any smap \<Rightarrow> string option" where
  "numberResult fmtV out = (case map_of out ''result'' of Some (AFloat q) \<Rightarrow> Some (fmtV q) | Some (AInt i) \<Rightarrow> Some (itoa i) | _ \<Rightarrow> None)"

definition bodyText :: "any smap \<Rightarrow> string option" where
  "bodyText out = (case map_of out ''body'' of Some (AStr b) \<Rightarrow> if b = [] then None else Some (if length b > 500 then take 500 b @ ''...'' else b) | _ \<Rightarrow> None)"

definition outputResult :: "(rat \<Rightarrow> string) \<Rightarrow> any smap \<Rightarrow> string option" where
  "outputResult fmtV out =
     (case echoedMessage out of Some s \<Rightarrow> Some s | None \<Rightarrow> (case numberResult fmtV out of Some s \<Rightarrow> Some s | None \<Rightarrow> bodyText out))"

definition extractFinalResult :: "(rat \<Rightarrow> string) \<Rightarrow> AgentState \<Rightarrow> string" where
  "extractFinalResult fmtV state =
     (case List.map_filter (\<lambda>rec. case sr_Result rec of None \<Rightarrow> None | Some r \<Rightarrow> outputResult fmtV (tr_Output r)) (rev (as_History state)) of [] \<Rightarrow> [] | s # ss \<Rightarrow> s)"

section \<open>The command\<close>

definition cliRun :: "run_flags \<Rightarrow> 'p step_env \<Rightarrow> cli_env \<Rightarrow> AgentConfig \<Rightarrow> provider \<Rightarrow> Registry \<Rightarrow> PolicyConfig option \<Rightarrow> 'p \<Rightarrow> AgentState \<times> 'p \<times> trace \<times> gerror option" where
  "cliRun fl env ce cfg prov reg pol p =
     Run (pl_Plan (se_marshal env) (se_unmarshal env) (se_chat env prov) False (cliToolInfos cfg reg)) (cliExec fl env ce cfg pol) (se_run env)
       (NewEngine \<lparr>ec_AgentName = ac_Name cfg, ec_Goal = rf_goal fl, ec_MaxSteps = ac_MaxSteps cfg, ec_Timeout = TimeoutDuration env cfg,
          ec_Autonomy = ac_Autonomy cfg, ec_RunID = []\<rparr> (se_runID env) (se_created env)) p []"

text \<open>The result comes with the database, the calls that reached the registry and the state of the provider.\<close>

definition runRun :: "run_flags \<Rightarrow> 'p step_env \<Rightarrow> cli_env \<Rightarrow> (AgentConfig \<Rightarrow> BudgetConfig option) \<Rightarrow> cli_db \<Rightarrow> 'p \<Rightarrow> cli_db \<times> trace \<times> 'p \<times> (gerror + AgentState)" where
  "runRun fl env ce budget d p =
     (case LoadWithPolicy env (rf_configPath fl) of
        Inl err \<Rightarrow> (d, [], p, Inl (Wrap ''load config: '' err))
      | Inr (cfg, policyPath) \<Rightarrow>
          (case cliProvider env (ac_Model cfg) of
             Inl err \<Rightarrow> (d, [], p, Inl err)
           | Inr prov \<Rightarrow>
               (case stepRegistry env cfg [] of
                  Inl err \<Rightarrow> (d, [], p, Inl err)
                | Inr reg \<Rightarrow>
                    (case (if policyPath = [] then Inr None else (case LoadEngine env policyPath of Inl err \<Rightarrow> Inl err | Inr pol \<Rightarrow> Inr (Some pol))) of
                       Inl err \<Rightarrow> (d, [], p, Inl (Wrap ''load policy: '' err))
                     | Inr pol \<Rightarrow>
                         if ce_log ce \<noteq> None then (d, [], p, Inl (Wrap ''open log file: '' (the (ce_log ce))))
                         else if overBudget fl ce (budget cfg)
                         then (d, [], p, Inl (Errorf (''budget limit exceeded ('' @ ce_fmt2 ce (bc_BudgetLimit (the (budget cfg))) @ '' USD); run blocked'')))
                         else (case cliRun fl env ce cfg prov reg pol p of
                                 (state, p1, x, Some err) \<Rightarrow> (d, x, p1, Inl err)
                               | (state, p1, x, None) \<Rightarrow> (if rf_storePath fl \<noteq> [] \<and> ce_open ce = None then storeRun env ce state d else d, x, p1, Inr state))))))"

section \<open>Runs under a policy\<close>

definition cliPermitted :: "run_flags \<Rightarrow> 'p step_env \<Rightarrow> cli_env \<Rightarrow> PolicyConfig \<Rightarrow> trace \<Rightarrow> call \<Rightarrow> bool" where
  "cliPermitted fl env ce pol x c =
     (case c of (tool, version, input) \<Rightarrow>
        let res = Check (se_cel env) pol \<lparr>ctx_Tool = tool, ctx_Input = input, ctx_Environment = ''development'', ctx_RiskScore = Score NewDefaultRiskScorer tool input\<rparr>
        in \<not> cr_Deny res \<and> (cr_RequireApproval res \<longrightarrow> cliApproval fl env ce x tool input (cr_Approvers res) = (True, None)))"

interpretation cx: guarded_executor "cliExec fl env ce cfg pol" "\<lambda>x c. \<forall>p. pol = Some p \<longrightarrow> cliPermitted fl env ce p x c" for fl env ce cfg pol
proof unfold_locales
  fix x ctx tool version input x1 out err
  assume a: "cliExec fl env ce cfg pol x ctx tool version input = (x1, out, err)"
  show "x1 = x \<and> err \<noteq> None \<or> x1 = x @ [(tool, version, input)] \<and> (\<forall>p. pol = Some p \<longrightarrow> cliPermitted fl env ce p x (tool, version, input))"
  proof (cases pol)
    case None
    with a show ?thesis by (simp add: cliExec_def baseExec_def)
  next
    case (Some p)
    with a show ?thesis
      by (auto simp: cliExec_def baseExec_def pe_Execute_def cliPermitted_def cliPolicyExecutor_def policyContext_def RequestApproval_def Let_def
          split: if_splits prod.splits option.splits)
  qed
qed

lemma cliRun_calls:
  assumes "cliRun fl env ce cfg prov reg pol p = (state, p', x, err)" "0 < ac_MaxSteps cfg"
  shows "(\<forall>q. pol = Some q \<longrightarrow> (\<forall>k < length x. cliPermitted fl env ce q (take k x) (x ! k))) \<and> int (length x) \<le> ac_MaxSteps cfg \<and> as_RunID state = se_runID env \<and>
    (err = None \<longrightarrow> as_Current state = StateCompleted \<and> as_StepCount state \<in> {int (length x), int (length x) + 1})"
  using cx.run_calls [OF assms(1) [unfolded cliRun_def]] assms(2) by (auto simp: NewEngine_def cx.permittedAll_def)

lemma runRun_loaded:
  assumes "runRun fl env ce budget d p = (d', x, p', res)" "LoadWithPolicy env (rf_configPath fl) = Inr (cfg, policyPath)"
  obtains (fails) er where "x = []" "res = Inl er" "d' = d"
  | (ran) prov reg pol state err where "cliRun fl env ce cfg prov reg pol p = (state, p', x, err)" "\<not> overBudget fl ce (budget cfg)"
      "pol = None \<and> policyPath = [] \<or> (\<exists>q. pol = Some q \<and> LoadEngine env policyPath = Inr q)"
      "case err of Some er \<Rightarrow> d' = d \<and> res = Inl er | None \<Rightarrow> res = Inr state \<and> d' = (if rf_storePath fl \<noteq> [] \<and> ce_open ce = None then storeRun env ce state d else d)"
proof (cases "cliProvider env (ac_Model cfg)")
  case (Inl er)
  with assms fails show thesis by (auto simp: runRun_def)
next
  case prov: (Inr prov)
  show thesis
  proof (cases "stepRegistry env cfg []")
    case (Inl er)
    with assms prov fails show thesis by (auto simp: runRun_def)
  next
    case reg: (Inr reg)
    show thesis
    proof (cases "if policyPath = [] then Inr None else (case LoadEngine env policyPath of Inl err \<Rightarrow> Inl err | Inr pol \<Rightarrow> Inr (Some pol))")
      case (Inl er)
      with assms prov reg fails show thesis by (auto simp: runRun_def)
    next
      case pol: (Inr pol)
      show thesis
      proof (cases "ce_log ce \<noteq> None \<or> overBudget fl ce (budget cfg)")
        case True
        with assms prov reg pol fails show thesis by (auto simp: runRun_def split: if_splits)
      next
        case False
        obtain state p1 x1 err where run: "cliRun fl env ce cfg prov reg pol p = (state, p1, x1, err)" by (metis prod_cases4)
        have r: "(d', x, p', res) = (case err of Some er \<Rightarrow> (d, x1, p1, Inl er)
            | None \<Rightarrow> (if rf_storePath fl \<noteq> [] \<and> ce_open ce = None then storeRun env ce state d else d, x1, p1, Inr state))"
          unfolding assms(1) [symmetric] using False by (cases err) (simp_all add: runRun_def assms(2) prov reg pol run)
        then have e1: "x1 = x" "p1 = p'" by (cases err; simp)+
        have "pol = None \<and> policyPath = [] \<or> (\<exists>q. pol = Some q \<and> LoadEngine env policyPath = Inr q)" using pol by (auto split: if_splits sum.splits)
        with ran [OF run [unfolded e1]] False r show thesis by (auto split: option.splits)
      qed
    qed
  qed
qed

section \<open>Snapshots\<close>

lemma snapshotCalls_spec:
  assumes "map tx_Sequence calls = map (\<lambda>i. int i + 1) [0..<length calls]"
  shows "map tx_ToolName (snapshotCalls marshal recs calls) = map tx_ToolName calls @ map tc_Tool (List.map_filter sr_Action recs) \<and>
    map tx_Sequence (snapshotCalls marshal recs calls) = map (\<lambda>i. int i + 1) [0..<length (snapshotCalls marshal recs calls)]"
  using assms
proof (induction recs arbitrary: calls)
  case (Cons rec recs)
  show ?case
  proof (cases "sr_Action rec")
    case None
    with Cons show ?thesis by (simp add: List.map_filter_simps)
  next
    case (Some a)
    have "map tx_Sequence (calls @ [callOf marshal (length calls) rec a]) = map (\<lambda>i. int i + 1) [0..<length (calls @ [callOf marshal (length calls) rec a])]"
      using Cons.prems by (simp add: callOf_def)
    from Cons.IH [OF this] show ?thesis by (simp add: Some List.map_filter_simps callOf_def)
  qed
qed simp

text \<open>Every run that fails leaves no record: neither the run nor its history nor a snapshot.\<close>

lemma failed_run_unrecorded:
  assumes "runRun fl env ce budget d p = (d', x, p', Inl er)"
  shows "d' = d"
proof (cases "LoadWithPolicy env (rf_configPath fl)")
  case (Inr c)
  obtain cfg path where c: "c = (cfg, path)" by fastforce
  from assms Inr [unfolded c] show ?thesis by (cases rule: runRun_loaded) (auto split: option.splits)
qed (use assms in \<open>simp add: runRun_def\<close>)

lemma runRun_stored:
  assumes "runRun fl env ce budget d p = (d', x, p', Inr state)" "rf_storePath fl \<noteq> []" "ce_open ce = None"
  shows "d' = storeRun env ce state d"
proof (cases "LoadWithPolicy env (rf_configPath fl)")
  case (Inr c)
  obtain cfg path where c: "c = (cfg, path)" by fastforce
  from assms(1) Inr [unfolded c] assms(2,3) show ?thesis by (cases rule: runRun_loaded) (auto split: option.splits)
qed (use assms in \<open>simp add: runRun_def\<close>)

text \<open>A budget that cannot be checked does not block.\<close>

lemma budget_fails_open:
  "ce_costs ce (if rf_costDB fl = [] then rf_storePath fl else rf_costDB fl) = Inl er \<Longrightarrow> \<not> overBudget fl ce budget"
  by (cases budget) (simp_all add: overBudget_def Let_def)

section \<open>Properties\<close>

text \<open>
  The command keeps to the budget and to the policy: a run over its budget makes no call and stores nothing; otherwise, when the configuration names a policy, either no call is made or
  the policy was loaded, there are at most \<open>max_steps\<close> calls, and each of them was not denied and was approved at the terminal or by the webhook where the policy asks for it. A run
  that ends without an error is complete, and its snapshot has the calls of its history, numbered from 1 and under the names of their tools.
\<close>

theorem run_command_guarded:
  assumes "runRun fl env ce budget d p = (d', x, p', res)" "LoadWithPolicy env (rf_configPath fl) = Inr (cfg, policyPath)" "policyPath \<noteq> []"
  shows "(overBudget fl ce (budget cfg) \<longrightarrow> x = [] \<and> d' = d \<and> (\<exists>er. res = Inl er)) \<and>
    (x = [] \<or> (\<exists>pol. LoadEngine env policyPath = Inr pol \<and> int (length x) \<le> ac_MaxSteps cfg \<and> (\<forall>k < length x. cliPermitted fl env ce pol (take k x) (x ! k)))) \<and>
    (\<forall>state. res = Inr state \<longrightarrow> as_Current state = StateCompleted \<and>
       (let calls = sn_ToolCalls (buildSnapshotFromState (se_marshal env) (ce_snapID ce) (ce_now ce) state)
        in map tx_ToolName calls = map tc_Tool (List.map_filter sr_Action (as_History state)) \<and> map tx_Sequence calls = map (\<lambda>i. int i + 1) [0..<length calls]))"
  using assms(1,2)
proof (cases rule: runRun_loaded)
  case (ran prov reg pol state err)
  with assms(3) obtain q where q: "pol = Some q" "LoadEngine env policyPath = Inr q" by auto
  have done1: "as_Current st = StateCompleted" if "res = Inr st" for st
    using that ran(4) cliRun_calls [OF ran(1) LoadWithPolicy_ok [OF assms(2)]] by (auto split: option.splits)
  have "let calls = sn_ToolCalls (buildSnapshotFromState (se_marshal env) (ce_snapID ce) (ce_now ce) st)
        in map tx_ToolName calls = map tc_Tool (List.map_filter sr_Action (as_History st)) \<and> map tx_Sequence calls = map (\<lambda>i. int i + 1) [0..<length calls]" for st
    using snapshotCalls_spec [of "[]" "se_marshal env" "as_History st"] by (simp add: buildSnapshotFromState_def Let_def)
  with cliRun_calls [OF ran(1) LoadWithPolicy_ok [OF assms(2)]] q ran(2) done1 show ?thesis by blast
qed simp

end
