(* ===== verification/Workflow_Command.thy ===== *)
theory Workflow_Command
  imports Workflow_Engine Workflow_Executor
begin

text \<open>
  The commands \<open>workflow run\<close> and \<open>workflow validate\<close>, \<open>cmd/unagnt/workflow.go\<close>: a graph is built from the steps of a workflow file and run by the executor of \<open>Workflow_Executor\<close>, or
  checked and its levels shown. The YAML library, the file, the database and the agents are arguments. What is printed is left out.
\<close>

section \<open>Reading a step\<close>

definition getString :: "any smap \<Rightarrow> string \<Rightarrow> string" where
  "getString m key = (case map_of m key of Some (AStr v) \<Rightarrow> v | _ \<Rightarrow> [])"

definition getInt :: "any smap \<Rightarrow> string \<Rightarrow> int" where
  "getInt m key = (case map_of m key of Some (AInt v) \<Rightarrow> v | _ \<Rightarrow> 0)"

fun stringOf :: "any \<Rightarrow> string option" where
  "stringOf (AStr s) = Some s"
| "stringOf v = None"

text \<open>A parsed file has no \<open>[]string\<close>, so that the first case of \<open>getStringSlice\<close> and the second one agree.\<close>

definition getStringSlice :: "any smap \<Rightarrow> string \<Rightarrow> string list" where
  "getStringSlice m key = (case map_of m key of Some (AList vs) \<Rightarrow> List.map_filter stringOf vs | _ \<Rightarrow> [])"

definition nodeOf :: "any smap \<Rightarrow> Node" where
  "nodeOf m =
     \<lparr>node_ID = getString m ''name'', node_Name = getString m ''name'',
      node_Type = (if getString m ''type'' = [] then NodeTypeAgent else getString m ''type''),
      node_Agent = getString m ''agent'', node_Goal = getString m ''goal'', node_Condition = getString m ''condition'', node_OutputKey = getString m ''output_key'',
      node_Timeout = getString m ''timeout'', node_Retry = getInt m ''retry'', node_Dependencies = getStringSlice m ''depends_on'', node_Metadata = [],
      node_Approvers = getStringSlice m ''approvers'', node_ApprovalMessage = getString m ''approval_message''\<rparr>"

text \<open>\<open>None\<close>: the loop continues, because the step is no map or has no name.\<close>

fun stepNode :: "any \<Rightarrow> Node option" where
  "stepNode (AMap m) = (if getString m ''name'' = [] then None else Some (nodeOf m))"
| "stepNode v = None"

section \<open>Building the graph\<close>

fun addSteps :: "any list \<Rightarrow> DAG \<Rightarrow> gerror + DAG" where
  "addSteps [] d = Inr d"
| "addSteps (v # vs) d =
     (case stepNode v of
        None \<Rightarrow> addSteps vs d
      | Some node \<Rightarrow> (case AddNode node d of (d1, Some err) \<Rightarrow> Inl err | (d1, None) \<Rightarrow> addSteps vs d1))"

fun addEdges :: "(string \<times> string) list \<Rightarrow> DAG \<Rightarrow> gerror + DAG" where
  "addEdges [] d = Inr d"
| "addEdges ((dep, i) # es) d = (case AddEdge dep i d of (d1, Some err) \<Rightarrow> Inl err | (d1, None) \<Rightarrow> addEdges es d1)"

text \<open>
  The two loops over the nodes and their dependencies, which \<open>AddEdge\<close> does not change. Go ranges over a map in any order: \<open>order\<close> gives the order of its keys.
\<close>

definition dependencyEdges :: "(string list \<Rightarrow> string list) \<Rightarrow> DAG \<Rightarrow> (string \<times> string) list" where
  "dependencyEdges order d =
     concat (map (\<lambda>i. case map_of (dag_Nodes d) i of None \<Rightarrow> [] | Some node \<Rightarrow> map (\<lambda>dep. (dep, node_ID node)) (node_Dependencies node)) (order (node_ids d)))"

definition buildDAGFromWorkflow :: "(string list \<Rightarrow> string list) \<Rightarrow> any smap \<Rightarrow> gerror + DAG" where
  "buildDAGFromWorkflow order workflowDef =
     (case map_of workflowDef ''steps'' of
        Some (AList steps) \<Rightarrow> (case addSteps steps NewDAG of Inl err \<Rightarrow> Inl err | Inr d \<Rightarrow> addEdges (dependencyEdges order d) d)
      | _ \<Rightarrow> Inl (Errorf (''workflow must have '' @ [CHR 0x27] @ ''steps'' @ [CHR 0x27] @ '' field'')))"

section \<open>The commands\<close>

text \<open>The file, the YAML library, the order of a map, the error of opening the database, the compiled conditions, the step executor and the executor's own environment.\<close>

record workflow_env =
  wx_readFile :: "string \<Rightarrow> gerror + string"
  wx_yaml :: "string \<Rightarrow> gerror + any smap"
  wx_order :: "string list \<Rightarrow> string list"
  wx_openDB :: "gerror option"
  wx_cond :: "(string \<Rightarrow> any smap \<Rightarrow> gerror + bool) option"
  wx_executeStep :: "string \<Rightarrow> string \<Rightarrow> any smap \<Rightarrow> gerror + StepResult option"
  wx_env :: "reqs environment"
  wx_schedule :: "nat \<Rightarrow> string list"
  wx_now :: int

definition loadDAG :: "workflow_env \<Rightarrow> string \<Rightarrow> gerror + DAG" where
  "loadDAG we path =
     (case wx_readFile we path of
        Inl err \<Rightarrow> Inl (Wrap ''read workflow file: '' err)
      | Inr data \<Rightarrow>
          (case wx_yaml we data of
             Inl err \<Rightarrow> Inl (Wrap ''parse workflow: '' err)
           | Inr workflowDef \<Rightarrow> (case buildDAGFromWorkflow (wx_order we) workflowDef of Inl err \<Rightarrow> Inl (Wrap ''build DAG: '' err) | Inr dag \<Rightarrow> Inr dag)))"

definition workflowAgentAdapter :: "(string \<Rightarrow> string \<Rightarrow> any smap \<Rightarrow> gerror + StepResult option) \<Rightarrow> string \<Rightarrow> string \<Rightarrow> any smap \<Rightarrow> gerror + any" where
  "workflowAgentAdapter inner agent goal outputs =
     (case inner agent goal outputs of
        Inl err \<Rightarrow> Inl err
      | Inr None \<Rightarrow> Inr (AMap [(''status'', AStr ''completed'')])
      | Inr (Some res) \<Rightarrow> Inr (st_Output res))"

text \<open>The two queues behind the executor's interface.\<close>

definition cliQueue :: "bool \<Rightarrow> reqs approval_api" where
  "cliQueue autoApprove =
     (if autoApprove then \<lparr>api_Enqueue = (\<lambda>q i now tool input ap run stp. (auto_Enqueue q i now tool input ap run stp, Inr i)), api_Get = (\<lambda>q i. Inr (auto_Get q i))\<rparr>
      else \<lparr>api_Enqueue = (\<lambda>q i now tool input ap run stp. (mem_Enqueue q i now tool input ap run stp, Inr i)), api_Get = (\<lambda>q i. Inr (mem_Get q i))\<rparr>)"

definition cliExecutor :: "workflow_env \<Rightarrow> bool \<Rightarrow> reqs Executor" where
  "cliExecutor we autoApprove = WithAgentNodeExecutor (NewExecutorWithApproval (wx_cond we) (cliQueue autoApprove)) (workflowAgentAdapter (wx_executeStep we))"

text \<open>As in \<open>Execute\<close>, \<open>Inr None\<close> means that the schedule stops before the call returns.\<close>

definition workflowRun :: "workflow_env \<Rightarrow> string \<Rightarrow> string \<Rightarrow> bool \<Rightarrow> StateStore \<Rightarrow> gerror + (reqs xstate \<times> gerror option) option" where
  "workflowRun we path resumeID autoApprove st =
     (case loadDAG we path of
        Inl err \<Rightarrow> Inl err
      | Inr dag \<Rightarrow>
          (case wx_openDB we of
             Some err \<Rightarrow> Inl (Wrap ''open workflow db: '' err)
           | None \<Rightarrow>
               (let queue = (if autoApprove then NewAutoApprovalQueue else NewMemoryApprovalQueue); executor = cliExecutor we autoApprove
                in if resumeID \<noteq> []
                   then (case Resume executor (wx_env we) (wx_schedule we) resumeID dag (Some st) queue of
                           Inl err \<Rightarrow> Inl (Wrap ''resume workflow: '' err)
                         | Inr r \<Rightarrow> Inr (map_option (\<lambda>(s, e). (s, map_option (Wrap ''resume workflow: '') e)) r))
                   else (case Execute executor (wx_env we) (wx_schedule we) dag (''wf-'' @ itoa (go_div (wx_now we) 1000000000)) (wx_now we) (Some st) queue of
                           Inl err \<Rightarrow> Inl (Wrap ''execute workflow: '' err)
                         | Inr r \<Rightarrow> Inr (map_option (\<lambda>(s, e). (s, map_option (Wrap ''execute workflow: '') e)) r)))))"

record validation =
  va_nodes :: nat
  va_roots :: "string list"
  va_leaves :: "string list"
  va_levels :: "string list list"

definition workflowValidate :: "workflow_env \<Rightarrow> string \<Rightarrow> gerror + validation" where
  "workflowValidate we path =
     (case loadDAG we path of
        Inl err \<Rightarrow> Inl err
      | Inr dag \<Rightarrow>
          (case Validate dag of
             Some err \<Rightarrow> Inl err
           | None \<Rightarrow> Inr \<lparr>va_nodes = length (dag_Nodes dag), va_roots = GetRoots dag, va_leaves = GetLeaves dag,
                 va_levels = (case GetExecutionLevels dag of Inl err \<Rightarrow> [] | Inr levels \<Rightarrow> levels)\<rparr>))"

section \<open>The graph of a workflow\<close>

text \<open>What a file says: its nodes and who waits for whom.\<close>

definition workflowNodes :: "any smap \<Rightarrow> Node list" where
  "workflowNodes workflowDef = (case map_of workflowDef ''steps'' of Some (AList steps) \<Rightarrow> List.map_filter stepNode steps | _ \<Rightarrow> [])"

definition dependsOn :: "Node list \<Rightarrow> (string \<times> string) set" where
  "dependsOn nodes = {(dep, node_ID n) |dep n. n \<in> set nodes \<and> dep \<in> set (node_Dependencies n)}"

lemma stepNode_named: "stepNode v = Some node \<Longrightarrow> node_ID node \<noteq> []"
  by (cases v) (auto simp: nodeOf_def split: if_splits)

lemma alist_update_new: "k \<notin> set (keys m) \<Longrightarrow> AList.update k v m = m @ [(k, v)]"
  by (induction m) auto

lemma AddNode_new:
  assumes "dag_wf d" "node_ID node \<noteq> []" "node_ID node \<notin> set (node_ids d)"
  obtains d1 where "AddNode node d = (d1, None)" "dag_wf d1" "dag_Nodes d1 = dag_Nodes d @ [(node_ID node, node)]" "dag_rel d1 = dag_rel d"
proof
  let ?d1 = "d\<lparr>dag_Nodes := AList.update (node_ID node) node (dag_Nodes d), dag_Edges := AList.update (node_ID node) [] (dag_Edges d)\<rparr>"
  show a: "AddNode node d = (?d1, None)" using assms by (simp add: AddNode_def has_key_iff)
  show "dag_wf ?d1" using dag_wf_AddNode [OF assms(1), of node] a by simp
  show "dag_Nodes ?d1 = dag_Nodes d @ [(node_ID node, node)]" using assms(3) by (simp add: alist_update_new)
  have "node_ID node \<notin> set (keys (dag_Edges d))" using assms(1,3) by (simp add: dag_wf_def)
  then have "edges_of d (node_ID node) = []" by (simp add: get_list_def map_of_eq_None_iff [THEN iffD2])
  then have "(edges_of d)(node_ID node := []) = edges_of d" by (metis fun_upd_triv)
  then show "dag_rel ?d1 = dag_rel d" by simp
qed

lemma addSteps_graph:
  "dag_wf d \<Longrightarrow>
   (if distinct (map node_ID (List.map_filter stepNode vs)) \<and> set (map node_ID (List.map_filter stepNode vs)) \<inter> set (node_ids d) = {}
    then \<exists>d'. addSteps vs d = Inr d' \<and> dag_wf d' \<and> dag_rel d' = dag_rel d \<and> dag_Nodes d' = dag_Nodes d @ map (\<lambda>n. (node_ID n, n)) (List.map_filter stepNode vs)
    else \<exists>err. addSteps vs d = Inl err)"
proof (induction vs arbitrary: d)
  case (Cons v vs)
  show ?case
  proof (cases "stepNode v")
    case None
    with Cons.IH [OF Cons.prems] show ?thesis by (simp add: List.map_filter_simps)
  next
    case node: (Some node)
    note named = stepNode_named [OF node]
    show ?thesis
    proof (cases "node_ID node \<in> set (node_ids d)")
      case True
      with node named show ?thesis by (auto simp: List.map_filter_simps AddNode_def has_key_iff)
    next
      case False
      from AddNode_new [OF Cons.prems named False] obtain d1 where d1: "AddNode node d = (d1, None)" "dag_wf d1"
        "dag_Nodes d1 = dag_Nodes d @ [(node_ID node, node)]" "dag_rel d1 = dag_rel d" .
      from Cons.IH [OF d1(2)] False show ?thesis by (auto simp: node d1 List.map_filter_simps split: if_splits)
    qed
  qed
qed (simp add: List.map_filter_simps)

lemma AddEdge_rel:
  assumes "dag_wf d" "AddEdge u v d = (d1, None)"
  shows "dag_wf d1" "dag_Nodes d1 = dag_Nodes d" "dag_rel d1 = insert (u, v) (dag_rel d)" "u \<in> set (node_ids d)" "v \<in> set (node_ids d)"
proof -
  from AddEdge_cases [OF assms(1), of u v] assms(2)
  have e: "u \<in> set (node_ids d)" "v \<in> set (node_ids d)" "d1 = d\<lparr>dag_Edges := AList.update u (edges_of d u @ [v]) (dag_Edges d)\<rparr>" by auto
  then show "u \<in> set (node_ids d)" "v \<in> set (node_ids d)" "dag_Nodes d1 = dag_Nodes d" by simp_all
  show "dag_wf d1" using dag_wf_AddEdge [OF assms(1), of u v] assms(2) by simp
  show "dag_rel d1 = insert (u, v) (dag_rel d)" unfolding e(3) by (auto simp: succ_rel_def split: if_splits)
qed

lemma addEdges_rel:
  "dag_wf d \<Longrightarrow> addEdges es d = Inr d' \<Longrightarrow>
   dag_wf d' \<and> dag_Nodes d' = dag_Nodes d \<and> dag_rel d' = dag_rel d \<union> set es \<and> set es \<subseteq> set (node_ids d) \<times> set (node_ids d)"
proof (induction es d rule: addEdges.induct)
  case (2 u v es d)
  from 2(3) obtain d1 where d1: "AddEdge u v d = (d1, None)" "addEdges es d1 = Inr d'" by (auto split: prod.splits option.splits)
  note r = AddEdge_rel [OF 2(2) d1(1)]
  from 2(1) [OF d1(1) [symmetric] refl r(1) d1(2)] r show ?case by auto
qed simp

lemma addEdges_succeeds:
  "dag_wf d \<Longrightarrow> set es \<subseteq> set (node_ids d) \<times> set (node_ids d) \<Longrightarrow> acyclic (dag_rel d \<union> set es) \<Longrightarrow> \<exists>d'. addEdges es d = Inr d'"
proof (induction es arbitrary: d)
  case (Cons e es)
  obtain u v where e: "e = (u, v)" by (cases e)
  have "succ_rel ((edges_of d)(u := edges_of d u @ [v])) = insert (u, v) (dag_rel d)" by (auto simp: succ_rel_def split: if_splits)
  moreover have "acyclic (insert (u, v) (dag_rel d))" using Cons.prems(3) by (rule acyclic_subset) (auto simp: e)
  ultimately have "snd (AddEdge u v d) = None" using Cons.prems(1,2) e by (intro AddEdge_refused) auto
  then obtain d1 where d1: "AddEdge u v d = (d1, None)" by (cases "AddEdge u v d") auto
  note r = AddEdge_rel [OF Cons.prems(1) d1]
  have "\<exists>d'. addEdges es d1 = Inr d'" using Cons.prems r e by (intro Cons.IH) auto
  with d1 e show ?case by simp
qed simp

lemma map_of_nodes: "distinct (map node_ID ns) \<Longrightarrow> n \<in> set ns \<Longrightarrow> map_of (map (\<lambda>n. (node_ID n, n)) ns) (node_ID n) = Some n"
  by (rule map_of_is_SomeI) (auto simp: comp_def)

lemma dependencyEdges_set:
  assumes "\<And>ks. set (order ks) = set ks" "dag_Nodes d = map (\<lambda>n. (node_ID n, n)) ns" "distinct (map node_ID ns)"
  shows "set (dependencyEdges order d) = dependsOn ns"
  using map_of_nodes [OF assms(3)] by (auto simp: dependencyEdges_def assms(1,2) dependsOn_def dest!: map_of_SomeD split: option.splits)

lemma build_graph:
  assumes "\<And>ks. set (order ks) = set ks" "buildDAGFromWorkflow order workflowDef = Inr dag"
  shows "dag_wf dag" "dag_Nodes dag = map (\<lambda>n. (node_ID n, n)) (workflowNodes workflowDef)" "dag_rel dag = dependsOn (workflowNodes workflowDef)"
proof -
  from assms(2) obtain steps d where b: "map_of workflowDef ''steps'' = Some (AList steps)" "addSteps steps NewDAG = Inr d" "addEdges (dependencyEdges order d) d = Inr dag"
    by (auto simp: buildDAGFromWorkflow_def split: option.splits any.splits sum.splits)
  let ?ns = "List.map_filter stepNode steps"
  have ns: "workflowNodes workflowDef = ?ns" by (simp add: workflowNodes_def b)
  have d: "distinct (map node_ID ?ns)" "dag_wf d" "dag_rel d = {}" "dag_Nodes d = map (\<lambda>n. (node_ID n, n)) ?ns"
    using addSteps_graph [OF dag_wf_NewDAG, of steps] b(2) by (auto simp: NewDAG_def succ_rel_def get_list_def split: if_splits)
  note r = addEdges_rel [OF d(2) b(3)] dependencyEdges_set [OF assms(1) d(4,1)]
  then show "dag_wf dag" "dag_Nodes dag = map (\<lambda>n. (node_ID n, n)) (workflowNodes workflowDef)" "dag_rel dag = dependsOn (workflowNodes workflowDef)"
    by (simp_all add: d ns)
qed

lemma build_succeeds:
  assumes "\<And>ks. set (order ks) = set ks" "map_of workflowDef ''steps'' = Some (AList steps)" "distinct (map node_ID (workflowNodes workflowDef))"
    "fst ` dependsOn (workflowNodes workflowDef) \<subseteq> set (map node_ID (workflowNodes workflowDef))" "acyclic (dependsOn (workflowNodes workflowDef))"
  shows "\<exists>dag. buildDAGFromWorkflow order workflowDef = Inr dag"
proof -
  let ?ns = "List.map_filter stepNode steps"
  have ns: "workflowNodes workflowDef = ?ns" by (simp add: workflowNodes_def assms(2))
  obtain d where d: "addSteps steps NewDAG = Inr d" "dag_wf d" "dag_rel d = {}" "dag_Nodes d = map (\<lambda>n. (node_ID n, n)) ?ns"
    using addSteps_graph [OF dag_wf_NewDAG, of steps] assms(3) ns by (auto simp: NewDAG_def succ_rel_def get_list_def split: if_splits)
  note deps = dependencyEdges_set [OF assms(1) d(4) assms(3) [unfolded ns]]
  have "snd ` dependsOn ?ns \<subseteq> set (map node_ID ?ns)" by (auto simp: dependsOn_def)
  with assms(4) have "set (dependencyEdges order d) \<subseteq> set (node_ids d) \<times> set (node_ids d)" by (force simp: deps d ns)
  moreover have "acyclic (dag_rel d \<union> set (dependencyEdges order d))" using assms(5) by (simp add: deps d ns)
  ultimately obtain dag where "addEdges (dependencyEdges order d) d = Inr dag" using addEdges_succeeds [OF d(2)] by blast
  then show ?thesis by (simp add: buildDAGFromWorkflow_def assms(2) d)
qed

section \<open>Approvals at the command line\<close>

lemma auto_approves:
  "env_polls env i = p # ps \<Longrightarrow> fst p = (\<lambda>q. q) \<Longrightarrow>
   snd (executeApprovalNode (cliExecutor we True) env node i w outputs q) = Some (Inr (AMap [(''approved'', ABool True), (''approval_id'', AStr (env_uuid env i))]))"
  by (cases p) (simp add: executeApprovalNode_def cliExecutor_def WithAgentNodeExecutor_def NewExecutorWithApproval_def NewExecutor_def cliQueue_def auto_Enqueue_def auto_Get_def Let_def)

text \<open>
  The queue in memory belongs to the process of the command, and no other part of it answers requests: without \<open>--auto-approve\<close> an approval step is never approved.
\<close>

lemma unanswered_loop:
  "map_of q rid = Some req \<Longrightarrow> ar_Status req = ''pending'' \<Longrightarrow> \<forall>p \<in> set ps. fst p = (\<lambda>q. q) \<Longrightarrow>
   snd (approvalLoop (cliQueue False) node rid deadline q ps) \<noteq> Some (Inr v)"
  by (induction ps) (auto simp: cliQueue_def mem_Get_def Let_def split: select_event.splits if_splits)

lemma approval_step_never_approved:
  assumes "\<forall>p \<in> set (env_polls env i). fst p = (\<lambda>q. q)"
  shows "snd (executeApprovalNode (cliExecutor we False) env node i w outputs q) \<noteq> Some (Inr v)"
proof -
  have q: "api_Enqueue (cliQueue False) q (env_uuid env i) now tool input ap w i = (mem_Enqueue q (env_uuid env i) now tool input ap w i, Inr (env_uuid env i))" for now tool input ap
    by (simp add: cliQueue_def)
  have "approvalQueue (cliExecutor we False) = Some (cliQueue False)" by (simp add: cliExecutor_def WithAgentNodeExecutor_def NewExecutorWithApproval_def)
  then show ?thesis by (simp add: executeApprovalNode_def q Let_def unanswered_loop [OF _ _ assms] mem_Enqueue_def)
qed

section \<open>Properties\<close>

text \<open>
  C40. A workflow file gives exactly its graph, in whatever order the map of nodes is walked: the build succeeds if and only if there is a list of steps, no two named steps share a name, every
  dependency names a step, and the dependencies have no cycle; then the nodes are the named steps in their order and the edges are the dependencies, from the step waited for to the step that waits.
\<close>

theorem workflow_graph_exact:
  assumes "\<And>ks. set (order ks) = set ks"
  shows "((\<exists>dag. buildDAGFromWorkflow order workflowDef = Inr dag) \<longleftrightarrow>
      (\<exists>steps. map_of workflowDef ''steps'' = Some (AList steps)) \<and> distinct (map node_ID (workflowNodes workflowDef)) \<and>
      fst ` dependsOn (workflowNodes workflowDef) \<subseteq> set (map node_ID (workflowNodes workflowDef)) \<and> acyclic (dependsOn (workflowNodes workflowDef))) \<and>
    (\<forall>dag. buildDAGFromWorkflow order workflowDef = Inr dag \<longrightarrow>
      map snd (dag_Nodes dag) = workflowNodes workflowDef \<and> succ_rel (get_list (dag_Edges dag)) = dependsOn (workflowNodes workflowDef))"
proof -
  let ?ns = "workflowNodes workflowDef"
  have "(\<exists>steps. map_of workflowDef ''steps'' = Some (AList steps)) \<and> distinct (map node_ID ?ns) \<and> fst ` dependsOn ?ns \<subseteq> set (map node_ID ?ns) \<and> acyclic (dependsOn ?ns)"
    if b: "buildDAGFromWorkflow order workflowDef = Inr dag" for dag
  proof -
    note g = build_graph [OF assms b]
    from edges_closed_rel [OF dag_wf_closed [OF g(1)]] g(2) have "dependsOn ?ns \<subseteq> set (map node_ID ?ns) \<times> set (map node_ID ?ns)" by (simp add: g(3) comp_def)
    moreover have "distinct (map node_ID ?ns)" "acyclic (dependsOn ?ns)" using g by (auto simp: dag_wf_def maps_ok_def comp_def)
    moreover have "\<exists>steps. map_of workflowDef ''steps'' = Some (AList steps)" using b by (auto simp: buildDAGFromWorkflow_def split: option.splits any.splits)
    ultimately show ?thesis by force
  qed
  then have "(\<exists>dag. buildDAGFromWorkflow order workflowDef = Inr dag) \<longleftrightarrow>
      (\<exists>steps. map_of workflowDef ''steps'' = Some (AList steps)) \<and> distinct (map node_ID ?ns) \<and> fst ` dependsOn ?ns \<subseteq> set (map node_ID ?ns) \<and> acyclic (dependsOn ?ns)"
    using build_succeeds [OF assms, of workflowDef] by blast
  moreover have "map snd (dag_Nodes dag) = ?ns \<and> dag_rel dag = dependsOn ?ns" if "buildDAGFromWorkflow order workflowDef = Inr dag" for dag
    using build_graph [OF assms that] by (simp add: comp_def)
  ultimately show ?thesis by blast
qed

definition demoWorkflow :: "any smap" where
  "demoWorkflow = [(''steps'', AList [AMap [(''name'', AStr ''test''), (''depends_on'', AList [AStr ''build''])], AStr ''note'', AMap [(''name'', AStr ''build'')]])]"

theorem workflow_graph_exact_witness:
  "\<exists>dag. buildDAGFromWorkflow rev demoWorkflow = Inr dag \<and> map (node_ID \<circ> snd) (dag_Nodes dag) = [''test'', ''build''] \<and>
     succ_rel (get_list (dag_Edges dag)) = {(''build'', ''test'')}"
proof -
  have "case buildDAGFromWorkflow rev demoWorkflow of Inr dag \<Rightarrow> True | Inl err \<Rightarrow> False" by code_simp
  then obtain dag where b: "buildDAGFromWorkflow rev demoWorkflow = Inr dag" by (auto split: sum.splits)
  have n: "map (\<lambda>n. (node_ID n, node_Dependencies n)) (workflowNodes demoWorkflow) = [(''test'', [''build'']), (''build'', [])]" by code_simp
  have "dependsOn ns = {(dep, i) |dep i deps. (i, deps) \<in> set (map (\<lambda>n. (node_ID n, node_Dependencies n)) ns) \<and> dep \<in> set deps}" for ns
    by (auto simp: dependsOn_def)
  then have "dependsOn (workflowNodes demoWorkflow) = {(''build'', ''test'')}" by (auto simp only: n) auto
  moreover have "map node_ID (workflowNodes demoWorkflow) = [''test'', ''build'']" using arg_cong [OF n, of "map fst"] by (simp add: comp_def)
  ultimately show ?thesis using workflow_graph_exact [of rev demoWorkflow, OF set_rev] b by (metis map_map)
qed

text \<open>
  The command \<open>workflow run\<close> keeps the order the file asks for: when a new workflow has run, however its steps were interleaved and whatever failed, a step that was started has every
  step it depends on completed or skipped.
\<close>

theorem workflow_run_ordered:
  assumes "\<And>ks. set (wx_order we ks) = set ks" "wx_readFile we path = Inr data" "wx_yaml we data = Inr workflowDef"
    and "workflowRun we path [] autoApprove st = Inr (Some (s, err))"
    and "n \<in> set (workflowNodes workflowDef)" "dep \<in> set (node_Dependencies n)" "status_of s (node_ID n) \<noteq> Some ''pending''"
  shows "status_of s dep \<in> {Some ''completed'', Some ''skipped''}"
proof -
  from assms(2-4) obtain dag where b: "buildDAGFromWorkflow (wx_order we) workflowDef = Inr dag"
    by (auto simp: workflowRun_def loadDAG_def split: sum.splits)
  with assms(2-4) obtain e where r: "Execute (cliExecutor we autoApprove) (wx_env we) (wx_schedule we) dag (''wf-'' @ itoa (go_div (wx_now we) 1000000000)) (wx_now we) (Some st)
      (if autoApprove then NewAutoApprovalQueue else NewMemoryApprovalQueue) = Inr (Some (s, e))"
    by (auto simp: workflowRun_def loadDAG_def Let_def split: option.splits sum.splits prod.splits if_splits)
  note g = build_graph [OF assms(1) b]
  have "(dep, node_ID n) \<in> dag_rel dag" using assms(5,6) by (auto simp: g dependsOn_def)
  with Execute_order [OF _ r _ assms(7), of dep] g(1) show ?thesis by (auto simp: dag_wf_def)
qed

end
