(* ===== verification/Replay_Command.thy ===== *)
theory Replay_Command
  imports Run_Command Replay_Replayer Http_Server
begin

text \<open>
  The command \<open>replay\<close>, \<open>cmd/unagnt/replay.go\<close>: the replay of a stored snapshot, the list of snapshots, and the interactive debugger over the cursor of \<open>Replay_Replayer\<close>. What the
  debugger prints is a value of \<open>shown\<close>; the report of a replay and the column layout of the list are left out.
\<close>

section \<open>Sizes\<close>

text \<open>\<open>fmt1\<close> is the verb \<open>%.1f\<close>. \<open>None\<close>: the index into the units is out of range and the program panics.\<close>

function sizeLoop :: "int \<Rightarrow> int \<Rightarrow> nat \<Rightarrow> int \<times> nat" where
  "sizeLoop n dv ex = (if n \<ge> 1024 then sizeLoop (n div 1024) (dv * 1024) (ex + 1) else (dv, ex))"
  by pat_completeness auto
termination
  by (relation "measure (\<lambda>(n, dv, ex). nat n)") auto

declare sizeLoop.simps [simp del]

definition formatSize :: "(rat \<Rightarrow> string) \<Rightarrow> int \<Rightarrow> string option" where
  "formatSize fmt1 bytes =
     (if bytes < 1024 then Some (itoa bytes @ '' B'')
      else (case sizeLoop (bytes div 1024) 1024 0 of
              (dv, ex) \<Rightarrow> if ex < 6 then Some (fmt1 (of_int bytes / of_int dv) @ '' '' @ [''KMGTPE'' ! ex] @ ''B'') else None))"

section \<open>Replaying and listing\<close>

text \<open>The live executor: an error of the call, an error of the tool, or the JSON of its output.\<close>

definition liveToolExecutorAdapter :: "(any \<Rightarrow> gerror + string) \<Rightarrow> (string \<Rightarrow> string \<Rightarrow> string \<Rightarrow> gerror + ToolResult) \<Rightarrow> string \<Rightarrow> string \<Rightarrow> string \<Rightarrow> gerror + string" where
  "liveToolExecutorAdapter marshal inner toolName version input =
     (case inner toolName version input of
        Inl err \<Rightarrow> Inl err
      | Inr res \<Rightarrow>
          if tr_Error res \<noteq> [] then Inl (Errorf (''tool '' @ toolName @ '': '' @ tr_Error res))
          else if tr_Output res = [] then Inr ''{}''
          else marshal (AMap (tr_Output res)))"

record replay_flags =
  yf_mode :: string
  yf_storePath :: string
  yf_start :: int
  yf_stop :: int
  yf_breakpoints :: "int list"
  yf_sideEffects :: bool

text \<open>\<open>db\<close> is the error of opening or reading the database, \<open>tools\<close> the executor over the built-in tools at each call, \<open>env\<close> the clock and the network. The verb \<open>%q\<close> only adds
  quotes to an identifier of printable characters.\<close>

definition replayRun :: "codec \<Rightarrow> replay_env \<Rightarrow> (nat \<Rightarrow> string \<Rightarrow> string \<Rightarrow> string \<Rightarrow> gerror + string) \<Rightarrow> replay_flags \<Rightarrow> snapshot_table \<Rightarrow> gerror option \<Rightarrow> string \<Rightarrow>
    gerror + (ReplayResult \<times> string list)" where
  "replayRun cd env tools fl t db snapshotID =
     (case (if yf_storePath fl = [] then Inl (Errorf []) else LoadSnapshot t db snapshotID) of
        Inl err \<Rightarrow> Inl (Errorf (''snapshot '' @ [CHR 0x22] @ snapshotID @ [CHR 0x22] @ '' not found (use --store to specify database)''))
      | Inr sn \<Rightarrow>
          (let live = (if yf_mode fl = ''live'' \<or> yf_mode fl = ''mixed'' then Some tools else None);
               opts = \<lparr>op_Mode = yf_mode fl, op_SnapshotID = snapshotID, op_StartFromSequence = yf_start fl, op_StopAtSequence = yf_stop fl, op_Breakpoints = yf_breakpoints fl,
                 op_OverrideConfig = [], op_ExecuteSideEffects = yf_sideEffects fl, op_VerifyOutputs = True\<rparr>
           in case Replay cd (env\<lparr>rv_live := live\<rparr>) sn opts of
                Inl err \<Rightarrow> Inl (Wrap ''replay failed: '' err)
              | Inr r \<Rightarrow> Inr r))"

text \<open>Any error makes the list empty. Each row comes with its size as text.\<close>

definition replayList :: "(rat \<Rightarrow> string) \<Rightarrow> string \<Rightarrow> snapshot_table \<Rightarrow> gerror option \<Rightarrow> string \<Rightarrow> int \<Rightarrow> (SnapshotMetadata \<times> string option) list" where
  "replayList fmt1 storePath t db runID limit =
     (if storePath = [] then []
      else (case ListSnapshots t db runID limit of Inl err \<Rightarrow> [] | Inr ms \<Rightarrow> map (\<lambda>m. (m, formatSize fmt1 (mt_SizeBytes m))) ms))"

section \<open>The debugger\<close>

definition debugCall :: "int \<Rightarrow> string \<Rightarrow> string \<Rightarrow> string \<Rightarrow> ToolExecution" where
  "debugCall n tool input output = \<lparr>tx_Sequence = n, tx_Timestamp = 0, tx_ToolName = tool, tx_Input = input, tx_Output = output, tx_Error = [], tx_Duration = 0,
     tx_RetryCount = 0, tx_SideEffects = [], tx_PolicyDecision = []\<rparr>"

text \<open>\<open>parse\<close> decodes a snapshot. Without a file the snapshot is made up.\<close>

definition loadSnapshotForDebug :: "(string \<Rightarrow> gerror + string) \<Rightarrow> (string \<Rightarrow> gerror + RunSnapshot) \<Rightarrow> int \<Rightarrow> string \<Rightarrow> string \<Rightarrow> gerror + RunSnapshot" where
  "loadSnapshotForDebug readFile parse now snapshotID filePath =
     (if filePath \<noteq> []
      then (case readFile filePath of
              Inl err \<Rightarrow> Inl (Wrap ''read snapshot file: '' err)
            | Inr data \<Rightarrow> (case parse data of Inl err \<Rightarrow> Inl (Wrap ''parse snapshot: '' err) | Inr sn \<Rightarrow> Inr sn))
      else Inr \<lparr>sn_ID = snapshotID, sn_RunID = ''run-'' @ snapshotID, sn_Version = [], sn_CreatedAt = 0, sn_AgentName = ''demo'', sn_Goal = ''demo goal'', sn_AgentConfig = [],
             sn_ModelCalls = [],
             sn_ToolCalls = [debugCall 1 ''echo'' ''{\"msg\":\"a\"}'' ''{\"echoed\":\"a\"}'', debugCall 2 ''calc'' ''{\"op\":\"add\",\"a\":1,\"b\":2}'' ''{\"result\":3}''],
             sn_Environment = [], sn_StartTime = now - 60 * 1000000000, sn_EndTime = now, sn_FinalState = ''completed'', sn_Checksums = [], sn_Compressed = False,
             sn_Encrypted = False, sn_SizeBytes = 0\<rparr>)"

text \<open>\<open>strings.Fields\<close> on ASCII text.\<close>

definition fieldSpace :: "char \<Rightarrow> bool" where
  "fieldSpace c = (c \<in> {CHR '' '', CHR 0x09, CHR 0x0A, CHR 0x0B, CHR 0x0C, CHR 0x0D})"

fun splitFields :: "string \<Rightarrow> string \<Rightarrow> string list" where
  "splitFields word [] = (if word = [] then [] else [word])"
| "splitFields word (c # cs) =
     (if fieldSpace c then (if word = [] then splitFields [] cs else word # splitFields [] cs) else splitFields (word @ [c]) cs)"

text \<open>The value \<open>strconv.Atoi\<close> returns beside its error: 0 for what is no number, the nearest 64-bit integer out of range.\<close>

fun uintValue :: "string \<Rightarrow> nat \<Rightarrow> nat option" where
  "uintValue [] acc = Some acc"
| "uintValue (c # cs) acc =
     (case digit c of None \<Rightarrow> None | Some d \<Rightarrow> if 10 * acc + d \<ge> 2 ^ 64 then Some (2 ^ 64 - 1) else uintValue cs (10 * acc + d))"

definition atoiValue :: "string \<Rightarrow> int" where
  "atoiValue s =
     (let neg = (s \<noteq> [] \<and> hd s = CHR ''-'');
          ds = (if s \<noteq> [] \<and> (hd s = CHR ''-'' \<or> hd s = CHR ''+'') then tl s else s)
      in if ds = [] then 0
         else (case uintValue ds 0 of
                 None \<Rightarrow> 0
               | Some n \<Rightarrow> if neg then max (- (2 ^ 63)) (- int n) else min (2 ^ 63 - 1) (int n)))"

datatype shown =
    ShowAction int string
  | ShowAtEnd
  | ShowPosition int
  | ShowAtStart
  | ShowUsage
  | ShowSeek int
  | ShowState StateAt
  | ShowUnknown

definition stepCommand :: "ReplayCursor \<Rightarrow> ReplayCursor \<times> shown list" where
  "stepCommand c =
     (case StepForward c of
        (c1, True) \<Rightarrow> (let st = GetStateAt c1 (cu_position c1)
           in (c1, case sa_CurrentAction st of None \<Rightarrow> [] | Some a \<Rightarrow> [ShowAction (sa_Position st) (tx_ToolName a)]))
      | (c1, False) \<Rightarrow> (c1, [ShowAtEnd]))"

definition backCommand :: "ReplayCursor \<Rightarrow> ReplayCursor \<times> shown list" where
  "backCommand c = (case StepBack c of (c1, True) \<Rightarrow> (c1, [ShowPosition (cu_position c1)]) | (c1, False) \<Rightarrow> (c1, [ShowAtStart]))"

definition gotoCommand :: "string list \<Rightarrow> ReplayCursor \<Rightarrow> ReplayCursor \<times> shown list" where
  "gotoCommand args c =
     (case args of
        [] \<Rightarrow> (c, [ShowUsage])
      | a # as \<Rightarrow> (let c1 = SeekToSequence c (atoiValue a) in (c1, [ShowSeek (cu_position c1)])))"

text \<open>\<open>None\<close>: the session ends.\<close>

definition debugCommand :: "string list \<Rightarrow> ReplayCursor \<Rightarrow> (ReplayCursor \<times> shown list) option" where
  "debugCommand parts c =
     (case parts of
        [] \<Rightarrow> Some (c, [])
      | cmd # args \<Rightarrow>
          if cmd = ''s'' \<or> cmd = ''step'' then Some (stepCommand c)
          else if cmd = ''b'' \<or> cmd = ''back'' then Some (backCommand c)
          else if cmd = ''g'' \<or> cmd = ''goto'' then Some (gotoCommand args c)
          else if cmd = ''p'' \<or> cmd = ''print'' then Some (c, [ShowState (GetStateAt c (cu_position c))])
          else if cmd = ''q'' \<or> cmd = ''quit'' \<or> cmd = ''exit'' then None
          else Some (c, [ShowUnknown]))"

fun debugSession :: "string list \<Rightarrow> ReplayCursor \<Rightarrow> ReplayCursor \<times> shown list" where
  "debugSession [] c = (c, [])"
| "debugSession (line # lines) c =
     (case debugCommand (splitFields [] line) c of
        None \<Rightarrow> (c, [])
      | Some (c1, out) \<Rightarrow> (case debugSession lines c1 of (c2, outs) \<Rightarrow> (c2, out @ outs)))"

section \<open>Sizes have a unit\<close>

lemma sizeLoop_spec:
  "n = bytes div 1024 ^ (ex + 1) \<Longrightarrow> dv = 1024 ^ (ex + 1) \<Longrightarrow> n \<ge> 1 \<Longrightarrow>
   \<exists>k. sizeLoop n dv ex = (1024 ^ (k + 1), k) \<and> 1 \<le> bytes div 1024 ^ (k + 1) \<and> bytes div 1024 ^ (k + 1) < 1024"
proof (induction n dv ex rule: sizeLoop.induct)
  case (1 n dv ex)
  show ?case
  proof (cases "n \<ge> 1024")
    case True
    have "n div 1024 = bytes div 1024 ^ (ex + 1 + 1)"
      unfolding 1(2) by (subst zdiv_zmult2_eq [symmetric]) (simp_all add: mult.commute)
    moreover have "dv * 1024 = 1024 ^ (ex + 1 + 1)" unfolding 1(3) by simp
    ultimately show ?thesis using 1(1) [OF True] True by (subst sizeLoop.simps) simp
  next
    case False
    with 1(2-4) show ?thesis by (subst sizeLoop.simps) (auto intro!: exI [of _ ex])
  qed
qed

lemma formatSize_unit:
  assumes "1024 \<le> bytes" "bytes < 2 ^ 63"
  obtains k where "k < 6" "formatSize fmt1 bytes = Some (fmt1 (of_int bytes / of_int (1024 ^ (k + 1))) @ '' '' @ [''KMGTPE'' ! k] @ ''B'')"
    "1024 ^ (k + 1) \<le> bytes" "bytes < 1024 ^ (k + 2)"
proof -
  from assms(1) have "1 \<le> bytes div 1024 ^ (0 + 1)" by simp
  with sizeLoop_spec [of "bytes div 1024" bytes 0 1024] obtain k where
    k: "sizeLoop (bytes div 1024) 1024 0 = (1024 ^ (k + 1), k)" "1 \<le> bytes div 1024 ^ (k + 1)" "bytes div 1024 ^ (k + 1) < 1024" by auto
  define d :: int where "d = 1024 ^ (k + 1)"
  have d: "0 < d" by (simp add: d_def)
  define n where "n = bytes div d"
  have n: "1 \<le> n" "n + 1 \<le> 1024" using k(2,3) by (simp_all add: n_def d_def)
  have b: "bytes = d * n + bytes mod d" by (simp add: n_def)
  have "d * 1 \<le> d * n" using n(1) d by (intro mult_left_mono) simp_all
  moreover have "d * n + d \<le> d * 1024" using mult_left_mono [OF n(2), of d] d by (simp add: distrib_left)
  ultimately have "d \<le> bytes" "bytes < d * 1024" using b pos_mod_sign [OF d, of bytes] pos_mod_bound [OF d, of bytes] by linarith+
  then have lo: "1024 ^ (k + 1) \<le> bytes" and hi: "bytes < 1024 ^ (k + 2)" by (simp_all add: d_def)
  have "k < 6"
  proof (rule ccontr)
    assume "\<not> k < 6"
    then have "(1024::int) ^ 7 \<le> 1024 ^ (k + 1)" by (intro power_increasing) simp_all
    with lo assms(2) show False by simp
  qed
  with that [of k] k(1) lo hi assms(1) show thesis by (simp add: formatSize_def)
qed

section \<open>Sessions of the debugger\<close>

lemma command_moves:
  "fst (stepCommand c) = moveCursor CForward c" "fst (backCommand c) = moveCursor CBack c"
  "fst (gotoCommand args c) = c \<or> (\<exists>sq. fst (gotoCommand args c) = moveCursor (CSeek sq) c)"
  by (auto simp: stepCommand_def backCommand_def gotoCommand_def Let_def split: list.split prod.split bool.split)

lemma debugCommand_cases:
  assumes "debugCommand parts c = Some r"
  obtains "r = stepCommand c" | "r = backCommand c" | args where "r = gotoCommand args c" | "fst r = c"
proof (cases parts)
  case Nil
  with assms that(4) show thesis by (auto simp: debugCommand_def)
next
  case (Cons cmd args)
  from assms [unfolded debugCommand_def Cons list.case] that show thesis by (metis fst_conv option.distinct(1) option.inject)
qed

lemma debugCommand_ok:
  assumes "debugCommand parts c = Some r" "cursor_ok sn c"
  shows "cursor_ok sn (fst r)"
  using assms(1)
proof (cases rule: debugCommand_cases)
  case (3 args)
  with command_moves(3) [of args c] cursor_ok_move [OF assms(2)] assms(2) show ?thesis by metis
qed (use assms(2) in \<open>simp_all only: command_moves cursor_ok_move\<close>)

lemma debugSession_Cons:
  "debugSession (line # lines) c =
     (case debugCommand (splitFields [] line) c of None \<Rightarrow> (c, [])
      | Some r \<Rightarrow> (fst (debugSession lines (fst r)), snd r @ snd (debugSession lines (fst r))))"
  by (simp add: case_prod_unfold split: option.split)

lemma debugSession_ok: "cursor_ok sn c \<Longrightarrow> cursor_ok sn (fst (debugSession lines c))"
proof (induction lines arbitrary: c)
  case (Cons line lines)
  from Cons.IH [OF debugCommand_ok [OF _ Cons.prems]] Cons.prems show ?case
    by (auto simp: debugSession_Cons simp del: debugSession.simps split: option.split)
qed simp

lemma step_line: "splitFields [] ''s'' = [''s'']"
  by (simp add: fieldSpace_def)

lemma step_shows:
  assumes "cu_snapshot c = sn" "cu_position c = int k" "k < length (sn_ToolCalls sn)"
  shows "debugCommand [''s''] c = Some (c\<lparr>cu_position := int (Suc k)\<rparr>, [ShowAction (int (Suc k)) (tx_ToolName (sn_ToolCalls sn ! k))])"
  using assms by (simp add: debugCommand_def stepCommand_def StepForward_def CanStepForward_def GetStateAt_def clampSequence_def Let_def)

lemma step_at_end: "cu_position c = int (length (sn_ToolCalls (cu_snapshot c))) \<Longrightarrow> debugCommand [''s''] c = Some (c, [ShowAtEnd])"
  by (simp add: debugCommand_def stepCommand_def StepForward_def CanStepForward_def)

lemma steps_show:
  "cu_snapshot c = sn \<Longrightarrow> cu_position c = int k \<Longrightarrow> k + m = length (sn_ToolCalls sn) \<Longrightarrow>
   snd (debugSession (replicate m ''s'' @ [''s'']) c) =
     map (\<lambda>i. ShowAction (int (Suc i)) (tx_ToolName (sn_ToolCalls sn ! i))) [k..<k + m] @ [ShowAtEnd]"
proof (induction m arbitrary: c k)
  case 0
  then show ?case by (simp add: debugSession_Cons step_line step_at_end del: debugSession.simps(2) splitFields.simps)
next
  case (Suc m)
  from Suc.prems have k: "k < length (sn_ToolCalls sn)" by simp
  have "[k..<k + Suc m] = k # [Suc k..<Suc k + m]" by (simp add: upt_conv_Cons)
  moreover have "snd (debugSession (replicate m ''s'' @ [''s'']) (c\<lparr>cu_position := int (Suc k)\<rparr>)) =
      map (\<lambda>i. ShowAction (int (Suc i)) (tx_ToolName (sn_ToolCalls sn ! i))) [Suc k..<Suc k + m] @ [ShowAtEnd]"
    using Suc.prems by (intro Suc.IH) simp_all
  ultimately show ?case
    by (simp add: debugSession_Cons step_line step_shows [OF Suc.prems(1,2) k] del: debugSession.simps(2) splitFields.simps of_nat_Suc upt_Suc)
qed

section \<open>Replays of stored runs\<close>

lemma storedCall_keys:
  "storedCall rawjson ex = Some ex' \<Longrightarrow> tx_ToolName ex' = tx_ToolName ex \<and> tx_Sequence ex' = tx_Sequence ex"
  by (auto simp: storedCall_def split: option.splits prod.splits)

lemma those_map_keys:
  assumes "\<And>x y. f x = Some y \<Longrightarrow> g y = h x"
  shows "those (map f xs) = Some ys \<Longrightarrow> map g ys = map h xs"
  using assms by (induction xs arbitrary: ys) (auto split: option.splits)

lemma those_map_defined: "\<forall>x \<in> set xs. f x \<noteq> None \<Longrightarrow> \<exists>ys. those (map f xs) = Some ys"
  by (induction xs) (auto split: option.split)

lemma snapshotCalls_effects: "\<forall>ex \<in> set calls. tx_SideEffects ex = [] \<Longrightarrow> \<forall>ex \<in> set (snapshotCalls marshal recs calls). tx_SideEffects ex = []"
  by (induction marshal recs calls rule: snapshotCalls.induct) (auto simp: callOf_def split: option.splits)

lemma storedCalls_keys:
  assumes "\<forall>ex \<in> set exs. rawjson (tx_Input ex) \<noteq> None \<and> rawjson (tx_Output ex) \<noteq> None \<and> tx_SideEffects ex = []"
  shows "map tx_ToolName (storedCalls rawjson exs) = map tx_ToolName exs \<and> map tx_Sequence (storedCalls rawjson exs) = map tx_Sequence exs"
proof -
  have "\<forall>ex \<in> set exs. storedCall rawjson ex \<noteq> None" using assms by (auto simp: storedCall_def)
  from those_map_defined [OF this] obtain ys where ys: "those (map (storedCall rawjson) exs) = Some ys" ..
  from those_map_keys [OF _ ys, of tx_ToolName tx_ToolName] those_map_keys [OF _ ys, of tx_Sequence tx_Sequence] show ?thesis
    by (simp add: storedCalls_def ys storedCall_keys)
qed

section \<open>Properties\<close>

text \<open>
  What the command \<open>run\<close> stores, the command \<open>replay run\<close> replays: when the inputs and outputs of the run are JSON and the snapshot is written, the exact replay under its identifier ends without
  a divergence and goes through the tools of the run's history, in order and numbered from 1. In the debugger, as many steps as there are calls show the same tools, and one more is at the end.
\<close>

theorem stored_run_replays:
  assumes "rf_storePath fl \<noteq> []" "ce_open ce = None" "ce_snapErr ce = None" "runRun fl env ce budget d p = (d', x, p', Inr state)"
    and "sn = buildSnapshotFromState (se_marshal env) (ce_snapID ce) (ce_now ce) state"
    and "\<forall>ex \<in> set (sn_ToolCalls sn). ce_rawjson ce (tx_Input ex) \<noteq> None \<and> ce_rawjson ce (tx_Output ex) \<noteq> None"
    and "yf_mode yf = ''exact''" "yf_storePath yf \<noteq> []" "yf_start yf = 0" "yf_stop yf = 0" "\<not> yf_sideEffects yf"
  shows "(\<exists>r. replayRun cd renv tools yf (cb_snapshots d') None (sn_ID sn) = Inr (r, []) \<and> rs_Success r \<and> rs_Divergences r = [] \<and>
      map sp_Tool (rs_Trace r) = map tc_Tool (List.map_filter sr_Action (as_History state)) \<and> map sp_Seq (rs_Trace r) = map (\<lambda>i. int i + 1) [0..<length (rs_Trace r)]) \<and>
    snd (debugSession (replicate (length (sn_ToolCalls sn)) ''s'' @ [''s'']) (NewReplayCursor sn)) =
      map (\<lambda>i. ShowAction (int (Suc i)) (map tc_Tool (List.map_filter sr_Action (as_History state)) ! i)) [0..<length (sn_ToolCalls sn)] @ [ShowAtEnd]"
proof -
  let ?calls = "sn_ToolCalls sn"
  have keys: "map tx_ToolName ?calls = map tc_Tool (List.map_filter sr_Action (as_History state))" "map tx_Sequence ?calls = map (\<lambda>i. int i + 1) [0..<length ?calls]"
    using snapshotCalls_spec [of "[]" "se_marshal env" "as_History state"] by (simp_all add: assms(5) buildSnapshotFromState_def Let_def)
  have eff: "\<forall>ex \<in> set ?calls. tx_SideEffects ex = []" using snapshotCalls_effects [of "[]" "se_marshal env" "as_History state"] by (simp add: assms(5) buildSnapshotFromState_def Let_def)
  have "d' = storeRun env ce state d" using runRun_stored [OF assms(4,1,2)] .
  then obtain sn' where sn': "LoadSnapshot (cb_snapshots d') None (sn_ID sn) = Inr sn'" "sn_ToolCalls sn' = storedCalls (ce_rawjson ce) ?calls"
    by (simp add: storeRun_def SaveSnapshot_def LoadSnapshot_def assms(3,5))
  from storedCalls_keys [of ?calls "ce_rawjson ce"] assms(6) eff keys
  have keys': "map tx_ToolName (sn_ToolCalls sn') = map tx_ToolName ?calls" "map tx_Sequence (sn_ToolCalls sn') = map (\<lambda>i. int i + 1) [0..<length ?calls]" by (simp_all add: sn'(2))
  then have len: "length (sn_ToolCalls sn') = length ?calls" by (metis length_map)
  let ?opts = "\<lparr>op_Mode = yf_mode yf, op_SnapshotID = sn_ID sn, op_StartFromSequence = yf_start yf, op_StopAtSequence = yf_stop yf, op_Breakpoints = yf_breakpoints yf,
    op_OverrideConfig = [], op_ExecuteSideEffects = yf_sideEffects yf, op_VerifyOutputs = True\<rparr>"
  from replayExact_all [of ?opts "renv\<lparr>rv_live := None\<rparr>" sn'] assms(9-11) obtain r where
    r: "replayExact (renv\<lparr>rv_live := None\<rparr>) sn' ?opts (newResult (renv\<lparr>rv_live := None\<rparr>) sn' ?opts) = Inr (r, [])"
      "rs_Trace r = map (recordedStep ?opts ''recorded'') (sn_ToolCalls sn')" "rs_Success r" "rs_Divergences r = []" by auto
  have "replayRun cd renv tools yf (cb_snapshots d') None (sn_ID sn) = Inr (r, [])"
    using r(1) assms(7,8) by (simp add: replayRun_def sn'(1) Replay_def Let_def)
  moreover have "map sp_Tool (rs_Trace r) = map tx_ToolName (sn_ToolCalls sn')" "map sp_Seq (rs_Trace r) = map tx_Sequence (sn_ToolCalls sn')"
    by (simp_all add: r(2) recordedStep_def)
  moreover have "snd (debugSession (replicate (length ?calls) ''s'' @ [''s'']) (NewReplayCursor sn)) = map (\<lambda>i. ShowAction (int (Suc i)) (tx_ToolName (?calls ! i))) [0..<length ?calls] @ [ShowAtEnd]"
    using steps_show [of "NewReplayCursor sn" sn 0 "length ?calls"] by (simp add: NewReplayCursor_def del: of_nat_Suc)
  moreover have "map (\<lambda>i. ShowAction (int (Suc i)) (tx_ToolName (?calls ! i))) [0..<length ?calls] = map (\<lambda>i. ShowAction (int (Suc i)) (map tx_ToolName ?calls ! i)) [0..<length ?calls]" by simp
  ultimately show ?thesis using r(3,4) keys keys' len by (auto simp: r(2) simp del: of_nat_Suc)
qed

text \<open>
  Whatever is typed into the debugger, the cursor stays on the snapshot, between the start and the last call; and every size of 64 bits is shown with one of the six units, the one that makes
  the number at least 1 and less than 1024.
\<close>

theorem debugger_stays_inside:
  "cursor_ok sn (fst (debugSession lines (NewReplayCursor sn))) \<and>
   (1024 \<le> bytes \<and> bytes < 2 ^ 63 \<longrightarrow>
      (\<exists>k < 6. formatSize fmt1 bytes = Some (fmt1 (of_int bytes / of_int (1024 ^ (k + 1))) @ '' '' @ [''KMGTPE'' ! k] @ ''B'') \<and> 1024 ^ (k + 1) \<le> bytes \<and> bytes < 1024 ^ (k + 2)))"
proof -
  have "cursor_ok sn (NewReplayCursor sn)" by (simp add: cursor_ok_def NewReplayCursor_def)
  then show ?thesis by (auto intro: debugSession_ok elim!: formatSize_unit [of bytes fmt1])
qed

end
