(* ===== verification/Spec2Isabelle.thy ===== *)
theory Spec2Isabelle
  imports Workflow_Executor Policy_Engine Policy_Simulator Rate_Limiter Runner Workflow_Engine Replay_Replayer
    Cost_Tracker Risk_Engine Context_Engine Auto_Scaler Ab_Test Tenancy Audit_Log Collaboration Memory Run_Sync Event_Stream Knowledge Operator
    Policy_Audit Debugger Sla_Monitor Step_Executor Plugin_Registry Marketplace
    Backup Model_Performance Workflow_Api Risk_Reports Api_Handlers Tool_Plugins Workflow_Templates Agent_Errors Postgres_Store
    Run_Command Workflow_Command Replay_Command
begin

text \<open>
  A verification development of the agent platform under \<open>src/\<close> (module \<open>unagnt\<close>, written in Go): a server
  that runs language-model agents under policies, alone or in workflows, and records what they did.

  \<^bold>\<open>The program.\<close> A request enters through a webhook, a trigger, the scheduler or the API, becomes a queued run, and a worker
  hands it to the runner, which calls the agent loop. The loop asks a planner for an action, the policy executor decides whether the
  tool may run, an approval queue may hold it back, and a recorder writes down what happened. Workflows are graphs whose nodes are
  agent runs: the graph is levelled, each level runs one goroutine per node, and the state is checkpointed after each level. Around
  this core stand the stores (runs, events, histories, dead letters, key-value memory, snapshots, policy versions), the accounting
  (costs, budgets, rate limits, risk scores, service levels, audit and compliance reports), access control (sessions, tenants, roles),
  services over runs (A/B tests, auto scaling, collaboration, context assembly, replay, synchronisation, debugging), the registry of
  plug-ins and the marketplace of workflows, backups, a Kubernetes operator, and the HTTP handlers over all of these.

  \<^bold>\<open>How code is modelled.\<close> A Go struct is a record whose fields keep the source's names behind a short prefix, a Go map an
  association list without repeated keys, an enumeration a string constant where the code compares strings, \<open>interface{}\<close> the
  datatype \<open>any\<close> of \<open>Go_Prelude\<close>, an error a value of \<open>gerror\<close> with its wrapping chain. A method that changes
  its receiver returns the new state with its results. Database tables are association lists in row order, with the uniqueness
  constraints of the schema; what the driver, the clock, the network or a third-party package answers is an argument of the
  definition that asks. Map iteration and goroutine interleaving are arguments too (an order, a schedule), and the theorems hold for
  every one of them. \<open>float64\<close> values are exact rationals, with infinities and NaN added where the code can divide by
  zero, so an equation between sums of them holds of the program up to rounding; what is proved of the accounting is therefore stated for its
  integer counters. Integers are \<open>int\<close>, with the wrap-around at 64 bits written out (\<open>wrap64\<close>) where sizes come from outside and are added or multiplied
  (counters of usage, durations made of a configured number), and words where the code relies on their width (the FNV hash of \<open>Ab_Test\<close>). Methods that
  hold a lock, and single statements on a database, are atomic steps; where a theory joins more than one of those in a step, its first lines say so.

  \<^bold>\<open>Theories and sources.\<close>
  \<^item> \<open>Go_Prelude\<close>: errors, dynamic values, maps, strings, sorting, folds that stop at the first error; the collections of
    simplification rules the components share.
  \<^item> \<open>Workflow_Dag\<close>, \<open>Workflow_Levels\<close> (\<open>pkg/workflow/dag.go\<close>): construction, cycle detection, validation, levels and
    topological order. Cycle detection is equivalent to cyclicity of the edge relation, levels are canonical and respect the edges.
  \<^item> \<open>Workflow_State\<close>, \<open>Workflow_Executor\<close> (\<open>state.go\<close>, \<open>executor.go\<close>): checkpoints and the execution of levels as a
    step relation over interleaved goroutines; status, dependency order, termination under fair schedules, resumption.
  \<^item> \<open>Approval_Queue\<close> (\<open>pkg/policy/approval_queue_*.go\<close>): the interface as a locale, interpreted by the three queues.
  \<^item> \<open>Agent_Runtime\<close> (\<open>pkg/runtime\<close>): step, loop, autonomy, replay, delegation; bounds and replay round trip.
  \<^item> \<open>Policy_Engine\<close>, \<open>Policy_Versions\<close>, \<open>Policy_Simulator\<close> (\<open>pkg/policy\<close>, \<open>pkg/tool\<close>): first-match evaluation,
    enforcement of denials and approvals along whole agent runs, version history, dry runs.
  \<^item> \<open>Rate_Limiter\<close>, \<open>Run_Queue\<close>, \<open>Runner\<close>, \<open>Workflow_Engine\<close> (\<open>pkg/orchestrate\<close>): admission, queueing (a locale
    for the two backends, extended for the one that waits, whose worker serves all that is accepted), execution with retries and dead letters, step lists and model routing.
  \<^item> \<open>Replay_Recorder\<close>, \<open>Replay_Replayer\<close> (\<open>pkg/replay\<close>): snapshots and the five modes of replay; what was recorded
    replays.
  \<^item> \<open>Cost_Tracker\<close> (\<open>pkg/cost\<close>): prices (a locale for the providers), accumulation, flushing, budgets; conservation of usage.
  \<^item> \<open>Risk_Engine\<close> (\<open>pkg/risk/engine.go\<close>): factor scores, weighted mean, level and decision.
  \<^item> \<open>Context_Engine\<close> (\<open>pkg/context\<close>): parallel fetching and assembly, with a bound on its size from the token budget (a locale for token counters).
  \<^item> \<open>Auto_Scaler\<close>, \<open>Ab_Test\<close> (\<open>pkg/autoscaling\<close>, \<open>pkg/abtest\<close>): replica bounds, traffic split.
  \<^item> \<open>Auth_Session\<close>, \<open>Tenancy\<close> (\<open>pkg/auth\<close>, \<open>pkg/tenancy\<close>): sessions, tenants, roles and the chain of middlewares; whether the driver enforces
    foreign keys is an argument.
  \<^item> \<open>Audit_Log\<close> (\<open>pkg/security\<close>): keys, rotation, the encrypted log and its round trip.
  \<^item> \<open>Collaboration\<close> (\<open>pkg/collaboration\<close>): the router refines bounded mailboxes.
  \<^item> \<open>Memory\<close>, \<open>Run_Store\<close>, \<open>Postgres_Store\<close> (\<open>pkg/memory\<close>, \<open>internal/store\<close>): memory tiers (a locale for the two key-value
    stores), runs, events (a locale for the two databases), histories, dead letters and their pruning.
  \<^item> \<open>Http_Server\<close>, \<open>Webhooks\<close>, \<open>Event_Stream\<close> (\<open>pkg/orchestrate\<close>): admission and the handlers of runs, authentic webhooks and
    the runs they queue, the hub that delivers events in order.
  \<^item> \<open>Run_Sync\<close> (\<open>pkg/sync\<close>, \<open>pkg/api/sync.go\<close>): push and pull between two run tables, after which both agree on every run.
  \<^item> \<open>Tool_Sources\<close>, \<open>Step_Executor\<close> (\<open>pkg/tool/builtin\<close>, \<open>pkg/mcp\<close>, \<open>pkg/llm/planner.go\<close>, \<open>internal/config\<close>,
    \<open>pkg/orchestrate/runtime_executor.go\<close>): the tools a step offers, the planner, and a whole workflow step, in which every call follows
    the policy and the approvals. \<open>Go_Paths\<close> holds the functions on file names they use.
  \<^item> \<open>Run_Command\<close> (\<open>cmd/unagnt/run.go\<close>): the local run under a budget, a policy and an approval, what it stores, and its result. It shares
    the locale \<open>guarded_executor\<close> with \<open>Step_Executor\<close>: every call a run makes is one its executor permits.
  \<^item> \<open>Workflow_Command\<close>, \<open>Replay_Command\<close> (\<open>cmd/unagnt/workflow.go\<close>, \<open>replay.go\<close>): the graph a workflow file stands for, its run and its
    validation; the replay of what \<open>Run_Command\<close> stored, and the debugger over the cursor.
  \<^item> \<open>Tool_Plugins\<close>, \<open>Plugin_Registry\<close>, \<open>Marketplace\<close> (\<open>pkg/tool\<close>, \<open>pkg/registry\<close>): loaders of plug-ins (a locale for the two
    kinds), the gate through which a plug-in is published, templates with their ratings and downloads.
  \<^item> \<open>Workflow_Templates\<close>, \<open>Debugger\<close>, \<open>Workflow_Api\<close> (\<open>pkg/workflow\<close>, \<open>pkg/api/workflow.go\<close>, \<open>approvals.go\<close>): parameters of
    templates and conditions, debug sessions as a step relation in which breakpoints hold, and the handlers over both.
  \<^item> \<open>Knowledge\<close> (\<open>pkg/context\<close>): the providers of context, chunks and ranking.
  \<^item> \<open>Policy_Audit\<close>, \<open>Sla_Monitor\<close>, \<open>Model_Performance\<close>, \<open>Risk_Reports\<close>, \<open>Api_Handlers\<close> (\<open>pkg/policy/audit.go\<close>,
    \<open>pkg/monitoring\<close>, \<open>pkg/mlops\<close>, \<open>pkg/risk\<close>, \<open>pkg/api\<close>): the audit log and its exports (the CEF export can be read back), service levels, samples of model calls,
    compliance reports that account for their period, and the handlers that show them.
  \<^item> \<open>Backup\<close> (\<open>pkg/backup\<close>): backups over any storage, cleaning, failover and the routing of reads.
  \<^item> \<open>Operator\<close> (\<open>k8s/operator\<close>): the reconcilers as a state machine over the life of a workflow, for clients that read what is stored and clusters
    that leave a workflow's own objects alone.
  \<^item> \<open>Agent_Errors\<close> (\<open>pkg/errors\<close>, \<open>pkg/license\<close>): error codes along a chain of causes, and the licensed features.

  \<^bold>\<open>Bounds and fuel.\<close> Where a loop of the source need not end (the executor waiting for an approval, a worker waiting for a
  run) the model consumes an explicit list of answers or a schedule and returns an outcome that says it is still waiting; that a result is
  reached is then a theorem of its own (termination under fair schedules in \<open>Workflow_Executor\<close>, the worker that catches up in
  \<open>Run_Queue\<close>). Depth-first search and Kahn's algorithm run on fuel bounded by the number of nodes and edges, with lemmas that
  this much is always enough. Other loops are structural recursion over the data.

  \<^bold>\<open>Not modelled.\<close> Command-line front ends and daemons (\<open>cmd\<close>, except the theories named after commands and those of
  \<open>Run_Sync\<close>): flag parsing, printing and
  calls of the packages above. Start-up and generated code of the operator. Network clients of language models, of vector databases and of
  chat services, and telemetry exporters, which keep no state the program decides on. The GraphQL schema, which declares types to a
  library. The registry of \<open>pkg/mlops/registry.go\<close> and three handlers of \<open>pkg/api/analytics.go\<close>, which return sample values. The search
  of \<open>pkg/registry\<close>, whose order is a piece of SQL taken from the request. What the sources only call (CEL, YAML, JSON, SQL drivers,
  cryptography, the WebAssembly runtime, text templates) appears as arguments, with named hypotheses where a property relies on them.
\<close>

end
